(* ===== verification/Prelude.thy ===== *)
theory Prelude
  imports Main "HOL-Library.Word" "HOL-Library.Multiset" "HOL-Library.List_Lexorder"
    "HOL-Library.Char_ord"
begin

text \<open>
  Shared base of the development: names for the machine types of the program, the parts of
  the Rust standard library its code uses (string tests, saturating integers, stable sorting,
  hash maps with the entry interface), and the generic lemmas the components build on.

  Conventions.
  \<^item> A \<open>String\<close> is a list of bytes; the case and white-space functions act on the ASCII range.
  \<^item> A \<open>Uuid\<close> is its 128-bit value. Version-5 hashing, version-4 random values and the clock
    are code outside the repository: they are arguments of the definitions that use them.
  \<^item> A \<open>BigDecimal\<close> amount is a value of an ordered integral domain: the definitions are
    polymorphic in \<open>'d :: linordered_idom\<close>, whose laws are exactly the exact addition, negation,
    multiplication and comparison the crate documents. Division is inexact in the crate and is
    an argument of the definitions that divide.
  \<^item> A \<open>HashMap\<close> is an association list with distinct keys. Its iteration order is unspecified,
    so a definition that iterates a map takes the order as an argument, a function that permutes
    the entries.
\<close>

named_theorems codec_simps \<open>rules that evaluate the string encodings of the enumerations\<close>
named_theorems ledger_simps \<open>unfolding rules of the ledger derivations\<close>
named_theorems lease_simps \<open>unfolding rules of the lease operations\<close>

section \<open>Types\<close>

type_synonym u32 = "32 word"
type_synonym uuid = "128 word"
type_synonym timestamp = int
type_synonym worker = string

abbreviation uuid_nil :: uuid where
  "uuid_nil \<equiv> 0"

section \<open>Integers\<close>

definition i64_max :: int where
  "i64_max = 2 ^ 63 - 1"

definition i64_min :: int where
  "i64_min = - (2 ^ 63)"

definition i64_saturating_add :: "int \<Rightarrow> int \<Rightarrow> int" where
  "i64_saturating_add a b = max i64_min (min i64_max (a + b))"

text \<open>\<open>a - b\<close> on \<open>i64\<close> in a release build, which wraps around.\<close>

definition i64_wrapping_sub :: "int \<Rightarrow> int \<Rightarrow> int" where
  "i64_wrapping_sub a b = (a - b + 2 ^ 63) mod 2 ^ 64 - 2 ^ 63"

text \<open>Integer division rounds toward zero.\<close>

definition trunc_div :: "int \<Rightarrow> int \<Rightarrow> int" where
  "trunc_div a b = sgn a * sgn b * (\<bar>a\<bar> div \<bar>b\<bar>)"

definition usize_to_i64_or_max :: "nat \<Rightarrow> int" where
  "usize_to_i64_or_max n = (if int n \<le> i64_max then int n else i64_max)"

section \<open>Strings\<close>

definition lower_char :: "char \<Rightarrow> char" where
  "lower_char c =
     (let n = (of_char c :: nat) in if 65 \<le> n \<and> n \<le> 90 then char_of (n + 32) else c)"

definition to_lowercase :: "string \<Rightarrow> string" where
  "to_lowercase s = map lower_char s"

definition starts_with :: "string \<Rightarrow> string \<Rightarrow> bool" where
  "starts_with s p \<longleftrightarrow> take (length p) s = p"

fun contains_str :: "string \<Rightarrow> string \<Rightarrow> bool" where
  "contains_str [] p \<longleftrightarrow> p = []"
| "contains_str (c # cs) p \<longleftrightarrow> starts_with (c # cs) p \<or> contains_str cs p"

definition is_whitespace :: "char \<Rightarrow> bool" where
  "is_whitespace c \<longleftrightarrow> c \<in> set [CHR '' '', CHR 0x09, CHR 0x0A, CHR 0x0B, CHR 0x0C, CHR 0x0D]"

definition trim_start :: "string \<Rightarrow> string" where
  "trim_start s = dropWhile is_whitespace s"

definition trim :: "string \<Rightarrow> string" where
  "trim s = rev (dropWhile is_whitespace (rev (trim_start s)))"

definition is_ascii_digit :: "char \<Rightarrow> bool" where
  "is_ascii_digit c \<longleftrightarrow> 48 \<le> (of_char c :: nat) \<and> (of_char c :: nat) \<le> 57"

definition is_ascii_alphanumeric :: "char \<Rightarrow> bool" where
  "is_ascii_alphanumeric c \<longleftrightarrow> is_ascii_digit c
     \<or> 65 \<le> (of_char c :: nat) \<and> (of_char c :: nat) \<le> 90
     \<or> 97 \<le> (of_char c :: nat) \<and> (of_char c :: nat) \<le> 122"

text \<open>\<open>Display\<close> of an unsigned integer: its decimal digits, most significant first.\<close>

fun show_nat :: "nat \<Rightarrow> string" where
  "show_nat n =
     (if n < 10 then [char_of (48 + n)] else show_nat (n div 10) @ [char_of (48 + n mod 10)])"

declare show_nat.simps [simp del]

section \<open>Hash maps\<close>

text \<open>
  \<open>upsert k d f m\<close> is \<open>*m.entry(k).or_insert(d)\<close> updated by \<open>f\<close>; \<open>tally\<close> runs it over a
  slice, the accumulation loop that every aggregation of the program uses.
\<close>

fun upsert :: "'k \<Rightarrow> 'v \<Rightarrow> ('v \<Rightarrow> 'v) \<Rightarrow> ('k \<times> 'v) list \<Rightarrow> ('k \<times> 'v) list" where
  "upsert k d f [] = [(k, f d)]"
| "upsert k d f ((k', v) # m) = (if k = k' then (k', f v) # m else (k', v) # upsert k d f m)"

fun tally :: "('a \<Rightarrow> 'k) \<Rightarrow> 'v \<Rightarrow> ('a \<Rightarrow> 'v \<Rightarrow> 'v) \<Rightarrow> 'a list \<Rightarrow> ('k \<times> 'v) list \<Rightarrow> ('k \<times> 'v) list" where
  "tally key d f [] m = m"
| "tally key d f (x # xs) m = tally key d f xs (upsert (key x) d (f x) m)"

section \<open>Lemmas on integers and strings\<close>

lemma i64_saturating_add_exact:
  "i64_min \<le> a + b \<Longrightarrow> a + b \<le> i64_max \<Longrightarrow> i64_saturating_add a b = a + b"
  by (simp add: i64_saturating_add_def)

lemma i64_saturating_add_bounds:
  "i64_min \<le> i64_saturating_add a b" "i64_saturating_add a b \<le> i64_max"
  by (simp_all add: i64_saturating_add_def i64_min_def i64_max_def)

lemma i64_wrapping_sub_exact:
  "i64_min \<le> a - b \<Longrightarrow> a - b \<le> i64_max \<Longrightarrow> i64_wrapping_sub a b = a - b"
  by (simp add: i64_wrapping_sub_def i64_min_def i64_max_def)

lemma usize_to_i64_or_max_exact: "int n \<le> i64_max \<Longrightarrow> usize_to_i64_or_max n = int n"
  by (simp add: usize_to_i64_or_max_def)

lemma usize_to_i64_or_max_le [simp]: "usize_to_i64_or_max n \<le> i64_max"
  by (simp add: usize_to_i64_or_max_def)

lemma of_char_lower_char:
  "(of_char (lower_char c) :: nat) =
     (if 65 \<le> (of_char c :: nat) \<and> (of_char c :: nat) \<le> 90 then of_char c + 32 else of_char c)"
  by (auto simp: lower_char_def Let_def)

lemma lower_char_idem [simp]: "lower_char (lower_char c) = lower_char c"
  by (auto simp: lower_char_def Let_def)

lemma to_lowercase_idem [simp]: "to_lowercase (to_lowercase s) = to_lowercase s"
  by (simp add: to_lowercase_def)

lemma length_to_lowercase [simp]: "length (to_lowercase s) = length s"
  by (simp add: to_lowercase_def)

lemma starts_with_append [simp]: "starts_with (p @ s) p"
  by (simp add: starts_with_def)

lemma starts_with_iff: "starts_with s p \<longleftrightarrow> (\<exists>t. s = p @ t)"
  by (metis append_eq_conv_conj append_take_drop_id starts_with_def)

lemma contains_str_iff: "contains_str s p \<longleftrightarrow> (\<exists>a b. s = a @ p @ b)"
proof (induction s)
  case Nil
  then show ?case by auto
next
  case (Cons c s)
  have "(\<exists>a b. c # s = a @ p @ b) \<longleftrightarrow> starts_with (c # s) p \<or> (\<exists>a b. s = a @ p @ b)"
    unfolding starts_with_iff by (metis append_Cons append_Nil list.sel(3) neq_Nil_conv)
  with Cons show ?case by simp
qed

lemma show_nat_digits: "c \<in> set (show_nat n) \<Longrightarrow> is_ascii_digit c"
proof (induction n rule: show_nat.induct)
  case (1 n)
  have dig: "is_ascii_digit (char_of (48 + m))" if "m < 10" for m :: nat
    using that by (simp add: is_ascii_digit_def)
  show ?case
  proof (cases "n < 10")
    case True
    with "1.prems" dig show ?thesis by (simp add: show_nat.simps [of n])
  next
    case False
    with "1.prems" consider "c \<in> set (show_nat (n div 10))" | "c = char_of (48 + n mod 10)"
      by (auto simp: show_nat.simps [of n])
    then show ?thesis using "1.IH" False dig [of "n mod 10"] by cases auto
  qed
qed

lemma show_nat_nonempty [simp]: "show_nat n \<noteq> []"
  by (subst show_nat.simps) simp

lemma char_of_digit_inj: "a < 10 \<Longrightarrow> b < 10 \<Longrightarrow> char_of (48 + a) = (char_of (48 + b) :: char) \<Longrightarrow> a = (b::nat)"
  by (drule arg_cong [where f = "of_char :: char \<Rightarrow> nat"]) simp

lemma show_nat_inj: "show_nat m = show_nat n \<Longrightarrow> m = n"
proof (induction m arbitrary: n rule: show_nat.induct)
  case (1 m)
  show ?case
  proof (cases "m < 10")
    case True
    then have m: "show_nat m = [char_of (48 + m)]" by (simp add: show_nat.simps [of m])
    have n: "n < 10"
    proof (rule ccontr)
      assume "\<not> n < 10"
      then have "show_nat n = show_nat (n div 10) @ [char_of (48 + n mod 10)]"
        by (simp add: show_nat.simps [of n])
      with m "1.prems" show False by (cases "show_nat (n div 10)") auto
    qed
    with m "1.prems" True show ?thesis
      by (auto simp: show_nat.simps [of n] dest: char_of_digit_inj)
  next
    case False
    then have m: "show_nat m = show_nat (m div 10) @ [char_of (48 + m mod 10)]"
      by (simp add: show_nat.simps [of m])
    have n: "\<not> n < 10"
    proof
      assume "n < 10"
      then have "show_nat n = [char_of (48 + n)]" by (simp add: show_nat.simps [of n])
      with m "1.prems" show False by (cases "show_nat (m div 10)") auto
    qed
    then have "show_nat n = show_nat (n div 10) @ [char_of (48 + n mod 10)]"
      by (simp add: show_nat.simps [of n])
    with m "1.prems" have "show_nat (m div 10) = show_nat (n div 10)"
      and "char_of (48 + m mod 10) = (char_of (48 + n mod 10) :: char)" by auto
    with "1.IH" False have "m div 10 = n div 10" and "m mod 10 = n mod 10"
      by (auto dest: char_of_digit_inj [of "m mod 10" "n mod 10", rotated 2])
    then show ?thesis by (metis div_mult_mod_eq)
  qed
qed

section \<open>Lemmas on hash maps\<close>

lemma map_of_upsert:
  "map_of (upsert k d f m) = (map_of m)(k \<mapsto> f (case map_of m k of None \<Rightarrow> d | Some v \<Rightarrow> v))"
  by (induction m) (auto simp: fun_eq_iff)

lemma keys_upsert: "fst ` set (upsert k d f m) = insert k (fst ` set m)"
proof (induction m)
  case (Cons e m)
  then show ?case by (cases e) (simp add: insert_commute)
qed simp

lemma distinct_upsert: "distinct (map fst m) \<Longrightarrow> distinct (map fst (upsert k d f m))"
proof (induction m)
  case (Cons e m)
  have "fst ` set (upsert k d f m) = insert k (fst ` set m)" by (rule keys_upsert)
  with Cons show ?case by (cases e) auto
qed simp

lemma map_of_tally:
  "map_of (tally key d f xs m) k =
     (case filter (\<lambda>x. key x = k) xs of
        [] \<Rightarrow> map_of m k
      | ys \<Rightarrow> Some (fold f ys (case map_of m k of None \<Rightarrow> d | Some v \<Rightarrow> v)))"
  by (induction xs arbitrary: m) (auto simp: map_of_upsert split: list.splits option.splits)

lemma distinct_tally: "distinct (map fst m) \<Longrightarrow> distinct (map fst (tally key d f xs m))"
  by (induction xs arbitrary: m) (auto simp: distinct_upsert)

lemma keys_tally: "fst ` set (tally key d f xs m) = fst ` set m \<union> key ` set xs"
  by (induction xs arbitrary: m) (auto simp: keys_upsert)

lemma tally_entry_iff:
  "(k, v) \<in> set (tally key d f xs []) \<longleftrightarrow>
     k \<in> key ` set xs \<and> v = fold f (filter (\<lambda>x. key x = k) xs) d"
proof -
  have "(k, v) \<in> set (tally key d f xs []) \<longleftrightarrow> map_of (tally key d f xs []) k = Some v"
    by (simp add: distinct_tally)
  also have "\<dots> \<longleftrightarrow> k \<in> key ` set xs \<and> v = fold f (filter (\<lambda>x. key x = k) xs) d"
  proof (cases "filter (\<lambda>x. key x = k) xs")
    case Nil
    then have "k \<notin> key ` set xs" by (auto simp: filter_empty_conv)
    with Nil show ?thesis by (simp add: map_of_tally)
  next
    case (Cons y ys)
    then have "y \<in> set (filter (\<lambda>x. key x = k) xs)" by simp
    then have "k \<in> key ` set xs" by auto
    with Cons show ?thesis by (auto simp: map_of_tally)
  qed
  finally show ?thesis .
qed

text \<open>
  Sorting entries by a key on which they are distinct gives one list for every iteration order:
  the reason why a result that is sorted by its map key does not depend on the hash map.
\<close>

lemma sort_key_unique:
  assumes "mset xs = mset ys" and "distinct (map key xs)"
  shows "sort_key key xs = sort_key key ys"
proof (rule sort_key_inj_key_eq)
  show "mset xs = mset (sort_key key ys)" using assms(1) by simp
  show "inj_on key (set xs)" using assms(2) by (simp add: distinct_map)
  show "sorted (map key (sort_key key ys))" by simp
qed

lemma sort_key_eq_Nil: "sort_key f xs = [] \<longleftrightarrow> xs = []"
proof -
  have "sort_key f xs = [] \<longleftrightarrow> length (sort_key f xs) = 0" by (simp only: length_0_conv)
  then show ?thesis by simp
qed

lemma map_sum_Inr: "map_sum id g r = Inr x \<longleftrightarrow> (\<exists>y. r = Inr y \<and> x = g y)"
  by (cases r) auto

lemma map_sum_InrE: "map_sum id g r = Inr x \<Longrightarrow> (\<And>y. r = Inr y \<Longrightarrow> x = g y \<Longrightarrow> Q) \<Longrightarrow> Q"
  by (cases r) auto

end
