(* ===== verification/Core_Types.thy ===== *)
theory Core_Types
  imports Prelude
begin

text \<open>
  The enumerations of \<open>core/src/models.rs\<close> and \<open>core/src/v2.rs\<close>, their string encodings in SQL
  (\<open>adapters/src/v2_repo.rs\<close>, \<open>adapters/src/repo.rs\<close>) and in strum's \<open>Display\<close>/\<open>FromStr\<close>
  derivations, the JSON values of \<open>serde_json\<close> with the accessors the program calls, and the
  checkpoint builder of \<open>adapters/src/repo.rs\<close>. The locale \<open>enum_codec\<close> states what every pair of
  an encoder and a decoder promises; each pair of the program interprets it.
\<close>

type_synonym 'a result = "string + 'a"

section \<open>Enumerations\<close>

datatype chain =
    Chain_Solana
  | Chain_Hyperliquid
  | Chain_Ethereum

datatype entry_type =
    ET_Trade
  | ET_Fee
  | ET_Transfer
  | ET_Staking
  | ET_Income

datatype chain_family =
    CF_Solana
  | CF_Evm
  | CF_Hyperliquid

fun chain_family_from_chain :: "chain \<Rightarrow> chain_family" where
  "chain_family_from_chain Chain_Solana = CF_Solana"
| "chain_family_from_chain Chain_Ethereum = CF_Evm"
| "chain_family_from_chain Chain_Hyperliquid = CF_Hyperliquid"

datatype finality_model =
    FM_ProbabilisticSlot
  | FM_ProbabilisticBlock
  | FM_DeterministicBlock
  | FM_Instant

datatype target_kind =
    TK_Wallet
  | TK_Contract
  | TK_Program
  | TK_Account
  | TK_TopicFilter
  | TK_Market
  | TK_Pool
  | TK_Protocol

fun valid_for_chain_family :: "target_kind \<Rightarrow> chain_family \<Rightarrow> bool" where
  "valid_for_chain_family TK_Wallet _ = True"
| "valid_for_chain_family TK_Contract CF_Evm = True"
| "valid_for_chain_family TK_Contract _ = False"
| "valid_for_chain_family TK_Program CF_Solana = True"
| "valid_for_chain_family TK_Program _ = False"
| "valid_for_chain_family TK_Account CF_Solana = True"
| "valid_for_chain_family TK_Account CF_Evm = True"
| "valid_for_chain_family TK_Account CF_Hyperliquid = False"
| "valid_for_chain_family TK_TopicFilter CF_Evm = True"
| "valid_for_chain_family TK_TopicFilter _ = False"
| "valid_for_chain_family TK_Market CF_Hyperliquid = True"
| "valid_for_chain_family TK_Market _ = False"
| "valid_for_chain_family TK_Pool CF_Solana = True"
| "valid_for_chain_family TK_Pool CF_Evm = True"
| "valid_for_chain_family TK_Pool CF_Hyperliquid = False"
| "valid_for_chain_family TK_Protocol CF_Solana = True"
| "valid_for_chain_family TK_Protocol CF_Evm = True"
| "valid_for_chain_family TK_Protocol CF_Hyperliquid = False"

datatype target_mode =
    TM_Backfill
  | TM_Stream
  | TM_Both

datatype dataset_version_status =
    DVS_Active
  | DVS_Superseded
  | DVS_Failed

datatype completeness_status =
    CS_Partial
  | CS_Complete
  | CS_Backfilling
  | CS_Gap

datatype ingestion_job_status =
    IJ_Pending
  | IJ_Claimed
  | IJ_Running
  | IJ_Completed
  | IJ_Failed
  | IJ_Cancelled

datatype ingestion_job_mode =
    IJM_Backfill
  | IJM_Incremental
  | IJM_Stream

datatype stream_desired_status =
    SD_Active
  | SD_Paused
  | SD_Stopped

datatype stream_actual_status =
    SA_Pending
  | SA_Running
  | SA_Paused
  | SA_Stopped
  | SA_Error

datatype stream_source =
    SS_Grpc
  | SS_Ws
  | SS_Rpc

datatype export_job_status =
    EJ_Pending
  | EJ_Running
  | EJ_Delivering
  | EJ_Completed
  | EJ_Failed

datatype materialization_run_status =
    MR_Pending
  | MR_Running
  | MR_Completed
  | MR_Failed

section \<open>String encodings\<close>

text \<open>The SQL encodings of \<open>v2_repo.rs\<close>; a decoding error carries the message of the code.\<close>

fun chain_family_to_sql :: "chain_family \<Rightarrow> string" where
  "chain_family_to_sql CF_Solana = ''solana''"
| "chain_family_to_sql CF_Evm = ''evm''"
| "chain_family_to_sql CF_Hyperliquid = ''hyperliquid''"

definition sql_to_chain_family :: "string \<Rightarrow> chain_family result" where
  "sql_to_chain_family s = (if s = ''solana'' then Inr CF_Solana
     else if s = ''evm'' then Inr CF_Evm
     else if s = ''hyperliquid'' then Inr CF_Hyperliquid
     else Inl (''Unknown chain_family: '' @ s))"

fun target_kind_to_sql :: "target_kind \<Rightarrow> string" where
  "target_kind_to_sql TK_Wallet = ''wallet''"
| "target_kind_to_sql TK_Contract = ''contract''"
| "target_kind_to_sql TK_Program = ''program''"
| "target_kind_to_sql TK_Account = ''account''"
| "target_kind_to_sql TK_TopicFilter = ''topic_filter''"
| "target_kind_to_sql TK_Market = ''market''"
| "target_kind_to_sql TK_Pool = ''pool''"
| "target_kind_to_sql TK_Protocol = ''protocol''"

definition sql_to_target_kind :: "string \<Rightarrow> target_kind result" where
  "sql_to_target_kind s = (if s = ''wallet'' then Inr TK_Wallet
     else if s = ''contract'' then Inr TK_Contract
     else if s = ''program'' then Inr TK_Program
     else if s = ''account'' then Inr TK_Account
     else if s = ''topic_filter'' then Inr TK_TopicFilter
     else if s = ''market'' then Inr TK_Market
     else if s = ''pool'' then Inr TK_Pool
     else if s = ''protocol'' then Inr TK_Protocol
     else Inl (''Unknown target_kind: '' @ s))"

fun target_mode_to_sql :: "target_mode \<Rightarrow> string" where
  "target_mode_to_sql TM_Backfill = ''backfill''"
| "target_mode_to_sql TM_Stream = ''stream''"
| "target_mode_to_sql TM_Both = ''both''"

definition sql_to_target_mode :: "string \<Rightarrow> target_mode result" where
  "sql_to_target_mode s = (if s = ''backfill'' then Inr TM_Backfill
     else if s = ''stream'' then Inr TM_Stream
     else if s = ''both'' then Inr TM_Both
     else Inl (''Unknown target_mode: '' @ s))"

fun dataset_version_status_to_sql :: "dataset_version_status \<Rightarrow> string" where
  "dataset_version_status_to_sql DVS_Active = ''active''"
| "dataset_version_status_to_sql DVS_Superseded = ''superseded''"
| "dataset_version_status_to_sql DVS_Failed = ''failed''"

definition sql_to_dataset_version_status :: "string \<Rightarrow> dataset_version_status result" where
  "sql_to_dataset_version_status s = (if s = ''active'' then Inr DVS_Active
     else if s = ''superseded'' then Inr DVS_Superseded
     else if s = ''failed'' then Inr DVS_Failed
     else Inl (''Unknown dataset_version_status: '' @ s))"

fun completeness_status_to_sql :: "completeness_status \<Rightarrow> string" where
  "completeness_status_to_sql CS_Partial = ''partial''"
| "completeness_status_to_sql CS_Complete = ''complete''"
| "completeness_status_to_sql CS_Backfilling = ''backfilling''"
| "completeness_status_to_sql CS_Gap = ''gap''"

definition sql_to_completeness_status :: "string \<Rightarrow> completeness_status result" where
  "sql_to_completeness_status s = (if s = ''partial'' then Inr CS_Partial
     else if s = ''complete'' then Inr CS_Complete
     else if s = ''backfilling'' then Inr CS_Backfilling
     else if s = ''gap'' then Inr CS_Gap
     else Inl (''Unknown completeness_status: '' @ s))"

text \<open>The encodings of the legacy tables (\<open>repo.rs\<close>).\<close>

fun chain_to_str :: "chain \<Rightarrow> string" where
  "chain_to_str Chain_Solana = ''solana''"
| "chain_to_str Chain_Hyperliquid = ''hyperliquid''"
| "chain_to_str Chain_Ethereum = ''ethereum''"

definition str_to_chain :: "string \<Rightarrow> chain result" where
  "str_to_chain s = (if s = ''solana'' then Inr Chain_Solana
     else if s = ''hyperliquid'' then Inr Chain_Hyperliquid
     else if s = ''ethereum'' then Inr Chain_Ethereum
     else Inl (''Unknown chain: '' @ s))"

fun entry_type_to_str :: "entry_type \<Rightarrow> string" where
  "entry_type_to_str ET_Trade = ''trade''"
| "entry_type_to_str ET_Fee = ''fee''"
| "entry_type_to_str ET_Transfer = ''transfer''"
| "entry_type_to_str ET_Staking = ''staking''"
| "entry_type_to_str ET_Income = ''income''"

definition str_to_entry_type :: "string \<Rightarrow> entry_type result" where
  "str_to_entry_type s = (if s = ''trade'' then Inr ET_Trade
     else if s = ''fee'' then Inr ET_Fee
     else if s = ''transfer'' then Inr ET_Transfer
     else if s = ''staking'' then Inr ET_Staking
     else if s = ''income'' then Inr ET_Income
     else Inl (''Unknown entry type: '' @ s))"

text \<open>
  The derived \<open>Display\<close> and \<open>FromStr\<close> of the status enumerations: strum writes the variant's name
  in the case named by \<open>serialize_all\<close> and reads exactly those strings.
\<close>

definition strum_not_found :: string where
  "strum_not_found = ''Matching variant not found''"

fun finality_model_to_str :: "finality_model \<Rightarrow> string" where
  "finality_model_to_str FM_ProbabilisticSlot = ''probabilistic-slot''"
| "finality_model_to_str FM_ProbabilisticBlock = ''probabilistic-block''"
| "finality_model_to_str FM_DeterministicBlock = ''deterministic-block''"
| "finality_model_to_str FM_Instant = ''instant''"

definition finality_model_from_str :: "string \<Rightarrow> finality_model result" where
  "finality_model_from_str s = (if s = ''probabilistic-slot'' then Inr FM_ProbabilisticSlot
     else if s = ''probabilistic-block'' then Inr FM_ProbabilisticBlock
     else if s = ''deterministic-block'' then Inr FM_DeterministicBlock
     else if s = ''instant'' then Inr FM_Instant
     else Inl strum_not_found)"

fun ingestion_job_status_to_str :: "ingestion_job_status \<Rightarrow> string" where
  "ingestion_job_status_to_str IJ_Pending = ''pending''"
| "ingestion_job_status_to_str IJ_Claimed = ''claimed''"
| "ingestion_job_status_to_str IJ_Running = ''running''"
| "ingestion_job_status_to_str IJ_Completed = ''completed''"
| "ingestion_job_status_to_str IJ_Failed = ''failed''"
| "ingestion_job_status_to_str IJ_Cancelled = ''cancelled''"

definition ingestion_job_status_from_str :: "string \<Rightarrow> ingestion_job_status result" where
  "ingestion_job_status_from_str s = (if s = ''pending'' then Inr IJ_Pending
     else if s = ''claimed'' then Inr IJ_Claimed
     else if s = ''running'' then Inr IJ_Running
     else if s = ''completed'' then Inr IJ_Completed
     else if s = ''failed'' then Inr IJ_Failed
     else if s = ''cancelled'' then Inr IJ_Cancelled
     else Inl strum_not_found)"

fun ingestion_job_mode_to_str :: "ingestion_job_mode \<Rightarrow> string" where
  "ingestion_job_mode_to_str IJM_Backfill = ''backfill''"
| "ingestion_job_mode_to_str IJM_Incremental = ''incremental''"
| "ingestion_job_mode_to_str IJM_Stream = ''stream''"

definition ingestion_job_mode_from_str :: "string \<Rightarrow> ingestion_job_mode result" where
  "ingestion_job_mode_from_str s = (if s = ''backfill'' then Inr IJM_Backfill
     else if s = ''incremental'' then Inr IJM_Incremental
     else if s = ''stream'' then Inr IJM_Stream
     else Inl strum_not_found)"

fun stream_desired_status_to_str :: "stream_desired_status \<Rightarrow> string" where
  "stream_desired_status_to_str SD_Active = ''active''"
| "stream_desired_status_to_str SD_Paused = ''paused''"
| "stream_desired_status_to_str SD_Stopped = ''stopped''"

definition stream_desired_status_from_str :: "string \<Rightarrow> stream_desired_status result" where
  "stream_desired_status_from_str s = (if s = ''active'' then Inr SD_Active
     else if s = ''paused'' then Inr SD_Paused
     else if s = ''stopped'' then Inr SD_Stopped
     else Inl strum_not_found)"

fun stream_actual_status_to_str :: "stream_actual_status \<Rightarrow> string" where
  "stream_actual_status_to_str SA_Pending = ''pending''"
| "stream_actual_status_to_str SA_Running = ''running''"
| "stream_actual_status_to_str SA_Paused = ''paused''"
| "stream_actual_status_to_str SA_Stopped = ''stopped''"
| "stream_actual_status_to_str SA_Error = ''error''"

definition stream_actual_status_from_str :: "string \<Rightarrow> stream_actual_status result" where
  "stream_actual_status_from_str s = (if s = ''pending'' then Inr SA_Pending
     else if s = ''running'' then Inr SA_Running
     else if s = ''paused'' then Inr SA_Paused
     else if s = ''stopped'' then Inr SA_Stopped
     else if s = ''error'' then Inr SA_Error
     else Inl strum_not_found)"

fun stream_source_to_str :: "stream_source \<Rightarrow> string" where
  "stream_source_to_str SS_Grpc = ''grpc''"
| "stream_source_to_str SS_Ws = ''ws''"
| "stream_source_to_str SS_Rpc = ''rpc''"

definition stream_source_from_str :: "string \<Rightarrow> stream_source result" where
  "stream_source_from_str s = (if s = ''grpc'' then Inr SS_Grpc
     else if s = ''ws'' then Inr SS_Ws
     else if s = ''rpc'' then Inr SS_Rpc
     else Inl strum_not_found)"

fun export_job_status_to_str :: "export_job_status \<Rightarrow> string" where
  "export_job_status_to_str EJ_Pending = ''pending''"
| "export_job_status_to_str EJ_Running = ''running''"
| "export_job_status_to_str EJ_Delivering = ''delivering''"
| "export_job_status_to_str EJ_Completed = ''completed''"
| "export_job_status_to_str EJ_Failed = ''failed''"

definition export_job_status_from_str :: "string \<Rightarrow> export_job_status result" where
  "export_job_status_from_str s = (if s = ''pending'' then Inr EJ_Pending
     else if s = ''running'' then Inr EJ_Running
     else if s = ''delivering'' then Inr EJ_Delivering
     else if s = ''completed'' then Inr EJ_Completed
     else if s = ''failed'' then Inr EJ_Failed
     else Inl strum_not_found)"

fun materialization_run_status_to_str :: "materialization_run_status \<Rightarrow> string" where
  "materialization_run_status_to_str MR_Pending = ''pending''"
| "materialization_run_status_to_str MR_Running = ''running''"
| "materialization_run_status_to_str MR_Completed = ''completed''"
| "materialization_run_status_to_str MR_Failed = ''failed''"

definition materialization_run_status_from_str :: "string \<Rightarrow> materialization_run_status result" where
  "materialization_run_status_from_str s = (if s = ''pending'' then Inr MR_Pending
     else if s = ''running'' then Inr MR_Running
     else if s = ''completed'' then Inr MR_Completed
     else if s = ''failed'' then Inr MR_Failed
     else Inl strum_not_found)"

section \<open>The codec interface\<close>

locale enum_codec =
  fixes enc :: "'a \<Rightarrow> string" and dec :: "string \<Rightarrow> 'a result"
  assumes dec_enc [simp]: "dec (enc x) = Inr x"
    and dec_sound: "dec s = Inr x \<Longrightarrow> enc x = s"
begin

lemma enc_inj: "enc x = enc y \<longleftrightarrow> x = y"
  by (metis dec_enc sum.inject(2))

lemma dec_eq_iff: "dec s = Inr x \<longleftrightarrow> s = enc x"
  using dec_sound by auto

lemma dec_total: "(\<exists>x. dec s = Inr x) \<longleftrightarrow> s \<in> range enc"
  by (auto simp: dec_eq_iff)

lemma dec_error: "(\<exists>e. dec s = Inl e) \<longleftrightarrow> s \<notin> range enc"
  using dec_total by (metis sum.exhaust sum.distinct(1))

lemma dec_reencode: "map_sum id enc (dec s) = (case dec s of Inl e \<Rightarrow> Inl e | Inr _ \<Rightarrow> Inr s)"
  using dec_sound by (cases "dec s") auto

end

lemmas codec_defs =
  sql_to_chain_family_def
  sql_to_target_kind_def
  sql_to_target_mode_def
  sql_to_dataset_version_status_def
  sql_to_completeness_status_def
  str_to_chain_def
  str_to_entry_type_def
  finality_model_from_str_def
  ingestion_job_status_from_str_def
  ingestion_job_mode_from_str_def
  stream_desired_status_from_str_def
  stream_actual_status_from_str_def
  stream_source_from_str_def
  export_job_status_from_str_def
  materialization_run_status_from_str_def

interpretation cf_codec: enum_codec chain_family_to_sql sql_to_chain_family
proof
  show "sql_to_chain_family (chain_family_to_sql x) = Inr x" for x by (cases x) (simp_all add: sql_to_chain_family_def)
  show "chain_family_to_sql x = s" if "sql_to_chain_family s = Inr x" for s x
    using that by (simp add: sql_to_chain_family_def split: if_splits)
qed

interpretation tk_codec: enum_codec target_kind_to_sql sql_to_target_kind
proof
  show "sql_to_target_kind (target_kind_to_sql x) = Inr x" for x by (cases x) (simp_all add: sql_to_target_kind_def)
  show "target_kind_to_sql x = s" if "sql_to_target_kind s = Inr x" for s x
    using that by (simp add: sql_to_target_kind_def split: if_splits)
qed

interpretation tm_codec: enum_codec target_mode_to_sql sql_to_target_mode
proof
  show "sql_to_target_mode (target_mode_to_sql x) = Inr x" for x by (cases x) (simp_all add: sql_to_target_mode_def)
  show "target_mode_to_sql x = s" if "sql_to_target_mode s = Inr x" for s x
    using that by (simp add: sql_to_target_mode_def split: if_splits)
qed

interpretation dvs_codec: enum_codec dataset_version_status_to_sql sql_to_dataset_version_status
proof
  show "sql_to_dataset_version_status (dataset_version_status_to_sql x) = Inr x" for x by (cases x) (simp_all add: sql_to_dataset_version_status_def)
  show "dataset_version_status_to_sql x = s" if "sql_to_dataset_version_status s = Inr x" for s x
    using that by (simp add: sql_to_dataset_version_status_def split: if_splits)
qed

interpretation cs_codec: enum_codec completeness_status_to_sql sql_to_completeness_status
proof
  show "sql_to_completeness_status (completeness_status_to_sql x) = Inr x" for x by (cases x) (simp_all add: sql_to_completeness_status_def)
  show "completeness_status_to_sql x = s" if "sql_to_completeness_status s = Inr x" for s x
    using that by (simp add: sql_to_completeness_status_def split: if_splits)
qed

interpretation chain_codec: enum_codec chain_to_str str_to_chain
proof
  show "str_to_chain (chain_to_str x) = Inr x" for x by (cases x) (simp_all add: str_to_chain_def)
  show "chain_to_str x = s" if "str_to_chain s = Inr x" for s x
    using that by (simp add: str_to_chain_def split: if_splits)
qed

interpretation et_codec: enum_codec entry_type_to_str str_to_entry_type
proof
  show "str_to_entry_type (entry_type_to_str x) = Inr x" for x by (cases x) (simp_all add: str_to_entry_type_def)
  show "entry_type_to_str x = s" if "str_to_entry_type s = Inr x" for s x
    using that by (simp add: str_to_entry_type_def split: if_splits)
qed

interpretation fm_codec: enum_codec finality_model_to_str finality_model_from_str
proof
  show "finality_model_from_str (finality_model_to_str x) = Inr x" for x by (cases x) (simp_all add: finality_model_from_str_def)
  show "finality_model_to_str x = s" if "finality_model_from_str s = Inr x" for s x
    using that by (simp add: finality_model_from_str_def split: if_splits)
qed

interpretation ijs_codec: enum_codec ingestion_job_status_to_str ingestion_job_status_from_str
proof
  show "ingestion_job_status_from_str (ingestion_job_status_to_str x) = Inr x" for x by (cases x) (simp_all add: ingestion_job_status_from_str_def)
  show "ingestion_job_status_to_str x = s" if "ingestion_job_status_from_str s = Inr x" for s x
    using that by (simp add: ingestion_job_status_from_str_def split: if_splits)
qed

interpretation ijm_codec: enum_codec ingestion_job_mode_to_str ingestion_job_mode_from_str
proof
  show "ingestion_job_mode_from_str (ingestion_job_mode_to_str x) = Inr x" for x by (cases x) (simp_all add: ingestion_job_mode_from_str_def)
  show "ingestion_job_mode_to_str x = s" if "ingestion_job_mode_from_str s = Inr x" for s x
    using that by (simp add: ingestion_job_mode_from_str_def split: if_splits)
qed

interpretation sds_codec: enum_codec stream_desired_status_to_str stream_desired_status_from_str
proof
  show "stream_desired_status_from_str (stream_desired_status_to_str x) = Inr x" for x by (cases x) (simp_all add: stream_desired_status_from_str_def)
  show "stream_desired_status_to_str x = s" if "stream_desired_status_from_str s = Inr x" for s x
    using that by (simp add: stream_desired_status_from_str_def split: if_splits)
qed

interpretation sas_codec: enum_codec stream_actual_status_to_str stream_actual_status_from_str
proof
  show "stream_actual_status_from_str (stream_actual_status_to_str x) = Inr x" for x by (cases x) (simp_all add: stream_actual_status_from_str_def)
  show "stream_actual_status_to_str x = s" if "stream_actual_status_from_str s = Inr x" for s x
    using that by (simp add: stream_actual_status_from_str_def split: if_splits)
qed

interpretation ssrc_codec: enum_codec stream_source_to_str stream_source_from_str
proof
  show "stream_source_from_str (stream_source_to_str x) = Inr x" for x by (cases x) (simp_all add: stream_source_from_str_def)
  show "stream_source_to_str x = s" if "stream_source_from_str s = Inr x" for s x
    using that by (simp add: stream_source_from_str_def split: if_splits)
qed

interpretation ejs_codec: enum_codec export_job_status_to_str export_job_status_from_str
proof
  show "export_job_status_from_str (export_job_status_to_str x) = Inr x" for x by (cases x) (simp_all add: export_job_status_from_str_def)
  show "export_job_status_to_str x = s" if "export_job_status_from_str s = Inr x" for s x
    using that by (simp add: export_job_status_from_str_def split: if_splits)
qed

interpretation mrs_codec: enum_codec materialization_run_status_to_str materialization_run_status_from_str
proof
  show "materialization_run_status_from_str (materialization_run_status_to_str x) = Inr x" for x by (cases x) (simp_all add: materialization_run_status_from_str_def)
  show "materialization_run_status_to_str x = s" if "materialization_run_status_from_str s = Inr x" for s x
    using that by (simp add: materialization_run_status_from_str_def split: if_splits)
qed

section \<open>JSON\<close>

text \<open>
  \<open>serde_json::Value\<close>. A number is an integer in the \<open>i64\<close>/\<open>u64\<close> range or a float, kept as its
  text. \<open>get\<close> on an object is the lookup of a key, \<open>None\<close> on every other value.
\<close>

datatype json =
    JNull
  | JBool bool
  | JInt int
  | JFloat string
  | JString string
  | JArray "json list"
  | JObject "(string \<times> json) list"

fun json_get :: "json \<Rightarrow> string \<Rightarrow> json option" where
  "json_get (JObject m) k = map_of m k"
| "json_get _ k = None"

fun json_as_i64 :: "json \<Rightarrow> int option" where
  "json_as_i64 (JInt i) = (if i64_min \<le> i \<and> i \<le> i64_max then Some i else None)"
| "json_as_i64 _ = None"

fun json_as_u64 :: "json \<Rightarrow> nat option" where
  "json_as_u64 (JInt i) = (if 0 \<le> i \<and> i < 2 ^ 64 then Some (nat i) else None)"
| "json_as_u64 _ = None"

fun json_as_str :: "json \<Rightarrow> string option" where
  "json_as_str (JString s) = Some s"
| "json_as_str _ = None"

fun json_as_bool :: "json \<Rightarrow> bool option" where
  "json_as_bool (JBool b) = Some b"
| "json_as_bool _ = None"

fun json_as_array :: "json \<Rightarrow> json list option" where
  "json_as_array (JArray xs) = Some xs"
| "json_as_array _ = None"

text \<open>\<open>v[k]\<close>: indexing a value that has no such key gives \<open>Null\<close>.\<close>

definition json_index :: "json \<Rightarrow> string \<Rightarrow> json" where
  "json_index v k = (case json_get v k of None \<Rightarrow> JNull | Some w \<Rightarrow> w)"

section \<open>Legacy transactions and checkpoints\<close>

record transaction =
  tx_id :: uuid
  tx_user_id :: uuid
  tx_wallet_address :: string
  tx_timestamp :: int
  tx_hash :: string
  tx_chain :: chain
  tx_raw_metadata :: json

record indexer_checkpoint =
  ck_chain :: chain
  ck_wallet_address :: string
  ck_last_signature :: "string option"
  ck_last_slot :: "int option"
  ck_last_block :: "int option"
  ck_last_timestamp :: "int option"

definition finality_buffer :: "string \<Rightarrow> int" where
  "finality_buffer chain =
     (if chain = ''solana'' then 32 else if chain = ''ethereum'' then 15 else 0)"

text \<open>\<open>max_by_key\<close> keeps the last of several maximal elements; \<open>max\<close> on integers.\<close>

fun max_by_key :: "('a \<Rightarrow> int) \<Rightarrow> 'a list \<Rightarrow> 'a option" where
  "max_by_key key [] = None"
| "max_by_key key (x # xs) =
     Some (fold (\<lambda>y best. if key best \<le> key y then y else best) xs x)"

definition build_checkpoint :: "string \<Rightarrow> string \<Rightarrow> transaction list \<Rightarrow> indexer_checkpoint option" where
  "build_checkpoint chain wallet txs =
     (if txs = [] then None
      else case str_to_chain chain of
        Inl _ \<Rightarrow> None
      | Inr chain_enum \<Rightarrow>
          (case max_by_key tx_timestamp txs of
             None \<Rightarrow> None
           | Some latest \<Rightarrow>
               let buffer = finality_buffer chain;
                   positions = (\<lambda>field. List.map_filter
                     (\<lambda>tx. Option.bind (json_get (tx_raw_metadata tx) field) json_as_i64) txs);
                   rewind = (\<lambda>s. max (i64_wrapping_sub s buffer) 0)
               in Some \<lparr>ck_chain = chain_enum, ck_wallet_address = wallet,
                    ck_last_signature = Some (tx_hash latest),
                    ck_last_slot = (if chain = ''solana''
                      then map_option rewind (max_by_key id (positions ''slot'')) else None),
                    ck_last_block = (if chain = ''ethereum''
                      then map_option rewind (max_by_key id (positions ''block_number'')) else None),
                    ck_last_timestamp = Some (tx_timestamp latest)\<rparr>))"

section \<open>Properties of the checkpoint\<close>

lemma fold_max_by_key:
  "fold (\<lambda>y best. if key best \<le> key y then y else best) xs z \<in> insert z (set xs)
   \<and> (\<forall>y \<in> insert z (set xs).
        key y \<le> (key (fold (\<lambda>y best. if key best \<le> key y then y else best) xs z) :: int))"
proof (induction xs arbitrary: z)
  case (Cons x xs)
  show ?case
    using Cons [of "if key z \<le> key x then x else z"] by (auto split: if_splits)
qed simp

lemma max_by_key_Some:
  assumes "max_by_key key xs = Some y"
  shows "y \<in> set xs" "\<And>x. x \<in> set xs \<Longrightarrow> key x \<le> key y"
  using assms fold_max_by_key [of key "tl xs" "hd xs"] by (cases xs; auto)+

lemma max_by_key_None_iff [simp]: "max_by_key key xs = None \<longleftrightarrow> xs = []"
  by (cases xs) auto

lemma max_by_key_id: "max_by_key id xs = (if xs = [] then None else Some (Max (set xs)))"
proof (cases "xs = []")
  case False
  then obtain m where m: "max_by_key id xs = Some m" by fastforce
  then have "Max (set xs) = m"
    using max_by_key_Some [OF m] by (intro Max_eqI) auto
  with m False show ?thesis by simp
qed simp

text \<open>Block positions named by \<open>field\<close> in the raw metadata of a batch, as the code collects them.\<close>

definition positions_of :: "string \<Rightarrow> transaction list \<Rightarrow> int list" where
  "positions_of field txs =
     List.map_filter (\<lambda>tx. Option.bind (json_get (tx_raw_metadata tx) field) json_as_i64) txs"

lemma json_as_i64_bounds: "json_as_i64 v = Some i \<Longrightarrow> i64_min \<le> i \<and> i \<le> i64_max"
  by (cases v) (auto split: if_splits)

lemma positions_of_bounds: "i \<in> set (positions_of field txs) \<Longrightarrow> i64_min \<le> i \<and> i \<le> i64_max"
  by (induction txs)
    (auto simp: positions_of_def map_filter_simps json_as_i64_bounds bind_eq_Some_conv
      split: option.splits)

lemma rewind_exact:
  "0 \<le> m \<Longrightarrow> m \<le> i64_max \<Longrightarrow> 0 \<le> b \<Longrightarrow> b \<le> 32 \<Longrightarrow> i64_wrapping_sub m b = m - b"
  by (rule i64_wrapping_sub_exact) (auto simp: i64_min_def i64_max_def)

text \<open>
  A checkpoint built from a non-empty Solana batch whose slots are non-negative carries the
  latest timestamp of the batch and, when the batch reports slots, the highest slot rewound by
  the 32-slot finality buffer and clamped at zero, so that a restart re-reads every slot that
  may still be reorganised; it never carries a block number.
\<close>

theorem build_checkpoint_solana:
  assumes "txs \<noteq> []" and "\<forall>s \<in> set (positions_of ''slot'' txs). 0 \<le> s"
  shows "\<exists>ck. build_checkpoint ''solana'' wallet txs = Some ck
    \<and> ck_chain ck = Chain_Solana
    \<and> ck_last_timestamp ck = Some (Max (tx_timestamp ` set txs))
    \<and> (\<exists>tx \<in> set txs. ck_last_signature ck = Some (tx_hash tx)
         \<and> tx_timestamp tx = Max (tx_timestamp ` set txs))
    \<and> ck_last_slot ck = (if positions_of ''slot'' txs = [] then None
         else Some (max (Max (set (positions_of ''slot'' txs)) - 32) 0))
    \<and> ck_last_block ck = None"
proof -
  obtain latest where l: "max_by_key tx_timestamp txs = Some latest"
    using assms(1) by fastforce
  have ts: "Max (tx_timestamp ` set txs) = tx_timestamp latest"
    using max_by_key_Some [OF l] by (intro Max_eqI) auto
  have mem: "latest \<in> set txs" using max_by_key_Some(1) [OF l] .
  have slot: "i64_wrapping_sub (Max (set (positions_of ''slot'' txs))) 32
      = Max (set (positions_of ''slot'' txs)) - 32"
    if "positions_of ''slot'' txs \<noteq> []"
  proof (rule rewind_exact)
    have "Max (set (positions_of ''slot'' txs)) \<in> set (positions_of ''slot'' txs)"
      using that by simp
    then show "0 \<le> Max (set (positions_of ''slot'' txs))"
      and "Max (set (positions_of ''slot'' txs)) \<le> i64_max"
      using assms(2) positions_of_bounds by blast+
  qed simp_all
  show ?thesis
    using l ts mem slot assms(1)
    by (auto simp: build_checkpoint_def finality_buffer_def str_to_chain_def Let_def
        positions_of_def [symmetric] max_by_key_id)
qed

theorem build_checkpoint_solana_witness:
  "\<exists>ck. build_checkpoint ''solana'' ''w''
      [\<lparr>tx_id = 1, tx_user_id = 0, tx_wallet_address = ''w'', tx_timestamp = 7, tx_hash = ''h'',
        tx_chain = Chain_Solana, tx_raw_metadata = JObject [(''slot'', JInt 100)]\<rparr>] = Some ck
    \<and> ck_last_slot ck = Some 68"
  using build_checkpoint_solana [where wallet = "''w''" and
      txs = "[\<lparr>tx_id = 1, tx_user_id = 0, tx_wallet_address = ''w'', tx_timestamp = 7,
        tx_hash = ''h'', tx_chain = Chain_Solana,
        tx_raw_metadata = JObject [(''slot'', JInt 100)]\<rparr>]"]
  by (auto simp: positions_of_def map_filter_simps i64_min_def i64_max_def)

end
