(* ===== verification/Datasets.thy ===== *)
theory Datasets
  imports Core_Types
begin

text \<open>
  The dataset registry of \<open>core/src/materializer.rs\<close>: canonical and physical names, tiers, the
  chain families that produce a dataset, the registry lookups, and the validation of dataset
  descriptors, regeneration scopes and export sinks.
\<close>

section \<open>Dataset names\<close>

datatype dataset_name =
    DS_RawTransactions
  | DS_LedgerEntries
  | DS_TokenTransfers
  | DS_NativeBalanceDeltas
  | DS_DecodedEvents
  | DS_HlFills
  | DS_HlFunding
  | DS_Positions
  | DS_WalletLedger
  | DS_BalanceHistory
  | DS_HlPnlSummary
  | DS_HlTradeHistory
  | DS_ProtocolEvents
  | DS_PoolSnapshots

datatype dataset_tier =
    Tier_Bronze
  | Tier_Silver
  | Tier_Gold

fun as_sql_str :: "dataset_name \<Rightarrow> string" where
  "as_sql_str DS_RawTransactions = ''raw_transactions''"
| "as_sql_str DS_LedgerEntries = ''ledger_entries''"
| "as_sql_str DS_TokenTransfers = ''token_transfers''"
| "as_sql_str DS_NativeBalanceDeltas = ''native_balance_deltas''"
| "as_sql_str DS_DecodedEvents = ''decoded_events''"
| "as_sql_str DS_HlFills = ''hl_fills''"
| "as_sql_str DS_HlFunding = ''hl_funding''"
| "as_sql_str DS_Positions = ''positions''"
| "as_sql_str DS_WalletLedger = ''wallet_ledger''"
| "as_sql_str DS_BalanceHistory = ''balance_history''"
| "as_sql_str DS_HlPnlSummary = ''hl_pnl_summary''"
| "as_sql_str DS_HlTradeHistory = ''hl_trade_history''"
| "as_sql_str DS_ProtocolEvents = ''protocol_events''"
| "as_sql_str DS_PoolSnapshots = ''pool_snapshots''"

definition dataset_from_str :: "string \<Rightarrow> dataset_name result" where
  "dataset_from_str s = (if s = ''raw_transactions'' then Inr DS_RawTransactions
     else if s = ''ledger_entries'' then Inr DS_LedgerEntries
     else if s = ''token_transfers'' then Inr DS_TokenTransfers
     else if s = ''native_balance_deltas'' then Inr DS_NativeBalanceDeltas
     else if s = ''decoded_events'' then Inr DS_DecodedEvents
     else if s = ''hl_fills'' then Inr DS_HlFills
     else if s = ''hl_funding'' then Inr DS_HlFunding
     else if s = ''positions'' then Inr DS_Positions
     else if s = ''wallet_ledger'' then Inr DS_WalletLedger
     else if s = ''balance_history'' then Inr DS_BalanceHistory
     else if s = ''hl_pnl_summary'' then Inr DS_HlPnlSummary
     else if s = ''hl_trade_history'' then Inr DS_HlTradeHistory
     else if s = ''protocol_events'' then Inr DS_ProtocolEvents
     else if s = ''pool_snapshots'' then Inr DS_PoolSnapshots
     else Inl strum_not_found)"

fun physical_table :: "dataset_name \<Rightarrow> string" where
  "physical_table DS_RawTransactions = ''raw_transactions''"
| "physical_table DS_LedgerEntries = ''ledger_entries''"
| "physical_table DS_TokenTransfers = ''token_transfers''"
| "physical_table DS_NativeBalanceDeltas = ''native_balance_deltas''"
| "physical_table DS_DecodedEvents = ''decoded_events''"
| "physical_table DS_HlFills = ''hl_fill_records''"
| "physical_table DS_HlFunding = ''hl_funding_payments''"
| "physical_table DS_Positions = ''hl_position_changes''"
| "physical_table DS_WalletLedger = ''wallet_ledger''"
| "physical_table DS_BalanceHistory = ''balance_history''"
| "physical_table DS_HlPnlSummary = ''hl_pnl_summary''"
| "physical_table DS_HlTradeHistory = ''hl_trade_history''"
| "physical_table DS_ProtocolEvents = ''protocol_events''"
| "physical_table DS_PoolSnapshots = ''pool_snapshots''"

definition result_ok :: "'a result \<Rightarrow> 'a option" where
  "result_ok r = (case r of Inl _ \<Rightarrow> None | Inr x \<Rightarrow> Some x)"

definition from_physical_table :: "string \<Rightarrow> dataset_name option" where
  "from_physical_table table =
     (if table = ''hl_fill_records'' then Some DS_HlFills
      else if table = ''hl_funding_payments'' then Some DS_HlFunding
      else if table = ''hl_position_changes'' then Some DS_Positions
      else result_ok (dataset_from_str table))"

fun tier :: "dataset_name \<Rightarrow> dataset_tier" where
  "tier DS_RawTransactions = Tier_Bronze"
| "tier DS_LedgerEntries = Tier_Silver"
| "tier DS_TokenTransfers = Tier_Silver"
| "tier DS_NativeBalanceDeltas = Tier_Silver"
| "tier DS_DecodedEvents = Tier_Silver"
| "tier DS_HlFills = Tier_Silver"
| "tier DS_HlFunding = Tier_Silver"
| "tier DS_Positions = Tier_Silver"
| "tier DS_WalletLedger = Tier_Gold"
| "tier DS_BalanceHistory = Tier_Gold"
| "tier DS_HlPnlSummary = Tier_Gold"
| "tier DS_HlTradeHistory = Tier_Gold"
| "tier DS_ProtocolEvents = Tier_Gold"
| "tier DS_PoolSnapshots = Tier_Gold"

fun chain_families :: "dataset_name \<Rightarrow> chain_family list" where
  "chain_families DS_RawTransactions = [CF_Solana, CF_Evm, CF_Hyperliquid]"
| "chain_families DS_LedgerEntries = [CF_Solana, CF_Evm, CF_Hyperliquid]"
| "chain_families DS_TokenTransfers = [CF_Solana, CF_Evm, CF_Hyperliquid]"
| "chain_families DS_NativeBalanceDeltas = [CF_Solana, CF_Hyperliquid]"
| "chain_families DS_DecodedEvents = [CF_Solana, CF_Evm]"
| "chain_families DS_HlFills = [CF_Hyperliquid]"
| "chain_families DS_HlFunding = [CF_Hyperliquid]"
| "chain_families DS_Positions = [CF_Hyperliquid]"
| "chain_families DS_WalletLedger = [CF_Solana, CF_Evm, CF_Hyperliquid]"
| "chain_families DS_BalanceHistory = [CF_Solana, CF_Evm, CF_Hyperliquid]"
| "chain_families DS_HlPnlSummary = [CF_Hyperliquid]"
| "chain_families DS_HlTradeHistory = [CF_Hyperliquid]"
| "chain_families DS_ProtocolEvents = [CF_Evm]"
| "chain_families DS_PoolSnapshots = [CF_Evm]"

definition all_datasets :: "dataset_name list" where
  "all_datasets =
     [DS_RawTransactions, DS_LedgerEntries, DS_TokenTransfers,
      DS_NativeBalanceDeltas, DS_DecodedEvents, DS_HlFills,
      DS_HlFunding, DS_Positions, DS_WalletLedger,
      DS_BalanceHistory, DS_HlPnlSummary, DS_HlTradeHistory,
      DS_ProtocolEvents, DS_PoolSnapshots]"

definition silver_datasets :: "dataset_name list" where
  "silver_datasets =
     [DS_LedgerEntries, DS_TokenTransfers, DS_NativeBalanceDeltas,
      DS_DecodedEvents, DS_HlFills, DS_HlFunding,
      DS_Positions]"

definition gold_datasets :: "dataset_name list" where
  "gold_datasets =
     [DS_WalletLedger, DS_BalanceHistory, DS_HlPnlSummary,
      DS_HlTradeHistory, DS_ProtocolEvents, DS_PoolSnapshots]"

section \<open>The registry\<close>

definition resolve_dataset :: "string \<Rightarrow> dataset_name option" where
  "resolve_dataset name =
     (case result_ok (dataset_from_str name) of
        Some d \<Rightarrow> Some d
      | None \<Rightarrow> from_physical_table name)"

definition queryable :: "dataset_name list" where
  "queryable =
     [DS_RawTransactions, DS_TokenTransfers, DS_NativeBalanceDeltas,
      DS_DecodedEvents, DS_HlFills, DS_HlFunding,
      DS_Positions, DS_WalletLedger, DS_BalanceHistory,
      DS_HlPnlSummary, DS_HlTradeHistory, DS_ProtocolEvents,
      DS_PoolSnapshots]"

definition exportable :: "dataset_name list" where
  "exportable =
     [DS_RawTransactions, DS_TokenTransfers, DS_NativeBalanceDeltas,
      DS_DecodedEvents, DS_HlFills, DS_HlFunding,
      DS_Positions, DS_WalletLedger, DS_BalanceHistory,
      DS_HlPnlSummary, DS_HlTradeHistory, DS_ProtocolEvents,
      DS_PoolSnapshots]"

definition chain_family_for_network :: "string \<Rightarrow> chain_family option" where
  "chain_family_for_network network =
     (if starts_with network ''solana-'' then Some CF_Solana
      else if starts_with network ''ethereum-'' \<or> starts_with network ''base-''
        \<or> starts_with network ''arbitrum-'' \<or> starts_with network ''hyperevm-''
        \<or> starts_with network ''optimism-'' \<or> starts_with network ''polygon-''
        \<or> starts_with network ''scroll-'' \<or> starts_with network ''zksync-''
        \<or> starts_with network ''linea-'' \<or> starts_with network ''mantle-''
        \<or> starts_with network ''blast-''
      then Some CF_Evm
      else if starts_with network ''hypercore-'' then Some CF_Hyperliquid
      else None)"

definition silver_materializable :: "dataset_name list" where
  "silver_materializable =
     [DS_TokenTransfers, DS_NativeBalanceDeltas, DS_DecodedEvents,
      DS_HlFills, DS_HlFunding, DS_Positions]"

definition gold_materializable :: "dataset_name list" where
  "gold_materializable =
     [DS_WalletLedger, DS_BalanceHistory, DS_HlPnlSummary,
      DS_HlTradeHistory, DS_ProtocolEvents, DS_PoolSnapshots]"

definition silver_datasets_for_family :: "chain_family \<Rightarrow> dataset_name list" where
  "silver_datasets_for_family family =
     filter (\<lambda>ds. family \<in> set (chain_families ds)) silver_materializable"

definition silver_datasets_for_network :: "string \<Rightarrow> dataset_name list" where
  "silver_datasets_for_network network =
     (case chain_family_for_network network of
        Some family \<Rightarrow> silver_datasets_for_family family
      | None \<Rightarrow> [])"

definition is_queryable :: "string \<Rightarrow> bool" where
  "is_queryable name \<longleftrightarrow> (\<exists>ds \<in> set queryable. as_sql_str ds = name)"

definition is_exportable :: "string \<Rightarrow> bool" where
  "is_exportable name \<longleftrightarrow> (\<exists>ds \<in> set exportable. as_sql_str ds = name)"

section \<open>Descriptors, regeneration scopes and sinks\<close>

record dataset_descriptor =
  dd_name :: dataset_name
  dd_description :: string
  dd_source_bronze_tables :: "string list"
  dd_chain_families :: "chain_family list"

definition validate_descriptor :: "dataset_descriptor \<Rightarrow> unit result" where
  "validate_descriptor d =
     (if dd_description d = [] then Inl ''DatasetDescriptor description must not be empty''
      else if dd_source_bronze_tables d = []
      then Inl ''DatasetDescriptor must have at least one source_bronze_table''
      else Inr ())"

record regeneration_scope =
  rs_dataset :: dataset_name
  rs_target_id :: "uuid option"
  rs_time_range :: "(int \<times> int) option"

definition show_int :: "int \<Rightarrow> string" where
  "show_int i = (if i < 0 then CHR ''-'' # show_nat (nat (- i)) else show_nat (nat i))"

definition validate_regeneration_scope :: "regeneration_scope \<Rightarrow> unit result" where
  "validate_regeneration_scope r =
     (case rs_time_range r of
        Some (start, stop) \<Rightarrow>
          if stop < start
          then Inl (''RegenerationScope time_range start ('' @ show_int start @ '') must be <= end (''
                    @ show_int stop @ '')'')
          else Inr ()
      | None \<Rightarrow> Inr ())"

datatype sink_type = Sink_LocalFile | Sink_Webhook | Sink_Database

record sink_config =
  sc_sink_type :: sink_type
  sc_file_path :: "string option"
  sc_url :: "string option"
  sc_headers :: "(string \<times> string) list option"
  sc_connection_string :: "string option"
  sc_table :: "string option"

text \<open>A name between single quotes, as the messages print it.\<close>

definition quoted :: "string \<Rightarrow> string" where
  "quoted s = CHR 0x27 # s @ [CHR 0x27]"

definition require_field :: "string \<Rightarrow> string \<Rightarrow> string option \<Rightarrow> unit result" where
  "require_field missing blank v =
     (case v of None \<Rightarrow> Inl missing | Some s \<Rightarrow> if s = [] then Inl blank else Inr ())"

definition validate_sink :: "sink_config \<Rightarrow> unit result" where
  "validate_sink c =
     (case sc_sink_type c of
        Sink_LocalFile \<Rightarrow>
          require_field (''LocalFile sink requires '' @ quoted ''file_path'') ''file_path must not be empty''
            (sc_file_path c)
      | Sink_Webhook \<Rightarrow>
          require_field (''Webhook sink requires '' @ quoted ''url'') ''url must not be empty'' (sc_url c)
      | Sink_Database \<Rightarrow>
          (case require_field (''Database sink requires '' @ quoted ''connection_string'')
              ''connection_string must not be empty'' (sc_connection_string c) of
             Inl e \<Rightarrow> Inl e
           | Inr _ \<Rightarrow> require_field (''Database sink requires '' @ quoted ''table'')
               ''table must not be empty'' (sc_table c)))"

datatype export_format = Fmt_Jsonl | Fmt_Csv

fun export_format_to_str :: "export_format \<Rightarrow> string" where
  "export_format_to_str Fmt_Jsonl = ''jsonl''"
| "export_format_to_str Fmt_Csv = ''csv''"

definition export_format_from_str :: "string \<Rightarrow> export_format result" where
  "export_format_from_str s = (if s = ''jsonl'' then Inr Fmt_Jsonl
     else if s = ''csv'' then Inr Fmt_Csv
     else Inl strum_not_found)"

section \<open>Lemmas\<close>

interpretation ds_codec: enum_codec as_sql_str dataset_from_str
proof
  show "dataset_from_str (as_sql_str x) = Inr x" for x by (cases x) (simp_all add: dataset_from_str_def)
  show "as_sql_str x = s" if "dataset_from_str s = Inr x" for s x
    using that by (simp add: dataset_from_str_def split: if_splits)
qed

interpretation fmt_codec: enum_codec export_format_to_str export_format_from_str
proof
  show "export_format_from_str (export_format_to_str x) = Inr x" for x by (cases x) (simp_all add: export_format_from_str_def)
  show "export_format_to_str x = s" if "export_format_from_str s = Inr x" for s x
    using that by (simp add: export_format_from_str_def split: if_splits)
qed

lemma result_ok_eq_Some [simp]: "result_ok r = Some x \<longleftrightarrow> r = Inr x"
  by (cases r) (auto simp: result_ok_def)

lemma result_ok_dataset: "result_ok (dataset_from_str s) = Some d \<longleftrightarrow> s = as_sql_str d"
  by (simp add: ds_codec.dec_eq_iff)

lemma result_ok_dataset_None: "result_ok (dataset_from_str s) = None \<longleftrightarrow> s \<notin> range as_sql_str"
  using result_ok_dataset by (metis not_None_eq rangeE rangeI)

text \<open>
  The physical names of the three Hyperliquid Silver datasets are not canonical names of any
  dataset, so that the two name spaces can be searched one after the other.
\<close>

lemma physical_only_names:
  "''hl_fill_records'' \<notin> range as_sql_str" "''hl_funding_payments'' \<notin> range as_sql_str"
  "''hl_position_changes'' \<notin> range as_sql_str"
  by (simp_all add: result_ok_dataset_None [symmetric] dataset_from_str_def result_ok_def)

lemma as_sql_str_eq_physical: "as_sql_str d = physical_table e \<Longrightarrow> d = e"
  by (cases e; cases d; simp)

lemma from_physical_physical: "from_physical_table (physical_table d) = Some d"
  by (cases d) (simp_all add: from_physical_table_def dataset_from_str_def result_ok_def)

text \<open>
  A name resolves to a dataset exactly when it is that dataset's canonical name or the name
  of its physical table: resolution is complete for both name spaces, has no false positives
  and is never ambiguous between them.
\<close>

theorem resolve_dataset_iff:
  "resolve_dataset name = Some d \<longleftrightarrow> name = as_sql_str d \<or> name = physical_table d"
proof (cases "result_ok (dataset_from_str name)")
  case (Some e)
  then have "name = as_sql_str e" by (simp only: result_ok_dataset)
  with Some show ?thesis
    by (auto simp: resolve_dataset_def result_ok_def ds_codec.enc_inj dest: as_sql_str_eq_physical)
next
  case None
  then have "name \<noteq> as_sql_str d" by (auto simp: result_ok_dataset_None)
  with None show ?thesis
    by (cases d) (auto simp: resolve_dataset_def from_physical_table_def)
qed

lemma all_dataset_iff: "(\<forall>d. P d) \<longleftrightarrow> list_all P all_datasets"
proof
  assume "list_all P all_datasets"
  then have "P d" for d by (cases d) (simp_all add: all_datasets_def)
  then show "\<forall>d. P d" by blast
qed (simp add: list_all_iff)

text \<open>
  The three tiers partition the dataset names: the Bronze dataset and the lists returned by
  \<open>silver()\<close> and \<open>gold()\<close> hold every dataset exactly once and agree with \<open>tier\<close>; the query and
  export endpoints serve all of them but the legacy ledger.
\<close>

theorem tiers_partition:
  "mset all_datasets = mset (DS_RawTransactions # silver_datasets @ gold_datasets)
   \<and> distinct all_datasets \<and> set all_datasets = UNIV
   \<and> set silver_datasets = {d. tier d = Tier_Silver}
   \<and> set gold_datasets = {d. tier d = Tier_Gold}
   \<and> set queryable = UNIV - {DS_LedgerEntries} \<and> queryable = exportable"
proof (intro conjI)
  note cases = all_dataset_iff
  show "mset all_datasets = mset (DS_RawTransactions # silver_datasets @ gold_datasets)"
    by (simp add: all_datasets_def silver_datasets_def gold_datasets_def)
  show "distinct all_datasets" by (simp add: all_datasets_def)
  show "set all_datasets = UNIV" using cases [of "\<lambda>d. d \<in> set all_datasets"]
    by (auto simp: list_all_iff)
  show "set silver_datasets = {d. tier d = Tier_Silver}"
    using cases [of "\<lambda>d. d \<in> set silver_datasets \<longleftrightarrow> tier d = Tier_Silver"]
    by (simp add: set_eq_iff all_datasets_def silver_datasets_def)
  show "set gold_datasets = {d. tier d = Tier_Gold}"
    using cases [of "\<lambda>d. d \<in> set gold_datasets \<longleftrightarrow> tier d = Tier_Gold"]
    by (simp add: set_eq_iff all_datasets_def gold_datasets_def)
  show "set queryable = UNIV - {DS_LedgerEntries}"
    using cases [of "\<lambda>d. d \<in> set queryable \<longleftrightarrow> d \<noteq> DS_LedgerEntries"]
    by (simp add: set_eq_iff all_datasets_def queryable_def)
  show "queryable = exportable" by (simp add: queryable_def exportable_def)
qed

text \<open>
  The datasets materialized for a network are exactly the Silver datasets, the ledger apart,
  that the family of the network can produce, and none for a network of no known family.
\<close>

theorem silver_datasets_for_network_iff:
  "d \<in> set (silver_datasets_for_network network) \<longleftrightarrow>
     (\<exists>family. chain_family_for_network network = Some family
        \<and> tier d = Tier_Silver \<and> d \<noteq> DS_LedgerEntries \<and> family \<in> set (chain_families d))"
proof -
  have "d \<in> set silver_materializable \<longleftrightarrow> tier d = Tier_Silver \<and> d \<noteq> DS_LedgerEntries"
    by (cases d) (simp_all add: silver_materializable_def)
  then show ?thesis
    by (cases "chain_family_for_network network")
      (auto simp: silver_datasets_for_network_def silver_datasets_for_family_def)
qed

end
