(* ===== verification/Records.thy ===== *)
theory Records
  imports Datasets
begin

text \<open>
  The Silver and Gold dataset records of \<open>core/src/materializer.rs\<close> and the legacy ledger entry of
  \<open>core/src/models.rs\<close>, one \<open>record\<close> per struct with the fields in the order of the source. Field
  names carry a prefix per struct, since HOL selectors are global. Amounts are polymorphic in
  \<open>'d\<close>; the integer fields hold \<open>i64\<close>/\<open>i32\<close> values as \<open>int\<close>, \<open>usize\<close> counts as \<open>nat\<close>.
\<close>

section \<open>Silver records\<close>

record 'd token_transfer =
  tt_id :: uuid
  tt_raw_transaction_id :: "uuid option"
  tt_network :: string
  tt_token_address :: string
  tt_token_symbol :: "string option"
  tt_from_address :: string
  tt_to_address :: string
  tt_amount :: "'d"
  tt_decimals :: int
  tt_transfer_index :: int
  tt_dataset_version_id :: "uuid option"
  tt_created_at :: timestamp

record decoded_event =
  de_id :: uuid
  de_raw_transaction_id :: "uuid option"
  de_network :: string
  de_program_or_contract :: string
  de_event_signature :: "string option"
  de_event_name :: "string option"
  de_log_index :: int
  de_decoded_fields :: json
  de_raw_fields :: json
  de_dataset_version_id :: "uuid option"
  de_created_at :: timestamp

record 'd native_balance_delta =
  nbd_id :: uuid
  nbd_raw_transaction_id :: "uuid option"
  nbd_network :: string
  nbd_account_address :: string
  nbd_native_token :: string
  nbd_pre_balance :: "'d"
  nbd_post_balance :: "'d"
  nbd_delta :: "'d"
  nbd_is_fee_payer :: bool
  nbd_dataset_version_id :: "uuid option"
  nbd_created_at :: timestamp

record 'd hl_fill_record =
  fill_id :: uuid
  fill_raw_transaction_id :: "uuid option"
  fill_network :: string
  fill_coin :: string
  fill_side :: string
  fill_price :: "'d"
  fill_size :: "'d"
  fill_direction :: "string option"
  fill_closed_pnl :: "'d option"
  fill_fee :: "'d option"
  fill_fee_token :: "string option"
  fill_fill_time :: int
  fill_order_id :: "int option"
  fill_trade_id :: "int option"
  fill_dataset_version_id :: "uuid option"
  fill_created_at :: timestamp

record 'd hl_funding_payment =
  fund_id :: uuid
  fund_raw_transaction_id :: "uuid option"
  fund_network :: string
  fund_coin :: string
  fund_amount :: "'d"
  fund_funding_rate :: "'d option"
  fund_payment_time :: int
  fund_dataset_version_id :: "uuid option"
  fund_created_at :: timestamp

record 'd hl_position_change =
  pos_id :: uuid
  pos_raw_transaction_id :: "uuid option"
  pos_network :: string
  pos_coin :: string
  pos_side :: string
  pos_size_delta :: "'d"
  pos_price :: "'d"
  pos_direction :: "string option"
  pos_source_event :: string
  pos_dataset_version_id :: "uuid option"
  pos_created_at :: timestamp

section \<open>Gold records\<close>

record 'd wallet_ledger_record =
  wl_id :: uuid
  wl_raw_transaction_id :: "uuid option"
  wl_wallet_address :: string
  wl_network :: string
  wl_tx_hash :: string
  wl_timestamp :: int
  wl_entry_type :: string
  wl_asset_symbol :: string
  wl_amount :: "'d"
  wl_counterparty_address :: "string option"
  wl_fee_amount :: "'d option"
  wl_fee_asset :: "string option"
  wl_cost_basis :: "'d option"
  wl_proceeds :: "'d option"
  wl_dataset_version_id :: "uuid option"
  wl_created_at :: timestamp

record 'd balance_snapshot =
  bs_id :: uuid
  bs_wallet_address :: string
  bs_asset_symbol :: string
  bs_network :: string
  bs_timestamp :: int
  bs_balance :: "'d"
  bs_tx_hash :: string
  bs_dataset_version_id :: "uuid option"
  bs_created_at :: timestamp

record 'd counterparty_summary =
  cps_address :: string
  cps_interaction_count :: nat
  cps_total_inflow :: "'d"
  cps_total_outflow :: "'d"
  cps_networks :: "string list"

record network_activity =
  na_network :: string
  na_entry_count :: nat
  na_unique_assets :: nat
  na_unique_counterparties :: nat

record 'd type_breakdown =
  tb_entry_type :: string
  tb_count :: nat
  tb_total_amount :: "'d"

record 'd forensics_activity =
  fa_wallet_address :: string
  fa_top_counterparties :: "'d counterparty_summary list"
  fa_network_activity :: "network_activity list"
  fa_type_breakdown :: "'d type_breakdown list"
  fa_total_entries :: nat

record 'd hl_pnl_summary =
  pnl_id :: uuid
  pnl_wallet_address :: string
  pnl_coin :: string
  pnl_network :: string
  pnl_period_start :: int
  pnl_period_end :: int
  pnl_total_closed_pnl :: "'d"
  pnl_total_funding :: "'d"
  pnl_total_fees :: "'d"
  pnl_net_pnl :: "'d"
  pnl_trade_count :: int
  pnl_fill_count :: int
  pnl_avg_trade_size :: "'d"
  pnl_win_count :: int
  pnl_loss_count :: int
  pnl_dataset_version_id :: "uuid option"
  pnl_created_at :: timestamp

record 'd hl_trade_history =
  trade_id :: uuid
  trade_wallet_address :: string
  trade_coin :: string
  trade_network :: string
  trade_side :: string
  trade_entry_price :: "'d"
  trade_exit_price :: "'d"
  trade_size :: "'d"
  trade_opened_at :: int
  trade_closed_at :: int
  trade_realized_pnl :: "'d"
  trade_fees :: "'d"
  trade_num_fills :: int
  trade_dataset_version_id :: "uuid option"
  trade_created_at :: timestamp

record 'd coin_pnl_summary =
  cpnl_coin :: string
  cpnl_net_pnl :: "'d"
  cpnl_volume :: "'d"
  cpnl_trade_count :: int
  cpnl_win_count :: int
  cpnl_loss_count :: int

record 'd coin_market_summary =
  cms_coin :: string
  cms_total_volume :: "'d"
  cms_unique_traders :: nat
  cms_total_trades :: int
  cms_total_pnl :: "'d"
  cms_avg_trade_size :: "'d"

record 'd market_analytics =
  ma_coins :: "'d coin_market_summary list"
  ma_total_volume :: "'d"
  ma_total_unique_traders :: nat

record protocol_event =
  pe_id :: uuid
  pe_network :: string
  pe_protocol_address :: string
  pe_protocol_name :: "string option"
  pe_event_type :: string
  pe_event_details :: json
  pe_pool_address :: "string option"
  pe_raw_event_id :: "uuid option"
  pe_timestamp :: int
  pe_dataset_version_id :: "uuid option"
  pe_created_at :: timestamp

record 'd pool_snapshot =
  ps_id :: uuid
  ps_network :: string
  ps_pool_address :: string
  ps_protocol_address :: string
  ps_protocol_name :: "string option"
  ps_token0_address :: string
  ps_token0_symbol :: "string option"
  ps_token1_address :: string
  ps_token1_symbol :: "string option"
  ps_reserve0 :: "'d"
  ps_reserve1 :: "'d"
  ps_tvl_usd :: "'d option"
  ps_snapshot_timestamp :: int
  ps_block_number :: "int option"
  ps_dataset_version_id :: "uuid option"
  ps_created_at :: timestamp

record event_type_count =
  etc_event_type :: string
  etc_count :: nat

record protocol_activity =
  pa_protocol_address :: string
  pa_event_counts_by_type :: "event_type_count list"
  pa_unique_participants :: nat
  pa_total_events :: nat
  pa_time_start :: "int option"
  pa_time_end :: "int option"

record 'd pool_tvl_summary =
  ptvl_pool_address :: string
  ptvl_protocol_address :: string
  ptvl_token0_symbol :: "string option"
  ptvl_token1_symbol :: "string option"
  ptvl_reserve0 :: "'d"
  ptvl_reserve1 :: "'d"
  ptvl_tvl_usd :: "'d option"
  ptvl_snapshot_timestamp :: int

record 'd protocol_tvl_summary =
  prtvl_protocol_address :: string
  prtvl_protocol_name :: "string option"
  prtvl_pool_count :: nat
  prtvl_total_tvl :: "'d option"

record 'd tvl_analytics =
  tvl_pools :: "'d pool_tvl_summary list"
  tvl_total_tvl :: "'d option"
  tvl_protocols :: "'d protocol_tvl_summary list"

section \<open>Legacy ledger entries\<close>

record 'd ledger_entry =
  le_id :: uuid
  le_transaction_id :: uuid
  le_user_id :: uuid
  le_wallet_address :: string
  le_asset_symbol :: string
  le_amount :: "'d"
  le_entry_type :: entry_type
  le_fiat_value :: "'d option"

end
