(* ===== verification/Ledger.thy ===== *)
theory Ledger
  imports Records
begin

text \<open>
  The derivation of ledger entries and wallet ledger records from the Silver datasets of one
  transaction, \<open>adapters/src/ledger_derivation.rs\<close>. Each derivation is a loop over the records of
  one dataset that pushes zero or more entries per record and advances the shared \<open>u32\<close> entry
  offset. \<open>emit_all\<close> is that loop; the body of each loop is one definition. The locale
  \<open>ledger_source\<close> states what a loop body promises (the entries it pushes are its content with
  consecutive deterministic ids) and derives the same for the whole loop; the eight loop bodies
  interpret it.

  \<open>vh\<close> stands for \<open>Uuid::new_v5\<close> and \<open>us\<close> for the \<open>Display\<close> of a UUID.
\<close>

section \<open>Deterministic ids and address comparison\<close>

definition LEDGER_ENTRY_NS :: uuid where
  "LEDGER_ENTRY_NS = 0x6ba7b8109dad11d180b400c04fd430c8"

definition deterministic_id ::
    "(uuid \<Rightarrow> string \<Rightarrow> uuid) \<Rightarrow> (uuid \<Rightarrow> string) \<Rightarrow> uuid \<Rightarrow> u32 \<Rightarrow> uuid" where
  "deterministic_id vh us transaction_id entry_index =
     vh LEDGER_ENTRY_NS (us transaction_id @ '':'' @ show_nat (unat entry_index))"

definition normalize_address_for_comparison :: "string \<Rightarrow> string" where
  "normalize_address_for_comparison addr =
     (if starts_with addr ''0x'' \<or> starts_with addr ''0X'' then to_lowercase addr else addr)"

section \<open>Silver records of a transaction\<close>

record 'd silver_records =
  sr_token_transfers :: "'d token_transfer list"
  sr_native_balance_deltas :: "'d native_balance_delta list"
  sr_hl_fills :: "'d hl_fill_record list"
  sr_hl_funding :: "'d hl_funding_payment list"

definition transfer_symbol :: "'d token_transfer \<Rightarrow> string" where
  "transfer_symbol t = (case tt_token_symbol t of Some s \<Rightarrow> s | None \<Rightarrow> tt_token_address t)"

definition fee_token_or_usdc :: "'d hl_fill_record \<Rightarrow> string" where
  "fee_token_or_usdc f = (case fill_fee_token f of Some t \<Rightarrow> t | None \<Rightarrow> ''USDC'')"

definition signed_size :: "('d :: linordered_idom) hl_fill_record \<Rightarrow> 'd" where
  "signed_size f = (if fill_side f = ''B'' then fill_size f else - fill_size f)"

text \<open>\<open>if let Some(x) = v { if x != 0 { .. } }\<close>\<close>

definition nonzero_opt :: "('d :: linordered_idom) option \<Rightarrow> 'd option" where
  "nonzero_opt v = (case v of Some x \<Rightarrow> if x \<noteq> 0 then Some x else None | None \<Rightarrow> None)"

section \<open>The emission loop\<close>

text \<open>One push: the entry built at the current offset, and the offset advanced (wrapping).\<close>

definition push :: "(u32 \<Rightarrow> 'e) \<Rightarrow> 'e list \<times> u32 \<Rightarrow> 'e list \<times> u32" where
  "push mk s = (case s of (es, off) \<Rightarrow> (es @ [mk off], off + 1))"

definition push_if :: "bool \<Rightarrow> (u32 \<Rightarrow> 'e) \<Rightarrow> 'e list \<times> u32 \<Rightarrow> 'e list \<times> u32" where
  "push_if c mk s = (if c then push mk s else s)"

fun emit_all :: "('r \<Rightarrow> 'e list \<times> u32 \<Rightarrow> 'e list \<times> u32) \<Rightarrow> 'r list \<Rightarrow> u32 \<Rightarrow> 'e list \<times> u32" where
  "emit_all body rs off = fold body rs ([], off)"

section \<open>Ledger entries\<close>

definition ledger_entry_of ::
    "(uuid \<Rightarrow> string \<Rightarrow> uuid) \<Rightarrow> (uuid \<Rightarrow> string) \<Rightarrow> string \<Rightarrow> uuid \<Rightarrow> uuid \<Rightarrow>
     string \<Rightarrow> 'd \<Rightarrow> entry_type \<Rightarrow> 'd option \<Rightarrow> u32 \<Rightarrow> 'd ledger_entry" where
  "ledger_entry_of vh us wallet user_id tx symbol amount etype fiat off =
     \<lparr>le_id = deterministic_id vh us tx off, le_transaction_id = tx, le_user_id = user_id,
      le_wallet_address = wallet, le_asset_symbol = symbol, le_amount = amount,
      le_entry_type = etype, le_fiat_value = fiat\<rparr>"

definition token_transfer_body ::
    "(uuid \<Rightarrow> string \<Rightarrow> uuid) \<Rightarrow> (uuid \<Rightarrow> string) \<Rightarrow> string \<Rightarrow> uuid \<Rightarrow> uuid \<Rightarrow>
     ('d :: linordered_idom) token_transfer \<Rightarrow> 'd ledger_entry list \<times> u32 \<Rightarrow> 'd ledger_entry list \<times> u32" where
  "token_transfer_body vh us wallet user_id tx transfer s =
     (let wallet_norm = normalize_address_for_comparison wallet;
          from_match = normalize_address_for_comparison (tt_from_address transfer) = wallet_norm;
          to_match = normalize_address_for_comparison (tt_to_address transfer) = wallet_norm;
          symbol = transfer_symbol transfer
      in if \<not> from_match \<and> \<not> to_match then s
         else push_if to_match
                (ledger_entry_of vh us wallet user_id tx symbol (tt_amount transfer) ET_Transfer None)
                (push_if from_match
                   (ledger_entry_of vh us wallet user_id tx symbol (- tt_amount transfer) ET_Transfer None)
                   s))"

definition native_delta_body ::
    "(uuid \<Rightarrow> string \<Rightarrow> uuid) \<Rightarrow> (uuid \<Rightarrow> string) \<Rightarrow> string \<Rightarrow> uuid \<Rightarrow> uuid \<Rightarrow>
     ('d :: linordered_idom) native_balance_delta \<Rightarrow> 'd ledger_entry list \<times> u32 \<Rightarrow> 'd ledger_entry list \<times> u32" where
  "native_delta_body vh us wallet user_id tx delta s =
     (if normalize_address_for_comparison (nbd_account_address delta)
           \<noteq> normalize_address_for_comparison wallet then s
      else if nbd_delta delta = 0 then s
      else push (ledger_entry_of vh us wallet user_id tx (nbd_native_token delta) (nbd_delta delta)
                  (if nbd_is_fee_payer delta then ET_Fee else ET_Transfer) None) s)"

definition hl_fill_body ::
    "(uuid \<Rightarrow> string \<Rightarrow> uuid) \<Rightarrow> (uuid \<Rightarrow> string) \<Rightarrow> string \<Rightarrow> uuid \<Rightarrow> uuid \<Rightarrow>
     ('d :: linordered_idom) hl_fill_record \<Rightarrow> 'd ledger_entry list \<times> u32 \<Rightarrow> 'd ledger_entry list \<times> u32" where
  "hl_fill_body vh us wallet user_id tx fill s0 =
     (let s1 = push (ledger_entry_of vh us wallet user_id tx (fill_coin fill) (signed_size fill)
                 ET_Trade (Some (fill_size fill * fill_price fill))) s0;
          s2 = (case nonzero_opt (fill_fee fill) of
                  Some fee \<Rightarrow> push (ledger_entry_of vh us wallet user_id tx
                                (fee_token_or_usdc fill) (- fee) ET_Fee None) s1
                | None \<Rightarrow> s1)
      in case nonzero_opt (fill_closed_pnl fill) of
           Some pnl \<Rightarrow> push (ledger_entry_of vh us wallet user_id tx ''USDC'' pnl ET_Income None) s2
         | None \<Rightarrow> s2)"

definition hl_funding_body ::
    "(uuid \<Rightarrow> string \<Rightarrow> uuid) \<Rightarrow> (uuid \<Rightarrow> string) \<Rightarrow> string \<Rightarrow> uuid \<Rightarrow> uuid \<Rightarrow>
     ('d :: linordered_idom) hl_funding_payment \<Rightarrow> 'd ledger_entry list \<times> u32 \<Rightarrow> 'd ledger_entry list \<times> u32" where
  "hl_funding_body vh us wallet user_id tx payment s =
     push (ledger_entry_of vh us wallet user_id tx ''USDC'' (fund_amount payment)
            (if fund_amount payment > 0 then ET_Income else ET_Fee) None) s"

definition derive_ledger_from_token_transfers where
  "derive_ledger_from_token_transfers vh us wallet user_id tx transfers off =
     emit_all (token_transfer_body vh us wallet user_id tx) transfers off"

definition derive_ledger_from_native_balance_deltas where
  "derive_ledger_from_native_balance_deltas vh us wallet user_id tx deltas off =
     emit_all (native_delta_body vh us wallet user_id tx) deltas off"

definition derive_ledger_from_hl_fills where
  "derive_ledger_from_hl_fills vh us wallet user_id tx fills off =
     emit_all (hl_fill_body vh us wallet user_id tx) fills off"

definition derive_ledger_from_hl_funding where
  "derive_ledger_from_hl_funding vh us wallet user_id tx payments off =
     emit_all (hl_funding_body vh us wallet user_id tx) payments off"

definition derive_all_ledger_entries ::
    "(uuid \<Rightarrow> string \<Rightarrow> uuid) \<Rightarrow> (uuid \<Rightarrow> string) \<Rightarrow> chain \<Rightarrow> string \<Rightarrow> uuid \<Rightarrow> uuid \<Rightarrow>
     ('d :: linordered_idom) silver_records \<Rightarrow> 'd ledger_entry list" where
  "derive_all_ledger_entries vh us chain wallet user_id tx records =
     (case chain_family_from_chain chain of
        CF_Solana \<Rightarrow>
          let (es1, off1) = derive_ledger_from_native_balance_deltas vh us wallet user_id tx
                (sr_native_balance_deltas records) 0;
              (es2, off2) = derive_ledger_from_token_transfers vh us wallet user_id tx
                (sr_token_transfers records) off1
          in es1 @ es2
      | CF_Evm \<Rightarrow>
          fst (derive_ledger_from_token_transfers vh us wallet user_id tx
                 (sr_token_transfers records) 0)
      | CF_Hyperliquid \<Rightarrow>
          let (es1, off1) = derive_ledger_from_hl_fills vh us wallet user_id tx
                (sr_hl_fills records) 0;
              (es2, off2) = derive_ledger_from_hl_funding vh us wallet user_id tx
                (sr_hl_funding records) off1
          in es1 @ es2)"

section \<open>Wallet ledger records\<close>

text \<open>The id of a wallet ledger record is derived from the transaction its Silver record names.\<close>

definition raw_tx_or_nil :: "uuid option \<Rightarrow> uuid" where
  "raw_tx_or_nil raw = (case raw of Some u \<Rightarrow> u | None \<Rightarrow> uuid_nil)"

record wl_context =
  wc_wallet :: string
  wc_network :: string
  wc_tx_hash :: string
  wc_timestamp :: int
  wc_now :: timestamp

definition wallet_record_of ::
    "(uuid \<Rightarrow> string \<Rightarrow> uuid) \<Rightarrow> (uuid \<Rightarrow> string) \<Rightarrow> wl_context \<Rightarrow> uuid option \<Rightarrow> uuid option \<Rightarrow>
     string \<Rightarrow> string \<Rightarrow> 'd \<Rightarrow> string option \<Rightarrow> 'd option \<Rightarrow> string option \<Rightarrow> 'd option \<Rightarrow>
     u32 \<Rightarrow> 'd wallet_ledger_record" where
  "wallet_record_of vh us c raw version etype symbol amount counterparty fee fee_asset proceeds off =
     \<lparr>wl_id = deterministic_id vh us (raw_tx_or_nil raw) off, wl_raw_transaction_id = raw,
      wl_wallet_address = wc_wallet c, wl_network = wc_network c, wl_tx_hash = wc_tx_hash c,
      wl_timestamp = wc_timestamp c, wl_entry_type = etype, wl_asset_symbol = symbol,
      wl_amount = amount, wl_counterparty_address = counterparty, wl_fee_amount = fee,
      wl_fee_asset = fee_asset, wl_cost_basis = None, wl_proceeds = proceeds,
      wl_dataset_version_id = version, wl_created_at = wc_now c\<rparr>"

definition wallet_token_transfer_body ::
    "(uuid \<Rightarrow> string \<Rightarrow> uuid) \<Rightarrow> (uuid \<Rightarrow> string) \<Rightarrow> wl_context \<Rightarrow> ('d :: linordered_idom) token_transfer \<Rightarrow>
     'd wallet_ledger_record list \<times> u32 \<Rightarrow> 'd wallet_ledger_record list \<times> u32" where
  "wallet_token_transfer_body vh us c transfer s =
     (let wallet_norm = normalize_address_for_comparison (wc_wallet c);
          from_match = normalize_address_for_comparison (tt_from_address transfer) = wallet_norm;
          to_match = normalize_address_for_comparison (tt_to_address transfer) = wallet_norm;
          symbol = transfer_symbol transfer;
          raw = tt_raw_transaction_id transfer;
          version = tt_dataset_version_id transfer
      in if \<not> from_match \<and> \<not> to_match then s
         else push_if to_match
                (wallet_record_of vh us c raw version ''transfer'' symbol (tt_amount transfer)
                   (Some (tt_from_address transfer)) None None None)
                (push_if from_match
                   (wallet_record_of vh us c raw version ''transfer'' symbol (- tt_amount transfer)
                      (Some (tt_to_address transfer)) None None None)
                   s))"

definition wallet_native_delta_body ::
    "(uuid \<Rightarrow> string \<Rightarrow> uuid) \<Rightarrow> (uuid \<Rightarrow> string) \<Rightarrow> wl_context \<Rightarrow> ('d :: linordered_idom) native_balance_delta \<Rightarrow>
     'd wallet_ledger_record list \<times> u32 \<Rightarrow> 'd wallet_ledger_record list \<times> u32" where
  "wallet_native_delta_body vh us c delta s =
     (if normalize_address_for_comparison (nbd_account_address delta)
           \<noteq> normalize_address_for_comparison (wc_wallet c) then s
      else if nbd_delta delta = 0 then s
      else push (wallet_record_of vh us c (nbd_raw_transaction_id delta) (nbd_dataset_version_id delta)
             (if nbd_is_fee_payer delta then ''fee'' else ''transfer'') (nbd_native_token delta)
             (nbd_delta delta) None
             (if nbd_is_fee_payer delta then Some \<bar>nbd_delta delta\<bar> else None)
             (if nbd_is_fee_payer delta then Some (nbd_native_token delta) else None) None) s)"

definition wallet_hl_fill_body ::
    "(uuid \<Rightarrow> string \<Rightarrow> uuid) \<Rightarrow> (uuid \<Rightarrow> string) \<Rightarrow> wl_context \<Rightarrow> ('d :: linordered_idom) hl_fill_record \<Rightarrow>
     'd wallet_ledger_record list \<times> u32 \<Rightarrow> 'd wallet_ledger_record list \<times> u32" where
  "wallet_hl_fill_body vh us c fill s0 =
     (let raw = fill_raw_transaction_id fill;
          version = fill_dataset_version_id fill;
          s1 = push (wallet_record_of vh us c raw version ''trade'' (fill_coin fill) (signed_size fill)
                 None (fill_fee fill) (fill_fee_token fill)
                 (Some (fill_size fill * fill_price fill))) s0;
          s2 = (case nonzero_opt (fill_fee fill) of
                  Some fee \<Rightarrow> push (wallet_record_of vh us c raw version ''fee''
                      (fee_token_or_usdc fill) (- fee) None (Some fee)
                      (Some (fee_token_or_usdc fill)) None) s1
                | None \<Rightarrow> s1)
      in case nonzero_opt (fill_closed_pnl fill) of
           Some pnl \<Rightarrow> push (wallet_record_of vh us c raw version ''income'' ''USDC'' pnl
               None None None None) s2
         | None \<Rightarrow> s2)"

definition wallet_hl_funding_body ::
    "(uuid \<Rightarrow> string \<Rightarrow> uuid) \<Rightarrow> (uuid \<Rightarrow> string) \<Rightarrow> wl_context \<Rightarrow> ('d :: linordered_idom) hl_funding_payment \<Rightarrow>
     'd wallet_ledger_record list \<times> u32 \<Rightarrow> 'd wallet_ledger_record list \<times> u32" where
  "wallet_hl_funding_body vh us c payment s =
     push (wallet_record_of vh us c (fund_raw_transaction_id payment) (fund_dataset_version_id payment)
             ''funding'' ''USDC'' (fund_amount payment) None None None None) s"

definition derive_wallet_ledger_from_token_transfers where
  "derive_wallet_ledger_from_token_transfers vh us c transfers off =
     emit_all (wallet_token_transfer_body vh us c) transfers off"

definition derive_wallet_ledger_from_native_balance_deltas where
  "derive_wallet_ledger_from_native_balance_deltas vh us c deltas off =
     emit_all (wallet_native_delta_body vh us c) deltas off"

definition derive_wallet_ledger_from_hl_fills where
  "derive_wallet_ledger_from_hl_fills vh us c fills off =
     emit_all (wallet_hl_fill_body vh us c) fills off"

definition derive_wallet_ledger_from_hl_funding where
  "derive_wallet_ledger_from_hl_funding vh us c payments off =
     emit_all (wallet_hl_funding_body vh us c) payments off"

definition derive_all_wallet_ledger_entries ::
    "(uuid \<Rightarrow> string \<Rightarrow> uuid) \<Rightarrow> (uuid \<Rightarrow> string) \<Rightarrow> chain \<Rightarrow> wl_context \<Rightarrow>
     ('d :: linordered_idom) silver_records \<Rightarrow> 'd wallet_ledger_record list" where
  "derive_all_wallet_ledger_entries vh us chain c records =
     (case chain_family_from_chain chain of
        CF_Solana \<Rightarrow>
          let (es1, off1) = derive_wallet_ledger_from_native_balance_deltas vh us c
                (sr_native_balance_deltas records) 0;
              (es2, off2) = derive_wallet_ledger_from_token_transfers vh us c
                (sr_token_transfers records) off1
          in es1 @ es2
      | CF_Evm \<Rightarrow>
          fst (derive_wallet_ledger_from_token_transfers vh us c (sr_token_transfers records) 0)
      | CF_Hyperliquid \<Rightarrow>
          let (es1, off1) = derive_wallet_ledger_from_hl_fills vh us c (sr_hl_fills records) 0;
              (es2, off2) = derive_wallet_ledger_from_hl_funding vh us c (sr_hl_funding records) off1
          in es1 @ es2)"

section \<open>The contract of a derivation loop\<close>

text \<open>Contents numbered from an offset: the k-th content is built at the k-th offset.\<close>

fun number :: "('c \<Rightarrow> u32 \<Rightarrow> 'e) \<Rightarrow> 'c list \<Rightarrow> u32 \<Rightarrow> 'e list" where
  "number mk [] off = []"
| "number mk (c # cs) off = mk c off # number mk cs (off + 1)"

lemma length_number [simp]: "length (number mk cs off) = length cs"
  by (induction cs arbitrary: off) auto

lemma number_append:
  "number mk (cs @ ds) off = number mk cs off @ number mk ds (off + of_nat (length cs))"
  by (induction cs arbitrary: off) (auto simp: algebra_simps)

lemma number_map: "number mk (map f cs) off = number (\<lambda>c. mk (f c)) cs off"
  by (induction cs arbitrary: off) auto

lemma map_number:
  "(\<And>c k. c \<in> set cs \<Longrightarrow> h (mk c k) = g c) \<Longrightarrow> map h (number mk cs off) = map g cs"
  by (induction cs arbitrary: off) auto

lemma map_number_ids:
  "(\<And>c k. h (mk c k) = g k) \<Longrightarrow>
     map h (number mk cs off) = map (\<lambda>k. g (off + of_nat k)) [0..<length cs]"
proof (induction cs arbitrary: off)
  case (Cons c cs)
  have "[0..<length (c # cs)] = 0 # map Suc [0..<length cs]"
    by (simp add: upt_conv_Cons map_Suc_upt del: upt_Suc)
  with Cons show ?case by (simp add: algebra_simps comp_def del: upt_Suc)
qed simp

locale ledger_source =
  fixes body :: "'r \<Rightarrow> 'e list \<times> u32 \<Rightarrow> 'e list \<times> u32"
    and mk :: "'r \<Rightarrow> 'c \<Rightarrow> u32 \<Rightarrow> 'e"
    and content :: "'r \<Rightarrow> 'c list"
  assumes body_eq:
    "body r (es, off) = (es @ number (mk r) (content r) off, off + of_nat (length (content r)))"
begin

definition items :: "'r list \<Rightarrow> ('r \<times> 'c) list" where
  "items rs = concat (map (\<lambda>r. map (Pair r) (content r)) rs)"

lemma items_simps [simp]: "items [] = []" "items (r # rs) = map (Pair r) (content r) @ items rs"
  by (simp_all add: items_def)

lemma emit_fold:
  "fold body rs (es, off) =
     (es @ number (case_prod mk) (items rs) off, off + of_nat (length (items rs)))"
  by (induction rs arbitrary: es off) (auto simp: body_eq number_append number_map algebra_simps)

lemma emit_all_eq:
  "emit_all body rs off =
     (number (case_prod mk) (items rs) off, off + of_nat (length (items rs)))"
  by (simp add: emit_fold)

lemma emit_all_content:
  assumes "\<And>r c k. h (mk r c k) = g c"
  shows "map h (fst (emit_all body rs off)) = concat (map (\<lambda>r. map g (content r)) rs)"
proof -
  have "map h (fst (emit_all body rs off)) = map (\<lambda>x. g (snd x)) (items rs)"
    unfolding emit_all_eq by (auto intro!: map_number simp: assms)
  also have "\<dots> = concat (map (\<lambda>r. map g (content r)) rs)"
    by (induction rs) (auto simp: comp_def)
  finally show ?thesis .
qed

lemma emit_all_ids:
  assumes "\<And>r c k. h (mk r c k) = g k"
  shows "map h (fst (emit_all body rs off)) =
    map (\<lambda>k. g (off + of_nat k)) [0..<length (fst (emit_all body rs off))]"
  unfolding emit_all_eq by (auto intro!: map_number_ids simp: assms)

lemma emit_all_offset:
  "snd (emit_all body rs off) = off + of_nat (length (fst (emit_all body rs off)))"
  unfolding emit_all_eq by simp

end

text \<open>What each Silver record contributes to the ledger of a wallet: symbol, amount, type, value.\<close>

type_synonym 'd ledger_content = "string \<times> 'd \<times> entry_type \<times> 'd option"

definition wallet_is :: "string \<Rightarrow> string \<Rightarrow> bool" where
  "wallet_is wallet addr \<longleftrightarrow>
     normalize_address_for_comparison addr = normalize_address_for_comparison wallet"

definition transfer_content :: "string \<Rightarrow> ('d :: linordered_idom) token_transfer \<Rightarrow> 'd ledger_content list" where
  "transfer_content wallet t =
     (if wallet_is wallet (tt_from_address t)
      then [(transfer_symbol t, - tt_amount t, ET_Transfer, None)] else [])
     @ (if wallet_is wallet (tt_to_address t)
        then [(transfer_symbol t, tt_amount t, ET_Transfer, None)] else [])"

definition native_content :: "string \<Rightarrow> ('d :: linordered_idom) native_balance_delta \<Rightarrow> 'd ledger_content list" where
  "native_content wallet d =
     (if wallet_is wallet (nbd_account_address d) \<and> nbd_delta d \<noteq> 0
      then [(nbd_native_token d, nbd_delta d, if nbd_is_fee_payer d then ET_Fee else ET_Transfer, None)]
      else [])"

definition fill_content :: "('d :: linordered_idom) hl_fill_record \<Rightarrow> 'd ledger_content list" where
  "fill_content f =
     (fill_coin f, signed_size f, ET_Trade, Some (fill_size f * fill_price f))
     # (case nonzero_opt (fill_fee f) of
          Some fee \<Rightarrow> [(fee_token_or_usdc f, - fee, ET_Fee, None)] | None \<Rightarrow> [])
     @ (case nonzero_opt (fill_closed_pnl f) of
          Some pnl \<Rightarrow> [(''USDC'', pnl, ET_Income, None)] | None \<Rightarrow> [])"

definition funding_content :: "('d :: linordered_idom) hl_funding_payment \<Rightarrow> 'd ledger_content list" where
  "funding_content p =
     [(''USDC'', fund_amount p, if fund_amount p > 0 then ET_Income else ET_Fee, None)]"

abbreviation le_mk where
  "le_mk vh us wallet user_id tx \<equiv>
     (\<lambda>(c :: 'd ledger_content) off. case c of (symbol, amount, etype, fiat) \<Rightarrow>
        ledger_entry_of vh us wallet user_id tx symbol amount etype fiat off)"

lemmas body_simps = push_def push_if_def Let_def wallet_is_def

interpretation lt: ledger_source "token_transfer_body vh us wallet user_id tx"
    "\<lambda>_. le_mk vh us wallet user_id tx" "transfer_content wallet" for vh us wallet user_id tx
  by unfold_locales (auto simp: token_transfer_body_def transfer_content_def body_simps)

interpretation ln: ledger_source "native_delta_body vh us wallet user_id tx"
    "\<lambda>_. le_mk vh us wallet user_id tx" "native_content wallet" for vh us wallet user_id tx
  by unfold_locales (auto simp: native_delta_body_def native_content_def body_simps)

interpretation lf: ledger_source "hl_fill_body vh us wallet user_id tx"
    "\<lambda>_. le_mk vh us wallet user_id tx" fill_content for vh us wallet user_id tx
  by unfold_locales
    (auto simp: hl_fill_body_def fill_content_def body_simps algebra_simps split: option.splits)

interpretation lp: ledger_source "hl_funding_body vh us wallet user_id tx"
    "\<lambda>_. le_mk vh us wallet user_id tx" funding_content for vh us wallet user_id tx
  by unfold_locales (auto simp: hl_funding_body_def funding_content_def body_simps)

text \<open>
  A wallet ledger record carries the same symbol and amount, its type as a string, and the
  counterparty, fee and proceeds. Funding keeps its own type here.
\<close>

type_synonym 'd wallet_content =
  "string \<times> string \<times> 'd \<times> string option \<times> 'd option \<times> string option \<times> 'd option"

definition wallet_transfer_content :: "string \<Rightarrow> ('d :: linordered_idom) token_transfer \<Rightarrow> 'd wallet_content list" where
  "wallet_transfer_content wallet t =
     (if wallet_is wallet (tt_from_address t)
      then [(''transfer'', transfer_symbol t, - tt_amount t, Some (tt_to_address t), None, None, None)]
      else [])
     @ (if wallet_is wallet (tt_to_address t)
        then [(''transfer'', transfer_symbol t, tt_amount t, Some (tt_from_address t), None, None, None)]
        else [])"

definition wallet_native_content :: "string \<Rightarrow> ('d :: linordered_idom) native_balance_delta \<Rightarrow> 'd wallet_content list" where
  "wallet_native_content wallet d =
     (if wallet_is wallet (nbd_account_address d) \<and> nbd_delta d \<noteq> 0
      then [(if nbd_is_fee_payer d then ''fee'' else ''transfer'', nbd_native_token d, nbd_delta d, None,
             if nbd_is_fee_payer d then Some \<bar>nbd_delta d\<bar> else None,
             if nbd_is_fee_payer d then Some (nbd_native_token d) else None, None)]
      else [])"

definition wallet_fill_content :: "('d :: linordered_idom) hl_fill_record \<Rightarrow> 'd wallet_content list" where
  "wallet_fill_content f =
     (''trade'', fill_coin f, signed_size f, None, fill_fee f, fill_fee_token f,
        Some (fill_size f * fill_price f))
     # (case nonzero_opt (fill_fee f) of
          Some fee \<Rightarrow> [(''fee'', fee_token_or_usdc f, - fee, None, Some fee,
                        Some (fee_token_or_usdc f), None)]
        | None \<Rightarrow> [])
     @ (case nonzero_opt (fill_closed_pnl f) of
          Some pnl \<Rightarrow> [(''income'', ''USDC'', pnl, None, None, None, None)] | None \<Rightarrow> [])"

definition wallet_funding_content :: "('d :: linordered_idom) hl_funding_payment \<Rightarrow> 'd wallet_content list" where
  "wallet_funding_content p = [(''funding'', ''USDC'', fund_amount p, None, None, None, None)]"

abbreviation wl_mk where
  "wl_mk vh us c raw version \<equiv>
     (\<lambda>(x :: 'd wallet_content) off. case x of (etype, symbol, amount, cp, fee, fee_asset, proceeds) \<Rightarrow>
        wallet_record_of vh us c raw version etype symbol amount cp fee fee_asset proceeds off)"

interpretation wt: ledger_source "wallet_token_transfer_body vh us c"
    "\<lambda>r. wl_mk vh us c (tt_raw_transaction_id r) (tt_dataset_version_id r)"
    "wallet_transfer_content (wc_wallet c)" for vh us c
  by unfold_locales (auto simp: wallet_token_transfer_body_def wallet_transfer_content_def body_simps)

interpretation wn: ledger_source "wallet_native_delta_body vh us c"
    "\<lambda>r. wl_mk vh us c (nbd_raw_transaction_id r) (nbd_dataset_version_id r)"
    "wallet_native_content (wc_wallet c)" for vh us c
  by unfold_locales (auto simp: wallet_native_delta_body_def wallet_native_content_def body_simps)

interpretation wf: ledger_source "wallet_hl_fill_body vh us c"
    "\<lambda>r. wl_mk vh us c (fill_raw_transaction_id r) (fill_dataset_version_id r)"
    wallet_fill_content for vh us c
  by unfold_locales
    (auto simp: wallet_hl_fill_body_def wallet_fill_content_def body_simps algebra_simps
      split: option.splits)

interpretation wp: ledger_source "wallet_hl_funding_body vh us c"
    "\<lambda>r. wl_mk vh us c (fund_raw_transaction_id r) (fund_dataset_version_id r)"
    wallet_funding_content for vh us c
  by unfold_locales (auto simp: wallet_hl_funding_body_def wallet_funding_content_def body_simps)

section \<open>The whole derivation\<close>

text \<open>The contents of a transaction, dataset by dataset in the order of the dispatch.\<close>

definition ledger_contents :: "chain \<Rightarrow> string \<Rightarrow> ('d :: linordered_idom) silver_records \<Rightarrow> 'd ledger_content list" where
  "ledger_contents chain wallet r =
     (case chain of
        Chain_Solana \<Rightarrow> concat (map (native_content wallet) (sr_native_balance_deltas r))
                      @ concat (map (transfer_content wallet) (sr_token_transfers r))
      | Chain_Ethereum \<Rightarrow> concat (map (transfer_content wallet) (sr_token_transfers r))
      | Chain_Hyperliquid \<Rightarrow> concat (map fill_content (sr_hl_fills r))
                           @ concat (map funding_content (sr_hl_funding r)))"

definition wallet_contents :: "chain \<Rightarrow> string \<Rightarrow> ('d :: linordered_idom) silver_records \<Rightarrow> 'd wallet_content list" where
  "wallet_contents chain wallet r =
     (case chain of
        Chain_Solana \<Rightarrow> concat (map (wallet_native_content wallet) (sr_native_balance_deltas r))
                      @ concat (map (wallet_transfer_content wallet) (sr_token_transfers r))
      | Chain_Ethereum \<Rightarrow> concat (map (wallet_transfer_content wallet) (sr_token_transfers r))
      | Chain_Hyperliquid \<Rightarrow> concat (map wallet_fill_content (sr_hl_fills r))
                           @ concat (map wallet_funding_content (sr_hl_funding r)))"

definition le_content :: "'d ledger_entry \<Rightarrow> 'd ledger_content" where
  "le_content e = (le_asset_symbol e, le_amount e, le_entry_type e, le_fiat_value e)"

definition wl_content :: "'d wallet_ledger_record \<Rightarrow> 'd wallet_content" where
  "wl_content r = (wl_entry_type r, wl_asset_symbol r, wl_amount r, wl_counterparty_address r,
     wl_fee_amount r, wl_fee_asset r, wl_proceeds r)"

lemma le_content_mk [simp]: "le_content (le_mk vh us w u tx c off) = c"
  by (cases c) (simp add: le_content_def ledger_entry_of_def)

lemma wl_content_mk [simp]: "wl_content (wl_mk vh us c raw version x off) = x"
  by (cases x) (simp add: wl_content_def wallet_record_of_def)

lemma le_id_mk [simp]: "le_id (le_mk vh us w u tx c off) = deterministic_id vh us tx off"
  by (cases c) (simp add: ledger_entry_of_def)

lemmas derive_defs =
  derive_ledger_from_token_transfers_def derive_ledger_from_native_balance_deltas_def
  derive_ledger_from_hl_fills_def derive_ledger_from_hl_funding_def
  derive_wallet_ledger_from_token_transfers_def derive_wallet_ledger_from_native_balance_deltas_def
  derive_wallet_ledger_from_hl_fills_def derive_wallet_ledger_from_hl_funding_def

lemma derive_all_ledger_contents:
  "map le_content (derive_all_ledger_entries vh us chain wallet user_id tx r)
     = ledger_contents chain wallet r"
  unfolding derive_all_ledger_entries_def derive_defs ledger_contents_def
  by (cases chain)
    (simp_all add: case_prod_unfold Let_def del: emit_all.simps,
     simp_all add: lt.emit_all_content ln.emit_all_content lf.emit_all_content
       lp.emit_all_content del: emit_all.simps)

lemma derive_all_wallet_contents:
  "map wl_content (derive_all_wallet_ledger_entries vh us chain c r)
     = wallet_contents chain (wc_wallet c) r"
  unfolding derive_all_wallet_ledger_entries_def derive_defs wallet_contents_def
  by (cases chain)
    (simp_all add: case_prod_unfold Let_def del: emit_all.simps,
     simp_all add: wt.emit_all_content wn.emit_all_content wf.emit_all_content
       wp.emit_all_content del: emit_all.simps)

lemma ids_append:
  fixes es1 es2 :: "'e list"
  assumes "map h es1 = map (\<lambda>k. g (of_nat k :: u32)) [0..<length es1]"
    and "map h es2 = map (\<lambda>k. g (of_nat (length es1) + of_nat k)) [0..<length es2]"
  shows "map h (es1 @ es2) = map (\<lambda>k. g (of_nat k)) [0..<length (es1 @ es2)]"
proof -
  have "[0..<length (es1 @ es2)] = [0..<length es1] @ map (\<lambda>k. length es1 + k) [0..<length es2]"
    using upt_add_eq_append [of 0 "length es1" "length es2"]
    by (simp add: map_add_upt add.commute)
  with assms show ?thesis by (simp add: comp_def)
qed

lemmas le_ids_simps = derive_all_ledger_entries_def derive_defs case_prod_unfold Let_def

lemma derive_all_ids:
  "map le_id (derive_all_ledger_entries vh us chain wallet user_id tx r)
     = map (\<lambda>k. deterministic_id vh us tx (of_nat k))
         [0..<length (derive_all_ledger_entries vh us chain wallet user_id tx r)]"
proof (cases chain)
  case Chain_Solana
  have "map le_id (es1 @ es2) = map (\<lambda>k. deterministic_id vh us tx (of_nat k)) [0..<length (es1 @ es2)]"
    if "es1 = fst (emit_all (native_delta_body vh us wallet user_id tx) ds 0)"
      and "es2 = fst (emit_all (token_transfer_body vh us wallet user_id tx) ts (of_nat (length es1)))"
    for ds ts es1 es2
    unfolding that(2)
    using ln.emit_all_ids [where h = le_id and off = 0, OF le_id_mk]
    by (intro ids_append lt.emit_all_ids) (simp_all add: that(1) del: emit_all.simps)
  from this [OF refl refl] Chain_Solana show ?thesis
    by (simp add: le_ids_simps ln.emit_all_offset del: emit_all.simps map_append length_append)
next
  case Chain_Ethereum
  then show ?thesis
    using lt.emit_all_ids [where h = le_id and off = 0, OF le_id_mk]
    by (simp add: le_ids_simps del: emit_all.simps)
next
  case Chain_Hyperliquid
  have "map le_id (es1 @ es2) = map (\<lambda>k. deterministic_id vh us tx (of_nat k)) [0..<length (es1 @ es2)]"
    if "es1 = fst (emit_all (hl_fill_body vh us wallet user_id tx) fs 0)"
      and "es2 = fst (emit_all (hl_funding_body vh us wallet user_id tx) ps (of_nat (length es1)))"
    for fs ps es1 es2
    unfolding that(2)
    using lf.emit_all_ids [where h = le_id and off = 0, OF le_id_mk]
    by (intro ids_append lp.emit_all_ids) (simp_all add: that(1) del: emit_all.simps)
  from this [OF refl refl] Chain_Hyperliquid show ?thesis
    by (simp add: le_ids_simps lf.emit_all_offset del: emit_all.simps map_append length_append)
qed

section \<open>Properties\<close>

definition id_name :: "(uuid \<Rightarrow> string) \<Rightarrow> uuid \<Rightarrow> nat \<Rightarrow> string" where
  "id_name us tx k = us tx @ '':'' @ show_nat k"

lemma id_name_inj: "id_name us tx j = id_name us tx k \<longleftrightarrow> j = k"
  by (auto simp: id_name_def dest: show_nat_inj)

text \<open>
  The entries of a transaction get the ids of consecutive indices, starting at 0 and running
  across the datasets; with at most \<open>2^32\<close> entries and a version-5 hash that has no collision on
  the names hashed, no two entries share an id, so an upsert keyed on the id never merges two.
\<close>

theorem ledger_ids_distinct:
  assumes es_def: "es = derive_all_ledger_entries vh us chain wallet user_id tx r"
    and "length es \<le> 2 ^ 32"
    and "inj_on (vh LEDGER_ENTRY_NS) (id_name us tx ` {..<length es})"
  shows "(\<forall>k < length es. le_id (es ! k) = vh LEDGER_ENTRY_NS (id_name us tx k))
    \<and> distinct (map le_id es)"
proof -
  have id: "deterministic_id vh us tx (of_nat k) = vh LEDGER_ENTRY_NS (id_name us tx k)"
    if "k < length es" for k
    using that assms(2) by (simp add: deterministic_id_def id_name_def unat_of_nat)
  have ids: "map le_id es = map (\<lambda>k. vh LEDGER_ENTRY_NS (id_name us tx k)) [0..<length es]"
    unfolding es_def derive_all_ids by (simp add: es_def [symmetric] id)
  have "inj_on (\<lambda>k. vh LEDGER_ENTRY_NS (id_name us tx k)) {..<length es}"
    using assms(3) by (auto simp: inj_on_def id_name_inj)
  then have "distinct (map le_id es)"
    unfolding ids by (simp add: distinct_map lessThan_atLeast0)
  moreover have "le_id (es ! k) = vh LEDGER_ENTRY_NS (id_name us tx k)" if "k < length es" for k
    using arg_cong [OF ids, of "\<lambda>xs. xs ! k"] that by simp
  ultimately show ?thesis by blast
qed

text \<open>A transfer of five tokens from the wallet to itself, written in another case.\<close>

definition self_transfer :: "int token_transfer" where
  "self_transfer =
     \<lparr>tt_id = 1, tt_raw_transaction_id = Some 7, tt_network = ''ethereum-mainnet'',
      tt_token_address = ''0xt'', tt_token_symbol = Some ''TOK'', tt_from_address = ''0xAB'',
      tt_to_address = ''0xab'', tt_amount = 5, tt_decimals = 0, tt_transfer_index = 0,
      tt_dataset_version_id = None, tt_created_at = 0\<rparr>"

definition self_transfer_records :: "int silver_records" where
  "self_transfer_records =
     \<lparr>sr_token_transfers = [self_transfer], sr_native_balance_deltas = [], sr_hl_fills = [],
      sr_hl_funding = []\<rparr>"

lemma show_nat_0_1 [simp]: "show_nat 0 = ''0''" "show_nat 1 = ''1''" "show_nat (Suc 0) = ''1''"
  by code_simp+

lemma wallet_is_self: "wallet_is ''0xab'' ''0xAB''" "wallet_is ''0xab'' ''0xab''"
  by code_simp+

lemma self_transfer_contents:
  "ledger_contents Chain_Ethereum ''0xab'' self_transfer_records =
     [(''TOK'', - 5, ET_Transfer, None), (''TOK'', 5, ET_Transfer, None)]"
  by (simp add: ledger_contents_def transfer_content_def self_transfer_records_def
      self_transfer_def wallet_is_self transfer_symbol_def)

theorem ledger_ids_distinct_witness:
  "distinct (map le_id (derive_all_ledger_entries (\<lambda>ns s. of_char (last s)) (\<lambda>u. ''tx'')
     Chain_Ethereum ''0xab'' 1 7 self_transfer_records))"
proof -
  let ?es = "derive_all_ledger_entries (\<lambda>ns s. of_char (last s)) (\<lambda>u. ''tx'')
     Chain_Ethereum ''0xab'' 1 7 self_transfer_records"
  have len: "length ?es = 2"
    unfolding length_map [of le_content, symmetric] derive_all_ledger_contents
      self_transfer_contents by simp
  have "inj_on (\<lambda>s. of_char (last s) :: uuid) (id_name (\<lambda>u. ''tx'') 7 ` {..<2})"
    by (simp add: numeral_2_eq_2 lessThan_Suc id_name_def)
  with len show ?thesis
    using ledger_ids_distinct [OF refl, where vh = "\<lambda>ns s. of_char (last s)" and us = "\<lambda>u. ''tx''"
        and chain = Chain_Ethereum and wallet = "''0xab''" and user_id = 1 and tx = 7
        and r = self_transfer_records] by simp
qed

text \<open>Amounts of an asset moved by the transfers of a transaction, by a test on the transfer.\<close>

definition moved :: "string \<Rightarrow> (('d :: linordered_idom) token_transfer \<Rightarrow> bool) \<Rightarrow> 'd token_transfer list \<Rightarrow> 'd" where
  "moved asset P ts = sum_list (map tt_amount (filter (\<lambda>t. transfer_symbol t = asset \<and> P t) ts))"

definition native_change :: "string \<Rightarrow> string \<Rightarrow> ('d :: linordered_idom) native_balance_delta list \<Rightarrow> 'd" where
  "native_change wallet asset ds =
     sum_list (map nbd_delta (filter (\<lambda>d. nbd_native_token d = asset \<and> wallet_is wallet (nbd_account_address d)) ds))"

definition net_amount :: "string \<Rightarrow> ('d :: linordered_idom) ledger_entry list \<Rightarrow> 'd" where
  "net_amount asset es = sum_list (map le_amount (filter (\<lambda>e. le_asset_symbol e = asset) es))"

definition net_content :: "string \<Rightarrow> ('d :: linordered_idom) ledger_content list \<Rightarrow> 'd" where
  "net_content asset cs = sum_list (map (\<lambda>c. fst (snd c)) (filter (\<lambda>c. fst c = asset) cs))"

lemma net_amount_content: "net_amount asset es = net_content asset (map le_content es)"
  by (simp add: net_amount_def net_content_def filter_map comp_def le_content_def)

lemma net_content_append [simp]: "net_content a (cs @ ds) = net_content a cs + net_content a ds"
  by (simp add: net_content_def)

lemma net_transfers:
  "net_content asset (concat (map (transfer_content wallet) ts)) =
     moved asset (\<lambda>t. wallet_is wallet (tt_to_address t)) ts
     - moved asset (\<lambda>t. wallet_is wallet (tt_from_address t)) ts"
  by (induction ts) (auto simp: moved_def net_content_def transfer_content_def)

lemma net_natives:
  "net_content asset (concat (map (native_content wallet) ds)) = native_change wallet asset ds"
  by (induction ds) (auto simp: native_change_def net_content_def native_content_def)

text \<open>What the fills and the funding payments of a Hyperliquid transaction move: size, fee, profit and funding.\<close>

definition fills_change :: "string \<Rightarrow> ('d :: linordered_idom) hl_fill_record list \<Rightarrow> 'd" where
  "fills_change asset fs =
     (\<Sum>f \<leftarrow> filter (\<lambda>f. fill_coin f = asset) fs. if fill_side f = ''B'' then fill_size f else - fill_size f)
     - (\<Sum>f \<leftarrow> filter (\<lambda>f. (case fill_fee_token f of Some t \<Rightarrow> t | None \<Rightarrow> ''USDC'') = asset) fs.
          case fill_fee f of Some fee \<Rightarrow> fee | None \<Rightarrow> 0)
     + (if asset = ''USDC'' then (\<Sum>f \<leftarrow> fs. case fill_closed_pnl f of Some pnl \<Rightarrow> pnl | None \<Rightarrow> 0) else 0)"

definition funding_change :: "string \<Rightarrow> ('d :: linordered_idom) hl_funding_payment list \<Rightarrow> 'd" where
  "funding_change asset ps = (if asset = ''USDC'' then (\<Sum>p \<leftarrow> ps. fund_amount p) else 0)"

lemma net_content_Cons: "net_content asset ((a, v, z) # cs) = (if a = asset then v else 0) + net_content asset cs"
  "net_content asset [] = 0"
  by (simp_all add: net_content_def)

lemma net_fill:
  "net_content asset (fill_content f) = (if fill_coin f = asset then if fill_side f = ''B'' then fill_size f else - fill_size f else 0)
     - (if (case fill_fee_token f of Some t \<Rightarrow> t | None \<Rightarrow> ''USDC'') = asset then case fill_fee f of Some fee \<Rightarrow> fee | None \<Rightarrow> 0 else 0)
     + (if asset = ''USDC'' then case fill_closed_pnl f of Some pnl \<Rightarrow> pnl | None \<Rightarrow> 0 else 0)"
  unfolding fill_content_def nonzero_opt_def fee_token_or_usdc_def signed_size_def
  by (cases "fill_fee f"; cases "fill_closed_pnl f") (auto simp: net_content_Cons)

lemma net_fills: "net_content asset (concat (map fill_content fs)) = fills_change asset fs"
proof (induction fs)
  case (Cons f fs)
  then show ?case by (simp add: net_fill fills_change_def)
qed (simp add: fills_change_def net_content_Cons)

lemma net_fundings: "net_content asset (concat (map funding_content ps)) = funding_change asset ps"
  by (induction ps) (auto simp: funding_change_def net_content_def funding_content_def)

text \<open>
  C30. Conservation, for every asset and every chain. On an EVM chain the derived entries of an asset sum to what the token
  transfers moved into the wallet minus what they moved out of it; on Solana the changes of the native balance of the
  wallet are added; on Hyperliquid they sum to the sizes bought minus the sizes sold of the fills in that coin, minus
  the fees paid in it, and for USDC plus the closed profits and the funding payments. Transfers of other
  wallets and of other assets contribute nothing.
\<close>

theorem ledger_conservation:
  "net_amount asset (derive_all_ledger_entries vh us chain wallet user_id tx r) =
     (case chain of
        Chain_Ethereum \<Rightarrow> moved asset (\<lambda>t. wallet_is wallet (tt_to_address t)) (sr_token_transfers r)
          - moved asset (\<lambda>t. wallet_is wallet (tt_from_address t)) (sr_token_transfers r)
      | Chain_Solana \<Rightarrow> native_change wallet asset (sr_native_balance_deltas r)
          + moved asset (\<lambda>t. wallet_is wallet (tt_to_address t)) (sr_token_transfers r)
          - moved asset (\<lambda>t. wallet_is wallet (tt_from_address t)) (sr_token_transfers r)
      | Chain_Hyperliquid \<Rightarrow> fills_change asset (sr_hl_fills r) + funding_change asset (sr_hl_funding r))"
  unfolding net_amount_content derive_all_ledger_contents
  by (cases chain) (simp_all add: ledger_contents_def net_transfers net_natives net_fills net_fundings)

definition sample_settlement :: "int silver_records" where
  "sample_settlement = \<lparr>sr_token_transfers = [], sr_native_balance_deltas = [],
     sr_hl_fills = [\<lparr>fill_id = 1, fill_raw_transaction_id = None, fill_network = ''hypercore-mainnet'', fill_coin = ''BTC'',
       fill_side = ''A'', fill_price = 10, fill_size = 2, fill_direction = None, fill_closed_pnl = Some 7, fill_fee = Some 3,
       fill_fee_token = None, fill_fill_time = 5, fill_order_id = None, fill_trade_id = None, fill_dataset_version_id = None,
       fill_created_at = 0\<rparr>], sr_hl_funding = []\<rparr>"

theorem ledger_conservation_witness:
  "net_amount ''USDC'' (derive_all_ledger_entries (\<lambda>_ _. 0) (\<lambda>_. []) Chain_Hyperliquid ''w'' 1 7 sample_settlement) = 4
   \<and> net_amount ''BTC'' (derive_all_ledger_entries (\<lambda>_ _. 0) (\<lambda>_. []) Chain_Hyperliquid ''w'' 1 7 sample_settlement) = - 2"
  by (simp add: ledger_conservation sample_settlement_def fills_change_def funding_change_def)

text \<open>
  A transaction whose transfers all go from the wallet to itself leaves the balance of every
  asset unchanged, whatever the case in which its addresses are written.
\<close>

theorem self_transfers_net_zero:
  assumes "\<forall>t \<in> set (sr_token_transfers r).
    wallet_is wallet (tt_from_address t) \<and> wallet_is wallet (tt_to_address t)"
  shows "net_amount asset (derive_all_ledger_entries vh us Chain_Ethereum wallet user_id tx r) = 0"
proof -
  have "filter (\<lambda>t. transfer_symbol t = asset \<and> wallet_is wallet (tt_to_address t)) (sr_token_transfers r)
      = filter (\<lambda>t. transfer_symbol t = asset \<and> wallet_is wallet (tt_from_address t)) (sr_token_transfers r)"
    using assms by (intro filter_cong) auto
  then show ?thesis
    unfolding net_amount_content derive_all_ledger_contents
    by (simp add: ledger_contents_def net_transfers moved_def)
qed

theorem self_transfers_net_zero_witness:
  "length (sr_token_transfers self_transfer_records) = 1
   \<and> net_amount ''TOK'' (derive_all_ledger_entries (\<lambda>ns s. 0) (\<lambda>u. ''tx'')
        Chain_Ethereum ''0xab'' 1 7 self_transfer_records) = 0"
  using self_transfers_net_zero [where r = self_transfer_records and wallet = "''0xab''" and
      asset = "''TOK''" and vh = "\<lambda>ns s. 0" and us = "\<lambda>u. ''tx''" and user_id = 1 and tx = 7]
  by (simp add: self_transfer_records_def self_transfer_def wallet_is_self)

text \<open>
  How an entry type of the ledger appears in the wallet ledger: by its name, funding payments
  apart, which the ledger classifies as income or fee and the wallet ledger keeps as funding.
\<close>

definition type_agrees :: "entry_type \<Rightarrow> string \<Rightarrow> bool" where
  "type_agrees et s \<longleftrightarrow> s = entry_type_to_str et \<or> s = ''funding'' \<and> et \<in> {ET_Income, ET_Fee}"

definition entry_agrees :: "'d ledger_content \<Rightarrow> 'd wallet_content \<Rightarrow> bool" where
  "entry_agrees c x \<longleftrightarrow> (case (c, x) of
     ((symbol, amount, et, fiat), (etype, symbol', amount', cp, fee, fee_asset, proceeds)) \<Rightarrow>
       symbol = symbol' \<and> amount = amount' \<and> type_agrees et etype \<and> fiat = proceeds)"

lemma contents_agree_item:
  "list_all2 entry_agrees (transfer_content w t) (wallet_transfer_content w t)"
  "list_all2 entry_agrees (native_content w d) (wallet_native_content w d)"
  "list_all2 entry_agrees (fill_content f) (wallet_fill_content f)"
  "list_all2 entry_agrees (funding_content p) (wallet_funding_content p)"
  by (auto simp: transfer_content_def wallet_transfer_content_def native_content_def
      wallet_native_content_def fill_content_def wallet_fill_content_def funding_content_def
      wallet_funding_content_def entry_agrees_def type_agrees_def split: option.splits)

lemma list_all2_concat_map:
  "(\<And>x. list_all2 P (f x) (g x)) \<Longrightarrow> list_all2 P (concat (map f xs)) (concat (map g xs))"
  by (induction xs) (auto intro: list_all2_appendI)

text \<open>
  The two views of a transaction agree: the legacy ledger and the wallet ledger have the same
  number of rows and, row by row, the same asset, the same signed amount, the same fiat value
  and the same type up to the name of funding payments.
\<close>

theorem ledger_views_agree:
  "list_all2 entry_agrees
     (map le_content (derive_all_ledger_entries vh us chain (wc_wallet c) user_id tx r))
     (map wl_content (derive_all_wallet_ledger_entries vh us chain c r))"
  unfolding derive_all_ledger_contents derive_all_wallet_contents
  by (cases chain)
    (auto simp: ledger_contents_def wallet_contents_def
      intro!: list_all2_appendI list_all2_concat_map contents_agree_item)

lemma wallet_is_cong:
  "normalize_address_for_comparison w = normalize_address_for_comparison w' \<Longrightarrow>
     wallet_is w = wallet_is w'"
  by (simp add: wallet_is_def fun_eq_iff)

text \<open>
  The ledger does not depend on how a hexadecimal wallet address is written: two spellings
  that differ in case only give the same assets, amounts, types and values in the same order.
\<close>

theorem ledger_case_insensitive:
  assumes "starts_with wallet ''0x''" and "to_lowercase wallet = to_lowercase wallet'"
    and "starts_with wallet' ''0x'' \<or> starts_with wallet' ''0X''"
  shows "map le_content (derive_all_ledger_entries vh us chain wallet user_id tx r)
       = map le_content (derive_all_ledger_entries vh us chain wallet' user_id tx r)"
proof -
  have "wallet_is wallet = wallet_is wallet'"
    using assms by (intro wallet_is_cong) (auto simp: normalize_address_for_comparison_def)
  then show ?thesis
    unfolding derive_all_ledger_contents
    by (simp add: ledger_contents_def transfer_content_def [abs_def] native_content_def [abs_def]
        cong: chain.case_cong)
qed

theorem ledger_case_insensitive_witness:
  "map le_content (derive_all_ledger_entries (\<lambda>ns s. 0) (\<lambda>u. ''tx'') Chain_Ethereum ''0xab'' 1 7
     self_transfer_records)
   = map le_content (derive_all_ledger_entries (\<lambda>ns s. 0) (\<lambda>u. ''tx'') Chain_Ethereum ''0XAB'' 1 7
     self_transfer_records)"
  by (rule ledger_case_insensitive) code_simp+

end
