(* ===== verification/Gold_Balances.thy ===== *)
theory Gold_Balances
  imports Ledger "HOL-Library.Product_Lexorder"
begin

text \<open>
  The incremental \<open>balance_history\<close> materialization of \<open>adapters/src/dual_write.rs\<close>
  (\<open>materialize_gold_from_silver\<close>, the balance section) with the queries and the upsert of
  \<open>adapters/src/v2_repo.rs\<close> it runs. A batch of balance events arrives in any order and may be
  older than rows already stored; for each (network, asset) the code seeds from the last row
  before the batch, reads the rows from there on, replays the stored deltas together with the
  new ones in (timestamp, id) order and upserts the rows.

  The table is the list of its rows. A query that may fail is given by \<open>read_ok\<close> (the three reads
  of a group) and \<open>write_ok\<close> (the transaction of the upsert).
\<close>

section \<open>Rows, events and their order\<close>

record 'd bh_row =
  bh_snap :: "'d balance_snapshot"
  bh_delta :: "'d option"

record 'd balance_event =
  be_network :: string
  be_asset :: string
  be_timestamp :: int
  be_tx_hash :: string
  be_delta :: "'d"
  be_snapshot_id :: uuid

record 'd recompute_event =
  re_id :: uuid
  re_network :: string
  re_asset :: string
  re_timestamp :: int
  re_tx_hash :: string
  re_delta :: "'d"
  re_created_at :: timestamp

type_synonym bh_key = "string \<times> string"

definition snap_ord :: "'d balance_snapshot \<Rightarrow> int \<times> uuid" where
  "snap_ord s = (bs_timestamp s, bs_id s)"

section \<open>Balance events of a batch\<close>

text \<open>\<open>NAMESPACE_URL\<close> of RFC 4122.\<close>

definition NAMESPACE_URL :: uuid where
  "NAMESPACE_URL = 0x6ba7b8119dad11d180b400c04fd430c8"

definition balance_snapshot_id ::
    "(uuid \<Rightarrow> string \<Rightarrow> uuid) \<Rightarrow> (uuid \<Rightarrow> string) \<Rightarrow> string \<Rightarrow> string \<Rightarrow> int \<Rightarrow> string \<Rightarrow> uuid \<Rightarrow> uuid" where
  "balance_snapshot_id vh us wallet asset ts txh source_id =
     vh NAMESPACE_URL (''bh:'' @ wallet @ '':'' @ asset @ '':'' @ show_int ts @ '':'' @ txh
       @ '':'' @ us source_id)"

text \<open>A raw transaction as far as Gold reads it: \<open>core/src/v2.rs\<close>, \<open>RawTransaction\<close>.\<close>

record raw_transaction =
  raw_id :: uuid
  raw_network :: string
  raw_tx_hash :: string
  raw_timestamp :: int
  raw_block_number :: "int option"
  raw_metadata :: json
  raw_source :: string
  raw_ingestion_run_id :: "uuid option"
  raw_ingested_at :: timestamp

text \<open>\<open>raw_tx_map\<close>: the last raw transaction of the batch with the id.\<close>

definition raw_tx_lookup :: "raw_transaction list \<Rightarrow> uuid option \<Rightarrow> raw_transaction option" where
  "raw_tx_lookup raws raw = Option.bind raw (\<lambda>i. find (\<lambda>r. raw_id r = i) (rev raws))"

definition hash_or_empty :: "raw_transaction option \<Rightarrow> string" where
  "hash_or_empty raw = (case raw of Some r \<Rightarrow> raw_tx_hash r | None \<Rightarrow> [])"

definition timestamp_or :: "int \<Rightarrow> raw_transaction option \<Rightarrow> int" where
  "timestamp_or d raw = (case raw of Some r \<Rightarrow> raw_timestamp r | None \<Rightarrow> d)"

definition transfer_balance_event ::
    "(uuid \<Rightarrow> string \<Rightarrow> uuid) \<Rightarrow> (uuid \<Rightarrow> string) \<Rightarrow> string \<Rightarrow> raw_transaction list \<Rightarrow>
     ('d :: linordered_idom) token_transfer \<Rightarrow> 'd balance_event option" where
  "transfer_balance_event vh us wallet raws t =
     (let wallet_norm = normalize_address_for_comparison wallet;
          from_match = normalize_address_for_comparison (tt_from_address t) = wallet_norm;
          to_match = normalize_address_for_comparison (tt_to_address t) = wallet_norm
      in if tt_decimals t < 0 then None
         else if \<not> from_match \<and> \<not> to_match then None
         else
           let raw = raw_tx_lookup raws (tt_raw_transaction_id t);
               source_id = vh NAMESPACE_URL (''transfer:'' @ us (raw_tx_or_nil (tt_raw_transaction_id t))
                 @ '':'' @ tt_token_address t @ '':'' @ tt_from_address t @ '':'' @ tt_to_address t
                 @ '':'' @ show_int (tt_transfer_index t));
               asset = transfer_symbol t;
               ts = timestamp_or 0 raw
           in Some \<lparr>be_network = tt_network t, be_asset = asset, be_timestamp = ts,
                be_tx_hash = hash_or_empty raw,
                be_delta = (if from_match \<and> to_match then 0
                            else if from_match then - tt_amount t else tt_amount t),
                be_snapshot_id = balance_snapshot_id vh us wallet asset ts (hash_or_empty raw) source_id\<rparr>)"

definition native_balance_event ::
    "(uuid \<Rightarrow> string \<Rightarrow> uuid) \<Rightarrow> (uuid \<Rightarrow> string) \<Rightarrow> string \<Rightarrow> raw_transaction list \<Rightarrow>
     ('d :: linordered_idom) native_balance_delta \<Rightarrow> 'd balance_event option" where
  "native_balance_event vh us wallet raws d =
     (if normalize_address_for_comparison (nbd_account_address d)
           \<noteq> normalize_address_for_comparison wallet then None
      else
        let raw = raw_tx_lookup raws (nbd_raw_transaction_id d);
            source_id = vh NAMESPACE_URL (''native:'' @ us (raw_tx_or_nil (nbd_raw_transaction_id d))
              @ '':'' @ nbd_account_address d @ '':'' @ nbd_native_token d);
            ts = timestamp_or 0 raw
        in Some \<lparr>be_network = nbd_network d, be_asset = nbd_native_token d, be_timestamp = ts,
             be_tx_hash = hash_or_empty raw, be_delta = nbd_delta d,
             be_snapshot_id = balance_snapshot_id vh us wallet (nbd_native_token d) ts
               (hash_or_empty raw) source_id\<rparr>)"

definition evm_balance_event ::
    "(uuid \<Rightarrow> string \<Rightarrow> uuid) \<Rightarrow> (uuid \<Rightarrow> string) \<Rightarrow> string \<Rightarrow> raw_transaction \<times> string \<times> 'd \<Rightarrow> 'd balance_event" where
  "evm_balance_event vh us wallet flow =
     (case flow of (raw, asset, delta) \<Rightarrow>
        \<lparr>be_network = raw_network raw, be_asset = asset, be_timestamp = raw_timestamp raw,
         be_tx_hash = raw_tx_hash raw, be_delta = delta,
         be_snapshot_id = balance_snapshot_id vh us wallet asset (raw_timestamp raw)
           (raw_tx_hash raw) (raw_id raw)\<rparr>)"

definition balance_events ::
    "(uuid \<Rightarrow> string \<Rightarrow> uuid) \<Rightarrow> (uuid \<Rightarrow> string) \<Rightarrow> string \<Rightarrow> raw_transaction list \<Rightarrow>
     ('d :: linordered_idom) token_transfer list \<Rightarrow> 'd native_balance_delta list \<Rightarrow>
     (raw_transaction \<times> string \<times> 'd) list \<Rightarrow> 'd balance_event list" where
  "balance_events vh us wallet raws transfers deltas evm_flows =
     List.map_filter (transfer_balance_event vh us wallet raws) transfers
     @ List.map_filter (native_balance_event vh us wallet raws) deltas
     @ map (evm_balance_event vh us wallet) evm_flows"

section \<open>Queries and upsert\<close>

definition row_key :: "string \<Rightarrow> bh_key \<Rightarrow> 'd bh_row \<Rightarrow> bool" where
  "row_key wallet k r \<longleftrightarrow> bs_wallet_address (bh_snap r) = wallet
     \<and> (bs_network (bh_snap r), bs_asset_symbol (bh_snap r)) = k"

text \<open>\<open>ORDER BY timestamp DESC, id DESC, created_at DESC LIMIT 1\<close>; ids are unique.\<close>

definition get_latest_balance_snapshot_before_order ::
    "'d bh_row list \<Rightarrow> string \<Rightarrow> bh_key \<Rightarrow> int \<times> uuid \<Rightarrow> 'd balance_snapshot option" where
  "get_latest_balance_snapshot_before_order table wallet k before =
     (case rev (sort_key snap_ord (map bh_snap
              (filter (\<lambda>r. row_key wallet k r \<and> snap_ord (bh_snap r) < before) table))) of
        [] \<Rightarrow> None | s # _ \<Rightarrow> Some s)"

definition get_balance_snapshots_at_or_after_order ::
    "'d bh_row list \<Rightarrow> string \<Rightarrow> bh_key \<Rightarrow> int \<times> uuid \<Rightarrow> 'd balance_snapshot list" where
  "get_balance_snapshots_at_or_after_order table wallet k start =
     sort_key snap_ord (map bh_snap
       (filter (\<lambda>r. row_key wallet k r \<and> start \<le> snap_ord (bh_snap r)) table))"

definition balance_snapshot_deltas :: "'d bh_row list \<Rightarrow> uuid list \<Rightarrow> (uuid \<times> 'd) list" where
  "balance_snapshot_deltas table ids =
     List.map_filter (\<lambda>r. if bs_id (bh_snap r) \<in> set ids
        then map_option (Pair (bs_id (bh_snap r))) (bh_delta r) else None) table"

text \<open>
  \<open>INSERT .. ON CONFLICT (id) DO UPDATE\<close>: an existing row keeps everything but its balance, its
  delta (when a new one is given) and its version.
\<close>

definition upsert_row :: "'d balance_snapshot \<times> 'd option \<Rightarrow> 'd bh_row list \<Rightarrow> 'd bh_row list" where
  "upsert_row x table = (case x of (s, d) \<Rightarrow>
     if \<exists>r \<in> set table. bs_id (bh_snap r) = bs_id s
     then map (\<lambda>r. if bs_id (bh_snap r) = bs_id s
            then \<lparr>bh_snap = (bh_snap r)\<lparr>bs_balance := bs_balance s,
                    bs_dataset_version_id := bs_dataset_version_id s\<rparr>,
                  bh_delta = (case d of Some v \<Rightarrow> Some v | None \<Rightarrow> bh_delta r)\<rparr>
            else r) table
     else table @ [\<lparr>bh_snap = s, bh_delta = d\<rparr>])"

definition save_balance_snapshots_with_deltas ::
    "'d balance_snapshot list \<Rightarrow> (uuid \<times> 'd) list \<Rightarrow> 'd bh_row list \<Rightarrow> 'd bh_row list" where
  "save_balance_snapshots_with_deltas records deltas table =
     fold (\<lambda>s. upsert_row (s, map_of deltas (bs_id s))) records table"

section \<open>The incremental recomputation\<close>

definition event_key :: "'d balance_event \<Rightarrow> bh_key" where
  "event_key e = (be_network e, be_asset e)"

definition event_ord :: "'d balance_event \<Rightarrow> int \<times> uuid" where
  "event_ord e = (be_timestamp e, be_snapshot_id e)"

definition sort_events :: "'d balance_event list \<Rightarrow> 'd balance_event list" where
  "sort_events evs =
     sort_key (\<lambda>e. (be_network e, be_asset e, be_timestamp e, be_snapshot_id e)) evs"

definition incoming_by_key :: "'d balance_event list \<Rightarrow> (bh_key \<times> 'd balance_event list) list" where
  "incoming_by_key evs = tally event_key [] (\<lambda>e es. es @ [e]) (sort_events evs) []"

text \<open>\<open>entry(key).or_insert((timestamp, snapshot_id))\<close>: the first event of a key stays.\<close>

definition first_event_by_key :: "'d balance_event list \<Rightarrow> (bh_key \<times> (int \<times> uuid) option) list" where
  "first_event_by_key evs =
     tally event_key None (\<lambda>e v. case v of None \<Rightarrow> Some (event_ord e) | Some _ \<Rightarrow> v) (sort_events evs) []"

definition incoming_recompute :: "timestamp \<Rightarrow> 'd balance_event \<Rightarrow> 'd recompute_event" where
  "incoming_recompute now e =
     \<lparr>re_id = be_snapshot_id e, re_network = be_network e, re_asset = be_asset e,
      re_timestamp = be_timestamp e, re_tx_hash = be_tx_hash e, re_delta = be_delta e,
      re_created_at = now\<rparr>"

definition suffix_recompute :: "(uuid \<times> 'd) list \<Rightarrow> 'd balance_snapshot \<Rightarrow> 'd recompute_event" where
  "suffix_recompute deltas s =
     \<lparr>re_id = bs_id s, re_network = bs_network s, re_asset = bs_asset_symbol s,
      re_timestamp = bs_timestamp s, re_tx_hash = bs_tx_hash s,
      re_delta = the (map_of deltas (bs_id s)), re_created_at = bs_created_at s\<rparr>"

fun running_snapshots ::
    "string \<Rightarrow> uuid option \<Rightarrow> ('d :: linordered_idom) \<Rightarrow> 'd recompute_event list \<Rightarrow>
     ('d balance_snapshot \<times> 'd) list" where
  "running_snapshots wallet version balance [] = []"
| "running_snapshots wallet version balance (e # es) =
     (let balance' = balance + re_delta e
      in (\<lparr>bs_id = re_id e, bs_wallet_address = wallet, bs_asset_symbol = re_asset e,
           bs_network = re_network e, bs_timestamp = re_timestamp e, bs_balance = balance',
           bs_tx_hash = re_tx_hash e, bs_dataset_version_id = version,
           bs_created_at = re_created_at e\<rparr>, re_delta e)
         # running_snapshots wallet version balance' es)"

text \<open>One (network, asset) group: the snapshots to write, or the number of events skipped.\<close>

definition recompute_group ::
    "(bh_key \<Rightarrow> bool) \<Rightarrow> 'd bh_row list \<Rightarrow> string \<Rightarrow> uuid option \<Rightarrow> timestamp \<Rightarrow> uuid set \<Rightarrow>
     bh_key \<Rightarrow> int \<times> uuid \<Rightarrow> ('d :: linordered_idom) balance_event list \<Rightarrow>
     nat + ('d balance_snapshot \<times> 'd) list" where
  "recompute_group read_ok table wallet version now incoming_ids k first incoming =
     (if \<not> read_ok k then Inl (length incoming)
      else
        let seed = get_latest_balance_snapshot_before_order table wallet k first;
            suffix = get_balance_snapshots_at_or_after_order table wallet k first;
            deltas = balance_snapshot_deltas table (map bs_id suffix)
        in if \<exists>s \<in> set suffix. bs_id s \<notin> incoming_ids \<and> map_of deltas (bs_id s) = None
           then Inl (length incoming)
           else Inr (running_snapshots wallet version
                  (case seed of Some s \<Rightarrow> bs_balance s | None \<Rightarrow> 0)
                  (sort_key (\<lambda>e. (re_timestamp e, re_id e))
                    (map (incoming_recompute now) incoming
                     @ map (suffix_recompute deltas)
                         (filter (\<lambda>s. bs_id s \<notin> incoming_ids) suffix)))))"

record bh_result =
  bh_written :: nat
  bh_failed :: nat

text \<open>
  The whole balance section. \<open>ord\<close> is the iteration order of the map of groups.
\<close>

definition group_results ::
    "((bh_key \<times> 'd balance_event list) list \<Rightarrow> (bh_key \<times> 'd balance_event list) list) \<Rightarrow>
     (bh_key \<Rightarrow> bool) \<Rightarrow> string \<Rightarrow> uuid option \<Rightarrow> timestamp \<Rightarrow> 'd bh_row list \<Rightarrow>
     ('d :: linordered_idom) balance_event list \<Rightarrow> (nat + ('d balance_snapshot \<times> 'd) list) list" where
  "group_results ord read_ok wallet version now table evs =
     List.map_filter (\<lambda>(k, incoming).
         case map_of (first_event_by_key evs) k of
           Some (Some first) \<Rightarrow> Some (recompute_group read_ok table wallet version now
               (set (map be_snapshot_id evs)) k first incoming)
         | _ \<Rightarrow> None)
       (ord (incoming_by_key evs))"

definition materialize_balances ::
    "((bh_key \<times> 'd balance_event list) list \<Rightarrow> (bh_key \<times> 'd balance_event list) list) \<Rightarrow>
     (bh_key \<Rightarrow> bool) \<Rightarrow> bool \<Rightarrow> string \<Rightarrow> uuid option \<Rightarrow> timestamp \<Rightarrow> 'd bh_row list \<Rightarrow>
     ('d :: linordered_idom) balance_event list \<Rightarrow> 'd bh_row list \<times> bh_result" where
  "materialize_balances ord read_ok write_ok wallet version now table evs =
     (let results = group_results ord read_ok wallet version now table evs;
          skipped = sum_list (map (case_sum id (\<lambda>_. 0)) results);
          rows = concat (map (case_sum (\<lambda>_. []) id) results);
          snapshots = map fst rows;
          snapshot_deltas = rev (map (\<lambda>(s, d). (bs_id s, d)) rows)
      in if snapshots = [] then (table, \<lparr>bh_written = 0, bh_failed = skipped\<rparr>)
         else if write_ok
         then (save_balance_snapshots_with_deltas snapshots snapshot_deltas table,
               \<lparr>bh_written = length snapshots, bh_failed = skipped\<rparr>)
         else (table, \<lparr>bh_written = 0, bh_failed = skipped + length snapshots\<rparr>))"

section \<open>Specification\<close>

text \<open>
  The abstract content of a table: for every row its (wallet, network, asset), its position in
  the replay order and its delta. A table is balanced when every row has a delta and its
  balance is the sum of the deltas of its own key up to its own position.
\<close>

type_synonym 'd bh_entry = "(string \<times> bh_key) \<times> (int \<times> uuid) \<times> 'd"

definition snap_key :: "'d balance_snapshot \<Rightarrow> string \<times> bh_key" where
  "snap_key s = (bs_wallet_address s, bs_network s, bs_asset_symbol s)"

definition row_id :: "'d bh_row \<Rightarrow> uuid" where
  "row_id r = bs_id (bh_snap r)"

definition entry :: "'d bh_row \<Rightarrow> 'd bh_entry" where
  "entry r = (snap_key (bh_snap r), snap_ord (bh_snap r), the (bh_delta r))"

definition event_entry :: "string \<Rightarrow> 'd balance_event \<Rightarrow> 'd bh_entry" where
  "event_entry wallet e = ((wallet, event_key e), event_ord e, be_delta e)"

definition upto_sum :: "('d :: linordered_idom) bh_entry set \<Rightarrow> string \<times> bh_key \<Rightarrow> int \<times> uuid \<Rightarrow> 'd" where
  "upto_sum E k pos = (\<Sum>x \<in> {x \<in> E. fst x = k \<and> fst (snd x) \<le> pos}. snd (snd x))"

definition balanced :: "('d :: linordered_idom) bh_row list \<Rightarrow> bool" where
  "balanced table \<longleftrightarrow> distinct (map row_id table)
     \<and> (\<forall>r \<in> set table. bh_delta r \<noteq> None
          \<and> bs_balance (bh_snap r) = upto_sum (entry ` set table) (snap_key (bh_snap r)) (snap_ord (bh_snap r)))"

text \<open>The content after a batch: the new events replace the rows that have their ids.\<close>

definition merge_entries :: "string \<Rightarrow> 'd bh_entry set \<Rightarrow> 'd balance_event list \<Rightarrow> 'd bh_entry set" where
  "merge_entries wallet E evs =
     {x \<in> E. snd (fst (snd x)) \<notin> be_snapshot_id ` set evs} \<union> event_entry wallet ` set evs"

text \<open>
  An event and a row with the same id describe the same movement: the id is a hash of the
  wallet, the asset, the timestamp and the source of the event.
\<close>

definition coherent :: "string \<Rightarrow> 'd balance_event list \<Rightarrow> 'd bh_row list \<Rightarrow> bool" where
  "coherent wallet evs table \<longleftrightarrow>
     (\<forall>e \<in> set evs. \<forall>r \<in> set table. row_id r = be_snapshot_id e \<longrightarrow>
        snap_key (bh_snap r) = (wallet, event_key e) \<and> snap_ord (bh_snap r) = event_ord e)"

section \<open>The upsert\<close>

definition matches :: "'d bh_row \<Rightarrow> 'd balance_snapshot \<times> 'd \<Rightarrow> bool" where
  "matches r x \<longleftrightarrow> row_id r = bs_id (fst x) \<and> snap_key (bh_snap r) = snap_key (fst x)
     \<and> snap_ord (bh_snap r) = snap_ord (fst x) \<and> bs_balance (bh_snap r) = bs_balance (fst x)
     \<and> bh_delta r = Some (snd x)"

definition snap_coherent :: "'d balance_snapshot \<Rightarrow> 'd bh_row list \<Rightarrow> bool" where
  "snap_coherent s table \<longleftrightarrow> (\<forall>r \<in> set table. row_id r = bs_id s \<longrightarrow>
     snap_key (bh_snap r) = snap_key s \<and> snap_ord (bh_snap r) = snap_ord s)"

lemma matches_simps: "matches r (s, d) \<Longrightarrow> entry r = (snap_key s, snap_ord s, d)"
  by (simp add: matches_def entry_def)

lemma row_ids_upsert:
  "map row_id (upsert_row (s, d) table) =
     (if bs_id s \<in> row_id ` set table then map row_id table else map row_id table @ [bs_id s])"
proof (cases "bs_id s \<in> row_id ` set table")
  case True
  then have "\<exists>r \<in> set table. bs_id (bh_snap r) = bs_id s" by (auto simp: row_id_def)
  then show ?thesis using True by (auto simp: upsert_row_def row_id_def)
next
  case False
  then have "\<not> (\<exists>r \<in> set table. bs_id (bh_snap r) = bs_id s)" by (force simp: row_id_def)
  then show ?thesis using False by (simp add: upsert_row_def row_id_def)
qed

lemma upsert_row_set:
  assumes "snap_coherent s table" "r \<in> set (upsert_row (s, Some d) table)"
  shows "(r \<in> set table \<and> row_id r \<noteq> bs_id s) \<or> matches r (s, d)"
  using assms
  by (auto simp: upsert_row_def row_id_def matches_def snap_coherent_def snap_key_def snap_ord_def
      split: if_splits)

lemma upsert_row_keeps:
  assumes "r \<in> set table" "row_id r \<noteq> bs_id s"
  shows "r \<in> set (upsert_row (s, d) table)"
  using assms by (force simp: upsert_row_def row_id_def)

lemma upsert_row_new:
  assumes "snap_coherent s table"
  shows "\<exists>r \<in> set (upsert_row (s, Some d) table). matches r (s, d)"
proof -
  have "bs_id s \<in> set (map row_id (upsert_row (s, Some d) table))"
    by (subst row_ids_upsert) auto
  then obtain r where "r \<in> set (upsert_row (s, Some d) table)" "row_id r = bs_id s" by auto
  with upsert_row_set [OF assms] show ?thesis by blast
qed

lemma snap_coherent_upsert:
  assumes "snap_coherent t table" "snap_coherent s table" "bs_id t \<noteq> bs_id s"
  shows "snap_coherent t (upsert_row (s, Some d) table)"
  using assms upsert_row_set [OF assms(2)] unfolding snap_coherent_def matches_def
  by (metis fst_conv)

abbreviation save_rows :: "('d balance_snapshot \<times> 'd) list \<Rightarrow> 'd bh_row list \<Rightarrow> 'd bh_row list" where
  "save_rows rows table \<equiv> fold (\<lambda>(s, d). upsert_row (s, Some d)) rows table"

lemma save_rows_spec:
  assumes "distinct (map (bs_id \<circ> fst) rows)" "distinct (map row_id table)"
    and "\<forall>x \<in> set rows. snap_coherent (fst x) table"
  shows "distinct (map row_id (save_rows rows table))
    \<and> (\<forall>r \<in> set (save_rows rows table).
         (r \<in> set table \<and> row_id r \<notin> (bs_id \<circ> fst) ` set rows) \<or> (\<exists>x \<in> set rows. matches r x))
    \<and> (\<forall>r \<in> set table. row_id r \<notin> (bs_id \<circ> fst) ` set rows \<longrightarrow> r \<in> set (save_rows rows table))
    \<and> (\<forall>x \<in> set rows. \<exists>r \<in> set (save_rows rows table). matches r x)"
  using assms
proof (induction rows arbitrary: table)
  case (Cons x rows)
  obtain s d where x: "x = (s, d)" by fastforce
  let ?t = "upsert_row (s, Some d) table"
  have co: "snap_coherent s table" using Cons.prems(3) x by simp
  have dist: "distinct (map row_id ?t)"
    using Cons.prems(2) by (subst row_ids_upsert) auto
  have "\<forall>y \<in> set rows. snap_coherent (fst y) ?t"
    using Cons.prems(1,3) x by (force intro!: snap_coherent_upsert [OF _ co])
  note IH = Cons.IH [OF _ dist this]
  have IH': "distinct (map row_id (save_rows rows ?t))"
    "\<And>r. r \<in> set (save_rows rows ?t) \<Longrightarrow>
       (r \<in> set ?t \<and> row_id r \<notin> (bs_id \<circ> fst) ` set rows) \<or> (\<exists>x \<in> set rows. matches r x)"
    "\<And>r. r \<in> set ?t \<Longrightarrow> row_id r \<notin> (bs_id \<circ> fst) ` set rows \<Longrightarrow> r \<in> set (save_rows rows ?t)"
    "\<And>x. x \<in> set rows \<Longrightarrow> \<exists>r \<in> set (save_rows rows ?t). matches r x"
    using IH Cons.prems(1) by simp_all
  have new: "\<exists>r \<in> set (save_rows rows ?t). matches r (s, d)"
  proof -
    obtain r where r: "r \<in> set ?t" "matches r (s, d)" using upsert_row_new [OF co] by blast
    have "bs_id s \<notin> (bs_id \<circ> fst) ` set rows" using Cons.prems(1) x by simp
    with r IH'(3) [of r] show ?thesis by (auto simp: matches_def)
  qed
  have keep: "r \<in> set (save_rows rows ?t)"
    if "r \<in> set table" "row_id r \<notin> (bs_id \<circ> fst) ` set (x # rows)" for r
    using that x upsert_row_keeps [of r table s "Some d"] IH'(3) by simp
  have origin: "(r \<in> set table \<and> row_id r \<notin> (bs_id \<circ> fst) ` set (x # rows))
      \<or> (\<exists>y \<in> set (x # rows). matches r y)" if "r \<in> set (save_rows rows ?t)" for r
    using IH'(2) [OF that] upsert_row_set [OF co, of r d] x by auto
  show ?case using IH'(1,4) new keep origin x by auto
qed simp

section \<open>The running balance\<close>

definition re_ord :: "'d recompute_event \<Rightarrow> int \<times> uuid" where
  "re_ord e = (re_timestamp e, re_id e)"

lemma running_entries:
  "map (\<lambda>x. (snap_key (fst x), snap_ord (fst x), snd x)) (running_snapshots wallet version b es)
     = map (\<lambda>e. ((wallet, re_network e, re_asset e), re_ord e, re_delta e)) es"
  by (induction es arbitrary: b) (auto simp: Let_def snap_key_def snap_ord_def re_ord_def)

lemma running_ids: "map (bs_id \<circ> fst) (running_snapshots wallet version b es) = map re_id es"
  by (induction es arbitrary: b) (auto simp: Let_def)

lemma running_balance:
  assumes "sorted (map re_ord es)" "distinct (map re_ord es)"
    and "x \<in> set (running_snapshots wallet version b es)"
  shows "bs_balance (fst x) = b + sum_list (map re_delta (filter (\<lambda>e. re_ord e \<le> snap_ord (fst x)) es))"
  using assms
proof (induction es arbitrary: b)
  case (Cons e es)
  have lt: "\<forall>e' \<in> set es. re_ord e < re_ord e'"
    using Cons.prems(1,2) by (force simp: less_le)
  have ord_in: "snap_ord (fst y) \<in> re_ord ` set es" if "y \<in> set (running_snapshots wallet version c es)" for y c
  proof -
    have "(snap_key (fst y), snap_ord (fst y), snd y) \<in>
        set (map (\<lambda>e. ((wallet, re_network e, re_asset e), re_ord e, re_delta e)) es)"
      unfolding running_entries [symmetric, where version = version and b = c] using that by auto
    then show ?thesis by auto
  qed
  consider (hd) "snap_ord (fst x) = re_ord e" "bs_balance (fst x) = b + re_delta e"
    | (tl) "x \<in> set (running_snapshots wallet version (b + re_delta e) es)"
    using Cons.prems(3) by (auto simp: Let_def snap_ord_def re_ord_def)
  then show ?case
  proof cases
    case hd
    have "filter (\<lambda>e'. re_ord e' \<le> re_ord e) es = []"
      using lt by (auto simp: filter_empty_conv not_le)
    with hd show ?thesis by simp
  next
    case tl
    then have "re_ord e \<le> snap_ord (fst x)" using ord_in [OF tl] lt by force
    with Cons.IH [OF _ _ tl] Cons.prems(1,2) show ?thesis by (simp add: add.assoc)
  qed
qed simp

section \<open>The seed\<close>

text \<open>Entries of a key strictly before a position.\<close>

definition before_sum :: "('d :: linordered_idom) bh_entry set \<Rightarrow> string \<times> bh_key \<Rightarrow> int \<times> uuid \<Rightarrow> 'd" where
  "before_sum E k pos = (\<Sum>x \<in> {x \<in> E. fst x = k \<and> fst (snd x) < pos}. snd (snd x))"

lemma row_key_iff: "row_key wallet k r \<longleftrightarrow> snap_key (bh_snap r) = (wallet, k)"
  by (auto simp: row_key_def snap_key_def)

lemma rev_sort_key_max:
  assumes "rev (sort_key f xs) = x # ys"
  shows "x \<in> set xs" "\<And>y. y \<in> set xs \<Longrightarrow> f y \<le> f x"
proof -
  have eq: "sort_key f xs = rev ys @ [x]" using assms by (simp add: rev_eq_Cons_iff)
  have "set (sort_key f xs) = set xs" by simp
  with eq show "x \<in> set xs" by (metis in_set_conv_decomp)
  have "sorted (map f (rev ys @ [x]))" unfolding eq [symmetric] by simp
  moreover fix y assume "y \<in> set xs"
  then have "y \<in> set (rev ys @ [x])" unfolding eq [symmetric] by simp
  ultimately show "f y \<le> f x" by (auto simp: sorted_append)
qed

lemma seed_sum:
  assumes "balanced table"
  shows "(case get_latest_balance_snapshot_before_order table wallet k first of
            Some s \<Rightarrow> bs_balance s | None \<Rightarrow> 0) = before_sum (entry ` set table) (wallet, k) first"
proof -
  let ?rows = "filter (\<lambda>r. row_key wallet k r \<and> snap_ord (bh_snap r) < first) table"
  show ?thesis
  proof (cases "rev (sort_key snap_ord (map bh_snap ?rows))")
    case Nil
    then have "length (rev (sort_key snap_ord (map bh_snap ?rows))) = 0" by (simp only: list.size)
    then have "?rows = []" by (simp only: length_rev length_sort length_map length_0_conv)
    then have "{x \<in> entry ` set table. fst x = (wallet, k) \<and> fst (snd x) < first} = {}"
      by (auto simp: entry_def row_key_iff filter_empty_conv)
    then have "before_sum (entry ` set table) (wallet, k) first = 0"
      by (simp only: before_sum_def sum.empty)
    with Nil show ?thesis by (simp add: get_latest_balance_snapshot_before_order_def)
  next
    case (Cons s ss)
    note max = rev_sort_key_max [OF Cons]
    from max(1) obtain r where r: "r \<in> set table" "bh_snap r = s" "snap_key s = (wallet, k)"
        "snap_ord s < first" by (auto simp: row_key_iff)
    have "bs_balance s = upto_sum (entry ` set table) (wallet, k) (snap_ord s)"
      using assms r by (auto simp: balanced_def)
    moreover have "snap_ord (bh_snap y) \<le> snap_ord s"
      if "y \<in> set table" "snap_key (bh_snap y) = (wallet, k)" "snap_ord (bh_snap y) < first" for y
      using that max(2) [of "bh_snap y"] by (simp add: row_key_iff)
    then have "{x \<in> entry ` set table. fst x = (wallet, k) \<and> fst (snd x) \<le> snap_ord s}
        = {x \<in> entry ` set table. fst x = (wallet, k) \<and> fst (snd x) < first}"
      using r(4) by (auto simp: entry_def)
    ultimately show ?thesis using Cons
      by (simp add: get_latest_balance_snapshot_before_order_def upto_sum_def before_sum_def)
  qed
qed

section \<open>Grouping of the events\<close>

lemma set_sort_events [simp]: "set (sort_events evs) = set evs"
  by (simp add: sort_events_def)

lemma fold_snoc: "fold (\<lambda>e es. es @ [e]) xs ys = ys @ xs"
  by (induction xs arbitrary: ys) auto

lemma incoming_by_key_iff:
  "(k, inc) \<in> set (incoming_by_key evs) \<longleftrightarrow>
     k \<in> event_key ` set evs \<and> inc = filter (\<lambda>e. event_key e = k) (sort_events evs)"
  by (simp add: incoming_by_key_def tally_entry_iff fold_snoc)

lemma distinct_incoming: "distinct (map fst (incoming_by_key evs))"
  by (simp add: incoming_by_key_def distinct_tally)

lemma fold_keep_first:
  "fold (\<lambda>e v. case v of None \<Rightarrow> Some (f e) | Some _ \<Rightarrow> v) xs v =
     (case v of None \<Rightarrow> (if xs = [] then None else Some (f (hd xs))) | Some _ \<Rightarrow> v)"
  by (induction xs arbitrary: v) (auto split: option.splits)

lemma first_event_by_key_eq:
  assumes "k \<in> event_key ` set evs"
  shows "map_of (first_event_by_key evs) k =
    Some (Some (event_ord (hd (filter (\<lambda>e. event_key e = k) (sort_events evs)))))"
proof -
  have "filter (\<lambda>e. event_key e = k) (sort_events evs) \<noteq> []"
    using assms by (auto simp: filter_empty_conv)
  then show ?thesis
    by (auto simp: first_event_by_key_def map_of_tally fold_keep_first split: list.splits)
qed

lemma first_event_min:
  assumes "inc = filter (\<lambda>e. event_key e = k) (sort_events evs)" "e \<in> set inc"
  shows "event_ord (hd inc) \<le> event_ord e"
proof -
  let ?f = "\<lambda>e. (be_network e, be_asset e, be_timestamp e, be_snapshot_id e)"
  have sorted: "sorted (map ?f inc)"
    unfolding assms(1) sort_events_def by (rule sorted_filter) simp
  have hd: "hd inc \<in> set inc" using assms(2) by (cases inc) auto
  have "?f (hd inc) \<le> ?f e" using sorted assms(2) by (cases inc) auto
  moreover have "event_key (hd inc) = k" "event_key e = k"
    using hd assms by auto
  ultimately show ?thesis by (auto simp: event_key_def event_ord_def less_eq_prod_def)
qed

section \<open>One group\<close>

lemma map_of_snapshot_deltas:
  assumes "distinct (map row_id table)" "r \<in> set table" "row_id r \<in> set ids"
  shows "map_of (balance_snapshot_deltas table ids) (row_id r) = bh_delta r"
  using assms
proof (induction table)
  case (Cons q table)
  show ?case
  proof (cases "r = q")
    case True
    have "map_of (balance_snapshot_deltas table ids) (row_id q) = None"
      using Cons.prems(1)
      by (force simp: map_of_eq_None_iff balance_snapshot_deltas_def row_id_def
          map_filter_def split: if_splits)
    with True Cons.prems show ?thesis
      by (cases "bh_delta q") (simp_all add: balance_snapshot_deltas_def map_filter_simps row_id_def)
  next
    case False
    with Cons.prems have "r \<in> set table" "row_id q \<noteq> row_id r" by auto
    with Cons show ?thesis
      by (cases "bh_delta q") (auto simp: balance_snapshot_deltas_def map_filter_simps row_id_def)
  qed
qed simp

definition re_entry :: "string \<Rightarrow> 'd recompute_event \<Rightarrow> 'd bh_entry" where
  "re_entry wallet e = ((wallet, re_network e, re_asset e), re_ord e, re_delta e)"

lemma sum_list_entries:
  assumes "distinct (map re_ord es)"
  shows "sum_list (map re_delta (filter (\<lambda>e. re_ord e \<le> pos) es))
    = (\<Sum>x \<in> {x \<in> re_entry wallet ` set es. fst (snd x) \<le> pos}. snd (snd x))"
proof -
  let ?es = "filter (\<lambda>e. re_ord e \<le> pos) es"
  have inj: "inj_on re_ord (set es)" and dist: "distinct es"
    using assms by (simp_all add: distinct_map)
  have "sum_list (map re_delta ?es) = sum re_delta (set ?es)"
    using dist by (simp add: sum_list_distinct_conv_sum_set)
  also have "\<dots> = (\<Sum>x \<in> re_entry wallet ` set ?es. snd (snd x))"
    using inj by (subst sum.reindex) (auto simp: re_entry_def inj_on_def)
  also have "re_entry wallet ` set ?es = {x \<in> re_entry wallet ` set es. fst (snd x) \<le> pos}"
    by (auto simp: re_entry_def)
  finally show ?thesis .
qed

lemma entry_proj:
  "fst (entry r) = snap_key (bh_snap r)" "fst (snd (entry r)) = snap_ord (bh_snap r)"
  "snd (snd (entry r)) = the (bh_delta r)" "snd (snap_ord s) = bs_id s"
  by (simp_all add: entry_def snap_ord_def)

text \<open>The events replayed for a group: the incoming ones and the stored ones they do not replace.\<close>

definition replay :: "'d bh_row list \<Rightarrow> string \<Rightarrow> timestamp \<Rightarrow> uuid set \<Rightarrow> bh_key \<Rightarrow> int \<times> uuid \<Rightarrow>
    'd balance_event list \<Rightarrow> 'd recompute_event list" where
  "replay table wallet now ids k first inc =
     (let suffix = get_balance_snapshots_at_or_after_order table wallet k first
      in sort_key re_ord (map (incoming_recompute now) inc
           @ map (suffix_recompute (balance_snapshot_deltas table (map bs_id suffix)))
               (filter (\<lambda>s. bs_id s \<notin> ids) suffix)))"

lemma set_suffix:
  "set (get_balance_snapshots_at_or_after_order table wallet k first) =
     bh_snap ` {r \<in> set table. snap_key (bh_snap r) = (wallet, k) \<and> first \<le> snap_ord (bh_snap r)}"
  by (auto simp: get_balance_snapshots_at_or_after_order_def row_key_iff)

lemma suffix_delta:
  assumes "distinct (map row_id table)" "r \<in> set table"
    and "bh_snap r \<in> set (get_balance_snapshots_at_or_after_order table wallet k first)"
  shows "map_of (balance_snapshot_deltas table
      (map bs_id (get_balance_snapshots_at_or_after_order table wallet k first))) (bs_id (bh_snap r))
    = bh_delta r"
  using map_of_snapshot_deltas [OF assms(1,2)] assms(3) by (auto simp: row_id_def)

lemma recompute_group_eq:
  assumes "balanced table"
  shows "recompute_group (\<lambda>_. True) table wallet version now ids k first inc =
    Inr (running_snapshots wallet version (before_sum (entry ` set table) (wallet, k) first)
      (replay table wallet now ids k first inc))"
proof -
  let ?suffix = "get_balance_snapshots_at_or_after_order table wallet k first"
  have "map_of (balance_snapshot_deltas table (map bs_id ?suffix)) (bs_id s) \<noteq> None"
    if "s \<in> set ?suffix" for s
  proof -
    from that obtain r where r: "r \<in> set table" "s = bh_snap r" by (auto simp: set_suffix)
    with that suffix_delta [of table r wallet k first] assms show ?thesis
      by (auto simp: balanced_def)
  qed
  then have "\<not> (\<exists>s \<in> set ?suffix. bs_id s \<notin> ids
      \<and> map_of (balance_snapshot_deltas table (map bs_id ?suffix)) (bs_id s) = None)" by blast
  then show ?thesis
    by (simp add: recompute_group_def Let_def seed_sum [OF assms] replay_def re_ord_def [abs_def])
qed

lemma event_in_merge: "e \<in> set evs \<Longrightarrow> event_entry wallet e \<in> merge_entries wallet E evs"
  by (simp add: merge_entries_def)

lemma replay_entries:
  assumes "balanced table" and inc: "inc = filter (\<lambda>e. event_key e = k) (sort_events evs)"
  shows "re_entry wallet ` set (replay table wallet now (be_snapshot_id ` set evs) k (event_ord (hd inc)) inc)
    = {x \<in> merge_entries wallet (entry ` set table) evs. fst x = (wallet, k)
         \<and> event_ord (hd inc) \<le> fst (snd x)}" (is "?L = ?R")
proof -
  let ?first = "event_ord (hd inc)" and ?ids = "be_snapshot_id ` set evs"
  let ?suffix = "get_balance_snapshots_at_or_after_order table wallet k ?first"
  let ?deltas = "balance_snapshot_deltas table (map bs_id ?suffix)"
  have dist: "distinct (map row_id table)" using assms(1) by (simp add: balanced_def)
  have old: "re_entry wallet (suffix_recompute ?deltas (bh_snap r)) = entry r"
    if "r \<in> set table" "snap_key (bh_snap r) = (wallet, k)" "?first \<le> snap_ord (bh_snap r)" for r
  proof -
    have "bh_snap r \<in> set ?suffix" using that by (auto simp: set_suffix)
    from suffix_delta [OF dist that(1) this] that(2) show ?thesis
      by (auto simp: re_entry_def suffix_recompute_def entry_def re_ord_def snap_ord_def snap_key_def)
  qed
  have new: "re_entry wallet (incoming_recompute now e) = event_entry wallet e" for e
    by (simp add: re_entry_def incoming_recompute_def event_entry_def re_ord_def event_key_def event_ord_def)
  let ?rows = "{r \<in> set table. snap_key (bh_snap r) = (wallet, k) \<and> ?first \<le> snap_ord (bh_snap r)
      \<and> bs_id (bh_snap r) \<notin> ?ids}"
  have "set (replay table wallet now ?ids k ?first inc)
      = incoming_recompute now ` set inc \<union> suffix_recompute ?deltas ` bh_snap ` ?rows"
    by (auto simp: replay_def Let_def set_suffix)
  moreover have "(\<lambda>r. re_entry wallet (suffix_recompute ?deltas (bh_snap r))) ` ?rows = entry ` ?rows"
    by (rule image_cong) (use old in auto)
  ultimately have eq: "?L = event_entry wallet ` set inc \<union> entry ` ?rows"
    by (simp only: image_Un image_image new)
  have ev: "event_entry wallet ` set inc
      = {x \<in> event_entry wallet ` set evs. fst x = (wallet, k) \<and> ?first \<le> fst (snd x)}"
  proof -
    have "set inc = {e \<in> set evs. event_key e = k}" by (auto simp: inc)
    moreover have "\<forall>e \<in> set inc. ?first \<le> event_ord e" using first_event_min [OF inc] by blast
    ultimately show ?thesis by (auto simp: event_entry_def)
  qed
  have ro: "entry ` ?rows = {x \<in> entry ` set table. snd (fst (snd x)) \<notin> ?ids
      \<and> fst x = (wallet, k) \<and> ?first \<le> fst (snd x)}"
    by (auto simp: entry_proj)
  show ?thesis unfolding eq ev ro merge_entries_def by blast
qed

lemma distinct_map_sort: "distinct (map f (sort_key g xs)) \<longleftrightarrow> distinct (map f xs)"
  by (simp add: distinct_map)

lemma replay_ids_distinct:
  assumes "balanced table" "distinct (map be_snapshot_id evs)" "set inc \<subseteq> set evs" "distinct inc"
  shows "distinct (map re_id (replay table wallet now (be_snapshot_id ` set evs) k first inc))"
proof -
  let ?ids = "be_snapshot_id ` set evs"
  let ?suffix = "get_balance_snapshots_at_or_after_order table wallet k first"
  let ?old = "filter (\<lambda>s. bs_id s \<notin> ?ids) ?suffix"
  have "distinct (map row_id table)" using assms(1) by (simp add: balanced_def)
  then have "distinct (map bs_id (map bh_snap (filter P table)))" for P
    using distinct_map_filter [of row_id table P] by (simp add: comp_def row_id_def [abs_def])
  then have "distinct (map bs_id ?suffix)"
    unfolding get_balance_snapshots_at_or_after_order_def by (simp only: distinct_map_sort)
  then have old: "distinct (map bs_id ?old)" by (rule distinct_map_filter)
  have new: "distinct (map be_snapshot_id inc)"
    using assms(2,3,4) by (auto simp: distinct_map intro: inj_on_subset)
  have "be_snapshot_id ` set inc \<inter> bs_id ` set ?old = {}" using assms(3) by force
  with old new have "distinct (map be_snapshot_id inc @ map bs_id ?old)" by simp
  then have "distinct (map re_id (map (incoming_recompute now) inc @ map (suffix_recompute ds) ?old))" for ds
    by (simp add: comp_def incoming_recompute_def suffix_recompute_def)
  then show ?thesis
    unfolding replay_def Let_def by (simp only: distinct_map_sort)
qed

lemma before_entries_merge:
  assumes "coherent wallet evs table" and inc: "inc = filter (\<lambda>e. event_key e = k) (sort_events evs)"
  shows "{x \<in> entry ` set table. fst x = (wallet, k) \<and> fst (snd x) < event_ord (hd inc)}
    = {x \<in> merge_entries wallet (entry ` set table) evs. fst x = (wallet, k)
         \<and> fst (snd x) < event_ord (hd inc)}" (is "?A = ?B")
proof -
  have min: "event_ord (hd inc) \<le> event_ord e" if "e \<in> set evs" "event_key e = k" for e
    using first_event_min [OF inc, of e] that by (simp add: inc)
  have fresh: "bs_id (bh_snap r) \<notin> be_snapshot_id ` set evs"
    if "r \<in> set table" "snap_key (bh_snap r) = (wallet, k)" "snap_ord (bh_snap r) < event_ord (hd inc)" for r
  proof
    assume "bs_id (bh_snap r) \<in> be_snapshot_id ` set evs"
    then obtain e where e: "e \<in> set evs" "row_id r = be_snapshot_id e" by (auto simp: row_id_def)
    with assms(1) that(1,2) have "event_key e = k" "snap_ord (bh_snap r) = event_ord e"
      by (auto simp: coherent_def)
    with min [OF e(1)] that(3) show False by simp
  qed
  show ?thesis
  proof
    show "?A \<subseteq> ?B"
    proof
      fix x assume x: "x \<in> ?A"
      then obtain r where r: "r \<in> set table" "x = entry r" by blast
      with x fresh [OF r(1)] show "x \<in> ?B" by (simp add: merge_entries_def entry_proj)
    qed
    have "\<not> event_ord e < event_ord (hd inc)" if "e \<in> set evs" "event_key e = k" for e
      using min [OF that] by simp
    then show "?B \<subseteq> ?A" by (auto simp: merge_entries_def event_entry_def)
  qed
qed

lemma group_balance:
  assumes "balanced table" "coherent wallet evs table" "distinct (map be_snapshot_id evs)"
    and inc: "inc = filter (\<lambda>e. event_key e = k) (sort_events evs)"
    and es: "es = replay table wallet now (be_snapshot_id ` set evs) k (event_ord (hd inc)) inc"
    and x: "x \<in> set (running_snapshots wallet version
          (before_sum (entry ` set table) (wallet, k) (event_ord (hd inc))) es)"
  shows "bs_balance (fst x)
    = upto_sum (merge_entries wallet (entry ` set table) evs) (wallet, k) (snap_ord (fst x))"
proof -
  let ?M = "merge_entries wallet (entry ` set table) evs" and ?f = "event_ord (hd inc)"
  let ?o = "snap_ord (fst x)"
  have "distinct evs" using assms(3) by (simp add: distinct_map)
  then have "distinct inc" by (simp add: inc sort_events_def)
  then have "distinct (map re_id es)"
    unfolding es by (intro replay_ids_distinct [OF assms(1,3)]) (auto simp: inc)
  then have dist: "distinct (map re_ord es)"
    by (auto simp: distinct_map re_ord_def inj_on_def)
  have sorted: "sorted (map re_ord es)" by (simp add: es replay_def Let_def)
  have fin: "finite ?M" by (simp add: merge_entries_def)
  have "snap_ord (fst x) \<in> re_ord ` set es"
  proof -
    have "snap_ord (fst x) \<in> (\<lambda>y. fst (snd y)) ` set (map (\<lambda>x. (snap_key (fst x), snap_ord (fst x), snd x))
        (running_snapshots wallet version (before_sum (entry ` set table) (wallet, k) ?f) es))"
      using x by force
    then show ?thesis unfolding running_entries by (auto simp: image_image)
  qed
  then have "?o \<in> (\<lambda>y. fst (snd y)) ` re_entry wallet ` set es" by (auto simp: re_entry_def image_image)
  then have ge: "?f \<le> ?o" unfolding es replay_entries [OF assms(1) inc] by auto
  have "bs_balance (fst x) = before_sum ?M (wallet, k) ?f
      + (\<Sum>x \<in> {x \<in> re_entry wallet ` set es. fst (snd x) \<le> ?o}. snd (snd x))"
    using running_balance [OF sorted dist x] sum_list_entries [OF dist]
      before_entries_merge [OF assms(2) inc] by (simp only: before_sum_def)
  also have "re_entry wallet ` set es = {x \<in> ?M. fst x = (wallet, k) \<and> ?f \<le> fst (snd x)}"
    unfolding es by (rule replay_entries [OF assms(1) inc])
  also have "before_sum ?M (wallet, k) ?f + (\<Sum>x \<in> {x \<in> {x \<in> ?M. fst x = (wallet, k) \<and> ?f \<le> fst (snd x)}.
      fst (snd x) \<le> ?o}. snd (snd x)) = upto_sum ?M (wallet, k) ?o"
    unfolding before_sum_def upto_sum_def
    by (subst sum.union_disjoint [symmetric])
      (use fin ge in \<open>auto intro!: sum.cong dest: leD\<close>)
  finally show ?thesis .
qed

section \<open>All groups\<close>

lemma distinct_concat_map:
  assumes "distinct xs" "\<And>x. x \<in> set xs \<Longrightarrow> distinct (f x)"
    and "\<And>x y. x \<in> set xs \<Longrightarrow> y \<in> set xs \<Longrightarrow> x \<noteq> y \<Longrightarrow> set (f x) \<inter> set (f y) = {}"
  shows "distinct (concat (map f xs))"
  using assms by (induction xs) auto

definition row_entry :: "'d balance_snapshot \<times> 'd \<Rightarrow> 'd bh_entry" where
  "row_entry x = (snap_key (fst x), snap_ord (fst x), snd x)"

text \<open>The rows written for a group, and for the whole batch when every read succeeds.\<close>

definition group_rows ::
    "'d bh_row list \<Rightarrow> string \<Rightarrow> uuid option \<Rightarrow> timestamp \<Rightarrow> ('d :: linordered_idom) balance_event list \<Rightarrow>
     bh_key \<times> 'd balance_event list \<Rightarrow> ('d balance_snapshot \<times> 'd) list" where
  "group_rows table wallet version now evs g = (case g of (k, inc) \<Rightarrow>
     running_snapshots wallet version (before_sum (entry ` set table) (wallet, k) (event_ord (hd inc)))
       (replay table wallet now (be_snapshot_id ` set evs) k (event_ord (hd inc)) inc))"

lemma row_entries_running:
  "row_entry ` set (running_snapshots wallet version b es) = re_entry wallet ` set es"
proof -
  have "row_entry ` set (running_snapshots wallet version b es) =
      set (map (\<lambda>x. (snap_key (fst x), snap_ord (fst x), snd x)) (running_snapshots wallet version b es))"
    by (simp add: row_entry_def [abs_def])
  also have "\<dots> = re_entry wallet ` set es"
    unfolding running_entries by (simp add: re_entry_def [abs_def])
  finally show ?thesis .
qed

lemma group_rows_entries:
  assumes "balanced table" "(k, inc) \<in> set (incoming_by_key evs)"
  shows "row_entry ` set (group_rows table wallet version now evs (k, inc))
    = {x \<in> merge_entries wallet (entry ` set table) evs. fst x = (wallet, k)
         \<and> event_ord (hd inc) \<le> fst (snd x)}"
  using assms(2) replay_entries [OF assms(1)]
  by (simp add: group_rows_def row_entries_running incoming_by_key_iff)

lemma map_filter_all:
  "(\<And>x. x \<in> set xs \<Longrightarrow> f x = Some (g x)) \<Longrightarrow> List.map_filter f xs = map g xs"
  by (induction xs) (auto simp: map_filter_simps)

lemma group_results_eq:
  assumes "balanced table" "mset (ord (incoming_by_key evs)) = mset (incoming_by_key evs)"
  shows "group_results ord (\<lambda>_. True) wallet version now table evs
    = map (\<lambda>g. Inr (group_rows table wallet version now evs g)) (ord (incoming_by_key evs))"
  unfolding group_results_def
proof (rule map_filter_all)
  fix g assume "g \<in> set (ord (incoming_by_key evs))"
  then have "g \<in> set (incoming_by_key evs)" using assms(2) by (metis set_mset_mset)
  moreover obtain k inc where "g = (k, inc)" by fastforce
  ultimately show "(case g of (k, incoming) \<Rightarrow>
        case map_of (first_event_by_key evs) k of
          Some (Some first) \<Rightarrow> Some (recompute_group (\<lambda>_. True) table wallet version now
            (set (map be_snapshot_id evs)) k first incoming)
        | _ \<Rightarrow> None) = Some (Inr (group_rows table wallet version now evs g))"
    by (simp add: incoming_by_key_iff first_event_by_key_eq
        recompute_group_eq [OF assms(1)] group_rows_def)
qed

text \<open>Within the content after a batch, an id names one entry.\<close>

lemma merge_id_inj:
  assumes "balanced table" "distinct (map be_snapshot_id evs)"
    and "x \<in> merge_entries wallet (entry ` set table) evs"
    and "y \<in> merge_entries wallet (entry ` set table) evs"
    and "snd (fst (snd x)) = snd (fst (snd y))"
  shows "x = y"
proof -
  have T: "entry r = entry r'" if "r \<in> set table" "r' \<in> set table" "bs_id (bh_snap r) = bs_id (bh_snap r')" for r r'
    using that assms(1) by (auto simp: balanced_def distinct_map inj_on_def row_id_def)
  have V: "e = e'" if "e \<in> set evs" "e' \<in> set evs" "be_snapshot_id e = be_snapshot_id e'" for e e'
    using that assms(2) by (auto simp: distinct_map inj_on_def)
  have ev_id: "snd (fst (snd (event_entry wallet e))) = be_snapshot_id e" for e :: "'a balance_event"
    by (simp add: event_entry_def event_ord_def)
  have cases: "(\<exists>r \<in> set table. z = entry r \<and> bs_id (bh_snap r) = snd (fst (snd z))
        \<and> snd (fst (snd z)) \<notin> be_snapshot_id ` set evs)
      \<or> (\<exists>e \<in> set evs. z = event_entry wallet e \<and> be_snapshot_id e = snd (fst (snd z)))"
    if "z \<in> merge_entries wallet (entry ` set table) evs" for z
  proof -
    from that consider "z \<in> entry ` set table" "snd (fst (snd z)) \<notin> be_snapshot_id ` set evs"
      | "z \<in> event_entry wallet ` set evs" unfolding merge_entries_def by blast
    then show ?thesis by cases (auto simp: ev_id entry_proj)
  qed
  from cases [OF assms(3)] cases [OF assms(4)] assms(5) show ?thesis
    using T V by (metis image_eqI)
qed

text \<open>What the rows written by a batch are: entries of the new content, with its running sums.\<close>

lemma batch_rows:
  assumes "balanced table" "coherent wallet evs table" "distinct (map be_snapshot_id evs)"
    and "x \<in> set (group_rows table wallet version now evs g)" "g \<in> set (incoming_by_key evs)"
  shows "row_entry x \<in> merge_entries wallet (entry ` set table) evs"
    and "snap_key (fst x) = (wallet, fst g)"
    and "bs_balance (fst x)
      = upto_sum (merge_entries wallet (entry ` set table) evs) (snap_key (fst x)) (snap_ord (fst x))"
proof -
  obtain k inc where g: "g = (k, inc)" by fastforce
  have inc: "inc = filter (\<lambda>e. event_key e = k) (sort_events evs)"
    using assms(5) g by (simp add: incoming_by_key_iff)
  have "row_entry x \<in> {x \<in> merge_entries wallet (entry ` set table) evs. fst x = (wallet, k)
         \<and> event_ord (hd inc) \<le> fst (snd x)}"
    using group_rows_entries [OF assms(1)] assms(4,5) g by blast
  then show "row_entry x \<in> merge_entries wallet (entry ` set table) evs"
    and 2: "snap_key (fst x) = (wallet, fst g)"
    by (simp, simp add: row_entry_def g)
  show "bs_balance (fst x)
      = upto_sum (merge_entries wallet (entry ` set table) evs) (snap_key (fst x)) (snap_ord (fst x))"
    using group_balance [OF assms(1-3) inc refl] assms(4) 2 by (simp add: g group_rows_def)
qed

definition batch ::
    "((bh_key \<times> 'd balance_event list) list \<Rightarrow> (bh_key \<times> 'd balance_event list) list) \<Rightarrow>
     'd bh_row list \<Rightarrow> string \<Rightarrow> uuid option \<Rightarrow> timestamp \<Rightarrow> ('d :: linordered_idom) balance_event list \<Rightarrow>
     ('d balance_snapshot \<times> 'd) list" where
  "batch ord table wallet version now evs =
     concat (map (group_rows table wallet version now evs) (ord (incoming_by_key evs)))"

lemma batch_ids_distinct:
  assumes "balanced table" "coherent wallet evs table" "distinct (map be_snapshot_id evs)"
    and "mset (ord (incoming_by_key evs)) = mset (incoming_by_key evs)"
  shows "distinct (map (bs_id \<circ> fst) (batch ord table wallet version now evs))"
proof -
  let ?gs = "ord (incoming_by_key evs)" and ?f = "group_rows table wallet version now evs"
  have gs: "set ?gs = set (incoming_by_key evs)" using assms(4) by (metis set_mset_mset)
  have "distinct (incoming_by_key evs)" and inj: "inj_on fst (set (incoming_by_key evs))"
    using distinct_incoming [of evs] by (simp_all add: distinct_map)
  then have dgs: "distinct ?gs" using assms(4) by (metis mset_eq_imp_distinct_iff)
  have "distinct evs" using assms(3) by (simp add: distinct_map)
  then have one: "distinct (map (bs_id \<circ> fst) (?f g))" if "g \<in> set ?gs" for g
    using that gs replay_ids_distinct [OF assms(1,3)]
    by (cases g) (simp add: group_rows_def running_ids incoming_by_key_iff sort_events_def)
  have "g = h" if "g \<in> set ?gs" "h \<in> set ?gs" "x \<in> set (?f g)" "y \<in> set (?f h)"
      "bs_id (fst x) = bs_id (fst y)" for g h x y
  proof -
    note gh = that(1,2) [unfolded gs]
    note X = batch_rows [OF assms(1-3) that(3) gh(1)] and Y = batch_rows [OF assms(1-3) that(4) gh(2)]
    have "row_entry x = row_entry y"
      by (rule merge_id_inj [OF assms(1,3) X(1) Y(1)]) (simp add: row_entry_def entry_proj that(5))
    then have "fst g = fst h" using X(2) Y(2) by (simp add: row_entry_def)
    with inj gh show ?thesis by (auto dest: inj_onD)
  qed
  then have "set (map (bs_id \<circ> fst) (?f g)) \<inter> set (map (bs_id \<circ> fst) (?f h)) = {}"
    if "g \<in> set ?gs" "h \<in> set ?gs" "g \<noteq> h" for g h using that by fastforce
  with dgs one have "distinct (concat (map (\<lambda>g. map (bs_id \<circ> fst) (?f g)) ?gs))"
    by (intro distinct_concat_map) auto
  then show ?thesis by (simp add: batch_def map_concat comp_def)
qed

lemma save_rows_eq:
  assumes "distinct (map (bs_id \<circ> fst) rows)"
  shows "save_balance_snapshots_with_deltas (map fst rows) (rev (map (\<lambda>(s, d). (bs_id s, d)) rows)) table
    = save_rows rows table"
proof -
  let ?ds = "rev (map (\<lambda>(s, d). (bs_id s, d)) rows)"
  have "map fst ?ds = rev (map (bs_id \<circ> fst) rows)"
    by (simp add: rev_map comp_def case_prod_unfold)
  then have "distinct (map fst ?ds)" using assms by (simp only: distinct_rev)
  then have "map_of ?ds (bs_id (fst x)) = Some (snd x)" if "x \<in> set rows" for x
    using that by (intro map_of_is_SomeI) (force simp: case_prod_unfold)+
  then show ?thesis
    unfolding save_balance_snapshots_with_deltas_def fold_map
    by (intro fold_cong) (auto simp: fun_eq_iff)
qed

lemma materialize_balances_eq:
  assumes "balanced table" "coherent wallet evs table" "distinct (map be_snapshot_id evs)"
    and "mset (ord (incoming_by_key evs)) = mset (incoming_by_key evs)"
  shows "materialize_balances ord (\<lambda>_. True) True wallet version now table evs
    = (save_rows (batch ord table wallet version now evs) table,
       \<lparr>bh_written = length (batch ord table wallet version now evs), bh_failed = 0\<rparr>)"
proof -
  let ?rs = "group_results ord (\<lambda>_. True) wallet version now table evs"
  note rs = group_results_eq [where ord = ord, OF assms(1,4)]
  have rows: "concat (map (case_sum (\<lambda>_. []) id) ?rs) = batch ord table wallet version now evs"
    by (simp add: rs batch_def comp_def)
  have skipped: "sum_list (map (case_sum id (\<lambda>_. 0 :: nat)) ?rs) = 0"
    by (simp add: rs comp_def)
  show ?thesis
    unfolding materialize_balances_def Let_def rows skipped
    using save_rows_eq [OF batch_ids_distinct [where ord = ord, OF assms]]
    by (cases "batch ord table wallet version now evs = []") simp_all
qed

lemma event_in_batch:
  assumes "balanced table" "mset (ord (incoming_by_key evs)) = mset (incoming_by_key evs)" "e \<in> set evs"
  shows "event_entry wallet e \<in> row_entry ` set (batch ord table wallet version now evs)"
proof -
  let ?k = "event_key e" and ?inc = "filter (\<lambda>e'. event_key e' = event_key e) (sort_events evs)"
  have g: "(?k, ?inc) \<in> set (incoming_by_key evs)" using assms(3) by (simp add: incoming_by_key_iff)
  have "event_entry wallet e \<in> row_entry ` set (group_rows table wallet version now evs (?k, ?inc))"
    unfolding group_rows_entries [OF assms(1) g]
    using first_event_min [OF refl, of e ?k evs] assms(3) event_in_merge [of e evs]
    by (simp add: event_entry_def)
  moreover have "(?k, ?inc) \<in> set (ord (incoming_by_key evs))"
    using g assms(2) by (metis set_mset_mset)
  ultimately show ?thesis unfolding batch_def by fastforce
qed

text \<open>A stored row the batch does not rewrite keeps the right balance.\<close>

lemma untouched_balance:
  assumes "balanced table" "coherent wallet evs table"
    and "mset (ord (incoming_by_key evs)) = mset (incoming_by_key evs)"
    and r: "r \<in> set table" "row_id r \<notin> (bs_id \<circ> fst) ` set (batch ord table wallet version now evs)"
    and M: "entry r \<in> merge_entries wallet (entry ` set table) evs"
  shows "upto_sum (entry ` set table) (snap_key (bh_snap r)) (snap_ord (bh_snap r))
    = upto_sum (merge_entries wallet (entry ` set table) evs) (snap_key (bh_snap r)) (snap_ord (bh_snap r))"
proof (cases "snap_key (bh_snap r) \<in> Pair wallet ` event_key ` set evs")
  case True
  then obtain k where k: "snap_key (bh_snap r) = (wallet, k)" "k \<in> event_key ` set evs" by blast
  let ?inc = "filter (\<lambda>e. event_key e = k) (sort_events evs)"
  have g: "(k, ?inc) \<in> set (incoming_by_key evs)" using k(2) by (simp add: incoming_by_key_iff)
  have "snap_ord (bh_snap r) < event_ord (hd ?inc)"
  proof (rule ccontr)
    assume "\<not> ?thesis"
    then have "entry r \<in> row_entry ` set (group_rows table wallet version now evs (k, ?inc))"
      unfolding group_rows_entries [OF assms(1) g] using M k(1) by (simp add: entry_proj)
    moreover have "(k, ?inc) \<in> set (ord (incoming_by_key evs))" using g assms(3) by (metis set_mset_mset)
    ultimately have "entry r \<in> row_entry ` set (batch ord table wallet version now evs)"
      unfolding batch_def by fastforce
    then obtain x where "x \<in> set (batch ord table wallet version now evs)" "entry r = row_entry x" by blast
    then have "row_id r = (bs_id \<circ> fst) x" by (simp add: row_entry_def entry_def row_id_def snap_ord_def)
    with \<open>x \<in> _\<close> r(2) show False by blast
  qed
  then have "{x \<in> E. fst x = (wallet, k) \<and> fst (snd x) \<le> snap_ord (bh_snap r)}
      = {x \<in> {x \<in> E. fst x = (wallet, k) \<and> fst (snd x) < event_ord (hd ?inc)}.
           fst (snd x) \<le> snap_ord (bh_snap r)}" for E :: "'a bh_entry set" by auto
  then show ?thesis
    using before_entries_merge [OF assms(2) refl, of k] by (simp only: upto_sum_def k(1))
next
  case False
  have "bs_id (bh_snap q) \<notin> be_snapshot_id ` set evs"
    if "q \<in> set table" "snap_key (bh_snap q) = snap_key (bh_snap r)" for q
    using that assms(2) False by (force simp: coherent_def row_id_def)
  then have "{x \<in> merge_entries wallet (entry ` set table) evs. fst x = snap_key (bh_snap r)}
      = {x \<in> entry ` set table. fst x = snap_key (bh_snap r)}"
    using False by (fastforce simp: merge_entries_def event_entry_def entry_proj)
  then have "{x \<in> merge_entries wallet (entry ` set table) evs. fst x = snap_key (bh_snap r)
        \<and> fst (snd x) \<le> snap_ord (bh_snap r)}
      = {x \<in> entry ` set table. fst x = snap_key (bh_snap r) \<and> fst (snd x) \<le> snap_ord (bh_snap r)}"
    by blast
  then show ?thesis by (simp only: upto_sum_def)
qed

lemma batch_row_facts:
  assumes "balanced table" "coherent wallet evs table" "distinct (map be_snapshot_id evs)"
    and "mset (ord (incoming_by_key evs)) = mset (incoming_by_key evs)"
    and "x \<in> set (batch ord table wallet version now evs)"
  shows "row_entry x \<in> merge_entries wallet (entry ` set table) evs"
    and "bs_balance (fst x)
      = upto_sum (merge_entries wallet (entry ` set table) evs) (snap_key (fst x)) (snap_ord (fst x))"
proof -
  from assms(5) obtain g where "g \<in> set (ord (incoming_by_key evs))"
      and x: "x \<in> set (group_rows table wallet version now evs g)"
    unfolding batch_def by auto
  then have g: "g \<in> set (incoming_by_key evs)" using assms(4) by (metis set_mset_mset)
  show "row_entry x \<in> merge_entries wallet (entry ` set table) evs"
    and "bs_balance (fst x)
      = upto_sum (merge_entries wallet (entry ` set table) evs) (snap_key (fst x)) (snap_ord (fst x))"
    using batch_rows [OF assms(1-3) x g] by blast+
qed

lemma row_entry_id: "snd (fst (snd (row_entry x))) = bs_id (fst x)"
  by (simp add: row_entry_def entry_proj)

lemma event_entry_id: "snd (fst (snd (event_entry wallet e))) = be_snapshot_id e"
  by (simp add: event_entry_def event_ord_def)

lemma entry_id: "snd (fst (snd (entry r))) = row_id r"
  by (simp add: entry_proj row_id_def)

lemma kept_in_merge:
  "r \<in> set table \<Longrightarrow> row_id r \<notin> be_snapshot_id ` set evs \<Longrightarrow>
     entry r \<in> merge_entries wallet (entry ` set table) evs"
  by (simp add: merge_entries_def entry_id)

lemma batch_coherent:
  assumes "balanced table" "coherent wallet evs table" "distinct (map be_snapshot_id evs)"
    and "row_entry x \<in> merge_entries wallet (entry ` set table) evs"
  shows "snap_coherent (fst x) table"
  unfolding snap_coherent_def
proof (intro ballI impI)
  fix r assume r: "r \<in> set table" "row_id r = bs_id (fst x)"
  show "snap_key (bh_snap r) = snap_key (fst x) \<and> snap_ord (bh_snap r) = snap_ord (fst x)"
  proof (cases "row_id r \<in> be_snapshot_id ` set evs")
    case True
    then obtain e where e: "e \<in> set evs" "row_id r = be_snapshot_id e" by blast
    have "row_entry x = event_entry wallet e"
      by (rule merge_id_inj [OF assms(1,3,4) event_in_merge [OF e(1)]])
        (simp add: row_entry_id event_entry_id e(2) [symmetric] r(2))
    with assms(2) r e show ?thesis by (auto simp: coherent_def row_entry_def event_entry_def)
  next
    case False
    have "row_entry x = entry r"
      by (rule merge_id_inj [OF assms(1,3,4) kept_in_merge [OF r(1) False]])
        (simp add: row_entry_id entry_id r(2))
    then show ?thesis by (simp add: row_entry_def entry_def)
  qed
qed

lemma unwritten_in_merge:
  assumes "balanced table" "mset (ord (incoming_by_key evs)) = mset (incoming_by_key evs)"
    and "r \<in> set table" "row_id r \<notin> (bs_id \<circ> fst) ` set (batch ord table wallet version now evs)"
  shows "entry r \<in> merge_entries wallet (entry ` set table) evs"
proof (rule kept_in_merge [OF assms(3)], rule notI)
  assume "row_id r \<in> be_snapshot_id ` set evs"
  then obtain e where e: "e \<in> set evs" "row_id r = be_snapshot_id e" by blast
  obtain x where x: "x \<in> set (batch ord table wallet version now evs)" "event_entry wallet e = row_entry x"
    using event_in_batch [where ord = ord, OF assms(1,2) e(1)] by blast
  have "row_id r = (bs_id \<circ> fst) x"
    using e(2) row_entry_id [of x] event_entry_id [of wallet e] by (simp add: x(2))
  with assms(4) x(1) show False by blast
qed

lemma matches_entry: "matches r x \<Longrightarrow> entry r = row_entry x"
  by (simp add: matches_def entry_def row_entry_def)

text \<open>
  The content of a table after an upsert of coherent rows: the invariant's first half.
\<close>

lemma saved_entries:
  assumes inj: "\<And>y z. y \<in> M \<Longrightarrow> z \<in> M \<Longrightarrow> snd (fst (snd y)) = snd (fst (snd z)) \<Longrightarrow> y = z"
    and rows: "\<And>x. x \<in> set rows \<Longrightarrow> row_entry x \<in> M"
    and old: "\<And>r. r \<in> set table \<Longrightarrow> row_id r \<notin> (bs_id \<circ> fst) ` set rows \<Longrightarrow> entry r \<in> M"
    and cover: "\<And>z. z \<in> M \<Longrightarrow> z \<in> row_entry ` set rows \<or> z \<in> entry ` set table"
    and from_T: "\<And>r. r \<in> set T \<Longrightarrow> (r \<in> set table \<and> row_id r \<notin> (bs_id \<circ> fst) ` set rows) \<or> (\<exists>x \<in> set rows. matches r x)"
    and keep: "\<And>r. r \<in> set table \<Longrightarrow> row_id r \<notin> (bs_id \<circ> fst) ` set rows \<Longrightarrow> r \<in> set T"
    and new: "\<And>x. x \<in> set rows \<Longrightarrow> \<exists>r \<in> set T. matches r x"
  shows "entry ` set T = M"
proof
  show "entry ` set T \<subseteq> M" using from_T old rows matches_entry by fastforce
  have row_in: "row_entry x \<in> entry ` set T" if "x \<in> set rows" for x
    using new [OF that] matches_entry by (metis image_eqI)
  show "M \<subseteq> entry ` set T"
  proof
    fix z assume z: "z \<in> M"
    from cover [OF z] consider "z \<in> row_entry ` set rows" | r where "r \<in> set table" "z = entry r" by blast
    then show "z \<in> entry ` set T"
    proof cases
      case 1 then show ?thesis using row_in by blast
    next
      case (2 r)
      show ?thesis
      proof (cases "row_id r \<in> (bs_id \<circ> fst) ` set rows")
        case True
        then obtain x where x: "x \<in> set rows" "row_id r = bs_id (fst x)" by auto
        have "z = row_entry x"
          by (rule inj [OF z rows [OF x(1)]]) (simp add: 2(2) entry_id row_entry_id x(2))
        with row_in [OF x(1)] show ?thesis by simp
      qed (use keep 2 in blast)
    qed
  qed
qed

lemma balances_after_batch:
  assumes "balanced table" "coherent wallet evs table" "distinct (map be_snapshot_id evs)"
    and "mset (ord (incoming_by_key evs)) = mset (incoming_by_key evs)"
    and T: "T = fst (materialize_balances ord (\<lambda>_. True) True wallet version now table evs)"
  shows "balanced T" and "entry ` set T = merge_entries wallet (entry ` set table) evs"
proof -
  let ?M = "merge_entries wallet (entry ` set table) evs"
  let ?rows = "batch ord table wallet version now evs"
  have T: "T = save_rows ?rows table"
    unfolding T by (simp add: materialize_balances_eq [where ord = ord, OF assms(1-4)])
  note facts = batch_row_facts [where ord = ord, OF assms(1-4)]
  have dist: "distinct (map row_id table)" using assms(1) by (simp add: balanced_def)
  have "\<forall>x \<in> set ?rows. snap_coherent (fst x) table"
    using batch_coherent [OF assms(1-3)] facts(1) by blast
  note S = save_rows_spec [OF batch_ids_distinct [where ord = ord, OF assms(1-4)] dist this, folded T]
  note old = unwritten_in_merge [where ord = ord, OF assms(1,4)]
  show eq: "entry ` set T = ?M"
  proof (rule saved_entries [where rows = ?rows and table = table])
    fix z assume "z \<in> ?M"
    then show "z \<in> row_entry ` set ?rows \<or> z \<in> entry ` set table"
      using event_in_batch [where ord = ord, OF assms(1,4)] unfolding merge_entries_def by blast
  qed (use merge_id_inj [OF assms(1,3)] facts(1) old S in blast)+
  have "bh_delta r \<noteq> None \<and> bs_balance (bh_snap r) = upto_sum ?M (snap_key (bh_snap r)) (snap_ord (bh_snap r))"
    if "r \<in> set T" for r
  proof -
    from that S consider "r \<in> set table" "row_id r \<notin> (bs_id \<circ> fst) ` set ?rows"
      | x where "x \<in> set ?rows" "matches r x" by blast
    then show ?thesis
    proof cases
      case 1
      with untouched_balance [where ord = ord, OF assms(1,2,4) 1 old [OF 1]] assms(1) show ?thesis
        by (simp add: balanced_def)
    next
      case (2 x) then show ?thesis using facts(2) [of x] by (simp add: matches_def)
    qed
  qed
  then show "balanced T" using S eq by (simp add: balanced_def)
qed

section \<open>Properties\<close>

text \<open>What a reader of the table sees: its entries with their balances.\<close>

definition bh_view :: "'d bh_row list \<Rightarrow> ('d bh_entry \<times> 'd) set" where
  "bh_view table = (\<lambda>r. (entry r, bs_balance (bh_snap r))) ` set table"

lemma balanced_view:
  assumes "balanced table"
  shows "bh_view table = (\<lambda>x. (x, upto_sum (entry ` set table) (fst x) (fst (snd x)))) ` entry ` set table"
  unfolding bh_view_def image_image
  by (rule image_cong [OF refl]) (use assms in \<open>simp add: balanced_def entry_proj\<close>)

lemma merge_merge:
  assumes "be_snapshot_id ` set evs \<inter> be_snapshot_id ` set evs' = {}"
  shows "merge_entries wallet (merge_entries wallet E evs) evs' = merge_entries wallet E (evs @ evs')"
  using assms by (auto simp: merge_entries_def event_entry_id)

lemma merge_cong: "set evs = set evs' \<Longrightarrow> merge_entries wallet E evs = merge_entries wallet E evs'"
  by (simp add: merge_entries_def)

lemma coherent_after:
  assumes "coherent wallet evs' table" "be_snapshot_id ` set evs \<inter> be_snapshot_id ` set evs' = {}"
    and "entry ` set T = merge_entries wallet (entry ` set table) evs"
  shows "coherent wallet evs' T"
  unfolding coherent_def
proof (intro ballI impI)
  fix e r assume e: "e \<in> set evs'" and r: "r \<in> set T" "row_id r = be_snapshot_id e"
  have "entry r \<in> merge_entries wallet (entry ` set table) evs" using r(1) assms(3) by blast
  moreover have "entry r \<notin> event_entry wallet ` set evs"
  proof
    assume "entry r \<in> event_entry wallet ` set evs"
    then obtain e' where "e' \<in> set evs" "entry r = event_entry wallet e'" by blast
    with r(2) entry_id [of r] event_entry_id [of wallet e'] assms(2) e show False by auto
  qed
  ultimately obtain q where q: "q \<in> set table" "entry r = entry q" unfolding merge_entries_def by blast
  then have "row_id q = be_snapshot_id e" using r(2) entry_id [of r] entry_id [of q] by simp
  with assms(1) e q show "snap_key (bh_snap r) = (wallet, event_key e) \<and> snap_ord (bh_snap r) = event_ord e"
    by (auto simp: coherent_def entry_def)
qed

text \<open>
  C1. Incremental materialization is correct. From a table in which every balance is the running
  sum of the deltas of its asset, a batch of new balance events (distinct ids, each new or
  replacing its own earlier row, as late or as old as it may be) leads to a table with the same
  property, whose rows are the old ones with the events of the batch added or replaced, and no
  failure is reported; this holds for every iteration order of the hash map of groups.
\<close>

theorem incremental_balances_correct:
  assumes "balanced table" "coherent wallet evs table" "distinct (map be_snapshot_id evs)"
    and "mset (ord (incoming_by_key evs)) = mset (incoming_by_key evs)"
    and "(T, res) = materialize_balances ord (\<lambda>_. True) True wallet version now table evs"
  shows "balanced T \<and> entry ` set T = merge_entries wallet (entry ` set table) evs
    \<and> bh_failed res = 0"
proof -
  have T: "T = fst (materialize_balances ord (\<lambda>_. True) True wallet version now table evs)"
    and res: "res = snd (materialize_balances ord (\<lambda>_. True) True wallet version now table evs)"
    using assms(5) by (metis fst_conv snd_conv)+
  show ?thesis
    using balances_after_batch [where ord = ord, OF assms(1-4) T]
    by (simp add: res materialize_balances_eq [where ord = ord, OF assms(1-4)])
qed

text \<open>
  C2. The order and the split of ingestion do not matter. Materializing two disjoint batches one
  after the other, in either order, or both at once, gives tables with the same rows and the
  same balances: a late batch is inserted where it belongs and every later balance is corrected.
\<close>

theorem batches_commute:
  assumes "balanced table" "coherent wallet (evsa @ evsb) table" "distinct (map be_snapshot_id (evsa @ evsb))"
    and ord: "\<forall>m. mset (ord m) = mset m"
    and run: "run = (\<lambda>T evs. fst (materialize_balances ord (\<lambda>_. True) True wallet version now T evs))"
  shows "bh_view (run (run table evsa) evsb) = bh_view (run table (evsa @ evsb))
    \<and> bh_view (run (run table evsb) evsa) = bh_view (run table (evsa @ evsb))"
proof -
  let ?E = "entry ` set table"
  have step: "balanced (run T evs) \<and> entry ` set (run T evs) = merge_entries wallet (entry ` set T) evs"
    if "balanced T" "coherent wallet evs T" "distinct (map be_snapshot_id evs)" for T evs
    using balances_after_batch [where ord = ord and version = version and now = now, OF that _ refl] ord
    by (simp add: run)
  have split: "balanced (run (run table a) b)
      \<and> entry ` set (run (run table a) b) = merge_entries wallet ?E (evsa @ evsb)"
    if "a = evsa \<and> b = evsb \<or> a = evsb \<and> b = evsa" for a b
  proof -
    have disj: "be_snapshot_id ` set a \<inter> be_snapshot_id ` set b = {}"
      and da: "distinct (map be_snapshot_id a)" and db: "distinct (map be_snapshot_id b)"
      and ca: "coherent wallet a table" and cb: "coherent wallet b table"
      using that assms(2,3) by (auto simp: coherent_def)
    note A = step [OF assms(1) ca da]
    have "coherent wallet b (run table a)" using coherent_after [OF cb disj] A by blast
    note B = step [OF _ this db]
    have "set (a @ b) = set (evsa @ evsb)" using that by auto
    then have "merge_entries wallet (merge_entries wallet ?E a) b = merge_entries wallet ?E (evsa @ evsb)"
      unfolding merge_merge [OF disj] by (rule merge_cong)
    with A B show ?thesis by simp
  qed
  have all: "balanced (run table (evsa @ evsb))
      \<and> entry ` set (run table (evsa @ evsb)) = merge_entries wallet ?E (evsa @ evsb)"
    by (rule step [OF assms(1-3)])
  show ?thesis
    using split [of evsa evsb] split [of evsb evsa] all by (simp add: balanced_view)
qed

text \<open>A stored row of the wallet and two older events of its asset.\<close>

definition sample_row :: "int bh_row" where
  "sample_row = \<lparr>bh_snap = \<lparr>bs_id = 5, bs_wallet_address = ''w'', bs_asset_symbol = ''SOL'',
       bs_network = ''solana-mainnet'', bs_timestamp = 10, bs_balance = 3, bs_tx_hash = ''h5'',
       bs_dataset_version_id = None, bs_created_at = 0\<rparr>, bh_delta = Some 3\<rparr>"

definition sample_event :: "uuid \<Rightarrow> int \<Rightarrow> int \<Rightarrow> int balance_event" where
  "sample_event i ts d = \<lparr>be_network = ''solana-mainnet'', be_asset = ''SOL'', be_timestamp = ts,
     be_tx_hash = ''h'', be_delta = d, be_snapshot_id = i\<rparr>"

lemma sample_balanced: "balanced [sample_row]"
proof -
  have "{x \<in> entry ` set [sample_row]. fst x = snap_key (bh_snap sample_row)
      \<and> fst (snd x) \<le> snap_ord (bh_snap sample_row)} = {entry sample_row}"
    by (auto simp: entry_proj)
  then have "upto_sum (entry ` set [sample_row]) (snap_key (bh_snap sample_row))
      (snap_ord (bh_snap sample_row)) = 3"
    unfolding upto_sum_def by (simp add: entry_def sample_row_def)
  then show ?thesis by (simp add: balanced_def sample_row_def)
qed

lemma sample_coherent: "i \<noteq> 5 \<Longrightarrow> j \<noteq> 5 \<Longrightarrow> coherent w [sample_event i a b, sample_event j c d] [sample_row]"
  by (auto simp: coherent_def sample_event_def sample_row_def row_id_def)

theorem incremental_balances_correct_witness:
  "balanced (fst (materialize_balances rev (\<lambda>_. True) True ''w'' None 0 [sample_row]
     [sample_event 2 4 7, sample_event 1 6 (- 2)]))"
  using incremental_balances_correct [where ord = rev and table = "[sample_row]" and wallet = "''w''" and
      evs = "[sample_event 2 4 7, sample_event 1 6 (- 2)]" and version = None and now = 0,
      OF sample_balanced sample_coherent _ _ prod.collapse]
  by (simp add: sample_event_def)

theorem batches_commute_witness:
  "bh_view (fst (materialize_balances rev (\<lambda>_. True) True ''w'' None 0
       (fst (materialize_balances rev (\<lambda>_. True) True ''w'' None 0 [sample_row] [sample_event 2 4 7]))
       [sample_event 1 6 (- 2)]))
   = bh_view (fst (materialize_balances rev (\<lambda>_. True) True ''w'' None 0 [sample_row]
       [sample_event 2 4 7, sample_event 1 6 (- 2)]))"
  using batches_commute [where ord = rev and table = "[sample_row]" and wallet = "''w''" and
      evsa = "[sample_event 2 4 7]" and evsb = "[sample_event 1 6 (- 2)]" and version = None and now = 0,
      OF sample_balanced _ _ _ refl] sample_coherent [of 2 1 "''w''" 4 7 6 "- 2"]
  by (simp add: sample_event_def)

lemma total_upsert:
  "sum_list (map (\<lambda>g. length (snd g)) (upsert k [] (\<lambda>es. es @ [e]) m))
     = Suc (sum_list (map (\<lambda>g. length (snd g)) m))"
  by (induction m) auto

lemma total_incoming: "sum_list (map (\<lambda>g. length (snd g)) (incoming_by_key evs)) = length evs"
proof -
  have "sum_list (map (\<lambda>g. length (snd g)) (tally key [] (\<lambda>e es. es @ [e]) xs m))
      = length xs + sum_list (map (\<lambda>g. length (snd g)) m)"
    for key :: "'a balance_event \<Rightarrow> bh_key" and xs m
    by (induction xs arbitrary: m) (auto simp: total_upsert)
  then show ?thesis by (simp add: incoming_by_key_def sort_events_def)
qed

text \<open>
  When the reads of the stored balances fail for every group, nothing is written and every
  event of the batch is counted as failed, so that the run is reported as partial and no balance
  is computed from a seed that was not read.
\<close>

theorem unread_balances_fail:
  assumes "\<forall>m. mset (ord m) = mset m"
  shows "materialize_balances ord (\<lambda>_. False) write_ok wallet version now table evs
    = (table, \<lparr>bh_written = 0, bh_failed = length evs\<rparr>)"
proof -
  let ?gs = "ord (incoming_by_key evs)"
  have "group_results ord (\<lambda>_. False) wallet version now table evs = map (\<lambda>g. Inl (length (snd g))) ?gs"
    unfolding group_results_def
  proof (rule map_filter_all)
    fix g assume "g \<in> set ?gs"
    then have "g \<in> set (incoming_by_key evs)" using assms by (metis set_mset_mset)
    moreover obtain k inc where "g = (k, inc)" by fastforce
    ultimately show "(case g of (k, incoming) \<Rightarrow>
        case map_of (first_event_by_key evs) k of
          Some (Some first) \<Rightarrow> Some (recompute_group (\<lambda>_. False) table wallet version now
            (set (map be_snapshot_id evs)) k first incoming)
        | _ \<Rightarrow> None) = Some (Inl (length (snd g)))"
      by (simp add: incoming_by_key_iff first_event_by_key_eq recompute_group_def)
  qed
  moreover have "sum_list (map (\<lambda>g. length (snd g)) ?gs) = length evs"
  proof -
    have "mset (map (\<lambda>g. length (snd g)) ?gs) = mset (map (\<lambda>g. length (snd g)) (incoming_by_key evs))"
      using assms by simp
    then show ?thesis using total_incoming by (metis sum_mset_sum_list)
  qed
  ultimately show ?thesis by (simp add: materialize_balances_def Let_def comp_def)
qed

theorem unread_balances_fail_witness:
  "materialize_balances rev (\<lambda>_. False) True ''w'' None 0 [sample_row] [sample_event 2 4 7]
     = ([sample_row], \<lparr>bh_written = 0, bh_failed = 1\<rparr>)"
  using unread_balances_fail [where ord = rev and evs = "[sample_event 2 4 7]"] by simp

end
