(* ===== verification/Lease.thy ===== *)
theory Lease
  imports Records
begin

text \<open>
  The lease contract of the durable control plane. Ingestion jobs, stream subscriptions, export
  jobs and materialization runs are rows that a worker claims, keeps alive by heartbeats and
  finishes; a row whose heartbeat is older than five minutes may be claimed by another worker.
  The locale \<open>lease\<close> states what the operations of one row promise and derives mutual exclusion,
  fencing of stale workers and recovery from dead ones; the four tables interpret it.

  Time is in microseconds and is the \<open>NOW()\<close> of the statement. A table is the list of its rows.
\<close>

section \<open>Tables\<close>

definition STALE_JOB_THRESHOLD :: int where
  "STALE_JOB_THRESHOLD = 5 * 60 * 1000000"

text \<open>
  \<open>UPDATE .. SET f WHERE id = i AND guard\<close>: \<open>f\<close> is \<open>None\<close> on a row the guard rejects; the result
  says whether a row was affected.
\<close>

definition update_row :: "('r \<Rightarrow> uuid) \<Rightarrow> uuid \<Rightarrow> ('r \<Rightarrow> 'r option) \<Rightarrow> 'r list \<Rightarrow> bool \<times> 'r list" where
  "update_row idf i f rows =
     (\<exists>r \<in> set rows. idf r = i \<and> f r \<noteq> None,
      map (\<lambda>r. if idf r = i then (case f r of Some r' \<Rightarrow> r' | None \<Rightarrow> r) else r) rows)"

lemma update_row_refused:
  assumes "\<And>r. r \<in> set rows \<Longrightarrow> idf r = i \<Longrightarrow> f r = None"
  shows "update_row idf i f rows = (False, rows)"
proof -
  have "map (\<lambda>r. if idf r = i then (case f r of Some r' \<Rightarrow> r' | None \<Rightarrow> r) else r) rows = map (\<lambda>r. r) rows"
    by (rule map_cong) (simp_all add: assms)
  then show ?thesis using assms by (auto simp: update_row_def)
qed

lemma update_row_ids:
  assumes "\<And>r r'. f r = Some r' \<Longrightarrow> idf r' = idf r"
  shows "map idf (snd (update_row idf i f rows)) = map idf rows"
  using assms by (auto simp: update_row_def split: option.splits)

lemma update_row_all:
  assumes "\<forall>r \<in> set rows. P r" "\<And>r r'. P r \<Longrightarrow> f r = Some r' \<Longrightarrow> P r'"
  shows "\<forall>r \<in> set (snd (update_row idf i f rows)). P r"
  using assms by (auto simp: update_row_def split: option.splits)

lemma update_row_inv:
  assumes "\<forall>r \<in> set rows. P r" "distinct (map idf rows)"
    and "\<And>r r'. P r \<Longrightarrow> f r = Some r' \<Longrightarrow> P r'" "\<And>r r'. f r = Some r' \<Longrightarrow> idf r' = idf r"
  shows "(\<forall>r \<in> set (snd (update_row idf i f rows)). P r)
    \<and> distinct (map idf (snd (update_row idf i f rows)))"
  using update_row_all [of rows P f, OF assms(1,3)] update_row_ids [of f idf, OF assms(4)] assms(2) by simp

lemma unique_row:
  assumes "distinct (map idf rows)" "r \<in> set rows" "q \<in> set rows" "idf q = idf r"
  shows "q = r"
  using assms by (auto simp: distinct_map inj_on_def)

lemma update_row_unique:
  assumes "distinct (map idf rows)" "r \<in> set rows"
  shows "fst (update_row idf (idf r) f rows) \<longleftrightarrow> f r \<noteq> None"
    and "f r = None \<Longrightarrow> update_row idf (idf r) f rows = (False, rows)"
    and "f r = Some r' \<Longrightarrow> r' \<in> set (snd (update_row idf (idf r) f rows))"
proof -
  show "fst (update_row idf (idf r) f rows) \<longleftrightarrow> f r \<noteq> None"
    using assms unique_row by (fastforce simp: update_row_def)
  show "f r = None \<Longrightarrow> update_row idf (idf r) f rows = (False, rows)"
    using unique_row [OF assms] by (intro update_row_refused) blast
  show "f r = Some r' \<Longrightarrow> r' \<in> set (snd (update_row idf (idf r) f rows))"
    using assms(2) by (force simp: update_row_def)
qed

text \<open>\<open>rows_affected() == 0\<close> turned into an error by the statements that must hit a row.\<close>

definition affected_or :: "string \<Rightarrow> bool \<times> 'a \<Rightarrow> unit result \<times> 'a" where
  "affected_or msg s = (if fst s then Inr () else Inl msg, snd s)"

lemma snd_affected_or [simp]:
  "snd (affected_or msg s) = snd s" "fst (affected_or msg s) = (if fst s then Inr () else Inl msg)"
  by (simp_all add: affected_or_def)

text \<open>
  \<open>SELECT .. WHERE p ORDER BY key LIMIT 1 FOR UPDATE SKIP LOCKED\<close>: the first row in the order that
  satisfies the condition and is not locked by another transaction.
\<close>

definition select_first :: "('r \<Rightarrow> 'k :: linorder) \<Rightarrow> ('r \<Rightarrow> bool) \<Rightarrow> ('r \<Rightarrow> bool) \<Rightarrow> 'r list \<Rightarrow> 'r option" where
  "select_first key locked p rows =
     (case sort_key key (filter (\<lambda>r. p r \<and> \<not> locked r) rows) of [] \<Rightarrow> None | r # _ \<Rightarrow> Some r)"

lemma select_first_Some:
  assumes "select_first key locked p rows = Some r"
  shows "r \<in> set rows" "p r" "\<not> locked r" "\<And>q. q \<in> set rows \<Longrightarrow> p q \<Longrightarrow> \<not> locked q \<Longrightarrow> key r \<le> key q"
proof -
  let ?xs = "filter (\<lambda>r. p r \<and> \<not> locked r) rows"
  from assms obtain rs where eq: "sort_key key ?xs = r # rs"
    unfolding select_first_def by (auto split: list.splits)
  have mem: "set (sort_key key ?xs) = set ?xs" by simp
  from eq mem have "r \<in> set ?xs" by (metis list.set_intros(1))
  then show "r \<in> set rows" "p r" "\<not> locked r" by auto
  fix q assume "q \<in> set rows" "p q" "\<not> locked q"
  then have "q \<in> set (r # rs)" unfolding eq [symmetric] by simp
  moreover have "sorted (map key (r # rs))" unfolding eq [symmetric] by simp
  ultimately show "key r \<le> key q" by auto
qed

lemma select_first_None_iff:
  "select_first key locked p rows = None \<longleftrightarrow> (\<forall>r \<in> set rows. p r \<longrightarrow> locked r)"
proof -
  have "select_first key locked p rows = None \<longleftrightarrow> sort_key key (filter (\<lambda>r. p r \<and> \<not> locked r) rows) = []"
    by (cases "sort_key key (filter (\<lambda>r. p r \<and> \<not> locked r) rows)") (simp_all add: select_first_def)
  then show ?thesis by (auto simp: sort_key_eq_Nil filter_empty_conv)
qed

section \<open>The contract\<close>

datatype 'f action = Claim | Beat | Work 'f

locale lease =
  fixes inv :: "'r \<Rightarrow> bool"
    and holder :: "'r \<Rightarrow> worker option"
    and beat_at :: "'r \<Rightarrow> int option"
    and claimable :: "'r \<Rightarrow> bool"
    and claim :: "int \<Rightarrow> worker \<Rightarrow> 'r \<Rightarrow> 'r option"
    and beat :: "int \<Rightarrow> worker \<Rightarrow> 'r \<Rightarrow> 'r option"
    and work :: "'f \<Rightarrow> int \<Rightarrow> worker \<Rightarrow> 'r \<Rightarrow> 'r option"
  assumes inv_beat: "inv r \<Longrightarrow> holder r = Some v \<Longrightarrow> \<exists>t. beat_at r = Some t"
    and claim_holds: "inv r \<Longrightarrow> claim now w r = Some r' \<Longrightarrow> inv r' \<and> holder r' = Some w \<and> beat_at r' = Some now"
    and claim_free: "inv r \<Longrightarrow> claimable r \<Longrightarrow> holder r = None \<Longrightarrow> claim now w r \<noteq> None"
    and claim_stale: "inv r \<Longrightarrow> claimable r \<Longrightarrow> beat_at r = Some t \<Longrightarrow> t + STALE_JOB_THRESHOLD < now \<Longrightarrow> claim now w r \<noteq> None"
    and claim_fresh: "inv r \<Longrightarrow> holder r = Some v \<Longrightarrow> beat_at r = Some t \<Longrightarrow> now < t + STALE_JOB_THRESHOLD \<Longrightarrow> claim now w r = None"
    and beat_holds: "inv r \<Longrightarrow> beat now w r = Some r' \<Longrightarrow> holder r = Some w \<and> inv r' \<and> holder r' = Some w \<and> beat_at r' = Some now"
    and beat_ok: "inv r \<Longrightarrow> holder r = Some w \<Longrightarrow> beat now w r \<noteq> None"
    and work_holds: "inv r \<Longrightarrow> work f now w r = Some r' \<Longrightarrow> holder r = Some w \<and> inv r'
          \<and> (holder r' = None \<or> holder r' = Some w \<and> beat_at r' = beat_at r)"
begin

text \<open>One attempt of a worker; a refused operation leaves the row as it is.\<close>

definition act :: "int \<times> worker \<times> 'f action \<Rightarrow> 'r \<Rightarrow> 'r" where
  "act e r = (case e of (now, w, a) \<Rightarrow>
     (case (case a of Claim \<Rightarrow> claim now w r | Beat \<Rightarrow> beat now w r | Work f \<Rightarrow> work f now w r) of
        Some r' \<Rightarrow> r' | None \<Rightarrow> r))"

lemma act_inv: "inv r \<Longrightarrow> inv (act e r)"
proof -
  assume r: "inv r"
  obtain now w a where e: "e = (now, w, a)" by (cases e) auto
  show ?thesis
    using claim_holds [OF r, of now w] beat_holds [OF r, of now w] work_holds [OF r, of _ now w] r
    by (cases a) (auto simp: act_def e split: option.split)
qed

lemma run_inv: "inv r \<Longrightarrow> inv (fold act es r)"
  by (induction es arbitrary: r) (auto simp: act_inv)

text \<open>A worker that does not hold the lease can neither extend nor use it.\<close>

lemma fenced: "inv r \<Longrightarrow> holder r \<noteq> Some w \<Longrightarrow> beat now w r = None \<and> work f now w r = None"
  using beat_holds work_holds by (metis not_None_eq)

lemma act_excluded:
  assumes "inv r" "holder r = Some w" "beat_at r = Some t" "v \<noteq> w" "now < t + STALE_JOB_THRESHOLD"
  shows "act (now, v, a) r = r"
proof (cases a)
  case Claim
  then show ?thesis using claim_fresh [OF assms(1-3,5)] by (simp add: act_def)
next
  case Beat
  then show ?thesis using fenced [of r v now] assms(1,2,4) by (simp add: act_def)
next
  case (Work f)
  then show ?thesis using fenced [of r v now f] assms(1,2,4) by (simp add: act_def)
qed

text \<open>
  Mutual exclusion: while the holder's last heartbeat is fresh, no sequence of operations of
  other workers changes the row.
\<close>

lemma exclusive:
  assumes "inv r" "holder r = Some w" "beat_at r = Some t"
    and "\<forall>(now, v, a) \<in> set es. v \<noteq> w \<and> now < t + STALE_JOB_THRESHOLD"
  shows "fold act es r = r"
  using assms(4)
proof (induction es)
  case (Cons e es)
  then show ?case by (cases e) (auto simp: act_excluded [OF assms(1-3)])
qed simp

text \<open>Recovery: a claimable row whose heartbeat is stale goes to the next claimer, and the old
  holder is fenced from then on.\<close>

lemma takeover:
  assumes "inv r" "claimable r" "holder r = Some v" "beat_at r = Some t" "t + STALE_JOB_THRESHOLD < now" "v \<noteq> w"
  shows "\<exists>r'. claim now w r = Some r' \<and> holder r' = Some w
    \<and> (\<forall>later f. beat later v r' = None \<and> work f later v r' = None)"
proof -
  obtain r' where c: "claim now w r = Some r'" using claim_stale [OF assms(1,2,4,5)] by blast
  note h = claim_holds [OF assms(1) c]
  then have "beat later v r' = None \<and> work f later v r' = None" for later f
    using fenced [of r' v later f] assms(6) by simp
  with c h show ?thesis by blast
qed

end

end
