(* ===== verification/Ingestion_Jobs.thy ===== *)
theory Ingestion_Jobs
  imports Lease "HOL-Library.Product_Lexorder"
begin

text \<open>
  Ingestion jobs of the durable control plane (\<open>adapters/src/v2_repo.rs\<close>): the tables
  \<open>ingestion_jobs\<close> and \<open>ingestion_job_attempts\<close>, idempotent enqueueing, the claim transaction, and
  the completion and failure of a job, whose two statements are separate steps of the tables and
  may interleave with the statements of other workers. The operations on one job interpret
  \<open>lease\<close>: its holder is the worker of its open attempt.
\<close>

section \<open>Tables\<close>

record ingestion_job =
  ij_id :: uuid
  ij_target_id :: "uuid option"
  ij_network :: string
  ij_mode :: ingestion_job_mode
  ij_status :: ingestion_job_status
  ij_priority :: int
  ij_idempotency_key :: "string option"
  ij_requested_by :: "string option"
  ij_callback_url :: "string option"
  ij_error_message :: "string option"
  ij_created_at :: timestamp
  ij_updated_at :: timestamp

record ingestion_job_attempt =
  at_id :: uuid
  at_job_id :: uuid
  at_worker_id :: string
  at_attempt_num :: int
  at_started_at :: timestamp
  at_finished_at :: "timestamp option"
  at_heartbeat_at :: timestamp
  at_error_message :: "string option"

record ingestion_db =
  db_jobs :: "ingestion_job list"
  db_attempts :: "ingestion_job_attempt list"

definition attempts_of :: "uuid \<Rightarrow> ingestion_db \<Rightarrow> ingestion_job_attempt list" where
  "attempts_of i db = filter (\<lambda>a. at_job_id a = i) (db_attempts db)"

abbreviation unfinished :: "ingestion_job_attempt \<Rightarrow> bool" where
  "unfinished a \<equiv> at_finished_at a = None"

definition update_jobs :: "uuid \<Rightarrow> (ingestion_job \<Rightarrow> ingestion_job) \<Rightarrow> ingestion_db \<Rightarrow> ingestion_db" where
  "update_jobs i g db = db\<lparr>db_jobs := map (\<lambda>j. if ij_id j = i then g j else j) (db_jobs db)\<rparr>"

text \<open>\<open>UPDATE ingestion_job_attempts SET g WHERE job_id = i AND p AND finished_at IS NULL\<close>.\<close>

definition update_attempts ::
    "uuid \<Rightarrow> (ingestion_job_attempt \<Rightarrow> bool) \<Rightarrow> (ingestion_job_attempt \<Rightarrow> ingestion_job_attempt) \<Rightarrow>
     ingestion_db \<Rightarrow> ingestion_db" where
  "update_attempts i p g db = db\<lparr>db_attempts :=
     map (\<lambda>a. if at_job_id a = i \<and> unfinished a \<and> p a then g a else a) (db_attempts db)\<rparr>"

section \<open>Statements\<close>

record enqueue_params =
  ep_target_id :: "uuid option"
  ep_network :: string
  ep_mode :: ingestion_job_mode
  ep_priority :: int
  ep_idempotency_key :: "string option"
  ep_requested_by :: "string option"
  ep_callback_url :: "string option"

text \<open>
  \<open>i\<close> is the fresh version-4 id. With a key the insert does nothing on a conflict of the unique
  index on the key, and the existing row is returned; without one it is a plain insert.
\<close>

definition new_job :: "uuid \<Rightarrow> int \<Rightarrow> enqueue_params \<Rightarrow> ingestion_job" where
  "new_job i now p = \<lparr>ij_id = i, ij_target_id = ep_target_id p, ij_network = ep_network p,
     ij_mode = ep_mode p, ij_status = IJ_Pending, ij_priority = ep_priority p,
     ij_idempotency_key = ep_idempotency_key p, ij_requested_by = ep_requested_by p,
     ij_callback_url = ep_callback_url p, ij_error_message = None, ij_created_at = now,
     ij_updated_at = now\<rparr>"

definition enqueue_ingestion_job ::
    "uuid \<Rightarrow> int \<Rightarrow> enqueue_params \<Rightarrow> ingestion_db \<Rightarrow> ingestion_job \<times> ingestion_db" where
  "enqueue_ingestion_job i now p db =
     (let job = new_job i now p;
          inserted = (job, db\<lparr>db_jobs := db_jobs db @ [job]\<rparr>)
      in case ep_idempotency_key p of
           None \<Rightarrow> inserted
         | Some k \<Rightarrow> (case find (\<lambda>j. ij_idempotency_key j = Some k) (db_jobs db) of
                       None \<Rightarrow> inserted | Some existing \<Rightarrow> (existing, db)))"

definition in_hand :: "ingestion_job_status \<Rightarrow> bool" where
  "in_hand s \<longleftrightarrow> s = IJ_Claimed \<or> s = IJ_Running"

definition job_claimable :: "int \<Rightarrow> ingestion_db \<Rightarrow> ingestion_job \<Rightarrow> bool" where
  "job_claimable now db j \<longleftrightarrow> ij_status j = IJ_Pending
     \<or> (in_hand (ij_status j)
        \<and> \<not> list_ex (\<lambda>a. at_job_id a = ij_id j \<and> unfinished a
                \<and> at_heartbeat_at a > now - STALE_JOB_THRESHOLD) (db_attempts db))"

definition get_ingestion_job :: "uuid \<Rightarrow> ingestion_db \<Rightarrow> ingestion_job option" where
  "get_ingestion_job i db = find (\<lambda>j. ij_id j = i) (db_jobs db)"

text \<open>The statements of the claim transaction after the selection of job \<open>i\<close>; \<open>a\<close> is the id of
  the new attempt.\<close>

definition next_attempt_num :: "uuid \<Rightarrow> ingestion_db \<Rightarrow> int" where
  "next_attempt_num i db =
     (case attempts_of i db of [] \<Rightarrow> 0 | as \<Rightarrow> Max (set (map at_attempt_num as))) + 1"

definition new_attempt :: "int \<Rightarrow> uuid \<Rightarrow> worker \<Rightarrow> uuid \<Rightarrow> int \<Rightarrow> ingestion_job_attempt" where
  "new_attempt now a w i n = \<lparr>at_id = a, at_job_id = i, at_worker_id = w, at_attempt_num = n,
     at_started_at = now, at_finished_at = None, at_heartbeat_at = now, at_error_message = None\<rparr>"

definition open_attempt :: "int \<Rightarrow> uuid \<Rightarrow> worker \<Rightarrow> uuid \<Rightarrow> ingestion_db \<Rightarrow> ingestion_db" where
  "open_attempt now a w i db =
     db\<lparr>db_attempts := db_attempts db @ [new_attempt now a w i (next_attempt_num i db)]\<rparr>"

definition reclaim_attempt :: "int \<Rightarrow> ingestion_job_attempt \<Rightarrow> ingestion_job_attempt" where
  "reclaim_attempt now t =
     t\<lparr>at_finished_at := Some now, at_error_message := Some ''reclaimed: worker presumed dead''\<rparr>"

definition claim_selected :: "int \<Rightarrow> uuid \<Rightarrow> worker \<Rightarrow> uuid \<Rightarrow> ingestion_db \<Rightarrow> ingestion_db" where
  "claim_selected now a w i db =
     open_attempt now a w i
       (update_jobs i (\<lambda>j. j\<lparr>ij_status := IJ_Claimed, ij_updated_at := now\<rparr>)
         (update_attempts i (\<lambda>_. True) (reclaim_attempt now) db))"

definition claim_order :: "ingestion_job \<Rightarrow> int \<times> int" where
  "claim_order j = (- ij_priority j, ij_created_at j)"

definition claim_ingestion_job ::
    "int \<Rightarrow> uuid \<Rightarrow> (ingestion_job \<Rightarrow> bool) \<Rightarrow> worker \<Rightarrow> ingestion_db \<Rightarrow> ingestion_job option \<times> ingestion_db" where
  "claim_ingestion_job now a locked w db =
     (case select_first claim_order locked (job_claimable now db) (db_jobs db) of
        None \<Rightarrow> (None, db)
      | Some j \<Rightarrow> (let db' = claim_selected now a w (ij_id j) db
                  in (map_option (\<lambda>j. j\<lparr>ij_status := IJ_Claimed\<rparr>) (get_ingestion_job (ij_id j) db'), db')))"

definition owns_attempt :: "uuid \<Rightarrow> worker \<Rightarrow> ingestion_db \<Rightarrow> bool" where
  "owns_attempt i w db \<longleftrightarrow>
     list_ex (\<lambda>a. at_job_id a = i \<and> at_worker_id a = w \<and> unfinished a) (db_attempts db)"

definition heartbeat_ingestion_job :: "int \<Rightarrow> uuid \<Rightarrow> worker \<Rightarrow> ingestion_db \<Rightarrow> bool \<times> ingestion_db" where
  "heartbeat_ingestion_job now i w db =
     (let db' = update_jobs i (\<lambda>j. j\<lparr>ij_updated_at := now\<rparr>) db
      in (owns_attempt i w db',
          update_attempts i (\<lambda>a. at_worker_id a = w) (\<lambda>a. a\<lparr>at_heartbeat_at := now\<rparr>) db'))"

text \<open>
  \<open>UPDATE ingestion_jobs SET g WHERE id = i AND p status AND EXISTS (open attempt of the worker)\<close>,
  with whether a row was affected.
\<close>

definition fenced_update ::
    "uuid \<Rightarrow> worker \<Rightarrow> (ingestion_job_status \<Rightarrow> bool) \<Rightarrow> (ingestion_job \<Rightarrow> ingestion_job) \<Rightarrow> ingestion_db \<Rightarrow>
     bool \<times> ingestion_db" where
  "fenced_update i w p g db =
     (let hit = list_ex (\<lambda>j. ij_id j = i \<and> p (ij_status j)) (db_jobs db) \<and> owns_attempt i w db
      in (hit, if hit then update_jobs i (\<lambda>j. if p (ij_status j) then g j else j) db else db))"

definition mark_ingestion_job_running ::
    "(uuid \<Rightarrow> string) \<Rightarrow> int \<Rightarrow> uuid \<Rightarrow> worker \<Rightarrow> ingestion_db \<Rightarrow> unit result \<times> ingestion_db" where
  "mark_ingestion_job_running us now i w db =
     affected_or (''worker '' @ w @ '' does not own the current attempt for job '' @ us i
         @ '' (job may have been reclaimed or is not in 'claimed' status)'')
       (fenced_update i w (\<lambda>s. s = IJ_Claimed) (\<lambda>j. j\<lparr>ij_status := IJ_Running, ij_updated_at := now\<rparr>) db)"

text \<open>The first and the second statement of completion and failure.\<close>

definition complete_stmt :: "int \<Rightarrow> uuid \<Rightarrow> worker \<Rightarrow> ingestion_db \<Rightarrow> bool \<times> ingestion_db" where
  "complete_stmt now i w =
     fenced_update i w in_hand (\<lambda>j. j\<lparr>ij_status := IJ_Completed, ij_updated_at := now\<rparr>)"

definition fail_stmt :: "int \<Rightarrow> uuid \<Rightarrow> worker \<Rightarrow> string \<Rightarrow> ingestion_db \<Rightarrow> bool \<times> ingestion_db" where
  "fail_stmt now i w err =
     fenced_update i w in_hand
       (\<lambda>j. j\<lparr>ij_status := IJ_Failed, ij_error_message := Some err, ij_updated_at := now\<rparr>)"

definition close_attempt :: "int \<Rightarrow> uuid \<Rightarrow> worker \<Rightarrow> ingestion_db \<Rightarrow> ingestion_db" where
  "close_attempt now i w = update_attempts i (\<lambda>a. at_worker_id a = w) (\<lambda>a. a\<lparr>at_finished_at := Some now\<rparr>)"

definition close_failed_attempt :: "int \<Rightarrow> uuid \<Rightarrow> worker \<Rightarrow> string \<Rightarrow> ingestion_db \<Rightarrow> ingestion_db" where
  "close_failed_attempt now i w err =
     update_attempts i (\<lambda>a. at_worker_id a = w) (\<lambda>a. a\<lparr>at_finished_at := Some now, at_error_message := Some err\<rparr>)"

definition complete_ingestion_job ::
    "(uuid \<Rightarrow> string) \<Rightarrow> int \<Rightarrow> uuid \<Rightarrow> worker \<Rightarrow> ingestion_db \<Rightarrow> unit result \<times> ingestion_db" where
  "complete_ingestion_job us now i w db =
     (case complete_stmt now i w db of (hit, db') \<Rightarrow>
        if hit then (Inr (), close_attempt now i w db')
        else (Inl (''worker '' @ w @ '' does not own the current attempt for job '' @ us i
                @ '' (job may have been reclaimed); refusing to complete''), db'))"

definition fail_ingestion_job ::
    "(uuid \<Rightarrow> string) \<Rightarrow> int \<Rightarrow> uuid \<Rightarrow> worker \<Rightarrow> string \<Rightarrow> ingestion_db \<Rightarrow> unit result \<times> ingestion_db" where
  "fail_ingestion_job us now i w err db =
     (case fail_stmt now i w err db of (hit, db') \<Rightarrow>
        if hit then (Inr (), close_failed_attempt now i w err db')
        else (Inl (''worker '' @ w @ '' does not own the current attempt for job '' @ us i
                @ '' (job may have been reclaimed); refusing to mark failed''), db'))"

definition list_ingestion_jobs :: "ingestion_job_status option \<Rightarrow> nat \<Rightarrow> nat \<Rightarrow> ingestion_db \<Rightarrow> ingestion_job list" where
  "list_ingestion_jobs status limit off db =
     take limit (drop off (case status of
         Some s \<Rightarrow> sort_key claim_order (filter (\<lambda>j. ij_status j = s) (db_jobs db))
       | None \<Rightarrow> sort_key (\<lambda>j. - ij_created_at j) (db_jobs db)))"

section \<open>Steps of the tables\<close>

text \<open>
  Each statement, or transaction, is one step. The statements that close an attempt run only
  after their worker has set the job to a final state, at any later time.
\<close>

definition job_status :: "uuid \<Rightarrow> ingestion_db \<Rightarrow> ingestion_job_status option" where
  "job_status i db = map_option ij_status (get_ingestion_job i db)"

inductive ingestion_step :: "ingestion_db \<Rightarrow> ingestion_db \<Rightarrow> bool" where
  enqueue: "i \<notin> ij_id ` set (db_jobs db) \<Longrightarrow> ingestion_step db (snd (enqueue_ingestion_job i now p db))"
| claim: "ingestion_step db (snd (claim_ingestion_job now a locked w db))"
| heartbeat: "ingestion_step db (snd (heartbeat_ingestion_job now i w db))"
| running: "ingestion_step db (snd (mark_ingestion_job_running us now i w db))"
| complete: "ingestion_step db (snd (complete_stmt now i w db))"
| fail: "ingestion_step db (snd (fail_stmt now i w err db))"
| close: "job_status i db = Some IJ_Completed \<Longrightarrow> ingestion_step db (close_attempt now i w db)"
| close_failed: "job_status i db = Some IJ_Failed \<Longrightarrow> ingestion_step db (close_failed_attempt now i w err db)"

inductive ingestion_reachable :: "ingestion_db \<Rightarrow> bool" where
  init: "ingestion_reachable \<lparr>db_jobs = [], db_attempts = []\<rparr>"
| step: "ingestion_reachable db \<Longrightarrow> ingestion_step db db' \<Longrightarrow> ingestion_reachable db'"

section \<open>Invariant of the tables\<close>

text \<open>
  The attempts of a job are numbered from 1 without gaps, at most one of them is open, a pending
  job has none and a claimed or running job has an open one.
\<close>

definition numbered :: "ingestion_job_attempt list \<Rightarrow> bool" where
  "numbered as \<longleftrightarrow> map at_attempt_num as = map int [1..<Suc (length as)]"

definition att_ok :: "ingestion_job_status \<Rightarrow> ingestion_job_attempt list \<Rightarrow> bool" where
  "att_ok s as \<longleftrightarrow> numbered as \<and> length (filter unfinished as) \<le> 1
     \<and> (s = IJ_Pending \<longrightarrow> as = []) \<and> (in_hand s \<longrightarrow> filter unfinished as \<noteq> [])"

definition keys_unique :: "ingestion_job list \<Rightarrow> bool" where
  "keys_unique js \<longleftrightarrow> (\<forall>j \<in> set js. \<forall>k \<in> set js.
     ij_idempotency_key j \<noteq> None \<longrightarrow> ij_idempotency_key j = ij_idempotency_key k \<longrightarrow> ij_id j = ij_id k)"

definition db_inv :: "ingestion_db \<Rightarrow> bool" where
  "db_inv db \<longleftrightarrow> distinct (map ij_id (db_jobs db))
     \<and> (\<forall>j \<in> set (db_jobs db). att_ok (ij_status j) (attempts_of (ij_id j) db))
     \<and> (\<forall>a \<in> set (db_attempts db). at_job_id a \<in> ij_id ` set (db_jobs db))
     \<and> keys_unique (db_jobs db)"

lemma keys_unique_map:
  assumes "keys_unique js" "\<And>j. ij_id (f j) = ij_id j" "\<And>j. ij_idempotency_key (f j) = ij_idempotency_key j"
  shows "keys_unique (map f js)"
  using assms(1) by (simp add: keys_unique_def assms(2,3))

lemma keys_unique_snoc:
  assumes "keys_unique js" "\<And>j. j \<in> set js \<Longrightarrow> ij_idempotency_key x = None \<or> ij_idempotency_key j \<noteq> ij_idempotency_key x"
  shows "keys_unique (js @ [x])"
  unfolding keys_unique_def
proof (intro ballI impI)
  fix j k assume a: "j \<in> set (js @ [x])" "k \<in> set (js @ [x])" "ij_idempotency_key j \<noteq> None"
    "ij_idempotency_key j = ij_idempotency_key k"
  consider "j \<in> set js" "k \<in> set js" | "j = x" "k \<in> set js" | "j \<in> set js" "k = x" | "j = x" "k = x"
    using a(1,2) by auto
  then show "ij_id j = ij_id k"
  proof cases
    case 1
    then show ?thesis using assms(1) a(3,4) unfolding keys_unique_def by blast
  next
    case 2
    then show ?thesis using assms(2) [of k] a(3,4) by metis
  next
    case 3
    then show ?thesis using assms(2) [of j] a(3,4) by metis
  qed simp
qed

lemma update_jobs_fields [simp]:
  "db_attempts (update_jobs i g db) = db_attempts db"
  "db_jobs (update_jobs i g db) = map (\<lambda>j. if ij_id j = i then g j else j) (db_jobs db)"
  "attempts_of k (update_jobs i g db) = attempts_of k db"
  by (simp_all add: update_jobs_def attempts_of_def)

lemma update_attempts_jobs [simp]: "db_jobs (update_attempts i p g db) = db_jobs db"
  by (simp add: update_attempts_def)

lemma open_attempt_fields [simp]:
  "db_jobs (open_attempt now a w i db) = db_jobs db"
  "k \<noteq> i \<Longrightarrow> attempts_of k (open_attempt now a w i db) = attempts_of k db"
  by (simp_all add: open_attempt_def attempts_of_def new_attempt_def)

lemma attempts_of_update:
  assumes "\<And>a. at_job_id (g a) = at_job_id a"
  shows "attempts_of k (update_attempts i p g db) =
    (if k = i then map (\<lambda>a. if unfinished a \<and> p a then g a else a) (attempts_of k db) else attempts_of k db)"
proof -
  have "filter (\<lambda>a. at_job_id a = k) (map (\<lambda>a. if at_job_id a = i \<and> unfinished a \<and> p a then g a else a) as) =
    (if k = i then map (\<lambda>a. if unfinished a \<and> p a then g a else a) (filter (\<lambda>a. at_job_id a = k) as)
     else filter (\<lambda>a. at_job_id a = k) as)" for as
    by (induction as) (auto simp: assms)
  then show ?thesis by (simp add: attempts_of_def update_attempts_def)
qed

lemma job_ids_update_attempts:
  assumes "\<And>a. at_job_id (g a) = at_job_id a"
  shows "at_job_id ` set (db_attempts (update_attempts i p g db)) = at_job_id ` set (db_attempts db)"
proof -
  have "map at_job_id (db_attempts (update_attempts i p g db)) = map at_job_id (db_attempts db)"
    by (simp add: update_attempts_def assms)
  then show ?thesis by (metis set_map)
qed

text \<open>A statement that keeps ids and keys keeps the invariant when it keeps the attempts of each
  job consistent with its status.\<close>

lemma db_inv_map:
  assumes inv: "db_inv db" and jobs: "db_jobs db' = map f (db_jobs db)"
    and ids: "\<And>j. ij_id (f j) = ij_id j" and keys: "\<And>j. ij_idempotency_key (f j) = ij_idempotency_key j"
    and atts: "at_job_id ` set (db_attempts db') \<subseteq> at_job_id ` set (db_attempts db) \<union> ij_id ` set (db_jobs db)"
    and ok: "\<And>j. j \<in> set (db_jobs db) \<Longrightarrow> att_ok (ij_status j) (attempts_of (ij_id j) db) \<Longrightarrow>
           att_ok (ij_status (f j)) (attempts_of (ij_id j) db')"
  shows "db_inv db'"
  unfolding db_inv_def
proof (intro conjI)
  show "distinct (map ij_id (db_jobs db'))"
    using inv by (simp add: jobs ids comp_def db_inv_def)
  show "\<forall>j \<in> set (db_jobs db'). att_ok (ij_status j) (attempts_of (ij_id j) db')"
    using inv ok by (simp add: jobs ids db_inv_def)
  show "\<forall>a \<in> set (db_attempts db'). at_job_id a \<in> ij_id ` set (db_jobs db')"
    using inv atts by (auto simp: jobs ids image_image db_inv_def)
  show "keys_unique (db_jobs db')"
    using inv unfolding jobs db_inv_def by (intro keys_unique_map) (simp_all add: ids keys)
qed

lemma numbered_map: "(\<And>a. at_attempt_num (g a) = at_attempt_num a) \<Longrightarrow> numbered (map g as) = numbered as"
  by (simp only: numbered_def map_map comp_def length_map)

lemma numbered_snoc: "numbered as \<Longrightarrow> at_attempt_num x = int (length as) + 1 \<Longrightarrow> numbered (as @ [x])"
  by (simp add: numbered_def)

lemma att_ok_map:
  assumes "att_ok s as" "\<And>a. at_attempt_num (g a) = at_attempt_num a"
    and "\<And>a. unfinished (g a) \<Longrightarrow> unfinished a"
    and "t \<noteq> IJ_Pending \<or> s = IJ_Pending"
    and "in_hand t \<Longrightarrow> in_hand s \<and> (\<forall>a. unfinished a \<longrightarrow> unfinished (g a))"
  shows "att_ok t (map g as)"
proof -
  have "length (filter unfinished (map g as)) \<le> length (filter unfinished as)"
    unfolding filter_map length_map comp_def
    by (induction as) (auto simp: assms(3) le_SucI)
  moreover have "numbered (map g as) = numbered as" by (rule numbered_map [OF assms(2)])
  moreover have "filter unfinished (map g as) \<noteq> []" if "in_hand t"
    using assms(1,5) that by (auto simp: att_ok_def filter_empty_conv)
  ultimately show ?thesis using assms(1,4) unfolding att_ok_def by auto
qed

lemma att_ok_status:
  "att_ok s as \<Longrightarrow> (t = IJ_Pending \<longrightarrow> s = IJ_Pending) \<Longrightarrow> (in_hand t \<longrightarrow> in_hand s) \<Longrightarrow> att_ok t as"
  by (auto simp: att_ok_def)

lemma Max_attempts:
  assumes "numbered as" "as \<noteq> []"
  shows "Max (set (map at_attempt_num as)) = int (length as)"
proof -
  have "Max (int ` {1..<Suc (length as)}) = int (Max {1..<Suc (length as)})"
    using assms(2) by (subst mono_Max_commute) (auto simp: mono_def Suc_le_eq)
  also have "Max {1..<Suc (length as)} = length as"
    using assms(2) by (intro Max_eqI) (auto simp: Suc_le_eq)
  finally show ?thesis by (simp only: assms(1) [unfolded numbered_def] set_map set_upt)
qed

lemma next_attempt_num_eq:
  assumes "att_ok s (attempts_of i db)"
  shows "next_attempt_num i db = int (length (attempts_of i db)) + 1"
proof (cases "attempts_of i db")
  case (Cons a as)
  then have "Max (set (map at_attempt_num (a # as))) = int (length (a # as))"
    using assms Cons by (intro Max_attempts) (simp_all only: att_ok_def list.distinct not_False_eq_True)
  then show ?thesis by (simp only: next_attempt_num_def Cons list.case)
qed (simp add: next_attempt_num_def)

lemma snd_fenced_update:
  "snd (fenced_update i w p g db) = db \<or>
   owns_attempt i w db \<and> snd (fenced_update i w p g db) = update_jobs i (\<lambda>j. if p (ij_status j) then g j else j) db"
  by (auto simp: fenced_update_def Let_def)

lemma fenced_update_inv:
  assumes "db_inv db" "\<And>j. ij_id (g j) = ij_id j" "\<And>j. ij_idempotency_key (g j) = ij_idempotency_key j"
    and "\<And>j. p (ij_status j) \<Longrightarrow> ij_status (g j) \<noteq> IJ_Pending \<and> (in_hand (ij_status (g j)) \<longrightarrow> in_hand (ij_status j))"
  shows "db_inv (snd (fenced_update i w p g db))"
proof -
  have "db_inv (update_jobs i (\<lambda>j. if p (ij_status j) then g j else j) db)"
    using assms(2,3) by (intro db_inv_map [OF assms(1) update_jobs_fields(2)])
      (auto elim!: att_ok_status dest: assms(4))
  then show ?thesis using snd_fenced_update [of i w p g db] assms(1) by auto
qed

lemma get_ingestion_job_unique:
  assumes "distinct (map ij_id (db_jobs db))" "j \<in> set (db_jobs db)"
  shows "get_ingestion_job (ij_id j) db = Some j"
proof -
  have "get_ingestion_job (ij_id j) db \<noteq> None"
    using assms(2) by (auto simp: get_ingestion_job_def find_None_iff)
  then obtain k where k: "get_ingestion_job (ij_id j) db = Some k" by blast
  then have "k \<in> set (db_jobs db)" "ij_id k = ij_id j"
    by (auto simp: get_ingestion_job_def find_Some_iff)
  then show ?thesis using unique_row [OF assms] k by blast
qed

lemma close_inv:
  assumes "db_inv db" "job_status i db = Some s" "\<not> in_hand s"
    and "\<And>a. at_attempt_num (g a) = at_attempt_num a" "\<And>a. at_job_id (g a) = at_job_id a"
  shows "db_inv (update_attempts i p g db)"
proof (rule db_inv_map [where f = "\<lambda>j. j", OF assms(1)])
  fix j assume j: "j \<in> set (db_jobs db)" "att_ok (ij_status j) (attempts_of (ij_id j) db)"
  have "ij_id j = i \<Longrightarrow> ij_status j = s"
    using get_ingestion_job_unique [OF _ j(1)] assms(1,2) by (auto simp: job_status_def db_inv_def)
  then show "att_ok (ij_status j) (attempts_of (ij_id j) (update_attempts i p g db))"
    using j(2) assms(3) by (auto simp: attempts_of_update assms(4,5) intro!: att_ok_map [OF j(2)] split: if_splits)
qed (auto simp: job_ids_update_attempts assms(5))

lemma enqueue_inv:
  assumes "db_inv db" "i \<notin> ij_id ` set (db_jobs db)"
  shows "db_inv (snd (enqueue_ingestion_job i now p db))"
proof -
  let ?db = "db\<lparr>db_jobs := db_jobs db @ [new_job i now p]\<rparr>"
  have att: "attempts_of k ?db = attempts_of k db" for k by (simp add: attempts_of_def)
  have none: "attempts_of i db = []"
    using assms by (auto simp: db_inv_def attempts_of_def filter_empty_conv)
  have new: "att_ok IJ_Pending []" by (simp add: att_ok_def numbered_def in_hand_def)
  have ins: "db_inv ?db" if free: "\<forall>j \<in> set (db_jobs db). ep_idempotency_key p = None \<or> ij_idempotency_key j \<noteq> ep_idempotency_key p"
    unfolding db_inv_def att
  proof (intro conjI)
    show "\<forall>j \<in> set (db_jobs ?db). att_ok (ij_status j) (attempts_of (ij_id j) db)"
      using assms(1) none new by (simp add: db_inv_def new_job_def)
    show "distinct (map ij_id (db_jobs ?db))" using assms by (simp add: db_inv_def new_job_def)
    show "\<forall>a \<in> set (db_attempts ?db). at_job_id a \<in> ij_id ` set (db_jobs ?db)"
      using assms(1) by (simp add: db_inv_def)
    show "keys_unique (db_jobs ?db)"
      using assms(1) free unfolding db_inv_def
      by (auto simp: new_job_def intro!: keys_unique_snoc)
  qed
  show ?thesis
    using ins assms(1) by (auto simp: enqueue_ingestion_job_def Let_def find_None_iff split: option.split)
qed

abbreviation opens :: "uuid \<Rightarrow> ingestion_db \<Rightarrow> ingestion_job_attempt list" where
  "opens i db \<equiv> filter unfinished (attempts_of i db)"

lemma opens_le_1:
  assumes "db_inv db"
  shows "length (opens i db) \<le> 1"
proof (cases "i \<in> ij_id ` set (db_jobs db)")
  case True
  then show ?thesis using assms by (auto simp: db_inv_def att_ok_def)
next
  case False
  then have "attempts_of i db = []"
    using assms by (auto simp: db_inv_def attempts_of_def filter_empty_conv)
  then show ?thesis by simp
qed

lemma claim_selected_fields:
  "db_jobs (claim_selected now a w i db) =
     map (\<lambda>j. if ij_id j = i then j\<lparr>ij_status := IJ_Claimed, ij_updated_at := now\<rparr> else j) (db_jobs db)"
  "k \<noteq> i \<Longrightarrow> attempts_of k (claim_selected now a w i db) = attempts_of k db"
  by (simp_all add: claim_selected_def attempts_of_update reclaim_attempt_def)

lemma claim_selected_attempts:
  assumes "att_ok s (attempts_of i db)"
  shows "attempts_of i (claim_selected now a w i db) =
    map (\<lambda>t. if unfinished t then reclaim_attempt now t else t) (attempts_of i db)
      @ [new_attempt now a w i (int (length (attempts_of i db)) + 1)]"
proof -
  let ?f = "\<lambda>t. if unfinished t then reclaim_attempt now t else t"
  let ?db = "update_jobs i (\<lambda>j. j\<lparr>ij_status := IJ_Claimed, ij_updated_at := now\<rparr>)
    (update_attempts i (\<lambda>_. True) (reclaim_attempt now) db)"
  have att: "attempts_of i ?db = map ?f (attempts_of i db)"
    by (simp add: attempts_of_update reclaim_attempt_def)
  have "att_ok IJ_Completed (attempts_of i ?db)"
    unfolding att by (rule att_ok_map [OF assms]) (auto simp: in_hand_def reclaim_attempt_def split: if_splits)
  then have n: "next_attempt_num i ?db = int (length (attempts_of i db)) + 1"
    using next_attempt_num_eq [of _ i ?db] att by simp
  have "attempts_of i (open_attempt now a w i ?db) = attempts_of i ?db @ [new_attempt now a w i (next_attempt_num i ?db)]"
    by (simp add: open_attempt_def attempts_of_def new_attempt_def)
  then show ?thesis by (simp only: claim_selected_def att n)
qed

lemma claim_selected_opens:
  assumes "att_ok s (attempts_of i db)"
  shows "opens i (claim_selected now a w i db) = [new_attempt now a w i (int (length (attempts_of i db)) + 1)]"
proof -
  have "filter unfinished (map (\<lambda>t. if unfinished t then reclaim_attempt now t else t) as) = []" for as
    by (auto simp: filter_empty_conv reclaim_attempt_def)
  then show ?thesis unfolding claim_selected_attempts [OF assms] by (simp add: new_attempt_def)
qed

lemma claim_selected_att_ok:
  assumes "att_ok s (attempts_of i db)"
  shows "att_ok IJ_Claimed (attempts_of i (claim_selected now a w i db))"
proof -
  have "numbered (map (\<lambda>t. if unfinished t then reclaim_attempt now t else t) (attempts_of i db))"
    by (subst numbered_map) (use assms in \<open>simp_all add: reclaim_attempt_def att_ok_def\<close>)
  then have "numbered (attempts_of i (claim_selected now a w i db))"
    unfolding claim_selected_attempts [OF assms] by (rule numbered_snoc) (simp add: new_attempt_def)
  then show ?thesis using claim_selected_opens [OF assms] by (simp add: att_ok_def)
qed

lemma claim_selected_inv:
  assumes "db_inv db" "i \<in> ij_id ` set (db_jobs db)"
  shows "db_inv (claim_selected now a w i db)"
proof (rule db_inv_map [OF assms(1) claim_selected_fields(1)])
  fix j assume j: "j \<in> set (db_jobs db)" "att_ok (ij_status j) (attempts_of (ij_id j) db)"
  show "att_ok (ij_status (if ij_id j = i then j\<lparr>ij_status := IJ_Claimed, ij_updated_at := now\<rparr> else j))
      (attempts_of (ij_id j) (claim_selected now a w i db))"
    using j claim_selected_att_ok [of "ij_status j" i db now a w] by (auto simp: claim_selected_fields(2))
next
  show "at_job_id ` set (db_attempts (claim_selected now a w i db)) \<subseteq>
      at_job_id ` set (db_attempts db) \<union> ij_id ` set (db_jobs db)"
    using assms(2) by (auto simp: claim_selected_def open_attempt_def update_attempts_def
        new_attempt_def reclaim_attempt_def split: if_splits)
qed auto

lemma claim_inv:
  assumes "db_inv db"
  shows "db_inv (snd (claim_ingestion_job now a locked w db))"
proof (cases "select_first claim_order locked (job_claimable now db) (db_jobs db)")
  case (Some j)
  then show ?thesis
    using claim_selected_inv [OF assms, of "ij_id j"] select_first_Some(1) [OF Some]
    by (simp add: claim_ingestion_job_def Let_def)
qed (simp add: claim_ingestion_job_def assms)

lemma heartbeat_inv:
  assumes "db_inv db"
  shows "db_inv (snd (heartbeat_ingestion_job now i w db))"
proof -
  let ?db = "snd (heartbeat_ingestion_job now i w db)"
  have db': "?db = update_attempts i (\<lambda>a. at_worker_id a = w) (\<lambda>a. a\<lparr>at_heartbeat_at := now\<rparr>)
      (update_jobs i (\<lambda>j. j\<lparr>ij_updated_at := now\<rparr>) db)" by (simp add: heartbeat_ingestion_job_def Let_def)
  show ?thesis
  proof (rule db_inv_map [where f = "\<lambda>j. if ij_id j = i then j\<lparr>ij_updated_at := now\<rparr> else j", OF assms])
    show "db_jobs ?db = map (\<lambda>j. if ij_id j = i then j\<lparr>ij_updated_at := now\<rparr> else j) (db_jobs db)"
      unfolding db' by simp
    show "at_job_id ` set (db_attempts ?db) \<subseteq> at_job_id ` set (db_attempts db) \<union> ij_id ` set (db_jobs db)"
      unfolding db' by (simp add: job_ids_update_attempts)
    fix j assume "att_ok (ij_status j) (attempts_of (ij_id j) db)"
    then show "att_ok (ij_status (if ij_id j = i then j\<lparr>ij_updated_at := now\<rparr> else j)) (attempts_of (ij_id j) ?db)"
      unfolding db' by (auto simp: attempts_of_update intro!: att_ok_map split: if_splits)
  qed auto
qed

lemma stmt_inv:
  assumes "db_inv db"
  shows "db_inv (snd (mark_ingestion_job_running us now i w db))" "db_inv (snd (complete_stmt now i w db))"
    "db_inv (snd (fail_stmt now i w err db))"
  unfolding mark_ingestion_job_running_def complete_stmt_def fail_stmt_def snd_affected_or
  by (rule fenced_update_inv [OF assms]; simp add: in_hand_def)+

lemma ingestion_step_inv: "ingestion_step db db' \<Longrightarrow> db_inv db \<Longrightarrow> db_inv db'"
proof (induction rule: ingestion_step.induct)
  case (close i db now w)
  then show ?case unfolding close_attempt_def by (intro close_inv [OF close(2,1)]) (simp_all add: in_hand_def)
next
  case (close_failed i db now w err)
  then show ?case unfolding close_failed_attempt_def by (intro close_inv [OF close_failed(2,1)]) (simp_all add: in_hand_def)
qed (blast intro: enqueue_inv claim_inv heartbeat_inv stmt_inv)+

lemma ingestion_reachable_inv: "ingestion_reachable db \<Longrightarrow> db_inv db"
proof (induction rule: ingestion_reachable.induct)
  case init
  show ?case by (simp add: db_inv_def keys_unique_def)
qed (blast dest: ingestion_step_inv)

section \<open>The lease of a job\<close>

text \<open>The operations of one job, seen as a lease: \<open>None\<close> is a refusal.\<close>

definition job_holder :: "uuid \<Rightarrow> ingestion_db \<Rightarrow> worker option" where
  "job_holder i db = (case opens i db of [] \<Rightarrow> None | a # _ \<Rightarrow> Some (at_worker_id a))"

definition job_beat :: "uuid \<Rightarrow> ingestion_db \<Rightarrow> int option" where
  "job_beat i db = (case opens i db of [] \<Rightarrow> None | a # _ \<Rightarrow> Some (at_heartbeat_at a))"

definition job_open :: "uuid \<Rightarrow> ingestion_db \<Rightarrow> bool" where
  "job_open i db \<longleftrightarrow> list_ex (\<lambda>j. ij_id j = i \<and> (ij_status j = IJ_Pending \<or> in_hand (ij_status j))) (db_jobs db)"

definition claim_job :: "uuid \<Rightarrow> uuid \<Rightarrow> int \<Rightarrow> worker \<Rightarrow> ingestion_db \<Rightarrow> ingestion_db option" where
  "claim_job i a now w db =
     (if list_ex (\<lambda>j. ij_id j = i \<and> job_claimable now db j) (db_jobs db)
      then Some (claim_selected now a w i db) else None)"

definition beat_job :: "uuid \<Rightarrow> int \<Rightarrow> worker \<Rightarrow> ingestion_db \<Rightarrow> ingestion_db option" where
  "beat_job i now w db =
     (if fst (heartbeat_ingestion_job now i w db) then Some (snd (heartbeat_ingestion_job now i w db)) else None)"

datatype job_work = JW_Running | JW_Complete | JW_Fail string

definition accepted :: "unit result \<times> 'a \<Rightarrow> 'a option" where
  "accepted r = (case r of (Inr _, x) \<Rightarrow> Some x | (Inl _, _) \<Rightarrow> None)"

fun work_job :: "(uuid \<Rightarrow> string) \<Rightarrow> uuid \<Rightarrow> job_work \<Rightarrow> int \<Rightarrow> worker \<Rightarrow> ingestion_db \<Rightarrow> ingestion_db option" where
  "work_job us i JW_Running now w db = accepted (mark_ingestion_job_running us now i w db)"
| "work_job us i JW_Complete now w db = accepted (complete_ingestion_job us now i w db)"
| "work_job us i (JW_Fail err) now w db = accepted (fail_ingestion_job us now i w err db)"

lemma opens_cases:
  assumes "db_inv db"
  obtains "opens i db = []" | a where "opens i db = [a]"
  using opens_le_1 [OF assms, of i] by (cases "opens i db") auto

lemma owns_attempt_opens: "owns_attempt i w db \<longleftrightarrow> (\<exists>a \<in> set (opens i db). at_worker_id a = w)"
  by (auto simp: owns_attempt_def list_ex_iff attempts_of_def)

lemma owns_iff_holder: "db_inv db \<Longrightarrow> owns_attempt i w db \<longleftrightarrow> job_holder i db = Some w"
  by (erule opens_cases [of db i]) (auto simp: owns_attempt_opens job_holder_def)

lemma owns_update_jobs [simp]: "owns_attempt i w (update_jobs k g db) = owns_attempt i w db"
  by (simp add: owns_attempt_def)

lemma opens_update_jobs [simp]: "job_holder k (update_jobs i g db) = job_holder k db" "job_beat k (update_jobs i g db) = job_beat k db"
  by (simp_all add: job_holder_def job_beat_def)

lemma fenced_update_holder [simp]:
  "job_holder k (snd (fenced_update i w p g db)) = job_holder k db"
  "job_beat k (snd (fenced_update i w p g db)) = job_beat k db"
  "attempts_of k (snd (fenced_update i w p g db)) = attempts_of k db"
  using snd_fenced_update [of i w p g db] by auto

lemma fst_fenced_update:
  "fst (fenced_update i w p g db) \<longleftrightarrow>
     owns_attempt i w db \<and> (\<exists>j \<in> set (db_jobs db). ij_id j = i \<and> p (ij_status j))"
  by (auto simp: fenced_update_def Let_def list_ex_iff)

lemma heartbeat_opens:
  assumes "db_inv db" "job_holder i db = Some w"
  shows "job_holder i (snd (heartbeat_ingestion_job now i w db)) = Some w
    \<and> job_beat i (snd (heartbeat_ingestion_job now i w db)) = Some now"
proof -
  let ?g = "\<lambda>a. if at_worker_id a = w then a\<lparr>at_heartbeat_at := now\<rparr> else a"
  have "filter unfinished (map (\<lambda>a. if unfinished a \<and> at_worker_id a = w then a\<lparr>at_heartbeat_at := now\<rparr> else a) as)
      = map ?g (filter unfinished as)" for as by (induction as) auto
  then have "opens i (snd (heartbeat_ingestion_job now i w db)) = map ?g (opens i db)"
    by (simp add: heartbeat_ingestion_job_def Let_def attempts_of_update)
  then show ?thesis using assms
    by (cases rule: opens_cases [OF assms(1), of i]) (simp_all add: job_holder_def job_beat_def)
qed

lemma close_holder:
  assumes "db_inv db" "job_holder i db = Some w" "\<And>a. at_job_id (g a) = at_job_id a"
    and "\<And>a. at_finished_at (g a) \<noteq> None"
  shows "job_holder i (update_attempts i (\<lambda>a. at_worker_id a = w) g db) = None"
proof -
  have "filter unfinished (map (\<lambda>a. if unfinished a \<and> at_worker_id a = w then g a else a) as)
      = filter (\<lambda>a. at_worker_id a \<noteq> w) (filter unfinished as)" for as
    using assms(4) by (induction as) auto
  then have "opens i (update_attempts i (\<lambda>a. at_worker_id a = w) g db) = filter (\<lambda>a. at_worker_id a \<noteq> w) (opens i db)"
    by (simp add: attempts_of_update [OF assms(3)])
  then show ?thesis using assms(2)
    by (cases rule: opens_cases [OF assms(1), of i]) (simp_all add: job_holder_def)
qed

lemma fenced_update_status:
  assumes "db_inv db" "fst (fenced_update i w p g db)"
    and "\<And>j. ij_id (g j) = ij_id j" "\<And>j. ij_status (g j) = s"
  shows "job_status i (snd (fenced_update i w p g db)) = Some s"
proof -
  obtain j where j: "j \<in> set (db_jobs db)" "ij_id j = i" "p (ij_status j)" and o: "owns_attempt i w db"
    using assms(2) by (auto simp: fst_fenced_update)
  let ?f = "\<lambda>j. if ij_id j = i then if p (ij_status j) then g j else j else j"
  have db': "snd (fenced_update i w p g db) = update_jobs i (\<lambda>j. if p (ij_status j) then g j else j) db"
    using j o by (auto simp: fenced_update_def Let_def list_ex_iff)
  have "?f j \<in> ?f ` set (db_jobs db)" using j(1) by (rule imageI)
  then have mem: "g j \<in> set (db_jobs (snd (fenced_update i w p g db)))" using j(2,3) by (simp add: db')
  have "map ij_id (db_jobs (snd (fenced_update i w p g db))) = map ij_id (db_jobs db)"
    by (simp add: db' assms(3))
  then have "distinct (map ij_id (db_jobs (snd (fenced_update i w p g db))))"
    using assms(1) by (simp only: db_inv_def)
  from get_ingestion_job_unique [OF this mem] show ?thesis by (simp add: job_status_def assms(3,4) j(2))
qed

lemma complete_accepted:
  assumes "db_inv db" "accepted (complete_ingestion_job us now i w db) = Some db'"
  shows "job_holder i db = Some w \<and> db_inv db' \<and> job_holder i db' = None"
proof -
  let ?d = "snd (complete_stmt now i w db)"
  have hit: "fst (complete_stmt now i w db)" and db': "db' = close_attempt now i w ?d"
    using assms(2) by (auto simp: accepted_def complete_ingestion_job_def split: prod.splits if_splits)
  have h: "job_holder i db = Some w"
    using hit assms(1) by (simp add: complete_stmt_def fst_fenced_update owns_iff_holder)
  have "job_status i ?d = Some IJ_Completed"
    unfolding complete_stmt_def by (rule fenced_update_status) (use assms(1) hit in \<open>simp_all add: complete_stmt_def\<close>)
  then have "ingestion_step ?d db'" unfolding db' by (rule ingestion_step.close)
  then have "db_inv db'" using ingestion_step_inv stmt_inv(2) [OF assms(1)] by blast
  moreover have "job_holder i db' = None"
    unfolding db' close_attempt_def
    by (rule close_holder [OF stmt_inv(2) [OF assms(1)]]) (simp_all add: complete_stmt_def h)
  ultimately show ?thesis using h by blast
qed

lemma fail_accepted:
  assumes "db_inv db" "accepted (fail_ingestion_job us now i w err db) = Some db'"
  shows "job_holder i db = Some w \<and> db_inv db' \<and> job_holder i db' = None"
proof -
  let ?d = "snd (fail_stmt now i w err db)"
  have hit: "fst (fail_stmt now i w err db)" and db': "db' = close_failed_attempt now i w err ?d"
    using assms(2) by (auto simp: accepted_def fail_ingestion_job_def split: prod.splits if_splits)
  have h: "job_holder i db = Some w"
    using hit assms(1) by (simp add: fail_stmt_def fst_fenced_update owns_iff_holder)
  have "job_status i ?d = Some IJ_Failed"
    unfolding fail_stmt_def by (rule fenced_update_status) (use assms(1) hit in \<open>simp_all add: fail_stmt_def\<close>)
  then have "ingestion_step ?d db'" unfolding db' by (rule ingestion_step.close_failed)
  then have "db_inv db'" using ingestion_step_inv stmt_inv(3) [OF assms(1)] by blast
  moreover have "job_holder i db' = None"
    unfolding db' close_failed_attempt_def
    by (rule close_holder [OF stmt_inv(3) [OF assms(1)]]) (simp_all add: fail_stmt_def h)
  ultimately show ?thesis using h by blast
qed

lemma running_accepted:
  assumes "db_inv db" "accepted (mark_ingestion_job_running us now i w db) = Some db'"
  shows "job_holder i db = Some w \<and> db_inv db' \<and> job_holder i db' = Some w \<and> job_beat i db' = job_beat i db"
proof -
  have hit: "owns_attempt i w db" and db': "db' = snd (mark_ingestion_job_running us now i w db)"
    using assms(2) unfolding accepted_def mark_ingestion_job_running_def
    by (auto simp: affected_or_def fst_fenced_update split: if_splits)
  then have "job_holder i db = Some w" using owns_iff_holder [OF assms(1)] by simp
  then show ?thesis using stmt_inv(1) [OF assms(1), of us now i w]
    unfolding db' by (simp add: mark_ingestion_job_running_def)
qed

lemma claimable_opens:
  "job_claimable now db j \<longleftrightarrow> ij_status j = IJ_Pending
     \<or> in_hand (ij_status j) \<and> (\<forall>a \<in> set (opens (ij_id j) db). at_heartbeat_at a \<le> now - STALE_JOB_THRESHOLD)"
  by (auto simp: job_claimable_def list_ex_iff attempts_of_def)

lemma job_att_ok: "db_inv db \<Longrightarrow> j \<in> set (db_jobs db) \<Longrightarrow> att_ok (ij_status j) (attempts_of (ij_id j) db)"
  by (simp add: db_inv_def)

lemma job_unique: "db_inv db \<Longrightarrow> j \<in> set (db_jobs db) \<Longrightarrow> k \<in> set (db_jobs db) \<Longrightarrow> ij_id k = ij_id j \<Longrightarrow> k = j"
  unfolding db_inv_def by (blast intro: unique_row)

lemma claim_job_Some:
  assumes "claim_job i a now w db = Some db'"
  obtains j where "j \<in> set (db_jobs db)" "ij_id j = i" "job_claimable now db j" "db' = claim_selected now a w i db"
  using assms by (auto simp: claim_job_def list_ex_iff split: if_splits)

lemma claim_job_iff:
  "claim_job i a now w db \<noteq> None \<longleftrightarrow> (\<exists>j \<in> set (db_jobs db). ij_id j = i \<and> job_claimable now db j)"
  by (auto simp: claim_job_def list_ex_iff)

lemma job_openE:
  assumes "job_open i db"
  obtains j where "j \<in> set (db_jobs db)" "ij_id j = i" "ij_status j = IJ_Pending \<or> in_hand (ij_status j)"
  using assms by (auto simp: job_open_def list_ex_iff)

lemma stale_claimable:
  assumes "job_open i db" "\<forall>b \<in> set (opens i db). at_heartbeat_at b \<le> now - STALE_JOB_THRESHOLD"
  shows "claim_job i a now w db \<noteq> None"
  using assms(1)
proof (rule job_openE)
  fix j assume "j \<in> set (db_jobs db)" "ij_id j = i" "ij_status j = IJ_Pending \<or> in_hand (ij_status j)"
  then show ?thesis using assms(2) unfolding claim_job_iff claimable_opens by blast
qed

lemma claim_job_holder:
  assumes "db_inv db" "j \<in> set (db_jobs db)"
  shows "job_holder (ij_id j) (claim_selected now a w (ij_id j) db) = Some w"
    "job_beat (ij_id j) (claim_selected now a w (ij_id j) db) = Some now"
  unfolding job_holder_def job_beat_def claim_selected_opens [OF job_att_ok [OF assms]]
  by (simp_all add: new_attempt_def)

lemma fresh_not_claimable:
  assumes "db_inv db" "job_beat (ij_id j) db = Some t" "now < t + STALE_JOB_THRESHOLD" "j \<in> set (db_jobs db)"
  shows "\<not> job_claimable now db j"
proof -
  obtain b where b: "opens (ij_id j) db = [b]" "at_heartbeat_at b = t"
    using assms(2) by (cases rule: opens_cases [OF assms(1), of "ij_id j"]) (auto simp: job_beat_def)
  then have "ij_status j \<noteq> IJ_Pending" using job_att_ok [OF assms(1,4)] by (auto simp: att_ok_def)
  then show ?thesis using b assms(3) by (simp add: claimable_opens)
qed

interpretation jl: lease db_inv "job_holder i" "job_beat i" "job_open i"
    "claim_job i a" "beat_job i" "work_job us i" for i a us
proof
  fix r r' :: ingestion_db and now t :: int and v w :: worker and f :: job_work
  show "db_inv r \<Longrightarrow> job_holder i r = Some v \<Longrightarrow> \<exists>t. job_beat i r = Some t"
    by (auto simp: job_holder_def job_beat_def split: list.splits)
  show "db_inv r' \<and> job_holder i r' = Some w \<and> job_beat i r' = Some now"
    if "db_inv r" "claim_job i a now w r = Some r'"
    using that(2) by (rule claim_job_Some) (use that(1) claim_job_holder claim_selected_inv in auto)
  show "claim_job i a now w r \<noteq> None" if "db_inv r" "job_open i r" "job_holder i r = None"
  proof -
    have "opens i r = []" using that(3) by (simp add: job_holder_def split: list.splits)
    then show ?thesis by (intro stale_claimable [OF that(2)]) simp
  qed
  show "claim_job i a now w r \<noteq> None"
    if "db_inv r" "job_open i r" "job_beat i r = Some t" "t + STALE_JOB_THRESHOLD < now"
  proof -
    have "\<forall>b \<in> set (opens i r). at_heartbeat_at b \<le> now - STALE_JOB_THRESHOLD"
      using that(3,4) by (cases rule: opens_cases [OF that(1), of i]) (simp_all add: job_beat_def)
    then show ?thesis by (rule stale_claimable [OF that(2)])
  qed
  show "claim_job i a now w r = None"
    if "db_inv r" "job_holder i r = Some v" "job_beat i r = Some t" "now < t + STALE_JOB_THRESHOLD"
    using fresh_not_claimable [OF that(1) _ that(4)] that(3) claim_job_iff [of i a now w r]
    by (cases "claim_job i a now w r") auto
  show "job_holder i r = Some w \<and> db_inv r' \<and> job_holder i r' = Some w \<and> job_beat i r' = Some now"
    if "db_inv r" "beat_job i now w r = Some r'"
  proof -
    have "owns_attempt i w r" "r' = snd (heartbeat_ingestion_job now i w r)"
      using that(2) by (simp_all add: beat_job_def heartbeat_ingestion_job_def Let_def split: if_splits)
    then show ?thesis using heartbeat_inv heartbeat_opens owns_iff_holder that(1) by blast
  qed
  show "beat_job i now w r \<noteq> None" if "db_inv r" "job_holder i r = Some w"
    using that owns_iff_holder by (simp add: beat_job_def heartbeat_ingestion_job_def Let_def)
  show "job_holder i r = Some w \<and> db_inv r'
      \<and> (job_holder i r' = None \<or> job_holder i r' = Some w \<and> job_beat i r' = job_beat i r)"
    if "db_inv r" "work_job us i f now w r = Some r'"
  proof (cases f)
    case JW_Running
    then show ?thesis using running_accepted [OF that(1), of us now i w r'] that(2) by simp
  next
    case JW_Complete
    then show ?thesis using complete_accepted [OF that(1), of us now i w r'] that(2) by simp
  next
    case (JW_Fail err)
    then show ?thesis using fail_accepted [OF that(1), of us now i w err r'] that(2) by simp
  qed
qed

section \<open>Properties\<close>

text \<open>
  C31. Attempts are consistent with jobs in every reachable state, also between the two statements
  that finish a job: the attempts of a job are numbered 1, 2, .. in the order of the claims, at
  most one of them is unfinished, a pending job has no attempt, and a claimed or running job has
  exactly one unfinished attempt.
\<close>

theorem ingestion_attempts_sound:
  assumes "ingestion_reachable db" "j \<in> set (db_jobs db)"
  shows "map at_attempt_num (attempts_of (ij_id j) db) = map int [1..<Suc (length (attempts_of (ij_id j) db))]
    \<and> length (filter (\<lambda>a. at_finished_at a = None) (attempts_of (ij_id j) db)) \<le> 1
    \<and> (ij_status j = IJ_Pending \<longrightarrow> attempts_of (ij_id j) db = [])
    \<and> (ij_status j = IJ_Claimed \<or> ij_status j = IJ_Running \<longrightarrow>
         length (filter (\<lambda>a. at_finished_at a = None) (attempts_of (ij_id j) db)) = 1)"
proof -
  have "att_ok (ij_status j) (attempts_of (ij_id j) db)"
    using job_att_ok [OF ingestion_reachable_inv] assms by blast
  then show ?thesis unfolding att_ok_def numbered_def in_hand_def
    by (cases "opens (ij_id j) db") auto
qed

text \<open>An example: one job, enqueued and claimed by the worker \<open>a\<close>.\<close>

definition sample_params :: enqueue_params where
  "sample_params = \<lparr>ep_target_id = None, ep_network = ''solana-mainnet'', ep_mode = IJM_Incremental,
     ep_priority = 0, ep_idempotency_key = Some ''k'', ep_requested_by = None, ep_callback_url = None\<rparr>"

definition sample_queue :: ingestion_db where
  "sample_queue = snd (enqueue_ingestion_job 7 0 sample_params \<lparr>db_jobs = [], db_attempts = []\<rparr>)"

definition sample_db :: ingestion_db where
  "sample_db = snd (claim_ingestion_job 0 8 (\<lambda>_. False) ''a'' sample_queue)"

lemma sample_queue_eq: "sample_queue = \<lparr>db_jobs = [new_job 7 0 sample_params], db_attempts = []\<rparr>"
  by (simp add: sample_queue_def enqueue_ingestion_job_def sample_params_def Let_def)

lemma sample_queue_reachable: "ingestion_reachable sample_queue"
  unfolding sample_queue_def
  by (rule ingestion_reachable.step [OF ingestion_reachable.init ingestion_step.enqueue]) simp

lemma sample_db_reachable: "ingestion_reachable sample_db"
  unfolding sample_db_def by (rule ingestion_reachable.step [OF sample_queue_reachable ingestion_step.claim])

lemma sample_db_eq:
  "sample_db = \<lparr>db_jobs = [(new_job 7 0 sample_params)\<lparr>ij_status := IJ_Claimed\<rparr>],
     db_attempts = [new_attempt 0 8 ''a'' 7 1]\<rparr>"
  by (simp add: sample_db_def sample_queue_eq claim_ingestion_job_def select_first_def job_claimable_def
      new_job_def claim_selected_def update_jobs_def update_attempts_def open_attempt_def
      next_attempt_num_def attempts_of_def Let_def)

theorem ingestion_attempts_sound_witness:
  "length (filter (\<lambda>a. at_finished_at a = None) (attempts_of 7 sample_db)) = 1"
  using ingestion_attempts_sound [OF sample_db_reachable, of "hd (db_jobs sample_db)"]
  by (simp add: sample_db_eq new_job_def)

text \<open>
  A claim takes the job with the highest priority, and among those the oldest, of the jobs
  that are pending or abandoned and not locked by a concurrent claim. The worker becomes the
  holder of a fresh attempt of that job, any open attempt of a former worker is closed, and the
  rows and attempts of all other jobs are as before. Nothing is returned only when every claimable
  job is locked.
\<close>

theorem claim_ingestion_job_priority:
  assumes "ingestion_reachable db" "(res, db') = claim_ingestion_job now a locked w db"
  shows "case res of
      None \<Rightarrow> db' = db \<and> (\<forall>j \<in> set (db_jobs db). job_claimable now db j \<longrightarrow> locked j)
    | Some job \<Rightarrow> job \<in> set (db_jobs db') \<and> ij_status job = IJ_Claimed
        \<and> (\<exists>j \<in> set (db_jobs db). ij_id j = ij_id job \<and> job_claimable now db j \<and> \<not> locked j
             \<and> (\<forall>q \<in> set (db_jobs db). job_claimable now db q \<longrightarrow> \<not> locked q \<longrightarrow>
                  ij_priority q < ij_priority j
                  \<or> ij_priority q = ij_priority j \<and> ij_created_at j \<le> ij_created_at q))
        \<and> filter (\<lambda>t. at_finished_at t = None) (attempts_of (ij_id job) db') =
            [new_attempt now a w (ij_id job) (int (length (attempts_of (ij_id job) db)) + 1)]
        \<and> (\<forall>q \<in> set (db_jobs db). ij_id q \<noteq> ij_id job \<longrightarrow>
             q \<in> set (db_jobs db') \<and> attempts_of (ij_id q) db' = attempts_of (ij_id q) db)"
proof (cases "select_first claim_order locked (job_claimable now db) (db_jobs db)")
  case None
  then have "res = None" "db' = db" using assms(2) by (simp_all add: claim_ingestion_job_def)
  with None show ?thesis by (simp add: select_first_None_iff)
next
  case (Some j)
  note sel = select_first_Some [OF Some]
  have inv: "db_inv db" by (rule ingestion_reachable_inv [OF assms(1)])
  let ?i = "ij_id j" and ?job = "j\<lparr>ij_status := IJ_Claimed, ij_updated_at := now\<rparr>"
  have db': "db' = claim_selected now a w ?i db"
    and res: "res = map_option (\<lambda>j. j\<lparr>ij_status := IJ_Claimed\<rparr>) (get_ingestion_job ?i db')"
    using assms(2) Some by (simp_all add: claim_ingestion_job_def Let_def)
  have inv': "db_inv db'" unfolding db' using sel(1) by (intro claim_selected_inv [OF inv]) blast
  have mem: "?job \<in> set (db_jobs db')" using sel(1) unfolding db' claim_selected_fields by force
  have "get_ingestion_job ?i db' = Some ?job"
    using get_ingestion_job_unique [OF _ mem] inv' by (simp add: db_inv_def)
  then have res: "res = Some ?job" unfolding res by simp
  have order: "ij_priority q < ij_priority j \<or> ij_priority q = ij_priority j \<and> ij_created_at j \<le> ij_created_at q"
    if "q \<in> set (db_jobs db)" "job_claimable now db q" "\<not> locked q" for q
    using sel(4) [OF that] by (auto simp: claim_order_def)
  have others: "q \<in> set (db_jobs db') \<and> attempts_of (ij_id q) db' = attempts_of (ij_id q) db"
    if "q \<in> set (db_jobs db)" "ij_id q \<noteq> ?i" for q
    using that unfolding db' claim_selected_fields by (force simp: claim_selected_fields(2))
  have "opens ?i db' = [new_attempt now a w ?i (int (length (attempts_of ?i db)) + 1)]"
    unfolding db' by (rule claim_selected_opens [OF job_att_ok [OF inv sel(1)]])
  then show ?thesis using res mem sel order others by auto
qed

theorem claim_ingestion_job_priority_witness:
  "case fst (claim_ingestion_job 5 9 (\<lambda>_. False) ''b'' sample_queue) of
     None \<Rightarrow> False | Some job \<Rightarrow> ij_status job = IJ_Claimed"
proof -
  have "job_claimable 5 sample_queue (hd (db_jobs sample_queue))" "db_jobs sample_queue \<noteq> []"
    by (simp_all add: sample_queue_eq job_claimable_def new_job_def)
  then show ?thesis
    using claim_ingestion_job_priority [OF sample_queue_reachable prod.collapse, of 5 9 "\<lambda>_. False" "''b''"]
    by (auto split: option.splits)
qed

text \<open>What no statement changes: the id and the key of a job, and the outcome of a finished job.\<close>

definition is_final :: "ingestion_job_status \<Rightarrow> bool" where
  "is_final s \<longleftrightarrow> s \<noteq> IJ_Pending \<and> \<not> in_hand s"

definition job_kept :: "ingestion_job \<Rightarrow> ingestion_job \<Rightarrow> bool" where
  "job_kept j k \<longleftrightarrow> ij_id k = ij_id j \<and> ij_idempotency_key k = ij_idempotency_key j
     \<and> (is_final (ij_status j) \<longrightarrow> k = j\<lparr>ij_updated_at := ij_updated_at k\<rparr>)"

lemma job_kept_refl [simp]: "job_kept j j"
  by (simp add: job_kept_def)

lemma job_kept_same: "j \<in> set js \<Longrightarrow> \<exists>k \<in> set js. job_kept j k"
  by (rule bexI [of _ j]) simp_all

lemma job_kept_trans: "job_kept j k \<Longrightarrow> job_kept k l \<Longrightarrow> job_kept j l"
proof -
  assume a: "job_kept j k" "job_kept k l"
  have "l = j\<lparr>ij_updated_at := ij_updated_at l\<rparr>" if f: "is_final (ij_status j)"
  proof -
    have k: "k = j\<lparr>ij_updated_at := ij_updated_at k\<rparr>" using a(1) f by (simp add: job_kept_def)
    then have "ij_status k = ij_status j" by (metis ingestion_job.ext_inject ingestion_job.surjective ingestion_job.update_convs(12))
    then have "l = k\<lparr>ij_updated_at := ij_updated_at l\<rparr>" using a(2) f by (simp add: job_kept_def)
    then show ?thesis using k by (metis ingestion_job.ext_inject ingestion_job.surjective ingestion_job.update_convs(12))
  qed
  then show ?thesis using a by (simp add: job_kept_def)
qed

lemma kept_mapped:
  assumes "j \<in> set js" "job_kept j (f j)"
  shows "\<exists>k \<in> set (map f js). job_kept j k"
  using assms by auto

lemma kept_fenced:
  assumes "j \<in> set (db_jobs db)" "\<And>j :: ingestion_job. p (ij_status j) \<Longrightarrow> \<not> is_final (ij_status j)"
    and "\<And>j. ij_id (g j) = ij_id j" "\<And>j. ij_idempotency_key (g j) = ij_idempotency_key j"
  shows "\<exists>k \<in> set (db_jobs (snd (fenced_update i w p g db))). job_kept j k"
proof (cases "snd (fenced_update i w p g db) = db")
  case False
  then have eq: "snd (fenced_update i w p g db) = update_jobs i (\<lambda>j. if p (ij_status j) then g j else j) db"
    using snd_fenced_update [of i w p g db] by blast
  show ?thesis unfolding eq update_jobs_fields
    by (rule kept_mapped [OF assms(1)]) (use assms(2) [of j] in \<open>auto simp: job_kept_def assms(3,4)\<close>)
qed (simp add: job_kept_same [OF assms(1)])

lemma step_keeps_jobs:
  assumes "ingestion_step db db'" "j \<in> set (db_jobs db)" "db_inv db"
  shows "\<exists>k \<in> set (db_jobs db'). job_kept j k"
  using assms
proof (induction rule: ingestion_step.induct)
  case (enqueue i db now p)
  then have "j \<in> set (db_jobs (snd (enqueue_ingestion_job i now p db)))"
    by (auto simp: enqueue_ingestion_job_def Let_def split: option.split)
  then show ?case by (rule job_kept_same)
next
  case (claim db now a locked w)
  show ?case
  proof (cases "select_first claim_order locked (job_claimable now db) (db_jobs db)")
    case None
    then show ?thesis using job_kept_same [OF claim(1)] by (simp add: claim_ingestion_job_def)
  next
    case (Some q)
    note sel = select_first_Some [OF Some]
    have "ij_id j = ij_id q \<Longrightarrow> j = q"
      using job_unique [OF claim(2) sel(1) claim(1)] by simp
    moreover have "\<not> is_final (ij_status q)" using sel(2) by (auto simp: job_claimable_def is_final_def)
    ultimately have "\<exists>k \<in> set (db_jobs (claim_selected now a w (ij_id q) db)). job_kept j k"
      unfolding claim_selected_fields
      by (intro kept_mapped [OF claim(1)]) (auto simp: job_kept_def)
    then show ?thesis using Some by (simp add: claim_ingestion_job_def Let_def)
  qed
next
  case (heartbeat db now i w)
  then show ?case unfolding heartbeat_ingestion_job_def Let_def snd_conv update_attempts_jobs update_jobs_fields
    by (intro kept_mapped) (auto simp: job_kept_def)
next
  case (running db us now i w)
  then show ?case unfolding mark_ingestion_job_running_def snd_affected_or
    by (intro kept_fenced) (auto simp: is_final_def in_hand_def)
next
  case (complete db now i w)
  then show ?case unfolding complete_stmt_def by (intro kept_fenced) (auto simp: is_final_def)
next
  case (fail db now i w err)
  then show ?case unfolding fail_stmt_def by (intro kept_fenced) (auto simp: is_final_def)
qed (simp_all add: close_attempt_def close_failed_attempt_def job_kept_same)

lemma steps_keep_jobs:
  assumes "ingestion_step\<^sup>*\<^sup>* db db'" "ingestion_reachable db" "j \<in> set (db_jobs db)"
  shows "ingestion_reachable db' \<and> (\<exists>k \<in> set (db_jobs db'). job_kept j k)"
  using assms(1)
proof (induction rule: rtranclp_induct)
  case (step db' db'')
  then obtain k where k: "k \<in> set (db_jobs db')" "job_kept j k" and r: "ingestion_reachable db'" by blast
  obtain l where "l \<in> set (db_jobs db'')" "job_kept k l"
    using step_keeps_jobs [OF step(2) k(1) ingestion_reachable_inv [OF r]] by blast
  then show ?case using job_kept_trans [OF k(2)] ingestion_reachable.step [OF r step(2)] by blast
qed (use assms(2) job_kept_same [OF assms(3)] in blast)

text \<open>
  Enqueueing is idempotent. Once a request with the key \<open>k\<close> has been enqueued, whatever
  statements run afterwards, by whichever workers, a request with the same key inserts nothing and
  is answered with the job of the first request.
\<close>

theorem enqueue_idempotent:
  assumes "ingestion_reachable db" "i \<notin> ij_id ` set (db_jobs db)"
    and "ep_idempotency_key p = Some k" "ep_idempotency_key q = Some k"
    and "(job, first) = enqueue_ingestion_job i now p db" "ingestion_step\<^sup>*\<^sup>* first db'"
  shows "snd (enqueue_ingestion_job i' later q db') = db'
    \<and> ij_id (fst (enqueue_ingestion_job i' later q db')) = ij_id job"
proof -
  have "ingestion_reachable first"
    using ingestion_reachable.step [OF assms(1) ingestion_step.enqueue [OF assms(2), of now p]]
    by (simp flip: assms(5))
  moreover have j: "job \<in> set (db_jobs first)" "ij_idempotency_key job = Some k"
    using assms(3,5) by (auto simp: enqueue_ingestion_job_def Let_def new_job_def find_Some_iff split: option.splits)
  ultimately have r: "ingestion_reachable db'" and "\<exists>l \<in> set (db_jobs db'). job_kept job l"
    using steps_keep_jobs [OF assms(6)] by blast+
  then obtain l where l: "l \<in> set (db_jobs db')" "ij_id l = ij_id job" "ij_idempotency_key l = Some k"
    using j(2) by (auto simp: job_kept_def)
  have "find (\<lambda>j. ij_idempotency_key j = Some k) (db_jobs db') \<noteq> None" using l by (auto simp: find_None_iff)
  then obtain m where m: "find (\<lambda>j. ij_idempotency_key j = Some k) (db_jobs db') = Some m" by blast
  then have "m \<in> set (db_jobs db')" "ij_idempotency_key m = Some k" by (auto simp: find_Some_iff)
  then have "ij_id m = ij_id l"
    using ingestion_reachable_inv [OF r] l unfolding db_inv_def keys_unique_def by (metis option.distinct(1))
  then show ?thesis using m l(2) assms(4) by (simp add: enqueue_ingestion_job_def Let_def)
qed

theorem enqueue_idempotent_witness:
  "snd (enqueue_ingestion_job 11 99 (sample_params\<lparr>ep_priority := 5\<rparr>) sample_db) = sample_db
   \<and> ij_id (fst (enqueue_ingestion_job 11 99 (sample_params\<lparr>ep_priority := 5\<rparr>) sample_db)) = 7"
proof -
  have "ingestion_step\<^sup>*\<^sup>* sample_queue sample_db"
    unfolding sample_db_def by (rule r_into_rtranclp [where r = ingestion_step, OF ingestion_step.claim])
  moreover have "(new_job 7 0 sample_params, sample_queue) =
      enqueue_ingestion_job 7 0 sample_params \<lparr>db_jobs = [], db_attempts = []\<rparr>"
    by (simp add: sample_queue_eq enqueue_ingestion_job_def Let_def sample_params_def)
  ultimately show ?thesis
    using enqueue_idempotent [OF ingestion_reachable.init, of 7 sample_params "''k''"
        "sample_params\<lparr>ep_priority := 5\<rparr>" "new_job 7 0 sample_params" sample_queue 0 sample_db 11 99]
    by (simp add: sample_params_def new_job_def)
qed

text \<open>
  Finished jobs are final: from every reachable state, whatever statements run afterwards, a
  completed, failed or cancelled job keeps its row, except that a late heartbeat may move its
  update time.
\<close>

theorem finished_jobs_final:
  assumes "ingestion_reachable db" "ingestion_step\<^sup>*\<^sup>* db db'" "j \<in> set (db_jobs db)"
    and "ij_status j = IJ_Completed \<or> ij_status j = IJ_Failed \<or> ij_status j = IJ_Cancelled"
  shows "\<exists>t. j\<lparr>ij_updated_at := t\<rparr> \<in> set (db_jobs db')"
proof -
  obtain k where k: "k \<in> set (db_jobs db')" "job_kept j k"
    using steps_keep_jobs [OF assms(2,1,3)] by blast
  then have "k = j\<lparr>ij_updated_at := ij_updated_at k\<rparr>"
    using assms(4) by (auto simp: job_kept_def is_final_def in_hand_def)
  then show ?thesis using k(1) by metis
qed

theorem finished_jobs_final_witness:
  "\<exists>t. (hd (db_jobs (snd (complete_stmt 2 7 ''a'' sample_db))))\<lparr>ij_updated_at := t\<rparr>
     \<in> set (db_jobs (snd (heartbeat_ingestion_job 3 7 ''a'' (snd (complete_stmt 2 7 ''a'' sample_db)))))"
proof -
  let ?db = "snd (complete_stmt 2 7 ''a'' sample_db)"
  have "ij_status (hd (db_jobs ?db)) = IJ_Completed \<and> hd (db_jobs ?db) \<in> set (db_jobs ?db)"
    by (simp add: complete_stmt_def fenced_update_def sample_db_eq new_job_def owns_attempt_def
        new_attempt_def in_hand_def)
  then show ?thesis
    using finished_jobs_final [OF ingestion_reachable.step [OF sample_db_reachable ingestion_step.complete]
        r_into_rtranclp [where r = ingestion_step, OF ingestion_step.heartbeat]] by blast
qed

text \<open>
  C6. Exclusive jobs. In every reachable state, while a worker holds an open attempt of a job, no
  other worker can start, complete or fail the job or keep it alive: the statements report an
  error and change nothing. While the holder's heartbeat is younger than five minutes no claim
  returns the job; once it is older the job, if not finished, is claimable again.
\<close>

theorem ingestion_fencing:
  assumes "ingestion_reachable db" "j \<in> set (db_jobs db)"
    and "job_holder (ij_id j) db = Some w" "v \<noteq> w" "job_beat (ij_id j) db = Some t"
  shows "(\<exists>e. mark_ingestion_job_running us now (ij_id j) v db = (Inl e, db))
    \<and> (\<exists>e. complete_ingestion_job us now (ij_id j) v db = (Inl e, db))
    \<and> (\<exists>e. fail_ingestion_job us now (ij_id j) v err db = (Inl e, db))
    \<and> \<not> fst (heartbeat_ingestion_job now (ij_id j) v db)
    \<and> (now < t + STALE_JOB_THRESHOLD \<longrightarrow>
         (\<forall>job. fst (claim_ingestion_job now a locked v db) = Some job \<longrightarrow> ij_id job \<noteq> ij_id j))
    \<and> (t + STALE_JOB_THRESHOLD < now \<longrightarrow> ij_status j = IJ_Claimed \<or> ij_status j = IJ_Running \<longrightarrow>
         job_claimable now db j)"
proof -
  have inv: "db_inv db" by (rule ingestion_reachable_inv [OF assms(1)])
  have no: "\<not> owns_attempt (ij_id j) v db" using owns_iff_holder [OF inv] assms(3,4) by simp
  then have f: "fenced_update (ij_id j) v p g db = (False, db)" for p g by (simp add: fenced_update_def Let_def)
  have fresh: "ij_id job \<noteq> ij_id j"
    if young: "now < t + STALE_JOB_THRESHOLD" and got: "fst (claim_ingestion_job now a locked v db) = Some job" for job
  proof -
    obtain q where q: "select_first claim_order locked (job_claimable now db) (db_jobs db) = Some q"
      using got by (auto simp: claim_ingestion_job_def split: option.splits)
    have "ij_id job = ij_id q"
      using got q by (auto simp: claim_ingestion_job_def Let_def get_ingestion_job_def find_Some_iff)
    moreover have "q \<noteq> j"
      using select_first_Some(2) [OF q] fresh_not_claimable [OF inv assms(5) young assms(2)] by blast
    ultimately show ?thesis
      using job_unique [OF inv assms(2) select_first_Some(1) [OF q]] by metis
  qed
  have "job_claimable now db j"
    if "t + STALE_JOB_THRESHOLD < now" "ij_status j = IJ_Claimed \<or> ij_status j = IJ_Running"
  proof -
    have "job_open (ij_id j) db" using assms(2) that(2) by (auto simp: job_open_def list_ex_iff in_hand_def)
    from jl.claim_stale [OF inv this assms(5) that(1)] obtain k where
      "k \<in> set (db_jobs db)" "ij_id k = ij_id j" "job_claimable now db k" unfolding claim_job_iff by blast
    then show ?thesis using job_unique [OF inv assms(2)] by blast
  qed
  with fresh show ?thesis using no
    by (auto simp: mark_ingestion_job_running_def complete_ingestion_job_def fail_ingestion_job_def
        complete_stmt_def fail_stmt_def f affected_or_def heartbeat_ingestion_job_def Let_def)
qed

theorem ingestion_fencing_witness:
  "(\<exists>e. complete_ingestion_job (\<lambda>_. []) 5 7 ''b'' sample_db = (Inl e, sample_db))
   \<and> job_claimable 300000001 sample_db (hd (db_jobs sample_db))"
proof -
  have h: "hd (db_jobs sample_db) \<in> set (db_jobs sample_db)" "ij_id (hd (db_jobs sample_db)) = 7"
      "job_holder 7 sample_db = Some ''a''" "job_beat 7 sample_db = Some 0" "ij_status (hd (db_jobs sample_db)) = IJ_Claimed"
    by (simp_all add: sample_db_eq new_job_def job_holder_def job_beat_def attempts_of_def new_attempt_def)
  have "(''b'' :: string) \<noteq> ''a''" by simp
  note f = ingestion_fencing [OF sample_db_reachable h(1), unfolded h(2), OF h(3) this h(4)]
  show ?thesis using f [of "\<lambda>_. []" 5] f [of _ 300000001] h(5) by (auto simp: STALE_JOB_THRESHOLD_def)
qed

end
