(* ===== verification/Materialization_Runs.thy ===== *)
theory Materialization_Runs
  imports Lease
begin

text \<open>
  Materialization runs of the durable control plane (\<open>adapters/src/v2_repo.rs\<close>): creation, the
  claim of a run by its id, heartbeats, completion and failure. The row operations interpret
  \<open>lease\<close>.
\<close>

section \<open>Rows and statements\<close>

record materialization_run =
  mr_id :: uuid
  mr_dataset_name :: string
  mr_scope :: "json option"
  mr_input_watermark :: "int option"
  mr_output_record_count :: int
  mr_status :: materialization_run_status
  mr_dataset_version_id :: "uuid option"
  mr_worker_id :: "string option"
  mr_started_at :: "timestamp option"
  mr_finished_at :: "timestamp option"
  mr_heartbeat_at :: "timestamp option"
  mr_error_message :: "string option"
  mr_created_at :: timestamp
  mr_updated_at :: timestamp

type_synonym runs = "materialization_run list"

definition create_materialization_run ::
    "uuid \<Rightarrow> int \<Rightarrow> string \<Rightarrow> json option \<Rightarrow> int option \<Rightarrow> uuid option \<Rightarrow> worker option \<Rightarrow> runs \<Rightarrow>
     materialization_run \<times> runs" where
  "create_materialization_run i now dataset scope watermark version worker rows =
     (let run = \<lparr>mr_id = i, mr_dataset_name = dataset, mr_scope = scope, mr_input_watermark = watermark,
        mr_output_record_count = 0, mr_status = MR_Pending, mr_dataset_version_id = version,
        mr_worker_id = worker, mr_started_at = None, mr_finished_at = None, mr_heartbeat_at = None,
        mr_error_message = None, mr_created_at = now, mr_updated_at = now\<rparr>
      in (run, rows @ [run]))"

definition run_claimable :: "int \<Rightarrow> materialization_run \<Rightarrow> bool" where
  "run_claimable now r \<longleftrightarrow> mr_status r = MR_Pending
     \<or> (mr_status r = MR_Running
        \<and> (case mr_heartbeat_at r of None \<Rightarrow> True | Some t \<Rightarrow> t < now - STALE_JOB_THRESHOLD))"

definition claim_run_row :: "int \<Rightarrow> worker \<Rightarrow> materialization_run \<Rightarrow> materialization_run option" where
  "claim_run_row now w r =
     (if run_claimable now r
      then Some (r\<lparr>mr_status := MR_Running, mr_worker_id := Some w,
                   mr_started_at := (case mr_started_at r of Some t \<Rightarrow> Some t | None \<Rightarrow> Some now),
                   mr_heartbeat_at := Some now, mr_updated_at := now\<rparr>)
      else None)"

definition owned_run :: "worker \<Rightarrow> materialization_run \<Rightarrow> bool" where
  "owned_run w r \<longleftrightarrow> mr_worker_id r = Some w \<and> mr_status r = MR_Running"

definition heartbeat_run_row :: "int \<Rightarrow> worker \<Rightarrow> materialization_run \<Rightarrow> materialization_run option" where
  "heartbeat_run_row now w r =
     (if owned_run w r then Some (r\<lparr>mr_heartbeat_at := Some now, mr_updated_at := now\<rparr>) else None)"

definition complete_run_row :: "int \<Rightarrow> int \<Rightarrow> worker \<Rightarrow> materialization_run \<Rightarrow> materialization_run option" where
  "complete_run_row cnt now w r =
     (if owned_run w r
      then Some (r\<lparr>mr_status := MR_Completed, mr_output_record_count := cnt,
                   mr_finished_at := Some now, mr_updated_at := now\<rparr>)
      else None)"

definition fail_run_row :: "string \<Rightarrow> int \<Rightarrow> worker \<Rightarrow> materialization_run \<Rightarrow> materialization_run option" where
  "fail_run_row err now w r =
     (if owned_run w r
      then Some (r\<lparr>mr_status := MR_Failed, mr_error_message := Some err,
                   mr_finished_at := Some now, mr_updated_at := now\<rparr>)
      else None)"

definition claim_materialization_run :: "int \<Rightarrow> uuid \<Rightarrow> worker \<Rightarrow> runs \<Rightarrow> bool \<times> runs" where
  "claim_materialization_run now i w = update_row mr_id i (claim_run_row now w)"

definition heartbeat_materialization_run :: "int \<Rightarrow> uuid \<Rightarrow> worker \<Rightarrow> runs \<Rightarrow> bool \<times> runs" where
  "heartbeat_materialization_run now i w = update_row mr_id i (heartbeat_run_row now w)"

definition complete_materialization_run ::
    "(uuid \<Rightarrow> string) \<Rightarrow> int \<Rightarrow> uuid \<Rightarrow> worker \<Rightarrow> int \<Rightarrow> runs \<Rightarrow> unit result \<times> runs" where
  "complete_materialization_run us now i w cnt rows =
     affected_or (''complete_materialization_run: 0 rows affected (ownership lost or invalid state) for run_id='' @ us i)
       (update_row mr_id i (complete_run_row cnt now w) rows)"

definition fail_materialization_run ::
    "(uuid \<Rightarrow> string) \<Rightarrow> int \<Rightarrow> uuid \<Rightarrow> worker \<Rightarrow> string \<Rightarrow> runs \<Rightarrow> unit result \<times> runs" where
  "fail_materialization_run us now i w err rows =
     affected_or (''fail_materialization_run: 0 rows affected (ownership lost or invalid state) for run_id='' @ us i)
       (update_row mr_id i (fail_run_row err now w) rows)"

definition get_materialization_run :: "uuid \<Rightarrow> runs \<Rightarrow> materialization_run option" where
  "get_materialization_run i rows = find (\<lambda>r. mr_id r = i) rows"

definition list_claimable_materialization_runs :: "int \<Rightarrow> nat \<Rightarrow> runs \<Rightarrow> runs" where
  "list_claimable_materialization_runs now limit rows =
     take limit (sort_key mr_created_at (filter (run_claimable now) rows))"

section \<open>Steps of the table\<close>

inductive run_step :: "runs \<Rightarrow> runs \<Rightarrow> bool" where
  create: "i \<notin> mr_id ` set rows \<Longrightarrow> run_step rows (snd (create_materialization_run i now d sc wm v w rows))"
| claim: "run_step rows (snd (claim_materialization_run now i w rows))"
| heartbeat: "run_step rows (snd (heartbeat_materialization_run now i w rows))"
| complete: "run_step rows (snd (complete_materialization_run us now i w cnt rows))"
| fail: "run_step rows (snd (fail_materialization_run us now i w err rows))"

inductive run_reachable :: "runs \<Rightarrow> bool" where
  init: "run_reachable []"
| step: "run_reachable rows \<Longrightarrow> run_step rows rows' \<Longrightarrow> run_reachable rows'"

section \<open>The lease of a run\<close>

definition run_holder :: "materialization_run \<Rightarrow> worker option" where
  "run_holder r = (if mr_status r = MR_Running then mr_worker_id r else None)"

definition run_inv :: "materialization_run \<Rightarrow> bool" where
  "run_inv r \<longleftrightarrow> (mr_status r = MR_Running \<longrightarrow> mr_worker_id r \<noteq> None \<and> mr_heartbeat_at r \<noteq> None)"

abbreviation run_open :: "materialization_run \<Rightarrow> bool" where
  "run_open r \<equiv> mr_status r = MR_Pending \<or> mr_status r = MR_Running"

datatype run_work = RW_Complete int | RW_Fail string

fun run_work_row :: "run_work \<Rightarrow> int \<Rightarrow> worker \<Rightarrow> materialization_run \<Rightarrow> materialization_run option" where
  "run_work_row (RW_Complete cnt) now w r = complete_run_row cnt now w r"
| "run_work_row (RW_Fail err) now w r = fail_run_row err now w r"

lemmas run_row_defs = claim_run_row_def heartbeat_run_row_def complete_run_row_def fail_run_row_def
  run_claimable_def owned_run_def run_holder_def run_inv_def

interpretation ml: lease run_inv run_holder mr_heartbeat_at run_open
    claim_run_row heartbeat_run_row run_work_row
proof
  fix r r' :: materialization_run and now t :: int and v w :: worker and f :: run_work
  show "run_inv r \<Longrightarrow> run_holder r = Some v \<Longrightarrow> \<exists>t. mr_heartbeat_at r = Some t"
    by (auto simp: run_row_defs split: if_splits)
  show "run_inv r \<Longrightarrow> claim_run_row now w r = Some r' \<Longrightarrow>
      run_inv r' \<and> run_holder r' = Some w \<and> mr_heartbeat_at r' = Some now"
    by (auto simp: run_row_defs split: if_splits)
  show "run_inv r \<Longrightarrow> run_open r \<Longrightarrow> run_holder r = None \<Longrightarrow> claim_run_row now w r \<noteq> None"
    by (auto simp: run_row_defs)
  show "run_inv r \<Longrightarrow> run_open r \<Longrightarrow> mr_heartbeat_at r = Some t \<Longrightarrow>
      t + STALE_JOB_THRESHOLD < now \<Longrightarrow> claim_run_row now w r \<noteq> None"
    by (auto simp: run_row_defs)
  show "run_inv r \<Longrightarrow> run_holder r = Some v \<Longrightarrow> mr_heartbeat_at r = Some t \<Longrightarrow>
      now < t + STALE_JOB_THRESHOLD \<Longrightarrow> claim_run_row now w r = None"
    by (auto simp: run_row_defs split: if_splits)
  show "run_inv r \<Longrightarrow> heartbeat_run_row now w r = Some r' \<Longrightarrow>
      run_holder r = Some w \<and> run_inv r' \<and> run_holder r' = Some w \<and> mr_heartbeat_at r' = Some now"
    by (auto simp: run_row_defs split: if_splits)
  show "run_inv r \<Longrightarrow> run_holder r = Some w \<Longrightarrow> heartbeat_run_row now w r \<noteq> None"
    by (auto simp: run_row_defs split: if_splits)
  show "run_inv r \<Longrightarrow> run_work_row f now w r = Some r' \<Longrightarrow> run_holder r = Some w \<and> run_inv r'
      \<and> (run_holder r' = None \<or> run_holder r' = Some w \<and> mr_heartbeat_at r' = mr_heartbeat_at r)"
    by (cases f) (auto simp: run_row_defs split: if_splits)
qed

lemma run_rows_id:
  "claim_run_row now w r = Some r' \<Longrightarrow> mr_id r' = mr_id r"
  "heartbeat_run_row now w r = Some r' \<Longrightarrow> mr_id r' = mr_id r"
  "complete_run_row cnt now w r = Some r' \<Longrightarrow> mr_id r' = mr_id r"
  "fail_run_row err now w r = Some r' \<Longrightarrow> mr_id r' = mr_id r"
  by (auto simp: claim_run_row_def heartbeat_run_row_def complete_run_row_def fail_run_row_def split: if_splits)

lemmas run_table_defs = claim_materialization_run_def heartbeat_materialization_run_def
  complete_materialization_run_def fail_materialization_run_def snd_affected_or

lemma run_step_inv:
  assumes "run_step rows rows'" "\<forall>r \<in> set rows. run_inv r" "distinct (map mr_id rows)"
  shows "(\<forall>r \<in> set rows'. run_inv r) \<and> distinct (map mr_id rows')"
  using assms
proof (induction rule: run_step.induct)
  case (create i rows now d sc wm v w)
  then show ?case by (auto simp: create_materialization_run_def Let_def run_inv_def)
next
  case (claim rows now i w)
  show ?case unfolding run_table_defs
    by (rule update_row_inv [OF claim]) (use ml.claim_holds run_rows_id(1) in blast)+
next
  case (heartbeat rows now i w)
  show ?case unfolding run_table_defs
    by (rule update_row_inv [OF heartbeat]) (use ml.beat_holds run_rows_id(2) in blast)+
next
  case (complete rows us now i w cnt)
  show ?case unfolding run_table_defs
    by (rule update_row_inv [OF complete])
      (use ml.work_holds [of _ "RW_Complete cnt"] run_rows_id(3) in \<open>force, blast\<close>)
next
  case (fail rows us now i w err)
  show ?case unfolding run_table_defs
    by (rule update_row_inv [OF fail])
      (use ml.work_holds [of _ "RW_Fail err"] run_rows_id(4) in \<open>force, blast\<close>)
qed

lemma run_reachable_inv:
  "run_reachable rows \<Longrightarrow> (\<forall>r \<in> set rows. run_inv r) \<and> distinct (map mr_id rows)"
  by (induction rule: run_reachable.induct) (auto dest: run_step_inv)

section \<open>Properties\<close>

text \<open>
  A run is finished once and by its holder only. In every reachable table, completing or
  failing a run succeeds exactly when the worker holds it, and afterwards the run is in its final
  state: no later claim, heartbeat, completion or failure, by any worker at any time, changes it.
\<close>

theorem run_finished_once:
  assumes "run_reachable rows" "r \<in> set rows"
    and "(res, rows') = complete_materialization_run us now (mr_id r) w cnt rows"
  shows "(res = Inr () \<longleftrightarrow> run_holder r = Some w)
    \<and> (run_holder r \<noteq> Some w \<longrightarrow> rows' = rows)
    \<and> (res = Inr () \<longrightarrow>
         claim_materialization_run later (mr_id r) v rows' = (False, rows')
         \<and> heartbeat_materialization_run later (mr_id r) v rows' = (False, rows')
         \<and> snd (complete_materialization_run us later (mr_id r) v c rows') = rows'
         \<and> snd (fail_materialization_run us later (mr_id r) v err rows') = rows')"
proof -
  have inv: "run_inv r" and dist: "distinct (map mr_id rows)"
    using run_reachable_inv [OF assms(1)] assms(2) by auto
  have res: "res = fst (complete_materialization_run us now (mr_id r) w cnt rows)"
    and rows': "rows' = snd (complete_materialization_run us now (mr_id r) w cnt rows)"
    using assms(3) by (metis fst_conv, metis snd_conv)
  have some: "complete_run_row cnt now w r \<noteq> None \<longleftrightarrow> run_holder r = Some w"
    by (auto simp: complete_run_row_def owned_run_def run_holder_def)
  have ok: "res = Inr () \<longleftrightarrow> run_holder r = Some w"
    using update_row_unique(1) [OF dist assms(2), of "complete_run_row cnt now w"] some
    by (simp add: res run_table_defs)
  have same: "rows' = rows" if "run_holder r \<noteq> Some w"
    using update_row_unique(2) [OF dist assms(2), of "complete_run_row cnt now w"] some that
    by (simp add: rows' run_table_defs)
  have final: "claim_materialization_run later (mr_id r) v rows' = (False, rows')
         \<and> heartbeat_materialization_run later (mr_id r) v rows' = (False, rows')
         \<and> snd (complete_materialization_run us later (mr_id r) v c rows') = rows'
         \<and> snd (fail_materialization_run us later (mr_id r) v err rows') = rows'" if fin: "res = Inr ()"
  proof -
    obtain r' where r': "complete_run_row cnt now w r = Some r'" using fin ok some by blast
    then have st: "mr_status r' = MR_Completed" "mr_id r' = mr_id r"
      by (auto simp: complete_run_row_def split: if_splits)
    have mem: "r' \<in> set rows'" unfolding rows' run_table_defs
      by (rule update_row_unique(3) [where f = "complete_run_row cnt now w", OF dist assms(2) r'])
    have "run_reachable rows'" unfolding rows'
      by (rule run_reachable.step [OF assms(1) run_step.complete])
    then have dist': "distinct (map mr_id rows')" using run_reachable_inv by blast
    note refuse = update_row_unique(2) [OF dist' mem, unfolded st(2)]
    show ?thesis
      using refuse st(1) by (simp add: run_table_defs run_row_defs)
  qed
  show ?thesis using ok same final by blast
qed

definition sample_runs :: runs where
  "sample_runs = snd (claim_materialization_run 0 6 ''a''
     (snd (create_materialization_run 6 0 ''token_transfers'' None None None None [])))"

lemma sample_runs_eq:
  "sample_runs = [\<lparr>mr_id = 6, mr_dataset_name = ''token_transfers'', mr_scope = None,
     mr_input_watermark = None, mr_output_record_count = 0, mr_status = MR_Running,
     mr_dataset_version_id = None, mr_worker_id = Some ''a'', mr_started_at = Some 0,
     mr_finished_at = None, mr_heartbeat_at = Some 0, mr_error_message = None, mr_created_at = 0,
     mr_updated_at = 0\<rparr>]"
  by (simp add: sample_runs_def claim_materialization_run_def update_row_def
      create_materialization_run_def claim_run_row_def run_claimable_def Let_def)

lemma sample_runs_reachable: "run_reachable sample_runs"
  unfolding sample_runs_def
  by (rule run_reachable.step [OF _ run_step.claim],
      rule run_reachable.step [OF run_reachable.init run_step.create]) simp

theorem run_finished_once_witness:
  "fst (complete_materialization_run (\<lambda>_. []) 9 6 ''a'' 12 sample_runs) = Inr ()
   \<and> \<not> fst (claim_materialization_run 900000000 6 ''b''
         (snd (complete_materialization_run (\<lambda>_. []) 9 6 ''a'' 12 sample_runs)))"
  using run_finished_once [OF sample_runs_reachable, of "hd sample_runs" _ _ "\<lambda>_. []" 9 "''a''" 12,
      OF _ prod.collapse, of 900000000 "''b''"]
  by (simp add: sample_runs_eq run_holder_def)

end
