(* ===== verification/Bronze.thy ===== *)
theory Bronze
  imports Gold_Balances Ingestion_Jobs Materialization_Runs
begin

text \<open>
  The Bronze layer: canonical raw transactions, their links to targets and ingestion runs, and
  checkpoints (\<open>adapters/src/v2_repo.rs\<close>), and the transactions that commit a batch of a connector or
  an import (\<open>adapters/src/workbench_repo.rs\<close>). An error aborts the transaction it occurs in, so the tables stay
  as they were. The foreign keys of the schema are not modelled.
\<close>

section \<open>Tables\<close>

record target_match =
  tm_id :: uuid
  tm_target_id :: uuid
  tm_raw_transaction_id :: uuid
  tm_match_reason :: "string option"
  tm_matched_at :: timestamp

record checkpoint =
  cp_id :: uuid
  cp_target_id :: uuid
  cp_network :: string
  cp_source :: string
  cp_cursor :: json
  cp_updated_at :: timestamp

record ingestion_run =
  ir_id :: uuid
  ir_target_id :: "uuid option"
  ir_network :: string
  ir_source :: string
  ir_mode :: ingestion_job_mode
  ir_status :: ingestion_job_status
  ir_started_at :: timestamp
  ir_finished_at :: "timestamp option"
  ir_records_written :: int
  ir_error_message :: "string option"
  ir_cursor_state :: "json option"

record index_target =
  it_id :: uuid
  it_kind :: target_kind
  it_network :: string
  it_chain_family :: chain_family
  it_address :: "string option"
  it_filter_spec :: "json option"
  it_mode :: target_mode
  it_label :: "string option"
  it_owner_id :: "uuid option"
  it_created_at :: timestamp
  it_updated_at :: timestamp

record bronze_db =
  br_raws :: "raw_transaction list"
  br_matches :: "target_match list"
  br_links :: "(uuid \<times> uuid) list"
  br_checkpoints :: "checkpoint list"
  br_runs :: "ingestion_run list"
  br_etl :: runs

section \<open>Statements\<close>

definition raw_key :: "raw_transaction \<Rightarrow> string \<times> string" where
  "raw_key r = (raw_network r, raw_tx_hash r)"

text \<open>
  One row of \<open>INSERT .. ON CONFLICT (network, tx_hash) DO UPDATE .. RETURNING id\<close>. An existing row
  keeps its id and content and takes the run of the new one, if it has any.
\<close>

definition reattribute :: "raw_transaction \<Rightarrow> raw_transaction \<Rightarrow> raw_transaction" where
  "reattribute r x = x\<lparr>raw_ingestion_run_id :=
     (case raw_ingestion_run_id r of Some u \<Rightarrow> Some u | None \<Rightarrow> raw_ingestion_run_id x)\<rparr>"

definition upsert_raw ::
    "raw_transaction \<Rightarrow> raw_transaction list \<Rightarrow> (uuid \<times> raw_transaction list) result" where
  "upsert_raw r table =
     (case find (\<lambda>x. raw_key x = raw_key r) table of
        Some e \<Rightarrow> Inr (raw_id e, map (\<lambda>x. if raw_key x = raw_key r then reattribute r x else x) table)
      | None \<Rightarrow>
          if raw_id r \<in> set (map raw_id table)
          then Inl ''duplicate key value violates unique constraint''
          else Inr (raw_id r, table @ [r]))"

fun upsert_rows ::
    "raw_transaction list \<Rightarrow> raw_transaction list \<Rightarrow> (uuid list \<times> raw_transaction list) result" where
  "upsert_rows [] table = Inr ([], table)"
| "upsert_rows (r # rs) table =
     (case upsert_raw r table of
        Inl e \<Rightarrow> Inl e
      | Inr (i, table') \<Rightarrow>
          (case upsert_rows rs table' of
             Inl e \<Rightarrow> Inl e | Inr (ids, table'') \<Rightarrow> Inr (i # ids, table'')))"

text \<open>The database refuses a statement that would update one row twice.\<close>

definition raw_transaction_upsert_returning ::
    "raw_transaction list \<Rightarrow> raw_transaction list \<Rightarrow> (uuid list \<times> raw_transaction list) result" where
  "raw_transaction_upsert_returning rs table =
     (if distinct (map raw_key rs) then upsert_rows rs table
      else Inl ''ON CONFLICT DO UPDATE command cannot affect row a second time'')"

definition insert_new :: "'a \<Rightarrow> 'a list \<Rightarrow> 'a list" where
  "insert_new x xs = (if x \<in> set xs then xs else xs @ [x])"

definition link_run_input :: "raw_transaction list \<Rightarrow> raw_transaction \<Rightarrow> (uuid \<times> uuid) list \<Rightarrow> (uuid \<times> uuid) list" where
  "link_run_input table r links =
     (case raw_ingestion_run_id r of
        None \<Rightarrow> links
      | Some run \<Rightarrow> fold (\<lambda>x. insert_new (run, raw_id x)) (filter (\<lambda>x. raw_key x = raw_key r) table) links)"

definition link_run_inputs :: "raw_transaction list \<Rightarrow> bronze_db \<Rightarrow> bronze_db" where
  "link_run_inputs rs db = db\<lparr>br_links := fold (link_run_input (br_raws db)) rs (br_links db)\<rparr>"

definition upsert_raw_batch_in_tx :: "raw_transaction list \<Rightarrow> bronze_db \<Rightarrow> (uuid list \<times> bronze_db) result" where
  "upsert_raw_batch_in_tx rs db =
     (case raw_transaction_upsert_returning rs (br_raws db) of
        Inl e \<Rightarrow> Inl e
      | Inr (ids, raws) \<Rightarrow> Inr (ids, link_run_inputs rs (db\<lparr>br_raws := raws\<rparr>)))"

definition insert_match :: "target_match \<Rightarrow> target_match list \<Rightarrow> target_match list" where
  "insert_match m ms =
     (if \<exists>x \<in> set ms. tm_target_id x = tm_target_id m \<and> tm_raw_transaction_id x = tm_raw_transaction_id m
      then ms else ms @ [m])"

text \<open>\<open>mid i\<close> is the random id of the match for the raw transaction \<open>i\<close>.\<close>

definition target_matches :: "(uuid \<Rightarrow> uuid) \<Rightarrow> int \<Rightarrow> string \<Rightarrow> uuid \<Rightarrow> uuid list \<Rightarrow> target_match list" where
  "target_matches mid now reason target ids =
     map (\<lambda>i. \<lparr>tm_id = mid i, tm_target_id = target, tm_raw_transaction_id = i,
                tm_match_reason = Some reason, tm_matched_at = now\<rparr>) ids"

definition save_target_matches :: "target_match list \<Rightarrow> bronze_db \<Rightarrow> bronze_db" where
  "save_target_matches ms db = db\<lparr>br_matches := fold insert_match ms (br_matches db)\<rparr>"

function chunks :: "nat \<Rightarrow> 'a list \<Rightarrow> 'a list list" where
  "chunks n xs = (if xs = [] \<or> n = 0 then [] else take n xs # chunks n (drop n xs))"
  by auto
termination by (relation "measure (\<lambda>(n, xs). length xs)") auto

declare chunks.simps [simp del]

definition write_chunk ::
    "(uuid \<Rightarrow> uuid) \<Rightarrow> int \<Rightarrow> string \<Rightarrow> uuid \<Rightarrow> raw_transaction list \<Rightarrow> bronze_db \<Rightarrow> bronze_db result" where
  "write_chunk mid now reason target rs db =
     (case upsert_raw_batch_in_tx rs db of
        Inl e \<Rightarrow> Inl e
      | Inr (ids, db') \<Rightarrow> Inr (save_target_matches (target_matches mid now reason target ids) db'))"

fun write_chunks ::
    "(uuid \<Rightarrow> uuid) \<Rightarrow> int \<Rightarrow> string \<Rightarrow> uuid \<Rightarrow> raw_transaction list list \<Rightarrow> bronze_db \<Rightarrow> bronze_db result" where
  "write_chunks mid now reason target [] db = Inr db"
| "write_chunks mid now reason target (c # cs) db =
     (case write_chunk mid now reason target c db of
        Inl e \<Rightarrow> Inl e | Inr db' \<Rightarrow> write_chunks mid now reason target cs db')"

definition same_cursor :: "checkpoint \<Rightarrow> checkpoint \<Rightarrow> bool" where
  "same_cursor c x \<longleftrightarrow> cp_target_id x = cp_target_id c \<and> cp_network x = cp_network c \<and> cp_source x = cp_source c"

definition upsert_checkpoint_v2 :: "checkpoint \<Rightarrow> bronze_db \<Rightarrow> bronze_db" where
  "upsert_checkpoint_v2 c db = db\<lparr>br_checkpoints :=
     (if list_ex (same_cursor c) (br_checkpoints db)
      then map (\<lambda>x. if same_cursor c x then x\<lparr>cp_cursor := cp_cursor c, cp_updated_at := cp_updated_at c\<rparr> else x)
             (br_checkpoints db)
      else br_checkpoints db @ [c])\<rparr>"

definition get_checkpoint_v2 :: "uuid \<Rightarrow> string \<Rightarrow> string \<Rightarrow> bronze_db \<Rightarrow> checkpoint option" where
  "get_checkpoint_v2 target network source db =
     find (\<lambda>x. cp_target_id x = target \<and> cp_network x = network \<and> cp_source x = source) (br_checkpoints db)"

text \<open>The scope is a JSON object; \<open>us\<close> prints a uuid.\<close>

definition normalize_scope :: "(uuid \<Rightarrow> string) \<Rightarrow> index_target \<Rightarrow> uuid \<Rightarrow> json" where
  "normalize_scope us target run =
     JObject [(''wallet'', case it_address target of Some a \<Rightarrow> JString a | None \<Rightarrow> JNull),
              (''network'', JString (it_network target)), (''target_id'', JString (us (it_id target))),
              (''ingestion_run_id'', JString (us run))]"

definition queue_normalize :: "(uuid \<Rightarrow> string) \<Rightarrow> uuid \<Rightarrow> int \<Rightarrow> index_target \<Rightarrow> uuid \<Rightarrow> bronze_db \<Rightarrow> bronze_db" where
  "queue_normalize us i now target run db = db\<lparr>br_etl :=
     snd (create_materialization_run i now ''normalize'' (Some (normalize_scope us target run)) None None None
       (br_etl db))\<rparr>"

definition finish_ingestion_run :: "int \<Rightarrow> uuid \<Rightarrow> int \<Rightarrow> bronze_db \<Rightarrow> bronze_db" where
  "finish_ingestion_run now run n db = db\<lparr>br_runs := map (\<lambda>r. if ir_id r = run
     then r\<lparr>ir_status := IJ_Completed, ir_finished_at := Some now, ir_records_written := n\<rparr> else r) (br_runs db)\<rparr>"

section \<open>Transactions\<close>

definition lease_valid :: "uuid \<times> worker \<Rightarrow> ingestion_db \<Rightarrow> bool" where
  "lease_valid ls jobs \<longleftrightarrow> (case ls of (i, w) \<Rightarrow>
     list_ex (\<lambda>j. ij_id j = i \<and> in_hand (ij_status j)) (db_jobs jobs) \<and> owns_attempt i w jobs)"

definition commit_connector_batch ::
    "(uuid \<Rightarrow> string) \<Rightarrow> (uuid \<Rightarrow> uuid) \<Rightarrow> uuid \<Rightarrow> int \<Rightarrow> ingestion_db \<Rightarrow> index_target \<Rightarrow> uuid \<Rightarrow>
     raw_transaction list \<Rightarrow> checkpoint option \<Rightarrow> uuid \<times> worker \<Rightarrow> bronze_db \<Rightarrow> unit result \<times> bronze_db" where
  "commit_connector_batch us mid etl now jobs target run records cp ls db =
     (if \<not> lease_valid ls jobs then (Inl ''Ingestion lease lost before commit'', db)
      else case write_chunks mid now ''provider'' (it_id target) (chunks 500 records) db of
        Inl e \<Rightarrow> (Inl e, db)
      | Inr written \<Rightarrow>
          let advanced = (case cp of Some c \<Rightarrow> upsert_checkpoint_v2 c written | None \<Rightarrow> written);
              queued = (if it_kind target = TK_Wallet \<and> records \<noteq> []
                        then queue_normalize us etl now target run advanced else advanced)
          in (Inr (), finish_ingestion_run now run (int (length records)) queued))"

definition import_raw_records ::
    "(uuid \<Rightarrow> string) \<Rightarrow> (uuid \<Rightarrow> uuid) \<Rightarrow> uuid \<Rightarrow> int \<Rightarrow> index_target \<Rightarrow> ingestion_run \<Rightarrow>
     raw_transaction list \<Rightarrow> bronze_db \<Rightarrow> uuid option result \<times> bronze_db" where
  "import_raw_records us mid etl now target run records db =
     (if ir_id run \<in> set (map ir_id (br_runs db))
      then (Inl ''duplicate key value violates unique constraint'', db)
      else case write_chunks mid now ''import'' (it_id target) (chunks 500 records)
                  (db\<lparr>br_runs := br_runs db @ [run]\<rparr>) of
        Inl e \<Rightarrow> (Inl e, db)
      | Inr written \<Rightarrow>
          if it_kind target = TK_Wallet
          then (Inr (Some etl), queue_normalize us etl now target (ir_id run) written)
          else (Inr None, written))"

section \<open>What an upsert keeps\<close>

text \<open>\<open>kept x y\<close>: the row \<open>y\<close> is \<open>x\<close> up to the run it is attributed to.\<close>

definition kept :: "raw_transaction \<Rightarrow> raw_transaction \<Rightarrow> bool" where
  "kept x y \<longleftrightarrow> y = x\<lparr>raw_ingestion_run_id := raw_ingestion_run_id y\<rparr>"

definition raws_grow :: "raw_transaction list \<Rightarrow> raw_transaction list \<Rightarrow> bool" where
  "raws_grow t t' \<longleftrightarrow> distinct (map raw_key t') \<and> (\<forall>x \<in> set t. \<exists>y \<in> set t'. kept x y)"

lemma kept_id_key: "kept x y \<Longrightarrow> raw_id y = raw_id x \<and> raw_key y = raw_key x"
  by (cases x, cases y) (auto simp: kept_def raw_key_def)

lemma kept_refl [simp]: "kept x x"
  by (simp add: kept_def)

lemma kept_trans: "kept x y \<Longrightarrow> kept y z \<Longrightarrow> kept x z"
  by (cases x, cases y, cases z) (auto simp: kept_def)

lemma raws_grow_refl: "distinct (map raw_key t) \<Longrightarrow> raws_grow t t"
  unfolding raws_grow_def using kept_refl by blast

lemma raws_grow_trans: "raws_grow t u \<Longrightarrow> raws_grow u v \<Longrightarrow> raws_grow t v"
  unfolding raws_grow_def using kept_trans by blast

lemma kept_reattribute [simp]: "kept x (reattribute r x)"
  by (simp add: kept_def reattribute_def)

lemma upsert_raw_grow:
  assumes "distinct (map raw_key t)" "upsert_raw r t = Inr (i, t')"
  shows "raws_grow t t' \<and> (\<exists>x \<in> set t'. raw_key x = raw_key r \<and> raw_id x = i)"
proof (cases "find (\<lambda>x. raw_key x = raw_key r) t")
  case None
  then have t': "t' = t @ [r]" "i = raw_id r"
    using assms(2) by (simp_all add: upsert_raw_def split: if_splits)
  have "\<forall>x \<in> set t. raw_key x \<noteq> raw_key r" using None by (simp add: find_None_iff)
  then have "distinct (map raw_key t')" using assms(1) unfolding t' by force
  moreover have "\<forall>x \<in> set t. \<exists>y \<in> set t'. kept x y" unfolding t' by (auto intro!: bexI kept_refl)
  ultimately show ?thesis unfolding raws_grow_def t' by simp
next
  case (Some e)
  let ?f = "\<lambda>x. if raw_key x = raw_key r then reattribute r x else x"
  have t': "t' = map ?f t" and i: "i = raw_id e" using assms(2) Some by (simp_all add: upsert_raw_def)
  have e: "e \<in> set t" "raw_key e = raw_key r" using Some by (auto simp: find_Some_iff)
  have k: "kept x (?f x)" for x by simp
  have keys: "map raw_key t' = map raw_key t" unfolding t' using kept_id_key [OF k] by simp
  have "\<forall>x \<in> set t. \<exists>y \<in> set t'. kept x y" unfolding t' set_map using k by blast
  then have "raws_grow t t'" using assms(1) unfolding raws_grow_def keys by blast
  moreover have "raw_key (?f e) = raw_key r \<and> raw_id (?f e) = i" using kept_id_key [OF k] e(2) i by metis
  ultimately show ?thesis using e(1) unfolding t' set_map by blast
qed

lemma upsert_raw_fresh:
  assumes "raw_id r \<notin> raw_id ` set t"
  shows "\<exists>i t'. upsert_raw r t = Inr (i, t') \<and> raw_id ` set t' \<subseteq> insert (raw_id r) (raw_id ` set t)"
proof (cases "find (\<lambda>x. raw_key x = raw_key r) t")
  case None
  then show ?thesis using assms by (simp add: upsert_raw_def)
next
  case (Some e)
  have "raw_id (if raw_key x = raw_key r then reattribute r x else x) = raw_id x" for x
    by (simp add: reattribute_def)
  then have "raw_id ` set (map (\<lambda>x. if raw_key x = raw_key r then reattribute r x else x) t) = raw_id ` set t"
    by (simp only: set_map image_image)
  then show ?thesis using Some by (simp add: upsert_raw_def) blast
qed

lemma upsert_rows_grow:
  assumes "distinct (map raw_key t)" "upsert_rows rs t = Inr (ids, t')"
  shows "raws_grow t t' \<and> list_all2 (\<lambda>r i. \<exists>x \<in> set t'. raw_key x = raw_key r \<and> raw_id x = i) rs ids"
  using assms
proof (induction rs arbitrary: t ids)
  case Nil
  then show ?case by (simp add: raws_grow_refl)
next
  case (Cons r rs)
  then obtain i js u where u: "upsert_raw r t = Inr (i, u)" "upsert_rows rs u = Inr (js, t')" "ids = i # js"
    by (auto split: sum.splits prod.splits)
  note g = upsert_raw_grow [OF Cons.prems(1) u(1)]
  then have "distinct (map raw_key u)" by (simp add: raws_grow_def)
  from Cons.IH [OF this u(2)]
  have ih: "raws_grow u t'" "list_all2 (\<lambda>r i. \<exists>x \<in> set t'. raw_key x = raw_key r \<and> raw_id x = i) rs js" by auto
  obtain x y where "x \<in> set u" "raw_key x = raw_key r" "raw_id x = i" "y \<in> set t'" "kept x y"
    using g ih(1) unfolding raws_grow_def by blast
  then have "\<exists>x \<in> set t'. raw_key x = raw_key r \<and> raw_id x = i" using kept_id_key by metis
  then show ?case using g ih raws_grow_trans u(3) by auto
qed

lemma disjoint_step: "A \<subseteq> insert a B \<Longrightarrow> insert a C \<inter> B = {} \<Longrightarrow> a \<notin> C \<Longrightarrow> C \<inter> A = {}"
  by blast

lemma upsert_rows_succeeds:
  assumes "distinct (map raw_id rs)" "raw_id ` set rs \<inter> raw_id ` set t = {}"
  shows "\<exists>ids t'. upsert_rows rs t = Inr (ids, t') \<and> raw_id ` set t' \<subseteq> raw_id ` set t \<union> raw_id ` set rs"
  using assms
proof (induction rs arbitrary: t)
  case (Cons r rs)
  obtain i u where u: "upsert_raw r t = Inr (i, u)" "raw_id ` set u \<subseteq> insert (raw_id r) (raw_id ` set t)"
    using upsert_raw_fresh [of r t] Cons.prems(2) by auto
  have "raw_id r \<notin> raw_id ` set rs" using Cons.prems(1) by simp
  then have "raw_id ` set rs \<inter> raw_id ` set u = {}" using disjoint_step [OF u(2)] Cons.prems(2)
    by (simp only: list.set image_insert)
  from Cons.IH [OF _ this] Cons.prems(1) obtain ids t' where
    "upsert_rows rs u = Inr (ids, t')" "raw_id ` set t' \<subseteq> raw_id ` set u \<union> raw_id ` set rs" by auto
  then show ?case using u by auto
qed simp

section \<open>What a chunk stores\<close>

text \<open>
  \<open>stored target db r\<close>: the raw transaction has a canonical row, the row is matched to the target,
  and it is linked to the run the record names. \<open>bronze_grows\<close>: nothing of that is ever lost.
\<close>

definition stored :: "uuid \<Rightarrow> bronze_db \<Rightarrow> raw_transaction \<Rightarrow> bool" where
  "stored target db r \<longleftrightarrow> (\<exists>x \<in> set (br_raws db). raw_key x = raw_key r
     \<and> (\<exists>m \<in> set (br_matches db). tm_target_id m = target \<and> tm_raw_transaction_id m = raw_id x)
     \<and> (\<forall>run. raw_ingestion_run_id r = Some run \<longrightarrow> (run, raw_id x) \<in> set (br_links db)))"

definition bronze_grows :: "bronze_db \<Rightarrow> bronze_db \<Rightarrow> bool" where
  "bronze_grows db db' \<longleftrightarrow> raws_grow (br_raws db) (br_raws db')
     \<and> set (br_matches db) \<subseteq> set (br_matches db') \<and> set (br_links db) \<subseteq> set (br_links db')"

abbreviation unrelated_same :: "bronze_db \<Rightarrow> bronze_db \<Rightarrow> bool" where
  "unrelated_same db db' \<equiv> br_checkpoints db' = br_checkpoints db \<and> br_runs db' = br_runs db
     \<and> br_etl db' = br_etl db"

lemma bronze_grows_refl: "distinct (map raw_key (br_raws db)) \<Longrightarrow> bronze_grows db db"
  by (simp add: bronze_grows_def raws_grow_refl)

lemma bronze_grows_trans: "bronze_grows a b \<Longrightarrow> bronze_grows b c \<Longrightarrow> bronze_grows a c"
  unfolding bronze_grows_def using raws_grow_trans by blast

lemma stored_mono:
  assumes "stored target db r" "bronze_grows db db'"
  shows "stored target db' r"
proof -
  obtain x m where x: "x \<in> set (br_raws db)" "raw_key x = raw_key r" "m \<in> set (br_matches db)"
      "tm_target_id m = target" "tm_raw_transaction_id m = raw_id x"
      "\<forall>run. raw_ingestion_run_id r = Some run \<longrightarrow> (run, raw_id x) \<in> set (br_links db)"
    using assms(1) unfolding stored_def by blast
  obtain y where y: "y \<in> set (br_raws db')" "kept x y"
    using assms(2) x(1) unfolding bronze_grows_def raws_grow_def by blast
  have id: "raw_id y = raw_id x" "raw_key y = raw_key r" using kept_id_key [OF y(2)] x(2) by auto
  have "m \<in> set (br_matches db')" "set (br_links db) \<subseteq> set (br_links db')"
    using assms(2) x(3) unfolding bronze_grows_def by auto
  then show ?thesis unfolding stored_def using x(4-6) id
    by (intro bexI [OF _ y(1)] conjI bexI [of _ m]) auto
qed

lemma set_insert_new [simp]: "set (insert_new x xs) = insert x (set xs)"
  by (auto simp: insert_new_def)

lemma set_fold_insert_new: "set (fold (\<lambda>x. insert_new (f x)) xs ys) = f ` set xs \<union> set ys"
  by (induction xs arbitrary: ys) auto

lemma link_run_input_set:
  "set (link_run_input t r links) = set links \<union>
     {(run, raw_id x) | run x. raw_ingestion_run_id r = Some run \<and> x \<in> set t \<and> raw_key x = raw_key r}"
  by (auto simp: link_run_input_def set_fold_insert_new split: option.split)

lemma link_run_inputs_set:
  "set (fold (link_run_input t) rs links) = set links \<union>
     {(run, raw_id x) | run x r. r \<in> set rs \<and> raw_ingestion_run_id r = Some run \<and> x \<in> set t \<and> raw_key x = raw_key r}"
  by (induction rs arbitrary: links) (auto simp: link_run_input_set)

lemma insert_match_mono: "set ms \<subseteq> set (insert_match m ms)"
  by (auto simp: insert_match_def)

lemma insert_match_hit:
  "\<exists>x \<in> set (insert_match m ms). tm_target_id x = tm_target_id m \<and> tm_raw_transaction_id x = tm_raw_transaction_id m"
  by (auto simp: insert_match_def)

lemma fold_insert_match:
  "set ms \<subseteq> set (fold insert_match xs ms)
   \<and> (\<forall>m \<in> set xs. \<exists>x \<in> set (fold insert_match xs ms).
        tm_target_id x = tm_target_id m \<and> tm_raw_transaction_id x = tm_raw_transaction_id m)"
proof (induction xs arbitrary: ms)
  case (Cons m xs)
  show ?case using Cons [of "insert_match m ms"] insert_match_mono [of ms m] insert_match_hit [of m ms]
    by (simp add: subset_iff) meson
qed simp

lemma save_target_matches_spec:
  "bronze_grows db db' \<Longrightarrow> bronze_grows db (save_target_matches ms db')"
  "unrelated_same db' (save_target_matches ms db')"
  "br_raws (save_target_matches ms db') = br_raws db'" "br_links (save_target_matches ms db') = br_links db'"
  using fold_insert_match [of "br_matches db'" ms]
  by (auto simp: save_target_matches_def bronze_grows_def)

lemma target_matches_hit:
  assumes "i \<in> set ids"
  shows "\<exists>m \<in> set (br_matches (save_target_matches (target_matches mid now reason target ids) db)).
    tm_target_id m = target \<and> tm_raw_transaction_id m = i"
proof -
  have "\<lparr>tm_id = mid i, tm_target_id = target, tm_raw_transaction_id = i, tm_match_reason = Some reason,
      tm_matched_at = now\<rparr> \<in> set (target_matches mid now reason target ids)" (is "?m \<in> _")
    using assms by (simp add: target_matches_def)
  then show ?thesis
    using fold_insert_match [of "br_matches db" "target_matches mid now reason target ids"]
    by (fastforce simp: save_target_matches_def)
qed

lemma upsert_batch_spec:
  assumes "distinct (map raw_key (br_raws db))" "upsert_raw_batch_in_tx rs db = Inr (ids, db')"
  shows "bronze_grows db db' \<and> unrelated_same db db'
    \<and> list_all2 (\<lambda>r i. \<exists>x \<in> set (br_raws db'). raw_key x = raw_key r \<and> raw_id x = i
        \<and> (\<forall>run. raw_ingestion_run_id r = Some run \<longrightarrow> (run, i) \<in> set (br_links db'))) rs ids"
proof -
  obtain raws where u: "upsert_rows rs (br_raws db) = Inr (ids, raws)"
      and db': "db' = link_run_inputs rs (db\<lparr>br_raws := raws\<rparr>)"
    using assms(2) by (auto simp: upsert_raw_batch_in_tx_def raw_transaction_upsert_returning_def
        split: sum.splits if_splits)
  note g = upsert_rows_grow [OF assms(1) u]
  have links: "set (br_links db') = set (br_links db) \<union> {(run, raw_id x) | run x r. r \<in> set rs
      \<and> raw_ingestion_run_id r = Some run \<and> x \<in> set raws \<and> raw_key x = raw_key r}"
    and raws: "br_raws db' = raws" "br_matches db' = br_matches db" and rest: "unrelated_same db db'"
    by (simp_all add: db' link_run_inputs_def link_run_inputs_set)
  have "list_all2 (\<lambda>r i. \<exists>x \<in> set raws. raw_key x = raw_key r \<and> raw_id x = i
      \<and> (\<forall>run. raw_ingestion_run_id r = Some run \<longrightarrow> (run, i) \<in> set (br_links db'))) rs ids"
    using g unfolding links by (auto simp: list_all2_conv_all_nth) (metis nth_mem)
  then show ?thesis using g links raws rest by (auto simp: bronze_grows_def)
qed

lemma write_chunk_spec:
  assumes "distinct (map raw_key (br_raws db))" "write_chunk mid now reason target rs db = Inr db'"
  shows "bronze_grows db db' \<and> unrelated_same db db' \<and> (\<forall>r \<in> set rs. stored target db' r)"
proof -
  obtain ids u where u: "upsert_raw_batch_in_tx rs db = Inr (ids, u)"
      and db': "db' = save_target_matches (target_matches mid now reason target ids) u"
    using assms(2) by (auto simp: write_chunk_def split: sum.splits prod.splits)
  have b: "bronze_grows db u" "unrelated_same db u"
    and ids: "list_all2 (\<lambda>r i. \<exists>x \<in> set (br_raws u). raw_key x = raw_key r \<and> raw_id x = i
        \<and> (\<forall>run. raw_ingestion_run_id r = Some run \<longrightarrow> (run, i) \<in> set (br_links u))) rs ids"
    using upsert_batch_spec [OF assms(1) u] by blast+
  have "stored target db' r" if rin: "r \<in> set rs" for r
  proof -
    obtain n where n: "n < length rs" "r = rs ! n" using rin by (metis in_set_conv_nth)
    obtain x where x: "x \<in> set (br_raws u)" "raw_key x = raw_key r" "raw_id x = ids ! n"
        "\<forall>run. raw_ingestion_run_id r = Some run \<longrightarrow> (run, ids ! n) \<in> set (br_links u)"
      using list_all2_nthD [OF ids n(1), folded n(2)] by blast
    have "ids ! n \<in> set ids" using n(1) list_all2_lengthD [OF ids] by simp
    note hit = target_matches_hit [OF this, of mid now reason target u]
    show ?thesis
      unfolding stored_def db' save_target_matches_spec(3,4)
      by (rule bexI [OF _ x(1)], intro conjI) (use x(2-4) hit in simp_all)
  qed
  then show ?thesis using b unfolding db' using save_target_matches_spec(1,2) by auto
qed

lemma write_chunks_spec:
  assumes "distinct (map raw_key (br_raws db))" "write_chunks mid now reason target cs db = Inr db'"
  shows "bronze_grows db db' \<and> unrelated_same db db' \<and> (\<forall>r \<in> set (concat cs). stored target db' r)"
  using assms
proof (induction cs arbitrary: db)
  case Nil
  then show ?case by (simp add: bronze_grows_refl)
next
  case (Cons c cs)
  then obtain u where u: "write_chunk mid now reason target c db = Inr u" "write_chunks mid now reason target cs u = Inr db'"
    by (auto split: sum.splits)
  note c = write_chunk_spec [OF Cons.prems(1) u(1)]
  then have "distinct (map raw_key (br_raws u))" by (simp add: bronze_grows_def raws_grow_def)
  note ih = Cons.IH [OF this u(2)]
  show ?case using c ih bronze_grows_trans stored_mono by auto
qed

lemma concat_chunks: "0 < n \<Longrightarrow> concat (chunks n xs) = xs"
  by (induction n xs rule: chunks.induct) (subst chunks.simps, auto)

text \<open>Fresh ids and distinct (network, hash) pairs are enough for a batch to be written.\<close>

definition fresh_batch :: "raw_transaction list \<Rightarrow> bronze_db \<Rightarrow> bool" where
  "fresh_batch rs db \<longleftrightarrow> distinct (map raw_key rs) \<and> distinct (map raw_id rs)
     \<and> raw_id ` set rs \<inter> raw_id ` set (br_raws db) = {}"

lemma disjoint_union_step: "A' \<subseteq> A \<union> C \<Longrightarrow> (C \<union> D) \<inter> A = {} \<Longrightarrow> D \<inter> C = {} \<Longrightarrow> D \<inter> A' = {}"
  by blast

lemma fresh_batch_append:
  assumes "fresh_batch (c @ cs) db" "raw_id ` set (br_raws db') \<subseteq> raw_id ` set (br_raws db) \<union> raw_id ` set c"
  shows "fresh_batch c db" "fresh_batch cs db'"
proof -
  show "fresh_batch c db" using assms(1) unfolding fresh_batch_def by auto
  have "raw_id ` set cs \<inter> raw_id ` set c = {}" using assms(1) by (simp add: fresh_batch_def Int_commute)
  then have "raw_id ` set cs \<inter> raw_id ` set (br_raws db') = {}"
    using disjoint_union_step [OF assms(2)] assms(1) by (simp only: fresh_batch_def set_append image_Un)
  then show "fresh_batch cs db'" using assms(1) by (simp add: fresh_batch_def)
qed

lemma upsert_batch_succeeds:
  assumes "fresh_batch rs db"
  shows "\<exists>ids db'. upsert_raw_batch_in_tx rs db = Inr (ids, db')
    \<and> raw_id ` set (br_raws db') \<subseteq> raw_id ` set (br_raws db) \<union> raw_id ` set rs"
proof -
  have f: "distinct (map raw_key rs)" "distinct (map raw_id rs)" "raw_id ` set rs \<inter> raw_id ` set (br_raws db) = {}"
    using assms by (simp_all add: fresh_batch_def)
  from upsert_rows_succeeds [OF f(2,3)] obtain ids t where
    "upsert_rows rs (br_raws db) = Inr (ids, t)" "raw_id ` set t \<subseteq> raw_id ` set (br_raws db) \<union> raw_id ` set rs"
    by blast
  then show ?thesis
    using f(1) by (simp add: upsert_raw_batch_in_tx_def raw_transaction_upsert_returning_def link_run_inputs_def)
qed

lemma write_chunks_succeeds:
  "fresh_batch (concat cs) db \<Longrightarrow> \<exists>db'. write_chunks mid now reason target cs db = Inr db'"
proof (induction cs arbitrary: db)
  case (Cons c cs)
  have "fresh_batch c db" using Cons.prems fresh_batch_append(1) [of c "concat cs" db db] by simp
  from upsert_batch_succeeds [OF this] obtain ids u where
    u: "upsert_raw_batch_in_tx c db = Inr (ids, u)" "raw_id ` set (br_raws u) \<subseteq> raw_id ` set (br_raws db) \<union> raw_id ` set c"
    by blast
  let ?v = "save_target_matches (target_matches mid now reason target ids) u"
  have "write_chunk mid now reason target c db = Inr ?v" using u(1) by (simp add: write_chunk_def)
  moreover have "fresh_batch (concat cs) ?v"
    using fresh_batch_append(2) [of c "concat cs" db ?v] Cons.prems u(2) by (simp add: save_target_matches_spec)
  ultimately show ?case using Cons.IH by simp
qed simp

section \<open>Properties\<close>

lemma get_upserted_checkpoint:
  "\<exists>x. get_checkpoint_v2 (cp_target_id c) (cp_network c) (cp_source c) (upsert_checkpoint_v2 c db) = Some x
     \<and> cp_cursor x = cp_cursor c"
proof -
  let ?p = "\<lambda>x. cp_target_id x = cp_target_id c \<and> cp_network x = cp_network c \<and> cp_source x = cp_source c"
  have p: "?p = same_cursor c" by (auto simp: same_cursor_def fun_eq_iff)
  let ?xs = "br_checkpoints (upsert_checkpoint_v2 c db)"
  let ?g = "\<lambda>x. x\<lparr>cp_cursor := cp_cursor c, cp_updated_at := cp_updated_at c\<rparr>"
  have g: "same_cursor c (?g x) = same_cursor c x" "same_cursor c c" for x by (simp_all add: same_cursor_def)
  have ex: "\<exists>x \<in> set ?xs. same_cursor c x"
    using g by (force simp: upsert_checkpoint_v2_def list_ex_iff)
  have all: "\<forall>x \<in> set ?xs. same_cursor c x \<longrightarrow> cp_cursor x = cp_cursor c"
    by (auto simp: upsert_checkpoint_v2_def list_ex_iff)
  from ex have "find (same_cursor c) ?xs \<noteq> None" by (auto simp: find_None_iff)
  then obtain x where x: "find (same_cursor c) ?xs = Some x" by blast
  then have "x \<in> set ?xs" "same_cursor c x" by (auto simp: find_Some_iff)
  then show ?thesis using all x by (auto simp: get_checkpoint_v2_def p)
qed

lemma committed_fields [simp]:
  "br_raws (finish_ingestion_run now run n db) = br_raws db" "br_matches (finish_ingestion_run now run n db) = br_matches db"
  "br_links (finish_ingestion_run now run n db) = br_links db" "br_etl (finish_ingestion_run now run n db) = br_etl db"
  "br_checkpoints (finish_ingestion_run now run n db) = br_checkpoints db"
  "br_raws (queue_normalize us i now target run db) = br_raws db" "br_matches (queue_normalize us i now target run db) = br_matches db"
  "br_links (queue_normalize us i now target run db) = br_links db"
  "br_checkpoints (queue_normalize us i now target run db) = br_checkpoints db"
  "br_raws (upsert_checkpoint_v2 c db) = br_raws db" "br_matches (upsert_checkpoint_v2 c db) = br_matches db"
  "br_links (upsert_checkpoint_v2 c db) = br_links db" "br_etl (upsert_checkpoint_v2 c db) = br_etl db"
  by (simp_all add: finish_ingestion_run_def queue_normalize_def upsert_checkpoint_v2_def)

lemma queued_normalize:
  "\<exists>m \<in> set (br_etl (queue_normalize us i now target run db)). mr_id m = i \<and> mr_dataset_name m = ''normalize''
     \<and> mr_status m = MR_Pending
     \<and> Option.bind (mr_scope m) (\<lambda>s. json_get s ''ingestion_run_id'') = Some (JString (us run))"
  by (simp add: queue_normalize_def create_materialization_run_def Let_def normalize_scope_def)

lemma commit_connector_batch_spec:
  assumes "distinct (map raw_key (br_raws db))"
    and "(res, db') = commit_connector_batch us mid etl now jobs target run records cp ls db"
  shows "(\<not> lease_valid ls jobs \<longrightarrow> res = Inl ''Ingestion lease lost before commit'')
    \<and> (res \<noteq> Inr () \<longrightarrow> db' = db)
    \<and> (res = Inr () \<longrightarrow> bronze_grows db db' \<and> (\<forall>r \<in> set records. stored (it_id target) db' r)
         \<and> (\<forall>c. cp = Some c \<longrightarrow> (\<exists>x. get_checkpoint_v2 (cp_target_id c) (cp_network c) (cp_source c) db' = Some x
              \<and> cp_cursor x = cp_cursor c))
         \<and> (it_kind target = TK_Wallet \<and> records \<noteq> [] \<longrightarrow>
              (\<exists>m \<in> set (br_etl db'). mr_id m = etl \<and> mr_dataset_name m = ''normalize'' \<and> mr_status m = MR_Pending
                \<and> Option.bind (mr_scope m) (\<lambda>s. json_get s ''ingestion_run_id'') = Some (JString (us run)))))
    \<and> (lease_valid ls jobs \<and> fresh_batch records db \<longrightarrow> res = Inr ())"
proof (cases "lease_valid ls jobs")
  case False
  then show ?thesis using assms(2) by (simp add: commit_connector_batch_def)
next
  case ok: True
  let ?w = "write_chunks mid now ''provider'' (it_id target) (chunks 500 records) db"
  have ids: "concat (chunks 500 records) = records" by (rule concat_chunks) simp
  show ?thesis
  proof (cases ?w)
    case (Inl e)
    then have "\<not> fresh_batch records db"
      using write_chunks_succeeds [of "chunks 500 records" db mid now "''provider''" "it_id target"] ids by auto
    then show ?thesis using assms(2) ok Inl by (simp add: commit_connector_batch_def)
  next
    case (Inr u)
    define adv where "adv = (case cp of Some c \<Rightarrow> upsert_checkpoint_v2 c u | None \<Rightarrow> u)"
    define q where "q = (if it_kind target = TK_Wallet \<and> records \<noteq> []
      then queue_normalize us etl now target run adv else adv)"
    have res: "res = Inr ()" and db': "db' = finish_ingestion_run now run (int (length records)) q"
      using assms(2) ok Inr by (simp_all add: commit_connector_batch_def adv_def q_def Let_def)
    have same: "br_raws db' = br_raws u" "br_matches db' = br_matches u" "br_links db' = br_links u"
      "br_checkpoints db' = br_checkpoints adv"
      by (simp_all add: db' q_def adv_def split: option.split)
    note w = write_chunks_spec [OF assms(1) Inr, unfolded ids]
    have "get_checkpoint_v2 t n so db' = get_checkpoint_v2 t n so adv" for t n so
      by (simp add: get_checkpoint_v2_def same)
    then have "\<forall>c. cp = Some c \<longrightarrow> (\<exists>x. get_checkpoint_v2 (cp_target_id c) (cp_network c) (cp_source c) db' = Some x
        \<and> cp_cursor x = cp_cursor c)"
      using get_upserted_checkpoint by (simp add: adv_def)
    moreover have "bronze_grows db db' \<and> (\<forall>r \<in> set records. stored (it_id target) db' r)"
      using w by (simp add: bronze_grows_def stored_def same)
    moreover have "br_etl db' = br_etl q" by (simp add: db')
    ultimately show ?thesis using res ok queued_normalize [of us etl now target run adv] by (simp add: q_def)
  qed
qed

text \<open>
  C32. A connector batch commits as a whole or not at all, and only for the worker that holds the
  job. Without the lease, and on every error, the tables are unchanged. After a success every
  record has a canonical raw row that is matched to the target and linked to its run, the
  checkpoint has the given cursor, a wallet target with new records has a pending normalization
  run for this ingestion run, and no raw transaction, match or link is lost: the cursor never
  passes data whose normalization is not queued. A batch with distinct transactions and fresh
  ids does succeed.
\<close>

theorem connector_commit_durable:
  assumes "distinct (map raw_key (br_raws db))"
    and "(res, db') = commit_connector_batch us mid etl now jobs target run records cp ls db"
  shows "(\<not> lease_valid ls jobs \<longrightarrow> res = Inl ''Ingestion lease lost before commit'')
    \<and> (res \<noteq> Inr () \<longrightarrow> db' = db)
    \<and> (res = Inr () \<longrightarrow> bronze_grows db db' \<and> (\<forall>r \<in> set records. stored (it_id target) db' r)
         \<and> (\<forall>c. cp = Some c \<longrightarrow> (\<exists>x. get_checkpoint_v2 (cp_target_id c) (cp_network c) (cp_source c) db' = Some x
              \<and> cp_cursor x = cp_cursor c))
         \<and> (it_kind target = TK_Wallet \<and> records \<noteq> [] \<longrightarrow>
              (\<exists>m \<in> set (br_etl db'). mr_id m = etl \<and> mr_dataset_name m = ''normalize'' \<and> mr_status m = MR_Pending
                \<and> Option.bind (mr_scope m) (\<lambda>s. json_get s ''ingestion_run_id'') = Some (JString (us run)))))
    \<and> (lease_valid ls jobs \<and> fresh_batch records db \<longrightarrow> res = Inr ())"
  using assms by (rule commit_connector_batch_spec)

definition sample_target :: index_target where
  "sample_target = \<lparr>it_id = 9, it_kind = TK_Wallet, it_network = ''solana-mainnet'', it_chain_family = CF_Solana,
     it_address = Some ''w'', it_filter_spec = None, it_mode = TM_Both, it_label = None, it_owner_id = None,
     it_created_at = 0, it_updated_at = 0\<rparr>"

definition sample_raw :: raw_transaction where
  "sample_raw = \<lparr>raw_id = 21, raw_network = ''solana-mainnet'', raw_tx_hash = ''h'', raw_timestamp = 5,
     raw_block_number = None, raw_metadata = JNull, raw_source = ''rpc'', raw_ingestion_run_id = Some 30,
     raw_ingested_at = 6\<rparr>"

definition empty_bronze :: bronze_db where
  "empty_bronze = \<lparr>br_raws = [], br_matches = [], br_links = [], br_checkpoints = [], br_runs = [], br_etl = []\<rparr>"

theorem connector_commit_durable_witness:
  "stored 9 (snd (commit_connector_batch (\<lambda>_. []) (\<lambda>i. i + 100) 40 7 sample_db sample_target 30 [sample_raw] None
     (7, ''a'') empty_bronze)) sample_raw"
proof -
  have "lease_valid (7, ''a'') sample_db"
    by (simp add: lease_valid_def sample_db_eq new_job_def new_attempt_def owns_attempt_def in_hand_def)
  moreover have "fresh_batch [sample_raw] empty_bronze" "distinct (map raw_key (br_raws empty_bronze))" "it_id sample_target = 9"
    by (simp_all add: fresh_batch_def empty_bronze_def sample_target_def)
  ultimately show ?thesis
    using connector_commit_durable [OF _ prod.collapse, where db = empty_bronze and us = "\<lambda>_. []"
        and mid = "\<lambda>i. i + 100" and etl = 40 and now = 7 and jobs = sample_db and target = sample_target
        and run = 30 and records = "[sample_raw]" and cp = None and ls = "(7, ''a'')"] by simp
qed

end
