(* ===== verification/Dual_Write.thy ===== *)
theory Dual_Write
  imports Bronze Datasets
begin

text \<open>
  The bridge between the legacy model and the current one (\<open>adapters/src/dual_write.rs\<close>): networks
  and sources of a chain, the network a legacy transaction belongs to, the conversion of
  transactions and checkpoints in both directions, and the compatibility write of a batch of
  legacy transactions to the Bronze tables.
\<close>

section \<open>Conversions\<close>

fun chain_to_default_network :: "chain \<Rightarrow> string" where
  "chain_to_default_network Chain_Solana = ''solana-mainnet''"
| "chain_to_default_network Chain_Ethereum = ''ethereum-mainnet''"
| "chain_to_default_network Chain_Hyperliquid = ''hypercore-mainnet''"

fun chain_to_default_source :: "chain \<Rightarrow> string" where
  "chain_to_default_source Chain_Solana = ''rpc''"
| "chain_to_default_source Chain_Ethereum = ''rpc''"
| "chain_to_default_source Chain_Hyperliquid = ''rest''"

fun chain_to_family :: "chain \<Rightarrow> chain_family" where
  "chain_to_family Chain_Solana = CF_Solana"
| "chain_to_family Chain_Ethereum = CF_Evm"
| "chain_to_family Chain_Hyperliquid = CF_Hyperliquid"

text \<open>\<open>iter().min()\<close>: the smallest element in byte order; equal strings are the same value.\<close>

definition min_string :: "string list \<Rightarrow> string option" where
  "min_string xs = (if xs = [] then None else Some (Min (set xs)))"

definition resolve_effective_network ::
    "transaction \<Rightarrow> string option \<Rightarrow> (string \<times> string list) list \<Rightarrow> string \<times> bool" where
  "resolve_effective_network tx explicit bronze =
     (let default = chain_to_default_network (tx_chain tx)
      in case explicit of
           Some n \<Rightarrow> (n, False)
         | None \<Rightarrow>
             (case map_of bronze (tx_hash tx) of
                None \<Rightarrow> (default, True)
              | Some networks \<Rightarrow>
                  if length networks = 1 then (networks ! 0, False)
                  else
                    let family = filter (\<lambda>n. chain_family_for_network n = Some (chain_to_family (tx_chain tx))) networks
                    in if length family = 1 then (family ! 0, False)
                       else if family \<noteq> []
                       then (case find (\<lambda>n. n = default) family of
                               Some n \<Rightarrow> (n, True)
                             | None \<Rightarrow> (case min_string family of Some n \<Rightarrow> (n, True) | None \<Rightarrow> (default, True)))
                       else (case min_string networks of Some n \<Rightarrow> (n, True) | None \<Rightarrow> (default, True))))"

fun extract_block_number :: "chain \<Rightarrow> json \<Rightarrow> int option" where
  "extract_block_number Chain_Solana m = Option.bind (json_get m ''slot'') json_as_i64"
| "extract_block_number Chain_Ethereum m = Option.bind (json_get m ''block_number'') json_as_i64"
| "extract_block_number Chain_Hyperliquid m = None"

definition network_or_default :: "chain \<Rightarrow> string option \<Rightarrow> string" where
  "network_or_default c explicit = (case explicit of Some n \<Rightarrow> n | None \<Rightarrow> chain_to_default_network c)"

definition v1_tx_to_v2_raw :: "timestamp \<Rightarrow> transaction \<Rightarrow> string option \<Rightarrow> raw_transaction" where
  "v1_tx_to_v2_raw now tx explicit =
     \<lparr>raw_id = tx_id tx, raw_network = network_or_default (tx_chain tx) explicit, raw_tx_hash = tx_hash tx,
      raw_timestamp = tx_timestamp tx, raw_block_number = extract_block_number (tx_chain tx) (tx_raw_metadata tx),
      raw_metadata = tx_raw_metadata tx, raw_source = chain_to_default_source (tx_chain tx),
      raw_ingestion_run_id = None, raw_ingested_at = now\<rparr>"

definition v2_raw_to_v1_tx ::
    "(uuid \<Rightarrow> string \<Rightarrow> uuid) \<Rightarrow> raw_transaction \<Rightarrow> string \<Rightarrow> chain \<Rightarrow> uuid option \<Rightarrow> transaction" where
  "v2_raw_to_v1_tx vh raw wallet c user =
     \<lparr>tx_id = raw_id raw, tx_user_id = (case user of Some u \<Rightarrow> u | None \<Rightarrow> vh NAMESPACE_URL wallet),
      tx_wallet_address = wallet, tx_timestamp = raw_timestamp raw, tx_hash = raw_tx_hash raw, tx_chain = c,
      tx_raw_metadata = raw_metadata raw\<rparr>"

definition field_if :: "string \<Rightarrow> ('a \<Rightarrow> json) \<Rightarrow> 'a option \<Rightarrow> (string \<times> json) list" where
  "field_if k f v = (case v of Some x \<Rightarrow> [(k, f x)] | None \<Rightarrow> [])"

definition build_v2_cursor :: "indexer_checkpoint \<Rightarrow> json" where
  "build_v2_cursor cp = JObject (case ck_chain cp of
     Chain_Solana \<Rightarrow> field_if ''last_signature'' JString (ck_last_signature cp) @ field_if ''last_slot'' JInt (ck_last_slot cp)
   | Chain_Ethereum \<Rightarrow> field_if ''last_block'' JInt (ck_last_block cp)
   | Chain_Hyperliquid \<Rightarrow> field_if ''last_timestamp'' JInt (ck_last_timestamp cp))"

definition v1_checkpoint_to_v2_with_network ::
    "uuid \<Rightarrow> timestamp \<Rightarrow> indexer_checkpoint \<Rightarrow> uuid \<Rightarrow> string option \<Rightarrow> checkpoint" where
  "v1_checkpoint_to_v2_with_network i now cp target explicit =
     \<lparr>cp_id = i, cp_target_id = target, cp_network = network_or_default (ck_chain cp) explicit,
      cp_source = chain_to_default_source (ck_chain cp), cp_cursor = build_v2_cursor cp, cp_updated_at = now\<rparr>"

definition v1_checkpoint_to_v2 :: "uuid \<Rightarrow> timestamp \<Rightarrow> indexer_checkpoint \<Rightarrow> uuid \<Rightarrow> checkpoint" where
  "v1_checkpoint_to_v2 i now cp target = v1_checkpoint_to_v2_with_network i now cp target None"

definition v2_checkpoint_to_v1 :: "checkpoint \<Rightarrow> chain \<Rightarrow> string \<Rightarrow> indexer_checkpoint" where
  "v2_checkpoint_to_v1 cp c wallet =
     \<lparr>ck_chain = c, ck_wallet_address = wallet,
      ck_last_signature = Option.bind (json_get (cp_cursor cp) ''last_signature'') json_as_str,
      ck_last_slot = Option.bind (json_get (cp_cursor cp) ''last_slot'') json_as_i64,
      ck_last_block = Option.bind (json_get (cp_cursor cp) ''last_block'') json_as_i64,
      ck_last_timestamp = Option.bind (json_get (cp_cursor cp) ''last_timestamp'') json_as_i64\<rparr>"

section \<open>The compatibility write\<close>

text \<open>
  The batch is converted and reduced to the first row of each (network, hash), the rows are
  upserted in one transaction, and every row of the batch is matched through the canonical id of
  its (network, hash). The matches are written after that transaction.
\<close>

fun first_by_key :: "('a \<Rightarrow> 'k) \<Rightarrow> 'k list \<Rightarrow> 'a list \<Rightarrow> 'a list" where
  "first_by_key key seen [] = []"
| "first_by_key key seen (x # xs) =
     (if key x \<in> set seen then first_by_key key seen xs else x # first_by_key key (key x # seen) xs)"

fun upsert_chunks :: "raw_transaction list list \<Rightarrow> bronze_db \<Rightarrow> (uuid list \<times> bronze_db) result" where
  "upsert_chunks [] db = Inr ([], db)"
| "upsert_chunks (c # cs) db =
     (case upsert_raw_batch_in_tx c db of
        Inl e \<Rightarrow> Inl e
      | Inr (ids, db') \<Rightarrow>
          (case upsert_chunks cs db' of Inl e \<Rightarrow> Inl e | Inr (ids', db'') \<Rightarrow> Inr (ids @ ids', db'')))"

definition upsert_raw_transactions_returning_ids ::
    "raw_transaction list \<Rightarrow> bronze_db \<Rightarrow> (uuid list \<times> bronze_db) result" where
  "upsert_raw_transactions_returning_ids rs db = upsert_chunks (chunks 500 rs) db"

definition v2_write_transactions ::
    "(uuid \<Rightarrow> uuid) \<Rightarrow> timestamp \<Rightarrow> transaction list \<Rightarrow> uuid \<Rightarrow> string option \<Rightarrow> bronze_db \<Rightarrow> unit result \<times> bronze_db" where
  "v2_write_transactions mid now txs target explicit db =
     (if txs = [] then (Inr (), db)
      else
        let rs = map (\<lambda>tx. v1_tx_to_v2_raw now tx explicit) txs;
            deduped = first_by_key raw_key [] rs
        in case upsert_raw_transactions_returning_ids deduped db of
             Inl e \<Rightarrow> (Inl e, db)
           | Inr (ids, db') \<Rightarrow>
               let id_map = map_of (rev (zip (map raw_key deduped) ids));
                   all_ids = List.map_filter (\<lambda>r. id_map (raw_key r)) rs
               in (Inr (), save_target_matches (target_matches mid now ''sender'' target all_ids) db'))"

section \<open>Lemmas\<close>

lemma first_by_key_spec:
  "set (first_by_key key seen xs) \<subseteq> set xs
   \<and> key ` set (first_by_key key seen xs) = key ` set xs - set seen
   \<and> distinct (map key (first_by_key key seen xs))"
proof (induction key seen xs rule: first_by_key.induct)
  case (2 key seen x xs)
  then show ?case by (cases "key x \<in> set seen") auto
qed simp

lemma upsert_chunks_spec:
  assumes "distinct (map raw_key (br_raws db))" "upsert_chunks cs db = Inr (ids, db')"
  shows "bronze_grows db db' \<and> unrelated_same db db'
    \<and> list_all2 (\<lambda>r i. \<exists>x \<in> set (br_raws db'). raw_key x = raw_key r \<and> raw_id x = i) (concat cs) ids"
  using assms
proof (induction cs arbitrary: db ids)
  case Nil
  then show ?case by (simp add: bronze_grows_refl)
next
  case (Cons c cs)
  then obtain is1 is2 u where u: "upsert_raw_batch_in_tx c db = Inr (is1, u)"
      "upsert_chunks cs u = Inr (is2, db')" "ids = is1 @ is2"
    by (auto split: sum.splits prod.splits)
  note c = upsert_batch_spec [OF Cons.prems(1) u(1)]
  then have "distinct (map raw_key (br_raws u))" by (simp add: bronze_grows_def raws_grow_def)
  note ih = Cons.IH [OF this u(2)]
  have "\<exists>x \<in> set (br_raws db'). raw_key x = raw_key r \<and> raw_id x = i"
    if row: "\<exists>x \<in> set (br_raws u). raw_key x = raw_key r \<and> raw_id x = i" for r :: raw_transaction and i
  proof -
    obtain x where x: "x \<in> set (br_raws u)" "raw_key x = raw_key r" "raw_id x = i" using row by blast
    obtain y where "y \<in> set (br_raws db')" "kept x y"
      using ih x(1) unfolding bronze_grows_def raws_grow_def by blast
    then show ?thesis using kept_id_key x by metis
  qed
  then have "list_all2 (\<lambda>r i. \<exists>x \<in> set (br_raws db'). raw_key x = raw_key r \<and> raw_id x = i) c is1"
    using c by (auto elim!: list_all2_mono)
  then show ?case using c ih u(3) bronze_grows_trans by (auto intro: list_all2_appendI)
qed

lemma upsert_chunks_succeeds:
  "fresh_batch (concat cs) db \<Longrightarrow> \<exists>ids db'. upsert_chunks cs db = Inr (ids, db')"
proof (induction cs arbitrary: db)
  case (Cons c cs)
  have "fresh_batch c db" using Cons.prems fresh_batch_append(1) [of c "concat cs" db db] by simp
  from upsert_batch_succeeds [OF this] obtain ids u where
    u: "upsert_raw_batch_in_tx c db = Inr (ids, u)" "raw_id ` set (br_raws u) \<subseteq> raw_id ` set (br_raws db) \<union> raw_id ` set c"
    by blast
  have "fresh_batch (concat cs) u"
    using fresh_batch_append(2) [of c "concat cs" db u] Cons.prems u(2) by simp
  from Cons.IH [OF this] u(1) show ?case by auto
qed simp

lemma map_of_rev_zip:
  assumes "length ks = length vs" "distinct ks" "n < length ks"
  shows "map_of (rev (zip ks vs)) (ks ! n) = Some (vs ! n)"
proof -
  have "distinct (map fst (rev (zip ks vs)))" using assms(1,2) by (simp add: rev_map [symmetric])
  moreover have "(ks ! n, vs ! n) \<in> set (rev (zip ks vs))" using assms(1,3) by (auto simp: set_zip)
  ultimately show ?thesis by (simp add: map_of_eq_Some_iff)
qed

section \<open>Properties\<close>

text \<open>
  The compatibility write of legacy transactions, which may name one on-chain transaction
  several times, never loses one: it fails without effect or leaves every transaction of the
  batch with a canonical raw row matched to the target, and keeps all earlier rows. Repeated
  transactions do not make it fail: fresh ids are enough for success.
\<close>

theorem legacy_write_matches_all:
  assumes "distinct (map raw_key (br_raws db))"
    and "(res, db') = v2_write_transactions mid now txs target explicit db"
  shows "(res \<noteq> Inr () \<longrightarrow> db' = db)
    \<and> (res = Inr () \<longrightarrow> bronze_grows db db' \<and> (\<forall>tx \<in> set txs. stored target db' (v1_tx_to_v2_raw now tx explicit)))
    \<and> (distinct (map tx_id txs) \<and> tx_id ` set txs \<inter> raw_id ` set (br_raws db) = {} \<longrightarrow> res = Inr ())"
proof (cases "txs = []")
  case True
  then show ?thesis using assms by (simp add: v2_write_transactions_def bronze_grows_refl)
next
  case False
  define rs where "rs = map (\<lambda>tx. v1_tx_to_v2_raw now tx explicit) txs"
  define dd where "dd = first_by_key raw_key [] rs"
  let ?u = "upsert_raw_transactions_returning_ids dd db"
  have dd: "raw_key ` set dd = raw_key ` set rs" "distinct (map raw_key dd)" "set dd \<subseteq> set rs"
    using first_by_key_spec [of raw_key "[]" rs] by (simp_all add: dd_def)
  have cat: "concat (chunks 500 dd) = dd" by (rule concat_chunks) simp
  have fresh: "fresh_batch dd db"
    if d: "distinct (map tx_id txs)" and j: "tx_id ` set txs \<inter> raw_id ` set (br_raws db) = {}"
  proof -
    have ids: "map raw_id rs = map tx_id txs" by (simp add: rs_def v1_tx_to_v2_raw_def)
    then have "inj_on raw_id (set rs)" using d by (metis distinct_map)
    then have "inj_on raw_id (set dd)" using dd(3) by (rule inj_on_subset)
    moreover have "distinct dd" using dd(2) by (simp add: distinct_map)
    moreover have "raw_id ` set dd \<subseteq> tx_id ` set txs"
      using image_mono [OF dd(3), of raw_id] ids by (metis set_map)
    then have "raw_id ` set dd \<inter> raw_id ` set (br_raws db) = {}" using j by blast
    ultimately show ?thesis using dd(2) by (simp add: fresh_batch_def distinct_map)
  qed
  show ?thesis
  proof (cases ?u)
    case (Inl e)
    have "\<not> fresh_batch dd db"
      using upsert_chunks_succeeds [of "chunks 500 dd" db] cat Inl
      by (auto simp: upsert_raw_transactions_returning_ids_def)
    then show ?thesis using fresh assms(2) False Inl
      by (auto simp: v2_write_transactions_def Let_def rs_def dd_def)
  next
    case (Inr p)
    obtain ids u where p: "p = (ids, u)" by (cases p)
    let ?map = "map_of (rev (zip (map raw_key dd) ids))"
    let ?all = "List.map_filter (\<lambda>r. ?map (raw_key r)) rs"
    have res: "res = Inr ()" and db': "db' = save_target_matches (target_matches mid now ''sender'' target ?all) u"
      using assms(2) False Inr p by (simp_all add: v2_write_transactions_def Let_def rs_def dd_def)
    have g: "bronze_grows db u"
      and l: "list_all2 (\<lambda>r i. \<exists>x \<in> set (br_raws u). raw_key x = raw_key r \<and> raw_id x = i) dd ids"
      using upsert_chunks_spec [OF assms(1), of "chunks 500 dd" ids u] Inr p cat
      by (simp_all add: upsert_raw_transactions_returning_ids_def)
    have st: "stored target db' r" if r: "r \<in> set rs" "raw_ingestion_run_id r = None" for r
    proof -
      obtain d where d: "d \<in> set dd" "raw_key d = raw_key r" using dd(1) r(1) by (metis image_iff)
      obtain n where n: "n < length dd" "dd ! n = d" using d(1) by (metis in_set_conv_nth)
      obtain x where x: "x \<in> set (br_raws u)" "raw_key x = raw_key r" "raw_id x = ids ! n"
        using list_all2_nthD [OF l n(1)] n(2) d(2) by auto
      have "?map (raw_key r) = Some (ids ! n)"
        using map_of_rev_zip [of "map raw_key dd" ids n] list_all2_lengthD [OF l] dd(2) n d(2) by simp
      then have "ids ! n \<in> set ?all" using r(1) by (force simp: map_filter_def)
      note hit = target_matches_hit [OF this, of mid now "''sender''" target u]
      show ?thesis unfolding stored_def db' save_target_matches_spec(3,4)
        by (rule bexI [OF _ x(1)], intro conjI) (use x(2,3) hit r(2) in simp_all)
    qed
    have "stored target db' (v1_tx_to_v2_raw now tx explicit)" if "tx \<in> set txs" for tx
      by (rule st) (use that in \<open>simp_all add: rs_def v1_tx_to_v2_raw_def\<close>)
    then show ?thesis using res save_target_matches_spec(1) [OF g] unfolding db' by blast
  qed
qed

definition sample_tx :: transaction where
  "sample_tx = \<lparr>tx_id = 50, tx_user_id = 0, tx_wallet_address = ''w'', tx_timestamp = 3, tx_hash = ''h'',
     tx_chain = Chain_Ethereum, tx_raw_metadata = JNull\<rparr>"

theorem legacy_write_matches_all_witness:
  "stored 9 (snd (v2_write_transactions (\<lambda>i. i) 4 [sample_tx, sample_tx\<lparr>tx_id := 51\<rparr>] 9 None empty_bronze))
     (v1_tx_to_v2_raw 4 (sample_tx\<lparr>tx_id := 51\<rparr>) None)"
  using legacy_write_matches_all [OF _ prod.collapse, where db = empty_bronze and mid = "\<lambda>i. i" and now = 4
      and txs = "[sample_tx, sample_tx\<lparr>tx_id := 51\<rparr>]" and target = 9 and explicit = None]
  by (simp add: empty_bronze_def) (simp add: sample_tx_def)

text \<open>
  Checkpoints survive the conversion to the current model and back: the fields that the chain
  of the checkpoint resumes from (signature and slot, block, or timestamp) come back unchanged, for
  every 64-bit value, and the others are empty.
\<close>

theorem checkpoint_roundtrip:
  assumes "\<forall>v \<in> set_option (ck_last_slot cp) \<union> set_option (ck_last_block cp) \<union> set_option (ck_last_timestamp cp).
      i64_min \<le> v \<and> v \<le> i64_max"
  shows "v2_checkpoint_to_v1 (v1_checkpoint_to_v2_with_network i now cp target explicit) (ck_chain cp) (ck_wallet_address cp) =
    (case ck_chain cp of
       Chain_Solana \<Rightarrow> cp\<lparr>ck_last_block := None, ck_last_timestamp := None\<rparr>
     | Chain_Ethereum \<Rightarrow> cp\<lparr>ck_last_signature := None, ck_last_slot := None, ck_last_timestamp := None\<rparr>
     | Chain_Hyperliquid \<Rightarrow> cp\<lparr>ck_last_signature := None, ck_last_slot := None, ck_last_block := None\<rparr>)"
proof -
  have slot: "Option.bind (ck_last_slot cp) (\<lambda>v. json_as_i64 (JInt v)) = ck_last_slot cp"
    and block: "Option.bind (ck_last_block cp) (\<lambda>v. json_as_i64 (JInt v)) = ck_last_block cp"
    and ts: "Option.bind (ck_last_timestamp cp) (\<lambda>v. json_as_i64 (JInt v)) = ck_last_timestamp cp"
    using assms by (cases "ck_last_slot cp"; cases "ck_last_block cp"; cases "ck_last_timestamp cp"; simp)+
  show ?thesis
    using slot block ts
    by (cases cp; cases "ck_chain cp"; cases "ck_last_signature cp"; cases "ck_last_slot cp"; cases "ck_last_block cp";
        cases "ck_last_timestamp cp")
      (auto simp: v2_checkpoint_to_v1_def v1_checkpoint_to_v2_with_network_def build_v2_cursor_def field_if_def)
qed

theorem checkpoint_roundtrip_witness:
  "ck_last_slot (v2_checkpoint_to_v1 (v1_checkpoint_to_v2_with_network 1 2
       \<lparr>ck_chain = Chain_Solana, ck_wallet_address = ''w'', ck_last_signature = Some ''s'', ck_last_slot = Some 77,
        ck_last_block = None, ck_last_timestamp = None\<rparr> 9 None) Chain_Solana ''w'') = Some 77"
  using checkpoint_roundtrip [of "\<lparr>ck_chain = Chain_Solana, ck_wallet_address = ''w'', ck_last_signature = Some ''s'',
      ck_last_slot = Some 77, ck_last_block = None, ck_last_timestamp = None\<rparr>" 1 2 9 None]
  by (simp add: i64_min_def i64_max_def)

lemma find_eq: "find (\<lambda>n. n = d) xs = (if d \<in> set xs then Some d else None)"
  by (induction xs) auto

lemma mset_singleton_nth: "mset xs = mset ys \<Longrightarrow> length xs = 1 \<Longrightarrow> xs ! 0 = ys ! 0"
  by (cases xs; cases ys) auto

text \<open>The choice depends on the recorded networks only as a multiset.\<close>

lemma resolve_network_perm:
  assumes "mset networks = mset networks'" "map_of bronze (tx_hash tx) = Some networks"
    and "map_of bronze' (tx_hash tx) = Some networks'"
  shows "resolve_effective_network tx explicit bronze = resolve_effective_network tx explicit bronze'"
proof -
  let ?fam = "\<lambda>n. chain_family_for_network n = Some (chain_to_family (tx_chain tx))"
  have f: "mset (filter ?fam networks) = mset (filter ?fam networks')" using assms(1) by simp
  note eq = mset_eq_setD [OF f] mset_eq_setD [OF assms(1)] mset_eq_length [OF f] mset_eq_length [OF assms(1)]
    mset_singleton_nth [OF f] mset_singleton_nth [OF assms(1)]
  have nil: "filter ?fam networks = [] \<longleftrightarrow> filter ?fam networks' = []" "networks = [] \<longleftrightarrow> networks' = []"
    using eq(3,4) by (metis length_0_conv)+
  show ?thesis
    unfolding resolve_effective_network_def Let_def assms(2,3) option.case min_string_def find_eq
      eq(1,2) nil eq(3) eq(4)
    using eq(5,6) by (auto simp: eq(3,4) split: option.split)
qed

text \<open>
  The network of a legacy transaction. An explicit network wins. Otherwise the network is one
  of those recorded in Bronze for the hash, when there is one, and it is reported as certain
  exactly when a single network is recorded or a single one of the chain's own family; it is
  never of another family while one of the own family is recorded among several; and the choice
  does not depend on the order in which the database lists the networks.
\<close>

theorem resolve_network_sound:
  fixes tx bronze
  defines "networks \<equiv> (case map_of bronze (tx_hash tx) of Some ns \<Rightarrow> ns | None \<Rightarrow> [])"
    and "own \<equiv> (\<lambda>n. chain_family_for_network n = Some (chain_to_family (tx_chain tx)))"
  shows "resolve_effective_network tx (Some m) bronze = (m, False)
    \<and> (let (n, inferred) = resolve_effective_network tx None bronze in
         (if networks = [] then n = chain_to_default_network (tx_chain tx) else n \<in> set networks)
         \<and> (inferred \<longleftrightarrow> length networks \<noteq> 1 \<and> length (filter own networks) \<noteq> 1)
         \<and> (length networks \<noteq> 1 \<and> list_ex own networks \<longrightarrow> own n)
         \<and> (\<forall>bronze' networks'. map_of bronze' (tx_hash tx) = Some networks' \<and> networks \<noteq> []
              \<and> mset networks' = mset networks \<longrightarrow>
              resolve_effective_network tx None bronze' = (n, inferred)))"
proof (cases "map_of bronze (tx_hash tx)")
  case None
  then show ?thesis by (simp add: resolve_effective_network_def networks_def)
next
  case (Some ns)
  then have ns: "networks = ns" by (simp add: networks_def)
  let ?default = "chain_to_default_network (tx_chain tx)"
  let ?r = "resolve_effective_network tx None bronze"
  have r: "?r = (if length ns = 1 then (ns ! 0, False)
      else if length (filter own ns) = 1 then (filter own ns ! 0, False)
      else if filter own ns \<noteq> []
      then (if ?default \<in> set (filter own ns) then ?default else Min (set (filter own ns)), True)
      else if ns \<noteq> [] then (Min (set ns), True) else (?default, True))"
    using Some unfolding own_def
    by (simp add: resolve_effective_network_def Let_def find_eq min_string_def)
  have fin: "filter own ns \<noteq> [] \<Longrightarrow> Min (set (filter own ns)) \<in> set (filter own ns)" "ns \<noteq> [] \<Longrightarrow> Min (set ns) \<in> set ns"
    by (rule Min_in; simp only: finite_set set_empty not_False_eq_True)+
  have one: "length (filter own ns) = 1 \<Longrightarrow> filter own ns ! 0 \<in> set (filter own ns)" "length ns = 1 \<Longrightarrow> ns ! 0 \<in> set ns"
    by (metis less_one nth_mem)+
  have m1: "if ns = [] then fst ?r = ?default else fst ?r \<in> set ns"
  proof -
    have sub: "set (filter own ns) \<subseteq> set ns" by simp
    have "length (filter own ns) = 1 \<Longrightarrow> filter own ns ! 0 \<in> set ns"
      "filter own ns \<noteq> [] \<Longrightarrow> Min (set (filter own ns)) \<in> set ns"
      "?default \<in> set (filter own ns) \<Longrightarrow> ?default \<in> set ns"
      using one(1) fin(1) sub by blast+
    then show ?thesis unfolding r using fin(2) one(2) by (simp del: set_filter)
  qed
  have m2: "snd ?r \<longleftrightarrow> length ns \<noteq> 1 \<and> length (filter own ns) \<noteq> 1" unfolding r by simp
  have m3: "own (fst ?r)" if own: "length ns \<noteq> 1" "list_ex own ns"
  proof -
    have ne: "filter own ns \<noteq> []" using own(2) by (auto simp: list_ex_iff filter_empty_conv)
    have "fst ?r \<in> set (filter own ns)"
      unfolding r using own(1) ne fin(1) one(1) by (simp del: set_filter split: if_splits)
    then show ?thesis by simp
  qed
  have "resolve_effective_network tx None bronze' = ?r"
    if "map_of bronze' (tx_hash tx) = Some networks'" "mset networks' = mset ns" for bronze' networks'
    using resolve_network_perm [OF that(2) that(1) Some] .
  then show ?thesis using m1 m2 m3 unfolding ns
    by (cases ?r) (auto simp: resolve_effective_network_def)
qed

theorem resolve_network_sound_witness:
  "resolve_effective_network sample_tx None [(''h'', [''base-mainnet'', ''solana-mainnet''])] = (''base-mainnet'', False)"
proof -
  have fam: "chain_family_for_network ''base-mainnet'' = Some CF_Evm" "chain_family_for_network ''solana-mainnet'' = Some CF_Solana"
    by code_simp+
  show ?thesis
    using resolve_network_sound [where tx = sample_tx and bronze = "[(''h'', [''base-mainnet'', ''solana-mainnet''])]" and m = "[]"]
    by (auto simp: sample_tx_def fam split: prod.splits)
qed

end
