(* ===== verification/Targets.thy ===== *)
theory Targets
  imports Dual_Write
begin

text \<open>
  Index targets: validation and typed filter specifications (\<open>core/src/connector.rs\<close>), address
  normalization (\<open>core/src/v2.rs\<close>, \<open>api/src/main.rs\<close>), the legacy wallet shim and the legacy
  connector (\<open>adapters/src/compat.rs\<close>), and the registration of targets
  (\<open>adapters/src/v2_repo.rs\<close>, \<open>adapters/src/dual_write.rs\<close>).
\<close>

section \<open>Addresses\<close>

definition normalize_evm_address :: "string \<Rightarrow> string" where
  "normalize_evm_address addr = to_lowercase addr"

definition normalize_solana_address :: "string \<Rightarrow> string" where
  "normalize_solana_address addr = addr"

definition normalize_target_address :: "target_kind \<Rightarrow> chain_family \<Rightarrow> string \<Rightarrow> string" where
  "normalize_target_address kind family addr =
     (case (family, kind) of
        (CF_Evm, _) \<Rightarrow> normalize_evm_address addr
      | (CF_Hyperliquid, TK_Wallet) \<Rightarrow> normalize_evm_address addr
      | _ \<Rightarrow> normalize_solana_address addr)"

section \<open>Connectors and filter specifications\<close>

record connector_capabilities =
  cc_supported_target_kinds :: "target_kind list"
  cc_supported_modes :: "target_mode list"
  cc_chain_family :: chain_family

definition supports_target_kind :: "connector_capabilities \<Rightarrow> target_kind \<Rightarrow> bool" where
  "supports_target_kind cc kind \<longleftrightarrow> kind \<in> set (cc_supported_target_kinds cc)"

definition supports_mode :: "connector_capabilities \<Rightarrow> target_mode \<Rightarrow> bool" where
  "supports_mode cc m =
     (if m = TM_Both then TM_Backfill \<in> set (cc_supported_modes cc) \<or> TM_Both \<in> set (cc_supported_modes cc)
      else m \<in> set (cc_supported_modes cc))"

definition can_service :: "connector_capabilities \<Rightarrow> index_target \<Rightarrow> bool" where
  "can_service cc t \<longleftrightarrow> cc_chain_family cc = it_chain_family t \<and> supports_target_kind cc (it_kind t)"

record wallet_filter_spec =
  wf_asset_filter :: "string list"
  wf_min_amount :: "string option"
  wf_directions :: "string list"

record contract_filter_spec =
  cf_event_signatures :: "string list"
  cf_topic_filters :: "(string \<times> json) list option"

record program_filter_spec =
  pf_instruction_discriminators :: "string list"
  pf_include_cpi :: bool

record account_filter_spec =
  af_access_types :: "string list"
  af_associated_program :: "string option"

record topic_filter_spec =
  tf_topics :: "json list"
  tf_address_filter :: "string list"

record market_filter_spec =
  mf_data_types :: "string list"
  mf_min_size :: "string option"

record pool_filter_spec =
  lf_protocol :: "string option"
  lf_token_pair :: "string list"
  lf_event_types :: "string list"

record protocol_address =
  pad_address :: string
  pad_role :: string
  pad_label :: "string option"

record protocol_filter_spec =
  rf_name :: string
  rf_addresses :: "(string \<times> protocol_address list) list"

datatype typed_filter_spec =
    TFS_Wallet wallet_filter_spec
  | TFS_Contract contract_filter_spec
  | TFS_Program program_filter_spec
  | TFS_Account account_filter_spec
  | TFS_TopicFilter topic_filter_spec
  | TFS_Market market_filter_spec
  | TFS_Pool pool_filter_spec
  | TFS_Protocol protocol_filter_spec

text \<open>
  The deserializers of the eight structures are derived by \<open>serde\<close>: they are arguments.
\<close>

record spec_decoders =
  dec_wallet :: "json \<Rightarrow> wallet_filter_spec result"
  dec_contract :: "json \<Rightarrow> contract_filter_spec result"
  dec_program :: "json \<Rightarrow> program_filter_spec result"
  dec_account :: "json \<Rightarrow> account_filter_spec result"
  dec_topic :: "json \<Rightarrow> topic_filter_spec result"
  dec_market :: "json \<Rightarrow> market_filter_spec result"
  dec_pool :: "json \<Rightarrow> pool_filter_spec result"
  dec_protocol :: "json \<Rightarrow> protocol_filter_spec result"

definition spec_or :: "('s \<Rightarrow> typed_filter_spec) \<Rightarrow> (json \<Rightarrow> 's result) \<Rightarrow> 's result \<Rightarrow> json option \<Rightarrow> typed_filter_spec result" where
  "spec_or wrap dec absent v = map_sum id wrap (case v of Some j \<Rightarrow> dec j | None \<Rightarrow> absent)"

fun extract_filter_spec_of :: "spec_decoders \<Rightarrow> target_kind \<Rightarrow> json option \<Rightarrow> typed_filter_spec result" where
  "extract_filter_spec_of d TK_Wallet v = spec_or TFS_Wallet (dec_wallet d)
     (Inr \<lparr>wf_asset_filter = [], wf_min_amount = None, wf_directions = []\<rparr>) v"
| "extract_filter_spec_of d TK_Contract v = spec_or TFS_Contract (dec_contract d)
     (Inr \<lparr>cf_event_signatures = [], cf_topic_filters = None\<rparr>) v"
| "extract_filter_spec_of d TK_Program v = spec_or TFS_Program (dec_program d)
     (Inr \<lparr>pf_instruction_discriminators = [], pf_include_cpi = True\<rparr>) v"
| "extract_filter_spec_of d TK_Account v = spec_or TFS_Account (dec_account d)
     (Inr \<lparr>af_access_types = [], af_associated_program = None\<rparr>) v"
| "extract_filter_spec_of d TK_TopicFilter v = spec_or TFS_TopicFilter (dec_topic d)
     (Inl ''topic_filter target requires filter_spec'') v"
| "extract_filter_spec_of d TK_Market v = spec_or TFS_Market (dec_market d)
     (Inr \<lparr>mf_data_types = [], mf_min_size = None\<rparr>) v"
| "extract_filter_spec_of d TK_Pool v = spec_or TFS_Pool (dec_pool d)
     (Inr \<lparr>lf_protocol = None, lf_token_pair = [], lf_event_types = []\<rparr>) v"
| "extract_filter_spec_of d TK_Protocol v = spec_or TFS_Protocol (dec_protocol d)
     (Inl ''protocol target requires filter_spec'') v"

definition extract_filter_spec :: "spec_decoders \<Rightarrow> index_target \<Rightarrow> typed_filter_spec result" where
  "extract_filter_spec d t = extract_filter_spec_of d (it_kind t) (it_filter_spec t)"

text \<open>The derived \<open>Debug\<close> of the two enumerations prints the name of the variant.\<close>

fun target_kind_debug :: "target_kind \<Rightarrow> string" where
  "target_kind_debug TK_Wallet = ''Wallet''"
| "target_kind_debug TK_Contract = ''Contract''"
| "target_kind_debug TK_Program = ''Program''"
| "target_kind_debug TK_Account = ''Account''"
| "target_kind_debug TK_TopicFilter = ''TopicFilter''"
| "target_kind_debug TK_Market = ''Market''"
| "target_kind_debug TK_Pool = ''Pool''"
| "target_kind_debug TK_Protocol = ''Protocol''"

fun chain_family_debug :: "chain_family \<Rightarrow> string" where
  "chain_family_debug CF_Solana = ''Solana''"
| "chain_family_debug CF_Evm = ''Evm''"
| "chain_family_debug CF_Hyperliquid = ''Hyperliquid''"

definition complex_kind :: "target_kind \<Rightarrow> bool" where
  "complex_kind k \<longleftrightarrow> k = TK_TopicFilter \<or> k = TK_Protocol"

definition bad_from_block :: "index_target \<Rightarrow> bool" where
  "bad_from_block t \<longleftrightarrow>
     (case Option.bind (it_filter_spec t) (\<lambda>s. json_get s ''from_block'') of
        None \<Rightarrow> False
      | Some block \<Rightarrow> it_chain_family t \<noteq> CF_Evm
          \<or> (case json_as_u64 block of None \<Rightarrow> True | Some n \<Rightarrow> int n > i64_max))"

definition validate_target :: "index_target \<Rightarrow> string list + unit" where
  "validate_target t =
     (let kind = it_kind t;
          errors =
            (if \<not> valid_for_chain_family kind (it_chain_family t)
             then [''target kind '' @ target_kind_debug kind @ '' is not valid for chain family ''
                     @ chain_family_debug (it_chain_family t)] else [])
            @ (if \<not> complex_kind kind \<and> (case it_address t of None \<Rightarrow> True | Some a \<Rightarrow> a = [])
               then [''target kind '' @ target_kind_debug kind @ '' requires a non-empty address''] else [])
            @ (if bad_from_block t
               then [''from_block must be a nonnegative integer up to 9223372036854775807 on an EVM target''] else [])
            @ (if complex_kind kind \<and> it_filter_spec t = None
               then [''target kind '' @ target_kind_debug kind @ '' requires filter_spec''] else [])
      in if errors = [] then Inr () else Inl errors)"

section \<open>The legacy shim\<close>

fun chain_to_family_and_network :: "chain \<Rightarrow> chain_family \<times> string" where
  "chain_to_family_and_network Chain_Solana = (CF_Solana, ''solana-mainnet'')"
| "chain_to_family_and_network Chain_Ethereum = (CF_Evm, ''ethereum-mainnet'')"
| "chain_to_family_and_network Chain_Hyperliquid = (CF_Hyperliquid, ''hypercore-mainnet'')"

definition chain_str_to_enum :: "string \<Rightarrow> chain option" where
  "chain_str_to_enum s =
     (if s = ''solana'' then Some Chain_Solana
      else if s = ''ethereum'' then Some Chain_Ethereum
      else if s = ''hyperliquid'' then Some Chain_Hyperliquid else None)"

definition legacy_wallet_target_from_chain :: "uuid \<Rightarrow> timestamp \<Rightarrow> chain \<Rightarrow> string \<Rightarrow> uuid option \<Rightarrow> index_target" where
  "legacy_wallet_target_from_chain i now c wallet owner =
     (case chain_to_family_and_network c of (family, network) \<Rightarrow>
        \<lparr>it_id = i, it_kind = TK_Wallet, it_network = network, it_chain_family = family,
         it_address = Some (case family of CF_Solana \<Rightarrow> normalize_solana_address wallet
                                         | _ \<Rightarrow> normalize_evm_address wallet),
         it_filter_spec = None, it_mode = TM_Both, it_label = Some (''Legacy wallet: '' @ wallet),
         it_owner_id = owner, it_created_at = now, it_updated_at = now\<rparr>)"

definition legacy_wallet_target :: "uuid \<Rightarrow> timestamp \<Rightarrow> string \<Rightarrow> string \<Rightarrow> uuid option \<Rightarrow> index_target option" where
  "legacy_wallet_target i now s wallet owner =
     map_option (\<lambda>c. legacy_wallet_target_from_chain i now c wallet owner) (chain_str_to_enum s)"

definition json_opt :: "('a \<Rightarrow> json) \<Rightarrow> 'a option \<Rightarrow> json" where
  "json_opt f v = (case v of Some x \<Rightarrow> f x | None \<Rightarrow> JNull)"

definition v1_checkpoint_to_cursor :: "indexer_checkpoint \<Rightarrow> json" where
  "v1_checkpoint_to_cursor cp = JObject
     [(''v1_compat'', JBool True), (''last_signature'', json_opt JString (ck_last_signature cp)),
      (''last_slot'', json_opt JInt (ck_last_slot cp)), (''last_block'', json_opt JInt (ck_last_block cp)),
      (''last_timestamp'', json_opt JInt (ck_last_timestamp cp))]"

definition cursor_to_v1_checkpoint :: "string \<Rightarrow> string \<Rightarrow> json \<Rightarrow> indexer_checkpoint option" where
  "cursor_to_v1_checkpoint s wallet cursor =
     (case Option.bind (json_get cursor ''v1_compat'') json_as_bool of
        Some True \<Rightarrow>
          map_option (\<lambda>c. \<lparr>ck_chain = c, ck_wallet_address = wallet,
            ck_last_signature = Option.bind (json_get cursor ''last_signature'') json_as_str,
            ck_last_slot = Option.bind (json_get cursor ''last_slot'') json_as_i64,
            ck_last_block = Option.bind (json_get cursor ''last_block'') json_as_i64,
            ck_last_timestamp = Option.bind (json_get cursor ''last_timestamp'') json_as_i64\<rparr>) (chain_str_to_enum s)
      | _ \<Rightarrow> None)"

fun chain_str :: "chain \<Rightarrow> string" where
  "chain_str Chain_Solana = ''solana''"
| "chain_str Chain_Ethereum = ''ethereum''"
| "chain_str Chain_Hyperliquid = ''hyperliquid''"

definition legacy_capabilities :: "chain \<Rightarrow> connector_capabilities" where
  "legacy_capabilities c = \<lparr>cc_supported_target_kinds = [TK_Wallet], cc_supported_modes = [TM_Backfill],
     cc_chain_family = fst (chain_to_family_and_network c)\<rparr>"

text \<open>\<open>i\<close> is the fresh id of the record.\<close>

definition v1_tx_to_raw :: "uuid \<Rightarrow> timestamp \<Rightarrow> transaction \<Rightarrow> string \<Rightarrow> raw_transaction" where
  "v1_tx_to_raw i now tx network =
     \<lparr>raw_id = i, raw_network = network, raw_tx_hash = tx_hash tx, raw_timestamp = tx_timestamp tx,
      raw_block_number = (case Option.bind (json_get (tx_raw_metadata tx) ''block_number'') json_as_i64 of
          Some b \<Rightarrow> Some b | None \<Rightarrow> Option.bind (json_get (tx_raw_metadata tx) ''slot'') json_as_i64),
      raw_metadata = tx_raw_metadata tx, raw_source = ''legacy-compat'', raw_ingestion_run_id = None,
      raw_ingested_at = now\<rparr>"

text \<open>\<open>fetch\<close> is the \<open>fetch_history\<close> of the wrapped ingestor; \<open>fid n\<close> is the id of the n-th record.\<close>

definition legacy_backfill ::
    "(string \<Rightarrow> nat \<Rightarrow> uuid \<Rightarrow> indexer_checkpoint option \<Rightarrow> transaction list result) \<Rightarrow> (nat \<Rightarrow> uuid) \<Rightarrow> timestamp \<Rightarrow>
     chain \<Rightarrow> index_target \<Rightarrow> json option \<Rightarrow> nat \<Rightarrow> raw_transaction list result" where
  "legacy_backfill fetch fid now c target cursor limit =
     (if it_kind target \<noteq> TK_Wallet
      then Inl (''LegacyConnectorAdapter only supports wallet targets, got '' @ target_kind_debug (it_kind target))
      else case it_address target of
        None \<Rightarrow> Inl ''wallet target must have an address''
      | Some wallet \<Rightarrow>
          (case fetch wallet limit (case it_owner_id target of Some u \<Rightarrow> u | None \<Rightarrow> uuid_nil)
                  (Option.bind cursor (cursor_to_v1_checkpoint (chain_str c) wallet)) of
             Inl e \<Rightarrow> Inl e
           | Inr txs \<Rightarrow> Inr (map (\<lambda>(n, tx). v1_tx_to_raw (fid n) now tx (snd (chain_to_family_and_network c)))
                              (enumerate 0 txs))))"

section \<open>Registration\<close>

type_synonym targets = "index_target list"

text \<open>
  The unique index on (kind, network, address, owner) compares neither a missing address nor a
  missing owner as equal.
\<close>

definition same_target :: "index_target \<Rightarrow> index_target \<Rightarrow> bool" where
  "same_target t x \<longleftrightarrow> it_kind x = it_kind t \<and> it_network x = it_network t
     \<and> it_address x = it_address t \<and> it_address t \<noteq> None
     \<and> it_owner_id x = it_owner_id t \<and> it_owner_id t \<noteq> None"

definition create_index_target :: "timestamp \<Rightarrow> index_target \<Rightarrow> targets \<Rightarrow> index_target result \<times> targets" where
  "create_index_target now t ts =
     (if list_ex (same_target t) ts
      then (Inr t, map (\<lambda>x. if same_target t x then x\<lparr>it_updated_at := now\<rparr> else x) ts)
      else if it_id t \<in> set (map it_id ts) then (Inl ''duplicate key value violates unique constraint'', ts)
      else (Inr t, ts @ [t]))"

definition get_index_target :: "uuid \<Rightarrow> targets \<Rightarrow> index_target option" where
  "get_index_target i ts = find (\<lambda>t. it_id t = i) ts"

definition get_index_target_by_address ::
    "target_kind \<Rightarrow> string \<Rightarrow> string \<Rightarrow> uuid option \<Rightarrow> targets \<Rightarrow> index_target option" where
  "get_index_target_by_address kind network address owner ts =
     find (\<lambda>t. it_kind t = kind \<and> it_network t = network \<and> it_address t = Some address \<and> it_owner_id t = owner) ts"

definition page :: "nat \<Rightarrow> nat \<Rightarrow> 'a list \<Rightarrow> 'a list" where
  "page limit off xs = take limit (drop off xs)"

definition matches_opt :: "'a option \<Rightarrow> 'a \<Rightarrow> bool" where
  "matches_opt f x \<longleftrightarrow> (case f of Some y \<Rightarrow> x = y | None \<Rightarrow> True)"

definition list_index_targets_filtered :: "string option \<Rightarrow> target_kind option \<Rightarrow> nat \<Rightarrow> nat \<Rightarrow> targets \<Rightarrow> targets" where
  "list_index_targets_filtered network kind limit off ts =
     page limit off (sort_key it_created_at
       (filter (\<lambda>t. matches_opt network (it_network t) \<and> matches_opt kind (it_kind t)) ts))"

definition list_index_targets_by_owner :: "uuid \<Rightarrow> string option \<Rightarrow> target_kind option \<Rightarrow> targets \<Rightarrow> targets" where
  "list_index_targets_by_owner owner network kind ts =
     sort_key it_created_at (filter (\<lambda>t. it_owner_id t = Some owner
       \<and> matches_opt network (it_network t) \<and> matches_opt kind (it_kind t)) ts)"

definition ensure_wallet_target_inner ::
    "uuid \<Rightarrow> timestamp \<Rightarrow> string \<Rightarrow> chain_family \<Rightarrow> string \<Rightarrow> uuid option \<Rightarrow> targets \<Rightarrow> index_target result \<times> targets" where
  "ensure_wallet_target_inner i now network family wallet owner ts =
     (case get_index_target_by_address TK_Wallet network wallet owner ts of
        Some existing \<Rightarrow> (Inr existing, ts)
      | None \<Rightarrow> create_index_target now
          \<lparr>it_id = i, it_kind = TK_Wallet, it_network = network, it_chain_family = family,
           it_address = Some wallet, it_filter_spec = None, it_mode = TM_Both, it_label = None,
           it_owner_id = owner, it_created_at = now, it_updated_at = now\<rparr> ts)"

definition ensure_wallet_target ::
    "uuid \<Rightarrow> timestamp \<Rightarrow> chain \<Rightarrow> string \<Rightarrow> uuid option \<Rightarrow> targets \<Rightarrow> index_target result \<times> targets" where
  "ensure_wallet_target i now c wallet owner ts =
     ensure_wallet_target_inner i now (chain_to_default_network c) (chain_family_from_chain c) wallet owner ts"

definition ensure_wallet_target_for_network ::
    "uuid \<Rightarrow> timestamp \<Rightarrow> string \<Rightarrow> chain \<Rightarrow> string \<Rightarrow> uuid option \<Rightarrow> targets \<Rightarrow> index_target result \<times> targets" where
  "ensure_wallet_target_for_network i now network c wallet owner ts =
     ensure_wallet_target_inner i now network (chain_family_from_chain c) wallet owner ts"

section \<open>Properties\<close>

lemma find_append: "find P (xs @ ys) = (case find P xs of Some x \<Rightarrow> Some x | None \<Rightarrow> find P ys)"
  by (induction xs) auto

lemma find_id_None: "i \<notin> set (map f xs) \<Longrightarrow> find (\<lambda>x. f x = i) xs = None"
  by (force simp: find_None_iff)

lemma json_opt_i64:
  "\<forall>v \<in> set_option x. i64_min \<le> v \<and> v \<le> i64_max \<Longrightarrow> json_as_i64 (json_opt JInt x) = x"
  by (cases x) (simp_all add: json_opt_def)

lemma json_opt_str [simp]: "json_as_str (json_opt JString x) = x"
  by (cases x) (simp_all add: json_opt_def)

lemma chain_str_roundtrip [simp]: "chain_str_to_enum (chain_str c) = Some c"
  by (cases c) (simp_all add: chain_str_to_enum_def)

text \<open>
  The compatibility cursor of a checkpoint reads back as that checkpoint, all its fields
  included, and a cursor without the compatibility mark reads as no checkpoint.
\<close>

theorem compat_cursor_roundtrip:
  assumes "\<forall>v \<in> set_option (ck_last_slot cp) \<union> set_option (ck_last_block cp) \<union> set_option (ck_last_timestamp cp).
      i64_min \<le> v \<and> v \<le> i64_max"
  shows "cursor_to_v1_checkpoint (chain_str (ck_chain cp)) (ck_wallet_address cp) (v1_checkpoint_to_cursor cp) = Some cp
    \<and> cursor_to_v1_checkpoint s w (build_v2_cursor cp) = None"
proof
  have "json_as_i64 (json_opt JInt (ck_last_slot cp)) = ck_last_slot cp"
    "json_as_i64 (json_opt JInt (ck_last_block cp)) = ck_last_block cp"
    "json_as_i64 (json_opt JInt (ck_last_timestamp cp)) = ck_last_timestamp cp"
    using assms by (simp_all add: json_opt_i64)
  then show "cursor_to_v1_checkpoint (chain_str (ck_chain cp)) (ck_wallet_address cp) (v1_checkpoint_to_cursor cp) = Some cp"
    by (simp add: cursor_to_v1_checkpoint_def v1_checkpoint_to_cursor_def)
  show "cursor_to_v1_checkpoint s w (build_v2_cursor cp) = None"
    by (cases "ck_chain cp"; cases "ck_last_signature cp"; cases "ck_last_slot cp"; cases "ck_last_block cp";
        cases "ck_last_timestamp cp")
      (simp_all add: cursor_to_v1_checkpoint_def build_v2_cursor_def field_if_def)
qed

theorem compat_cursor_roundtrip_witness:
  "cursor_to_v1_checkpoint ''ethereum'' ''w'' (v1_checkpoint_to_cursor
     \<lparr>ck_chain = Chain_Ethereum, ck_wallet_address = ''w'', ck_last_signature = None, ck_last_slot = None,
      ck_last_block = Some 12, ck_last_timestamp = Some (-5)\<rparr>) =
   Some \<lparr>ck_chain = Chain_Ethereum, ck_wallet_address = ''w'', ck_last_signature = None, ck_last_slot = None,
      ck_last_block = Some 12, ck_last_timestamp = Some (-5)\<rparr>"
  using compat_cursor_roundtrip [of "\<lparr>ck_chain = Chain_Ethereum, ck_wallet_address = ''w'', ck_last_signature = None,
      ck_last_slot = None, ck_last_block = Some 12, ck_last_timestamp = Some (-5)\<rparr>"]
  by (simp add: i64_min_def i64_max_def)

text \<open>
  C33. A target passes validation exactly when its kind exists on its chain family, it has a
  non-empty address unless it is a topic filter or a protocol, it has a filter specification if
  it is one of these two, and a \<open>from_block\<close> of its filter is a 64-bit nonnegative
  integer on an EVM target. A valid target without a filter always has a default typed
  specification.
\<close>

theorem validate_target_sound:
  "(validate_target t = Inr () \<longleftrightarrow>
      valid_for_chain_family (it_kind t) (it_chain_family t)
      \<and> (if it_kind t \<in> {TK_TopicFilter, TK_Protocol} then it_filter_spec t \<noteq> None
         else it_address t \<notin> {None, Some []})
      \<and> (\<forall>f b. it_filter_spec t = Some f \<and> json_get f ''from_block'' = Some b \<longrightarrow>
           it_chain_family t = CF_Evm \<and> (\<exists>n. json_as_u64 b = Some n \<and> int n \<le> i64_max)))
   \<and> (validate_target t = Inr () \<and> it_filter_spec t = None \<longrightarrow>
       (\<exists>spec. extract_filter_spec d t = Inr spec))"
proof
  have addr: "(case it_address t of None \<Rightarrow> True | Some a \<Rightarrow> a = []) \<longleftrightarrow> it_address t \<in> {None, Some []}"
    by (simp split: option.split)
  have fb: "bad_from_block t \<longleftrightarrow> \<not> (\<forall>f b. it_filter_spec t = Some f \<and> json_get f ''from_block'' = Some b \<longrightarrow>
      it_chain_family t = CF_Evm \<and> (\<exists>n. json_as_u64 b = Some n \<and> int n \<le> i64_max))"
    by (auto simp: bad_from_block_def not_le split: option.splits bind_splits)
  show "validate_target t = Inr () \<longleftrightarrow>
      valid_for_chain_family (it_kind t) (it_chain_family t)
      \<and> (if it_kind t \<in> {TK_TopicFilter, TK_Protocol} then it_filter_spec t \<noteq> None
         else it_address t \<notin> {None, Some []})
      \<and> (\<forall>f b. it_filter_spec t = Some f \<and> json_get f ''from_block'' = Some b \<longrightarrow>
           it_chain_family t = CF_Evm \<and> (\<exists>n. json_as_u64 b = Some n \<and> int n \<le> i64_max))"
    unfolding validate_target_def Let_def addr fb complex_kind_def by (simp split: if_split)
  show "validate_target t = Inr () \<and> it_filter_spec t = None \<longrightarrow> (\<exists>spec. extract_filter_spec d t = Inr spec)"
    by (cases "it_kind t") (auto simp: extract_filter_spec_def validate_target_def complex_kind_def spec_or_def)
qed

theorem validate_target_sound_witness:
  "\<forall>d. \<exists>spec. extract_filter_spec d (sample_target\<lparr>it_kind := TK_Wallet, it_chain_family := CF_Evm,
      it_address := Some ''0x1'', it_filter_spec := None\<rparr>) = Inr spec"
  using validate_target_sound [of "sample_target\<lparr>it_kind := TK_Wallet, it_chain_family := CF_Evm,
      it_address := Some ''0x1'', it_filter_spec := None\<rparr>"]
  by simp

text \<open>
  Asking twice for the target of a wallet gives the same target, however much later and with
  whatever fresh id the second request comes, and the second request changes nothing; the
  target is of the wallet, its network and its owner.
\<close>

theorem ensure_wallet_target_idempotent:
  assumes "ensure_wallet_target_for_network i now network c wallet owner ts = (Inr t, ts')"
  shows "ensure_wallet_target_for_network i' now' network c wallet owner ts' = (Inr t, ts')
    \<and> t \<in> set ts' \<and> it_address t = Some wallet \<and> it_network t = network \<and> it_owner_id t = owner
    \<and> (\<forall>x \<in> set ts. x \<in> set ts') \<and> length ts' \<le> Suc (length ts)"
proof (cases "get_index_target_by_address TK_Wallet network wallet owner ts")
  case None
  let ?new = "\<lparr>it_id = i, it_kind = TK_Wallet, it_network = network, it_chain_family = chain_family_from_chain c,
    it_address = Some wallet, it_filter_spec = None, it_mode = TM_Both, it_label = None,
    it_owner_id = owner, it_created_at = now, it_updated_at = now\<rparr>"
  have no: "\<not> list_ex (same_target ?new) ts"
    using None by (auto simp: get_index_target_by_address_def find_None_iff list_ex_iff same_target_def)
  have t: "t = ?new" "ts' = ts @ [?new]"
    using assms None no
    by (auto simp: ensure_wallet_target_for_network_def ensure_wallet_target_inner_def create_index_target_def
        split: if_splits)
  have "get_index_target_by_address TK_Wallet network wallet owner ts' = Some t"
    using None by (simp add: t get_index_target_by_address_def find_append)
  then show ?thesis using t
    by (simp add: ensure_wallet_target_for_network_def ensure_wallet_target_inner_def)
next
  case (Some x)
  then have "t = x" "ts' = ts"
    using assms by (simp_all add: ensure_wallet_target_for_network_def ensure_wallet_target_inner_def)
  moreover have "x \<in> set ts" "it_address x = Some wallet" "it_network x = network" "it_owner_id x = owner"
    using Some by (auto simp: get_index_target_by_address_def find_Some_iff)
  ultimately show ?thesis
    using Some by (simp add: ensure_wallet_target_for_network_def ensure_wallet_target_inner_def)
qed

theorem ensure_wallet_target_idempotent_witness:
  "ensure_wallet_target_for_network 5 60 ''base-mainnet'' Chain_Ethereum ''0x1'' (Some 3)
     (snd (ensure_wallet_target_for_network 4 50 ''base-mainnet'' Chain_Ethereum ''0x1'' (Some 3) [sample_target])) =
   ensure_wallet_target_for_network 4 50 ''base-mainnet'' Chain_Ethereum ''0x1'' (Some 3) [sample_target]"
  using ensure_wallet_target_idempotent [where i = 4 and now = 50 and network = "''base-mainnet''" and c = Chain_Ethereum
      and wallet = "''0x1''" and owner = "Some 3" and ts = "[sample_target]" and i' = 5 and now' = 60]
  by (simp add: ensure_wallet_target_for_network_def ensure_wallet_target_inner_def get_index_target_by_address_def
      create_index_target_def same_target_def sample_target_def)

text \<open>
  Registering a target. When the insert does not meet an existing target of the same kind,
  network, address and owner, the returned target is the stored one. When it does, the existing
  row is only touched, and the target that is returned, with the fresh id of the request, is in the table under no
  row: reading it back by the returned id finds nothing. Targets without an owner never meet.
\<close>

theorem create_index_target_result:
  assumes "it_id t \<notin> set (map it_id ts)"
  shows "fst (create_index_target now t ts) = Inr t
    \<and> (\<not> list_ex (same_target t) ts \<longrightarrow> get_index_target (it_id t) (snd (create_index_target now t ts)) = Some t)
    \<and> (list_ex (same_target t) ts \<longrightarrow> get_index_target (it_id t) (snd (create_index_target now t ts)) = None)
    \<and> (it_owner_id t = None \<longrightarrow> snd (create_index_target now t ts) = ts @ [t])"
proof -
  have nf: "find (\<lambda>x. it_id x = it_id t) ts = None" by (rule find_id_None [OF assms])
  have "map it_id (map (\<lambda>x. if same_target t x then x\<lparr>it_updated_at := now\<rparr> else x) ts) = map it_id ts"
    by simp
  then have "it_id t \<notin> set (map it_id (map (\<lambda>x. if same_target t x then x\<lparr>it_updated_at := now\<rparr> else x) ts))"
    using assms by simp
  then have "find (\<lambda>x. it_id x = it_id t) (map (\<lambda>x. if same_target t x then x\<lparr>it_updated_at := now\<rparr> else x) ts) = None"
    by (rule find_id_None)
  moreover have "it_owner_id t = None \<Longrightarrow> \<not> list_ex (same_target t) ts" by (simp add: list_ex_iff same_target_def)
  ultimately show ?thesis using assms nf by (auto simp: create_index_target_def get_index_target_def find_append)
qed

theorem create_index_target_result_witness:
  "get_index_target 10 (snd (create_index_target 5 (sample_target\<lparr>it_id := 10, it_owner_id := Some 3\<rparr>)
     [sample_target\<lparr>it_owner_id := Some 3\<rparr>])) = None"
  using create_index_target_result [of "sample_target\<lparr>it_id := 10, it_owner_id := Some 3\<rparr>"
      "[sample_target\<lparr>it_owner_id := Some 3\<rparr>]" 5]
  by (simp add: same_target_def sample_target_def)

end
