(* ===== verification/Completeness.thy ===== *)
theory Completeness
  imports Targets Ledger
begin

text \<open>
  Dataset versions, dataset completeness and watermarks: the bookkeeping of what has been
  materialized (\<open>adapters/src/v2_repo.rs\<close>, \<open>adapters/src/dual_write.rs\<close>). Each table is the list
  of its rows. The optional bounds of a coverage window merge as two semilattices with neutral
  element \<open>None\<close>, and the properties of a window follow from theirs.
\<close>

section \<open>Dataset versions\<close>

record dataset_version =
  dv_id :: uuid
  dv_dataset_name :: string
  dv_version :: int
  dv_parser_hash :: "string option"
  dv_created_at :: timestamp
  dv_notes :: "string option"
  dv_status :: dataset_version_status

text \<open>The id is the primary key, and (dataset, version) is unique.\<close>

definition create_dataset_version :: "dataset_version \<Rightarrow> dataset_version list \<Rightarrow> dataset_version list result" where
  "create_dataset_version dv dvs =
     (if list_ex (\<lambda>v. dv_id v = dv_id dv \<or> dv_dataset_name v = dv_dataset_name dv \<and> dv_version v = dv_version dv) dvs
      then Inl ''duplicate key value violates unique constraint'' else Inr (dvs @ [dv]))"

definition list_dataset_versions :: "string \<Rightarrow> dataset_version list \<Rightarrow> dataset_version list" where
  "list_dataset_versions name dvs = sort_key (\<lambda>v. - dv_version v) (filter (\<lambda>v. dv_dataset_name v = name) dvs)"

definition first_row :: "'a list \<Rightarrow> 'a option" where
  "first_row xs = (case xs of [] \<Rightarrow> None | x # _ \<Rightarrow> Some x)"

definition get_latest_dataset_version :: "string \<Rightarrow> dataset_version list \<Rightarrow> dataset_version option" where
  "get_latest_dataset_version name dvs =
     first_row (sort_key (\<lambda>v. - dv_version v) (filter (\<lambda>v. dv_dataset_name v = name) dvs))"

definition get_active_dataset_version :: "string \<Rightarrow> dataset_version list \<Rightarrow> dataset_version option" where
  "get_active_dataset_version name dvs =
     first_row (sort_key (\<lambda>v. - dv_version v)
       (filter (\<lambda>v. dv_dataset_name v = name \<and> dv_status v = DVS_Active) dvs))"

definition list_datasets :: "dataset_version list \<Rightarrow> string list" where
  "list_datasets dvs = sort (remdups (map dv_dataset_name dvs))"

definition get_dataset_version_by_id :: "uuid \<Rightarrow> dataset_version list \<Rightarrow> dataset_version option" where
  "get_dataset_version_by_id i dvs = find (\<lambda>v. dv_id v = i) dvs"

definition mark_version_superseded :: "uuid \<Rightarrow> dataset_version list \<Rightarrow> dataset_version list" where
  "mark_version_superseded i dvs = map (\<lambda>v. if dv_id v = i then v\<lparr>dv_status := DVS_Superseded\<rparr> else v) dvs"

text \<open>
  Get or create the version of each dataset. \<open>down\<close> tells for which names the database cannot be
  read, \<open>fid\<close> is the fresh id per name. The result is the map of the resolved names.
\<close>

definition initial_version :: "(string \<Rightarrow> uuid) \<Rightarrow> timestamp \<Rightarrow> string \<Rightarrow> string \<Rightarrow> dataset_version" where
  "initial_version fid now note name =
     \<lparr>dv_id = fid name, dv_dataset_name = name, dv_version = 1, dv_parser_hash = None, dv_created_at = now,
      dv_notes = Some note, dv_status = DVS_Active\<rparr>"

fun resolve_dataset_versions ::
    "(string \<Rightarrow> bool) \<Rightarrow> (string \<Rightarrow> uuid) \<Rightarrow> timestamp \<Rightarrow> string \<Rightarrow> string list \<Rightarrow>
     (string \<rightharpoonup> uuid) \<times> dataset_version list \<Rightarrow> (string \<rightharpoonup> uuid) \<times> dataset_version list" where
  "resolve_dataset_versions down fid now note [] (m, dvs) = (m, dvs)"
| "resolve_dataset_versions down fid now note (name # names) (m, dvs) =
     resolve_dataset_versions down fid now note names
       (if down name then (m, dvs)
        else case get_active_dataset_version name dvs of
            Some v \<Rightarrow> (m(name \<mapsto> dv_id v), dvs)
          | None \<Rightarrow> (case create_dataset_version (initial_version fid now note name) dvs of
                Inr dvs' \<Rightarrow> (m(name \<mapsto> fid name), dvs')
              | Inl _ \<Rightarrow> (m, dvs)))"

definition resolve_silver_dataset_versions ::
    "(string \<Rightarrow> bool) \<Rightarrow> (string \<Rightarrow> uuid) \<Rightarrow> timestamp \<Rightarrow> dataset_version list \<Rightarrow> (string \<rightharpoonup> uuid) \<times> dataset_version list" where
  "resolve_silver_dataset_versions down fid now dvs =
     resolve_dataset_versions down fid now ''Auto-created during Silver materialization''
       (map as_sql_str silver_materializable) (Map.empty, dvs)"

definition resolve_gold_dataset_versions ::
    "(string \<Rightarrow> bool) \<Rightarrow> (string \<Rightarrow> uuid) \<Rightarrow> timestamp \<Rightarrow> dataset_version list \<Rightarrow> (string \<rightharpoonup> uuid) \<times> dataset_version list" where
  "resolve_gold_dataset_versions down fid now dvs =
     resolve_dataset_versions down fid now ''Auto-created during Gold materialization''
       (map as_sql_str gold_materializable) (Map.empty, dvs)"

section \<open>Completeness\<close>

record dataset_completeness =
  dc_id :: uuid
  dc_target_id :: uuid
  dc_dataset_name :: string
  dc_dataset_version_id :: "uuid option"
  dc_network :: string
  dc_status :: completeness_status
  dc_coverage_start :: "int option"
  dc_coverage_end :: "int option"
  dc_block_start :: "int option"
  dc_block_end :: "int option"
  dc_last_ingestion_run_id :: "uuid option"
  dc_records_count :: int
  dc_gap_ranges :: "json option"
  dc_notes :: "string option"
  dc_created_at :: timestamp
  dc_updated_at :: timestamp

definition completeness_key :: "dataset_completeness \<Rightarrow> uuid \<times> string \<times> string" where
  "completeness_key d = (dc_target_id d, dc_dataset_name d, dc_network d)"

text \<open>The \<open>CASE\<close> expressions for a lower and an upper bound: the stored value first, then the incoming one.\<close>

fun widen_start :: "int option \<Rightarrow> int option \<Rightarrow> int option" where
  "widen_start old None = old"
| "widen_start None (Some y) = Some y"
| "widen_start (Some x) (Some y) = (if y < x then Some y else Some x)"

fun widen_end :: "int option \<Rightarrow> int option \<Rightarrow> int option" where
  "widen_end old None = old"
| "widen_end None (Some y) = Some y"
| "widen_end (Some x) (Some y) = (if y > x then Some y else Some x)"

definition starts_later :: "int option \<Rightarrow> int option \<Rightarrow> bool" where
  "starts_later old new \<longleftrightarrow> old \<noteq> None \<and> (case new of None \<Rightarrow> True | Some y \<Rightarrow> y > the old)"

definition ends_earlier :: "int option \<Rightarrow> int option \<Rightarrow> bool" where
  "ends_earlier old new \<longleftrightarrow> old \<noteq> None \<and> (case new of None \<Rightarrow> True | Some y \<Rightarrow> y < the old)"

definition narrower :: "dataset_completeness \<Rightarrow> dataset_completeness \<Rightarrow> bool" where
  "narrower old new \<longleftrightarrow>
     starts_later (dc_coverage_start old) (dc_coverage_start new)
     \<or> ends_earlier (dc_coverage_end old) (dc_coverage_end new)
     \<or> starts_later (dc_block_start old) (dc_block_start new)
     \<or> ends_earlier (dc_block_end old) (dc_block_end new)"

definition merge_completeness :: "dataset_completeness \<Rightarrow> dataset_completeness \<Rightarrow> dataset_completeness" where
  "merge_completeness new old =
     (let same = dc_dataset_version_id old = dc_dataset_version_id new;
          bound = (\<lambda>widen f. if same then widen (f old) (f new) else f new)
      in old\<lparr>dc_dataset_version_id := dc_dataset_version_id new,
          dc_status := (if same \<and> dc_status old \<noteq> CS_Complete \<and> dc_status new = CS_Complete \<and> narrower old new
                        then dc_status old else dc_status new),
          dc_coverage_start := bound widen_start dc_coverage_start,
          dc_coverage_end := bound widen_end dc_coverage_end,
          dc_block_start := bound widen_start dc_block_start,
          dc_block_end := bound widen_end dc_block_end,
          dc_last_ingestion_run_id := dc_last_ingestion_run_id new,
          dc_records_count := dc_records_count new,
          dc_gap_ranges := dc_gap_ranges new,
          dc_notes := dc_notes new,
          dc_updated_at := dc_updated_at new\<rparr>)"

definition upsert_dataset_completeness ::
    "dataset_completeness \<Rightarrow> dataset_completeness list \<Rightarrow> dataset_completeness list result" where
  "upsert_dataset_completeness d dcs =
     (if list_ex (\<lambda>x. completeness_key x = completeness_key d) dcs
      then Inr (map (\<lambda>x. if completeness_key x = completeness_key d then merge_completeness d x else x) dcs)
      else if list_ex (\<lambda>x. dc_id x = dc_id d) dcs then Inl ''duplicate key value violates unique constraint''
      else Inr (dcs @ [d]))"

definition update_completeness_after_run ::
    "timestamp \<Rightarrow> uuid \<Rightarrow> string \<Rightarrow> string \<Rightarrow> completeness_status \<Rightarrow> int option \<Rightarrow> int option \<Rightarrow> int option \<Rightarrow> int option \<Rightarrow>
     int \<Rightarrow> uuid \<Rightarrow> dataset_completeness list \<Rightarrow> dataset_completeness list" where
  "update_completeness_after_run now target ds network st cov_start cov_end blk_start blk_end records run dcs =
     map (\<lambda>x. if completeness_key x = (target, ds, network)
              then x\<lparr>dc_status := st,
                  dc_coverage_start := widen_start (dc_coverage_start x) cov_start,
                  dc_coverage_end := widen_end (dc_coverage_end x) cov_end,
                  dc_block_start := widen_start (dc_block_start x) blk_start,
                  dc_block_end := widen_end (dc_block_end x) blk_end,
                  dc_records_count := records, dc_last_ingestion_run_id := Some run, dc_updated_at := now\<rparr>
              else x) dcs"

definition get_dataset_completeness :: "uuid \<Rightarrow> string \<Rightarrow> string \<Rightarrow> dataset_completeness list \<Rightarrow> dataset_completeness option" where
  "get_dataset_completeness target ds network dcs = find (\<lambda>x. completeness_key x = (target, ds, network)) dcs"

definition list_completeness_by_target :: "uuid \<Rightarrow> dataset_completeness list \<Rightarrow> dataset_completeness list" where
  "list_completeness_by_target target dcs =
     sort_key (\<lambda>x. (dc_dataset_name x, dc_network x)) (filter (\<lambda>x. dc_target_id x = target) dcs)"

definition list_completeness_by_dataset :: "string \<Rightarrow> dataset_completeness list \<Rightarrow> dataset_completeness list" where
  "list_completeness_by_dataset ds dcs =
     sort_key (\<lambda>x. (dc_target_id x, dc_network x)) (filter (\<lambda>x. dc_dataset_name x = ds) dcs)"

text \<open>The join with the owner's targets gives one row per target with that id.\<close>

definition list_completeness_by_dataset_and_owner ::
    "string \<Rightarrow> uuid \<Rightarrow> targets \<Rightarrow> dataset_completeness list \<Rightarrow> dataset_completeness list" where
  "list_completeness_by_dataset_and_owner ds owner ts dcs =
     sort_key (\<lambda>x. (dc_target_id x, dc_network x))
       [x. x \<leftarrow> dcs, dc_dataset_name x = ds, t \<leftarrow> ts, it_id t = dc_target_id x \<and> it_owner_id t = Some owner]"

definition list_completeness_filtered ::
    "string \<Rightarrow> uuid option \<Rightarrow> string option \<Rightarrow> dataset_completeness list \<Rightarrow> dataset_completeness list" where
  "list_completeness_filtered ds target network dcs =
     sort_key (\<lambda>x. (dc_target_id x, dc_network x))
       (filter (\<lambda>x. dc_dataset_name x = ds \<and> matches_opt target (dc_target_id x) \<and> matches_opt network (dc_network x)) dcs)"

definition list_completeness_by_status :: "completeness_status \<Rightarrow> dataset_completeness list \<Rightarrow> dataset_completeness list" where
  "list_completeness_by_status st dcs =
     sort_key (\<lambda>x. (dc_dataset_name x, dc_target_id x, dc_network x)) (filter (\<lambda>x. dc_status x = st) dcs)"

section \<open>Completeness after materialization\<close>

record gold_materialization_result =
  gm_wallet_ledger_written :: nat
  gm_wallet_ledger_failed :: nat
  gm_balance_history_written :: nat
  gm_balance_history_failed :: nat
  gm_hl_pnl_summary_written :: nat
  gm_hl_pnl_summary_failed :: nat
  gm_hl_trade_history_written :: nat
  gm_hl_trade_history_failed :: nat
  gm_protocol_events_written :: nat
  gm_protocol_events_failed :: nat
  gm_pool_snapshots_written :: nat
  gm_pool_snapshots_failed :: nat
  gm_per_dataset_network_written :: "((string \<times> string) \<times> nat) list"
  gm_per_dataset_network_failed :: "((string \<times> string) \<times> nat) list"

definition increment_gold_dataset_network_count ::
    "string \<Rightarrow> string \<Rightarrow> ((string \<times> string) \<times> nat) list \<Rightarrow> ((string \<times> string) \<times> nat) list" where
  "increment_gold_dataset_network_count ds network counts = upsert (ds, network) 0 Suc counts"

definition increment_gold_dataset_network_failures ::
    "string \<Rightarrow> string \<Rightarrow> nat \<Rightarrow> ((string \<times> string) \<times> nat) list \<Rightarrow> ((string \<times> string) \<times> nat) list" where
  "increment_gold_dataset_network_failures ds network failed counts =
     (if failed = 0 then counts else upsert (ds, network) 0 (\<lambda>n. n + failed) counts)"

definition supports_target_scoped_gold_completeness :: "string \<Rightarrow> bool" where
  "supports_target_scoped_gold_completeness ds \<longleftrightarrow>
     ds = as_sql_str DS_WalletLedger \<or> ds = as_sql_str DS_BalanceHistory"

definition gold_dataset_record_counts :: "gold_materialization_result \<Rightarrow> (string \<times> string \<times> nat) list" where
  "gold_dataset_record_counts result =
     sort_key (\<lambda>(ds, network, _). (ds, network))
       [(ds, network, n). ((ds, network), n) \<leftarrow> gm_per_dataset_network_written result,
          n > 0 \<and> supports_target_scoped_gold_completeness ds]"

definition gold_wallet_dataset_status :: "gold_materialization_result \<Rightarrow> string \<Rightarrow> string \<Rightarrow> completeness_status" where
  "gold_wallet_dataset_status result ds network =
     (let failed = (case map_of (gm_per_dataset_network_failed result) (ds, network) of Some n \<Rightarrow> n | None \<Rightarrow> 0)
      in if failed = 0 then CS_Complete else CS_Partial)"

definition wallet_target_matches_completeness :: "index_target \<Rightarrow> string \<Rightarrow> string \<Rightarrow> bool" where
  "wallet_target_matches_completeness t wallet network =
     (if it_kind t \<noteq> TK_Wallet \<or> it_network t \<noteq> network then False
      else case it_address t of
          None \<Rightarrow> False
        | Some a \<Rightarrow> normalize_address_for_comparison a = normalize_address_for_comparison wallet)"

text \<open>The two counting queries over the wallet ledger, the balance history, Bronze and the matches.\<close>

definition count_gold_wallet_dataset_records ::
    "'d wallet_ledger_record list \<Rightarrow> 'd balance_snapshot list \<Rightarrow> raw_transaction list \<Rightarrow> target_match list \<Rightarrow>
     string \<Rightarrow> uuid \<Rightarrow> string \<Rightarrow> string \<Rightarrow> int result" where
  "count_gold_wallet_dataset_records wls bhs raws tms ds target wallet network =
     (if ds = as_sql_str DS_WalletLedger
      then Inr (int (length [(wl, tm). wl \<leftarrow> wls, wl_wallet_address wl = wallet \<and> wl_network wl = network,
                 tm \<leftarrow> tms, wl_raw_transaction_id wl = Some (tm_raw_transaction_id tm) \<and> tm_target_id tm = target]))
      else if ds = as_sql_str DS_BalanceHistory
      then Inr (int (length [(bh, rt, tm). bh \<leftarrow> bhs, bs_wallet_address bh = wallet \<and> bs_network bh = network,
                 rt \<leftarrow> raws, raw_network rt = bs_network bh \<and> raw_tx_hash rt = bs_tx_hash bh,
                 tm \<leftarrow> tms, tm_raw_transaction_id tm = raw_id rt \<and> tm_target_id tm = target]))
      else Inl (''unsupported target-scoped Gold wallet dataset: '' @ ds))"

definition min_opt :: "int list \<Rightarrow> int option" where
  "min_opt xs = (if xs = [] then None else Some (Min (set xs)))"

definition max_opt :: "int list \<Rightarrow> int option" where
  "max_opt xs = (if xs = [] then None else Some (Max (set xs)))"

definition gold_completeness_target :: "targets \<Rightarrow> uuid option \<Rightarrow> string \<Rightarrow> string \<Rightarrow> uuid option" where
  "gold_completeness_target ts wallet_target wallet network =
     (case wallet_target of
        Some i \<Rightarrow> Option.bind (get_index_target i ts)
          (\<lambda>t. if wallet_target_matches_completeness t wallet network then Some (it_id t) else None)
      | None \<Rightarrow> map_option it_id (get_index_target_by_address TK_Wallet network wallet None ts))"

definition gold_completeness_row ::
    "(uuid \<Rightarrow> string \<Rightarrow> uuid) \<Rightarrow> (uuid \<Rightarrow> string) \<Rightarrow> timestamp \<Rightarrow> gold_materialization_result \<Rightarrow> (string \<rightharpoonup> uuid) \<Rightarrow>
     raw_transaction list \<Rightarrow> uuid \<Rightarrow> string \<Rightarrow> string \<Rightarrow> int \<Rightarrow> dataset_completeness" where
  "gold_completeness_row vh us now result versions grp target ds network records =
     \<lparr>dc_id = vh NAMESPACE_URL (us target @ '':'' @ ds @ '':'' @ network), dc_target_id = target, dc_dataset_name = ds,
      dc_dataset_version_id = versions ds, dc_network = network, dc_status = gold_wallet_dataset_status result ds network,
      dc_coverage_start = min_opt (map raw_timestamp grp), dc_coverage_end = max_opt (map raw_timestamp grp),
      dc_block_start = min_opt (List.map_filter raw_block_number grp),
      dc_block_end = max_opt (List.map_filter raw_block_number grp),
      dc_last_ingestion_run_id = first_row (List.map_filter raw_ingestion_run_id grp),
      dc_records_count = records, dc_gap_ranges = None,
      dc_notes = Some (''Processing status covers indexed inputs only, not complete chain history. ''
        @ ''Unknown-decimal ERC20 amounts are excluded from Gold totals.''),
      dc_created_at = now, dc_updated_at = now\<rparr>"

definition upsert_or_warn :: "dataset_completeness \<Rightarrow> dataset_completeness list \<Rightarrow> dataset_completeness list" where
  "upsert_or_warn d dcs = (case upsert_dataset_completeness d dcs of Inr dcs' \<Rightarrow> dcs' | Inl _ \<Rightarrow> dcs)"

text \<open>
  One round of the loop. \<open>down ds network\<close> says that a query of the round fails, \<open>count\<close> is the
  counting query; every failure skips the pair.
\<close>

definition gold_completeness_step ::
    "(uuid \<Rightarrow> string \<Rightarrow> uuid) \<Rightarrow> (uuid \<Rightarrow> string) \<Rightarrow> timestamp \<Rightarrow> (string \<Rightarrow> string \<Rightarrow> bool) \<Rightarrow>
     (string \<Rightarrow> uuid \<Rightarrow> string \<Rightarrow> string \<Rightarrow> int result) \<Rightarrow> targets \<Rightarrow> raw_transaction list \<Rightarrow> string \<Rightarrow> uuid option \<Rightarrow>
     (string \<rightharpoonup> uuid) \<Rightarrow> gold_materialization_result \<Rightarrow> string \<times> string \<times> nat \<Rightarrow>
     dataset_completeness list \<Rightarrow> dataset_completeness list" where
  "gold_completeness_step vh us now down cnt ts raws wallet wallet_target versions result ent dcs =
     (case ent of (ds, network, _) \<Rightarrow>
       let grp = filter (\<lambda>r. raw_network r = network) raws
       in if grp = [] \<or> down ds network then dcs
          else case gold_completeness_target ts wallet_target wallet network of
              None \<Rightarrow> dcs
            | Some target \<Rightarrow> (case cnt ds target wallet network of
                  Inl _ \<Rightarrow> dcs
                | Inr records \<Rightarrow> upsert_or_warn
                    (gold_completeness_row vh us now result versions grp target ds network records) dcs))"

definition update_gold_completeness ::
    "(uuid \<Rightarrow> string \<Rightarrow> uuid) \<Rightarrow> (uuid \<Rightarrow> string) \<Rightarrow> timestamp \<Rightarrow> (string \<Rightarrow> string \<Rightarrow> bool) \<Rightarrow>
     (string \<Rightarrow> uuid \<Rightarrow> string \<Rightarrow> string \<Rightarrow> int result) \<Rightarrow> targets \<Rightarrow> raw_transaction list \<Rightarrow> string \<Rightarrow> uuid option \<Rightarrow>
     (string \<rightharpoonup> uuid) \<Rightarrow> gold_materialization_result \<Rightarrow> dataset_completeness list \<Rightarrow> dataset_completeness list" where
  "update_gold_completeness vh us now down cnt ts raws wallet wallet_target versions result dcs =
     fold (gold_completeness_step vh us now down cnt ts raws wallet wallet_target versions result)
       (gold_dataset_record_counts result) dcs"

text \<open>
  Silver: the transactions with a resolved network, grouped by network and wallet; \<open>ord\<close> is the
  iteration order of the map of groups and \<open>fid\<close> the fresh id of a row.
\<close>

definition silver_completeness_row ::
    "(uuid \<times> string \<times> string \<Rightarrow> uuid) \<Rightarrow> timestamp \<Rightarrow> (string \<rightharpoonup> uuid) \<Rightarrow> nat \<Rightarrow> string \<Rightarrow> transaction list \<Rightarrow> uuid \<Rightarrow>
     dataset_name \<Rightarrow> dataset_completeness" where
  "silver_completeness_row fid now versions records network grp target ds =
     (let blocks = List.map_filter (\<lambda>tx. extract_block_number (tx_chain tx) (tx_raw_metadata tx)) grp
      in \<lparr>dc_id = fid (target, as_sql_str ds, network), dc_target_id = target, dc_dataset_name = as_sql_str ds,
          dc_dataset_version_id = versions (as_sql_str ds), dc_network = network, dc_status = CS_Partial,
          dc_coverage_start = min_opt (map tx_timestamp grp), dc_coverage_end = max_opt (map tx_timestamp grp),
          dc_block_start = min_opt blocks, dc_block_end = max_opt blocks, dc_last_ingestion_run_id = None,
          dc_records_count = usize_to_i64_or_max records, dc_gap_ranges = None, dc_notes = None,
          dc_created_at = now, dc_updated_at = now\<rparr>)"

definition wallet_groups :: "(string \<rightharpoonup> string) \<Rightarrow> transaction list \<Rightarrow> ((string \<times> string) \<times> transaction list) list" where
  "wallet_groups resolved txs =
     tally (\<lambda>tx. (the (resolved (tx_hash tx)), tx_wallet_address tx)) [] (\<lambda>tx g. g @ [tx])
       (filter (\<lambda>tx. resolved (tx_hash tx) \<noteq> None) txs) []"

definition update_silver_completeness ::
    "(((string \<times> string) \<times> transaction list) list \<Rightarrow> ((string \<times> string) \<times> transaction list) list) \<Rightarrow>
     (uuid \<times> string \<times> string \<Rightarrow> uuid) \<Rightarrow> timestamp \<Rightarrow> (string \<Rightarrow> bool) \<Rightarrow> targets \<Rightarrow> transaction list \<Rightarrow> (string \<rightharpoonup> uuid) \<Rightarrow>
     nat \<Rightarrow> (string \<rightharpoonup> string) \<Rightarrow> dataset_completeness list \<Rightarrow> dataset_completeness list" where
  "update_silver_completeness ord fid now down ts txs versions records resolved dcs =
     fold (\<lambda>((network, wallet), grp) dcs.
         if down wallet then dcs
         else case get_index_target_by_address TK_Wallet network wallet None ts of
             None \<Rightarrow> dcs
           | Some t \<Rightarrow> fold (\<lambda>ds. upsert_or_warn (silver_completeness_row fid now versions records network grp (it_id t) ds))
                         (silver_datasets_for_network network) dcs)
       (ord (wallet_groups resolved txs)) dcs"

section \<open>Watermarks\<close>

record dataset_watermark =
  dw_id :: uuid
  dw_dataset_name :: string
  dw_scope :: "json option"
  dw_last_ingestion_run_id :: "uuid option"
  dw_last_raw_transaction_id :: "uuid option"
  dw_last_processed_at :: "timestamp option"
  dw_created_at :: timestamp
  dw_updated_at :: timestamp

definition get_dataset_watermark :: "string \<Rightarrow> json option \<Rightarrow> dataset_watermark list \<Rightarrow> dataset_watermark option" where
  "get_dataset_watermark ds scope ws = find (\<lambda>w. dw_dataset_name w = ds \<and> dw_scope w = scope) ws"

text \<open>
  \<open>started\<close> is the start time of an ingestion run, \<open>None\<close> for an id that is not in the table. A
  comparison with \<open>NULL\<close> is not true. The epoch is time 0. Scopes are compared as values of the
  JSON type, with the fields of an object in one order, as \<open>jsonb\<close> stores them.
\<close>

definition watermark_advances :: "(uuid \<rightharpoonup> timestamp) \<Rightarrow> uuid option \<Rightarrow> dataset_watermark \<Rightarrow> bool" where
  "watermark_advances started run w \<longleftrightarrow>
     (case dw_last_ingestion_run_id w of
        None \<Rightarrow> True
      | Some prev \<Rightarrow> (case Option.bind run started of
            None \<Rightarrow> False
          | Some t \<Rightarrow> t > (case started prev of Some u \<Rightarrow> u | None \<Rightarrow> 0)))"

definition upsert_dataset_watermark ::
    "uuid \<Rightarrow> timestamp \<Rightarrow> (uuid \<rightharpoonup> timestamp) \<Rightarrow> string \<Rightarrow> json option \<Rightarrow> uuid option \<Rightarrow> uuid option \<Rightarrow>
     dataset_watermark list \<Rightarrow> dataset_watermark list" where
  "upsert_dataset_watermark i now started ds scope run raw ws =
     (if list_ex (\<lambda>w. dw_dataset_name w = ds \<and> dw_scope w = scope) ws
      then map (\<lambda>w. if dw_dataset_name w = ds \<and> dw_scope w = scope \<and> watermark_advances started run w
                then w\<lparr>dw_last_ingestion_run_id := run,
                    dw_last_raw_transaction_id := (case raw of Some r \<Rightarrow> Some r | None \<Rightarrow> dw_last_raw_transaction_id w),
                    dw_last_processed_at := Some now, dw_updated_at := now\<rparr>
                else w) ws
      else ws @ [\<lparr>dw_id = i, dw_dataset_name = ds, dw_scope = scope, dw_last_ingestion_run_id = run,
                  dw_last_raw_transaction_id = raw, dw_last_processed_at = Some now, dw_created_at = now,
                  dw_updated_at = now\<rparr>])"

section \<open>Windows\<close>

text \<open>
  Each bound merges as a semilattice with neutral element \<open>None\<close>; the fold over any sequence of
  updates is then the bound of the whole.
\<close>

interpretation lo: semilattice_neutr widen_start None
proof
  fix a b c :: "int option"
  show "widen_start (widen_start a b) c = widen_start a (widen_start b c)"
    by (cases a; cases b; cases c) auto
  show "widen_start a b = widen_start b a" by (cases a; cases b) auto
  show "widen_start a a = a" by (cases a) auto
  show "widen_start a None = a" by simp
qed

interpretation hi: semilattice_neutr widen_end None
proof
  fix a b c :: "int option"
  show "widen_end (widen_end a b) c = widen_end a (widen_end b c)"
    by (cases a; cases b; cases c) auto
  show "widen_end a b = widen_end b a" by (cases a; cases b) auto
  show "widen_end a a = a" by (cases a) auto
  show "widen_end a None = a" by simp
qed

definition lower_bound :: "int option list \<Rightarrow> int option" where
  "lower_bound xs = min_opt (List.map_filter id xs)"

definition upper_bound :: "int option list \<Rightarrow> int option" where
  "upper_bound xs = max_opt (List.map_filter id xs)"

lemma widen_min_max: "widen_start (Some x) (Some y) = Some (min x y)" "widen_end (Some x) (Some y) = Some (max x y)"
  by auto

lemma lower_bound_Cons: "lower_bound (x # xs) = widen_start x (lower_bound xs)"
  by (cases x; cases "List.map_filter id xs = []")
    (simp_all add: lower_bound_def min_opt_def map_filter_simps widen_min_max del: widen_start.simps(3))

lemma upper_bound_Cons: "upper_bound (x # xs) = widen_end x (upper_bound xs)"
  by (cases x; cases "List.map_filter id xs = []")
    (simp_all add: upper_bound_def max_opt_def map_filter_simps widen_min_max del: widen_end.simps(3))

lemma bounds_Nil [simp]: "lower_bound [] = None" "upper_bound [] = None"
  by (simp_all add: lower_bound_def upper_bound_def min_opt_def max_opt_def map_filter_simps)

lemma lower_bound_snoc: "lower_bound (xs @ [x]) = widen_start (lower_bound xs) x"
  by (induction xs) (simp_all add: lower_bound_Cons lo.assoc lo.commute lo.left_commute)

lemma upper_bound_snoc: "upper_bound (xs @ [x]) = widen_end (upper_bound xs) x"
  by (induction xs) (simp_all add: upper_bound_Cons hi.assoc hi.commute hi.left_commute)

fun upserts :: "dataset_completeness list \<Rightarrow> dataset_completeness list \<Rightarrow> dataset_completeness list result" where
  "upserts [] dcs = Inr dcs"
| "upserts (d # ds) dcs = (case upsert_dataset_completeness d dcs of Inl e \<Rightarrow> Inl e | Inr dcs' \<Rightarrow> upserts ds dcs')"

lemma upserts_snoc:
  "upserts (ds @ [d]) dcs = (case upserts ds dcs of Inl e \<Rightarrow> Inl e | Inr dcs' \<Rightarrow> upsert_dataset_completeness d dcs')"
  by (induction ds arbitrary: dcs) (auto split: sum.splits)

lemma merge_completeness_simps [simp]:
  "completeness_key (merge_completeness new old) = completeness_key old"
  "dc_dataset_version_id (merge_completeness new old) = dc_dataset_version_id new"
  "dc_id (merge_completeness new old) = dc_id old"
  by (simp_all add: merge_completeness_def completeness_key_def Let_def)

lemma merge_completeness_bounds:
  assumes "dc_dataset_version_id old = dc_dataset_version_id new"
  shows "dc_coverage_start (merge_completeness new old) = widen_start (dc_coverage_start old) (dc_coverage_start new)"
    "dc_coverage_end (merge_completeness new old) = widen_end (dc_coverage_end old) (dc_coverage_end new)"
    "dc_block_start (merge_completeness new old) = widen_start (dc_block_start old) (dc_block_start new)"
    "dc_block_end (merge_completeness new old) = widen_end (dc_block_end old) (dc_block_end new)"
  using assms by (simp_all add: merge_completeness_def Let_def)

lemma upsert_filter_key:
  assumes "upsert_dataset_completeness d dcs = Inr dcs'"
    and "filter (\<lambda>x. completeness_key x = completeness_key d) dcs = [r]"
  shows "filter (\<lambda>x. completeness_key x = completeness_key d) dcs' = [merge_completeness d r]"
proof -
  let ?k = "\<lambda>x. completeness_key x = completeness_key d"
  have ex: "list_ex ?k dcs" using assms(2) by (metis filter_False list.distinct(1) list_ex_iff)
  have f: "filter ?k (map (\<lambda>x. if ?k x then merge_completeness d x else x) xs) = map (merge_completeness d) (filter ?k xs)" for xs
    by (induction xs) simp_all
  have "dcs' = map (\<lambda>x. if ?k x then merge_completeness d x else x) dcs"
    using assms(1) ex by (simp add: upsert_dataset_completeness_def)
  then show ?thesis using assms(2) by (simp only: f list.map)
qed

lemma upsert_filter_new:
  assumes "upsert_dataset_completeness d dcs = Inr dcs'"
    and "filter (\<lambda>x. completeness_key x = completeness_key d) dcs = []"
  shows "filter (\<lambda>x. completeness_key x = completeness_key d) dcs' = [d]"
  using assms by (auto simp: upsert_dataset_completeness_def list_ex_iff filter_empty_conv split: if_splits)

lemma upserts_window:
  assumes "ds \<noteq> []" "\<And>d. d \<in> set ds \<Longrightarrow> completeness_key d = k \<and> dc_dataset_version_id d = v"
    and "filter (\<lambda>x. completeness_key x = k) dcs = []" "upserts ds dcs = Inr dcs'"
  shows "\<exists>r. filter (\<lambda>x. completeness_key x = k) dcs' = [r] \<and> completeness_key r = k \<and> dc_dataset_version_id r = v
    \<and> dc_coverage_start r = lower_bound (map dc_coverage_start ds) \<and> dc_coverage_end r = upper_bound (map dc_coverage_end ds)
    \<and> dc_block_start r = lower_bound (map dc_block_start ds) \<and> dc_block_end r = upper_bound (map dc_block_end ds)
    \<and> dc_records_count r = dc_records_count (last ds)"
  using assms
proof (induction ds arbitrary: dcs' rule: rev_nonempty_induct)
  case (single d)
  then have "filter (\<lambda>x. completeness_key x = completeness_key d) dcs' = [d]"
    using upsert_filter_new [of d dcs dcs'] by (simp split: sum.splits)
  then show ?case using single by (simp add: lower_bound_Cons upper_bound_Cons)
next
  case (snoc d ds)
  obtain mid where mid: "upserts ds dcs = Inr mid" "upsert_dataset_completeness d mid = Inr dcs'"
    using snoc.prems(3) by (auto simp: upserts_snoc split: sum.splits)
  from snoc.IH [OF _ snoc.prems(2) mid(1)] snoc.prems(1) obtain r where r:
    "filter (\<lambda>x. completeness_key x = k) mid = [r]" "completeness_key r = k" "dc_dataset_version_id r = v"
    "dc_coverage_start r = lower_bound (map dc_coverage_start ds)" "dc_coverage_end r = upper_bound (map dc_coverage_end ds)"
    "dc_block_start r = lower_bound (map dc_block_start ds)" "dc_block_end r = upper_bound (map dc_block_end ds)"
    by auto
  have d: "completeness_key d = k" "dc_dataset_version_id d = v" using snoc.prems(1) by simp_all
  have "filter (\<lambda>x. completeness_key x = k) dcs' = [merge_completeness d r]"
    using upsert_filter_key [OF mid(2), of r] r(1) d(1) by simp
  moreover have "dc_records_count (merge_completeness d r) = dc_records_count d"
    by (simp add: merge_completeness_def Let_def)
  ultimately show ?case
    using r d by (simp add: merge_completeness_bounds lower_bound_snoc upper_bound_snoc)
qed

lemma find_filter: "filter P xs = [r] \<Longrightarrow> find P xs = Some r"
  by (induction xs) (auto split: if_splits)

text \<open>
  The coverage of a dataset. However many updates of one dataset version a target receives on a
  network, and in whatever order, the stored windows of time and blocks are the smallest ones that
  contain all reported windows; a bound that no update reports stays open.
\<close>

theorem completeness_window_hull:
  assumes "ds \<noteq> []" "\<forall>d \<in> set ds. completeness_key d = (target, name, network) \<and> dc_dataset_version_id d = v"
    and "get_dataset_completeness target name network dcs = None" "upserts ds dcs = Inr dcs'"
  shows "\<exists>r. get_dataset_completeness target name network dcs' = Some r
    \<and> dc_coverage_start r = min_opt (List.map_filter dc_coverage_start ds)
    \<and> dc_coverage_end r = max_opt (List.map_filter dc_coverage_end ds)
    \<and> dc_block_start r = min_opt (List.map_filter dc_block_start ds)
    \<and> dc_block_end r = max_opt (List.map_filter dc_block_end ds)
    \<and> dc_records_count r = dc_records_count (last ds)"
proof -
  have none: "filter (\<lambda>x. completeness_key x = (target, name, network)) dcs = []"
    using assms(3) by (auto simp: get_dataset_completeness_def find_None_iff filter_empty_conv)
  have mf: "List.map_filter id (map f ds) = List.map_filter f ds" for f :: "dataset_completeness \<Rightarrow> int option"
    by (simp add: map_filter_def filter_map comp_def)
  have all: "\<And>d. d \<in> set ds \<Longrightarrow> completeness_key d = (target, name, network) \<and> dc_dataset_version_id d = v"
    using assms(2) by blast
  show ?thesis
    using upserts_window [OF assms(1) all none assms(4)]
    by (auto simp: get_dataset_completeness_def lower_bound_def upper_bound_def mf dest!: find_filter)
qed

definition sample_dc :: dataset_completeness where
  "sample_dc = \<lparr>dc_id = 1, dc_target_id = 9, dc_dataset_name = ''wallet_ledger'', dc_dataset_version_id = None,
     dc_network = ''base-mainnet'', dc_status = CS_Partial, dc_coverage_start = Some 10, dc_coverage_end = Some 20,
     dc_block_start = None, dc_block_end = None, dc_last_ingestion_run_id = None, dc_records_count = 4,
     dc_gap_ranges = None, dc_notes = None, dc_created_at = 0, dc_updated_at = 0\<rparr>"

theorem completeness_window_hull_witness:
  "\<exists>r dcs'. upserts [sample_dc, sample_dc\<lparr>dc_coverage_start := Some 5, dc_coverage_end := None\<rparr>] [] = Inr dcs'
     \<and> get_dataset_completeness 9 ''wallet_ledger'' ''base-mainnet'' dcs' = Some r
     \<and> dc_coverage_start r = Some 5 \<and> dc_coverage_end r = Some 20"
proof -
  have "\<exists>dcs'. upserts [sample_dc, sample_dc\<lparr>dc_coverage_start := Some 5, dc_coverage_end := None\<rparr>] [] = Inr dcs'"
    by (simp add: upsert_dataset_completeness_def completeness_key_def)
  then show ?thesis
    using completeness_window_hull [of "[sample_dc, sample_dc\<lparr>dc_coverage_start := Some 5, dc_coverage_end := None\<rparr>]"
        9 "''wallet_ledger''" "''base-mainnet''" None "[]"]
    by (auto simp: sample_dc_def completeness_key_def get_dataset_completeness_def map_filter_simps min_opt_def max_opt_def)
qed

text \<open>
  A report of completeness is not taken for more than it covers. After an update the row of the
  dataset is marked complete only if the update says so and, when the row it meets is of the same
  version and was not complete, only if the reported windows contain the stored ones. A
  change of the dataset version starts the windows afresh.
\<close>

theorem completeness_not_masked:
  assumes "get_dataset_completeness target name network dcs = Some x" "completeness_key d = (target, name, network)"
  shows "\<exists>dcs' r. upsert_dataset_completeness d dcs = Inr dcs' \<and> get_dataset_completeness target name network dcs' = Some r
    \<and> (dc_status r = CS_Complete \<and> dc_dataset_version_id x = dc_dataset_version_id d \<and> dc_status x \<noteq> CS_Complete \<longrightarrow>
         dc_status d = CS_Complete
         \<and> (\<forall>s. dc_coverage_start x = Some s \<longrightarrow> (\<exists>s'. dc_coverage_start d = Some s' \<and> s' \<le> s))
         \<and> (\<forall>e. dc_coverage_end x = Some e \<longrightarrow> (\<exists>e'. dc_coverage_end d = Some e' \<and> e \<le> e'))
         \<and> (\<forall>s. dc_block_start x = Some s \<longrightarrow> (\<exists>s'. dc_block_start d = Some s' \<and> s' \<le> s))
         \<and> (\<forall>e. dc_block_end x = Some e \<longrightarrow> (\<exists>e'. dc_block_end d = Some e' \<and> e \<le> e')))
    \<and> (dc_status r = CS_Complete \<longrightarrow> dc_status d = CS_Complete)
    \<and> (dc_dataset_version_id x \<noteq> dc_dataset_version_id d \<longrightarrow>
         dc_coverage_start r = dc_coverage_start d \<and> dc_coverage_end r = dc_coverage_end d
         \<and> dc_block_start r = dc_block_start d \<and> dc_block_end r = dc_block_end d)"
proof -
  let ?k = "\<lambda>x. completeness_key x = completeness_key d"
  let ?r = "merge_completeness d x"
  have ex: "list_ex ?k dcs" using assms by (auto simp: get_dataset_completeness_def find_Some_iff list_ex_iff)
  have fm: "find ?k (map (\<lambda>x. if ?k x then merge_completeness d x else x) xs) = map_option (merge_completeness d) (find ?k xs)" for xs
    by (induction xs) simp_all
  have "find ?k dcs = Some x" using assms by (simp add: get_dataset_completeness_def)
  then have up: "upsert_dataset_completeness d dcs = Inr (map (\<lambda>x. if ?k x then merge_completeness d x else x) dcs)"
    and get: "get_dataset_completeness target name network (map (\<lambda>x. if ?k x then merge_completeness d x else x) dcs) = Some ?r"
    using ex fm assms(2) by (simp_all add: upsert_dataset_completeness_def get_dataset_completeness_def)
  have st: "dc_status ?r = (if dc_dataset_version_id x = dc_dataset_version_id d \<and> dc_status x \<noteq> CS_Complete
      \<and> dc_status d = CS_Complete \<and> narrower x d then dc_status x else dc_status d)"
    by (simp add: merge_completeness_def Let_def)
  have cov: "\<not> narrower x d \<Longrightarrow>
      (\<forall>s. dc_coverage_start x = Some s \<longrightarrow> (\<exists>s'. dc_coverage_start d = Some s' \<and> s' \<le> s))
      \<and> (\<forall>e. dc_coverage_end x = Some e \<longrightarrow> (\<exists>e'. dc_coverage_end d = Some e' \<and> e \<le> e'))
      \<and> (\<forall>s. dc_block_start x = Some s \<longrightarrow> (\<exists>s'. dc_block_start d = Some s' \<and> s' \<le> s))
      \<and> (\<forall>e. dc_block_end x = Some e \<longrightarrow> (\<exists>e'. dc_block_end d = Some e' \<and> e \<le> e'))"
    by (auto simp: narrower_def starts_later_def ends_earlier_def not_less split: option.splits)
  have fresh: "dc_dataset_version_id x \<noteq> dc_dataset_version_id d \<Longrightarrow>
      dc_coverage_start ?r = dc_coverage_start d \<and> dc_coverage_end ?r = dc_coverage_end d
      \<and> dc_block_start ?r = dc_block_start d \<and> dc_block_end ?r = dc_block_end d"
    by (simp add: merge_completeness_def Let_def)
  show ?thesis
    apply (rule exI, rule exI, rule conjI [OF up], rule conjI [OF get])
    using cov fresh by (simp only: st split: if_splits) blast
qed

theorem completeness_not_masked_witness:
  "\<exists>dcs' r. upsert_dataset_completeness (sample_dc\<lparr>dc_status := CS_Complete, dc_coverage_end := Some 15\<rparr>) [sample_dc] = Inr dcs'
     \<and> get_dataset_completeness 9 ''wallet_ledger'' ''base-mainnet'' dcs' = Some r \<and> dc_status r \<noteq> CS_Complete"
proof -
  have a: "get_dataset_completeness 9 ''wallet_ledger'' ''base-mainnet'' [sample_dc] = Some sample_dc"
    "completeness_key (sample_dc\<lparr>dc_status := CS_Complete, dc_coverage_end := Some 15\<rparr>) = (9, ''wallet_ledger'', ''base-mainnet'')"
    by (simp_all add: get_dataset_completeness_def completeness_key_def sample_dc_def)
  show ?thesis using completeness_not_masked [OF a] by (force simp: sample_dc_def)
qed

lemma merge_completeness_status:
  "dc_status (merge_completeness d x) = CS_Complete \<Longrightarrow> dc_status d = CS_Complete"
  by (simp add: merge_completeness_def Let_def split: if_splits)

lemma upsert_or_warn_rows:
  assumes "r \<in> set (upsert_or_warn d dcs)"
  shows "r \<in> set dcs \<or> completeness_key r = completeness_key d \<and> (dc_status r = CS_Complete \<longrightarrow> dc_status d = CS_Complete)"
  using assms
  by (auto simp: upsert_or_warn_def upsert_dataset_completeness_def dest: merge_completeness_status split: if_splits)

definition complete_justified :: "gold_materialization_result \<Rightarrow> dataset_completeness \<Rightarrow> bool" where
  "complete_justified result r \<longleftrightarrow> dc_status r \<noteq> CS_Complete
     \<or> (\<exists>n. ((dc_dataset_name r, dc_network r), n) \<in> set (gm_per_dataset_network_written result) \<and> n > 0)
      \<and> (case map_of (gm_per_dataset_network_failed result) (dc_dataset_name r, dc_network r) of Some n \<Rightarrow> n = 0 | None \<Rightarrow> True)"

lemma gold_row_justified:
  assumes "((ds, network), n) \<in> set (gm_per_dataset_network_written result)" "n > 0"
    and "completeness_key r = completeness_key d"
    and "d = gold_completeness_row vh us now result versions grp target ds network records"
    and "dc_status r = CS_Complete \<longrightarrow> dc_status d = CS_Complete"
  shows "complete_justified result r"
proof -
  have "dc_dataset_name r = ds" "dc_network r = network"
    using assms(3,4) by (simp_all add: completeness_key_def gold_completeness_row_def)
  moreover have "dc_status d = gold_wallet_dataset_status result ds network" using assms(4) by (simp add: gold_completeness_row_def)
  ultimately show ?thesis using assms(1,2,5)
    by (auto simp: complete_justified_def gold_wallet_dataset_status_def Let_def split: if_splits option.splits)
qed

lemma gold_step_rows:
  assumes "e \<in> set (gold_dataset_record_counts result)"
    and "r \<in> set (gold_completeness_step vh us now down cnt ts raws wallet wallet_target versions result e dcs)"
  shows "r \<in> set dcs \<or> complete_justified result r"
proof -
  obtain ds network n where e: "e = (ds, network, n)" by (cases e)
  have w: "((ds, network), n) \<in> set (gm_per_dataset_network_written result)" "n > 0"
    using assms(1) by (auto simp: e gold_dataset_record_counts_def)
  show ?thesis
    using assms(2) gold_row_justified [OF w]
    by (fastforce simp: e gold_completeness_step_def Let_def dest!: upsert_or_warn_rows
        split: if_splits option.splits sum.splits)
qed

text \<open>
  The Gold stage marks a dataset of a wallet complete only without failures: every row of the
  completeness table after the update was there before, or is not complete, or is of a wallet
  dataset and a network for which records were written and no failure was counted.
\<close>

theorem gold_complete_without_failures:
  assumes "r \<in> set (update_gold_completeness vh us now down cnt ts raws wallet wallet_target versions result dcs)"
  shows "r \<in> set dcs \<or> dc_status r \<noteq> CS_Complete
    \<or> (\<exists>n. ((dc_dataset_name r, dc_network r), n) \<in> set (gm_per_dataset_network_written result) \<and> n > 0)
      \<and> (case map_of (gm_per_dataset_network_failed result) (dc_dataset_name r, dc_network r) of Some n \<Rightarrow> n = 0 | None \<Rightarrow> True)"
proof -
  let ?P = "\<lambda>s. \<forall>x \<in> set s. x \<in> set dcs \<or> complete_justified result x"
  have "?P (update_gold_completeness vh us now down cnt ts raws wallet wallet_target versions result dcs)"
    unfolding update_gold_completeness_def
    by (rule fold_invariant [where Q = "\<lambda>e. e \<in> set (gold_dataset_record_counts result)"])
      (use gold_step_rows in blast)+
  then show ?thesis using assms unfolding complete_justified_def by blast
qed

definition sample_gold :: gold_materialization_result where
  "sample_gold = \<lparr>gm_wallet_ledger_written = 2, gm_wallet_ledger_failed = 0, gm_balance_history_written = 0,
     gm_balance_history_failed = 1, gm_hl_pnl_summary_written = 0, gm_hl_pnl_summary_failed = 0,
     gm_hl_trade_history_written = 0, gm_hl_trade_history_failed = 0, gm_protocol_events_written = 0,
     gm_protocol_events_failed = 0, gm_pool_snapshots_written = 0, gm_pool_snapshots_failed = 0,
     gm_per_dataset_network_written = [((''balance_history'', ''solana-mainnet''), 1)],
     gm_per_dataset_network_failed = [((''balance_history'', ''solana-mainnet''), 1)]\<rparr>"

theorem gold_complete_without_failures_witness:
  "\<exists>r \<in> set (update_gold_completeness (\<lambda>_ _. 5) (\<lambda>_. []) 7 (\<lambda>_ _. False) (\<lambda>_ _ _ _. Inr 3) [sample_target] [sample_raw] ''w'' None
       Map.empty sample_gold []). dc_dataset_name r = ''balance_history'' \<and> dc_status r \<noteq> CS_Complete"
proof -
  let ?t = "update_gold_completeness (\<lambda>_ _. 5) (\<lambda>_. []) 7 (\<lambda>_ _. False) (\<lambda>_ _ _ _. Inr 3) [sample_target] [sample_raw] ''w'' None
       Map.empty sample_gold []"
  have c: "gold_dataset_record_counts sample_gold = [(''balance_history'', ''solana-mainnet'', 1)]"
    by (simp add: gold_dataset_record_counts_def sample_gold_def supports_target_scoped_gold_completeness_def)
  have t: "gold_completeness_target [sample_target] None ''w'' ''solana-mainnet'' = Some 9"
    by (simp add: gold_completeness_target_def get_index_target_by_address_def sample_target_def)
  have "?t = [gold_completeness_row (\<lambda>_ _. 5) (\<lambda>_. []) 7 sample_gold Map.empty [sample_raw] 9 ''balance_history'' ''solana-mainnet'' 3]"
    by (simp add: update_gold_completeness_def c gold_completeness_step_def t sample_raw_def upsert_or_warn_def upsert_dataset_completeness_def)
  then obtain r where r: "r \<in> set ?t" "dc_dataset_name r = ''balance_history''" "dc_network r = ''solana-mainnet''"
    by (simp add: gold_completeness_row_def)
  have "dc_status r \<noteq> CS_Complete"
    using gold_complete_without_failures [OF r(1)] r(2,3) by (simp add: sample_gold_def)
  then show ?thesis using r by blast
qed

section \<open>Watermark properties\<close>

lemma find_map_keep:
  assumes "\<And>x. P (f x) = P x"
  shows "find P (map f xs) = map_option f (find P xs)"
  using assms by (induction xs) auto

lemma get_watermark_upsert:
  "get_dataset_watermark ds scope (upsert_dataset_watermark i now started ds scope run raw ws) =
     (case get_dataset_watermark ds scope ws of
        None \<Rightarrow> Some \<lparr>dw_id = i, dw_dataset_name = ds, dw_scope = scope, dw_last_ingestion_run_id = run,
                  dw_last_raw_transaction_id = raw, dw_last_processed_at = Some now, dw_created_at = now, dw_updated_at = now\<rparr>
      | Some w \<Rightarrow> Some (if watermark_advances started run w
          then w\<lparr>dw_last_ingestion_run_id := run,
              dw_last_raw_transaction_id := (case raw of Some r \<Rightarrow> Some r | None \<Rightarrow> dw_last_raw_transaction_id w),
              dw_last_processed_at := Some now, dw_updated_at := now\<rparr>
          else w))"
proof (cases "get_dataset_watermark ds scope ws")
  case None
  then have no: "\<not> list_ex (\<lambda>w. dw_dataset_name w = ds \<and> dw_scope w = scope) ws"
    by (auto simp: get_dataset_watermark_def find_None_iff list_ex_iff)
  then show ?thesis using None by (simp add: get_dataset_watermark_def upsert_dataset_watermark_def find_append)
next
  case (Some w)
  then have ex: "list_ex (\<lambda>w. dw_dataset_name w = ds \<and> dw_scope w = scope) ws"
    and w: "dw_dataset_name w = ds" "dw_scope w = scope"
    by (auto simp: get_dataset_watermark_def find_Some_iff list_ex_iff)
  let ?f = "\<lambda>w. if dw_dataset_name w = ds \<and> dw_scope w = scope \<and> watermark_advances started run w
      then w\<lparr>dw_last_ingestion_run_id := run,
        dw_last_raw_transaction_id := (case raw of Some r \<Rightarrow> Some r | None \<Rightarrow> dw_last_raw_transaction_id w),
        dw_last_processed_at := Some now, dw_updated_at := now\<rparr>
      else w"
  have "find (\<lambda>w. dw_dataset_name w = ds \<and> dw_scope w = scope) (map ?f ws) = map_option ?f (find (\<lambda>w. dw_dataset_name w = ds \<and> dw_scope w = scope) ws)"
    by (rule find_map_keep) simp
  then show ?thesis using Some ex w by (simp add: get_dataset_watermark_def upsert_dataset_watermark_def)
qed

text \<open>
  Watermarks never regress. Whatever the order in which the runs over a dataset and scope
  complete, the watermark ends at a run that started last, provided all runs are recorded
  with a start after the epoch; a completion without a recorded run leaves it where it is.
\<close>

theorem watermark_latest_run:
  assumes "runs \<noteq> []" "\<forall>(i, now, run, raw) \<in> set runs. \<exists>t > 0. started run = Some t"
    and "get_dataset_watermark ds scope ws = None"
    and "ws' = fold (\<lambda>(i, now, run, raw). upsert_dataset_watermark i now started ds scope (Some run) raw) runs ws"
  shows "\<exists>w r t. get_dataset_watermark ds scope ws' = Some w \<and> dw_last_ingestion_run_id w = Some r
    \<and> r \<in> (\<lambda>(i, now, run, raw). run) ` set runs \<and> started r = Some t
    \<and> (\<forall>(i, now, run, raw) \<in> set runs. the (started run) \<le> t)
    \<and> get_dataset_watermark ds scope (upsert_dataset_watermark j now' started ds scope None raw' ws') = Some w"
proof -
  have "\<exists>w r t. get_dataset_watermark ds scope (fold (\<lambda>(i, now, run, raw). upsert_dataset_watermark i now started ds scope (Some run) raw) runs ws) = Some w
    \<and> dw_last_ingestion_run_id w = Some r \<and> r \<in> (\<lambda>(i, now, run, raw). run) ` set runs \<and> started r = Some t
    \<and> (\<forall>(i, now, run, raw) \<in> set runs. the (started run) \<le> t)"
    using assms(1,2)
  proof (induction runs rule: rev_nonempty_induct)
    case (single x)
    then show ?case using assms(3) by (cases x) (auto simp: get_watermark_upsert)
  next
    case (snoc x xs)
    obtain i now run raw where x: "x = (i, now, run, raw)" by (cases x)
    obtain t0 where t0: "started run = Some t0" "t0 > 0" using snoc.prems by (auto simp: x)
    have "\<forall>(i, now, run, raw) \<in> set xs. \<exists>t > 0. started run = Some t" using snoc.prems by simp
    from snoc.IH [OF this] obtain w r t where
      w: "get_dataset_watermark ds scope (fold (\<lambda>(i, now, run, raw). upsert_dataset_watermark i now started ds scope (Some run) raw) xs ws) = Some w"
      and r: "dw_last_ingestion_run_id w = Some r" "r \<in> (\<lambda>(i, now, run, raw). run) ` set xs" "started r = Some t"
        "\<forall>(i, now, run, raw) \<in> set xs. the (started run) \<le> t"
      by blast
    have adv: "watermark_advances started (Some run) w \<longleftrightarrow> t0 > t" using r t0 by (simp add: watermark_advances_def)
    show ?case
    proof (cases "t0 > t")
      case True
      then show ?thesis using w r t0 adv by (auto simp: x get_watermark_upsert)
    next
      case False
      then show ?thesis using w r t0 adv by (auto simp: x get_watermark_upsert)
    qed
  qed
  then obtain w r t where w: "get_dataset_watermark ds scope ws' = Some w" "dw_last_ingestion_run_id w = Some r"
    and r: "r \<in> (\<lambda>(i, now, run, raw). run) ` set runs" "started r = Some t" "\<forall>(i, now, run, raw) \<in> set runs. the (started run) \<le> t"
    unfolding assms(4) by blast
  have "get_dataset_watermark ds scope (upsert_dataset_watermark j now' started ds scope None raw' ws') = Some w"
    using w by (simp add: get_watermark_upsert watermark_advances_def)
  then show ?thesis using w r by blast
qed

theorem watermark_latest_run_witness:
  "\<exists>w. get_dataset_watermark ''wallet_ledger'' None
     (fold (\<lambda>(i, now, run, raw). upsert_dataset_watermark i now [3 \<mapsto> 30, 4 \<mapsto> 20] ''wallet_ledger'' None (Some run) raw)
       [(1, 100, 3, None), (2, 110, 4, None)] []) = Some w \<and> dw_last_ingestion_run_id w = Some 3"
  using watermark_latest_run [where runs = "[(1, 100, 3, None), (2, 110, 4, None)]" and started = "[3 \<mapsto> 30, 4 \<mapsto> 20]"
      and ds = "''wallet_ledger''" and scope = None and ws = "[]" and j = 0 and now' = 0 and raw' = None, OF _ _ _ refl]
  by (auto simp: get_dataset_watermark_def split: if_splits)

end
