(* ===== verification/Csv_Export.thy ===== *)
theory Csv_Export
  imports Completeness
begin

text \<open>
  The CSV of the exports (\<open>api/src/export_csv.rs\<close>, \<open>api/src/export_stream.rs\<close>): the escaping of
  text cells, header and row writer of each dataset, the tax report, the encoding of a page, and
  the provenance of an export. A row is the list of its fields, \<open>Text\<close> for a field that goes
  through \<open>csv_escape\<close> and \<open>Plain\<close> for one that is printed as it is.

  The properties are about a reader: \<open>csv_read\<close> is a reader of comma-separated values with quoted
  cells, and what it reads from a file is what the records hold.
\<close>

section \<open>Cells\<close>

definition formula_char :: "char \<Rightarrow> bool" where
  "formula_char c \<longleftrightarrow> c \<in> set ''=+-@''"

definition risky :: "string \<Rightarrow> bool" where
  "risky s \<longleftrightarrow> (case trim_start s of [] \<Rightarrow> False | c # _ \<Rightarrow> formula_char c)
     \<or> (case s of [] \<Rightarrow> False | c # _ \<Rightarrow> c \<in> set [CHR 0x09, CHR 0x0D, CHR 0x0A])"

definition protect :: "string \<Rightarrow> string" where
  "protect s = (if risky s then CHR 0x27 # s else s)"

definition needs_quotes :: "string \<Rightarrow> bool" where
  "needs_quotes s \<longleftrightarrow> list_ex (\<lambda>c. c \<in> set [CHR '','', CHR 0x22, CHR 0x0A, CHR 0x0D]) s"

definition double_quotes :: "string \<Rightarrow> string" where
  "double_quotes s = concat (map (\<lambda>c. if c = CHR 0x22 then [CHR 0x22, CHR 0x22] else [c]) s)"

definition csv_escape :: "string \<Rightarrow> string" where
  "csv_escape s =
     (let p = protect s in if needs_quotes p then CHR 0x22 # double_quotes p @ [CHR 0x22] else p)"

datatype csv_field = Text string | Plain string

fun render :: "csv_field \<Rightarrow> string" where
  "render (Text s) = csv_escape s"
| "render (Plain s) = s"

fun join :: "string list \<Rightarrow> string" where
  "join [] = []"
| "join [x] = x"
| "join (x # y # ys) = x @ CHR '','' # join (y # ys)"

definition csv_line :: "csv_field list \<Rightarrow> string" where
  "csv_line fs = join (map render fs) @ [CHR 0x0A]"

section \<open>Printing\<close>

text \<open>The \<open>Display\<close> of UUIDs, decimals, JSON values and times, and the date of the tax report.\<close>

record 'd printers =
  pr_uuid :: "uuid \<Rightarrow> string"
  pr_num :: "'d \<Rightarrow> string"
  pr_json :: "json \<Rightarrow> string"
  pr_time :: "timestamp \<Rightarrow> string"
  pr_date :: "int \<Rightarrow> string option"

definition show_bool :: "bool \<Rightarrow> string" where
  "show_bool b = (if b then ''true'' else ''false'')"

definition or_empty :: "('a \<Rightarrow> string) \<Rightarrow> 'a option \<Rightarrow> string" where
  "or_empty f v = (case v of Some x \<Rightarrow> f x | None \<Rightarrow> [])"

section \<open>Datasets\<close>

definition token_transfers_csv_header :: string where
  "token_transfers_csv_header =
     ''id,raw_transaction_id,network,token_address,token_symbol,from_address,''
     @ ''to_address,amount,decimals,transfer_index,dataset_version_id,created_at'' @ [CHR 0x0A]"

definition token_transfers_csv_row :: "'d printers \<Rightarrow> 'd token_transfer \<Rightarrow> csv_field list" where
  "token_transfers_csv_row pr r =
     [Plain (pr_uuid pr (tt_id r)), Plain (or_empty (pr_uuid pr) (tt_raw_transaction_id r)),
      Text (tt_network r), Text (tt_token_address r), Text (or_empty id (tt_token_symbol r)),
      Text (tt_from_address r), Text (tt_to_address r), Plain (pr_num pr (tt_amount r)),
      Plain (show_int (tt_decimals r)), Plain (show_int (tt_transfer_index r)),
      Plain (or_empty (pr_uuid pr) (tt_dataset_version_id r)), Plain (pr_time pr (tt_created_at r))]"

definition native_balance_deltas_csv_header :: string where
  "native_balance_deltas_csv_header =
     ''id,raw_transaction_id,network,account_address,native_token,pre_balance,''
     @ ''post_balance,delta,is_fee_payer,dataset_version_id,created_at'' @ [CHR 0x0A]"

definition native_balance_deltas_csv_row :: "'d printers \<Rightarrow> 'd native_balance_delta \<Rightarrow> csv_field list" where
  "native_balance_deltas_csv_row pr r =
     [Plain (pr_uuid pr (nbd_id r)), Plain (or_empty (pr_uuid pr) (nbd_raw_transaction_id r)),
      Text (nbd_network r), Text (nbd_account_address r), Text (nbd_native_token r),
      Plain (pr_num pr (nbd_pre_balance r)), Plain (pr_num pr (nbd_post_balance r)),
      Plain (pr_num pr (nbd_delta r)), Plain (show_bool (nbd_is_fee_payer r)),
      Plain (or_empty (pr_uuid pr) (nbd_dataset_version_id r)), Plain (pr_time pr (nbd_created_at r))]"

definition decoded_events_csv_header :: string where
  "decoded_events_csv_header =
     ''id,raw_transaction_id,network,program_or_contract,event_signature,event_name,''
     @ ''log_index,dataset_version_id,created_at'' @ [CHR 0x0A]"

definition decoded_events_csv_row :: "'d printers \<Rightarrow> decoded_event \<Rightarrow> csv_field list" where
  "decoded_events_csv_row pr r =
     [Plain (pr_uuid pr (de_id r)), Plain (or_empty (pr_uuid pr) (de_raw_transaction_id r)),
      Text (de_network r), Text (de_program_or_contract r), Text (or_empty id (de_event_signature r)),
      Text (or_empty id (de_event_name r)), Plain (show_int (de_log_index r)),
      Plain (or_empty (pr_uuid pr) (de_dataset_version_id r)), Plain (pr_time pr (de_created_at r))]"

definition hl_fills_csv_header :: string where
  "hl_fills_csv_header =
     ''id,raw_transaction_id,network,coin,side,price,''
     @ ''size,direction,closed_pnl,fee,fee_token,fill_time,''
     @ ''order_id,trade_id,dataset_version_id,created_at'' @ [CHR 0x0A]"

definition hl_fills_csv_row :: "'d printers \<Rightarrow> 'd hl_fill_record \<Rightarrow> csv_field list" where
  "hl_fills_csv_row pr r =
     [Plain (pr_uuid pr (fill_id r)), Plain (or_empty (pr_uuid pr) (fill_raw_transaction_id r)),
      Text (fill_network r), Text (fill_coin r), Text (fill_side r), Plain (pr_num pr (fill_price r)),
      Plain (pr_num pr (fill_size r)), Text (or_empty id (fill_direction r)),
      Plain (or_empty (pr_num pr) (fill_closed_pnl r)), Plain (or_empty (pr_num pr) (fill_fee r)),
      Text (or_empty id (fill_fee_token r)), Plain (show_int (fill_fill_time r)),
      Plain (or_empty (show_int) (fill_order_id r)), Plain (or_empty (show_int) (fill_trade_id r)),
      Plain (or_empty (pr_uuid pr) (fill_dataset_version_id r)),
      Plain (pr_time pr (fill_created_at r))]"

definition hl_funding_csv_header :: string where
  "hl_funding_csv_header =
     ''id,raw_transaction_id,network,coin,amount,funding_rate,''
     @ ''payment_time,dataset_version_id,created_at'' @ [CHR 0x0A]"

definition hl_funding_csv_row :: "'d printers \<Rightarrow> 'd hl_funding_payment \<Rightarrow> csv_field list" where
  "hl_funding_csv_row pr r =
     [Plain (pr_uuid pr (fund_id r)), Plain (or_empty (pr_uuid pr) (fund_raw_transaction_id r)),
      Text (fund_network r), Text (fund_coin r), Plain (pr_num pr (fund_amount r)),
      Plain (or_empty (pr_num pr) (fund_funding_rate r)), Plain (show_int (fund_payment_time r)),
      Plain (or_empty (pr_uuid pr) (fund_dataset_version_id r)),
      Plain (pr_time pr (fund_created_at r))]"

definition hl_positions_csv_header :: string where
  "hl_positions_csv_header =
     ''id,raw_transaction_id,network,coin,side,size_delta,''
     @ ''price,direction,source_event,dataset_version_id,created_at'' @ [CHR 0x0A]"

definition hl_positions_csv_row :: "'d printers \<Rightarrow> 'd hl_position_change \<Rightarrow> csv_field list" where
  "hl_positions_csv_row pr r =
     [Plain (pr_uuid pr (pos_id r)), Plain (or_empty (pr_uuid pr) (pos_raw_transaction_id r)),
      Text (pos_network r), Text (pos_coin r), Text (pos_side r),
      Plain (pr_num pr (pos_size_delta r)), Plain (pr_num pr (pos_price r)),
      Text (or_empty id (pos_direction r)), Text (pos_source_event r),
      Plain (or_empty (pr_uuid pr) (pos_dataset_version_id r)), Plain (pr_time pr (pos_created_at r))]"

definition wallet_ledger_csv_header :: string where
  "wallet_ledger_csv_header =
     ''id,raw_transaction_id,wallet_address,network,tx_hash,timestamp,''
     @ ''entry_type,asset_symbol,amount,counterparty_address,fee_amount,fee_asset,''
     @ ''cost_basis,proceeds,dataset_version_id,created_at'' @ [CHR 0x0A]"

definition wallet_ledger_csv_row :: "'d printers \<Rightarrow> 'd wallet_ledger_record \<Rightarrow> csv_field list" where
  "wallet_ledger_csv_row pr r =
     [Plain (pr_uuid pr (wl_id r)), Plain (or_empty (pr_uuid pr) (wl_raw_transaction_id r)),
      Text (wl_wallet_address r), Text (wl_network r), Text (wl_tx_hash r),
      Plain (show_int (wl_timestamp r)), Text (wl_entry_type r), Text (wl_asset_symbol r),
      Plain (pr_num pr (wl_amount r)), Text (or_empty id (wl_counterparty_address r)),
      Plain (or_empty (pr_num pr) (wl_fee_amount r)), Text (or_empty id (wl_fee_asset r)),
      Plain (or_empty (pr_num pr) (wl_cost_basis r)), Plain (or_empty (pr_num pr) (wl_proceeds r)),
      Plain (or_empty (pr_uuid pr) (wl_dataset_version_id r)), Plain (pr_time pr (wl_created_at r))]"

definition balance_history_csv_header :: string where
  "balance_history_csv_header =
     ''id,wallet_address,asset_symbol,network,timestamp,balance,''
     @ ''tx_hash,dataset_version_id,created_at'' @ [CHR 0x0A]"

definition balance_history_csv_row :: "'d printers \<Rightarrow> 'd balance_snapshot \<Rightarrow> csv_field list" where
  "balance_history_csv_row pr r =
     [Plain (pr_uuid pr (bs_id r)), Text (bs_wallet_address r), Text (bs_asset_symbol r),
      Text (bs_network r), Plain (show_int (bs_timestamp r)), Plain (pr_num pr (bs_balance r)),
      Text (bs_tx_hash r), Plain (or_empty (pr_uuid pr) (bs_dataset_version_id r)),
      Plain (pr_time pr (bs_created_at r))]"

definition hl_pnl_summary_csv_header :: string where
  "hl_pnl_summary_csv_header =
     ''id,wallet_address,coin,network,period_start,period_end,''
     @ ''total_closed_pnl,total_funding,total_fees,net_pnl,trade_count,fill_count,''
     @ ''avg_trade_size,win_count,loss_count,dataset_version_id,created_at'' @ [CHR 0x0A]"

definition hl_pnl_summary_csv_row :: "'d printers \<Rightarrow> 'd hl_pnl_summary \<Rightarrow> csv_field list" where
  "hl_pnl_summary_csv_row pr r =
     [Plain (pr_uuid pr (pnl_id r)), Text (pnl_wallet_address r), Text (pnl_coin r),
      Text (pnl_network r), Plain (show_int (pnl_period_start r)),
      Plain (show_int (pnl_period_end r)), Plain (pr_num pr (pnl_total_closed_pnl r)),
      Plain (pr_num pr (pnl_total_funding r)), Plain (pr_num pr (pnl_total_fees r)),
      Plain (pr_num pr (pnl_net_pnl r)), Plain (show_int (pnl_trade_count r)),
      Plain (show_int (pnl_fill_count r)), Plain (pr_num pr (pnl_avg_trade_size r)),
      Plain (show_int (pnl_win_count r)), Plain (show_int (pnl_loss_count r)),
      Plain (or_empty (pr_uuid pr) (pnl_dataset_version_id r)), Plain (pr_time pr (pnl_created_at r))]"

definition hl_trade_history_csv_header :: string where
  "hl_trade_history_csv_header =
     ''id,wallet_address,coin,network,side,entry_price,''
     @ ''exit_price,size,opened_at,closed_at,realized_pnl,fees,''
     @ ''num_fills,dataset_version_id,created_at'' @ [CHR 0x0A]"

definition hl_trade_history_csv_row :: "'d printers \<Rightarrow> 'd hl_trade_history \<Rightarrow> csv_field list" where
  "hl_trade_history_csv_row pr r =
     [Plain (pr_uuid pr (trade_id r)), Text (trade_wallet_address r), Text (trade_coin r),
      Text (trade_network r), Text (trade_side r), Plain (pr_num pr (trade_entry_price r)),
      Plain (pr_num pr (trade_exit_price r)), Plain (pr_num pr (trade_size r)),
      Plain (show_int (trade_opened_at r)), Plain (show_int (trade_closed_at r)),
      Plain (pr_num pr (trade_realized_pnl r)), Plain (pr_num pr (trade_fees r)),
      Plain (show_int (trade_num_fills r)),
      Plain (or_empty (pr_uuid pr) (trade_dataset_version_id r)),
      Plain (pr_time pr (trade_created_at r))]"

definition protocol_events_csv_header :: string where
  "protocol_events_csv_header =
     ''id,network,protocol_address,protocol_name,event_type,event_details,''
     @ ''pool_address,raw_event_id,timestamp,dataset_version_id,created_at'' @ [CHR 0x0A]"

definition protocol_events_csv_row :: "'d printers \<Rightarrow> protocol_event \<Rightarrow> csv_field list" where
  "protocol_events_csv_row pr r =
     [Plain (pr_uuid pr (pe_id r)), Text (pe_network r), Text (pe_protocol_address r),
      Text (or_empty id (pe_protocol_name r)), Text (pe_event_type r),
      Text (pr_json pr (pe_event_details r)), Text (or_empty id (pe_pool_address r)),
      Plain (or_empty (pr_uuid pr) (pe_raw_event_id r)), Plain (show_int (pe_timestamp r)),
      Plain (or_empty (pr_uuid pr) (pe_dataset_version_id r)), Plain (pr_time pr (pe_created_at r))]"

definition pool_snapshots_csv_header :: string where
  "pool_snapshots_csv_header =
     ''id,network,pool_address,protocol_address,protocol_name,token0_address,''
     @ ''token0_symbol,token1_address,token1_symbol,reserve0,reserve1,tvl_usd,''
     @ ''snapshot_timestamp,block_number,dataset_version_id,created_at'' @ [CHR 0x0A]"

definition pool_snapshots_csv_row :: "'d printers \<Rightarrow> 'd pool_snapshot \<Rightarrow> csv_field list" where
  "pool_snapshots_csv_row pr r =
     [Plain (pr_uuid pr (ps_id r)), Text (ps_network r), Text (ps_pool_address r),
      Text (ps_protocol_address r), Text (or_empty id (ps_protocol_name r)),
      Text (ps_token0_address r), Text (or_empty id (ps_token0_symbol r)), Text (ps_token1_address r),
      Text (or_empty id (ps_token1_symbol r)), Plain (pr_num pr (ps_reserve0 r)),
      Plain (pr_num pr (ps_reserve1 r)), Plain (or_empty (pr_num pr) (ps_tvl_usd r)),
      Plain (show_int (ps_snapshot_timestamp r)), Plain (or_empty (show_int) (ps_block_number r)),
      Plain (or_empty (pr_uuid pr) (ps_dataset_version_id r)), Plain (pr_time pr (ps_created_at r))]"

definition raw_transactions_csv_header :: string where
  "raw_transactions_csv_header = ''id,network,tx_hash,timestamp,block_number,source,raw_metadata'' @ [CHR 0x0A]"

definition raw_transactions_csv_row :: "'d printers \<Rightarrow> raw_transaction \<Rightarrow> csv_field list" where
  "raw_transactions_csv_row pr r =
     [Plain (pr_uuid pr (raw_id r)), Text (raw_network r), Text (raw_tx_hash r), Plain (show_int (raw_timestamp r)),
      Plain (or_empty show_int (raw_block_number r)), Text (raw_source r), Text (pr_json pr (raw_metadata r))]"

definition wallet_ledger_tax_csv_header :: string where
  "wallet_ledger_tax_csv_header =
     ''Date,Type,Sent_Asset,Sent_Amount,Received_Asset,Received_Amount,''
     @ ''Fee_Asset,Fee_Amount,Cost_Basis,Proceeds,Gain_Loss,Tx_Hash,Network'' @ [CHR 0x0A]"

text \<open>The three amounts of a tax row with their assets: sent, received and fee.\<close>

record 'd tax_amounts =
  tax_sent :: "(string \<times> 'd) option"
  tax_received :: "(string \<times> 'd) option"
  tax_fee :: "(string \<times> 'd option) option"

definition wallet_tax_amounts :: "'d :: linordered_idom wallet_ledger_record \<Rightarrow> 'd tax_amounts" where
  "wallet_tax_amounts r =
     \<lparr>tax_sent = (if wl_entry_type r = ''fee'' \<and> wl_amount r < 0 then None
         else if wl_amount r < 0 then Some (wl_asset_symbol r, \<bar>wl_amount r\<bar>) else None),
      tax_received = (if wl_entry_type r = ''fee'' \<and> wl_amount r < 0 then None
         else if wl_amount r < 0 then None else Some (wl_asset_symbol r, wl_amount r)),
      tax_fee = (if wl_entry_type r = ''fee''
         then if wl_amount r < 0 then Some (wl_asset_symbol r, Some \<bar>wl_amount r\<bar>) else None
         else Some (or_empty id (wl_fee_asset r), wl_fee_amount r))\<rparr>"

definition wallet_ledger_tax_csv_row :: "'d :: linordered_idom printers \<Rightarrow> 'd wallet_ledger_record \<Rightarrow> csv_field list" where
  "wallet_ledger_tax_csv_row pr r =
     (let t = wallet_tax_amounts r;
          gain_loss = (case (wl_proceeds r, wl_cost_basis r) of (Some p, Some c) \<Rightarrow> pr_num pr (p - c) | _ \<Rightarrow> [])
      in [Text (case pr_date pr (wl_timestamp r) of Some d \<Rightarrow> d | None \<Rightarrow> show_int (wl_timestamp r)),
          Text (wl_entry_type r),
          Text (or_empty fst (tax_sent t)), Plain (or_empty (\<lambda>p. pr_num pr (snd p)) (tax_sent t)),
          Text (or_empty fst (tax_received t)), Plain (or_empty (\<lambda>p. pr_num pr (snd p)) (tax_received t)),
          Text (or_empty fst (tax_fee t)), Plain (or_empty (\<lambda>p. or_empty (pr_num pr) (snd p)) (tax_fee t)),
          Plain (or_empty (pr_num pr) (wl_cost_basis r)), Plain (or_empty (pr_num pr) (wl_proceeds r)),
          Plain gain_loss, Text (wl_tx_hash r), Text (wl_network r)])"

section \<open>Pages\<close>

datatype 'd export_record_batch =
    B_RawTransactions "raw_transaction list"
  | B_TokenTransfers "'d token_transfer list"
  | B_NativeBalanceDeltas "'d native_balance_delta list"
  | B_DecodedEvents "decoded_event list"
  | B_HlFills "'d hl_fill_record list"
  | B_HlFunding "'d hl_funding_payment list"
  | B_Positions "'d hl_position_change list"
  | B_WalletLedger "'d wallet_ledger_record list"
  | B_BalanceHistory "'d balance_snapshot list"
  | B_HlPnlSummary "'d hl_pnl_summary list"
  | B_HlTradeHistory "'d hl_trade_history list"
  | B_ProtocolEvents "protocol_event list"
  | B_PoolSnapshots "'d pool_snapshot list"

fun batch_len :: "'d export_record_batch \<Rightarrow> nat" where
  "batch_len (B_RawTransactions v) = length v"
| "batch_len (B_TokenTransfers v) = length v"
| "batch_len (B_NativeBalanceDeltas v) = length v"
| "batch_len (B_DecodedEvents v) = length v"
| "batch_len (B_HlFills v) = length v"
| "batch_len (B_HlFunding v) = length v"
| "batch_len (B_Positions v) = length v"
| "batch_len (B_WalletLedger v) = length v"
| "batch_len (B_BalanceHistory v) = length v"
| "batch_len (B_HlPnlSummary v) = length v"
| "batch_len (B_HlTradeHistory v) = length v"
| "batch_len (B_ProtocolEvents v) = length v"
| "batch_len (B_PoolSnapshots v) = length v"

fun batch_rows :: "'d printers \<Rightarrow> 'd export_record_batch \<Rightarrow> csv_field list list" where
  "batch_rows pr (B_RawTransactions v) = map (raw_transactions_csv_row pr) v"
| "batch_rows pr (B_TokenTransfers v) = map (token_transfers_csv_row pr) v"
| "batch_rows pr (B_NativeBalanceDeltas v) = map (native_balance_deltas_csv_row pr) v"
| "batch_rows pr (B_DecodedEvents v) = map (decoded_events_csv_row pr) v"
| "batch_rows pr (B_HlFills v) = map (hl_fills_csv_row pr) v"
| "batch_rows pr (B_HlFunding v) = map (hl_funding_csv_row pr) v"
| "batch_rows pr (B_Positions v) = map (hl_positions_csv_row pr) v"
| "batch_rows pr (B_WalletLedger v) = map (wallet_ledger_csv_row pr) v"
| "batch_rows pr (B_BalanceHistory v) = map (balance_history_csv_row pr) v"
| "batch_rows pr (B_HlPnlSummary v) = map (hl_pnl_summary_csv_row pr) v"
| "batch_rows pr (B_HlTradeHistory v) = map (hl_trade_history_csv_row pr) v"
| "batch_rows pr (B_ProtocolEvents v) = map (protocol_events_csv_row pr) v"
| "batch_rows pr (B_PoolSnapshots v) = map (pool_snapshots_csv_row pr) v"

text \<open>\<open>jsonl\<close> gives the serialized records of a page.\<close>

definition encode_batch ::
    "'d printers \<Rightarrow> ('d export_record_batch \<Rightarrow> string list) \<Rightarrow> 'd export_record_batch \<Rightarrow> export_format \<Rightarrow> string" where
  "encode_batch pr jsonl b fmt =
     (case fmt of Fmt_Jsonl \<Rightarrow> concat (map (\<lambda>l. l @ [CHR 0x0A]) (jsonl b)) | Fmt_Csv \<Rightarrow> concat (map csv_line (batch_rows pr b)))"

definition csv_header_for :: "string \<Rightarrow> string option" where
  "csv_header_for ds = map_of
     [(''raw_transactions'', raw_transactions_csv_header), (''token_transfers'', token_transfers_csv_header),
      (''native_balance_deltas'', native_balance_deltas_csv_header), (''decoded_events'', decoded_events_csv_header),
      (''hl_fills'', hl_fills_csv_header), (''hl_funding'', hl_funding_csv_header), (''positions'', hl_positions_csv_header),
      (''wallet_ledger'', wallet_ledger_csv_header), (''balance_history'', balance_history_csv_header),
      (''hl_pnl_summary'', hl_pnl_summary_csv_header), (''hl_trade_history'', hl_trade_history_csv_header),
      (''protocol_events'', protocol_events_csv_header), (''pool_snapshots'', pool_snapshots_csv_header)] ds"

section \<open>Provenance\<close>

record export_metadata =
  em_dataset_version_id :: "uuid option"
  em_dataset_version :: "int option"
  em_completeness_status :: "string option"
  em_completeness_coverage :: "json option"
  em_last_ingestion_run_id :: "uuid option"

definition fetch_export_metadata ::
    "dataset_version list \<Rightarrow> dataset_completeness list \<Rightarrow> string \<Rightarrow> uuid option \<Rightarrow> string option \<Rightarrow> export_metadata" where
  "fetch_export_metadata dvs dcs ds target network =
     (let active = get_active_dataset_version ds dvs;
          records = list_completeness_filtered ds target network dcs;
          unknown = list_ex (\<lambda>r. dc_dataset_version_id r = None) records;
          version_ids = remdups_adj (sort (List.map_filter dc_dataset_version_id records));
          completeness_version =
            (if records = [] \<or> unknown then None
             else case version_ids of [v] \<Rightarrow> get_dataset_version_by_id v dvs | _ \<Rightarrow> None);
          preferred =
            (if records = [] then active
             else if completeness_version \<noteq> None then completeness_version
             else if version_ids = [] then active else None);
          st = (if list_ex (\<lambda>r. dc_status r = CS_Gap) records then ''gap''
                else if list_ex (\<lambda>r. dc_status r = CS_Backfilling) records then ''backfilling''
                else if list_ex (\<lambda>r. dc_status r = CS_Partial) records then ''partial''
                else ''complete'');
          coverage = JObject
            [(''coverage_start'', json_opt JInt (min_opt (List.map_filter dc_coverage_start records))),
             (''coverage_end'', json_opt JInt (max_opt (List.map_filter dc_coverage_end records))),
             (''block_start'', json_opt JInt (min_opt (List.map_filter dc_block_start records))),
             (''block_end'', json_opt JInt (max_opt (List.map_filter dc_block_end records)))]
      in \<lparr>em_dataset_version_id = map_option dv_id preferred, em_dataset_version = map_option dv_version preferred,
          em_completeness_status = (if records = [] then None else Some st),
          em_completeness_coverage = (if records = [] then None else Some coverage),
          em_last_ingestion_run_id = first_row (List.map_filter dc_last_ingestion_run_id (rev records))\<rparr>)"

section \<open>Reading back\<close>

datatype mode = At_Start | In_Bare | In_Quotes | After_Quote

fun csv_scan :: "mode \<Rightarrow> string \<Rightarrow> string list \<Rightarrow> string \<Rightarrow> string list list" where
  "csv_scan m cell row [] = (if m = At_Start \<and> row = [] then [] else [row @ [cell]])"
| "csv_scan In_Quotes cell row (c # cs) =
     (if c = CHR 0x22 then csv_scan After_Quote cell row cs else csv_scan In_Quotes (cell @ [c]) row cs)"
| "csv_scan At_Start cell row (c # cs) =
     (if c = CHR 0x22 then csv_scan In_Quotes cell row cs
      else if c = CHR '','' then csv_scan At_Start [] (row @ [cell]) cs
      else if c = CHR 0x0A then (row @ [cell]) # csv_scan At_Start [] [] cs
      else csv_scan In_Bare (cell @ [c]) row cs)"
| "csv_scan In_Bare cell row (c # cs) =
     (if c = CHR '','' then csv_scan At_Start [] (row @ [cell]) cs
      else if c = CHR 0x0A then (row @ [cell]) # csv_scan At_Start [] [] cs
      else csv_scan In_Bare (cell @ [c]) row cs)"
| "csv_scan After_Quote cell row (c # cs) =
     (if c = CHR 0x22 then csv_scan In_Quotes (cell @ [c]) row cs
      else if c = CHR '','' then csv_scan At_Start [] (row @ [cell]) cs
      else if c = CHR 0x0A then (row @ [cell]) # csv_scan At_Start [] [] cs
      else csv_scan In_Bare (cell @ [c]) row cs)"

definition csv_read :: "string \<Rightarrow> string list list" where
  "csv_read s = csv_scan At_Start [] [] s"

fun cell :: "csv_field \<Rightarrow> string" where
  "cell (Text s) = protect s"
| "cell (Plain s) = s"

fun plain_field :: "csv_field \<Rightarrow> bool" where
  "plain_field (Text s) = True"
| "plain_field (Plain s) = (\<not> needs_quotes s)"

text \<open>What ends a cell: a comma or a newline.\<close>

definition after_cell :: "string list \<Rightarrow> char \<Rightarrow> string \<Rightarrow> string list list" where
  "after_cell row c rest =
     (if c = CHR '','' then csv_scan At_Start [] row rest else row # csv_scan At_Start [] [] rest)"

definition separator :: "char \<Rightarrow> bool" where
  "separator c \<longleftrightarrow> c = CHR '','' \<or> c = CHR 0x0A"

lemma needs_quotes_Cons: "needs_quotes (c # s) \<longleftrightarrow> c \<in> set [CHR '','', CHR 0x22, CHR 0x0A, CHR 0x0D] \<or> needs_quotes s"
  by (simp add: needs_quotes_def)

lemma scan_bare:
  "\<not> needs_quotes s \<Longrightarrow> separator c \<Longrightarrow> csv_scan In_Bare x row (s @ c # rest) = after_cell (row @ [x @ s]) c rest"
  by (induction s arbitrary: x) (auto simp: separator_def after_cell_def needs_quotes_Cons)

lemma scan_start:
  "\<not> needs_quotes s \<Longrightarrow> separator c \<Longrightarrow> csv_scan At_Start [] row (s @ c # rest) = after_cell (row @ [s]) c rest"
  by (cases s) (auto simp: separator_def after_cell_def needs_quotes_Cons scan_bare)

lemma scan_quoted:
  "separator c \<Longrightarrow>
     csv_scan In_Quotes x row (double_quotes s @ CHR 0x22 # c # rest) = after_cell (row @ [x @ s]) c rest"
  by (induction s arbitrary: x) (auto simp: double_quotes_def separator_def after_cell_def)

lemma scan_field:
  "plain_field f \<Longrightarrow> separator c \<Longrightarrow> csv_scan At_Start [] row (render f @ c # rest) = after_cell (row @ [cell f]) c rest"
  by (cases f) (simp_all add: csv_escape_def Let_def scan_start scan_quoted)

lemma scan_line:
  assumes "fs \<noteq> []" "list_all plain_field fs"
  shows "csv_scan At_Start [] row (csv_line fs @ rest) = (row @ map cell fs) # csv_scan At_Start [] [] rest"
  using assms
proof (induction fs arbitrary: row rule: list_nonempty_induct)
  case (single f)
  then show ?case by (simp add: csv_line_def scan_field separator_def after_cell_def)
next
  case (cons f fs)
  then obtain g gs where fs: "fs = g # gs" by (cases fs) auto
  then have "csv_line (f # fs) = render f @ CHR '','' # csv_line fs" by (simp add: csv_line_def)
  then show ?case using cons by (simp add: scan_field separator_def after_cell_def)
qed

lemma scan_lines:
  "\<forall>fs \<in> set rows. fs \<noteq> [] \<and> list_all plain_field fs \<Longrightarrow>
     csv_scan At_Start [] [] (concat (map csv_line rows) @ rest) = map (map cell) rows @ csv_scan At_Start [] [] rest"
  by (induction rows) (simp_all add: scan_line)

section \<open>Plain fields\<close>

text \<open>The printers of UUIDs, decimals and times write none of the characters that need quoting.\<close>

definition printers_plain :: "'d printers \<Rightarrow> bool" where
  "printers_plain pr \<longleftrightarrow> (\<forall>u. \<not> needs_quotes (pr_uuid pr u)) \<and> (\<forall>d. \<not> needs_quotes (pr_num pr d))
     \<and> (\<forall>t. \<not> needs_quotes (pr_time pr t))"

lemma digit_plain:
  fixes n :: nat
  assumes n: "n < 10"
  shows "\<not> needs_quotes [char_of (48 + n)]"
proof -
  have "of_char (char_of (48 + n) :: char) = 48 + n" using n by simp
  then have "char_of (48 + n) \<noteq> c" if "of_char c < (48 :: nat)" for c :: char using that by auto
  then show ?thesis by (simp add: needs_quotes_def)
qed

lemma needs_quotes_append [simp]: "needs_quotes (s @ t) \<longleftrightarrow> needs_quotes s \<or> needs_quotes t"
  by (simp add: needs_quotes_def)

lemma show_nat_plain [simp]: "\<not> needs_quotes (show_nat n)"
proof (induction n rule: show_nat.induct)
  case (1 n)
  then show ?case by (subst show_nat.simps) (simp add: digit_plain)
qed

lemma show_int_plain [simp]: "\<not> needs_quotes (show_int i)"
  by (simp add: show_int_def needs_quotes_Cons)

lemma show_bool_plain [simp]: "\<not> needs_quotes (show_bool b)"
  by (simp add: show_bool_def needs_quotes_def)

lemma or_empty_plain: "(\<And>x. \<not> needs_quotes (f x)) \<Longrightarrow> \<not> needs_quotes (or_empty f v)"
  by (cases v) (simp_all add: or_empty_def needs_quotes_def)

lemmas csv_row_defs = raw_transactions_csv_row_def token_transfers_csv_row_def native_balance_deltas_csv_row_def
  decoded_events_csv_row_def hl_fills_csv_row_def hl_funding_csv_row_def hl_positions_csv_row_def
  wallet_ledger_csv_row_def balance_history_csv_row_def hl_pnl_summary_csv_row_def hl_trade_history_csv_row_def
  protocol_events_csv_row_def pool_snapshots_csv_row_def

lemma batch_rows_plain:
  assumes "printers_plain pr" "row \<in> set (batch_rows pr b)"
  shows "row \<noteq> [] \<and> list_all plain_field row"
proof -
  have p: "\<not> needs_quotes (pr_uuid pr u)" "\<not> needs_quotes (pr_num pr d)" "\<not> needs_quotes (pr_time pr t)" for u d t
    using assms(1) by (simp_all add: printers_plain_def)
  show ?thesis using assms(2) by (cases b) (auto simp: csv_row_defs p intro!: or_empty_plain)
qed

fun batch_dataset :: "'d export_record_batch \<Rightarrow> string" where
  "batch_dataset (B_RawTransactions v) = ''raw_transactions''"
| "batch_dataset (B_TokenTransfers v) = ''token_transfers''"
| "batch_dataset (B_NativeBalanceDeltas v) = ''native_balance_deltas''"
| "batch_dataset (B_DecodedEvents v) = ''decoded_events''"
| "batch_dataset (B_HlFills v) = ''hl_fills''"
| "batch_dataset (B_HlFunding v) = ''hl_funding''"
| "batch_dataset (B_Positions v) = ''positions''"
| "batch_dataset (B_WalletLedger v) = ''wallet_ledger''"
| "batch_dataset (B_BalanceHistory v) = ''balance_history''"
| "batch_dataset (B_HlPnlSummary v) = ''hl_pnl_summary''"
| "batch_dataset (B_HlTradeHistory v) = ''hl_trade_history''"
| "batch_dataset (B_ProtocolEvents v) = ''protocol_events''"
| "batch_dataset (B_PoolSnapshots v) = ''pool_snapshots''"

lemma csv_header_lookup:
  "csv_header_for ''raw_transactions'' = Some raw_transactions_csv_header"
  "csv_header_for ''token_transfers'' = Some token_transfers_csv_header"
  "csv_header_for ''native_balance_deltas'' = Some native_balance_deltas_csv_header"
  "csv_header_for ''decoded_events'' = Some decoded_events_csv_header"
  "csv_header_for ''hl_fills'' = Some hl_fills_csv_header"
  "csv_header_for ''hl_funding'' = Some hl_funding_csv_header"
  "csv_header_for ''positions'' = Some hl_positions_csv_header"
  "csv_header_for ''wallet_ledger'' = Some wallet_ledger_csv_header"
  "csv_header_for ''balance_history'' = Some balance_history_csv_header"
  "csv_header_for ''hl_pnl_summary'' = Some hl_pnl_summary_csv_header"
  "csv_header_for ''hl_trade_history'' = Some hl_trade_history_csv_header"
  "csv_header_for ''protocol_events'' = Some protocol_events_csv_header"
  "csv_header_for ''pool_snapshots'' = Some pool_snapshots_csv_header"
  by (simp_all add: csv_header_for_def)

text \<open>A header line is the line of its columns, of which there are \<open>n\<close>.\<close>

definition header_ok :: "string \<Rightarrow> nat \<Rightarrow> bool" where
  "header_ok h n \<longleftrightarrow> (let cols = hd (csv_read h) in
     h = csv_line (map Plain cols) \<and> list_all (\<lambda>c. \<not> needs_quotes c) cols \<and> cols \<noteq> [] \<and> length cols = n)"

lemma headers_ok:
  "header_ok raw_transactions_csv_header 7" "header_ok token_transfers_csv_header 12"
  "header_ok native_balance_deltas_csv_header 11" "header_ok decoded_events_csv_header 9"
  "header_ok hl_fills_csv_header 16" "header_ok hl_funding_csv_header 9" "header_ok hl_positions_csv_header 11"
  "header_ok wallet_ledger_csv_header 16" "header_ok balance_history_csv_header 9" "header_ok hl_pnl_summary_csv_header 17"
  "header_ok hl_trade_history_csv_header 15" "header_ok protocol_events_csv_header 11" "header_ok pool_snapshots_csv_header 16"
  by code_simp+

lemma header_cells: "header_ok h n \<Longrightarrow> \<exists>cols. length cols = n \<and> (\<forall>rest. csv_scan At_Start [] [] (h @ rest) = cols # csv_scan At_Start [] [] rest)"
proof -
  assume ok: "header_ok h n"
  let ?cols = "hd (csv_read h)"
  have h: "h = csv_line (map Plain ?cols)" and p: "list_all plain_field (map Plain ?cols)" "?cols \<noteq> []" "length ?cols = n"
    using ok by (simp_all add: header_ok_def Let_def list_all_iff)
  have "csv_scan At_Start [] [] (h @ rest) = ?cols # csv_scan At_Start [] [] rest" for rest
    using scan_line [of "map Plain ?cols" "[]" rest] p by (subst h) (simp add: comp_def)
  then show ?thesis using p(3) by blast
qed

lemma batch_columns:
  "\<exists>h n. csv_header_for (batch_dataset b) = Some h \<and> header_ok h n \<and> (\<forall>row \<in> set (batch_rows pr b). length row = n)"
  by (cases b) (use headers_ok in \<open>auto simp: csv_header_lookup csv_row_defs\<close>)

lemma protected_safe: "\<not> risky (protect s)"
proof (cases "risky s")
  case True
  have "trim_start (CHR 0x27 # s) = CHR 0x27 # s" by (simp add: trim_start_def is_whitespace_def)
  then show ?thesis using True by (simp add: protect_def risky_def [of "CHR 0x27 # s"] formula_char_def)
qed (simp add: protect_def)

text \<open>
  C36. Exports read back. The CSV of any sequence of pages of a dataset, header first, is read as the
  header row followed by one row per record, with exactly the columns of the header: plain values
  come back as they are, text comes back as it is or with one apostrophe in front, and no text
  cell that a spreadsheet would take for a formula is left unprotected.
\<close>

theorem csv_export_roundtrip:
  assumes "printers_plain pr" "pages \<noteq> []" "\<forall>b \<in> set pages. batch_dataset b = ds"
  shows "\<exists>h cols. csv_header_for ds = Some h
    \<and> csv_read (h @ concat (map (\<lambda>b. encode_batch pr jsonl b Fmt_Csv) pages)) =
        cols # map (map cell) (concat (map (batch_rows pr) pages))
    \<and> (\<forall>row \<in> set (concat (map (batch_rows pr) pages)). length row = length cols)
    \<and> length (concat (map (batch_rows pr) pages)) = sum_list (map batch_len pages)
    \<and> (\<forall>s. cell (Text s) \<in> {s, CHR 0x27 # s} \<and> \<not> risky (cell (Text s)))"
proof -
  obtain b0 where b0: "b0 \<in> set pages" using assms(2) by (cases pages) auto
  obtain h n where h: "csv_header_for ds = Some h" "header_ok h n"
    using batch_columns [of b0 pr] assms(3) b0 by auto
  obtain cols where cols: "length cols = n" "\<And>rest. csv_scan At_Start [] [] (h @ rest) = cols # csv_scan At_Start [] [] rest"
    using header_cells [OF h(2)] by blast
  have rows: "length row = n" if r: "row \<in> set (batch_rows pr b)" "b \<in> set pages" for row b
  proof -
    obtain h' n' where h': "csv_header_for ds = Some h'" "header_ok h' n'" "length row = n'"
      using batch_columns [of b pr] assms(3) r by auto
    then have "header_ok h n'" using h(1) by simp
    then show ?thesis using h(2) h'(3) by (simp add: header_ok_def Let_def)
  qed
  have enc: "concat (map (\<lambda>b. encode_batch pr jsonl b Fmt_Csv) pages) =
      concat (map csv_line (concat (map (batch_rows pr) pages)))"
    by (induction pages) (simp_all add: encode_batch_def)
  have plain: "\<forall>fs \<in> set (concat (map (batch_rows pr) pages)). fs \<noteq> [] \<and> list_all plain_field fs"
    using batch_rows_plain [OF assms(1)] by auto
  have read: "csv_read (h @ concat (map (\<lambda>b. encode_batch pr jsonl b Fmt_Csv) pages)) =
      cols # map (map cell) (concat (map (batch_rows pr) pages))"
    unfolding csv_read_def enc cols(2) using scan_lines [OF plain, of "[]"] by simp
  have len: "length (concat (map (batch_rows pr) pages)) = sum_list (map batch_len pages)"
  proof (induction pages)
    case (Cons b pages)
    then show ?case by (cases b) simp_all
  qed simp
  show ?thesis
    using h(1) read rows len cols(1) protected_safe by (fastforce simp: protect_def)
qed

definition sample_printers :: "int printers" where
  "sample_printers = \<lparr>pr_uuid = (\<lambda>u. show_nat (unat u)), pr_num = show_int, pr_json = (\<lambda>_. ''{}''), pr_time = show_int,
     pr_date = (\<lambda>_. None)\<rparr>"

theorem csv_export_roundtrip_witness:
  "\<exists>h cols. csv_header_for ''raw_transactions'' = Some h \<and> length cols = 7
     \<and> csv_read (h @ concat (map (\<lambda>b. encode_batch sample_printers (\<lambda>_. []) b Fmt_Csv)
          [B_RawTransactions [sample_raw\<lparr>raw_source := ''=1,2''\<rparr>], B_RawTransactions [sample_raw]])) =
        cols # map (map cell) [raw_transactions_csv_row sample_printers (sample_raw\<lparr>raw_source := ''=1,2''\<rparr>),
          raw_transactions_csv_row sample_printers sample_raw]"
proof -
  have "printers_plain sample_printers" by (simp add: printers_plain_def sample_printers_def)
  from csv_export_roundtrip [OF this, where pages = "[B_RawTransactions [sample_raw\<lparr>raw_source := ''=1,2''\<rparr>], B_RawTransactions [sample_raw]]"
      and ds = "''raw_transactions''" and jsonl = "\<lambda>_. []"]
  show ?thesis by (auto simp: raw_transactions_csv_row_def)
qed

text \<open>
  The tax report counts every ledger entry once. The received amount less the sent amount, and
  for a fee entry less the fee, is the amount of the entry; a fee entry that is paid shows neither
  a sent nor a received amount, and amounts are never negative on the side they are reported.
\<close>

theorem tax_row_counts_once:
  "let t = wallet_tax_amounts r;
       amount = (\<lambda>v. case v of Some (_, x) \<Rightarrow> x | None \<Rightarrow> 0);
       fee = (case tax_fee t of Some (_, Some x) \<Rightarrow> x | _ \<Rightarrow> 0)
   in amount (tax_received t) - amount (tax_sent t) - (if wl_entry_type r = ''fee'' then fee else 0) = wl_amount r
     \<and> amount (tax_received t) \<ge> 0 \<and> amount (tax_sent t) \<ge> 0
     \<and> (tax_received t = None \<or> tax_sent t = None)
     \<and> (wl_entry_type r = ''fee'' \<and> wl_amount r < 0 \<longrightarrow> tax_received t = None \<and> tax_sent t = None \<and> fee = - wl_amount r)"
  by (simp add: wallet_tax_amounts_def Let_def)

theorem tax_row_counts_once_witness:
  "tax_sent (wallet_tax_amounts \<lparr>wl_id = 1, wl_raw_transaction_id = None, wl_wallet_address = ''w'', wl_network = ''n'',
      wl_tx_hash = ''h'', wl_timestamp = 1, wl_entry_type = ''fee'', wl_asset_symbol = ''USDC'', wl_amount = (-1 :: int),
      wl_counterparty_address = None, wl_fee_amount = Some 1, wl_fee_asset = Some ''USDC'', wl_cost_basis = None, wl_proceeds = None,
      wl_dataset_version_id = None, wl_created_at = 0\<rparr>) = None"
  using tax_row_counts_once [of "\<lparr>wl_id = 1, wl_raw_transaction_id = None, wl_wallet_address = ''w'', wl_network = ''n'',
      wl_tx_hash = ''h'', wl_timestamp = 1, wl_entry_type = ''fee'', wl_asset_symbol = ''USDC'', wl_amount = (-1 :: int),
      wl_counterparty_address = None, wl_fee_amount = Some 1, wl_fee_asset = Some ''USDC'', wl_cost_basis = None, wl_proceeds = None,
      wl_dataset_version_id = None, wl_created_at = 0\<rparr>"]
  by (simp add: Let_def)

end
