(* ===== verification/Api_Access.thy ===== *)
theory Api_Access
  imports Targets
begin

text \<open>
  Who may call the API, and on what: API keys (\<open>adapters/src/v2_repo.rs\<close>), authentication, the
  wallet and target checks of a tenant, the request guards and the key handlers
  (\<open>api/src/main.rs\<close>). \<open>sha\<close> is the hexadecimal SHA-256 digest.
\<close>

section \<open>Errors\<close>

record app_error =
  ae_status :: nat
  ae_message :: string

definition err_internal :: app_error where
  "err_internal = \<lparr>ae_status = 500, ae_message = ''Internal server error''\<rparr>"

definition err_not_found :: "string \<Rightarrow> app_error" where
  "err_not_found msg = \<lparr>ae_status = 404, ae_message = msg\<rparr>"

definition err_bad_request :: "string \<Rightarrow> app_error" where
  "err_bad_request msg = \<lparr>ae_status = 400, ae_message = msg\<rparr>"

definition err_service_unavailable :: "string \<Rightarrow> app_error" where
  "err_service_unavailable msg = \<lparr>ae_status = 503, ae_message = msg\<rparr>"

definition err_forbidden :: "string \<Rightarrow> app_error" where
  "err_forbidden msg = \<lparr>ae_status = 403, ae_message = msg\<rparr>"

definition unauthorized :: app_error where
  "unauthorized = \<lparr>ae_status = 401, ae_message = ''Missing or invalid API key''\<rparr>"

section \<open>API keys\<close>

record api_key =
  ak_id :: uuid
  ak_key_hash :: string
  ak_name :: "string option"
  ak_owner_id :: uuid
  ak_created_at :: timestamp
  ak_revoked_at :: "timestamp option"

text \<open>The hash is unique, the id is the primary key.\<close>

definition create_api_key ::
    "uuid \<Rightarrow> timestamp \<Rightarrow> string \<Rightarrow> string option \<Rightarrow> uuid \<Rightarrow> api_key list \<Rightarrow> (api_key \<times> api_key list) result" where
  "create_api_key i now hash name owner keys =
     (if list_ex (\<lambda>k. ak_id k = i \<or> ak_key_hash k = hash) keys
      then Inl ''duplicate key value violates unique constraint''
      else let k = \<lparr>ak_id = i, ak_key_hash = hash, ak_name = name, ak_owner_id = owner, ak_created_at = now, ak_revoked_at = None\<rparr>
           in Inr (k, keys @ [k]))"

definition validate_api_key :: "string \<Rightarrow> api_key list \<Rightarrow> api_key option" where
  "validate_api_key hash keys = find (\<lambda>k. ak_key_hash k = hash \<and> ak_revoked_at k = None) keys"

definition revoke_api_key :: "timestamp \<Rightarrow> uuid \<Rightarrow> uuid \<Rightarrow> api_key list \<Rightarrow> api_key list" where
  "revoke_api_key now i owner keys =
     map (\<lambda>k. if ak_id k = i \<and> ak_owner_id k = owner then k\<lparr>ak_revoked_at := Some now\<rparr> else k) keys"

definition revoke_api_key_admin :: "timestamp \<Rightarrow> uuid \<Rightarrow> api_key list \<Rightarrow> api_key list" where
  "revoke_api_key_admin now i keys = map (\<lambda>k. if ak_id k = i then k\<lparr>ak_revoked_at := Some now\<rparr> else k) keys"

definition list_api_keys_by_owner :: "uuid \<Rightarrow> api_key list \<Rightarrow> api_key list" where
  "list_api_keys_by_owner owner keys =
     sort_key ak_created_at (filter (\<lambda>k. ak_owner_id k = owner \<and> ak_revoked_at k = None) keys)"

definition list_all_api_keys :: "api_key list \<Rightarrow> api_key list" where
  "list_all_api_keys keys = sort_key ak_created_at (filter (\<lambda>k. ak_revoked_at k = None) keys)"

section \<open>Authentication\<close>

text \<open>\<open>None\<close> is the legacy (admin) mode. \<open>down\<close> says that the key table cannot be read.\<close>

type_synonym authenticated_owner = "uuid option"

definition bearer_token :: "string option \<Rightarrow> string option" where
  "bearer_token header =
     Option.bind header (\<lambda>v. if starts_with v ''Bearer '' then Some (drop 7 v) else None)"

definition require_auth ::
    "(string \<Rightarrow> string) \<Rightarrow> string option \<Rightarrow> bool \<Rightarrow> api_key list \<Rightarrow> string option \<Rightarrow> app_error + authenticated_owner" where
  "require_auth sha config_key down keys header =
     (case bearer_token header of
        None \<Rightarrow> Inl unauthorized
      | Some token \<Rightarrow>
          (let db_owner = (if down then None else map_option ak_owner_id (validate_api_key (sha token) keys));
               legacy_ok = (case config_key of Some k \<Rightarrow> token = k | None \<Rightarrow> False)
           in if db_owner \<noteq> None then Inr db_owner
              else if legacy_ok then Inr None else Inl unauthorized))"

text \<open>The handlers. \<open>raw\<close> is the new random key, \<open>fresh\<close> a random owner.\<close>

definition create_api_key_handler ::
    "(string \<Rightarrow> string) \<Rightarrow> uuid \<Rightarrow> timestamp \<Rightarrow> string \<Rightarrow> uuid \<Rightarrow> authenticated_owner \<Rightarrow> string option \<Rightarrow> uuid option \<Rightarrow>
     api_key list \<Rightarrow> (app_error + string \<times> api_key) \<times> api_key list" where
  "create_api_key_handler sha i now raw fresh owner name req_owner keys =
     (let owner_id = (case owner of Some u \<Rightarrow> u | None \<Rightarrow> (case req_owner of Some u \<Rightarrow> u | None \<Rightarrow> fresh))
      in case create_api_key i now (sha raw) name owner_id keys of
           Inl _ \<Rightarrow> (Inl err_internal, keys)
         | Inr (k, keys') \<Rightarrow> (Inr (raw, k), keys'))"

definition list_api_keys_handler :: "authenticated_owner \<Rightarrow> api_key list \<Rightarrow> api_key list" where
  "list_api_keys_handler owner keys =
     (case owner of Some u \<Rightarrow> list_api_keys_by_owner u keys | None \<Rightarrow> list_all_api_keys keys)"

definition revoke_api_key_handler :: "timestamp \<Rightarrow> authenticated_owner \<Rightarrow> uuid \<Rightarrow> api_key list \<Rightarrow> api_key list" where
  "revoke_api_key_handler now owner i keys =
     (case owner of Some u \<Rightarrow> revoke_api_key now i u keys | None \<Rightarrow> revoke_api_key_admin now i keys)"

section \<open>Tenants\<close>

definition list_wallet_targets_by_owner :: "uuid \<Rightarrow> targets \<Rightarrow> targets" where
  "list_wallet_targets_by_owner owner ts = filter (\<lambda>t. it_kind t = TK_Wallet \<and> it_owner_id t = Some owner) ts"

definition eq_ignore_ascii_case :: "string \<Rightarrow> string \<Rightarrow> bool" where
  "eq_ignore_ascii_case a b \<longleftrightarrow> to_lowercase a = to_lowercase b"

definition same_wallet :: "string \<Rightarrow> string \<Rightarrow> bool" where
  "same_wallet wallet a =
     (if starts_with wallet ''0x'' \<or> starts_with a ''0x'' then eq_ignore_ascii_case a wallet else a = wallet)"

definition check_wallet_allowed :: "string \<Rightarrow> string list option \<Rightarrow> app_error + unit" where
  "check_wallet_allowed wallet allowed =
     (case allowed of
        None \<Rightarrow> Inr ()
      | Some s \<Rightarrow>
          (let key = (if starts_with wallet ''0x'' \<or> starts_with wallet ''0X'' then to_lowercase wallet else wallet)
           in if key \<in> set s then Inr () else Inl (err_forbidden ''Wallet not in allowed set'')))"

definition check_wallet_owner :: "bool \<Rightarrow> targets \<Rightarrow> string \<Rightarrow> authenticated_owner \<Rightarrow> app_error + unit" where
  "check_wallet_owner down ts wallet owner =
     (case owner of
        None \<Rightarrow> Inr ()
      | Some u \<Rightarrow>
          if down then Inl err_internal
          else if list_ex (\<lambda>t. case it_address t of Some a \<Rightarrow> same_wallet wallet a | None \<Rightarrow> False)
                    (list_wallet_targets_by_owner u ts)
          then Inr () else Inl (err_forbidden ''Wallet not registered for this owner''))"

definition check_target_owner :: "bool \<Rightarrow> targets \<Rightarrow> uuid \<Rightarrow> authenticated_owner \<Rightarrow> app_error + unit" where
  "check_target_owner down ts i owner =
     (case owner of
        None \<Rightarrow> Inr ()
      | Some u \<Rightarrow>
          if down then Inl err_internal
          else case get_index_target i ts of
              None \<Rightarrow> Inl (err_forbidden ''Target not found'')
            | Some t \<Rightarrow> if it_owner_id t \<noteq> Some u then Inl (err_forbidden ''Target not owned by this tenant'') else Inr ())"

section \<open>Request guards\<close>

definition clamp_limit :: "int option \<Rightarrow> int" where
  "clamp_limit limit = max 1 (min 1000 (case limit of Some l \<Rightarrow> l | None \<Rightarrow> 50))"

definition clamp_offset :: "int option \<Rightarrow> int" where
  "clamp_offset off = max (case off of Some n \<Rightarrow> n | None \<Rightarrow> 0) 0"

definition validate_date_range :: "int option \<Rightarrow> int option \<Rightarrow> app_error + unit" where
  "validate_date_range from to =
     (case (from, to) of
        (Some f, Some t) \<Rightarrow> if f > t then Inl (err_bad_request (quoted ''from'' @ '' must be <= '' @ quoted ''to'')) else Inr ()
      | _ \<Rightarrow> Inr ())"

definition validate_wallet :: "string \<Rightarrow> app_error + unit" where
  "validate_wallet wallet =
     (if wallet = [] \<or> length wallet > 128 then Inl (err_bad_request ''Invalid wallet address length'')
      else if \<not> list_all (\<lambda>c. is_ascii_alphanumeric c \<or> c = CHR ''x'') wallet
      then Inl (err_bad_request ''Wallet address contains invalid characters'')
      else Inr ())"

definition target_supports_public_ingest :: "index_target \<Rightarrow> bool" where
  "target_supports_public_ingest t \<longleftrightarrow>
     (it_chain_family t, it_kind t) \<in> set [(CF_Solana, TK_Wallet), (CF_Evm, TK_Wallet), (CF_Hyperliquid, TK_Wallet),
       (CF_Hyperliquid, TK_Market)]"

datatype job_state = JS_Pending | JS_Running | JS_Delivering | JS_Completed | JS_Failed

fun ingestion_status_to_job_state :: "ingestion_job_status \<Rightarrow> job_state" where
  "ingestion_status_to_job_state IJ_Pending = JS_Pending"
| "ingestion_status_to_job_state IJ_Claimed = JS_Pending"
| "ingestion_status_to_job_state IJ_Running = JS_Running"
| "ingestion_status_to_job_state IJ_Completed = JS_Completed"
| "ingestion_status_to_job_state IJ_Failed = JS_Failed"
| "ingestion_status_to_job_state IJ_Cancelled = JS_Failed"

definition raw_tx_to_compat_tx :: "(uuid \<Rightarrow> string \<Rightarrow> uuid) \<Rightarrow> raw_transaction \<Rightarrow> string \<Rightarrow> transaction" where
  "raw_tx_to_compat_tx vh raw wallet =
     (let c = (if starts_with (raw_network raw) ''solana'' then Chain_Solana
               else if starts_with (raw_network raw) ''hypercore'' \<or> starts_with (raw_network raw) ''hyperliquid''
               then Chain_Hyperliquid else Chain_Ethereum)
      in v2_raw_to_v1_tx vh raw wallet c None)"

section \<open>Key lifecycle\<close>

inductive key_step :: "api_key list \<Rightarrow> api_key list \<Rightarrow> bool" where
  create: "create_api_key i now hash name owner keys = Inr (k, keys') \<Longrightarrow> key_step keys keys'"
| revoke: "key_step keys (revoke_api_key_handler now owner i keys)"

lemma revoked_same_keys [simp]:
  "map ak_key_hash (revoke_api_key_handler now owner i keys) = map ak_key_hash keys"
  "map ak_owner_id (revoke_api_key_handler now owner i keys) = map ak_owner_id keys"
  by (simp_all add: revoke_api_key_handler_def revoke_api_key_def revoke_api_key_admin_def comp_def split: option.split)

lemma revoke_keeps_revoked:
  assumes "k \<in> set (revoke_api_key_handler now owner i keys)" "ak_revoked_at k = None"
  shows "k \<in> set keys"
  using assms
  by (auto simp: revoke_api_key_handler_def revoke_api_key_def revoke_api_key_admin_def split: option.splits if_splits)

text \<open>No key with the hash is valid, and the hash is taken.\<close>

definition dead_hash :: "string \<Rightarrow> api_key list \<Rightarrow> bool" where
  "dead_hash hash keys \<longleftrightarrow> hash \<in> set (map ak_key_hash keys) \<and> validate_api_key hash keys = None"

lemma dead_hash_step:
  assumes "key_step keys keys'" "dead_hash hash keys"
  shows "dead_hash hash keys'"
  using assms
proof (cases rule: key_step.cases)
  case (create i now h name owner k)
  then have "keys' = keys @ [k]" "ak_key_hash k = h" "h \<notin> set (map ak_key_hash keys)"
    by (auto simp: create_api_key_def Let_def list_ex_iff split: if_splits)
  then show ?thesis using assms(2) by (auto simp: dead_hash_def validate_api_key_def find_append)
next
  case (revoke now owner i)
  have "hash \<in> set (map ak_key_hash keys')" using assms(2) revoke(1) unfolding dead_hash_def by (simp only: revoked_same_keys)
  moreover have "validate_api_key hash keys' = None"
    using assms(2) revoke_keeps_revoked [of _ now owner i keys] revoke(1)
    by (auto simp: dead_hash_def validate_api_key_def find_None_iff)
  ultimately show ?thesis by (simp add: dead_hash_def)
qed

lemma dead_hash_steps: "key_step\<^sup>*\<^sup>* keys keys' \<Longrightarrow> dead_hash hash keys \<Longrightarrow> dead_hash hash keys'"
  by (induction rule: rtranclp_induct) (auto dest: dead_hash_step)

text \<open>
  Revocation. A tenant's revocation of one of its keys, or any revocation by the administrator,
  makes the key useless for ever: whatever keys are created and revoked afterwards, a request with
  that key is refused, unless the key is the configured one. A tenant's revocation changes no key
  of another tenant.
\<close>

theorem revoked_key_rejected:
  assumes "k \<in> set keys" "ak_key_hash k = sha token" "distinct (map ak_key_hash keys)"
    and "owner = None \<or> owner = Some (ak_owner_id k)"
    and "key_step\<^sup>*\<^sup>* (revoke_api_key_handler now owner (ak_id k) keys) keys'"
    and "config_key \<noteq> Some token" "bearer_token header = Some token"
  shows "require_auth sha config_key down keys' header = Inl unauthorized
    \<and> (\<forall>x \<in> set keys. owner \<noteq> None \<and> owner \<noteq> Some (ak_owner_id x) \<longrightarrow>
         x \<in> set (revoke_api_key_handler now owner (ak_id k) keys))"
proof
  let ?keys = "revoke_api_key_handler now owner (ak_id k) keys"
  have "x = k" if "x \<in> set keys" "ak_key_hash x = sha token" for x
    using that assms(1-3) by (metis distinct_map inj_onD)
  then have "validate_api_key (sha token) ?keys = None"
    using assms(4)
    by (auto simp: validate_api_key_def find_None_iff revoke_api_key_handler_def revoke_api_key_def
        revoke_api_key_admin_def split: option.splits if_splits)
  moreover have "sha token \<in> set (map ak_key_hash ?keys)" using assms(1,2) by (simp only: revoked_same_keys) force
  ultimately have "dead_hash (sha token) keys'" using dead_hash_steps [OF assms(5)] by (simp add: dead_hash_def)
  then show "require_auth sha config_key down keys' header = Inl unauthorized"
    using assms(6,7) by (auto simp: require_auth_def dead_hash_def split: option.splits)
  show "\<forall>x \<in> set keys. owner \<noteq> None \<and> owner \<noteq> Some (ak_owner_id x) \<longrightarrow> x \<in> set ?keys"
    by (force simp: revoke_api_key_handler_def revoke_api_key_def split: option.splits)
qed

definition sample_key :: api_key where
  "sample_key = \<lparr>ak_id = 1, ak_key_hash = ''abc'', ak_name = None, ak_owner_id = 7, ak_created_at = 0, ak_revoked_at = None\<rparr>"

theorem revoked_key_rejected_witness:
  "require_auth id None False (revoke_api_key_handler 5 (Some 7) 1 [sample_key]) (Some ''Bearer abc'') = Inl unauthorized
   \<and> require_auth id None False [sample_key] (Some ''Bearer abc'') = Inr (Some 7)"
proof
  have t: "bearer_token (Some ''Bearer abc'') = Some ''abc''" by code_simp
  show "require_auth id None False (revoke_api_key_handler 5 (Some 7) 1 [sample_key]) (Some ''Bearer abc'') = Inl unauthorized"
    using revoked_key_rejected [of sample_key "[sample_key]" id "''abc''" "Some 7" 5
        "revoke_api_key_handler 5 (Some 7) 1 [sample_key]" None "Some ''Bearer abc''" False] t
    by (simp add: sample_key_def)
  show "require_auth id None False [sample_key] (Some ''Bearer abc'') = Inr (Some 7)"
    by (simp add: require_auth_def t validate_api_key_def sample_key_def)
qed

end
