(* ===== verification/Dataset_Queries.thy ===== *)
theory Dataset_Queries
  imports Csv_Export Api_Access
begin

text \<open>
  Reading the datasets (\<open>adapters/src/v2_repo.rs\<close>): the filter queries the builders produce, as the
  rows PostgreSQL returns for them, the query and export functions of the thirteen datasets, the
  snapshotted export in pages, and the file it is written to (\<open>api/src/export_stream.rs\<close>).

  A query over joined tables has one row per matching combination, so a record that matches twice
  appears twice. \<open>dec\<close> is the \<open>serde\<close> decoder of a protocol filter.
\<close>

section \<open>Tables and filters\<close>

record 'd dataset_db =
  db_targets :: targets
  db_matches :: "target_match list"
  db_raws :: "raw_transaction list"
  db_transfers :: "'d token_transfer list"
  db_native :: "'d native_balance_delta list"
  db_events :: "decoded_event list"
  db_fills :: "'d hl_fill_record list"
  db_funding :: "'d hl_funding_payment list"
  db_positions :: "'d hl_position_change list"
  db_ledger :: "'d wallet_ledger_record list"
  db_balances :: "'d balance_snapshot list"
  db_pnl :: "'d hl_pnl_summary list"
  db_trades :: "'d hl_trade_history list"
  db_protocol_events :: "protocol_event list"
  db_pools :: "'d pool_snapshot list"

record filters =
  f_target :: "uuid option"
  f_network :: "string option"
  f_start :: "int option"
  f_end :: "int option"

text \<open>The columns of a dataset table a query refers to; \<open>c_raw\<close> is the join column.\<close>

record 'r columns =
  c_id :: "'r \<Rightarrow> uuid"
  c_raw :: "'r \<Rightarrow> uuid option"
  c_network :: "'r \<Rightarrow> string"
  c_order :: "'r \<Rightarrow> int"

definition MAX_QUERY_LIMIT :: int where
  "MAX_QUERY_LIMIT = 10000"

definition EXPORT_MAX_RECORDS :: int where
  "EXPORT_MAX_RECORDS = 100000"

definition in_window :: "filters \<Rightarrow> int \<Rightarrow> bool" where
  "in_window f t \<longleftrightarrow> (case f_start f of Some s \<Rightarrow> s \<le> t | None \<Rightarrow> True) \<and> (case f_end f of Some e \<Rightarrow> t \<le> e | None \<Rightarrow> True)"

definition on_network :: "filters \<Rightarrow> string \<Rightarrow> bool" where
  "on_network f n \<longleftrightarrow> (case f_network f of Some m \<Rightarrow> n = m | None \<Rightarrow> True)"

text \<open>\<open>ORDER BY {order_col} DESC, dt.id DESC\<close>.\<close>

definition newest_first :: "'r columns \<Rightarrow> 'r list \<Rightarrow> 'r list" where
  "newest_first c rows = rev (sort_key (\<lambda>r. (c_order c r, c_id c r)) rows)"

text \<open>\<open>LIMIT\<close> and \<open>OFFSET\<close>, which must not be negative.\<close>

definition sql_page :: "int \<Rightarrow> int \<Rightarrow> 'r list \<Rightarrow> 'r list result" where
  "sql_page lim off rows =
     (if lim < 0 then Inl ''LIMIT must not be negative''
      else if off < 0 then Inl ''OFFSET must not be negative''
      else Inr (take (nat lim) (drop (nat off) rows)))"

section \<open>Query builders\<close>

definition match_join :: "'r columns \<Rightarrow> target_match list \<Rightarrow> uuid option \<Rightarrow> 'r \<Rightarrow> 'r list" where
  "match_join c ms target r =
     (case target of
        None \<Rightarrow> [r]
      | Some t \<Rightarrow> map (\<lambda>_. r) (filter (\<lambda>m. c_raw c r = Some (tm_raw_transaction_id m) \<and> tm_target_id m = t) ms))"

definition time_join :: "'r columns \<Rightarrow> raw_transaction list \<Rightarrow> filters \<Rightarrow> 'r \<Rightarrow> 'r list" where
  "time_join c raws f r =
     (if f_start f = None \<and> f_end f = None then [r]
      else map (\<lambda>_. r) (filter (\<lambda>rt. c_raw c r = Some (raw_id rt) \<and> in_window f (raw_timestamp rt)) raws))"

text \<open>\<open>build_dataset_filter_query\<close> without \<open>LIMIT\<close> and \<open>OFFSET\<close>; the Bronze table has its own time.\<close>

definition filter_rows ::
    "'r columns \<Rightarrow> ('r \<Rightarrow> 'r list) \<Rightarrow> target_match list \<Rightarrow> filters \<Rightarrow> 'r list \<Rightarrow> 'r list" where
  "filter_rows c tj ms f table =
     newest_first c (concat (map (\<lambda>r. concat (map tj (match_join c ms (f_target f) r)))
       (filter (\<lambda>r. on_network f (c_network c r)) table)))"

definition dataset_rows :: "'r columns \<Rightarrow> 'd dataset_db \<Rightarrow> filters \<Rightarrow> 'r list \<Rightarrow> 'r list" where
  "dataset_rows c db f table = filter_rows c (time_join c (db_raws db) f) (db_matches db) f table"

definition raw_columns :: "raw_transaction columns" where
  "raw_columns = \<lparr>c_id = raw_id, c_raw = (\<lambda>r. Some (raw_id r)), c_network = raw_network, c_order = raw_timestamp\<rparr>"

definition bronze_rows :: "'d dataset_db \<Rightarrow> filters \<Rightarrow> raw_transaction list" where
  "bronze_rows db f =
     filter_rows raw_columns (\<lambda>r. if in_window f (raw_timestamp r) then [r] else []) (db_matches db) f (db_raws db)"

definition limited :: "int \<Rightarrow> int \<Rightarrow> 'r list \<Rightarrow> 'r list result" where
  "limited lim off rows = sql_page (min lim MAX_QUERY_LIMIT) off rows"

text \<open>
  \<open>build_dataset_filter_query_direct_values\<close>: \<open>col\<close> is the address column and \<open>values\<close> the wanted
  addresses; no value means no restriction. The time column is the order column in every call.
\<close>

definition direct_rows ::
    "'r columns \<Rightarrow> string list option \<Rightarrow> ('r \<Rightarrow> string option) \<Rightarrow> filters \<Rightarrow> 'r list \<Rightarrow> 'r list" where
  "direct_rows c values col f table =
     newest_first c (filter (\<lambda>r.
        (case values of Some vs \<Rightarrow> vs = [] \<or> (case col r of Some a \<Rightarrow> a \<in> set vs | None \<Rightarrow> False) | None \<Rightarrow> True)
        \<and> on_network f (c_network c r) \<and> in_window f (c_order c r)) table)"

definition balance_columns :: "'d balance_snapshot columns" where
  "balance_columns = \<lparr>c_id = bs_id, c_raw = (\<lambda>_. None), c_network = bs_network, c_order = bs_timestamp\<rparr>"

definition balance_target_rows :: "'d dataset_db \<Rightarrow> uuid \<Rightarrow> string \<Rightarrow> filters \<Rightarrow> 'd balance_snapshot list" where
  "balance_target_rows db target addr f =
     newest_first balance_columns [r. r \<leftarrow> db_balances db,
        bs_wallet_address r = addr \<and> on_network f (bs_network r) \<and> in_window f (bs_timestamp r),
        rt \<leftarrow> db_raws db, raw_network rt = bs_network r \<and> raw_tx_hash rt = bs_tx_hash r,
        m \<leftarrow> db_matches db, tm_raw_transaction_id m = raw_id rt \<and> tm_target_id m = target]"

section \<open>Queries of the datasets\<close>

definition transfer_columns :: "'d token_transfer columns" where
  "transfer_columns = \<lparr>c_id = tt_id, c_raw = tt_raw_transaction_id, c_network = tt_network, c_order = tt_created_at\<rparr>"

definition native_columns :: "'d native_balance_delta columns" where
  "native_columns = \<lparr>c_id = nbd_id, c_raw = nbd_raw_transaction_id, c_network = nbd_network, c_order = nbd_created_at\<rparr>"

definition event_columns :: "decoded_event columns" where
  "event_columns = \<lparr>c_id = de_id, c_raw = de_raw_transaction_id, c_network = de_network, c_order = de_created_at\<rparr>"

definition fill_columns :: "'d hl_fill_record columns" where
  "fill_columns = \<lparr>c_id = fill_id, c_raw = fill_raw_transaction_id, c_network = fill_network, c_order = fill_fill_time\<rparr>"

definition funding_columns :: "'d hl_funding_payment columns" where
  "funding_columns = \<lparr>c_id = fund_id, c_raw = fund_raw_transaction_id, c_network = fund_network, c_order = fund_payment_time\<rparr>"

definition position_columns :: "'d hl_position_change columns" where
  "position_columns = \<lparr>c_id = pos_id, c_raw = pos_raw_transaction_id, c_network = pos_network, c_order = pos_created_at\<rparr>"

definition ledger_columns :: "'d wallet_ledger_record columns" where
  "ledger_columns = \<lparr>c_id = wl_id, c_raw = wl_raw_transaction_id, c_network = wl_network, c_order = wl_timestamp\<rparr>"

definition pnl_columns :: "'d hl_pnl_summary columns" where
  "pnl_columns = \<lparr>c_id = pnl_id, c_raw = (\<lambda>_. None), c_network = pnl_network, c_order = pnl_period_end\<rparr>"

definition trade_columns :: "'d hl_trade_history columns" where
  "trade_columns = \<lparr>c_id = trade_id, c_raw = (\<lambda>_. None), c_network = trade_network, c_order = trade_closed_at\<rparr>"

definition protocol_columns :: "protocol_event columns" where
  "protocol_columns = \<lparr>c_id = pe_id, c_raw = (\<lambda>_. None), c_network = pe_network, c_order = pe_timestamp\<rparr>"

definition pool_columns :: "'d pool_snapshot columns" where
  "pool_columns = \<lparr>c_id = ps_id, c_raw = (\<lambda>_. None), c_network = ps_network, c_order = ps_snapshot_timestamp\<rparr>"

definition query_raw_transactions :: "filters \<Rightarrow> int \<Rightarrow> int \<Rightarrow> 'd dataset_db \<Rightarrow> raw_transaction list result" where
  "query_raw_transactions f lim off db = limited lim off (bronze_rows db f)"

definition query_token_transfers :: "filters \<Rightarrow> int \<Rightarrow> int \<Rightarrow> 'd dataset_db \<Rightarrow> 'd token_transfer list result" where
  "query_token_transfers f lim off db = limited lim off (dataset_rows transfer_columns db f (db_transfers db))"

definition query_native_balance_deltas :: "filters \<Rightarrow> int \<Rightarrow> int \<Rightarrow> 'd dataset_db \<Rightarrow> 'd native_balance_delta list result" where
  "query_native_balance_deltas f lim off db = limited lim off (dataset_rows native_columns db f (db_native db))"

definition query_decoded_events :: "filters \<Rightarrow> int \<Rightarrow> int \<Rightarrow> 'd dataset_db \<Rightarrow> decoded_event list result" where
  "query_decoded_events f lim off db = limited lim off (dataset_rows event_columns db f (db_events db))"

definition query_hl_fill_records :: "filters \<Rightarrow> int \<Rightarrow> int \<Rightarrow> 'd dataset_db \<Rightarrow> 'd hl_fill_record list result" where
  "query_hl_fill_records f lim off db = limited lim off (dataset_rows fill_columns db f (db_fills db))"

definition query_hl_funding_payments :: "filters \<Rightarrow> int \<Rightarrow> int \<Rightarrow> 'd dataset_db \<Rightarrow> 'd hl_funding_payment list result" where
  "query_hl_funding_payments f lim off db = limited lim off (dataset_rows funding_columns db f (db_funding db))"

definition query_hl_position_changes :: "filters \<Rightarrow> int \<Rightarrow> int \<Rightarrow> 'd dataset_db \<Rightarrow> 'd hl_position_change list result" where
  "query_hl_position_changes f lim off db = limited lim off (dataset_rows position_columns db f (db_positions db))"

definition query_wallet_ledger_records :: "filters \<Rightarrow> int \<Rightarrow> int \<Rightarrow> 'd dataset_db \<Rightarrow> 'd wallet_ledger_record list result" where
  "query_wallet_ledger_records f lim off db = limited lim off (dataset_rows ledger_columns db f (db_ledger db))"

definition target_address :: "index_target \<Rightarrow> string option" where
  "target_address t = (case it_address t of Some a \<Rightarrow> if a = [] then None else Some a | None \<Rightarrow> None)"

definition query_balance_snapshots :: "filters \<Rightarrow> int \<Rightarrow> int \<Rightarrow> 'd dataset_db \<Rightarrow> 'd balance_snapshot list result" where
  "query_balance_snapshots f lim off db =
     (case f_target f of
        Some i \<Rightarrow>
          (case Option.bind (get_index_target i (db_targets db)) target_address of
             None \<Rightarrow> Inr []
           | Some addr \<Rightarrow> limited lim off (balance_target_rows db i addr f))
      | None \<Rightarrow> limited lim off (direct_rows balance_columns None (\<lambda>r. Some (bs_wallet_address r)) f (db_balances db)))"

text \<open>\<open>None\<close>: nothing to return. Otherwise the address and the network to restrict to.\<close>

definition direct_wallet_scope :: "filters \<Rightarrow> targets \<Rightarrow> (string option \<times> string option) option" where
  "direct_wallet_scope f ts =
     (case f_target f of
        None \<Rightarrow> Some (None, f_network f)
      | Some i \<Rightarrow>
          (case get_index_target i ts of
             None \<Rightarrow> None
           | Some t \<Rightarrow>
               if it_kind t \<noteq> TK_Wallet \<or> \<not> on_network f (it_network t) then None
               else map_option (\<lambda>a. (Some a, Some (it_network t))) (target_address t)))"

definition wallet_scoped ::
    "'r columns \<Rightarrow> ('r \<Rightarrow> string) \<Rightarrow> filters \<Rightarrow> int \<Rightarrow> int \<Rightarrow> 'd dataset_db \<Rightarrow> 'r list \<Rightarrow> 'r list result" where
  "wallet_scoped c wallet f lim off db table =
     (case direct_wallet_scope f (db_targets db) of
        None \<Rightarrow> Inr []
      | Some (addr, network) \<Rightarrow>
          limited lim off (direct_rows c (map_option (\<lambda>a. [a]) addr) (\<lambda>r. Some (wallet r)) (f\<lparr>f_network := network\<rparr>) table))"

definition query_hl_pnl_summary :: "filters \<Rightarrow> int \<Rightarrow> int \<Rightarrow> 'd dataset_db \<Rightarrow> 'd hl_pnl_summary list result" where
  "query_hl_pnl_summary f lim off db = wallet_scoped pnl_columns pnl_wallet_address f lim off db (db_pnl db)"

definition query_hl_trade_history :: "filters \<Rightarrow> int \<Rightarrow> int \<Rightarrow> 'd dataset_db \<Rightarrow> 'd hl_trade_history list result" where
  "query_hl_trade_history f lim off db = wallet_scoped trade_columns trade_wallet_address f lim off db (db_trades db)"

definition query_protocol_events :: "filters \<Rightarrow> int \<Rightarrow> int \<Rightarrow> 'd dataset_db \<Rightarrow> protocol_event list result" where
  "query_protocol_events f lim off db =
     (case f_target f of
        None \<Rightarrow> limited lim off (direct_rows protocol_columns None (\<lambda>r. Some (pe_protocol_address r)) f (db_protocol_events db))
      | Some i \<Rightarrow>
          (case get_index_target i (db_targets db) of
             None \<Rightarrow> Inr []
           | Some t \<Rightarrow>
               (case target_address t of
                  None \<Rightarrow> Inr []
                | Some a \<Rightarrow> limited lim off (direct_rows protocol_columns (Some [a])
                    (if it_kind t = TK_Pool then pe_pool_address else (\<lambda>r. Some (pe_protocol_address r)))
                    f (db_protocol_events db)))))"

definition query_pool_snapshots :: "filters \<Rightarrow> int \<Rightarrow> int \<Rightarrow> 'd dataset_db \<Rightarrow> 'd pool_snapshot list result" where
  "query_pool_snapshots f lim off db =
     (case f_target f of
        None \<Rightarrow> limited lim off (direct_rows pool_columns None (\<lambda>r. Some (ps_pool_address r)) f (db_pools db))
      | Some i \<Rightarrow>
          (case Option.bind (get_index_target i (db_targets db)) target_address of
             None \<Rightarrow> Inr []
           | Some a \<Rightarrow> limited lim off (direct_rows pool_columns (Some [a]) (\<lambda>r. Some (ps_pool_address r)) f (db_pools db))))"

text \<open>The export variants ask for \<open>EXPORT_MAX_RECORDS\<close> records.\<close>

definition export_token_transfers :: "filters \<Rightarrow> 'd dataset_db \<Rightarrow> 'd token_transfer list result" where
  "export_token_transfers f = query_token_transfers f EXPORT_MAX_RECORDS 0"

definition export_native_balance_deltas :: "filters \<Rightarrow> 'd dataset_db \<Rightarrow> 'd native_balance_delta list result" where
  "export_native_balance_deltas f = query_native_balance_deltas f EXPORT_MAX_RECORDS 0"

definition export_decoded_events :: "filters \<Rightarrow> 'd dataset_db \<Rightarrow> decoded_event list result" where
  "export_decoded_events f = query_decoded_events f EXPORT_MAX_RECORDS 0"

definition export_hl_fill_records :: "filters \<Rightarrow> 'd dataset_db \<Rightarrow> 'd hl_fill_record list result" where
  "export_hl_fill_records f = query_hl_fill_records f EXPORT_MAX_RECORDS 0"

definition export_hl_funding_payments :: "filters \<Rightarrow> 'd dataset_db \<Rightarrow> 'd hl_funding_payment list result" where
  "export_hl_funding_payments f = query_hl_funding_payments f EXPORT_MAX_RECORDS 0"

definition export_hl_position_changes :: "filters \<Rightarrow> 'd dataset_db \<Rightarrow> 'd hl_position_change list result" where
  "export_hl_position_changes f = query_hl_position_changes f EXPORT_MAX_RECORDS 0"

definition export_wallet_ledger_records :: "filters \<Rightarrow> 'd dataset_db \<Rightarrow> 'd wallet_ledger_record list result" where
  "export_wallet_ledger_records f = query_wallet_ledger_records f EXPORT_MAX_RECORDS 0"

definition export_balance_snapshots :: "filters \<Rightarrow> 'd dataset_db \<Rightarrow> 'd balance_snapshot list result" where
  "export_balance_snapshots f = query_balance_snapshots f EXPORT_MAX_RECORDS 0"

definition export_hl_pnl_summary :: "filters \<Rightarrow> 'd dataset_db \<Rightarrow> 'd hl_pnl_summary list result" where
  "export_hl_pnl_summary f = query_hl_pnl_summary f EXPORT_MAX_RECORDS 0"

definition export_hl_trade_history :: "filters \<Rightarrow> 'd dataset_db \<Rightarrow> 'd hl_trade_history list result" where
  "export_hl_trade_history f = query_hl_trade_history f EXPORT_MAX_RECORDS 0"

definition export_protocol_events :: "filters \<Rightarrow> 'd dataset_db \<Rightarrow> protocol_event list result" where
  "export_protocol_events f = query_protocol_events f EXPORT_MAX_RECORDS 0"

definition export_pool_snapshots :: "filters \<Rightarrow> 'd dataset_db \<Rightarrow> 'd pool_snapshot list result" where
  "export_pool_snapshots f = query_pool_snapshots f EXPORT_MAX_RECORDS 0"

section \<open>The export in pages\<close>

text \<open>
  What happens outside the loop during its \<open>i\<close>-th round: the cancellation token before the query and
  during the send, and a receiver that is gone.
\<close>

record stream_env =
  cancel_query :: "nat \<Rightarrow> bool"
  cancel_send :: "nat \<Rightarrow> bool"
  consumer_gone :: "nat \<Rightarrow> bool"

definition cancelled_error :: string where
  "cancelled_error = ''export snapshot cancelled (lease lost or worker shutdown)''"

definition dropped_error :: string where
  "dropped_error = ''export consumer dropped the record-batch channel''"

text \<open>The pages sent, and the total or the error. \<open>cap\<close> is an \<open>i64\<close>, hence at most \<open>i64_max\<close>.\<close>

function stream_pages ::
    "stream_env \<Rightarrow> int \<Rightarrow> int \<Rightarrow> (int \<Rightarrow> 'r list result) \<Rightarrow> nat \<Rightarrow> int \<Rightarrow> nat \<Rightarrow> 'r list list \<times> nat result" where
  "stream_pages env page_size cap fetch i offset sofar =
     (if cancel_query env i then ([], Inl cancelled_error)
      else case fetch offset of
        Inl e \<Rightarrow> ([], Inl e)
      | Inr rows \<Rightarrow>
          if rows = [] then ([], Inr sofar)
          else if cancel_send env i then ([], Inl cancelled_error)
          else if consumer_gone env i then ([], Inl dropped_error)
          else let page_len = usize_to_i64_or_max (length rows);
                   sofar' = sofar + length rows;
                   offset' = i64_saturating_add offset page_len
               in if page_len < page_size then ([rows], Inr sofar')
                  else if offset' \<ge> min cap i64_max then ([rows], Inr sofar')
                  else case stream_pages env page_size cap fetch (Suc i) offset' sofar' of
                    (pages, res) \<Rightarrow> (rows # pages, res))"
  by pat_completeness auto
termination
proof (relation "measure (\<lambda>(_, _, cap, _, _, offset, _). nat (min cap i64_max - offset))")
  fix env :: stream_env and page_size cap offset :: int and fetch :: "int \<Rightarrow> 'r list result" and i sofar :: nat
    and x2 :: "'r list" and page_len offset' :: int and sofar' :: nat
  assume "x2 \<noteq> []" "page_len = usize_to_i64_or_max (length x2)" "offset' = i64_saturating_add offset page_len"
    "\<not> min cap i64_max \<le> offset'"
  moreover from this(1,2) have "page_len \<ge> 1" by (cases x2) (simp_all add: usize_to_i64_or_max_def i64_max_def)
  ultimately have "offset < offset'" "offset' < min cap i64_max"
    by (auto simp: i64_saturating_add_def i64_max_def i64_min_def)
  then show "((env, page_size, cap, fetch, Suc i, offset', sofar'), (env, page_size, cap, fetch, i, offset, sofar))
      \<in> measure (\<lambda>(_, _, cap, _, _, offset, _). nat (min cap i64_max - offset))"
    by simp
qed simp

declare stream_pages.simps [simp del]

definition stream_rows ::
    "stream_env \<Rightarrow> int \<Rightarrow> int \<Rightarrow> ('r list \<Rightarrow> 'b) \<Rightarrow> 'r list \<Rightarrow> 'b list \<times> nat result" where
  "stream_rows env page_size cap wrap rows =
     apfst (map wrap) (stream_pages env page_size cap (\<lambda>offset. limited page_size offset rows) 0 0 0)"

definition nonempty_trimmed :: "string option \<Rightarrow> string option" where
  "nonempty_trimmed a = Option.bind a (\<lambda>s. if trim s = [] then None else Some (trim s))"

definition protocol_target_addresses ::
    "(json \<Rightarrow> protocol_filter_spec result) \<Rightarrow> index_target \<Rightarrow> string option \<Rightarrow> string list result" where
  "protocol_target_addresses dec t network =
     (case it_filter_spec t of
        None \<Rightarrow> Inr []
      | Some spec \<Rightarrow>
          (case dec spec of
             Inl e \<Rightarrow> Inl e
           | Inr s \<Rightarrow>
               (let wanted = (case network of Some n \<Rightarrow> n | None \<Rightarrow> it_network t)
                in Inr (remdups_adj (sort (List.map_filter (\<lambda>p. nonempty_trimmed (Some (pad_address p)))
                     (case map_of (rf_addresses s) wanted of Some ps \<Rightarrow> ps | None \<Rightarrow> []))))))) "

definition direct_export_network_scope :: "index_target option \<Rightarrow> string option \<Rightarrow> string option" where
  "direct_export_network_scope t network =
     (case (t, network) of
        (Some t, Some n) \<Rightarrow> if n = it_network t then Some n else None
      | (Some t, None) \<Rightarrow> Some (it_network t)
      | (None, n) \<Rightarrow> n)"

text \<open>The address column is chosen by the kind: \<open>True\<close> for that of the pool.\<close>

definition direct_export_filter_for_target ::
    "(json \<Rightarrow> protocol_filter_spec result) \<Rightarrow> index_target option \<Rightarrow> target_kind list \<Rightarrow> bool \<Rightarrow> string option \<Rightarrow>
     (string list \<times> bool) option result" where
  "direct_export_filter_for_target dec target allowed protocols network =
     (case target of
        None \<Rightarrow> Inr None
      | Some t \<Rightarrow>
          if it_kind t \<notin> set allowed then Inr None
          else if it_kind t = TK_Protocol
          then if \<not> protocols then Inr None
               else case protocol_target_addresses dec t network of
                   Inl e \<Rightarrow> Inl e
                 | Inr vs \<Rightarrow>
                     (let vs' = (if vs = [] then (case nonempty_trimmed (it_address t) of Some a \<Rightarrow> [a] | None \<Rightarrow> []) else vs)
                      in Inr (if vs' = [] then None else Some (vs', False)))
          else Inr (map_option (\<lambda>a. ([a], it_kind t = TK_Pool)) (nonempty_trimmed (it_address t))))"

text \<open>
  A direct export: \<open>pool_col\<close> is used for a pool target, \<open>col\<close> otherwise. A target that gives no
  filter or no network exports nothing.
\<close>

definition stream_direct ::
    "(json \<Rightarrow> protocol_filter_spec result) \<Rightarrow> stream_env \<Rightarrow> int \<Rightarrow> int \<Rightarrow> ('r list \<Rightarrow> 'b) \<Rightarrow> 'r columns \<Rightarrow>
     target_kind list \<Rightarrow> bool \<Rightarrow> ('r \<Rightarrow> string option) \<Rightarrow> ('r \<Rightarrow> string option) \<Rightarrow> filters \<Rightarrow> targets \<Rightarrow> 'r list \<Rightarrow>
     'b list \<times> nat result" where
  "stream_direct dec env page_size cap wrap c allowed protocols col pool_col f ts table =
     (let target = Option.bind (f_target f) (\<lambda>i. get_index_target i ts);
          network = direct_export_network_scope target (f_network f)
      in case direct_export_filter_for_target dec target allowed protocols network of
           Inl e \<Rightarrow> ([], Inl e)
         | Inr filt \<Rightarrow>
             if f_target f \<noteq> None \<and> (filt = None \<or> network = None) then ([], Inr 0)
             else stream_rows env page_size cap wrap
               (direct_rows c (map_option fst filt) (case filt of Some (_, True) \<Rightarrow> pool_col | _ \<Rightarrow> col)
                  (f\<lparr>f_network := network\<rparr>) table))"

definition stream_export_snapshot ::
    "(json \<Rightarrow> protocol_filter_spec result) \<Rightarrow> stream_env \<Rightarrow> int \<Rightarrow> int \<Rightarrow> string \<Rightarrow> filters \<Rightarrow> 'd dataset_db \<Rightarrow>
     'd export_record_batch list \<times> nat result" where
  "stream_export_snapshot dec env page_size cap ds f db =
     (let ts = db_targets db; wallet = [TK_Wallet]; pools = [TK_Protocol, TK_Pool]
      in if ds = ''raw_transactions'' then stream_rows env page_size cap B_RawTransactions (bronze_rows db f)
         else if ds = ''token_transfers''
         then stream_rows env page_size cap B_TokenTransfers (dataset_rows transfer_columns db f (db_transfers db))
         else if ds = ''native_balance_deltas''
         then stream_rows env page_size cap B_NativeBalanceDeltas (dataset_rows native_columns db f (db_native db))
         else if ds = ''decoded_events''
         then stream_rows env page_size cap B_DecodedEvents (dataset_rows event_columns db f (db_events db))
         else if ds = ''hl_fills'' then stream_rows env page_size cap B_HlFills (dataset_rows fill_columns db f (db_fills db))
         else if ds = ''hl_funding''
         then stream_rows env page_size cap B_HlFunding (dataset_rows funding_columns db f (db_funding db))
         else if ds = ''positions''
         then stream_rows env page_size cap B_Positions (dataset_rows position_columns db f (db_positions db))
         else if ds = ''wallet_ledger''
         then stream_rows env page_size cap B_WalletLedger (dataset_rows ledger_columns db f (db_ledger db))
         else if ds = ''balance_history''
         then stream_direct dec env page_size cap B_BalanceHistory balance_columns wallet False
           (\<lambda>r. Some (bs_wallet_address r)) (\<lambda>r. Some (bs_wallet_address r)) f ts (db_balances db)
         else if ds = ''hl_pnl_summary''
         then stream_direct dec env page_size cap B_HlPnlSummary pnl_columns wallet False
           (\<lambda>r. Some (pnl_wallet_address r)) (\<lambda>r. Some (pnl_wallet_address r)) f ts (db_pnl db)
         else if ds = ''hl_trade_history''
         then stream_direct dec env page_size cap B_HlTradeHistory trade_columns wallet False
           (\<lambda>r. Some (trade_wallet_address r)) (\<lambda>r. Some (trade_wallet_address r)) f ts (db_trades db)
         else if ds = ''protocol_events''
         then stream_direct dec env page_size cap B_ProtocolEvents protocol_columns pools True
           (\<lambda>r. Some (pe_protocol_address r)) pe_pool_address f ts (db_protocol_events db)
         else if ds = ''pool_snapshots''
         then stream_direct dec env page_size cap B_PoolSnapshots pool_columns pools True
           (\<lambda>r. Some (ps_protocol_address r)) (\<lambda>r. Some (ps_pool_address r)) f ts (db_pools db)
         else ([], Inl (''Unknown export dataset: '' @ ds)))"

section \<open>The file\<close>

definition PAGE_SIZE :: int where
  "PAGE_SIZE = 10000"

definition EXPORT_HARD_CAP :: int where
  "EXPORT_HARD_CAP = 1000000"

text \<open>
  The content of the file, \<open>None\<close> when it is not created, and the total with the provenance, or the
  error. \<open>wc\<close> is the cancellation token as the write loop sees it before each page.
\<close>

definition write_export_to_file ::
    "'d printers \<Rightarrow> ('d export_record_batch \<Rightarrow> string list) \<Rightarrow> (json \<Rightarrow> protocol_filter_spec result) \<Rightarrow> stream_env \<Rightarrow>
     (nat \<Rightarrow> bool) \<Rightarrow> string \<Rightarrow> export_format \<Rightarrow> filters \<Rightarrow> dataset_version list \<Rightarrow> dataset_completeness list \<Rightarrow>
     'd dataset_db \<Rightarrow> string option \<times> (nat \<times> export_metadata) result" where
  "write_export_to_file pr jsonl dec env wc ds fmt f dvs dcs db =
     (let meta = fetch_export_metadata dvs dcs ds (f_target f) (f_network f)
      in case csv_header_for ds of
           None \<Rightarrow> (None, Inl (''Unknown dataset: '' @ ds))
         | Some header \<Rightarrow>
             (case stream_export_snapshot dec env PAGE_SIZE EXPORT_HARD_CAP ds f db of (pages, streamed) \<Rightarrow>
               let written = map snd (takeWhile (\<lambda>(i, _). \<not> wc i) (enumerate 0 pages))
               in (Some ((if fmt = Fmt_Csv then header else []) @ concat (map (\<lambda>b. encode_batch pr jsonl b fmt) written)),
                   if length written < length pages then Inl ''export cancelled during write loop''
                   else map_sum id (\<lambda>_. (sum_list (map batch_len written), meta)) streamed)))"

section \<open>Pages cover the snapshot\<close>

definition quiet :: "stream_env \<Rightarrow> bool" where
  "quiet env \<longleftrightarrow> cancel_query env = (\<lambda>_. False) \<and> cancel_send env = (\<lambda>_. False) \<and> consumer_gone env = (\<lambda>_. False)"

definition good_pages :: "int \<Rightarrow> 'r list \<Rightarrow> nat \<Rightarrow> 'r list list \<Rightarrow> bool" where
  "good_pages page_size rows start pages \<longleftrightarrow>
     concat pages = take (length (concat pages)) (drop start rows) \<and> list_all (\<lambda>p. p \<noteq> [] \<and> int (length p) \<le> page_size) pages"

lemma limited_Inr:
  "0 < page_size \<Longrightarrow> page_size \<le> MAX_QUERY_LIMIT \<Longrightarrow> 0 \<le> offset \<Longrightarrow>
   limited page_size offset rows = Inr (take (nat page_size) (drop (nat offset) rows))"
  by (simp add: limited_def sql_page_def)

lemma good_pages_Nil [simp]: "good_pages page_size rows start []"
  by (simp add: good_pages_def)

lemma take_self: "xs = take n ys \<Longrightarrow> xs = take (length xs) ys"
  by (metis append_eq_conv_conj append_take_drop_id)

lemma good_pages_Cons:
  assumes "p = take n (drop start rows)" "p \<noteq> []" "int (length p) \<le> page_size" "good_pages page_size rows (start + length p) pages"
  shows "good_pages page_size rows start (p # pages)"
proof -
  let ?k = "length (concat pages)"
  have p: "p = take (length p) (drop start rows)" using assms(1) by (rule take_self)
  have "concat pages = take ?k (drop (length p) (drop start rows))"
    using assms(4) by (simp add: good_pages_def add.commute)
  then have "p @ concat pages = take (length p + ?k) (drop start rows)"
    using p by (metis take_add)
  then have "concat (p # pages) = take (length (concat (p # pages))) (drop start rows)"
    unfolding concat.simps by (rule take_self)
  then show ?thesis using assms(2-4) unfolding good_pages_def by (simp only: list.pred_inject conj_assoc simp_thms)
qed

lemma stream_pages_step:
  "fetch offset = Inr rows \<Longrightarrow> stream_pages env page_size cap fetch i offset sofar =
     (if cancel_query env i then ([], Inl cancelled_error)
      else if rows = [] then ([], Inr sofar)
      else if cancel_send env i then ([], Inl cancelled_error)
      else if consumer_gone env i then ([], Inl dropped_error)
      else if usize_to_i64_or_max (length rows) < page_size \<or>
              i64_saturating_add offset (usize_to_i64_or_max (length rows)) \<ge> min cap i64_max
      then ([rows], Inr (sofar + length rows))
      else apfst ((#) rows) (stream_pages env page_size cap fetch (Suc i)
             (i64_saturating_add offset (usize_to_i64_or_max (length rows))) (sofar + length rows)))"
  by (subst stream_pages.simps) (simp add: Let_def apfst_def map_prod_def)

lemma offset_stops: "0 \<le> x \<Longrightarrow> 0 \<le> n \<Longrightarrow> cap \<le> i64_max \<Longrightarrow> min cap i64_max \<le> i64_saturating_add x n \<longleftrightarrow> cap \<le> x + n"
  by (auto simp: i64_saturating_add_def i64_min_def i64_max_def max_def min_def)

lemma offset_exact: "0 \<le> x \<Longrightarrow> 0 \<le> n \<Longrightarrow> x + n < i64_max \<Longrightarrow> i64_saturating_add x n = x + n"
  by (simp add: i64_saturating_add_def i64_min_def)

lemma stream_pages_good:
  assumes "0 < page_size" "page_size \<le> MAX_QUERY_LIMIT" "0 \<le> offset" "cap \<le> i64_max" "offset < cap"
    and "stream_pages env page_size cap (\<lambda>o'. limited page_size o' rows) i offset sofar = (pages, res)"
  shows "good_pages page_size rows (nat offset) pages
    \<and> (\<forall>n. res = Inr n \<longrightarrow> n = sofar + length (concat pages)
         \<and> (nat offset + length (concat pages) \<ge> length rows
            \<or> cap \<le> offset + int (length (concat pages)) \<and> offset + int (length (concat pages)) < cap + page_size))
    \<and> (quiet env \<longrightarrow> (\<exists>n. res = Inr n))"
  using assms
proof (induction env page_size cap "\<lambda>o'. limited page_size o' rows" i offset sofar arbitrary: pages res rule: stream_pages.induct)
  case (1 env page_size cap i offset sofar)
  define rs where rs: "rs = take (nat page_size) (drop (nat offset) rows)"
  let ?len = "usize_to_i64_or_max (length rs)"
  let ?off = "i64_saturating_add offset ?len"
  have fetch: "limited page_size offset rows = Inr rs" unfolding rs using 1(2-4) by (rule limited_Inr)
  have len: "?len = int (length rs)" "int (length rs) \<le> page_size"
    using "1.prems"(1,2) by (auto simp: rs usize_to_i64_or_max_def i64_max_def MAX_QUERY_LIMIT_def)
  have empty: "rs = [] \<longleftrightarrow> length rows \<le> nat offset" using "1.prems"(1) by (simp add: rs)
  have short: "length rs < nat page_size \<Longrightarrow> nat offset + length rs \<ge> length rows" by (simp add: rs min_def split: if_splits)
  note step = "1.prems"(6) [unfolded stream_pages_step [where fetch = "\<lambda>o'. limited page_size o' rows", OF fetch]]
  show ?case
  proof (cases "cancel_query env i \<or> rs = [] \<or> cancel_send env i \<or> consumer_gone env i")
    case True
    then show ?thesis using step empty by (auto simp: quiet_def split: if_splits)
  next
    case False
    have one: "good_pages page_size rows (nat offset) [rs]" using good_pages_Cons [OF rs] False len by simp
    have pos: "int (length rs) \<ge> 1" using False by (cases rs) simp_all
    show ?thesis
    proof (cases "?len < page_size \<or> ?off \<ge> min cap i64_max")
      case True
      then have res: "pages = [rs]" "res = Inr (sofar + length rs)" using step False by (auto simp: Let_def)
      have "nat offset + length rs \<ge> length rows \<or> cap \<le> offset + int (length rs) \<and> offset + int (length rs) < cap + page_size"
      proof (cases "?len < page_size")
        case True
        then have "length rs < nat page_size" using len(1) by linarith
        then show ?thesis using short by blast
      next
        case False
        then have "min cap i64_max \<le> ?off" using True by simp
        then have "cap \<le> offset + int (length rs)"
          using offset_stops [of offset ?len cap] "1.prems"(3,4) len(1) by simp
        then show ?thesis using "1.prems"(5) len(2) by linarith
      qed
      then show ?thesis using one res by simp
    next
      case long: False
      have "\<not> min cap i64_max \<le> ?off" using long by simp
      then have less: "offset + ?len < cap" using offset_stops [of offset ?len cap] "1.prems"(3,4) len(1) by simp
      then have off: "?off = offset + int (length rs)"
        using offset_exact [of offset ?len] "1.prems"(3,4) len(1) by simp
      obtain pages' res' where rec: "stream_pages env page_size cap (\<lambda>o'. limited page_size o' rows) (Suc i) ?off (sofar + length rs)
          = (pages', res')" by (cases "stream_pages env page_size cap (\<lambda>o'. limited page_size o' rows) (Suc i) ?off (sofar + length rs)")
      have res: "pages = rs # pages'" "res = res'" using step False long rec by (auto simp: Let_def)
      have bounds: "0 \<le> ?off" "?off < cap" using less len(1) "1.prems"(3) off pos by linarith+
      have IH: "good_pages page_size rows (nat ?off) pages'
        \<and> (\<forall>n. res' = Inr n \<longrightarrow> n = sofar + length rs + length (concat pages')
             \<and> (nat ?off + length (concat pages') \<ge> length rows
                \<or> cap \<le> ?off + int (length (concat pages')) \<and> ?off + int (length (concat pages')) < cap + page_size))
        \<and> (quiet env \<longrightarrow> (\<exists>n. res' = Inr n))"
        using False long by (intro "1.hyps" [OF _ fetch _ _ _ refl refl refl _ _ "1.prems"(1,2) bounds(1) "1.prems"(4) bounds(2) rec]) auto
      have noff: "nat ?off = nat offset + length rs" using off "1.prems"(3) by linarith
      have "good_pages page_size rows (nat offset) pages"
        unfolding res by (rule good_pages_Cons [OF rs]) (use IH noff False len in auto)
      then show ?thesis using IH noff off res by (auto simp: add.assoc)
    qed
  qed
qed

lemma stream_rows_good:
  assumes "0 < page_size" "page_size \<le> MAX_QUERY_LIMIT" "0 < cap" "cap \<le> i64_max"
    and "stream_rows env page_size cap wrap rows = (batches, res)"
  obtains pages where "batches = map wrap pages" "good_pages page_size rows 0 pages"
    "\<And>n. res = Inr n \<Longrightarrow> n = length (concat pages)
       \<and> (n = length rows \<or> cap \<le> int n \<and> int n < cap + page_size)"
    "quiet env \<Longrightarrow> \<exists>n. res = Inr n"
proof -
  obtain pages where pages: "stream_pages env page_size cap (\<lambda>o'. limited page_size o' rows) 0 0 0 = (pages, res)"
      "batches = map wrap pages"
    using assms(5) by (cases "stream_pages env page_size cap (\<lambda>o'. limited page_size o' rows) 0 0 0") (auto simp: stream_rows_def)
  note good = stream_pages_good [OF assms(1,2) order_refl assms(4,3) pages(1)]
  have "concat pages = take (length (concat pages)) rows" using good by (simp add: good_pages_def)
  then have "length (concat pages) \<le> length rows" by (metis length_take min.cobounded1)
  then show ?thesis using good pages(2) that by fastforce
qed

text \<open>
  C13. Paged exports are complete. Whatever the cancellations, the pages that an export sends are non-empty,
  no longer than the page size, and together an initial part of the selected records in their order,
  none twice and none left out. An export that is not disturbed succeeds, and an export that succeeds
  reports the number of records sent: all of them, or at least the hard cap, overshot by less than a page.
\<close>

theorem export_pages_exact:
  assumes "0 < page_size" "page_size \<le> MAX_QUERY_LIMIT" "0 < cap" "cap \<le> i64_max"
  shows "\<exists>pages. fst (stream_rows env page_size cap wrap rows) = map wrap pages
    \<and> concat pages = take (length (concat pages)) rows
    \<and> list_all (\<lambda>p. p \<noteq> [] \<and> int (length p) \<le> page_size) pages
    \<and> (quiet env \<longrightarrow> (\<exists>n. snd (stream_rows env page_size cap wrap rows) = Inr n))
    \<and> (\<forall>n. snd (stream_rows env page_size cap wrap rows) = Inr n \<longrightarrow>
         n = length (concat pages) \<and> (n = length rows \<or> cap \<le> int n \<and> int n < cap + page_size))"
  by (rule stream_rows_good [OF assms surjective_pairing, of env wrap rows]) (auto simp: good_pages_def)

definition quiet_env :: stream_env where
  "quiet_env = \<lparr>cancel_query = (\<lambda>_. False), cancel_send = (\<lambda>_. False), consumer_gone = (\<lambda>_. False)\<rparr>"

lemma quiet_env [simp]: "quiet quiet_env"
  by (simp add: quiet_def quiet_env_def)

theorem export_pages_exact_witness:
  "snd (stream_rows quiet_env 2 100 id [1, 2, 3, 4, 5 :: int]) = Inr 5
   \<and> concat (fst (stream_rows quiet_env 2 100 id [1, 2, 3, 4, 5 :: int])) = [1, 2, 3, 4, 5]"
proof -
  obtain pages where p: "fst (stream_rows quiet_env 2 100 id [1, 2, 3, 4, 5 :: int]) = map id pages"
      "concat pages = take (length (concat pages)) [1, 2, 3, 4, 5]"
      "\<exists>n. snd (stream_rows quiet_env 2 100 id [1, 2, 3, 4, 5 :: int]) = Inr n"
      "\<And>n. snd (stream_rows quiet_env 2 100 id [1, 2, 3, 4, 5 :: int]) = Inr n \<Longrightarrow>
         n = length (concat pages) \<and> (n = 5 \<or> 100 \<le> int n \<and> int n < 102)"
    using export_pages_exact [of 2 100 quiet_env id "[1, 2, 3, 4, 5 :: int]"]
    by (auto simp: MAX_QUERY_LIMIT_def i64_max_def)
  obtain n where n: "snd (stream_rows quiet_env 2 100 id [1, 2, 3, 4, 5 :: int]) = Inr n" using p(3) by blast
  have "length (concat pages) \<le> length [1, 2, 3, 4, 5 :: int]" using p(2) by (metis length_take min.cobounded1)
  then have "n = 5" "length (concat pages) = 5" using p(4) [OF n] by auto
  then show ?thesis using n p(1,2) by simp
qed

section \<open>Queries select by scope\<close>

text \<open>The records a filter query should return, each once.\<close>

definition in_scope :: "'r columns \<Rightarrow> 'd dataset_db \<Rightarrow> filters \<Rightarrow> 'r \<Rightarrow> bool" where
  "in_scope c db f r \<longleftrightarrow> on_network f (c_network c r)
     \<and> (case f_target f of None \<Rightarrow> True
        | Some t \<Rightarrow> list_ex (\<lambda>m. c_raw c r = Some (tm_raw_transaction_id m) \<and> tm_target_id m = t) (db_matches db))
     \<and> (f_start f = None \<and> f_end f = None
        \<or> list_ex (\<lambda>rt. c_raw c r = Some (raw_id rt) \<and> in_window f (raw_timestamp rt)) (db_raws db))"

text \<open>The unique constraints of \<open>target_matches\<close> and \<open>raw_transactions\<close>.\<close>

definition constrained :: "'d dataset_db \<Rightarrow> bool" where
  "constrained db \<longleftrightarrow> distinct (map (\<lambda>m. (tm_target_id m, tm_raw_transaction_id m)) (db_matches db))
     \<and> distinct (map raw_id (db_raws db))"

lemma filter_unique:
  assumes "distinct (map g xs)" "\<And>x. P x \<Longrightarrow> g x = k"
  shows "length (filter P xs) = (if list_ex P xs then 1 else 0)"
  using assms(1)
proof (induction xs)
  case (Cons x xs)
  have "\<not> list_ex P xs" if px: "P x"
  proof
    assume "list_ex P xs"
    then obtain y where "y \<in> set xs" "P y" by (auto simp: list_ex_iff)
    then show False using Cons.prems assms(2) px by (metis distinct.simps(2) image_eqI list.set_map list.simps(9))
  qed
  then show ?case using Cons by auto
qed simp

lemma match_join_once:
  assumes "constrained db"
  shows "match_join c (db_matches db) target r =
    (if (case target of None \<Rightarrow> True
         | Some t \<Rightarrow> list_ex (\<lambda>m. c_raw c r = Some (tm_raw_transaction_id m) \<and> tm_target_id m = t) (db_matches db))
     then [r] else [])"
proof (cases target)
  case (Some t)
  have "length (filter (\<lambda>m. c_raw c r = Some (tm_raw_transaction_id m) \<and> tm_target_id m = t) (db_matches db)) =
      (if list_ex (\<lambda>m. c_raw c r = Some (tm_raw_transaction_id m) \<and> tm_target_id m = t) (db_matches db) then 1 else 0)"
    using assms by (intro filter_unique [where g = "\<lambda>m. (tm_target_id m, tm_raw_transaction_id m)" and k = "(t, the (c_raw c r))"])
      (auto simp: constrained_def)
  then show ?thesis using Some by (simp add: match_join_def map_replicate_const)
qed (simp add: match_join_def)

lemma time_join_once:
  assumes "constrained db"
  shows "time_join c (db_raws db) f r =
    (if f_start f = None \<and> f_end f = None
        \<or> list_ex (\<lambda>rt. c_raw c r = Some (raw_id rt) \<and> in_window f (raw_timestamp rt)) (db_raws db)
     then [r] else [])"
proof -
  have "length (filter (\<lambda>rt. c_raw c r = Some (raw_id rt) \<and> in_window f (raw_timestamp rt)) (db_raws db)) =
      (if list_ex (\<lambda>rt. c_raw c r = Some (raw_id rt) \<and> in_window f (raw_timestamp rt)) (db_raws db) then 1 else 0)"
    using assms by (intro filter_unique [where g = raw_id and k = "the (c_raw c r)"]) (auto simp: constrained_def)
  then show ?thesis by (simp add: time_join_def map_replicate_const)
qed

lemma filter_as_concat: "concat (map (\<lambda>r. if P r then [r] else []) xs) = filter P xs"
  by (induction xs) simp_all

lemma dataset_rows_scope:
  assumes "constrained db"
  shows "dataset_rows c db f table = newest_first c (filter (in_scope c db f) table)"
proof -
  have "concat (map (time_join c (db_raws db) f) (match_join c (db_matches db) (f_target f) r)) =
      (if in_scope c db f r then [r] else [])" if "on_network f (c_network c r)" for r
    using that by (simp add: match_join_once [OF assms] time_join_once [OF assms] in_scope_def)
  then have "concat (map (\<lambda>r. concat (map (time_join c (db_raws db) f) (match_join c (db_matches db) (f_target f) r)))
      (filter (\<lambda>r. on_network f (c_network c r)) table)) =
      filter (in_scope c db f) (filter (\<lambda>r. on_network f (c_network c r)) table)"
    by (subst filter_as_concat [symmetric]) (auto intro!: arg_cong [where f = concat] map_cong)
  also have "\<dots> = filter (in_scope c db f) table"
    by (auto simp: in_scope_def intro: filter_cong)
  finally show ?thesis by (simp add: dataset_rows_def filter_rows_def)
qed

lemma mset_newest_first [simp]: "mset (newest_first c rows) = mset rows"
  by (simp add: newest_first_def)

lemma set_newest_first [simp]: "set (newest_first c rows) = set rows"
  by (simp add: newest_first_def)

lemma filter_rows_mem:
  assumes "r \<in> set (filter_rows c tj ms f table)" "\<And>x. set (tj x) \<subseteq> {x}"
  shows "r \<in> set table \<and> on_network f (c_network c r)
    \<and> (\<forall>t. f_target f = Some t \<longrightarrow> (\<exists>m \<in> set ms. c_raw c r = Some (tm_raw_transaction_id m) \<and> tm_target_id m = t))"
proof -
  obtain x y where x: "x \<in> set table" "on_network f (c_network c x)" "y \<in> set (match_join c ms (f_target f) x)" "r \<in> set (tj y)"
    using assms(1) by (auto simp: filter_rows_def)
  have "y = x" using x(3) by (auto simp: match_join_def split: option.splits)
  moreover have "r = y" using x(4) assms(2) [of y] by blast
  ultimately show ?thesis using x(1-3) by (auto simp: match_join_def)
qed

lemma dataset_rows_mem:
  "r \<in> set (dataset_rows c db f table) \<Longrightarrow> r \<in> set table \<and> on_network f (c_network c r)
    \<and> (\<forall>t. f_target f = Some t \<longrightarrow> (\<exists>m \<in> set (db_matches db). c_raw c r = Some (tm_raw_transaction_id m) \<and> tm_target_id m = t))"
  unfolding dataset_rows_def by (erule filter_rows_mem) (auto simp: time_join_def)

lemma bronze_rows_mem:
  "r \<in> set (bronze_rows db f) \<Longrightarrow> on_network f (raw_network r)
    \<and> (\<forall>t. f_target f = Some t \<longrightarrow> (\<exists>m \<in> set (db_matches db). raw_id r = tm_raw_transaction_id m \<and> tm_target_id m = t))"
  unfolding bronze_rows_def using filter_rows_mem [of r raw_columns] by (fastforce simp: raw_columns_def split: if_splits)

lemma direct_rows_mem:
  "r \<in> set (direct_rows c (Some [a]) col f table) \<Longrightarrow> on_network f (c_network c r) \<and> col r = Some a"
  by (auto simp: direct_rows_def split: option.splits)

lemma balance_target_rows_mem:
  "r \<in> set (balance_target_rows db t a f) \<Longrightarrow> bs_wallet_address r = a \<and> on_network f (bs_network r)"
  by (auto simp: balance_target_rows_def)

lemma limited_mem: "limited lim off rows = Inr rs \<Longrightarrow> set rs \<subseteq> set rows \<and> int (length rs) \<le> max 0 lim"
proof -
  assume "limited lim off rows = Inr rs"
  then have "rs = take (nat (min lim MAX_QUERY_LIMIT)) (drop (nat off) rows)"
    by (auto simp: limited_def sql_page_def split: if_splits)
  then have "set rs \<subseteq> set rows" "length rs \<le> nat (min lim MAX_QUERY_LIMIT)"
    by (simp_all add: order_trans [OF set_take_subset set_drop_subset])
  then show ?thesis by linarith
qed

end
