(* ===== verification/Hl_Analytics.thy ===== *)
theory Hl_Analytics
  imports Dual_Write
begin

text \<open>
  Hyperliquid analytics (\<open>adapters/src/hl_analytics.rs\<close>): profit and loss per coin, trades from
  fills, and the trader and market dashboards. \<open>ord\<close> is the iteration order of a hash map,
  \<open>quo\<close> the division of decimals, \<open>vh\<close> the version-5 hash, \<open>us\<close> the \<open>Display\<close> of a UUID and \<open>now\<close>
  the clock.
\<close>

section \<open>Profit and loss\<close>

record 'd coin_agg =
  ca_total_closed_pnl :: "'d"
  ca_total_fees :: "'d"
  ca_total_funding :: "'d"
  ca_fill_count :: int
  ca_trade_sizes :: "'d list"
  ca_win_count :: int
  ca_loss_count :: int

definition empty_agg :: "'d :: linordered_idom coin_agg" where
  "empty_agg = \<lparr>ca_total_closed_pnl = 0, ca_total_fees = 0, ca_total_funding = 0, ca_fill_count = 0,
     ca_trade_sizes = [], ca_win_count = 0, ca_loss_count = 0\<rparr>"

definition add_fill :: "'d :: linordered_idom hl_fill_record \<Rightarrow> 'd coin_agg \<Rightarrow> 'd coin_agg" where
  "add_fill f a =
     \<lparr>ca_total_closed_pnl = (case fill_closed_pnl f of Some p \<Rightarrow> ca_total_closed_pnl a + p | None \<Rightarrow> ca_total_closed_pnl a),
      ca_total_fees = (case fill_fee f of Some x \<Rightarrow> ca_total_fees a + x | None \<Rightarrow> ca_total_fees a),
      ca_total_funding = ca_total_funding a,
      ca_fill_count = i64_saturating_add (ca_fill_count a) 1,
      ca_trade_sizes = ca_trade_sizes a @ [fill_size f],
      ca_win_count = (case fill_closed_pnl f of
          Some p \<Rightarrow> if p > 0 then i64_saturating_add (ca_win_count a) 1 else ca_win_count a
        | None \<Rightarrow> ca_win_count a),
      ca_loss_count = (case fill_closed_pnl f of
          Some p \<Rightarrow> if p > 0 then ca_loss_count a else if p < 0 then i64_saturating_add (ca_loss_count a) 1 else ca_loss_count a
        | None \<Rightarrow> ca_loss_count a)\<rparr>"

definition add_funding :: "'d :: linordered_idom hl_funding_payment \<Rightarrow> 'd coin_agg \<Rightarrow> 'd coin_agg" where
  "add_funding fp a = a\<lparr>ca_total_funding := ca_total_funding a + fund_amount fp\<rparr>"

definition pnl_aggs :: "'d :: linordered_idom hl_fill_record list \<Rightarrow> 'd hl_funding_payment list \<Rightarrow> (string \<times> 'd coin_agg) list" where
  "pnl_aggs fills funding =
     tally fund_coin empty_agg add_funding funding (tally fill_coin empty_agg add_fill fills [])"

definition avg_size :: "('d \<Rightarrow> 'd \<Rightarrow> 'd) \<Rightarrow> 'd :: linordered_idom list \<Rightarrow> 'd" where
  "avg_size quo sizes =
     (if sizes = [] then 0 else quo (fold (\<lambda>s acc. acc + s) sizes 0) (of_int (usize_to_i64_or_max (length sizes))))"

definition pnl_summary_of ::
    "(uuid \<Rightarrow> string \<Rightarrow> uuid) \<Rightarrow> ('d \<Rightarrow> 'd \<Rightarrow> 'd) \<Rightarrow> timestamp \<Rightarrow> string \<Rightarrow> string \<Rightarrow> int \<Rightarrow> int \<Rightarrow>
     string \<times> 'd :: linordered_idom coin_agg \<Rightarrow> 'd hl_pnl_summary" where
  "pnl_summary_of vh quo now wallet network period_start period_end e =
     (case e of (coin, agg) \<Rightarrow>
       \<lparr>pnl_id = vh NAMESPACE_URL (''pnl:'' @ wallet @ '':'' @ coin @ '':'' @ network @ '':'' @ show_int period_start
           @ '':'' @ show_int period_end),
        pnl_wallet_address = wallet, pnl_coin = coin, pnl_network = network, pnl_period_start = period_start,
        pnl_period_end = period_end, pnl_total_closed_pnl = ca_total_closed_pnl agg,
        pnl_total_funding = ca_total_funding agg, pnl_total_fees = ca_total_fees agg,
        pnl_net_pnl = ca_total_closed_pnl agg + ca_total_funding agg - ca_total_fees agg,
        pnl_trade_count = i64_saturating_add (ca_win_count agg) (ca_loss_count agg), pnl_fill_count = ca_fill_count agg,
        pnl_avg_trade_size = avg_size quo (ca_trade_sizes agg), pnl_win_count = ca_win_count agg,
        pnl_loss_count = ca_loss_count agg, pnl_dataset_version_id = None, pnl_created_at = now\<rparr>)"

definition compute_pnl_summary ::
    "((string \<times> 'd coin_agg) list \<Rightarrow> (string \<times> 'd coin_agg) list) \<Rightarrow> (uuid \<Rightarrow> string \<Rightarrow> uuid) \<Rightarrow> ('d \<Rightarrow> 'd \<Rightarrow> 'd) \<Rightarrow> timestamp \<Rightarrow>
     string \<Rightarrow> string \<Rightarrow> 'd :: linordered_idom hl_fill_record list \<Rightarrow> 'd hl_funding_payment list \<Rightarrow> int \<Rightarrow> int \<Rightarrow> 'd hl_pnl_summary list" where
  "compute_pnl_summary ord vh quo now wallet network fills funding period_start period_end =
     sort_key pnl_coin (map (pnl_summary_of vh quo now wallet network period_start period_end) (ord (pnl_aggs fills funding)))"

section \<open>Trades\<close>

fun join_colon :: "string list \<Rightarrow> string" where
  "join_colon [] = []"
| "join_colon [x] = x"
| "join_colon (x # y # ys) = x @ '':'' @ join_colon (y # ys)"

definition trade_deterministic_id :: "(uuid \<Rightarrow> string \<Rightarrow> uuid) \<Rightarrow> (uuid \<Rightarrow> string) \<Rightarrow> string \<Rightarrow> string \<Rightarrow> uuid list \<Rightarrow> uuid" where
  "trade_deterministic_id vh us wallet coin ids =
     vh NAMESPACE_URL (''th:'' @ wallet @ '':'' @ coin @ '':'' @ join_colon (sort (map us ids)))"

definition weighted_avg_price :: "('d \<Rightarrow> 'd \<Rightarrow> 'd) \<Rightarrow> 'd :: linordered_idom hl_fill_record list \<Rightarrow> 'd" where
  "weighted_avg_price quo fills =
     (if fills = [] then 0
      else let total_size = fold (\<lambda>f acc. acc + fill_size f) fills 0
           in if total_size = 0 then fill_price (fills ! 0)
              else quo (fold (\<lambda>f acc. acc + fill_price f * fill_size f) fills 0) total_size)"

definition or_zero :: "'d :: linordered_idom option \<Rightarrow> 'd" where
  "or_zero v = (case v of Some x \<Rightarrow> x | None \<Rightarrow> 0)"

definition standalone_trade ::
    "(uuid \<Rightarrow> string \<Rightarrow> uuid) \<Rightarrow> (uuid \<Rightarrow> string) \<Rightarrow> timestamp \<Rightarrow> string \<Rightarrow> string \<Rightarrow> string \<Rightarrow>
     'd :: linordered_idom hl_fill_record \<Rightarrow> 'd hl_trade_history" where
  "standalone_trade vh us now wallet network coin f =
     \<lparr>trade_id = trade_deterministic_id vh us wallet coin [fill_id f], trade_wallet_address = wallet, trade_coin = coin,
      trade_network = network, trade_side = fill_side f, trade_entry_price = fill_price f, trade_exit_price = fill_price f,
      trade_size = fill_size f, trade_opened_at = fill_fill_time f, trade_closed_at = fill_fill_time f,
      trade_realized_pnl = or_zero (fill_closed_pnl f), trade_fees = or_zero (fill_fee f), trade_num_fills = 1,
      trade_dataset_version_id = None, trade_created_at = now\<rparr>"

definition closing_trade ::
    "(uuid \<Rightarrow> string \<Rightarrow> uuid) \<Rightarrow> (uuid \<Rightarrow> string) \<Rightarrow> ('d \<Rightarrow> 'd \<Rightarrow> 'd) \<Rightarrow> timestamp \<Rightarrow> string \<Rightarrow> string \<Rightarrow> string \<Rightarrow>
     'd :: linordered_idom hl_fill_record list \<Rightarrow> 'd hl_fill_record \<Rightarrow> 'd hl_trade_history" where
  "closing_trade vh us quo now wallet network coin opened f =
     \<lparr>trade_id = trade_deterministic_id vh us wallet coin (map fill_id opened @ [fill_id f]), trade_wallet_address = wallet,
      trade_coin = coin, trade_network = network,
      trade_side = (case opened of o1 # _ \<Rightarrow> fill_side o1 | [] \<Rightarrow> []),
      trade_entry_price = weighted_avg_price quo opened, trade_exit_price = fill_price f,
      trade_size = fold (\<lambda>g acc. acc + fill_size g) opened 0,
      trade_opened_at = (case opened of o1 # _ \<Rightarrow> fill_fill_time o1 | [] \<Rightarrow> 0), trade_closed_at = fill_fill_time f,
      trade_realized_pnl = or_zero (fill_closed_pnl f),
      trade_fees = fold (\<lambda>g acc. acc + or_zero (fill_fee g)) (opened @ [f]) 0,
      trade_num_fills = usize_to_i64_or_max (length opened + 1), trade_dataset_version_id = None, trade_created_at = now\<rparr>"

definition dir_of :: "'d hl_fill_record \<Rightarrow> string" where
  "dir_of f = (case fill_direction f of Some d \<Rightarrow> d | None \<Rightarrow> [])"

text \<open>The loop over the fills of a coin, with the fills that are open.\<close>

fun group_trades ::
    "(uuid \<Rightarrow> string \<Rightarrow> uuid) \<Rightarrow> (uuid \<Rightarrow> string) \<Rightarrow> ('d \<Rightarrow> 'd \<Rightarrow> 'd) \<Rightarrow> timestamp \<Rightarrow> string \<Rightarrow> string \<Rightarrow> string \<Rightarrow>
     'd :: linordered_idom hl_fill_record list \<Rightarrow> 'd hl_fill_record list \<Rightarrow> 'd hl_trade_history list" where
  "group_trades vh us quo now wallet network coin opened [] = []"
| "group_trades vh us quo now wallet network coin opened (f # fs) =
     (if contains_str (dir_of f) ''Open'' then group_trades vh us quo now wallet network coin (opened @ [f]) fs
      else if contains_str (dir_of f) ''Close'' \<and> opened \<noteq> []
      then closing_trade vh us quo now wallet network coin opened f # group_trades vh us quo now wallet network coin [] fs
      else if contains_str (dir_of f) ''Close''
      then standalone_trade vh us now wallet network coin f # group_trades vh us quo now wallet network coin opened fs
      else group_trades vh us quo now wallet network coin opened fs)"

definition has_direction_info :: "'d hl_fill_record list \<Rightarrow> bool" where
  "has_direction_info fs \<longleftrightarrow>
     list_ex (\<lambda>f. case fill_direction f of Some d \<Rightarrow> contains_str d ''Open'' \<or> contains_str d ''Close'' | None \<Rightarrow> False) fs"

definition coin_trades ::
    "(uuid \<Rightarrow> string \<Rightarrow> uuid) \<Rightarrow> (uuid \<Rightarrow> string) \<Rightarrow> ('d \<Rightarrow> 'd \<Rightarrow> 'd) \<Rightarrow> timestamp \<Rightarrow> string \<Rightarrow> string \<Rightarrow>
     string \<times> 'd :: linordered_idom hl_fill_record list \<Rightarrow> 'd hl_trade_history list" where
  "coin_trades vh us quo now wallet network e =
     (case e of (coin, fills) \<Rightarrow>
       let fs = sort_key fill_fill_time fills
       in if has_direction_info fs then group_trades vh us quo now wallet network coin [] fs
          else map (standalone_trade vh us now wallet network coin) (filter (\<lambda>f. fill_closed_pnl f \<noteq> None) fs))"

definition fills_by_coin :: "'d hl_fill_record list \<Rightarrow> (string \<times> 'd hl_fill_record list) list" where
  "fills_by_coin fills = tally fill_coin [] (\<lambda>f fs. fs @ [f]) fills []"

definition build_trade_history ::
    "((string \<times> 'd hl_fill_record list) list \<Rightarrow> (string \<times> 'd hl_fill_record list) list) \<Rightarrow> (uuid \<Rightarrow> string \<Rightarrow> uuid) \<Rightarrow>
     (uuid \<Rightarrow> string) \<Rightarrow> ('d \<Rightarrow> 'd \<Rightarrow> 'd) \<Rightarrow> timestamp \<Rightarrow> string \<Rightarrow> string \<Rightarrow> 'd :: linordered_idom hl_fill_record list \<Rightarrow>
     'd hl_trade_history list" where
  "build_trade_history ord vh us quo now wallet network fills =
     sort_key trade_closed_at (concat (map (coin_trades vh us quo now wallet network) (ord (fills_by_coin fills))))"

section \<open>Dashboards\<close>

record ('d, 'f) trader_analytics =
  ta_wallet_address :: string
  ta_total_net_pnl :: "'d"
  ta_total_volume :: "'d"
  ta_total_trades :: int
  ta_win_rate :: "'f"
  ta_coin_breakdown :: "'d coin_pnl_summary list"

definition i64_wrapping_add :: "int \<Rightarrow> int \<Rightarrow> int" where
  "i64_wrapping_add a b = (a + b + 2 ^ 63) mod 2 ^ 64 - 2 ^ 63"

definition empty_coin :: "'d :: linordered_idom \<times> 'd \<times> int \<times> int \<times> int" where
  "empty_coin = (0, 0, 0, 0, 0)"

definition add_summary :: "'d :: linordered_idom hl_pnl_summary \<Rightarrow> 'd \<times> 'd \<times> int \<times> int \<times> int \<Rightarrow> 'd \<times> 'd \<times> int \<times> int \<times> int" where
  "add_summary s e = (case e of (pnl, volume, trades, wins, losses) \<Rightarrow>
     (pnl + pnl_net_pnl s, volume, trades, i64_wrapping_add wins (pnl_win_count s), i64_wrapping_add losses (pnl_loss_count s)))"

definition add_trade :: "'d :: linordered_idom hl_trade_history \<Rightarrow> 'd \<times> 'd \<times> int \<times> int \<times> int \<Rightarrow> 'd \<times> 'd \<times> int \<times> int \<times> int" where
  "add_trade t e = (case e of (pnl, volume, trades, wins, losses) \<Rightarrow>
     (pnl, volume + trade_size t * trade_entry_price t, i64_saturating_add trades 1, wins, losses))"

text \<open>\<open>fdiv\<close> is the quotient of two integers as floats, \<open>fzero\<close> the float 0.\<close>

definition build_trader_analytics ::
    "((string \<times> 'd \<times> 'd \<times> int \<times> int \<times> int) list \<Rightarrow> (string \<times> 'd \<times> 'd \<times> int \<times> int \<times> int) list) \<Rightarrow> (int \<Rightarrow> int \<Rightarrow> 'f) \<Rightarrow> 'f \<Rightarrow>
     string \<Rightarrow> 'd :: linordered_idom hl_pnl_summary list \<Rightarrow> 'd hl_trade_history list \<Rightarrow> ('d, 'f) trader_analytics" where
  "build_trader_analytics ord fdiv fzero wallet summaries trades =
     (let wins = fold (\<lambda>s acc. i64_saturating_add acc (pnl_win_count s)) summaries 0;
          losses = fold (\<lambda>s acc. i64_saturating_add acc (pnl_loss_count s)) summaries 0;
          resolved = i64_saturating_add wins losses;
          coin_map = tally trade_coin empty_coin add_trade trades (tally pnl_coin empty_coin add_summary summaries [])
      in \<lparr>ta_wallet_address = wallet,
          ta_total_net_pnl = fold (\<lambda>s acc. acc + pnl_net_pnl s) summaries 0,
          ta_total_volume = fold (\<lambda>t acc. acc + trade_size t * trade_entry_price t) trades 0,
          ta_total_trades = usize_to_i64_or_max (length trades),
          ta_win_rate = (if resolved > 0 then fdiv wins resolved else fzero),
          ta_coin_breakdown = sort_key cpnl_coin (map (\<lambda>(coin, pnl, volume, n, w, l).
            \<lparr>cpnl_coin = coin, cpnl_net_pnl = pnl, cpnl_volume = volume, cpnl_trade_count = n, cpnl_win_count = w,
             cpnl_loss_count = l\<rparr>) (ord coin_map))\<rparr>)"

record 'd market_agg =
  mg_volume :: "'d"
  mg_traders :: "string list"
  mg_trade_count :: int
  mg_total_pnl :: "'d"
  mg_sizes :: "'d list"

definition empty_market :: "'d :: linordered_idom market_agg" where
  "empty_market = \<lparr>mg_volume = 0, mg_traders = [], mg_trade_count = 0, mg_total_pnl = 0, mg_sizes = []\<rparr>"

definition market_summary :: "'d :: linordered_idom hl_pnl_summary \<Rightarrow> 'd market_agg \<Rightarrow> 'd market_agg" where
  "market_summary s a = a\<lparr>mg_traders := List.insert (pnl_wallet_address s) (mg_traders a),
     mg_total_pnl := mg_total_pnl a + pnl_net_pnl s\<rparr>"

definition market_trade :: "'d :: linordered_idom hl_trade_history \<Rightarrow> 'd market_agg \<Rightarrow> 'd market_agg" where
  "market_trade t a = a\<lparr>mg_volume := mg_volume a + trade_size t * trade_entry_price t,
     mg_traders := List.insert (trade_wallet_address t) (mg_traders a),
     mg_trade_count := i64_saturating_add (mg_trade_count a) 1, mg_sizes := mg_sizes a @ [trade_size t]\<rparr>"

definition market_map :: "'d :: linordered_idom hl_pnl_summary list \<Rightarrow> 'd hl_trade_history list \<Rightarrow> (string \<times> 'd market_agg) list" where
  "market_map summaries trades =
     tally trade_coin empty_market market_trade trades (tally pnl_coin empty_market market_summary summaries [])"

definition build_market_analytics ::
    "((string \<times> 'd market_agg) list \<Rightarrow> (string \<times> 'd market_agg) list) \<Rightarrow> ('d \<Rightarrow> 'd \<Rightarrow> 'd) \<Rightarrow>
     'd :: linordered_idom hl_pnl_summary list \<Rightarrow> 'd hl_trade_history list \<Rightarrow> 'd market_analytics" where
  "build_market_analytics ord quo summaries trades =
     (let entries = ord (market_map summaries trades)
      in \<lparr>ma_coins = sort_key cms_coin (map (\<lambda>(coin, a).
            \<lparr>cms_coin = coin, cms_total_volume = mg_volume a, cms_unique_traders = length (mg_traders a),
             cms_total_trades = mg_trade_count a, cms_total_pnl = mg_total_pnl a, cms_avg_trade_size = avg_size quo (mg_sizes a)\<rparr>) entries),
          ma_total_volume = fold (\<lambda>(_, a) acc. acc + mg_volume a) entries 0,
          ma_total_unique_traders = length (remdups (concat (map (\<lambda>(_, a). mg_traders a) entries)))\<rparr>)"

section \<open>Sums over groups\<close>

lemma sum_partition:
  fixes g :: "'a \<Rightarrow> 'd :: comm_monoid_add"
  assumes "distinct ks" "key ` set xs \<subseteq> set ks"
  shows "(\<Sum>k \<leftarrow> ks. \<Sum>x \<leftarrow> filter (\<lambda>x. key x = k) xs. g x) = (\<Sum>x \<leftarrow> xs. g x)"
  using assms(2)
proof (induction xs)
  case Nil
  then show ?case by (induction ks) simp_all
next
  case (Cons x xs)
  have one: "(\<Sum>k \<leftarrow> ks. if key x = k then g x else 0) = g x"
    using assms(1) Cons.prems by (simp add: sum_list_distinct_conv_sum_set)
  have "(\<Sum>k \<leftarrow> ks. \<Sum>y \<leftarrow> filter (\<lambda>y. key y = k) (x # xs). g y) =
      (\<Sum>k \<leftarrow> ks. (if key x = k then g x else 0) + (\<Sum>y \<leftarrow> filter (\<lambda>y. key y = k) xs. g y))"
    by (rule arg_cong [where f = sum_list], rule map_cong) simp_all
  also have "\<dots> = g x + (\<Sum>y \<leftarrow> xs. g y)" using Cons one by (simp add: sum_list_addf)
  finally show ?case by simp
qed

lemma sum_list_mset_eq: "mset xs = mset ys \<Longrightarrow> (\<Sum>x \<leftarrow> xs. g x) = (\<Sum>x \<leftarrow> ys. (g x :: 'd :: comm_monoid_add))"
  by (metis mset_map sum_mset_sum_list)

lemma sum_list_sort_key: "(\<Sum>x \<leftarrow> sort_key f xs. g x) = (\<Sum>x \<leftarrow> xs. (g x :: 'd :: comm_monoid_add))"
  by (rule sum_list_mset_eq) simp

lemma fold_add_fill:
  "ca_total_closed_pnl (fold add_fill fs a) = ca_total_closed_pnl a + (\<Sum>f \<leftarrow> fs. or_zero (fill_closed_pnl f))"
  "ca_total_fees (fold add_fill fs a) = ca_total_fees a + (\<Sum>f \<leftarrow> fs. or_zero (fill_fee f))"
  "ca_total_funding (fold add_fill fs a) = ca_total_funding a"
  by (induction fs arbitrary: a) (simp_all add: add_fill_def or_zero_def add.assoc split: option.split)

lemma fold_add_funding:
  "ca_total_funding (fold add_funding ps a) = ca_total_funding a + (\<Sum>p \<leftarrow> ps. fund_amount p)"
  "ca_total_closed_pnl (fold add_funding ps a) = ca_total_closed_pnl a"
  "ca_total_fees (fold add_funding ps a) = ca_total_fees a"
  by (induction ps arbitrary: a) (simp_all add: add_funding_def add.assoc)

lemma pnl_aggs_keys:
  "distinct (map fst (pnl_aggs fills funding))"
  "fst ` set (pnl_aggs fills funding) = fill_coin ` set fills \<union> fund_coin ` set funding"
  by (simp_all add: pnl_aggs_def distinct_tally keys_tally)

lemma pnl_aggs_entry:
  assumes "(coin, a) \<in> set (pnl_aggs fills funding)"
  shows "ca_total_closed_pnl a = (\<Sum>f \<leftarrow> filter (\<lambda>f. fill_coin f = coin) fills. or_zero (fill_closed_pnl f))"
    "ca_total_fees a = (\<Sum>f \<leftarrow> filter (\<lambda>f. fill_coin f = coin) fills. or_zero (fill_fee f))"
    "ca_total_funding a = (\<Sum>p \<leftarrow> filter (\<lambda>p. fund_coin p = coin) funding. fund_amount p)"
proof -
  let ?fs = "filter (\<lambda>f. fill_coin f = coin) fills" and ?ps = "filter (\<lambda>p. fund_coin p = coin) funding"
  have m: "map_of (pnl_aggs fills funding) coin = Some a" by (rule map_of_is_SomeI [OF pnl_aggs_keys(1) assms])
  have m1: "map_of (tally fill_coin empty_agg add_fill fills []) coin =
      (case ?fs of [] \<Rightarrow> None | _ \<Rightarrow> Some (fold add_fill ?fs empty_agg))"
    by (simp add: map_of_tally split: list.split)
  have "a = fold add_funding ?ps (fold add_fill ?fs empty_agg)"
    using m unfolding pnl_aggs_def map_of_tally m1 by (auto split: list.splits)
  then show "ca_total_closed_pnl a = (\<Sum>f \<leftarrow> ?fs. or_zero (fill_closed_pnl f))"
    "ca_total_fees a = (\<Sum>f \<leftarrow> ?fs. or_zero (fill_fee f))" "ca_total_funding a = (\<Sum>p \<leftarrow> ?ps. fund_amount p)"
    by (simp_all add: fold_add_fill fold_add_funding empty_agg_def)
qed

text \<open>
  C38. Profit and loss adds up. Whatever the iteration order of the hash map, there is exactly one
  summary per coin with a fill or a funding payment, in the order of the coins; its totals are the
  sums of the closed profit, the fees and the funding of that coin, its net profit is closed profit plus
  funding less fees, and the net profits of all coins add up to that of the whole input.
\<close>

theorem pnl_summary_correct:
  fixes fills :: "'d :: linordered_idom hl_fill_record list"
  assumes "\<forall>es. mset (ord es) = mset es"
    and "r = compute_pnl_summary ord vh quo now wallet network fills funding period_start period_end"
  shows "sorted (map pnl_coin r) \<and> distinct (map pnl_coin r)
    \<and> set (map pnl_coin r) = fill_coin ` set fills \<union> fund_coin ` set funding
    \<and> (\<forall>s \<in> set r.
        pnl_total_closed_pnl s = (\<Sum>f \<leftarrow> filter (\<lambda>f. fill_coin f = pnl_coin s) fills. or_zero (fill_closed_pnl f))
        \<and> pnl_total_fees s = (\<Sum>f \<leftarrow> filter (\<lambda>f. fill_coin f = pnl_coin s) fills. or_zero (fill_fee f))
        \<and> pnl_total_funding s = (\<Sum>p \<leftarrow> filter (\<lambda>p. fund_coin p = pnl_coin s) funding. fund_amount p)
        \<and> pnl_net_pnl s = pnl_total_closed_pnl s + pnl_total_funding s - pnl_total_fees s)
    \<and> (\<Sum>s \<leftarrow> r. pnl_net_pnl s) =
        (\<Sum>f \<leftarrow> fills. or_zero (fill_closed_pnl f)) + (\<Sum>p \<leftarrow> funding. fund_amount p) - (\<Sum>f \<leftarrow> fills. or_zero (fill_fee f))"
proof -
  let ?es = "pnl_aggs fills funding"
  let ?row = "pnl_summary_of vh quo now wallet network period_start period_end"
  have coin: "pnl_coin (?row e) = fst e" for e by (cases e) (simp add: pnl_summary_of_def)
  have ms: "mset r = mset (map ?row ?es)" using assms by (simp add: compute_pnl_summary_def)
  have sorted: "sorted (map pnl_coin r)" by (simp add: assms(2) compute_pnl_summary_def)
  have mc: "mset (map pnl_coin r) = mset (map fst ?es)"
  proof -
    have "mset (map pnl_coin r) = mset (map pnl_coin (map ?row ?es))" using ms by (metis mset_map)
    also have "map pnl_coin (map ?row ?es) = map fst ?es" by (simp add: coin comp_def)
    finally show ?thesis .
  qed
  have dist: "distinct (map pnl_coin r)" using mc pnl_aggs_keys(1) by (metis mset_eq_imp_distinct_iff)
  have keys: "set (map pnl_coin r) = fill_coin ` set fills \<union> fund_coin ` set funding"
    using mset_eq_setD [OF mc] pnl_aggs_keys(2) by (simp only: set_map)
  have row: "pnl_total_closed_pnl s = (\<Sum>f \<leftarrow> filter (\<lambda>f. fill_coin f = pnl_coin s) fills. or_zero (fill_closed_pnl f))
      \<and> pnl_total_fees s = (\<Sum>f \<leftarrow> filter (\<lambda>f. fill_coin f = pnl_coin s) fills. or_zero (fill_fee f))
      \<and> pnl_total_funding s = (\<Sum>p \<leftarrow> filter (\<lambda>p. fund_coin p = pnl_coin s) funding. fund_amount p)
      \<and> pnl_net_pnl s = pnl_total_closed_pnl s + pnl_total_funding s - pnl_total_fees s" if s: "s \<in> set r" for s
  proof -
    obtain c a where "(c, a) \<in> set ?es" "s = ?row (c, a)" using s mset_eq_setD [OF ms] by auto
    then show ?thesis using pnl_aggs_entry [of c a fills funding] by (simp add: pnl_summary_of_def)
  qed
  have "(\<Sum>s \<leftarrow> r. pnl_net_pnl s) = (\<Sum>s \<leftarrow> r. pnl_total_closed_pnl s) + (\<Sum>s \<leftarrow> r. pnl_total_funding s) - (\<Sum>s \<leftarrow> r. pnl_total_fees s)"
    using row by (simp add: sum_list_addf sum_list_subtractf cong: map_cong)
  also have "(\<Sum>s \<leftarrow> r. pnl_total_closed_pnl s) = (\<Sum>c \<leftarrow> map pnl_coin r. \<Sum>f \<leftarrow> filter (\<lambda>f. fill_coin f = c) fills. or_zero (fill_closed_pnl f))"
    using row by (simp add: comp_def cong: map_cong)
  also have "\<dots> = (\<Sum>f \<leftarrow> fills. or_zero (fill_closed_pnl f))" by (rule sum_partition [OF dist]) (simp only: keys Un_upper1)
  also have "(\<Sum>s \<leftarrow> r. pnl_total_fees s) = (\<Sum>c \<leftarrow> map pnl_coin r. \<Sum>f \<leftarrow> filter (\<lambda>f. fill_coin f = c) fills. or_zero (fill_fee f))"
    using row by (simp add: comp_def cong: map_cong)
  also have "\<dots> = (\<Sum>f \<leftarrow> fills. or_zero (fill_fee f))" by (rule sum_partition [OF dist]) (simp only: keys Un_upper1)
  also have "(\<Sum>s \<leftarrow> r. pnl_total_funding s) = (\<Sum>c \<leftarrow> map pnl_coin r. \<Sum>p \<leftarrow> filter (\<lambda>p. fund_coin p = c) funding. fund_amount p)"
    using row by (simp add: comp_def cong: map_cong)
  also have "\<dots> = (\<Sum>p \<leftarrow> funding. fund_amount p)" by (rule sum_partition [OF dist]) (simp only: keys Un_upper2)
  finally show ?thesis using sorted dist keys row by blast
qed

definition sample_fill :: "int hl_fill_record" where
  "sample_fill = \<lparr>fill_id = 1, fill_raw_transaction_id = None, fill_network = ''hypercore-mainnet'', fill_coin = ''BTC'', fill_side = ''B'',
     fill_price = 10, fill_size = 2, fill_direction = Some ''Open Long'', fill_closed_pnl = None, fill_fee = Some 1,
     fill_fee_token = None, fill_fill_time = 5, fill_order_id = None, fill_trade_id = None, fill_dataset_version_id = None,
     fill_created_at = 0\<rparr>"

definition sample_close :: "int hl_fill_record" where
  "sample_close = sample_fill\<lparr>fill_id := 2, fill_direction := Some ''Close Long'', fill_closed_pnl := Some 7, fill_fill_time := 9\<rparr>"

theorem pnl_summary_correct_witness:
  "(\<Sum>s \<leftarrow> compute_pnl_summary rev (\<lambda>_ _. 0) (div) 0 ''w'' ''n'' [sample_fill, sample_close] [] 0 10. pnl_net_pnl s) = 5"
  using pnl_summary_correct [OF _ refl, of rev "\<lambda>_ _. 0" "(div)" 0 "''w''" "''n''" "[sample_fill, sample_close]" "[]" 0 10]
  by (simp add: sample_fill_def sample_close_def or_zero_def)

section \<open>Trades account for the closing fills\<close>

definition closes :: "'d hl_fill_record \<Rightarrow> bool" where
  "closes f \<longleftrightarrow> contains_str (dir_of f) ''Close'' \<and> \<not> contains_str (dir_of f) ''Open''"

text \<open>The fills that end a trade: by their direction, or by a closed profit if no fill of the coin has a direction.\<close>

definition ends_trade :: "'d hl_fill_record list \<Rightarrow> 'd hl_fill_record \<Rightarrow> bool" where
  "ends_trade fills f \<longleftrightarrow>
     (if has_direction_info (filter (\<lambda>g. fill_coin g = fill_coin f) fills) then closes f else fill_closed_pnl f \<noteq> None)"

text \<open>What a trade and the fill that ends it have in common.\<close>

definition trade_facts :: "'d hl_trade_history \<Rightarrow> string \<times> int \<times> 'd \<times> 'd" where
  "trade_facts t = (trade_coin t, trade_closed_at t, trade_exit_price t, trade_realized_pnl t)"

definition ending_facts :: "'d :: linordered_idom hl_fill_record \<Rightarrow> string \<times> int \<times> 'd \<times> 'd" where
  "ending_facts f = (fill_coin f, fill_fill_time f, fill_price f, or_zero (fill_closed_pnl f))"

lemma group_trades_facts:
  "\<forall>f \<in> set fs. fill_coin f = coin \<Longrightarrow>
     map trade_facts (group_trades vh us quo now wallet network coin opened fs) = map ending_facts (filter closes fs)"
  by (induction fs arbitrary: opened)
    (auto simp: closes_def closing_trade_def standalone_trade_def trade_facts_def ending_facts_def)

lemma group_trades_order:
  assumes "sorted (map fill_fill_time (opened @ fs))"
  shows "\<forall>t \<in> set (group_trades vh us quo now wallet network coin opened fs). trade_opened_at t \<le> trade_closed_at t"
  using assms
proof (induction fs arbitrary: opened)
  case (Cons f fs)
  have "sorted (map fill_fill_time ((opened @ [f]) @ fs))" "sorted (map fill_fill_time ([] @ fs))" "sorted (map fill_fill_time (opened @ fs))"
    using Cons.prems by (simp_all add: sorted_append)
  note later = this [THEN Cons.IH]
  have "trade_opened_at (closing_trade vh us quo now wallet network coin opened f) \<le> fill_fill_time f" if "opened \<noteq> []"
    using that Cons.prems by (cases opened) (auto simp: closing_trade_def sorted_append)
  with later show ?case by (auto simp: closing_trade_def standalone_trade_def)
qed simp

lemma has_direction_info_cong: "set fs = set gs \<Longrightarrow> has_direction_info fs = has_direction_info gs"
  by (simp add: has_direction_info_def list_ex_iff)

definition coin_ends :: "'d hl_fill_record list \<Rightarrow> 'd hl_fill_record \<Rightarrow> bool" where
  "coin_ends fs f \<longleftrightarrow> (if has_direction_info fs then closes f else fill_closed_pnl f \<noteq> None)"

lemma coin_trades_facts:
  assumes "\<forall>f \<in> set fs. fill_coin f = coin"
  shows "mset (map trade_facts (coin_trades vh us quo now wallet network (coin, fs))) = mset (map ending_facts (filter (coin_ends fs) fs))"
    and "\<forall>t \<in> set (coin_trades vh us quo now wallet network (coin, fs)). trade_opened_at t \<le> trade_closed_at t"
proof -
  let ?gs = "sort_key fill_fill_time fs"
  have hd: "has_direction_info ?gs = has_direction_info fs" by (rule has_direction_info_cong) simp
  have coin: "\<forall>f \<in> set ?gs. fill_coin f = coin" using assms by simp
  have ce: "coin_ends fs = (if has_direction_info fs then closes else (\<lambda>f. fill_closed_pnl f \<noteq> None))"
    by (rule ext) (simp add: coin_ends_def)
  have st: "trade_facts (standalone_trade vh us now wallet network coin f) = ending_facts f" if "fill_coin f = coin" for f
    using that by (simp add: standalone_trade_def trade_facts_def ending_facts_def)
  have "map trade_facts (coin_trades vh us quo now wallet network (coin, fs)) = map ending_facts (filter (coin_ends fs) ?gs)"
  proof (cases "has_direction_info fs")
    case True
    then show ?thesis by (simp add: coin_trades_def Let_def hd ce group_trades_facts [OF coin])
  next
    case False
    then show ?thesis using st assms by (auto simp: coin_trades_def Let_def hd ce)
  qed
  then show "mset (map trade_facts (coin_trades vh us quo now wallet network (coin, fs))) = mset (map ending_facts (filter (coin_ends fs) fs))"
    by simp
  show "\<forall>t \<in> set (coin_trades vh us quo now wallet network (coin, fs)). trade_opened_at t \<le> trade_closed_at t"
    using group_trades_order [of "[]" ?gs vh us quo now wallet network coin]
    by (auto simp: coin_trades_def Let_def standalone_trade_def)
qed

lemma mset_partition:
  assumes "distinct cs" "k ` set xs \<subseteq> set cs"
  shows "mset (concat (map (\<lambda>c. filter (\<lambda>x. k x = c) xs) cs)) = mset xs"
  using assms
proof (induction cs arbitrary: xs)
  case (Cons c cs)
  let ?ys = "filter (\<lambda>x. k x \<noteq> c) xs"
  have "filter (\<lambda>x. k x = d) ?ys = filter (\<lambda>x. k x = d) xs" if "d \<in> set cs" for d
    using that Cons.prems(1) by (auto intro!: filter_cong)
  then have same: "map (\<lambda>d. filter (\<lambda>x. k x = d) ?ys) cs = map (\<lambda>d. filter (\<lambda>x. k x = d) xs) cs"
    by (intro map_cong refl)
  have "mset (concat (map (\<lambda>d. filter (\<lambda>x. k x = d) ?ys) cs)) = mset ?ys"
    using Cons.prems by (intro Cons.IH) auto
  then have rest: "mset (concat (map (\<lambda>d. filter (\<lambda>x. k x = d) xs) cs)) = mset ?ys" unfolding same .
  have "mset xs = mset (filter (\<lambda>x. k x = c) xs) + mset ?ys"
    using multiset_partition [of "mset xs" "\<lambda>x. k x = c"] by (simp only: mset_filter)
  then show ?case by (simp only: list.map concat.simps mset_append rest)
qed simp

lemma sum_list_concat_map: "(\<Sum>x \<leftarrow> concat (map h xs). g x) = (\<Sum>e \<leftarrow> xs. \<Sum>x \<leftarrow> h e. (g x :: 'd :: comm_monoid_add))"
  by (induction xs) simp_all

lemma fold_append: "fold (\<lambda>x acc. acc @ [x]) xs ys = ys @ xs"
  by (induction xs arbitrary: ys) simp_all

lemma fills_by_coin_eq:
  "fills_by_coin fills = map (\<lambda>c. (c, filter (\<lambda>f. fill_coin f = c) fills)) (map fst (fills_by_coin fills))"
proof -
  have "snd e = filter (\<lambda>f. fill_coin f = fst e) fills" if e: "e \<in> set (fills_by_coin fills)" for e
    using e tally_entry_iff [of "fst e" "snd e" fill_coin "[]" "\<lambda>f fs. fs @ [f]" fills]
    by (simp add: fills_by_coin_def fold_append)
  then show ?thesis by (auto simp: map_idI prod_eq_iff intro!: nth_equalityI)
qed

lemma fills_by_coin_keys:
  "distinct (map fst (fills_by_coin fills))" "fst ` set (fills_by_coin fills) = fill_coin ` set fills"
  by (simp_all add: fills_by_coin_def distinct_tally keys_tally)



end
