(* ===== verification/Protocol_Analytics.thy ===== *)
theory Protocol_Analytics
  imports Hl_Analytics
begin

text \<open>
  Aggregations over Gold records: protocol events, pool snapshots and their value
  (\<open>adapters/src/protocol_analytics.rs\<close>), and the forensic summary and the balance history of a list
  of ledger records (\<open>adapters/src/ledger_derivation.rs\<close>). \<open>secs\<close> is \<open>DateTime::timestamp\<close>, \<open>pd\<close> the
  parser of decimals; the orders of hash maps and sets
  are arguments.
\<close>

definition usize_saturating_add :: "nat \<Rightarrow> nat \<Rightarrow> nat" where
  "usize_saturating_add a b = min (2 ^ 64 - 1) (a + b)"

section \<open>Protocol events\<close>

definition classify_event :: "string option \<Rightarrow> string" where
  "classify_event event_name =
     (case event_name of
        Some name \<Rightarrow>
          (let lower = to_lowercase name
           in if contains_str lower ''swap'' then ''swap''
              else if contains_str lower ''mint'' then ''mint''
              else if contains_str lower ''burn'' then ''burn''
              else if contains_str lower ''addliquidity'' \<or> contains_str lower ''add_liquidity''
                \<or> contains_str lower ''liquidityadded'' \<or> contains_str lower ''deposit'' then ''liquidity_added''
              else if contains_str lower ''removeliquidity'' \<or> contains_str lower ''remove_liquidity''
                \<or> contains_str lower ''liquidityremoved'' \<or> contains_str lower ''withdraw'' then ''liquidity_removed''
              else if contains_str lower ''transfer'' then ''transfer''
              else ''other'')
      | None \<Rightarrow> ''other'')"

definition saturating_usize_sum :: "nat list \<Rightarrow> nat" where
  "saturating_usize_sum ns = fold (\<lambda>v acc. usize_saturating_add acc v) ns 0"

definition compute_protocol_events ::
    "(uuid \<Rightarrow> string \<Rightarrow> uuid) \<Rightarrow> (uuid \<Rightarrow> string) \<Rightarrow> (timestamp \<Rightarrow> int) \<Rightarrow> timestamp \<Rightarrow> decoded_event list \<Rightarrow> string option \<Rightarrow>
     protocol_event list" where
  "compute_protocol_events vh us secs now events hint = map (\<lambda>de.
     \<lparr>pe_id = vh NAMESPACE_URL (''pe:'' @ us (de_id de)), pe_network = de_network de,
      pe_protocol_address = de_program_or_contract de, pe_protocol_name = None,
      pe_event_type = classify_event (de_event_name de), pe_event_details = de_decoded_fields de,
      pe_pool_address = hint, pe_raw_event_id = Some (de_id de), pe_timestamp = secs (de_created_at de),
      pe_dataset_version_id = de_dataset_version_id de, pe_created_at = now\<rparr>) events"

text \<open>\<open>max_by_key\<close>: the last of the greatest elements.\<close>

fun max_by_key :: "('a \<Rightarrow> 'k :: linorder) \<Rightarrow> 'a list \<Rightarrow> 'a option" where
  "max_by_key key [] = None"
| "max_by_key key (x # xs) = (case max_by_key key xs of Some y \<Rightarrow> Some (if key x > key y then x else y) | None \<Rightarrow> Some x)"

definition json_decimal :: "(string \<Rightarrow> 'd option) \<Rightarrow> json \<Rightarrow> 'd option" where
  "json_decimal pd v = (case v of JString s \<Rightarrow> pd s | JInt i \<Rightarrow> pd (show_int i) | JFloat s \<Rightarrow> pd s | _ \<Rightarrow> None)"

definition decoded_decimal_field :: "(string \<Rightarrow> ('d :: linordered_idom) option) \<Rightarrow> json \<Rightarrow> string \<Rightarrow> string \<Rightarrow> 'd" where
  "decoded_decimal_field pd flds primary_key fallback_key =
     (case Option.bind (json_get flds primary_key) (json_decimal pd) of
        Some d \<Rightarrow> d
      | None \<Rightarrow> (case Option.bind (json_get flds fallback_key) (json_decimal pd) of Some d \<Rightarrow> d | None \<Rightarrow> 0))"

definition compute_pool_snapshots ::
    "(uuid \<Rightarrow> string \<Rightarrow> uuid) \<Rightarrow> (uuid \<Rightarrow> string) \<Rightarrow> (timestamp \<Rightarrow> int) \<Rightarrow> (string \<Rightarrow> 'd option) \<Rightarrow> timestamp \<Rightarrow>
     decoded_event list \<Rightarrow> string \<Rightarrow> string \<times> string option \<Rightarrow> string \<times> string option \<Rightarrow> ('d :: linordered_idom) pool_snapshot list" where
  "compute_pool_snapshots vh us secs pd now events pool_address token0 token1 =
     (if fst token0 = [] \<or> fst token1 = [] then []
      else case max_by_key de_created_at events of
        None \<Rightarrow> []
      | Some latest \<Rightarrow>
          [\<lparr>ps_id = vh NAMESPACE_URL (''ps:'' @ de_network latest @ '':'' @ pool_address @ '':'' @ us (de_id latest)),
            ps_network = de_network latest, ps_pool_address = pool_address,
            ps_protocol_address = de_program_or_contract latest, ps_protocol_name = None,
            ps_token0_address = fst token0, ps_token0_symbol = snd token0,
            ps_token1_address = fst token1, ps_token1_symbol = snd token1,
            ps_reserve0 = decoded_decimal_field pd (de_decoded_fields latest) ''reserve0'' ''amount0'',
            ps_reserve1 = decoded_decimal_field pd (de_decoded_fields latest) ''reserve1'' ''amount1'',
            ps_tvl_usd = None, ps_snapshot_timestamp = secs (de_created_at latest), ps_block_number = None,
            ps_dataset_version_id = de_dataset_version_id latest, ps_created_at = now\<rparr>])"

section \<open>Activity and value\<close>

definition detail_str :: "protocol_event \<Rightarrow> string \<Rightarrow> string option" where
  "detail_str e k = Option.bind (json_get (pe_event_details e) k) json_as_str"

definition event_participants :: "protocol_event \<Rightarrow> string list" where
  "event_participants e = List.map_filter (detail_str e) [''from'', ''to'', ''sender'', ''recipient'']"

definition build_protocol_activity :: "string \<Rightarrow> protocol_event list \<Rightarrow> protocol_activity" where
  "build_protocol_activity protocol_address events =
     (let mine = filter (\<lambda>e. pe_protocol_address e = protocol_address) events;
          type_counts = sort_key fst (tally pe_event_type 0 (\<lambda>_ n. usize_saturating_add n 1) mine []);
          participants = fold List.insert (concat (map event_participants mine)) []
      in \<lparr>pa_protocol_address = protocol_address,
          pa_event_counts_by_type = map (\<lambda>(t, n). \<lparr>etc_event_type = t, etc_count = n\<rparr>) type_counts,
          pa_unique_participants = length participants,
          pa_total_events = saturating_usize_sum (map snd type_counts),
          pa_time_start = fold (\<lambda>e t. Some (case t of None \<Rightarrow> pe_timestamp e | Some s \<Rightarrow> min s (pe_timestamp e))) mine None,
          pa_time_end = fold (\<lambda>e t. Some (case t of None \<Rightarrow> pe_timestamp e | Some s \<Rightarrow> max s (pe_timestamp e))) mine None\<rparr>)"

definition keep_latest :: "'d pool_snapshot \<Rightarrow> 'd pool_snapshot option \<Rightarrow> 'd pool_snapshot option" where
  "keep_latest snap cur =
     (case cur of None \<Rightarrow> Some snap
      | Some e \<Rightarrow> if ps_snapshot_timestamp snap > ps_snapshot_timestamp e then Some snap else Some e)"

definition latest_by_pool :: "'d pool_snapshot list \<Rightarrow> (string \<times> 'd pool_snapshot option) list" where
  "latest_by_pool snaps = tally ps_pool_address None keep_latest snaps []"

definition pool_summary :: "'d pool_snapshot \<Rightarrow> 'd pool_tvl_summary" where
  "pool_summary s =
     \<lparr>ptvl_pool_address = ps_pool_address s, ptvl_protocol_address = ps_protocol_address s,
      ptvl_token0_symbol = ps_token0_symbol s, ptvl_token1_symbol = ps_token1_symbol s,
      ptvl_reserve0 = ps_reserve0 s, ptvl_reserve1 = ps_reserve1 s, ptvl_tvl_usd = ps_tvl_usd s,
      ptvl_snapshot_timestamp = ps_snapshot_timestamp s\<rparr>"

definition sum_present :: "('d :: linordered_idom) option list \<Rightarrow> 'd" where
  "sum_present ts = fold (\<lambda>v acc. acc + v) (List.map_filter id ts) 0"

definition add_tvl :: "'d pool_snapshot \<Rightarrow> (string option \<times> 'd option list) option \<Rightarrow> (string option \<times> 'd option list) option" where
  "add_tvl s cur =
     (case cur of None \<Rightarrow> Some (ps_protocol_name s, [ps_tvl_usd s]) | Some (name, tvls) \<Rightarrow> Some (name, tvls @ [ps_tvl_usd s]))"

definition protocol_summary :: "string \<times> (string option \<times> ('d :: linordered_idom) option list) option \<Rightarrow> 'd protocol_tvl_summary" where
  "protocol_summary e =
     (case e of (addr, agg) \<Rightarrow>
        (case agg of
           None \<Rightarrow> \<lparr>prtvl_protocol_address = addr, prtvl_protocol_name = None, prtvl_pool_count = 0, prtvl_total_tvl = None\<rparr>
         | Some (name, tvls) \<Rightarrow>
             \<lparr>prtvl_protocol_address = addr, prtvl_protocol_name = name, prtvl_pool_count = length tvls,
              prtvl_total_tvl =
                (if list_all (\<lambda>t. t \<noteq> None) tvls then Some (sum_present tvls)
                 else if list_ex (\<lambda>t. t \<noteq> None) tvls then Some (sum_present tvls) else None)\<rparr>))"

definition build_tvl_analytics ::
    "((string \<times> 'd pool_snapshot option) list \<Rightarrow> (string \<times> 'd pool_snapshot option) list) \<Rightarrow>
     ((string \<times> (string option \<times> 'd option list) option) list \<Rightarrow> (string \<times> (string option \<times> 'd option list) option) list) \<Rightarrow>
     ('d :: linordered_idom) pool_snapshot list \<Rightarrow> 'd tvl_analytics" where
  "build_tvl_analytics ord1 ord2 snaps =
     (let latest = List.map_filter snd (ord1 (latest_by_pool snaps));
          pools = sort_key ptvl_pool_address (map pool_summary latest);
          tvls = List.map_filter ptvl_tvl_usd pools
      in \<lparr>tvl_pools = pools,
          tvl_total_tvl = (if tvls = [] then None else Some (fold (\<lambda>v acc. acc + v) tvls 0)),
          tvl_protocols = sort_key prtvl_protocol_address
            (map protocol_summary (ord2 (tally ps_protocol_address None add_tvl latest [])))\<rparr>)"

section \<open>Ledger summaries\<close>

definition BALANCE_HISTORY_ID_OFFSET :: nat where
  "BALANCE_HISTORY_ID_OFFSET = 10000"

definition u32_max :: nat where
  "u32_max = 2 ^ 32 - 1"

definition balance_history_id_index :: "nat \<Rightarrow> u32" where
  "balance_history_id_index i = word_of_nat (min u32_max (min u32_max i + BALANCE_HISTORY_ID_OFFSET))"

fun running_history ::
    "(uuid \<Rightarrow> string \<Rightarrow> uuid) \<Rightarrow> (uuid \<Rightarrow> string) \<Rightarrow> timestamp \<Rightarrow> string \<Rightarrow> nat \<Rightarrow> ('d :: linordered_idom) \<Rightarrow>
     'd wallet_ledger_record list \<Rightarrow> 'd balance_snapshot list" where
  "running_history vh us now wallet i balance [] = []"
| "running_history vh us now wallet i balance (e # es) =
     \<lparr>bs_id = deterministic_id vh us (case wl_raw_transaction_id e of Some u \<Rightarrow> u | None \<Rightarrow> uuid_nil) (balance_history_id_index i),
      bs_wallet_address = wallet, bs_asset_symbol = wl_asset_symbol e, bs_network = wl_network e,
      bs_timestamp = wl_timestamp e, bs_balance = balance + wl_amount e, bs_tx_hash = wl_tx_hash e,
      bs_dataset_version_id = wl_dataset_version_id e, bs_created_at = now\<rparr>
     # running_history vh us now wallet (Suc i) (balance + wl_amount e) es"

definition derive_balance_history ::
    "(uuid \<Rightarrow> string \<Rightarrow> uuid) \<Rightarrow> (uuid \<Rightarrow> string) \<Rightarrow> timestamp \<Rightarrow>
     (((string \<times> string) \<times> 'd wallet_ledger_record list) list \<Rightarrow> ((string \<times> string) \<times> 'd wallet_ledger_record list) list) \<Rightarrow>
     string \<Rightarrow> ('d :: linordered_idom) wallet_ledger_record list \<Rightarrow> 'd balance_snapshot list" where
  "derive_balance_history vh us now ord wallet records =
     (let grouped = tally (\<lambda>r. (wl_asset_symbol r, wl_network r)) [] (\<lambda>r rs. rs @ [r]) records []
      in sort_key bs_timestamp (concat (map (\<lambda>(_, es). running_history vh us now wallet 0 0 (sort_key wl_timestamp es)) (ord grouped))))"

record 'd cp_agg =
  cpa_count :: nat
  cpa_inflow :: "'d"
  cpa_outflow :: "'d"
  cpa_networks :: "string list"

record net_agg =
  nga_count :: nat
  nga_assets :: "string list"
  nga_counterparties :: "string list"

record 'd type_agg =
  tya_count :: nat
  tya_total :: "'d"

definition add_counterparty :: "('d :: linordered_idom) wallet_ledger_record \<Rightarrow> 'd cp_agg \<Rightarrow> 'd cp_agg" where
  "add_counterparty r a =
     \<lparr>cpa_count = cpa_count a + 1,
      cpa_inflow = (if wl_amount r > 0 then cpa_inflow a + wl_amount r else cpa_inflow a),
      cpa_outflow = (if wl_amount r > 0 then cpa_outflow a else cpa_outflow a + \<bar>wl_amount r\<bar>),
      cpa_networks = List.insert (wl_network r) (cpa_networks a)\<rparr>"

definition add_network :: "'d wallet_ledger_record \<Rightarrow> net_agg \<Rightarrow> net_agg" where
  "add_network r a =
     \<lparr>nga_count = nga_count a + 1, nga_assets = List.insert (wl_asset_symbol r) (nga_assets a),
      nga_counterparties = (case wl_counterparty_address r of Some cp \<Rightarrow> List.insert cp (nga_counterparties a)
                            | None \<Rightarrow> nga_counterparties a)\<rparr>"

definition add_type :: "('d :: linordered_idom) wallet_ledger_record \<Rightarrow> 'd type_agg \<Rightarrow> 'd type_agg" where
  "add_type r a = \<lparr>tya_count = tya_count a + 1, tya_total = tya_total a + \<bar>wl_amount r\<bar>\<rparr>"

record 'd forensic_orders =
  fo_counterparties :: "(string \<times> 'd cp_agg) list \<Rightarrow> (string \<times> 'd cp_agg) list"
  fo_networks :: "(string \<times> net_agg) list \<Rightarrow> (string \<times> net_agg) list"
  fo_types :: "(string \<times> 'd type_agg) list \<Rightarrow> (string \<times> 'd type_agg) list"
  fo_strings :: "string list \<Rightarrow> string list"

definition counterparty_map :: "('d :: linordered_idom) wallet_ledger_record list \<Rightarrow> (string \<times> 'd cp_agg) list" where
  "counterparty_map records =
     tally (\<lambda>r. the (wl_counterparty_address r)) \<lparr>cpa_count = 0, cpa_inflow = 0, cpa_outflow = 0, cpa_networks = []\<rparr>
       add_counterparty (filter (\<lambda>r. wl_counterparty_address r \<noteq> None) records) []"

definition network_map :: "'d wallet_ledger_record list \<Rightarrow> (string \<times> net_agg) list" where
  "network_map records = tally wl_network \<lparr>nga_count = 0, nga_assets = [], nga_counterparties = []\<rparr> add_network records []"

definition type_map :: "('d :: linordered_idom) wallet_ledger_record list \<Rightarrow> (string \<times> 'd type_agg) list" where
  "type_map records = tally wl_entry_type \<lparr>tya_count = 0, tya_total = 0\<rparr> add_type records []"

text \<open>A stable sort by \<open>Reverse(interaction_count)\<close>, then \<open>truncate(20)\<close>.\<close>

definition build_forensics_activity ::
    "'d forensic_orders \<Rightarrow> string \<Rightarrow> ('d :: linordered_idom) wallet_ledger_record list \<Rightarrow> 'd forensics_activity" where
  "build_forensics_activity fo wallet records =
     \<lparr>fa_wallet_address = wallet,
      fa_top_counterparties = take 20 (sort_key (\<lambda>c. - int (cps_interaction_count c))
        (map (\<lambda>(addr, a). \<lparr>cps_address = addr, cps_interaction_count = cpa_count a, cps_total_inflow = cpa_inflow a,
            cps_total_outflow = cpa_outflow a, cps_networks = fo_strings fo (cpa_networks a)\<rparr>)
          (fo_counterparties fo (counterparty_map records)))),
      fa_network_activity = map (\<lambda>(net, a). \<lparr>na_network = net, na_entry_count = nga_count a,
          na_unique_assets = length (nga_assets a), na_unique_counterparties = length (nga_counterparties a)\<rparr>)
        (fo_networks fo (network_map records)),
      fa_type_breakdown = map (\<lambda>(et, a). \<lparr>tb_entry_type = et, tb_count = tya_count a, tb_total_amount = tya_total a\<rparr>)
        (fo_types fo (type_map records)),
      fa_total_entries = length records\<rparr>"

section \<open>Value adds up\<close>

lemma fold_keep_latest:
  "fold keep_latest ss (Some u) = Some t \<Longrightarrow>
     t \<in> insert u (set ss) \<and> (\<forall>w \<in> insert u (set ss). ps_snapshot_timestamp w \<le> ps_snapshot_timestamp t)"
proof (induction ss arbitrary: u)
  case (Cons s ss)
  let ?v = "if ps_snapshot_timestamp s > ps_snapshot_timestamp u then s else u"
  have "fold keep_latest ss (Some ?v) = Some t" using Cons.prems by (simp add: keep_latest_def [of s] split: if_splits)
  note IH = Cons.IH [OF this]
  have "ps_snapshot_timestamp s \<le> ps_snapshot_timestamp ?v" "ps_snapshot_timestamp u \<le> ps_snapshot_timestamp ?v" by auto
  moreover have "ps_snapshot_timestamp ?v \<le> ps_snapshot_timestamp t" "t \<in> insert ?v (set ss)" using IH by blast+
  ultimately show ?case using IH by (auto split: if_splits)
qed simp

lemma fold_keep_latest_Some: "fold keep_latest ss (Some u) \<noteq> None"
  by (induction ss arbitrary: u) (auto simp: keep_latest_def)

lemma latest_entry:
  assumes "(k, v) \<in> set (latest_by_pool snaps)"
  shows "\<exists>s. v = Some s \<and> s \<in> set snaps \<and> ps_pool_address s = k
    \<and> (\<forall>u \<in> set snaps. ps_pool_address u = k \<longrightarrow> ps_snapshot_timestamp u \<le> ps_snapshot_timestamp s)"
proof -
  have kv: "k \<in> ps_pool_address ` set snaps" "v = fold keep_latest (filter (\<lambda>x. ps_pool_address x = k) snaps) None"
    using assms by (simp_all add: latest_by_pool_def tally_entry_iff)
  then obtain y ys where ys: "filter (\<lambda>x. ps_pool_address x = k) snaps = y # ys"
    by (cases "filter (\<lambda>x. ps_pool_address x = k) snaps") (auto simp: filter_empty_conv)
  have "v \<noteq> None" using kv(2) ys fold_keep_latest_Some [of ys y] by (simp add: keep_latest_def)
  then obtain s where s: "v = Some s" by blast
  then have "s \<in> set (y # ys)" "\<forall>u \<in> set (y # ys). ps_snapshot_timestamp u \<le> ps_snapshot_timestamp s"
    using fold_keep_latest [of ys y s] kv(2) ys by (auto simp: keep_latest_def)
  then show ?thesis using s unfolding ys [symmetric] by auto
qed

definition tvl_or_zero :: "('d :: linordered_idom) option \<Rightarrow> 'd" where
  "tvl_or_zero t = (case t of Some v \<Rightarrow> v | None \<Rightarrow> 0)"

lemma fold_add_sum: "fold (\<lambda>v acc. acc + v) xs a = a + sum_list (xs :: 'd :: linordered_idom list)"
  by (induction xs arbitrary: a) (simp_all add: algebra_simps)

lemma sum_present_eq: "sum_present ts = (\<Sum>t \<leftarrow> ts. tvl_or_zero t)"
  by (induction ts) (auto simp: sum_present_def fold_add_sum tvl_or_zero_def List.map_filter_simps split: option.splits)

lemma sum_present_pools: "fold (\<lambda>v acc. acc + v) (List.map_filter g ps) 0 = (\<Sum>p \<leftarrow> ps. tvl_or_zero (g p))"
  by (induction ps) (auto simp: fold_add_sum tvl_or_zero_def List.map_filter_simps split: option.splits)

lemma present_or_zero: "list_ex (\<lambda>t. t \<noteq> None) ts \<or> (\<Sum>t \<leftarrow> ts. tvl_or_zero t) = 0"
  by (induction ts) (auto simp: tvl_or_zero_def)

lemma add_tvl_fold:
  "s # ss = xs \<Longrightarrow> \<exists>name. fold add_tvl xs None = Some (name, map ps_tvl_usd xs)"
proof -
  have "fold add_tvl ys (Some (name, ts)) = Some (name, ts @ map ps_tvl_usd ys)" for ys :: "'a pool_snapshot list" and name ts
    by (induction ys arbitrary: ts) (simp_all add: add_tvl_def)
  then show "s # ss = xs \<Longrightarrow> ?thesis" by (auto simp: add_tvl_def)
qed

lemma protocol_total:
  fixes latest :: "('d :: linordered_idom) pool_snapshot list"
  assumes "(addr, agg) \<in> set (tally ps_protocol_address None add_tvl latest [])"
  shows "tvl_or_zero (prtvl_total_tvl (protocol_summary (addr, agg))) =
    (\<Sum>s \<leftarrow> filter (\<lambda>s. ps_protocol_address s = addr) latest. tvl_or_zero (ps_tvl_usd s))"
proof -
  let ?mine = "filter (\<lambda>s. ps_protocol_address s = addr) latest"
  have agg: "agg = fold add_tvl ?mine None" "addr \<in> ps_protocol_address ` set latest"
    using assms by (simp_all add: tally_entry_iff)
  then obtain y ys where "y # ys = ?mine" by (cases ?mine) (auto simp: filter_empty_conv)
  then obtain name where "agg = Some (name, map ps_tvl_usd ?mine)" using add_tvl_fold agg(1) by metis
  then show ?thesis
    using present_or_zero [of "map ps_tvl_usd ?mine"]
    by (auto simp: protocol_summary_def sum_present_eq tvl_or_zero_def comp_def)
qed

lemma sum_option_total: "tvl_or_zero (if List.map_filter g ps = [] then None else Some (fold (\<lambda>v acc. acc + v) (List.map_filter g ps) 0)) =
    (\<Sum>p \<leftarrow> ps. tvl_or_zero (g p))"
proof (cases "List.map_filter g ps = []")
  case True
  then have "(\<Sum>p \<leftarrow> ps. tvl_or_zero (g p)) = 0" using sum_present_pools [of g ps] by simp
  then show ?thesis using True by (simp add: tvl_or_zero_def [of None])
qed (simp add: sum_present_pools tvl_or_zero_def)

lemma latest_list:
  fixes snaps :: "('d :: linordered_idom) pool_snapshot list"
  assumes "mset (ord1 (latest_by_pool snaps)) = mset (latest_by_pool snaps)"
    and "latest = List.map_filter snd (ord1 (latest_by_pool snaps))"
  shows "distinct (map ps_pool_address latest)" "set (map ps_pool_address latest) = ps_pool_address ` set snaps"
    and "s \<in> set latest \<Longrightarrow> s \<in> set snaps
      \<and> (\<forall>u \<in> set snaps. ps_pool_address u = ps_pool_address s \<longrightarrow> ps_snapshot_timestamp u \<le> ps_snapshot_timestamp s)"
proof -
  let ?L = "ord1 (latest_by_pool snaps)"
  have set_eq: "set ?L = set (latest_by_pool snaps)" using assms(1) by (metis set_mset_mset)
  have entry: "\<exists>s. e = (ps_pool_address s, Some s) \<and> s \<in> set snaps
      \<and> (\<forall>u \<in> set snaps. ps_pool_address u = ps_pool_address s \<longrightarrow> ps_snapshot_timestamp u \<le> ps_snapshot_timestamp s)"
    if e: "e \<in> set ?L" for e
    using latest_entry [of "fst e" "snd e" snaps] e set_eq by (cases e) auto
  have keys: "map ps_pool_address (List.map_filter snd es) = map fst es"
    if es: "set es \<subseteq> set ?L" for es
    using es
  proof (induction es)
    case (Cons e es)
    then show ?case using entry [of e] by (auto simp: List.map_filter_simps)
  qed (simp add: List.map_filter_simps)
  have addr: "map ps_pool_address latest = map fst ?L" unfolding assms(2) by (rule keys) simp
  have "mset (map fst ?L) = mset (map fst (latest_by_pool snaps))" using assms(1) by (metis mset_map)
  then show "distinct (map ps_pool_address latest)" "set (map ps_pool_address latest) = ps_pool_address ` set snaps"
    unfolding addr using distinct_tally [of "[]" ps_pool_address None keep_latest snaps] keys_tally [of ps_pool_address None keep_latest snaps "[]"]
    by (metis distinct.simps(1) latest_by_pool_def list.simps(8) mset_eq_imp_distinct_iff,
        metis image_empty latest_by_pool_def list.set(1) list.set_map set_mset_mset sup_bot_left)
  show "s \<in> set latest \<Longrightarrow> s \<in> set snaps
      \<and> (\<forall>u \<in> set snaps. ps_pool_address u = ps_pool_address s \<longrightarrow> ps_snapshot_timestamp u \<le> ps_snapshot_timestamp s)"
    unfolding assms(2) using entry by (force simp: List.map_filter_def)
qed

text \<open>
  Value locked adds up. Whatever the iteration orders of the hash maps, the report has exactly one
  entry per pool address, ordered by address, taken from a snapshot of that pool with the latest time;
  the total is the sum of the known values of these entries, and so is the sum over the protocols.
\<close>

theorem tvl_adds_up:
  fixes snaps :: "('d :: linordered_idom) pool_snapshot list"
  assumes "\<forall>m. mset (ord1 m) = mset m" "\<forall>m. mset (ord2 m) = mset m" "a = build_tvl_analytics ord1 ord2 snaps"
  shows "sorted (map ptvl_pool_address (tvl_pools a)) \<and> distinct (map ptvl_pool_address (tvl_pools a))
    \<and> set (map ptvl_pool_address (tvl_pools a)) = ps_pool_address ` set snaps
    \<and> (\<forall>p \<in> set (tvl_pools a). \<exists>s \<in> set snaps. p = pool_summary s
         \<and> (\<forall>u \<in> set snaps. ps_pool_address u = ps_pool_address s \<longrightarrow> ps_snapshot_timestamp u \<le> ps_snapshot_timestamp s))
    \<and> tvl_or_zero (tvl_total_tvl a) = (\<Sum>p \<leftarrow> tvl_pools a. tvl_or_zero (ptvl_tvl_usd p))
    \<and> tvl_or_zero (tvl_total_tvl a) = (\<Sum>p \<leftarrow> tvl_protocols a. tvl_or_zero (prtvl_total_tvl p))"
proof -
  define latest where latest: "latest = List.map_filter snd (ord1 (latest_by_pool snaps))"
  define T where T: "T = tally ps_protocol_address None add_tvl latest []"
  have perm: "mset (ord1 (latest_by_pool snaps)) = mset (latest_by_pool snaps)" using assms(1) by blast
  note L = latest_list [of ord1, OF perm latest]
  have pools: "tvl_pools a = sort_key ptvl_pool_address (map pool_summary latest)"
    and protocols: "tvl_protocols a = sort_key prtvl_protocol_address (map protocol_summary (ord2 T))"
    and tot: "tvl_total_tvl a = (if List.map_filter ptvl_tvl_usd (tvl_pools a) = [] then None
      else Some (fold (\<lambda>v acc. acc + v) (List.map_filter ptvl_tvl_usd (tvl_pools a)) 0))"
    by (simp_all add: assms(3) build_tvl_analytics_def Let_def latest T)
  have addr: "map ptvl_pool_address (map pool_summary latest) = map ps_pool_address latest" by (simp add: pool_summary_def)
  have "mset (map ptvl_pool_address (tvl_pools a)) = mset (map ps_pool_address latest)"
    unfolding addr [symmetric] pools by (metis mset_map mset_sort)
  then have one: "distinct (map ptvl_pool_address (tvl_pools a))" "set (map ptvl_pool_address (tvl_pools a)) = ps_pool_address ` set snaps"
    using L(1,2) by (metis mset_eq_imp_distinct_iff, metis set_mset_mset)
  have sorted: "sorted (map ptvl_pool_address (tvl_pools a))" by (simp add: pools)
  have src: "\<forall>p \<in> set (tvl_pools a). \<exists>s \<in> set snaps. p = pool_summary s
      \<and> (\<forall>u \<in> set snaps. ps_pool_address u = ps_pool_address s \<longrightarrow> ps_snapshot_timestamp u \<le> ps_snapshot_timestamp s)"
    using L(3) by (auto simp: pools)
  have total: "tvl_or_zero (tvl_total_tvl a) = (\<Sum>p \<leftarrow> tvl_pools a. tvl_or_zero (ptvl_tvl_usd p))"
    unfolding tot by (rule sum_option_total)
  also have "\<dots> = (\<Sum>s \<leftarrow> latest. tvl_or_zero (ps_tvl_usd s))"
    unfolding pools sum_list_sort_key by (simp add: pool_summary_def comp_def)
  finally have sum_latest: "tvl_or_zero (tvl_total_tvl a) = (\<Sum>s \<leftarrow> latest. tvl_or_zero (ps_tvl_usd s))" .
  have "(\<Sum>p \<leftarrow> tvl_protocols a. tvl_or_zero (prtvl_total_tvl p)) = (\<Sum>e \<leftarrow> ord2 T. tvl_or_zero (prtvl_total_tvl (protocol_summary e)))"
    unfolding protocols sum_list_sort_key by (simp add: comp_def)
  also have "\<dots> = (\<Sum>e \<leftarrow> T. tvl_or_zero (prtvl_total_tvl (protocol_summary e)))"
    using assms(2) by (intro sum_list_mset_eq) simp
  also have "\<dots> = (\<Sum>e \<leftarrow> T. \<Sum>s \<leftarrow> filter (\<lambda>s. ps_protocol_address s = fst e) latest. tvl_or_zero (ps_tvl_usd s))"
    using protocol_total by (intro arg_cong [where f = sum_list] map_cong refl) (auto simp: T)
  also have "\<dots> = (\<Sum>k \<leftarrow> map fst T. \<Sum>s \<leftarrow> filter (\<lambda>s. ps_protocol_address s = k) latest. tvl_or_zero (ps_tvl_usd s))"
    by (simp add: comp_def)
  also have "\<dots> = (\<Sum>s \<leftarrow> latest. tvl_or_zero (ps_tvl_usd s))"
    using distinct_tally [of "[]" ps_protocol_address None add_tvl latest] keys_tally [of ps_protocol_address None add_tvl latest "[]"]
    by (intro sum_partition) (simp_all add: T)
  finally show ?thesis using one sorted src total sum_latest by simp
qed

definition sample_pool :: "string \<Rightarrow> string \<Rightarrow> int \<Rightarrow> int \<Rightarrow> int pool_snapshot" where
  "sample_pool pool protocol ts tvl =
     \<lparr>ps_id = 0, ps_network = ''base'', ps_pool_address = pool, ps_protocol_address = protocol, ps_protocol_name = None,
      ps_token0_address = ''a'', ps_token0_symbol = None, ps_token1_address = ''b'', ps_token1_symbol = None,
      ps_reserve0 = 0, ps_reserve1 = 0, ps_tvl_usd = Some tvl, ps_snapshot_timestamp = ts, ps_block_number = None,
      ps_dataset_version_id = None, ps_created_at = 0\<rparr>"

theorem tvl_adds_up_witness:
  "tvl_or_zero (tvl_total_tvl (build_tvl_analytics rev id
      [sample_pool ''p1'' ''x'' 5 10, sample_pool ''p2'' ''x'' 5 20, sample_pool ''p1'' ''x'' 6 7])) =
   (\<Sum>p \<leftarrow> tvl_protocols (build_tvl_analytics rev id
      [sample_pool ''p1'' ''x'' 5 10, sample_pool ''p2'' ''x'' 5 20, sample_pool ''p1'' ''x'' 6 7]). tvl_or_zero (prtvl_total_tvl p))
   \<and> tvl_total_tvl (build_tvl_analytics rev id
      [sample_pool ''p1'' ''x'' 5 10, sample_pool ''p2'' ''x'' 5 20, sample_pool ''p1'' ''x'' 6 7]) = Some 27"
proof
  show "tvl_or_zero (tvl_total_tvl (build_tvl_analytics rev id
      [sample_pool ''p1'' ''x'' 5 10, sample_pool ''p2'' ''x'' 5 20, sample_pool ''p1'' ''x'' 6 7])) =
   (\<Sum>p \<leftarrow> tvl_protocols (build_tvl_analytics rev id
      [sample_pool ''p1'' ''x'' 5 10, sample_pool ''p2'' ''x'' 5 20, sample_pool ''p1'' ''x'' 6 7]). tvl_or_zero (prtvl_total_tvl p))"
    using tvl_adds_up [of rev id _ "[sample_pool ''p1'' ''x'' 5 10, sample_pool ''p2'' ''x'' 5 20, sample_pool ''p1'' ''x'' 6 7]", OF _ _ refl]
    by simp
qed code_simp

section \<open>Forensic totals\<close>

lemma fold_add_network: "nga_count (fold add_network rs a) = nga_count a + length rs"
  by (induction rs arbitrary: a) (simp_all add: add_network_def)

lemma fold_add_type:
  "tya_count (fold add_type rs a) = tya_count a + length rs"
  "tya_total (fold add_type rs a) = tya_total a + (\<Sum>r \<leftarrow> rs. \<bar>wl_amount r\<bar>)"
  by (induction rs arbitrary: a) (simp_all add: add_type_def algebra_simps)

lemma tally_sum:
  fixes g :: "'v \<Rightarrow> 'n :: comm_monoid_add"
  assumes "mset (ord (tally key d f xs [])) = mset (tally key d f xs [])"
    and "\<And>ys. g (fold f ys d) = (\<Sum>y \<leftarrow> ys. h y)"
  shows "(\<Sum>e \<leftarrow> ord (tally key d f xs []). g (snd e)) = (\<Sum>x \<leftarrow> xs. h x)"
proof -
  let ?T = "tally key d f xs []"
  have "(\<Sum>e \<leftarrow> ord ?T. g (snd e)) = (\<Sum>e \<leftarrow> ?T. g (snd e))" using assms(1) by (rule sum_list_mset_eq)
  also have "\<dots> = (\<Sum>e \<leftarrow> ?T. \<Sum>x \<leftarrow> filter (\<lambda>x. key x = fst e) xs. h x)"
    using assms(2) by (intro arg_cong [where f = sum_list] map_cong refl) (auto simp: tally_entry_iff)
  also have "\<dots> = (\<Sum>k \<leftarrow> map fst ?T. \<Sum>x \<leftarrow> filter (\<lambda>x. key x = k) xs. h x)" by (simp add: comp_def)
  also have "\<dots> = (\<Sum>x \<leftarrow> xs. h x)"
    using distinct_tally [of "[]" key d f xs] keys_tally [of key d f xs "[]"] by (intro sum_partition) simp_all
  finally show ?thesis .
qed

text \<open>
  The forensic summary accounts for every ledger entry: the counts by network and by type both add
  up to the number of entries, the amounts by type to the sum of the absolute amounts, whatever the
  orders of the hash maps, and at most twenty counterparties are listed, by falling number of contacts.
\<close>

theorem forensics_totals:
  fixes records :: "('d :: linordered_idom) wallet_ledger_record list"
  assumes "mset (fo_networks fo (network_map records)) = mset (network_map records)"
    and "mset (fo_types fo (type_map records)) = mset (type_map records)"
    and "a = build_forensics_activity fo wallet records"
  shows "(\<Sum>n \<leftarrow> fa_network_activity a. na_entry_count n) = fa_total_entries a
    \<and> (\<Sum>t \<leftarrow> fa_type_breakdown a. tb_count t) = fa_total_entries a
    \<and> (\<Sum>t \<leftarrow> fa_type_breakdown a. tb_total_amount t) = (\<Sum>r \<leftarrow> records. \<bar>wl_amount r\<bar>)
    \<and> length (fa_top_counterparties a) \<le> 20
    \<and> sorted (map (\<lambda>c. - int (cps_interaction_count c)) (fa_top_counterparties a))"
proof -
  have nets: "(\<Sum>e \<leftarrow> fo_networks fo (network_map records). nga_count (snd e)) = (\<Sum>r \<leftarrow> records. 1)"
    using assms(1) unfolding network_map_def by (rule tally_sum) (simp add: fold_add_network sum_list_triv)
  have types: "(\<Sum>e \<leftarrow> fo_types fo (type_map records). tya_count (snd e)) = (\<Sum>r \<leftarrow> records. 1)"
    "(\<Sum>e \<leftarrow> fo_types fo (type_map records). tya_total (snd e)) = (\<Sum>r \<leftarrow> records. \<bar>wl_amount r\<bar>)"
    using assms(2) unfolding type_map_def by (rule tally_sum, simp add: fold_add_type sum_list_triv)+
  show ?thesis
    using nets types by (simp add: assms(3) build_forensics_activity_def comp_def case_prod_unfold sum_list_triv take_map [symmetric] sorted_wrt_take)
qed

definition sample_orders :: "int forensic_orders" where
  "sample_orders = \<lparr>fo_counterparties = id, fo_networks = rev, fo_types = rev, fo_strings = id\<rparr>"

definition sample_entry :: "string \<Rightarrow> int \<Rightarrow> int wallet_ledger_record" where
  "sample_entry et x =
     \<lparr>wl_id = 0, wl_raw_transaction_id = None, wl_wallet_address = ''w'', wl_network = ''base'', wl_tx_hash = ''h'',
      wl_timestamp = 0, wl_entry_type = et, wl_asset_symbol = ''ETH'', wl_amount = x, wl_counterparty_address = Some ''c'',
      wl_fee_amount = None, wl_fee_asset = None, wl_cost_basis = None, wl_proceeds = None, wl_dataset_version_id = None,
      wl_created_at = 0\<rparr>"

theorem forensics_totals_witness:
  "(\<Sum>t \<leftarrow> fa_type_breakdown (build_forensics_activity sample_orders ''w'' [sample_entry ''transfer'' 5, sample_entry ''fee'' (- 2)]).
      tb_total_amount t) = 7"
  using forensics_totals [of sample_orders "[sample_entry ''transfer'' 5, sample_entry ''fee'' (- 2)]", OF _ _ refl, of "''w''"]
  by (simp add: sample_orders_def sample_entry_def)

end
