(* ===== verification/Dataset_Api.thy ===== *)
theory Dataset_Api
  imports Dataset_Queries Protocol_Analytics
begin

text \<open>
  The dataset endpoints of the API (\<open>api/src/main.rs\<close>): the record queries, the catalogue, the status,
  the tax report and the analytics, each with its tenant check. \<open>down\<close> says that the database cannot
  be reached; a database error is answered with 500.
\<close>

section \<open>Guards\<close>

definition repo_call :: "bool \<Rightarrow> 'a result \<Rightarrow> app_error + 'a" where
  "repo_call down r = (if down then Inl err_internal else map_sum (\<lambda>_. err_internal) id r)"

definition guard :: "app_error + unit \<Rightarrow> (app_error + 'a) \<Rightarrow> app_error + 'a" where
  "guard g r = (case g of Inl e \<Rightarrow> Inl e | Inr _ \<Rightarrow> r)"

definition validate_dataset_name :: "string \<Rightarrow> app_error + unit" where
  "validate_dataset_name name =
     (if name = [] \<or> length name > 64 then Inl (err_bad_request ''Invalid dataset name length'')
      else if \<not> list_all (\<lambda>c. is_ascii_alphanumeric c \<or> c = CHR ''_'') name
      then Inl (err_bad_request ''Dataset name contains invalid characters'')
      else Inr ())"

text \<open>A tenant must name a target, and it must be its own. \<open>msg\<close> is the message without a target.\<close>

definition tenant_target :: "bool \<Rightarrow> targets \<Rightarrow> string \<Rightarrow> authenticated_owner \<Rightarrow> uuid option \<Rightarrow> app_error + unit" where
  "tenant_target down ts msg owner target =
     (case owner of
        None \<Rightarrow> Inr ()
      | Some _ \<Rightarrow> (case target of None \<Rightarrow> Inl (err_bad_request msg) | Some i \<Rightarrow> check_target_owner down ts i owner))"

definition ANALYTICS_TARGET :: string where
  "ANALYTICS_TARGET = ''target_id is required for tenant-scoped analytics''"

section \<open>Records\<close>

definition QUERYABLE_DATASETS :: "string list" where
  "QUERYABLE_DATASETS =
     [''raw_transactions'', ''token_transfers'', ''native_balance_deltas'', ''decoded_events'', ''hl_fills'', ''hl_funding'',
      ''positions'', ''wallet_ledger'', ''balance_history'', ''hl_pnl_summary'', ''hl_trade_history'', ''protocol_events'',
      ''pool_snapshots'']"

fun join_comma :: "string list \<Rightarrow> string" where
  "join_comma [] = []"
| "join_comma [s] = s"
| "join_comma (s # t # ss) = s @ '', '' @ join_comma (t # ss)"

text \<open>The dispatch on the name; the response is the JSON of the records of the batch.\<close>

definition dataset_records :: "string \<Rightarrow> filters \<Rightarrow> int \<Rightarrow> int \<Rightarrow> 'd dataset_db \<Rightarrow> 'd export_record_batch result" where
  "dataset_records name f lim off db =
     (if name = ''raw_transactions'' then map_sum id B_RawTransactions (query_raw_transactions f lim off db)
      else if name = ''token_transfers'' then map_sum id B_TokenTransfers (query_token_transfers f lim off db)
      else if name = ''native_balance_deltas'' then map_sum id B_NativeBalanceDeltas (query_native_balance_deltas f lim off db)
      else if name = ''decoded_events'' then map_sum id B_DecodedEvents (query_decoded_events f lim off db)
      else if name = ''hl_fills'' then map_sum id B_HlFills (query_hl_fill_records f lim off db)
      else if name = ''hl_funding'' then map_sum id B_HlFunding (query_hl_funding_payments f lim off db)
      else if name = ''positions'' then map_sum id B_Positions (query_hl_position_changes f lim off db)
      else if name = ''wallet_ledger'' then map_sum id B_WalletLedger (query_wallet_ledger_records f lim off db)
      else if name = ''balance_history'' then map_sum id B_BalanceHistory (query_balance_snapshots f lim off db)
      else if name = ''hl_pnl_summary'' then map_sum id B_HlPnlSummary (query_hl_pnl_summary f lim off db)
      else if name = ''hl_trade_history'' then map_sum id B_HlTradeHistory (query_hl_trade_history f lim off db)
      else if name = ''protocol_events'' then map_sum id B_ProtocolEvents (query_protocol_events f lim off db)
      else map_sum id B_PoolSnapshots (query_pool_snapshots f lim off db))"

text \<open>The filters with the network of the target.\<close>

definition scope_to_target :: "bool \<Rightarrow> targets \<Rightarrow> filters \<Rightarrow> app_error + filters" where
  "scope_to_target down ts f =
     (case f_target f of
        None \<Rightarrow> Inr f
      | Some i \<Rightarrow>
          if down then Inl err_internal
          else case get_index_target i ts of
              None \<Rightarrow> Inl (err_not_found ''Target not found'')
            | Some t \<Rightarrow>
                if \<not> on_network f (it_network t) then Inl (err_bad_request ''network does not match target'')
                else Inr (f\<lparr>f_network := Some (it_network t)\<rparr>))"

definition query_dataset_records ::
    "bool \<Rightarrow> authenticated_owner \<Rightarrow> string \<Rightarrow> filters \<Rightarrow> int option \<Rightarrow> int option \<Rightarrow> 'd dataset_db \<Rightarrow>
     app_error + 'd export_record_batch" where
  "query_dataset_records down owner name f limit offset db =
     guard (tenant_target down (db_targets db) ''target_id is required for tenant-scoped dataset queries'' owner (f_target f))
    (guard (validate_dataset_name name)
      (if \<not> is_queryable name
       then Inl (err_bad_request (''Dataset '' @ quoted name @ '' is not queryable via this endpoint. Queryable datasets: ''
              @ join_comma QUERYABLE_DATASETS))
       else guard (validate_date_range (f_start f) (f_end f))
         (case scope_to_target down (db_targets db) f of
            Inl e \<Rightarrow> Inl e
          | Inr g \<Rightarrow> repo_call down (dataset_records name g (clamp_limit limit) (clamp_offset offset) db))))"

section \<open>Catalogue and status\<close>

record dataset_info =
  di_name :: string
  di_tier :: string
  di_queryable :: bool
  di_chain_families :: "chain_family list"
  di_latest_version :: "int option"
  di_latest_version_status :: "string option"

definition tier_to_str :: "dataset_tier \<Rightarrow> string" where
  "tier_to_str t = (case t of Tier_Bronze \<Rightarrow> ''bronze'' | Tier_Silver \<Rightarrow> ''silver'' | Tier_Gold \<Rightarrow> ''gold'')"

definition list_all_datasets :: "bool \<Rightarrow> dataset_version list \<Rightarrow> app_error + dataset_info list" where
  "list_all_datasets down dvs =
     (if down then Inl err_internal
      else Inr (map (\<lambda>ds. let name = as_sql_str ds; latest = get_latest_dataset_version name dvs
        in \<lparr>di_name = name, di_tier = tier_to_str (tier ds), di_queryable = is_queryable name,
            di_chain_families = chain_families ds, di_latest_version = map_option dv_version latest,
            di_latest_version_status = map_option (dataset_version_status_to_sql \<circ> dv_status) latest\<rparr>) all_datasets))"

definition list_dataset_versions_handler :: "bool \<Rightarrow> string \<Rightarrow> dataset_version list \<Rightarrow> app_error + dataset_version list" where
  "list_dataset_versions_handler down name dvs =
     guard (validate_dataset_name name) (repo_call down (Inr (list_dataset_versions name dvs)))"

definition owner_completeness ::
    "authenticated_owner \<Rightarrow> string \<Rightarrow> targets \<Rightarrow> dataset_completeness list \<Rightarrow> dataset_completeness list" where
  "owner_completeness owner name ts dcs =
     (case owner of
        Some u \<Rightarrow> list_completeness_by_dataset_and_owner name u ts dcs
      | None \<Rightarrow> list_completeness_by_dataset name dcs)"

definition get_dataset_completeness_handler ::
    "bool \<Rightarrow> authenticated_owner \<Rightarrow> string \<Rightarrow> targets \<Rightarrow> dataset_completeness list \<Rightarrow> app_error + dataset_completeness list" where
  "get_dataset_completeness_handler down owner name ts dcs =
     guard (validate_dataset_name name) (repo_call down (Inr (owner_completeness owner name ts dcs)))"

record dataset_version_info =
  vi_id :: uuid
  vi_version :: int
  vi_status :: string
  vi_parser_hash :: "string option"
  vi_created_at :: string
  vi_notes :: "string option"

record dataset_completeness_info =
  ci_target_id :: uuid
  ci_network :: string
  ci_status :: string
  ci_coverage_start :: "int option"
  ci_coverage_end :: "int option"
  ci_records_count :: int
  ci_last_ingestion_run_id :: "uuid option"

record dataset_status =
  st_name :: string
  st_active_version :: "dataset_version_info option"
  st_versions :: "dataset_version_info list"
  st_completeness :: "dataset_completeness_info list"

text \<open>\<open>rfc3339\<close> prints a time.\<close>

definition get_dataset_status_handler ::
    "(timestamp \<Rightarrow> string) \<Rightarrow> bool \<Rightarrow> authenticated_owner \<Rightarrow> string \<Rightarrow> targets \<Rightarrow> dataset_version list \<Rightarrow>
     dataset_completeness list \<Rightarrow> app_error + dataset_status" where
  "get_dataset_status_handler rfc3339 down owner name ts dvs dcs =
     guard (validate_dataset_name name)
       (if down then Inl err_internal
        else let infos = map (\<lambda>v. \<lparr>vi_id = dv_id v, vi_version = dv_version v, vi_status = dataset_version_status_to_sql (dv_status v),
                   vi_parser_hash = dv_parser_hash v, vi_created_at = rfc3339 (dv_created_at v), vi_notes = dv_notes v\<rparr>)
                   (list_dataset_versions name dvs)
             in Inr \<lparr>st_name = name, st_active_version = find (\<lambda>v. vi_status v = ''active'') infos, st_versions = infos,
                  st_completeness = map (\<lambda>c. \<lparr>ci_target_id = dc_target_id c, ci_network = dc_network c,
                      ci_status = completeness_status_to_sql (dc_status c), ci_coverage_start = dc_coverage_start c,
                      ci_coverage_end = dc_coverage_end c, ci_records_count = dc_records_count c,
                      ci_last_ingestion_run_id = dc_last_ingestion_run_id c\<rparr>) (owner_completeness owner name ts dcs)\<rparr>)"

section \<open>Reports\<close>

definition wallet_ledger_to_tax_csv :: "'d printers \<Rightarrow> ('d :: linordered_idom) wallet_ledger_record list \<Rightarrow> string" where
  "wallet_ledger_to_tax_csv pr records =
     wallet_ledger_tax_csv_header @ concat (map (\<lambda>r. csv_line (wallet_ledger_tax_csv_row pr r)) records)"

definition tax_export ::
    "'d printers \<Rightarrow> bool \<Rightarrow> authenticated_owner \<Rightarrow> filters \<Rightarrow> ('d :: linordered_idom) dataset_db \<Rightarrow> app_error + string" where
  "tax_export pr down owner f db =
     guard (case owner of
              None \<Rightarrow> Inr ()
            | Some u \<Rightarrow>
                (case f_target f of
                   None \<Rightarrow> Inl (err_bad_request ''target_id is required for tenant-scoped requests'')
                 | Some i \<Rightarrow>
                     if down then Inl err_internal
                     else case get_index_target i (db_targets db) of
                         None \<Rightarrow> Inl (err_not_found ''Target not found'')
                       | Some t \<Rightarrow> if it_owner_id t \<noteq> Some u then Inl (err_forbidden ''Target does not belong to this owner'')
                                    else Inr ()))
    (guard (validate_date_range (f_start f) (f_end f))
      (map_sum id (wallet_ledger_to_tax_csv pr) (repo_call down (export_wallet_ledger_records f db))))"

definition forensics_activity_handler ::
    "'d forensic_orders \<Rightarrow> bool \<Rightarrow> authenticated_owner \<Rightarrow> filters \<Rightarrow> ('d :: linordered_idom) dataset_db \<Rightarrow>
     app_error + 'd forensics_activity" where
  "forensics_activity_handler fo down owner f db =
     guard (tenant_target down (db_targets db) ANALYTICS_TARGET owner (f_target f))
    (guard (validate_date_range (f_start f) (f_end f))
      (map_sum id (\<lambda>records. case records of
           [] \<Rightarrow> \<lparr>fa_wallet_address = [], fa_top_counterparties = [], fa_network_activity = [], fa_type_breakdown = [], fa_total_entries = 0\<rparr>
         | r # _ \<Rightarrow> build_forensics_activity fo (wl_wallet_address r) records)
        (repo_call down (export_wallet_ledger_records f db))))"

definition first_wallet :: "'d hl_pnl_summary list \<Rightarrow> 'd hl_trade_history list \<Rightarrow> string" where
  "first_wallet summaries trades =
     (case summaries of s # _ \<Rightarrow> pnl_wallet_address s
      | [] \<Rightarrow> (case trades of t # _ \<Rightarrow> trade_wallet_address t | [] \<Rightarrow> []))"

definition hl_records ::
    "bool \<Rightarrow> authenticated_owner \<Rightarrow> filters \<Rightarrow> 'd dataset_db \<Rightarrow> app_error + 'd hl_pnl_summary list \<times> 'd hl_trade_history list" where
  "hl_records down owner f db =
     guard (tenant_target down (db_targets db) ANALYTICS_TARGET owner (f_target f))
    (guard (validate_date_range (f_start f) (f_end f))
      (case repo_call down (export_hl_pnl_summary f db) of
         Inl e \<Rightarrow> Inl e
       | Inr summaries \<Rightarrow> map_sum id (Pair summaries) (repo_call down (export_hl_trade_history f db))))"

definition hl_trader_analytics_handler ::
    "((string \<times> 'd \<times> 'd \<times> int \<times> int \<times> int) list \<Rightarrow> (string \<times> 'd \<times> 'd \<times> int \<times> int \<times> int) list) \<Rightarrow> (int \<Rightarrow> int \<Rightarrow> 'f) \<Rightarrow> 'f \<Rightarrow>
     bool \<Rightarrow> authenticated_owner \<Rightarrow> filters \<Rightarrow> ('d :: linordered_idom) dataset_db \<Rightarrow> app_error + ('d, 'f) trader_analytics" where
  "hl_trader_analytics_handler ord fdiv fzero down owner f db =
     map_sum id (\<lambda>(summaries, trades). build_trader_analytics ord fdiv fzero (first_wallet summaries trades) summaries trades)
       (hl_records down owner f db)"

definition hl_market_analytics_handler ::
    "((string \<times> 'd market_agg) list \<Rightarrow> (string \<times> 'd market_agg) list) \<Rightarrow> ('d \<Rightarrow> 'd \<Rightarrow> 'd) \<Rightarrow>
     bool \<Rightarrow> authenticated_owner \<Rightarrow> filters \<Rightarrow> ('d :: linordered_idom) dataset_db \<Rightarrow> app_error + 'd market_analytics" where
  "hl_market_analytics_handler ord quo down owner f db =
     map_sum id (\<lambda>(summaries, trades). build_market_analytics ord quo summaries trades) (hl_records down owner f db)"

definition protocol_activity_handler ::
    "bool \<Rightarrow> authenticated_owner \<Rightarrow> filters \<Rightarrow> string option \<Rightarrow> 'd dataset_db \<Rightarrow> app_error + protocol_activity" where
  "protocol_activity_handler down owner f protocol_address db =
     guard (tenant_target down (db_targets db) ANALYTICS_TARGET owner (f_target f))
    (guard (validate_date_range (f_start f) (f_end f))
      (map_sum id (\<lambda>events. build_protocol_activity
           (case protocol_address of Some a \<Rightarrow> a | None \<Rightarrow> (case events of e # _ \<Rightarrow> pe_protocol_address e | [] \<Rightarrow> [])) events)
        (repo_call down (export_protocol_events f db))))"

definition protocol_tvl_handler ::
    "((string \<times> 'd pool_snapshot option) list \<Rightarrow> (string \<times> 'd pool_snapshot option) list) \<Rightarrow>
     ((string \<times> (string option \<times> 'd option list) option) list \<Rightarrow> (string \<times> (string option \<times> 'd option list) option) list) \<Rightarrow>
     bool \<Rightarrow> authenticated_owner \<Rightarrow> filters \<Rightarrow> ('d :: linordered_idom) dataset_db \<Rightarrow> app_error + 'd tvl_analytics" where
  "protocol_tvl_handler ord1 ord2 down owner f db =
     guard (tenant_target down (db_targets db) ANALYTICS_TARGET owner (f_target f))
    (guard (validate_date_range (f_start f) (f_end f))
      (map_sum id (build_tvl_analytics ord1 ord2) (repo_call down (export_pool_snapshots f db))))"

section \<open>Tenant isolation\<close>

text \<open>The records of a batch belong to the target: by a match, or by address and network.\<close>

definition matched :: "'d dataset_db \<Rightarrow> index_target \<Rightarrow> uuid option \<Rightarrow> bool" where
  "matched db t raw \<longleftrightarrow> list_ex (\<lambda>m. raw = Some (tm_raw_transaction_id m) \<and> tm_target_id m = it_id t) (db_matches db)"

fun batch_of_target :: "'d dataset_db \<Rightarrow> index_target \<Rightarrow> 'd export_record_batch \<Rightarrow> bool" where
  "batch_of_target db t (B_RawTransactions v) = list_all (\<lambda>r. matched db t (Some (raw_id r)) \<and> raw_network r = it_network t) v"
| "batch_of_target db t (B_TokenTransfers v) = list_all (\<lambda>r. matched db t (tt_raw_transaction_id r) \<and> tt_network r = it_network t) v"
| "batch_of_target db t (B_NativeBalanceDeltas v) = list_all (\<lambda>r. matched db t (nbd_raw_transaction_id r) \<and> nbd_network r = it_network t) v"
| "batch_of_target db t (B_DecodedEvents v) = list_all (\<lambda>r. matched db t (de_raw_transaction_id r) \<and> de_network r = it_network t) v"
| "batch_of_target db t (B_HlFills v) = list_all (\<lambda>r. matched db t (fill_raw_transaction_id r) \<and> fill_network r = it_network t) v"
| "batch_of_target db t (B_HlFunding v) = list_all (\<lambda>r. matched db t (fund_raw_transaction_id r) \<and> fund_network r = it_network t) v"
| "batch_of_target db t (B_Positions v) = list_all (\<lambda>r. matched db t (pos_raw_transaction_id r) \<and> pos_network r = it_network t) v"
| "batch_of_target db t (B_WalletLedger v) = list_all (\<lambda>r. matched db t (wl_raw_transaction_id r) \<and> wl_network r = it_network t) v"
| "batch_of_target db t (B_BalanceHistory v) = list_all (\<lambda>r. Some (bs_wallet_address r) = it_address t \<and> bs_network r = it_network t) v"
| "batch_of_target db t (B_HlPnlSummary v) = list_all (\<lambda>r. Some (pnl_wallet_address r) = it_address t \<and> pnl_network r = it_network t) v"
| "batch_of_target db t (B_HlTradeHistory v) = list_all (\<lambda>r. Some (trade_wallet_address r) = it_address t \<and> trade_network r = it_network t) v"
| "batch_of_target db t (B_ProtocolEvents v) =
     list_all (\<lambda>r. it_address t \<in> {Some (pe_protocol_address r), pe_pool_address r} \<and> pe_network r = it_network t) v"
| "batch_of_target db t (B_PoolSnapshots v) = list_all (\<lambda>r. Some (ps_pool_address r) = it_address t \<and> ps_network r = it_network t) v"

lemma guard_Inr: "guard g r = Inr x \<longleftrightarrow> g = Inr () \<and> r = Inr x"
  by (auto simp: guard_def split: sum.splits)

lemma repo_call_Inr: "repo_call down r = Inr x \<longleftrightarrow> \<not> down \<and> r = Inr x"
  by (cases r) (simp_all add: repo_call_def)

lemma if_resultE: "(if c then r else r') = x \<Longrightarrow> (r = x \<Longrightarrow> Q) \<Longrightarrow> (r' = x \<Longrightarrow> Q) \<Longrightarrow> Q"
  by (cases c) simp_all

lemma get_index_target_mem: "get_index_target i ts = Some t \<Longrightarrow> t \<in> set ts \<and> it_id t = i"
  by (auto simp: get_index_target_def find_Some_iff)

lemma tenant_target_owned:
  "tenant_target down ts msg (Some u) target = Inr () \<Longrightarrow>
     \<exists>t. target = Some (it_id t) \<and> get_index_target (it_id t) ts = Some t \<and> t \<in> set ts \<and> it_owner_id t = Some u"
  by (auto simp: tenant_target_def check_target_owner_def split: option.splits if_splits dest: get_index_target_mem)

lemma target_address_eq: "target_address t = Some a \<Longrightarrow> it_address t = Some a"
  by (auto simp: target_address_def split: option.splits if_splits)

definition scoped :: "'d dataset_db \<Rightarrow> index_target \<Rightarrow> filters \<Rightarrow> bool" where
  "scoped db t g \<longleftrightarrow> get_index_target (it_id t) (db_targets db) = Some t
     \<and> f_target g = Some (it_id t) \<and> f_network g = Some (it_network t)"

lemma scopedD:
  assumes "scoped db t g"
  shows "get_index_target (it_id t) (db_targets db) = Some t" "f_target g = Some (it_id t)" "f_network g = Some (it_network t)"
  using assms by (simp_all add: scoped_def)

lemma scoped_joined:
  assumes sc: "scoped db t g" and "limited lim off (dataset_rows c db g table) = Inr rs" "r \<in> set rs"
  shows "matched db t (c_raw c r) \<and> c_network c r = it_network t"
  using assms(2,3) limited_mem [of lim off _ rs] dataset_rows_mem [of r c db g table] scopedD [OF sc]
  by (fastforce simp: matched_def list_ex_iff on_network_def)

lemma scoped_bronze:
  assumes sc: "scoped db t g" and "limited lim off (bronze_rows db g) = Inr rs" "r \<in> set rs"
  shows "matched db t (Some (raw_id r)) \<and> raw_network r = it_network t"
  using assms(2,3) limited_mem [of lim off _ rs] bronze_rows_mem [of r db g] scopedD [OF sc]
  by (fastforce simp: matched_def list_ex_iff on_network_def)

lemma scoped_direct:
  assumes sc: "scoped db t g" and "limited lim off (direct_rows c (Some [a]) col g table) = Inr rs" "r \<in> set rs"
  shows "c_network c r = it_network t \<and> col r = Some a"
  using assms(2,3) limited_mem [of lim off _ rs] direct_rows_mem [of r c a col g table] scopedD [OF sc]
  by (fastforce simp: on_network_def)

lemma scoped_wallet:
  assumes sc: "scoped db t g" and "wallet_scoped c w g lim off db table = Inr rs" "r \<in> set rs"
  shows "Some (w r) = it_address t \<and> c_network c r = it_network t"
proof -
  have same: "g\<lparr>f_network := Some (it_network t)\<rparr> = g" using scopedD(3) [OF sc] by (cases g) simp
  obtain a where a: "target_address t = Some a" "limited lim off (direct_rows c (Some [a]) (\<lambda>r. Some (w r)) g table) = Inr rs"
    using assms(2,3) by (auto simp: wallet_scoped_def direct_wallet_scope_def scopedD [OF sc] same split: if_splits option.splits)
  then show ?thesis using scoped_direct [OF sc a(2) assms(3)] target_address_eq [OF a(1)] by simp
qed

lemma scoped_balances:
  assumes sc: "scoped db t g" and "query_balance_snapshots g lim off db = Inr rs" "r \<in> set rs"
  shows "Some (bs_wallet_address r) = it_address t \<and> bs_network r = it_network t"
proof -
  obtain a where a: "target_address t = Some a" "limited lim off (balance_target_rows db (it_id t) a g) = Inr rs"
    using assms(2,3) by (auto simp: query_balance_snapshots_def scopedD [OF sc] split: option.splits)
  then have "r \<in> set (balance_target_rows db (it_id t) a g)" using limited_mem assms(3) by blast
  then show ?thesis using balance_target_rows_mem [of r db "it_id t" a g] target_address_eq [OF a(1)] scopedD(3) [OF sc]
    by (simp add: on_network_def)
qed

lemma scoped_protocols:
  assumes sc: "scoped db t g" and "query_protocol_events g lim off db = Inr rs" "r \<in> set rs"
  shows "it_address t \<in> {Some (pe_protocol_address r), pe_pool_address r} \<and> pe_network r = it_network t"
proof -
  obtain a where a: "target_address t = Some a" "limited lim off (direct_rows protocol_columns (Some [a])
      (if it_kind t = TK_Pool then pe_pool_address else (\<lambda>r. Some (pe_protocol_address r))) g (db_protocol_events db)) = Inr rs"
    using assms(2,3) by (auto simp: query_protocol_events_def scopedD [OF sc] split: option.splits)
  then show ?thesis using scoped_direct [OF sc a(2) assms(3)] target_address_eq [OF a(1)]
    by (auto simp: protocol_columns_def split: if_splits)
qed

lemma scoped_pools:
  assumes sc: "scoped db t g" and "query_pool_snapshots g lim off db = Inr rs" "r \<in> set rs"
  shows "Some (ps_pool_address r) = it_address t \<and> ps_network r = it_network t"
proof -
  obtain a where a: "target_address t = Some a" "limited lim off (direct_rows pool_columns (Some [a])
      (\<lambda>r. Some (ps_pool_address r)) g (db_pools db)) = Inr rs"
    using assms(2,3) by (auto simp: query_pool_snapshots_def scopedD [OF sc] split: option.splits)
  then show ?thesis using scoped_direct [OF sc a(2) assms(3)] target_address_eq [OF a(1)] by (simp add: pool_columns_def)
qed

lemma column_sels:
  "c_raw transfer_columns = tt_raw_transaction_id" "c_network transfer_columns = tt_network"
  "c_raw native_columns = nbd_raw_transaction_id" "c_network native_columns = nbd_network"
  "c_raw event_columns = de_raw_transaction_id" "c_network event_columns = de_network"
  "c_raw fill_columns = fill_raw_transaction_id" "c_network fill_columns = fill_network"
  "c_raw funding_columns = fund_raw_transaction_id" "c_network funding_columns = fund_network"
  "c_raw position_columns = pos_raw_transaction_id" "c_network position_columns = pos_network"
  "c_raw ledger_columns = wl_raw_transaction_id" "c_network ledger_columns = wl_network"
  "c_network pnl_columns = pnl_network" "c_network trade_columns = trade_network"
  by (simp_all add: transfer_columns_def native_columns_def event_columns_def fill_columns_def funding_columns_def
      position_columns_def ledger_columns_def pnl_columns_def trade_columns_def)

lemma scoped_silver:
  assumes sc: "scoped db t g"
  shows "query_raw_transactions g lim off db = Inr rs1 \<Longrightarrow> batch_of_target db t (B_RawTransactions rs1)"
    and "query_token_transfers g lim off db = Inr rs2 \<Longrightarrow> batch_of_target db t (B_TokenTransfers rs2)"
    and "query_native_balance_deltas g lim off db = Inr rs3 \<Longrightarrow> batch_of_target db t (B_NativeBalanceDeltas rs3)"
    and "query_decoded_events g lim off db = Inr rs4 \<Longrightarrow> batch_of_target db t (B_DecodedEvents rs4)"
    and "query_hl_fill_records g lim off db = Inr rs5 \<Longrightarrow> batch_of_target db t (B_HlFills rs5)"
    and "query_hl_funding_payments g lim off db = Inr rs6 \<Longrightarrow> batch_of_target db t (B_HlFunding rs6)"
    and "query_hl_position_changes g lim off db = Inr rs7 \<Longrightarrow> batch_of_target db t (B_Positions rs7)"
    and "query_wallet_ledger_records g lim off db = Inr rs8 \<Longrightarrow> batch_of_target db t (B_WalletLedger rs8)"
  unfolding query_raw_transactions_def query_token_transfers_def query_native_balance_deltas_def query_decoded_events_def
    query_hl_fill_records_def query_hl_funding_payments_def query_hl_position_changes_def query_wallet_ledger_records_def
    batch_of_target.simps list_all_iff column_sels [symmetric]
  by (intro ballI, erule (1) scoped_bronze [OF sc] scoped_joined [OF sc])+

lemma scoped_gold:
  assumes sc: "scoped db t g"
  shows "query_balance_snapshots g lim off db = Inr rs1 \<Longrightarrow> batch_of_target db t (B_BalanceHistory rs1)"
    and "query_hl_pnl_summary g lim off db = Inr rs2 \<Longrightarrow> batch_of_target db t (B_HlPnlSummary rs2)"
    and "query_hl_trade_history g lim off db = Inr rs3 \<Longrightarrow> batch_of_target db t (B_HlTradeHistory rs3)"
    and "query_protocol_events g lim off db = Inr rs4 \<Longrightarrow> batch_of_target db t (B_ProtocolEvents rs4)"
    and "query_pool_snapshots g lim off db = Inr rs5 \<Longrightarrow> batch_of_target db t (B_PoolSnapshots rs5)"
  unfolding query_hl_pnl_summary_def query_hl_trade_history_def batch_of_target.simps list_all_iff column_sels [symmetric]
  by (intro ballI, erule (1) scoped_balances [OF sc] scoped_wallet [OF sc] scoped_protocols [OF sc] scoped_pools [OF sc])+

lemma scoped_records:
  assumes "scoped db t g" "dataset_records name g lim off db = Inr b"
  shows "batch_of_target db t b"
  using assms(2) unfolding dataset_records_def
  by (elim if_resultE map_sum_InrE; simp only: scoped_silver [OF assms(1)] scoped_gold [OF assms(1)])

text \<open>
  C14. Tenants read only their own targets. Whatever dataset, filters and page a tenant asks for, an
  answer with records is for a target that the tenant owns; every record is matched to that target, or
  has its address, and it is on the network of the target.
\<close>

theorem tenant_dataset_isolation:
  assumes "query_dataset_records down (Some u) name f limit offset db = Inr b"
  shows "\<exists>t \<in> set (db_targets db). f_target f = Some (it_id t) \<and> it_owner_id t = Some u \<and> batch_of_target db t b"
proof -
  have guards: "tenant_target down (db_targets db) ''target_id is required for tenant-scoped dataset queries'' (Some u) (f_target f) = Inr ()"
    and run: "(case scope_to_target down (db_targets db) f of Inl e \<Rightarrow> Inl e
        | Inr g \<Rightarrow> repo_call down (dataset_records name g (clamp_limit limit) (clamp_offset offset) db)) = Inr b"
    using assms by (auto simp: query_dataset_records_def guard_Inr split: if_splits)
  obtain t where t: "f_target f = Some (it_id t)" "get_index_target (it_id t) (db_targets db) = Some t"
      "t \<in> set (db_targets db)" "it_owner_id t = Some u"
    using tenant_target_owned [OF guards] by blast
  obtain g where g: "scope_to_target down (db_targets db) f = Inr g"
      "dataset_records name g (clamp_limit limit) (clamp_offset offset) db = Inr b"
    using run by (auto simp: repo_call_Inr split: sum.splits)
  have "scoped db t g" using g(1) t(1,2) by (auto simp: scope_to_target_def scoped_def split: if_splits)
  then show ?thesis using scoped_records [OF _ g(2)] t by blast
qed

definition sample_filters :: filters where
  "sample_filters = \<lparr>f_target = Some 9, f_network = None, f_start = None, f_end = None\<rparr>"

definition sample_ledger_entry :: "int wallet_ledger_record" where
  "sample_ledger_entry = (sample_entry ''transfer'' 5)\<lparr>wl_raw_transaction_id := Some 21, wl_network := ''solana-mainnet''\<rparr>"

definition sample_tables :: "int dataset_db" where
  "sample_tables =
     \<lparr>db_targets = [sample_target\<lparr>it_owner_id := Some 7\<rparr>],
      db_matches = [\<lparr>tm_id = 1, tm_target_id = 9, tm_raw_transaction_id = 21, tm_match_reason = None, tm_matched_at = 0\<rparr>],
      db_raws = [sample_raw], db_transfers = [], db_native = [], db_events = [], db_fills = [], db_funding = [],
      db_positions = [], db_ledger = [sample_ledger_entry, sample_entry ''fee'' 1], db_balances = [], db_pnl = [], db_trades = [],
      db_protocol_events = [], db_pools = []\<rparr>"

lemma sample_answer:
  "query_dataset_records False (Some 7) ''wallet_ledger'' sample_filters None None sample_tables = Inr (B_WalletLedger [sample_ledger_entry])"
  by code_simp

theorem tenant_dataset_isolation_witness:
  "query_dataset_records False (Some 7) ''wallet_ledger'' sample_filters None None sample_tables = Inr (B_WalletLedger [sample_ledger_entry])
   \<and> (\<exists>t \<in> set (db_targets sample_tables). f_target sample_filters = Some (it_id t) \<and> it_owner_id t = Some 7
        \<and> batch_of_target sample_tables t (B_WalletLedger [sample_ledger_entry]))"
  using sample_answer tenant_dataset_isolation [OF sample_answer] by blast

text \<open>
  The tax report and its limit. A report contains the newest ten thousand ledger entries in the scope
  of its filters, newest first and each once, as the unique constraints of the tables give them: when there are
  more, the older ones are left out without notice, although the query asks for a hundred thousand.
  A tenant gets a report only for a target of its own.
\<close>

theorem tax_export_newest:
  assumes "tax_export pr down owner f db = Inr csv" "constrained db"
  shows "csv = wallet_ledger_to_tax_csv pr
      (take 10000 (newest_first ledger_columns (filter (in_scope ledger_columns db f) (db_ledger db))))
    \<and> (\<forall>u. owner = Some u \<longrightarrow> (\<exists>t \<in> set (db_targets db). f_target f = Some (it_id t) \<and> it_owner_id t = Some u))"
proof -
  obtain rs where rs: "export_wallet_ledger_records f db = Inr rs" "csv = wallet_ledger_to_tax_csv pr rs"
    using assms(1) by (auto simp: tax_export_def guard_Inr map_sum_Inr repo_call_Inr)
  have "rs = take 10000 (dataset_rows ledger_columns db f (db_ledger db))"
    using rs(1) by (simp add: export_wallet_ledger_records_def query_wallet_ledger_records_def limited_def sql_page_def
        EXPORT_MAX_RECORDS_def MAX_QUERY_LIMIT_def)
  moreover have "\<exists>t \<in> set (db_targets db). f_target f = Some (it_id t) \<and> it_owner_id t = Some u" if "owner = Some u" for u
    using assms(1) that
    by (auto simp: tax_export_def guard_Inr split: option.splits if_splits dest: get_index_target_mem)
  ultimately show ?thesis using rs(2) by (simp add: dataset_rows_scope [OF assms(2)])
qed

lemma sample_constrained: "constrained sample_tables"
  by code_simp

theorem tax_export_newest_witness:
  "tax_export sample_printers False (Some 7) sample_filters sample_tables = Inr (wallet_ledger_to_tax_csv sample_printers [sample_ledger_entry])"
proof -
  have "get_index_target 9 (db_targets sample_tables) = Some (sample_target\<lparr>it_owner_id := Some 7\<rparr>)"
    by (simp add: get_index_target_def sample_tables_def sample_target_def)
  moreover have "it_owner_id (sample_target\<lparr>it_owner_id := Some 7\<rparr>) = Some 7" by simp
  ultimately have csv: "tax_export sample_printers False (Some 7) sample_filters sample_tables =
      Inr (wallet_ledger_to_tax_csv sample_printers (take 10000 (dataset_rows ledger_columns sample_tables sample_filters (db_ledger sample_tables))))"
    by (simp add: tax_export_def guard_def sample_filters_def validate_date_range_def repo_call_def
        export_wallet_ledger_records_def query_wallet_ledger_records_def limited_def sql_page_def
        EXPORT_MAX_RECORDS_def MAX_QUERY_LIMIT_def)
  have "newest_first ledger_columns (filter (in_scope ledger_columns sample_tables sample_filters) (db_ledger sample_tables)) = [sample_ledger_entry]"
    by code_simp
  then show ?thesis using csv tax_export_newest [OF csv sample_constrained] by simp
qed

end
