(* ===== verification/Gold_Ledger.thy ===== *)
theory Gold_Ledger
  imports Gold_Balances
begin

text \<open>
  The \<open>wallet_ledger\<close> section of \<open>materialize_gold_from_silver\<close> (\<open>adapters/src/dual_write.rs\<close>): the
  rows derived from token transfers, native balance deltas, Hyperliquid fills and funding and
  the native value and gas flows of EVM transactions (\<open>adapters/src/evm_parser.rs\<close>), and the
  transaction of \<open>adapters/src/v2_repo.rs\<close> that replaces the rows of the input transactions.
  \<open>dv\<close> stands for the division of \<open>BigDecimal\<close> values.
\<close>

section \<open>Native flows of EVM transactions\<close>

definition hex_digit :: "char \<Rightarrow> nat option" where
  "hex_digit c =
     (let n = (of_char c :: nat)
      in if 48 \<le> n \<and> n \<le> 57 then Some (n - 48)
         else if 97 \<le> n \<and> n \<le> 102 then Some (n - 87)
         else if 65 \<le> n \<and> n \<le> 70 then Some (n - 55)
         else None)"

definition strip_0x :: "string \<Rightarrow> string" where
  "strip_0x s = (if starts_with s ''0x'' then drop 2 s else s)"

fun hex_value :: "string \<Rightarrow> string \<Rightarrow> ('d :: linordered_idom) \<Rightarrow> 'd result" where
  "hex_value hex [] acc = Inr acc"
| "hex_value hex (c # cs) acc =
     (case hex_digit c of
        Some digit \<Rightarrow> hex_value hex cs (acc * 16 + of_nat digit)
      | None \<Rightarrow> Inl (''Invalid hex character '' @ quoted [c] @ '' in value: '' @ hex))"

definition hex_to_bigdecimal :: "string \<Rightarrow> ('d :: linordered_idom) result" where
  "hex_to_bigdecimal hex =
     (let stripped = strip_0x hex
      in if 64 < length stripped then Inl ''Hex amount exceeds uint256''
         else if stripped = [] then Inr 0
         else hex_value hex stripped 0)"

definition wei_to_eth :: "('d \<Rightarrow> 'd \<Rightarrow> 'd) \<Rightarrow> ('d :: linordered_idom) \<Rightarrow> 'd" where
  "wei_to_eth dv wei = dv wei (10 ^ 18)"

definition str_field :: "json \<Rightarrow> string \<Rightarrow> string option" where
  "str_field raw k = json_as_str (json_index raw k)"

definition field_is_wallet :: "json \<Rightarrow> string \<Rightarrow> string \<Rightarrow> bool" where
  "field_is_wallet raw k wallet \<longleftrightarrow>
     (case str_field raw k of Some v \<Rightarrow> to_lowercase v = to_lowercase wallet | None \<Rightarrow> False)"

definition value_flow ::
    "('d \<Rightarrow> 'd \<Rightarrow> 'd) \<Rightarrow> json \<Rightarrow> string \<Rightarrow> (string \<times> ('d :: linordered_idom)) list result" where
  "value_flow dv raw wallet =
     (let from = field_is_wallet raw ''from'' wallet; to = field_is_wallet raw ''to'' wallet
      in if from \<noteq> to \<and> str_field raw ''status'' \<noteq> Some ''0x0''
         then (case str_field raw ''value'' of
                 Some v \<Rightarrow> (case hex_to_bigdecimal v of
                     Inl e \<Rightarrow> Inl e
                   | Inr wei \<Rightarrow> let amount = wei_to_eth dv wei
                       in Inr (if amount \<noteq> 0 then [(''transfer'', if from then - amount else amount)] else []))
               | None \<Rightarrow> Inr [])
         else Inr [])"

definition gas_flow ::
    "('d \<Rightarrow> 'd \<Rightarrow> 'd) \<Rightarrow> json \<Rightarrow> string \<Rightarrow> (string \<times> ('d :: linordered_idom)) list result" where
  "gas_flow dv raw wallet =
     (if field_is_wallet raw ''from'' wallet
      then (case (str_field raw ''gas_used'', str_field raw ''effective_gas_price'') of
              (Some gas, Some price) \<Rightarrow>
                (case hex_to_bigdecimal gas of
                   Inl e \<Rightarrow> Inl e
                 | Inr g \<Rightarrow> (case hex_to_bigdecimal price of
                     Inl e \<Rightarrow> Inl e
                   | Inr p \<Rightarrow> let fee = wei_to_eth dv (g * p)
                       in Inr (if fee \<noteq> 0 then [(''fee'', - fee)] else [])))
            | _ \<Rightarrow> Inr [])
      else Inr [])"

definition native_flows ::
    "('d \<Rightarrow> 'd \<Rightarrow> 'd) \<Rightarrow> json \<Rightarrow> string \<Rightarrow> (string \<times> ('d :: linordered_idom)) list result" where
  "native_flows dv raw wallet =
     (case value_flow dv raw wallet of
        Inl e \<Rightarrow> Inl e
      | Inr vs \<Rightarrow> (case gas_flow dv raw wallet of Inl e \<Rightarrow> Inl e | Inr gs \<Rightarrow> Inr (vs @ gs)))"

section \<open>Wallet ledger rows\<close>

record gold_context =
  gc_wallet :: string
  gc_raws :: "raw_transaction list"
  gc_version :: "uuid option"
  gc_now :: timestamp

definition gold_row ::
    "(uuid \<Rightarrow> string \<Rightarrow> uuid) \<Rightarrow> gold_context \<Rightarrow> string \<Rightarrow> uuid option \<Rightarrow> string \<Rightarrow> string \<Rightarrow> int \<Rightarrow> string \<Rightarrow> string \<Rightarrow>
     'd \<Rightarrow> string option \<Rightarrow> 'd option \<Rightarrow> string option \<Rightarrow> 'd wallet_ledger_record" where
  "gold_row vh c key raw network txh ts etype asset amount counterparty fee fee_asset =
     \<lparr>wl_id = vh NAMESPACE_URL key, wl_raw_transaction_id = raw, wl_wallet_address = gc_wallet c,
      wl_network = network, wl_tx_hash = txh, wl_timestamp = ts, wl_entry_type = etype,
      wl_asset_symbol = asset, wl_amount = amount, wl_counterparty_address = counterparty,
      wl_fee_amount = fee, wl_fee_asset = fee_asset, wl_cost_basis = None, wl_proceeds = None,
      wl_dataset_version_id = gc_version c, wl_created_at = gc_now c\<rparr>"

text \<open>\<open>wl:{wallet_norm}:\<close>, and the optional transaction id printed or left empty.\<close>

definition wl_prefix :: "gold_context \<Rightarrow> string" where
  "wl_prefix c = ''wl:'' @ normalize_address_for_comparison (gc_wallet c) @ '':''"

definition uuid_or_empty :: "(uuid \<Rightarrow> string) \<Rightarrow> uuid option \<Rightarrow> string" where
  "uuid_or_empty us raw = (case raw of Some u \<Rightarrow> us u | None \<Rightarrow> [])"

definition gold_transfer_rows ::
    "(uuid \<Rightarrow> string \<Rightarrow> uuid) \<Rightarrow> (uuid \<Rightarrow> string) \<Rightarrow> gold_context \<Rightarrow> ('d :: linordered_idom) token_transfer \<Rightarrow>
     'd wallet_ledger_record list" where
  "gold_transfer_rows vh us c t =
     (let wallet_norm = normalize_address_for_comparison (gc_wallet c);
          from_match = normalize_address_for_comparison (tt_from_address t) = wallet_norm;
          to_match = normalize_address_for_comparison (tt_to_address t) = wallet_norm;
          raw_tx_id = tt_raw_transaction_id t;
          raw = raw_tx_lookup (gc_raws c) raw_tx_id;
          key = (\<lambda>dir. wl_prefix c @ uuid_or_empty us raw_tx_id @ '':'' @ tt_token_address t @ '':''
                   @ show_int (tt_transfer_index t) @ dir)
      in if tt_decimals t < 0 then []
         else if from_match = to_match then []
         else (if from_match
               then [gold_row vh c (key '':out'') raw_tx_id (tt_network t) (hash_or_empty raw)
                       (timestamp_or 0 raw) ''transfer'' (transfer_symbol t) (- tt_amount t)
                       (Some (tt_to_address t)) None None]
               else [])
              @ (if to_match
                 then [gold_row vh c (key '':in'') raw_tx_id (tt_network t) (hash_or_empty raw)
                         (timestamp_or 0 raw) ''transfer'' (transfer_symbol t) (tt_amount t)
                         (Some (tt_from_address t)) None None]
                 else []))"

definition solana_fee ::
    "('d \<Rightarrow> 'd \<Rightarrow> 'd) \<Rightarrow> raw_transaction option \<Rightarrow> ('d :: linordered_idom) native_balance_delta \<Rightarrow> 'd" where
  "solana_fee dv raw d =
     (if nbd_is_fee_payer d \<and> starts_with (nbd_network d) ''solana''
      then dv (of_nat (case Option.bind raw
                 (\<lambda>r. json_as_u64 (json_index (json_index (raw_metadata r) ''meta'') ''fee'')) of
               Some n \<Rightarrow> n | None \<Rightarrow> 0)) 1000000000
      else 0)"

definition gold_native_rows ::
    "(uuid \<Rightarrow> string \<Rightarrow> uuid) \<Rightarrow> (uuid \<Rightarrow> string) \<Rightarrow> ('d \<Rightarrow> 'd \<Rightarrow> 'd) \<Rightarrow> gold_context \<Rightarrow>
     ('d :: linordered_idom) native_balance_delta \<Rightarrow> 'd wallet_ledger_record list" where
  "gold_native_rows vh us dv c d =
     (if normalize_address_for_comparison (nbd_account_address d)
           \<noteq> normalize_address_for_comparison (gc_wallet c)
         \<or> starts_with (nbd_network d) ''hypercore'' \<or> starts_with (nbd_network d) ''hyperliquid''
      then []
      else
        let raw_tx_id = nbd_raw_transaction_id d;
            raw = raw_tx_lookup (gc_raws c) raw_tx_id;
            fee = solana_fee dv raw d
        in concat (map (\<lambda>(kind, amount).
             if amount = 0 then []
             else [gold_row vh c (wl_prefix c @ us (raw_tx_or_nil raw_tx_id) @ '':native:''
                      @ nbd_account_address d @ '':'' @ kind)
                    raw_tx_id (nbd_network d) (hash_or_empty raw) (timestamp_or 0 raw) kind
                    (nbd_native_token d) amount None
                    (if kind = ''fee'' then Some fee else None)
                    (if kind = ''fee'' then Some (nbd_native_token d) else None)])
             [(''transfer'', nbd_delta d + fee), (''fee'', - fee)]))"

definition trade_id_or_0 :: "'d hl_fill_record \<Rightarrow> int" where
  "trade_id_or_0 f = (case fill_trade_id f of Some i \<Rightarrow> i | None \<Rightarrow> 0)"

definition gold_fill_row ::
    "(uuid \<Rightarrow> string \<Rightarrow> uuid) \<Rightarrow> (uuid \<Rightarrow> string) \<Rightarrow> gold_context \<Rightarrow> ('d :: linordered_idom) hl_fill_record \<Rightarrow>
     'd wallet_ledger_record" where
  "gold_fill_row vh us c f =
     (let raw = raw_tx_lookup (gc_raws c) (fill_raw_transaction_id f)
      in gold_row vh c (wl_prefix c @ uuid_or_empty us (fill_raw_transaction_id f) @ '':fill:''
             @ fill_coin f @ '':'' @ show_int (trade_id_or_0 f))
           (fill_raw_transaction_id f) (fill_network f) (hash_or_empty raw)
           (timestamp_or (trunc_div (fill_fill_time f) 1000) raw) ''trade'' (fill_coin f) (signed_size f)
           None None None)"

definition gold_fill_cash_rows ::
    "(uuid \<Rightarrow> string \<Rightarrow> uuid) \<Rightarrow> (uuid \<Rightarrow> string) \<Rightarrow> gold_context \<Rightarrow> ('d :: linordered_idom) hl_fill_record \<Rightarrow>
     'd wallet_ledger_record list" where
  "gold_fill_cash_rows vh us c f =
     (let raw = raw_tx_lookup (gc_raws c) (fill_raw_transaction_id f)
      in concat (map (\<lambda>(kind, v, asset).
           case nonzero_opt v of
             None \<Rightarrow> []
           | Some amount \<Rightarrow>
               [gold_row vh c (wl_prefix c @ us (raw_tx_or_nil (fill_raw_transaction_id f)) @ '':fill:''
                    @ fill_coin f @ '':'' @ show_int (trade_id_or_0 f) @ '':'' @ kind)
                  (fill_raw_transaction_id f) (fill_network f) (hash_or_empty raw)
                  (timestamp_or (trunc_div (fill_fill_time f) 1000) raw) kind asset amount None
                  (if kind = ''fee'' then fill_fee f else None)
                  (if kind = ''fee'' then Some asset else None)])
           [(''fee'', map_option uminus (fill_fee f), fee_token_or_usdc f),
            (''income'', fill_closed_pnl f, ''USDC'')]))"

definition gold_funding_row ::
    "(uuid \<Rightarrow> string \<Rightarrow> uuid) \<Rightarrow> (uuid \<Rightarrow> string) \<Rightarrow> gold_context \<Rightarrow> ('d :: linordered_idom) hl_funding_payment \<Rightarrow>
     'd wallet_ledger_record" where
  "gold_funding_row vh us c p =
     (let raw = raw_tx_lookup (gc_raws c) (fund_raw_transaction_id p)
      in gold_row vh c (wl_prefix c @ uuid_or_empty us (fund_raw_transaction_id p) @ '':funding:''
             @ fund_coin p @ '':'' @ show_int (fund_payment_time p))
           (fund_raw_transaction_id p) (fund_network p) (hash_or_empty raw)
           (timestamp_or (trunc_div (fund_payment_time p) 1000) raw) ''funding'' ''USDC'' (fund_amount p)
           None None None)"

text \<open>\<open>raw.raw_metadata["from"].is_string()\<close>: the EVM transactions of the batch.\<close>

definition is_evm_raw :: "raw_transaction \<Rightarrow> bool" where
  "is_evm_raw r \<longleftrightarrow> str_field (raw_metadata r) ''from'' \<noteq> None"

definition evm_asset :: "raw_transaction \<Rightarrow> string" where
  "evm_asset r = (if starts_with (raw_network r) ''hyperevm'' then ''HYPE'' else ''ETH'')"

definition gold_evm_rows ::
    "(uuid \<Rightarrow> string \<Rightarrow> uuid) \<Rightarrow> (uuid \<Rightarrow> string) \<Rightarrow> ('d \<Rightarrow> 'd \<Rightarrow> 'd) \<Rightarrow> gold_context \<Rightarrow> raw_transaction \<Rightarrow>
     ('d :: linordered_idom) wallet_ledger_record list" where
  "gold_evm_rows vh us dv c r =
     (case native_flows dv (raw_metadata r) (gc_wallet c) of
        Inl _ \<Rightarrow> []
      | Inr flows \<Rightarrow> map (\<lambda>(kind, amount).
          gold_row vh c (wl_prefix c @ us (raw_id r) @ '':evm:'' @ kind) (Some (raw_id r))
            (raw_network r) (raw_tx_hash r) (raw_timestamp r) kind (evm_asset r) amount None
            (if kind = ''fee'' then Some (- amount) else None)
            (if kind = ''fee'' then Some (evm_asset r) else None)) flows)"

text \<open>The flows handed to the balance section, and the malformed transactions.\<close>

definition evm_balance_flows ::
    "('d \<Rightarrow> 'd \<Rightarrow> 'd) \<Rightarrow> gold_context \<Rightarrow> (raw_transaction \<times> string \<times> ('d :: linordered_idom)) list" where
  "evm_balance_flows dv c =
     List.map_filter (\<lambda>r. case native_flows dv (raw_metadata r) (gc_wallet c) of
         Inl _ \<Rightarrow> None
       | Inr flows \<Rightarrow> let net = sum_list (map snd flows)
                     in if net \<noteq> 0 then Some (r, evm_asset r, net) else None)
       (filter is_evm_raw (gc_raws c))"

definition evm_malformed :: "('d \<Rightarrow> 'd \<Rightarrow> 'd) \<Rightarrow> gold_context \<Rightarrow> ('d :: linordered_idom) itself \<Rightarrow> nat" where
  "evm_malformed dv c _ =
     length (filter (\<lambda>r. isl (native_flows dv (raw_metadata r) (gc_wallet c)
         :: (string \<times> 'd) list result)) (filter is_evm_raw (gc_raws c)))"

definition gold_ledger_records ::
    "(uuid \<Rightarrow> string \<Rightarrow> uuid) \<Rightarrow> (uuid \<Rightarrow> string) \<Rightarrow> ('d \<Rightarrow> 'd \<Rightarrow> 'd) \<Rightarrow> gold_context \<Rightarrow>
     ('d :: linordered_idom) silver_records \<Rightarrow> 'd wallet_ledger_record list" where
  "gold_ledger_records vh us dv c s =
     concat (map (gold_transfer_rows vh us c) (sr_token_transfers s))
     @ concat (map (gold_native_rows vh us dv c) (sr_native_balance_deltas s))
     @ map (gold_fill_row vh us c) (sr_hl_fills s)
     @ concat (map (gold_fill_cash_rows vh us c) (sr_hl_fills s))
     @ map (gold_funding_row vh us c) (sr_hl_funding s)
     @ concat (map (gold_evm_rows vh us dv c) (filter is_evm_raw (gc_raws c)))"

section \<open>Replacing the rows of the input transactions\<close>

text \<open>\<open>INSERT .. ON CONFLICT (id) DO UPDATE\<close> of \<open>write_wallet_ledger_records\<close>.\<close>

definition upsert_wallet_row :: "'d wallet_ledger_record \<Rightarrow> 'd wallet_ledger_record list \<Rightarrow> 'd wallet_ledger_record list" where
  "upsert_wallet_row r table =
     (if \<exists>q \<in> set table. wl_id q = wl_id r
      then map (\<lambda>q. if wl_id q = wl_id r
             then q\<lparr>wl_amount := wl_amount r, wl_counterparty_address := wl_counterparty_address r,
                    wl_fee_amount := wl_fee_amount r, wl_fee_asset := wl_fee_asset r,
                    wl_cost_basis := wl_cost_basis r, wl_proceeds := wl_proceeds r,
                    wl_dataset_version_id := wl_dataset_version_id r\<rparr>
             else q) table
      else table @ [r])"

definition write_wallet_ledger_records ::
    "'d wallet_ledger_record list \<Rightarrow> (string \<times> uuid list) option \<Rightarrow> 'd wallet_ledger_record list \<Rightarrow>
     'd wallet_ledger_record list" where
  "write_wallet_ledger_records records replaced table =
     fold upsert_wallet_row records
       (case replaced of
          None \<Rightarrow> table
        | Some (wallet, inputs) \<Rightarrow>
            filter (\<lambda>r. \<not> (wl_wallet_address r = wallet
                         \<and> (case wl_raw_transaction_id r of Some i \<Rightarrow> i \<in> set inputs | None \<Rightarrow> False))) table)"

definition replace_wallet_ledger_records ::
    "string \<Rightarrow> uuid list \<Rightarrow> 'd wallet_ledger_record list \<Rightarrow> 'd wallet_ledger_record list \<Rightarrow>
     'd wallet_ledger_record list" where
  "replace_wallet_ledger_records wallet inputs records table =
     write_wallet_ledger_records records (Some (wallet, inputs)) table"

section \<open>Sums of the ledger and of the balance events\<close>

definition net_wl :: "bh_key \<Rightarrow> ('d :: linordered_idom) wallet_ledger_record list \<Rightarrow> 'd" where
  "net_wl k rs = sum_list (map wl_amount (filter (\<lambda>r. (wl_network r, wl_asset_symbol r) = k) rs))"

definition net_ev :: "bh_key \<Rightarrow> ('d :: linordered_idom) balance_event list \<Rightarrow> 'd" where
  "net_ev k es = sum_list (map be_delta (filter (\<lambda>e. event_key e = k) es))"

lemma net_simps [simp]:
  "net_wl k [] = 0" "net_wl k (rs @ rs') = net_wl k rs + net_wl k rs'"
  "net_ev k [] = 0" "net_ev k (es @ es') = net_ev k es + net_ev k es'"
  by (simp_all add: net_wl_def net_ev_def)

lemma net_wl_row [simp]:
  "net_wl k [gold_row vh c key raw network txh ts etype asset amount cp fee fa]
     = (if (network, asset) = k then amount else 0)"
  by (simp add: net_wl_def gold_row_def)

lemma net_wl_concat: "net_wl k (concat rss) = sum_list (map (net_wl k) rss)"
  by (induction rss) auto

lemma net_wl_map: "net_wl k (map f xs) = sum_list (map (\<lambda>x. net_wl k [f x]) xs)"
  by (induction xs) (auto simp: net_wl_def)

lemma net_ev_map_filter:
  "net_ev k (List.map_filter f xs) = sum_list (map (\<lambda>x. case f x of None \<Rightarrow> 0 | Some e \<Rightarrow> net_ev k [e]) xs)"
  by (induction xs) (auto simp: map_filter_simps net_ev_def split: option.splits)

definition is_hl_network :: "string \<Rightarrow> bool" where
  "is_hl_network n \<longleftrightarrow> starts_with n ''hypercore'' \<or> starts_with n ''hyperliquid''"

lemma transfer_nets:
  "net_wl k (gold_transfer_rows vh us c t) =
     (case transfer_balance_event vh us (gc_wallet c) (gc_raws c) t of None \<Rightarrow> 0 | Some e \<Rightarrow> net_ev k [e])"
  by (auto simp: gold_transfer_rows_def transfer_balance_event_def Let_def net_ev_def event_key_def)

text \<open>The fee split leaves the sum of a native delta unchanged, whatever the division gives.\<close>

lemma native_nets:
  assumes "\<not> is_hl_network (nbd_network d)"
  shows "net_wl k (gold_native_rows vh us dv c d) =
    (case native_balance_event vh us (gc_wallet c) (gc_raws c) d of None \<Rightarrow> 0 | Some e \<Rightarrow> net_ev k [e])"
  using assms
  by (auto simp: gold_native_rows_def native_balance_event_def Let_def net_ev_def event_key_def
      is_hl_network_def net_wl_concat)

lemma evm_rows_net:
  "net_wl k (gold_evm_rows vh us dv c r) =
     (case native_flows dv (raw_metadata r) (gc_wallet c) of
        Inl _ \<Rightarrow> 0
      | Inr flows \<Rightarrow> if (raw_network r, evm_asset r) = k then sum_list (map snd flows) else 0)"
  by (cases "(raw_network r, evm_asset r) = k")
    (simp_all add: gold_evm_rows_def net_wl_map case_prod_unfold split: sum.splits)

lemma evm_nets:
  "net_ev k (map (evm_balance_event vh us w) (evm_balance_flows dv c)) =
     sum_list (map (\<lambda>r. net_wl k (gold_evm_rows vh us dv c r)) (filter is_evm_raw (gc_raws c)))"
proof -
  have "net_ev k (map (evm_balance_event vh us w)
      (List.map_filter (\<lambda>r. case native_flows dv (raw_metadata r) (gc_wallet c) of
         Inl _ \<Rightarrow> None
       | Inr flows \<Rightarrow> let net = sum_list (map snd flows)
                     in if net \<noteq> 0 then Some (r, evm_asset r, net) else None) rs))
    = sum_list (map (\<lambda>r. net_wl k (gold_evm_rows vh us dv c r)) rs)" for rs
    by (induction rs)
      (auto simp: map_filter_simps evm_rows_net Let_def net_ev_def event_key_def evm_balance_event_def
        split: sum.splits)
  then show ?thesis by (simp add: evm_balance_flows_def)
qed

lemma sum_list_map_cong: "(\<And>x. x \<in> set xs \<Longrightarrow> f x = g x) \<Longrightarrow> sum_list (map f xs) = sum_list (map g xs)"
  by (metis map_cong)

lemma ledger_net_eq_events:
  assumes "sr_hl_fills s = []" "sr_hl_funding s = []"
    and "\<forall>d \<in> set (sr_native_balance_deltas s). \<not> is_hl_network (nbd_network d)"
  shows "net_wl k (gold_ledger_records vh us dv c s)
    = net_ev k (balance_events vh us (gc_wallet c) (gc_raws c) (sr_token_transfers s)
        (sr_native_balance_deltas s) (evm_balance_flows dv c))"
proof -
  have "sum_list (map (\<lambda>d. net_wl k (gold_native_rows vh us dv c d)) (sr_native_balance_deltas s))
      = net_ev k (List.map_filter (native_balance_event vh us (gc_wallet c) (gc_raws c)) (sr_native_balance_deltas s))"
    unfolding net_ev_map_filter by (rule sum_list_map_cong) (use assms(3) native_nets in blast)
  then show ?thesis
    using assms(1,2)
    by (simp add: gold_ledger_records_def balance_events_def net_wl_concat comp_def evm_nets
        net_ev_map_filter transfer_nets)
qed

text \<open>
  C3. Ledger and balances tell the same story: for a batch without Hyperliquid settlement, the
  wallet ledger rows of a network and asset (transfers, native changes split into value and fee,
  EVM value and gas) sum to exactly the balance events of that network and asset. Splitting a
  Solana fee from the value movement loses nothing, even though the fee is computed by an inexact
  division.
\<close>

theorem gold_ledger_matches_balances:
  assumes "sr_hl_fills s = []" "sr_hl_funding s = []"
    and "\<forall>d \<in> set (sr_native_balance_deltas s). \<not> is_hl_network (nbd_network d)"
  shows "net_wl k (gold_ledger_records vh us dv c s)
    = net_ev k (balance_events vh us (gc_wallet c) (gc_raws c) (sr_token_transfers s)
        (sr_native_balance_deltas s) (evm_balance_flows dv c))"
  by (rule ledger_net_eq_events [OF assms])

definition sample_context :: gold_context where
  "sample_context = \<lparr>gc_wallet = ''0xab'', gc_raws = [], gc_version = None, gc_now = 0\<rparr>"

theorem gold_ledger_matches_balances_witness:
  "net_wl (''ethereum-mainnet'', ''TOK'')
     (gold_ledger_records (\<lambda>ns s. 0) (\<lambda>u. ''u'') (\<lambda>a b. a div b) sample_context self_transfer_records)
   = net_ev (''ethereum-mainnet'', ''TOK'') (balance_events (\<lambda>ns s. 0) (\<lambda>u. ''u'') ''0xab'' []
       (sr_token_transfers self_transfer_records) [] (evm_balance_flows (\<lambda>a b. a div b) sample_context))"
  using gold_ledger_matches_balances [where s = self_transfer_records and c = sample_context and
      k = "(''ethereum-mainnet'', ''TOK'')" and vh = "\<lambda>ns s. 0" and us = "\<lambda>u. ''u''" and
      dv = "\<lambda>a b. a div b"]
  by (simp add: self_transfer_records_def sample_context_def)

section \<open>Replacement is idempotent and local\<close>

lemma upsert_wallet_row_absent:
  "wl_id r \<notin> wl_id ` set table \<Longrightarrow> upsert_wallet_row r table = table @ [r]"
  unfolding upsert_wallet_row_def by (metis image_eqI)

lemma fold_upsert_absent:
  assumes "distinct (map wl_id rs)" "wl_id ` set rs \<inter> wl_id ` set table = {}"
  shows "fold upsert_wallet_row rs table = table @ rs"
  using assms
proof (induction rs arbitrary: table)
  case (Cons r rs)
  then have "upsert_wallet_row r table = table @ [r]" by (intro upsert_wallet_row_absent) auto
  with Cons show ?case by auto
qed simp

text \<open>
  Re-materializing a wallet's transactions replaces exactly their rows. When the new rows
  have distinct ids, belong to the wallet and to the input transactions, and no row of another
  wallet or transaction has one of their ids, the table afterwards is the rows outside the input
  slice, unchanged and in order, followed by the new rows; running the replacement again with
  the same rows gives the same table.
\<close>

theorem replace_wallet_ledger_idempotent:
  assumes keep: "kept = filter (\<lambda>r. \<not> (wl_wallet_address r = wallet
        \<and> (case wl_raw_transaction_id r of Some i \<Rightarrow> i \<in> set inputs | None \<Rightarrow> False))) table"
    and "distinct (map wl_id rs)" "wl_id ` set rs \<inter> wl_id ` set kept = {}"
    and own: "\<forall>r \<in> set rs. wl_wallet_address r = wallet
        \<and> (\<exists>i \<in> set inputs. wl_raw_transaction_id r = Some i)"
  shows "replace_wallet_ledger_records wallet inputs rs table = kept @ rs
    \<and> replace_wallet_ledger_records wallet inputs rs
        (replace_wallet_ledger_records wallet inputs rs table) = kept @ rs"
proof -
  let ?P = "\<lambda>r. \<not> (wl_wallet_address r = wallet
        \<and> (case wl_raw_transaction_id r of Some i \<Rightarrow> i \<in> set inputs | None \<Rightarrow> False))"
  have one: "replace_wallet_ledger_records wallet inputs rs t = filter ?P t @ rs"
    if "wl_id ` set rs \<inter> wl_id ` set (filter ?P t) = {}" for t
    using fold_upsert_absent [OF assms(2) that]
    by (simp add: replace_wallet_ledger_records_def write_wallet_ledger_records_def)
  have "filter ?P rs = []" using own by (auto simp: filter_empty_conv)
  moreover have "filter ?P kept = kept" by (simp add: keep)
  ultimately have "filter ?P (kept @ rs) = kept" by simp
  then show ?thesis using one [of table] one [of "kept @ rs"] assms(3) keep by simp
qed

definition sample_wl :: "uuid \<Rightarrow> string \<Rightarrow> uuid \<Rightarrow> int wallet_ledger_record" where
  "sample_wl i w raw = gold_row (\<lambda>ns s. i) (sample_context\<lparr>gc_wallet := w\<rparr>) [] (Some raw) ''n'' ''h'' 0
     ''transfer'' ''A'' 1 None None None"

theorem replace_wallet_ledger_idempotent_witness:
  "replace_wallet_ledger_records ''w'' [7] [sample_wl 3 ''w'' 7] [sample_wl 1 ''w'' 7, sample_wl 2 ''v'' 7]
     = [sample_wl 2 ''v'' 7, sample_wl 3 ''w'' 7]"
  using replace_wallet_ledger_idempotent [where wallet = "''w''" and inputs = "[7]" and
      rs = "[sample_wl 3 ''w'' 7]" and table = "[sample_wl 1 ''w'' 7, sample_wl 2 ''v'' 7]", OF refl]
  by (simp add: sample_wl_def gold_row_def sample_context_def)

end
