(* ===== verification/Wallet_Reads.thy ===== *)
theory Wallet_Reads
  imports Dataset_Api Gold_Ledger
begin

text \<open>
  The wallet endpoints: the reads of \<open>adapters/src/v2_repo.rs\<close> (transactions, ledger, balances and
  statistics of a wallet) and their handlers in \<open>api/src/main.rs\<close>. Rows that a query leaves unordered,
  because it has no order or because of equal timestamps, come in the order \<open>sc\<close> of the scan.
\<close>

section \<open>Reads\<close>

definition between :: "int option \<Rightarrow> int option \<Rightarrow> int \<Rightarrow> bool" where
  "between lo hi t \<longleftrightarrow> in_window \<lparr>f_target = None, f_network = None, f_start = lo, f_end = hi\<rparr> t"

definition wallet_target_of :: "string \<Rightarrow> uuid option \<Rightarrow> index_target \<Rightarrow> bool" where
  "wallet_target_of wallet owner t \<longleftrightarrow> it_address t = Some wallet \<and> it_kind t = TK_Wallet
     \<and> (case owner of Some u \<Rightarrow> it_owner_id t = Some u | None \<Rightarrow> True)"

text \<open>The three-way join, \<open>DISTINCT\<close>.\<close>

definition wallet_raws :: "string \<Rightarrow> uuid option \<Rightarrow> 'd dataset_db \<Rightarrow> raw_transaction list" where
  "wallet_raws wallet owner db = remdups
     [rt. rt \<leftarrow> db_raws db, m \<leftarrow> db_matches db, tm_raw_transaction_id m = raw_id rt,
          t \<leftarrow> db_targets db, it_id t = tm_target_id m \<and> wallet_target_of wallet owner t]"

definition get_wallet_transactions_v2 ::
    "(raw_transaction list \<Rightarrow> raw_transaction list) \<Rightarrow> string \<Rightarrow> uuid option \<Rightarrow> int \<Rightarrow> int \<Rightarrow> int option \<Rightarrow> int option \<Rightarrow>
     'd dataset_db \<Rightarrow> raw_transaction list result" where
  "get_wallet_transactions_v2 sc wallet owner limit offset lo hi db =
     limited limit offset (sort_key raw_timestamp (sc (filter (\<lambda>r. between lo hi (raw_timestamp r)) (wallet_raws wallet owner db))))"

definition get_wallet_transaction_by_hash_v2 ::
    "(raw_transaction list \<Rightarrow> raw_transaction list) \<Rightarrow> string \<Rightarrow> string \<Rightarrow> uuid option \<Rightarrow> 'd dataset_db \<Rightarrow> raw_transaction option" where
  "get_wallet_transaction_by_hash_v2 sc wallet txh owner db =
     first_row (sc (filter (\<lambda>r. raw_tx_hash r = txh) (wallet_raws wallet owner db)))"

definition wallet_owned :: "string \<Rightarrow> uuid option \<Rightarrow> 'd dataset_db \<Rightarrow> bool" where
  "wallet_owned wallet owner db \<longleftrightarrow>
     (case owner of None \<Rightarrow> True | Some u \<Rightarrow> list_ex (wallet_target_of wallet (Some u)) (db_targets db))"

definition get_wallet_ledger_v2 ::
    "('d wallet_ledger_record list \<Rightarrow> 'd wallet_ledger_record list) \<Rightarrow> string \<Rightarrow> uuid option \<Rightarrow> int \<Rightarrow> int \<Rightarrow> int option \<Rightarrow>
     int option \<Rightarrow> 'd dataset_db \<Rightarrow> 'd wallet_ledger_record list result" where
  "get_wallet_ledger_v2 sc wallet owner limit offset lo hi db =
     (if \<not> wallet_owned wallet owner db then Inr []
      else limited limit offset (sort_key wl_timestamp
        (sc (filter (\<lambda>r. wl_wallet_address r = wallet \<and> between lo hi (wl_timestamp r)) (db_ledger db)))))"

text \<open>\<open>GROUP BY asset_symbol HAVING SUM(amount) != 0 ORDER BY asset_symbol\<close>.\<close>

definition asset_sum :: "string \<Rightarrow> ('d :: linordered_idom) wallet_ledger_record list \<Rightarrow> 'd" where
  "asset_sum a rows = sum_list (map wl_amount (filter (\<lambda>r. wl_asset_symbol r = a) rows))"

definition get_wallet_balances_v2 ::
    "string \<Rightarrow> uuid option \<Rightarrow> int option \<Rightarrow> ('d :: linordered_idom) dataset_db \<Rightarrow> (string \<times> 'd) list" where
  "get_wallet_balances_v2 wallet owner til db =
     (if \<not> wallet_owned wallet owner db then []
      else let rows = filter (\<lambda>r. wl_wallet_address r = wallet \<and> between None til (wl_timestamp r)) (db_ledger db)
           in filter (\<lambda>(a, v). v \<noteq> 0) (map (\<lambda>a. (a, asset_sum a rows)) (sort (remdups (map wl_asset_symbol rows)))))"

record wallet_stats_v2 =
  ws_tx_count :: int
  ws_earliest_timestamp :: "int option"
  ws_latest_timestamp :: "int option"
  ws_network_count :: int
  ws_unique_assets :: int
  ws_per_network :: "(string \<times> int) list"

definition get_wallet_stats_v2 :: "string \<Rightarrow> uuid option \<Rightarrow> 'd dataset_db \<Rightarrow> wallet_stats_v2" where
  "get_wallet_stats_v2 wallet owner db =
     (if \<not> wallet_owned wallet owner db
      then \<lparr>ws_tx_count = 0, ws_earliest_timestamp = None, ws_latest_timestamp = None, ws_network_count = 0, ws_unique_assets = 0,
            ws_per_network = []\<rparr>
      else let rows = wallet_raws wallet owner db; networks = sort (remdups (map raw_network rows))
           in \<lparr>ws_tx_count = int (length (remdups (map raw_id rows))),
               ws_earliest_timestamp = min_opt (map raw_timestamp rows), ws_latest_timestamp = max_opt (map raw_timestamp rows),
               ws_network_count = int (length networks),
               ws_unique_assets = int (length (remdups (map wl_asset_symbol (filter (\<lambda>r. wl_wallet_address r = wallet) (db_ledger db))))),
               ws_per_network = map (\<lambda>n. (n, int (length (remdups (map raw_id (filter (\<lambda>r. raw_network r = n) rows)))))) networks\<rparr>)"

section \<open>Handlers\<close>

definition wallet_guards ::
    "bool \<Rightarrow> string list option \<Rightarrow> authenticated_owner \<Rightarrow> string \<Rightarrow> 'd dataset_db \<Rightarrow> (app_error + 'a) \<Rightarrow> app_error + 'a" where
  "wallet_guards down allowed owner wallet db r =
     guard (validate_wallet wallet)
       (guard (check_wallet_allowed wallet allowed) (guard (check_wallet_owner down (db_targets db) wallet owner) r))"

definition get_transactions ::
    "(uuid \<Rightarrow> string \<Rightarrow> uuid) \<Rightarrow> (raw_transaction list \<Rightarrow> raw_transaction list) \<Rightarrow> bool \<Rightarrow> string list option \<Rightarrow> authenticated_owner \<Rightarrow>
     string \<Rightarrow> int option \<Rightarrow> int option \<Rightarrow> int option \<Rightarrow> int option \<Rightarrow> 'd dataset_db \<Rightarrow> app_error + transaction list" where
  "get_transactions vh sc down allowed owner wallet limit offset lo hi db =
     wallet_guards down allowed owner wallet db (guard (validate_date_range lo hi)
       (map_sum id (map (\<lambda>r. raw_tx_to_compat_tx vh r wallet))
         (repo_call down (get_wallet_transactions_v2 sc wallet owner (clamp_limit limit) (clamp_offset offset) lo hi db))))"

definition compat_entry :: "(uuid \<Rightarrow> string \<Rightarrow> uuid) \<Rightarrow> string \<Rightarrow> 'd wallet_ledger_record \<Rightarrow> 'd ledger_entry" where
  "compat_entry vh wallet r =
     \<lparr>le_id = wl_id r, le_transaction_id = (case wl_raw_transaction_id r of Some u \<Rightarrow> u | None \<Rightarrow> wl_id r),
      le_user_id = vh NAMESPACE_URL wallet, le_wallet_address = wl_wallet_address r, le_asset_symbol = wl_asset_symbol r,
      le_amount = wl_amount r,
      le_entry_type = (if wl_entry_type r = ''funding'' then ET_Fee
                       else case str_to_entry_type (wl_entry_type r) of Inr e \<Rightarrow> e | Inl _ \<Rightarrow> ET_Transfer),
      le_fiat_value = (case wl_proceeds r of Some v \<Rightarrow> Some v | None \<Rightarrow> wl_cost_basis r)\<rparr>"

definition get_ledger ::
    "(uuid \<Rightarrow> string \<Rightarrow> uuid) \<Rightarrow> ('d wallet_ledger_record list \<Rightarrow> 'd wallet_ledger_record list) \<Rightarrow> bool \<Rightarrow> string list option \<Rightarrow>
     authenticated_owner \<Rightarrow> string \<Rightarrow> int option \<Rightarrow> int option \<Rightarrow> int option \<Rightarrow> int option \<Rightarrow> 'd dataset_db \<Rightarrow>
     app_error + 'd ledger_entry list" where
  "get_ledger vh sc down allowed owner wallet limit offset lo hi db =
     wallet_guards down allowed owner wallet db (guard (validate_date_range lo hi)
       (map_sum id (map (compat_entry vh wallet))
         (repo_call down (get_wallet_ledger_v2 sc wallet owner (clamp_limit limit) (clamp_offset offset) lo hi db))))"

definition MAX_EXPORT_LIMIT :: int where
  "MAX_EXPORT_LIMIT = 10000"

fun format_entry_type :: "entry_type \<Rightarrow> string" where
  "format_entry_type ET_Trade = ''trade''"
| "format_entry_type ET_Fee = ''fee''"
| "format_entry_type ET_Transfer = ''transfer''"
| "format_entry_type ET_Staking = ''staking''"
| "format_entry_type ET_Income = ''income''"

definition ledger_csv :: "'d printers \<Rightarrow> 'd ledger_entry list \<Rightarrow> string" where
  "ledger_csv pr entries =
     ''id,transaction_id,wallet_address,asset_symbol,amount,entry_type,fiat_value'' @ [CHR 0x0A]
     @ concat (map (\<lambda>e. csv_line [Plain (pr_uuid pr (le_id e)), Plain (pr_uuid pr (le_transaction_id e)),
         Text (le_wallet_address e), Text (le_asset_symbol e), Plain (pr_num pr (le_amount e)),
         Plain (format_entry_type (le_entry_type e)), Plain (or_empty (pr_num pr) (le_fiat_value e))]) entries)"

text \<open>The content type and the body; \<open>js\<close> serializes the entries.\<close>

definition export_ledger ::
    "'d printers \<Rightarrow> ('d ledger_entry list \<Rightarrow> string) \<Rightarrow> (uuid \<Rightarrow> string \<Rightarrow> uuid) \<Rightarrow>
     ('d wallet_ledger_record list \<Rightarrow> 'd wallet_ledger_record list) \<Rightarrow> bool \<Rightarrow> string list option \<Rightarrow> authenticated_owner \<Rightarrow>
     string \<Rightarrow> string option \<Rightarrow> int option \<Rightarrow> int option \<Rightarrow> 'd dataset_db \<Rightarrow> app_error + string \<times> string" where
  "export_ledger pr js vh sc down allowed owner wallet fmt lo hi db =
     wallet_guards down allowed owner wallet db (guard (validate_date_range lo hi)
       (let fmt' = (case fmt of Some x \<Rightarrow> x | None \<Rightarrow> ''json'')
        in if fmt' \<noteq> ''csv'' \<and> fmt' \<noteq> ''json''
           then Inl (err_bad_request (''Unsupported format: '' @ fmt' @ ''. Use '' @ quoted ''csv'' @ '' or '' @ quoted ''json''))
           else map_sum id (\<lambda>rs. let entries = map (compat_entry vh wallet) rs
                in if fmt' = ''csv'' then (''text/csv; charset=utf-8'', ledger_csv pr entries) else (''application/json'', js entries))
             (repo_call down (get_wallet_ledger_v2 sc wallet owner MAX_EXPORT_LIMIT 0 lo hi db))))"

definition get_balances ::
    "bool \<Rightarrow> string list option \<Rightarrow> authenticated_owner \<Rightarrow> string \<Rightarrow> int option \<Rightarrow> ('d :: linordered_idom) dataset_db \<Rightarrow>
     app_error + (string \<times> 'd) list" where
  "get_balances down allowed owner wallet til db =
     wallet_guards down allowed owner wallet db (repo_call down (Inr (get_wallet_balances_v2 wallet owner til db)))"

definition get_single_transaction ::
    "(uuid \<Rightarrow> string \<Rightarrow> uuid) \<Rightarrow> (raw_transaction list \<Rightarrow> raw_transaction list) \<Rightarrow> bool \<Rightarrow> string list option \<Rightarrow> authenticated_owner \<Rightarrow>
     string \<Rightarrow> string \<Rightarrow> 'd dataset_db \<Rightarrow> app_error + transaction" where
  "get_single_transaction vh sc down allowed owner wallet txh db =
     wallet_guards down allowed owner wallet db
       (if down then Inl err_internal
        else case get_wallet_transaction_by_hash_v2 sc wallet txh owner db of
            Some r \<Rightarrow> Inr (raw_tx_to_compat_tx vh r wallet)
          | None \<Rightarrow> Inl (err_not_found ''Transaction not found''))"

definition get_wallet_stats ::
    "bool \<Rightarrow> string list option \<Rightarrow> authenticated_owner \<Rightarrow> string \<Rightarrow> 'd dataset_db \<Rightarrow> app_error + wallet_stats_v2" where
  "get_wallet_stats down allowed owner wallet db =
     wallet_guards down allowed owner wallet db (repo_call down (Inr (get_wallet_stats_v2 wallet owner db)))"

section \<open>Tenants and wallets\<close>

text \<open>A transaction is recorded for a wallet target of the tenant with that address.\<close>

definition tenant_raw :: "'d dataset_db \<Rightarrow> uuid \<Rightarrow> string \<Rightarrow> raw_transaction \<Rightarrow> bool" where
  "tenant_raw db u wallet r \<longleftrightarrow> r \<in> set (db_raws db)
     \<and> list_ex (\<lambda>t. wallet_target_of wallet (Some u) t
         \<and> list_ex (\<lambda>m. tm_raw_transaction_id m = raw_id r \<and> tm_target_id m = it_id t) (db_matches db)) (db_targets db)"

lemma wallet_raws_mem: "r \<in> set (wallet_raws wallet (Some u) db) \<Longrightarrow> tenant_raw db u wallet r"
  by (fastforce simp: wallet_raws_def tenant_raw_def list_ex_iff)

lemma wallet_guards_Inr:
  "wallet_guards down allowed owner wallet db r = Inr x \<longleftrightarrow> validate_wallet wallet = Inr () \<and> check_wallet_allowed wallet allowed = Inr ()
     \<and> check_wallet_owner down (db_targets db) wallet owner = Inr () \<and> r = Inr x"
  by (auto simp: wallet_guards_def guard_Inr)

text \<open>The balances of a wallet: the sums over its rows up to a time, without the assets that sum up to zero.\<close>

definition wallet_rows :: "string \<Rightarrow> int option \<Rightarrow> string \<Rightarrow> 'd dataset_db \<Rightarrow> 'd wallet_ledger_record list" where
  "wallet_rows wallet til a db = filter (\<lambda>r. wl_wallet_address r = wallet \<and> wl_asset_symbol r = a
     \<and> (case til of Some t \<Rightarrow> wl_timestamp r \<le> t | None \<Rightarrow> True)) (db_ledger db)"

lemma balances_pinned:
  assumes "wallet_owned wallet owner db" "bs = get_wallet_balances_v2 wallet owner til db"
  shows "sorted (map fst bs) \<and> distinct (map fst bs)
    \<and> (\<forall>a v. (a, v) \<in> set bs \<longleftrightarrow> v = (\<Sum>r \<leftarrow> wallet_rows wallet til a db. wl_amount r) \<and> v \<noteq> 0)"
proof -
  let ?rows = "filter (\<lambda>r. wl_wallet_address r = wallet \<and> between None til (wl_timestamp r)) (db_ledger db)"
  let ?as = "sort (remdups (map wl_asset_symbol ?rows))"
  have bs: "bs = filter (\<lambda>(a, v). v \<noteq> 0) (map (\<lambda>a. (a, asset_sum a ?rows)) ?as)"
    using assms by (simp add: get_wallet_balances_v2_def Let_def)
  have sum: "asset_sum a ?rows = (\<Sum>r \<leftarrow> wallet_rows wallet til a db. wl_amount r)" for a
    by (simp add: asset_sum_def wallet_rows_def between_def in_window_def conj_ac)
  have mem: "a \<in> set ?as" if "asset_sum a ?rows \<noteq> 0" for a
  proof (rule ccontr)
    assume "a \<notin> set ?as"
    then have "filter (\<lambda>r. wl_asset_symbol r = a) ?rows = []" by (auto simp: filter_empty_conv)
    then show False using that unfolding asset_sum_def by (simp only: list.map sum_list.Nil)
  qed
  have fst: "map fst bs = filter (\<lambda>a. asset_sum a ?rows \<noteq> 0) ?as" by (simp add: bs filter_map comp_def)
  have "sorted (map fst bs)" "distinct (map fst bs)" unfolding fst by (simp_all add: sorted_wrt_filter)
  moreover have "(a, v) \<in> set bs \<longleftrightarrow> v = asset_sum a ?rows \<and> v \<noteq> 0" for a v
    using mem [of a] by (auto simp: bs)
  ultimately show ?thesis unfolding sum by blast
qed


lemma sample_transactions:
  "get_transactions (\<lambda>_ _. 0) id False None (Some 7) ''w'' None None None None sample_tables = Inr [raw_tx_to_compat_tx (\<lambda>_ _. 0) sample_raw ''w'']"
  by code_simp


section \<open>Balances\<close>

definition balance_of :: "(string \<times> 'd) list \<Rightarrow> string \<Rightarrow> 'd :: linordered_idom" where
  "balance_of bs a = (case map_of bs a of Some v \<Rightarrow> v | None \<Rightarrow> 0)"

lemma map_of_nonzero:
  "balance_of (filter (\<lambda>(a, v). v \<noteq> 0) (map (\<lambda>a. (a, g a)) ks)) a = (if a \<in> set ks then g a else (0 :: 'd :: linordered_idom))"
  by (induction ks) (auto simp: balance_of_def split: option.splits)

lemma balance_of_ledger:
  assumes "wallet_owned wallet owner db"
  shows "balance_of (get_wallet_balances_v2 wallet owner None db) a =
    asset_sum a (filter (\<lambda>r. wl_wallet_address r = wallet) (db_ledger db))"
proof -
  let ?rows = "filter (\<lambda>r. wl_wallet_address r = wallet) (db_ledger db)"
  have "asset_sum a ?rows = 0" if "a \<notin> wl_asset_symbol ` set ?rows"
  proof -
    have "filter (\<lambda>r. wl_asset_symbol r = a) ?rows = []" using that by (auto simp: filter_empty_conv)
    then show ?thesis unfolding asset_sum_def by (simp only: list.map sum_list.Nil)
  qed
  then show ?thesis
    using assms by (auto simp: get_wallet_balances_v2_def between_def in_window_def map_of_nonzero Let_def)
qed

end
