(* ===== verification/Hl_Parser.thy ===== *)
theory Hl_Parser
  imports Ledger
begin

text \<open>
  The Hyperliquid parser, \<open>adapters/src/hyperliquid_parser.rs\<close>, with the response types it reads
  (\<open>adapters/src/hyperliquid.rs\<close>): the legacy ledger entries of a fill, a funding payment or a
  ledger update, and the Silver records extracted from the same raw metadata.

  \<open>bd\<close> is \<open>BigDecimal::from_str\<close>; \<open>fid\<close> and \<open>now\<close> are the random id and the clock. A failed
  \<open>serde_json::from_value\<close> is \<open>None\<close>, the error text is not kept.
\<close>

section \<open>Deserialization\<close>

text \<open>
  A derived \<open>Deserialize\<close> of a struct reads an object by field names, ignoring unknown ones, or an
  array by positions when it has exactly as many elements as the struct has fields. In an object a missing
  \<open>Option\<close> field is \<open>None\<close>; \<open>null\<close> is \<open>None\<close> in both forms.
\<close>

definition de_shape :: "nat \<Rightarrow> json \<Rightarrow> bool" where
  "de_shape n v \<longleftrightarrow> (case v of JObject _ \<Rightarrow> True | JArray xs \<Rightarrow> length xs = n | _ \<Rightarrow> False)"

definition de_field :: "json \<Rightarrow> nat \<Rightarrow> string \<Rightarrow> json option" where
  "de_field v i k = (case v of JObject m \<Rightarrow> map_of m k | JArray xs \<Rightarrow> if i < length xs then Some (xs ! i) else None | _ \<Rightarrow> None)"

definition de_req :: "(json \<Rightarrow> 'a option) \<Rightarrow> json option \<Rightarrow> 'a option" where
  "de_req de f = Option.bind f de"

definition de_opt :: "(json \<Rightarrow> 'a option) \<Rightarrow> json option \<Rightarrow> 'a option option" where
  "de_opt de f = (case f of None \<Rightarrow> Some None | Some v \<Rightarrow> if v = JNull then Some None else map_option Some (de v))"

record hl_fill =
  hf_coin :: string
  hf_px :: string
  hf_sz :: string
  hf_side :: string
  hf_time :: nat
  hf_hash :: string
  hf_start_position :: "string option"
  hf_dir :: "string option"
  hf_closed_pnl :: "string option"
  hf_fee :: "string option"
  hf_tid :: "nat option"
  hf_oid :: "nat option"
  hf_fee_token :: "string option"

record hl_funding_entry =
  hfe_time :: nat
  hfe_coin :: string
  hfe_usdc :: string
  hfe_funding_rate :: "string option"
  hfe_hash :: "string option"
  hfe_n_samples :: "nat option"

record hl_ledger_update =
  hlu_time :: nat
  hlu_hash :: string
  hlu_delta :: json

definition de_hl_fill :: "json \<Rightarrow> hl_fill option" where
  "de_hl_fill v =
     (if \<not> de_shape 13 v then None
      else case (de_req json_as_str (de_field v 0 ''coin''), de_req json_as_str (de_field v 1 ''px''),
                 de_req json_as_str (de_field v 2 ''sz''), de_req json_as_str (de_field v 3 ''side''),
                 de_req json_as_u64 (de_field v 4 ''time''), de_req json_as_str (de_field v 5 ''hash'')) of
        (Some coin, Some px, Some sz, Some side, Some time, Some hash) \<Rightarrow>
          (case (de_opt json_as_str (de_field v 6 ''startPosition''), de_opt json_as_str (de_field v 7 ''dir''),
                 de_opt json_as_str (de_field v 8 ''closedPnl''), de_opt json_as_str (de_field v 9 ''fee''),
                 de_opt json_as_u64 (de_field v 10 ''tid''), de_opt json_as_u64 (de_field v 11 ''oid''),
                 de_opt json_as_str (de_field v 12 ''feeToken'')) of
             (Some start_position, Some dir, Some closed_pnl, Some fee, Some tid, Some oid, Some fee_token) \<Rightarrow>
               Some \<lparr>hf_coin = coin, hf_px = px, hf_sz = sz, hf_side = side, hf_time = time, hf_hash = hash,
                 hf_start_position = start_position, hf_dir = dir, hf_closed_pnl = closed_pnl, hf_fee = fee,
                 hf_tid = tid, hf_oid = oid, hf_fee_token = fee_token\<rparr>
           | _ \<Rightarrow> None)
      | _ \<Rightarrow> None)"

definition de_hl_funding_entry :: "json \<Rightarrow> hl_funding_entry option" where
  "de_hl_funding_entry v =
     (if \<not> de_shape 6 v then None
      else case (de_req json_as_u64 (de_field v 0 ''time''), de_req json_as_str (de_field v 1 ''coin''),
                 de_req json_as_str (de_field v 2 ''usdc''), de_opt json_as_str (de_field v 3 ''fundingRate''),
                 de_opt json_as_str (de_field v 4 ''hash''), de_opt json_as_u64 (de_field v 5 ''nSamples'')) of
        (Some time, Some coin, Some usdc, Some rate, Some hash, Some samples) \<Rightarrow>
          Some \<lparr>hfe_time = time, hfe_coin = coin, hfe_usdc = usdc, hfe_funding_rate = rate, hfe_hash = hash,
            hfe_n_samples = samples\<rparr>
      | _ \<Rightarrow> None)"

text \<open>The field \<open>delta\<close> is any value, so it must only be present.\<close>

definition de_hl_ledger_update :: "json \<Rightarrow> hl_ledger_update option" where
  "de_hl_ledger_update v =
     (if \<not> de_shape 3 v then None
      else case (de_req json_as_u64 (de_field v 0 ''time''), de_req json_as_str (de_field v 1 ''hash''), de_field v 2 ''delta'') of
        (Some time, Some hash, Some delta) \<Rightarrow> Some \<lparr>hlu_time = time, hlu_hash = hash, hlu_delta = delta\<rparr>
      | _ \<Rightarrow> None)"

definition u64_to_i64_or_max :: "nat \<Rightarrow> int" where
  "u64_to_i64_or_max n = (if int n \<le> i64_max then int n else i64_max)"

definition str_or :: "json \<Rightarrow> string \<Rightarrow> string" where
  "str_or v d = (case json_as_str v of Some s \<Rightarrow> s | None \<Rightarrow> d)"

definition hl_type :: "json \<Rightarrow> string" where
  "hl_type raw = str_or (json_index raw ''type'') ''unknown''"

section \<open>The legacy ledger parser\<close>

definition hl_entry ::
    "(uuid \<Rightarrow> string \<Rightarrow> uuid) \<Rightarrow> (uuid \<Rightarrow> string) \<Rightarrow> transaction \<Rightarrow> u32 \<Rightarrow> string \<Rightarrow> 'd \<Rightarrow> entry_type \<Rightarrow> 'd option \<Rightarrow> 'd ledger_entry" where
  "hl_entry vh us tx i symbol amount etype fiat =
     \<lparr>le_id = deterministic_id vh us (tx_id tx) i, le_transaction_id = tx_id tx, le_user_id = tx_user_id tx,
      le_wallet_address = tx_wallet_address tx, le_asset_symbol = symbol, le_amount = amount, le_entry_type = etype,
      le_fiat_value = fiat\<rparr>"

text \<open>\<open>BigDecimal::from_str\<close> of an optional amount; a malformed amount counts as zero.\<close>

definition amount_or_zero :: "(string \<Rightarrow> ('d :: linordered_idom) option) \<Rightarrow> string \<Rightarrow> 'd" where
  "amount_or_zero bd s = (case bd s of Some v \<Rightarrow> v | None \<Rightarrow> 0)"

definition parse_fill ::
    "(string \<Rightarrow> ('d :: linordered_idom) option) \<Rightarrow> (uuid \<Rightarrow> string \<Rightarrow> uuid) \<Rightarrow> (uuid \<Rightarrow> string) \<Rightarrow> transaction \<Rightarrow> json \<Rightarrow>
     'd ledger_entry list option" where
  "parse_fill bd vh us tx data =
     (case de_hl_fill data of
        None \<Rightarrow> None
      | Some fill \<Rightarrow>
          (case bd (hf_sz fill) of
             None \<Rightarrow> Some []
           | Some sz \<Rightarrow>
               (case bd (hf_px fill) of
                  None \<Rightarrow> Some []
                | Some price \<Rightarrow>
                    (let signed = (if hf_side fill = ''B'' then sz else - sz);
                         (es1, i1) = ([hl_entry vh us tx 0 (hf_coin fill) signed ET_Trade (Some (sz * price))], 1);
                         (es2, i2) =
                           (case hf_fee fill of
                              None \<Rightarrow> (es1, i1)
                            | Some fee_str \<Rightarrow>
                                (let fee = amount_or_zero bd fee_str
                                 in if fee \<noteq> 0
                                    then (es1 @ [hl_entry vh us tx i1 (case hf_fee_token fill of Some t \<Rightarrow> t | None \<Rightarrow> ''USDC'')
                                                   (- fee) ET_Fee None], i1 + 1)
                                    else (es1, i1)));
                         (es3, i3) =
                           (case hf_closed_pnl fill of
                              None \<Rightarrow> (es2, i2)
                            | Some pnl_str \<Rightarrow>
                                (let pnl = amount_or_zero bd pnl_str
                                 in if pnl \<noteq> 0 then (es2 @ [hl_entry vh us tx i2 ''USDC'' pnl ET_Income None], i2 + 1)
                                    else (es2, i2)))
                     in Some es3))))"

definition parse_funding ::
    "(string \<Rightarrow> ('d :: linordered_idom) option) \<Rightarrow> (uuid \<Rightarrow> string \<Rightarrow> uuid) \<Rightarrow> (uuid \<Rightarrow> string) \<Rightarrow> transaction \<Rightarrow> json \<Rightarrow>
     'd ledger_entry list option" where
  "parse_funding bd vh us tx data =
     (case de_hl_funding_entry data of
        None \<Rightarrow> None
      | Some funding \<Rightarrow>
          (case bd (hfe_usdc funding) of
             None \<Rightarrow> Some []
           | Some amount \<Rightarrow> Some [hl_entry vh us tx 0 ''USDC'' amount (if amount > 0 then ET_Income else ET_Fee) None]))"

definition parse_ledger_update ::
    "(string \<Rightarrow> ('d :: linordered_idom) option) \<Rightarrow> (uuid \<Rightarrow> string \<Rightarrow> uuid) \<Rightarrow> (uuid \<Rightarrow> string) \<Rightarrow> transaction \<Rightarrow> json \<Rightarrow>
     'd ledger_entry list option" where
  "parse_ledger_update bd vh us tx data =
     (case de_hl_ledger_update data of
        None \<Rightarrow> None
      | Some update \<Rightarrow>
          (let delta = hlu_delta update; delta_type = str_or (json_index delta ''type'') ''unknown'';
               usdc = str_or (json_index delta ''usdc'') ''0''
           in if delta_type = ''deposit''
              then (case bd usdc of None \<Rightarrow> Some [] | Some amount \<Rightarrow> Some [hl_entry vh us tx 0 ''USDC'' amount ET_Transfer None])
              else if delta_type = ''withdraw''
              then (case bd usdc of None \<Rightarrow> Some [] | Some amount \<Rightarrow> Some [hl_entry vh us tx 0 ''USDC'' (- \<bar>amount\<bar>) ET_Transfer None])
              else if delta_type = ''liquidation''
              then (case bd (case json_as_str (json_index delta ''usdc'') of Some s \<Rightarrow> s
                             | None \<Rightarrow> str_or (json_index delta ''accountValue'') ''0'') of
                      None \<Rightarrow> Some [] | Some amount \<Rightarrow> Some [hl_entry vh us tx 0 ''USDC'' amount ET_Trade None])
              else Some []))"

definition parse_hyperliquid_transaction ::
    "(string \<Rightarrow> ('d :: linordered_idom) option) \<Rightarrow> (uuid \<Rightarrow> string \<Rightarrow> uuid) \<Rightarrow> (uuid \<Rightarrow> string) \<Rightarrow> transaction \<Rightarrow>
     'd ledger_entry list option" where
  "parse_hyperliquid_transaction bd vh us tx =
     (let raw = tx_raw_metadata tx; entry_type = hl_type raw
      in if entry_type = ''fill'' then parse_fill bd vh us tx (json_index raw ''data'')
         else if entry_type = ''funding'' then parse_funding bd vh us tx (json_index raw ''data'')
         else if entry_type = ''ledger_update'' then parse_ledger_update bd vh us tx (json_index raw ''data'')
         else Some [])"

section \<open>Silver records\<close>

definition usdc_transfer ::
    "uuid \<Rightarrow> timestamp \<Rightarrow> uuid option \<Rightarrow> string \<Rightarrow> string \<Rightarrow> string \<Rightarrow> 'd \<Rightarrow> 'd token_transfer" where
  "usdc_transfer fid now raw_tx_id network source dest amount =
     \<lparr>tt_id = fid, tt_raw_transaction_id = raw_tx_id, tt_network = network, tt_token_address = ''USDC'',
      tt_token_symbol = Some ''USDC'', tt_from_address = source, tt_to_address = dest, tt_amount = amount,
      tt_decimals = 6, tt_transfer_index = 0, tt_dataset_version_id = None, tt_created_at = now\<rparr>"

definition extract_hyperliquid_token_transfers ::
    "(string \<Rightarrow> ('d :: linordered_idom) option) \<Rightarrow> uuid \<Rightarrow> timestamp \<Rightarrow> uuid option \<Rightarrow> string \<Rightarrow> string \<Rightarrow> json \<Rightarrow> 'd token_transfer list" where
  "extract_hyperliquid_token_transfers bd fid now raw_tx_id network wallet raw =
     (if hl_type raw = ''ledger_update''
      then let delta = json_index (json_index raw ''data'') ''delta'';
               delta_type = str_or (json_index delta ''type'') ''unknown'';
               usdc = str_or (json_index delta ''usdc'') ''0''
           in if delta_type = ''deposit''
              then (case bd usdc of
                      None \<Rightarrow> []
                    | Some amount \<Rightarrow> if amount = 0 then [] else [usdc_transfer fid now raw_tx_id network ''external'' wallet amount])
              else if delta_type = ''withdraw''
              then (case map_option abs (bd usdc) of
                      None \<Rightarrow> []
                    | Some amount \<Rightarrow> if amount = 0 then [] else [usdc_transfer fid now raw_tx_id network wallet ''external'' amount])
              else []
      else [])"

definition usdc_delta ::
    "uuid \<Rightarrow> timestamp \<Rightarrow> uuid option \<Rightarrow> string \<Rightarrow> string \<Rightarrow> bool \<Rightarrow> ('d :: linordered_idom) \<Rightarrow> 'd native_balance_delta" where
  "usdc_delta fid now raw_tx_id network wallet payer delta =
     \<lparr>nbd_id = fid, nbd_raw_transaction_id = raw_tx_id, nbd_network = network, nbd_account_address = wallet,
      nbd_native_token = ''USDC'', nbd_pre_balance = 0, nbd_post_balance = 0, nbd_delta = delta,
      nbd_is_fee_payer = payer, nbd_dataset_version_id = None, nbd_created_at = now\<rparr>"

text \<open>An absent amount is zero, a malformed one gives up.\<close>

definition strict_amount :: "(string \<Rightarrow> ('d :: linordered_idom) option) \<Rightarrow> string option \<Rightarrow> 'd option" where
  "strict_amount bd s = (case s of None \<Rightarrow> Some 0 | Some t \<Rightarrow> bd t)"

definition extract_hyperliquid_native_balance_deltas ::
    "(string \<Rightarrow> ('d :: linordered_idom) option) \<Rightarrow> uuid \<Rightarrow> timestamp \<Rightarrow> uuid option \<Rightarrow> string \<Rightarrow> string \<Rightarrow> json \<Rightarrow>
     'd native_balance_delta list" where
  "extract_hyperliquid_native_balance_deltas bd fid now raw_tx_id network wallet raw =
     (if hl_type raw = ''fill''
      then case de_hl_fill (json_index raw ''data'') of
          None \<Rightarrow> []
        | Some fill \<Rightarrow>
            (case strict_amount bd (hf_fee fill) of
               None \<Rightarrow> []
             | Some fee \<Rightarrow>
                 (case strict_amount bd (hf_closed_pnl fill) of
                    None \<Rightarrow> []
                  | Some pnl \<Rightarrow> if pnl - fee = 0 then [] else [usdc_delta fid now raw_tx_id network wallet True (pnl - fee)]))
      else if hl_type raw = ''funding''
      then case de_hl_funding_entry (json_index raw ''data'') of
          None \<Rightarrow> []
        | Some funding \<Rightarrow>
            (case bd (hfe_usdc funding) of
               None \<Rightarrow> []
             | Some delta \<Rightarrow> if delta = 0 then [] else [usdc_delta fid now raw_tx_id network wallet False delta])
      else [])"

definition extract_hl_fill_records ::
    "(string \<Rightarrow> ('d :: linordered_idom) option) \<Rightarrow> uuid \<Rightarrow> timestamp \<Rightarrow> uuid option \<Rightarrow> string \<Rightarrow> json \<Rightarrow> 'd hl_fill_record list" where
  "extract_hl_fill_records bd fid now raw_tx_id network raw =
     (if hl_type raw \<noteq> ''fill'' then []
      else case de_hl_fill (json_index raw ''data'') of
        None \<Rightarrow> []
      | Some fill \<Rightarrow>
          (case bd (hf_px fill) of
             None \<Rightarrow> []
           | Some price \<Rightarrow>
               (case bd (hf_sz fill) of
                  None \<Rightarrow> []
                | Some sz \<Rightarrow>
                    [\<lparr>fill_id = fid, fill_raw_transaction_id = raw_tx_id, fill_network = network,
                      fill_coin = hf_coin fill, fill_side = hf_side fill, fill_price = price, fill_size = sz,
                      fill_direction = hf_dir fill, fill_closed_pnl = Option.bind (hf_closed_pnl fill) bd,
                      fill_fee = Option.bind (hf_fee fill) bd, fill_fee_token = hf_fee_token fill,
                      fill_fill_time = u64_to_i64_or_max (hf_time fill),
                      fill_order_id = map_option u64_to_i64_or_max (hf_oid fill),
                      fill_trade_id = map_option u64_to_i64_or_max (hf_tid fill),
                      fill_dataset_version_id = None, fill_created_at = now\<rparr>])))"

definition extract_hl_funding_payments ::
    "(string \<Rightarrow> ('d :: linordered_idom) option) \<Rightarrow> uuid \<Rightarrow> timestamp \<Rightarrow> uuid option \<Rightarrow> string \<Rightarrow> json \<Rightarrow> 'd hl_funding_payment list" where
  "extract_hl_funding_payments bd fid now raw_tx_id network raw =
     (if hl_type raw \<noteq> ''funding'' then []
      else case de_hl_funding_entry (json_index raw ''data'') of
        None \<Rightarrow> []
      | Some funding \<Rightarrow>
          (case bd (hfe_usdc funding) of
             None \<Rightarrow> []
           | Some amount \<Rightarrow>
               [\<lparr>fund_id = fid, fund_raw_transaction_id = raw_tx_id, fund_network = network, fund_coin = hfe_coin funding,
                 fund_amount = amount, fund_funding_rate = Option.bind (hfe_funding_rate funding) bd,
                 fund_payment_time = u64_to_i64_or_max (hfe_time funding), fund_dataset_version_id = None,
                 fund_created_at = now\<rparr>]))"

definition extract_position_change_from_fill ::
    "(string \<Rightarrow> ('d :: linordered_idom) option) \<Rightarrow> uuid \<Rightarrow> timestamp \<Rightarrow> uuid option \<Rightarrow> string \<Rightarrow> json \<Rightarrow> 'd hl_position_change list" where
  "extract_position_change_from_fill bd fid now raw_tx_id network raw =
     (case de_hl_fill (json_index raw ''data'') of
        None \<Rightarrow> []
      | Some fill \<Rightarrow>
          (case bd (hf_sz fill) of
             None \<Rightarrow> []
           | Some sz \<Rightarrow>
               (case bd (hf_px fill) of
                  None \<Rightarrow> []
                | Some price \<Rightarrow>
                    [\<lparr>pos_id = fid, pos_raw_transaction_id = raw_tx_id, pos_network = network, pos_coin = hf_coin fill,
                      pos_side = hf_side fill, pos_size_delta = (if hf_side fill = ''B'' then sz else - sz),
                      pos_price = price, pos_direction = hf_dir fill, pos_source_event = ''fill'',
                      pos_dataset_version_id = None, pos_created_at = now\<rparr>])))"

definition extract_position_change_from_liquidation ::
    "(string \<Rightarrow> ('d :: linordered_idom) option) \<Rightarrow> uuid \<Rightarrow> timestamp \<Rightarrow> uuid option \<Rightarrow> string \<Rightarrow> json \<Rightarrow> 'd hl_position_change list" where
  "extract_position_change_from_liquidation bd fid now raw_tx_id network raw =
     (let delta = json_index (json_index raw ''data'') ''delta''
      in if str_or (json_index delta ''type'') ''unknown'' \<noteq> ''liquidation'' then []
         else case bd (str_or (json_index delta ''sz'') ''0'') of
           None \<Rightarrow> []
         | Some sz \<Rightarrow>
             (case bd (str_or (json_index delta ''px'') ''0'') of
                None \<Rightarrow> []
              | Some price \<Rightarrow>
                  if sz = 0 then []
                  else let side = str_or (json_index delta ''side'') ''A''
                       in [\<lparr>pos_id = fid, pos_raw_transaction_id = raw_tx_id, pos_network = network,
                            pos_coin = str_or (json_index delta ''coin'') ''UNKNOWN'', pos_side = side,
                            pos_size_delta = (if side = ''B'' then sz else - sz), pos_price = price,
                            pos_direction = Some ''Liquidation'', pos_source_event = ''liquidation'',
                            pos_dataset_version_id = None, pos_created_at = now\<rparr>]))"

definition extract_hl_position_changes ::
    "(string \<Rightarrow> ('d :: linordered_idom) option) \<Rightarrow> uuid \<Rightarrow> timestamp \<Rightarrow> uuid option \<Rightarrow> string \<Rightarrow> json \<Rightarrow> 'd hl_position_change list" where
  "extract_hl_position_changes bd fid now raw_tx_id network raw =
     (if hl_type raw = ''fill'' then extract_position_change_from_fill bd fid now raw_tx_id network raw
      else if hl_type raw = ''ledger_update'' then extract_position_change_from_liquidation bd fid now raw_tx_id network raw
      else [])"

section \<open>The two ledgers agree\<close>

text \<open>The Silver records of one raw transaction of a wallet.\<close>

definition hl_silver ::
    "(string \<Rightarrow> ('d :: linordered_idom) option) \<Rightarrow> uuid \<Rightarrow> timestamp \<Rightarrow> uuid option \<Rightarrow> string \<Rightarrow> string \<Rightarrow> json \<Rightarrow> 'd silver_records" where
  "hl_silver bd fid now raw_tx_id network wallet raw =
     \<lparr>sr_token_transfers = extract_hyperliquid_token_transfers bd fid now raw_tx_id network wallet raw,
      sr_native_balance_deltas = extract_hyperliquid_native_balance_deltas bd fid now raw_tx_id network wallet raw,
      sr_hl_fills = extract_hl_fill_records bd fid now raw_tx_id network raw,
      sr_hl_funding = extract_hl_funding_payments bd fid now raw_tx_id network raw\<rparr>"

definition entries_or_none :: "'a list option \<Rightarrow> 'a list" where
  "entries_or_none r = (case r of Some es \<Rightarrow> es | None \<Rightarrow> [])"

lemma hl_entry_eq:
  "hl_entry vh us tx i symbol amount etype fiat =
     ledger_entry_of vh us (tx_wallet_address tx) (tx_user_id tx) (tx_id tx) symbol amount etype fiat i"
  by (simp add: hl_entry_def ledger_entry_of_def)

lemma parse_fill_eq:
  "entries_or_none (parse_fill bd vh us tx (json_index raw ''data'')) =
     fst (derive_ledger_from_hl_fills vh us (tx_wallet_address tx) (tx_user_id tx) (tx_id tx)
       (extract_hl_fill_records bd fid now raw_tx_id network raw) 0)"
  if "hl_type raw = ''fill''"
proof (cases "de_hl_fill (json_index raw ''data'')")
  case None
  then show ?thesis using that
    by (simp add: entries_or_none_def parse_fill_def extract_hl_fill_records_def derive_ledger_from_hl_fills_def)
next
  case (Some fill)
  show ?thesis
  proof (cases "bd (hf_px fill)"; cases "bd (hf_sz fill)")
    fix p q assume "bd (hf_px fill) = Some p" "bd (hf_sz fill) = Some q"
    then show ?thesis using that Some
      by (cases "hf_fee fill"; cases "hf_closed_pnl fill")
        (auto simp: entries_or_none_def parse_fill_def extract_hl_fill_records_def derive_ledger_from_hl_fills_def
          hl_fill_body_def push_def nonzero_opt_def amount_or_zero_def signed_size_def fee_token_or_usdc_def hl_entry_eq
          split: option.splits)
  qed (use that Some in \<open>simp_all add: entries_or_none_def parse_fill_def extract_hl_fill_records_def derive_ledger_from_hl_fills_def\<close>)
qed

lemma parse_funding_eq:
  "entries_or_none (parse_funding bd vh us tx (json_index raw ''data'')) =
     fst (derive_ledger_from_hl_funding vh us (tx_wallet_address tx) (tx_user_id tx) (tx_id tx)
       (extract_hl_funding_payments bd fid now raw_tx_id network raw) 0)"
  if "hl_type raw = ''funding''"
  using that
  by (auto simp: entries_or_none_def parse_funding_def extract_hl_funding_payments_def derive_ledger_from_hl_funding_def
      hl_funding_body_def push_def hl_entry_eq split: option.splits)

lemma derive_hl:
  "derive_all_ledger_entries vh us Chain_Hyperliquid wallet user tx r =
     fst (derive_ledger_from_hl_fills vh us wallet user tx (sr_hl_fills r) 0)
     @ fst (derive_ledger_from_hl_funding vh us wallet user tx (sr_hl_funding r)
         (snd (derive_ledger_from_hl_fills vh us wallet user tx (sr_hl_fills r) 0)))"
  by (simp add: derive_all_ledger_entries_def case_prod_unfold Let_def)

lemma derive_hl_nil [simp]:
  "derive_ledger_from_hl_fills vh us wallet user tx [] off = ([], off)"
  "derive_ledger_from_hl_funding vh us wallet user tx [] off = ([], off)"
  by (simp_all add: derive_ledger_from_hl_fills_def derive_ledger_from_hl_funding_def)

definition cash_moves :: "('d :: linordered_idom) ledger_entry list \<Rightarrow> 'd" where
  "cash_moves es = (\<Sum>e \<leftarrow> es. if le_entry_type e = ET_Transfer then le_amount e else 0)"

definition cash_received :: "string \<Rightarrow> ('d :: linordered_idom) token_transfer list \<Rightarrow> 'd" where
  "cash_received wallet ts = (\<Sum>t \<leftarrow> ts. if tt_to_address t = wallet then tt_amount t else - tt_amount t)"

lemma ledger_update_cash:
  assumes "parse_ledger_update bd vh us tx (JObject m) = Some es" "hl_type raw = ''ledger_update''"
    "json_index raw ''data'' = JObject m" "wallet \<noteq> ''external''"
  shows "cash_moves es = cash_received wallet (extract_hyperliquid_token_transfers bd fid now raw_tx_id network wallet raw)"
proof -
  obtain u where u: "de_hl_ledger_update (JObject m) = Some u"
    using assms(1) by (cases "de_hl_ledger_update (JObject m)") (simp_all add: parse_ledger_update_def)
  have "hlu_delta u = json_index (JObject m) ''delta''"
    using u by (auto simp: de_hl_ledger_update_def de_shape_def de_field_def json_index_def split: option.splits)
  then show ?thesis
    using assms u
    by (auto simp: parse_ledger_update_def extract_hyperliquid_token_transfers_def Let_def cash_moves_def cash_received_def
        usdc_transfer_def hl_entry_def split: option.splits if_splits)
qed

lemma hl_ledgers_parts:
  fixes bd :: "string \<Rightarrow> ('d :: linordered_idom) option"
  assumes raw: "raw = tx_raw_metadata tx" and wallet: "wallet = tx_wallet_address tx"
    and silver: "silver = hl_silver bd fid now raw_tx_id network wallet raw"
  shows "hl_type raw \<noteq> ''ledger_update'' \<Longrightarrow>
      entries_or_none (parse_hyperliquid_transaction bd vh us tx)
        = derive_all_ledger_entries vh us Chain_Hyperliquid wallet (tx_user_id tx) (tx_id tx) silver"
    and "hl_type raw = ''ledger_update'' \<Longrightarrow> json_index raw ''data'' = JObject m \<Longrightarrow> wallet \<noteq> ''external'' \<Longrightarrow>
      parse_hyperliquid_transaction bd vh us tx = Some es \<Longrightarrow>
      derive_all_ledger_entries vh us Chain_Hyperliquid wallet (tx_user_id tx) (tx_id tx) silver = []
      \<and> cash_moves es = cash_received wallet (sr_token_transfers silver)"
proof -
  have fields: "sr_hl_fills silver = extract_hl_fill_records bd fid now raw_tx_id network raw"
    "sr_hl_funding silver = extract_hl_funding_payments bd fid now raw_tx_id network raw"
    "sr_token_transfers silver = extract_hyperliquid_token_transfers bd fid now raw_tx_id network wallet raw"
    by (simp_all add: silver hl_silver_def)
  have none: "hl_type raw \<noteq> ''fill'' \<Longrightarrow> extract_hl_fill_records bd fid now raw_tx_id network raw = []"
    "hl_type raw \<noteq> ''funding'' \<Longrightarrow> extract_hl_funding_payments bd fid now raw_tx_id network raw = []"
    by (simp_all add: extract_hl_fill_records_def extract_hl_funding_payments_def)
  show "entries_or_none (parse_hyperliquid_transaction bd vh us tx)
        = derive_all_ledger_entries vh us Chain_Hyperliquid wallet (tx_user_id tx) (tx_id tx) silver"
    if h: "hl_type raw \<noteq> ''ledger_update''"
  proof -
    consider "hl_type raw = ''fill''" | "hl_type raw = ''funding''" | "hl_type raw \<noteq> ''fill''" "hl_type raw \<noteq> ''funding''" by blast
    then show ?thesis
    proof cases
      case 1
      with parse_fill_eq [OF 1, of bd vh us tx fid now raw_tx_id network] none(2) show ?thesis
        by (simp add: derive_hl fields parse_hyperliquid_transaction_def raw wallet)
    next
      case 2
      with parse_funding_eq [OF 2, of bd vh us tx fid now raw_tx_id network] none(1) show ?thesis
        by (simp add: derive_hl fields parse_hyperliquid_transaction_def raw wallet)
    next
      case 3
      with none h show ?thesis by (simp add: derive_hl fields parse_hyperliquid_transaction_def raw entries_or_none_def)
    qed
  qed
  show "derive_all_ledger_entries vh us Chain_Hyperliquid wallet (tx_user_id tx) (tx_id tx) silver = []
      \<and> cash_moves es = cash_received wallet (sr_token_transfers silver)"
    if h: "hl_type raw = ''ledger_update''" "json_index raw ''data'' = JObject m" "wallet \<noteq> ''external''"
      "parse_hyperliquid_transaction bd vh us tx = Some es"
  proof -
    have "parse_ledger_update bd vh us tx (JObject m) = Some es"
      using h(1,2,4) by (simp add: parse_hyperliquid_transaction_def raw)
    from ledger_update_cash [OF this h(1-3)] show ?thesis using none h(1) by (simp add: derive_hl fields)
  qed
qed

text \<open>
  C17. The legacy and the derived ledger of a Hyperliquid transaction agree. The entries the legacy parser
  writes for a fill or a funding payment are exactly the entries derived from the Silver records
  extracted from the same metadata, with the same ids, and a transaction whose payload cannot be read gives no
  entries on either side. A deposit or withdrawal is not in the derived ledger; there the amount the parser books
  is what the extracted transfers move into the wallet.
\<close>

theorem hl_ledgers_agree:
  fixes bd :: "string \<Rightarrow> ('d :: linordered_idom) option"
  assumes raw: "raw = tx_raw_metadata tx" and wallet: "wallet = tx_wallet_address tx"
    and silver: "silver = hl_silver bd fid now raw_tx_id network wallet raw"
  shows "(hl_type raw \<noteq> ''ledger_update'' \<longrightarrow>
      entries_or_none (parse_hyperliquid_transaction bd vh us tx)
        = derive_all_ledger_entries vh us Chain_Hyperliquid wallet (tx_user_id tx) (tx_id tx) silver)
    \<and> (\<forall>m es. hl_type raw = ''ledger_update'' \<and> json_index raw ''data'' = JObject m \<and> wallet \<noteq> ''external''
          \<and> parse_hyperliquid_transaction bd vh us tx = Some es \<longrightarrow>
        derive_all_ledger_entries vh us Chain_Hyperliquid wallet (tx_user_id tx) (tx_id tx) silver = []
        \<and> cash_moves es = cash_received wallet (sr_token_transfers silver))"
  using hl_ledgers_parts [OF assms] by blast

definition sample_bd :: "string \<Rightarrow> int option" where
  "sample_bd s = (if s = ''2'' then Some 2 else if s = ''3'' then Some 3 else None)"

definition sample_hl_tx :: "json \<Rightarrow> transaction" where
  "sample_hl_tx raw = \<lparr>tx_id = 7, tx_user_id = 1, tx_wallet_address = ''0xab'', tx_timestamp = 0, tx_hash = ''h'',
     tx_chain = Chain_Hyperliquid, tx_raw_metadata = raw\<rparr>"

definition sample_fill_json :: json where
  "sample_fill_json = JObject [(''type'', JString ''fill''), (''data'', JObject [(''coin'', JString ''ETH''), (''px'', JString ''3''),
     (''sz'', JString ''2''), (''side'', JString ''A''), (''time'', JInt 5), (''hash'', JString ''h''),
     (''closedPnl'', JString ''3''), (''fee'', JString ''2'')])]"

definition sample_withdrawal :: json where
  "sample_withdrawal = JObject [(''type'', JString ''ledger_update''), (''data'', JObject [(''time'', JInt 5), (''hash'', JString ''h''),
     (''delta'', JObject [(''type'', JString ''withdraw''), (''usdc'', JString ''3'')])])]"

lemma sample_fill_type: "hl_type sample_fill_json = ''fill''" "map le_amount (entries_or_none
    (parse_hyperliquid_transaction sample_bd (\<lambda>ns s. 0) (\<lambda>u. ''u'') (sample_hl_tx sample_fill_json))) = [- 2, - 2, 3]"
  by code_simp+

theorem hl_ledgers_agree_witness:
  "map le_amount (derive_all_ledger_entries (\<lambda>ns s. 0) (\<lambda>u. ''u'') Chain_Hyperliquid ''0xab'' 1 7
      (hl_silver sample_bd 0 0 None ''hyperliquid-mainnet'' ''0xab'' sample_fill_json)) = [- 2, - 2, 3]
   \<and> cash_moves [hl_entry (\<lambda>ns s. 0) (\<lambda>u. ''u'') (sample_hl_tx sample_withdrawal) 0 ''USDC'' (- 3) ET_Transfer None]
     = cash_received ''0xab'' (extract_hyperliquid_token_transfers sample_bd 0 0 None ''hyperliquid-mainnet'' ''0xab'' sample_withdrawal)"
proof -
  have tx: "tx_raw_metadata (sample_hl_tx raw) = raw" "tx_wallet_address (sample_hl_tx raw) = ''0xab''"
    "tx_user_id (sample_hl_tx raw) = 1" "tx_id (sample_hl_tx raw) = 7" for raw by (simp_all add: sample_hl_tx_def)
  note agree = hl_ledgers_agree [where bd = sample_bd and vh = "\<lambda>ns s. 0" and us = "\<lambda>u. ''u''" and fid = 0 and now = 0
      and raw_tx_id = None and network = "''hyperliquid-mainnet''", OF refl refl refl, of "sample_hl_tx raw" for raw, unfolded tx]
  have w: "hl_type sample_withdrawal = ''ledger_update''" "\<exists>m. json_index sample_withdrawal ''data'' = JObject m"
    "parse_hyperliquid_transaction sample_bd (\<lambda>ns s. 0) (\<lambda>u. ''u'') (sample_hl_tx sample_withdrawal)
      = Some [hl_entry (\<lambda>ns s. 0) (\<lambda>u. ''u'') (sample_hl_tx sample_withdrawal) 0 ''USDC'' (- 3) ET_Transfer None]"
    by (code_simp, simp add: sample_withdrawal_def json_index_def, code_simp)
  show ?thesis using agree [of sample_fill_json] agree [of sample_withdrawal] sample_fill_type w
    by (auto simp: hl_silver_def)
qed

end
