(* ===== verification/Solana_Parser.thy ===== *)
theory Solana_Parser
  imports Ledger
begin

text \<open>
  The Solana parser, \<open>adapters/src/solana_parser.rs\<close>: the legacy ledger entries of a transaction, and
  the token transfers, native balance deltas and decoded events extracted from the same raw metadata.

  The transaction types and their deserializer belong to the crate \<open>solana_transaction_status\<close>. The
  records below have the parts of those types that the parser reads; the deserializer is the argument \<open>dec\<close>.
  \<open>sc n k\<close> is \<open>BigDecimal::new(n, k)\<close>, the decimal \<open>n * 10^-k\<close>; \<open>fid\<close> gives the random ids of the
  records in the order they are pushed, \<open>now\<close> is the clock. The states \<open>None\<close> and \<open>Skip\<close> of an
  \<open>OptionSerializer\<close>, which the parser never tells apart, are both \<open>None\<close>.
\<close>

section \<open>Transactions\<close>

record token_balance =
  tb_account_index :: nat
  tb_mint :: string
  tb_owner :: "string option"
  tb_amount :: string
  tb_decimals :: nat

datatype parsed_instruction =
    PI_Parsed (pi_program: string) (pi_program_id: string) (pi_parsed: json)
  | PI_PartiallyDecoded (pi_program_id: string) (pi_data: string) (pi_accounts: "string list")

datatype ui_instruction =
    UI_Parsed parsed_instruction
  | UI_Compiled (ci_program_id_index: nat) (ci_accounts: "nat list") (ci_data: string)

datatype ui_message =
    UM_Parsed "string list" "ui_instruction list"
  | UM_Raw "string list"

datatype encoded_transaction = Enc_Json ui_message | Enc_Binary

record status_meta =
  sm_err :: bool
  sm_fee :: nat
  sm_pre_balances :: "nat list"
  sm_post_balances :: "nat list"
  sm_inner_instructions :: "ui_instruction list list option"
  sm_pre_token_balances :: "token_balance list option"
  sm_post_token_balances :: "token_balance list option"
  sm_loaded_addresses :: "(string list \<times> string list) option"

record sol_tx =
  st_transaction :: encoded_transaction
  st_meta :: "status_meta option"

section \<open>Numbers\<close>

definition i128_max :: int where
  "i128_max = 2 ^ 127 - 1"

definition i128_min :: int where
  "i128_min = - (2 ^ 127)"

text \<open>\<open>str::parse::<i128>\<close>: an optional sign, at least one digit, and the value in range.\<close>

fun digits_value :: "string \<Rightarrow> int \<Rightarrow> int option" where
  "digits_value [] acc = Some acc"
| "digits_value (c # cs) acc =
     (if is_ascii_digit c then digits_value cs (10 * acc + (int (of_char c) - 48)) else None)"

definition parse_i128 :: "string \<Rightarrow> int option" where
  "parse_i128 s =
     (let (sgn, ds) = (case s of [] \<Rightarrow> (1, []) | c # cs \<Rightarrow> if c = CHR ''-'' then (- 1, cs) else if c = CHR ''+'' then (1, cs) else (1, s))
      in if ds = [] then None
         else case digits_value ds 0 of
           None \<Rightarrow> None
         | Some n \<Rightarrow> if i128_min \<le> sgn * n \<and> sgn * n \<le> i128_max then Some (sgn * n) else None)"

definition parse_token_amount_or_zero :: "string \<Rightarrow> int" where
  "parse_token_amount_or_zero s = (case parse_i128 s of Some n \<Rightarrow> n | None \<Rightarrow> 0)"

definition i128_saturate :: "int \<Rightarrow> int" where
  "i128_saturate n = max i128_min (min i128_max n)"

definition token_delta_raw :: "int \<Rightarrow> int \<Rightarrow> int" where
  "token_delta_raw post_raw pre_raw = i128_saturate (post_raw - pre_raw)"

definition token_delta_magnitude :: "int \<Rightarrow> int" where
  "token_delta_magnitude delta_raw = i128_saturate \<bar>delta_raw\<bar>"

text \<open>The decimals of a balance are a \<open>u8\<close>, so the conversion to \<open>i32\<close> cannot fail; its clamp is kept.\<close>

definition spl_token_decimals_i32 :: "nat \<Rightarrow> int" where
  "spl_token_decimals_i32 decimals = min (int decimals) (2 ^ 31 - 1)"

definition lamports_to_sol :: "(int \<Rightarrow> nat \<Rightarrow> 'd) \<Rightarrow> int \<Rightarrow> 'd" where
  "lamports_to_sol sc lamports = sc lamports 9"

definition token_raw_to_decimal :: "(int \<Rightarrow> nat \<Rightarrow> 'd) \<Rightarrow> int \<Rightarrow> nat \<Rightarrow> 'd" where
  "token_raw_to_decimal sc raw decimals = sc raw decimals"

definition spl_token_table :: "(string \<times> string) list" where
  "spl_token_table =
     [(''EPjFWdd5AufqSSqeM2qN1xzybapC8G4wEGGkZwyTDt1v'', ''USDC''),
      (''Es9vMFrzaCERmJfrF4H2FYD4KCoNkY11McCe8BenwNYB'', ''USDT''),
      (''So11111111111111111111111111111111111111112'', ''SOL''),
      (''mSoLzYCxHdYgdzU16g5QSh3i5K3z3KZK7ytfqcJm7So'', ''mSOL''),
      (''7vfCXTUXx5WJV5JADk17DUJ4ksgau7utNKj4b963voxs'', ''WETH''),
      (''DezXAZ8z7PnrnRJjz3wXBoRgixCa6xjnB7YaB1pPB263'', ''BONK''),
      (''JUPyiwrYJFskUPiHa7hkeR8VUtAeFoSYbKedZNsDvCN'', ''JUP''),
      (''7dHbWXmci3dT8UFYWYZweBLXgycu7Y3iL6trKn1Y7ARj'', ''stSOL''),
      (''RLBxxFkseAZ4RgJH3Sqn8jXxhmGoz9jWxDNJMh8pL7a'', ''RLSOL''),
      (''J1toso1uCk3RLmjorhTtrVwY9HJ7X8V9yYac6Y7kGCPn'', ''jitoSOL'')]"

definition spl_token_symbol :: "string \<Rightarrow> string" where
  "spl_token_symbol mint = (case map_of spl_token_table mint of Some s \<Rightarrow> s | None \<Rightarrow> mint)"

text \<open>\<open>balances.get(idx).copied().unwrap_or(0)\<close>\<close>

definition balance_at :: "nat list \<Rightarrow> nat \<Rightarrow> int" where
  "balance_at bs i = (if i < length bs then int (bs ! i) else 0)"

definition extract_sol_change_lamports :: "status_meta \<Rightarrow> nat \<Rightarrow> int" where
  "extract_sol_change_lamports meta i = balance_at (sm_post_balances meta) i - balance_at (sm_pre_balances meta) i"

section \<open>The legacy ledger parser\<close>

text \<open>\<open>iter().position(..)\<close>\<close>

fun position_of :: "string \<Rightarrow> string list \<Rightarrow> nat option" where
  "position_of a [] = None"
| "position_of a (k # ks) = (if k = a then Some 0 else map_option Suc (position_of a ks))"

definition sol_native_entries ::
    "(int \<Rightarrow> nat \<Rightarrow> ('d :: linordered_idom)) \<Rightarrow> (uuid \<Rightarrow> string \<Rightarrow> uuid) \<Rightarrow> (uuid \<Rightarrow> string) \<Rightarrow> transaction \<Rightarrow> sol_tx \<Rightarrow> status_meta \<Rightarrow>
     'd ledger_entry list \<times> u32" where
  "sol_native_entries sc vh us tx t meta =
     (let mk = ledger_entry_of vh us (tx_wallet_address tx) (tx_user_id tx) (tx_id tx) in
      case st_transaction t of
        Enc_Json (UM_Parsed keys _) \<Rightarrow>
          (case position_of (tx_wallet_address tx) keys of
             None \<Rightarrow> ([], 0)
           | Some i \<Rightarrow>
               let fee = int (sm_fee meta); payer = (i = 0);
                   s = push_if (payer \<and> fee > 0) (mk ''SOL'' (lamports_to_sol sc (- fee)) ET_Fee None) ([], 0)
               in if sm_err meta then s
                  else let change = extract_sol_change_lamports meta i
                       in if payer
                          then push_if (change + fee \<noteq> 0) (mk ''SOL'' (lamports_to_sol sc (change + fee)) ET_Transfer None) s
                          else push_if (change \<noteq> 0) (mk ''SOL'' (lamports_to_sol sc change) ET_Transfer None) s)
      | _ \<Rightarrow> ([], 0))"

definition find_balance :: "(token_balance \<Rightarrow> bool) \<Rightarrow> token_balance list \<Rightarrow> int" where
  "find_balance P bs = (case List.find P bs of Some p \<Rightarrow> parse_token_amount_or_zero (tb_amount p) | None \<Rightarrow> 0)"

definition sol_token_body ::
    "(int \<Rightarrow> nat \<Rightarrow> ('d :: linordered_idom)) \<Rightarrow> (uuid \<Rightarrow> string \<Rightarrow> uuid) \<Rightarrow> (uuid \<Rightarrow> string) \<Rightarrow> transaction \<Rightarrow> token_balance list \<Rightarrow>
     token_balance \<Rightarrow> 'd ledger_entry list \<times> u32 \<Rightarrow> 'd ledger_entry list \<times> u32" where
  "sol_token_body sc vh us tx pre post s =
     (if tb_owner post \<noteq> Some (tx_wallet_address tx) then s
      else let pre_raw = find_balance (\<lambda>p. tb_account_index p = tb_account_index post) pre;
               post_raw = parse_token_amount_or_zero (tb_amount post);
               delta_raw = token_delta_raw post_raw pre_raw
           in push_if (delta_raw \<noteq> 0)
                (ledger_entry_of vh us (tx_wallet_address tx) (tx_user_id tx) (tx_id tx) (spl_token_symbol (tb_mint post))
                  (token_raw_to_decimal sc delta_raw (tb_decimals post)) ET_Transfer None) s)"

definition parse_solana_transaction ::
    "(json \<Rightarrow> sol_tx option) \<Rightarrow> (int \<Rightarrow> nat \<Rightarrow> ('d :: linordered_idom)) \<Rightarrow> (uuid \<Rightarrow> string \<Rightarrow> uuid) \<Rightarrow> (uuid \<Rightarrow> string) \<Rightarrow> transaction \<Rightarrow>
     'd ledger_entry list option" where
  "parse_solana_transaction dec sc vh us tx =
     (case dec (tx_raw_metadata tx) of
        None \<Rightarrow> None
      | Some t \<Rightarrow>
          (case st_meta t of
             None \<Rightarrow> Some []
           | Some meta \<Rightarrow>
               let s = sol_native_entries sc vh us tx t meta
               in if sm_err meta then Some (fst s)
                  else case (sm_pre_token_balances meta, sm_post_token_balances meta) of
                    (Some pre, Some post) \<Rightarrow> Some (fst (fold (sol_token_body sc vh us tx pre) post s))
                  | _ \<Rightarrow> Some (fst s)))"

section \<open>Token transfers\<close>

definition owned_balance :: "nat \<Rightarrow> string \<Rightarrow> string \<Rightarrow> token_balance \<Rightarrow> bool" where
  "owned_balance i mint owner p \<longleftrightarrow> tb_account_index p = i \<and> tb_mint p = mint \<and> tb_owner p = Some owner"

text \<open>The state of the loop: the keys seen, the number of transfers per direction and mint, the transfers.\<close>

record 'd transfer_loop =
  tl_seen :: "(nat \<times> string \<times> string) list"
  tl_counts :: "((string \<times> string \<times> string) \<times> int) list"
  tl_transfers :: "'d token_transfer list"

definition count_of :: "string \<times> string \<times> string \<Rightarrow> ((string \<times> string \<times> string) \<times> int) list \<Rightarrow> int" where
  "count_of k m = (case map_of m k of Some n \<Rightarrow> n | None \<Rightarrow> 0)"

definition sol_transfer_body ::
    "(int \<Rightarrow> nat \<Rightarrow> ('d :: linordered_idom)) \<Rightarrow> (nat \<Rightarrow> uuid) \<Rightarrow> timestamp \<Rightarrow> uuid option \<Rightarrow> string \<Rightarrow> token_balance list \<Rightarrow>
     token_balance list \<Rightarrow> token_balance \<Rightarrow> 'd transfer_loop \<Rightarrow> 'd transfer_loop" where
  "sol_transfer_body sc fid now raw_tx_id network pre post b s =
     (case tb_owner b of
        None \<Rightarrow> s
      | Some owner \<Rightarrow>
          let key = (tb_account_index b, tb_mint b, owner)
          in if key \<in> set (tl_seen s) then s
             else let s = s\<lparr>tl_seen := key # tl_seen s\<rparr>;
                      same = owned_balance (tb_account_index b) (tb_mint b) owner;
                      delta = token_delta_raw (find_balance same post) (find_balance same pre)
                  in if delta = 0 then s
                     else let source = (if delta > 0 then ''unknown'' else owner);
                              dest = (if delta > 0 then owner else ''unknown'');
                              group_key = (source, dest, tb_mint b);
                              i = count_of group_key (tl_counts s)
                          in s\<lparr>tl_transfers := tl_transfers s @
                                 [\<lparr>tt_id = fid (length (tl_transfers s)), tt_raw_transaction_id = raw_tx_id, tt_network = network,
                                   tt_token_address = tb_mint b, tt_token_symbol = Some (spl_token_symbol (tb_mint b)),
                                   tt_from_address = source, tt_to_address = dest,
                                   tt_amount = token_raw_to_decimal sc (token_delta_magnitude delta) (tb_decimals b),
                                   tt_decimals = spl_token_decimals_i32 (tb_decimals b), tt_transfer_index = i,
                                   tt_dataset_version_id = None, tt_created_at = now\<rparr>],
                               tl_counts := upsert group_key 0 (\<lambda>n. n + 1) (tl_counts s)\<rparr>)"

definition list_or_empty :: "'a list option \<Rightarrow> 'a list" where
  "list_or_empty xs = (case xs of Some v \<Rightarrow> v | None \<Rightarrow> [])"

definition extract_solana_token_transfers ::
    "(json \<Rightarrow> sol_tx option) \<Rightarrow> (int \<Rightarrow> nat \<Rightarrow> ('d :: linordered_idom)) \<Rightarrow> (nat \<Rightarrow> uuid) \<Rightarrow> timestamp \<Rightarrow> uuid option \<Rightarrow> string \<Rightarrow> json \<Rightarrow>
     'd token_transfer list" where
  "extract_solana_token_transfers dec sc fid now raw_tx_id network raw =
     (case dec raw of
        None \<Rightarrow> []
      | Some t \<Rightarrow>
          (case st_meta t of
             None \<Rightarrow> []
           | Some meta \<Rightarrow>
               if sm_err meta then []
               else let pre = list_or_empty (sm_pre_token_balances meta);
                        post = list_or_empty (sm_post_token_balances meta)
                    in tl_transfers (fold (sol_transfer_body sc fid now raw_tx_id network pre post) (post @ pre)
                         \<lparr>tl_seen = [], tl_counts = [], tl_transfers = []\<rparr>)))"

section \<open>Native balance deltas\<close>

definition message_keys :: "status_meta \<Rightarrow> ui_message \<Rightarrow> string list" where
  "message_keys meta m =
     (case m of
        UM_Parsed keys _ \<Rightarrow> keys
      | UM_Raw keys \<Rightarrow>
          (case sm_loaded_addresses meta of Some (writable, readonly) \<Rightarrow> keys @ writable @ readonly | None \<Rightarrow> keys))"

definition sol_native_delta ::
    "(int \<Rightarrow> nat \<Rightarrow> ('d :: linordered_idom)) \<Rightarrow> (nat \<Rightarrow> uuid) \<Rightarrow> timestamp \<Rightarrow> uuid option \<Rightarrow> string \<Rightarrow> status_meta \<Rightarrow> nat \<times> string \<Rightarrow>
     'd native_balance_delta option" where
  "sol_native_delta sc fid now raw_tx_id network meta ia =
     (case ia of (i, account) \<Rightarrow>
       let pre = balance_at (sm_pre_balances meta) i; post = balance_at (sm_post_balances meta) i
       in if post - pre = 0 then None
          else Some \<lparr>nbd_id = fid i, nbd_raw_transaction_id = raw_tx_id, nbd_network = network, nbd_account_address = account,
                 nbd_native_token = ''SOL'', nbd_pre_balance = lamports_to_sol sc pre, nbd_post_balance = lamports_to_sol sc post,
                 nbd_delta = lamports_to_sol sc (post - pre), nbd_is_fee_payer = (i = 0), nbd_dataset_version_id = None,
                 nbd_created_at = now\<rparr>)"

text \<open>Failed transactions are not skipped here: their fee changes a balance.\<close>

definition extract_solana_native_balance_deltas ::
    "(json \<Rightarrow> sol_tx option) \<Rightarrow> (int \<Rightarrow> nat \<Rightarrow> ('d :: linordered_idom)) \<Rightarrow> (nat \<Rightarrow> uuid) \<Rightarrow> timestamp \<Rightarrow> uuid option \<Rightarrow> string \<Rightarrow> json \<Rightarrow>
     'd native_balance_delta list" where
  "extract_solana_native_balance_deltas dec sc fid now raw_tx_id network raw =
     (case dec raw of
        None \<Rightarrow> []
      | Some t \<Rightarrow>
          (case st_meta t of
             None \<Rightarrow> []
           | Some meta \<Rightarrow>
               (case st_transaction t of
                  Enc_Json m \<Rightarrow>
                    List.map_filter (sol_native_delta sc fid now raw_tx_id network meta) (enumerate 0 (message_keys meta m))
                | Enc_Binary \<Rightarrow> [])))"

section \<open>Decoded events\<close>

fun extract_parsed_instruction :: "parsed_instruction \<Rightarrow> string \<times> json \<times> json" where
  "extract_parsed_instruction (PI_Parsed program program_id parsed) =
     (program_id, parsed, JObject [(''program'', JString program), (''programId'', JString program_id)])"
| "extract_parsed_instruction (PI_PartiallyDecoded program_id data accounts) =
     (program_id, JObject [], JObject [(''data'', JString data), (''accounts'', JArray (map JString accounts))])"

fun extract_instruction_type :: "parsed_instruction \<Rightarrow> string option" where
  "extract_instruction_type (PI_Parsed _ _ parsed) = Option.bind (json_get parsed ''type'') json_as_str"
| "extract_instruction_type (PI_PartiallyDecoded _ _ _) = None"

definition key_or_index :: "string list \<Rightarrow> nat \<Rightarrow> string" where
  "key_or_index keys i = (if i < length keys then keys ! i else ''index:'' @ show_nat i)"

definition instruction_event ::
    "uuid \<Rightarrow> timestamp \<Rightarrow> uuid option \<Rightarrow> string \<Rightarrow> int \<Rightarrow> string \<Rightarrow> string option \<Rightarrow> json \<Rightarrow> json \<Rightarrow> decoded_event" where
  "instruction_event fid now raw_tx_id network log_index program name decoded raw =
     \<lparr>de_id = fid, de_raw_transaction_id = raw_tx_id, de_network = network, de_program_or_contract = program,
      de_event_signature = None, de_event_name = name, de_log_index = log_index, de_decoded_fields = decoded,
      de_raw_fields = raw, de_dataset_version_id = None, de_created_at = now\<rparr>"

text \<open>The parts of the event of an instruction: top level (with the keys of the message) and inner.\<close>

definition outer_parts :: "string list \<Rightarrow> ui_instruction \<Rightarrow> string \<times> string option \<times> json \<times> json" where
  "outer_parts keys ix =
     (case ix of
        UI_Parsed p \<Rightarrow> (case extract_parsed_instruction p of (program, decoded, raw) \<Rightarrow> (program, extract_instruction_type p, decoded, raw))
      | UI_Compiled i accounts data \<Rightarrow>
          (key_or_index keys i, None, JObject [],
           JObject [(''data'', JString data), (''accounts'', JArray (map (\<lambda>a. JString (key_or_index keys a)) accounts))]))"

definition inner_parts :: "ui_instruction \<Rightarrow> string \<times> string option \<times> json \<times> json" where
  "inner_parts ix =
     (case ix of
        UI_Parsed p \<Rightarrow> (case extract_parsed_instruction p of (program, decoded, raw) \<Rightarrow> (program, extract_instruction_type p, decoded, raw))
      | UI_Compiled i accounts data \<Rightarrow>
          (''index:'' @ show_nat i, None, JObject [],
           JObject [(''data'', JString data), (''accounts'', JArray (map (\<lambda>a. JInt (int a)) accounts))]))"

text \<open>The running \<open>log_index\<close> is the position of the event among all top-level and inner ones.\<close>

definition extract_solana_decoded_events ::
    "(json \<Rightarrow> sol_tx option) \<Rightarrow> (nat \<Rightarrow> uuid) \<Rightarrow> timestamp \<Rightarrow> uuid option \<Rightarrow> string \<Rightarrow> json \<Rightarrow> decoded_event list" where
  "extract_solana_decoded_events dec fid now raw_tx_id network raw =
     (case dec raw of
        None \<Rightarrow> []
      | Some t \<Rightarrow>
          (case st_meta t of
             None \<Rightarrow> []
           | Some meta \<Rightarrow>
               if sm_err meta then []
               else let top = (case st_transaction t of Enc_Json (UM_Parsed keys ixs) \<Rightarrow> map (outer_parts keys) ixs | _ \<Rightarrow> []);
                        inner = map inner_parts (concat (list_or_empty (sm_inner_instructions meta)))
                    in map (\<lambda>(i, program, name, decoded, raw_fields).
                         instruction_event (fid i) now raw_tx_id network (int i) program name decoded raw_fields)
                       (enumerate 0 (top @ inner))))"

section \<open>Native amounts agree\<close>

text \<open>\<open>BigDecimal::new\<close> is exact, so it is additive in its digits.\<close>

definition exact_scale :: "(int \<Rightarrow> nat \<Rightarrow> ('d :: linordered_idom)) \<Rightarrow> bool" where
  "exact_scale sc \<longleftrightarrow> (\<forall>a b k. sc (a + b) k = sc a k + sc b k)"

lemma exact_scale_simps:
  assumes "exact_scale sc"
  shows "sc (a + b) k = sc a k + sc b k" "sc 0 k = 0" "sc (- a) k = - sc a k" "sc (a - b) k = sc a k - sc b k"
proof -
  show add: "sc (a + b) k = sc a k + sc b k" for a b using assms by (simp add: exact_scale_def)
  from add [of 0 0] show zero: "sc 0 k = 0" by simp
  have neg: "sc (- a) k = - sc a k" for a
  proof -
    have "sc a k + sc (- a) k = 0" using add [of a "- a"] zero by simp
    then show ?thesis by (metis minus_unique)
  qed
  then show "sc (- a) k = - sc a k" .
  from add [of a "- b"] neg show "sc (a - b) k = sc a k - sc b k" by simp
qed

section \<open>Token transfers account for the balances\<close>

definition bal_key :: "token_balance \<Rightarrow> (nat \<times> string \<times> string) option" where
  "bal_key b = map_option (\<lambda>owner. (tb_account_index b, tb_mint b, owner)) (tb_owner b)"

abbreviation bal_amount :: "token_balance \<Rightarrow> int" where
  "bal_amount b \<equiv> parse_token_amount_or_zero (tb_amount b)"

text \<open>What the owner holds of the mint, and what the transfers bring it.\<close>

definition held :: "string \<Rightarrow> string \<Rightarrow> token_balance list \<Rightarrow> int" where
  "held mint owner bs = (\<Sum>b \<leftarrow> filter (\<lambda>b. tb_mint b = mint \<and> tb_owner b = Some owner) bs. bal_amount b)"

definition token_flow :: "string \<Rightarrow> string \<Rightarrow> ('d :: linordered_idom) token_transfer list \<Rightarrow> 'd" where
  "token_flow mint owner ts =
     (\<Sum>t \<leftarrow> filter (\<lambda>t. tt_token_address t = mint) ts.
        if tt_to_address t = owner then tt_amount t else if tt_from_address t = owner then - tt_amount t else 0)"

definition balances_ok :: "token_balance list \<Rightarrow> bool" where
  "balances_ok bs \<longleftrightarrow> distinct (List.map_filter bal_key bs) \<and> list_all (\<lambda>b. 0 \<le> bal_amount b) bs"

fun key_balance :: "token_balance list \<Rightarrow> nat \<times> string \<times> string \<Rightarrow> int" where
  "key_balance bs (i, mint, owner) = find_balance (owned_balance i mint owner) bs"

lemma owned_iff: "owned_balance i mint owner b \<longleftrightarrow> bal_key b = Some (i, mint, owner)"
  by (cases "tb_owner b") (auto simp: owned_balance_def bal_key_def)

lemma key_balance_Cons:
  "key_balance (b # bs) k = (if bal_key b = Some k then bal_amount b else key_balance bs k)"
  by (cases k) (simp add: find_balance_def owned_iff)

lemma key_balance_absent: "Some k \<notin> bal_key ` set bs \<Longrightarrow> key_balance bs k = 0"
  by (induction bs) (cases k, auto simp: key_balance_Cons find_balance_def)

lemma key_balance_range:
  assumes "list_all (\<lambda>b. 0 \<le> bal_amount b) bs"
  shows "0 \<le> key_balance bs k \<and> key_balance bs k \<le> i128_max"
proof -
  have "bal_amount b \<le> i128_max" for b
    by (auto simp: parse_token_amount_or_zero_def parse_i128_def Let_def i128_max_def split: option.splits if_splits list.splits)
  with assms show ?thesis by (induction bs) (cases k, auto simp: key_balance_Cons find_balance_def i128_max_def)
qed

lemma mem_keys: "Some k \<in> bal_key ` set bs \<longleftrightarrow> k \<in> set (List.map_filter bal_key bs)"
  by (induction bs) (auto simp: map_filter_simps split: option.splits)

lemma sum_key_balance:
  assumes "finite K" "distinct (List.map_filter bal_key bs)"
  shows "(\<Sum>k \<in> K. key_balance bs k) = (\<Sum>b \<leftarrow> filter (\<lambda>b. \<exists>k \<in> K. bal_key b = Some k) bs. bal_amount b)"
  using assms(2)
proof (induction bs)
  case Nil
  show ?case by (auto intro!: sum.neutral simp: key_balance_absent)
next
  case (Cons b bs)
  have dist: "distinct (List.map_filter bal_key bs)" using Cons.prems by (cases "bal_key b") (simp_all add: map_filter_simps)
  show ?case
  proof (cases "\<exists>k \<in> K. bal_key b = Some k")
    case False
    then have "(\<Sum>k \<in> K. key_balance (b # bs) k) = (\<Sum>k \<in> K. key_balance bs k)"
      by (intro sum.cong) (auto simp: key_balance_Cons)
    with False Cons.IH [OF dist] show ?thesis by simp
  next
    case True
    then obtain k where k: "k \<in> K" "bal_key b = Some k" by blast
    have "Some k \<notin> bal_key ` set bs" using Cons.prems k(2) by (simp add: mem_keys map_filter_simps)
    then have zero: "key_balance bs k = 0" by (rule key_balance_absent)
    have "(\<Sum>j \<in> K. key_balance (b # bs) j) = bal_amount b + (\<Sum>j \<in> K - {k}. key_balance (b # bs) j)"
      using assms(1) k by (simp add: sum.remove key_balance_Cons)
    also have "(\<Sum>j \<in> K - {k}. key_balance (b # bs) j) = (\<Sum>j \<in> K - {k}. key_balance bs j)"
      by (intro sum.cong) (auto simp: key_balance_Cons k(2))
    also have "\<dots> = (\<Sum>j \<in> K. key_balance bs j)" using assms(1) k(1) zero by (simp add: sum.remove)
    finally show ?thesis using True Cons.IH [OF dist] by simp
  qed
qed

lemma delta_exact:
  assumes "list_all (\<lambda>b. 0 \<le> bal_amount b) pre" "list_all (\<lambda>b. 0 \<le> bal_amount b) post"
  shows "token_delta_raw (key_balance post k) (key_balance pre k) = key_balance post k - key_balance pre k"
    and "token_delta_magnitude (key_balance post k - key_balance pre k) = \<bar>key_balance post k - key_balance pre k\<bar>"
  using key_balance_range [OF assms(1), of k] key_balance_range [OF assms(2), of k]
  by (auto simp: token_delta_raw_def token_delta_magnitude_def i128_saturate_def i128_max_def i128_min_def)

lemma token_flow_snoc:
  "token_flow mint owner (ts @ [t]) = token_flow mint owner ts +
     (if tt_token_address t = mint
      then if tt_to_address t = owner then tt_amount t else if tt_from_address t = owner then - tt_amount t else 0
      else 0)"
  by (simp add: token_flow_def)

lemma sol_transfer_body_seen:
  "tl_seen (sol_transfer_body sc fid now raw_tx_id network pre post b s) =
     (case bal_key b of None \<Rightarrow> tl_seen s | Some k \<Rightarrow> if k \<in> set (tl_seen s) then tl_seen s else k # tl_seen s)"
  by (simp add: sol_transfer_body_def bal_key_def Let_def split: option.splits)

lemma sol_transfer_body_flow:
  assumes "exact_scale sc" "list_all (\<lambda>b. 0 \<le> bal_amount b) pre" "list_all (\<lambda>b. 0 \<le> bal_amount b) post"
    and "owner \<noteq> ''unknown''" "tb_mint b = mint \<Longrightarrow> tb_decimals b = d"
  shows "token_flow mint owner (tl_transfers (sol_transfer_body sc fid now raw_tx_id network pre post b s)) =
    token_flow mint owner (tl_transfers s) +
      (case bal_key b of
         None \<Rightarrow> 0
       | Some k \<Rightarrow> if k \<notin> set (tl_seen s) \<and> snd k = (mint, owner) then sc (key_balance post k - key_balance pre k) d else 0)"
proof (cases "tb_owner b")
  case None
  then show ?thesis by (simp add: sol_transfer_body_def bal_key_def)
next
  case (Some own)
  let ?k = "(tb_account_index b, tb_mint b, own)"
  let ?D = "key_balance post ?k - key_balance pre ?k"
  have bal: "find_balance (owned_balance (tb_account_index b) (tb_mint b) own) bs = key_balance bs ?k" for bs by simp
  note D = delta_exact [OF assms(2,3), of ?k]
  have unfold: "tl_transfers (sol_transfer_body sc fid now raw_tx_id network pre post b s) =
      (if ?k \<in> set (tl_seen s) \<or> ?D = 0 then tl_transfers s
       else tl_transfers s @
         [\<lparr>tt_id = fid (length (tl_transfers s)), tt_raw_transaction_id = raw_tx_id, tt_network = network,
           tt_token_address = tb_mint b, tt_token_symbol = Some (spl_token_symbol (tb_mint b)),
           tt_from_address = (if ?D > 0 then ''unknown'' else own), tt_to_address = (if ?D > 0 then own else ''unknown''),
           tt_amount = sc \<bar>?D\<bar> (tb_decimals b),
           tt_decimals = spl_token_decimals_i32 (tb_decimals b),
           tt_transfer_index = count_of (if ?D > 0 then ''unknown'' else own, if ?D > 0 then own else ''unknown'', tb_mint b) (tl_counts s),
           tt_dataset_version_id = None, tt_created_at = now\<rparr>])"
    unfolding sol_transfer_body_def Some option.case bal D Let_def token_raw_to_decimal_def by simp
  show ?thesis
    using assms(4,5) exact_scale_simps [OF assms(1)] Some
    by (auto simp: unfold token_flow_snoc bal_key_def)
qed

lemma loop_flow:
  assumes "exact_scale sc" "list_all (\<lambda>b. 0 \<le> bal_amount b) pre" "list_all (\<lambda>b. 0 \<le> bal_amount b) post"
    and "owner \<noteq> ''unknown''" "\<forall>b \<in> set xs. tb_mint b = mint \<longrightarrow> tb_decimals b = d"
  shows "token_flow mint owner (tl_transfers (fold (sol_transfer_body sc fid now raw_tx_id network pre post) xs s)) =
    token_flow mint owner (tl_transfers s) +
      sc (\<Sum>k \<in> {k \<in> set (List.map_filter bal_key xs) - set (tl_seen s). snd k = (mint, owner)}. key_balance post k - key_balance pre k) d"
  using assms(5)
proof (induction xs arbitrary: s)
  case Nil
  show ?case using exact_scale_simps(2) [OF assms(1)] by simp
next
  case (Cons b xs)
  let ?s' = "sol_transfer_body sc fid now raw_tx_id network pre post b s"
  let ?new = "\<lambda>xs s. {k \<in> set (List.map_filter bal_key xs) - set (tl_seen s). snd k = (mint, owner)}"
  let ?D = "\<lambda>k. key_balance post k - key_balance pre k"
  have step: "token_flow mint owner (tl_transfers ?s') = token_flow mint owner (tl_transfers s) +
      (case bal_key b of None \<Rightarrow> 0 | Some k \<Rightarrow> if k \<notin> set (tl_seen s) \<and> snd k = (mint, owner) then sc (?D k) d else 0)"
    by (rule sol_transfer_body_flow [OF assms(1-4)]) (use Cons.prems in simp)
  have "sc (sum ?D (?new (b # xs) s)) d =
      (case bal_key b of None \<Rightarrow> 0 | Some k \<Rightarrow> if k \<notin> set (tl_seen s) \<and> snd k = (mint, owner) then sc (?D k) d else 0)
      + sc (sum ?D (?new xs ?s')) d"
  proof (cases "bal_key b")
    case None
    then show ?thesis by (simp add: sol_transfer_body_seen map_filter_simps)
  next
    case (Some k)
    show ?thesis
    proof (cases "k \<notin> set (tl_seen s) \<and> snd k = (mint, owner)")
      case True
      then have "?new (b # xs) s = insert k (?new xs ?s')" "k \<notin> ?new xs ?s'"
        using Some by (auto simp: sol_transfer_body_seen map_filter_simps)
      moreover have "finite (?new xs ?s')" by simp
      ultimately have "sum ?D (?new (b # xs) s) = ?D k + sum ?D (?new xs ?s')" by simp
      then show ?thesis using True Some exact_scale_simps(1) [OF assms(1)] by simp
    next
      case False
      then have "?new (b # xs) s = ?new xs ?s'" using Some by (auto simp: sol_transfer_body_seen map_filter_simps)
      then show ?thesis using False Some by (simp del: de_Morgan_conj)
    qed
  qed
  with step Cons.IH [of ?s'] Cons.prems show ?case by simp
qed

lemma held_keys:
  assumes "distinct (List.map_filter bal_key bs)" "finite K"
    and "\<And>b. b \<in> set bs \<Longrightarrow> tb_mint b = mint \<and> tb_owner b = Some owner \<longleftrightarrow> (\<exists>k \<in> K. bal_key b = Some k)"
  shows "(\<Sum>k \<in> K. key_balance bs k) = held mint owner bs"
  unfolding sum_key_balance [OF assms(2,1)] held_def
  by (rule arg_cong [where f = sum_list], rule map_cong, rule filter_cong) (use assms(3) in auto)

text \<open>
  C16. The token transfers of a Solana transaction account for its balances. For every owner and mint the
  transfers bring in exactly the difference between what the owner holds after and before the
  transaction, over all its accounts: closed accounts, new accounts and accounts that change their owner included.
  A failed transaction moves no tokens.
\<close>

theorem solana_token_flows:
  assumes "exact_scale sc" "dec raw = Some t" "st_meta t = Some meta"
    and pre: "pre = list_or_empty (sm_pre_token_balances meta)" "balances_ok pre"
    and post: "post = list_or_empty (sm_post_token_balances meta)" "balances_ok post"
    and "owner \<noteq> ''unknown''" "\<forall>b \<in> set (post @ pre). tb_mint b = mint \<longrightarrow> tb_decimals b = d"
  shows "token_flow mint owner (extract_solana_token_transfers dec sc fid now raw_tx_id network raw) =
    (if sm_err meta then 0 else sc (held mint owner post - held mint owner pre) d)"
proof -
  let ?K = "{k \<in> set (List.map_filter bal_key (post @ pre)). snd k = (mint, owner)}"
  have key: "tb_mint b = mint \<and> tb_owner b = Some owner \<longleftrightarrow> (\<exists>k \<in> ?K. bal_key b = Some k)" if "b \<in> set (post @ pre)" for b
  proof -
    have "bal_key b = Some k \<Longrightarrow> k \<in> set (List.map_filter bal_key (post @ pre))" for k
      using that by (metis image_eqI mem_keys)
    then show ?thesis by (cases "tb_owner b") (auto simp: bal_key_def)
  qed
  have nonneg: "list_all (\<lambda>b. 0 \<le> bal_amount b) pre" "list_all (\<lambda>b. 0 \<le> bal_amount b) post"
    and dist: "distinct (List.map_filter bal_key pre)" "distinct (List.map_filter bal_key post)"
    using pre(2) post(2) by (simp_all add: balances_ok_def)
  have "(\<Sum>k \<in> ?K. key_balance post k - key_balance pre k) = held mint owner post - held mint owner pre"
    using held_keys [OF dist(1), of ?K mint owner] held_keys [OF dist(2), of ?K mint owner] key
    by (simp add: sum_subtractf)
  with loop_flow [OF assms(1) nonneg assms(8,9), where s = "\<lparr>tl_seen = [], tl_counts = [], tl_transfers = []\<rparr>"]
  show ?thesis using assms(2,3) pre(1) post(1)
    by (simp add: extract_solana_token_transfers_def token_flow_def Let_def)
qed

text \<open>
  The legacy ledger and the Silver deltas of a Solana transaction agree on the native amounts. The fee and
  transfer entries the legacy parser books for the wallet of a successful transaction add up to the native
  balance delta extracted for that account, the change of its lamport balance.
\<close>

theorem solana_native_agree:
  assumes "exact_scale sc" "dec (tx_raw_metadata tx) = Some t" "st_meta t = Some meta" "\<not> sm_err meta"
    and "st_transaction t = Enc_Json (UM_Parsed keys ixs)" "distinct keys"
  shows "(\<Sum>e \<leftarrow> fst (sol_native_entries sc vh us tx t meta). le_amount e) =
    (\<Sum>d \<leftarrow> filter (\<lambda>d. nbd_account_address d = tx_wallet_address tx)
       (extract_solana_native_balance_deltas dec sc fid now raw_tx_id network (tx_raw_metadata tx)). nbd_delta d)"
proof -
  let ?w = "tx_wallet_address tx"
  let ?delta = "sol_native_delta sc fid now raw_tx_id network meta"
  have lookup: "(\<Sum>d \<leftarrow> filter (\<lambda>d. nbd_account_address d = ?w) (List.map_filter ?delta (enumerate n ks)). nbd_delta d) =
      (case position_of ?w ks of None \<Rightarrow> 0 | Some i \<Rightarrow> sc (extract_sol_change_lamports meta (n + i)) 9)" if "distinct ks" for n ks
    using that
  proof (induction ks arbitrary: n)
    case (Cons k ks)
    have absent: "position_of a ks = None" if "a \<notin> set ks" for a using that by (induction ks) auto
    show ?case using Cons absent [of k] exact_scale_simps(2) [OF assms(1)]
      by (auto simp: map_filter_simps sol_native_delta_def extract_sol_change_lamports_def lamports_to_sol_def Let_def
          split: option.splits)
  qed (simp add: map_filter_simps)
  have cancel: "- sc f k = sc c k" if "c + f = 0" for c f k
  proof -
    from that have "c = - f" by simp
    then show ?thesis by (simp add: exact_scale_simps(3) [OF assms(1)])
  qed
  have "(\<Sum>e \<leftarrow> fst (sol_native_entries sc vh us tx t meta). le_amount e) =
      (case position_of ?w keys of None \<Rightarrow> 0 | Some i \<Rightarrow> sc (extract_sol_change_lamports meta i) 9)"
    using assms(4,5) exact_scale_simps [OF assms(1)] cancel
    by (auto simp: sol_native_entries_def push_if_def push_def ledger_entry_of_def lamports_to_sol_def Let_def split: option.splits)
  with lookup [OF assms(6), of 0, unfolded add_0] show ?thesis
    using assms(2,3,5) by (simp add: extract_solana_native_balance_deltas_def message_keys_def split: option.split)
qed

definition sample_balance :: "nat \<Rightarrow> string \<Rightarrow> string \<Rightarrow> token_balance" where
  "sample_balance i owner amount =
     \<lparr>tb_account_index = i, tb_mint = ''mint'', tb_owner = Some owner, tb_amount = amount, tb_decimals = 6\<rparr>"

text \<open>Account 1 is closed with a balance of 100, account 2 passes to a new owner, account 3 is opened.\<close>

definition sample_sol :: sol_tx where
  "sample_sol = \<lparr>st_transaction = Enc_Json (UM_Parsed [''a'', ''b''] []),
     st_meta = Some \<lparr>sm_err = False, sm_fee = 5, sm_pre_balances = [100, 7], sm_post_balances = [90, 12],
       sm_inner_instructions = None,
       sm_pre_token_balances = Some [sample_balance 1 ''a'' ''100'', sample_balance 2 ''a'' ''30''],
       sm_post_token_balances = Some [sample_balance 2 ''b'' ''30'', sample_balance 3 ''b'' ''100''],
       sm_loaded_addresses = None\<rparr>\<rparr>"

lemma sample_scale: "exact_scale (\<lambda>n k. n)"
  by (simp add: exact_scale_def)

theorem solana_token_flows_witness:
  "token_flow ''mint'' ''b'' (extract_solana_token_transfers (\<lambda>_. Some sample_sol) (\<lambda>n k. n) of_nat 0 None ''solana-mainnet'' JNull) = 130"
proof -
  obtain meta where meta: "st_meta sample_sol = Some meta" by (simp add: sample_sol_def)
  have lists: "list_or_empty (sm_pre_token_balances meta) = [sample_balance 1 ''a'' ''100'', sample_balance 2 ''a'' ''30'']"
    "list_or_empty (sm_post_token_balances meta) = [sample_balance 2 ''b'' ''30'', sample_balance 3 ''b'' ''100'']" "\<not> sm_err meta"
    using meta by (auto simp: sample_sol_def list_or_empty_def)
  have "held ''mint'' ''b'' [sample_balance 2 ''b'' ''30'', sample_balance 3 ''b'' ''100'']
      - held ''mint'' ''b'' [sample_balance 1 ''a'' ''100'', sample_balance 2 ''a'' ''30''] = 130"
    "balances_ok [sample_balance 1 ''a'' ''100'', sample_balance 2 ''a'' ''30'']"
    "balances_ok [sample_balance 2 ''b'' ''30'', sample_balance 3 ''b'' ''100'']"
    by code_simp+
  then show ?thesis
    using solana_token_flows [OF sample_scale refl meta refl _ refl _, of "''b''" "''mint''" 6] lists
    by (simp add: sample_balance_def)
qed

theorem solana_native_agree_witness:
  "(\<Sum>e \<leftarrow> fst (sol_native_entries (\<lambda>n k. n) (\<lambda>ns s. 0) (\<lambda>u. ''u'')
       \<lparr>tx_id = 7, tx_user_id = 1, tx_wallet_address = ''a'', tx_timestamp = 0, tx_hash = ''h'', tx_chain = Chain_Solana, tx_raw_metadata = JNull\<rparr>
       sample_sol (the (st_meta sample_sol))). le_amount e) =
   (\<Sum>d \<leftarrow> filter (\<lambda>d. nbd_account_address d = ''a'')
       (extract_solana_native_balance_deltas (\<lambda>_. Some sample_sol) (\<lambda>n k. n) of_nat 0 None ''solana-mainnet'' JNull). nbd_delta d)"
proof -
  have s: "st_meta sample_sol = Some (the (st_meta sample_sol))" "\<not> sm_err (the (st_meta sample_sol))"
    "st_transaction sample_sol = Enc_Json (UM_Parsed [''a'', ''b''] [])" by (simp_all add: sample_sol_def)
  show ?thesis
    using solana_native_agree [where dec = "\<lambda>_. Some sample_sol" and t = sample_sol and fid = of_nat and now = 0
        and tx = "\<lparr>tx_id = 7, tx_user_id = 1, tx_wallet_address = ''a'', tx_timestamp = 0, tx_hash = ''h'', tx_chain = Chain_Solana, tx_raw_metadata = JNull\<rparr>",
        OF sample_scale refl s] by simp
qed

end
