(* ===== verification/Evm_Parser.thy ===== *)
theory Evm_Parser
  imports Gold_Ledger
begin

text \<open>
  The EVM parser (\<open>adapters/src/evm_parser.rs\<close>): token tables, hexadecimal numbers, the extraction of
  token transfers and decoded events from the logs of a transaction, and the legacy ledger parser.
  Random ids and the clock are arguments, \<open>dv\<close> is the division of decimals and \<open>pn\<close> their
  \<open>Display\<close>. \<open>None\<close> as the result of an extraction is a panic.
\<close>

section \<open>Tokens and numbers\<close>

definition ERC20_TRANSFER_TOPIC :: string where
  "ERC20_TRANSFER_TOPIC = ''0xddf252ad1be2c89b69c2b068fc378daa952ba7f163c4a11628f55a4df523b3ef''"

definition ERC20_APPROVAL_TOPIC :: string where
  "ERC20_APPROVAL_TOPIC = ''0x8c5be1e5ebec7d5bd14f71427d1e84f3dd0314c0f7b2291e5b200ac8c7c3b925''"

definition topic_to_address :: "string \<Rightarrow> string" where
  "topic_to_address topic =
     (let stripped = strip_0x topic
      in if length stripped \<ge> 40 then ''0x'' @ drop (length stripped - 40) stripped else stripped)"

definition topic_address_at :: "json list \<Rightarrow> nat \<Rightarrow> string option" where
  "topic_address_at topics i = (if i < length topics then map_option topic_to_address (json_as_str (topics ! i)) else None)"

definition erc20_transfer_topic_addresses :: "json list \<Rightarrow> (string \<times> string) option" where
  "erc20_transfer_topic_addresses topics =
     (case (topic_address_at topics 1, topic_address_at topics 2) of (Some a, Some b) \<Rightarrow> Some (a, b) | _ \<Rightarrow> None)"

definition erc20_approval_topic_addresses :: "json list \<Rightarrow> (string \<times> string) option" where
  "erc20_approval_topic_addresses topics =
     (case (topic_address_at topics 1, topic_address_at topics 2) of (Some a, Some b) \<Rightarrow> Some (a, b) | _ \<Rightarrow> None)"

text \<open>\<open>from_str_radix\<close> with base 16: at least one digit, after an optional sign.\<close>

fun hex_digits :: "nat \<Rightarrow> string \<Rightarrow> nat option" where
  "hex_digits acc [] = Some acc"
| "hex_digits acc (c # cs) = (case hex_digit c of Some d \<Rightarrow> hex_digits (acc * 16 + d) cs | None \<Rightarrow> None)"

definition hex_nat :: "string \<Rightarrow> nat option" where
  "hex_nat s = (if s = [] then None else hex_digits 0 s)"

definition drop_plus :: "string \<Rightarrow> string" where
  "drop_plus s = (case s of c # cs \<Rightarrow> if c = CHR ''+'' then cs else s | [] \<Rightarrow> [])"

definition hex_to_u128_or_zero :: "string \<Rightarrow> nat" where
  "hex_to_u128_or_zero hex =
     (case hex_nat (drop_plus (strip_0x hex)) of Some n \<Rightarrow> if n < 2 ^ 128 then n else 0 | None \<Rightarrow> 0)"

definition hex_to_i64_opt :: "string \<Rightarrow> int option" where
  "hex_to_i64_opt hex =
     (let s = strip_0x hex;
          v = (case s of
                 c # cs \<Rightarrow> if c = CHR ''-'' then map_option (\<lambda>n. - int n) (hex_nat cs) else map_option int (hex_nat (drop_plus s))
               | [] \<Rightarrow> None)
      in case v of Some i \<Rightarrow> if i64_min \<le> i \<and> i \<le> i64_max then Some i else None | None \<Rightarrow> None)"

definition i32_max :: int where
  "i32_max = 2 ^ 31 - 1"

definition usize_to_i32_or_max :: "nat \<Rightarrow> int" where
  "usize_to_i32_or_max n = (if int n \<le> i32_max then int n else i32_max)"

definition evm_log_index_or_default :: "json \<Rightarrow> int \<Rightarrow> int" where
  "evm_log_index_or_default v d =
     (case (case json_as_i64 v of Some n \<Rightarrow> Some n | None \<Rightarrow> Option.bind (json_as_str v) hex_to_i64_opt) of
        Some n \<Rightarrow> if 0 \<le> n \<and> n \<le> i32_max then n else d
      | None \<Rightarrow> d)"

definition token_decimals_table :: "(string \<times> nat) list" where
  "token_decimals_table =
     [(''0xa0b86991c6218b36c1d19d4a2e9eb0ce3606eb48'', 6),
      (''0xaf88d065e77c8cc2239327c5edb3a432268e5831'', 6),
      (''0xff970a61a04b1ca14834a43f5de4533ebddb5cc8'', 6),
      (''0x0b2c639c533813f4aa9d7837caf62653d097ff85'', 6),
      (''0x7f5c764cbc14f9669b88837ca1490cca17c31607'', 6),
      (''0x3c499c542cef5e3811e1192ce70d8cc03d5c3359'', 6),
      (''0x2791bca1f2de4661ed88a30c99a7a9449aa84174'', 6),
      (''0x833589fcd6edb6e08f4c7c32d4f71b54bda02913'', 6),
      (''0xd9aaec86b65d86f6a7b5b1b0c42ffa531710b6ca'', 6),
      (''0xb97ef9ef8734c71904d8002f8b6bc66dd9c48a6e'', 6),
      (''0xa7d7079b0fead91f3e65f86e8915cb59c1a4c664'', 6),
      (''0xdac17f958d2ee523a2206206994597c13d831ec7'', 6),
      (''0xfd086bc7cd5c481dcc9c85ebe478a1c0b69fcbb9'', 6),
      (''0x94b008aa00579c1307b0ef2c499ad98a8ce58e58'', 6),
      (''0xc2132d05d31c914a87c6611c10748aeb04b58e8f'', 6),
      (''0x9702230a8ea53601f5cd2dc00fdbc13d4df4a8c7'', 6),
      (''0x2260fac5e5542a773aa44fbcfedf7c193bc2c599'', 8),
      (''0x2f2a2543b76a4166549f7aab2e75bef0aefc5b0f'', 8),
      (''0x68f180fcce6836688e9084f035309e29bf0a2095'', 8),
      (''0x1bfd67037b42cf73acf2047067bd4f2c47d9bfd6'', 8),
      (''0x50b7545627a5162f82a992c33b87adc75187b218'', 8),
      (''0x6b175474e89094c44da98b954eedeac495271d0f'', 18),
      (''0xc02aaa39b223fe8d0a0e5c4f27ead9083c756cc2'', 18),
      (''0x514910771af9ca656af840dff83e8264ecf986ca'', 18),
      (''0x1f9840a85d5af5bf1d1762f925bdaddc4201f984'', 18),
      (''0x95ad61b0a150d79219dcf64e1e6cc01f0b64c4ce'', 18),
      (''0x7fc66500c84a76ad7e9c93437bfc5ac33e2ddae9'', 18),
      (''0xc00e94cb662c3520282e6f5717214004a7f26888'', 18),
      (''0x9f8f72aa9304c8b593d555f12ef6589cc3a579a2'', 18),
      (''0xc011a73ee8576fb46f5e1c5751ca3b9fe0af2a6f'', 18),
      (''0xd533a949740bb3306d119cc777fa900ba034cd52'', 18),
      (''0x6b3595068778dd592e39a122f4f5a5cf09c90fe2'', 18),
      (''0x0bc529c00c6401aef6d220be8c6ea1667f6ad93e'', 18),
      (''0xba100000625a3754423978a60c9317c58a424e3d'', 18),
      (''0x7d1afa7b718fb893db30a3abc0cfc608aacfebb0'', 18),
      (''0x4d224452801aced8b2f0aebe155379bb5d594381'', 18),
      (''0x5a98fcbea516cf06857215779fd812ca3bef1b32'', 18),
      (''0xd33526068d116ce69f19a9ee46f0bd304f21a51f'', 18),
      (''0x3432b6a60d23ca0dfca7761b7ab56459d9c964d0'', 18),
      (''0x4e3fbd56cd56c3e72c1403e103b45db9da5b9d2b'', 18),
      (''0x853d955acef822db058eb8505911ed77f175b99e'', 18),
      (''0x5f98805a4e8be255a32880fdec7f6728c6568ba0'', 18),
      (''0x57ab1ec28d129707052df4df418d58a2d46d5f51'', 18),
      (''0xda10009cbd5d07dd0cecc66161fc93d7c9000da1'', 18),
      (''0x8f3cf7ad23cd3cadbd9735aff958023239c6a063'', 18),
      (''0xd586e7f844cea2f87f50152665bcbc2c279d8d70'', 18),
      (''0x82af49447d8a07e3bd95bd0d56f35241523fbab1'', 18),
      (''0x4200000000000000000000000000000000000006'', 18),
      (''0x7ceb23fd6bc0add59e62ac25578270cff1b9f619'', 18),
      (''0x49d5c2bdffac6ce2bfdb6fd9b3c6573c5b1d790a'', 18)]"

definition token_decimals :: "string \<Rightarrow> nat" where
  "token_decimals addr = (case map_of token_decimals_table (to_lowercase addr) of Some d \<Rightarrow> d | None \<Rightarrow> 18)"

definition token_symbol_table :: "(string \<times> string) list" where
  "token_symbol_table =
     [(''0xa0b86991c6218b36c1d19d4a2e9eb0ce3606eb48'', ''USDC''),
      (''0xaf88d065e77c8cc2239327c5edb3a432268e5831'', ''USDC''),
      (''0xff970a61a04b1ca14834a43f5de4533ebddb5cc8'', ''USDC.e''),
      (''0x0b2c639c533813f4aa9d7837caf62653d097ff85'', ''USDC''),
      (''0x7f5c764cbc14f9669b88837ca1490cca17c31607'', ''USDC.e''),
      (''0x3c499c542cef5e3811e1192ce70d8cc03d5c3359'', ''USDC''),
      (''0x2791bca1f2de4661ed88a30c99a7a9449aa84174'', ''USDC.e''),
      (''0x833589fcd6edb6e08f4c7c32d4f71b54bda02913'', ''USDC''),
      (''0xd9aaec86b65d86f6a7b5b1b0c42ffa531710b6ca'', ''USDbC''),
      (''0xb97ef9ef8734c71904d8002f8b6bc66dd9c48a6e'', ''USDC''),
      (''0xa7d7079b0fead91f3e65f86e8915cb59c1a4c664'', ''USDC.e''),
      (''0xdac17f958d2ee523a2206206994597c13d831ec7'', ''USDT''),
      (''0xfd086bc7cd5c481dcc9c85ebe478a1c0b69fcbb9'', ''USDT''),
      (''0x94b008aa00579c1307b0ef2c499ad98a8ce58e58'', ''USDT''),
      (''0xc2132d05d31c914a87c6611c10748aeb04b58e8f'', ''USDT''),
      (''0x9702230a8ea53601f5cd2dc00fdbc13d4df4a8c7'', ''USDT''),
      (''0x2260fac5e5542a773aa44fbcfedf7c193bc2c599'', ''WBTC''),
      (''0x2f2a2543b76a4166549f7aab2e75bef0aefc5b0f'', ''WBTC''),
      (''0x68f180fcce6836688e9084f035309e29bf0a2095'', ''WBTC''),
      (''0x1bfd67037b42cf73acf2047067bd4f2c47d9bfd6'', ''WBTC''),
      (''0x50b7545627a5162f82a992c33b87adc75187b218'', ''WBTC''),
      (''0x6b175474e89094c44da98b954eedeac495271d0f'', ''DAI''),
      (''0xc02aaa39b223fe8d0a0e5c4f27ead9083c756cc2'', ''WETH''),
      (''0x514910771af9ca656af840dff83e8264ecf986ca'', ''LINK''),
      (''0x1f9840a85d5af5bf1d1762f925bdaddc4201f984'', ''UNI''),
      (''0x95ad61b0a150d79219dcf64e1e6cc01f0b64c4ce'', ''SHIB''),
      (''0x7fc66500c84a76ad7e9c93437bfc5ac33e2ddae9'', ''AAVE''),
      (''0xc00e94cb662c3520282e6f5717214004a7f26888'', ''COMP''),
      (''0x9f8f72aa9304c8b593d555f12ef6589cc3a579a2'', ''MKR''),
      (''0xc011a73ee8576fb46f5e1c5751ca3b9fe0af2a6f'', ''SNX''),
      (''0xd533a949740bb3306d119cc777fa900ba034cd52'', ''CRV''),
      (''0x6b3595068778dd592e39a122f4f5a5cf09c90fe2'', ''SUSHI''),
      (''0x0bc529c00c6401aef6d220be8c6ea1667f6ad93e'', ''YFI''),
      (''0xba100000625a3754423978a60c9317c58a424e3d'', ''BAL''),
      (''0x7d1afa7b718fb893db30a3abc0cfc608aacfebb0'', ''MATIC''),
      (''0x4d224452801aced8b2f0aebe155379bb5d594381'', ''APE''),
      (''0x5a98fcbea516cf06857215779fd812ca3bef1b32'', ''LDO''),
      (''0xd33526068d116ce69f19a9ee46f0bd304f21a51f'', ''RPL''),
      (''0x3432b6a60d23ca0dfca7761b7ab56459d9c964d0'', ''FXS''),
      (''0x4e3fbd56cd56c3e72c1403e103b45db9da5b9d2b'', ''CVX''),
      (''0x853d955acef822db058eb8505911ed77f175b99e'', ''FRAX''),
      (''0x5f98805a4e8be255a32880fdec7f6728c6568ba0'', ''LUSD''),
      (''0x57ab1ec28d129707052df4df418d58a2d46d5f51'', ''sUSD''),
      (''0xda10009cbd5d07dd0cecc66161fc93d7c9000da1'', ''DAI''),
      (''0x8f3cf7ad23cd3cadbd9735aff958023239c6a063'', ''DAI''),
      (''0xd586e7f844cea2f87f50152665bcbc2c279d8d70'', ''DAI.e''),
      (''0x82af49447d8a07e3bd95bd0d56f35241523fbab1'', ''WETH''),
      (''0x4200000000000000000000000000000000000006'', ''WETH''),
      (''0x7ceb23fd6bc0add59e62ac25578270cff1b9f619'', ''WETH''),
      (''0x49d5c2bdffac6ce2bfdb6fd9b3c6573c5b1d790a'', ''WETH.e'')]"

definition token_symbol :: "string \<Rightarrow> string" where
  "token_symbol addr = (case map_of token_symbol_table (to_lowercase addr) of Some s \<Rightarrow> s | None \<Rightarrow> addr)"

definition known_token_decimals :: "string \<Rightarrow> nat option" where
  "known_token_decimals addr = (if token_symbol addr \<noteq> addr then Some (token_decimals addr) else None)"

definition normalize_bigdecimal :: "('d \<Rightarrow> 'd \<Rightarrow> 'd) \<Rightarrow> ('d :: linordered_idom) \<Rightarrow> nat \<Rightarrow> 'd" where
  "normalize_bigdecimal dv raw decimals = dv raw (10 ^ decimals)"

definition token_decimals_i32 :: "nat \<Rightarrow> int" where
  "token_decimals_i32 decimals = (if int decimals \<le> i32_max then int decimals else i32_max)"

section \<open>Token transfers\<close>

definition get_str :: "json \<Rightarrow> string \<Rightarrow> string option" where
  "get_str v k = Option.bind (json_get v k) json_as_str"

definition get_array :: "json \<Rightarrow> string \<Rightarrow> json list option" where
  "get_array v k = Option.bind (json_get v k) json_as_array"

text \<open>
  One log. \<open>td\<close> is the value of the key \<open>token_decimals\<close>, which the caller copies into every log of
  a transaction; \<open>fid\<close> and \<open>now\<close> are the random id and the clock.
\<close>

definition log_transfer ::
    "('d \<Rightarrow> 'd \<Rightarrow> 'd) \<Rightarrow> uuid \<Rightarrow> timestamp \<Rightarrow> uuid option \<Rightarrow> string \<Rightarrow> json \<Rightarrow> json \<Rightarrow> ('d :: linordered_idom) token_transfer list" where
  "log_transfer dv fid now raw_tx_id network td log =
     (case get_array log ''topics'' of
        None \<Rightarrow> []
      | Some topics \<Rightarrow>
        (case (if topics = [] then None else json_as_str (topics ! 0)) of
           None \<Rightarrow> []
         | Some topic0 \<Rightarrow>
             if topic0 \<noteq> ERC20_TRANSFER_TOPIC \<or> length topics \<noteq> 3 then []
             else case erc20_transfer_topic_addresses topics of
               None \<Rightarrow> []
             | Some (from, to) \<Rightarrow>
               (case hex_to_bigdecimal (case get_str log ''data'' of Some d \<Rightarrow> d | None \<Rightarrow> ''0x0'') of
                  Inl _ \<Rightarrow> []
                | Inr amount \<Rightarrow>
                    (let token_address = (case get_str log ''address'' of Some a \<Rightarrow> a | None \<Rightarrow> ''unknown'');
                         decimals =
                           (case Option.bind (json_as_u64 (json_index td (to_lowercase token_address)))
                                   (\<lambda>n. if n \<le> 255 then Some n else None) of
                              Some n \<Rightarrow> Some n
                            | None \<Rightarrow> known_token_decimals token_address)
                     in [\<lparr>tt_id = fid, tt_raw_transaction_id = raw_tx_id, tt_network = network, tt_token_address = token_address,
                          tt_token_symbol = Some (token_symbol token_address), tt_from_address = from, tt_to_address = to,
                          tt_amount = (case decimals of Some d \<Rightarrow> normalize_bigdecimal dv amount d | None \<Rightarrow> amount),
                          tt_decimals = (case decimals of Some d \<Rightarrow> token_decimals_i32 d | None \<Rightarrow> -1),
                          tt_transfer_index = 0, tt_dataset_version_id = None, tt_created_at = now\<rparr>]))))"

definition log_index_of :: "json \<Rightarrow> nat \<Rightarrow> int" where
  "log_index_of log i =
     (case (case json_get log ''logIndex'' of Some v \<Rightarrow> Some v | None \<Rightarrow> json_get log ''log_index'') of
        Some v \<Rightarrow> evm_log_index_or_default v (usize_to_i32_or_max i)
      | None \<Rightarrow> usize_to_i32_or_max i)"

text \<open>Writing the key \<open>token_decimals\<close> into a log panics unless the log is an object or \<open>null\<close>.\<close>

definition writable :: "json \<Rightarrow> bool" where
  "writable v \<longleftrightarrow> (case v of JObject _ \<Rightarrow> True | JNull \<Rightarrow> True | _ \<Rightarrow> False)"

fun concat_opts :: "'a list option list \<Rightarrow> 'a list option" where
  "concat_opts [] = Some []"
| "concat_opts (x # xs) =
     (case x of None \<Rightarrow> None | Some a \<Rightarrow> (case concat_opts xs of None \<Rightarrow> None | Some b \<Rightarrow> Some (a @ b)))"

lemma json_get_size: "json_get v k = Some w \<Longrightarrow> size w < size v"
proof (cases v)
  case (JObject m)
  assume "json_get v k = Some w"
  then have "(k, w) \<in> set m" using JObject by (auto dest: map_of_SomeD)
  then have "size_prod (\<lambda>_. 0) size (k, w) \<le> size_list (size_prod (\<lambda>_. 0) size) m" by (rule size_list_estimation') simp
  then show ?thesis using JObject by simp
qed simp_all

lemma array_elem_size: "json_as_array v = Some xs \<Longrightarrow> x \<in> set xs \<Longrightarrow> size x < size v"
  by (cases v) (auto intro: le_imp_less_Suc size_list_estimation')

text \<open>\<open>td = None\<close> for the metadata of the transaction itself, which has its own \<open>token_decimals\<close>.\<close>

function extract_with_decimals ::
    "('d \<Rightarrow> 'd \<Rightarrow> 'd) \<Rightarrow> (json \<Rightarrow> uuid) \<Rightarrow> timestamp \<Rightarrow> uuid option \<Rightarrow> string \<Rightarrow> json option \<Rightarrow> json \<Rightarrow>
     ('d :: linordered_idom) token_transfer list option" where
  "extract_with_decimals dv fid now raw_tx_id network td raw =
     (let own = (case td of Some v \<Rightarrow> v | None \<Rightarrow> json_index raw ''token_decimals'')
      in if json_as_str (json_index raw ''status'') = Some ''0x0'' then Some []
         else case get_array raw ''logs'' of
             Some logs \<Rightarrow> concat_opts (map (\<lambda>(i, log).
                 if \<not> writable log then None
                 else map_option (map (\<lambda>t. t\<lparr>tt_transfer_index := log_index_of log i\<rparr>))
                        (extract_with_decimals dv fid now raw_tx_id network (Some own) log)) (enumerate 0 logs))
           | None \<Rightarrow> Some (log_transfer dv (fid raw) now raw_tx_id network own raw))"
  by pat_completeness auto
termination
proof (relation "measure (\<lambda>(_, _, _, _, _, _, raw). size raw)")
  fix raw :: json and logs i log p and x2 :: "json list"
  assume "get_array raw ''logs'' = Some x2" "p \<in> set (enumerate 0 x2)" "(i :: nat, log) = p"
  then have "log \<in> set x2" "\<exists>v. json_get raw ''logs'' = Some v \<and> json_as_array v = Some x2"
    by (auto simp: get_array_def bind_eq_Some_conv in_set_enumerate_eq)
  then have "size log < size raw" using json_get_size array_elem_size by (meson less_trans)
  then show "((dv, fid, now, raw_tx_id, network, Some own, log), (dv, fid, now, raw_tx_id, network, td, raw)) \<in>
      measure (\<lambda>(_, _, _, _, _, _, raw). size raw)" for dv fid now raw_tx_id network own td by simp
qed simp

declare extract_with_decimals.simps [simp del]

definition extract_evm_token_transfers ::
    "('d \<Rightarrow> 'd \<Rightarrow> 'd) \<Rightarrow> (json \<Rightarrow> uuid) \<Rightarrow> timestamp \<Rightarrow> uuid option \<Rightarrow> string \<Rightarrow> json \<Rightarrow>
     ('d :: linordered_idom) token_transfer list option" where
  "extract_evm_token_transfers dv fid now raw_tx_id network raw = extract_with_decimals dv fid now raw_tx_id network None raw"

section \<open>Decoded events\<close>

definition amount_text :: "('d :: linordered_idom \<Rightarrow> string) \<Rightarrow> string \<Rightarrow> string" where
  "amount_text pn data_hex = (case hex_to_bigdecimal data_hex of Inr v \<Rightarrow> pn v | Inl _ \<Rightarrow> data_hex)"

definition decode_evm_event_fields ::
    "('d :: linordered_idom \<Rightarrow> string) \<Rightarrow> string option \<Rightarrow> json list \<Rightarrow> string \<Rightarrow> string option \<times> json" where
  "decode_evm_event_fields pn topic0 topics data_hex =
     (case topic0 of
        Some t \<Rightarrow>
          if t = ERC20_TRANSFER_TOPIC \<and> length topics \<ge> 3
          then (Some ''Transfer'', JObject
                 ((case erc20_transfer_topic_addresses topics of
                     Some (from, to) \<Rightarrow> [(''from'', JString from), (''to'', JString to)]
                   | None \<Rightarrow> []) @ [(''value'', JString (amount_text pn data_hex))]))
          else if t = ERC20_APPROVAL_TOPIC \<and> length topics \<ge> 3
          then (Some ''Approval'', JObject
                 ((case erc20_approval_topic_addresses topics of
                     Some (owner, spender) \<Rightarrow> [(''owner'', JString owner), (''spender'', JString spender)]
                   | None \<Rightarrow> []) @ [(''value'', JString (amount_text pn data_hex))]))
          else (None, JObject [(''indexed_topics'', JArray (map JString (List.map_filter json_as_str (drop 1 topics)))),
                               (''data'', JString data_hex)])
      | None \<Rightarrow> (None, JObject [(''data'', JString data_hex)]))"

definition log_event ::
    "('d :: linordered_idom \<Rightarrow> string) \<Rightarrow> uuid \<Rightarrow> timestamp \<Rightarrow> uuid option \<Rightarrow> string \<Rightarrow> json \<Rightarrow> json list \<Rightarrow> nat \<Rightarrow> decoded_event" where
  "log_event pn fid now raw_tx_id network log topics i =
     (let data_hex = (case get_str log ''data'' of Some d \<Rightarrow> d | None \<Rightarrow> ''0x'');
          topic0 = (if topics = [] then None else json_as_str (topics ! 0));
          decoded = decode_evm_event_fields pn topic0 topics data_hex
      in \<lparr>de_id = fid, de_raw_transaction_id = raw_tx_id, de_network = network,
          de_program_or_contract = (case get_str log ''address'' of Some a \<Rightarrow> a | None \<Rightarrow> ''unknown''),
          de_event_signature = topic0, de_event_name = fst decoded, de_log_index = log_index_of log i,
          de_decoded_fields = snd decoded,
          de_raw_fields = JObject [(''topics'', JArray topics), (''data'', JString data_hex)],
          de_dataset_version_id = None, de_created_at = now\<rparr>)"

text \<open>The single-log format is read only without a list of logs; its default index is 0.\<close>

definition extract_evm_decoded_events ::
    "('d :: linordered_idom \<Rightarrow> string) \<Rightarrow> (json \<Rightarrow> uuid) \<Rightarrow> timestamp \<Rightarrow> uuid option \<Rightarrow> string \<Rightarrow> json \<Rightarrow> decoded_event list" where
  "extract_evm_decoded_events pn fid now raw_tx_id network raw =
     (case get_array raw ''topics'' of
        Some topics \<Rightarrow> if json_as_array (json_index raw ''logs'') = None
                       then [log_event pn (fid raw) now raw_tx_id network raw topics 0] else []
      | None \<Rightarrow> [])
     @ (case get_array raw ''logs'' of
          Some logs \<Rightarrow> concat (map (\<lambda>(i, log). case get_array log ''topics'' of
              Some topics \<Rightarrow> [log_event pn (fid log) now raw_tx_id network log topics i] | None \<Rightarrow> []) (enumerate 0 logs))
        | None \<Rightarrow> [])"

section \<open>The legacy ledger parser\<close>

definition evm_entry ::
    "(uuid \<Rightarrow> string \<Rightarrow> uuid) \<Rightarrow> (uuid \<Rightarrow> string) \<Rightarrow> transaction \<Rightarrow> nat \<Rightarrow> string \<times> 'd \<times> entry_type \<Rightarrow> 'd ledger_entry" where
  "evm_entry vh us tx i e =
     (case e of (symbol, amount, etype) \<Rightarrow>
       \<lparr>le_id = deterministic_id vh us (tx_id tx) (word_of_nat i), le_transaction_id = tx_id tx, le_user_id = tx_user_id tx,
        le_wallet_address = tx_wallet_address tx, le_asset_symbol = symbol, le_amount = amount, le_entry_type = etype,
        le_fiat_value = None\<rparr>)"

definition evm_transfer_moves :: "('d \<Rightarrow> 'd \<Rightarrow> 'd) \<Rightarrow> string \<Rightarrow> json \<Rightarrow> (string \<times> ('d :: linordered_idom) \<times> entry_type) list" where
  "evm_transfer_moves dv wallet raw =
     (case get_array raw ''topics'' of
        None \<Rightarrow> []
      | Some topics \<Rightarrow>
          (if topics \<noteq> [] \<and> json_as_str (topics ! 0) = Some ERC20_TRANSFER_TOPIC \<and> length topics \<ge> 3
           then case erc20_transfer_topic_addresses topics of
               None \<Rightarrow> []
             | Some (from, to) \<Rightarrow>
                 (case hex_to_bigdecimal (case get_str raw ''data'' of Some d \<Rightarrow> d | None \<Rightarrow> ''0x0'') of
                    Inl _ \<Rightarrow> []
                  | Inr amount \<Rightarrow>
                      (let token = (case get_str raw ''address'' of Some a \<Rightarrow> a | None \<Rightarrow> ''unknown'');
                           normalized = normalize_bigdecimal dv amount (token_decimals token)
                       in (if from = wallet then [(token_symbol token, - normalized, ET_Transfer)] else [])
                          @ (if to = wallet then [(token_symbol token, normalized, ET_Transfer)] else [])))
           else []))"

definition evm_value_moves :: "('d \<Rightarrow> 'd \<Rightarrow> 'd) \<Rightarrow> string \<Rightarrow> json \<Rightarrow> (string \<times> ('d :: linordered_idom) \<times> entry_type) list" where
  "evm_value_moves dv wallet raw =
     (case Option.bind (get_str raw ''value'') (\<lambda>v. case hex_to_bigdecimal v of Inr wei \<Rightarrow> Some wei | Inl _ \<Rightarrow> None) of
        None \<Rightarrow> []
      | Some wei \<Rightarrow>
          if wei > 0
          then let eth = wei_to_eth dv wei;
                   from = to_lowercase (case get_str raw ''from'' of Some f \<Rightarrow> f | None \<Rightarrow> []);
                   to = to_lowercase (case get_str raw ''to'' of Some t \<Rightarrow> t | None \<Rightarrow> [])
               in (if from = wallet then [(''ETH'', - eth, ET_Transfer)] else [])
                  @ (if to = wallet then [(''ETH'', eth, ET_Transfer)] else [])
          else [])"

definition u128_saturating_mul :: "nat \<Rightarrow> nat \<Rightarrow> nat" where
  "u128_saturating_mul a b = min (2 ^ 128 - 1) (a * b)"

definition evm_gas_moves :: "('d \<Rightarrow> 'd \<Rightarrow> 'd) \<Rightarrow> json \<Rightarrow> (string \<times> ('d :: linordered_idom) \<times> entry_type) list" where
  "evm_gas_moves dv raw =
     (case (get_str raw ''gas_used'', get_str raw ''effective_gas_price'') of
        (Some g, Some p) \<Rightarrow>
          (let fee_wei = u128_saturating_mul (hex_to_u128_or_zero g) (hex_to_u128_or_zero p)
           in if fee_wei > 0 then [(''ETH'', - wei_to_eth dv (of_nat fee_wei), ET_Fee)] else [])
      | _ \<Rightarrow> [])"

definition parse_evm_transaction ::
    "(uuid \<Rightarrow> string \<Rightarrow> uuid) \<Rightarrow> (uuid \<Rightarrow> string) \<Rightarrow> ('d \<Rightarrow> 'd \<Rightarrow> 'd) \<Rightarrow> transaction \<Rightarrow> ('d :: linordered_idom) ledger_entry list" where
  "parse_evm_transaction vh us dv tx =
     (let wallet = to_lowercase (tx_wallet_address tx); raw = tx_raw_metadata tx
      in map (\<lambda>(i, e). evm_entry vh us tx i e)
           (enumerate 0 (evm_transfer_moves dv wallet raw @ evm_value_moves dv wallet raw @ evm_gas_moves dv raw)))"

section \<open>Numbers\<close>

text \<open>The encoding of the chain: 64 lower-case digits after \<open>0x\<close>.\<close>

definition digit_char :: "nat \<Rightarrow> char" where
  "digit_char d = (if d < 10 then char_of (48 + d) else char_of (87 + d))"

fun hex_of :: "nat \<Rightarrow> nat \<Rightarrow> string" where
  "hex_of 0 n = []"
| "hex_of (Suc k) n = hex_of k (n div 16) @ [digit_char (n mod 16)]"

lemma hex_of_length [simp]: "length (hex_of k n) = k"
  by (induction k arbitrary: n) simp_all

lemma hex_digit_char: "d < 16 \<Longrightarrow> hex_digit (digit_char d) = Some d"
  by (simp add: hex_digit_def digit_char_def)

lemma hex_value_append:
  "hex_value h (xs @ ys) acc = (case hex_value h xs acc of Inl e \<Rightarrow> Inl e | Inr a \<Rightarrow> hex_value h ys a)"
  by (induction xs arbitrary: acc) (auto split: option.split)

lemma hex_value_of: "n < 16 ^ k \<Longrightarrow> hex_value h (hex_of k n) (0 :: 'd :: linordered_idom) = Inr (of_nat n)"
proof (induction k arbitrary: n)
  case (Suc k)
  then have "n div 16 < 16 ^ k" by (simp add: less_mult_imp_div_less)
  then have "hex_value h (hex_of k (n div 16)) (0 :: 'd) = Inr (of_nat (n div 16))" by (rule Suc.IH)
  moreover have "of_nat (n div 16) * 16 + of_nat (n mod 16) = (of_nat n :: 'd)"
    by (metis (no_types) div_mult_mod_eq of_nat_add of_nat_mult of_nat_numeral)
  ultimately show ?case by (simp add: hex_value_append hex_digit_char)
qed simp

lemma hex_to_bigdecimal_of:
  assumes "n < 2 ^ 256"
  shows "hex_to_bigdecimal (''0x'' @ hex_of 64 n) = (Inr (of_nat n) :: ('d :: linordered_idom) result)"
proof -
  have "n < 16 ^ 64" using assms by simp
  moreover have "strip_0x (''0x'' @ hex_of 64 n) = hex_of 64 n" by (simp add: strip_0x_def starts_with_def)
  moreover have "hex_of 64 n \<noteq> []" by (metis hex_of_length length_0_conv zero_neq_numeral)
  ultimately show ?thesis by (simp add: hex_to_bigdecimal_def hex_value_of)
qed

lemma topic_to_address_padded:
  "length addr = 40 \<Longrightarrow> topic_to_address (''0x'' @ replicate 24 (CHR ''0'') @ addr) = ''0x'' @ addr"
  by (simp add: topic_to_address_def strip_0x_def starts_with_def Let_def)

text \<open>
  An index as a node writes it in a log: a number, or a hexadecimal \<open>quantity\<close>, \<open>0x\<close> and the digits without leading zeros,
  under \<open>logIndex\<close> or, when this key is absent, \<open>log_index\<close>. \<open>None\<close> stands for a log without an index.
\<close>

fun hex_quantity :: "nat \<Rightarrow> string" where
  "hex_quantity n = (if n < 16 then [digit_char n] else hex_quantity (n div 16) @ [digit_char (n mod 16)])"

declare hex_quantity.simps [simp del]

definition node_index :: "(string \<times> json) list \<Rightarrow> nat option \<Rightarrow> bool" where
  "node_index m q \<longleftrightarrow>
     (let v = (case map_of m ''logIndex'' of Some v \<Rightarrow> Some v | None \<Rightarrow> map_of m ''log_index'')
      in case q of
           Some n \<Rightarrow> int n \<le> i32_max \<and> (v = Some (JInt (int n)) \<or> v = Some (JString (''0x'' @ hex_quantity n)))
         | None \<Rightarrow> v = None \<or> v = Some JNull)"

text \<open>
  A log as a node reports it, with whatever other keys (\<open>blockHash\<close>, \<open>transactionIndex\<close>, \<open>removed\<close> and so on): a token transfer
  \<open>(token, from, to, amount)\<close>, its addresses padded to 32 bytes and its amount a \<open>uint256\<close>, or a log that is no such transfer
  (another event, or a \<open>Transfer\<close> with another number of topics, as of an ERC-721 token).
\<close>

type_synonym node_transfer = "nat option \<times> string \<times> string \<times> string \<times> nat"

definition transfer_topics :: "string \<Rightarrow> string \<Rightarrow> json list" where
  "transfer_topics from to =
     [JString ERC20_TRANSFER_TOPIC, JString (''0x'' @ replicate 24 (CHR ''0'') @ from), JString (''0x'' @ replicate 24 (CHR ''0'') @ to)]"

definition transfer_fields :: "(string \<times> json) list \<Rightarrow> node_transfer \<Rightarrow> bool" where
  "transfer_fields m e \<longleftrightarrow> (case e of (q, token, from, to, amount) \<Rightarrow>
     node_index m q \<and> length from = 40 \<and> length to = 40 \<and> amount < 2 ^ 256
     \<and> map_of m ''address'' = Some (JString token) \<and> map_of m ''topics'' = Some (JArray (transfer_topics from to))
     \<and> map_of m ''data'' = Some (JString (''0x'' @ hex_of 64 amount)))"

definition other_fields :: "(string \<times> json) list \<Rightarrow> bool" where
  "other_fields m \<longleftrightarrow> (case map_of m ''topics'' of
     Some (JArray ts) \<Rightarrow> ts = [] \<or> json_as_str (hd ts) \<noteq> Some ERC20_TRANSFER_TOPIC \<or> length ts \<noteq> 3
   | _ \<Rightarrow> False)"

definition node_log :: "json \<Rightarrow> node_transfer option \<Rightarrow> bool" where
  "node_log log e \<longleftrightarrow> (case log of
     JObject m \<Rightarrow> map_of m ''logs'' = None \<and> map_of m ''status'' = None
       \<and> (case e of Some t \<Rightarrow> transfer_fields m t | None \<Rightarrow> other_fields m)
   | _ \<Rightarrow> False)"

text \<open>The decimals of a token: from the transaction, else from the table of known tokens.\<close>

definition token_scale :: "json \<Rightarrow> string \<Rightarrow> nat option" where
  "token_scale td token =
     (case Option.bind (json_as_u64 (json_index td (to_lowercase token))) (\<lambda>n. if n \<le> 255 then Some n else None) of
        Some n \<Rightarrow> Some n
      | None \<Rightarrow> known_token_decimals token)"

definition scaled_amount :: "('d \<Rightarrow> 'd \<Rightarrow> 'd) \<Rightarrow> nat option \<Rightarrow> nat \<Rightarrow> 'd :: linordered_idom" where
  "scaled_amount dv scale amount = (case scale of Some d \<Rightarrow> dv (of_nat amount) (10 ^ d) | None \<Rightarrow> of_nat amount)"

definition reported_transfer ::
    "('d \<Rightarrow> 'd \<Rightarrow> 'd) \<Rightarrow> uuid \<Rightarrow> timestamp \<Rightarrow> uuid option \<Rightarrow> string \<Rightarrow> json \<Rightarrow> nat \<Rightarrow> string \<times> string \<times> string \<times> nat \<Rightarrow>
     ('d :: linordered_idom) token_transfer" where
  "reported_transfer dv fid now raw_tx_id network td i e =
     (case e of (token, from, to, amount) \<Rightarrow>
       \<lparr>tt_id = fid, tt_raw_transaction_id = raw_tx_id, tt_network = network, tt_token_address = token,
        tt_token_symbol = Some (token_symbol token), tt_from_address = ''0x'' @ from, tt_to_address = ''0x'' @ to,
        tt_amount = scaled_amount dv (token_scale td token) amount,
        tt_decimals = (case token_scale td token of Some d \<Rightarrow> token_decimals_i32 d | None \<Rightarrow> -1),
        tt_transfer_index = usize_to_i32_or_max i, tt_dataset_version_id = None, tt_created_at = now\<rparr>)"

text \<open>The transfers of the log at position \<open>i\<close>: at the index of the node, at its position without one.\<close>

definition node_transfers ::
    "('d \<Rightarrow> 'd \<Rightarrow> 'd) \<Rightarrow> (json \<Rightarrow> uuid) \<Rightarrow> timestamp \<Rightarrow> uuid option \<Rightarrow> string \<Rightarrow> json \<Rightarrow> nat \<Rightarrow> json \<Rightarrow> node_transfer option \<Rightarrow>
     ('d :: linordered_idom) token_transfer list" where
  "node_transfers dv fid now raw_tx_id network td i log e =
     (case e of
        Some (q, t) \<Rightarrow> [reported_transfer dv (fid log) now raw_tx_id network td (case q of Some n \<Rightarrow> n | None \<Rightarrow> i) t]
      | None \<Rightarrow> [])"

lemma hex_digits_append: "hex_digits a (xs @ ys) = Option.bind (hex_digits a xs) (\<lambda>b. hex_digits b ys)"
  by (induction xs arbitrary: a) (auto split: option.split)

lemma hex_digits_quantity: "hex_digits 0 (hex_quantity n) = Some n"
proof (induction n rule: hex_quantity.induct)
  case (1 n)
  then show ?case by (subst hex_quantity.simps) (simp add: hex_digits_append hex_digit_char)
qed

lemma hex_to_i64_quantity:
  assumes "int n \<le> i64_max"
  shows "hex_to_i64_opt (''0x'' @ hex_quantity n) = Some (int n)"
proof -
  obtain c cs where q: "hex_quantity n = c # cs"
    by (cases "hex_quantity n") (auto simp: hex_quantity.simps [of n] split: if_splits)
  have "hex_digits 0 (c # cs) = Some n" using hex_digits_quantity [of n] by (simp add: q)
  then have "hex_digit c \<noteq> None" by (auto split: option.splits)
  then have "c \<noteq> CHR ''-''" "c \<noteq> CHR ''+''" by (auto simp: hex_digit_def)
  moreover have "strip_0x (''0x'' @ c # cs) = c # cs" by (simp add: strip_0x_def starts_with_def)
  moreover have "i64_min \<le> int n" by (simp add: i64_min_def)
  ultimately show ?thesis
    using assms \<open>hex_digits 0 (c # cs) = Some n\<close>
    by (simp add: hex_to_i64_opt_def q drop_plus_def hex_nat_def Let_def del: append_Cons)
qed

lemma log_index_of_node:
  assumes "node_index m q"
  shows "log_index_of (JObject m) i = usize_to_i32_or_max (case q of Some n \<Rightarrow> n | None \<Rightarrow> i)"
proof (cases q)
  case None
  then show ?thesis
    using assms by (auto simp: node_index_def log_index_of_def evm_log_index_or_default_def Let_def split: option.splits)
next
  case (Some n)
  then have n: "int n \<le> i32_max" using assms by (simp add: node_index_def Let_def)
  then have "int n \<le> i64_max" by (simp add: i32_max_def i64_max_def)
  from hex_to_i64_quantity [OF this] this n
  have "evm_log_index_or_default v d = int n" if "v = JInt (int n) \<or> v = JString (''0x'' @ hex_quantity n)" for v d
    using that by (auto simp: evm_log_index_or_default_def i64_min_def)
  moreover have "(case map_of m ''logIndex'' of Some v \<Rightarrow> Some v | None \<Rightarrow> map_of m ''log_index'') = Some (JInt (int n))
      \<or> (case map_of m ''logIndex'' of Some v \<Rightarrow> Some v | None \<Rightarrow> map_of m ''log_index'') = Some (JString (''0x'' @ hex_quantity n))"
    using assms Some by (simp add: node_index_def Let_def)
  ultimately have "log_index_of (JObject m) i = int n" unfolding log_index_of_def json_get.simps by auto
  then show ?thesis using n Some by (simp add: usize_to_i32_or_max_def)
qed

lemma transfer_log_addresses:
  assumes "length from = 40" "length to = 40"
  shows "erc20_transfer_topic_addresses
      [JString ERC20_TRANSFER_TOPIC, JString (''0x'' @ replicate 24 (CHR ''0'') @ from), JString (''0x'' @ replicate 24 (CHR ''0'') @ to)] =
      Some (''0x'' @ from, ''0x'' @ to)"
proof -
  have "topic_to_address (''0x'' @ replicate 24 (CHR ''0'') @ from) = ''0x'' @ from"
    "topic_to_address (''0x'' @ replicate 24 (CHR ''0'') @ to) = ''0x'' @ to"
    using assms by (simp_all only: topic_to_address_padded)
  then show ?thesis by (simp add: erc20_transfer_topic_addresses_def topic_address_at_def del: append_Cons)
qed

lemma log_transfer_reported:
  assumes "transfer_fields m (q, t)"
  shows "map (\<lambda>r. r\<lparr>tt_transfer_index := usize_to_i32_or_max i\<rparr>) (log_transfer dv fid now raw_tx_id network td (JObject m)) =
    [reported_transfer dv fid now raw_tx_id network td i t]"
proof -
  obtain token src dst amount where t: "t = (token, src, dst, amount)" by (cases t)
  have len: "length src = 40" "length dst = 40" and amt: "amount < 2 ^ 256"
    using assms by (simp_all add: t transfer_fields_def)
  have fields: "get_array (JObject m) ''topics'' = Some (transfer_topics src dst)"
      "get_str (JObject m) ''data'' = Some (''0x'' @ hex_of 64 amount)" "get_str (JObject m) ''address'' = Some token"
    using assms by (simp_all add: t transfer_fields_def get_array_def get_str_def)
  show ?thesis
    unfolding log_transfer_def fields option.case normalize_bigdecimal_def transfer_topics_def
    by (simp add: transfer_log_addresses [OF len] hex_to_bigdecimal_of [OF amt] reported_transfer_def t
        scaled_amount_def token_scale_def Let_def del: append_Cons)
qed

lemma log_transfer_other: "other_fields m \<Longrightarrow> log_transfer dv fid now raw_tx_id network td (JObject m) = []"
proof -
  assume "other_fields m"
  then obtain ts where ts: "get_array (JObject m) ''topics'' = Some ts"
      "ts = [] \<or> json_as_str (hd ts) \<noteq> Some ERC20_TRANSFER_TOPIC \<or> length ts \<noteq> 3"
    by (auto simp: other_fields_def get_array_def split: option.splits json.splits)
  then show ?thesis by (cases ts) (auto simp: log_transfer_def split: option.split)
qed

lemma extract_single_log:
  assumes "node_log log e"
  shows "writable log"
    and "map_option (map (\<lambda>t. t\<lparr>tt_transfer_index := log_index_of log i\<rparr>))
      (extract_with_decimals dv fid now raw_tx_id network (Some td) log) =
    Some (node_transfers dv fid now raw_tx_id network td i log e)"
proof -
  obtain m where log: "log = JObject m" using assms by (cases log) (simp_all add: node_log_def)
  show "writable log" by (simp add: log writable_def)
  have "json_as_str (json_index log ''status'') \<noteq> Some ''0x0''" "get_array log ''logs'' = None"
    using assms by (simp_all add: log node_log_def get_array_def json_index_def)
  then have single: "extract_with_decimals dv fid now raw_tx_id network (Some td) log =
      Some (log_transfer dv (fid log) now raw_tx_id network td log)"
    by (subst extract_with_decimals.simps) simp
  show "map_option (map (\<lambda>t. t\<lparr>tt_transfer_index := log_index_of log i\<rparr>))
      (extract_with_decimals dv fid now raw_tx_id network (Some td) log) =
    Some (node_transfers dv fid now raw_tx_id network td i log e)"
  proof (cases e)
    case None
    then have "other_fields m" using assms by (simp add: log node_log_def)
    then show ?thesis unfolding single by (simp add: None node_transfers_def log log_transfer_other)
  next
    case (Some qt)
    obtain q t where qt: "qt = (q, t)" by (cases qt)
    have f: "transfer_fields m (q, t)" using assms by (simp add: log node_log_def Some qt)
    then have "node_index m q" by (cases t) (simp add: transfer_fields_def)
    then show ?thesis
      unfolding single
      by (simp add: Some qt node_transfers_def log log_index_of_node log_transfer_reported [OF f])
  qed
qed

lemma concat_opts_all:
  "(\<And>x. x \<in> set xs \<Longrightarrow> f x = Some (g x)) \<Longrightarrow> concat_opts (map f xs) = Some (concat (map g xs))"
  by (induction xs) simp_all

lemma enumerate_zip:
  "length xs = length ys \<Longrightarrow> enumerate n xs = map (\<lambda>(i, x, y). (i, x)) (enumerate n (zip xs ys))"
  by (induction xs ys arbitrary: n rule: list_induct2) simp_all

text \<open>
  C40. For a transaction that did not fail, whose logs are as a node reports them, with or without an index (of 31 bits) and with
  any further keys other than \<open>logs\<close> and \<open>status\<close>, which a log of a node does not have, the extraction returns, without a
  panic, exactly one transfer for each ERC-20 transfer among the logs and none for the other logs, in order, with the addresses
  read back, the whole 256-bit amount scaled by the decimals of the token, and as its index the index that the node gives
  (\<open>logIndex\<close>, or \<open>log_index\<close> without it, as a number or in hexadecimal), or the position of the log where the node gives
  none. A failed transaction gives no transfer.
\<close>

theorem erc20_transfers_roundtrip:
  assumes "list_all2 node_log logs es" "get_array raw ''logs'' = Some logs"
  shows "extract_evm_token_transfers dv fid now raw_tx_id network raw =
    Some (if json_as_str (json_index raw ''status'') = Some ''0x0'' then []
          else concat (map (\<lambda>(i, log, e). node_transfers dv fid now raw_tx_id network (json_index raw ''token_decimals'') i log e)
                 (enumerate 0 (zip logs es))))"
proof -
  have len: "length logs = length es" using assms(1) by (rule list_all2_lengthD)
  have nl: "node_log (fst (snd p)) (snd (snd p))" if "p \<in> set (enumerate 0 (zip logs es))" for p
  proof -
    have "fst p < length logs" "snd p = (logs ! fst p, es ! fst p)"
      using that len by (auto simp: in_set_enumerate_eq simp flip: nth_zip)
    then show ?thesis using list_all2_nthD [OF assms(1)] by simp
  qed
  show ?thesis unfolding extract_evm_token_transfers_def
    by (subst extract_with_decimals.simps)
      (simp add: assms(2) enumerate_zip [OF len] comp_def case_prod_unfold, intro impI concat_opts_all,
       simp add: extract_single_log [OF nl])
qed

definition sample_transfers :: "(json \<times> node_transfer option) list" where
  "sample_transfers =
     [(JObject [(''address'', JString ''0xa0b86991c6218b36c1d19d4a2e9eb0ce3606eb48''), (''blockHash'', JString ''0x77''),
         (''topics'', JArray (transfer_topics (replicate 40 (CHR ''a'')) (replicate 40 (CHR ''b'')))),
         (''data'', JString (''0x'' @ hex_of 64 5000000)), (''logIndex'', JString ''0x1f''), (''removed'', JBool False)],
       Some (Some 31, ''0xa0b86991c6218b36c1d19d4a2e9eb0ce3606eb48'', replicate 40 (CHR ''a''), replicate 40 (CHR ''b''), 5000000)),
      (JObject [(''address'', JString ''0xff''), (''topics'', JArray [JString ERC20_APPROVAL_TOPIC]), (''data'', JString ''0x'')], None),
      (JObject [(''address'', JString ''0xff''),
         (''topics'', JArray (transfer_topics (replicate 40 (CHR ''b'')) (replicate 40 (CHR ''c'')))),
         (''data'', JString (''0x'' @ hex_of 64 (2 ^ 255)))],
       Some (None, ''0xff'', replicate 40 (CHR ''b''), replicate 40 (CHR ''c''), 2 ^ 255))]"

lemma sample_quantity: "hex_quantity 31 = ''1f''"
  by code_simp

lemma sample_transfers_logs: "list_all2 node_log (map fst sample_transfers) (map snd sample_transfers)"
  by (simp add: sample_transfers_def node_log_def transfer_fields_def other_fields_def node_index_def i32_max_def
      sample_quantity ERC20_APPROVAL_TOPIC_def ERC20_TRANSFER_TOPIC_def)

lemma sample_scales:
  "token_scale JNull ''0xa0b86991c6218b36c1d19d4a2e9eb0ce3606eb48'' = Some 6" "token_scale JNull ''0xff'' = None"
  by code_simp+

theorem erc20_transfers_roundtrip_witness:
  "map_option (map (\<lambda>t. (tt_from_address t, tt_amount t, tt_decimals t, tt_transfer_index t)))
     (extract_evm_token_transfers (\<lambda>a b. a div b) (\<lambda>_. 7) 0 None ''ethereum''
       (JObject [(''status'', JString ''0x1''), (''logs'', JArray (map fst sample_transfers))])) =
   Some [(''0x'' @ replicate 40 (CHR ''a''), 5 :: int, 6, 31), (''0x'' @ replicate 40 (CHR ''b''), 2 ^ 255, -1, 2)]"
  by (subst erc20_transfers_roundtrip [OF sample_transfers_logs])
    (simp_all add: get_array_def json_index_def sample_transfers_def node_transfers_def reported_transfer_def sample_scales
      scaled_amount_def token_decimals_i32_def i32_max_def usize_to_i32_or_max_def)

end
