(* ===== verification/Payloads.thy ===== *)
theory Payloads
  imports Hl_Parser Solana_Parser Evm_Parser
begin

text \<open>
  Validation of raw payloads before an import or a materialization, \<open>validate_import_payload\<close> of
  \<open>adapters/src/lib.rs\<close>, and what it guarantees the parsers. The result is \<open>True\<close> for \<open>Ok\<close>; the
  texts of the errors are not kept. \<open>bd\<close> is \<open>BigDecimal::from_str\<close> and \<open>dec\<close> the Solana deserializer.
\<close>

section \<open>Validation\<close>

record hl_funding_rate =
  hfr_coin :: string
  hfr_funding_rate :: string
  hfr_premium :: string
  hfr_time :: nat

definition de_hl_funding_rate :: "json \<Rightarrow> hl_funding_rate option" where
  "de_hl_funding_rate v =
     (if \<not> de_shape 4 v then None
      else case (de_req json_as_str (de_field v 0 ''coin''), de_req json_as_str (de_field v 1 ''fundingRate''),
                 de_req json_as_str (de_field v 2 ''premium''), de_req json_as_u64 (de_field v 3 ''time'')) of
        (Some coin, Some rate, Some premium, Some time) \<Rightarrow>
          Some \<lparr>hfr_coin = coin, hfr_funding_rate = rate, hfr_premium = premium, hfr_time = time\<rparr>
      | _ \<Rightarrow> None)"

definition decimal_ok :: "(string \<Rightarrow> 'd option) \<Rightarrow> string \<Rightarrow> bool" where
  "decimal_ok bd s \<longleftrightarrow> length s \<le> 256 \<and> bd s \<noteq> None"

definition opt_ok :: "('a \<Rightarrow> bool) \<Rightarrow> 'a option \<Rightarrow> bool" where
  "opt_ok P v \<longleftrightarrow> (case v of None \<Rightarrow> True | Some x \<Rightarrow> P x)"

definition is_object :: "json \<Rightarrow> bool" where
  "is_object v \<longleftrightarrow> (case v of JObject _ \<Rightarrow> True | _ \<Rightarrow> False)"

definition is_string :: "json \<Rightarrow> bool" where
  "is_string v \<longleftrightarrow> json_as_str v \<noteq> None"

definition is_array :: "json \<Rightarrow> bool" where
  "is_array v \<longleftrightarrow> json_as_array v \<noteq> None"

definition hex_text :: "string \<Rightarrow> bool" where
  "hex_text s \<longleftrightarrow> starts_with s ''0x'' \<and> list_all (\<lambda>c. hex_digit c \<noteq> None) (drop 2 s)"

definition evm_field_ok :: "json \<Rightarrow> string \<Rightarrow> bool" where
  "evm_field_ok raw field \<longleftrightarrow>
     opt_ok (\<lambda>v. case json_as_str v of
         None \<Rightarrow> False
       | Some s \<Rightarrow> hex_text s \<and> (field \<noteq> ''data'' \<longrightarrow> length s \<le> 66 \<and> 2 < length s)) (json_get raw field)"

definition evm_topics_ok :: "json \<Rightarrow> bool" where
  "evm_topics_ok raw \<longleftrightarrow>
     opt_ok (\<lambda>v. case json_as_array v of
         None \<Rightarrow> False
       | Some topics \<Rightarrow> length topics \<le> 4 \<and>
           list_all (\<lambda>t. case json_as_str t of Some s \<Rightarrow> length s = 66 \<and> hex_text s | None \<Rightarrow> False) topics) (json_get raw ''topics'')"

definition check_evm_fields :: "json \<Rightarrow> bool" where
  "check_evm_fields raw \<longleftrightarrow> is_object raw
     \<and> list_all (evm_field_ok raw) [''value'', ''gas_used'', ''effective_gas_price'', ''data''] \<and> evm_topics_ok raw"

definition validate_evm_payload :: "json \<Rightarrow> bool" where
  "validate_evm_payload raw \<longleftrightarrow>
     (is_array (json_index raw ''topics'') \<and> is_string (json_index raw ''data'') \<and> is_string (json_index raw ''address'')
      \<or> is_string (json_index raw ''from'') \<and> is_string (json_index raw ''value'')
      \<or> is_array (json_index raw ''logs''))
     \<and> check_evm_fields raw
     \<and> opt_ok (list_all check_evm_fields) (json_as_array (json_index raw ''logs''))
     \<and> (case json_index raw ''token_decimals'' of
          JObject hints \<Rightarrow> list_all (\<lambda>(k, v). case json_as_u64 v of Some n \<Rightarrow> n \<le> 255 | None \<Rightarrow> False) hints
        | _ \<Rightarrow> True)"

text \<open>\<open>str::parse::<u64>\<close>: digits after an optional plus sign, below \<open>2^64\<close>.\<close>

definition parse_u64 :: "string \<Rightarrow> int option" where
  "parse_u64 s =
     (let ds = (case s of [] \<Rightarrow> [] | c # cs \<Rightarrow> if c = CHR ''+'' then cs else s)
      in if ds = [] then None
         else case digits_value ds 0 of Some n \<Rightarrow> if n < 2 ^ 64 then Some n else None | None \<Rightarrow> None)"

definition validate_solana_payload :: "(json \<Rightarrow> sol_tx option) \<Rightarrow> json \<Rightarrow> bool" where
  "validate_solana_payload dec raw \<longleftrightarrow>
     (case dec raw of
        None \<Rightarrow> False
      | Some t \<Rightarrow>
          (case st_meta t of
             None \<Rightarrow> False
           | Some meta \<Rightarrow> length (sm_pre_balances meta) = length (sm_post_balances meta)
               \<and> list_all (\<lambda>bs. opt_ok (list_all (\<lambda>b. parse_u64 (tb_amount b) \<noteq> None)) bs)
                   [sm_pre_token_balances meta, sm_post_token_balances meta]))"

definition validate_hl_payload :: "(string \<Rightarrow> 'd option) \<Rightarrow> json \<Rightarrow> bool" where
  "validate_hl_payload bd raw \<longleftrightarrow>
     (let data = json_index raw ''data'' in
      case json_as_str (json_index raw ''type'') of
        None \<Rightarrow> False
      | Some ty \<Rightarrow>
          if ty = ''fill''
          then (case de_hl_fill data of
                  None \<Rightarrow> False
                | Some f \<Rightarrow> decimal_ok bd (hf_px f) \<and> decimal_ok bd (hf_sz f) \<and> opt_ok (decimal_ok bd) (hf_fee f)
                    \<and> opt_ok (decimal_ok bd) (hf_closed_pnl f))
          else if ty = ''funding''
          then (case de_hl_funding_entry data of
                  None \<Rightarrow> False
                | Some f \<Rightarrow> decimal_ok bd (hfe_usdc f) \<and> opt_ok (decimal_ok bd) (hfe_funding_rate f))
          else if ty = ''ledger_update''
          then (case de_hl_ledger_update data of
                  None \<Rightarrow> False
                | Some u \<Rightarrow>
                    (let delta_type = json_as_str (json_index (hlu_delta u) ''type'')
                     in delta_type = Some ''deposit'' \<or> delta_type = Some ''withdraw'' \<longrightarrow>
                          (case json_as_str (json_index (hlu_delta u) ''usdc'') of None \<Rightarrow> False | Some s \<Rightarrow> decimal_ok bd s)))
          else if ty = ''funding_rate''
          then (case de_hl_funding_rate data of
                  None \<Rightarrow> False
                | Some r \<Rightarrow> decimal_ok bd (hfr_funding_rate r) \<and> decimal_ok bd (hfr_premium r))
          else False)"

definition validate_import_payload :: "(string \<Rightarrow> 'd option) \<Rightarrow> (json \<Rightarrow> sol_tx option) \<Rightarrow> chain_family \<Rightarrow> json \<Rightarrow> bool" where
  "validate_import_payload bd dec family raw \<longleftrightarrow> is_object raw \<and>
     (case family of
        CF_Solana \<Rightarrow> validate_solana_payload dec raw
      | CF_Evm \<Rightarrow> validate_evm_payload raw
      | CF_Hyperliquid \<Rightarrow> validate_hl_payload bd raw)"

section \<open>What a valid payload guarantees\<close>

lemma validated_fill:
  assumes "validate_hl_payload bd raw" "hl_type raw = ''fill''"
  shows "length (extract_hl_fill_records bd fid now raw_tx_id network raw) = 1
    \<and> length (extract_hl_position_changes bd fid now raw_tx_id network raw) = 1"
proof -
  have ty: "json_as_str (json_index raw ''type'') = Some ''fill''"
    using assms(2) by (cases "json_as_str (json_index raw ''type'')") (simp_all add: hl_type_def str_or_def)
  then obtain f where "de_hl_fill (json_index raw ''data'') = Some f" "bd (hf_px f) \<noteq> None" "bd (hf_sz f) \<noteq> None"
    using assms(1) by (auto simp: validate_hl_payload_def decimal_ok_def split: option.splits)
  then show ?thesis using assms(2)
    by (auto simp: extract_hl_fill_records_def extract_hl_position_changes_def extract_position_change_from_fill_def)
qed

lemma validated_funding:
  assumes "validate_hl_payload bd raw" "hl_type raw = ''funding''"
  shows "length (extract_hl_funding_payments bd fid now raw_tx_id network raw) = 1"
proof -
  have ty: "json_as_str (json_index raw ''type'') = Some ''funding''"
    using assms(2) by (cases "json_as_str (json_index raw ''type'')") (simp_all add: hl_type_def str_or_def)
  then obtain f where "de_hl_funding_entry (json_index raw ''data'') = Some f" "bd (hfe_usdc f) \<noteq> None"
    using assms(1) by (auto simp: validate_hl_payload_def decimal_ok_def split: option.splits)
  then show ?thesis using assms(2) by (auto simp: extract_hl_funding_payments_def)
qed

lemma digits_value_mono: "0 \<le> acc \<Longrightarrow> digits_value ds acc = Some n \<Longrightarrow> 0 \<le> n"
proof (induction ds arbitrary: acc)
  case (Cons c cs)
  then have "48 \<le> (of_char c :: nat)" "digits_value cs (10 * acc + (int (of_char c) - 48)) = Some n"
    by (auto simp: is_ascii_digit_def split: if_splits)
  with Cons.IH [of "10 * acc + (int (of_char c) - 48)"] Cons.prems(1) show ?case by linarith
qed simp

lemma parse_u64_i128: "parse_u64 s = Some n \<Longrightarrow> parse_i128 s = Some n \<and> 0 \<le> n"
proof -
  assume h: "parse_u64 s = Some n"
  define ds where "ds = (case s of [] \<Rightarrow> [] | c # cs \<Rightarrow> if c = CHR ''+'' then cs else s)"
  have v: "ds \<noteq> []" "digits_value ds 0 = Some n" "n < 2 ^ 64"
    using h unfolding parse_u64_def Let_def ds_def [symmetric] by (auto split: if_splits option.splits)
  have n: "0 \<le> n" by (rule digits_value_mono [OF _ v(2)]) simp
  have "s = c # cs \<Longrightarrow> c \<noteq> CHR ''-''" for c cs
    using v(2) by (auto simp: ds_def is_ascii_digit_def split: if_splits)
  then have "(case s of [] \<Rightarrow> (1, []) | c # cs \<Rightarrow> if c = CHR ''-'' then (- 1, cs) else if c = CHR ''+'' then (1, cs) else (1, s)) = (1 :: int, ds)"
    by (auto simp: ds_def split: list.split)
  then show ?thesis using v n by (simp add: parse_i128_def i128_min_def i128_max_def)
qed

lemma concat_opts_Some: "(\<And>x. x \<in> set xs \<Longrightarrow> x \<noteq> None) \<Longrightarrow> concat_opts xs \<noteq> None"
  by (induction xs) (auto split: option.splits)

text \<open>No log of the transaction has logs of its own.\<close>

definition flat_logs :: "json \<Rightarrow> bool" where
  "flat_logs raw \<longleftrightarrow> opt_ok (list_all (\<lambda>log. get_array log ''logs'' = None)) (get_array raw ''logs'')"

lemma validated_evm:
  assumes "validate_evm_payload raw" "flat_logs raw"
  shows "extract_evm_token_transfers dv fid now raw_tx_id network raw \<noteq> None"
proof (cases "get_array raw ''logs''")
  case None
  then show ?thesis
    by (simp add: extract_evm_token_transfers_def extract_with_decimals.simps [of _ _ _ _ _ _ raw] Let_def)
next
  case (Some logs)
  have arr: "json_as_array (json_index raw ''logs'') = Some logs"
    using Some by (auto simp: get_array_def json_index_def bind_eq_Some_conv split: option.splits)
  have log: "writable log \<and> get_array log ''logs'' = None" if "log \<in> set logs" for log
  proof -
    have "check_evm_fields log" using assms(1) arr that by (auto simp: validate_evm_payload_def opt_ok_def list_all_iff)
    moreover have "get_array log ''logs'' = None" using assms(2) Some that by (auto simp: flat_logs_def opt_ok_def list_all_iff)
    ultimately show ?thesis by (auto simp: check_evm_fields_def is_object_def writable_def split: json.splits)
  qed
  have one: "extract_with_decimals dv fid now raw_tx_id network td log \<noteq> None" if "log \<in> set logs" for log td
    using log [OF that] by (simp add: extract_with_decimals.simps [of _ _ _ _ _ _ log] Let_def)
  have "concat_opts (map (\<lambda>(i, log). if \<not> writable log then None
      else map_option (map (\<lambda>t. t\<lparr>tt_transfer_index := log_index_of log i\<rparr>))
             (extract_with_decimals dv fid now raw_tx_id network td log)) (enumerate 0 logs)) \<noteq> None" for td
    by (rule concat_opts_Some) (use one log in \<open>auto simp: in_set_enumerate_eq\<close>)
  then show ?thesis
    unfolding extract_evm_token_transfers_def extract_with_decimals.simps [of _ _ _ _ _ _ raw] Let_def Some option.case by simp
qed

text \<open>
  C20. A payload that passes validation is extracted in full. A valid Hyperliquid fill gives exactly one fill and one
  position change and a valid funding payment exactly one payment, none of them dropped for a malformed amount; a
  valid Solana payload decodes, and none of its token amounts is read as a zero or a negative number by mistake;
  and the extraction of a valid EVM payload does not panic, as long as no log carries logs of its own.
\<close>

theorem validated_payloads_extract:
  assumes "validate_import_payload bd dec family raw"
  shows "(family = CF_Hyperliquid \<and> hl_type raw = ''fill'' \<longrightarrow>
        length (extract_hl_fill_records bd fid now raw_tx_id network raw) = 1
        \<and> length (extract_hl_position_changes bd fid now raw_tx_id network raw) = 1)
    \<and> (family = CF_Hyperliquid \<and> hl_type raw = ''funding'' \<longrightarrow>
        length (extract_hl_funding_payments bd fid now raw_tx_id network raw) = 1)
    \<and> (family = CF_Solana \<longrightarrow>
        (\<exists>t meta. dec raw = Some t \<and> st_meta t = Some meta
          \<and> (\<forall>b \<in> set (list_or_empty (sm_pre_token_balances meta) @ list_or_empty (sm_post_token_balances meta)).
               \<exists>n. parse_i128 (tb_amount b) = Some n \<and> 0 \<le> n)))
    \<and> (family = CF_Evm \<and> flat_logs raw \<longrightarrow> extract_evm_token_transfers dv efid now raw_tx_id network raw \<noteq> None)"
proof -
  have sol: "\<exists>t meta. dec raw = Some t \<and> st_meta t = Some meta
      \<and> (\<forall>b \<in> set (list_or_empty (sm_pre_token_balances meta) @ list_or_empty (sm_post_token_balances meta)).
           \<exists>n. parse_i128 (tb_amount b) = Some n \<and> 0 \<le> n)" if "validate_solana_payload dec raw"
  proof -
    obtain t meta where t: "dec raw = Some t" "st_meta t = Some meta"
      and ok: "opt_ok (list_all (\<lambda>b. parse_u64 (tb_amount b) \<noteq> None)) (sm_pre_token_balances meta)"
        "opt_ok (list_all (\<lambda>b. parse_u64 (tb_amount b) \<noteq> None)) (sm_post_token_balances meta)"
      using \<open>validate_solana_payload dec raw\<close> by (auto simp: validate_solana_payload_def split: option.splits)
    have "parse_u64 (tb_amount b) \<noteq> None"
      if "b \<in> set (list_or_empty (sm_pre_token_balances meta) @ list_or_empty (sm_post_token_balances meta))" for b
      using that ok by (auto simp: opt_ok_def list_or_empty_def list_all_iff split: option.splits)
    then show ?thesis using t parse_u64_i128 by blast
  qed
  show ?thesis
  proof (cases family)
    case CF_Solana
    with assms sol show ?thesis by (simp add: validate_import_payload_def)
  next
    case CF_Evm
    with assms validated_evm [of raw dv efid now raw_tx_id network] show ?thesis by (simp add: validate_import_payload_def)
  next
    case CF_Hyperliquid
    with assms have "validate_hl_payload bd raw" by (simp add: validate_import_payload_def)
    from validated_fill [OF this] validated_funding [OF this] show ?thesis using CF_Hyperliquid by simp
  qed
qed

text \<open>The exception is real: a log with logs of its own passes validation and stops the extraction.\<close>

definition nested_logs :: json where
  "nested_logs = JObject [(''logs'', JArray [JObject [(''logs'', JArray [JString ''x''])]])]"

lemma nested_logs_panic:
  "validate_import_payload (\<lambda>s. Some (0 :: int)) (\<lambda>_. None) CF_Evm nested_logs
   \<and> extract_evm_token_transfers (\<lambda>a b. a div b) (\<lambda>_. 0) 0 None ''ethereum-mainnet'' nested_logs = (None :: int token_transfer list option)"
  by code_simp

theorem validated_payloads_extract_witness:
  "length (extract_hl_fill_records sample_bd 0 0 None ''hypercore-mainnet'' sample_fill_json) = 1"
proof -
  have "validate_import_payload sample_bd (\<lambda>_. None) CF_Hyperliquid sample_fill_json" by code_simp
  from validated_payloads_extract [OF this] show ?thesis using sample_fill_type(1) by blast
qed

end
