(* ===== verification/Silver_Store.thy ===== *)
theory Silver_Store
  imports Dataset_Queries
begin

text \<open>
  The writes and keyed reads of the Silver tables, of the Hyperliquid and protocol Gold tables and of
  the EVM traces, \<open>adapters/src/v2_repo.rs\<close>. Every Silver insert ignores a row whose conflict key is
  already stored; the key of a row without a raw transaction is not indexed. The locale \<open>dedup_table\<close>
  states what such a table promises its clients and derives that replaying a batch with
  fresh ids changes nothing; every table of the program interprets it.

  \<open>sc\<close> is the scan order of the database, a permutation that decides between rows the query does not order.
\<close>

section \<open>Inserts that ignore conflicts\<close>

definition duplicate_key :: string where
  "duplicate_key = ''duplicate key value violates unique constraint''"

definition conflicts :: "('r \<Rightarrow> 'k option) \<Rightarrow> 'r \<Rightarrow> 'r list \<Rightarrow> bool" where
  "conflicts key r table \<longleftrightarrow> key r \<noteq> None \<and> key r \<in> key ` set table"

text \<open>One statement: \<open>INSERT .. ON CONFLICT (key) DO NOTHING\<close>; a repeated primary key is an error.\<close>

fun insert_ignoring :: "('r \<Rightarrow> uuid) \<Rightarrow> ('r \<Rightarrow> 'k option) \<Rightarrow> 'r list \<Rightarrow> 'r list \<Rightarrow> 'r list result" where
  "insert_ignoring rid key [] table = Inr table"
| "insert_ignoring rid key (r # rs) table =
     (if conflicts key r table then insert_ignoring rid key rs table
      else if rid r \<in> rid ` set table then Inl duplicate_key
      else insert_ignoring rid key rs (table @ [r]))"

text \<open>The statements of a save are separate: a failure keeps the chunks before it.\<close>

fun save_chunks :: "('r list \<Rightarrow> 'r list \<Rightarrow> 'r list result) \<Rightarrow> 'r list list \<Rightarrow> 'r list \<Rightarrow> 'r list \<times> string option" where
  "save_chunks ins [] table = (table, None)"
| "save_chunks ins (c # cs) table =
     (case ins c table of Inl e \<Rightarrow> (table, Some e) | Inr table' \<Rightarrow> save_chunks ins cs table')"

definition V2_BATCH_SIZE :: nat where
  "V2_BATCH_SIZE = 500"

definition save_ignoring :: "('r \<Rightarrow> uuid) \<Rightarrow> ('r \<Rightarrow> 'k option) \<Rightarrow> 'r list \<Rightarrow> 'r list \<Rightarrow> 'r list \<times> string option" where
  "save_ignoring rid key rs table = save_chunks (insert_ignoring rid key) (chunks V2_BATCH_SIZE rs) table"

section \<open>Silver tables\<close>

definition transfer_key :: "'d token_transfer \<Rightarrow> (uuid \<times> string \<times> string \<times> string \<times> int) option" where
  "transfer_key t = map_option (\<lambda>raw. (raw, tt_from_address t, tt_to_address t, tt_token_address t, tt_transfer_index t)) (tt_raw_transaction_id t)"

definition native_key :: "'d native_balance_delta \<Rightarrow> (uuid \<times> string \<times> string) option" where
  "native_key d = map_option (\<lambda>raw. (raw, nbd_account_address d, nbd_native_token d)) (nbd_raw_transaction_id d)"

definition event_conflict_key :: "decoded_event \<Rightarrow> (uuid \<times> string \<times> int) option" where
  "event_conflict_key e = map_option (\<lambda>raw. (raw, de_program_or_contract e, de_log_index e)) (de_raw_transaction_id e)"

definition fill_key :: "'d hl_fill_record \<Rightarrow> (uuid \<times> string \<times> int \<times> string) option" where
  "fill_key f = map_option (\<lambda>raw. (raw, fill_coin f, fill_fill_time f, fill_side f)) (fill_raw_transaction_id f)"

definition funding_key :: "'d hl_funding_payment \<Rightarrow> (uuid \<times> string \<times> int) option" where
  "funding_key p = map_option (\<lambda>raw. (raw, fund_coin p, fund_payment_time p)) (fund_raw_transaction_id p)"

definition position_key :: "'d hl_position_change \<Rightarrow> (uuid \<times> string \<times> string \<times> string) option" where
  "position_key c = map_option (\<lambda>raw. (raw, pos_coin c, pos_side c, pos_source_event c)) (pos_raw_transaction_id c)"

definition save_token_transfers :: "'d token_transfer list \<Rightarrow> 'd token_transfer list \<Rightarrow> 'd token_transfer list \<times> string option" where
  "save_token_transfers = save_ignoring tt_id transfer_key"

definition save_native_balance_deltas ::
    "'d native_balance_delta list \<Rightarrow> 'd native_balance_delta list \<Rightarrow> 'd native_balance_delta list \<times> string option" where
  "save_native_balance_deltas = save_ignoring nbd_id native_key"

definition save_decoded_events :: "decoded_event list \<Rightarrow> decoded_event list \<Rightarrow> decoded_event list \<times> string option" where
  "save_decoded_events = save_ignoring de_id event_conflict_key"

definition save_hl_fill_records :: "'d hl_fill_record list \<Rightarrow> 'd hl_fill_record list \<Rightarrow> 'd hl_fill_record list \<times> string option" where
  "save_hl_fill_records = save_ignoring fill_id fill_key"

definition save_hl_funding_payments ::
    "'d hl_funding_payment list \<Rightarrow> 'd hl_funding_payment list \<Rightarrow> 'd hl_funding_payment list \<times> string option" where
  "save_hl_funding_payments = save_ignoring fund_id funding_key"

definition save_hl_position_changes ::
    "'d hl_position_change list \<Rightarrow> 'd hl_position_change list \<Rightarrow> 'd hl_position_change list \<times> string option" where
  "save_hl_position_changes = save_ignoring pos_id position_key"

section \<open>Keyed reads\<close>

text \<open>\<open>ORDER BY col DESC LIMIT .. OFFSET ..\<close> and \<open>ORDER BY col\<close> over the rows that satisfy \<open>P\<close>.\<close>

definition page_desc :: "('r list \<Rightarrow> 'r list) \<Rightarrow> ('r \<Rightarrow> bool) \<Rightarrow> ('r \<Rightarrow> int) \<Rightarrow> int \<Rightarrow> int \<Rightarrow> 'r list \<Rightarrow> 'r list result" where
  "page_desc sc P col limit offset table = sql_page limit offset (sort_key (\<lambda>r. - col r) (sc (filter P table)))"

definition rows_asc :: "('r list \<Rightarrow> 'r list) \<Rightarrow> ('r \<Rightarrow> bool) \<Rightarrow> ('r \<Rightarrow> int) \<Rightarrow> 'r list \<Rightarrow> 'r list" where
  "rows_asc sc P col table = sort_key col (sc (filter P table))"

definition get_token_transfers_by_address where
  "get_token_transfers_by_address sc address limit offset table =
     page_desc sc (\<lambda>t. tt_from_address t = address \<or> tt_to_address t = address) tt_created_at limit offset table"

definition get_token_transfers_by_raw_tx where
  "get_token_transfers_by_raw_tx sc raw table = rows_asc sc (\<lambda>t. tt_raw_transaction_id t = Some raw) tt_created_at table"

definition get_native_balance_deltas_by_account where
  "get_native_balance_deltas_by_account sc account limit offset table =
     page_desc sc (\<lambda>d. nbd_account_address d = account) nbd_created_at limit offset table"

definition get_native_balance_deltas_by_raw_tx where
  "get_native_balance_deltas_by_raw_tx sc raw table = rows_asc sc (\<lambda>d. nbd_raw_transaction_id d = Some raw) nbd_created_at table"

definition get_decoded_events_by_contract where
  "get_decoded_events_by_contract sc program limit offset table =
     page_desc sc (\<lambda>e. de_program_or_contract e = program) de_created_at limit offset table"

definition get_decoded_events_by_raw_tx where
  "get_decoded_events_by_raw_tx sc raw table = rows_asc sc (\<lambda>e. de_raw_transaction_id e = Some raw) de_log_index table"

definition get_hl_fill_records_by_coin where
  "get_hl_fill_records_by_coin sc coin limit offset table = page_desc sc (\<lambda>f. fill_coin f = coin) fill_fill_time limit offset table"

definition get_hl_fill_records_by_raw_tx where
  "get_hl_fill_records_by_raw_tx sc raw table = rows_asc sc (\<lambda>f. fill_raw_transaction_id f = Some raw) fill_fill_time table"

definition get_hl_funding_payments_by_coin where
  "get_hl_funding_payments_by_coin sc coin limit offset table =
     page_desc sc (\<lambda>p. fund_coin p = coin) fund_payment_time limit offset table"

definition get_hl_funding_payments_by_raw_tx where
  "get_hl_funding_payments_by_raw_tx sc raw table = rows_asc sc (\<lambda>p. fund_raw_transaction_id p = Some raw) fund_payment_time table"

definition get_hl_position_changes_by_coin where
  "get_hl_position_changes_by_coin sc coin limit offset table = page_desc sc (\<lambda>c. pos_coin c = coin) pos_created_at limit offset table"

definition get_hl_position_changes_by_raw_tx where
  "get_hl_position_changes_by_raw_tx sc raw table = rows_asc sc (\<lambda>c. pos_raw_transaction_id c = Some raw) pos_created_at table"

text \<open>\<open>WHERE raw_transaction_id = ANY($1)\<close>, without an order.\<close>

definition canonical_decoded_events :: "(decoded_event list \<Rightarrow> decoded_event list) \<Rightarrow> uuid list \<Rightarrow> decoded_event list \<Rightarrow> decoded_event list" where
  "canonical_decoded_events sc raw_ids table =
     sc (filter (\<lambda>e. case de_raw_transaction_id e of Some i \<Rightarrow> i \<in> set raw_ids | None \<Rightarrow> False) table)"

text \<open>
  \<open>hl_wallet_inputs\<close>: the records of the raw transactions matched by a target of the wallet on the network,
  in the order of their time and id, refused beyond a hundred thousand.
\<close>

definition wallet_indexed :: "string \<Rightarrow> string \<Rightarrow> 'd dataset_db \<Rightarrow> uuid option \<Rightarrow> bool" where
  "wallet_indexed wallet network db raw \<longleftrightarrow>
     list_ex (\<lambda>m. raw = Some (tm_raw_transaction_id m) \<and>
        list_ex (\<lambda>t. it_id t = tm_target_id m \<and> it_network t = network
            \<and> (case it_address t of Some a \<Rightarrow> to_lowercase a = to_lowercase wallet | None \<Rightarrow> False)) (db_targets db))
       (db_matches db)"

definition HL_INPUT_LIMIT :: nat where
  "HL_INPUT_LIMIT = 100000"

definition hl_wallet_inputs ::
    "string \<Rightarrow> string \<Rightarrow> 'd dataset_db \<Rightarrow> ('d hl_fill_record list \<times> 'd hl_funding_payment list) result" where
  "hl_wallet_inputs wallet network db =
     (let fills = take (Suc HL_INPUT_LIMIT) (sort_key (\<lambda>f. (fill_fill_time f, fill_id f))
            (filter (\<lambda>f. fill_network f = network \<and> wallet_indexed wallet network db (fill_raw_transaction_id f)) (db_fills db)));
          funding = take (Suc HL_INPUT_LIMIT) (sort_key (\<lambda>p. (fund_payment_time p, fund_id p))
            (filter (\<lambda>p. fund_network p = network \<and> wallet_indexed wallet network db (fund_raw_transaction_id p)) (db_funding db)))
      in if length fills \<le> HL_INPUT_LIMIT \<and> length funding \<le> HL_INPUT_LIMIT then Inr (fills, funding)
         else Inl ''HL analytics exceeds 100000 indexed events; refusing truncated calculation'')"

section \<open>Gold tables\<close>

text \<open>\<open>HL_PNL_SUMMARY_CONFLICT_SQL\<close>: the row of the id is overwritten but for its scope and period.\<close>

definition upsert_pnl_row :: "'d hl_pnl_summary \<Rightarrow> 'd hl_pnl_summary list \<Rightarrow> 'd hl_pnl_summary list" where
  "upsert_pnl_row r table =
     (if \<exists>q \<in> set table. pnl_id q = pnl_id r
      then map (\<lambda>q. if pnl_id q = pnl_id r
             then q\<lparr>pnl_total_closed_pnl := pnl_total_closed_pnl r, pnl_total_funding := pnl_total_funding r,
                    pnl_total_fees := pnl_total_fees r, pnl_net_pnl := pnl_net_pnl r, pnl_trade_count := pnl_trade_count r,
                    pnl_fill_count := pnl_fill_count r, pnl_avg_trade_size := pnl_avg_trade_size r,
                    pnl_win_count := pnl_win_count r, pnl_loss_count := pnl_loss_count r,
                    pnl_dataset_version_id := pnl_dataset_version_id r\<rparr>
             else q) table
      else table @ [r])"

definition upsert_trade_row :: "'d hl_trade_history \<Rightarrow> 'd hl_trade_history list \<Rightarrow> 'd hl_trade_history list" where
  "upsert_trade_row r table =
     (if \<exists>q \<in> set table. trade_id q = trade_id r
      then map (\<lambda>q. if trade_id q = trade_id r
             then q\<lparr>trade_side := trade_side r, trade_entry_price := trade_entry_price r, trade_exit_price := trade_exit_price r,
                    trade_size := trade_size r, trade_opened_at := trade_opened_at r, trade_closed_at := trade_closed_at r,
                    trade_realized_pnl := trade_realized_pnl r, trade_fees := trade_fees r, trade_num_fills := trade_num_fills r,
                    trade_dataset_version_id := trade_dataset_version_id r\<rparr>
             else q) table
      else table @ [r])"

text \<open>
  A statement may not update a row twice: an id repeated within a chunk is an error, and the transaction
  with the deletion is rolled back.
\<close>

definition repeated_row :: string where
  "repeated_row = ''ON CONFLICT DO UPDATE command cannot affect row a second time''"

definition replace_rows ::
    "('r \<Rightarrow> uuid) \<Rightarrow> ('r \<Rightarrow> 'r list \<Rightarrow> 'r list) \<Rightarrow> ('r \<Rightarrow> bool) \<Rightarrow> 'r list \<Rightarrow> 'r list \<Rightarrow> 'r list result" where
  "replace_rows rid up replaced rs table =
     (if list_all (\<lambda>c. distinct (map rid c)) (chunks 500 rs)
      then Inr (fold up rs (filter (\<lambda>q. \<not> replaced q) table)) else Inl repeated_row)"

definition write_hl_pnl_summary :: "'d hl_pnl_summary list \<Rightarrow> (string \<times> string) option \<Rightarrow> 'd hl_pnl_summary list \<Rightarrow> 'd hl_pnl_summary list result" where
  "write_hl_pnl_summary rs scope table =
     replace_rows pnl_id upsert_pnl_row (\<lambda>q. scope = Some (pnl_wallet_address q, pnl_network q)) rs table"

definition save_hl_pnl_summary :: "'d hl_pnl_summary list \<Rightarrow> 'd hl_pnl_summary list \<Rightarrow> 'd hl_pnl_summary list result" where
  "save_hl_pnl_summary rs = write_hl_pnl_summary rs None"

definition replace_hl_pnl_summary ::
    "string \<Rightarrow> string \<Rightarrow> 'd hl_pnl_summary list \<Rightarrow> 'd hl_pnl_summary list \<Rightarrow> 'd hl_pnl_summary list result" where
  "replace_hl_pnl_summary wallet network rs = write_hl_pnl_summary rs (Some (wallet, network))"

definition write_hl_trade_history :: "'d hl_trade_history list \<Rightarrow> (string \<times> string) option \<Rightarrow> 'd hl_trade_history list \<Rightarrow> 'd hl_trade_history list result" where
  "write_hl_trade_history rs scope table =
     replace_rows trade_id upsert_trade_row (\<lambda>q. scope = Some (trade_wallet_address q, trade_network q)) rs table"

definition save_hl_trade_history :: "'d hl_trade_history list \<Rightarrow> 'd hl_trade_history list \<Rightarrow> 'd hl_trade_history list result" where
  "save_hl_trade_history rs = write_hl_trade_history rs None"

definition replace_hl_trade_history ::
    "string \<Rightarrow> string \<Rightarrow> 'd hl_trade_history list \<Rightarrow> 'd hl_trade_history list \<Rightarrow> 'd hl_trade_history list result" where
  "replace_hl_trade_history wallet network rs = write_hl_trade_history rs (Some (wallet, network))"

text \<open>The conflict target of the protocol tables is the primary key itself.\<close>

definition save_protocol_events :: "protocol_event list \<Rightarrow> protocol_event list \<Rightarrow> protocol_event list \<times> string option" where
  "save_protocol_events = save_ignoring pe_id (\<lambda>e. Some (pe_id e))"

definition save_pool_snapshots :: "'d pool_snapshot list \<Rightarrow> 'd pool_snapshot list \<Rightarrow> 'd pool_snapshot list \<times> string option" where
  "save_pool_snapshots = save_ignoring ps_id (\<lambda>s. Some (ps_id s))"

section \<open>EVM traces\<close>

datatype evm_trace_type = TT_CallTracer | TT_PrestateTracer | TT_FlatCallTracer | TT_Other

fun evm_trace_type_to_str :: "evm_trace_type \<Rightarrow> string" where
  "evm_trace_type_to_str TT_CallTracer = ''callTracer''"
| "evm_trace_type_to_str TT_PrestateTracer = ''prestateTracer''"
| "evm_trace_type_to_str TT_FlatCallTracer = ''flatCallTracer''"
| "evm_trace_type_to_str TT_Other = ''other''"

record raw_evm_trace =
  et_id :: uuid
  et_transaction_hash :: string
  et_block_number :: "int option"
  et_network :: string
  et_trace_type :: evm_trace_type
  et_raw_trace :: json
  et_ingestion_run_id :: "uuid option"
  et_created_at :: timestamp

definition trace_key :: "raw_evm_trace \<Rightarrow> (string \<times> string \<times> string) option" where
  "trace_key t = Some (et_network t, et_transaction_hash t, evm_trace_type_to_str (et_trace_type t))"

definition save_raw_evm_traces :: "raw_evm_trace list \<Rightarrow> raw_evm_trace list \<Rightarrow> raw_evm_trace list \<times> string option" where
  "save_raw_evm_traces = save_ignoring et_id trace_key"

definition get_raw_evm_trace :: "string \<Rightarrow> string \<Rightarrow> evm_trace_type \<Rightarrow> raw_evm_trace list \<Rightarrow> raw_evm_trace option" where
  "get_raw_evm_trace network hash ty table =
     List.find (\<lambda>t. et_network t = network \<and> et_transaction_hash t = hash
        \<and> evm_trace_type_to_str (et_trace_type t) = evm_trace_type_to_str ty) table"

definition get_raw_evm_traces_by_block_range ::
    "(raw_evm_trace list \<Rightarrow> raw_evm_trace list) \<Rightarrow> string \<Rightarrow> int \<Rightarrow> int \<Rightarrow> raw_evm_trace list \<Rightarrow> raw_evm_trace list" where
  "get_raw_evm_traces_by_block_range sc network lo hi table =
     rows_asc sc (\<lambda>t. et_network t = network \<and> (case et_block_number t of Some b \<Rightarrow> lo \<le> b \<and> b \<le> hi | None \<Rightarrow> False))
       (\<lambda>t. case et_block_number t of Some b \<Rightarrow> b | None \<Rightarrow> 0) table"

section \<open>What a deduplicated table promises\<close>

definition unique_keys :: "('r \<Rightarrow> 'k option) \<Rightarrow> 'r list \<Rightarrow> bool" where
  "unique_keys key table \<longleftrightarrow> distinct (List.map_filter key table)"

locale dedup_table =
  fixes save :: "'r list \<Rightarrow> 'r list \<Rightarrow> 'r list \<times> string option"
    and key :: "'r \<Rightarrow> 'k option"
  assumes save_extends: "\<exists>new. fst (save rs table) = table @ new \<and> set new \<subseteq> set rs"
    and save_covers: "snd (save rs table) = None \<Longrightarrow> r \<in> set rs \<Longrightarrow> key r \<in> key ` set (fst (save rs table))"
    and save_unique: "unique_keys key table \<Longrightarrow> unique_keys key (fst (save rs table))"
    and save_known: "(\<And>r. r \<in> set rs \<Longrightarrow> key r \<noteq> None \<and> key r \<in> key ` set table) \<Longrightarrow> save rs table = (table, None)"
begin

lemma save_keeps: "set table \<subseteq> set (fst (save rs table))"
  using save_extends [of rs table] by auto

text \<open>A replay of the batch, with other ids and times but the same keys, changes nothing.\<close>

lemma save_replay:
  assumes "snd (save rs table) = None" "key ` set rs' \<subseteq> key ` set rs" "None \<notin> key ` set rs"
  shows "save rs' (fst (save rs table)) = (fst (save rs table), None)"
proof (rule save_known)
  fix r assume "r \<in> set rs'"
  then obtain q where q: "q \<in> set rs" "key r = key q" using assms(2) by blast
  moreover from this have "key q \<noteq> None" using assms(3) by (metis image_eqI)
  ultimately show "key r \<noteq> None \<and> key r \<in> key ` set (fst (save rs table))"
    using save_covers [OF assms(1) q(1)] by simp
qed

end

lemma map_filter_append: "List.map_filter f (xs @ ys) = List.map_filter f xs @ List.map_filter f ys"
  by (simp add: List.map_filter_def)

lemma mem_map_filter: "k \<in> set (List.map_filter f xs) \<longleftrightarrow> Some k \<in> f ` set xs"
  by (induction xs) (auto simp: map_filter_simps split: option.splits)

lemma unique_keys_snoc: "unique_keys key table \<Longrightarrow> \<not> conflicts key r table \<Longrightarrow> unique_keys key (table @ [r])"
  by (cases "key r") (auto simp: unique_keys_def conflicts_def map_filter_append map_filter_simps mem_map_filter)

lemma insert_ignoring_spec:
  assumes "insert_ignoring rid key rs table = Inr table'"
  shows "\<exists>new. table' = table @ new \<and> set new \<subseteq> set rs"
    and "r \<in> set rs \<Longrightarrow> key r \<in> key ` set table'"
    and "unique_keys key table \<Longrightarrow> unique_keys key table'"
proof -
  have "(\<exists>new. table' = table @ new \<and> set new \<subseteq> set rs) \<and> (\<forall>r \<in> set rs. key r \<in> key ` set table')
      \<and> (unique_keys key table \<longrightarrow> unique_keys key table')"
    using assms
  proof (induction rs arbitrary: table)
    case (Cons r rs)
    show ?case
    proof (cases "conflicts key r table")
      case True
      with Cons.prems have "insert_ignoring rid key rs table = Inr table'" by simp
      from Cons.IH [OF this] obtain new where new: "table' = table @ new" "set new \<subseteq> set rs"
          "\<forall>r \<in> set rs. key r \<in> key ` set table'" "unique_keys key table \<longrightarrow> unique_keys key table'" by blast
      moreover have "key r \<in> key ` set table'" using True new(1) by (auto simp: conflicts_def)
      ultimately show ?thesis by auto
    next
      case False
      with Cons.prems have "insert_ignoring rid key rs (table @ [r]) = Inr table'" by (simp split: if_splits)
      from Cons.IH [OF this] obtain new where new: "table' = (table @ [r]) @ new" "set new \<subseteq> set rs"
          "\<forall>r \<in> set rs. key r \<in> key ` set table'" "unique_keys key (table @ [r]) \<longrightarrow> unique_keys key table'" by blast
      moreover have "key r \<in> key ` set table'" using new(1) by simp
      moreover have "table' = table @ (r # new)" using new(1) by simp
      ultimately show ?thesis using unique_keys_snoc [OF _ False]
        by (intro conjI exI [of _ "r # new"]) auto
    qed
  qed simp
  then show "\<exists>new. table' = table @ new \<and> set new \<subseteq> set rs" "r \<in> set rs \<Longrightarrow> key r \<in> key ` set table'"
    "unique_keys key table \<Longrightarrow> unique_keys key table'" by blast+
qed

lemma insert_ignoring_known:
  "(\<And>r. r \<in> set rs \<Longrightarrow> conflicts key r table) \<Longrightarrow> insert_ignoring rid key rs table = Inr table"
  by (induction rs) simp_all

lemma save_chunks_spec:
  "(\<exists>new. fst (save_chunks (insert_ignoring rid key) cs table) = table @ new \<and> set new \<subseteq> set (concat cs))
   \<and> (snd (save_chunks (insert_ignoring rid key) cs table) = None \<longrightarrow>
        (\<forall>r \<in> set (concat cs). key r \<in> key ` set (fst (save_chunks (insert_ignoring rid key) cs table))))
   \<and> (unique_keys key table \<longrightarrow> unique_keys key (fst (save_chunks (insert_ignoring rid key) cs table)))"
proof (induction cs arbitrary: table)
  case (Cons c cs)
  show ?case
  proof (cases "insert_ignoring rid key c table")
    case (Inr t)
    note s = insert_ignoring_spec [OF Inr]
    obtain new where t: "t = table @ new" "set new \<subseteq> set c" using s(1) by blast
    obtain more where more: "fst (save_chunks (insert_ignoring rid key) cs t) = t @ more" "set more \<subseteq> set (concat cs)"
      using Cons.IH [of t] by blast
    have "key r \<in> key ` set (t @ more)" if "r \<in> set c" for r using s(2) [OF that] by auto
    with Cons.IH [of t] s(3) t more show ?thesis
      by (simp add: Inr) (intro conjI exI [of _ "new @ more"], auto)
  qed simp
qed simp

text \<open>\<open>save_ignoring\<close> is such a table, whatever its columns.\<close>

lemma save_ignoring_dedup:
  fixes rid :: "'r \<Rightarrow> uuid" and key :: "'r \<Rightarrow> 'k option"
  shows "dedup_table (save_ignoring rid key) key"
proof
  fix rs table :: "'r list"
  have cat: "concat (chunks V2_BATCH_SIZE rs) = rs" by (rule concat_chunks) (simp add: V2_BATCH_SIZE_def)
  note spec = save_chunks_spec [of rid key "chunks V2_BATCH_SIZE rs" table, unfolded cat, folded save_ignoring_def]
  show "\<exists>new. fst (save_ignoring rid key rs table) = table @ new \<and> set new \<subseteq> set rs" using spec by blast
  show "key r \<in> key ` set (fst (save_ignoring rid key rs table))"
    if "snd (save_ignoring rid key rs table) = None" "r \<in> set rs" for r using spec that by blast
  show "unique_keys key (fst (save_ignoring rid key rs table))" if "unique_keys key table" using spec that by blast
  show "save_ignoring rid key rs table = (table, None)" if h: "\<And>r. r \<in> set rs \<Longrightarrow> key r \<noteq> None \<and> key r \<in> key ` set table"
  proof -
    have known: "save_chunks (insert_ignoring rid key) cs table = (table, None)" if "set (concat cs) \<subseteq> set rs" for cs
      using that
    proof (induction cs)
      case (Cons c cs)
      have "insert_ignoring rid key c table = Inr table"
        by (rule insert_ignoring_known) (use Cons.prems h in \<open>auto simp: conflicts_def\<close>)
      then show ?case using Cons by simp
    qed simp
    show ?thesis unfolding save_ignoring_def by (rule known) (simp only: cat order_refl)
  qed
qed

interpretation transfers: dedup_table save_token_transfers transfer_key
  unfolding save_token_transfers_def by (rule save_ignoring_dedup)

interpretation natives: dedup_table save_native_balance_deltas native_key
  unfolding save_native_balance_deltas_def by (rule save_ignoring_dedup)

interpretation events: dedup_table save_decoded_events event_conflict_key
  unfolding save_decoded_events_def by (rule save_ignoring_dedup)

interpretation fills: dedup_table save_hl_fill_records fill_key
  unfolding save_hl_fill_records_def by (rule save_ignoring_dedup)

interpretation fundings: dedup_table save_hl_funding_payments funding_key
  unfolding save_hl_funding_payments_def by (rule save_ignoring_dedup)

interpretation positions: dedup_table save_hl_position_changes position_key
  unfolding save_hl_position_changes_def by (rule save_ignoring_dedup)

interpretation protocol_rows: dedup_table save_protocol_events "\<lambda>e. Some (pe_id e)"
  unfolding save_protocol_events_def by (rule save_ignoring_dedup)

interpretation pool_rows: dedup_table save_pool_snapshots "\<lambda>s. Some (ps_id s)"
  unfolding save_pool_snapshots_def by (rule save_ignoring_dedup)

interpretation traces: dedup_table save_raw_evm_traces trace_key
  unfolding save_raw_evm_traces_def by (rule save_ignoring_dedup)

end
