(* ===== verification/Materialize.thy ===== *)
theory Materialize
  imports Payloads Silver_Store Gold_Ledger Completeness Protocol_Analytics Hl_Analytics "HOL-Library.Sublist"
begin

text \<open>
  Materialization as a whole, \<open>adapters/src/dual_write.rs\<close>: \<open>materialize_silver_from_bronze\<close> validates a
  batch of raw transactions, extracts the Silver records with the parser of each network, writes the six Silver
  tables, and calls \<open>materialize_gold_from_silver\<close>, which derives the wallet ledger, the balance history, the
  Hyperliquid analytics and the protocol tables; both end with the completeness rows.

  The environment holds what the code takes from outside: version-5 ids and their text, decimal arithmetic, the
  Solana deserializer, the clock, the random ids, the iteration order of hash maps, and which statements fail.
  Extractors are called with a fixed id and time; the random id and the creation time of every record are drawn
  afterwards, by its position in the batch, so that two records never share one by the form of the model.
\<close>

section \<open>Environment and state\<close>

record 'd mat_env =
  me_vh :: "uuid \<Rightarrow> string \<Rightarrow> uuid"
  me_us :: "uuid \<Rightarrow> string"
  me_quo :: "'d \<Rightarrow> 'd \<Rightarrow> 'd"
  me_bd :: "string \<Rightarrow> 'd option"
  me_scale :: "int \<Rightarrow> nat \<Rightarrow> 'd"
  me_print :: "'d \<Rightarrow> string"
  me_dec :: "json \<Rightarrow> sol_tx option"
  me_secs :: "timestamp \<Rightarrow> int"
  me_now :: timestamp
  me_id :: "string \<Rightarrow> nat \<Rightarrow> uuid"
  me_version_id :: "string \<Rightarrow> uuid"
  me_cut :: "string \<Rightarrow> nat option"
  me_down :: "string \<Rightarrow> string \<Rightarrow> bool"
  me_bh_read :: "bh_key \<Rightarrow> bool"
  me_groups :: "(bh_key \<times> 'd balance_event list) list \<Rightarrow> (bh_key \<times> 'd balance_event list) list"
  me_aggs :: "(string \<times> 'd coin_agg) list \<Rightarrow> (string \<times> 'd coin_agg) list"
  me_coins :: "(string \<times> 'd hl_fill_record list) list \<Rightarrow> (string \<times> 'd hl_fill_record list) list"
  me_strings :: "string list \<Rightarrow> string list"
  me_scan :: "decoded_event list \<Rightarrow> decoded_event list"

text \<open>
  \<open>me_cut name = Some k\<close>: the connection is lost after \<open>k\<close> chunks of the writes to the table \<open>name\<close>, or
  before the commit where the write is one transaction. \<open>me_down op key\<close>: a query fails.
  The balance history is kept with the delta of each row; the view without deltas is what queries read.
\<close>

record 'd mat_db =
  md_db :: "'d dataset_db"
  md_bh :: "'d bh_row list"
  md_versions :: "dataset_version list"
  md_completeness :: "dataset_completeness list"

definition lost_connection :: string where
  "lost_connection = ''connection closed''"

definition cut_save ::
    "nat option \<Rightarrow> ('r list \<Rightarrow> 'r list \<Rightarrow> 'r list \<times> string option) \<Rightarrow> 'r list \<Rightarrow> 'r list \<Rightarrow> 'r list \<times> string option" where
  "cut_save lost save rs table =
     (case lost of None \<Rightarrow> save rs table | Some k \<Rightarrow> (fst (save (take (k * V2_BATCH_SIZE) rs) table), Some lost_connection))"

section \<open>Extraction\<close>

record 'd silver_batch =
  sb_transfers :: "'d token_transfer list"
  sb_native :: "'d native_balance_delta list"
  sb_events :: "decoded_event list"
  sb_fills :: "'d hl_fill_record list"
  sb_funding :: "'d hl_funding_payment list"
  sb_positions :: "'d hl_position_change list"

definition stamp_dataset_version_id :: "(uuid option \<Rightarrow> 'r \<Rightarrow> 'r) \<Rightarrow> (string \<rightharpoonup> uuid) \<Rightarrow> string \<Rightarrow> 'r list \<Rightarrow> 'r list" where
  "stamp_dataset_version_id put versions name rs =
     (case versions name of Some v \<Rightarrow> map (put (Some v)) rs | None \<Rightarrow> rs)"

definition draw_ids :: "(uuid \<Rightarrow> timestamp \<Rightarrow> 'r \<Rightarrow> 'r) \<Rightarrow> (nat \<Rightarrow> uuid) \<Rightarrow> timestamp \<Rightarrow> 'r list \<Rightarrow> 'r list" where
  "draw_ids put fid now rs = map (\<lambda>(i, r). put (fid i) now r) (enumerate 0 rs)"

abbreviation is_hyperliquid :: "string \<Rightarrow> bool" where
  "is_hyperliquid network \<equiv> starts_with network ''hypercore'' \<or> starts_with network ''hyperliquid''"

text \<open>The records of one raw transaction; \<open>None\<close> when the EVM extraction panics.\<close>

definition silver_of_raw :: "('d :: linordered_idom) mat_env \<Rightarrow> string \<Rightarrow> raw_transaction \<Rightarrow> 'd silver_batch option" where
  "silver_of_raw env wallet raw =
     (let network = raw_network raw; i = Some (raw_id raw); m = raw_metadata raw
      in if starts_with network ''solana''
         then Some \<lparr>sb_transfers = extract_solana_token_transfers (me_dec env) (me_scale env) (\<lambda>_. 0) 0 i network m,
                    sb_native = extract_solana_native_balance_deltas (me_dec env) (me_scale env) (\<lambda>_. 0) 0 i network m,
                    sb_events = extract_solana_decoded_events (me_dec env) (\<lambda>_. 0) 0 i network m,
                    sb_fills = [], sb_funding = [], sb_positions = []\<rparr>
         else if is_hyperliquid network
         then Some \<lparr>sb_transfers = extract_hyperliquid_token_transfers (me_bd env) 0 0 i network wallet m,
                    sb_native = extract_hyperliquid_native_balance_deltas (me_bd env) 0 0 i network wallet m,
                    sb_events = [],
                    sb_fills = extract_hl_fill_records (me_bd env) 0 0 i network m,
                    sb_funding = extract_hl_funding_payments (me_bd env) 0 0 i network m,
                    sb_positions = extract_hl_position_changes (me_bd env) 0 0 i network m\<rparr>
         else map_option (\<lambda>ts. \<lparr>sb_transfers = ts, sb_native = [],
                    sb_events = extract_evm_decoded_events (me_print env) (\<lambda>_. 0) 0 i network m,
                    sb_fills = [], sb_funding = [], sb_positions = []\<rparr>)
                (extract_evm_token_transfers (me_quo env) (\<lambda>_. 0) 0 i network m))"

definition empty_batch :: "'d silver_batch" where
  "empty_batch = \<lparr>sb_transfers = [], sb_native = [], sb_events = [], sb_fills = [], sb_funding = [], sb_positions = []\<rparr>"

definition append_batch :: "'d silver_batch \<Rightarrow> 'd silver_batch \<Rightarrow> 'd silver_batch" where
  "append_batch a b = \<lparr>sb_transfers = sb_transfers a @ sb_transfers b, sb_native = sb_native a @ sb_native b,
     sb_events = sb_events a @ sb_events b, sb_fills = sb_fills a @ sb_fills b,
     sb_funding = sb_funding a @ sb_funding b, sb_positions = sb_positions a @ sb_positions b\<rparr>"

fun silver_of_raws :: "('d :: linordered_idom) mat_env \<Rightarrow> string \<Rightarrow> raw_transaction list \<Rightarrow> 'd silver_batch option" where
  "silver_of_raws env wallet [] = Some empty_batch"
| "silver_of_raws env wallet (raw # raws) =
     (case silver_of_raw env wallet raw of
        None \<Rightarrow> None
      | Some b \<Rightarrow> map_option (append_batch b) (silver_of_raws env wallet raws))"

text \<open>The random ids, the creation times and the dataset versions of a batch.\<close>

definition stamp_batch :: "'d mat_env \<Rightarrow> (string \<rightharpoonup> uuid) \<Rightarrow> 'd silver_batch \<Rightarrow> 'd silver_batch" where
  "stamp_batch env versions b =
     \<lparr>sb_transfers = stamp_dataset_version_id (\<lambda>v t. t\<lparr>tt_dataset_version_id := v\<rparr>) versions ''token_transfers''
        (draw_ids (\<lambda>i now t. t\<lparr>tt_id := i, tt_created_at := now\<rparr>) (me_id env ''token_transfers'') (me_now env) (sb_transfers b)),
      sb_native = stamp_dataset_version_id (\<lambda>v t. t\<lparr>nbd_dataset_version_id := v\<rparr>) versions ''native_balance_deltas''
        (draw_ids (\<lambda>i now t. t\<lparr>nbd_id := i, nbd_created_at := now\<rparr>) (me_id env ''native_balance_deltas'') (me_now env) (sb_native b)),
      sb_events = stamp_dataset_version_id (\<lambda>v t. t\<lparr>de_dataset_version_id := v\<rparr>) versions ''decoded_events''
        (draw_ids (\<lambda>i now t. t\<lparr>de_id := i, de_created_at := now\<rparr>) (me_id env ''decoded_events'') (me_now env) (sb_events b)),
      sb_fills = stamp_dataset_version_id (\<lambda>v t. t\<lparr>fill_dataset_version_id := v\<rparr>) versions (as_sql_str DS_HlFills)
        (draw_ids (\<lambda>i now t. t\<lparr>fill_id := i, fill_created_at := now\<rparr>) (me_id env (as_sql_str DS_HlFills)) (me_now env) (sb_fills b)),
      sb_funding = stamp_dataset_version_id (\<lambda>v t. t\<lparr>fund_dataset_version_id := v\<rparr>) versions (as_sql_str DS_HlFunding)
        (draw_ids (\<lambda>i now t. t\<lparr>fund_id := i, fund_created_at := now\<rparr>) (me_id env (as_sql_str DS_HlFunding)) (me_now env) (sb_funding b)),
      sb_positions = stamp_dataset_version_id (\<lambda>v t. t\<lparr>pos_dataset_version_id := v\<rparr>) versions (as_sql_str DS_Positions)
        (draw_ids (\<lambda>i now t. t\<lparr>pos_id := i, pos_created_at := now\<rparr>) (me_id env (as_sql_str DS_Positions)) (me_now env) (sb_positions b))\<rparr>"

section \<open>Writing the Silver tables\<close>

record bronze_silver_result =
  bsr_total_written :: nat
  bsr_total_failed :: nat
  bsr_per_dataset :: "string \<rightharpoonup> nat"
  bsr_last_raw_transaction_id :: "uuid option"
  bsr_last_timestamp :: "int option"
  bsr_coverage_start :: "int option"
  bsr_coverage_end :: "int option"
  bsr_gold_wallet_ledger_written :: nat
  bsr_gold_balance_history_written :: nat
  bsr_gold_hl_pnl_summary_written :: nat
  bsr_gold_hl_trade_history_written :: nat
  bsr_gold_protocol_events_written :: nat
  bsr_gold_pool_snapshots_written :: nat

definition default_bsr :: bronze_silver_result where
  "default_bsr = \<lparr>bsr_total_written = 0, bsr_total_failed = 0, bsr_per_dataset = Map.empty, bsr_last_raw_transaction_id = None,
     bsr_last_timestamp = None, bsr_coverage_start = None, bsr_coverage_end = None, bsr_gold_wallet_ledger_written = 0,
     bsr_gold_balance_history_written = 0, bsr_gold_hl_pnl_summary_written = 0, bsr_gold_hl_trade_history_written = 0,
     bsr_gold_protocol_events_written = 0, bsr_gold_pool_snapshots_written = 0\<rparr>"

definition all_succeeded :: "bronze_silver_result \<Rightarrow> bool" where
  "all_succeeded r \<longleftrightarrow> bsr_total_failed r = 0"

text \<open>One table: nothing for no records, else the write with its count under the name of the dataset.\<close>

definition write_dataset ::
    "string \<Rightarrow> nat option \<Rightarrow> ('r list \<Rightarrow> 'r list \<Rightarrow> 'r list \<times> string option) \<Rightarrow> 'r list \<Rightarrow>
     'r list \<times> bronze_silver_result \<Rightarrow> 'r list \<times> bronze_silver_result" where
  "write_dataset name lost save rs = (\<lambda>(table, res).
     if rs = [] then (table, res)
     else let n = length rs; (table', err) = cut_save lost save rs table
          in case err of
               None \<Rightarrow> (table', res\<lparr>bsr_total_written := bsr_total_written res + n,
                                    bsr_per_dataset := (bsr_per_dataset res)(name \<mapsto> n)\<rparr>)
             | Some _ \<Rightarrow> (table', res\<lparr>bsr_total_failed := bsr_total_failed res + n\<rparr>))"

definition write_silver ::
    "'d mat_env \<Rightarrow> 'd silver_batch \<Rightarrow> 'd dataset_db \<Rightarrow> bronze_silver_result \<Rightarrow> 'd dataset_db \<times> bronze_silver_result" where
  "write_silver env b db res0 =
     (let (transfers, res1) = write_dataset ''token_transfers'' (me_cut env ''token_transfers'') save_token_transfers
            (sb_transfers b) (db_transfers db, res0);
          (native, res2) = write_dataset ''native_balance_deltas'' (me_cut env ''native_balance_deltas'') save_native_balance_deltas
            (sb_native b) (db_native db, res1);
          (events, res3) = write_dataset ''decoded_events'' (me_cut env ''decoded_events'') save_decoded_events
            (sb_events b) (db_events db, res2);
          (fills, res4) = write_dataset (as_sql_str DS_HlFills) (me_cut env (as_sql_str DS_HlFills)) save_hl_fill_records
            (sb_fills b) (db_fills db, res3);
          (funding, res5) = write_dataset (as_sql_str DS_HlFunding) (me_cut env (as_sql_str DS_HlFunding)) save_hl_funding_payments
            (sb_funding b) (db_funding db, res4);
          (positions, res6) = write_dataset (as_sql_str DS_Positions) (me_cut env (as_sql_str DS_Positions)) save_hl_position_changes
            (sb_positions b) (db_positions db, res5)
      in (db\<lparr>db_transfers := transfers, db_native := native, db_events := events, db_fills := fills,
             db_funding := funding, db_positions := positions\<rparr>, res6))"

section \<open>Gold\<close>

text \<open>The six sections of \<open>materialize_gold_from_silver\<close> pass on the counters and the tables.\<close>

type_synonym 'd gold_state = "gold_materialization_result \<times> 'd mat_db"

definition default_gold :: gold_materialization_result where
  "default_gold = \<lparr>gm_wallet_ledger_written = 0, gm_wallet_ledger_failed = 0, gm_balance_history_written = 0,
     gm_balance_history_failed = 0, gm_hl_pnl_summary_written = 0, gm_hl_pnl_summary_failed = 0,
     gm_hl_trade_history_written = 0, gm_hl_trade_history_failed = 0, gm_protocol_events_written = 0,
     gm_protocol_events_failed = 0, gm_pool_snapshots_written = 0, gm_pool_snapshots_failed = 0,
     gm_per_dataset_network_written = [], gm_per_dataset_network_failed = []\<rparr>"

definition count_networks :: "dataset_name \<Rightarrow> string list \<Rightarrow> gold_materialization_result \<Rightarrow> gold_materialization_result" where
  "count_networks ds networks res =
     res\<lparr>gm_per_dataset_network_written :=
       fold (increment_gold_dataset_network_count (as_sql_str ds)) networks (gm_per_dataset_network_written res)\<rparr>"

definition count_failures :: "dataset_name \<Rightarrow> string list \<Rightarrow> gold_materialization_result \<Rightarrow> gold_materialization_result" where
  "count_failures ds networks res =
     count_networks ds networks (res\<lparr>gm_per_dataset_network_failed :=
       fold (\<lambda>n. increment_gold_dataset_network_failures (as_sql_str ds) n 1) networks (gm_per_dataset_network_failed res)\<rparr>)"

text \<open>A transaction of chunked upserts goes through unless the connection fails or a chunk repeats an id.\<close>

definition upsert_ok :: "'d mat_env \<Rightarrow> dataset_name \<Rightarrow> uuid list \<Rightarrow> bool" where
  "upsert_ok env ds ids \<longleftrightarrow> me_cut env (as_sql_str ds) = None \<and> list_all distinct (chunks 500 ids)"

definition gold_ledger_step ::
    "('d :: linordered_idom) mat_env \<Rightarrow> (string \<rightharpoonup> uuid) \<Rightarrow> string \<Rightarrow> raw_transaction list \<Rightarrow> 'd silver_records \<Rightarrow>
     'd gold_state \<Rightarrow> 'd gold_state" where
  "gold_ledger_step env versions wallet raws s = (\<lambda>(res, db).
     let c = \<lparr>gc_wallet = wallet, gc_raws = raws, gc_version = versions (as_sql_str DS_WalletLedger), gc_now = me_now env\<rparr>;
         records = gold_ledger_records (me_vh env) (me_us env) (me_quo env) c s;
         res1 = res\<lparr>gm_wallet_ledger_failed := gm_wallet_ledger_failed res + evm_malformed (me_quo env) c TYPE('d)\<rparr>
     in if raws = [] then (res1, db)
        else if upsert_ok env DS_WalletLedger (map wl_id records)
        then (count_networks DS_WalletLedger (map wl_network records) (res1\<lparr>gm_wallet_ledger_written := length records\<rparr>),
              db\<lparr>md_db := (md_db db)\<lparr>db_ledger := replace_wallet_ledger_records wallet (map raw_id raws) records (db_ledger (md_db db))\<rparr>\<rparr>)
        else (count_failures DS_WalletLedger (map wl_network records) (res1\<lparr>gm_wallet_ledger_failed := length records\<rparr>), db))"

text \<open>
  Balances: the outcome of every group with its network; a group that cannot be read counts its events as
  failed, once in a sum and once per event in the number of records.
\<close>

definition group_outcomes ::
    "('d :: linordered_idom) mat_env \<Rightarrow> string \<Rightarrow> uuid option \<Rightarrow> 'd bh_row list \<Rightarrow> 'd balance_event list \<Rightarrow>
     (string \<times> (nat + ('d balance_snapshot \<times> 'd) list)) list" where
  "group_outcomes env wallet version table evs =
     List.map_filter (\<lambda>(k, incoming).
         case map_of (first_event_by_key evs) k of
           Some (Some first) \<Rightarrow> Some (fst k, recompute_group (me_bh_read env) table wallet version (me_now env)
               (set (map be_snapshot_id evs)) k first incoming)
         | _ \<Rightarrow> None)
       (me_groups env (incoming_by_key evs))"

definition count_skipped :: "(string \<times> (nat + 'a)) list \<Rightarrow> gold_materialization_result \<Rightarrow> gold_materialization_result" where
  "count_skipped outcomes =
     fold (\<lambda>(network, r) res. case r of
         Inl skipped \<Rightarrow> count_networks DS_BalanceHistory (replicate skipped network)
           (res\<lparr>gm_per_dataset_network_failed := increment_gold_dataset_network_failures (as_sql_str DS_BalanceHistory) network skipped
              (gm_per_dataset_network_failed res)\<rparr>)
       | Inr _ \<Rightarrow> res) outcomes"

definition gold_balance_step ::
    "('d :: linordered_idom) mat_env \<Rightarrow> (string \<rightharpoonup> uuid) \<Rightarrow> string \<Rightarrow> raw_transaction list \<Rightarrow> 'd silver_records \<Rightarrow>
     'd gold_state \<Rightarrow> 'd gold_state" where
  "gold_balance_step env versions wallet raws s = (\<lambda>(res, db).
     let version = versions (as_sql_str DS_BalanceHistory);
         c = \<lparr>gc_wallet = wallet, gc_raws = raws, gc_version = versions (as_sql_str DS_WalletLedger), gc_now = me_now env\<rparr>;
         evs = balance_events (me_vh env) (me_us env) wallet raws (sr_token_transfers s) (sr_native_balance_deltas s)
                 (evm_balance_flows (me_quo env) c);
         outcomes = group_outcomes env wallet version (md_bh db) evs;
         snapshots = concat (map (\<lambda>(_, r). case r of Inl _ \<Rightarrow> [] | Inr rows \<Rightarrow> map fst rows) outcomes);
         ok = upsert_ok env DS_BalanceHistory (map bs_id snapshots);
         (table, r) = materialize_balances (me_groups env) (me_bh_read env) ok wallet version (me_now env) (md_bh db) evs;
         res1 = (count_skipped outcomes res)\<lparr>gm_balance_history_written := gm_balance_history_written res + bh_written r,
                    gm_balance_history_failed := gm_balance_history_failed res + bh_failed r\<rparr>
     in ((if ok then count_networks else count_failures) DS_BalanceHistory (map bs_network snapshots) res1,
         db\<lparr>md_bh := table, md_db := (md_db db)\<lparr>db_balances := map bh_snap table\<rparr>\<rparr>))"

definition gold_pnl_step ::
    "('d :: linordered_idom) mat_env \<Rightarrow> (string \<rightharpoonup> uuid) \<Rightarrow> string \<Rightarrow> 'd hl_fill_record list \<Rightarrow> 'd hl_funding_payment list \<Rightarrow>
     'd gold_state \<Rightarrow> 'd gold_state" where
  "gold_pnl_step env versions wallet fills funding = (\<lambda>(res, db).
     if fills = [] \<and> funding = [] then (res, db)
     else
       let network = (case map fill_network fills @ map fund_network funding of n # _ \<Rightarrow> n | [] \<Rightarrow> ''hyperliquid'');
           secs = map (\<lambda>f. trunc_div (fill_fill_time f) 1000) fills @ map (\<lambda>p. trunc_div (fund_payment_time p) 1000) funding;
           summaries = map (\<lambda>r. r\<lparr>pnl_dataset_version_id := versions (as_sql_str DS_HlPnlSummary)\<rparr>)
             (compute_pnl_summary (me_aggs env) (me_vh env) (me_quo env) (me_now env) wallet network fills funding
                (case min_opt secs of Some t \<Rightarrow> t | None \<Rightarrow> 0) (case max_opt secs of Some t \<Rightarrow> t | None \<Rightarrow> 0));
           n = length summaries
       in if summaries = [] then (res, db)
          else case (if me_cut env (as_sql_str DS_HlPnlSummary) = None
                     then replace_hl_pnl_summary wallet network summaries (db_pnl (md_db db)) else Inl lost_connection) of
              Inr table \<Rightarrow> (count_networks DS_HlPnlSummary (map pnl_network summaries) (res\<lparr>gm_hl_pnl_summary_written := n\<rparr>),
                           db\<lparr>md_db := (md_db db)\<lparr>db_pnl := table\<rparr>\<rparr>)
            | Inl _ \<Rightarrow> (count_failures DS_HlPnlSummary (map pnl_network summaries) (res\<lparr>gm_hl_pnl_summary_failed := n\<rparr>), db))"

definition gold_trade_step ::
    "('d :: linordered_idom) mat_env \<Rightarrow> (string \<rightharpoonup> uuid) \<Rightarrow> string \<Rightarrow> 'd hl_fill_record list \<Rightarrow> 'd gold_state \<Rightarrow> 'd gold_state" where
  "gold_trade_step env versions wallet fills = (\<lambda>(res, db).
     if fills = [] then (res, db)
     else
       let network = (case fills of f # _ \<Rightarrow> fill_network f | [] \<Rightarrow> ''hyperliquid'');
           trades = map (\<lambda>t. t\<lparr>trade_dataset_version_id := versions (as_sql_str DS_HlTradeHistory),
                               trade_opened_at := trunc_div (trade_opened_at t) 1000,
                               trade_closed_at := trunc_div (trade_closed_at t) 1000\<rparr>)
             (build_trade_history (me_coins env) (me_vh env) (me_us env) (me_quo env) (me_now env) wallet network fills);
           n = length trades
       in case (if me_cut env (as_sql_str DS_HlTradeHistory) = None
                then replace_hl_trade_history wallet network trades (db_trades (md_db db)) else Inl lost_connection) of
            Inr table \<Rightarrow> (count_networks DS_HlTradeHistory (map trade_network trades) (res\<lparr>gm_hl_trade_history_written := n\<rparr>),
                         db\<lparr>md_db := (md_db db)\<lparr>db_trades := table\<rparr>\<rparr>)
          | Inl _ \<Rightarrow> (count_failures DS_HlTradeHistory (map trade_network trades) (res\<lparr>gm_hl_trade_history_failed := n\<rparr>), db))"

definition gold_protocol_step ::
    "'d mat_env \<Rightarrow> (string \<rightharpoonup> uuid) \<Rightarrow> raw_transaction list \<Rightarrow> decoded_event list \<Rightarrow> 'd gold_state \<Rightarrow> 'd gold_state" where
  "gold_protocol_step env versions raws events = (\<lambda>(res, db).
     if events = [] then (res, db)
     else
       let event_times = map_of (rev (List.map_filter (\<lambda>de. map_option (\<lambda>raw. (de_id de, raw_timestamp raw))
             (raw_tx_lookup raws (de_raw_transaction_id de))) events));
           rows = map (\<lambda>e. e\<lparr>pe_dataset_version_id := versions (as_sql_str DS_ProtocolEvents),
                 pe_timestamp := (case Option.bind (pe_raw_event_id e) event_times of Some t \<Rightarrow> t | None \<Rightarrow> pe_timestamp e)\<rparr>)
             (compute_protocol_events (me_vh env) (me_us env) (me_secs env) (me_now env) events None);
           n = length rows;
           (table, err) = cut_save (me_cut env (as_sql_str DS_ProtocolEvents)) save_protocol_events rows (db_protocol_events (md_db db));
           db' = db\<lparr>md_db := (md_db db)\<lparr>db_protocol_events := table\<rparr>\<rparr>
       in case err of
            None \<Rightarrow> (res\<lparr>gm_protocol_events_written := n\<rparr>, db')
          | Some _ \<Rightarrow> (res\<lparr>gm_protocol_events_failed := n\<rparr>, db'))"

definition gold_pool_step ::
    "('d :: linordered_idom) mat_env \<Rightarrow> (string \<rightharpoonup> uuid) \<Rightarrow> decoded_event list \<Rightarrow> 'd gold_state \<Rightarrow> 'd gold_state" where
  "gold_pool_step env versions events = (\<lambda>(res, db).
     let rows = map (\<lambda>s. s\<lparr>ps_dataset_version_id := versions (as_sql_str DS_PoolSnapshots)\<rparr>)
           (concat (map (\<lambda>pool. compute_pool_snapshots (me_vh env) (me_us env) (me_secs env) (me_bd env) (me_now env)
                (filter (\<lambda>de. de_program_or_contract de = pool) events) pool ([], None) ([], None))
              (me_strings env (remdups (map de_program_or_contract events)))));
         n = length rows;
         (table, err) = cut_save (me_cut env (as_sql_str DS_PoolSnapshots)) save_pool_snapshots rows (db_pools (md_db db));
         db' = db\<lparr>md_db := (md_db db)\<lparr>db_pools := table\<rparr>\<rparr>
     in if rows = [] then (res, db)
        else case err of
            None \<Rightarrow> (res\<lparr>gm_pool_snapshots_written := n\<rparr>, db')
          | Some _ \<Rightarrow> (res\<lparr>gm_pool_snapshots_failed := n\<rparr>, db'))"

text \<open>
  The Hyperliquid analytics are rebuilt from all indexed records of the wallet, on the network of the first
  fill or payment of the batch. When they cannot be read the run ends there, without the remaining sections.
\<close>

definition hl_network_of :: "'d hl_fill_record list \<Rightarrow> 'd hl_funding_payment list \<Rightarrow> string option" where
  "hl_network_of fills funding = (case map fill_network fills @ map fund_network funding of n # _ \<Rightarrow> Some n | [] \<Rightarrow> None)"

definition hl_inputs ::
    "'d mat_env \<Rightarrow> string \<Rightarrow> string option \<Rightarrow> 'd dataset_db \<Rightarrow> ('d hl_fill_record list \<times> 'd hl_funding_payment list) result" where
  "hl_inputs env wallet network db =
     (case network of
        None \<Rightarrow> Inr ([], [])
      | Some n \<Rightarrow> if me_down env ''hl_wallet_inputs'' n then Inl lost_connection else hl_wallet_inputs wallet n db)"

definition materialize_gold_from_silver ::
    "('d :: linordered_idom) mat_env \<Rightarrow> raw_transaction list \<Rightarrow> string \<Rightarrow> 'd silver_records \<Rightarrow> decoded_event list \<Rightarrow> uuid option \<Rightarrow>
     'd mat_db \<Rightarrow> 'd gold_state" where
  "materialize_gold_from_silver env raws wallet s events wallet_target db =
     (if wallet = [] then (default_gold, db)
      else
        let (versions, dvs) = resolve_gold_dataset_versions (me_down env ''version'') (me_version_id env) (me_now env) (md_versions db);
            (res, db2) = gold_balance_step env versions wallet raws s
              (gold_ledger_step env versions wallet raws s (default_gold, db\<lparr>md_versions := dvs\<rparr>))
        in case hl_inputs env wallet (hl_network_of (sr_hl_fills s) (sr_hl_funding s)) (md_db db2) of
             Inl _ \<Rightarrow> (res\<lparr>gm_hl_pnl_summary_failed := gm_hl_pnl_summary_failed res + 1,
                          gm_hl_trade_history_failed := gm_hl_trade_history_failed res + 1\<rparr>, db2)
           | Inr (fills, funding) \<Rightarrow>
               let (res3, db3) = gold_pool_step env versions events (gold_protocol_step env versions raws events
                     (gold_trade_step env versions wallet fills (gold_pnl_step env versions wallet fills funding (res, db2))));
                   d = md_db db3
               in (res3, db3\<lparr>md_completeness := update_gold_completeness (me_vh env) (me_us env) (me_now env) (me_down env)
                     (count_gold_wallet_dataset_records (db_ledger d) (db_balances d) (db_raws d) (db_matches d))
                     (db_targets d) raws wallet wallet_target versions res3 (md_completeness db3)\<rparr>))"

section \<open>From Bronze to Gold\<close>

definition add_gold_result :: "gold_materialization_result \<Rightarrow> bronze_silver_result \<Rightarrow> bronze_silver_result" where
  "add_gold_result g res =
     res\<lparr>bsr_total_failed := bsr_total_failed res + (gm_wallet_ledger_failed g + gm_balance_history_failed g
            + gm_hl_pnl_summary_failed g + gm_hl_trade_history_failed g + gm_protocol_events_failed g + gm_pool_snapshots_failed g),
         bsr_gold_wallet_ledger_written := gm_wallet_ledger_written g,
         bsr_gold_balance_history_written := gm_balance_history_written g,
         bsr_gold_hl_pnl_summary_written := gm_hl_pnl_summary_written g,
         bsr_gold_hl_trade_history_written := gm_hl_trade_history_written g,
         bsr_gold_protocol_events_written := gm_protocol_events_written g,
         bsr_gold_pool_snapshots_written := gm_pool_snapshots_written g\<rparr>"

definition dataset_counts :: "'d silver_batch \<Rightarrow> string \<Rightarrow> nat" where
  "dataset_counts b name =
     (if name = ''token_transfers'' then length (sb_transfers b)
      else if name = ''native_balance_deltas'' then length (sb_native b)
      else if name = ''decoded_events'' then length (sb_events b)
      else if name = as_sql_str DS_HlFills then length (sb_fills b)
      else if name = as_sql_str DS_HlFunding then length (sb_funding b)
      else if name = as_sql_str DS_Positions then length (sb_positions b)
      else 0)"

definition bronze_completeness_row ::
    "'d mat_env \<Rightarrow> raw_transaction list \<Rightarrow> string \<Rightarrow> uuid \<Rightarrow> string \<Rightarrow> uuid \<Rightarrow> nat \<Rightarrow> dataset_completeness" where
  "bronze_completeness_row env grp network target name version n =
     \<lparr>dc_id = me_vh env NAMESPACE_URL (me_us env target @ '':'' @ name @ '':'' @ network), dc_target_id = target,
      dc_dataset_name = name, dc_dataset_version_id = Some version, dc_network = network, dc_status = CS_Partial,
      dc_coverage_start = min_opt (map raw_timestamp grp), dc_coverage_end = max_opt (map raw_timestamp grp),
      dc_block_start = min_opt (List.map_filter raw_block_number grp),
      dc_block_end = max_opt (List.map_filter raw_block_number grp),
      dc_last_ingestion_run_id = first_row (List.map_filter raw_ingestion_run_id grp),
      dc_records_count = usize_to_i64_or_max n, dc_gap_ranges = None, dc_notes = None,
      dc_created_at = me_now env, dc_updated_at = me_now env\<rparr>"

text \<open>\<open>me_strings\<close> orders the networks and the datasets; a failed lookup or upsert skips the network or the row.\<close>

definition bronze_completeness ::
    "'d mat_env \<Rightarrow> (string \<rightharpoonup> uuid) \<Rightarrow> raw_transaction list \<Rightarrow> string \<Rightarrow> 'd silver_batch \<Rightarrow> targets \<Rightarrow>
     dataset_completeness list \<Rightarrow> dataset_completeness list" where
  "bronze_completeness env versions raws wallet b ts =
     fold (\<lambda>network dcs.
         case (if me_down env ''target'' network then None else get_index_target_by_address TK_Wallet network wallet None ts) of
           None \<Rightarrow> dcs
         | Some t \<Rightarrow> fold (\<lambda>name dcs.
               case versions name of
                 None \<Rightarrow> dcs
               | Some v \<Rightarrow> if dataset_counts b name = 0 \<or> me_down env name network then dcs
                          else upsert_or_warn (bronze_completeness_row env (filter (\<lambda>r. raw_network r = network) raws) network
                                 (it_id t) name v (dataset_counts b name)) dcs)
             (me_strings env (map as_sql_str silver_materializable)) dcs)
       (me_strings env (remdups (map raw_network raws)))"

definition payload_invalid :: "'d mat_env \<Rightarrow> raw_transaction \<Rightarrow> bool" where
  "payload_invalid env raw \<longleftrightarrow>
     \<not> validate_import_payload (me_bd env) (me_dec env)
         (case chain_family_for_network (raw_network raw) of Some f \<Rightarrow> f | None \<Rightarrow> CF_Evm) (raw_metadata raw)"

definition initial_bsr :: "'d mat_env \<Rightarrow> raw_transaction list \<Rightarrow> bronze_silver_result" where
  "initial_bsr env raws =
     default_bsr\<lparr>bsr_last_raw_transaction_id := map_option raw_id (Core_Types.max_by_key raw_timestamp raws),
       bsr_last_timestamp := max_opt (map raw_timestamp raws), bsr_coverage_start := min_opt (map raw_timestamp raws),
       bsr_coverage_end := max_opt (map raw_timestamp raws),
       bsr_total_failed := length (filter (payload_invalid env) raws)\<rparr>"

text \<open>The result is \<open>None\<close> when an extractor panics, after the dataset versions have been created.\<close>

definition materialize_silver_from_bronze ::
    "('d :: linordered_idom) mat_env \<Rightarrow> raw_transaction list \<Rightarrow> string option \<Rightarrow> uuid option \<Rightarrow> 'd mat_db \<Rightarrow>
     bronze_silver_result option \<times> 'd mat_db" where
  "materialize_silver_from_bronze env raws wallet_address wallet_target db =
     (if raws = [] then (Some default_bsr, db)
      else let res0 = initial_bsr env raws
      in if bsr_total_failed res0 \<noteq> 0 then (Some res0, db)
      else
        let wallet = (case wallet_address of Some w \<Rightarrow> w | None \<Rightarrow> []);
            (versions, dvs) = resolve_silver_dataset_versions (me_down env ''version'') (me_version_id env) (me_now env) (md_versions db);
            db1 = db\<lparr>md_versions := dvs\<rparr>
        in case silver_of_raws env wallet raws of
             None \<Rightarrow> (None, db1)
           | Some b0 \<Rightarrow>
               let b = stamp_batch env versions b0;
                   (d, res1) = write_silver env b (md_db db1) res0;
                   db2 = db1\<lparr>md_db := d\<rparr>
               in if sb_events b \<noteq> [] \<and> me_down env ''canonical_decoded_events'' []
                  then (Some (res1\<lparr>bsr_total_failed := bsr_total_failed res1 + length (sb_events b)\<rparr>), db2)
                  else if wallet = [] then (Some res1, db2)
                  else
                    let events = (if sb_events b = [] then [] else canonical_decoded_events (me_scan env) (map raw_id raws) (db_events d));
                        s = \<lparr>sr_token_transfers = sb_transfers b, sr_native_balance_deltas = sb_native b,
                             sr_hl_fills = sb_fills b, sr_hl_funding = sb_funding b\<rparr>;
                        (g, db3) = materialize_gold_from_silver env raws wallet s events wallet_target db2
                    in (Some (add_gold_result g res1),
                        db3\<lparr>md_completeness := bronze_completeness env versions raws wallet (b\<lparr>sb_events := events\<rparr>)
                              (db_targets (md_db db3)) (md_completeness db3)\<rparr>))"

section \<open>Records name their raw transaction\<close>

definition names_raw :: "uuid \<Rightarrow> 'd silver_batch \<Rightarrow> bool" where
  "names_raw i b \<longleftrightarrow> list_all (\<lambda>t. tt_raw_transaction_id t = Some i) (sb_transfers b)
     \<and> list_all (\<lambda>t. nbd_raw_transaction_id t = Some i) (sb_native b) \<and> list_all (\<lambda>t. de_raw_transaction_id t = Some i) (sb_events b)
     \<and> list_all (\<lambda>t. fill_raw_transaction_id t = Some i) (sb_fills b) \<and> list_all (\<lambda>t. fund_raw_transaction_id t = Some i) (sb_funding b)
     \<and> list_all (\<lambda>t. pos_raw_transaction_id t = Some i) (sb_positions b)"

lemma log_transfer_raw: "list_all (\<lambda>t. tt_raw_transaction_id t = i) (log_transfer dv fid now i network td log)"
  unfolding log_transfer_def Let_def by (simp split: option.split sum.split prod.split)

lemma concat_opts_mem: "concat_opts xs = Some ys \<Longrightarrow> y \<in> set ys \<Longrightarrow> \<exists>zs. Some zs \<in> set xs \<and> y \<in> set zs"
proof (induction xs arbitrary: ys)
  case (Cons x xs)
  then obtain a b where "x = Some a" "concat_opts xs = Some b" "ys = a @ b" by (auto split: option.splits)
  with Cons.IH [of b] Cons.prems(2) show ?case by auto
qed simp

lemma evm_transfer_raw:
  "extract_with_decimals dv fid now i network td raw = Some ts \<Longrightarrow> t \<in> set ts \<Longrightarrow> tt_raw_transaction_id t = i"
proof (induction dv fid now i network td raw arbitrary: ts t rule: extract_with_decimals.induct)
  case (1 dv fid now i network td raw)
  let ?own = "case td of Some v \<Rightarrow> v | None \<Rightarrow> json_index raw ''token_decimals''"
  note eq = "1.prems"(1) [unfolded extract_with_decimals.simps [of _ _ _ _ _ _ raw] Let_def]
  consider "ts = []" | "ts = log_transfer dv (fid raw) now i network ?own raw"
    | logs where "json_as_str (json_index raw ''status'') \<noteq> Some ''0x0''" "get_array raw ''logs'' = Some logs"
        "concat_opts (map (\<lambda>(j, log). if \<not> writable log then None
           else map_option (map (\<lambda>t. t\<lparr>tt_transfer_index := log_index_of log j\<rparr>))
             (extract_with_decimals dv fid now i network (Some ?own) log)) (enumerate 0 logs)) = Some ts"
    using eq by (auto split: if_splits option.splits)
  then show ?case
  proof cases
    case 1
    with "1.prems"(2) show ?thesis by simp
  next
    case 2
    with "1.prems"(2) show ?thesis using log_transfer_raw [of i dv "fid raw" now network ?own raw] by (simp add: list_all_iff)
  next
    case 3
    from concat_opts_mem [OF 3(3) "1.prems"(2)] obtain j log us where
      log: "(j, log) \<in> set (enumerate 0 logs)" "writable log" "t \<in> (\<lambda>t. t\<lparr>tt_transfer_index := log_index_of log j\<rparr>) ` set us"
        "extract_with_decimals dv fid now i network (Some ?own) log = Some us"
      by (auto split: if_splits simp: map_option_case split: option.splits)
    have "tt_raw_transaction_id u = i" if "u \<in> set us" for u
      using "1.IH" [OF refl 3(1) 3(2) log(1) refl] log(2,4) that by simp
    with log(3) show ?thesis by auto
  qed
qed

lemma evm_event_raw: "list_all (\<lambda>e. de_raw_transaction_id e = i) (extract_evm_decoded_events pn fid now i network raw)"
proof -
  have e: "de_raw_transaction_id (log_event pn f now i network log topics j) = i" for f log topics j
    by (simp add: log_event_def Let_def)
  then have "list_all (\<lambda>e. de_raw_transaction_id e = i) (concat (map (\<lambda>(j, log). case get_array log ''topics'' of
      Some topics \<Rightarrow> [log_event pn (fid log) now i network log topics j] | None \<Rightarrow> []) jls))" for jls
    by (induction jls) (simp_all split: option.split prod.split)
  with e show ?thesis unfolding extract_evm_decoded_events_def by (simp split: option.split)
qed

lemma sol_body_raw:
  "list_all (\<lambda>t. tt_raw_transaction_id t = i) (tl_transfers s) \<Longrightarrow>
   list_all (\<lambda>t. tt_raw_transaction_id t = i) (tl_transfers (sol_transfer_body sc fid now i network pre post b s))"
  unfolding sol_transfer_body_def Let_def by (simp split: option.split)

lemma sol_transfer_raw: "list_all (\<lambda>t. tt_raw_transaction_id t = i) (extract_solana_token_transfers dec sc fid now i network raw)"
proof -
  have "list_all (\<lambda>t. tt_raw_transaction_id t = i) (tl_transfers s) \<Longrightarrow>
    list_all (\<lambda>t. tt_raw_transaction_id t = i) (tl_transfers (fold (sol_transfer_body sc fid now i network pre post) bs s))" for pre post bs s
    by (induction bs arbitrary: s) (simp_all add: sol_body_raw)
  then show ?thesis unfolding extract_solana_token_transfers_def Let_def by (simp split: option.split)
qed

lemma sol_native_raw: "list_all (\<lambda>t. nbd_raw_transaction_id t = i) (extract_solana_native_balance_deltas dec sc fid now i network raw)"
proof -
  have "sol_native_delta sc fid now i network meta ia = Some d \<Longrightarrow> nbd_raw_transaction_id d = i" for meta ia d
    by (auto simp: sol_native_delta_def Let_def split: prod.splits if_splits)
  then show ?thesis unfolding extract_solana_native_balance_deltas_def
    by (auto simp: list_all_iff List.map_filter_def split: option.split encoded_transaction.split)
qed

lemma sol_event_raw: "list_all (\<lambda>t. de_raw_transaction_id t = i) (extract_solana_decoded_events dec fid now i network raw)"
  by (auto simp: extract_solana_decoded_events_def instruction_event_def Let_def list_all_iff split: option.split)

lemma hl_raw:
  "list_all (\<lambda>t. tt_raw_transaction_id t = i) (extract_hyperliquid_token_transfers bd fid now i network wallet raw)"
  "list_all (\<lambda>t. nbd_raw_transaction_id t = i) (extract_hyperliquid_native_balance_deltas bd fid now i network wallet raw)"
  "list_all (\<lambda>t. fill_raw_transaction_id t = i) (extract_hl_fill_records bd fid now i network raw)"
  "list_all (\<lambda>t. fund_raw_transaction_id t = i) (extract_hl_funding_payments bd fid now i network raw)"
  unfolding extract_hyperliquid_token_transfers_def extract_hyperliquid_native_balance_deltas_def extract_hl_fill_records_def
    extract_hl_funding_payments_def Let_def
  by (simp_all add: usdc_transfer_def usdc_delta_def split: option.split)

lemma hl_position_raw: "list_all (\<lambda>t. pos_raw_transaction_id t = i) (extract_hl_position_changes bd fid now i network raw)"
  unfolding extract_hl_position_changes_def extract_position_change_from_fill_def extract_position_change_from_liquidation_def Let_def
  by (simp split: option.split)

lemmas extractors_name_raw = sol_transfer_raw sol_native_raw sol_event_raw hl_raw hl_position_raw evm_event_raw

lemma silver_of_raw_names:
  assumes "silver_of_raw env wallet raw = Some b"
  shows "names_raw (raw_id raw) b"
proof -
  have evm: "list_all (\<lambda>t. tt_raw_transaction_id t = Some (raw_id raw)) ts"
    if "extract_evm_token_transfers (me_quo env) (\<lambda>_. 0) 0 (Some (raw_id raw)) (raw_network raw) (raw_metadata raw) = Some ts" for ts
    using evm_transfer_raw [OF that [unfolded extract_evm_token_transfers_def]] by (simp add: list_all_iff)
  show ?thesis
  proof (cases "starts_with (raw_network raw) ''solana'' \<or> is_hyperliquid (raw_network raw)")
    case True
    with assms show ?thesis
      by (auto simp: silver_of_raw_def Let_def names_raw_def extractors_name_raw split: if_splits)
  next
    case False
    with assms evm show ?thesis by (auto simp: silver_of_raw_def Let_def names_raw_def extractors_name_raw)
  qed
qed

lemma silver_of_raws_names:
  "silver_of_raws env wallet raws = Some b \<Longrightarrow> 
   None \<notin> transfer_key ` set (sb_transfers b) \<and> None \<notin> native_key ` set (sb_native b) \<and> None \<notin> event_conflict_key ` set (sb_events b)
   \<and> None \<notin> fill_key ` set (sb_fills b) \<and> None \<notin> funding_key ` set (sb_funding b) \<and> None \<notin> position_key ` set (sb_positions b)"
proof (induction raws arbitrary: b)
  case (Cons raw raws)
  then obtain x y where xy: "silver_of_raw env wallet raw = Some x" "silver_of_raws env wallet raws = Some y" "b = append_batch x y"
    by (auto split: option.splits)
  have x: "names_raw (raw_id raw) x" by (rule silver_of_raw_names [OF xy(1)])
  have "None \<notin> transfer_key ` set (sb_transfers x)" "None \<notin> native_key ` set (sb_native x)" "None \<notin> event_conflict_key ` set (sb_events x)"
    "None \<notin> fill_key ` set (sb_fills x)" "None \<notin> funding_key ` set (sb_funding x)" "None \<notin> position_key ` set (sb_positions x)"
    using x by (auto simp: names_raw_def list_all_iff transfer_key_def native_key_def event_conflict_key_def fill_key_def funding_key_def position_key_def)
  with Cons.IH [OF xy(2)] show ?case by (simp add: xy(3) append_batch_def image_Un)
qed (simp add: empty_batch_def)

section \<open>Writing a batch again\<close>

lemma write_dataset_table:
  "fst (write_dataset name lost save rs (table, res)) = (if rs = [] then table else fst (cut_save lost save rs table))"
  by (simp add: write_dataset_def Let_def split: prod.split option.split)

lemma write_dataset_failed:
  "bsr_total_failed res \<le> bsr_total_failed (snd (write_dataset name lost save rs (table, res)))"
  "bsr_total_failed (snd (write_dataset name lost save rs (table, res))) = bsr_total_failed res \<Longrightarrow>
     rs = [] \<or> lost = None \<and> snd (save rs table) = None"
  by (auto simp: write_dataset_def cut_save_def Let_def split: prod.splits option.splits if_splits)

context dedup_table
begin

lemma write_extends: "\<exists>new. fst (write_dataset name lost save rs (table, res)) = table @ new"
  using save_extends by (auto simp: write_dataset_table cut_save_def split: option.split) meson+

lemma write_unique: "unique_keys key table \<Longrightarrow> unique_keys key (fst (write_dataset name lost save rs (table, res)))"
  using save_unique by (auto simp: write_dataset_table cut_save_def split: option.split)

lemma write_known:
  assumes "\<And>r. r \<in> set rs \<Longrightarrow> key r \<noteq> None \<and> key r \<in> key ` set table"
  shows "fst (write_dataset name lost save rs (table, res)) = table"
proof -
  have "save rs table = (table, None)" by (rule save_known) (rule assms)
  moreover have "save (take n rs) table = (table, None)" for n by (rule save_known) (rule assms, rule in_set_takeD)
  ultimately show ?thesis by (simp add: write_dataset_table cut_save_def split: option.split)
qed

lemma write_covered:
  "key ` set rs \<subseteq> key ` set table \<Longrightarrow> None \<notin> key ` set rs \<Longrightarrow> fst (write_dataset name lost save rs (table, res)) = table"
  by (rule write_known) (metis image_eqI subsetD)

lemma write_covers:
  assumes ok: "bsr_total_failed (snd (write_dataset name lost save rs (table, res))) = bsr_total_failed res"
    and named: "None \<notin> key ` set rs"
  shows "key ` set rs \<subseteq> key ` set (fst (write_dataset name lost save rs (table, res)))"
proof
  fix k assume "k \<in> key ` set rs"
  then obtain q where q: "q \<in> set rs" "k = key q" by auto
  have "lost = None" "snd (save rs table) = None" using write_dataset_failed(2) [OF ok] q(1) by auto
  moreover have "key q \<noteq> None" using named q(1) by (metis imageI)
  ultimately show "k \<in> key ` set (fst (write_dataset name lost save rs (table, res)))"
    using save_covers [of rs table q] q by (auto simp: write_dataset_table cut_save_def)
qed

end

definition silver_tables :: "'d dataset_db \<Rightarrow> 'd token_transfer list \<times> 'd native_balance_delta list \<times> decoded_event list
    \<times> 'd hl_fill_record list \<times> 'd hl_funding_payment list \<times> 'd hl_position_change list" where
  "silver_tables d = (db_transfers d, db_native d, db_events d, db_fills d, db_funding d, db_positions d)"

definition batch_keys where
  "batch_keys b = (transfer_key ` set (sb_transfers b), native_key ` set (sb_native b), event_conflict_key ` set (sb_events b),
     fill_key ` set (sb_fills b), funding_key ` set (sb_funding b), position_key ` set (sb_positions b))"

definition silver_covers :: "'d silver_batch \<Rightarrow> 'd dataset_db \<Rightarrow> bool" where
  "silver_covers b d \<longleftrightarrow> transfer_key ` set (sb_transfers b) \<subseteq> transfer_key ` set (db_transfers d)
     \<and> native_key ` set (sb_native b) \<subseteq> native_key ` set (db_native d)
     \<and> event_conflict_key ` set (sb_events b) \<subseteq> event_conflict_key ` set (db_events d)
     \<and> fill_key ` set (sb_fills b) \<subseteq> fill_key ` set (db_fills d)
     \<and> funding_key ` set (sb_funding b) \<subseteq> funding_key ` set (db_funding d)
     \<and> position_key ` set (sb_positions b) \<subseteq> position_key ` set (db_positions d)"

definition named_batch :: "'d silver_batch \<Rightarrow> bool" where
  "named_batch b \<longleftrightarrow> None \<notin> transfer_key ` set (sb_transfers b) \<and> None \<notin> native_key ` set (sb_native b)
     \<and> None \<notin> event_conflict_key ` set (sb_events b) \<and> None \<notin> fill_key ` set (sb_fills b)
     \<and> None \<notin> funding_key ` set (sb_funding b) \<and> None \<notin> position_key ` set (sb_positions b)"

lemma batch_keys_cong:
  assumes "batch_keys b' = batch_keys b"
  shows "silver_covers b' d = silver_covers b d" "named_batch b' = named_batch b"
  using assms by (simp_all add: batch_keys_def silver_covers_def named_batch_def)

lemma write_silver_covers:
  assumes ok: "bsr_total_failed (snd (write_silver env b db res)) = bsr_total_failed res" and named: "named_batch b"
  shows "silver_covers b (fst (write_silver env b db res))"
proof -
  let ?d = "fst (write_silver env b db res)"
  let ?w1 = "write_dataset ''token_transfers'' (me_cut env ''token_transfers'') save_token_transfers (sb_transfers b)"
  let ?w2 = "write_dataset ''native_balance_deltas'' (me_cut env ''native_balance_deltas'') save_native_balance_deltas (sb_native b)"
  let ?w3 = "write_dataset ''decoded_events'' (me_cut env ''decoded_events'') save_decoded_events (sb_events b)"
  let ?w4 = "write_dataset (as_sql_str DS_HlFills) (me_cut env (as_sql_str DS_HlFills)) save_hl_fill_records (sb_fills b)"
  let ?w5 = "write_dataset (as_sql_str DS_HlFunding) (me_cut env (as_sql_str DS_HlFunding)) save_hl_funding_payments (sb_funding b)"
  let ?w6 = "write_dataset (as_sql_str DS_Positions) (me_cut env (as_sql_str DS_Positions)) save_hl_position_changes (sb_positions b)"
  define r1 where "r1 = snd (?w1 (db_transfers db, res))"
  define r2 where "r2 = snd (?w2 (db_native db, r1))"
  define r3 where "r3 = snd (?w3 (db_events db, r2))"
  define r4 where "r4 = snd (?w4 (db_fills db, r3))"
  define r5 where "r5 = snd (?w5 (db_funding db, r4))"
  define r6 where "r6 = snd (?w6 (db_positions db, r5))"
  note r_defs = r1_def r2_def r3_def r4_def r5_def r6_def
  have le: "bsr_total_failed res \<le> bsr_total_failed r1" "bsr_total_failed r1 \<le> bsr_total_failed r2"
    "bsr_total_failed r2 \<le> bsr_total_failed r3" "bsr_total_failed r3 \<le> bsr_total_failed r4"
    "bsr_total_failed r4 \<le> bsr_total_failed r5" "bsr_total_failed r5 \<le> bsr_total_failed r6"
    unfolding r_defs by (rule write_dataset_failed(1))+
  have "bsr_total_failed r6 = bsr_total_failed res"
    using ok by (simp add: write_silver_def r_defs case_prod_unfold Let_def)
  with le have eqs: "bsr_total_failed r1 = bsr_total_failed res" "bsr_total_failed r2 = bsr_total_failed r1"
    "bsr_total_failed r3 = bsr_total_failed r2" "bsr_total_failed r4 = bsr_total_failed r3"
    "bsr_total_failed r5 = bsr_total_failed r4" "bsr_total_failed r6 = bsr_total_failed r5" by linarith+
  have d: "db_transfers ?d = fst (?w1 (db_transfers db, res))" "db_native ?d = fst (?w2 (db_native db, r1))"
    "db_events ?d = fst (?w3 (db_events db, r2))" "db_fills ?d = fst (?w4 (db_fills db, r3))"
    "db_funding ?d = fst (?w5 (db_funding db, r4))" "db_positions ?d = fst (?w6 (db_positions db, r5))"
    by (simp_all add: write_silver_def r_defs case_prod_unfold Let_def)
  note n = named [unfolded named_batch_def, THEN conjunct1]
    named [unfolded named_batch_def, THEN conjunct2, THEN conjunct1]
    named [unfolded named_batch_def, THEN conjunct2, THEN conjunct2, THEN conjunct1]
    named [unfolded named_batch_def, THEN conjunct2, THEN conjunct2, THEN conjunct2, THEN conjunct1]
    named [unfolded named_batch_def, THEN conjunct2, THEN conjunct2, THEN conjunct2, THEN conjunct2, THEN conjunct1]
    named [unfolded named_batch_def, THEN conjunct2, THEN conjunct2, THEN conjunct2, THEN conjunct2, THEN conjunct2]
  show ?thesis
    unfolding silver_covers_def d
    using transfers.write_covers [OF eqs(1) [unfolded r1_def] n(1)]
      natives.write_covers [OF eqs(2) [unfolded r2_def] n(2)] events.write_covers [OF eqs(3) [unfolded r3_def] n(3)]
      fills.write_covers [OF eqs(4) [unfolded r4_def] n(4)] fundings.write_covers [OF eqs(5) [unfolded r5_def] n(5)]
      positions.write_covers [OF eqs(6) [unfolded r6_def] n(6)]
    by (intro conjI)
qed

text \<open>A batch whose records are all there changes nothing.\<close>

lemma write_silver_covered:
  assumes "silver_covers b d" "named_batch b"
  shows "silver_tables (fst (write_silver env b d res)) = silver_tables d"
  using assms unfolding silver_covers_def named_batch_def
  by (elim conjE)
     (simp add: silver_tables_def write_silver_def case_prod_unfold Let_def transfers.write_covered
        natives.write_covered events.write_covered fills.write_covered fundings.write_covered
        positions.write_covered del: as_sql_str.simps)

lemma stamped_keys:
  assumes "\<And>v r. key (put v r) = key r" "\<And>i now r. key (mark i now r) = key r"
  shows "key ` set (stamp_dataset_version_id put versions name (draw_ids mark fid now rs)) = key ` set rs"
proof -
  have "map key (draw_ids mark fid now rs) = map key rs"
    by (rule nth_equalityI) (simp_all add: draw_ids_def assms(2) nth_enumerate_eq)
  moreover have "map key (stamp_dataset_version_id put versions name qs) = map key qs" for qs
    by (simp add: stamp_dataset_version_id_def assms(1) split: option.split)
  ultimately show ?thesis by (metis list.set_map)
qed

lemma batch_keys_stamp: "batch_keys (stamp_batch env versions b) = batch_keys b"
  unfolding batch_keys_def stamp_batch_def silver_batch.select_convs
  by (intro arg_cong2 [where f = Pair] stamped_keys)
    (simp_all add: transfer_key_def native_key_def event_conflict_key_def fill_key_def funding_key_def position_key_def)

text \<open>The parsers and the arithmetic of two environments are the same; clock, ids, orders and failures may differ.\<close>

definition same_parsers :: "'d mat_env \<Rightarrow> 'd mat_env \<Rightarrow> bool" where
  "same_parsers env env' \<longleftrightarrow> me_quo env' = me_quo env \<and> me_bd env' = me_bd env \<and> me_scale env' = me_scale env
     \<and> me_print env' = me_print env \<and> me_dec env' = me_dec env"

lemma silver_of_raws_parsers:
  assumes "same_parsers env env'"
  shows "silver_of_raws env' wallet raws = silver_of_raws env wallet raws"
proof -
  have "silver_of_raw env' wallet raw = silver_of_raw env wallet raw" for raw
    using assms by (simp add: same_parsers_def silver_of_raw_def Let_def)
  then show ?thesis by (induction raws) (simp_all split: option.split)
qed

lemma payload_invalid_parsers: "same_parsers env env' \<Longrightarrow> payload_invalid env' = payload_invalid env"
  by (rule ext) (simp add: same_parsers_def payload_invalid_def)

text \<open>Gold never writes a Silver table.\<close>

lemma gold_steps_silver:
  "silver_tables (md_db (snd (gold_ledger_step env versions wallet raws s st))) = silver_tables (md_db (snd st))"
  "silver_tables (md_db (snd (gold_balance_step env versions wallet raws s st))) = silver_tables (md_db (snd st))"
  "silver_tables (md_db (snd (gold_pnl_step env versions wallet fills funding st))) = silver_tables (md_db (snd st))"
  "silver_tables (md_db (snd (gold_trade_step env versions wallet fills st))) = silver_tables (md_db (snd st))"
  "silver_tables (md_db (snd (gold_protocol_step env versions raws events st))) = silver_tables (md_db (snd st))"
  "silver_tables (md_db (snd (gold_pool_step env versions events st))) = silver_tables (md_db (snd st))"
  by (cases st; simp add: gold_ledger_step_def gold_balance_step_def gold_pnl_step_def gold_trade_step_def gold_protocol_step_def
      gold_pool_step_def silver_tables_def Let_def split: prod.split sum.split option.split)+

lemma gold_silver: "silver_tables (md_db (snd (materialize_gold_from_silver env raws wallet s events target db))) = silver_tables (md_db db)"
  by (simp add: materialize_gold_from_silver_def Let_def gold_steps_silver case_prod_unfold split: sum.split)

lemma materialize_silver_cases:
  assumes "materialize_silver_from_bronze env raws wallet target db = (r, db')" "raws \<noteq> []"
    "\<And>raw. raw \<in> set raws \<Longrightarrow> \<not> payload_invalid env raw"
  obtains (panic) "silver_of_raws env (case wallet of Some w \<Rightarrow> w | None \<Rightarrow> []) raws = None" "r = None" "md_db db' = md_db db"
  | (written) versions b res where "silver_of_raws env (case wallet of Some w \<Rightarrow> w | None \<Rightarrow> []) raws = Some b" "r = Some res"
      "silver_tables (md_db db') = silver_tables (fst (write_silver env (stamp_batch env versions b) (md_db db) (initial_bsr env raws)))"
      "bsr_total_failed (snd (write_silver env (stamp_batch env versions b) (md_db db) (initial_bsr env raws))) \<le> bsr_total_failed res"
proof -
  let ?w = "case wallet of Some w \<Rightarrow> w | None \<Rightarrow> []"
  let ?v = "fst (resolve_silver_dataset_versions (me_down env ''version'') (me_version_id env) (me_now env) (md_versions db))"
  have "filter (payload_invalid env) raws = []" using assms(3) by (simp add: filter_empty_conv)
  then have zero: "bsr_total_failed (initial_bsr env raws) = 0" by (simp add: initial_bsr_def)
  show thesis
  proof (cases "silver_of_raws env ?w raws")
    case None
    with assms(1,2) zero have "r = None" "md_db db' = md_db db"
      by (auto simp: materialize_silver_from_bronze_def case_prod_unfold)
    with None show thesis by (rule panic)
  next
    case (Some b)
    let ?out = "write_silver env (stamp_batch env ?v b) (md_db db) (initial_bsr env raws)"
    have "\<exists>res. r = Some res \<and> silver_tables (md_db db') = silver_tables (fst ?out) \<and> bsr_total_failed (snd ?out) \<le> bsr_total_failed res"
      using assms(1,2) zero Some
      by (auto simp: materialize_silver_from_bronze_def case_prod_unfold Let_def gold_silver add_gold_result_def split: if_splits)
    with Some show thesis using written by blast
  qed
qed

lemma starts_with_prefix: "starts_with s (p @ q) \<Longrightarrow> starts_with s p"
  by (metis append_take_drop_id append.assoc starts_with_append starts_with_def)

lemma invalid_batch:
  assumes "raw \<in> set raws" "payload_invalid env raw"
  shows "materialize_silver_from_bronze env raws wallet target db = (Some (initial_bsr env raws), db)"
    "\<not> all_succeeded (initial_bsr env raws)"
proof -
  have "filter (payload_invalid env) raws \<noteq> []" using assms by (auto simp: filter_empty_conv)
  then have "bsr_total_failed (initial_bsr env raws) \<noteq> 0" by (simp add: initial_bsr_def)
  with assms(1) show "materialize_silver_from_bronze env raws wallet target db = (Some (initial_bsr env raws), db)"
    "\<not> all_succeeded (initial_bsr env raws)"
    by (auto simp: materialize_silver_from_bronze_def all_succeeded_def)
qed

text \<open>A run that has written everything: every record of its raw transactions is in the tables.\<close>

lemma silver_of_raws_named: "silver_of_raws env wallet raws = Some b \<Longrightarrow> named_batch b"
  using silver_of_raws_names [of env wallet raws b] by (simp add: named_batch_def)

lemma materialize_covers:
  assumes first: "materialize_silver_from_bronze env raws wallet target db = (Some res, db1)" "all_succeeded res"
    and "raws \<noteq> []"
  obtains b where "silver_of_raws env (case wallet of Some w \<Rightarrow> w | None \<Rightarrow> []) raws = Some b" "silver_covers b (md_db db1)"
    "\<And>raw. raw \<in> set raws \<Longrightarrow> \<not> payload_invalid env raw"
proof -
  have valid: "\<not> payload_invalid env raw" if "raw \<in> set raws" for raw
    using first invalid_batch(1) [OF that, of env wallet target db] invalid_batch(2) [OF that, of env] by auto
  from materialize_silver_cases [OF first(1) assms(3) valid] obtain v b where
    b: "silver_of_raws env (case wallet of Some w \<Rightarrow> w | None \<Rightarrow> []) raws = Some b"
      "silver_tables (md_db db1) = silver_tables (fst (write_silver env (stamp_batch env v b) (md_db db) (initial_bsr env raws)))"
      "bsr_total_failed (snd (write_silver env (stamp_batch env v b) (md_db db) (initial_bsr env raws))) \<le> bsr_total_failed res"
    by (metis option.distinct(1) option.inject)
  have "filter (payload_invalid env) raws = []" using valid by (simp add: filter_empty_conv)
  then have ok: "bsr_total_failed (snd (write_silver env (stamp_batch env v b) (md_db db) (initial_bsr env raws))) = bsr_total_failed (initial_bsr env raws)"
    using b(3) first(2) by (simp add: all_succeeded_def initial_bsr_def)
  note keys = batch_keys_cong [OF batch_keys_stamp [of env v b]]
  have "silver_covers b (fst (write_silver env (stamp_batch env v b) (md_db db) (initial_bsr env raws)))"
    using write_silver_covers [OF ok] silver_of_raws_named [OF b(1)] by (simp add: keys)
  then have "silver_covers b (md_db db1)" using b(2) by (simp add: silver_covers_def silver_tables_def)
  from that [OF b(1) this valid] show thesis .
qed

text \<open>
  C5. Materializing a batch again changes no Silver table. When a run has written everything, a second run of the
  same raw transactions, at another time, with other random ids, in another order of the hash maps and whatever
  statements fail in it, leaves the six Silver tables as they are.
\<close>

theorem silver_rematerialization_idempotent:
  assumes first: "materialize_silver_from_bronze env raws wallet target db = (Some res, db1)" "all_succeeded res"
    and second: "same_parsers env env'" "silver_tables (md_db d) = silver_tables (md_db db1)"
  shows "silver_tables (md_db (snd (materialize_silver_from_bronze env' raws wallet target' d))) = silver_tables (md_db d)"
proof (cases "raws = []")
  case True
  then show ?thesis by (simp add: materialize_silver_from_bronze_def)
next
  case False
  let ?w = "case wallet of Some w \<Rightarrow> w | None \<Rightarrow> []"
  obtain b where b: "silver_of_raws env ?w raws = Some b" "silver_covers b (md_db db1)"
    "\<And>raw. raw \<in> set raws \<Longrightarrow> \<not> payload_invalid env raw"
    using materialize_covers [OF first False] by blast
  have valid': "\<not> payload_invalid env' raw" if "raw \<in> set raws" for raw
    using b(3) that by (simp add: payload_invalid_parsers [OF second(1)])
  have d: "silver_covers b (md_db d)" using b(2) second(2) by (simp add: silver_covers_def silver_tables_def)
  obtain r d' where run: "materialize_silver_from_bronze env' raws wallet target' d = (r, d')"
    by (cases "materialize_silver_from_bronze env' raws wallet target' d")
  have "silver_tables (md_db d') = silver_tables (md_db d)"
  proof (rule materialize_silver_cases [OF run False valid'])
    assume "md_db d' = md_db d"
    then show ?thesis by simp
  next
    fix v' b'
    assume b': "silver_of_raws env' ?w raws = Some b'"
      "silver_tables (md_db d') = silver_tables (fst (write_silver env' (stamp_batch env' v' b') (md_db d) (initial_bsr env' raws)))"
    then have "b' = b" using b(1) silver_of_raws_parsers [OF second(1)] by simp
    then show ?thesis
      using b'(2) write_silver_covered [of "stamp_batch env' v' b" "md_db d"] d silver_of_raws_named [OF b(1)]
      by (simp add: batch_keys_cong [OF batch_keys_stamp])
  qed
  with run show ?thesis by simp
qed

text \<open>
  C18. A batch is validated before anything is written. With an invalid payload in it the run stops, the database is
  as before and the result counts the failure; a batch of valid payloads without nested logs is extracted to the end.
\<close>

theorem batch_validated_first:
  assumes "raws \<noteq> []"
  shows "((\<exists>raw \<in> set raws. payload_invalid env raw) \<longrightarrow>
        (\<exists>res. materialize_silver_from_bronze env raws wallet target db = (Some res, db) \<and> \<not> all_succeeded res))
    \<and> ((\<forall>raw \<in> set raws. \<not> payload_invalid env raw \<and> flat_logs (raw_metadata raw)) \<longrightarrow>
        fst (materialize_silver_from_bronze env raws wallet target db) \<noteq> None)"
proof -
  let ?w = "case wallet of Some w \<Rightarrow> w | None \<Rightarrow> []"
  have one: "silver_of_raw env w raw \<noteq> None" if h: "\<not> payload_invalid env raw" "flat_logs (raw_metadata raw)" for raw w
  proof (cases "starts_with (raw_network raw) ''solana'' \<or> is_hyperliquid (raw_network raw)")
    case True
    then show ?thesis by (auto simp: silver_of_raw_def Let_def)
  next
    case False
    then have "(case chain_family_for_network (raw_network raw) of Some f \<Rightarrow> f | None \<Rightarrow> CF_Evm) = CF_Evm"
      using starts_with_prefix [of "raw_network raw" "''solana''" "''-''"] starts_with_prefix [of "raw_network raw" "''hypercore''" "''-''"]
      by (auto simp: chain_family_for_network_def)
    with h(1) have "validate_evm_payload (raw_metadata raw)" by (simp add: payload_invalid_def validate_import_payload_def)
    with h(2) False validated_evm show ?thesis by (simp add: silver_of_raw_def Let_def)
  qed
  have "silver_of_raws env ?w raws \<noteq> None" if "\<forall>raw \<in> set raws. \<not> payload_invalid env raw \<and> flat_logs (raw_metadata raw)"
    using that by (induction raws) (use one in \<open>auto split: option.split\<close>)
  then have "fst (materialize_silver_from_bronze env raws wallet target db) \<noteq> None"
    if h: "\<forall>raw \<in> set raws. \<not> payload_invalid env raw \<and> flat_logs (raw_metadata raw)"
    using materialize_silver_cases [OF prod.collapse [symmetric] assms, of env wallet target db] h by (metis option.distinct(1))
  with invalid_batch show ?thesis by blast
qed

lemma write_silver_invariant:
  "unique_keys transfer_key (db_transfers db) \<Longrightarrow> unique_keys transfer_key (db_transfers (fst (write_silver env b db res)))"
  "unique_keys native_key (db_native db) \<Longrightarrow> unique_keys native_key (db_native (fst (write_silver env b db res)))"
  "unique_keys event_conflict_key (db_events db) \<Longrightarrow> unique_keys event_conflict_key (db_events (fst (write_silver env b db res)))"
  "unique_keys fill_key (db_fills db) \<Longrightarrow> unique_keys fill_key (db_fills (fst (write_silver env b db res)))"
  "unique_keys funding_key (db_funding db) \<Longrightarrow> unique_keys funding_key (db_funding (fst (write_silver env b db res)))"
  "unique_keys position_key (db_positions db) \<Longrightarrow> unique_keys position_key (db_positions (fst (write_silver env b db res)))"
  by (simp_all add: write_silver_def case_prod_unfold Let_def transfers.write_unique natives.write_unique events.write_unique
      fills.write_unique fundings.write_unique positions.write_unique)

definition silver_unique :: "'d dataset_db \<Rightarrow> bool" where
  "silver_unique d \<longleftrightarrow> unique_keys transfer_key (db_transfers d) \<and> unique_keys native_key (db_native d)
     \<and> unique_keys event_conflict_key (db_events d) \<and> unique_keys fill_key (db_fills d) \<and> unique_keys funding_key (db_funding d)
     \<and> unique_keys position_key (db_positions d)"

definition silver_extends :: "'d dataset_db \<Rightarrow> 'd dataset_db \<Rightarrow> bool" where
  "silver_extends d d' \<longleftrightarrow> prefix (db_transfers d) (db_transfers d') \<and> prefix (db_native d) (db_native d')
     \<and> prefix (db_events d) (db_events d') \<and> prefix (db_fills d) (db_fills d') \<and> prefix (db_funding d) (db_funding d')
     \<and> prefix (db_positions d) (db_positions d')"

lemma write_silver_extends: "silver_extends db (fst (write_silver env b db res))"
  unfolding silver_extends_def prefix_def
  by (simp add: write_silver_def case_prod_unfold Let_def transfers.write_extends natives.write_extends events.write_extends
      fills.write_extends fundings.write_extends positions.write_extends)

lemma silver_tables_cong:
  assumes "silver_tables d = silver_tables d'"
  shows "silver_unique d = silver_unique d'" "silver_extends x d = silver_extends x d'"
  using assms by (simp_all add: silver_tables_def silver_unique_def silver_extends_def)

lemma materialize_extends:
  "silver_extends (md_db db) (md_db (snd (materialize_silver_from_bronze env raws wallet target db)))
   \<and> (silver_unique (md_db db) \<longrightarrow> silver_unique (md_db (snd (materialize_silver_from_bronze env raws wallet target db))))"
proof (cases "raws = [] \<or> (\<exists>raw \<in> set raws. payload_invalid env raw)")
  case True
  then have "snd (materialize_silver_from_bronze env raws wallet target db) = db"
    using invalid_batch(1) by (metis materialize_silver_from_bronze_def snd_conv)
  then show ?thesis by (simp add: silver_extends_def)
next
  case False
  obtain r d' where run: "materialize_silver_from_bronze env raws wallet target db = (r, d')"
    by (cases "materialize_silver_from_bronze env raws wallet target db")
  have "silver_extends (md_db db) (md_db d') \<and> (silver_unique (md_db db) \<longrightarrow> silver_unique (md_db d'))"
  proof (rule materialize_silver_cases [OF run])
    assume "md_db d' = md_db db"
    then show ?thesis by (simp add: silver_extends_def)
  next
    fix v b
    assume "silver_tables (md_db d') = silver_tables (fst (write_silver env (stamp_batch env v b) (md_db db) (initial_bsr env raws)))"
    note eq = silver_tables_cong [OF this]
    show ?thesis unfolding eq by (simp add: silver_unique_def write_silver_extends write_silver_invariant)
  qed (use False in auto)
  with run show ?thesis by simp
qed

text \<open>
  C19. The Silver tables only grow and hold every record once. Whatever is materialized and whatever statements fail,
  rows are appended and never changed or removed, and no two rows of a table have the same raw transaction
  and the same position in it.
\<close>

theorem silver_tables_append_only:
  "silver_extends (md_db db) (md_db (snd (materialize_silver_from_bronze env raws wallet target db)))
   \<and> (silver_unique (md_db db) \<longrightarrow> silver_unique (md_db (snd (materialize_silver_from_bronze env raws wallet target db))))"
  by (rule materialize_extends)

section \<open>A run on a fill\<close>

definition sample_env :: "nat \<Rightarrow> int mat_env" where
  "sample_env k = \<lparr>me_vh = (\<lambda>_ _. 0), me_us = (\<lambda>_. []), me_quo = (\<lambda>a b. a div b), me_bd = sample_bd, me_scale = (\<lambda>n _. n),
     me_print = (\<lambda>_. []), me_dec = (\<lambda>_. None), me_secs = (\<lambda>t. t), me_now = int k,
     me_id = (\<lambda>_ i. of_nat (i + k)), me_version_id = (\<lambda>_. of_nat k), me_cut = (\<lambda>_. None), me_down = (\<lambda>_ _. False),
     me_bh_read = (\<lambda>_. True), me_groups = id, me_aggs = id, me_coins = id, me_strings = id, me_scan = id\<rparr>"

definition sample_hl_raw :: raw_transaction where
  "sample_hl_raw = sample_raw\<lparr>raw_network := ''hypercore-mainnet'', raw_metadata := sample_fill_json\<rparr>"

definition sample_mat_db :: "int mat_db" where
  "sample_mat_db = \<lparr>md_db = \<lparr>db_targets = [], db_matches = [], db_raws = [], db_transfers = [], db_native = [], db_events = [],
     db_fills = [], db_funding = [], db_positions = [], db_ledger = [], db_balances = [], db_pnl = [], db_trades = [],
     db_protocol_events = [], db_pools = []\<rparr>, md_bh = [], md_versions = [], md_completeness = []\<rparr>"

definition sample_hl_batch :: "int silver_batch" where
  "sample_hl_batch =
     (let i = Some (raw_id sample_hl_raw); n = ''hypercore-mainnet''
      in \<lparr>sb_transfers = extract_hyperliquid_token_transfers sample_bd 0 0 i n [] sample_fill_json,
          sb_native = extract_hyperliquid_native_balance_deltas sample_bd 0 0 i n [] sample_fill_json, sb_events = [],
          sb_fills = extract_hl_fill_records sample_bd 0 0 i n sample_fill_json,
          sb_funding = extract_hl_funding_payments sample_bd 0 0 i n sample_fill_json,
          sb_positions = extract_hl_position_changes sample_bd 0 0 i n sample_fill_json\<rparr>)"

lemma sample_hl_silver: "silver_of_raws (sample_env k) [] [sample_hl_raw] = Some sample_hl_batch"
  by (simp add: silver_of_raw_def sample_hl_batch_def sample_hl_raw_def sample_env_def starts_with_def append_batch_def empty_batch_def Let_def)

lemma sample_hl_valid: "\<not> payload_invalid (sample_env k) sample_hl_raw"
proof -
  have "validate_hl_payload sample_bd sample_fill_json \<and> is_object sample_fill_json" by code_simp
  then show ?thesis
    by (simp add: payload_invalid_def validate_import_payload_def chain_family_for_network_def sample_hl_raw_def sample_env_def starts_with_def)
qed

lemma save_single: "save_ignoring rid key [r] [] = ([r], None)"
  by (simp add: save_ignoring_def V2_BATCH_SIZE_def chunks.simps conflicts_def)

lemma stamp_single:
  "stamp_dataset_version_id put versions name (draw_ids mark fid now [r]) =
     [(case versions name of Some v \<Rightarrow> put (Some v) | None \<Rightarrow> id) (mark (fid 0) now r)]"
  "stamp_dataset_version_id put versions name (draw_ids mark fid now []) = []"
  by (simp_all add: stamp_dataset_version_id_def draw_ids_def enumerate_eq_zip split: option.split)

lemma sample_run:
  "\<exists>res db. materialize_silver_from_bronze (sample_env k) [sample_hl_raw] None None sample_mat_db = (Some res, db)
     \<and> all_succeeded res \<and> length (db_fills (md_db db)) = 1"
proof -
  have "sb_transfers sample_hl_batch = []" "sb_funding sample_hl_batch = []" "sb_events sample_hl_batch = []"
    "length (sb_native sample_hl_batch) = 1" "length (sb_fills sample_hl_batch) = 1" "length (sb_positions sample_hl_batch) = 1"
    by code_simp+
  moreover from calculation obtain n f p where "sb_native sample_hl_batch = [n]" "sb_fills sample_hl_batch = [f]" "sb_positions sample_hl_batch = [p]"
    by (auto simp: length_Suc_conv)
  ultimately have b: "sample_hl_batch = \<lparr>sb_transfers = [], sb_native = [n], sb_events = [], sb_fills = [f], sb_funding = [], sb_positions = [p]\<rparr>"
    by (intro silver_batch.equality) simp_all
  let ?w = "\<lambda>v. write_silver (sample_env k) (stamp_batch (sample_env k) v sample_hl_batch) (md_db sample_mat_db)
      (initial_bsr (sample_env k) [sample_hl_raw])"
  have zero: "bsr_total_failed (initial_bsr (sample_env k) [sample_hl_raw]) = 0" by (simp add: initial_bsr_def default_bsr_def sample_hl_valid)
  have cut: "me_cut (sample_env k) = (\<lambda>_. None)" by (simp add: sample_env_def)
  have "bsr_total_failed (snd (?w v)) = 0 \<and> length (db_fills (fst (?w v))) = 1" for v
    by (simp add: write_silver_def stamp_batch_def b stamp_single write_dataset_def cut_save_def cut Let_def save_single zero sample_mat_db_def
        save_native_balance_deltas_def save_hl_fill_records_def save_hl_position_changes_def del: as_sql_str.simps)
  moreover have "sb_events (stamp_batch (sample_env k) v sample_hl_batch) = []" for v by (simp add: stamp_batch_def b stamp_single)
  ultimately show ?thesis
    using sample_hl_silver zero by (auto simp: materialize_silver_from_bronze_def all_succeeded_def case_prod_unfold Let_def)
qed

theorem silver_rematerialization_idempotent_witness:
  "let db = snd (materialize_silver_from_bronze (sample_env 1) [sample_hl_raw] None None sample_mat_db)
   in length (db_fills (md_db db)) = 1
      \<and> silver_tables (md_db (snd (materialize_silver_from_bronze (sample_env 2) [sample_hl_raw] None None db))) = silver_tables (md_db db)"
proof -
  obtain res db where run: "materialize_silver_from_bronze (sample_env 1) [sample_hl_raw] None None sample_mat_db = (Some res, db)"
    "all_succeeded res" "length (db_fills (md_db db)) = 1"
    using sample_run by blast
  have "same_parsers (sample_env 1) (sample_env 2)" by (simp add: same_parsers_def sample_env_def)
  from silver_rematerialization_idempotent [OF run(1,2) this refl] run(1,3) show ?thesis by simp
qed

theorem batch_validated_first_witness:
  "(\<exists>res. materialize_silver_from_bronze (sample_env 1) [sample_hl_raw, sample_hl_raw\<lparr>raw_metadata := JNull\<rparr>] None None sample_mat_db
      = (Some res, sample_mat_db) \<and> \<not> all_succeeded res)
   \<and> fst (materialize_silver_from_bronze (sample_env 1) [sample_hl_raw] None None sample_mat_db) \<noteq> None"
proof -
  have "payload_invalid (sample_env 1) (sample_hl_raw\<lparr>raw_metadata := JNull\<rparr>)"
    by (simp add: payload_invalid_def validate_import_payload_def is_object_def)
  moreover have "flat_logs (raw_metadata sample_hl_raw)"
    by (simp add: sample_hl_raw_def flat_logs_def opt_ok_def get_array_def sample_fill_json_def)
  moreover have "\<not> payload_invalid (sample_env 1) sample_hl_raw" by (rule sample_hl_valid)
  ultimately show ?thesis
    using batch_validated_first [of "[sample_hl_raw, sample_hl_raw\<lparr>raw_metadata := JNull\<rparr>]" "sample_env 1" None None sample_mat_db]
      batch_validated_first [of "[sample_hl_raw]" "sample_env 1" None None sample_mat_db] by simp
qed

theorem silver_tables_append_only_witness:
  "silver_unique (md_db (snd (materialize_silver_from_bronze (sample_env 1) [sample_hl_raw] None None sample_mat_db)))"
proof -
  have "silver_unique (md_db sample_mat_db)" by code_simp
  then show ?thesis using silver_tables_append_only [of sample_mat_db "sample_env 1" "[sample_hl_raw]" None None] by blast
qed

end
