(* ===== verification/Legacy_Repo.thy ===== *)
theory Legacy_Repo
  imports Silver_Store Dual_Write Wallet_Reads Ledger
begin

text \<open>
  The legacy tables, \<open>adapters/src/repo.rs\<close>: transactions, ledger entries and checkpoints with their saves and reads,
  and the wrappers of \<open>adapters/src/dual_write.rs\<close> that write them together with Bronze. Rows that a query leaves
  unordered come in the order \<open>sc\<close> of the scan. The creation time of a ledger entry is set by the database and not
  read back; \<open>sc\<close> is then the order of creation.
\<close>

section \<open>Saves\<close>

record 'd v1_db =
  v1_transactions :: "transaction list"
  v1_entries :: "'d ledger_entry list"
  v1_checkpoints :: "indexer_checkpoint list"

definition BATCH_SIZE :: nat where
  "BATCH_SIZE = 500"

definition transaction_key :: "transaction \<Rightarrow> (chain \<times> string \<times> string) option" where
  "transaction_key t = Some (tx_chain t, tx_hash t, tx_wallet_address t)"

definition build_transaction_insert :: "transaction list \<Rightarrow> transaction list \<Rightarrow> transaction list result" where
  "build_transaction_insert = insert_ignoring tx_id transaction_key"

definition save_transactions :: "transaction list \<Rightarrow> transaction list \<Rightarrow> transaction list \<times> string option" where
  "save_transactions txs table = save_chunks build_transaction_insert (chunks BATCH_SIZE txs) table"

text \<open>An inserted entry must refer to a stored transaction.\<close>

definition foreign_key :: string where
  "foreign_key = ''insert or update on table violates foreign key constraint''"

definition build_ledger_insert ::
    "transaction list \<Rightarrow> 'd ledger_entry list \<Rightarrow> 'd ledger_entry list \<Rightarrow> 'd ledger_entry list result" where
  "build_ledger_insert txs chunk table =
     (case insert_ignoring le_id (\<lambda>e. Some (le_id e)) chunk table of
        Inl e \<Rightarrow> Inl e
      | Inr table' \<Rightarrow>
          if list_all (\<lambda>e. le_transaction_id e \<in> set (map tx_id txs)) (drop (length table) table') then Inr table' else Inl foreign_key)"

definition save_ledger_entries :: "'d ledger_entry list \<Rightarrow> 'd v1_db \<Rightarrow> 'd v1_db \<times> string option" where
  "save_ledger_entries entries db =
     (let (table, err) = save_chunks (build_ledger_insert (v1_transactions db)) (chunks BATCH_SIZE entries) (v1_entries db)
      in (db\<lparr>v1_entries := table\<rparr>, err))"

definition same_checkpoint :: "indexer_checkpoint \<Rightarrow> indexer_checkpoint \<Rightarrow> bool" where
  "same_checkpoint c x \<longleftrightarrow> ck_chain x = ck_chain c \<and> ck_wallet_address x = ck_wallet_address c"

definition save_checkpoint :: "indexer_checkpoint \<Rightarrow> 'd v1_db \<Rightarrow> 'd v1_db" where
  "save_checkpoint c db = db\<lparr>v1_checkpoints :=
     (if list_ex (same_checkpoint c) (v1_checkpoints db)
      then map (\<lambda>x. if same_checkpoint c x then c else x) (v1_checkpoints db)
      else v1_checkpoints db @ [c])\<rparr>"

text \<open>One transaction: the chunks and then the checkpoint, or nothing.\<close>

definition save_transactions_and_checkpoint ::
    "transaction list \<Rightarrow> indexer_checkpoint \<Rightarrow> 'd v1_db \<Rightarrow> 'd v1_db result" where
  "save_transactions_and_checkpoint txs c db =
     (case save_transactions txs (v1_transactions db) of
        (table, None) \<Rightarrow> Inr (save_checkpoint c (db\<lparr>v1_transactions := table\<rparr>))
      | (_, Some e) \<Rightarrow> Inl e)"

section \<open>Reads\<close>

definition get_transactions_by_wallet_filtered ::
    "(transaction list \<Rightarrow> transaction list) \<Rightarrow> string \<Rightarrow> int \<Rightarrow> int \<Rightarrow> int option \<Rightarrow> int option \<Rightarrow> 'd v1_db \<Rightarrow> transaction list result" where
  "get_transactions_by_wallet_filtered sc wallet limit offset lo hi db =
     sql_page limit offset (sort_key tx_timestamp
       (sc (filter (\<lambda>t. tx_wallet_address t = wallet \<and> between lo hi (tx_timestamp t)) (v1_transactions db))))"

definition get_transactions_by_wallet_paginated ::
    "(transaction list \<Rightarrow> transaction list) \<Rightarrow> string \<Rightarrow> int \<Rightarrow> int \<Rightarrow> 'd v1_db \<Rightarrow> transaction list result" where
  "get_transactions_by_wallet_paginated sc wallet limit offset = get_transactions_by_wallet_filtered sc wallet limit offset None None"

definition get_transactions_by_wallet :: "(transaction list \<Rightarrow> transaction list) \<Rightarrow> string \<Rightarrow> 'd v1_db \<Rightarrow> transaction list result" where
  "get_transactions_by_wallet sc wallet = get_transactions_by_wallet_paginated sc wallet 1000 0"

text \<open>Without a bound there is no join with the transactions; their ids are unique, so a join keeps an entry once.\<close>

definition entry_in :: "int option \<Rightarrow> int option \<Rightarrow> transaction list \<Rightarrow> 'd ledger_entry \<Rightarrow> bool" where
  "entry_in lo hi txs e \<longleftrightarrow>
     (if lo = None \<and> hi = None then True
      else list_ex (\<lambda>t. tx_id t = le_transaction_id e \<and> between lo hi (tx_timestamp t)) txs)"

definition get_ledger_entries_by_wallet_filtered ::
    "('d ledger_entry list \<Rightarrow> 'd ledger_entry list) \<Rightarrow> string \<Rightarrow> int \<Rightarrow> int \<Rightarrow> int option \<Rightarrow> int option \<Rightarrow> 'd v1_db \<Rightarrow>
     'd ledger_entry list result" where
  "get_ledger_entries_by_wallet_filtered sc wallet limit offset lo hi db =
     sql_page limit offset (sc (filter (\<lambda>e. le_wallet_address e = wallet \<and> entry_in lo hi (v1_transactions db) e) (v1_entries db)))"

definition get_ledger_entries_by_wallet_paginated ::
    "('d ledger_entry list \<Rightarrow> 'd ledger_entry list) \<Rightarrow> string \<Rightarrow> int \<Rightarrow> int \<Rightarrow> 'd v1_db \<Rightarrow> 'd ledger_entry list result" where
  "get_ledger_entries_by_wallet_paginated sc wallet limit offset = get_ledger_entries_by_wallet_filtered sc wallet limit offset None None"

definition get_ledger_entries_by_wallet ::
    "('d ledger_entry list \<Rightarrow> 'd ledger_entry list) \<Rightarrow> string \<Rightarrow> 'd v1_db \<Rightarrow> 'd ledger_entry list result" where
  "get_ledger_entries_by_wallet sc wallet = get_ledger_entries_by_wallet_paginated sc wallet 1000 0"

definition entry_sum :: "string \<Rightarrow> ('d :: linordered_idom) ledger_entry list \<Rightarrow> 'd" where
  "entry_sum a es = sum_list (map le_amount (filter (\<lambda>e. le_asset_symbol e = a) es))"

definition repo_get_balances :: "string \<Rightarrow> int option \<Rightarrow> ('d :: linordered_idom) v1_db \<Rightarrow> (string \<times> 'd) list" where
  "repo_get_balances wallet til db =
     (let es = filter (\<lambda>e. le_wallet_address e = wallet \<and> entry_in None til (v1_transactions db) e) (v1_entries db)
      in filter (\<lambda>(a, v). v \<noteq> 0) (map (\<lambda>a. (a, entry_sum a es)) (sort (remdups (map le_asset_symbol es)))))"

definition get_checkpoint :: "string \<Rightarrow> string \<Rightarrow> 'd v1_db \<Rightarrow> indexer_checkpoint option result" where
  "get_checkpoint chain wallet db =
     map_sum id (\<lambda>c. find (\<lambda>x. ck_chain x = c \<and> ck_wallet_address x = wallet) (v1_checkpoints db)) (str_to_chain chain)"

definition get_transaction_by_hash ::
    "(transaction list \<Rightarrow> transaction list) \<Rightarrow> string \<Rightarrow> string \<Rightarrow> 'd v1_db \<Rightarrow> transaction option" where
  "get_transaction_by_hash sc wallet hash db =
     first_row (sc (filter (\<lambda>t. tx_wallet_address t = wallet \<and> tx_hash t = hash) (v1_transactions db)))"

record wallet_stats_row =
  wsr_tx_count :: int
  wsr_earliest_timestamp :: "int option"
  wsr_latest_timestamp :: "int option"
  wsr_chain_count :: int
  wsr_unique_assets :: int
  wsr_per_chain :: "(string \<times> int) list"

text \<open>The chains are grouped and ordered as values of the enumeration, in the order of its declaration.\<close>

definition repo_get_wallet_stats :: "string \<Rightarrow> 'd v1_db \<Rightarrow> wallet_stats_row" where
  "repo_get_wallet_stats wallet db =
     (let txs = filter (\<lambda>t. tx_wallet_address t = wallet) (v1_transactions db);
          per_chain = map (\<lambda>c. (chain_to_str c, int (length (filter (\<lambda>t. tx_chain t = c) txs))))
            (filter (\<lambda>c. c \<in> set (map tx_chain txs)) [Chain_Solana, Chain_Hyperliquid, Chain_Ethereum])
      in \<lparr>wsr_tx_count = int (length txs), wsr_earliest_timestamp = min_opt (map tx_timestamp txs),
          wsr_latest_timestamp = max_opt (map tx_timestamp txs), wsr_chain_count = int (length per_chain),
          wsr_unique_assets = int (length (remdups (map le_asset_symbol (filter (\<lambda>e. le_wallet_address e = wallet) (v1_entries db))))),
          wsr_per_chain = per_chain\<rparr>)"

section \<open>Dual writes\<close>

text \<open>
  The legacy write decides the outcome; the Bronze write after it is attempted once and its failure only logged.
  \<open>lost\<close> says that the Bronze connection fails, \<open>mid\<close> and \<open>cid\<close> are fresh ids.
\<close>

definition v2_attempt ::
    "bool \<Rightarrow> (uuid \<Rightarrow> uuid) \<Rightarrow> timestamp \<Rightarrow> transaction list \<Rightarrow> uuid \<Rightarrow> string option \<Rightarrow> bronze_db \<Rightarrow> bronze_db" where
  "v2_attempt lost mid now txs target explicit b = (if lost then b else snd (v2_write_transactions mid now txs target explicit b))"

definition v2_checkpoint_attempt :: "bool \<Rightarrow> uuid \<Rightarrow> timestamp \<Rightarrow> indexer_checkpoint \<Rightarrow> uuid \<Rightarrow> string option \<Rightarrow> bronze_db \<Rightarrow> bronze_db" where
  "v2_checkpoint_attempt lost cid now cp target explicit b =
     (if lost then b else upsert_checkpoint_v2 (v1_checkpoint_to_v2_with_network cid now cp target explicit) b)"

definition save_transactions_dual_write ::
    "bool \<Rightarrow> (uuid \<Rightarrow> uuid) \<Rightarrow> timestamp \<Rightarrow> transaction list \<Rightarrow> uuid \<Rightarrow> string option \<Rightarrow> 'd v1_db \<times> bronze_db \<Rightarrow>
     string option \<times> 'd v1_db \<times> bronze_db" where
  "save_transactions_dual_write lost mid now txs target explicit = (\<lambda>(db, b).
     case save_transactions txs (v1_transactions db) of
       (table, Some e) \<Rightarrow> (Some e, db\<lparr>v1_transactions := table\<rparr>, b)
     | (table, None) \<Rightarrow> (None, db\<lparr>v1_transactions := table\<rparr>, v2_attempt lost mid now txs target explicit b))"

definition save_checkpoint_dual_write ::
    "bool \<Rightarrow> uuid \<Rightarrow> timestamp \<Rightarrow> indexer_checkpoint \<Rightarrow> uuid \<Rightarrow> string option \<Rightarrow> 'd v1_db \<times> bronze_db \<Rightarrow> 'd v1_db \<times> bronze_db" where
  "save_checkpoint_dual_write lost cid now cp target explicit = (\<lambda>(db, b).
     (save_checkpoint cp db, v2_checkpoint_attempt lost cid now cp target explicit b))"

definition save_transactions_and_checkpoint_dual_write ::
    "bool \<Rightarrow> bool \<Rightarrow> (uuid \<Rightarrow> uuid) \<Rightarrow> uuid \<Rightarrow> timestamp \<Rightarrow> transaction list \<Rightarrow> indexer_checkpoint \<Rightarrow> uuid \<Rightarrow> string option \<Rightarrow>
     'd v1_db \<times> bronze_db \<Rightarrow> string option \<times> 'd v1_db \<times> bronze_db" where
  "save_transactions_and_checkpoint_dual_write lost lost_cp mid cid now txs cp target explicit = (\<lambda>(db, b).
     case save_transactions_and_checkpoint txs cp db of
       Inl e \<Rightarrow> (Some e, db, b)
     | Inr db' \<Rightarrow> (None, db', v2_checkpoint_attempt lost_cp cid now cp target explicit (v2_attempt lost mid now txs target explicit b)))"

section \<open>Checkpoints follow transactions\<close>

lemma save_transactions_ignoring: "save_transactions = save_ignoring tx_id transaction_key"
  by (simp add: fun_eq_iff save_transactions_def build_transaction_insert_def save_ignoring_def BATCH_SIZE_def V2_BATCH_SIZE_def)

interpretation legacy_transactions: dedup_table save_transactions transaction_key
  unfolding save_transactions_ignoring by (rule save_ignoring_dedup)

lemma get_saved_checkpoint:
  "get_checkpoint (chain_to_str (ck_chain c)) (ck_wallet_address c) (save_checkpoint c db) = Inr (Some c)"
proof -
  have "find (\<lambda>x. ck_chain x = ck_chain c \<and> ck_wallet_address x = ck_wallet_address c)
      (map (\<lambda>x. if same_checkpoint c x then c else x) cs) = (if list_ex (same_checkpoint c) cs then Some c else None)" for cs
    by (induction cs) (auto simp: same_checkpoint_def)
  moreover have "find (\<lambda>x. ck_chain x = ck_chain c \<and> ck_wallet_address x = ck_wallet_address c) (cs @ [c]) = Some c"
    if "\<not> list_ex (same_checkpoint c) cs" for cs
    using that by (induction cs) (auto simp: same_checkpoint_def)
  ultimately show ?thesis by (simp add: get_checkpoint_def save_checkpoint_def)
qed

text \<open>
  A legacy batch is stored with its checkpoint or not at all. When the dual write reports an error, neither store has
  changed; when it does not, every transaction of the batch is in the legacy table and the checkpoint read back is
  the new one, whatever happened to the Bronze write.
\<close>

theorem legacy_batch_atomic:
  assumes "save_transactions_and_checkpoint_dual_write lost lost_cp mid cid now txs cp target explicit (db, b) = (err, db', b')"
  shows "(err \<noteq> None \<longrightarrow> db' = db \<and> b' = b)
    \<and> (err = None \<longrightarrow> (\<forall>t \<in> set txs. transaction_key t \<in> transaction_key ` set (v1_transactions db'))
        \<and> get_checkpoint (chain_to_str (ck_chain cp)) (ck_wallet_address cp) db' = Inr (Some cp))"
proof (cases "snd (save_transactions txs (v1_transactions db))")
  case None
  define table where "table = fst (save_transactions txs (v1_transactions db))"
  have saved: "save_transactions txs (v1_transactions db) = (table, None)" using None by (simp add: table_def prod_eq_iff)
  then have db': "err = None" "db' = save_checkpoint cp (db\<lparr>v1_transactions := table\<rparr>)"
    using assms by (simp_all add: save_transactions_and_checkpoint_dual_write_def save_transactions_and_checkpoint_def)
  have "transaction_key t \<in> transaction_key ` set (v1_transactions db')" if "t \<in> set txs" for t
    using legacy_transactions.save_covers [OF None that] db'(2) saved by (simp add: save_checkpoint_def)
  with db' get_saved_checkpoint show ?thesis by simp
next
  case (Some e)
  then have "save_transactions_and_checkpoint txs cp db = Inl e"
    by (cases "save_transactions txs (v1_transactions db)") (simp add: save_transactions_and_checkpoint_def)
  with assms show ?thesis by (auto simp: save_transactions_and_checkpoint_dual_write_def)
qed

text \<open>
  The Bronze side has no such guarantee: the checkpoint is advanced although the transactions before it were not written.
\<close>

lemma bronze_checkpoint_ahead:
  assumes "save_transactions_and_checkpoint txs cp db = Inr db'"
  shows "\<exists>b'. save_transactions_and_checkpoint_dual_write True False mid cid now txs cp target explicit (db, b) = (None, db', b')
    \<and> br_raws b' = br_raws b \<and> list_ex (\<lambda>c. cp_target_id c = target \<and> cp_cursor c = build_v2_cursor cp) (br_checkpoints b')"
proof -
  let ?c = "v1_checkpoint_to_v2_with_network cid now cp target explicit"
  have c: "cp_target_id ?c = target" "cp_cursor ?c = build_v2_cursor cp" by (simp_all add: v1_checkpoint_to_v2_with_network_def)
  have "same_cursor ?c x \<Longrightarrow> cp_target_id x = target" for x by (simp add: same_cursor_def c)
  then have "list_ex (same_cursor ?c) cs \<Longrightarrow> list_ex (\<lambda>c. cp_target_id c = target \<and> cp_cursor c = build_v2_cursor cp)
      (map (\<lambda>x. if same_cursor ?c x then x\<lparr>cp_cursor := cp_cursor ?c, cp_updated_at := t\<rparr> else x) cs)" for cs t
    by (induction cs) (auto simp: c)
  then have "list_ex (\<lambda>c. cp_target_id c = target \<and> cp_cursor c = build_v2_cursor cp) (br_checkpoints (upsert_checkpoint_v2 ?c b))"
    unfolding upsert_checkpoint_v2_def by (simp add: c(1)) (simp add: c(2))
  with assms show ?thesis
    by (simp add: save_transactions_and_checkpoint_dual_write_def v2_attempt_def v2_checkpoint_attempt_def upsert_checkpoint_v2_def)
qed

section \<open>Balances count an entry once\<close>

lemma insert_fresh:
  "distinct (map le_id rs) \<Longrightarrow> set (map le_id rs) \<inter> set (map le_id table) = {} \<Longrightarrow>
   insert_ignoring le_id (\<lambda>e. Some (le_id e)) rs table = Inr (table @ rs)"
proof (induction rs arbitrary: table)
  case (Cons r rs)
  then have "insert_ignoring le_id (\<lambda>e. Some (le_id e)) rs (table @ [r]) = Inr ((table @ [r]) @ rs)"
    by (intro Cons.IH) auto
  with Cons.prems show ?case by (auto simp: conflicts_def)
qed simp

lemma save_entries_fresh:
  "distinct (map le_id (concat cs)) \<Longrightarrow> set (map le_id (concat cs)) \<inter> set (map le_id table) = {} \<Longrightarrow>
   save_chunks (build_ledger_insert txs) cs table = (table', None) \<Longrightarrow> table' = table @ concat cs"
proof (induction cs arbitrary: table)
  case (Cons c cs)
  have ins: "insert_ignoring le_id (\<lambda>e. Some (le_id e)) c table = Inr (table @ c)"
    using Cons.prems(1,2) by (intro insert_fresh) auto
  then have "save_chunks (build_ledger_insert txs) cs (table @ c) = (table', None)"
    using Cons.prems(3) by (simp add: build_ledger_insert_def [of _ c table] split: if_splits)
  moreover have "distinct (map le_id (concat cs))" "set (map le_id (concat cs)) \<inter> set (map le_id (table @ c)) = {}"
    using Cons.prems(1,2) by (simp_all add: image_Un) blast
  ultimately have "table' = (table @ c) @ concat cs" by (intro Cons.IH)
  then show ?case by simp
qed simp

lemma save_entries_known:
  "set (map le_id (concat cs)) \<subseteq> set (map le_id table) \<Longrightarrow> save_chunks (build_ledger_insert txs) cs table = (table, None)"
proof (induction cs)
  case (Cons c cs)
  have "insert_ignoring le_id (\<lambda>e. Some (le_id e)) c table = Inr table"
    using Cons.prems by (intro insert_ignoring_known) (auto simp: conflicts_def)
  with Cons show ?case by (simp add: build_ledger_insert_def [of _ c table])
qed simp

lemma entry_sum_append: "entry_sum a (es @ fs) = entry_sum a es + entry_sum a fs"
  by (simp add: entry_sum_def)

lemma balance_of_entries:
  "balance_of (repo_get_balances wallet None db) a = entry_sum a (filter (\<lambda>e. le_wallet_address e = wallet) (v1_entries db))"
proof -
  let ?es = "filter (\<lambda>e. le_wallet_address e = wallet) (v1_entries db)"
  have "entry_sum a ?es = 0" if "a \<notin> le_asset_symbol ` set ?es"
  proof -
    have "filter (\<lambda>e. le_asset_symbol e = a) ?es = []" using that by (auto simp: filter_empty_conv)
    then show ?thesis unfolding entry_sum_def by (simp only: list.map sum_list.Nil)
  qed
  then show ?thesis by (auto simp: repo_get_balances_def entry_in_def Let_def map_of_nonzero)
qed

text \<open>
  Saved ledger entries are counted once in the legacy balances. Saving new entries with distinct ids moves the balance
  of every wallet and asset by the sum of their amounts, and saving them again, as a repeated normalization
  does, changes nothing.
\<close>

theorem legacy_balances_count_once:
  assumes "save_ledger_entries es db = (db', None)" "distinct (map le_id es)"
    "set (map le_id es) \<inter> set (map le_id (v1_entries db)) = {}"
  shows "balance_of (repo_get_balances wallet None db') a =
        balance_of (repo_get_balances wallet None db) a + entry_sum a (filter (\<lambda>e. le_wallet_address e = wallet) es)
    \<and> save_ledger_entries es db' = (db', None)"
proof -
  have cat: "concat (chunks BATCH_SIZE es) = es" by (rule concat_chunks) (simp add: BATCH_SIZE_def)
  obtain table where table: "save_chunks (build_ledger_insert (v1_transactions db)) (chunks BATCH_SIZE es) (v1_entries db) = (table, None)"
    "db' = db\<lparr>v1_entries := table\<rparr>"
    using assms(1) by (auto simp: save_ledger_entries_def Let_def split: prod.splits)
  have "table = v1_entries db @ es" using save_entries_fresh [OF _ _ table(1)] assms(2,3) by (simp add: cat)
  moreover have "save_chunks (build_ledger_insert (v1_transactions db)) (chunks BATCH_SIZE es) (v1_entries db @ es) = (v1_entries db @ es, None)"
    by (rule save_entries_known) (simp add: cat flip: set_concat map_concat)
  ultimately show ?thesis
    by (simp add: table(2) save_ledger_entries_def balance_of_entries entry_sum_append)
qed

definition empty_v1 :: "int v1_db" where
  "empty_v1 = \<lparr>v1_transactions = [sample_tx], v1_entries = [], v1_checkpoints = []\<rparr>"

definition sample_v1_entry :: "uuid \<Rightarrow> int \<Rightarrow> int ledger_entry" where
  "sample_v1_entry i n = \<lparr>le_id = i, le_transaction_id = tx_id sample_tx, le_user_id = 1, le_wallet_address = ''0xab'', le_asset_symbol = ''ETH'',
     le_amount = n, le_entry_type = ET_Transfer, le_fiat_value = None\<rparr>"

definition sample_cp :: indexer_checkpoint where
  "sample_cp = \<lparr>ck_chain = Chain_Ethereum, ck_wallet_address = ''0xab'', ck_last_signature = None, ck_last_slot = None,
     ck_last_block = Some 9, ck_last_timestamp = Some 5\<rparr>"

theorem legacy_balances_count_once_witness:
  "let es = [sample_v1_entry 1 5, sample_v1_entry 2 (- 2)]; db = fst (save_ledger_entries es empty_v1)
   in balance_of (repo_get_balances ''0xab'' None db) ''ETH'' = 3 \<and> save_ledger_entries es db = (db, None)"
proof -
  let ?es = "[sample_v1_entry 1 5, sample_v1_entry 2 (- 2)]"
  have err: "snd (save_ledger_entries ?es empty_v1) = None" by code_simp
  then have save: "save_ledger_entries ?es empty_v1 = (fst (save_ledger_entries ?es empty_v1), None)" by (simp add: prod_eq_iff)
  have "distinct (map le_id ?es)" "set (map le_id ?es) \<inter> set (map le_id (v1_entries empty_v1)) = {}"
    by (simp_all add: sample_v1_entry_def empty_v1_def)
  note once = legacy_balances_count_once [OF save this, of "''0xab''" "''ETH''"]
  have "balance_of (repo_get_balances ''0xab'' None empty_v1) ''ETH'' = 0" "entry_sum ''ETH'' (filter (\<lambda>e. le_wallet_address e = ''0xab'') ?es) = 3"
    by code_simp+
  with once show ?thesis by (simp add: Let_def)
qed

theorem legacy_batch_atomic_witness:
  "get_checkpoint ''ethereum'' ''0xab'' (fst (snd (save_transactions_and_checkpoint_dual_write True True (\<lambda>i. i) 4 0 [sample_tx] sample_cp 3 None
      (empty_v1, empty_bronze)))) = Inr (Some sample_cp)"
proof -
  let ?w = "save_transactions_and_checkpoint_dual_write True True (\<lambda>i. i) 4 0 [sample_tx] sample_cp 3 None (empty_v1, empty_bronze)"
  have "fst ?w = None" by code_simp
  moreover have "?w = (fst ?w, fst (snd ?w), snd (snd ?w))" by simp
  from legacy_batch_atomic [OF this] calculation show ?thesis by (simp add: sample_cp_def)
qed

end
