(* ===== verification/Legacy_Silver.thy ===== *)
theory Legacy_Silver
  imports Materialize Legacy_Repo
begin

text \<open>
  \<open>materialize_silver_datasets\<close> of \<open>adapters/src/dual_write.rs\<close>: the Silver stage of the legacy path. It starts from
  legacy transactions, which carry a chain but no network, recovers the network from Bronze, back-fills missing raw
  transactions and matches, extracts the records by chain and writes the six Silver tables. The environment is that
  of the Bronze path; the record below holds the further random ids and the order of the map of wallets.
\<close>

section \<open>Bronze lookups\<close>

definition lookup_raw_tx_networks_by_hashes ::
    "(raw_transaction list \<Rightarrow> raw_transaction list) \<Rightarrow> string list \<Rightarrow> raw_transaction list \<Rightarrow> (string \<times> (uuid \<times> string) list) list" where
  "lookup_raw_tx_networks_by_hashes sc hashes raws =
     filter (\<lambda>(h, es). es \<noteq> [])
       (map (\<lambda>h. (h, map (\<lambda>r. (raw_id r, raw_network r)) (sc (filter (\<lambda>r. raw_tx_hash r = h) raws)))) hashes)"

definition lookup_raw_transaction_ids :: "(string \<times> string) list \<Rightarrow> raw_transaction list \<Rightarrow> (string \<times> string) \<rightharpoonup> uuid" where
  "lookup_raw_transaction_ids pairs raws =
     (\<lambda>k. if k \<in> set pairs then map_option raw_id (find (\<lambda>r. raw_key r = k) raws) else None)"

text \<open>One transaction of inserts that ignore known hashes, each chunk followed by its links to ingestion runs.\<close>

fun save_raw_chunks ::
    "raw_transaction list list \<Rightarrow> raw_transaction list \<times> (uuid \<times> uuid) list \<Rightarrow> (raw_transaction list \<times> (uuid \<times> uuid) list) result" where
  "save_raw_chunks [] st = Inr st"
| "save_raw_chunks (c # cs) (table, links) =
     (case insert_ignoring raw_id (\<lambda>r. Some (raw_key r)) c table of
        Inl e \<Rightarrow> Inl e
      | Inr t \<Rightarrow> save_raw_chunks cs (t, fold (link_run_input t) c links))"

definition save_raw_transactions ::
    "raw_transaction list \<Rightarrow> raw_transaction list \<times> (uuid \<times> uuid) list \<Rightarrow> (raw_transaction list \<times> (uuid \<times> uuid) list) result" where
  "save_raw_transactions rs st = save_raw_chunks (chunks V2_BATCH_SIZE rs) st"

section \<open>The steps\<close>

record legacy_env =
  lv_scan :: "raw_transaction list \<Rightarrow> raw_transaction list"
  lv_groups :: "((string \<times> string) \<times> transaction list) list \<Rightarrow> ((string \<times> string) \<times> transaction list) list"
  lv_target_id :: "string \<times> string \<Rightarrow> uuid"
  lv_match_id :: "string \<times> string \<Rightarrow> uuid \<Rightarrow> uuid"
  lv_completeness_id :: "uuid \<times> string \<times> string \<Rightarrow> uuid"

record silver_materialization_result =
  smr_token_transfers_written :: nat
  smr_token_transfers_failed :: nat
  smr_native_balance_deltas_written :: nat
  smr_native_balance_deltas_failed :: nat
  smr_decoded_events_written :: nat
  smr_decoded_events_failed :: nat
  smr_hl_fills_written :: nat
  smr_hl_fills_failed :: nat
  smr_hl_funding_written :: nat
  smr_hl_funding_failed :: nat
  smr_hl_positions_written :: nat
  smr_hl_positions_failed :: nat
  smr_skipped_ambiguous :: nat

definition skipped_result :: "nat \<Rightarrow> silver_materialization_result" where
  "skipped_result n = \<lparr>smr_token_transfers_written = 0, smr_token_transfers_failed = 0, smr_native_balance_deltas_written = 0,
     smr_native_balance_deltas_failed = 0, smr_decoded_events_written = 0, smr_decoded_events_failed = 0, smr_hl_fills_written = 0,
     smr_hl_fills_failed = 0, smr_hl_funding_written = 0, smr_hl_funding_failed = 0, smr_hl_positions_written = 0,
     smr_hl_positions_failed = 0, smr_skipped_ambiguous = n\<rparr>"

definition total_written :: "silver_materialization_result \<Rightarrow> nat" where
  "total_written r = smr_token_transfers_written r + smr_native_balance_deltas_written r + smr_decoded_events_written r
     + smr_hl_fills_written r + smr_hl_funding_written r + smr_hl_positions_written r"

definition total_failed :: "silver_materialization_result \<Rightarrow> nat" where
  "total_failed r = smr_token_transfers_failed r + smr_native_balance_deltas_failed r + smr_decoded_events_failed r
     + smr_hl_fills_failed r + smr_hl_funding_failed r + smr_hl_positions_failed r"

definition legacy_succeeded :: "silver_materialization_result \<Rightarrow> bool" where
  "legacy_succeeded r \<longleftrightarrow> total_failed r = 0 \<and> smr_skipped_ambiguous r = 0"

text \<open>Step 0: the network of each hash, and the number of transactions without an authoritative one.\<close>

definition bronze_network_map ::
    "'d mat_env \<Rightarrow> legacy_env \<Rightarrow> string option \<Rightarrow> transaction list \<Rightarrow> raw_transaction list \<Rightarrow> (string \<times> string list) list" where
  "bronze_network_map env lv explicit txs raws =
     (if explicit \<noteq> None \<or> me_down env ''raw_networks'' [] then []
      else map (\<lambda>(h, es). (h, map snd es)) (lookup_raw_tx_networks_by_hashes (lv_scan lv) (remdups (map tx_hash txs)) raws))"

definition resolved_networks :: "string option \<Rightarrow> (string \<times> string list) list \<Rightarrow> transaction list \<Rightarrow> (string \<rightharpoonup> string) \<times> nat" where
  "resolved_networks explicit bronze txs =
     fold (\<lambda>tx (resolved, skipped).
         let (network, inferred) = resolve_effective_network tx explicit bronze
         in if inferred then (resolved, Suc skipped) else (resolved(tx_hash tx \<mapsto> network), skipped)) txs (Map.empty, 0)"

text \<open>Step 1: the ids of the raw transactions; missing ones are back-filled.\<close>

definition tx_pairs :: "(string \<rightharpoonup> string) \<Rightarrow> transaction list \<Rightarrow> (string \<times> string) list" where
  "tx_pairs resolved txs = remdups (List.map_filter (\<lambda>tx. map_option (\<lambda>n. (n, tx_hash tx)) (resolved (tx_hash tx))) txs)"

definition backfill_raws ::
    "'d mat_env \<Rightarrow> (string \<rightharpoonup> string) \<Rightarrow> transaction list \<Rightarrow> raw_transaction list \<Rightarrow> ((string \<times> string) \<rightharpoonup> uuid) \<times> raw_transaction list" where
  "backfill_raws env resolved txs raws =
     (let ids = (if me_down env ''raw_ids'' [] then Map.empty else lookup_raw_transaction_ids (tx_pairs resolved txs) raws);
          missing = filter (\<lambda>tx. case resolved (tx_hash tx) of Some n \<Rightarrow> ids (n, tx_hash tx) = None | None \<Rightarrow> False) txs;
          rows = List.map_filter (\<lambda>tx. map_option (\<lambda>n. v1_tx_to_v2_raw (me_now env) tx (Some n)) (resolved (tx_hash tx))) missing
      in if missing = [] then (ids, raws)
         else case (if me_cut env ''raw_transactions'' = None then save_raw_transactions rows (raws, []) else Inl lost_connection) of
             Inl _ \<Rightarrow> (ids, raws)
           | Inr (raws', _) \<Rightarrow>
               (if me_down env ''raw_ids_again'' [] then ids else ids ++ lookup_raw_transaction_ids (tx_pairs resolved missing) raws', raws'))"

text \<open>Step 1c: the wallet target of every group, created when it is missing, and the matches of its transactions.\<close>

definition chain_of_network :: "string \<Rightarrow> chain" where
  "chain_of_network n = (if n = ''solana-mainnet'' then Chain_Solana else if n = ''hypercore-mainnet'' then Chain_Hyperliquid else Chain_Ethereum)"

definition backfill_matches ::
    "'d mat_env \<Rightarrow> legacy_env \<Rightarrow> ((string \<times> string) \<rightharpoonup> uuid) \<Rightarrow> (string \<rightharpoonup> string) \<Rightarrow> transaction list \<Rightarrow>
     targets \<times> target_match list \<Rightarrow> targets \<times> target_match list" where
  "backfill_matches env lv ids resolved txs =
     fold (\<lambda>((network, wallet), grp) (ts, ms).
         let found = (if me_down env ''target'' network then (Inl lost_connection, ts)
                else case get_index_target_by_address TK_Wallet network wallet None ts of
                    Some t \<Rightarrow> (Inr t, ts)
                  | None \<Rightarrow> ensure_wallet_target_for_network (lv_target_id lv (network, wallet)) (me_now env) network
                              (chain_of_network network) wallet None ts)
         in case found of
              (Inl _, ts') \<Rightarrow> (ts', ms)
            | (Inr t, ts') \<Rightarrow>
                (let raw_ids = List.map_filter (\<lambda>tx. Option.bind (resolved (tx_hash tx)) (\<lambda>n. ids (n, tx_hash tx))) grp
                 in if raw_ids = [] \<or> me_cut env ''target_matches'' \<noteq> None then (ts', ms)
                    else (ts', fold insert_match (target_matches (lv_match_id lv (network, wallet)) (me_now env) ''sender'' (it_id t) raw_ids) ms)))
       (lv_groups lv (wallet_groups resolved txs))"

text \<open>Step 3: extraction by the chain of the transaction.\<close>

definition silver_of_tx :: "('d :: linordered_idom) mat_env \<Rightarrow> uuid option \<Rightarrow> string \<Rightarrow> transaction \<Rightarrow> 'd silver_batch option" where
  "silver_of_tx env i network tx =
     (let m = tx_raw_metadata tx; wallet = tx_wallet_address tx
      in case tx_chain tx of
           Chain_Solana \<Rightarrow>
             Some \<lparr>sb_transfers = extract_solana_token_transfers (me_dec env) (me_scale env) (\<lambda>_. 0) 0 i network m,
                   sb_native = extract_solana_native_balance_deltas (me_dec env) (me_scale env) (\<lambda>_. 0) 0 i network m,
                   sb_events = extract_solana_decoded_events (me_dec env) (\<lambda>_. 0) 0 i network m,
                   sb_fills = [], sb_funding = [], sb_positions = []\<rparr>
         | Chain_Ethereum \<Rightarrow>
             map_option (\<lambda>ts. \<lparr>sb_transfers = ts, sb_native = [],
                   sb_events = extract_evm_decoded_events (me_print env) (\<lambda>_. 0) 0 i network m,
                   sb_fills = [], sb_funding = [], sb_positions = []\<rparr>)
               (extract_evm_token_transfers (me_quo env) (\<lambda>_. 0) 0 i network m)
         | Chain_Hyperliquid \<Rightarrow>
             Some \<lparr>sb_transfers = extract_hyperliquid_token_transfers (me_bd env) 0 0 i network wallet m,
                   sb_native = extract_hyperliquid_native_balance_deltas (me_bd env) 0 0 i network wallet m,
                   sb_events = [],
                   sb_fills = extract_hl_fill_records (me_bd env) 0 0 i network m,
                   sb_funding = extract_hl_funding_payments (me_bd env) 0 0 i network m,
                   sb_positions = extract_hl_position_changes (me_bd env) 0 0 i network m\<rparr>)"

fun silver_of_txs ::
    "('d :: linordered_idom) mat_env \<Rightarrow> ((string \<times> string) \<rightharpoonup> uuid) \<Rightarrow> (string \<rightharpoonup> string) \<Rightarrow> transaction list \<Rightarrow> 'd silver_batch option" where
  "silver_of_txs env ids resolved [] = Some empty_batch"
| "silver_of_txs env ids resolved (tx # txs) =
     (case resolved (tx_hash tx) of
        None \<Rightarrow> silver_of_txs env ids resolved txs
      | Some n \<Rightarrow>
          (case silver_of_tx env (ids (n, tx_hash tx)) n tx of
             None \<Rightarrow> None
           | Some b \<Rightarrow> map_option (append_batch b) (silver_of_txs env ids resolved txs)))"

text \<open>Step 4: one table, with the number of records written and failed.\<close>

definition write_legacy ::
    "nat option \<Rightarrow> ('r list \<Rightarrow> 'r list \<Rightarrow> 'r list \<times> string option) \<Rightarrow> 'r list \<Rightarrow> 'r list \<Rightarrow> 'r list \<times> nat \<times> nat" where
  "write_legacy lost save rs table =
     (if rs = [] then (table, 0, 0)
      else case cut_save lost save rs table of
          (table', None) \<Rightarrow> (table', length rs, 0)
        | (table', Some _) \<Rightarrow> (table', 0, length rs))"

definition write_legacy_silver :: "'d mat_env \<Rightarrow> 'd silver_batch \<Rightarrow> nat \<Rightarrow> 'd dataset_db \<Rightarrow> silver_materialization_result \<times> 'd dataset_db" where
  "write_legacy_silver env b skipped d =
     (let (transfers, w1, f1) = write_legacy (me_cut env ''token_transfers'') save_token_transfers (sb_transfers b) (db_transfers d);
          (native, w2, f2) = write_legacy (me_cut env ''native_balance_deltas'') save_native_balance_deltas (sb_native b) (db_native d);
          (events, w3, f3) = write_legacy (me_cut env ''decoded_events'') save_decoded_events (sb_events b) (db_events d);
          (fills, w4, f4) = write_legacy (me_cut env (as_sql_str DS_HlFills)) save_hl_fill_records (sb_fills b) (db_fills d);
          (funding, w5, f5) = write_legacy (me_cut env (as_sql_str DS_HlFunding)) save_hl_funding_payments (sb_funding b) (db_funding d);
          (positions, w6, f6) = write_legacy (me_cut env (as_sql_str DS_Positions)) save_hl_position_changes (sb_positions b) (db_positions d)
      in (\<lparr>smr_token_transfers_written = w1, smr_token_transfers_failed = f1, smr_native_balance_deltas_written = w2,
           smr_native_balance_deltas_failed = f2, smr_decoded_events_written = w3, smr_decoded_events_failed = f3,
           smr_hl_fills_written = w4, smr_hl_fills_failed = f4, smr_hl_funding_written = w5, smr_hl_funding_failed = f5,
           smr_hl_positions_written = w6, smr_hl_positions_failed = f6, smr_skipped_ambiguous = skipped\<rparr>,
          d\<lparr>db_transfers := transfers, db_native := native, db_events := events, db_fills := fills,
            db_funding := funding, db_positions := positions\<rparr>))"

definition batch_size :: "'d silver_batch \<Rightarrow> nat" where
  "batch_size b = length (sb_transfers b) + length (sb_native b) + length (sb_events b) + length (sb_fills b)
     + length (sb_funding b) + length (sb_positions b)"

text \<open>The result is \<open>None\<close> when an extractor panics.\<close>

definition materialize_silver_datasets ::
    "('d :: linordered_idom) mat_env \<Rightarrow> legacy_env \<Rightarrow> transaction list \<Rightarrow> string option \<Rightarrow> 'd mat_db \<Rightarrow>
     silver_materialization_result option \<times> 'd mat_db" where
  "materialize_silver_datasets env lv txs explicit db =
     (if txs = [] then (Some (skipped_result 0), db)
      else
        let d = md_db db;
            (resolved, skipped) = resolved_networks explicit (bronze_network_map env lv explicit txs (db_raws d)) txs;
            (ids, raws) = backfill_raws env resolved txs (db_raws d);
            (ts, ms) = backfill_matches env lv ids resolved txs (db_targets d, db_matches d);
            (versions, dvs) = resolve_silver_dataset_versions (me_down env ''version'') (me_version_id env) (me_now env) (md_versions db);
            d1 = d\<lparr>db_raws := raws, db_targets := ts, db_matches := ms\<rparr>;
            db1 = db\<lparr>md_db := d1, md_versions := dvs\<rparr>
        in case silver_of_txs env ids resolved txs of
             None \<Rightarrow> (None, db1)
           | Some b0 \<Rightarrow>
               if batch_size b0 = 0 then (Some (skipped_result skipped), db1)
               else
                 let b = stamp_batch env versions b0;
                     (res, d2) = write_legacy_silver env b skipped d1
                 in (Some res, db1\<lparr>md_db := d2, md_completeness :=
                      update_silver_completeness (lv_groups lv) (lv_completeness_id lv) (me_now env) (me_down env ''target_of'') ts txs versions
                        (batch_size b) resolved (md_completeness db1)\<rparr>))"

section \<open>Both paths extract the same records\<close>

lemma starts_with_clash: "starts_with n p \<Longrightarrow> take (length q) p \<noteq> take (length p) q \<Longrightarrow> \<not> starts_with n q"
  unfolding starts_with_def by (metis min.commute take_take)

lemma evm_network:
  assumes "chain_family_for_network n = Some CF_Evm"
  shows "\<not> starts_with n ''solana''" "\<not> is_hyperliquid n"
proof -
  let ?ps = "[''ethereum-'', ''base-'', ''arbitrum-'', ''hyperevm-'', ''optimism-'', ''polygon-'', ''scroll-'', ''zksync-'', ''linea-'', ''mantle-'', ''blast-'']"
  have "list_ex (starts_with n) ?ps" using assms by (simp add: chain_family_for_network_def split: if_splits)
  then obtain p where p: "p \<in> set ?ps" "starts_with n p" unfolding list_ex_iff by blast
  have "list_all (\<lambda>p. list_all (\<lambda>q. take (length q) p \<noteq> take (length p) q) [''solana'', ''hypercore'', ''hyperliquid'']) ?ps" by code_simp
  with p(1) have "list_all (\<lambda>q. take (length q) p \<noteq> take (length p) q) [''solana'', ''hypercore'', ''hyperliquid'']"
    unfolding list_all_iff [of _ ?ps] by blast
  then show "\<not> starts_with n ''solana''" "\<not> is_hyperliquid n"
    using starts_with_clash [OF p(2)] by (simp_all only: list.pred_inject(2) conj_assoc simp_thms de_Morgan_disj)
qed

lemma network_branch:
  assumes "chain_family_for_network n = Some f"
  shows "starts_with n ''solana'' \<longleftrightarrow> f = CF_Solana" "is_hyperliquid n \<longleftrightarrow> f = CF_Hyperliquid"
proof -
  have "(starts_with n ''solana'' \<longleftrightarrow> f = CF_Solana) \<and> (is_hyperliquid n \<longleftrightarrow> f = CF_Hyperliquid)"
  proof (cases f)
    case CF_Solana
    then have s: "starts_with n ''solana-''" using assms by (simp add: chain_family_for_network_def split: if_splits)
    then have "starts_with n ''solana''" using starts_with_prefix [of n "''solana''" "''-''"] by simp
    moreover have "\<not> is_hyperliquid n"
      using starts_with_clash [OF s, of "''hypercore''"] starts_with_clash [OF s, of "''hyperliquid''"] by simp
    ultimately show ?thesis using CF_Solana by simp
  next
    case CF_Evm
    with assms evm_network show ?thesis by simp
  next
    case CF_Hyperliquid
    then have s: "starts_with n ''hypercore-''" using assms by (simp add: chain_family_for_network_def split: if_splits)
    then have "starts_with n ''hypercore''" using starts_with_prefix [of n "''hypercore''" "''-''"] by simp
    moreover have "\<not> starts_with n ''solana''" using starts_with_clash [OF s, of "''solana''"] by simp
    ultimately show ?thesis using CF_Hyperliquid by simp
  qed
  then show "starts_with n ''solana'' \<longleftrightarrow> f = CF_Solana" "is_hyperliquid n \<longleftrightarrow> f = CF_Hyperliquid" by blast+
qed

text \<open>
  The legacy and the Bronze path extract the same records. For a transaction on a network of its own chain, the
  extraction by chain gives what the extraction by network gives for its raw transaction.
\<close>

theorem legacy_extraction_agrees:
  assumes "chain_family_for_network n = Some (chain_family_from_chain (tx_chain tx))"
  shows "silver_of_tx env (Some i) n tx =
    silver_of_raw env (tx_wallet_address tx) ((v1_tx_to_v2_raw now tx (Some n))\<lparr>raw_id := i\<rparr>)"
  using network_branch [OF assms]
  by (cases "tx_chain tx") (auto simp: silver_of_tx_def silver_of_raw_def v1_tx_to_v2_raw_def network_or_default_def Let_def)

theorem legacy_extraction_agrees_witness:
  "silver_of_tx (sample_env 1) (Some 9) ''hypercore-mainnet'' (sample_hl_tx sample_fill_json) =
    silver_of_raw (sample_env 1) ''0xab'' ((v1_tx_to_v2_raw 0 (sample_hl_tx sample_fill_json) (Some ''hypercore-mainnet''))\<lparr>raw_id := 9\<rparr>)"
proof -
  have "chain_family_for_network ''hypercore-mainnet'' = Some (chain_family_from_chain (tx_chain (sample_hl_tx sample_fill_json)))" by code_simp
  from legacy_extraction_agrees [OF this, of "sample_env 1" 9 0] show ?thesis by (simp add: sample_hl_tx_def)
qed

section \<open>Provenance\<close>

text \<open>The raw transactions that the records of a batch name, and those that new rows of the tables name.\<close>

definition batch_raws :: "'d silver_batch \<Rightarrow> uuid option set" where
  "batch_raws b = tt_raw_transaction_id ` set (sb_transfers b) \<union> nbd_raw_transaction_id ` set (sb_native b)
     \<union> de_raw_transaction_id ` set (sb_events b) \<union> fill_raw_transaction_id ` set (sb_fills b)
     \<union> fund_raw_transaction_id ` set (sb_funding b) \<union> pos_raw_transaction_id ` set (sb_positions b)"

definition new_raws :: "'d dataset_db \<Rightarrow> 'd dataset_db \<Rightarrow> uuid option set" where
  "new_raws d d' = tt_raw_transaction_id ` (set (db_transfers d') - set (db_transfers d))
     \<union> nbd_raw_transaction_id ` (set (db_native d') - set (db_native d)) \<union> de_raw_transaction_id ` (set (db_events d') - set (db_events d))
     \<union> fill_raw_transaction_id ` (set (db_fills d') - set (db_fills d)) \<union> fund_raw_transaction_id ` (set (db_funding d') - set (db_funding d))
     \<union> pos_raw_transaction_id ` (set (db_positions d') - set (db_positions d))"

context dedup_table
begin

lemma write_legacy_subset: "set (fst (write_legacy lost save rs table)) \<subseteq> set table \<union> set rs"
proof -
  have "set (fst (save qs table)) \<subseteq> set table \<union> set qs" for qs using save_extends [of qs table] by auto
  then have "set (fst (cut_save lost save rs table)) \<subseteq> set table \<union> set rs"
    using set_take_subset [of _ rs] by (simp add: cut_save_def split: option.split) (meson order_trans sup.mono order_refl)
  then show ?thesis by (auto simp: write_legacy_def split: prod.split option.split)
qed

end

lemma write_legacy_raws: "new_raws d (snd (write_legacy_silver env b skipped d)) \<subseteq> batch_raws b"
  using transfers.write_legacy_subset [of "me_cut env ''token_transfers''" "sb_transfers b" "db_transfers d"]
    natives.write_legacy_subset [of "me_cut env ''native_balance_deltas''" "sb_native b" "db_native d"]
    events.write_legacy_subset [of "me_cut env ''decoded_events''" "sb_events b" "db_events d"]
    fills.write_legacy_subset [of "me_cut env (as_sql_str DS_HlFills)" "sb_fills b" "db_fills d"]
    fundings.write_legacy_subset [of "me_cut env (as_sql_str DS_HlFunding)" "sb_funding b" "db_funding d"]
    positions.write_legacy_subset [of "me_cut env (as_sql_str DS_Positions)" "sb_positions b" "db_positions d"]
  unfolding new_raws_def batch_raws_def write_legacy_silver_def
  by (simp add: case_prod_unfold Let_def del: as_sql_str.simps) blast

lemma batch_raws_stamp: "batch_raws (stamp_batch env versions b) = batch_raws b"
  unfolding batch_raws_def stamp_batch_def silver_batch.select_convs
  by (intro arg_cong2 [where f = "(\<union>)"] stamped_keys) simp_all

lemma list_all_image: "list_all (\<lambda>t. f t = i) xs \<longleftrightarrow> f ` set xs \<subseteq> {i}"
  by (auto simp: list_all_iff)

lemma silver_of_tx_raws:
  assumes "silver_of_tx env i n tx = Some b"
  shows "batch_raws b \<subseteq> {i}"
proof -
  have evm: "tt_raw_transaction_id ` set ts \<subseteq> {i}"
    if "extract_evm_token_transfers (me_quo env) (\<lambda>_. 0) 0 i n (tx_raw_metadata tx) = Some ts" for ts
    using evm_transfer_raw [OF that [unfolded extract_evm_token_transfers_def]] by blast
  note named = extractors_name_raw [unfolded list_all_image]
  show ?thesis
  proof (cases "tx_chain tx")
    case Chain_Ethereum
    with assms obtain ts where ts: "extract_evm_token_transfers (me_quo env) (\<lambda>_. 0) 0 i n (tx_raw_metadata tx) = Some ts"
      and b: "b = \<lparr>sb_transfers = ts, sb_native = [], sb_events = extract_evm_decoded_events (me_print env) (\<lambda>_. 0) 0 i n (tx_raw_metadata tx),
        sb_fills = [], sb_funding = [], sb_positions = []\<rparr>"
      by (auto simp: silver_of_tx_def Let_def)
    show ?thesis unfolding b batch_raws_def by (simp add: evm [OF ts] named)
  qed (insert assms, clarsimp simp: silver_of_tx_def Let_def batch_raws_def named)+
qed

lemma batch_raws_append: "batch_raws (append_batch a b) = batch_raws a \<union> batch_raws b" "batch_raws empty_batch = {}"
  by (auto simp: batch_raws_def append_batch_def empty_batch_def)

lemma silver_of_txs_raws:
  "silver_of_txs env ids resolved txs = Some b \<Longrightarrow>
   batch_raws b \<subseteq> {ids (n, tx_hash tx) | n tx. tx \<in> set txs \<and> resolved (tx_hash tx) = Some n}"
proof (induction txs arbitrary: b)
  case (Cons tx txs)
  show ?case
  proof (cases "resolved (tx_hash tx)")
    case None
    with Cons show ?thesis by fastforce
  next
    case (Some n)
    with Cons.prems obtain x y where xy: "silver_of_tx env (ids (n, tx_hash tx)) n tx = Some x" "silver_of_txs env ids resolved txs = Some y"
      "b = append_batch x y" by (auto split: option.splits)
    have "batch_raws b \<subseteq> {ids (n, tx_hash tx)} \<union> {ids (n, tx_hash tx) | n tx. tx \<in> set txs \<and> resolved (tx_hash tx) = Some n}"
      unfolding xy(3) batch_raws_append using silver_of_tx_raws [OF xy(1)] Cons.IH [OF xy(2)] by (rule Un_mono)
    moreover have "ids (n, tx_hash tx) \<in> {ids (n, tx_hash u) | n u. u \<in> set (tx # txs) \<and> resolved (tx_hash u) = Some n}"
      using Some by (intro CollectI exI [of _ n] exI [of _ tx]) simp
    ultimately show ?thesis by fastforce
  qed
qed (simp add: batch_raws_append)

text \<open>Bronze only grows; rows with fresh ids are all accepted, and afterwards their hashes are known.\<close>

lemma save_raw_chunks_spec:
  assumes "save_raw_chunks cs (table, links) = Inr (table', links')"
  shows "set table \<subseteq> set table' \<and> raw_key ` set (concat cs) \<subseteq> raw_key ` set table'"
  using assms
proof (induction cs arbitrary: table links)
  case (Cons c cs)
  then obtain t where t: "insert_ignoring raw_id (\<lambda>r. Some (raw_key r)) c table = Inr t"
    and rest: "save_raw_chunks cs (t, fold (link_run_input t) c links) = Inr (table', links')" by (auto split: sum.splits)
  have "set table \<subseteq> set t" using insert_ignoring_spec(1) [OF t] by auto
  moreover have "raw_key r \<in> raw_key ` set t" if "r \<in> set c" for r using insert_ignoring_spec(2) [OF t that] by auto
  ultimately show ?case using Cons.IH [OF rest] by (auto simp: image_iff) blast+
qed simp

lemma insert_raws_fresh:
  "distinct (map raw_id rs) \<Longrightarrow> raw_id ` set rs \<inter> raw_id ` set table = {} \<Longrightarrow>
   \<exists>t. insert_ignoring raw_id (\<lambda>r. Some (raw_key r)) rs table = Inr t \<and> raw_id ` set t \<subseteq> raw_id ` set table \<union> raw_id ` set rs"
proof (induction rs arbitrary: table)
  case (Cons r rs)
  show ?case
  proof (cases "conflicts (\<lambda>r. Some (raw_key r)) r table")
    case True
    obtain t where "insert_ignoring raw_id (\<lambda>r. Some (raw_key r)) rs table = Inr t" "raw_id ` set t \<subseteq> raw_id ` set table \<union> raw_id ` set rs"
      using Cons.IH [of table] Cons.prems by auto
    with True show ?thesis by auto
  next
    case False
    have "distinct (map raw_id rs)" "raw_id ` set rs \<inter> raw_id ` set (table @ [r]) = {}" using Cons.prems by auto
    from Cons.IH [OF this] obtain t where "insert_ignoring raw_id (\<lambda>r. Some (raw_key r)) rs (table @ [r]) = Inr t"
      "raw_id ` set t \<subseteq> raw_id ` set (table @ [r]) \<union> raw_id ` set rs" by blast
    moreover have "raw_id r \<notin> raw_id ` set table" using Cons.prems(2) by auto
    ultimately show ?thesis using False by auto
  qed
qed simp

lemma save_raw_chunks_fresh:
  "distinct (map raw_id (concat cs)) \<Longrightarrow> raw_id ` set (concat cs) \<inter> raw_id ` set table = {} \<Longrightarrow>
   \<exists>st. save_raw_chunks cs (table, links) = Inr st"
proof (induction cs arbitrary: table links)
  case (Cons c cs)
  obtain t where t: "insert_ignoring raw_id (\<lambda>r. Some (raw_key r)) c table = Inr t" "raw_id ` set t \<subseteq> raw_id ` set table \<union> raw_id ` set c"
    using insert_raws_fresh [of c table] Cons.prems by (auto simp: image_Un)
  note prems = Cons.prems [unfolded concat.simps map_append distinct_append set_append image_Un set_map]
  have "distinct (map raw_id (concat cs))" using prems(1) by blast
  moreover have "B \<inter> X = {}" if "(A \<union> B) \<inter> T = {}" "A \<inter> B = {}" "X \<subseteq> T \<union> A" for A B T X :: "uuid set" using that by blast
  then have "raw_id ` set (concat cs) \<inter> raw_id ` set t = {}" using prems(2) conjunct2 [OF conjunct2 [OF prems(1)]] t(2) .
  ultimately have "\<exists>st. save_raw_chunks cs (t, l) = Inr st" for l by (rule Cons.IH)
  with t(1) show ?case by simp
qed simp

lemma lookup_known:
  "lookup_raw_transaction_ids pairs raws k = Some i \<Longrightarrow> \<exists>r \<in> set raws. raw_id r = i"
  "k \<in> set pairs \<Longrightarrow> k \<in> raw_key ` set raws \<Longrightarrow> lookup_raw_transaction_ids pairs raws k \<noteq> None"
  by (auto simp: lookup_raw_transaction_ids_def find_None_iff find_Some_iff split: if_splits)

lemma in_tx_pairs: "tx \<in> set txs \<Longrightarrow> resolved (tx_hash tx) = Some n \<Longrightarrow> (n, tx_hash tx) \<in> set (tx_pairs resolved txs)"
  by (force simp: tx_pairs_def List.map_filter_def)

lemma backfill_known:
  assumes "backfill_raws env resolved txs raws = (ids, raws')" "ids k = Some i"
  shows "\<exists>r \<in> set raws'. raw_id r = i"
proof -
  let ?missing = "filter (\<lambda>tx. case resolved (tx_hash tx) of
      Some n \<Rightarrow> (if me_down env ''raw_ids'' [] then Map.empty else lookup_raw_transaction_ids (tx_pairs resolved txs) raws) (n, tx_hash tx) = None
    | None \<Rightarrow> False) txs"
  have grows: "set raws \<subseteq> set t" if "save_raw_transactions rows (raws, []) = Inr (t, l)" for rows t l
    using save_raw_chunks_spec [OF that [unfolded save_raw_transactions_def]] by simp
  from assms grows show ?thesis
    by (auto simp: backfill_raws_def Let_def map_add_Some_iff dest!: lookup_known(1) split: if_splits sum.splits prod.splits) blast+
qed

lemma backfill_complete:
  assumes "backfill_raws env resolved txs raws = (ids, raws')" "me_cut env ''raw_transactions'' = None" "\<not> me_down env ''raw_ids_again'' []"
    and fresh: "distinct (map tx_id txs)" "tx_id ` set txs \<inter> raw_id ` set raws = {}"
    and tx: "tx \<in> set txs" "resolved (tx_hash tx) = Some n"
  shows "ids (n, tx_hash tx) \<noteq> None"
proof -
  define ids0 where "ids0 = (if me_down env ''raw_ids'' [] then Map.empty else lookup_raw_transaction_ids (tx_pairs resolved txs) raws)"
  define missing where "missing = filter (\<lambda>tx. case resolved (tx_hash tx) of Some n \<Rightarrow> ids0 (n, tx_hash tx) = None | None \<Rightarrow> False) txs"
  define rows where "rows = List.map_filter (\<lambda>tx. map_option (\<lambda>n. v1_tx_to_v2_raw (me_now env) tx (Some n)) (resolved (tx_hash tx))) missing"
  note run = assms(1) [unfolded backfill_raws_def ids0_def [symmetric] Let_def missing_def [symmetric] rows_def [symmetric]]
  show ?thesis
  proof (cases "missing = []")
    case True
    then have "ids = ids0" using run by simp
    moreover have "tx \<notin> set missing" using True by simp
    ultimately show ?thesis using tx by (auto simp: missing_def)
  next
    case False
    have rows: "map raw_id rows = map tx_id missing"
    proof -
      have "\<forall>t \<in> set missing. resolved (tx_hash t) \<noteq> None" by (auto simp: missing_def split: option.splits)
      then show ?thesis unfolding rows_def by (induction missing) (auto simp: map_filter_simps v1_tx_to_v2_raw_def)
    qed
    have "distinct (map raw_id rows)" unfolding rows using fresh(1) by (simp add: missing_def distinct_map_filter)
    moreover have "raw_id ` set rows \<inter> raw_id ` set raws = {}"
      using fresh(2) arg_cong [OF rows, of set] by (auto simp: missing_def)
    moreover have cat: "concat (chunks V2_BATCH_SIZE rows) = rows" by (rule concat_chunks) (simp add: V2_BATCH_SIZE_def)
    ultimately obtain raws2 links where save: "save_raw_transactions rows (raws, []) = Inr (raws2, links)"
      unfolding save_raw_transactions_def using save_raw_chunks_fresh [of "chunks V2_BATCH_SIZE rows" raws "[]"] by (auto simp del: set_concat)
    have ids: "ids = ids0 ++ lookup_raw_transaction_ids (tx_pairs resolved missing) raws2"
      using run False assms(2,3) save by auto
    show ?thesis
    proof (cases "ids0 (n, tx_hash tx)")
      case None
      with tx have m: "tx \<in> set missing" by (simp add: missing_def)
      then have "v1_tx_to_v2_raw (me_now env) tx (Some n) \<in> set rows" using tx(2) by (force simp: rows_def List.map_filter_def)
      then have "(n, tx_hash tx) \<in> raw_key ` set rows" by (force simp: raw_key_def v1_tx_to_v2_raw_def network_or_default_def)
      then have "(n, tx_hash tx) \<in> raw_key ` set raws2"
        using save_raw_chunks_spec [OF save [unfolded save_raw_transactions_def]] unfolding cat by blast
      then show ?thesis using lookup_known(2) [OF in_tx_pairs [of tx missing resolved n, OF m tx(2)]] by (simp add: ids map_add_None del: not_None_eq)
    qed (simp add: ids)
  qed
qed

text \<open>
  C21. Records of the legacy path never name a raw transaction that Bronze does not hold. When the back-fill can write, with
  ids that Bronze has not used, every new record names one.
\<close>

theorem legacy_provenance:
  fixes env :: "('d :: linordered_idom) mat_env"
  assumes out: "d' = md_db (snd (materialize_silver_datasets env lv txs explicit db))"
  shows "new_raws (md_db db) d' \<subseteq> insert None (Some ` raw_id ` set (db_raws d'))
    \<and> (me_cut env ''raw_transactions'' = None \<and> \<not> me_down env ''raw_ids_again'' [] \<and> distinct (map tx_id txs)
        \<and> tx_id ` set txs \<inter> raw_id ` set (db_raws (md_db db)) = {} \<longrightarrow> None \<notin> new_raws (md_db db) d')"
proof -
  obtain resolved skipped where res: "resolved_networks explicit (bronze_network_map env lv explicit txs (db_raws (md_db db))) txs = (resolved, skipped)"
    by (cases "resolved_networks explicit (bronze_network_map env lv explicit txs (db_raws (md_db db))) txs")
  obtain ids raws where bf: "backfill_raws env resolved txs (db_raws (md_db db)) = (ids, raws)"
    by (cases "backfill_raws env resolved txs (db_raws (md_db db))")
  obtain ts ms where matches: "backfill_matches env lv ids resolved txs (db_targets (md_db db), db_matches (md_db db)) = (ts, ms)"
    by (cases "backfill_matches env lv ids resolved txs (db_targets (md_db db), db_matches (md_db db))")
  obtain versions dvs where v: "resolve_silver_dataset_versions (me_down env ''version'') (me_version_id env) (me_now env) (md_versions db) = (versions, dvs)"
    by (cases "resolve_silver_dataset_versions (me_down env ''version'') (me_version_id env) (me_now env) (md_versions db)")
  let ?d1 = "(md_db db)\<lparr>db_raws := raws, db_targets := ts, db_matches := ms\<rparr>"
  have shift: "new_raws ?d1 e = new_raws (md_db db) e" "new_raws (md_db db) ?d1 = {}" "new_raws (md_db db) (md_db db) = {}" for e
    by (simp_all add: new_raws_def)
  consider (none) "new_raws (md_db db) d' = {}"
    | (some) b where "silver_of_txs env ids resolved txs = Some b" "new_raws (md_db db) d' \<subseteq> batch_raws b" "db_raws d' = raws"
  proof (cases "txs = [] \<or> silver_of_txs env ids resolved txs = None \<or> batch_size (the (silver_of_txs env ids resolved txs)) = 0")
    case True
    then have "d' = md_db db \<or> d' = ?d1"
      using out res bf matches v by (cases "silver_of_txs env ids resolved txs") (auto simp: materialize_silver_datasets_def Let_def)
    then show thesis using shift none by auto
  next
    case False
    then obtain b where b: "silver_of_txs env ids resolved txs = Some b" "batch_size b \<noteq> 0" by auto
    have d': "d' = snd (write_legacy_silver env (stamp_batch env versions b) skipped ?d1)"
      using False b out res bf matches v by (simp add: materialize_silver_datasets_def case_prod_unfold Let_def)
    have "new_raws (md_db db) d' \<subseteq> batch_raws b"
      using write_legacy_raws [of ?d1 env "stamp_batch env versions b" skipped] unfolding shift(1) d' [symmetric] batch_raws_stamp .
    moreover have "db_raws d' = raws" unfolding d' by (simp add: write_legacy_silver_def case_prod_unfold Let_def)
    ultimately show thesis using b(1) some by blast
  qed
  then show ?thesis
  proof cases
    case some
    have named: "x \<in> {ids (n, tx_hash tx) | n tx. tx \<in> set txs \<and> resolved (tx_hash tx) = Some n}" if "x \<in> new_raws (md_db db) d'" for x
      using that some(2) silver_of_txs_raws [OF some(1)] by blast
    have "x \<in> insert None (Some ` raw_id ` set (db_raws d'))" if "x \<in> new_raws (md_db db) d'" for x
      using named [OF that] backfill_known [OF bf] unfolding some(3) by (cases x) force+
    moreover have "None \<notin> new_raws (md_db db) d'"
      if h: "me_cut env ''raw_transactions'' = None" "\<not> me_down env ''raw_ids_again'' []" "distinct (map tx_id txs)"
        "tx_id ` set txs \<inter> raw_id ` set (db_raws (md_db db)) = {}"
      using named [of None] backfill_complete [OF bf h] by force
    ultimately show ?thesis by blast
  qed simp
qed

definition sample_lv :: legacy_env where
  "sample_lv = \<lparr>lv_scan = id, lv_groups = id, lv_target_id = (\<lambda>_. 50), lv_match_id = (\<lambda>_ i. i + 100), lv_completeness_id = (\<lambda>_. 60)\<rparr>"

theorem legacy_provenance_witness:
  "None \<notin> new_raws (md_db sample_mat_db) (md_db (snd (materialize_silver_datasets (sample_env 1) sample_lv [sample_hl_tx sample_fill_json]
      (Some ''hypercore-mainnet'') sample_mat_db)))"
  using legacy_provenance [OF refl, of "sample_mat_db" "sample_env 1" sample_lv "[sample_hl_tx sample_fill_json]" "Some ''hypercore-mainnet''"]
  by (simp add: sample_env_def sample_mat_db_def)

text \<open>
  The network is remembered by hash alone. A transaction whose network is ambiguous is counted as skipped and still
  materialized on the network found for another transaction with its hash, here an Ethereum transaction on Solana.
\<close>

definition shared_hash_tx :: "uuid \<Rightarrow> chain \<Rightarrow> transaction" where
  "shared_hash_tx i c = \<lparr>tx_id = i, tx_user_id = 1, tx_wallet_address = ''w'', tx_timestamp = 0, tx_hash = ''h'', tx_chain = c, tx_raw_metadata = JNull\<rparr>"

lemma skipped_yet_resolved:
  "let (resolved, skipped) = resolved_networks None [(''h'', [''ethereum-mainnet'', ''base-mainnet'', ''solana-mainnet''])]
         [shared_hash_tx 1 Chain_Ethereum, shared_hash_tx 2 Chain_Solana]
   in skipped = 1 \<and> resolved (tx_hash (shared_hash_tx 1 Chain_Ethereum)) = Some ''solana-mainnet''"
  by code_simp

end
