(* ===== verification/Providers.thy ===== *)
theory Providers
  imports Api_Access
begin

text \<open>
  Which endpoint serves a network: the provider registry and the network context
  (\<open>core/src/provider.rs\<close>), and the part of the application configuration that feeds them, with
  its validation and the synthesis of providers from the legacy fields (\<open>core/src/config.rs\<close>).

  Reading the TOML file and the environment is the \<open>figment\<close> crate: a configuration is a value of
  \<open>app_config\<close>, and \<open>env\<close> is \<open>std::env::var\<close>. A hash map of networks is an association list in its
  iteration order; the properties hold for every order.
\<close>

section \<open>Kinds and capabilities\<close>

datatype provider_kind = PK_Rpc | PK_Grpc | PK_Ws | PK_Trace | PK_Rest

fun provider_kind_to_str :: "provider_kind \<Rightarrow> string" where
  "provider_kind_to_str PK_Rpc = ''rpc''"
| "provider_kind_to_str PK_Grpc = ''grpc''"
| "provider_kind_to_str PK_Ws = ''ws''"
| "provider_kind_to_str PK_Trace = ''trace''"
| "provider_kind_to_str PK_Rest = ''rest''"

definition provider_kind_from_str :: "string \<Rightarrow> provider_kind result" where
  "provider_kind_from_str s =
     (if s = ''rpc'' then Inr PK_Rpc else if s = ''grpc'' then Inr PK_Grpc
      else if s = ''ws'' then Inr PK_Ws else if s = ''trace'' then Inr PK_Trace
      else if s = ''rest'' then Inr PK_Rest else Inl strum_not_found)"

datatype provider_capability =
  PC_Historical | PC_Balances | PC_Stream | PC_Logs | PC_Receipts | PC_DebugTraceTransaction

fun provider_capability_to_str :: "provider_capability \<Rightarrow> string" where
  "provider_capability_to_str PC_Historical = ''historical''"
| "provider_capability_to_str PC_Balances = ''balances''"
| "provider_capability_to_str PC_Stream = ''stream''"
| "provider_capability_to_str PC_Logs = ''logs''"
| "provider_capability_to_str PC_Receipts = ''receipts''"
| "provider_capability_to_str PC_DebugTraceTransaction = ''debug_trace_transaction''"

definition provider_capability_from_str :: "string \<Rightarrow> provider_capability result" where
  "provider_capability_from_str s =
     (if s = ''historical'' then Inr PC_Historical else if s = ''balances'' then Inr PC_Balances
      else if s = ''stream'' then Inr PC_Stream else if s = ''logs'' then Inr PC_Logs
      else if s = ''receipts'' then Inr PC_Receipts
      else if s = ''debug_trace_transaction'' then Inr PC_DebugTraceTransaction
      else Inl strum_not_found)"

definition all_capabilities :: "provider_capability list" where
  "all_capabilities = [PC_Historical, PC_Balances, PC_Stream, PC_Logs, PC_Receipts, PC_DebugTraceTransaction]"

section \<open>Configuration\<close>

record network_config =
  nc_enabled :: bool

record provider_config =
  pc_network :: string
  pc_kind :: string
  pc_url :: string
  pc_priority :: "u32 option"
  pc_capabilities :: "string list"
  pc_token_env :: "string option"
  pc_token :: "string option"
  pc_headers :: "(string \<times> string) list option"

record app_config =
  ac_port :: "16 word"
  ac_host :: string
  ac_database_url :: string
  ac_pool_size :: u32
  ac_log_level :: string
  ac_ingest_limit :: nat
  ac_solana_rpc_url :: string
  ac_evm_rpc_url :: string
  ac_api_key :: "string option"
  ac_allowed_wallets :: "string option"
  ac_solana_grpc_url :: "string option"
  ac_solana_grpc_token :: "string option"
  ac_export_dir :: string
  ac_evm_trace_enabled :: bool
  ac_evm_trace_rpc_url :: "string option"
  ac_networks :: "(string \<times> network_config) list"
  ac_providers :: "provider_config list"
  ac_callback_hmac_secret :: "string option"
  ac_enable_v1_compat_writes :: bool

definition default_solana_rpc_url :: string where
  "default_solana_rpc_url = ''https://api.mainnet-beta.solana.com''"

definition default_evm_rpc_url :: string where
  "default_evm_rpc_url = ''https://eth.llamarpc.com''"

definition default_app_config :: app_config where
  "default_app_config =
     \<lparr>ac_port = 3000, ac_host = ''127.0.0.1'', ac_database_url = '''', ac_pool_size = 10,
      ac_log_level = ''info'', ac_ingest_limit = 50,
      ac_solana_rpc_url = default_solana_rpc_url, ac_evm_rpc_url = default_evm_rpc_url,
      ac_api_key = None, ac_allowed_wallets = None, ac_solana_grpc_url = None,
      ac_solana_grpc_token = None, ac_export_dir = ''./exports'', ac_evm_trace_enabled = False,
      ac_evm_trace_rpc_url = None, ac_networks = [], ac_providers = [],
      ac_callback_hmac_secret = None, ac_enable_v1_compat_writes = True\<rparr>"

datatype config_error = Config_Validation string

definition blank :: "string \<Rightarrow> bool" where
  "blank s \<longleftrightarrow> trim s = []"

definition validate :: "app_config \<Rightarrow> config_error + unit" where
  "validate cfg =
     (if blank (ac_database_url cfg) then Inl (Config_Validation ''database_url must not be empty'')
      else if ac_port cfg = 0 then Inl (Config_Validation ''port must be between 1 and 65535'')
      else if ac_pool_size cfg = 0 \<or> 1000 < ac_pool_size cfg
        then Inl (Config_Validation ''pool_size must be between 1 and 1000'')
      else if blank (ac_export_dir cfg) then Inl (Config_Validation ''export_dir must not be empty'')
      else if (case ac_api_key cfg of Some key \<Rightarrow> blank key | None \<Rightarrow> False)
        then Inl (Config_Validation ''api_key must not be blank'')
      else if ac_ingest_limit cfg = 0 \<or> 100000 < ac_ingest_limit cfg
        then Inl (Config_Validation ''ingest_limit must be between 1 and 100000'')
      else if (case ac_callback_hmac_secret cfg of Some secret \<Rightarrow> blank secret | None \<Rightarrow> False)
        then Inl (Config_Validation ''callback_hmac_secret must not be empty or whitespace-only'')
      else Inr ())"

text \<open>\<open>str::split(',')\<close>: the pieces between separators, empty ones included.\<close>

fun split_comma :: "string \<Rightarrow> string \<Rightarrow> string list" where
  "split_comma acc [] = [acc]"
| "split_comma acc (c # cs) = (if c = CHR '','' then acc # split_comma [] cs else split_comma (acc @ [c]) cs)"

definition wallet_set_entry :: "string \<Rightarrow> string" where
  "wallet_set_entry w =
     (let trimmed = trim w
      in if starts_with trimmed ''0x'' \<or> starts_with trimmed ''0X'' then to_lowercase trimmed else trimmed)"

definition allowed_wallets_set :: "app_config \<Rightarrow> string list option" where
  "allowed_wallets_set cfg =
     map_option (\<lambda>s. filter (\<lambda>w. w \<noteq> []) (map wallet_set_entry (split_comma [] s))) (ac_allowed_wallets cfg)"

section \<open>Synthesis of providers from the legacy fields\<close>

definition plain_provider :: "string \<Rightarrow> string \<Rightarrow> string \<Rightarrow> u32 \<Rightarrow> string list \<Rightarrow> provider_config" where
  "plain_provider network kind u priority caps =
     \<lparr>pc_network = network, pc_kind = kind, pc_url = u, pc_priority = Some priority,
      pc_capabilities = caps, pc_token_env = None, pc_token = None, pc_headers = None\<rparr>"

definition synthesized_networks :: "(string \<times> network_config) list" where
  "synthesized_networks =
     map (\<lambda>n. (n, \<lparr>nc_enabled = True\<rparr>)) [''solana-mainnet'', ''ethereum-mainnet'', ''hypercore-mainnet'']"

definition synthesized_providers :: "app_config \<Rightarrow> provider_config list" where
  "synthesized_providers cfg =
     [plain_provider ''solana-mainnet'' ''rpc'' (ac_solana_rpc_url cfg) 1 [''historical'', ''balances'']]
     @ (case ac_solana_grpc_url cfg of
          Some grpc_url \<Rightarrow>
            [(plain_provider ''solana-mainnet'' ''grpc'' grpc_url 1 [''stream''])
               \<lparr>pc_token_env := Some ''SOLANA_GRPC_TOKEN'', pc_token := ac_solana_grpc_token cfg\<rparr>]
        | None \<Rightarrow> [])
     @ [plain_provider ''ethereum-mainnet'' ''rpc'' (ac_evm_rpc_url cfg) 1
          [''historical'', ''logs'', ''receipts'', ''balances'']]
     @ (if ac_evm_trace_enabled cfg
        then [plain_provider ''ethereum-mainnet'' ''trace''
                (case ac_evm_trace_rpc_url cfg of Some u \<Rightarrow> u | None \<Rightarrow> ac_evm_rpc_url cfg)
                2 [''debug_trace_transaction'']]
        else [])
     @ [plain_provider ''hypercore-mainnet'' ''rest'' ''https://api.hyperliquid.xyz'' 1 [''historical''],
        plain_provider ''hypercore-mainnet'' ''ws'' ''wss://api.hyperliquid.xyz/ws'' 1 [''stream'']]"

text \<open>\<open>entry(k).or_insert_with(v)\<close> leaves an existing entry as it is.\<close>

definition or_insert :: "'k \<times> 'v \<Rightarrow> ('k \<times> 'v) list \<Rightarrow> ('k \<times> 'v) list" where
  "or_insert e m = (if map_of m (fst e) = None then m @ [e] else m)"

definition dominated :: "provider_config \<Rightarrow> provider_config list \<Rightarrow> bool" where
  "dominated p ps \<longleftrightarrow>
     list_ex (\<lambda>q. pc_network q = pc_network p \<and> pc_kind q = pc_kind p \<and> pc_url q = pc_url p) ps"

definition add_provider :: "provider_config \<Rightarrow> provider_config list \<Rightarrow> provider_config list" where
  "add_provider p ps = (if dominated p ps then ps else ps @ [p])"

definition effective_provider_config :: "app_config \<Rightarrow> (string \<times> network_config) list \<times> provider_config list" where
  "effective_provider_config cfg =
     (if ac_networks cfg \<noteq> [] \<and> ac_providers cfg \<noteq> [] then (ac_networks cfg, ac_providers cfg)
      else (fold or_insert (ac_networks cfg) synthesized_networks,
            fold add_provider (ac_providers cfg) (synthesized_providers cfg)))"

section \<open>The registry\<close>

record resolved_provider =
  rp_network :: string
  rp_kind :: provider_kind
  rp_url :: string
  rp_priority :: u32
  rp_capabilities :: "provider_capability list"
  rp_token :: "string option"
  rp_headers :: "(string \<times> string) list"

record provider_registry =
  pr_providers :: "(string \<times> resolved_provider list) list"
  pr_enabled_networks :: "(string \<times> network_config) list"

datatype registry_error = Registry_Validation string

fun parse_capabilities :: "string \<Rightarrow> string list \<Rightarrow> registry_error + provider_capability list" where
  "parse_capabilities network [] = Inr []"
| "parse_capabilities network (s # ss) =
     (case provider_capability_from_str s of
        Inl _ \<Rightarrow> Inl (Registry_Validation
          (''unknown provider capability '' @ quoted s @ '' for network '' @ quoted network))
      | Inr c \<Rightarrow> map_sum id (\<lambda>cs. c # cs) (parse_capabilities network ss))"

definition provider_token :: "(string \<Rightarrow> string option) \<Rightarrow> provider_config \<Rightarrow> string option" where
  "provider_token env pc =
     (case pc_token pc of Some t \<Rightarrow> Some t | None \<Rightarrow> Option.bind (pc_token_env pc) env)"

definition resolve_config ::
    "(string \<Rightarrow> string option) \<Rightarrow> provider_config \<Rightarrow> registry_error + resolved_provider" where
  "resolve_config env pc =
     (if blank (pc_url pc)
      then Inl (Registry_Validation (''provider for network '' @ quoted (pc_network pc) @ '' has an empty URL''))
      else case parse_capabilities (pc_network pc) (pc_capabilities pc) of
        Inl e \<Rightarrow> Inl e
      | Inr caps \<Rightarrow>
          if caps = []
          then Inl (Registry_Validation (''provider for network '' @ quoted (pc_network pc)
                 @ '' (kind='' @ pc_kind pc @ '') has no capabilities''))
          else case provider_kind_from_str (pc_kind pc) of
            Inl _ \<Rightarrow> Inl (Registry_Validation
              (''unknown provider kind '' @ quoted (pc_kind pc) @ '' for network '' @ quoted (pc_network pc)))
          | Inr kind \<Rightarrow> Inr
              \<lparr>rp_network = pc_network pc, rp_kind = kind, rp_url = pc_url pc,
               rp_priority = (case pc_priority pc of Some n \<Rightarrow> n | None \<Rightarrow> 1),
               rp_capabilities = caps, rp_token = provider_token env pc,
               rp_headers = (case pc_headers pc of Some h \<Rightarrow> h | None \<Rightarrow> [])\<rparr>)"

text \<open>The loop over the providers: \<open>grouped.entry(net_id).or_default().push(resolved)\<close>.\<close>

fun group_providers ::
    "(string \<Rightarrow> string option) \<Rightarrow> (string \<times> network_config) list \<Rightarrow> provider_config list \<Rightarrow>
     (string \<times> resolved_provider list) list \<Rightarrow> registry_error + (string \<times> resolved_provider list) list" where
  "group_providers env enabled [] grouped = Inr grouped"
| "group_providers env enabled (pc # pcs) grouped =
     (if map_of enabled (pc_network pc) = None then group_providers env enabled pcs grouped
      else case resolve_config env pc of
        Inl e \<Rightarrow> Inl e
      | Inr p \<Rightarrow> group_providers env enabled pcs (upsert (pc_network pc) [] (\<lambda>ps. ps @ [p]) grouped))"

definition from_config ::
    "(string \<Rightarrow> string option) \<Rightarrow> (string \<times> network_config) list \<Rightarrow> provider_config list \<Rightarrow>
     registry_error + provider_registry" where
  "from_config env networks pcs =
     (let enabled = filter (\<lambda>e. nc_enabled (snd e)) networks
      in map_sum id
           (\<lambda>grouped. \<lparr>pr_providers = map (\<lambda>(n, ps). (n, sort_key rp_priority ps)) grouped,
                        pr_enabled_networks = enabled\<rparr>)
           (group_providers env enabled pcs []))"

definition app_provider_registry :: "(string \<Rightarrow> string option) \<Rightarrow> app_config \<Rightarrow> registry_error + provider_registry" where
  "app_provider_registry env cfg =
     (case effective_provider_config cfg of (networks, providers) \<Rightarrow> from_config env networks providers)"

definition offers :: "provider_capability \<Rightarrow> resolved_provider \<Rightarrow> bool" where
  "offers c p \<longleftrightarrow> c \<in> set (rp_capabilities p)"

definition resolve :: "provider_registry \<Rightarrow> string \<Rightarrow> provider_capability \<Rightarrow> resolved_provider option" where
  "resolve reg n c = Option.bind (map_of (pr_providers reg) n) (find (offers c))"

definition resolve_all :: "provider_registry \<Rightarrow> string \<Rightarrow> provider_capability \<Rightarrow> resolved_provider list" where
  "resolve_all reg n c =
     (case map_of (pr_providers reg) n of Some ps \<Rightarrow> filter (offers c) ps | None \<Rightarrow> [])"

definition providers_for_network :: "provider_registry \<Rightarrow> string \<Rightarrow> resolved_provider list" where
  "providers_for_network reg n = (case map_of (pr_providers reg) n of Some ps \<Rightarrow> ps | None \<Rightarrow> [])"

definition enabled_networks :: "provider_registry \<Rightarrow> string list" where
  "enabled_networks reg = map fst (pr_enabled_networks reg)"

definition is_network_enabled :: "provider_registry \<Rightarrow> string \<Rightarrow> bool" where
  "is_network_enabled reg n \<longleftrightarrow> map_of (pr_enabled_networks reg) n \<noteq> None"

definition registry_network_config :: "provider_registry \<Rightarrow> string \<Rightarrow> network_config option" where
  "registry_network_config reg n = map_of (pr_enabled_networks reg) n"

definition registry_has_capability :: "provider_registry \<Rightarrow> string \<Rightarrow> provider_capability \<Rightarrow> bool" where
  "registry_has_capability reg n c \<longleftrightarrow> resolve reg n c \<noteq> None"

section \<open>The network context\<close>

record network_context =
  cx_network :: string
  cx_providers :: "(provider_capability \<times> resolved_provider) list"

definition context_from_registry :: "provider_registry \<Rightarrow> string \<Rightarrow> network_context option" where
  "context_from_registry reg n =
     (if \<not> is_network_enabled reg n then None
      else Some \<lparr>cx_network = n,
        cx_providers = List.map_filter (\<lambda>c. map_option (Pair c) (resolve reg n c)) all_capabilities\<rparr>)"

definition cx_provider :: "network_context \<Rightarrow> provider_capability \<Rightarrow> resolved_provider option" where
  "cx_provider cx c = map_of (cx_providers cx) c"

definition cx_url :: "network_context \<Rightarrow> provider_capability \<Rightarrow> string option" where
  "cx_url cx c = map_option rp_url (map_of (cx_providers cx) c)"

definition cx_token :: "network_context \<Rightarrow> provider_capability \<Rightarrow> string option" where
  "cx_token cx c = Option.bind (map_of (cx_providers cx) c) rp_token"

definition cx_has_capability :: "network_context \<Rightarrow> provider_capability \<Rightarrow> bool" where
  "cx_has_capability cx c \<longleftrightarrow> map_of (cx_providers cx) c \<noteq> None"

definition cx_available_capabilities :: "network_context \<Rightarrow> provider_capability list" where
  "cx_available_capabilities cx = map fst (cx_providers cx)"

definition chain_to_network_id :: "string \<Rightarrow> string option" where
  "chain_to_network_id s =
     (if s = ''solana'' then Some ''solana-mainnet''
      else if s = ''ethereum'' then Some ''ethereum-mainnet''
      else if s = ''hyperliquid'' then Some ''hypercore-mainnet'' else None)"

section \<open>Lemmas on the registry\<close>

interpretation pk_codec: enum_codec provider_kind_to_str provider_kind_from_str
proof
  show "provider_kind_from_str (provider_kind_to_str x) = Inr x" for x
    by (cases x) (simp_all add: provider_kind_from_str_def)
  show "provider_kind_to_str x = s" if "provider_kind_from_str s = Inr x" for s x
    using that by (simp add: provider_kind_from_str_def split: if_splits)
qed

interpretation pc_codec: enum_codec provider_capability_to_str provider_capability_from_str
proof
  show "provider_capability_from_str (provider_capability_to_str x) = Inr x" for x
    by (cases x) (simp_all add: provider_capability_from_str_def)
  show "provider_capability_to_str x = s" if "provider_capability_from_str s = Inr x" for s x
    using that by (simp add: provider_capability_from_str_def split: if_splits)
qed

text \<open>The providers of a network that the loop keeps, in configuration order.\<close>

definition configured ::
    "(string \<Rightarrow> string option) \<Rightarrow> (string \<times> network_config) list \<Rightarrow> string \<Rightarrow> provider_config \<Rightarrow>
     resolved_provider \<Rightarrow> bool" where
  "configured env networks n pc p \<longleftrightarrow>
     pc_network pc = n \<and> (n, \<lparr>nc_enabled = True\<rparr>) \<in> set networks \<and> resolve_config env pc = Inr p"

lemma map_of_sorted:
  "map_of (map (\<lambda>(n, ps). (n, sort_key f ps)) m) k = map_option (sort_key f) (map_of m k)"
  by (induction m) auto

lemma group_providers_entries:
  "group_providers env enabled pcs m = Inr m' \<Longrightarrow>
     (case map_of m' n of Some ps \<Rightarrow> ps | None \<Rightarrow> []) =
     (case map_of m n of Some ps \<Rightarrow> ps | None \<Rightarrow> []) @
     (if map_of enabled n = None then []
      else map (projr \<circ> resolve_config env) (filter (\<lambda>pc. pc_network pc = n) pcs))"
  by (induction pcs arbitrary: m)
     (auto simp: map_of_upsert split: if_splits sum.splits option.splits)

lemma group_providers_resolved:
  "group_providers env enabled pcs m = Inr m' \<Longrightarrow> pc \<in> set pcs \<Longrightarrow> map_of enabled (pc_network pc) \<noteq> None
     \<Longrightarrow> \<exists>p. resolve_config env pc = Inr p"
  by (induction pcs arbitrary: m) (auto split: if_splits sum.splits)

lemma map_of_enabled_iff:
  "map_of (filter (\<lambda>e. nc_enabled (snd e)) networks) n \<noteq> None \<longleftrightarrow> (n, \<lparr>nc_enabled = True\<rparr>) \<in> set networks"
proof -
  have "map_of (filter (\<lambda>e. nc_enabled (snd e)) networks) n \<noteq> None
      \<longleftrightarrow> (\<exists>v. (n, v) \<in> set networks \<and> nc_enabled v)"
    by (force simp: map_of_eq_None_iff)
  also have "\<dots> \<longleftrightarrow> (n, \<lparr>nc_enabled = True\<rparr>) \<in> set networks"
    by (metis (mono_tags) network_config.surjective network_config.select_convs(1) old.unit.exhaust)
  finally show ?thesis .
qed

lemma from_configE:
  assumes "from_config env networks pcs = Inr reg"
  obtains m where "group_providers env (filter (\<lambda>e. nc_enabled (snd e)) networks) pcs [] = Inr m"
    and "reg = \<lparr>pr_providers = map (\<lambda>(n, ps). (n, sort_key rp_priority ps)) m,
               pr_enabled_networks = filter (\<lambda>e. nc_enabled (snd e)) networks\<rparr>"
  using assms
  by (cases "group_providers env (filter (\<lambda>e. nc_enabled (snd e)) networks) pcs []")
     (simp_all add: from_config_def Let_def)

lemma providers_for_network_sorted:
  assumes "from_config env networks pcs = Inr reg"
  shows "providers_for_network reg n = sort_key rp_priority
           (if (n, \<lparr>nc_enabled = True\<rparr>) \<in> set networks
            then map (projr \<circ> resolve_config env) (filter (\<lambda>pc. pc_network pc = n) pcs) else [])"
proof -
  let ?en = "filter (\<lambda>e. nc_enabled (snd e)) networks"
  from assms obtain m where m: "group_providers env ?en pcs [] = Inr m"
    and reg: "pr_providers reg = map (\<lambda>(n, ps). (n, sort_key rp_priority ps)) m"
    by (elim from_configE) simp
  have "providers_for_network reg n = sort_key rp_priority (case map_of m n of Some ps \<Rightarrow> ps | None \<Rightarrow> [])"
    by (simp add: providers_for_network_def reg map_of_sorted split: option.splits)
  also have "\<dots> = sort_key rp_priority (if map_of ?en n = None then []
      else map (projr \<circ> resolve_config env) (filter (\<lambda>pc. pc_network pc = n) pcs))"
    by (simp only: group_providers_entries [OF m, of n]) simp
  finally show ?thesis by (simp flip: map_of_enabled_iff)
qed

lemma providers_for_network_iff:
  assumes ok: "from_config env networks pcs = Inr reg"
  shows "p \<in> set (providers_for_network reg n) \<longleftrightarrow> (\<exists>pc \<in> set pcs. configured env networks n pc p)"
proof (cases "(n, \<lparr>nc_enabled = True\<rparr>) \<in> set networks")
  case True
  have r: "resolve_config env pc = Inr (projr (resolve_config env pc))"
    if "pc \<in> set pcs" "pc_network pc = n" for pc
  proof -
    from ok obtain m where "group_providers env (filter (\<lambda>e. nc_enabled (snd e)) networks) pcs [] = Inr m"
      by (rule from_configE)
    from group_providers_resolved [OF this, of pc] that True map_of_enabled_iff [of networks n]
    show ?thesis by force
  qed
  from True show ?thesis
    by (simp add: providers_for_network_sorted [OF ok] configured_def image_iff) (metis r sum.sel(2))
next
  case False
  then show ?thesis by (simp add: providers_for_network_sorted [OF ok] configured_def)
qed

lemma sorted_providers:
  "from_config env networks pcs = Inr reg \<Longrightarrow> sorted (map rp_priority (providers_for_network reg n))"
  by (simp add: providers_for_network_sorted)

lemma resolve_find: "resolve reg n c = find (offers c) (providers_for_network reg n)"
  by (simp add: resolve_def providers_for_network_def split: option.splits)

lemma resolve_all_filter: "resolve_all reg n c = filter (offers c) (providers_for_network reg n)"
  by (simp add: resolve_all_def providers_for_network_def split: option.splits)

lemma find_sorted_least:
  "sorted (map f xs) \<Longrightarrow> find P xs = Some x \<Longrightarrow> y \<in> set xs \<Longrightarrow> P y \<Longrightarrow> f x \<le> f y"
  by (induction xs) (auto split: if_splits simp: find_Some_iff2)

lemma resolve_hd: "resolve reg n c = (case resolve_all reg n c of [] \<Rightarrow> None | p # _ \<Rightarrow> Some p)"
proof -
  have "find P xs = (case filter P xs of [] \<Rightarrow> None | x # _ \<Rightarrow> Some x)" for P and xs :: "resolved_provider list"
    by (induction xs) auto
  then show ?thesis by (simp add: resolve_find resolve_all_filter)
qed

lemma map_of_map_filter_Pair:
  "distinct cs \<Longrightarrow> map_of (List.map_filter (\<lambda>c. map_option (Pair c) (f c)) cs) c =
     (if c \<in> set cs then f c else None)"
  by (induction cs) (auto simp: List.map_filter_simps split: option.splits)

lemma in_all_capabilities [simp]: "c \<in> set all_capabilities"
  by (cases c) (simp_all add: all_capabilities_def)

lemma distinct_all_capabilities [simp]: "distinct all_capabilities"
  by (simp add: all_capabilities_def)

lemma context_provider:
  "context_from_registry reg n = Some cx \<Longrightarrow> map_of (cx_providers cx) c = resolve reg n c"
  by (auto simp: context_from_registry_def map_of_map_filter_Pair split: if_splits)

text \<open>When the construction fails: the first enabled provider with a defect.\<close>

definition well_configured :: "provider_config \<Rightarrow> bool" where
  "well_configured pc \<longleftrightarrow> \<not> blank (pc_url pc) \<and> pc_capabilities pc \<noteq> []
     \<and> set (pc_capabilities pc) \<subseteq> range provider_capability_to_str
     \<and> pc_kind pc \<in> range provider_kind_to_str"

lemma inj_capability: "inj provider_capability_to_str"
  by (simp add: inj_def pc_codec.enc_inj)

lemma parse_capabilities_Inr:
  "parse_capabilities n ss = Inr cs \<longleftrightarrow> ss = map provider_capability_to_str cs"
proof (induction ss arbitrary: cs)
  case (Cons s ss)
  show ?case
  proof (cases "provider_capability_from_str s")
    case (Inl e)
    then have "s \<notin> range provider_capability_to_str" using pc_codec.dec_error by blast
    with Inl show ?thesis by (cases cs) auto
  next
    case (Inr c)
    then have s: "s = provider_capability_to_str c" by (simp add: pc_codec.dec_eq_iff)
    show ?thesis
    proof (cases "parse_capabilities n ss")
      case Inl2: (Inl e)
      then have "\<And>cs. ss \<noteq> map provider_capability_to_str cs" using Cons.IH by force
      with Inr Inl2 show ?thesis by (cases cs) auto
    next
      case Inr2: (Inr ds)
      then have "ss = map provider_capability_to_str ds" using Cons.IH by simp
      with Inr Inr2 s show ?thesis
        by (cases cs) (auto simp: inj_map_eq_map [OF inj_capability] pc_codec.enc_inj)
    qed
  qed
qed auto

lemma resolve_config_Inr:
  "(\<exists>p. resolve_config env pc = Inr p) \<longleftrightarrow> well_configured pc"
proof (cases "parse_capabilities (pc_network pc) (pc_capabilities pc)")
  case (Inl e)
  then have "pc_capabilities pc \<noteq> map provider_capability_to_str cs" for cs
    using parse_capabilities_Inr [of "pc_network pc" "pc_capabilities pc" cs] by simp
  then have "\<not> set (pc_capabilities pc) \<subseteq> range provider_capability_to_str"
    by (metis ex_map_conv rangeE subsetD)
  with Inl show ?thesis by (simp add: resolve_config_def well_configured_def)
next
  case (Inr cs)
  then have cs: "pc_capabilities pc = map provider_capability_to_str cs"
    by (simp add: parse_capabilities_Inr)
  show ?thesis
  proof (cases "provider_kind_from_str (pc_kind pc)")
    case k: (Inl e)
    then have "pc_kind pc \<notin> range provider_kind_to_str" using pk_codec.dec_error by blast
    with k Inr show ?thesis by (simp add: resolve_config_def well_configured_def)
  next
    case k: (Inr kind)
    then have "pc_kind pc = provider_kind_to_str kind" by (simp add: pk_codec.dec_eq_iff)
    with k Inr cs show ?thesis by (auto simp: resolve_config_def well_configured_def)
  qed
qed

lemma group_providers_Inr:
  "(\<exists>m'. group_providers env enabled pcs m = Inr m') \<longleftrightarrow>
     (\<forall>pc \<in> set pcs. map_of enabled (pc_network pc) \<noteq> None \<longrightarrow> well_configured pc)"
proof (induction pcs arbitrary: m)
  case (Cons pc pcs)
  show ?case
  proof (cases "map_of enabled (pc_network pc) = None")
    case True
    with Cons show ?thesis by simp
  next
    case False
    show ?thesis
    proof (cases "resolve_config env pc")
      case (Inl e)
      then have "\<not> well_configured pc" by (simp flip: resolve_config_Inr [of env])
      with Inl False show ?thesis by auto
    next
      case (Inr p)
      then have "well_configured pc" by (simp flip: resolve_config_Inr [of env])
      with Inr False Cons show ?thesis by simp
    qed
  qed
qed simp

lemma from_config_Inr:
  "(\<exists>reg. from_config env networks pcs = Inr reg) \<longleftrightarrow>
     (\<forall>pc \<in> set pcs. (pc_network pc, \<lparr>nc_enabled = True\<rparr>) \<in> set networks \<longrightarrow> well_configured pc)"
proof -
  let ?en = "filter (\<lambda>e. nc_enabled (snd e)) networks"
  have "(\<exists>reg. from_config env networks pcs = Inr reg) \<longleftrightarrow> (\<exists>m. group_providers env ?en pcs [] = Inr m)"
    by (cases "group_providers env ?en pcs []") (simp_all add: from_config_def Let_def)
  then show ?thesis by (simp only: group_providers_Inr map_of_enabled_iff)
qed

text \<open>Merging configurations.\<close>

lemma map_of_or_insert: "map_of (or_insert e m) = map_of [e] ++ map_of m"
  by (cases e) (auto simp: or_insert_def map_add_def fun_eq_iff map_of_append split: option.splits)

lemma map_of_fold_or_insert: "map_of m k = Some v \<Longrightarrow> map_of (fold or_insert es m) k = Some v"
  by (induction es arbitrary: m) (simp_all add: map_of_or_insert map_add_def)

lemma fold_add_provider_keeps: "p \<in> set ps \<Longrightarrow> p \<in> set (fold add_provider qs ps)"
  by (induction qs arbitrary: ps) (simp_all add: add_provider_def)

text \<open>
  A default network cannot be switched off by a configuration that has no providers of its own:
  the synthesized entry wins over the one of the operator.
\<close>

lemma disabled_default_ignored:
  assumes "ac_providers cfg = []" and "n \<in> fst ` set synthesized_networks"
  shows "map_of (fst (effective_provider_config cfg)) n = Some \<lparr>nc_enabled = True\<rparr>"
proof -
  have "map_of synthesized_networks n = Some \<lparr>nc_enabled = True\<rparr>"
    using assms(2) by (auto simp: synthesized_networks_def)
  with assms(1) show ?thesis by (simp add: effective_provider_config_def map_of_fold_or_insert)
qed

section \<open>Properties\<close>

text \<open>
  C27. The registry serves a request with a provider of that network and capability that the operator
  configured, on an enabled network, and no other such provider has a smaller priority number;
  it serves nothing only when nothing is configured.
\<close>

theorem registry_resolves_best:
  assumes "from_config env networks pcs = Inr reg"
  shows "(case resolve reg n c of
            Some p \<Rightarrow> (\<exists>pc \<in> set pcs. configured env networks n pc p) \<and> offers c p
              \<and> (\<forall>pc \<in> set pcs. \<forall>q. configured env networks n pc q \<and> offers c q \<longrightarrow> rp_priority p \<le> rp_priority q)
          | None \<Rightarrow> \<not> (\<exists>pc \<in> set pcs. \<exists>q. configured env networks n pc q \<and> offers c q))"
proof (cases "resolve reg n c")
  case None
  then have "find (offers c) (providers_for_network reg n) = None" by (simp add: resolve_find)
  then have "\<not> (\<exists>q. q \<in> set (providers_for_network reg n) \<and> offers c q)" by (simp add: find_None_iff)
  then show ?thesis by (auto simp: None providers_for_network_iff [OF assms])
next
  case (Some p)
  then have f: "find (offers c) (providers_for_network reg n) = Some p" by (simp add: resolve_find)
  then have "p \<in> set (providers_for_network reg n)" "offers c p" by (auto simp: find_Some_iff)
  moreover have "rp_priority p \<le> rp_priority q"
    if "q \<in> set (providers_for_network reg n)" "offers c q" for q
    using find_sorted_least [OF sorted_providers [OF assms] f that] .
  ultimately show ?thesis
    using Some providers_for_network_iff [OF assms, of _ n] by auto
qed

definition sample_config :: app_config where
  "sample_config = default_app_config\<lparr>ac_evm_trace_enabled := True,
     ac_solana_grpc_url := Some ''https://g'', ac_database_url := ''postgres://d''\<rparr>"

lemma registry_of_wellformed:
  "\<forall>pc \<in> set (snd (effective_provider_config cfg)). well_configured pc \<Longrightarrow>
     \<exists>reg. app_provider_registry env cfg = Inr reg"
  by (simp add: app_provider_registry_def from_config_Inr split: prod.splits)

lemma well_configured_plain [simp]:
  "well_configured ((plain_provider n k u pr caps)\<lparr>pc_token_env := te, pc_token := t\<rparr>) \<longleftrightarrow>
     well_configured (plain_provider n k u pr caps)"
  by (simp add: well_configured_def plain_provider_def)

lemma well_configured_plain_iff:
  "well_configured (plain_provider n k u pr caps) \<longleftrightarrow>
     \<not> blank u \<and> caps \<noteq> [] \<and> list_all (\<lambda>s. \<exists>c. provider_capability_from_str s = Inr c) caps
     \<and> (\<exists>x. provider_kind_from_str k = Inr x)"
  by (auto simp: well_configured_def plain_provider_def list_all_iff pc_codec.dec_total pk_codec.dec_total)

lemma builtin_urls: "\<not> blank ''https://api.hyperliquid.xyz''" "\<not> blank ''wss://api.hyperliquid.xyz/ws''"
  by (simp_all add: blank_def trim_def trim_start_def is_whitespace_def)

definition urls_given :: "app_config \<Rightarrow> bool" where
  "urls_given cfg \<longleftrightarrow> \<not> blank (ac_solana_rpc_url cfg) \<and> \<not> blank (ac_evm_rpc_url cfg)
     \<and> (case ac_solana_grpc_url cfg of Some u \<Rightarrow> \<not> blank u | None \<Rightarrow> True)
     \<and> (case ac_evm_trace_rpc_url cfg of Some u \<Rightarrow> \<not> blank u | None \<Rightarrow> True)"

lemma synthesized_wellformed:
  "urls_given cfg \<Longrightarrow> pc \<in> set (synthesized_providers cfg) \<Longrightarrow> well_configured pc"
  by (auto simp: urls_given_def synthesized_providers_def well_configured_plain_iff builtin_urls
        provider_capability_from_str_def provider_kind_from_str_def split: option.splits if_splits)

definition synthesized_registry :: "(string \<Rightarrow> string option) \<Rightarrow> app_config \<Rightarrow> provider_registry \<Rightarrow> bool" where
  "synthesized_registry env cfg reg \<longleftrightarrow>
     from_config env synthesized_networks (synthesized_providers cfg) = Inr reg"

lemma resolve_synthesized:
  assumes "synthesized_registry env cfg reg" and "n \<in> fst ` set synthesized_networks"
  shows "resolve reg n c = find (offers c) (sort_key rp_priority
     (map (projr \<circ> resolve_config env) (filter (\<lambda>pc. pc_network pc = n) (synthesized_providers cfg))))"
proof -
  from assms(2) have "(n, \<lparr>nc_enabled = True\<rparr>) \<in> set synthesized_networks"
    by (auto simp: synthesized_networks_def)
  with assms(1) show ?thesis
    by (simp add: resolve_find synthesized_registry_def providers_for_network_sorted)
qed

lemma resolve_config_plain:
  "\<not> blank u \<Longrightarrow> provider_kind_from_str k = Inr kind \<Longrightarrow> caps = map provider_capability_to_str cs \<Longrightarrow> cs \<noteq> [] \<Longrightarrow>
     resolve_config env ((plain_provider n k u pr caps)\<lparr>pc_token_env := te, pc_token := t\<rparr>) =
       Inr \<lparr>rp_network = n, rp_kind = kind, rp_url = u, rp_priority = pr, rp_capabilities = cs,
            rp_token = (case t of Some x \<Rightarrow> Some x | None \<Rightarrow> Option.bind te env), rp_headers = []\<rparr>"
  by (cases t) (simp_all add: resolve_config_def plain_provider_def provider_token_def
        parse_capabilities_Inr [THEN iffD2] del: parse_capabilities.simps)

lemma plain_tokenless: "plain_provider n k u pr caps =
    (plain_provider n k u pr caps)\<lparr>pc_token_env := None, pc_token := None\<rparr>"
  by (simp add: plain_provider_def)

lemma synthesized_of:
  "filter (\<lambda>pc. pc_network pc = ''solana-mainnet'') (synthesized_providers cfg) =
     plain_provider ''solana-mainnet'' ''rpc'' (ac_solana_rpc_url cfg) 1 [''historical'', ''balances'']
     # (case ac_solana_grpc_url cfg of
          Some u \<Rightarrow> [(plain_provider ''solana-mainnet'' ''grpc'' u 1 [''stream''])
               \<lparr>pc_token_env := Some ''SOLANA_GRPC_TOKEN'', pc_token := ac_solana_grpc_token cfg\<rparr>]
        | None \<Rightarrow> [])"
  "filter (\<lambda>pc. pc_network pc = ''ethereum-mainnet'') (synthesized_providers cfg) =
     plain_provider ''ethereum-mainnet'' ''rpc'' (ac_evm_rpc_url cfg) 1
       [''historical'', ''logs'', ''receipts'', ''balances'']
     # (if ac_evm_trace_enabled cfg
        then [plain_provider ''ethereum-mainnet'' ''trace''
                (case ac_evm_trace_rpc_url cfg of Some u \<Rightarrow> u | None \<Rightarrow> ac_evm_rpc_url cfg)
                2 [''debug_trace_transaction'']]
        else [])"
  by (simp_all add: synthesized_providers_def plain_provider_def split: option.split)

lemma capability_lists:
  "[''historical'', ''balances''] = map provider_capability_to_str [PC_Historical, PC_Balances]"
  "[''stream''] = map provider_capability_to_str [PC_Stream]"
  "[''historical'', ''logs'', ''receipts'', ''balances''] =
     map provider_capability_to_str [PC_Historical, PC_Logs, PC_Receipts, PC_Balances]"
  "[''debug_trace_transaction''] = map provider_capability_to_str [PC_DebugTraceTransaction]"
  by simp_all

lemma solana_rpc_resolved:
  "\<not> blank u \<Longrightarrow> resolve_config env (plain_provider n ''rpc'' u pr [''historical'', ''balances'']) =
     Inr \<lparr>rp_network = n, rp_kind = PK_Rpc, rp_url = u, rp_priority = pr,
          rp_capabilities = [PC_Historical, PC_Balances], rp_token = None, rp_headers = []\<rparr>"
  by (subst plain_tokenless, subst resolve_config_plain [OF _ _ capability_lists(1)])
     (simp_all add: provider_kind_from_str_def)

lemma solana_grpc_resolved:
  "\<not> blank u \<Longrightarrow>
     resolve_config env ((plain_provider n ''grpc'' u pr [''stream''])\<lparr>pc_token_env := te, pc_token := t\<rparr>) =
     Inr \<lparr>rp_network = n, rp_kind = PK_Grpc, rp_url = u, rp_priority = pr,
          rp_capabilities = [PC_Stream],
          rp_token = (case t of Some x \<Rightarrow> Some x | None \<Rightarrow> Option.bind te env), rp_headers = []\<rparr>"
  by (subst resolve_config_plain [OF _ _ capability_lists(2)]) (simp_all add: provider_kind_from_str_def)

lemma evm_rpc_resolved:
  "\<not> blank u \<Longrightarrow>
     resolve_config env (plain_provider n ''rpc'' u pr [''historical'', ''logs'', ''receipts'', ''balances'']) =
     Inr \<lparr>rp_network = n, rp_kind = PK_Rpc, rp_url = u, rp_priority = pr,
          rp_capabilities = [PC_Historical, PC_Logs, PC_Receipts, PC_Balances],
          rp_token = None, rp_headers = []\<rparr>"
  by (subst plain_tokenless, subst resolve_config_plain [OF _ _ capability_lists(3)])
     (simp_all add: provider_kind_from_str_def)

lemma evm_trace_resolved:
  "\<not> blank u \<Longrightarrow>
     resolve_config env (plain_provider n ''trace'' u pr [''debug_trace_transaction'']) =
     Inr \<lparr>rp_network = n, rp_kind = PK_Trace, rp_url = u, rp_priority = pr,
          rp_capabilities = [PC_DebugTraceTransaction], rp_token = None, rp_headers = []\<rparr>"
  by (subst plain_tokenless, subst resolve_config_plain [OF _ _ capability_lists(4)])
     (simp_all add: provider_kind_from_str_def)

lemmas synthesized_resolved = solana_rpc_resolved solana_grpc_resolved evm_rpc_resolved evm_trace_resolved

definition endpoint :: "provider_registry \<Rightarrow> string \<Rightarrow> provider_capability \<Rightarrow> string option" where
  "endpoint reg n c = map_option rp_url (resolve reg n c)"

lemma solana_endpoints:
  assumes "synthesized_registry env cfg reg" and "urls_given cfg"
  shows "endpoint reg ''solana-mainnet'' PC_Historical = Some (ac_solana_rpc_url cfg)"
    and "endpoint reg ''solana-mainnet'' PC_Stream = ac_solana_grpc_url cfg"
  using assms(2)
  by (cases "ac_solana_grpc_url cfg"; simp add: endpoint_def resolve_synthesized [OF assms(1)]
        synthesized_networks_def synthesized_of urls_given_def synthesized_resolved sort_key_def offers_def)+

lemma ethereum_endpoints:
  assumes "synthesized_registry env cfg reg" and "urls_given cfg"
  shows "endpoint reg ''ethereum-mainnet'' PC_Logs = Some (ac_evm_rpc_url cfg)"
    and "endpoint reg ''ethereum-mainnet'' PC_DebugTraceTransaction =
      (if ac_evm_trace_enabled cfg
       then Some (case ac_evm_trace_rpc_url cfg of Some u \<Rightarrow> u | None \<Rightarrow> ac_evm_rpc_url cfg) else None)"
  using assms(2)
  by (cases "ac_evm_trace_rpc_url cfg"; simp add: endpoint_def resolve_synthesized [OF assms(1)]
        synthesized_networks_def synthesized_of urls_given_def synthesized_resolved sort_key_def offers_def)+

text \<open>
  A configuration with only the legacy fields gives a registry in which each field is the endpoint
  of its capability: Solana history and stream, EVM logs, and EVM traces when they are enabled.
\<close>

theorem legacy_fields_served:
  assumes "ac_networks cfg = []" and "ac_providers cfg = []" and "urls_given cfg"
  shows "case app_provider_registry env cfg of
      Inl _ \<Rightarrow> False
    | Inr reg \<Rightarrow>
        endpoint reg ''solana-mainnet'' PC_Historical = Some (ac_solana_rpc_url cfg)
        \<and> endpoint reg ''solana-mainnet'' PC_Stream = ac_solana_grpc_url cfg
        \<and> endpoint reg ''ethereum-mainnet'' PC_Logs = Some (ac_evm_rpc_url cfg)
        \<and> endpoint reg ''ethereum-mainnet'' PC_DebugTraceTransaction =
            (if ac_evm_trace_enabled cfg
             then Some (case ac_evm_trace_rpc_url cfg of Some u \<Rightarrow> u | None \<Rightarrow> ac_evm_rpc_url cfg) else None)"
proof -
  have e: "effective_provider_config cfg = (synthesized_networks, synthesized_providers cfg)"
    using assms(1,2) by (simp add: effective_provider_config_def)
  with assms(3) obtain reg where r: "app_provider_registry env cfg = Inr reg"
    using registry_of_wellformed [of cfg env] synthesized_wellformed [of cfg] by auto
  with e have "synthesized_registry env cfg reg"
    by (simp add: app_provider_registry_def synthesized_registry_def)
  with r assms(3) show ?thesis by (simp add: solana_endpoints ethereum_endpoints)
qed

lemma sample_urls: "urls_given sample_config"
  by (simp add: urls_given_def sample_config_def default_app_config_def default_solana_rpc_url_def
        default_evm_rpc_url_def blank_def trim_def trim_start_def is_whitespace_def)

lemma sample_registry_wf: "\<forall>pc \<in> set (snd (effective_provider_config sample_config)). well_configured pc"
  using synthesized_wellformed [OF sample_urls]
  by (simp add: effective_provider_config_def sample_config_def default_app_config_def)

theorem legacy_fields_served_witness:
  "case app_provider_registry (\<lambda>_. None) sample_config of
     Inl _ \<Rightarrow> False
   | Inr reg \<Rightarrow> endpoint reg ''solana-mainnet'' PC_Stream = Some ''https://g''
       \<and> endpoint reg ''ethereum-mainnet'' PC_DebugTraceTransaction = Some ''https://eth.llamarpc.com''"
proof -
  have n: "ac_networks sample_config = []" "ac_providers sample_config = []"
    by (simp_all add: sample_config_def default_app_config_def)
  show ?thesis
    using legacy_fields_served [OF n sample_urls, of "\<lambda>_. None"]
    by (simp add: sample_config_def default_app_config_def default_evm_rpc_url_def split: sum.splits)
qed

definition two_endpoints :: "provider_config list" where
  "two_endpoints = [plain_provider ''n'' ''rpc'' ''u'' 5 [''logs''], plain_provider ''n'' ''rpc'' ''v'' 2 [''logs'']]"

definition two_registry :: provider_registry where
  "two_registry = projr (from_config (\<lambda>_. None) [(''n'', \<lparr>nc_enabled = True\<rparr>)] two_endpoints)"

lemma two_registry_ok:
  "from_config (\<lambda>_. None) [(''n'', \<lparr>nc_enabled = True\<rparr>)] two_endpoints = Inr two_registry"
proof -
  have "\<forall>pc \<in> set two_endpoints. well_configured pc"
    by (simp add: two_endpoints_def well_configured_plain_iff blank_def trim_def trim_start_def is_whitespace_def
          provider_capability_from_str_def provider_kind_from_str_def)
  then have "\<exists>reg. from_config (\<lambda>_. None) [(''n'', \<lparr>nc_enabled = True\<rparr>)] two_endpoints = Inr reg"
    by (simp add: from_config_Inr)
  then show ?thesis by (auto simp: two_registry_def)
qed

theorem registry_resolves_best_witness:
  "map_option rp_url (resolve two_registry ''n'' PC_Logs) = Some ''v''
   \<and> (case resolve two_registry ''n'' PC_Logs of
        Some p \<Rightarrow> (\<forall>pc \<in> set two_endpoints. \<forall>q. configured (\<lambda>_. None) [(''n'', \<lparr>nc_enabled = True\<rparr>)] ''n'' pc q
                    \<and> offers PC_Logs q \<longrightarrow> rp_priority p \<le> rp_priority q)
      | None \<Rightarrow> False)"
proof -
  have c: "[''logs''] = map provider_capability_to_str [PC_Logs]" by simp
  have "resolve_config (\<lambda>_. None) (plain_provider ''n'' ''rpc'' u pr [''logs'']) =
      Inr \<lparr>rp_network = ''n'', rp_kind = PK_Rpc, rp_url = u, rp_priority = pr,
          rp_capabilities = [PC_Logs], rp_token = None, rp_headers = []\<rparr>" if "\<not> blank u" for u pr
    using that by (subst plain_tokenless, subst resolve_config_plain [OF _ _ c])
      (simp_all add: provider_kind_from_str_def)
  moreover have "\<not> blank ''u''" "\<not> blank ''v''"
    by (simp_all add: blank_def trim_def trim_start_def is_whitespace_def)
  ultimately have v: "map_option rp_url (resolve two_registry ''n'' PC_Logs) = Some ''v''"
    by (simp add: resolve_find providers_for_network_sorted [OF two_registry_ok] two_endpoints_def
          sort_key_def offers_def) (simp add: plain_provider_def)
  then obtain p where "resolve two_registry ''n'' PC_Logs = Some p" by auto
  with v registry_resolves_best [OF two_registry_ok, of "''n''" PC_Logs] show ?thesis by simp
qed

text \<open>
  A context is the registry seen from one network: it exists for enabled networks only and hands
  out the best provider of each capability, with its URL and its token.
\<close>

theorem context_is_registry_view:
  "(case context_from_registry reg n of
      None \<Rightarrow> \<not> is_network_enabled reg n
    | Some cx \<Rightarrow> is_network_enabled reg n \<and> cx_network cx = n
        \<and> cx_provider cx c = resolve reg n c
        \<and> cx_url cx c = map_option rp_url (resolve reg n c)
        \<and> cx_token cx c = Option.bind (resolve reg n c) rp_token
        \<and> cx_has_capability cx c = registry_has_capability reg n c)"
proof (cases "context_from_registry reg n")
  case None
  then show ?thesis by (auto simp: context_from_registry_def split: if_splits)
next
  case (Some cx)
  then show ?thesis
    using context_provider [OF Some, of c]
    by (auto simp: context_from_registry_def cx_provider_def cx_url_def cx_token_def
          cx_has_capability_def registry_has_capability_def split: if_splits)
qed

definition same_entry :: "string \<Rightarrow> string \<Rightarrow> bool" where
  "same_entry wallet e \<longleftrightarrow>
     (if starts_with wallet ''0x'' \<or> starts_with wallet ''0X''
      then eq_ignore_ascii_case (trim e) wallet else trim e = wallet)"

definition evm_prefix :: "string \<Rightarrow> bool" where
  "evm_prefix s \<longleftrightarrow> starts_with s ''0x'' \<or> starts_with s ''0X''"

lemma lower_zero: "lower_char c = CHR ''0'' \<longleftrightarrow> c = CHR ''0''"
proof
  assume "lower_char c = CHR ''0''"
  then have "(of_char c :: nat) = of_char CHR ''0''"
    using of_char_lower_char [of c] by (simp split: if_splits)
  then show "c = CHR ''0''" by (simp only: of_char_eq_iff)
qed (simp add: lower_char_def)

lemma lower_x: "lower_char c = CHR ''x'' \<longleftrightarrow> c = CHR ''x'' \<or> c = CHR ''X''"
proof
  assume "lower_char c = CHR ''x''"
  then have "(of_char c :: nat) = of_char CHR ''x'' \<or> (of_char c :: nat) = of_char CHR ''X''"
    using of_char_lower_char [of c] by (simp split: if_splits)
  then show "c = CHR ''x'' \<or> c = CHR ''X''" by (simp only: of_char_eq_iff)
next
  have "lower_char CHR ''X'' = CHR ''x''" "lower_char CHR ''x'' = CHR ''x''" by code_simp+
  then show "c = CHR ''x'' \<or> c = CHR ''X'' \<Longrightarrow> lower_char c = CHR ''x''" by auto
qed

lemma evm_prefix_lower: "evm_prefix s \<longleftrightarrow> (\<exists>t. to_lowercase s = ''0x'' @ t)"
proof -
  have "(\<exists>t. to_lowercase s = ''0x'' @ t) \<longleftrightarrow>
      (\<exists>a b t. s = a # b # t \<and> lower_char a = CHR ''0'' \<and> lower_char b = CHR ''x'')"
    by (auto simp: to_lowercase_def map_eq_Cons_conv)
  also have "\<dots> \<longleftrightarrow> evm_prefix s"
    by (auto simp: lower_zero lower_x evm_prefix_def starts_with_iff)
  finally show ?thesis by simp
qed

lemma wallet_set_entry_alt:
  "wallet_set_entry w = (if evm_prefix (trim w) then to_lowercase (trim w) else trim w)"
  by (simp add: wallet_set_entry_def Let_def evm_prefix_def)

lemma evm_prefix_to_lowercase [simp]: "evm_prefix (to_lowercase s) \<longleftrightarrow> evm_prefix s"
  by (simp add: evm_prefix_lower)

lemma lower_eq_prefix: "to_lowercase s = to_lowercase t \<Longrightarrow> evm_prefix s \<longleftrightarrow> evm_prefix t"
  by (simp add: evm_prefix_lower)

lemma wallet_key_entry:
  "(if evm_prefix wallet then to_lowercase wallet else wallet) = wallet_set_entry e \<longleftrightarrow> same_entry wallet e"
proof (cases "evm_prefix wallet")
  case True
  then have "starts_with wallet ''0x'' \<or> starts_with wallet ''0X''" by (simp add: evm_prefix_def)
  with True show ?thesis
    using lower_eq_prefix [of "trim e" wallet] evm_prefix_to_lowercase [of wallet]
    by (auto simp: wallet_set_entry_alt same_entry_def eq_ignore_ascii_case_def simp del: evm_prefix_to_lowercase)
next
  case False
  then have "\<not> (starts_with wallet ''0x'' \<or> starts_with wallet ''0X'')" by (simp add: evm_prefix_def)
  with False show ?thesis
    using evm_prefix_to_lowercase [of "trim e"]
    by (auto simp: wallet_set_entry_alt same_entry_def simp del: evm_prefix_to_lowercase)
qed

lemma check_wallet_allowed_alt:
  "check_wallet_allowed wallet (Some ws) = Inr () \<longleftrightarrow>
     (if evm_prefix wallet then to_lowercase wallet else wallet) \<in> set ws"
  by (simp add: check_wallet_allowed_def Let_def evm_prefix_def)

text \<open>
  The operator's wallet list means what it says: without a list every wallet passes; with one, a
  wallet passes when an entry, trimmed, is the wallet, up to the case of EVM addresses.
\<close>

theorem allowed_wallets_honoured:
  assumes "wallet \<noteq> []"
  shows "check_wallet_allowed wallet (allowed_wallets_set cfg) = Inr () \<longleftrightarrow>
     (case ac_allowed_wallets cfg of
        None \<Rightarrow> True
      | Some s \<Rightarrow> list_ex (same_entry wallet) (split_comma [] s))"
proof (cases "ac_allowed_wallets cfg")
  case None
  then show ?thesis by (simp add: allowed_wallets_set_def check_wallet_allowed_def)
next
  case (Some s)
  let ?key = "if evm_prefix wallet then to_lowercase wallet else wallet"
  have "?key \<noteq> []" using assms by (simp add: to_lowercase_def)
  then have "?key \<in> set (filter (\<lambda>w. w \<noteq> []) (map wallet_set_entry (split_comma [] s))) \<longleftrightarrow>
      (\<exists>e \<in> set (split_comma [] s). ?key = wallet_set_entry e)" by auto
  then show ?thesis
    by (simp add: Some allowed_wallets_set_def check_wallet_allowed_alt wallet_key_entry list_ex_iff)
qed

theorem allowed_wallets_honoured_witness:
  "check_wallet_allowed ''0xAb'' (allowed_wallets_set (sample_config\<lparr>ac_allowed_wallets := Some ''So1, 0XaB''\<rparr>)) = Inr ()"
proof -
  have "list_ex (same_entry ''0xAb'') (split_comma [] ''So1, 0XaB'')" by code_simp
  then show ?thesis by (subst allowed_wallets_honoured) simp_all
qed

end
