(* ===== verification/Callbacks.thy ===== *)
theory Callbacks
  imports Api_Access "HOL-Library.Sublist"
begin

unbundle bit_operations_syntax

text \<open>
  Outgoing requests and export sinks (\<open>api/src/main.rs\<close>): the address filter and the pinned client
  that keep callbacks away from private networks, the delivery of a callback with retries, header
  and path validation of export sinks, and the construction of a sink.

  The URL parser and the DNS are arguments. Addresses are their 32 and 128 bits; reading and
  printing an address are arguments too, related by the round trip that the standard library
  documents where a property needs it.
\<close>

section \<open>Addresses\<close>

datatype ip_addr = V4 "32 word" | V6 "128 word"

definition v4_octet :: "nat \<Rightarrow> 32 word \<Rightarrow> nat" where
  "v4_octet i a = unat (take_bit 8 (drop_bit (8 * (3 - i)) a))"

definition v6_segment :: "nat \<Rightarrow> 128 word \<Rightarrow> 128 word" where
  "v6_segment i a = take_bit 16 (drop_bit (16 * (7 - i)) a)"

definition v4_is_loopback :: "32 word \<Rightarrow> bool" where
  "v4_is_loopback a \<longleftrightarrow> v4_octet 0 a = 127"

definition v4_is_private :: "32 word \<Rightarrow> bool" where
  "v4_is_private a \<longleftrightarrow> v4_octet 0 a = 10
     \<or> v4_octet 0 a = 172 \<and> v4_octet 1 a \<ge> 16 \<and> v4_octet 1 a \<le> 31
     \<or> v4_octet 0 a = 192 \<and> v4_octet 1 a = 168"

definition v4_is_link_local :: "32 word \<Rightarrow> bool" where
  "v4_is_link_local a \<longleftrightarrow> v4_octet 0 a = 169 \<and> v4_octet 1 a = 254"

definition v4_denied :: "32 word \<Rightarrow> bool" where
  "v4_denied a \<longleftrightarrow> v4_is_loopback a \<or> v4_is_private a \<or> v4_is_link_local a \<or> a = 0xffffffff \<or> a = 0"

text \<open>\<open>to_ipv4\<close>: the compatible and the mapped addresses.\<close>

definition v6_to_ipv4 :: "128 word \<Rightarrow> 32 word option" where
  "v6_to_ipv4 a = (if drop_bit 32 a = 0 \<or> drop_bit 32 a = 0xffff then Some (ucast a) else None)"

definition v6_denied :: "128 word \<Rightarrow> bool" where
  "v6_denied a \<longleftrightarrow> a = 1 \<or> a = 0
     \<or> v6_segment 0 a AND 0xfe00 = 0xfc00
     \<or> v6_segment 0 a AND 0xffc0 = 0xfe80
     \<or> v6_segment 0 a AND 0xff00 = 0xff00
     \<or> (case v6_to_ipv4 a of Some v4 \<Rightarrow> v4_denied v4 | None \<Rightarrow> False)"

fun ip_denied :: "ip_addr \<Rightarrow> bool" where
  "ip_denied (V4 a) = v4_denied a"
| "ip_denied (V6 a) = v6_denied a"

definition is_private_ip :: "(string \<Rightarrow> ip_addr option) \<Rightarrow> string \<Rightarrow> bool" where
  "is_private_ip parse_ip host \<longleftrightarrow>
     (case parse_ip host of Some ip \<Rightarrow> ip_denied ip | None \<Rightarrow> host = ''localhost'')"

section \<open>Callback URLs\<close>

record url =
  url_scheme :: string
  url_host :: "string option"
  url_port :: "nat option"

text \<open>What the code reads of its surroundings: URL parser, address parser and printer.\<close>

record net_env =
  ne_parse_url :: "string \<Rightarrow> url option"
  ne_parse_ip :: "string \<Rightarrow> ip_addr option"
  ne_show_ip :: "ip_addr \<Rightarrow> string"

definition lookup_name :: "string \<Rightarrow> nat \<Rightarrow> string" where
  "lookup_name host port = host @ '':'' @ show_nat port"

definition resolve_and_validate_callback_url ::
    "net_env \<Rightarrow> (string \<Rightarrow> ip_addr list result) \<Rightarrow> string \<Rightarrow> app_error + string \<times> nat \<times> ip_addr list" where
  "resolve_and_validate_callback_url env dns u =
     (case ne_parse_url env u of
        None \<Rightarrow> Inl (err_bad_request ''callback_url must be a valid HTTP(S) URL'')
      | Some parsed \<Rightarrow>
          if url_scheme parsed \<noteq> ''https'' \<and> url_scheme parsed \<noteq> ''http''
          then Inl (err_bad_request ''callback_url must be a valid HTTP(S) URL'')
          else case url_host parsed of
            None \<Rightarrow> Inl (err_bad_request ''callback_url must contain a hostname'')
          | Some host \<Rightarrow>
              if is_private_ip (ne_parse_ip env) host
              then Inl (err_bad_request ''callback_url must not target private/loopback addresses'')
              else let port = (case url_port parsed of Some p \<Rightarrow> p | None \<Rightarrow> 443)
                in case dns (lookup_name host port) of
                  Inl e \<Rightarrow> Inl (err_bad_request (''callback_url hostname failed DNS resolution: '' @ e))
                | Inr resolved \<Rightarrow>
                    if resolved = [] then Inl (err_bad_request ''callback_url hostname resolved to no addresses'')
                    else if list_ex (\<lambda>a. is_private_ip (ne_parse_ip env) (ne_show_ip env a)) resolved
                    then Inl (err_bad_request ''callback_url must not resolve to private/loopback addresses'')
                    else Inr (host, port, resolved))"

definition validate_callback_url ::
    "net_env \<Rightarrow> (string \<Rightarrow> ip_addr list result) \<Rightarrow> string \<Rightarrow> app_error + unit" where
  "validate_callback_url env dns u = map_sum id (\<lambda>_. ()) (resolve_and_validate_callback_url env dns u)"

text \<open>The client: the host it is pinned for, the addresses it connects to, and no redirects.\<close>

record client =
  cl_host :: string
  cl_addrs :: "ip_addr list"
  cl_timeout :: nat
  cl_redirects :: bool

definition build_ssrf_safe_client ::
    "net_env \<Rightarrow> (string \<Rightarrow> ip_addr list result) \<Rightarrow> string \<Rightarrow> nat \<Rightarrow> client result" where
  "build_ssrf_safe_client env dns u timeout =
     (case ne_parse_url env u of
        None \<Rightarrow> Inl ''invalid URL''
      | Some parsed \<Rightarrow> (case url_host parsed of
          None \<Rightarrow> Inl ''URL has no hostname''
        | Some host \<Rightarrow>
            if is_private_ip (ne_parse_ip env) host then Inl ''hostname is a private/loopback address''
            else let port = (case url_port parsed of Some p \<Rightarrow> p | None \<Rightarrow> 443)
              in case dns (lookup_name host port) of
                Inl e \<Rightarrow> Inl (''DNS resolution failed for '' @ host @ '': '' @ e)
              | Inr resolved \<Rightarrow>
                  if resolved = [] then Inl (''DNS resolution returned no addresses for '' @ host)
                  else case find (\<lambda>a. is_private_ip (ne_parse_ip env) (ne_show_ip env a)) resolved of
                      Some a \<Rightarrow> Inl (''hostname '' @ host @ '' resolves to private address '' @ ne_show_ip env a)
                    | None \<Rightarrow> Inr \<lparr>cl_host = host, cl_addrs = resolved, cl_timeout = timeout, cl_redirects = False\<rparr>))"

section \<open>Delivery\<close>

definition u64_max :: nat where
  "u64_max = 2 ^ 64 - 1"

definition retry_backoff_delay :: "nat \<Rightarrow> nat \<Rightarrow> nat" where
  "retry_backoff_delay base attempt = min u64_max (base * min u64_max (2 ^ attempt))"

text \<open>A request ends with the status of the response or fails.\<close>

datatype send_result = Response nat | Send_Error

definition is_success :: "nat \<Rightarrow> bool" where
  "is_success st \<longleftrightarrow> 200 \<le> st \<and> st < 300"

definition is_redirection :: "nat \<Rightarrow> bool" where
  "is_redirection st \<longleftrightarrow> 300 \<le> st \<and> st < 400"

definition is_client_error :: "nat \<Rightarrow> bool" where
  "is_client_error st \<longleftrightarrow> 400 \<le> st \<and> st < 500"

definition MAX_RETRIES :: nat where
  "MAX_RETRIES = 3"

definition BASE_DELAY_MS :: nat where
  "BASE_DELAY_MS = 500"

text \<open>
  The loop, as the trace of what it does: the requests and the pauses in milliseconds. \<open>send n\<close>
  is the outcome of the n-th request.
\<close>

datatype callback_event = Post client | Sleep nat

definition retry_pause :: "nat \<Rightarrow> callback_event list" where
  "retry_pause attempt =
     (if attempt + 1 < MAX_RETRIES then [Sleep (retry_backoff_delay BASE_DELAY_MS attempt)] else [])"

function callback_attempts :: "(nat \<Rightarrow> send_result) \<Rightarrow> client \<Rightarrow> nat \<Rightarrow> callback_event list" where
  "callback_attempts send cl attempt =
     (if attempt \<ge> MAX_RETRIES then []
      else Post cl # (case send attempt of
          Response st \<Rightarrow>
            if is_success st \<or> is_redirection st then []
            else if is_client_error st then []
            else retry_pause attempt @ callback_attempts send cl (Suc attempt)
        | Send_Error \<Rightarrow> retry_pause attempt @ callback_attempts send cl (Suc attempt)))"
  by pat_completeness auto
termination
  by (relation "measure (\<lambda>(_, _, attempt). MAX_RETRIES - attempt)") auto

declare callback_attempts.simps [simp del]

definition fire_callback ::
    "net_env \<Rightarrow> (string \<Rightarrow> ip_addr list result) \<Rightarrow> (nat \<Rightarrow> send_result) \<Rightarrow> string \<Rightarrow> callback_event list" where
  "fire_callback env dns send u =
     (case build_ssrf_safe_client env dns u 10 of Inl _ \<Rightarrow> [] | Inr cl \<Rightarrow> callback_attempts send cl 0)"

section \<open>Sinks\<close>

definition FORBIDDEN_HEADER_NAMES :: "string list" where
  "FORBIDDEN_HEADER_NAMES = [''authorization'', ''cookie'', ''host'', ''content-length'', ''transfer-encoding'',
     ''set-cookie'', ''x-forwarded-for'', ''x-forwarded-proto'', ''x-forwarded-host'']"

definition is_valid_header_name :: "string \<Rightarrow> bool" where
  "is_valid_header_name name \<longleftrightarrow>
     name \<noteq> [] \<and> list_all (\<lambda>c. is_ascii_alphanumeric c \<or> c = CHR ''-'' \<or> c = CHR ''_'') name"

definition is_control :: "char \<Rightarrow> bool" where
  "is_control c \<longleftrightarrow> (of_char c :: nat) < 32 \<or> (of_char c :: nat) = 127"

definition is_valid_header_value :: "string \<Rightarrow> bool" where
  "is_valid_header_value v \<longleftrightarrow> list_all (\<lambda>c. \<not> is_control c \<or> c = CHR 0x09) v"

fun validate_headers :: "(string \<times> string) list \<Rightarrow> app_error + unit" where
  "validate_headers [] = Inr ()"
| "validate_headers ((name, v) # hs) =
     (if to_lowercase name \<in> set FORBIDDEN_HEADER_NAMES then Inl (err_bad_request (''Forbidden webhook header: '' @ name))
      else if \<not> is_valid_header_name name
      then Inl (err_bad_request (''Invalid header name: '' @ name @ ''. Header names must contain only [a-zA-Z0-9-_]''))
      else if \<not> is_valid_header_value v
      then Inl (err_bad_request (''Invalid header value for '' @ name @ '': header values must not contain control characters''))
      else validate_headers hs)"

text \<open>
  A path below the root is the list of its components; \<open>components\<close> splits a relative path and
  drops empty and \<open>.\<close> components. \<open>canon\<close> is \<open>canonicalize\<close>: the real path of an existing path.
  \<open>mkdir\<close> says whether the export directory can be created.
\<close>

type_synonym path = "string list"

fun split_slash :: "string \<Rightarrow> string \<Rightarrow> string list" where
  "split_slash acc [] = [acc]"
| "split_slash acc (c # cs) = (if c = CHR ''/'' then acc # split_slash [] cs else split_slash (acc @ [c]) cs)"

definition components :: "string \<Rightarrow> path" where
  "components p = filter (\<lambda>c. c \<noteq> [] \<and> c \<noteq> ''.'') (split_slash [] p)"

definition trim_slashes :: "string \<Rightarrow> string" where
  "trim_slashes p = dropWhile (\<lambda>c. c = CHR ''/'') p"

function ancestor_inside :: "(path \<Rightarrow> path option) \<Rightarrow> path \<Rightarrow> path \<Rightarrow> bool" where
  "ancestor_inside canon root check =
     (case canon check of
        Some resolved \<Rightarrow> prefix root resolved
      | None \<Rightarrow> if check = [] then False else ancestor_inside canon root (butlast check))"
  by pat_completeness auto
termination
  by (relation "measure (\<lambda>(_, _, check). length check)") auto

declare ancestor_inside.simps [simp del]

definition outside_error :: app_error where
  "outside_error = err_bad_request ''file_path resolves outside the configured export directory''"

definition validate_export_file_path ::
    "(path \<Rightarrow> bool) \<Rightarrow> (path \<Rightarrow> path option) \<Rightarrow> string \<Rightarrow> path \<Rightarrow> app_error + unit" where
  "validate_export_file_path mkdir canon p export_dir =
     (if CHR 0x00 \<in> set p then Inl (err_bad_request ''file_path must not contain null bytes'')
      else if contains_str p ''..'' then Inl (err_bad_request (''file_path must not contain '' @ quoted ''..'' @ '' path traversal''))
      else if \<not> mkdir export_dir then Inl (err_bad_request ''Cannot create export directory'')
      else case canon export_dir of
          None \<Rightarrow> Inl (err_bad_request ''Cannot resolve export directory'')
        | Some root \<Rightarrow>
            if ancestor_inside canon root (root @ components (trim_slashes p)) then Inr () else Inl outside_error)"

definition validate_sink_config ::
    "net_env \<Rightarrow> (string \<Rightarrow> ip_addr list result) \<Rightarrow> (path \<Rightarrow> bool) \<Rightarrow> (path \<Rightarrow> path option) \<Rightarrow> sink_config \<Rightarrow> path \<Rightarrow> app_error + unit" where
  "validate_sink_config env dns mkdir canon c export_dir =
     (case validate_sink c of
        Inl e \<Rightarrow> Inl (err_bad_request (''Invalid sink config: '' @ e))
      | Inr _ \<Rightarrow> (case sc_sink_type c of
          Sink_Webhook \<Rightarrow>
            (case (case sc_url c of Some u \<Rightarrow> validate_callback_url env dns u | None \<Rightarrow> Inr ()) of
               Inl e \<Rightarrow> Inl e
             | Inr _ \<Rightarrow> (case sc_headers c of Some hs \<Rightarrow> validate_headers hs | None \<Rightarrow> Inr ()))
        | Sink_LocalFile \<Rightarrow>
            (case sc_file_path c of Some p \<Rightarrow> validate_export_file_path mkdir canon p export_dir | None \<Rightarrow> Inr ())
        | Sink_Database \<Rightarrow> Inl (err_bad_request ''Database sink is not yet implemented. Use local_file or webhook.'')))"

datatype export_sink = LocalFileSink path | WebhookSink string "(string \<times> string) list option"

definition build_sink :: "(path \<Rightarrow> path option) \<Rightarrow> sink_config \<Rightarrow> path \<Rightarrow> export_sink result" where
  "build_sink canon c export_dir =
     (case sc_sink_type c of
        Sink_LocalFile \<Rightarrow> (case sc_file_path c of
            None \<Rightarrow> Inl ''LocalFile sink requires file_path''
          | Some p \<Rightarrow> (case canon export_dir of
              None \<Rightarrow> Inl ''Cannot resolve export directory''
            | Some root \<Rightarrow> Inr (LocalFileSink (root @ components (trim_slashes p)))))
      | Sink_Webhook \<Rightarrow> (case sc_url c of
            None \<Rightarrow> Inl ''Webhook sink requires url''
          | Some u \<Rightarrow> Inr (WebhookSink u (sc_headers c)))
      | Sink_Database \<Rightarrow> Inl ''Database sink is not yet implemented at runtime'')"

section \<open>Address ranges\<close>

text \<open>The ranges the filter refuses, as numbers.\<close>

definition private_v4 :: "nat set" where
  "private_v4 = {0, 0xffffffff} \<union> {0x0a000000..0x0affffff} \<union> {0x7f000000..0x7fffffff}
     \<union> {0xa9fe0000..0xa9feffff} \<union> {0xac100000..0xac1fffff} \<union> {0xc0a80000..0xc0a8ffff}"

definition private_v6 :: "nat set" where
  "private_v6 = {0, 1} \<union> {0xfc00 * 2 ^ 112 ..< 0xfe00 * 2 ^ 112} \<union> {0xfe80 * 2 ^ 112 ..< 0xfec0 * 2 ^ 112}
     \<union> {0xff00 * 2 ^ 112 ..< 2 ^ 128}
     \<union> {n. n < 2 ^ 32 \<and> n \<in> private_v4} \<union> {0xffff * 2 ^ 32 + n | n. n < 2 ^ 32 \<and> n \<in> private_v4}"

fun private_address :: "ip_addr \<Rightarrow> bool" where
  "private_address (V4 a) \<longleftrightarrow> unat a \<in> private_v4"
| "private_address (V6 a) \<longleftrightarrow> unat a \<in> private_v6"

lemma unat_v4_octets:
  "v4_octet 0 a = unat a div 2 ^ 24" "v4_octet 1 a = unat a div 2 ^ 16 mod 256"
proof -
  have "unat a < 2 ^ 32" by (rule order_less_le_trans [OF unsigned_less]) simp
  then have "unat a div 2 ^ 24 < 256" by (simp add: less_mult_imp_div_less)
  then show "v4_octet 0 a = unat a div 2 ^ 24"
    by (simp add: v4_octet_def unsigned_take_bit_eq unat_drop_bit_eq take_bit_nat_def drop_bit_nat_def)
  show "v4_octet 1 a = unat a div 2 ^ 16 mod 256"
    by (simp add: v4_octet_def unsigned_take_bit_eq unat_drop_bit_eq take_bit_nat_def drop_bit_nat_def)
qed

lemma octet_pair:
  fixes m :: nat
  shows "m div 256 = p \<and> lo \<le> m mod 256 \<and> m mod 256 \<le> hi \<longleftrightarrow> 256 * p + lo \<le> m \<and> m \<le> 256 * p + hi \<and> m div 256 = p"
proof -
  have "256 * (m div 256) + m mod 256 = m" by simp
  then show ?thesis by (intro iffI conjI; elim conjE; (assumption | linarith))
qed

lemma v4_denied_range: "v4_denied a \<longleftrightarrow> unat a \<in> private_v4"
proof -
  let ?n = "unat a"
  have pair: "?n div 2 ^ 24 = p \<and> lo \<le> ?n div 2 ^ 16 mod 256 \<and> ?n div 2 ^ 16 mod 256 \<le> hi \<longleftrightarrow>
      256 * p + lo \<le> ?n div 65536 \<and> ?n div 65536 \<le> 256 * p + hi \<and> ?n div 65536 div 256 = p" for p lo hi
    using octet_pair [of "?n div 65536" p lo hi] by (simp add: div_mult2_eq [symmetric])
  have one: "x = k \<longleftrightarrow> k \<le> x \<and> x \<le> k" for x k :: nat by auto
  have lb: "?n div 2 ^ 24 = 127 \<longleftrightarrow> ?n \<in> {0x7f000000..0x7fffffff}"
    and ten: "?n div 2 ^ 24 = 10 \<longleftrightarrow> ?n \<in> {0x0a000000..0x0affffff}"
    by auto
  have ll: "?n div 2 ^ 24 = 169 \<and> ?n div 2 ^ 16 mod 256 = 254 \<longleftrightarrow> ?n \<in> {0xa9fe0000..0xa9feffff}"
    unfolding one [of "?n div 2 ^ 16 mod 256"] pair by auto
  have c: "?n div 2 ^ 24 = 192 \<and> ?n div 2 ^ 16 mod 256 = 168 \<longleftrightarrow> ?n \<in> {0xc0a80000..0xc0a8ffff}"
    unfolding one [of "?n div 2 ^ 16 mod 256"] pair by auto
  have b: "?n div 2 ^ 24 = 172 \<and> 16 \<le> ?n div 2 ^ 16 mod 256 \<and> ?n div 2 ^ 16 mod 256 \<le> 31 \<longleftrightarrow> ?n \<in> {0xac100000..0xac1fffff}"
    unfolding pair by auto
  have w: "a = 0xffffffff \<longleftrightarrow> ?n = 0xffffffff" "a = 0 \<longleftrightarrow> ?n = 0"
    by (simp_all add: word_unat_eq_iff)
  show ?thesis
    unfolding v4_denied_def v4_is_loopback_def v4_is_private_def v4_is_link_local_def unat_v4_octets private_v4_def
      lb ten ll b c w Un_iff insert_iff empty_iff by argo
qed

lemma and_field: "(x :: 'a :: len word) AND push_bit n (mask m) = push_bit n (take_bit m (drop_bit n x))"
  by (rule bit_word_eqI) (auto simp: bit_simps)

lemma segment_field:
  assumes "unat a div 2 ^ (112 + n) mod 2 ^ m = k" "n + m \<le> 16"
  shows "v6_segment 0 a AND push_bit n (mask m) = push_bit n (word_of_nat k)"
proof -
  have "unat (take_bit m (drop_bit n (v6_segment 0 a))) = (unat a div 2 ^ 112 mod 2 ^ 16) div 2 ^ n mod 2 ^ m"
    by (simp add: v6_segment_def unsigned_take_bit_eq unat_drop_bit_eq take_bit_nat_def drop_bit_nat_def)
  also have "unat a div 2 ^ 112 mod 2 ^ 16 = unat a div 2 ^ 112"
  proof -
    have "unat a < 2 ^ 128" by (rule order_less_le_trans [OF unsigned_less]) simp
    then show ?thesis by (simp add: less_mult_imp_div_less)
  qed
  also have "unat a div 2 ^ 112 div 2 ^ n mod 2 ^ m = k" using assms(1) by (simp add: div_mult2_eq power_add)
  finally have "take_bit m (drop_bit n (v6_segment 0 a)) = word_of_nat k" by (metis of_nat_unat ucast_id)
  then show ?thesis by (simp only: and_field)
qed

lemma field_range:
  fixes x :: nat
  assumes "lo * 2 ^ n \<le> x" "x < Suc lo * 2 ^ n" "lo < 2 ^ m"
  shows "x div 2 ^ n mod 2 ^ m = lo"
proof -
  have "x div 2 ^ n = lo" using assms(1,2) by (intro div_nat_eqI) (simp_all add: mult.commute)
  then show ?thesis using assms(3) by simp
qed

lemma v6_prefix_denied:
  "unat a \<in> {0xfc00 * 2 ^ 112 ..< 0xfe00 * 2 ^ 112} \<Longrightarrow> v6_denied a"
  "unat a \<in> {0xfe80 * 2 ^ 112 ..< 0xfec0 * 2 ^ 112} \<Longrightarrow> v6_denied a"
  "unat a \<in> {0xff00 * 2 ^ 112 ..< 2 ^ 128} \<Longrightarrow> v6_denied a"
proof -
  have seg: "v6_segment 0 a AND push_bit n (mask m) = push_bit n (word_of_nat lo)"
    if "lo * 2 ^ (112 + n) \<le> unat a" "unat a < Suc lo * 2 ^ (112 + n)" "lo < 2 ^ m" "n + m \<le> 16" for lo n m
    using segment_field [OF field_range [OF that(1-3)] that(4)] .
  show "v6_denied a" if r: "unat a \<in> {0xfc00 * 2 ^ 112 ..< 0xfe00 * 2 ^ 112}"
    using seg [of 126 9 7] r by (simp add: v6_denied_def push_bit_eq_mult mask_eq_exp_minus_1)
  show "v6_denied a" if r: "unat a \<in> {0xfe80 * 2 ^ 112 ..< 0xfec0 * 2 ^ 112}"
    using seg [of 1018 6 10] r by (simp add: v6_denied_def push_bit_eq_mult mask_eq_exp_minus_1)
  show "v6_denied a" if r: "unat a \<in> {0xff00 * 2 ^ 112 ..< 2 ^ 128}"
    using seg [of 255 8 8] r by (simp add: v6_denied_def push_bit_eq_mult mask_eq_exp_minus_1)
qed

lemma v6_embedded_denied:
  assumes "unat a = n + h * 2 ^ 32" "n < 2 ^ 32" "h = 0 \<or> h = 0xffff" "n \<in> private_v4"
  shows "v6_denied a"
proof -
  have "unat a div 2 ^ 32 = h" "unat a mod 2 ^ 32 = n" using assms(1,2) by simp_all
  then have "unat (drop_bit 32 a) = h" "unat (ucast a :: 32 word) = n"
    by (simp_all add: unat_drop_bit_eq drop_bit_nat_def unsigned_ucast_eq take_bit_nat_def)
  then have "drop_bit 32 a = 0 \<or> drop_bit 32 a = 0xffff" "v4_denied (ucast a :: 32 word)"
    using assms(3,4) by (auto simp: word_unat_eq_iff v4_denied_range)
  then show ?thesis by (simp add: v6_denied_def v6_to_ipv4_def)
qed

lemma private_denied: "private_address ip \<Longrightarrow> ip_denied ip"
proof (cases ip)
  case (V4 a)
  then show "private_address ip \<Longrightarrow> ip_denied ip" by (simp add: v4_denied_range)
next
  case (V6 a)
  assume "private_address ip"
  then have "unat a \<in> private_v6" using V6 by simp
  then consider "unat a \<in> {0, 1}" | "unat a \<in> {0xfc00 * 2 ^ 112 ..< 0xfe00 * 2 ^ 112}"
    | "unat a \<in> {0xfe80 * 2 ^ 112 ..< 0xfec0 * 2 ^ 112}" | "unat a \<in> {0xff00 * 2 ^ 112 ..< 2 ^ 128}"
    | "unat a < 2 ^ 32 \<and> unat a \<in> private_v4" | n where "unat a = 0xffff * 2 ^ 32 + n" "n < 2 ^ 32" "n \<in> private_v4"
    unfolding private_v6_def by blast
  then have "v6_denied a"
  proof cases
    case 1
    then have "a = 0 \<or> a = 1" by (auto simp: word_unat_eq_iff)
    then show ?thesis by (auto simp: v6_denied_def)
  next
    case 5
    then show ?thesis using v6_embedded_denied [of a "unat a" 0] by simp
  next
    case (6 n)
    then show ?thesis using v6_embedded_denied [of a n 65535] by simp
  qed (rule v6_prefix_denied; assumption)+
  then show "ip_denied ip" using V6 by simp
qed

section \<open>Callbacks stay outside\<close>

lemma callback_posts:
  "Post cl' \<in> set (callback_attempts send cl attempt) \<Longrightarrow> cl' = cl"
proof (induction send cl attempt rule: callback_attempts.induct)
  case (1 send cl attempt)
  then show ?case
    by (subst (asm) (3) callback_attempts.simps)
      (auto simp: retry_pause_def split: if_splits send_result.splits)
qed

text \<open>The IPv4 branch has no test for multicast, which the IPv6 branch refuses: \<open>224.0.0.1\<close> is accepted.\<close>

lemma multicast_v4_accepted: "\<not> ip_denied (V4 0xe0000001)"
  by (simp add: v4_denied_range private_v4_def)

text \<open>
  C34. A callback reaches no address of the refused ranges. Whatever the URL and whatever the DNS answers, at validation or
  later, every request of a delivery goes, with redirects off, to the addresses that the DNS returned for the host and port of the
  URL at the delivery, and none of them lies in a refused range. Refused are, in IPv4, the unspecified and the limited broadcast
  address, loopback (127/8), RFC 1918 (10/8, 172.16/12, 192.168/16) and link-local (169.254/16) addresses; in IPv6, the unspecified
  and the loopback address, unique-local (fc00::/7), link-local (fe80::/10) and multicast (ff00::/8) addresses, and the
  IPv4-compatible (::/96) and IPv4-mapped (::ffff:0:0/96) forms of the refused IPv4 addresses. IPv4 multicast (224/4), the
  other special IPv4 ranges and other forms that embed an IPv4 address (NAT64, 6to4) are not refused by the code and not excluded here.
\<close>

theorem callback_never_private:
  assumes "\<forall>a. ne_parse_ip env (ne_show_ip env a) = Some a"
    and "Post cl \<in> set (fire_callback env dns send u)"
  shows "cl_redirects cl = False \<and> cl_addrs cl \<noteq> []
    \<and> (\<exists>p. ne_parse_url env u = Some p \<and> url_host p = Some (cl_host cl)
          \<and> dns (lookup_name (cl_host cl) (case url_port p of Some n \<Rightarrow> n | None \<Rightarrow> 443)) = Inr (cl_addrs cl))
    \<and> (\<forall>ip \<in> set (cl_addrs cl). \<not> private_address ip)"
proof -
  obtain cl0 where b: "build_ssrf_safe_client env dns u 10 = Inr cl0" "Post cl \<in> set (callback_attempts send cl0 0)"
    using assms(2) by (cases "build_ssrf_safe_client env dns u 10") (simp_all add: fire_callback_def)
  then have cl: "cl0 = cl" using callback_posts by metis
  have safe: "find (\<lambda>a. is_private_ip (ne_parse_ip env) (ne_show_ip env a)) (cl_addrs cl) = None"
    and rest: "cl_redirects cl = False" "cl_addrs cl \<noteq> []"
      "\<exists>p. ne_parse_url env u = Some p \<and> url_host p = Some (cl_host cl)
          \<and> dns (lookup_name (cl_host cl) (case url_port p of Some n \<Rightarrow> n | None \<Rightarrow> 443)) = Inr (cl_addrs cl)"
    using b(1) unfolding cl
    by (auto simp: build_ssrf_safe_client_def Let_def split: option.splits if_splits sum.splits)
  have "\<not> private_address ip" if ip: "ip \<in> set (cl_addrs cl)" for ip
  proof -
    have "\<not> is_private_ip (ne_parse_ip env) (ne_show_ip env ip)" using safe ip by (simp add: find_None_iff)
    then have "\<not> ip_denied ip" using assms(1) by (simp add: is_private_ip_def)
    then show ?thesis using private_denied by blast
  qed
  then show ?thesis using rest by blast
qed

text \<open>Addresses printed as a list of as many characters as their number has.\<close>

definition sample_env :: net_env where
  "sample_env = \<lparr>ne_parse_url = (\<lambda>_. Some \<lparr>url_scheme = ''https'', url_host = Some ''example.org'', url_port = None\<rparr>),
     ne_parse_ip = (\<lambda>s. case s of [] \<Rightarrow> None
        | c # cs \<Rightarrow> if c = CHR ''4'' then Some (V4 (word_of_nat (length cs)))
                  else if c = CHR ''6'' then Some (V6 (word_of_nat (length cs))) else None),
     ne_show_ip = (\<lambda>a. case a of V4 w \<Rightarrow> CHR ''4'' # replicate (unat w) CHR ''1''
        | V6 w \<Rightarrow> CHR ''6'' # replicate (unat w) CHR ''1'')\<rparr>"

lemma sample_env_roundtrip: "ne_parse_ip sample_env (ne_show_ip sample_env a) = Some a"
  by (cases a) (simp_all add: sample_env_def)

lemma sample_client:
  "build_ssrf_safe_client sample_env (\<lambda>_. Inr [V4 0x08080808]) u 10 =
     Inr \<lparr>cl_host = ''example.org'', cl_addrs = [V4 0x08080808], cl_timeout = 10, cl_redirects = False\<rparr>"
proof -
  have "ne_parse_ip sample_env (ne_show_ip sample_env (V4 0x08080808)) = Some (V4 0x08080808)" by (rule sample_env_roundtrip)
  then have "\<not> is_private_ip (ne_parse_ip sample_env) (ne_show_ip sample_env (V4 0x08080808))"
    by (simp add: is_private_ip_def v4_denied_range private_v4_def)
  moreover have "ne_parse_ip sample_env ''example.org'' = None"
    "ne_parse_url sample_env u = Some \<lparr>url_scheme = ''https'', url_host = Some ''example.org'', url_port = None\<rparr>"
    by (simp_all add: sample_env_def)
  ultimately show ?thesis by (simp add: build_ssrf_safe_client_def is_private_ip_def)
qed

theorem callback_never_private_witness:
  "\<exists>cl. Post cl \<in> set (fire_callback sample_env (\<lambda>_. Inr [V4 0x08080808]) (\<lambda>_. Response 200) ''https://example.org'')
     \<and> cl_redirects cl = False \<and> cl_addrs cl \<noteq> [] \<and> (\<forall>ip \<in> set (cl_addrs cl). \<not> private_address ip)"
proof -
  let ?cl = "\<lparr>cl_host = ''example.org'', cl_addrs = [V4 0x08080808], cl_timeout = 10, cl_redirects = False\<rparr>"
  have p: "Post ?cl \<in> set (fire_callback sample_env (\<lambda>_. Inr [V4 0x08080808]) (\<lambda>_. Response 200) ''https://example.org'')"
    by (simp add: fire_callback_def sample_client callback_attempts.simps [of _ _ 0] MAX_RETRIES_def)
  show ?thesis using callback_never_private [OF allI [OF sample_env_roundtrip] p] p by blast
qed

definition settled :: "send_result \<Rightarrow> bool" where
  "settled r \<longleftrightarrow> (case r of Response st \<Rightarrow> 200 \<le> st \<and> st < 500 | Send_Error \<Rightarrow> False)"

definition posts :: "callback_event list \<Rightarrow> nat" where
  "posts t = length (filter (\<lambda>e. case e of Post _ \<Rightarrow> True | Sleep _ \<Rightarrow> False) t)"

definition sleeps :: "callback_event list \<Rightarrow> nat list" where
  "sleeps t = List.map_filter (\<lambda>e. case e of Post _ \<Rightarrow> None | Sleep ms \<Rightarrow> Some ms) t"

lemma callback_attempts_step:
  "attempt < MAX_RETRIES \<Longrightarrow> callback_attempts send cl attempt =
     Post cl # (if settled (send attempt) then [] else retry_pause attempt @ callback_attempts send cl (Suc attempt))"
  by (subst callback_attempts.simps)
    (auto simp: settled_def is_success_def is_redirection_def is_client_error_def split: send_result.splits)

text \<open>
  C35. The delivery of a callback ends. It makes at most three requests and pauses for at most 500
  and 1000 milliseconds in between; it stops after the first response that is a success, a
  redirect or a client error, and otherwise makes all three; without a safe address it makes none.
\<close>

theorem fire_callback_bounded:
  "(case build_ssrf_safe_client env dns u 10 of
      Inl _ \<Rightarrow> fire_callback env dns send u = []
    | Inr cl \<Rightarrow> posts (fire_callback env dns send u) =
          (if settled (send 0) then 1 else if settled (send 1) then 2 else 3)
        \<and> sleeps (fire_callback env dns send u) =
          (if settled (send 0) then [] else if settled (send 1) then [500] else [500, 1000]))"
proof (cases "build_ssrf_safe_client env dns u 10")
  case (Inl e)
  then show ?thesis by (simp add: fire_callback_def)
next
  case (Inr cl)
  have d: "retry_backoff_delay 500 0 = 500" "retry_backoff_delay 500 1 = 1000"
    by (simp_all add: retry_backoff_delay_def u64_max_def)
  have "fire_callback env dns send u = Post cl # (if settled (send 0) then []
      else Sleep 500 # Post cl # (if settled (send 1) then [] else [Sleep 1000, Post cl]))"
    using Inr d callback_attempts.simps [of send cl 3]
    by (simp add: fire_callback_def callback_attempts_step MAX_RETRIES_def retry_pause_def BASE_DELAY_MS_def
        numeral_2_eq_2 numeral_3_eq_3)
  then show ?thesis using Inr by (simp add: posts_def sleeps_def map_filter_simps)
qed

section \<open>Export paths\<close>

text \<open>\<open>resolved_at canon check k r\<close>: the longest prefix of the path that exists has \<open>k\<close> components and is really \<open>r\<close>.\<close>

definition resolved_at :: "(path \<Rightarrow> path option) \<Rightarrow> path \<Rightarrow> nat \<Rightarrow> path \<Rightarrow> bool" where
  "resolved_at canon check k r \<longleftrightarrow> k \<le> length check \<and> canon (take k check) = Some r
     \<and> (\<forall>j. k < j \<and> j \<le> length check \<longrightarrow> canon (take j check) = None)"

lemma resolved_at_Some: "canon check = Some r \<Longrightarrow> resolved_at canon check k r' \<longleftrightarrow> k = length check \<and> r' = r"
  unfolding resolved_at_def by (metis le_neq_implies_less order_refl option.distinct(1) option.inject take_all not_less)

lemma resolved_at_snoc:
  assumes "canon (p @ [c]) = None"
  shows "resolved_at canon (p @ [c]) k r \<longleftrightarrow> resolved_at canon p k r"
proof (cases "k \<le> length p")
  case True
  have "(\<forall>j. k < j \<and> j \<le> length (p @ [c]) \<longrightarrow> canon (take j (p @ [c])) = None) \<longleftrightarrow>
      (\<forall>j. k < j \<and> j \<le> length p \<longrightarrow> canon (take j p) = None)" (is "?A \<longleftrightarrow> ?B")
  proof
    show ?B if ?A
    proof (intro allI impI)
      fix j assume "k < j \<and> j \<le> length p"
      then show "canon (take j p) = None" using that [rule_format, of j] by simp
    qed
    show ?A if ?B
    proof (intro allI impI)
      fix j assume j: "k < j \<and> j \<le> length (p @ [c])"
      then show "canon (take j (p @ [c])) = None"
        using that [rule_format, of j] assms by (cases "j = Suc (length p)") simp_all
    qed
  qed
  then show ?thesis using True by (simp add: resolved_at_def)
next
  case False
  then show ?thesis using assms by (auto simp: resolved_at_def not_less_eq_eq le_Suc_eq)
qed

lemma ancestor_inside_iff:
  "ancestor_inside canon root check \<longleftrightarrow> (\<exists>k r. resolved_at canon check k r \<and> prefix root r)"
proof (induction canon root check rule: ancestor_inside.induct)
  case (1 canon root check)
  show ?case
  proof (cases "canon check")
    case (Some r)
    then show ?thesis by (subst ancestor_inside.simps) (simp add: resolved_at_Some)
  next
    case None
    show ?thesis
    proof (cases check rule: rev_cases)
      case Nil
      then show ?thesis using None by (subst ancestor_inside.simps) (simp add: resolved_at_def)
    next
      case (snoc p c)
      have "ancestor_inside canon root check \<longleftrightarrow> ancestor_inside canon root p"
        using None snoc by (subst ancestor_inside.simps) simp
      then show ?thesis using 1 [OF None] None snoc by (simp add: resolved_at_snoc)
    qed
  qed
qed

text \<open>
  C37. Local export files stay in the export directory. The validation always answers, and it accepts
  a path exactly when the path has no null byte and no \<open>..\<close>, the export directory exists,
  and the deepest existing directory on the way to the file really lies below the
  export directory, symbolic links resolved. The sink that is then built writes to that path below
  the directory.
\<close>

theorem export_path_contained:
  "(validate_export_file_path mkdir canon p export_dir = Inr () \<longleftrightarrow>
      CHR 0x00 \<notin> set p \<and> \<not> contains_str p ''..'' \<and> mkdir export_dir
      \<and> (\<exists>root k r. canon export_dir = Some root
           \<and> resolved_at canon (root @ components (trim_slashes p)) k r \<and> prefix root r))
   \<and> (sc_sink_type c = Sink_LocalFile \<and> sc_file_path c = Some p \<and> canon export_dir = Some root \<longrightarrow>
        (\<exists>q. build_sink canon c export_dir = Inr (LocalFileSink q) \<and> q = root @ components (trim_slashes p)))"
  by (auto simp: validate_export_file_path_def ancestor_inside_iff build_sink_def split: option.splits)

theorem export_path_contained_witness:
  "validate_export_file_path (\<lambda>_. True) (\<lambda>q. if q = [''exports''] then Some [''data''] else if q = [''data''] then Some [''data'']
      else if q = [''data'', ''link''] then Some [''etc''] else None) ''/link/x.csv'' [''exports''] \<noteq> Inr ()
   \<and> build_sink (\<lambda>q. Some q) \<lparr>sc_sink_type = Sink_LocalFile, sc_file_path = Some ''/a.csv'', sc_url = None, sc_headers = None,
       sc_connection_string = None, sc_table = None\<rparr> [''exports''] = Inr (LocalFileSink [''exports'', ''a.csv''])"
proof
  let ?canon = "\<lambda>q. if q = [''exports''] then Some [''data''] else if q = [''data''] then Some [''data'']
      else if q = [''data'', ''link''] then Some [''etc''] else None"
  have c: "components (trim_slashes ''/link/x.csv'') = [''link'', ''x.csv'']" "components (trim_slashes ''/a.csv'') = [''a.csv'']"
    by code_simp+
  have out: "\<not> prefix [''data''] r" if h: "resolved_at ?canon [''data'', ''link'', ''x.csv''] k r" for k r
  proof -
    have "canon [''data'', ''link'', ''x.csv''] = None \<Longrightarrow> resolved_at canon [''data'', ''link'', ''x.csv''] k r \<longleftrightarrow>
        resolved_at canon [''data'', ''link''] k r" for canon
      using resolved_at_snoc [of canon "[''data'', ''link'']" "''x.csv''"] by simp
    from this [of ?canon] h have "resolved_at ?canon [''data'', ''link''] k r" by simp
    then have "r = [''etc'']" using resolved_at_Some [of ?canon "[''data'', ''link'']" "[''etc'']" k r] by simp
    then show ?thesis by simp
  qed
  show "validate_export_file_path (\<lambda>_. True) ?canon ''/link/x.csv'' [''exports''] \<noteq> Inr ()"
    using export_path_contained [of "\<lambda>_. True" ?canon "''/link/x.csv''" "[''exports'']"] out
    by (auto simp: c)
  show "build_sink (\<lambda>q. Some q) \<lparr>sc_sink_type = Sink_LocalFile, sc_file_path = Some ''/a.csv'', sc_url = None, sc_headers = None,
       sc_connection_string = None, sc_table = None\<rparr> [''exports''] = Inr (LocalFileSink [''exports'', ''a.csv''])"
    by (simp add: build_sink_def c)
qed

end
