(* ===== verification/Streams.thy ===== *)
theory Streams
  imports Lease
begin

text \<open>
  Stream subscriptions of the durable control plane (\<open>adapters/src/v2_repo.rs\<close>): the row of
  \<open>stream_subscriptions\<close>, each statement as an operation on one row with its \<open>WHERE\<close> guard and as
  an operation on the table, and the transitions of the table as a step relation. The row
  operations interpret \<open>lease\<close>.
\<close>

section \<open>Rows and statements\<close>

record stream_subscription =
  sub_id :: uuid
  sub_target_id :: "uuid option"
  sub_network :: string
  sub_source :: stream_source
  sub_desired_status :: stream_desired_status
  sub_actual_status :: stream_actual_status
  sub_lease_owner :: "string option"
  sub_heartbeat_at :: "timestamp option"
  sub_cursor_state :: "json option"
  sub_config :: "json option"
  sub_error_message :: "string option"
  sub_created_at :: timestamp
  sub_updated_at :: timestamp

definition claim_stream_row :: "int \<Rightarrow> worker \<Rightarrow> stream_subscription \<Rightarrow> stream_subscription option" where
  "claim_stream_row now w r =
     (if sub_desired_status r = SD_Active
         \<and> (sub_lease_owner r = None
            \<or> (case sub_heartbeat_at r of Some t \<Rightarrow> t < now - STALE_JOB_THRESHOLD | None \<Rightarrow> False))
      then Some (r\<lparr>sub_lease_owner := Some w, sub_actual_status := SA_Running,
                   sub_heartbeat_at := Some now, sub_updated_at := now\<rparr>)
      else None)"

definition heartbeat_stream_row :: "int \<Rightarrow> worker \<Rightarrow> stream_subscription \<Rightarrow> stream_subscription option" where
  "heartbeat_stream_row now w r =
     (if sub_lease_owner r = Some w
      then Some (r\<lparr>sub_heartbeat_at := Some now, sub_updated_at := now\<rparr>) else None)"

definition release_stream_row :: "int \<Rightarrow> worker \<Rightarrow> stream_subscription \<Rightarrow> stream_subscription option" where
  "release_stream_row now w r =
     (if sub_lease_owner r = Some w
      then Some (r\<lparr>sub_lease_owner := None, sub_actual_status := SA_Stopped,
                   sub_heartbeat_at := None, sub_updated_at := now\<rparr>)
      else None)"

definition fail_stream_row :: "string \<Rightarrow> int \<Rightarrow> worker \<Rightarrow> stream_subscription \<Rightarrow> stream_subscription option" where
  "fail_stream_row err now w r =
     (if sub_lease_owner r = Some w
      then Some (r\<lparr>sub_actual_status := SA_Error, sub_desired_status := SD_Stopped,
                   sub_error_message := Some err, sub_lease_owner := None,
                   sub_heartbeat_at := None, sub_updated_at := now\<rparr>)
      else None)"

type_synonym subs = "stream_subscription list"

definition claim_stream_lease :: "int \<Rightarrow> uuid \<Rightarrow> worker \<Rightarrow> subs \<Rightarrow> bool \<times> subs" where
  "claim_stream_lease now i w = update_row sub_id i (claim_stream_row now w)"

definition heartbeat_stream :: "int \<Rightarrow> uuid \<Rightarrow> worker \<Rightarrow> subs \<Rightarrow> bool \<times> subs" where
  "heartbeat_stream now i w = update_row sub_id i (heartbeat_stream_row now w)"

definition release_stream_lease :: "int \<Rightarrow> uuid \<Rightarrow> worker \<Rightarrow> subs \<Rightarrow> bool \<times> subs" where
  "release_stream_lease now i w = update_row sub_id i (release_stream_row now w)"

definition fail_stream_subscription :: "int \<Rightarrow> uuid \<Rightarrow> worker \<Rightarrow> string \<Rightarrow> subs \<Rightarrow> bool \<times> subs" where
  "fail_stream_subscription now i w err = update_row sub_id i (fail_stream_row err now w)"

definition set_stream_desired_status :: "int \<Rightarrow> uuid \<Rightarrow> stream_desired_status \<Rightarrow> subs \<Rightarrow> bool \<times> subs" where
  "set_stream_desired_status now i d =
     update_row sub_id i (\<lambda>r. Some (r\<lparr>sub_desired_status := d, sub_updated_at := now\<rparr>))"

definition update_stream_cursor :: "int \<Rightarrow> uuid \<Rightarrow> json \<Rightarrow> subs \<Rightarrow> subs" where
  "update_stream_cursor now i cursor rows =
     snd (update_row sub_id i (\<lambda>r. Some (r\<lparr>sub_cursor_state := Some cursor, sub_updated_at := now\<rparr>)) rows)"

text \<open>
  \<open>INSERT .. ON CONFLICT (target_id, network, source) WHERE target_id IS NOT NULL\<close>; \<open>i\<close> is the
  fresh version-4 id. The columns the statement leaves out take the defaults of the schema.
\<close>

definition upsert_stream_subscription ::
    "uuid \<Rightarrow> int \<Rightarrow> uuid option \<Rightarrow> string \<Rightarrow> stream_source \<Rightarrow> stream_desired_status \<Rightarrow> json option \<Rightarrow> subs \<Rightarrow> subs" where
  "upsert_stream_subscription i now target network source desired config rows =
     (let same = (\<lambda>r. target \<noteq> None \<and> sub_target_id r = target \<and> sub_network r = network \<and> sub_source r = source)
      in if list_ex same rows
         then map (\<lambda>r. if same r
                then r\<lparr>sub_desired_status := desired,
                       sub_config := (case config of Some c \<Rightarrow> Some c | None \<Rightarrow> sub_config r),
                       sub_updated_at := now\<rparr>
                else r) rows
         else rows @ [\<lparr>sub_id = i, sub_target_id = target, sub_network = network, sub_source = source,
                sub_desired_status = desired, sub_actual_status = SA_Pending, sub_lease_owner = None,
                sub_heartbeat_at = None, sub_cursor_state = None, sub_config = config,
                sub_error_message = None, sub_created_at = now, sub_updated_at = now\<rparr>])"

definition list_claimable_stream_subscriptions :: "int \<Rightarrow> nat \<Rightarrow> subs \<Rightarrow> subs" where
  "list_claimable_stream_subscriptions now limit rows =
     take limit (sort_key sub_created_at (filter (\<lambda>r. sub_desired_status r = SD_Active
       \<and> (sub_lease_owner r = None
          \<or> (case sub_heartbeat_at r of Some t \<Rightarrow> t < now - STALE_JOB_THRESHOLD | None \<Rightarrow> False))) rows))"

definition get_stream_subscription :: "uuid \<Rightarrow> subs \<Rightarrow> stream_subscription option" where
  "get_stream_subscription i rows = find (\<lambda>r. sub_id r = i) rows"

text \<open>\<open>owner_of\<close> gives the owner of a target, for the listing that joins \<open>index_targets\<close>.\<close>

definition list_stream_subscriptions ::
    "(uuid \<Rightarrow> uuid option) \<Rightarrow> stream_desired_status option \<Rightarrow> uuid option \<Rightarrow> nat \<Rightarrow> nat \<Rightarrow> subs \<Rightarrow> subs" where
  "list_stream_subscriptions owner_of desired owner limit off rows =
     take limit (drop off (sort_key sub_created_at (filter (\<lambda>r.
       (case desired of Some d \<Rightarrow> sub_desired_status r = d | None \<Rightarrow> True)
       \<and> (case owner of
            Some oid \<Rightarrow> (case sub_target_id r of Some t \<Rightarrow> owner_of t = Some oid | None \<Rightarrow> False)
          | None \<Rightarrow> True)) rows)))"

section \<open>Steps of the table\<close>

inductive stream_step :: "subs \<Rightarrow> subs \<Rightarrow> bool" where
  claim: "stream_step rows (snd (claim_stream_lease now i w rows))"
| heartbeat: "stream_step rows (snd (heartbeat_stream now i w rows))"
| release: "stream_step rows (snd (release_stream_lease now i w rows))"
| fail: "stream_step rows (snd (fail_stream_subscription now i w err rows))"
| desired: "stream_step rows (snd (set_stream_desired_status now i d rows))"
| cursor: "stream_step rows (update_stream_cursor now i c rows)"
| upsert: "i \<notin> sub_id ` set rows \<Longrightarrow>
    stream_step rows (upsert_stream_subscription i now target network source d config rows)"

inductive stream_reachable :: "subs \<Rightarrow> bool" where
  init: "stream_reachable []"
| step: "stream_reachable rows \<Longrightarrow> stream_step rows rows' \<Longrightarrow> stream_reachable rows'"

inductive_cases stream_step_cases: "stream_step rows rows'"

section \<open>The lease of a row\<close>

definition sub_inv :: "stream_subscription \<Rightarrow> bool" where
  "sub_inv r \<longleftrightarrow> (sub_lease_owner r = None \<longleftrightarrow> sub_heartbeat_at r = None)"

datatype stream_work = SW_Release | SW_Fail string

fun stream_work_row :: "stream_work \<Rightarrow> int \<Rightarrow> worker \<Rightarrow> stream_subscription \<Rightarrow> stream_subscription option" where
  "stream_work_row SW_Release now w r = release_stream_row now w r"
| "stream_work_row (SW_Fail err) now w r = fail_stream_row err now w r"

abbreviation sub_active :: "stream_subscription \<Rightarrow> bool" where
  "sub_active r \<equiv> sub_desired_status r = SD_Active"

lemmas stream_row_defs [lease_simps] = claim_stream_row_def heartbeat_stream_row_def
  release_stream_row_def fail_stream_row_def sub_inv_def

interpretation sl: lease sub_inv sub_lease_owner sub_heartbeat_at sub_active
    claim_stream_row heartbeat_stream_row stream_work_row
proof
  fix r r' :: stream_subscription and now t :: int and v w :: worker and f :: stream_work
  show "sub_inv r \<Longrightarrow> sub_lease_owner r = Some v \<Longrightarrow> \<exists>t. sub_heartbeat_at r = Some t"
    by (auto simp: lease_simps)
  show "sub_inv r \<Longrightarrow> claim_stream_row now w r = Some r' \<Longrightarrow>
      sub_inv r' \<and> sub_lease_owner r' = Some w \<and> sub_heartbeat_at r' = Some now"
    by (auto simp: lease_simps split: if_splits)
  show "sub_inv r \<Longrightarrow> sub_active r \<Longrightarrow> sub_lease_owner r = None \<Longrightarrow> claim_stream_row now w r \<noteq> None"
    by (simp add: lease_simps)
  show "sub_inv r \<Longrightarrow> sub_active r \<Longrightarrow> sub_heartbeat_at r = Some t \<Longrightarrow> t + STALE_JOB_THRESHOLD < now \<Longrightarrow>
      claim_stream_row now w r \<noteq> None"
    by (simp add: lease_simps)
  show "sub_inv r \<Longrightarrow> sub_lease_owner r = Some v \<Longrightarrow> sub_heartbeat_at r = Some t \<Longrightarrow>
      now < t + STALE_JOB_THRESHOLD \<Longrightarrow> claim_stream_row now w r = None"
    by (simp add: lease_simps)
  show "sub_inv r \<Longrightarrow> heartbeat_stream_row now w r = Some r' \<Longrightarrow>
      sub_lease_owner r = Some w \<and> sub_inv r' \<and> sub_lease_owner r' = Some w \<and> sub_heartbeat_at r' = Some now"
    by (auto simp: lease_simps split: if_splits)
  show "sub_inv r \<Longrightarrow> sub_lease_owner r = Some w \<Longrightarrow> heartbeat_stream_row now w r \<noteq> None"
    by (simp add: lease_simps)
  show "sub_inv r \<Longrightarrow> stream_work_row f now w r = Some r' \<Longrightarrow> sub_lease_owner r = Some w \<and> sub_inv r'
      \<and> (sub_lease_owner r' = None \<or> sub_lease_owner r' = Some w \<and> sub_heartbeat_at r' = sub_heartbeat_at r)"
    by (cases f) (auto simp: lease_simps split: if_splits)
qed

section \<open>Invariants of the table\<close>

lemmas stream_table_defs = claim_stream_lease_def heartbeat_stream_def release_stream_lease_def
  fail_stream_subscription_def set_stream_desired_status_def update_stream_cursor_def

lemma stream_step_inv:
  assumes "stream_step rows rows'" "\<forall>r \<in> set rows. sub_inv r"
  shows "\<forall>r \<in> set rows'. sub_inv r"
  using assms
proof (induction rule: stream_step.induct)
  case (upsert i rows now target network source d config)
  then show ?case by (auto simp: upsert_stream_subscription_def Let_def sub_inv_def)
qed (unfold stream_table_defs, (rule update_row_all, assumption, (auto simp: lease_simps split: if_splits)[1])+)

lemma stream_step_ids:
  assumes "stream_step rows rows'" "distinct (map sub_id rows)"
  shows "distinct (map sub_id rows')"
  using assms
proof (induction rule: stream_step.induct)
  case (upsert i rows now target network source d config)
  have "map sub_id (map (\<lambda>r. if same r then r\<lparr>sub_desired_status := d, sub_config := g r,
      sub_updated_at := now\<rparr> else r) rows) = map sub_id rows" for same g by simp
  with upsert show ?case
    unfolding upsert_stream_subscription_def Let_def by (simp del: map_map)
qed (unfold stream_table_defs, (subst update_row_ids, (auto simp: lease_simps split: if_splits)[1], assumption)+)

lemma stream_reachable_inv:
  "stream_reachable rows \<Longrightarrow> (\<forall>r \<in> set rows. sub_inv r) \<and> distinct (map sub_id rows)"
  by (induction rule: stream_reachable.induct) (auto dest: stream_step_inv stream_step_ids)

section \<open>Properties\<close>

text \<open>
  C7. Exclusive streams. In every reachable table, while the heartbeat of the worker that holds
  a subscription is younger than five minutes, another worker can neither claim it, nor extend,
  release or fail the lease: each statement reports that no row was affected and leaves the
  table as it was.
\<close>

theorem stream_exclusive:
  assumes "stream_reachable rows" "r \<in> set rows"
    and "sub_lease_owner r = Some w" "sub_heartbeat_at r = Some t"
    and "v \<noteq> w" "now < t + STALE_JOB_THRESHOLD"
  shows "claim_stream_lease now (sub_id r) v rows = (False, rows)
    \<and> heartbeat_stream now (sub_id r) v rows = (False, rows)
    \<and> release_stream_lease now (sub_id r) v rows = (False, rows)
    \<and> fail_stream_subscription now (sub_id r) v err rows = (False, rows)"
proof -
  have inv: "sub_inv r" and dist: "distinct (map sub_id rows)"
    using stream_reachable_inv [OF assms(1)] assms(2) by auto
  note refuse = update_row_unique(2) [OF dist assms(2)]
  have "sub_lease_owner r \<noteq> Some v" using assms(3,5) by simp
  note fenced = sl.fenced [OF inv this]
  show ?thesis
    unfolding stream_table_defs
    using refuse sl.claim_fresh [OF inv assms(3,4,6)] fenced [of now SW_Release]
      fenced [of now "SW_Fail err"] by simp
qed

definition sample_subs :: subs where
  "sample_subs = snd (claim_stream_lease 0 3 ''a''
     (upsert_stream_subscription 3 0 (Some 9) ''solana-mainnet'' SS_Grpc SD_Active None []))"

lemma sample_subs_eq:
  "sample_subs = [\<lparr>sub_id = 3, sub_target_id = Some 9, sub_network = ''solana-mainnet'',
     sub_source = SS_Grpc, sub_desired_status = SD_Active, sub_actual_status = SA_Running,
     sub_lease_owner = Some ''a'', sub_heartbeat_at = Some 0, sub_cursor_state = None,
     sub_config = None, sub_error_message = None, sub_created_at = 0, sub_updated_at = 0\<rparr>]"
  by (simp add: sample_subs_def claim_stream_lease_def update_row_def upsert_stream_subscription_def
      claim_stream_row_def)

lemma sample_subs_reachable: "stream_reachable sample_subs"
  unfolding sample_subs_def
  by (rule stream_reachable.step [OF _ stream_step.claim],
      rule stream_reachable.step [OF stream_reachable.init stream_step.upsert]) simp

theorem stream_exclusive_witness:
  "claim_stream_lease 1000 3 ''b'' sample_subs = (False, sample_subs)"
  using stream_exclusive [OF sample_subs_reachable, of "hd sample_subs" "''a''" 0 "''b''" 1000]
  by (simp add: sample_subs_eq STALE_JOB_THRESHOLD_def)

text \<open>
  Recovery and fencing of streams. When the holder of an active subscription has been silent
  for more than five minutes, a claim by another worker succeeds, and from then on the heartbeat,
  release and failure reports of the former holder are refused and change nothing.
\<close>

theorem stream_takeover:
  assumes "stream_reachable rows" "r \<in> set rows" "sub_desired_status r = SD_Active"
    and "sub_lease_owner r = Some v" "sub_heartbeat_at r = Some t"
    and "t + STALE_JOB_THRESHOLD < now" "v \<noteq> w"
    and "(ok, rows') = claim_stream_lease now (sub_id r) w rows"
  shows "ok \<and> heartbeat_stream later (sub_id r) v rows' = (False, rows')
    \<and> release_stream_lease later (sub_id r) v rows' = (False, rows')
    \<and> fail_stream_subscription later (sub_id r) v err rows' = (False, rows')"
proof -
  have inv: "sub_inv r" and dist: "distinct (map sub_id rows)"
    using stream_reachable_inv [OF assms(1)] assms(2) by auto
  obtain r' where r': "claim_stream_row now w r = Some r'"
      and f: "\<And>later f. heartbeat_stream_row later v r' = None \<and> stream_work_row f later v r' = None"
    using sl.takeover [OF inv assms(3-7)] by blast
  have rows': "rows' = snd (claim_stream_lease now (sub_id r) w rows)"
    and ok: "ok = fst (claim_stream_lease now (sub_id r) w rows)"
    using assms(8) by (metis snd_conv, metis fst_conv)
  have reach: "stream_reachable rows'"
    unfolding rows' by (rule stream_reachable.step [OF assms(1) stream_step.claim])
  then have dist': "distinct (map sub_id rows')" using stream_reachable_inv by blast
  have mem: "r' \<in> set rows'"
    unfolding rows' claim_stream_lease_def by (rule update_row_unique(3) [where f = "claim_stream_row now w", OF dist assms(2) r'])
  have id: "sub_id r' = sub_id r" using r' by (auto simp: claim_stream_row_def split: if_splits)
  note refuse = update_row_unique(2) [OF dist' mem, unfolded id]
  show ?thesis
    using refuse f [of later SW_Release] f [of later "SW_Fail err"] r'
      update_row_unique(1) [OF dist assms(2)]
    by (simp add: ok stream_table_defs)
qed

theorem stream_takeover_witness:
  "fst (claim_stream_lease 300000001 3 ''b'' sample_subs)
   \<and> \<not> fst (heartbeat_stream 300000002 3 ''a'' (snd (claim_stream_lease 300000001 3 ''b'' sample_subs)))"
  using stream_takeover [OF sample_subs_reachable, of "hd sample_subs" "''a''" 0 300000001 "''b''"
      "fst (claim_stream_lease 300000001 3 ''b'' sample_subs)"
      "snd (claim_stream_lease 300000001 3 ''b'' sample_subs)" 300000002 "[]"]
  by (simp add: sample_subs_eq STALE_JOB_THRESHOLD_def)

text \<open>
  No active stream is lost. In every reachable table an active subscription is either held
  by a worker whose heartbeat is at most five minutes old, or it is in the list of claimable
  subscriptions, and then a claim of any worker succeeds. A lease without a heartbeat, which
  no statement could ever reclaim, never arises.
\<close>

theorem active_streams_claimable:
  assumes "stream_reachable rows" "r \<in> set rows" "sub_desired_status r = SD_Active"
    and "length rows \<le> limit"
  shows "if r \<in> set (list_claimable_stream_subscriptions now limit rows)
    then fst (claim_stream_lease now (sub_id r) w rows)
    else \<exists>v t. sub_lease_owner r = Some v \<and> sub_heartbeat_at r = Some t \<and> now \<le> t + STALE_JOB_THRESHOLD"
proof -
  let ?p = "\<lambda>r. sub_desired_status r = SD_Active
       \<and> (sub_lease_owner r = None
          \<or> (case sub_heartbeat_at r of Some t \<Rightarrow> t < now - STALE_JOB_THRESHOLD | None \<Rightarrow> False))"
  have inv: "sub_inv r" and dist: "distinct (map sub_id rows)"
    using stream_reachable_inv [OF assms(1)] assms(2) by auto
  have "length (sort_key sub_created_at (filter ?p rows)) \<le> limit"
    unfolding length_sort by (rule order_trans [OF length_filter_le assms(4)])
  then have "r \<in> set (list_claimable_stream_subscriptions now limit rows) \<longleftrightarrow> ?p r"
    using assms(2) by (simp add: list_claimable_stream_subscriptions_def)
  then show ?thesis
    using update_row_unique(1) [OF dist assms(2)] inv assms(3)
    by (auto simp: claim_stream_lease_def claim_stream_row_def sub_inv_def split: option.splits)
qed

theorem active_streams_claimable_witness:
  "\<exists>v t. sub_lease_owner (hd sample_subs) = Some v \<and> sub_heartbeat_at (hd sample_subs) = Some t
     \<and> 1000 \<le> t + STALE_JOB_THRESHOLD"
  using active_streams_claimable [OF sample_subs_reachable, of "hd sample_subs" 1 1000 "''b''"]
  by (simp add: sample_subs_eq list_claimable_stream_subscriptions_def STALE_JOB_THRESHOLD_def)

end
