(* ===== verification/Worker_Steps.thy ===== *)
theory Worker_Steps
  imports Providers Callbacks Streams Legacy_Repo "HOL-Library.State_Monad"
begin

text \<open>
  What the background workers share (\<open>api/src/worker.rs\<close>, \<open>api/src/stream_worker.rs\<close>,
  \<open>api/src/materialize_worker.rs\<close>): the tables they work on, statements against a database that other
  sessions use at the same time, the statements on ingestion runs (\<open>adapters/src/v2_repo.rs\<close>), and
  the delivery of a callback.

  A worker is a program of the state monad. Before its \<open>k\<close>-th statement the other sessions do
  \<open>en_others k\<close>, an arbitrary change of the tables: heartbeats and other workers among them. The
  statement then fails with \<open>en_down k\<close> or runs, in one transaction. A statement that ran and whose
  answer was lost is one that failed before an interference that has its effect.
\<close>

section \<open>Sessions\<close>

record 'd world =
  wd_jobs :: ingestion_db
  wd_targets :: targets
  wd_bronze :: bronze_db
  wd_legacy :: "'d v1_db"
  wd_subs :: subs

record delivery =
  dl_client :: client
  dl_payload :: json
  dl_signature :: "string option"

record 'w session =
  sn_world :: 'w
  sn_clock :: nat
  sn_sent :: "delivery list"

text \<open>The clock, the random ids and the rows locked by others, at each statement.\<close>

record 'w env =
  en_now :: "nat \<Rightarrow> int"
  en_uuid :: "nat \<Rightarrow> uuid"
  en_mid :: "nat \<Rightarrow> uuid \<Rightarrow> uuid"
  en_locked :: "nat \<Rightarrow> uuid \<Rightarrow> bool"
  en_down :: "nat \<Rightarrow> string option"
  en_others :: "nat \<Rightarrow> 'w \<Rightarrow> 'w"

text \<open>An error is a message, or the panic that ends the task.\<close>

datatype fault = Failed string | Panicked

type_synonym ('w, 'a) prog = "('w session, fault + 'a) state"

definition error_text :: "fault \<Rightarrow> string" where
  "error_text e = (case e of Failed m \<Rightarrow> m | Panicked \<Rightarrow> [])"

definition query :: "'w env \<Rightarrow> (nat \<Rightarrow> 'w \<Rightarrow> 'a result \<times> 'w) \<Rightarrow> ('w, 'a) prog" where
  "query en f = State (\<lambda>s.
     let k = sn_clock s; w = en_others en k (sn_world s); s' = s\<lparr>sn_clock := Suc k\<rparr>
     in case en_down en k of
          Some e \<Rightarrow> (Inl (Failed e), s'\<lparr>sn_world := w\<rparr>)
        | None \<Rightarrow> (case f k w of (r, w') \<Rightarrow> (map_sum Failed id r, s'\<lparr>sn_world := w'\<rparr>)))"

text \<open>A read, a change of one table, and the \<open>?\<close> operator.\<close>

definition reading :: "('w \<Rightarrow> 'a) \<Rightarrow> nat \<Rightarrow> 'w \<Rightarrow> 'a result \<times> 'w" where
  "reading f k w = (Inr (f w), w)"

definition on_bronze :: "(nat \<Rightarrow> bronze_db \<Rightarrow> bronze_db) \<Rightarrow> nat \<Rightarrow> 'd world \<Rightarrow> unit result \<times> 'd world" where
  "on_bronze f k w = (Inr (), w\<lparr>wd_bronze := f k (wd_bronze w)\<rparr>)"

definition on_jobs ::
    "(nat \<Rightarrow> ingestion_db \<Rightarrow> 'a result \<times> ingestion_db) \<Rightarrow> nat \<Rightarrow> 'd world \<Rightarrow> 'a result \<times> 'd world" where
  "on_jobs f k w = (case f k (wd_jobs w) of (r, jobs) \<Rightarrow> (r, w\<lparr>wd_jobs := jobs\<rparr>))"

definition attempt :: "('w, 'a) prog \<Rightarrow> ('a \<Rightarrow> ('w, 'b) prog) \<Rightarrow> ('w, 'b) prog" where
  "attempt m f = do { r \<leftarrow> m; (case r of Inl e \<Rightarrow> State_Monad.return (Inl e) | Inr x \<Rightarrow> f x) }"

definition bail :: "string \<Rightarrow> ('w, 'a) prog" where
  "bail e = State_Monad.return (Inl (Failed e))"

definition ok_or :: "string \<Rightarrow> 'a option \<Rightarrow> ('w, 'a) prog" where
  "ok_or e v = State_Monad.return (case v of Some x \<Rightarrow> Inr x | None \<Rightarrow> Inl (Failed e))"

definition with_context :: "string \<Rightarrow> ('w, 'a) prog \<Rightarrow> ('w, 'a) prog" where
  "with_context msg m = do { r \<leftarrow> m; State_Monad.return (case r of
     Inl (Failed e) \<Rightarrow> Inl (Failed (msg @ e)) | Inl Panicked \<Rightarrow> Inl Panicked | Inr x \<Rightarrow> Inr x) }"

definition of_result :: "'a result \<Rightarrow> ('w, 'a) prog" where
  "of_result r = State_Monad.return (map_sum Failed id r)"

definition skip :: "('w session, unit) state" where
  "skip = State_Monad.return ()"

text \<open>\<open>let _ = ..\<close>: the outcome of the statement is dropped.\<close>

definition best_effort :: "('w, 'a) prog \<Rightarrow> ('w session, unit) state" where
  "best_effort m = do { _ \<leftarrow> m; skip }"

text \<open>\<open>Uuid::new_v4()\<close> between two statements.\<close>

definition fresh_uuid :: "'w env \<Rightarrow> ('w session, uuid) state" where
  "fresh_uuid en = State (\<lambda>s. (en_uuid en (sn_clock s), s\<lparr>sn_clock := Suc (sn_clock s)\<rparr>))"

text \<open>The row of an id before and after a row update.\<close>

lemma find_update_row:
  assumes "distinct (map idf rows)" "r \<in> set rows" "f r = Some r'" "idf r' = idf r"
  shows "find (\<lambda>x. idf x = idf r) (snd (update_row idf (idf r) f rows)) = Some r'"
  using assms by (induction rows) (auto simp: update_row_def image_iff)

lemma find_row: "distinct (map idf rows) \<Longrightarrow> r \<in> set rows \<Longrightarrow> find (\<lambda>x. idf x = idf r) rows = Some r"
  by (induction rows) (auto simp: image_iff)

section \<open>Ingestion runs\<close>

definition create_ingestion_run :: "ingestion_run \<Rightarrow> bronze_db \<Rightarrow> unit result \<times> bronze_db" where
  "create_ingestion_run run db =
     (if ir_id run \<in> set (map ir_id (br_runs db))
      then (Inl ''duplicate key value violates unique constraint'', db)
      else (Inr (), db\<lparr>br_runs := br_runs db @ [run]\<rparr>))"

definition update_ingestion_run_status ::
    "uuid \<Rightarrow> ingestion_job_status \<Rightarrow> timestamp option \<Rightarrow> int \<Rightarrow> string option \<Rightarrow> bronze_db \<Rightarrow> bronze_db" where
  "update_ingestion_run_status run status finished_at records_written err db = db\<lparr>br_runs :=
     map (\<lambda>r. if ir_id r = run
       then r\<lparr>ir_status := status, ir_finished_at := finished_at,
              ir_records_written := records_written, ir_error_message := err\<rparr> else r) (br_runs db)\<rparr>"

definition get_ingestion_run :: "uuid \<Rightarrow> ingestion_run list \<Rightarrow> ingestion_run option" where
  "get_ingestion_run run rows = find (\<lambda>r. ir_id r = run) rows"

definition list_ingestion_runs_by_target :: "uuid \<Rightarrow> bronze_db \<Rightarrow> ingestion_run list" where
  "list_ingestion_runs_by_target target db =
     sort_key (\<lambda>r. - ir_started_at r) (filter (\<lambda>r. ir_target_id r = Some target) (br_runs db))"

definition build_target_matches :: "(uuid \<Rightarrow> uuid) \<Rightarrow> int \<Rightarrow> uuid \<Rightarrow> uuid list \<Rightarrow> target_match list" where
  "build_target_matches mid now target ids = target_matches mid now ''sender'' target ids"

section \<open>Networks of a chain\<close>

definition network_to_chain :: "string \<Rightarrow> chain" where
  "network_to_chain network =
     (if starts_with network ''solana'' then Chain_Solana
      else if starts_with network ''hypercore'' \<or> starts_with network ''hyperliquid'' then Chain_Hyperliquid
      else Chain_Ethereum)"

definition network_to_source :: "string \<Rightarrow> string" where
  "network_to_source network =
     (if starts_with network ''solana'' then ''rpc''
      else if starts_with network ''hypercore'' \<or> starts_with network ''hyperliquid'' then ''rest''
      else ''rpc'')"

text \<open>\<open>auto_materialization_scope\<close> and \<open>stream_materialization_scope\<close> have the same body.\<close>

definition auto_materialization_scope ::
    "(uuid \<Rightarrow> string) \<Rightarrow> index_target \<Rightarrow> string \<Rightarrow> uuid \<Rightarrow> json option" where
  "auto_materialization_scope us target network run =
     (if it_kind target \<noteq> TK_Wallet then None
      else case it_address target of
        None \<Rightarrow> None
      | Some wallet \<Rightarrow>
          if wallet = [] then None
          else Some (JObject [(''wallet'', JString wallet), (''network'', JString network),
                              (''ingestion_run_id'', JString (us run))]))"

definition enqueue_normalize :: "(nat \<Rightarrow> int) \<Rightarrow> (nat \<Rightarrow> uuid) \<Rightarrow> json \<Rightarrow> nat \<Rightarrow> bronze_db \<Rightarrow> bronze_db" where
  "enqueue_normalize now uid scope k db = db\<lparr>br_etl :=
     snd (create_materialization_run (uid k) (now k) ''normalize'' (Some scope) None None None (br_etl db))\<rparr>"

section \<open>Callbacks\<close>

text \<open>
  One attempt through the pinned client; \<open>sign\<close> is the HMAC of the serialized payload. A failed
  delivery and a status that is not a success are only logged.
\<close>

definition fire_callback_best_effort ::
    "net_env \<Rightarrow> (string \<Rightarrow> ip_addr list result) \<Rightarrow> (string \<Rightarrow> json \<Rightarrow> string) \<Rightarrow> string \<Rightarrow> json \<Rightarrow> string option \<Rightarrow>
     ('w session, unit) state" where
  "fire_callback_best_effort ne dns sign u payload secret =
     (case build_ssrf_safe_client ne dns u 10 of
        Inl _ \<Rightarrow> skip
      | Inr c \<Rightarrow> State (\<lambda>s. ((), s\<lparr>sn_sent := sn_sent s @
          [\<lparr>dl_client = c, dl_payload = payload,
            dl_signature = map_option (\<lambda>k. ''sha256='' @ sign k payload) secret\<rparr>]\<rparr>)))"

section \<open>Reasoning about programs\<close>

definition wp :: "('s, 'a) state \<Rightarrow> ('a \<Rightarrow> 's \<Rightarrow> bool) \<Rightarrow> 's \<Rightarrow> bool" where
  "wp m Q s \<longleftrightarrow> (case run_state m s of (a, s') \<Rightarrow> Q a s')"

named_theorems wp_simps \<open>weakest preconditions of the program constructs\<close>

lemma wp_bind [wp_simps]: "wp (State_Monad.bind m f) Q = wp m (\<lambda>a. wp (f a) Q)"
  by (simp add: fun_eq_iff wp_def split: prod.split)

lemma wp_return [wp_simps]: "wp (State_Monad.return x) Q = Q x"
  by (simp add: fun_eq_iff wp_def)

lemma wp_skip [wp_simps]: "wp skip Q = Q ()"
  by (simp add: skip_def wp_simps)

lemma wp_bail [wp_simps]: "wp (bail e) Q = Q (Inl (Failed e))"
  by (simp add: bail_def wp_simps)

lemma wp_ok_or [wp_simps]:
  "wp (ok_or e v) Q = Q (case v of Some x \<Rightarrow> Inr x | None \<Rightarrow> Inl (Failed e))"
  by (simp add: ok_or_def wp_simps)

lemma wp_of_result [wp_simps]: "wp (of_result r) Q = Q (map_sum Failed id r)"
  by (simp add: of_result_def wp_simps)

lemma wp_with_context [wp_simps]: "wp (with_context msg m) Q = wp m (\<lambda>r. Q (case r of
     Inl (Failed e) \<Rightarrow> Inl (Failed (msg @ e)) | Inl Panicked \<Rightarrow> Inl Panicked | Inr x \<Rightarrow> Inr x))"
  by (simp add: with_context_def wp_simps)

lemma wp_attempt [wp_simps]:
  "wp (attempt m f) Q = wp m (\<lambda>r. case r of Inl e \<Rightarrow> Q (Inl e) | Inr x \<Rightarrow> wp (f x) Q)"
proof -
  have "wp (case r of Inl e \<Rightarrow> State_Monad.return (Inl e) | Inr x \<Rightarrow> f x) Q =
      (case r of Inl e \<Rightarrow> Q (Inl e) | Inr x \<Rightarrow> wp (f x) Q)" for r
    by (cases r) (simp_all add: wp_simps)
  then show ?thesis by (simp add: attempt_def wp_bind)
qed

lemma wp_case [wp_simps]:
  "wp (case p of (a, b) \<Rightarrow> m a b) Q = (case p of (a, b) \<Rightarrow> wp (m a b) Q)"
  "wp (case r of Inl e \<Rightarrow> f e | Inr x \<Rightarrow> g x) Q = (case r of Inl e \<Rightarrow> wp (f e) Q | Inr x \<Rightarrow> wp (g x) Q)"
  "wp (case v of None \<Rightarrow> n | Some y \<Rightarrow> h y) Q = (case v of None \<Rightarrow> wp n Q | Some y \<Rightarrow> wp (h y) Q)"
  by (simp_all split: prod.split sum.split option.split)

lemma wp_best_effort [wp_simps]: "wp (best_effort m) Q = wp m (\<lambda>_. Q ())"
  by (simp add: best_effort_def wp_simps)

lemma map_sum_Failed [simp]: "map_sum Failed id r = Inr x \<longleftrightarrow> r = Inr x"
  by (cases r) auto

lemma wp_mono: "wp m Q s \<Longrightarrow> (\<And>a t. Q a t \<Longrightarrow> Q' a t) \<Longrightarrow> wp m Q' s"
  by (auto simp: wp_def)

lemma wp_conj: "wp m (\<lambda>a t. Q a t \<and> R a t) s \<longleftrightarrow> wp m Q s \<and> wp m R s"
  by (auto simp: wp_def split: prod.splits)

text \<open>A statement without interference and without failure runs on the tables as they are.\<close>

definition undisturbed :: "'w env \<Rightarrow> bool" where
  "undisturbed en \<longleftrightarrow> (\<forall>k. en_down en k = None) \<and> (\<forall>k w. en_others en k w = w)"

lemma wp_query_quiet:
  "undisturbed en \<Longrightarrow> wp (query en f) Q s \<longleftrightarrow>
     (case f (sn_clock s) (sn_world s) of (r, w) \<Rightarrow>
        Q (map_sum Failed id r) (s\<lparr>sn_clock := Suc (sn_clock s), sn_world := w\<rparr>))"
  by (simp add: wp_def query_def Let_def undisturbed_def split: prod.split)

definition undisturbed_env :: "'w env" where
  "undisturbed_env = \<lparr>en_now = (\<lambda>k. int k), en_uuid = (\<lambda>k. of_nat k), en_mid = (\<lambda>k i. i), en_locked = (\<lambda>_ _. False),
     en_down = (\<lambda>_. None), en_others = (\<lambda>_ w. w)\<rparr>"

lemma quiet_sample: "undisturbed undisturbed_env"
  by (simp add: undisturbed_def undisturbed_env_def)

text \<open>In general: any interference, and a failure or the change.\<close>

lemma wp_queryI:
  assumes "\<And>e k. Q (Inl (Failed e)) (s\<lparr>sn_clock := Suc (sn_clock s), sn_world := en_others en k (sn_world s)\<rparr>)"
    and "\<And>k. case f k (en_others en k (sn_world s)) of (r, w) \<Rightarrow>
        Q (map_sum Failed id r) (s\<lparr>sn_clock := Suc (sn_clock s), sn_world := w\<rparr>)"
  shows "wp (query en f) Q s"
  using assms(1) assms(2) [of "sn_clock s"]
  by (simp add: wp_def query_def Let_def split: prod.splits option.splits)

subsection \<open>Guarantees\<close>

text \<open>
  \<open>complies R m\<close>: the program changes the tables along \<open>R\<close>, whatever the other sessions do along
  \<open>R\<close>. For a preorder this is checked statement by statement.
\<close>

definition complies :: "('w \<Rightarrow> 'w \<Rightarrow> bool) \<Rightarrow> ('w session, 'a) state \<Rightarrow> bool" where
  "complies R m \<longleftrightarrow> (\<forall>s. wp m (\<lambda>_ t. R (sn_world s) (sn_world t)) s)"

locale guarantee =
  fixes R :: "'w \<Rightarrow> 'w \<Rightarrow> bool"
  assumes refl: "R w w"
    and trans: "R u v \<Longrightarrow> R v w \<Longrightarrow> R u w"
begin

lemma return: "complies R (State_Monad.return x)"
  by (simp add: complies_def wp_simps refl)

lemma skip: "complies R skip"
  by (simp add: complies_def wp_simps refl)

lemma bail: "complies R (bail e)"
  by (simp add: complies_def wp_simps refl)

lemma ok_or: "complies R (ok_or e v)"
  by (simp add: complies_def wp_simps refl split: option.split)

lemma of_result: "complies R (of_result r)"
  by (simp add: complies_def wp_simps refl)

lemma bind: "complies R m \<Longrightarrow> (\<And>a. complies R (f a)) \<Longrightarrow> complies R (State_Monad.bind m f)"
proof -
  assume m: "complies R m" and f: "\<And>a. complies R (f a)"
  have "wp (f a) (\<lambda>_ u. R (sn_world s) (sn_world u)) t" if "R (sn_world s) (sn_world t)" for a s t
    using f [of a, unfolded complies_def, THEN spec, of t] trans [OF that] by (rule wp_mono)
  then show ?thesis
    unfolding complies_def wp_bind using m [unfolded complies_def] by (blast intro: wp_mono)
qed

lemma attempt: "complies R m \<Longrightarrow> (\<And>a. complies R (f a)) \<Longrightarrow> complies R (attempt m f)"
  unfolding attempt_def by (intro bind) (auto intro: return split: sum.split)

lemma best_effort: "complies R m \<Longrightarrow> complies R (best_effort m)"
  unfolding best_effort_def by (intro bind skip)

lemma with_context: "complies R m \<Longrightarrow> complies R (with_context msg m)"
  unfolding with_context_def by (intro bind return)

lemma query:
  assumes "\<And>k w. R w (en_others en k w)" and "\<And>k w. R w (snd (f k w))"
  shows "complies R (query en f)"
  unfolding complies_def
proof (intro allI wp_queryI)
  fix s k
  show "R (sn_world s) (sn_world (s\<lparr>sn_clock := Suc (sn_clock s), sn_world := en_others en k (sn_world s)\<rparr>))"
    using assms(1) by simp
  show "case f k (en_others en k (sn_world s)) of (r, w) \<Rightarrow>
      R (sn_world s) (sn_world (s\<lparr>sn_clock := Suc (sn_clock s), sn_world := w\<rparr>))"
    using trans [OF assms(1) assms(2)] by (metis (mono_tags, lifting) session.select_convs(1) session.surjective session.update_convs(1,2) snd_conv split_beta)
qed

lemma fresh_uuid: "complies R (fresh_uuid en)"
  by (simp add: fresh_uuid_def complies_def wp_def refl)

lemma callback: "complies R (fire_callback_best_effort ne dns sign u payload secret)"
  by (auto simp: fire_callback_best_effort_def complies_def wp_def refl skip_def split: sum.split)

lemmas rules = return skip bail ok_or of_result with_context bind attempt best_effort fresh_uuid callback

end

lemma compliesD: "complies R m \<Longrightarrow> run_state m s = (a, t) \<Longrightarrow> R (sn_world s) (sn_world t)"
  by (auto simp: complies_def wp_def split: prod.splits dest: spec [of _ s])

lemma complies_branches:
  "(\<And>e. complies R (f e)) \<Longrightarrow> (\<And>x. complies R (g x)) \<Longrightarrow> complies R (case v of Inl e \<Rightarrow> f e | Inr x \<Rightarrow> g x)"
  "complies R m \<Longrightarrow> (\<And>y. complies R (h y)) \<Longrightarrow> complies R (case u of None \<Rightarrow> m | Some y \<Rightarrow> h y)"
  "(\<And>a b. complies R (p a b)) \<Longrightarrow> complies R (case z of (a, b) \<Rightarrow> p a b)"
  "complies R m \<Longrightarrow> complies R n \<Longrightarrow> complies R (if c then m else n)"
  by (simp_all split: sum.split option.split prod.split)

subsection \<open>What every worker keeps\<close>

text \<open>No Bronze row, match or link disappears, and the key of the raw transactions stays unique.\<close>

definition bronze_kept :: "'d world \<Rightarrow> 'd world \<Rightarrow> bool" where
  "bronze_kept w w' \<longleftrightarrow> (distinct (map raw_key (br_raws (wd_bronze w))) \<longrightarrow> bronze_grows (wd_bronze w) (wd_bronze w'))"

lemma bronze_grows_distinct: "bronze_grows db db' \<Longrightarrow> distinct (map raw_key (br_raws db'))"
  by (simp add: bronze_grows_def raws_grow_def)

interpretation bronze_kept: guarantee bronze_kept
proof
  show "bronze_kept w w" for w :: "'a world" by (simp add: bronze_kept_def bronze_grows_refl)
  show "bronze_kept u w" if "bronze_kept u v" "bronze_kept v w" for u v w :: "'a world"
    using that bronze_grows_trans bronze_grows_distinct unfolding bronze_kept_def by blast
qed

lemma bronze_kept_jobs [simp]: "bronze_kept w (w\<lparr>wd_jobs := jobs\<rparr>)"
  by (simp add: bronze_kept_def bronze_grows_refl)

lemma bronze_kept_runs [simp]:
  "bronze_kept w (w\<lparr>wd_bronze := (wd_bronze w)\<lparr>br_runs := runs\<rparr>\<rparr>)"
  "bronze_kept w (w\<lparr>wd_bronze := (wd_bronze w)\<lparr>br_etl := etl\<rparr>\<rparr>)"
  using bronze_grows_refl [of "wd_bronze w"] by (simp_all add: bronze_kept_def bronze_grows_def)

text \<open>The other sessions are workers too.\<close>

definition env_keeps :: "'d world env \<Rightarrow> bool" where
  "env_keeps en \<longleftrightarrow> (\<forall>k w. bronze_kept w (en_others en k w))"

lemma keeps_query: "env_keeps en \<Longrightarrow> (\<And>k w. bronze_kept w (snd (f k w))) \<Longrightarrow> complies bronze_kept (query en f)"
  by (intro bronze_kept.query) (auto simp: env_keeps_def)

definition raws_distinct :: "'d world \<Rightarrow> bool" where
  "raws_distinct w \<longleftrightarrow> distinct (map raw_key (br_raws (wd_bronze w)))"

lemma kept_distinct: "bronze_kept w w' \<Longrightarrow> raws_distinct w \<Longrightarrow> raws_distinct w'"
  using bronze_grows_distinct unfolding bronze_kept_def raws_distinct_def by blast

end
