(* ===== verification/Stream_Worker.thy ===== *)
theory Stream_Worker
  imports Worker_Steps
begin

text \<open>
  The stream orchestrator (\<open>api/src/stream_worker.rs\<close>): claiming subscriptions, the loop of a stream
  task over cancellations, heartbeats and transactions, the flush of a batch to Bronze, and the
  reconciliation of running tasks with the table.

  A stream task is driven by the list of the branches its \<open>select!\<close> takes. An \<open>Item\<close> carries what was
  received and whether the flush interval has elapsed since the last flush. A list that ends before
  the task does leaves it running. The gRPC and the WebSocket loop differ in what they accept, in
  the cursor and in the message of a closed channel; the clients behind the channels are outside.
\<close>

section \<open>Flushing a batch\<close>

record stream_ctx =
  sx_config :: app_config
  sx_registry :: provider_registry
  sx_show_uuid :: "uuid \<Rightarrow> string"
  sx_v5 :: "uuid \<Rightarrow> string \<Rightarrow> uuid"

definition STREAM_BATCH_SIZE :: nat where
  "STREAM_BATCH_SIZE = 100"

definition MAX_CLAIM_BATCH :: nat where
  "MAX_CLAIM_BATCH = 10"

definition stream_run :: "uuid \<Rightarrow> int \<Rightarrow> uuid option \<Rightarrow> string \<Rightarrow> string \<Rightarrow> json option \<Rightarrow> ingestion_run" where
  "stream_run run now target network source cursor =
     \<lparr>ir_id = run, ir_target_id = target, ir_network = network, ir_source = source, ir_mode = IJM_Stream,
      ir_status = IJ_Running, ir_started_at = now, ir_finished_at = None, ir_records_written = 0,
      ir_error_message = None, ir_cursor_state = cursor\<rparr>"

definition stream_raw :: "int \<Rightarrow> string \<Rightarrow> string \<Rightarrow> uuid option \<Rightarrow> transaction \<Rightarrow> raw_transaction" where
  "stream_raw now network source run tx =
     (let raw = (v1_tx_to_v2_raw now tx (Some network))\<lparr>raw_source := source\<rparr>
      in case run of Some u \<Rightarrow> raw\<lparr>raw_ingestion_run_id := Some u\<rparr> | None \<Rightarrow> raw)"

definition stream_checkpoint ::
    "stream_ctx \<Rightarrow> int \<Rightarrow> uuid \<Rightarrow> string \<Rightarrow> string \<Rightarrow> json \<Rightarrow> checkpoint" where
  "stream_checkpoint sx now tid network source cursor =
     \<lparr>cp_id = sx_v5 sx NAMESPACE_URL (sx_show_uuid sx tid @ '':'' @ network @ '':'' @ source),
      cp_target_id = tid, cp_network = network, cp_source = source, cp_cursor = cursor, cp_updated_at = now\<rparr>"

text \<open>The authoritative write, which runs in a transaction of its own.\<close>

definition write_stream_batch ::
    "'d world env \<Rightarrow> transaction list \<Rightarrow> string \<Rightarrow> string \<Rightarrow> uuid option \<Rightarrow> nat \<Rightarrow> 'd world \<Rightarrow> (uuid list \<times> nat) result \<times> 'd world" where
  "write_stream_batch en txs network source run k wd =
     (let deduped = first_by_key raw_key [] (map (stream_raw (en_now en k) network source run) txs)
      in case upsert_raw_transactions_returning_ids deduped (wd_bronze wd) of
           Inl e \<Rightarrow> (Inl e, wd)
         | Inr (ids, br) \<Rightarrow> (Inr (ids, length deduped), wd\<lparr>wd_bronze := br\<rparr>))"

definition finish_stream_run ::
    "'d world env \<Rightarrow> uuid \<Rightarrow> ingestion_job_status \<Rightarrow> int \<Rightarrow> string option \<Rightarrow> ('d world session, unit) state" where
  "finish_stream_run en run status n err =
     best_effort (query en (on_bronze (\<lambda>k. update_ingestion_run_status run status (Some (en_now en k)) n err)))"

definition post_stream_materialization ::
    "'d world env \<Rightarrow> stream_ctx \<Rightarrow> string \<Rightarrow> uuid option \<Rightarrow> uuid \<Rightarrow> ('d world session, unit) state" where
  "post_stream_materialization en sx network target run =
     (case target of
        None \<Rightarrow> skip
      | Some tid \<Rightarrow>
          do { found \<leftarrow> query en (reading (\<lambda>wd. get_index_target tid (wd_targets wd)));
               (case found of
                  Inr (Some t) \<Rightarrow>
                    (case auto_materialization_scope (sx_show_uuid sx) t network run of
                       Some scope \<Rightarrow> best_effort (query en (on_bronze (enqueue_normalize (en_now en) (en_uuid en) scope)))
                     | None \<Rightarrow> skip)
                | _ \<Rightarrow> skip) })"

definition v1_compat_save :: "'d world env \<Rightarrow> stream_ctx \<Rightarrow> transaction list \<Rightarrow> ('d world session, unit) state" where
  "v1_compat_save en sx txs =
     (if ac_enable_v1_compat_writes (sx_config sx)
      then best_effort (query en (\<lambda>k wd. case save_transactions txs (v1_transactions (wd_legacy wd)) of
             (table, err) \<Rightarrow> (case err of None \<Rightarrow> Inr () | Some e \<Rightarrow> Inl e,
                              wd\<lparr>wd_legacy := (wd_legacy wd)\<lparr>v1_transactions := table\<rparr>\<rparr>)))
      else skip)"

definition link_stream_batch ::
    "'d world env \<Rightarrow> stream_ctx \<Rightarrow> string \<Rightarrow> string \<Rightarrow> uuid option \<Rightarrow> json option \<Rightarrow> uuid list \<Rightarrow> ('d world session, unit) state" where
  "link_stream_batch en sx network source target cursor ids =
     (case target of
        None \<Rightarrow> skip
      | Some tid \<Rightarrow>
          do { best_effort (query en (on_bronze (\<lambda>k. save_target_matches
                 (build_target_matches (en_mid en k) (en_now en k) tid ids))));
               (case cursor of
                  Some c \<Rightarrow> best_effort (query en (on_bronze (\<lambda>k.
                    upsert_checkpoint_v2 (stream_checkpoint sx (en_now en k) tid network source c))))
                | None \<Rightarrow> skip) })"

definition flush_stream_batch ::
    "'d world env \<Rightarrow> stream_ctx \<Rightarrow> transaction list \<Rightarrow> string \<Rightarrow> string \<Rightarrow> uuid option \<Rightarrow> json option \<Rightarrow> ('d world session, bool) state" where
  "flush_stream_batch en sx txs network source target cursor =
     (if txs = [] then State_Monad.return True
      else do {
        run \<leftarrow> fresh_uuid en;
        created \<leftarrow> query en (\<lambda>k wd. case create_ingestion_run (stream_run run (en_now en k) target network source cursor) (wd_bronze wd) of
          (r, br) \<Rightarrow> (r, wd\<lparr>wd_bronze := br\<rparr>));
        let run_id = (case created of Inr _ \<Rightarrow> Some run | Inl _ \<Rightarrow> None);
        written \<leftarrow> query en (write_stream_batch en txs network source run_id);
        (case written of
           Inr (ids, n) \<Rightarrow> do {
             link_stream_batch en sx network source target cursor ids;
             (if run_id = None then skip
              else do { finish_stream_run en run IJ_Completed (usize_to_i64_or_max n) None;
                        post_stream_materialization en sx network target run });
             v1_compat_save en sx txs;
             State_Monad.return True }
         | Inl e \<Rightarrow> do {
             (if run_id = None then skip
              else finish_stream_run en run IJ_Failed 0 (Some (case e of Failed m \<Rightarrow> m | Panicked \<Rightarrow> [])));
             v1_compat_save en sx txs;
             State_Monad.return False }) })"

section \<open>The loop of a stream task\<close>

datatype 'x stream_event = Cancelled | Beat | Item 'x bool | Closed

record stream_kind =
  sk_source :: string
  sk_slot :: "transaction \<Rightarrow> 64 word option"
  sk_cursor :: "64 word \<Rightarrow> 64 word \<Rightarrow> json"
  sk_closed :: string

record stream_local =
  sl_batch :: "transaction list"
  sl_count :: "64 word"
  sl_slot :: "64 word"

datatype stream_end = Streaming stream_local | Ended "string + unit"

definition on_subs :: "(nat \<Rightarrow> subs \<Rightarrow> 'a \<times> subs) \<Rightarrow> nat \<Rightarrow> 'd world \<Rightarrow> 'a result \<times> 'd world" where
  "on_subs f k w = (case f k (wd_subs w) of (r, subs) \<Rightarrow> (Inr r, w\<lparr>wd_subs := subs\<rparr>))"

definition store_cursor :: "'d world env \<Rightarrow> uuid \<Rightarrow> json \<Rightarrow> ('d world, unit) prog" where
  "store_cursor en i cursor =
     query en (on_subs (\<lambda>k subs. ((), update_stream_cursor (en_now en k) i cursor subs)))"

text \<open>A flush and, when it succeeded, the cursor of the subscription.\<close>

definition flush_and_store ::
    "'d world env \<Rightarrow> stream_ctx \<Rightarrow> stream_kind \<Rightarrow> stream_subscription \<Rightarrow> stream_local \<Rightarrow> ('d world session, bool) state" where
  "flush_and_store en sx kd sub st =
     (let cursor = sk_cursor kd (sl_count st) (sl_slot st) in
      do { ok \<leftarrow> flush_stream_batch en sx (sl_batch st) (sub_network sub) (sk_source kd) (sub_target_id sub) (Some cursor);
           (if ok then best_effort (store_cursor en (sub_id sub) cursor) else skip);
           State_Monad.return ok })"

definition last_flush ::
    "'d world env \<Rightarrow> stream_ctx \<Rightarrow> stream_kind \<Rightarrow> stream_subscription \<Rightarrow> stream_local \<Rightarrow> ('d world session, unit) state" where
  "last_flush en sx kd sub st =
     (if sl_batch st = [] then skip else do { _ \<leftarrow> flush_and_store en sx kd sub st; skip })"

definition take_item :: "stream_kind \<Rightarrow> transaction \<Rightarrow> stream_local \<Rightarrow> stream_local" where
  "take_item kd tx st =
     \<lparr>sl_batch = sl_batch st @ [tx], sl_count = sl_count st + 1,
      sl_slot = (case sk_slot kd tx of Some n \<Rightarrow> n | None \<Rightarrow> sl_slot st)\<rparr>"

fun stream_loop ::
    "'d world env \<Rightarrow> stream_ctx \<Rightarrow> stream_kind \<Rightarrow> ('x \<Rightarrow> ('d world session, transaction) state) \<Rightarrow> stream_subscription \<Rightarrow> worker \<Rightarrow>
     'x stream_event list \<Rightarrow> stream_local \<Rightarrow> ('d world session, stream_end) state" where
  "stream_loop en sx kd accept sub w [] st = State_Monad.return (Streaming st)"
| "stream_loop en sx kd accept sub w (Cancelled # es) st =
     do { last_flush en sx kd sub st; State_Monad.return (Ended (Inr ())) }"
| "stream_loop en sx kd accept sub w (Beat # es) st =
     do { held \<leftarrow> query en (on_subs (\<lambda>k. heartbeat_stream (en_now en k) (sub_id sub) w));
          (if held = Inr False then State_Monad.return (Ended (Inr ()))
           else stream_loop en sx kd accept sub w es st) }"
| "stream_loop en sx kd accept sub w (Item x due # es) st =
     do { tx \<leftarrow> accept x;
          let st' = take_item kd tx st;
          (if STREAM_BATCH_SIZE \<le> length (sl_batch st') \<or> due
           then do { ok \<leftarrow> flush_and_store en sx kd sub st';
                     stream_loop en sx kd accept sub w es (if ok then st'\<lparr>sl_batch := []\<rparr> else st') }
           else stream_loop en sx kd accept sub w es st') }"
| "stream_loop en sx kd accept sub w (Closed # es) st =
     do { last_flush en sx kd sub st; State_Monad.return (Ended (Inl (sk_closed kd))) }"

section \<open>The streams of a source\<close>

definition cursor_u64 :: "string \<Rightarrow> stream_subscription \<Rightarrow> 64 word" where
  "cursor_u64 key sub =
     (case Option.bind (Option.bind (sub_cursor_state sub) (\<lambda>c. json_get c key)) json_as_u64 of
        Some n \<Rightarrow> of_nat n | None \<Rightarrow> 0)"

definition cursor_tx_count :: "stream_subscription \<Rightarrow> 64 word" where
  "cursor_tx_count = cursor_u64 ''tx_count''"

definition cursor_last_slot :: "stream_subscription \<Rightarrow> 64 word" where
  "cursor_last_slot = cursor_u64 ''last_slot''"

definition grpc_kind :: stream_kind where
  "grpc_kind = \<lparr>sk_source = ''grpc'',
     sk_slot = (\<lambda>tx. map_option of_nat (Option.bind (json_get (tx_raw_metadata tx) ''slot'') json_as_u64)),
     sk_cursor = (\<lambda>n slot. JObject [(''tx_count'', JInt (uint n)), (''last_slot'', JInt (uint slot))]),
     sk_closed = ''gRPC stream channel closed unexpectedly''\<rparr>"

definition ws_kind :: stream_kind where
  "ws_kind = \<lparr>sk_source = ''ws'', sk_slot = (\<lambda>_. None),
     sk_cursor = (\<lambda>n _. JObject [(''tx_count'', JInt (uint n))]),
     sk_closed = ''Hyperliquid WS stream closed (retries exhausted)''\<rparr>"

text \<open>The endpoint and the token of the gRPC adapter.\<close>

definition grpc_from_network_context :: "network_context \<Rightarrow> (string \<times> string option) result" where
  "grpc_from_network_context cx =
     (case cx_provider cx PC_Stream of
        Some p \<Rightarrow> Inr (rp_url p, rp_token p)
      | None \<Rightarrow> Inl (''no gRPC provider with '' @ quoted ''stream'' @ '' capability for network ''
          @ quoted (cx_network cx)))"

definition grpc_endpoint :: "stream_ctx \<Rightarrow> stream_subscription \<Rightarrow> (string \<times> string option) result" where
  "grpc_endpoint sx sub =
     (let fallback = (case ac_solana_grpc_url (sx_config sx) of
            Some u \<Rightarrow> Inr (u, ac_solana_grpc_token (sx_config sx))
          | None \<Rightarrow> Inl ''No Solana gRPC URL configured'')
      in case context_from_registry (sx_registry sx) (sub_network sub) of
           Some cx \<Rightarrow> (if cx_has_capability cx PC_Stream then grpc_from_network_context cx else fallback)
         | None \<Rightarrow> fallback)"

definition run_solana_grpc_stream ::
    "'d world env \<Rightarrow> stream_ctx \<Rightarrow> (string \<times> string option \<Rightarrow> transaction stream_event list) \<Rightarrow> stream_subscription \<Rightarrow> worker \<Rightarrow>
     ('d world session, stream_end) state" where
  "run_solana_grpc_stream en sx events sub w =
     (case grpc_endpoint sx sub of
        Inl e \<Rightarrow> State_Monad.return (Ended (Inl e))
      | Inr target \<Rightarrow> stream_loop en sx grpc_kind State_Monad.return sub w (events target)
          \<lparr>sl_batch = [], sl_count = cursor_tx_count sub, sl_slot = cursor_last_slot sub\<rparr>)"

definition HL_WS_URL :: string where
  "HL_WS_URL = ''wss://api.hyperliquid.xyz/ws''"

definition ws_endpoint :: "stream_ctx \<Rightarrow> stream_subscription \<Rightarrow> string" where
  "ws_endpoint sx sub =
     (case context_from_registry (sx_registry sx) (sub_network sub) of
        Some cx \<Rightarrow> (case cx_url cx PC_Stream of Some u \<Rightarrow> u | None \<Rightarrow> HL_WS_URL)
      | None \<Rightarrow> HL_WS_URL)"

text \<open>What the client does with a message: the queue to the loop holds 1000, and a full one drops.\<close>

record ws_message =
  wm_channel :: "string option"
  wm_data :: "json option"

definition WS_QUEUE :: nat where
  "WS_QUEUE = 1000"

definition ws_on_message :: "ws_message \<Rightarrow> json list \<Rightarrow> json list" where
  "ws_on_message m q =
     (let channel = (case wm_channel m of Some c \<Rightarrow> c | None \<Rightarrow> [])
      in if channel = ''subscriptionResponse'' \<or> channel = [] then q
         else case wm_data m of
                Some d \<Rightarrow> (if length q < WS_QUEUE then q @ [d] else q)
              | None \<Rightarrow> q)"

text \<open>After the connection has ended: the seconds until the next attempt, or the end of the stream.\<close>

definition WS_MAX_RETRIES :: nat where
  "WS_MAX_RETRIES = 10"

definition ws_backoff :: "nat \<Rightarrow> nat option" where
  "ws_backoff retry_count =
     (let n = Suc retry_count in if WS_MAX_RETRIES < n then None else Some (2 ^ min n 6))"

definition ws_transaction :: "'d world env \<Rightarrow> stream_ctx \<Rightarrow> string \<Rightarrow> json \<Rightarrow> ('d world session, transaction) state" where
  "ws_transaction en sx wallet payload =
     do { i \<leftarrow> fresh_uuid en;
          h \<leftarrow> fresh_uuid en;
          now \<leftarrow> State (\<lambda>s. (en_now en (sn_clock s), s));
          State_Monad.return
            \<lparr>tx_id = i, tx_user_id = sx_v5 sx NAMESPACE_URL wallet, tx_wallet_address = wallet,
             tx_timestamp = now div 1000000, tx_hash = ''hl-ws-'' @ sx_show_uuid sx h,
             tx_chain = Chain_Hyperliquid, tx_raw_metadata = payload\<rparr> }"

definition stream_wallet :: "stream_subscription \<Rightarrow> string option" where
  "stream_wallet sub = Option.bind (Option.bind (sub_config sub) (\<lambda>c. json_get c ''wallet'')) json_as_str"

definition run_hyperliquid_ws_stream ::
    "'d world env \<Rightarrow> stream_ctx \<Rightarrow> (string \<Rightarrow> string \<Rightarrow> json stream_event list) \<Rightarrow> stream_subscription \<Rightarrow> worker \<Rightarrow>
     ('d world session, stream_end) state" where
  "run_hyperliquid_ws_stream en sx events sub w =
     (case stream_wallet sub of
        None \<Rightarrow> State_Monad.return (Ended (Inl ''Missing wallet in subscription config''))
      | Some wallet \<Rightarrow> stream_loop en sx ws_kind (ws_transaction en sx wallet) sub w
          (events (ws_endpoint sx sub) wallet)
          \<lparr>sl_batch = [], sl_count = cursor_tx_count sub, sl_slot = 0\<rparr>)"

section \<open>The task and the orchestrator\<close>

text \<open>A task that ends on an error fails the subscription, any other end releases the lease.\<close>

definition spawn_stream_task ::
    "'d world env \<Rightarrow> stream_ctx \<Rightarrow> (string \<times> string option \<Rightarrow> transaction stream_event list) \<Rightarrow>
     (string \<Rightarrow> string \<Rightarrow> json stream_event list) \<Rightarrow> stream_subscription \<Rightarrow> worker \<Rightarrow> ('d world session, stream_end) state" where
  "spawn_stream_task en sx grpc ws sub w =
     do { res \<leftarrow> (case sub_source sub of
            SS_Grpc \<Rightarrow> run_solana_grpc_stream en sx grpc sub w
          | SS_Ws \<Rightarrow> run_hyperliquid_ws_stream en sx ws sub w
          | SS_Rpc \<Rightarrow> State_Monad.return (Ended (Inl ''RPC stream source not yet implemented'')));
          (case res of
             Streaming st \<Rightarrow> skip
           | Ended (Inl e) \<Rightarrow> best_effort (query en (on_subs (\<lambda>k. fail_stream_subscription (en_now en k) (sub_id sub) w e)))
           | Ended (Inr u) \<Rightarrow> best_effort (query en (on_subs (\<lambda>k. release_stream_lease (en_now en k) (sub_id sub) w))));
          State_Monad.return res }"

text \<open>
  The orchestrator owns the running streams, the permits of the semaphore and the cancellation
  tokens; \<open>or_spawned\<close> and \<open>or_cancelled\<close> record what it has started and cancelled. \<open>ended i\<close> are the
  permits that tasks give back before the subscription \<open>i\<close> is tried.
\<close>

record orchestrator =
  or_active :: "uuid list"
  or_permits :: nat
  or_spawned :: "stream_subscription list"
  or_cancelled :: "uuid list"

fun claim_all ::
    "'d world env \<Rightarrow> worker \<Rightarrow> (uuid \<Rightarrow> nat) \<Rightarrow> stream_subscription list \<Rightarrow> orchestrator \<Rightarrow> ('d world session, orchestrator) state" where
  "claim_all en w ended [] oc = State_Monad.return oc"
| "claim_all en w ended (sub # subs) oc =
     (let permits = or_permits oc + ended (sub_id sub) in
      if sub_id sub \<in> set (or_active oc) then claim_all en w ended subs (oc\<lparr>or_permits := permits\<rparr>)
      else if permits = 0 then State_Monad.return oc
      else do {
        claimed \<leftarrow> query en (on_subs (\<lambda>k. claim_stream_lease (en_now en k) (sub_id sub) w));
        (if claimed = Inr True
         then claim_all en w ended subs (oc\<lparr>or_active := or_active oc @ [sub_id sub], or_permits := permits - 1,
                or_spawned := or_spawned oc @ [sub]\<rparr>)
         else claim_all en w ended subs (oc\<lparr>or_permits := permits\<rparr>)) })"

definition poll_and_claim ::
    "'d world env \<Rightarrow> worker \<Rightarrow> (uuid \<Rightarrow> nat) \<Rightarrow> orchestrator \<Rightarrow> ('d world session, orchestrator) state" where
  "poll_and_claim en w ended oc =
     do { claimable \<leftarrow> query en (\<lambda>k. reading (\<lambda>wd.
            list_claimable_stream_subscriptions (en_now en k) MAX_CLAIM_BATCH (wd_subs wd)) k);
          (case claimable of
             Inl e \<Rightarrow> State_Monad.return oc
           | Inr subs \<Rightarrow> claim_all en w ended subs oc) }"

definition drop_stream :: "uuid \<Rightarrow> orchestrator \<Rightarrow> orchestrator" where
  "drop_stream i oc = oc\<lparr>or_active := filter (\<lambda>j. j \<noteq> i) (or_active oc), or_cancelled := or_cancelled oc @ [i]\<rparr>"

definition release_best_effort :: "'d world env \<Rightarrow> worker \<Rightarrow> uuid \<Rightarrow> ('d world session, unit) state" where
  "release_best_effort en w i = best_effort (query en (on_subs (\<lambda>k. release_stream_lease (en_now en k) i w)))"

fun reconcile_ids :: "'d world env \<Rightarrow> worker \<Rightarrow> uuid list \<Rightarrow> orchestrator \<Rightarrow> ('d world session, orchestrator) state" where
  "reconcile_ids en w [] oc = State_Monad.return oc"
| "reconcile_ids en w (i # ids) oc =
     do { found \<leftarrow> query en (reading (\<lambda>wd. get_stream_subscription i (wd_subs wd)));
          (case found of
             Inl e \<Rightarrow> reconcile_ids en w ids oc
           | Inr None \<Rightarrow> reconcile_ids en w ids (drop_stream i oc)
           | Inr (Some sub) \<Rightarrow>
               (if sub_desired_status sub \<noteq> SD_Active
                then do { release_best_effort en w i; reconcile_ids en w ids (drop_stream i oc) }
                else if sub_lease_owner sub \<noteq> Some w then reconcile_ids en w ids (drop_stream i oc)
                else reconcile_ids en w ids oc)) }"

definition reconcile :: "'d world env \<Rightarrow> worker \<Rightarrow> orchestrator \<Rightarrow> ('d world session, orchestrator) state" where
  "reconcile en w oc = reconcile_ids en w (or_active oc) oc"

text \<open>The shutdown of the orchestrator.\<close>

fun stop_streams :: "'d world env \<Rightarrow> worker \<Rightarrow> uuid list \<Rightarrow> orchestrator \<Rightarrow> ('d world session, orchestrator) state" where
  "stop_streams en w [] oc = State_Monad.return oc"
| "stop_streams en w (i # ids) oc =
     do { release_best_effort en w i; stop_streams en w ids (drop_stream i oc) }"

definition stop_orchestrator :: "'d world env \<Rightarrow> worker \<Rightarrow> orchestrator \<Rightarrow> ('d world session, orchestrator) state" where
  "stop_orchestrator en w oc = stop_streams en w (or_active oc) oc"

section \<open>What a stream task guarantees\<close>

definition in_bronze :: "string \<Rightarrow> transaction \<Rightarrow> 'd world \<Rightarrow> bool" where
  "in_bronze network tx wd \<longleftrightarrow> (network, tx_hash tx) \<in> raw_key ` set (br_raws (wd_bronze wd))"

definition old_cursors :: "uuid \<Rightarrow> 'd world \<Rightarrow> json option set" where
  "old_cursors i wd = sub_cursor_state ` {r \<in> set (wd_subs wd). sub_id r = i}"

text \<open>Bronze is kept, and a new cursor of the subscription is one of \<open>F\<close>.\<close>

definition stream_kept :: "json option set \<Rightarrow> uuid \<Rightarrow> 'd world \<Rightarrow> 'd world \<Rightarrow> bool" where
  "stream_kept F i wd wd' \<longleftrightarrow> bronze_kept wd wd' \<and> old_cursors i wd' \<subseteq> old_cursors i wd \<union> F"

interpretation stream_kept: guarantee "stream_kept F i" for F i
  by unfold_locales (auto simp: stream_kept_def intro: bronze_kept.refl bronze_kept.trans)

text \<open>The other sessions, a new holder of the lease among them, write only the cursors \<open>F\<close>.\<close>

definition env_streams :: "json option set \<Rightarrow> uuid \<Rightarrow> 'd world env \<Rightarrow> bool" where
  "env_streams F i en \<longleftrightarrow> (\<forall>k wd. stream_kept F i wd (en_others en k wd))"

lemma raws_grow_keys:
  assumes "raws_grow t t'"
  shows "raw_key ` set t \<subseteq> raw_key ` set t'"
proof
  fix k assume "k \<in> raw_key ` set t"
  then obtain x where x: "x \<in> set t" "k = raw_key x" by blast
  then obtain y where y: "y \<in> set t'" "kept x y" using assms unfolding raws_grow_def by blast
  have "k = raw_key y" using x(2) kept_id_key [OF y(2)] by simp
  then show "k \<in> raw_key ` set t'" using y(1) by (rule image_eqI)
qed

lemma in_bronze_kept:
  assumes "bronze_kept wd wd'" "raws_distinct wd" "in_bronze network tx wd"
  shows "in_bronze network tx wd'"
proof -
  have "raws_grow (br_raws (wd_bronze wd)) (br_raws (wd_bronze wd'))"
    using assms(1,2) unfolding bronze_kept_def raws_distinct_def bronze_grows_def by blast
  from raws_grow_keys [OF this] show ?thesis using assms(3) unfolding in_bronze_def by blast
qed

lemma stream_kept_distinct: "stream_kept F i wd wd' \<Longrightarrow> raws_distinct wd \<Longrightarrow> raws_distinct wd'"
  unfolding stream_kept_def using kept_distinct by blast

lemma raw_key_stream: "raw_key (stream_raw now network source run tx) = (network, tx_hash tx)"
  by (simp add: stream_raw_def v1_tx_to_v2_raw_def raw_key_def network_or_default_def Let_def split: option.split)

lemma list_all2_in_keys:
  "list_all2 (\<lambda>r i. \<exists>x \<in> set T. raw_key x = raw_key r \<and> raw_id x = i) rs ids \<Longrightarrow>
     \<forall>r \<in> set rs. raw_key r \<in> raw_key ` set T"
proof (induction rs arbitrary: ids)
  case (Cons r rs)
  then obtain i is' where i: "ids = i # is'" by (cases ids) simp_all
  then obtain x where x: "x \<in> set T" "raw_key x = raw_key r" using Cons.prems by auto
  have "raw_key r \<in> raw_key ` set T" using x(2) [symmetric] x(1) by (rule image_eqI)
  with Cons.IH [of is'] Cons.prems i show ?case by simp
qed simp

lemma upsert_deduped_keys:
  assumes "distinct (map raw_key (br_raws db))"
    and "upsert_raw_transactions_returning_ids (first_by_key raw_key [] rs) db = Inr (ids, db')"
  shows "bronze_grows db db'" and "raw_key ` set rs \<subseteq> raw_key ` set (br_raws db')"
proof -
  let ?dd = "first_by_key raw_key [] rs"
  have cat: "concat (chunks 500 ?dd) = ?dd" by (rule concat_chunks) simp
  have u: "upsert_chunks (chunks 500 ?dd) db = Inr (ids, db')"
    using assms(2) by (simp only: upsert_raw_transactions_returning_ids_def)
  note spec = upsert_chunks_spec [OF assms(1) u, unfolded cat]
  show "bronze_grows db db'" using spec by blast
  have l: "list_all2 (\<lambda>r i. \<exists>x \<in> set (br_raws db'). raw_key x = raw_key r \<and> raw_id x = i) ?dd ids"
    using spec by blast
  have "\<forall>r \<in> set ?dd. raw_key r \<in> raw_key ` set (br_raws db')"
    using list_all2_in_keys [OF l] .
  then have "raw_key ` set ?dd \<subseteq> raw_key ` set (br_raws db')" by blast
  then show "raw_key ` set rs \<subseteq> raw_key ` set (br_raws db')"
    using first_by_key_spec [of raw_key "[]" rs] by simp
qed

lemma write_stream_cases:
  assumes "write_stream_batch en txs network source run k wd = (r, wd')"
  obtains e where "r = Inl e" "wd' = wd"
  | v ids br where "r = Inr v" "wd' = wd\<lparr>wd_bronze := br\<rparr>"
    "upsert_raw_transactions_returning_ids
       (first_by_key raw_key [] (map (stream_raw (en_now en k) network source run) txs)) (wd_bronze wd) = Inr (ids, br)"
proof (cases "upsert_raw_transactions_returning_ids
       (first_by_key raw_key [] (map (stream_raw (en_now en k) network source run) txs)) (wd_bronze wd)")
  case (Inl e)
  then show ?thesis using assms by (intro that(1) [of e]) (simp_all add: write_stream_batch_def Let_def)
next
  case (Inr p)
  obtain ids br where "p = (ids, br)" by (cases p)
  with Inr show ?thesis using assms by (intro that(2) [of "(ids, length (first_by_key raw_key [] (map (stream_raw (en_now en k) network source run) txs)))" br ids]) (simp_all add: write_stream_batch_def Let_def)
qed

lemma write_stream_kept: "stream_kept F i wd (snd (write_stream_batch en txs network source run k wd))"
proof -
  obtain r wd' where w: "write_stream_batch en txs network source run k wd = (r, wd')" by (cases "write_stream_batch en txs network source run k wd")
  then have "stream_kept F i wd wd'"
  proof (cases rule: write_stream_cases)
    case 1
    then show ?thesis by (simp add: stream_kept.refl)
  next
    case (2 v ids br)
    have "bronze_kept wd wd'"
      using upsert_deduped_keys(1) [OF _ 2(3)] by (simp add: bronze_kept_def 2(2))
    then show ?thesis by (simp add: stream_kept_def old_cursors_def 2(2))
  qed
  with w show ?thesis by simp
qed

lemma write_stream_stores:
  assumes "raws_distinct wd" "write_stream_batch en txs network source run k wd = (Inr v, wd')" "tx \<in> set txs"
  shows "in_bronze network tx wd'"
  using assms(2)
proof (cases rule: write_stream_cases)
  case (2 v' ids br)
  have "raw_key ` set (map (stream_raw (en_now en k) network source run) txs) \<subseteq> raw_key ` set (br_raws br)"
    using upsert_deduped_keys(2) [OF _ 2(3)] assms(1) by (simp add: raws_distinct_def)
  moreover have "(network, tx_hash tx) \<in> raw_key ` set (map (stream_raw (en_now en k) network source run) txs)"
    using assms(3) by (simp add: image_image raw_key_stream)
  ultimately show ?thesis by (simp add: in_bronze_def 2(2) subset_iff)
qed simp

subsection \<open>The flush\<close>

lemma streams_query:
  "env_streams F i en \<Longrightarrow> (\<And>k wd. stream_kept F i wd (snd (f k wd))) \<Longrightarrow> complies (stream_kept F i) (query en f)"
  by (intro stream_kept.query) (auto simp: env_streams_def)

lemma stream_kept_bronze:
  "bronze_kept wd (wd\<lparr>wd_bronze := br\<rparr>) \<Longrightarrow> stream_kept F i wd (wd\<lparr>wd_bronze := br\<rparr>)"
  by (simp add: stream_kept_def old_cursors_def)

lemma on_bronze_kept:
  fixes en :: "'d world env"
  assumes "env_streams F i en" and "\<And>k (wd :: 'd world). bronze_kept wd (wd\<lparr>wd_bronze := f k (wd_bronze wd)\<rparr>)"
  shows "complies (stream_kept F i) (query en (on_bronze f))"
proof (rule streams_query [OF assms(1)])
  show "stream_kept F i wd (snd (on_bronze f k wd))" for k and wd :: "'d world"
    unfolding on_bronze_def snd_conv by (rule stream_kept_bronze) (rule assms(2))
qed

lemma created_run_kept:
  "stream_kept F i wd (wd\<lparr>wd_bronze := snd (create_ingestion_run run (wd_bronze wd))\<rparr>)"
proof (rule stream_kept_bronze)
  have "wd\<lparr>wd_bronze := wd_bronze wd\<rparr> = wd" by simp
  then have "bronze_kept wd (wd\<lparr>wd_bronze := wd_bronze wd\<rparr>)" by (simp add: bronze_kept.refl)
  then show "bronze_kept wd (wd\<lparr>wd_bronze := snd (create_ingestion_run run (wd_bronze wd))\<rparr>)"
    by (simp add: create_ingestion_run_def)
qed

lemma saved_matches_kept: "bronze_kept wd (wd\<lparr>wd_bronze := save_target_matches ms (wd_bronze wd)\<rparr>)"
  by (simp add: bronze_kept_def save_target_matches_spec bronze_grows_refl)

lemma checkpoint_kept: "bronze_kept wd (wd\<lparr>wd_bronze := upsert_checkpoint_v2 cp (wd_bronze wd)\<rparr>)"
  by (simp add: bronze_kept_def upsert_checkpoint_v2_def bronze_grows_def raws_grow_refl)

lemma finish_stream_run_kept: "env_streams F i en \<Longrightarrow> complies (stream_kept F i) (finish_stream_run en run status n err)"
  unfolding finish_stream_run_def
  by (intro stream_kept.rules on_bronze_kept) (simp_all add: update_ingestion_run_status_def)

lemma post_stream_kept: "env_streams F i en \<Longrightarrow> complies (stream_kept F i) (post_stream_materialization en sx network target run)"
  unfolding post_stream_materialization_def
  by (intro complies_branches stream_kept.rules on_bronze_kept streams_query)
     (simp_all add: reading_def stream_kept.refl enqueue_normalize_def)

lemma v1_compat_kept: "env_streams F i en \<Longrightarrow> complies (stream_kept F i) (v1_compat_save en sx txs)"
  unfolding v1_compat_save_def
  by (intro complies_branches stream_kept.rules streams_query)
     (simp_all add: stream_kept_def bronze_kept_def old_cursors_def bronze_grows_refl split: prod.split)

lemma link_stream_kept: "env_streams F i en \<Longrightarrow> complies (stream_kept F i) (link_stream_batch en sx network source target cursor ids)"
  unfolding link_stream_batch_def
  by (intro complies_branches stream_kept.rules on_bronze_kept) (simp_all add: saved_matches_kept checkpoint_kept)

lemma stored_then:
  assumes "complies (stream_kept F i) m" "raws_distinct (sn_world s)" "\<forall>tx \<in> set txs. in_bronze network tx (sn_world s)"
  shows "wp m (\<lambda>_ t. \<forall>tx \<in> set txs. in_bronze network tx (sn_world t)) s"
proof -
  have all: "\<forall>tx \<in> set txs. in_bronze network tx (sn_world t)" if "stream_kept F i (sn_world s) (sn_world t)" for t
    using that assms(3) in_bronze_kept [OF _ assms(2)] unfolding stream_kept_def by blast
  have "wp m (\<lambda>_ t. stream_kept F i (sn_world s) (sn_world t)) s" using assms(1) by (simp add: complies_def)
  then show ?thesis by (rule wp_mono) (rule all)
qed

definition after_write ::
    "'d world env \<Rightarrow> stream_ctx \<Rightarrow> transaction list \<Rightarrow> string \<Rightarrow> string \<Rightarrow> uuid option \<Rightarrow> json option \<Rightarrow> uuid \<Rightarrow> uuid option \<Rightarrow>
     fault + uuid list \<times> nat \<Rightarrow> ('d world session, bool) state" where
  "after_write en sx txs network source target cursor run run_id written =
     (case written of
           Inr (ids, n) \<Rightarrow> do {
             link_stream_batch en sx network source target cursor ids;
             (if run_id = None then skip
              else do { finish_stream_run en run IJ_Completed (usize_to_i64_or_max n) None;
                        post_stream_materialization en sx network target run });
             v1_compat_save en sx txs;
             State_Monad.return True }
         | Inl e \<Rightarrow> do {
             (if run_id = None then skip
              else finish_stream_run en run IJ_Failed 0 (Some (case e of Failed m \<Rightarrow> m | Panicked \<Rightarrow> [])));
             v1_compat_save en sx txs;
             State_Monad.return False })"

lemma after_write_kept:
  "env_streams F i en \<Longrightarrow> complies (stream_kept F i) (after_write en sx txs network source target cursor run run_id written)"
  unfolding after_write_def
  by (intro complies_branches stream_kept.rules link_stream_kept finish_stream_run_kept post_stream_kept v1_compat_kept)

lemma after_write_result:
  "wp (after_write en sx txs network source target cursor run run_id written) (\<lambda>ok _. ok = (\<exists>v. written = Inr v)) s"
proof (cases written)
  case (Inl e)
  then show ?thesis by (simp add: after_write_def wp_simps wp_def split_beta)
next
  case (Inr v)
  obtain ids n where "v = (ids, n)" by (cases v)
  with Inr show ?thesis by (simp add: after_write_def wp_simps wp_def split_beta)
qed

lemma flush_eq:
  "flush_stream_batch en sx txs network source target cursor =
     (if txs = [] then State_Monad.return True
      else do {
        run \<leftarrow> fresh_uuid en;
        created \<leftarrow> query en (\<lambda>k wd. case create_ingestion_run (stream_run run (en_now en k) target network source cursor) (wd_bronze wd) of
          (r, br) \<Rightarrow> (r, wd\<lparr>wd_bronze := br\<rparr>));
        let run_id = (case created of Inr _ \<Rightarrow> Some run | Inl _ \<Rightarrow> None);
        written \<leftarrow> query en (write_stream_batch en txs network source run_id);
        after_write en sx txs network source target cursor run run_id written })"
  by (simp add: flush_stream_batch_def after_write_def)

lemma create_query_kept:
  assumes "env_streams F i en"
  shows "complies (stream_kept F i) (query en (\<lambda>k wd. case create_ingestion_run (f k) (wd_bronze wd) of (r, br) \<Rightarrow> (r, wd\<lparr>wd_bronze := br\<rparr>)))"
  by (rule streams_query [OF assms]) (use created_run_kept in \<open>simp add: split_beta\<close>)

lemma write_query_kept:
  "env_streams F i en \<Longrightarrow> complies (stream_kept F i) (query en (write_stream_batch en txs network source run_id))"
  by (rule streams_query) (simp_all add: write_stream_kept)

lemma flush_kept: "env_streams F i en \<Longrightarrow> complies (stream_kept F i) (flush_stream_batch en sx txs network source target cursor)"
  unfolding flush_eq Let_def
  by (intro complies_branches stream_kept.rules create_query_kept write_query_kept after_write_kept)

text \<open>A flush that reports success has stored every transaction of the batch.\<close>

lemma write_query_stores:
  assumes "env_streams F i en" "raws_distinct (sn_world s)"
  shows "wp (query en (write_stream_batch en txs network source run_id))
    (\<lambda>r t. raws_distinct (sn_world t) \<and> (\<forall>v. r = Inr v \<longrightarrow> (\<forall>tx \<in> set txs. in_bronze network tx (sn_world t)))) s"
proof (rule wp_queryI)
  fix k
  have before: "raws_distinct (en_others en k (sn_world s))"
    using assms(1) stream_kept_distinct [OF _ assms(2)] unfolding env_streams_def by blast
  then show "raws_distinct (sn_world (s\<lparr>sn_clock := Suc (sn_clock s), sn_world := en_others en k (sn_world s)\<rparr>)) \<and>
      (\<forall>v. Inl (Failed e) = Inr v \<longrightarrow> (\<forall>tx \<in> set txs. in_bronze network tx
        (sn_world (s\<lparr>sn_clock := Suc (sn_clock s), sn_world := en_others en k (sn_world s)\<rparr>))))" for e
    by simp
  obtain r wd' where w: "write_stream_batch en txs network source run_id k (en_others en k (sn_world s)) = (r, wd')"
    by (cases "write_stream_batch en txs network source run_id k (en_others en k (sn_world s))")
  have "stream_kept F i (en_others en k (sn_world s)) wd'"
    using write_stream_kept [of F i "en_others en k (sn_world s)" en txs network source run_id k] w by simp
  then have "raws_distinct wd'" using before by (rule stream_kept_distinct)
  moreover have "\<forall>v. r = Inr v \<longrightarrow> (\<forall>tx \<in> set txs. in_bronze network tx wd')"
    using write_stream_stores [OF before] w by blast
  ultimately show "case write_stream_batch en txs network source run_id k (en_others en k (sn_world s)) of (r, w) \<Rightarrow>
      raws_distinct (sn_world (s\<lparr>sn_clock := Suc (sn_clock s), sn_world := w\<rparr>)) \<and>
      (\<forall>v. map_sum Failed id r = Inr v \<longrightarrow> (\<forall>tx \<in> set txs. in_bronze network tx
         (sn_world (s\<lparr>sn_clock := Suc (sn_clock s), sn_world := w\<rparr>))))"
    by (simp add: w)
qed

lemma after_write_stores:
  assumes "env_streams F i en" "raws_distinct (sn_world s)"
    and "\<forall>v. written = Inr v \<longrightarrow> (\<forall>tx \<in> set txs. in_bronze network tx (sn_world s))"
  shows "wp (after_write en sx txs network source target cursor run run_id written)
    (\<lambda>ok t. ok \<longrightarrow> (\<forall>tx \<in> set txs. in_bronze network tx (sn_world t))) s"
proof (cases written)
  case (Inl e)
  then show ?thesis
    using after_write_result [of en sx txs network source target cursor run run_id written s] by (auto elim: wp_mono)
next
  case (Inr v)
  then have "\<forall>tx \<in> set txs. in_bronze network tx (sn_world s)" using assms(3) by blast
  from stored_then [OF after_write_kept [OF assms(1)] assms(2) this] show ?thesis by (rule wp_mono) simp
qed

lemma keeps_distinct:
  assumes "complies (stream_kept F i) m" "raws_distinct (sn_world s)"
  shows "wp m (\<lambda>_ t. raws_distinct (sn_world t)) s"
proof -
  have "wp m (\<lambda>_ t. stream_kept F i (sn_world s) (sn_world t)) s" using assms(1) by (simp add: complies_def)
  then show ?thesis by (rule wp_mono) (rule stream_kept_distinct [OF _ assms(2)])
qed

lemma flush_stores:
  assumes "env_streams F i en" "raws_distinct (sn_world s)"
  shows "wp (flush_stream_batch en sx txs network source target cursor)
    (\<lambda>ok t. ok \<longrightarrow> (\<forall>tx \<in> set txs. in_bronze network tx (sn_world t))) s"
proof (cases "txs = []")
  case True
  then show ?thesis by (simp add: flush_eq wp_simps)
next
  case False
  let ?Q = "\<lambda>ok t. ok \<longrightarrow> (\<forall>tx \<in> set txs. in_bronze network tx (sn_world t))"
  have written: "wp (query en (write_stream_batch en txs network source run_id))
      (\<lambda>written. wp (after_write en sx txs network source target cursor run run_id written) ?Q) t"
    if "raws_distinct (sn_world t)" for run run_id t
    by (rule wp_mono [OF write_query_stores [OF assms(1) that]], rule after_write_stores [OF assms(1)]) auto
  show ?thesis
    unfolding flush_eq Let_def using False
    apply (simp only: if_False wp_bind)
    apply (rule wp_mono [OF keeps_distinct [OF stream_kept.fresh_uuid assms(2)]])
    by (rule wp_mono [OF keeps_distinct [OF create_query_kept [OF assms(1)]]], assumption, rule written)
qed

subsection \<open>The loop\<close>

text \<open>
  \<open>got\<close> are the transactions received so far. A cursor of the subscription that is not one of \<open>c0\<close>, which
  it had before or which others have written, is the cursor after a prefix of them, all of which are in Bronze.
\<close>

definition cursor_after :: "stream_kind \<Rightarrow> stream_local \<Rightarrow> transaction list \<Rightarrow> json" where
  "cursor_after kd st0 got = (let st = fold (take_item kd) got st0 in sk_cursor kd (sl_count st) (sl_slot st))"

definition covered ::
    "stream_kind \<Rightarrow> stream_subscription \<Rightarrow> json option set \<Rightarrow> stream_local \<Rightarrow> transaction list \<Rightarrow> 'd world \<Rightarrow> bool" where
  "covered kd sub c0 st0 got wd \<longleftrightarrow> (\<forall>c \<in> old_cursors (sub_id sub) wd. c \<in> c0 \<or>
     (\<exists>k \<le> length got. c = Some (cursor_after kd st0 (take k got))
        \<and> (\<forall>tx \<in> set (take k got). in_bronze (sub_network sub) tx wd)))"

definition loop_inv ::
    "stream_kind \<Rightarrow> stream_subscription \<Rightarrow> json option set \<Rightarrow> stream_local \<Rightarrow> transaction list \<Rightarrow> stream_local \<Rightarrow> 'd world \<Rightarrow> bool" where
  "loop_inv kd sub c0 st0 got st wd \<longleftrightarrow> raws_distinct wd \<and> covered kd sub c0 st0 got wd
     \<and> sl_count st = sl_count (fold (take_item kd) got st0) \<and> sl_slot st = sl_slot (fold (take_item kd) got st0)
     \<and> (\<forall>tx \<in> set got. tx \<in> set (sl_batch st) \<or> in_bronze (sub_network sub) tx wd)"

lemma stream_kept_stored: "stream_kept F i wd wd' \<Longrightarrow> raws_distinct wd \<Longrightarrow> in_bronze network tx wd \<Longrightarrow> in_bronze network tx wd'"
  unfolding stream_kept_def using in_bronze_kept by blast

lemma covered_kept:
  assumes "stream_kept c0 (sub_id sub) wd wd'" "raws_distinct wd" "covered kd sub c0 st0 got wd"
  shows "covered kd sub c0 st0 got wd'"
proof -
  have "old_cursors (sub_id sub) wd' \<subseteq> old_cursors (sub_id sub) wd \<union> c0" using assms(1) by (simp add: stream_kept_def)
  then show ?thesis
    using assms(3) stream_kept_stored [OF assms(1,2)] unfolding covered_def by blast
qed

lemma loop_inv_kept:
  assumes "stream_kept c0 (sub_id sub) wd wd'" "loop_inv kd sub c0 st0 got st wd"
  shows "loop_inv kd sub c0 st0 got st wd'"
  using assms(2) covered_kept [OF assms(1)] stream_kept_stored [OF assms(1)] stream_kept_distinct [OF assms(1)]
  unfolding loop_inv_def by blast

lemma loop_inv_then:
  assumes "complies (stream_kept c0 (sub_id sub)) m" "loop_inv kd sub c0 st0 got st (sn_world s)"
  shows "wp m (\<lambda>_ t. loop_inv kd sub c0 st0 got st (sn_world t)) s"
proof -
  have "wp m (\<lambda>_ t. stream_kept c0 (sub_id sub) (sn_world s) (sn_world t)) s" using assms(1) by (simp add: complies_def)
  then show ?thesis by (rule wp_mono) (rule loop_inv_kept [OF _ assms(2)])
qed

lemma covered_more: "covered kd sub c0 st0 got wd \<Longrightarrow> covered kd sub c0 st0 (got @ [tx]) wd"
  unfolding covered_def by (fastforce simp: take_Cons')

lemma loop_inv_take:
  assumes "loop_inv kd sub c0 st0 got st wd"
  shows "loop_inv kd sub c0 st0 (got @ [tx]) (take_item kd tx st) wd"
  using assms covered_more [of kd sub c0 st0 got wd tx] by (auto simp: loop_inv_def take_item_def split: option.split)

lemma loop_inv_flushed:
  assumes "loop_inv kd sub c0 st0 got st wd" "\<forall>tx \<in> set got. in_bronze (sub_network sub) tx wd"
  shows "loop_inv kd sub c0 st0 got (st\<lparr>sl_batch := []\<rparr>) wd"
  using assms by (simp add: loop_inv_def)

subsubsection \<open>Storing the cursor\<close>

lemma updated_cursors:
  "list_all (\<lambda>r. sub_id r = i \<longrightarrow> sub_cursor_state r = Some c) (update_stream_cursor now i c rows)"
  unfolding update_stream_cursor_def update_row_def snd_conv option.case by (induction rows) simp_all

lemma all_cursors:
  "list_all (\<lambda>r. sub_id r = i \<longrightarrow> sub_cursor_state r = Some c) rows \<Longrightarrow>
     x \<in> sub_cursor_state ` {r \<in> set rows. sub_id r = i} \<Longrightarrow> x = Some c"
  unfolding list_all_iff by (erule imageE) (simp only: mem_Collect_eq)

lemma old_cursors_update:
  "x \<in> old_cursors i (wd\<lparr>wd_subs := update_stream_cursor now i c (wd_subs wd)\<rparr>) \<Longrightarrow> x = Some c"
  by (rule all_cursors [OF updated_cursors [of i c now "wd_subs wd"]]) (simp add: old_cursors_def)

lemma loop_inv_stored:
  assumes "loop_inv kd sub c0 st0 got st wd" "\<forall>tx \<in> set got. in_bronze (sub_network sub) tx wd"
  shows "loop_inv kd sub c0 st0 got st
    (wd\<lparr>wd_subs := update_stream_cursor now (sub_id sub) (cursor_after kd st0 got) (wd_subs wd)\<rparr>)"
proof -
  let ?wd = "wd\<lparr>wd_subs := update_stream_cursor now (sub_id sub) (cursor_after kd st0 got) (wd_subs wd)\<rparr>"
  have b: "in_bronze network tx ?wd = in_bronze network tx wd" "raws_distinct ?wd = raws_distinct wd" for network tx
    by (simp_all add: in_bronze_def raws_distinct_def)
  have "covered kd sub c0 st0 got ?wd"
    unfolding covered_def
  proof
    fix c assume "c \<in> old_cursors (sub_id sub) ?wd"
    then have "c = Some (cursor_after kd st0 got)" by (rule old_cursors_update)
    then show "c \<in> c0 \<or> (\<exists>k \<le> length got. c = Some (cursor_after kd st0 (take k got))
        \<and> (\<forall>tx \<in> set (take k got). in_bronze (sub_network sub) tx ?wd))"
      using assms(2) b(1) by (intro disjI2 exI [of _ "length got"]) simp
  qed
  then show ?thesis using assms(1) b by (simp add: loop_inv_def)
qed

lemma store_cursor_inv:
  assumes "env_streams c0 (sub_id sub) en" "loop_inv kd sub c0 st0 got st (sn_world s)"
    and "\<forall>tx \<in> set got. in_bronze (sub_network sub) tx (sn_world s)"
  shows "wp (best_effort (store_cursor en (sub_id sub) (cursor_after kd st0 got)))
    (\<lambda>_ t. loop_inv kd sub c0 st0 got st (sn_world t) \<and> (\<forall>tx \<in> set got. in_bronze (sub_network sub) tx (sn_world t))) s"
  unfolding wp_best_effort store_cursor_def
proof (rule wp_queryI)
  fix k
  let ?wd = "en_others en k (sn_world s)"
  have kept: "stream_kept c0 (sub_id sub) (sn_world s) ?wd" using assms(1) by (simp add: env_streams_def)
  have inv: "loop_inv kd sub c0 st0 got st ?wd" by (rule loop_inv_kept [OF kept assms(2)])
  have all: "\<forall>tx \<in> set got. in_bronze (sub_network sub) tx ?wd"
    using stream_kept_stored [OF kept] assms(2,3) unfolding loop_inv_def by blast
  show "loop_inv kd sub c0 st0 got st (sn_world (s\<lparr>sn_clock := Suc (sn_clock s), sn_world := ?wd\<rparr>))
      \<and> (\<forall>tx \<in> set got. in_bronze (sub_network sub) tx (sn_world (s\<lparr>sn_clock := Suc (sn_clock s), sn_world := ?wd\<rparr>)))"
    using inv all by simp
  show "case on_subs (\<lambda>k subs. ((), update_stream_cursor (en_now en k) (sub_id sub) (cursor_after kd st0 got) subs)) k ?wd of
      (r, w) \<Rightarrow> loop_inv kd sub c0 st0 got st (sn_world (s\<lparr>sn_clock := Suc (sn_clock s), sn_world := w\<rparr>))
        \<and> (\<forall>tx \<in> set got. in_bronze (sub_network sub) tx (sn_world (s\<lparr>sn_clock := Suc (sn_clock s), sn_world := w\<rparr>)))"
    using loop_inv_stored [OF inv all, of "en_now en k"] all by (simp add: on_subs_def in_bronze_def)
qed

abbreviation flushed ::
    "stream_kind \<Rightarrow> stream_subscription \<Rightarrow> json option set \<Rightarrow> stream_local \<Rightarrow> transaction list \<Rightarrow> stream_local \<Rightarrow> bool \<Rightarrow> 'd world session \<Rightarrow> bool" where
  "flushed kd sub c0 st0 got st ok t \<equiv> loop_inv kd sub c0 st0 got st (sn_world t)
     \<and> (ok \<longrightarrow> (\<forall>tx \<in> set got. in_bronze (sub_network sub) tx (sn_world t)))"

lemma flush_inv:
  assumes en: "env_streams c0 (sub_id sub) en" and inv: "loop_inv kd sub c0 st0 got st (sn_world s)"
  shows "wp (flush_stream_batch en sx (sl_batch st) (sub_network sub) source target cursor) (flushed kd sub c0 st0 got st) s"
proof -
  let ?m = "flush_stream_batch en sx (sl_batch st) (sub_network sub) source target cursor"
  have d: "raws_distinct (sn_world s)" using inv by (simp add: loop_inv_def)
  have "wp ?m (\<lambda>ok t. loop_inv kd sub c0 st0 got st (sn_world t)
      \<and> (ok \<longrightarrow> (\<forall>tx \<in> set (sl_batch st). in_bronze (sub_network sub) tx (sn_world t)))) s"
    unfolding wp_conj using loop_inv_then [OF flush_kept [OF en] inv] flush_stores [OF en d] by blast
  then show ?thesis by (rule wp_mono) (auto simp: loop_inv_def)
qed

lemma cursor_of_inv: "loop_inv kd sub c0 st0 got st wd \<Longrightarrow> sk_cursor kd (sl_count st) (sl_slot st) = cursor_after kd st0 got"
  by (simp add: loop_inv_def cursor_after_def Let_def)

lemma flush_and_store_inv:
  assumes en: "env_streams c0 (sub_id sub) en" and inv: "loop_inv kd sub c0 st0 got st (sn_world s)"
  shows "wp (flush_and_store en sx kd sub st) (flushed kd sub c0 st0 got st) s"
proof -
  let ?c = "cursor_after kd st0 got"
  have store: "wp (if ok then best_effort (store_cursor en (sub_id sub) ?c) else skip)
      (\<lambda>_. flushed kd sub c0 st0 got st ok) t"
    if "flushed kd sub c0 st0 got st ok t" for ok t
  proof (cases ok)
    case True
    with that have "loop_inv kd sub c0 st0 got st (sn_world t)" "\<forall>tx \<in> set got. in_bronze (sub_network sub) tx (sn_world t)" by simp_all
    from store_cursor_inv [OF en this] True show ?thesis by (auto elim: wp_mono)
  next
    case False
    with that show ?thesis by (simp add: wp_simps)
  qed
  have "wp (flush_stream_batch en sx (sl_batch st) (sub_network sub) (sk_source kd) (sub_target_id sub) (Some ?c))
      (\<lambda>ok. wp (if ok then best_effort (store_cursor en (sub_id sub) ?c) else skip) (\<lambda>_. flushed kd sub c0 st0 got st ok)) s"
    by (rule wp_mono [OF flush_inv [OF en inv] store])
  then show ?thesis
    unfolding flush_and_store_def Let_def cursor_of_inv [OF inv] by (simp only: wp_bind wp_return)
qed

lemma last_flush_inv:
  assumes "env_streams c0 (sub_id sub) en" "loop_inv kd sub c0 st0 got st (sn_world s)"
  shows "wp (last_flush en sx kd sub st) (\<lambda>_ t. loop_inv kd sub c0 st0 got st (sn_world t)) s"
  using flush_and_store_inv [OF assms, of sx] assms(2)
  by (auto simp: last_flush_def wp_simps elim: wp_mono)

lemma row_update_cursors:
  fixes wd :: "'d world"
  assumes "\<And>r r'. f r = Some r' \<Longrightarrow> sub_id r' = sub_id r \<and> sub_cursor_state r' = sub_cursor_state r"
  shows "stream_kept F i wd (wd\<lparr>wd_subs := snd (update_row sub_id j f (wd_subs wd))\<rparr>)"
proof -
  have "sub_cursor_state ` {r \<in> set (snd (update_row sub_id j f rows)). sub_id r = i}
      \<subseteq> sub_cursor_state ` {r \<in> set rows. sub_id r = i}" for rows
    unfolding update_row_def snd_conv by (induction rows) (auto dest!: assms split: option.splits)
  then show ?thesis by (auto simp: stream_kept_def bronze_kept_def bronze_grows_refl old_cursors_def)
qed

lemma heartbeat_cursors: "stream_kept F i wd (snd (on_subs (\<lambda>k. heartbeat_stream (en_now en k) j w) k wd))"
  unfolding on_subs_def split_beta snd_conv heartbeat_stream_def
  by (rule row_update_cursors) (auto simp: heartbeat_stream_row_def split: if_splits)

text \<open>What a task has received: the items of the branches it has taken.\<close>

fun received :: "'x stream_event list \<Rightarrow> 'x list" where
  "received [] = []"
| "received (Item x due # es) = x # received es"
| "received (_ # es) = received es"

definition loop_post ::
    "stream_kind \<Rightarrow> stream_subscription \<Rightarrow> json option set \<Rightarrow> stream_local \<Rightarrow> ('x \<Rightarrow> transaction \<Rightarrow> bool) \<Rightarrow>
     'x list \<Rightarrow> transaction list \<Rightarrow> stream_end \<Rightarrow> 'd world session \<Rightarrow> bool" where
  "loop_post kd sub c0 st0 P xs got e t \<longleftrightarrow>
     (\<exists>new. list_all2 P (take (length new) xs) new \<and> raws_distinct (sn_world t) \<and> covered kd sub c0 st0 (got @ new) (sn_world t)
        \<and> (case e of
             Streaming st \<Rightarrow> length new = length xs \<and> loop_inv kd sub c0 st0 (got @ new) st (sn_world t)
           | Ended _ \<Rightarrow> True))"

lemma loop_post_ended: "loop_inv kd sub c0 st0 got st (sn_world t) \<Longrightarrow> loop_post kd sub c0 st0 P xs got (Ended r) t"
  unfolding loop_post_def by (rule exI [of _ "[]"]) (simp add: loop_inv_def)

lemma loop_post_streaming:
  "loop_inv kd sub c0 st0 got st (sn_world t) \<Longrightarrow> loop_post kd sub c0 st0 P [] got (Streaming st) t"
  unfolding loop_post_def by (rule exI [of _ "[]"]) (simp add: loop_inv_def)

lemma loop_post_item:
  assumes "P x tx" "loop_post kd sub c0 st0 P xs (got @ [tx]) e t"
  shows "loop_post kd sub c0 st0 P (x # xs) got e t"
proof -
  obtain new where "list_all2 P (take (length new) xs) new" "raws_distinct (sn_world t)"
    "covered kd sub c0 st0 ((got @ [tx]) @ new) (sn_world t)"
    "case e of Streaming st \<Rightarrow> length new = length xs \<and> loop_inv kd sub c0 st0 ((got @ [tx]) @ new) st (sn_world t) | Ended _ \<Rightarrow> True"
    using assms(2) unfolding loop_post_def by blast
  with assms(1) show ?thesis
    unfolding loop_post_def by (intro exI [of _ "tx # new"]) (simp split: stream_end.splits)
qed

lemma stream_loop_inv:
  fixes s :: "'d world session"
  assumes en: "env_streams c0 (sub_id sub) en"
    and acc: "\<And>x (s :: 'd world session). wp (accept x) (\<lambda>tx t. P x tx \<and> sn_world t = sn_world s) s"
  shows "loop_inv kd sub c0 st0 got st (sn_world s) \<Longrightarrow>
    wp (stream_loop en sx kd accept sub w es st) (loop_post kd sub c0 st0 P (received es) got) s"
proof (induction es arbitrary: st got s)
  case Nil
  then show ?case by (simp add: wp_simps loop_post_streaming)
next
  case (Cons ev es)
  have ended: "wp (do { last_flush en sx kd sub st; State_Monad.return (Ended r) }) (loop_post kd sub c0 st0 P xs got) s" for r xs
    unfolding wp_bind wp_return using last_flush_inv [OF en Cons.prems] by (rule wp_mono) (rule loop_post_ended)
  show ?case
  proof (cases ev)
    case Beat
    let ?rest = "\<lambda>held. if held = Inr False then State_Monad.return (Ended (Inr ())) else stream_loop en sx kd accept sub w es st"
    have "wp (?rest held) (loop_post kd sub c0 st0 P (received es) got) t" if "loop_inv kd sub c0 st0 got st (sn_world t)"
      for held :: "fault + bool" and t
      using Cons.IH [OF that] loop_post_ended [OF that, of P "received es" "Inr ()"] by (simp add: wp_return)
    moreover have "complies (stream_kept c0 (sub_id sub)) (query en (on_subs (\<lambda>k. heartbeat_stream (en_now en k) (sub_id sub) w)))"
      by (rule streams_query [OF en heartbeat_cursors])
    ultimately have "wp (query en (on_subs (\<lambda>k. heartbeat_stream (en_now en k) (sub_id sub) w)))
        (\<lambda>held. wp (?rest held) (loop_post kd sub c0 st0 P (received es) got)) s"
      by (intro wp_mono [OF loop_inv_then [OF _ Cons.prems]])
    then show ?thesis unfolding Beat stream_loop.simps received.simps wp_bind .
  next
    case (Item x due)
    let ?post = "loop_post kd sub c0 st0 P (x # received es) got"
    have item: "wp (if STREAM_BATCH_SIZE \<le> length (sl_batch (take_item kd tx st)) \<or> due
        then do { ok \<leftarrow> flush_and_store en sx kd sub (take_item kd tx st);
                  stream_loop en sx kd accept sub w es
                    (if ok then (take_item kd tx st)\<lparr>sl_batch := []\<rparr> else take_item kd tx st) }
        else stream_loop en sx kd accept sub w es (take_item kd tx st)) ?post t"
      if P: "P x tx" and t: "sn_world t = sn_world s" for tx t
    proof -
      have inv: "loop_inv kd sub c0 st0 (got @ [tx]) (take_item kd tx st) (sn_world t)"
        using loop_inv_take [OF Cons.prems] t by simp
      have rest: "wp (stream_loop en sx kd accept sub w es st') ?post u"
        if "loop_inv kd sub c0 st0 (got @ [tx]) st' (sn_world u)" for st' u
        using Cons.IH [OF that] by (rule wp_mono) (rule loop_post_item [where P = P, OF P])
      have "wp (stream_loop en sx kd accept sub w es
          (if ok then (take_item kd tx st)\<lparr>sl_batch := []\<rparr> else take_item kd tx st)) ?post u"
        if "flushed kd sub c0 st0 (got @ [tx]) (take_item kd tx st) ok u" for ok u
      proof (rule rest)
        have "loop_inv kd sub c0 st0 (got @ [tx]) (take_item kd tx st) (sn_world u)" using that by simp
        then show "loop_inv kd sub c0 st0 (got @ [tx])
            (if ok then (take_item kd tx st)\<lparr>sl_batch := []\<rparr> else take_item kd tx st) (sn_world u)"
          using that by (cases ok) (simp_all add: loop_inv_flushed)
      qed
      with flush_and_store_inv [OF en inv] have
        "wp (flush_and_store en sx kd sub (take_item kd tx st)) (\<lambda>ok. wp (stream_loop en sx kd accept sub w es
          (if ok then (take_item kd tx st)\<lparr>sl_batch := []\<rparr> else take_item kd tx st)) ?post) t"
        by (rule wp_mono)
      with rest [OF inv] show ?thesis by (simp add: wp_bind)
    qed
    have "wp (accept x) (\<lambda>tx. wp (let st' = take_item kd tx st in if STREAM_BATCH_SIZE \<le> length (sl_batch st') \<or> due
        then do { ok \<leftarrow> flush_and_store en sx kd sub st';
                  stream_loop en sx kd accept sub w es (if ok then st'\<lparr>sl_batch := []\<rparr> else st') }
        else stream_loop en sx kd accept sub w es st') ?post) s"
      unfolding Let_def by (rule wp_mono [OF acc [of x s]], elim conjE) (rule item)
    then show ?thesis unfolding Item stream_loop.simps received.simps wp_bind .
  qed (use ended in simp_all)
qed

section \<open>Properties\<close>

lemma fold_take_item_count: "sl_count (fold (take_item kd) got st) = sl_count st + of_nat (length got)"
  by (induction got arbitrary: st) (simp_all add: take_item_def algebra_simps)

lemma loop_inv_init:
  "raws_distinct wd \<Longrightarrow> old_cursors (sub_id sub) wd \<subseteq> c0 \<Longrightarrow> loop_inv kd sub c0 st0 [] st0 wd"
  by (auto simp: loop_inv_def covered_def)

lemma accept_return: "wp (State_Monad.return x) (\<lambda>tx t. x = tx \<and> sn_world t = sn_world s) s"
  by (simp add: wp_simps)

definition from_payload :: "stream_subscription \<Rightarrow> json \<Rightarrow> transaction \<Rightarrow> bool" where
  "from_payload sub payload tx \<longleftrightarrow> tx_raw_metadata tx = payload \<and> Some (tx_wallet_address tx) = stream_wallet sub"

lemma accept_payload:
  "stream_wallet sub = Some wallet \<Longrightarrow>
     wp (ws_transaction en sx wallet x) (\<lambda>tx t. from_payload sub x tx \<and> sn_world t = sn_world s) s"
  by (simp add: ws_transaction_def fresh_uuid_def wp_bind wp_return wp_def from_payload_def)

definition stream_start :: "stream_subscription \<Rightarrow> 64 word \<Rightarrow> stream_local" where
  "stream_start sub slot = \<lparr>sl_batch = [], sl_count = cursor_tx_count sub, sl_slot = slot\<rparr>"

lemma grpc_run_post:
  assumes "env_streams c0 (sub_id sub) en" "raws_distinct (sn_world s)" "old_cursors (sub_id sub) (sn_world s) \<subseteq> c0"
  shows "wp (run_solana_grpc_stream en sx (\<lambda>_. es) sub w)
    (loop_post grpc_kind sub c0 (stream_start sub (cursor_last_slot sub)) (=) (received es) []) s"
proof (cases "grpc_endpoint sx sub")
  case (Inl e)
  then show ?thesis
    using loop_post_ended [OF loop_inv_init [OF assms(2,3)]] by (simp add: run_solana_grpc_stream_def wp_return)
next
  case (Inr target)
  then show ?thesis
    using stream_loop_inv [OF assms(1) accept_return loop_inv_init [OF assms(2,3)],
      where kd = grpc_kind and st = "stream_start sub (cursor_last_slot sub)" and sx = sx and w = w and es = "es"]
    by (simp add: run_solana_grpc_stream_def stream_start_def)
qed

lemma ws_run_post:
  assumes "env_streams c0 (sub_id sub) en" "raws_distinct (sn_world s)" "old_cursors (sub_id sub) (sn_world s) \<subseteq> c0"
  shows "wp (run_hyperliquid_ws_stream en sx (\<lambda>_ _. ms) sub w)
    (loop_post ws_kind sub c0 (stream_start sub 0) (from_payload sub) (received ms) []) s"
proof (cases "stream_wallet sub")
  case None
  then show ?thesis
    using loop_post_ended [OF loop_inv_init [OF assms(2,3)]] by (simp add: run_hyperliquid_ws_stream_def wp_return)
next
  case (Some wallet)
  then show ?thesis
    using stream_loop_inv [OF assms(1) accept_payload [OF Some] loop_inv_init [OF assms(2,3)],
      where kd = ws_kind and st = "stream_start sub 0" and sx = sx and w = w and es = "ms"]
    by (simp add: run_hyperliquid_ws_stream_def stream_start_def)
qed

lemma env_streams_mono: "env_streams F i en \<Longrightarrow> F \<subseteq> G \<Longrightarrow> env_streams G i en"
  unfolding env_streams_def stream_kept_def by blast

text \<open>
  C11. No transaction of a running stream is lost. Whatever other sessions do without removing Bronze
  rows, and whichever statements fail, a transaction that a running gRPC task has received is stored
  in Bronze or still in the pending batch.
\<close>

theorem stream_keeps_transactions:
  assumes "env_streams UNIV (sub_id sub) en" and "raws_distinct (sn_world s)"
  shows "case run_state (run_solana_grpc_stream en sx (\<lambda>_. es) sub w) s of (e, t) \<Rightarrow>
    (case e of
       Streaming st \<Rightarrow> \<forall>tx \<in> set (received es). tx \<in> set (sl_batch st) \<or> in_bronze (sub_network sub) tx (sn_world t)
     | Ended _ \<Rightarrow> True)"
proof -
  have "wp (run_solana_grpc_stream en sx (\<lambda>_. es) sub w) (\<lambda>e t. case e of
       Streaming st \<Rightarrow> \<forall>tx \<in> set (received es). tx \<in> set (sl_batch st) \<or> in_bronze (sub_network sub) tx (sn_world t)
     | Ended _ \<Rightarrow> True) s"
    using grpc_run_post [OF assms subset_UNIV]
    by (rule wp_mono) (auto simp: loop_post_def loop_inv_def list.rel_eq split: stream_end.splits)
  then show ?thesis by (simp add: wp_def)
qed

lemma cursor_after_count:
  assumes "kd = grpc_kind \<or> kd = ws_kind"
  shows "json_get (cursor_after kd (stream_start sub slot) got) ''tx_count'' =
     Some (JInt (uint (cursor_tx_count sub + of_nat (length got))))"
proof -
  have "sl_count (fold (take_item kd) got (stream_start sub slot)) = cursor_tx_count sub + of_nat (length got)"
    by (simp add: fold_take_item_count stream_start_def)
  then show ?thesis using assms by (auto simp: cursor_after_def Let_def grpc_kind_def ws_kind_def)
qed

text \<open>
  The cursor counts a prefix of what was received, and the transactions made of it are in Bronze; \<open>P\<close> relates
  what was received to its transaction.
\<close>

definition counts_stored ::
    "stream_subscription \<Rightarrow> ('x \<Rightarrow> transaction \<Rightarrow> bool) \<Rightarrow> 'x list \<Rightarrow> json option \<Rightarrow> 'd world \<Rightarrow> bool" where
  "counts_stored sub P xs c wd \<longleftrightarrow> (\<exists>k txs. k \<le> length xs
     \<and> Option.bind c (\<lambda>v. json_get v ''tx_count'') = Some (JInt (uint (cursor_tx_count sub + of_nat k)))
     \<and> list_all2 P (take k xs) txs \<and> (\<forall>tx \<in> set txs. in_bronze (sub_network sub) tx wd))"

lemma loop_post_counts:
  assumes "loop_post kd sub c0 (stream_start sub slot) P xs [] e t" "kd = grpc_kind \<or> kd = ws_kind"
    and "c \<in> old_cursors (sub_id sub) (sn_world t)"
  shows "c \<in> c0 \<or> counts_stored sub P xs c (sn_world t)"
proof -
  obtain new where new: "list_all2 P (take (length new) xs) new" and cov: "covered kd sub c0 (stream_start sub slot) new (sn_world t)"
    using assms(1) unfolding loop_post_def append_Nil by (elim exE conjE)
  consider "c \<in> c0" | k where "k \<le> length new" "c = Some (cursor_after kd (stream_start sub slot) (take k new))"
      "\<forall>tx \<in> set (take k new). in_bronze (sub_network sub) tx (sn_world t)"
    using cov assms(3) unfolding covered_def by blast
  then show ?thesis
  proof cases
    case (2 k)
    have len: "length new \<le> length xs" using list_all2_lengthD [OF new] by simp
    have "list_all2 P (take k (take (length new) xs)) (take k new)" by (rule list_all2_takeI [OF new])
    moreover have "take k (take (length new) xs) = take k xs" using 2(1) by (simp add: min_absorb1)
    ultimately have made: "list_all2 P (take k xs) (take k new)" by (simp only:)
    have "length (take k new) = k" using 2(1) by simp
    then have "Option.bind c (\<lambda>v. json_get v ''tx_count'') = Some (JInt (uint (cursor_tx_count sub + of_nat k)))"
      using cursor_after_count [OF assms(2), of sub slot "take k new"] by (simp add: 2(2))
    with made 2(1,3) len show ?thesis
      unfolding counts_stored_def by (intro disjI2 exI [of _ k] exI [of _ "take k new"] conjI) simp_all
  qed simp
qed

text \<open>What the task of a subscription may leave as its cursor.\<close>

definition cursor_sound ::
    "stream_subscription \<Rightarrow> transaction list \<Rightarrow> json list \<Rightarrow> json option \<Rightarrow> 'd world \<Rightarrow> bool" where
  "cursor_sound sub txs payloads c wd \<longleftrightarrow> (case sub_source sub of
     SS_Grpc \<Rightarrow> counts_stored sub (=) txs c wd
   | SS_Ws \<Rightarrow> counts_stored sub (from_payload sub) payloads c wd
   | SS_Rpc \<Rightarrow> False)"

lemma counts_stored_kept:
  "stream_kept c0 (sub_id sub) wd wd' \<Longrightarrow> raws_distinct wd \<Longrightarrow> counts_stored sub P xs c wd \<Longrightarrow> counts_stored sub P xs c wd'"
  unfolding counts_stored_def using stream_kept_stored by blast

lemma cursor_sound_kept:
  "stream_kept c0 (sub_id sub) wd wd' \<Longrightarrow> raws_distinct wd \<Longrightarrow> cursor_sound sub txs payloads c wd \<Longrightarrow>
     cursor_sound sub txs payloads c wd'"
  unfolding cursor_sound_def by (auto split: stream_source.splits intro: counts_stored_kept)

abbreviation cursors_sound ::
    "json option set \<Rightarrow> stream_subscription \<Rightarrow> transaction list \<Rightarrow> json list \<Rightarrow> 'd world \<Rightarrow> bool" where
  "cursors_sound c0 sub txs payloads wd \<equiv> raws_distinct wd
     \<and> (\<forall>c \<in> old_cursors (sub_id sub) wd. c \<in> c0 \<or> cursor_sound sub txs payloads c wd)"

lemma cursors_sound_kept:
  assumes "stream_kept c0 (sub_id sub) wd wd'" "cursors_sound c0 sub txs payloads wd"
  shows "cursors_sound c0 sub txs payloads wd'"
proof -
  have "old_cursors (sub_id sub) wd' \<subseteq> old_cursors (sub_id sub) wd \<union> c0" using assms(1) by (simp add: stream_kept_def)
  then show ?thesis
    using assms(2) cursor_sound_kept [OF assms(1)] stream_kept_distinct [OF assms(1)] by blast
qed

text \<open>The end of a task gives the lease back or fails the subscription, and leaves the cursor.\<close>

lemma settled_cursors:
  "stream_kept F i wd (snd (on_subs (\<lambda>k. fail_stream_subscription (en_now en k) j w e) k wd))"
  "stream_kept F i wd (snd (on_subs (\<lambda>k. release_stream_lease (en_now en k) j w) k wd))"
  unfolding on_subs_def split_beta snd_conv fail_stream_subscription_def release_stream_lease_def
  by (rule row_update_cursors, auto simp: fail_stream_row_def release_stream_row_def split: if_splits)+

lemma source_cursors:
  assumes "env_streams c0 (sub_id sub) en" "raws_distinct (sn_world s)" "old_cursors (sub_id sub) (sn_world s) \<subseteq> c0"
  shows "wp (case sub_source sub of
            SS_Grpc \<Rightarrow> run_solana_grpc_stream en sx (\<lambda>_. es) sub w
          | SS_Ws \<Rightarrow> run_hyperliquid_ws_stream en sx (\<lambda>_ _. ms) sub w
          | SS_Rpc \<Rightarrow> State_Monad.return (Ended (Inl e0)))
    (\<lambda>_ t. cursors_sound c0 sub (received es) (received ms) (sn_world t)) s"
proof -
  have post: "cursors_sound c0 sub (received es) (received ms) (sn_world t)"
    if "loop_post kd sub c0 (stream_start sub slot) P xs [] e t" "kd = grpc_kind \<or> kd = ws_kind"
      "\<And>c. counts_stored sub P xs c (sn_world t) \<Longrightarrow> cursor_sound sub (received es) (received ms) c (sn_world t)"
    for kd slot P and xs :: "'x list" and e t
    using loop_post_counts [OF that(1,2)] that(1,3) unfolding loop_post_def by blast
  show ?thesis
  proof (cases "sub_source sub")
    case SS_Grpc
    show ?thesis
      unfolding SS_Grpc stream_source.case
      by (rule wp_mono [OF grpc_run_post [OF assms]], erule post) (simp_all add: cursor_sound_def SS_Grpc)
  next
    case SS_Ws
    show ?thesis
      unfolding SS_Ws stream_source.case
      by (rule wp_mono [OF ws_run_post [OF assms]], erule post) (simp_all add: cursor_sound_def SS_Ws)
  next
    case SS_Rpc
    then show ?thesis using assms(2,3) by (auto simp: wp_return)
  qed
qed


subsection \<open>The orchestrator\<close>

text \<open>
  The tasks a poll has started, \<open>new\<close>, for the \<open>tried\<close> first subscriptions of the list: new ones only, each once,
  with one permit each. The permits that tasks gave back meanwhile are added, all others are still there; a
  poll that stops before the end of the list has no permit left.
\<close>

definition claims :: "(uuid \<Rightarrow> nat) \<Rightarrow> stream_subscription list \<Rightarrow> orchestrator \<Rightarrow> orchestrator \<Rightarrow> bool" where
  "claims ended subs oc oc' \<longleftrightarrow> (\<exists>new tried rest. subs = tried @ rest \<and> or_spawned oc' = or_spawned oc @ new
     \<and> or_active oc' = or_active oc @ map sub_id new \<and> set new \<subseteq> set tried
     \<and> distinct (map sub_id new) \<and> (\<forall>q \<in> set new. sub_id q \<notin> set (or_active oc))
     \<and> or_permits oc' + length new = or_permits oc + sum_list (map (\<lambda>q. ended (sub_id q)) tried)
     \<and> (rest = [] \<or> or_permits oc' = 0))"

lemma claims_stop: "subs = [] \<or> or_permits oc = 0 \<Longrightarrow> claims ended subs oc oc"
  unfolding claims_def by (intro exI [of _ "[]"] exI [of _ subs]) auto

lemma claims_skip:
  assumes "claims ended subs (oc\<lparr>or_permits := or_permits oc + ended (sub_id sub)\<rparr>) oc'"
  shows "claims ended (sub # subs) oc oc'"
proof -
  obtain new tried rest where "subs = tried @ rest" "or_spawned oc' = or_spawned oc @ new"
    "or_active oc' = or_active oc @ map sub_id new" "set new \<subseteq> set tried" "distinct (map sub_id new)"
    "\<forall>q \<in> set new. sub_id q \<notin> set (or_active oc)" "rest = [] \<or> or_permits oc' = 0"
    "or_permits oc' + length new = or_permits oc + ended (sub_id sub) + sum_list (map (\<lambda>q. ended (sub_id q)) tried)"
    using assms unfolding claims_def by auto
  then show ?thesis
    unfolding claims_def by (intro exI [of _ new] exI [of _ "sub # tried"] exI [of _ rest]) auto
qed

lemma claims_take:
  assumes "claims ended subs (oc\<lparr>or_active := or_active oc @ [sub_id sub], or_permits := or_permits oc + ended (sub_id sub) - 1,
                or_spawned := or_spawned oc @ [sub]\<rparr>) oc'"
    and "sub_id sub \<notin> set (or_active oc)" "0 < or_permits oc + ended (sub_id sub)"
  shows "claims ended (sub # subs) oc oc'"
proof -
  obtain new tried rest where "subs = tried @ rest" "or_spawned oc' = (or_spawned oc @ [sub]) @ new"
    "or_active oc' = (or_active oc @ [sub_id sub]) @ map sub_id new" "set new \<subseteq> set tried"
    "distinct (map sub_id new)" "\<forall>q \<in> set new. sub_id q \<notin> set (or_active oc @ [sub_id sub])" "rest = [] \<or> or_permits oc' = 0"
    "or_permits oc' + length new = or_permits oc + ended (sub_id sub) - 1 + sum_list (map (\<lambda>q. ended (sub_id q)) tried)"
    using assms(1) unfolding claims_def by auto
  then show ?thesis
    unfolding claims_def using assms(2,3)
    by (intro exI [of _ "sub # new"] exI [of _ "sub # tried"] exI [of _ rest]) auto
qed

lemma claim_all_claims:
  fixes s :: "'d world session"
  shows "wp (claim_all en w ended subs oc) (\<lambda>oc' _. claims ended subs oc oc') s"
proof (induction subs arbitrary: oc s)
  case Nil
  then show ?case by (simp add: wp_simps claims_stop)
next
  case (Cons sub subs)
  let ?p = "or_permits oc + ended (sub_id sub)"
  let ?skip = "oc\<lparr>or_permits := ?p\<rparr>"
  let ?take = "oc\<lparr>or_active := or_active oc @ [sub_id sub], or_permits := ?p - 1, or_spawned := or_spawned oc @ [sub]\<rparr>"
  let ?Q = "\<lambda>oc' _. claims ended (sub # subs) oc oc'"
  have skipped: "wp (claim_all en w ended subs ?skip) ?Q t" for t
    using Cons.IH by (rule wp_mono) (rule claims_skip)
  show ?case
  proof (cases "sub_id sub \<in> set (or_active oc) \<or> ?p = 0")
    case True
    then show ?thesis using skipped by (auto simp: Let_def wp_return claims_stop)
  next
    case False
    then have "wp (claim_all en w ended subs ?take) ?Q t" for t
      using Cons.IH by (intro wp_mono [OF Cons.IH [of ?take]]) (simp add: claims_take)
    with skipped have rest: "wp (if claimed = Inr True then claim_all en w ended subs ?take else claim_all en w ended subs ?skip) ?Q t"
      for claimed :: "fault + bool" and t by simp
    have "wp (query en (on_subs (\<lambda>k. claim_stream_lease (en_now en k) (sub_id sub) w))) (\<lambda>claimed.
        wp (if claimed = Inr True then claim_all en w ended subs ?take else claim_all en w ended subs ?skip) ?Q) u" for u
      using rest by (simp only: wp_def split_beta)
    moreover have "\<not> sub_id sub \<in> set (or_active oc)" "\<not> ?p = 0" using False by simp_all
    ultimately show ?thesis unfolding claim_all.simps Let_def by (simp only: if_False wp_bind)
  qed
qed

text \<open>What an undisturbed reconciliation keeps running.\<close>

definition still_ours :: "worker \<Rightarrow> subs \<Rightarrow> uuid \<Rightarrow> bool" where
  "still_ours w subs i = (case get_stream_subscription i subs of
     Some sub \<Rightarrow> sub_desired_status sub = SD_Active \<and> sub_lease_owner sub = Some w
   | None \<Rightarrow> False)"

lemma find_map_other:
  "(\<And>x. f x \<noteq> x \<Longrightarrow> \<not> P x) \<Longrightarrow> (\<And>x. P (f x) = P x) \<Longrightarrow> find P (map f xs) = find P xs"
  by (induction xs) auto

lemma released_others:
  assumes "i \<noteq> j"
  shows "get_stream_subscription j (snd (release_stream_lease now i w subs)) = get_stream_subscription j subs"
  unfolding get_stream_subscription_def release_stream_lease_def update_row_def snd_conv
  by (rule find_map_other) (use assms in \<open>auto simp: release_stream_row_def split: if_splits option.splits\<close>)

lemma released_still_ours:
  "i \<noteq> j \<Longrightarrow> still_ours w (snd (release_stream_lease now i w subs)) j = still_ours w subs j"
  by (simp add: still_ours_def released_others)

definition reconciled :: "worker \<Rightarrow> subs \<Rightarrow> uuid list \<Rightarrow> orchestrator \<Rightarrow> orchestrator \<Rightarrow> bool" where
  "reconciled w subs ids oc oc' \<longleftrightarrow>
     or_active oc' = filter (\<lambda>j. j \<in> set ids \<longrightarrow> still_ours w subs j) (or_active oc)
     \<and> or_cancelled oc' = or_cancelled oc @ filter (\<lambda>j. \<not> still_ours w subs j) ids"

lemma reconciled_keep:
  "still_ours w subs i \<Longrightarrow> i \<notin> set ids \<Longrightarrow> reconciled w subs ids oc oc' \<Longrightarrow> reconciled w subs (i # ids) oc oc'"
  unfolding reconciled_def by (auto intro!: filter_cong)

lemma reconciled_drop:
  "\<not> still_ours w subs i \<Longrightarrow> i \<notin> set ids \<Longrightarrow> reconciled w subs ids (drop_stream i oc) oc' \<Longrightarrow> reconciled w subs (i # ids) oc oc'"
  unfolding reconciled_def drop_stream_def by (auto intro!: filter_cong)

lemma reconciled_cong:
  "(\<And>j. j \<in> set ids \<Longrightarrow> still_ours w subs' j = still_ours w subs j) \<Longrightarrow> reconciled w subs' ids oc oc' \<longleftrightarrow> reconciled w subs ids oc oc'"
  unfolding reconciled_def by (simp cong: filter_cong)

lemma release_wp:
  assumes "undisturbed en"
  shows "wp (release_best_effort en w i) Q s \<longleftrightarrow> Q () (s\<lparr>sn_clock := Suc (sn_clock s), sn_world := (sn_world s)\<lparr>wd_subs :=
      snd (release_stream_lease (en_now en (sn_clock s)) i w (wd_subs (sn_world s)))\<rparr>\<rparr>)"
  by (simp add: release_best_effort_def wp_simps wp_query_quiet [OF assms] on_subs_def split_beta)

lemma reconcile_ids_spec:
  assumes q: "undisturbed en"
  shows "distinct ids \<Longrightarrow>
    wp (reconcile_ids en w ids oc) (\<lambda>oc' t. reconciled w (wd_subs (sn_world s)) ids oc oc') s"
proof (induction ids arbitrary: oc s)
  case Nil
  then show ?case by (simp add: wp_simps reconciled_def)
next
  case (Cons i ids)
  let ?subs = "wd_subs (sn_world s)"
  let ?Q = "\<lambda>oc' t. reconciled w ?subs (i # ids) oc oc'"
  have i: "i \<notin> set ids" and d: "distinct ids" using Cons.prems by simp_all
  have rest: "wp (reconcile_ids en w ids oc2) (\<lambda>oc' t. reconciled w ?subs ids oc2 oc') u"
    if "\<And>j. j \<in> set ids \<Longrightarrow> still_ours w (wd_subs (sn_world u)) j = still_ours w ?subs j" for oc2 u
    using Cons.IH [OF d, of oc2 u] reconciled_cong [of ids w "wd_subs (sn_world u)" ?subs, OF that] by simp
  have drop: "wp (reconcile_ids en w ids (drop_stream i oc)) ?Q u"
    if "\<not> still_ours w ?subs i" "\<And>j. j \<in> set ids \<Longrightarrow> still_ours w (wd_subs (sn_world u)) j = still_ours w ?subs j" for u
    by (rule wp_mono [OF rest [OF that(2)]], assumption) (rule reconciled_drop [OF that(1) i])
  have keep: "wp (reconcile_ids en w ids oc) ?Q u"
    if "still_ours w ?subs i" "\<And>j. j \<in> set ids \<Longrightarrow> still_ours w (wd_subs (sn_world u)) j = still_ours w ?subs j" for u
    by (rule wp_mono [OF rest [OF that(2)]], assumption) (rule reconciled_keep [OF that(1) i])
  have other: "j \<in> set ids \<Longrightarrow> still_ours w (snd (release_stream_lease now i w ?subs)) j = still_ours w ?subs j" for j now
    using i by (intro released_still_ours) blast
  show ?case
  proof (cases "get_stream_subscription i ?subs")
    case None
    then have "\<not> still_ours w ?subs i" by (simp add: still_ours_def)
    from drop [OF this] None show ?thesis by (simp add: wp_simps wp_query_quiet [OF q] reading_def)
  next
    case (Some sub)
    then have ours: "still_ours w ?subs i \<longleftrightarrow> sub_desired_status sub = SD_Active \<and> sub_lease_owner sub = Some w"
      by (simp add: still_ours_def)
    show ?thesis
      using Some drop keep ours other
      by (cases "sub_desired_status sub = SD_Active"; cases "sub_lease_owner sub = Some w")
         (simp_all add: wp_bind wp_query_quiet [OF q] reading_def release_wp [OF q])
  qed
qed

text \<open>
  C29. Polling never over-commits and loses no permit. Whatever the other workers and the database do, a poll
  goes through at most ten subscriptions, starts tasks only for some of them that it does not run yet, each once, and
  the permits afterwards are those before, less one for each started task, plus those that tasks gave back meanwhile:
  the permit of a claim that fails or finds another worker's lease is returned. \<open>ended i\<close> is any number of permits that tasks
  give back before the subscription \<open>i\<close> is tried.
\<close>

theorem poll_respects_permits:
  "case run_state (poll_and_claim en w ended oc) s of (oc', t) \<Rightarrow>
     \<exists>new tried. or_spawned oc' = or_spawned oc @ new \<and> or_active oc' = or_active oc @ map sub_id new
       \<and> distinct (map sub_id new) \<and> sub_id ` set new \<inter> set (or_active oc) = {}
       \<and> set new \<subseteq> set tried \<and> length new \<le> length tried \<and> length tried \<le> MAX_CLAIM_BATCH
       \<and> or_permits oc' + length new = or_permits oc + (\<Sum>q \<leftarrow> tried. ended (sub_id q))"
proof -
  let ?G = "\<lambda>oc'. \<exists>new tried. or_spawned oc' = or_spawned oc @ new \<and> or_active oc' = or_active oc @ map sub_id new
       \<and> distinct (map sub_id new) \<and> sub_id ` set new \<inter> set (or_active oc) = {}
       \<and> set new \<subseteq> set tried \<and> length new \<le> length tried \<and> length tried \<le> MAX_CLAIM_BATCH
       \<and> or_permits oc' + length new = or_permits oc + (\<Sum>q \<leftarrow> tried. ended (sub_id q))"
  have goal: "?G oc'" if c: "claims ended subs oc oc'" and n: "length subs \<le> MAX_CLAIM_BATCH" for subs oc'
  proof -
    obtain new tried rest where new: "subs = tried @ rest" "or_spawned oc' = or_spawned oc @ new"
      "or_active oc' = or_active oc @ map sub_id new" "set new \<subseteq> set tried" "distinct (map sub_id new)"
      "\<forall>q \<in> set new. sub_id q \<notin> set (or_active oc)"
      "or_permits oc' + length new = or_permits oc + (\<Sum>q \<leftarrow> tried. ended (sub_id q))"
      using c unfolding claims_def by (elim exE conjE)
    have "length new = card (set new)" using new(5) by (simp add: distinct_map distinct_card)
    also have "\<dots> \<le> length tried" using card_mono [OF _ new(4)] card_length [of tried] by simp
    finally show ?thesis using new n by (intro exI [of _ new] exI [of _ tried]) auto
  qed
  have "wp (poll_and_claim en w ended oc) (\<lambda>oc' _. ?G oc') s"
    unfolding poll_and_claim_def wp_bind
  proof (rule wp_queryI)
    show "wp (case Inl (Failed e) of Inl e \<Rightarrow> State_Monad.return oc | Inr subs \<Rightarrow> claim_all en w ended subs oc)
        (\<lambda>oc' _. ?G oc') u" for e u
      using goal [OF claims_stop, of "[]"] by (simp add: wp_return)
    show "case reading (\<lambda>wd. list_claimable_stream_subscriptions (en_now en k) MAX_CLAIM_BATCH (wd_subs wd)) k
          (en_others en k (sn_world s)) of (r, wd) \<Rightarrow>
        wp (case map_sum Failed id r of Inl e \<Rightarrow> State_Monad.return oc | Inr subs \<Rightarrow> claim_all en w ended subs oc)
          (\<lambda>oc' _. ?G oc') (s\<lparr>sn_clock := Suc (sn_clock s), sn_world := wd\<rparr>)" for k
      unfolding reading_def prod.case map_sum.simps sum.case id_apply
      by (rule wp_mono [OF claim_all_claims], rule goal, assumption)
         (simp add: list_claimable_stream_subscriptions_def)
  qed
  then show ?thesis by (simp only: wp_def)
qed

text \<open>
  C28. Reconciliation keeps exactly the streams that are wanted and ours: without interference it
  cancels the tasks whose subscription is gone, no longer active, or leased to another worker,
  and no others.
\<close>

theorem reconcile_exact:
  assumes "undisturbed en" and "distinct (or_active oc)"
  shows "case run_state (reconcile en w oc) s of (oc', t) \<Rightarrow>
    or_active oc' = filter (still_ours w (wd_subs (sn_world s))) (or_active oc)
    \<and> or_cancelled oc' = or_cancelled oc @ filter (\<lambda>i. \<not> still_ours w (wd_subs (sn_world s)) i) (or_active oc)"
proof -
  have "wp (reconcile en w oc) (\<lambda>oc' t. reconciled w (wd_subs (sn_world s)) (or_active oc) oc oc') s"
    unfolding reconcile_def by (rule reconcile_ids_spec [OF assms])
  moreover have "filter (\<lambda>j. j \<in> set (or_active oc) \<longrightarrow> P j) (or_active oc) = filter P (or_active oc)" for P
    by (rule filter_cong) simp_all
  ultimately show ?thesis by (simp add: wp_def reconciled_def split_beta)
qed

subsection \<open>Samples\<close>

definition sample_stream_ctx :: stream_ctx where
  "sample_stream_ctx = \<lparr>sx_config = default_app_config\<lparr>ac_solana_grpc_url := Some ''https://g''\<rparr>,
     sx_registry = \<lparr>pr_providers = [], pr_enabled_networks = []\<rparr>, sx_show_uuid = (\<lambda>_. []), sx_v5 = (\<lambda>_ _. 0)\<rparr>"

definition sample_stream_session :: "int world session" where
  "sample_stream_session = \<lparr>sn_world = \<lparr>wd_jobs = \<lparr>db_jobs = [], db_attempts = []\<rparr>, wd_targets = [],
     wd_bronze = empty_bronze, wd_legacy = \<lparr>v1_transactions = [], v1_entries = [], v1_checkpoints = []\<rparr>,
     wd_subs = sample_subs\<rparr>, sn_clock = 0, sn_sent = []\<rparr>"

definition sample_stream_tx :: "string \<Rightarrow> transaction" where
  "sample_stream_tx h = \<lparr>tx_id = of_nat (length h), tx_user_id = 0, tx_wallet_address = ''w'', tx_timestamp = 0, tx_hash = h,
     tx_chain = Chain_Solana, tx_raw_metadata = JObject [(''slot'', JInt 5)]\<rparr>"

definition sample_events :: "transaction stream_event list" where
  "sample_events = [Item (sample_stream_tx ''a'') True, Beat, Item (sample_stream_tx ''bb'') False]"

lemma sample_streams: "env_streams F i undisturbed_env"
  by (simp add: env_streams_def undisturbed_env_def stream_kept.refl)

lemma sample_stream_distinct: "raws_distinct (sn_world sample_stream_session)"
  by (simp add: sample_stream_session_def raws_distinct_def empty_bronze_def)

definition sample_grpc_run :: "stream_end \<times> int world session" where
  "sample_grpc_run = run_state (run_solana_grpc_stream undisturbed_env sample_stream_ctx (\<lambda>_. sample_events) (hd sample_subs) ''a'')
      sample_stream_session"

lemma sample_grpc_run:
  "fst sample_grpc_run = Streaming \<lparr>sl_batch = [sample_stream_tx ''bb''], sl_count = 2, sl_slot = 5\<rparr>"
  "map sub_cursor_state (wd_subs (sn_world (snd sample_grpc_run))) =
     [Some (JObject [(''tx_count'', JInt 1), (''last_slot'', JInt 5)])]"
  "map sub_id (wd_subs (sn_world (snd sample_grpc_run))) = [3]"
proof -
  show "fst sample_grpc_run = Streaming \<lparr>sl_batch = [sample_stream_tx ''bb''], sl_count = 2, sl_slot = 5\<rparr>" by code_simp
  show "map sub_cursor_state (wd_subs (sn_world (snd sample_grpc_run))) =
     [Some (JObject [(''tx_count'', JInt 1), (''last_slot'', JInt 5)])]" by code_simp
  show "map sub_id (wd_subs (sn_world (snd sample_grpc_run))) = [3]" by code_simp
qed

lemma sample_received: "received sample_events = [sample_stream_tx ''a'', sample_stream_tx ''bb'']"
  by (simp add: sample_events_def)

theorem stream_keeps_transactions_witness:
  "in_bronze ''solana-mainnet'' (sample_stream_tx ''a'') (sn_world (snd sample_grpc_run))"
proof -
  have "sample_stream_tx ''a'' \<noteq> sample_stream_tx ''bb''" by (simp add: sample_stream_tx_def)
  moreover have "sub_network (hd sample_subs) = ''solana-mainnet''" by (simp add: sample_subs_eq)
  ultimately show ?thesis
    using stream_keeps_transactions [OF sample_streams sample_stream_distinct, where sub = "hd sample_subs"
        and sx = sample_stream_ctx and es = sample_events and w = "''a''"]
      sample_grpc_run(1)
    by (simp add: sample_grpc_run_def [symmetric] split_beta sample_received)
qed

lemma single_cursor: "wd_subs wd = [r] \<Longrightarrow> old_cursors (sub_id r) wd = {sub_cursor_state r}"
  unfolding old_cursors_def by (simp only: list.set) blast

definition sample_task_run :: "stream_end \<times> int world session" where
  "sample_task_run = run_state (spawn_stream_task undisturbed_env sample_stream_ctx (\<lambda>_. sample_events) (\<lambda>_ _. []) (hd sample_subs) ''a'')
      sample_stream_session"

lemma sample_task_run: "sub_source (hd sample_subs) = SS_Grpc" "snd sample_task_run = snd sample_grpc_run"
proof -
  show g: "sub_source (hd sample_subs) = SS_Grpc" by (simp add: sample_subs_eq)
  show "snd sample_task_run = snd sample_grpc_run"
    using sample_grpc_run(1)
    by (simp add: sample_task_run_def sample_grpc_run_def spawn_stream_task_def g skip_def split_beta)
qed


text \<open>A poll with two permits finds one free subscription; another poll has none left.\<close>

definition sample_free_session :: "int world session" where
  "sample_free_session = sample_stream_session\<lparr>sn_world := (sn_world sample_stream_session)\<lparr>wd_subs :=
     map (\<lambda>r. r\<lparr>sub_lease_owner := None\<rparr>) sample_subs\<rparr>\<rparr>"

definition sample_poll :: "nat \<Rightarrow> orchestrator" where
  "sample_poll n = fst (run_state (poll_and_claim undisturbed_env ''a'' (\<lambda>_. 0)
     \<lparr>or_active = [], or_permits = n, or_spawned = [], or_cancelled = []\<rparr>) sample_free_session)"

lemma sample_polls: "or_active (sample_poll 2) = [3]" "or_active (sample_poll 0) = []"
  by code_simp+

theorem poll_respects_permits_witness: "or_permits (sample_poll 2) = 1 \<and> or_permits (sample_poll 0) = 0"
proof -
  have "or_permits (sample_poll n) + length (or_active (sample_poll n)) = n" for n
  proof -
    let ?oc = "\<lparr>or_active = [], or_permits = n, or_spawned = [], or_cancelled = []\<rparr>"
    obtain new :: "stream_subscription list" and tried :: "stream_subscription list"
      where "or_active (sample_poll n) = map sub_id new" "or_permits (sample_poll n) + length new = n"
      using poll_respects_permits [where en = undisturbed_env and w = "''a''" and ended = "\<lambda>_. 0" and oc = ?oc and s = sample_free_session]
      by (auto simp: sample_poll_def split_beta)
    then show ?thesis by simp
  qed
  from this [of 2] this [of 0] show ?thesis by (simp add: sample_polls)
qed

theorem reconcile_exact_witness:
  "case run_state (reconcile undisturbed_env ''a'' \<lparr>or_active = [3, 4], or_permits = 1, or_spawned = [], or_cancelled = []\<rparr>)
     sample_stream_session of (oc', t) \<Rightarrow> or_active oc' = [3] \<and> or_cancelled oc' = [4]"
proof -
  have "still_ours ''a'' (wd_subs (sn_world sample_stream_session)) 3" "\<not> still_ours ''a'' (wd_subs (sn_world sample_stream_session)) 4"
    by (simp_all add: still_ours_def sample_stream_session_def sample_subs_eq get_stream_subscription_def)
  then show ?thesis
    using reconcile_exact [OF quiet_sample, of "\<lparr>or_active = [3, 4], or_permits = 1, or_spawned = [], or_cancelled = []\<rparr>" "''a''"
      sample_stream_session] by (simp add: split_beta)
qed

end
