(* ===== verification/Ingestion_Worker.thy ===== *)
theory Ingestion_Worker
  imports Worker_Steps
begin

text \<open>
  The ingestion worker (\<open>api/src/worker.rs\<close>): claiming a job, running it through the connector of
  its chain family or the legacy adapter, and its terminal bookkeeping, as a program whose statements
  interleave with those of every other session. \<open>lost\<close> is the state of the lease token when the
  worker reads it: the heartbeat task sets it when its statement finds the attempt gone.

  The clients of the chains are arguments: \<open>ic_backfill\<close> is \<open>Connector::backfill\<close> of the adapter
  built from the network context, \<open>ic_history\<close> is \<open>ChainIngestor::fetch_history\<close>.
\<close>

section \<open>Surroundings\<close>

record ingest_ctx =
  ic_config :: app_config
  ic_registry :: provider_registry
  ic_show_uuid :: "uuid \<Rightarrow> string"
  ic_parse_uuid :: "string \<Rightarrow> uuid option"
  ic_fresh_user :: uuid
  ic_v5 :: "uuid \<Rightarrow> string \<Rightarrow> uuid"
  ic_backfill :: "network_context \<Rightarrow> index_target \<Rightarrow> json option \<Rightarrow> nat \<Rightarrow>
    (raw_transaction list \<times> checkpoint option) result"
  ic_history :: "network_context \<Rightarrow> string \<Rightarrow> nat \<Rightarrow> uuid \<Rightarrow> indexer_checkpoint option \<Rightarrow> transaction list result"
  ic_net :: net_env
  ic_dns :: "string \<Rightarrow> ip_addr list result"
  ic_sign :: "string \<Rightarrow> json \<Rightarrow> string"

section \<open>Pure parts\<close>

definition public_ingestion_error :: "string \<Rightarrow> string" where
  "public_ingestion_error message =
     (if starts_with message ''RPC chain ID mismatch:''
         \<or> starts_with message ''More new Solana activity than ingest_limit''
      then message
      else ''Could not ingest activity. Check the server logs and provider configuration, then retry.'')"

definition target_uses_connector_backfill :: "index_target \<Rightarrow> bool" where
  "target_uses_connector_backfill t =
     (case (it_chain_family t, it_kind t) of
        (CF_Solana, TK_Wallet) \<Rightarrow> True
      | (CF_Hyperliquid, TK_Wallet) \<Rightarrow> True
      | (CF_Hyperliquid, TK_Market) \<Rightarrow> True
      | (CF_Evm, TK_Wallet) \<Rightarrow> True
      | (CF_Evm, TK_Contract) \<Rightarrow> True
      | (CF_Evm, TK_TopicFilter) \<Rightarrow> True
      | _ \<Rightarrow> False)"

definition requested_by_user_id ::
    "ingest_ctx \<Rightarrow> string option \<Rightarrow> uuid option \<Rightarrow> uuid" where
  "requested_by_user_id ic requested_by owner =
     (let given = (case map_option trim requested_by of Some v \<Rightarrow> (if v = [] then None else Some v) | None \<Rightarrow> None)
      in case Option.bind given (ic_parse_uuid ic) of
           Some u \<Rightarrow> u
         | None \<Rightarrow> (case owner of
             Some o' \<Rightarrow> o'
           | None \<Rightarrow> (case given of
               Some v \<Rightarrow> ic_v5 ic NAMESPACE_URL (''spectraplex:ingestion:requested_by:'' @ v)
             | None \<Rightarrow> ic_fresh_user ic)))"

text \<open>\<open>cursor["incremental"] = ..\<close>: null becomes an object, any other value without keys panics.\<close>

fun set_incremental :: "bool \<Rightarrow> json \<Rightarrow> fault + json" where
  "set_incremental b (JObject m) = Inr (JObject (upsert ''incremental'' JNull (\<lambda>_. JBool b) m))"
| "set_incremental b JNull = Inr (JObject [(''incremental'', JBool b)])"
| "set_incremental b _ = Inl Panicked"

definition connector_source :: "chain_family \<Rightarrow> string" where
  "connector_source f = (case f of CF_Solana \<Rightarrow> ''rpc'' | CF_Evm \<Rightarrow> ''rpc'' | CF_Hyperliquid \<Rightarrow> ''rest'')"

definition record_time_ms :: "raw_transaction \<Rightarrow> int option" where
  "record_time_ms raw =
     (case Option.bind (Option.bind (json_get (raw_metadata raw) ''data'') (\<lambda>d. json_get d ''time'')) json_as_i64 of
        Some t \<Rightarrow> Some t
      | None \<Rightarrow> (let ms = raw_timestamp raw * 1000 in if i64_min \<le> ms \<and> ms \<le> i64_max then Some ms else None))"

definition derived_checkpoint ::
    "uuid \<Rightarrow> int \<Rightarrow> uuid \<Rightarrow> string \<Rightarrow> string \<Rightarrow> raw_transaction list \<Rightarrow> checkpoint option" where
  "derived_checkpoint i now target network source records =
     map_option (\<lambda>t. \<lparr>cp_id = i, cp_target_id = target, cp_network = network, cp_source = source,
         cp_cursor = JObject [(''last_time_ms'', JInt t)], cp_updated_at = now\<rparr>)
       (max_by_key id (List.map_filter record_time_ms records))"

definition stamp_run :: "uuid \<Rightarrow> raw_transaction \<Rightarrow> raw_transaction" where
  "stamp_run run r = r\<lparr>raw_ingestion_run_id := Some run\<rparr>"

definition no_provider :: "(uuid \<Rightarrow> string) \<Rightarrow> ingestion_job \<Rightarrow> string" where
  "no_provider us job = ''network '' @ quoted (ij_network job)
     @ '' is not configured in the provider registry; cannot execute ingestion job '' @ us (ij_id job)"

section \<open>Running a job\<close>

definition backfill_cursor :: "index_target \<Rightarrow> ingestion_job_mode \<Rightarrow> json option \<Rightarrow> fault + json option" where
  "backfill_cursor target mode stored_cursor =
     (case (it_chain_family target, it_kind target) of
        (CF_Solana, TK_Wallet) \<Rightarrow>
          map_sum id Some (set_incremental (mode = IJM_Incremental)
            (case stored_cursor of Some c \<Rightarrow> c | None \<Rightarrow> JObject []))
      | (CF_Evm, _) \<Rightarrow> Inr stored_cursor
      | (CF_Hyperliquid, TK_Wallet) \<Rightarrow> Inr stored_cursor
      | (CF_Hyperliquid, TK_Market) \<Rightarrow> Inr stored_cursor
      | _ \<Rightarrow> Inl (Failed (''connector backfill is not supported for target kind ''
             @ target_kind_debug (it_kind target) @ '' on '' @ chain_family_debug (it_chain_family target))))"

text \<open>The fenced commit; a connector without a checkpoint gets one from the times of its records.\<close>

definition commit_batch ::
    "'d world env \<Rightarrow> ingest_ctx \<Rightarrow> ingestion_job \<Rightarrow> index_target \<Rightarrow> uuid \<Rightarrow> worker \<Rightarrow> raw_transaction list \<Rightarrow>
     checkpoint option \<Rightarrow> nat \<Rightarrow> 'd world \<Rightarrow> unit result \<times> 'd world" where
  "commit_batch en ic job target run w deduped batch_cp k wd =
     (let cp = (case batch_cp of
                  Some c \<Rightarrow> Some c
                | None \<Rightarrow> derived_checkpoint (en_uuid en k) (en_now en k) (it_id target) (ij_network job)
                    (connector_source (it_chain_family target)) deduped)
      in case commit_connector_batch (ic_show_uuid ic) (en_mid en k) (en_uuid en k) (en_now en k)
             (wd_jobs wd) target run deduped cp (ij_id job, w) (wd_bronze wd) of
           (r, br) \<Rightarrow> (r, wd\<lparr>wd_bronze := br\<rparr>))"

definition run_connector_backfill ::
    "'d world env \<Rightarrow> ingest_ctx \<Rightarrow> ingestion_job \<Rightarrow> index_target \<Rightarrow> nat \<Rightarrow> uuid \<Rightarrow> worker \<Rightarrow> ('d world, nat) prog" where
  "run_connector_backfill en ic job target limit run w =
     attempt (ok_or (no_provider (ic_show_uuid ic) job) (context_from_registry (ic_registry ic) (ij_network job))) (\<lambda>cx.
     attempt (query en (reading (\<lambda>wd.
       get_checkpoint_v2 (it_id target) (ij_network job) (connector_source (it_chain_family target)) (wd_bronze wd)))) (\<lambda>cp.
     attempt (State_Monad.return (backfill_cursor target (ij_mode job) (map_option cp_cursor cp))) (\<lambda>cursor.
     attempt (of_result (ic_backfill ic cx target cursor limit)) (\<lambda>(records, batch_cp).
     let deduped = first_by_key raw_key [] (map (stamp_run run) records) in
     attempt (query en (commit_batch en ic job target run w deduped batch_cp)) (\<lambda>_.
     State_Monad.return (Inr (length records)))))))"

text \<open>The legacy flow: authoritative writes that fail the job, and the compatibility writes.\<close>

definition v1_compat_writes ::
    "'d world env \<Rightarrow> transaction list \<Rightarrow> indexer_checkpoint option \<Rightarrow> ('d world session, unit) state" where
  "v1_compat_writes en events cp =
     do { saved \<leftarrow> query en (\<lambda>k wd. case save_transactions events (v1_transactions (wd_legacy wd)) of
            (table, err) \<Rightarrow> (case err of None \<Rightarrow> Inr () | Some e \<Rightarrow> Inl e,
                             wd\<lparr>wd_legacy := (wd_legacy wd)\<lparr>v1_transactions := table\<rparr>\<rparr>));
          (case (saved, cp) of
             (Inr _, Some c) \<Rightarrow> best_effort (query en (\<lambda>k wd. (Inr (), wd\<lparr>wd_legacy := save_checkpoint c (wd_legacy wd)\<rparr>)))
           | _ \<Rightarrow> skip) }"

definition run_legacy_history ::
    "'d world env \<Rightarrow> ingest_ctx \<Rightarrow> ingestion_job \<Rightarrow> index_target \<Rightarrow> uuid \<Rightarrow> ('d world, nat) prog" where
  "run_legacy_history en ic job target run =
     (let chain = network_to_chain (ij_network job) in
      attempt (ok_or (''target '' @ ic_show_uuid ic (it_id target) @ '' has no address'') (it_address target)) (\<lambda>wallet.
      attempt (with_context (''V2 checkpoint lookup failed for network='' @ ij_network job @ '', wallet='' @ wallet @ '': '')
        (query en (reading (\<lambda>wd.
          get_checkpoint_v2 (it_id target) (ij_network job) (chain_to_default_source chain) (wd_bronze wd))))) (\<lambda>v2_cp.
      attempt (ok_or (no_provider (ic_show_uuid ic) job) (context_from_registry (ic_registry ic) (ij_network job))) (\<lambda>cx.
      attempt (of_result (ic_history ic cx wallet (ac_ingest_limit (ic_config ic))
          (requested_by_user_id ic (ij_requested_by job) (it_owner_id target))
          (map_option (\<lambda>c. v2_checkpoint_to_v1 c chain wallet) v2_cp))) (\<lambda>events.
      attempt (query en (\<lambda>k wd.
        case upsert_raw_transactions_returning_ids
          (first_by_key raw_key [] (map (\<lambda>tx. stamp_run run (v1_tx_to_v2_raw (en_now en k) tx (Some (ij_network job)))) events))
          (wd_bronze wd) of
          Inl e \<Rightarrow> (Inl e, wd)
        | Inr (ids, br) \<Rightarrow> (Inr ids, wd\<lparr>wd_bronze := br\<rparr>))) (\<lambda>ids.
      attempt (query en (on_bronze (\<lambda>k. save_target_matches
        (build_target_matches (en_mid en k) (en_now en k) (it_id target) ids)))) (\<lambda>_.
      let cp = build_checkpoint (chain_str chain) wallet events in
      attempt (case cp of
          Some c \<Rightarrow> query en (on_bronze (\<lambda>k. upsert_checkpoint_v2
            (v1_checkpoint_to_v2_with_network (en_uuid en k) (en_now en k) c (it_id target) (Some (ij_network job)))))
        | None \<Rightarrow> State_Monad.return (Inr ())) (\<lambda>_.
      do { (if ac_enable_v1_compat_writes (ic_config ic) then v1_compat_writes en events cp else skip);
           State_Monad.return (Inr (length events)) }))))))))"

definition run_ingestion ::
    "'d world env \<Rightarrow> ingest_ctx \<Rightarrow> ingestion_job \<Rightarrow> uuid \<Rightarrow> worker \<Rightarrow> ('d world, nat) prog" where
  "run_ingestion en ic job run w =
     (let us = ic_show_uuid ic in
      attempt (ok_or (''ingestion job '' @ us (ij_id job) @ '' has no target_id'') (ij_target_id job)) (\<lambda>tid.
      attempt (query en (reading (\<lambda>wd. get_index_target tid (wd_targets wd)))) (\<lambda>found.
      attempt (ok_or (''target '' @ us tid @ '' not found'') found) (\<lambda>target.
      if it_kind target \<noteq> TK_Wallet \<and> \<not> target_uses_connector_backfill target
      then bail (''ingestion job '' @ us (ij_id job) @ '' targets unsupported kind ''
             @ target_kind_debug (it_kind target) @ '' on '' @ chain_family_debug (it_chain_family target))
      else if target_uses_connector_backfill target
      then run_connector_backfill en ic job target (ac_ingest_limit (ic_config ic)) run w
      else run_legacy_history en ic job target run))))"

section \<open>The terminal statements\<close>

text \<open>Completion and failure are two statements each; only the first is fenced.\<close>

definition complete_job :: "'d world env \<Rightarrow> ingest_ctx \<Rightarrow> uuid \<Rightarrow> worker \<Rightarrow> ('d world, unit) prog" where
  "complete_job en ic i w =
     attempt (query en (on_jobs (\<lambda>k db. affected_or (''worker '' @ w @ '' does not own the current attempt for job ''
         @ ic_show_uuid ic i @ '' (job may have been reclaimed); refusing to complete'')
         (complete_stmt (en_now en k) i w db)))) (\<lambda>_.
     query en (on_jobs (\<lambda>k db. (Inr (), close_attempt (en_now en k) i w db))))"

definition fail_job :: "'d world env \<Rightarrow> ingest_ctx \<Rightarrow> uuid \<Rightarrow> worker \<Rightarrow> string \<Rightarrow> ('d world, unit) prog" where
  "fail_job en ic i w err =
     attempt (query en (on_jobs (\<lambda>k db. affected_or (''worker '' @ w @ '' does not own the current attempt for job ''
         @ ic_show_uuid ic i @ '' (job may have been reclaimed); refusing to mark failed'')
         (fail_stmt (en_now en k) i w err db)))) (\<lambda>_.
     query en (on_jobs (\<lambda>k db. (Inr (), close_failed_attempt (en_now en k) i w err db))))"

definition update_run ::
    "'d world env \<Rightarrow> uuid \<Rightarrow> ingestion_job_status \<Rightarrow> int \<Rightarrow> string option \<Rightarrow> ('d world session, unit) state" where
  "update_run en run status n err =
     best_effort (query en (on_bronze (\<lambda>k. update_ingestion_run_status run status (Some (en_now en k)) n err)))"

definition job_callback :: "ingest_ctx \<Rightarrow> ingestion_job \<Rightarrow> string \<Rightarrow> string \<Rightarrow> ('d world session, unit) state" where
  "job_callback ic job state message =
     (case ij_callback_url job of
        None \<Rightarrow> skip
      | Some u \<Rightarrow> fire_callback_best_effort (ic_net ic) (ic_dns ic) (ic_sign ic) u
          (JObject [(''job_id'', JString (ic_show_uuid ic (ij_id job))), (''state'', JString state),
                    (''network'', JString (ij_network job)), (''message'', JString message)])
          (ac_callback_hmac_secret (ic_config ic)))"

text \<open>The materialization after a legacy run; a connector run has queued its own.\<close>

definition post_ingest_materialization ::
    "'d world env \<Rightarrow> ingest_ctx \<Rightarrow> ingestion_job \<Rightarrow> uuid \<Rightarrow> ('d world session, unit) state" where
  "post_ingest_materialization en ic job run =
     (case ij_target_id job of
        None \<Rightarrow> skip
      | Some tid \<Rightarrow>
          do { found \<leftarrow> query en (reading (\<lambda>wd. get_index_target tid (wd_targets wd)));
               (case found of
                  Inr (Some target) \<Rightarrow>
                    (case auto_materialization_scope (ic_show_uuid ic) target (ij_network job) run of
                       Some scope \<Rightarrow>
                         if target_uses_connector_backfill target then skip
                         else best_effort (query en (on_bronze (enqueue_normalize (en_now en) (en_uuid en) scope)))
                     | None \<Rightarrow> skip)
                | _ \<Rightarrow> skip) })"

definition new_run :: "uuid \<Rightarrow> int \<Rightarrow> ingestion_job \<Rightarrow> ingestion_run" where
  "new_run run now job = \<lparr>ir_id = run, ir_target_id = ij_target_id job, ir_network = ij_network job,
     ir_source = network_to_source (ij_network job), ir_mode = ij_mode job, ir_status = IJ_Running,
     ir_started_at = now, ir_finished_at = None, ir_records_written = 0, ir_error_message = None,
     ir_cursor_state = None\<rparr>"

definition open_run :: "'d world env \<Rightarrow> uuid \<Rightarrow> ingestion_job \<Rightarrow> nat \<Rightarrow> 'd world \<Rightarrow> unit result \<times> 'd world" where
  "open_run en run job k wd =
     (case create_ingestion_run (new_run run (en_now en k) job) (wd_bronze wd) of (r, br) \<Rightarrow> (r, wd\<lparr>wd_bronze := br\<rparr>))"

text \<open>The result says whether the task survives: a panic ends the worker loop.\<close>

definition finish_job ::
    "'d world env \<Rightarrow> ingest_ctx \<Rightarrow> ingestion_job \<Rightarrow> uuid \<Rightarrow> worker \<Rightarrow> bool \<Rightarrow> fault + nat \<Rightarrow> ('d world session, bool) state" where
  "finish_job en ic job run w lost result =
     (if result = Inl Panicked then State_Monad.return False
      else if lost then do { update_run en run IJ_Failed 0 (Some ''lease lost''); State_Monad.return True }
      else case result of
        Inr cnt \<Rightarrow>
          do { update_run en run IJ_Completed (usize_to_i64_or_max cnt) None;
               completed \<leftarrow> complete_job en ic (ij_id job) w;
               (case completed of Inl _ \<Rightarrow> skip | Inr _ \<Rightarrow> post_ingest_materialization en ic job run);
               job_callback ic job ''completed'' (''Ingested '' @ show_nat cnt @ '' transactions'');
               State_Monad.return True }
      | Inl e \<Rightarrow>
          (let err = public_ingestion_error (error_text e) in
           do { update_run en run IJ_Failed 0 (Some err);
                best_effort (fail_job en ic (ij_id job) w err);
                job_callback ic job ''failed'' err;
                State_Monad.return True }))"

definition execute_job ::
    "'d world env \<Rightarrow> ingest_ctx \<Rightarrow> bool \<Rightarrow> uuid \<Rightarrow> worker \<Rightarrow> ingestion_job \<Rightarrow> ('d world session, bool) state" where
  "execute_job en ic lost run w job =
     do { marked \<leftarrow> query en (on_jobs (\<lambda>k. mark_ingestion_job_running (ic_show_uuid ic) (en_now en k) (ij_id job) w));
          (case marked of
             Inl e \<Rightarrow> do { best_effort (fail_job en ic (ij_id job) w (''failed to mark running: '' @ error_text e));
                           State_Monad.return True }
           | Inr _ \<Rightarrow>
               do { created \<leftarrow> query en (open_run en run job);
                    (case created of
                       Inl e \<Rightarrow> do { best_effort (fail_job en ic (ij_id job) w (''Cannot create provenance run: '' @ error_text e));
                                     State_Monad.return True }
                     | Inr _ \<Rightarrow> do { result \<leftarrow> run_ingestion en ic job run w;
                                     finish_job en ic job run w lost result }) }) }"

text \<open>One turn of the loop: a claim and, when there is a job, its execution.\<close>

definition ingestion_worker_tick ::
    "'d world env \<Rightarrow> ingest_ctx \<Rightarrow> bool \<Rightarrow> uuid \<Rightarrow> worker \<Rightarrow> ('d world session, bool) state" where
  "ingestion_worker_tick en ic lost run w =
     do { claimed \<leftarrow> query en (on_jobs (\<lambda>k db. case claim_ingestion_job (en_now en k) (en_uuid en k) (en_locked en k \<circ> ij_id) w db of
            (j, db') \<Rightarrow> (Inr j, db')));
          (case claimed of
             Inr (Some job) \<Rightarrow> execute_job en ic lost run w job
           | _ \<Rightarrow> State_Monad.return True) }"

section \<open>Which flow a target takes\<close>

lemma wallet_uses_connector: "it_kind t = TK_Wallet \<Longrightarrow> target_uses_connector_backfill t"
  by (cases "it_chain_family t") (simp_all add: target_uses_connector_backfill_def)

text \<open>Every wallet has a connector, so the legacy flow is never taken.\<close>

lemma wallet_branch:
  "(if it_kind t \<noteq> TK_Wallet \<and> \<not> target_uses_connector_backfill t then a
    else if target_uses_connector_backfill t then b else c) =
   (if target_uses_connector_backfill t then b else a)"
  using wallet_uses_connector [of t] by auto

lemma run_ingestion_connector:
  "run_ingestion en ic job run w =
     attempt (ok_or (''ingestion job '' @ ic_show_uuid ic (ij_id job) @ '' has no target_id'') (ij_target_id job)) (\<lambda>tid.
     attempt (query en (reading (\<lambda>wd. get_index_target tid (wd_targets wd)))) (\<lambda>found.
     attempt (ok_or (''target '' @ ic_show_uuid ic tid @ '' not found'') found) (\<lambda>target.
       if target_uses_connector_backfill target
       then run_connector_backfill en ic job target (ac_ingest_limit (ic_config ic)) run w
       else bail (''ingestion job '' @ ic_show_uuid ic (ij_id job) @ '' targets unsupported kind ''
             @ target_kind_debug (it_kind target) @ '' on '' @ chain_family_debug (it_chain_family target)))))"
  by (simp only: run_ingestion_def Let_def wallet_branch)

section \<open>What a worker guarantees\<close>

definition job_completed :: "uuid \<Rightarrow> ingestion_db \<Rightarrow> bool" where
  "job_completed i db \<longleftrightarrow> list_ex (\<lambda>j. ij_id j = i \<and> ij_status j = IJ_Completed) (db_jobs db)"

definition not_completing :: "uuid \<Rightarrow> 'd world \<Rightarrow> 'd world \<Rightarrow> bool" where
  "not_completing i w w' \<longleftrightarrow> (job_completed i (wd_jobs w') \<longrightarrow> job_completed i (wd_jobs w))"

interpretation not_completing: guarantee "not_completing i" for i
  by unfold_locales (auto simp: not_completing_def)

subsection \<open>Statements\<close>

lemma snd_on_jobs: "snd (on_jobs f k w) = w\<lparr>wd_jobs := snd (f k (wd_jobs w))\<rparr>"
  by (simp add: on_jobs_def split: prod.split)

lemma not_completing_bronze [simp]: "not_completing i w (w\<lparr>wd_bronze := br\<rparr>)"
  by (simp add: not_completing_def)

lemma fenced_not_completing:
  "(\<And>j. ij_status (g j) \<noteq> IJ_Completed) \<Longrightarrow> job_completed i (snd (fenced_update k w p g db)) \<Longrightarrow> job_completed i db"
  by (auto simp: fenced_update_def Let_def job_completed_def list_ex_iff update_jobs_def split: if_splits)

lemma attempts_not_completing [simp]: "job_completed i (update_attempts k p g db) = job_completed i db"
  by (simp add: job_completed_def update_attempts_def)

subsection \<open>Programs\<close>

definition env_leaves_open :: "uuid \<Rightarrow> 'd world env \<Rightarrow> bool" where
  "env_leaves_open i en \<longleftrightarrow> (\<forall>k w. not_completing i w (en_others en k w))"

lemma open_query:
  "env_leaves_open i en \<Longrightarrow> (\<And>k w. not_completing i w (snd (f k w))) \<Longrightarrow> complies (not_completing i) (query en f)"
  by (intro not_completing.query) (auto simp: env_leaves_open_def)

lemma commit_kept: "bronze_kept w (w\<lparr>wd_bronze := snd (commit_connector_batch us mid etl now jobs t run rs cp ls (wd_bronze w))\<rparr>)"
proof -
  obtain res db' where c: "commit_connector_batch us mid etl now jobs t run rs cp ls (wd_bronze w) = (res, db')"
    by fastforce
  have "distinct (map raw_key (br_raws (wd_bronze w))) \<Longrightarrow> bronze_grows (wd_bronze w) db'"
    using commit_connector_batch_spec [OF _ c [symmetric]] bronze_grows_refl by (cases "res = Inr ()") auto
  then show ?thesis by (simp add: bronze_kept_def c)
qed

lemma update_run_kept: "env_keeps en \<Longrightarrow> complies bronze_kept (update_run en run status n err)"
  unfolding update_run_def
  by (intro bronze_kept.rules keeps_query) (simp_all add: on_bronze_def update_ingestion_run_status_def)

lemma complete_job_kept: "env_keeps en \<Longrightarrow> complies bronze_kept (complete_job en ic i w)"
  unfolding complete_job_def by (intro bronze_kept.rules keeps_query) (simp_all add: snd_on_jobs)

lemma fail_job_kept: "env_keeps en \<Longrightarrow> complies bronze_kept (fail_job en ic i w err)"
  unfolding fail_job_def by (intro bronze_kept.rules keeps_query) (simp_all add: snd_on_jobs)

lemma job_callback_kept: "complies bronze_kept (job_callback ic job st msg)"
  unfolding job_callback_def by (intro complies_branches bronze_kept.rules)

lemma post_ingest_kept: "env_keeps en \<Longrightarrow> complies bronze_kept (post_ingest_materialization en ic job run)"
  unfolding post_ingest_materialization_def
  by (intro complies_branches bronze_kept.rules keeps_query)
     (simp_all add: reading_def on_bronze_def enqueue_normalize_def bronze_kept.refl)

lemma finish_job_kept: "env_keeps en \<Longrightarrow> complies bronze_kept (finish_job en ic job run w lost r)"
  unfolding finish_job_def Let_def
  by (intro complies_branches bronze_kept.rules update_run_kept complete_job_kept fail_job_kept
        job_callback_kept post_ingest_kept)

lemma backfill_kept: "env_keeps en \<Longrightarrow> complies bronze_kept (run_connector_backfill en ic job t limit run w)"
  unfolding run_connector_backfill_def Let_def
  by (intro complies_branches bronze_kept.rules keeps_query)
     (simp_all add: reading_def bronze_kept.refl commit_kept commit_batch_def Let_def split_beta)

lemma run_ingestion_kept: "env_keeps en \<Longrightarrow> complies bronze_kept (run_ingestion en ic job run w)"
  unfolding run_ingestion_connector
  by (intro complies_branches bronze_kept.rules keeps_query backfill_kept)
     (simp_all add: reading_def bronze_kept.refl)

lemma update_run_open: "env_leaves_open i en \<Longrightarrow> complies (not_completing i) (update_run en run status n err)"
  unfolding update_run_def by (intro not_completing.rules open_query) (simp_all add: on_bronze_def)

lemma fail_job_open: "env_leaves_open i en \<Longrightarrow> complies (not_completing i) (fail_job en ic k w err)"
  unfolding fail_job_def
  by (intro not_completing.rules open_query)
     (auto simp: snd_on_jobs not_completing_def fail_stmt_def close_failed_attempt_def
        dest: fenced_not_completing [rotated])

lemma job_callback_open: "complies (not_completing i) (job_callback ic job st msg)"
  unfolding job_callback_def by (intro complies_branches not_completing.rules)

lemma backfill_open: "env_leaves_open i en \<Longrightarrow> complies (not_completing i) (run_connector_backfill en ic job t limit run w)"
  unfolding run_connector_backfill_def Let_def
  by (intro complies_branches not_completing.rules open_query)
     (simp_all add: reading_def not_completing.refl commit_batch_def Let_def split: prod.split)

lemma run_ingestion_open: "env_leaves_open i en \<Longrightarrow> complies (not_completing i) (run_ingestion en ic job run w)"
  unfolding run_ingestion_connector
  by (intro complies_branches not_completing.rules open_query backfill_open)
     (simp_all add: reading_def not_completing.refl)

subsection \<open>What a successful run has stored\<close>

definition fetched_and_stored :: "ingest_ctx \<Rightarrow> ingestion_job \<Rightarrow> uuid \<Rightarrow> 'd world \<Rightarrow> bool" where
  "fetched_and_stored ic job run w \<longleftrightarrow>
     (\<exists>cx target cursor records cp. ij_target_id job = Some (it_id target)
        \<and> ic_backfill ic cx target cursor (ac_ingest_limit (ic_config ic)) = Inr (records, cp)
        \<and> (\<forall>r \<in> set records. stored (it_id target) (wd_bronze w) (stamp_run run r)))"

lemma stored_key: "raw_key r = raw_key r' \<Longrightarrow> raw_ingestion_run_id r = raw_ingestion_run_id r' \<Longrightarrow> stored t db r = stored t db r'"
  by (simp add: stored_def)

lemma stored_deduped:
  assumes "\<forall>r \<in> set (first_by_key raw_key [] (map (stamp_run run) rs)). stored t db r" and "r \<in> set rs"
  shows "stored t db (stamp_run run r)"
proof -
  let ?d = "first_by_key raw_key [] (map (stamp_run run) rs)"
  have "raw_key (stamp_run run r) \<in> raw_key ` set ?d"
    using first_by_key_spec [of raw_key "[]" "map (stamp_run run) rs"] assms(2) by auto
  then obtain x where x: "x \<in> set ?d" "raw_key x = raw_key (stamp_run run r)" by auto
  have "x \<in> stamp_run run ` set rs"
    using x(1) first_by_key_spec [of raw_key "[]" "map (stamp_run run) rs"] by auto
  then have "raw_ingestion_run_id x = raw_ingestion_run_id (stamp_run run r)" by (auto simp: stamp_run_def)
  then show ?thesis using stored_key [OF x(2)] assms(1) x(1) by blast
qed

lemma fetched_and_stored_kept:
  "bronze_kept w w' \<Longrightarrow> raws_distinct w \<Longrightarrow> fetched_and_stored ic job run w \<Longrightarrow> fetched_and_stored ic job run w'"
  unfolding fetched_and_stored_def bronze_kept_def raws_distinct_def using stored_mono by blast

lemma wp_query_distinct:
  assumes "env_keeps en" and "raws_distinct (sn_world s)"
    and "\<And>e t. raws_distinct (sn_world t) \<Longrightarrow> Q (Inl (Failed e)) t"
    and "\<And>k w c. raws_distinct w \<Longrightarrow>
          (case f k w of (r, w') \<Rightarrow> Q (map_sum Failed id r) (s\<lparr>sn_clock := c, sn_world := w'\<rparr>))"
  shows "wp (query en f) Q s"
proof (rule wp_queryI)
  have d: "raws_distinct (en_others en k (sn_world s))" for k
    using assms(1,2) kept_distinct by (auto simp: env_keeps_def)
  show "Q (Inl (Failed e)) (s\<lparr>sn_clock := Suc (sn_clock s), sn_world := en_others en k (sn_world s)\<rparr>)" for e k
    by (rule assms(3)) (simp add: d)
  show "case f k (en_others en k (sn_world s)) of (r, w) \<Rightarrow>
      Q (map_sum Failed id r) (s\<lparr>sn_clock := Suc (sn_clock s), sn_world := w\<rparr>)" for k
    by (rule assms(4) [OF d])
qed

lemma commit_batch_stored:
  assumes "commit_batch en ic job t run w (first_by_key raw_key [] (map (stamp_run run) rs)) bcp k wd = (Inr u, wd')"
    and "raws_distinct wd" and "ij_target_id job = Some (it_id t)"
    and "ic_backfill ic cx t cursor (ac_ingest_limit (ic_config ic)) = Inr (rs, bcp)"
  shows "fetched_and_stored ic job run wd'"
proof -
  let ?d = "first_by_key raw_key [] (map (stamp_run run) rs)"
  define cp where "cp = (case bcp of Some c \<Rightarrow> Some c | None \<Rightarrow> derived_checkpoint (en_uuid en k) (en_now en k)
    (it_id t) (ij_network job) (connector_source (it_chain_family t)) ?d)"
  obtain r br where b: "commit_connector_batch (ic_show_uuid ic) (en_mid en k) (en_uuid en k)
      (en_now en k) (wd_jobs wd) t run ?d cp (ij_id job, w) (wd_bronze wd) = (r, br)" by fastforce
  have "r = Inr ()" and wd': "wd' = wd\<lparr>wd_bronze := br\<rparr>"
    using assms(1) b by (simp_all add: commit_batch_def cp_def Let_def)
  note c = b [unfolded this(1), symmetric]
  have "\<forall>r \<in> set ?d. stored (it_id t) br r"
    using commit_connector_batch_spec [OF _ c] assms(2) by (simp add: raws_distinct_def)
  then have "\<forall>r \<in> set rs. stored (it_id t) br (stamp_run run r)" using stored_deduped by blast
  then show ?thesis unfolding fetched_and_stored_def wd' using assms(3,4) by fastforce
qed

lemma backfill_stores:
  assumes "env_keeps en" "raws_distinct (sn_world s)" "ij_target_id job = Some (it_id t)"
  shows "wp (run_connector_backfill en ic job t (ac_ingest_limit (ic_config ic)) run w)
           (\<lambda>r u. \<forall>n. r = Inr n \<longrightarrow> fetched_and_stored ic job run (sn_world u)) s"
proof -
  let ?Q = "\<lambda>r u. \<forall>n :: nat. r = Inr n \<longrightarrow> fetched_and_stored ic job run (sn_world u)"
  have commit: "wp (query en (commit_batch en ic job t run w (first_by_key raw_key [] (map (stamp_run run) rs)) bcp))
      (case_sum (\<lambda>_ _. True) (\<lambda>_ u. fetched_and_stored ic job run (sn_world u))) u"
    if "raws_distinct (sn_world u)" "ic_backfill ic cx t cursor (ac_ingest_limit (ic_config ic)) = Inr (rs, bcp)"
    for cx cursor rs bcp u
    by (rule wp_query_distinct [OF assms(1) that(1)])
       (auto dest: commit_batch_stored [OF _ _ assms(3) that(2)] split: prod.split sum.split)
  show ?thesis
  proof (cases "context_from_registry (ic_registry ic) (ij_network job)")
    case (Some cx)
    show ?thesis
      unfolding run_connector_backfill_def Let_def
      apply (simp add: wp_simps Some)
      apply (rule wp_query_distinct [OF assms(1,2)])
       apply simp
      using commit apply (auto simp: reading_def wp_simps split: sum.split prod.split)
      done
  qed (simp add: run_connector_backfill_def wp_simps)
qed

lemma get_index_target_id: "get_index_target i ts = Some t \<Longrightarrow> it_id t = i"
  by (auto simp: get_index_target_def find_Some_iff)

lemma run_ingestion_stores:
  assumes "env_keeps en" "raws_distinct (sn_world s)"
  shows "wp (run_ingestion en ic job run w) (\<lambda>r u. \<forall>n. r = Inr n \<longrightarrow> fetched_and_stored ic job run (sn_world u)) s"
proof (cases "ij_target_id job")
  case (Some tid)
  have found: "wp (if target_uses_connector_backfill t
          then run_connector_backfill en ic job t (ac_ingest_limit (ic_config ic)) run w else bail e)
        (\<lambda>r u. \<forall>n. r = Inr n \<longrightarrow> fetched_and_stored ic job run (sn_world u)) u"
    if "raws_distinct (sn_world u)" "get_index_target tid ts = Some t" for u e t ts
    using backfill_stores [OF assms(1) that(1)] Some get_index_target_id [OF that(2)] by (simp add: wp_simps)
  show ?thesis
    unfolding run_ingestion_connector
    apply (simp add: wp_simps Some)
    apply (rule wp_query_distinct [OF assms])
     apply simp
    using found apply (simp add: reading_def wp_simps split: option.split)
    done
qed (simp add: run_ingestion_connector wp_simps)

lemma finish_job_open:
  assumes "env_leaves_open i en" "lost \<or> (\<exists>e. r = Inl e)"
  shows "complies (not_completing i) (finish_job en ic job run w lost r)"
proof (cases r)
  case (Inl e)
  show ?thesis
    unfolding finish_job_def Let_def Inl sum.case
    by (intro complies_branches not_completing.rules update_run_open fail_job_open job_callback_open assms(1))
next
  case (Inr n)
  with assms(2) have "lost" by simp
  then show ?thesis
    by (auto simp: finish_job_def intro!: not_completing.rules update_run_open assms(1))
qed

abbreviation still_open :: "uuid \<Rightarrow> 'd world session \<Rightarrow> bool" where
  "still_open i s \<equiv> raws_distinct (sn_world s) \<and> \<not> job_completed i (wd_jobs (sn_world s))"

lemma keeps_open:
  assumes "complies bronze_kept m" "complies (not_completing i) m" "still_open i s"
  shows "wp m (\<lambda>_. still_open i) s"
proof -
  have "wp m (\<lambda>_ t. bronze_kept (sn_world s) (sn_world t)) s" "wp m (\<lambda>_ t. not_completing i (sn_world s) (sn_world t)) s"
    using assms(1,2) by (simp_all add: complies_def)
  then have "wp m (\<lambda>_ t. bronze_kept (sn_world s) (sn_world t) \<and> not_completing i (sn_world s) (sn_world t)) s"
    by (simp add: wp_conj)
  then show ?thesis by (rule wp_mono) (use assms(3) kept_distinct in \<open>auto simp: not_completing_def\<close>)
qed

lemma wp_open_then:
  assumes "complies bronze_kept m" "complies (not_completing i) m" "still_open i s"
    and "\<And>a t. still_open i t \<Longrightarrow> wp (f a) Q t"
  shows "wp m (\<lambda>a. wp (f a) Q) s"
  using keeps_open [OF assms(1-3)] by (rule wp_mono) (rule assms(4))

lemma marked_kept: "env_keeps en \<Longrightarrow> complies bronze_kept (query en (on_jobs f))"
  by (intro keeps_query) (simp_all add: snd_on_jobs)

lemma marked_open:
  "env_leaves_open i en \<Longrightarrow>
     complies (not_completing i) (query en (on_jobs (\<lambda>k. mark_ingestion_job_running us (en_now en k) j w)))"
  by (intro open_query)
     (auto simp: snd_on_jobs not_completing_def mark_ingestion_job_running_def dest: fenced_not_completing [rotated])

lemma open_run_kept: "env_keeps en \<Longrightarrow> complies bronze_kept (query en (open_run en run job))"
proof (intro keeps_query)
  fix k and w :: "'a world"
  have "wd_bronze (w\<lparr>wd_bronze := wd_bronze w\<rparr>) = wd_bronze w" by simp
  then have "bronze_kept w (w\<lparr>wd_bronze := wd_bronze w\<rparr>)" by (simp add: bronze_kept.refl)
  then show "bronze_kept w (snd (open_run en run job k w))"
    by (simp add: open_run_def create_ingestion_run_def)
qed simp

lemma open_run_open: "env_leaves_open i en \<Longrightarrow> complies (not_completing i) (query en (open_run en run job))"
  by (intro open_query) (simp_all add: open_run_def split: prod.split)

text \<open>
  C8. A job is only ever completed after its batch is in Bronze: whatever other sessions do to the
  tables without losing Bronze rows or completing the job themselves, whichever statements fail and
  wherever the lease is lost, if the job is completed after the worker has run, then everything the
  connector returned is stored, matched to the target of the job and linked to the run.
\<close>

theorem completed_job_is_stored:
  assumes "env_keeps en" and "env_leaves_open (ij_id job) en" and "raws_distinct (sn_world s)"
    and "\<not> job_completed (ij_id job) (wd_jobs (sn_world s))"
  shows "case run_state (execute_job en ic lost run w job) s of (_, t) \<Rightarrow>
    job_completed (ij_id job) (wd_jobs (sn_world t)) \<longrightarrow> fetched_and_stored ic job run (sn_world t)"
proof -
  let ?i = "ij_id job"
  let ?P = "\<lambda>_ t. job_completed ?i (wd_jobs (sn_world t)) \<longrightarrow> fetched_and_stored ic job run (sn_world t)"
  note kept = marked_kept [OF assms(1)] open_run_kept [OF assms(1)] fail_job_kept [OF assms(1)]
  note opened = marked_open [OF assms(2)] open_run_open [OF assms(2)] fail_job_open [OF assms(2)]
  have failed: "wp (do { best_effort (fail_job en ic ?i w err); State_Monad.return True }) ?P t" if "still_open ?i t" for err t
    by (simp add: wp_simps, rule wp_mono [OF keeps_open [OF kept(3) opened(3) that]]) simp
  have finished: "wp (finish_job en ic job run w lost r) ?P t"
    if "still_open ?i t" "\<forall>n. r = Inr n \<longrightarrow> fetched_and_stored ic job run (sn_world t)" for r t
  proof (cases "lost \<or> (\<exists>e. r = Inl e)")
    case True
    show ?thesis
      by (rule wp_mono [OF keeps_open [OF finish_job_kept [OF assms(1)] finish_job_open [OF assms(2) True] that(1)]]) simp
  next
    case False
    then have "fetched_and_stored ic job run (sn_world t)" using that(2) by (cases r) auto
    then show ?thesis
      using finish_job_kept [OF assms(1), of ic job run w lost r] fetched_and_stored_kept that(1)
      unfolding complies_def by (blast intro: wp_mono)
  qed
  have run: "wp (run_ingestion en ic job run w) (\<lambda>r. wp (finish_job en ic job run w lost r) ?P) t" if "still_open ?i t" for t
  proof -
    have "wp (run_ingestion en ic job run w) (\<lambda>r u. still_open ?i u \<and> (\<forall>n. r = Inr n \<longrightarrow> fetched_and_stored ic job run (sn_world u))) t"
      using keeps_open [OF run_ingestion_kept [OF assms(1)] run_ingestion_open [OF assms(2)] that]
        run_ingestion_stores [OF assms(1)] that by (simp add: wp_conj)
    then show ?thesis by (rule wp_mono) (use finished in blast)
  qed
  have created: "wp (case c of
        Inl e \<Rightarrow> do { best_effort (fail_job en ic ?i w (''Cannot create provenance run: '' @ error_text e)); State_Monad.return True }
      | Inr _ \<Rightarrow> do { result \<leftarrow> run_ingestion en ic job run w; finish_job en ic job run w lost result }) ?P t"
    if "still_open ?i t" for c t
    using failed [OF that] run [OF that] by (cases c) (simp_all only: sum.case wp_bind)
  have "wp (execute_job en ic lost run w job) ?P s"
    unfolding execute_job_def wp_bind
  proof (rule wp_open_then [OF kept(1) opened(1)])
    show "still_open ?i s" using assms(3,4) by simp
    fix marked :: "fault + unit" and t :: "'a world session"
    assume t: "still_open ?i t"
    have "wp (query en (open_run en run job)) (\<lambda>c. wp (case c of
        Inl e \<Rightarrow> do { best_effort (fail_job en ic ?i w (''Cannot create provenance run: '' @ error_text e)); State_Monad.return True }
      | Inr _ \<Rightarrow> do { result \<leftarrow> run_ingestion en ic job run w; finish_job en ic job run w lost result }) ?P) t"
      by (rule wp_open_then [OF kept(2) opened(2) t created])
    with failed [OF t] show "wp (case marked of
        Inl e \<Rightarrow> do { best_effort (fail_job en ic ?i w (''failed to mark running: '' @ error_text e)); State_Monad.return True }
      | Inr _ \<Rightarrow> do { created \<leftarrow> query en (open_run en run job);
          (case created of
             Inl e \<Rightarrow> do { best_effort (fail_job en ic ?i w (''Cannot create provenance run: '' @ error_text e));
                           State_Monad.return True }
           | Inr _ \<Rightarrow> do { result \<leftarrow> run_ingestion en ic job run w; finish_job en ic job run w lost result }) }) ?P t"
      by (cases marked) (simp_all only: sum.case wp_bind)
  qed
  then show ?thesis by (simp add: wp_def)
qed

section \<open>An undisturbed worker ends its job\<close>

definition same_jobs :: "'d world \<Rightarrow> 'd world \<Rightarrow> bool" where
  "same_jobs w w' \<longleftrightarrow> wd_jobs w' = wd_jobs w"

interpretation same_jobs: guarantee same_jobs
  by unfold_locales (simp_all add: same_jobs_def)

lemma quiet_query: "undisturbed en \<Longrightarrow> (\<And>k w. same_jobs w (snd (f k w))) \<Longrightarrow> complies same_jobs (query en f)"
  by (intro same_jobs.query) (auto simp: undisturbed_def same_jobs.refl)

lemma update_run_jobs: "undisturbed en \<Longrightarrow> complies same_jobs (update_run en run status n err)"
  unfolding update_run_def
  by (intro same_jobs.rules quiet_query) (simp_all add: on_bronze_def same_jobs_def)

lemma open_run_jobs: "undisturbed en \<Longrightarrow> complies same_jobs (query en (open_run en run job))"
  by (intro quiet_query) (simp_all add: open_run_def same_jobs_def split: prod.split)

lemma job_callback_jobs: "complies same_jobs (job_callback ic job st msg)"
  unfolding job_callback_def by (intro complies_branches same_jobs.rules)

lemma post_ingest_jobs: "undisturbed en \<Longrightarrow> complies same_jobs (post_ingest_materialization en ic job run)"
  unfolding post_ingest_materialization_def
  by (intro complies_branches same_jobs.rules quiet_query)
     (simp_all add: reading_def on_bronze_def same_jobs_def)

lemma commit_batch_jobs: "same_jobs w (snd (commit_batch en ic job t run wk rs cp k w))"
  by (simp add: commit_batch_def Let_def same_jobs_def split: prod.split)

lemma reading_jobs: "same_jobs w (snd (reading f k w))"
  by (simp add: reading_def same_jobs_def)

lemma backfill_jobs:
  assumes q: "undisturbed en"
  shows "complies same_jobs (run_connector_backfill en ic job t limit run w)"
  unfolding run_connector_backfill_def Let_def
  by (intro complies_branches same_jobs.rules quiet_query [OF q] commit_batch_jobs reading_jobs)

lemma run_ingestion_jobs:
  assumes q: "undisturbed en"
  shows "complies same_jobs (run_ingestion en ic job run w)"
  unfolding run_ingestion_connector
  by (intro complies_branches same_jobs.rules quiet_query [OF q] reading_jobs backfill_jobs [OF q])

definition job_in_hand :: "uuid \<Rightarrow> ingestion_db \<Rightarrow> bool" where
  "job_in_hand i db \<longleftrightarrow> list_ex (\<lambda>j. ij_id j = i \<and> in_hand (ij_status j)) (db_jobs db)"

lemma fenced_ends:
  assumes "job_in_hand i db" "owns_attempt i w db" "\<And>j. \<not> in_hand (ij_status (g j))" "\<And>j. ij_id (g j) = ij_id j"
  shows "fst (fenced_update i w in_hand g db)" "\<not> job_in_hand i (snd (fenced_update i w in_hand g db))"
proof -
  show hit: "fst (fenced_update i w in_hand g db)"
    using assms(1,2) by (simp add: fenced_update_def Let_def job_in_hand_def)
  then show "\<not> job_in_hand i (snd (fenced_update i w in_hand g db))"
    using assms(3,4) by (auto simp: fenced_update_def Let_def job_in_hand_def list_ex_iff update_jobs_def split: if_splits)
qed

lemma closed_by:
  "(\<And>a. at_finished_at (f a) \<noteq> None) \<Longrightarrow>
     \<not> list_ex (\<lambda>a. at_job_id a = i \<and> at_worker_id a = w \<and> unfinished a)
         (map (\<lambda>a. if at_job_id a = i \<and> unfinished a \<and> at_worker_id a = w then f a else a) as)"
proof (induction as)
  case (Cons a as)
  then show ?case by (cases "at_job_id a = i \<and> unfinished a \<and> at_worker_id a = w") auto
qed simp

lemma closes_attempt [simp]:
  "\<not> owns_attempt i w (close_attempt now i w db)" "\<not> owns_attempt i w (close_failed_attempt now i w err db)"
  unfolding owns_attempt_def close_attempt_def close_failed_attempt_def update_attempts_def
    ingestion_db.update_convs ingestion_db.select_convs
  by (simp_all add: closed_by)

lemma in_hand_attempts [simp]: "job_in_hand i (update_attempts k p g db) = job_in_hand i db"
  by (simp add: job_in_hand_def update_attempts_def)

definition settled_job :: "uuid \<Rightarrow> worker \<Rightarrow> 'd world session \<Rightarrow> bool" where
  "settled_job i w s \<longleftrightarrow> \<not> job_in_hand i (wd_jobs (sn_world s)) \<and> \<not> owns_attempt i w (wd_jobs (sn_world s))"

definition held_job :: "uuid \<Rightarrow> worker \<Rightarrow> 'd world session \<Rightarrow> bool" where
  "held_job i w s \<longleftrightarrow> job_in_hand i (wd_jobs (sn_world s)) \<and> owns_attempt i w (wd_jobs (sn_world s))"

lemma complete_job_settles:
  assumes "undisturbed en" "held_job i w s"
  shows "wp (complete_job en ic i w) (\<lambda>_. settled_job i w) s"
proof -
  let ?g = "\<lambda>k j. j\<lparr>ij_status := IJ_Completed, ij_updated_at := en_now en k\<rparr>"
  have "fst (complete_stmt (en_now en k) i w (wd_jobs (sn_world s)))"
    "\<not> job_in_hand i (snd (complete_stmt (en_now en k) i w (wd_jobs (sn_world s))))" for k
    using fenced_ends [of i "wd_jobs (sn_world s)" w "?g k"] assms(2)
    by (simp_all add: complete_stmt_def held_job_def in_hand_def)
  then show ?thesis
    by (simp add: complete_job_def wp_simps wp_query_quiet [OF assms(1)] on_jobs_def affected_or_def settled_job_def
        close_attempt_def) (simp flip: close_attempt_def)
qed

lemma fail_job_settles:
  assumes "undisturbed en" "held_job i w s"
  shows "wp (fail_job en ic i w err) (\<lambda>_. settled_job i w) s"
proof -
  let ?g = "\<lambda>k j. j\<lparr>ij_status := IJ_Failed, ij_error_message := Some err, ij_updated_at := en_now en k\<rparr>"
  have "fst (fail_stmt (en_now en k) i w err (wd_jobs (sn_world s)))"
    "\<not> job_in_hand i (snd (fail_stmt (en_now en k) i w err (wd_jobs (sn_world s))))" for k
    using fenced_ends [of i "wd_jobs (sn_world s)" w "?g k"] assms(2)
    by (simp_all add: fail_stmt_def held_job_def in_hand_def)
  then show ?thesis
    by (simp add: fail_job_def wp_simps wp_query_quiet [OF assms(1)] on_jobs_def affected_or_def settled_job_def
        close_failed_attempt_def) (simp flip: close_failed_attempt_def)
qed

lemma same_jobs_held: "same_jobs (sn_world s) (sn_world t) \<Longrightarrow> held_job i w s \<Longrightarrow> held_job i w t"
  by (simp add: same_jobs_def held_job_def)

lemma same_jobs_settled: "same_jobs (sn_world s) (sn_world t) \<Longrightarrow> settled_job i w s \<Longrightarrow> settled_job i w t"
  by (simp add: same_jobs_def settled_job_def)

lemma wp_held_then:
  "complies same_jobs m \<Longrightarrow> held_job i w s \<Longrightarrow> (\<And>a t. held_job i w t \<Longrightarrow> Q a t) \<Longrightarrow> wp m Q s"
  unfolding complies_def by (blast intro: wp_mono same_jobs_held)

lemma wp_settled: "complies same_jobs m \<Longrightarrow> settled_job i w s \<Longrightarrow> wp m (\<lambda>_. settled_job i w) s"
  unfolding complies_def by (blast intro: wp_mono same_jobs_settled)

lemma finish_job_settles:
  assumes q: "undisturbed en" and held: "held_job (ij_id job) w s" and r: "r \<noteq> Inl Panicked"
  shows "wp (finish_job en ic job run w False r) (\<lambda>_. settled_job (ij_id job) w) s"
proof (cases r)
  case (Inl e)
  let ?err = "public_ingestion_error (error_text e)"
  have "wp (fail_job en ic (ij_id job) w ?err) (\<lambda>_. wp (job_callback ic job ''failed'' ?err) (\<lambda>_. settled_job (ij_id job) w)) t"
    if "held_job (ij_id job) w t" for t
    using fail_job_settles [OF q that] by (rule wp_mono) (rule wp_settled [OF job_callback_jobs])
  with Inl r show ?thesis
    unfolding finish_job_def Let_def
    by (simp add: wp_simps) (rule wp_held_then [OF update_run_jobs [OF q] held])
next
  case (Inr n)
  have after: "wp (case c of Inl _ \<Rightarrow> skip | Inr _ \<Rightarrow> post_ingest_materialization en ic job run)
      (\<lambda>_. wp (job_callback ic job st msg) (\<lambda>_. settled_job (ij_id job) w)) t"
    if "settled_job (ij_id job) w t" for c :: "fault + unit" and t :: "'a world session" and st msg
  proof -
    have "complies same_jobs (case c of Inl _ \<Rightarrow> skip | Inr _ \<Rightarrow> post_ingest_materialization en ic job run)"
      by (intro complies_branches same_jobs.skip post_ingest_jobs [OF q])
    from wp_settled [OF this that] show ?thesis by (rule wp_mono) (rule wp_settled [OF job_callback_jobs])
  qed
  have "wp (complete_job en ic (ij_id job) w) (\<lambda>c. wp (case c of Inl _ \<Rightarrow> skip | Inr _ \<Rightarrow> post_ingest_materialization en ic job run)
      (\<lambda>_. wp (job_callback ic job st msg) (\<lambda>_. settled_job (ij_id job) w))) t"
    if "held_job (ij_id job) w t" for t st msg
    using complete_job_settles [OF q that] by (rule wp_mono) (rule after)
  with Inr show ?thesis
    unfolding finish_job_def Let_def
    by (simp add: wp_bind wp_return) (rule wp_held_then [OF update_run_jobs [OF q] held])
qed

lemma fenced_holds:
  assumes "owns_attempt i w db" "list_ex (\<lambda>j. ij_id j = i \<and> ij_status j = IJ_Claimed) (db_jobs db)"
    and "\<And>j. in_hand (ij_status (g j))" "\<And>j. ij_id (g j) = ij_id j"
  shows "fst (fenced_update i w (\<lambda>s. s = IJ_Claimed) g db)"
    "job_in_hand i (snd (fenced_update i w (\<lambda>s. s = IJ_Claimed) g db))"
    "owns_attempt i w (snd (fenced_update i w (\<lambda>s. s = IJ_Claimed) g db))"
proof -
  show hit: "fst (fenced_update i w (\<lambda>s. s = IJ_Claimed) g db)"
    using assms(1,2) by (simp add: fenced_update_def Let_def)
  show "owns_attempt i w (snd (fenced_update i w (\<lambda>s. s = IJ_Claimed) g db))"
    using assms(1) by (simp add: fenced_update_def Let_def)
  obtain j where j: "j \<in> set (db_jobs db)" "ij_id j = i" "ij_status j = IJ_Claimed"
    using assms(2) by (auto simp: list_ex_iff)
  have "g j \<in> set (db_jobs (update_jobs i (\<lambda>j. if ij_status j = IJ_Claimed then g j else j) db))"
    using j by (force simp: update_jobs_def)
  then show "job_in_hand i (snd (fenced_update i w (\<lambda>s. s = IJ_Claimed) g db))"
    using assms j by (auto simp: fenced_update_def Let_def job_in_hand_def list_ex_iff)
qed

lemma mark_holds:
  assumes "undisturbed en" "owns_attempt i w (wd_jobs (sn_world s))"
    and "list_ex (\<lambda>j. ij_id j = i \<and> ij_status j = IJ_Claimed) (db_jobs (wd_jobs (sn_world s)))"
  shows "wp (query en (on_jobs (\<lambda>k. mark_ingestion_job_running us (en_now en k) i w)))
           (\<lambda>r t. r = Inr () \<and> held_job i w t) s"
  using fenced_holds [OF assms(2,3), of "\<lambda>j. j\<lparr>ij_status := IJ_Running, ij_updated_at := n\<rparr>" for n]
  by (simp add: wp_query_quiet [OF assms(1)] on_jobs_def mark_ingestion_job_running_def affected_or_def
      held_job_def in_hand_def)

text \<open>
  C26. A claimed job does not stay in hand. Without interference and with a database that answers, the
  worker ends the job and closes its attempt, whatever the connector returns and whatever goes
  wrong in between; the exception is a panic, after which the worker is gone.
\<close>

theorem undisturbed_job_ends:
  assumes "undisturbed en" and "owns_attempt (ij_id job) w (wd_jobs (sn_world s))"
    and "list_ex (\<lambda>j. ij_id j = ij_id job \<and> ij_status j = IJ_Claimed) (db_jobs (wd_jobs (sn_world s)))"
  shows "case run_state (execute_job en ic False run w job) s of (alive, t) \<Rightarrow> alive \<longrightarrow> settled_job (ij_id job) w t"
proof -
  let ?i = "ij_id job"
  let ?P = "\<lambda>alive t. alive \<longrightarrow> settled_job ?i w t"
  have failed: "wp (do { best_effort (fail_job en ic ?i w err); State_Monad.return True }) ?P t"
    if "held_job ?i w t" for err t
    by (simp add: wp_simps) (rule fail_job_settles [OF assms(1) that])
  have finished: "wp (finish_job en ic job run w False r) ?P t" if "held_job ?i w t" for r t
  proof (cases "r = Inl Panicked")
    case True
    then show ?thesis by (simp add: finish_job_def wp_simps)
  next
    case False
    from finish_job_settles [OF assms(1) that False] show ?thesis by (rule wp_mono) simp
  qed
  have created: "wp (case c of
        Inl e \<Rightarrow> do { best_effort (fail_job en ic ?i w (''Cannot create provenance run: '' @ error_text e)); State_Monad.return True }
      | Inr _ \<Rightarrow> do { result \<leftarrow> run_ingestion en ic job run w; finish_job en ic job run w False result }) ?P t"
    if "held_job ?i w t" for c t
    using failed [OF that] wp_held_then [OF run_ingestion_jobs [OF assms(1)] that finished]
    by (cases c) (simp_all only: sum.case wp_bind)
  have "wp (execute_job en ic False run w job) ?P s"
    unfolding execute_job_def wp_bind
    by (rule wp_mono [OF mark_holds [OF assms]], elim conjE)
       (simp only: sum.case wp_bind, rule wp_held_then [OF open_run_jobs [OF assms(1)] _ created])
  then show ?thesis by (simp add: wp_def)
qed

section \<open>A delivered batch completes the job\<close>

definition delivers ::
    "ingest_ctx \<Rightarrow> ingestion_job \<Rightarrow> index_target \<Rightarrow> uuid \<Rightarrow> 'd world \<Rightarrow> raw_transaction list \<Rightarrow> bool" where
  "delivers ic job t run wd records \<longleftrightarrow>
     ij_target_id job = Some (it_id t) \<and> get_index_target (it_id t) (wd_targets wd) = Some t
     \<and> target_uses_connector_backfill t
     \<and> (\<exists>cx cursor cp. context_from_registry (ic_registry ic) (ij_network job) = Some cx
          \<and> backfill_cursor t (ij_mode job) (map_option cp_cursor (get_checkpoint_v2 (it_id t) (ij_network job)
               (connector_source (it_chain_family t)) (wd_bronze wd))) = Inr cursor
          \<and> ic_backfill ic cx t cursor (ac_ingest_limit (ic_config ic)) = Inr (records, cp))
     \<and> fresh_batch (first_by_key raw_key [] (map (stamp_run run) records)) (wd_bronze wd)"

lemma commit_batch_quiet:
  assumes "held_job (ij_id job) w s" "raws_distinct (sn_world s)" "fresh_batch rs (wd_bronze (sn_world s))"
  shows "fst (commit_batch en ic job t run w rs cp k (sn_world s)) = Inr ()"
proof -
  define cp' where "cp' = (case cp of Some c \<Rightarrow> Some c | None \<Rightarrow> derived_checkpoint (en_uuid en k) (en_now en k)
    (it_id t) (ij_network job) (connector_source (it_chain_family t)) rs)"
  obtain r br where b: "commit_connector_batch (ic_show_uuid ic) (en_mid en k) (en_uuid en k)
      (en_now en k) (wd_jobs (sn_world s)) t run rs cp' (ij_id job, w) (wd_bronze (sn_world s)) = (r, br)" by fastforce
  then have f: "fst (commit_batch en ic job t run w rs cp k (sn_world s)) = r"
    by (simp add: commit_batch_def cp'_def Let_def)
  note c = b [symmetric]
  have "lease_valid (ij_id job, w) (wd_jobs (sn_world s))"
    using assms(1) by (simp add: lease_valid_def held_job_def job_in_hand_def)
  then have "r = Inr ()"
    using commit_connector_batch_spec [OF _ c] assms(2,3) by (simp add: raws_distinct_def)
  with f show ?thesis by simp
qed

lemma run_ingestion_delivers:
  assumes q: "undisturbed en" and held: "held_job (ij_id job) w s" and d: "raws_distinct (sn_world s)"
    and "delivers ic job t run (sn_world s) records"
  shows "wp (run_ingestion en ic job run w) (\<lambda>r u. r = Inr (length records)) s"
proof -
  from assms(4) obtain cx cursor cp where h: "ij_target_id job = Some (it_id t)"
    "get_index_target (it_id t) (wd_targets (sn_world s)) = Some t" "target_uses_connector_backfill t"
    "context_from_registry (ic_registry ic) (ij_network job) = Some cx"
    "backfill_cursor t (ij_mode job) (map_option cp_cursor (get_checkpoint_v2 (it_id t) (ij_network job)
        (connector_source (it_chain_family t)) (wd_bronze (sn_world s)))) = Inr cursor"
    "ic_backfill ic cx t cursor (ac_ingest_limit (ic_config ic)) = Inr (records, cp)"
    and f: "fresh_batch (first_by_key raw_key [] (map (stamp_run run) records)) (wd_bronze (sn_world s))"
    by (auto simp: delivers_def)
  note c = commit_batch_quiet [OF held d f, of en ic t run cp]
  show ?thesis
    unfolding run_ingestion_connector run_connector_backfill_def Let_def
    using h c by (simp add: wp_simps wp_query_quiet [OF q] reading_def split_beta)
qed

lemma complete_job_completes:
  assumes "undisturbed en" "held_job i w s"
  shows "wp (complete_job en ic i w) (\<lambda>_ t. job_completed i (wd_jobs (sn_world t))) s"
proof -
  have "job_completed i (snd (complete_stmt (en_now en k) i w (wd_jobs (sn_world s))))" for k
  proof -
    obtain j where j: "j \<in> set (db_jobs (wd_jobs (sn_world s)))" "ij_id j = i" "in_hand (ij_status j)"
      using assms(2) by (auto simp: held_job_def job_in_hand_def list_ex_iff)
    let ?g = "\<lambda>j. j\<lparr>ij_status := IJ_Completed, ij_updated_at := en_now en k\<rparr>"
    have "?g j \<in> set (db_jobs (update_jobs i (\<lambda>j. if in_hand (ij_status j) then ?g j else j) (wd_jobs (sn_world s))))"
      using j by (force simp: update_jobs_def)
    then have "job_completed i (update_jobs i (\<lambda>j. if in_hand (ij_status j) then ?g j else j) (wd_jobs (sn_world s)))"
      unfolding job_completed_def list_ex_iff by (rule bexI [rotated]) (simp add: j(2))
    with assms(2) show ?thesis
      by (simp add: complete_stmt_def fenced_update_def Let_def held_job_def job_in_hand_def)
  qed
  then show ?thesis
    by (simp add: complete_job_def wp_simps wp_query_quiet [OF assms(1)] on_jobs_def affected_or_def close_attempt_def)
qed

lemma finish_job_completes:
  assumes q: "undisturbed en" and held: "held_job (ij_id job) w s"
  shows "wp (finish_job en ic job run w False (Inr n)) (\<lambda>_ t. job_completed (ij_id job) (wd_jobs (sn_world t))) s"
proof -
  let ?C = "\<lambda>_ t. job_completed (ij_id job) (wd_jobs (sn_world t))"
  have after: "wp m ?C t" if "complies same_jobs m" "?C () t" for m :: "('a world session, 'b) state" and t
    using that unfolding complies_def by (auto simp: same_jobs_def intro: wp_mono)
  have post: "wp (case c of Inl _ \<Rightarrow> skip | Inr _ \<Rightarrow> post_ingest_materialization en ic job run)
      (\<lambda>_. wp (job_callback ic job st msg) ?C) t" if "?C () t" for c :: "fault + unit" and t st msg
  proof -
    have "complies same_jobs (case c of Inl _ \<Rightarrow> skip | Inr _ \<Rightarrow> post_ingest_materialization en ic job run)"
      by (intro complies_branches same_jobs.skip post_ingest_jobs [OF q])
    from after [OF this that] show ?thesis by (rule wp_mono) (rule after [OF job_callback_jobs])
  qed
  have "wp (complete_job en ic (ij_id job) w) (\<lambda>c. wp (case c of Inl _ \<Rightarrow> skip | Inr _ \<Rightarrow> post_ingest_materialization en ic job run)
      (\<lambda>_. wp (job_callback ic job st msg) ?C)) t" if "held_job (ij_id job) w t" for t st msg
    using complete_job_completes [OF q that] by (rule wp_mono) (rule post)
  then show ?thesis
    unfolding finish_job_def Let_def
    by (simp add: wp_bind wp_return) (rule wp_held_then [OF update_run_jobs [OF q] held])
qed

lemma delivered_completes:
  assumes "undisturbed en" and "owns_attempt (ij_id job) w (wd_jobs (sn_world s))"
    and "list_ex (\<lambda>j. ij_id j = ij_id job \<and> ij_status j = IJ_Claimed) (db_jobs (wd_jobs (sn_world s)))"
    and "raws_distinct (sn_world s)" and "run \<notin> ir_id ` set (br_runs (wd_bronze (sn_world s)))"
    and "delivers ic job t run (sn_world s) records"
  shows "job_completed (ij_id job) (wd_jobs (sn_world (snd (run_state (execute_job en ic False run w job) s))))"
proof -
  let ?C = "\<lambda>_ t. job_completed (ij_id job) (wd_jobs (sn_world t))"
  note q = assms(1)
  have finished: "wp (run_ingestion en ic job run w) (\<lambda>r. wp (finish_job en ic job run w False r) ?C) u"
    if held: "held_job (ij_id job) w u" and "raws_distinct (sn_world u)" "delivers ic job t run (sn_world u) records" for u
  proof -
    have "wp (run_ingestion en ic job run w) (\<lambda>r v. r = Inr (length records) \<and> held_job (ij_id job) w v) u"
      using run_ingestion_delivers [OF q that] wp_held_then [OF run_ingestion_jobs [OF q] held, of "\<lambda>_. held_job (ij_id job) w"]
      by (simp add: wp_conj)
    then show ?thesis by (rule wp_mono) (use finish_job_completes [OF q] in auto)
  qed
  have opened: "wp (query en (open_run en run job)) (\<lambda>c u. c = Inr () \<and> held_job (ij_id job) w u
      \<and> raws_distinct (sn_world u) \<and> delivers ic job t run (sn_world u) records) u"
    if "held_job (ij_id job) w u" "wd_bronze (sn_world u) = wd_bronze (sn_world s)"
      "wd_targets (sn_world u) = wd_targets (sn_world s)" for u
    using that assms(4-6)
    by (simp add: wp_query_quiet [OF q] open_run_def create_ingestion_run_def new_run_def held_job_def
        raws_distinct_def delivers_def get_checkpoint_v2_def fresh_batch_def)
  have marked: "wp (query en (on_jobs (\<lambda>k. mark_ingestion_job_running (ic_show_uuid ic) (en_now en k) (ij_id job) w)))
      (\<lambda>r u. r = Inr () \<and> held_job (ij_id job) w u \<and> wd_bronze (sn_world u) = wd_bronze (sn_world s)
        \<and> wd_targets (sn_world u) = wd_targets (sn_world s)) s"
    using mark_holds [OF assms(1-3), of "ic_show_uuid ic"]
    by (simp add: wp_query_quiet [OF q] on_jobs_def split: prod.splits)
  have "wp (execute_job en ic False run w job) ?C s"
    unfolding execute_job_def wp_bind
    apply (rule wp_mono [OF marked], elim conjE)
    apply (simp only: sum.case wp_bind)
    apply (rule wp_mono [OF opened], assumption+, elim conjE)
    apply (simp only: sum.case wp_bind)
    by (rule finished)
  then show ?thesis by (simp add: wp_def split_beta)
qed

text \<open>
  A job whose connector delivers is completed: the worker holds it, the target and the network are
  configured, and the batch is new. Nothing of that is needed for the job to end, only for it to
  end well.
\<close>

theorem delivered_job_completes:
  assumes "undisturbed en" and "owns_attempt (ij_id job) w (wd_jobs (sn_world s))"
    and "list_ex (\<lambda>j. ij_id j = ij_id job \<and> ij_status j = IJ_Claimed) (db_jobs (wd_jobs (sn_world s)))"
    and "raws_distinct (sn_world s)" and "run \<notin> ir_id ` set (br_runs (wd_bronze (sn_world s)))"
    and "delivers ic job t run (sn_world s) records"
  shows "job_completed (ij_id job) (wd_jobs (sn_world (snd (run_state (execute_job en ic False run w job) s))))"
  using assms by (rule delivered_completes)

definition sample_run_job :: ingestion_job where
  "sample_run_job = (new_job 7 0 (sample_params\<lparr>ep_target_id := Some 9\<rparr>))\<lparr>ij_status := IJ_Claimed\<rparr>"

definition sample_world :: "int world" where
  "sample_world = \<lparr>wd_jobs = \<lparr>db_jobs = [sample_run_job], db_attempts = [new_attempt 0 8 ''a'' 7 1]\<rparr>,
     wd_targets = [sample_target], wd_bronze = empty_bronze,
     wd_legacy = \<lparr>v1_transactions = [], v1_entries = [], v1_checkpoints = []\<rparr>, wd_subs = []\<rparr>"

definition sample_session :: "int world session" where
  "sample_session = \<lparr>sn_world = sample_world, sn_clock = 0, sn_sent = []\<rparr>"

definition sample_ctx :: ingest_ctx where
  "sample_ctx = \<lparr>ic_config = default_app_config,
     ic_registry = \<lparr>pr_providers = [], pr_enabled_networks = [(''solana-mainnet'', \<lparr>nc_enabled = True\<rparr>)]\<rparr>,
     ic_show_uuid = (\<lambda>_. []), ic_parse_uuid = (\<lambda>_. None), ic_fresh_user = 0, ic_v5 = (\<lambda>_ _. 0),
     ic_backfill = (\<lambda>_ _ _ _. Inr ([sample_raw], None)), ic_history = (\<lambda>_ _ _ _ _. Inr []),
     ic_net = sample_env, ic_dns = (\<lambda>_. Inr []), ic_sign = (\<lambda>_ _. [])\<rparr>"

lemma sample_claimed:
  "owns_attempt (ij_id sample_run_job) ''a'' (wd_jobs (sn_world sample_session))"
  "list_ex (\<lambda>j. ij_id j = ij_id sample_run_job \<and> ij_status j = IJ_Claimed) (db_jobs (wd_jobs (sn_world sample_session)))"
  "raws_distinct (sn_world sample_session)" "30 \<notin> ir_id ` set (br_runs (wd_bronze (sn_world sample_session)))"
  "\<not> job_completed (ij_id sample_run_job) (wd_jobs (sn_world sample_session))"
  by (simp_all add: sample_session_def sample_world_def sample_run_job_def owns_attempt_def new_attempt_def new_job_def
      raws_distinct_def empty_bronze_def job_completed_def)

lemma sample_delivers: "delivers sample_ctx sample_run_job sample_target 30 (sn_world sample_session) [sample_raw]"
  by (simp add: delivers_def sample_ctx_def sample_session_def sample_world_def sample_run_job_def new_job_def
      sample_params_def sample_target_def get_index_target_def target_uses_connector_backfill_def
      context_from_registry_def is_network_enabled_def backfill_cursor_def get_checkpoint_v2_def empty_bronze_def
      fresh_batch_def)

theorem delivered_job_completes_witness:
  "job_completed 7 (wd_jobs (sn_world (snd (run_state (execute_job undisturbed_env sample_ctx False 30 ''a'' sample_run_job) sample_session))))"
  using delivered_job_completes [OF quiet_sample sample_claimed(1-4) sample_delivers]
  by (simp add: sample_run_job_def new_job_def)

theorem undisturbed_job_ends_witness:
  "case run_state (execute_job undisturbed_env sample_ctx False 30 ''a'' sample_run_job) sample_session of
     (alive, t) \<Rightarrow> alive \<longrightarrow> settled_job 7 ''a'' t"
  using undisturbed_job_ends [OF quiet_sample sample_claimed(1,2), of sample_ctx 30]
  by (simp add: sample_run_job_def new_job_def)

lemma quiet_env_keeps: "env_keeps undisturbed_env" "env_leaves_open i undisturbed_env"
  by (simp_all add: env_keeps_def env_leaves_open_def undisturbed_env_def bronze_kept.refl not_completing.refl)

theorem completed_job_is_stored_witness:
  "case run_state (execute_job undisturbed_env sample_ctx False 30 ''a'' sample_run_job) sample_session of (_, t) \<Rightarrow>
     job_completed (ij_id sample_run_job) (wd_jobs (sn_world t))
     \<and> fetched_and_stored sample_ctx sample_run_job 30 (sn_world t)"
proof -
  have "job_completed (ij_id sample_run_job)
      (wd_jobs (sn_world (snd (run_state (execute_job undisturbed_env sample_ctx False 30 ''a'' sample_run_job) sample_session))))"
    by (rule delivered_completes [OF quiet_sample sample_claimed(1-4) sample_delivers])
  then show ?thesis
    using completed_job_is_stored [OF quiet_env_keeps(1) quiet_env_keeps(2) sample_claimed(3) sample_claimed(5),
      where ic = sample_ctx and lost = False and run = 30 and w = "''a''"] by (simp add: split_beta)
qed

end
