(* ===== verification/Materialize_Worker.thy ===== *)
theory Materialize_Worker
  imports Ingestion_Worker Materialize
begin

text \<open>
  The materialization worker (\<open>api/src/materialize_worker.rs\<close>): claiming the queued runs, checking
  that the ingestion run of the scope belongs to the wallet of the scope, materializing its raw
  transactions, and the terminal bookkeeping with completeness rows and watermark.

  \<open>lost k\<close> is the state of the lease token at the \<open>k\<close>-th statement. The statements of one
  materialization run without interference between them; the rest of the worker interleaves with
  every other session. The raw transactions and the targets are those of the dataset tables.
\<close>

section \<open>Tables and surroundings\<close>

record 'd mat_world =
  mw_etl :: runs
  mw_ingestion_runs :: "ingestion_run list"
  mw_links :: "(uuid \<times> uuid) list"
  mw_db :: "'d mat_db"
  mw_marks :: "dataset_watermark list"

record 'd mat_ctx =
  mc_mat :: "nat \<Rightarrow> 'd mat_env"
  mc_permit :: "nat \<Rightarrow> bool"
  mc_show_uuid :: "uuid \<Rightarrow> string"
  mc_parse_uuid :: "string \<Rightarrow> uuid option"
  mc_secret :: "string option"
  mc_net :: net_env
  mc_dns :: "string \<Rightarrow> ip_addr list result"
  mc_send :: "nat \<Rightarrow> send_result"
  mc_sign :: "string \<Rightarrow> json \<Rightarrow> string"

definition on_etl ::
    "(nat \<Rightarrow> runs \<Rightarrow> 'a result \<times> runs) \<Rightarrow> nat \<Rightarrow> 'd mat_world \<Rightarrow> 'a result \<times> 'd mat_world" where
  "on_etl f k wd = (case f k (mw_etl wd) of (r, rows) \<Rightarrow> (r, wd\<lparr>mw_etl := rows\<rparr>))"

text \<open>What the worker sees between two statements: a semaphore, a token, a clock.\<close>

definition observe :: "(nat \<Rightarrow> 'a) \<Rightarrow> ('w session, 'a) state" where
  "observe f = State (\<lambda>s. (f (sn_clock s), s))"

definition targets_of :: "'d mat_world \<Rightarrow> targets" where
  "targets_of wd = db_targets (md_db (mw_db wd))"

definition get_raw_transactions_by_run :: "uuid \<Rightarrow> 'd mat_world \<Rightarrow> raw_transaction list" where
  "get_raw_transactions_by_run run wd =
     sort_key raw_timestamp (sort_key raw_id
       (filter (\<lambda>r. raw_ingestion_run_id r = Some run \<or> (run, raw_id r) \<in> set (mw_links wd)) (db_raws (md_db (mw_db wd)))))"

section \<open>The scope of a run\<close>

record materialization_scope =
  ms_wallet :: string
  ms_network :: "string option"
  ms_callback_url :: "string option"
  ms_ingestion_run_id :: "uuid option"

definition optional_scope_string :: "json \<Rightarrow> string \<Rightarrow> string option" where
  "optional_scope_string scope key = Option.bind (json_get scope key) json_as_str"

definition parse_materialization_scope :: "(string \<Rightarrow> uuid option) \<Rightarrow> json \<Rightarrow> materialization_scope result" where
  "parse_materialization_scope pu scope =
     (case optional_scope_string scope ''wallet'' of
        None \<Rightarrow> Inl ''missing or empty wallet in scope''
      | Some wallet \<Rightarrow>
          if wallet = [] then Inl ''missing or empty wallet in scope''
          else case (case json_get scope ''ingestion_run_id'' of
              None \<Rightarrow> Inr None
            | Some v \<Rightarrow> (case Option.bind (json_as_str v) pu of
                  Some u \<Rightarrow> Inr (Some u) | None \<Rightarrow> Inl ''invalid ingestion_run_id in scope'')) of
            Inl e \<Rightarrow> Inl e
          | Inr run \<Rightarrow> Inr \<lparr>ms_wallet = wallet, ms_network = optional_scope_string scope ''network'',
              ms_callback_url = optional_scope_string scope ''callback_url'', ms_ingestion_run_id = run\<rparr>)"

text \<open>Addresses of EVM chains are compared without regard to case.\<close>

definition addrs_match :: "string \<Rightarrow> string \<Rightarrow> bool" where
  "addrs_match a b \<longleftrightarrow>
     (if starts_with a ''0x'' \<or> starts_with a ''0X'' then eq_ignore_ascii_case a b else a = b)"

section \<open>Claiming\<close>

definition fail_run ::
    "'d mat_world env \<Rightarrow> 'd mat_ctx \<Rightarrow> uuid \<Rightarrow> worker \<Rightarrow> string \<Rightarrow> ('d mat_world, unit) prog" where
  "fail_run en mc run w err =
     query en (on_etl (\<lambda>k. fail_materialization_run (mc_show_uuid mc) (en_now en k) run w err))"

definition scope_of_run :: "'d mat_ctx \<Rightarrow> materialization_run \<Rightarrow> materialization_scope result" where
  "scope_of_run mc r = (case mr_scope r of
     None \<Rightarrow> Inl ''missing scope'' | Some v \<Rightarrow> parse_materialization_scope (mc_parse_uuid mc) v)"

text \<open>The tasks that are spawned, in the order of the runs; without a permit the round ends.\<close>

fun claim_runs ::
    "'d mat_world env \<Rightarrow> 'd mat_ctx \<Rightarrow> worker \<Rightarrow> runs \<Rightarrow>
     ('d mat_world session, (uuid \<times> materialization_scope) list) state" where
  "claim_runs en mc w [] = State_Monad.return []"
| "claim_runs en mc w (r # rs) =
     do { permit \<leftarrow> observe (mc_permit mc);
          (if \<not> permit then State_Monad.return []
           else do { claimed \<leftarrow> query en (on_etl (\<lambda>k rows.
                       case claim_materialization_run (en_now en k) (mr_id r) w rows of (c, rows') \<Rightarrow> (Inr c, rows')));
                     (if claimed \<noteq> Inr True then claim_runs en mc w rs
                      else case scope_of_run mc r of
                          Inl e \<Rightarrow> do { best_effort (fail_run en mc (mr_id r) w e); claim_runs en mc w rs }
                        | Inr sc \<Rightarrow> do { ts \<leftarrow> claim_runs en mc w rs; State_Monad.return ((mr_id r, sc) # ts) }) }) }"

definition materialize_worker_tick ::
    "'d mat_world env \<Rightarrow> 'd mat_ctx \<Rightarrow> worker \<Rightarrow> ('d mat_world session, (uuid \<times> materialization_scope) list) state" where
  "materialize_worker_tick en mc w =
     do { listed \<leftarrow> query en (\<lambda>k wd. (Inr (list_claimable_materialization_runs (en_now en k) 5 (mw_etl wd)), wd));
          (case listed of Inl _ \<Rightarrow> State_Monad.return [] | Inr rs \<Rightarrow> claim_runs en mc w rs) }"

section \<open>Normalization\<close>

text \<open>The call of \<open>materialize_silver_from_bronze\<close>, which returns its failures as counts.\<close>

definition materialize_batch ::
    "('d :: linordered_idom) mat_world env \<Rightarrow> 'd mat_ctx \<Rightarrow> raw_transaction list \<Rightarrow> string \<Rightarrow> uuid \<Rightarrow>
     ('d mat_world, bronze_silver_result) prog" where
  "materialize_batch en mc raws wallet tid = State (\<lambda>s.
     let k = sn_clock s; wd = en_others en k (sn_world s)
     in case materialize_silver_from_bronze (mc_mat mc k) raws (Some wallet) (Some tid) (mw_db wd) of
          (res, db) \<Rightarrow> (case res of None \<Rightarrow> Inl Panicked | Some r \<Rightarrow> Inr r,
                        s\<lparr>sn_clock := Suc k, sn_world := wd\<lparr>mw_db := db\<rparr>\<rparr>))"

definition execute_normalize ::
    "('d :: linordered_idom) mat_world env \<Rightarrow> 'd mat_ctx \<Rightarrow> (nat \<Rightarrow> bool) \<Rightarrow> string \<Rightarrow> uuid option \<Rightarrow>
     ('d mat_world, bronze_silver_result) prog" where
  "execute_normalize en mc lost wallet ingestion_run_id =
     (let us = mc_show_uuid mc in
      case ingestion_run_id of
        None \<Rightarrow> bail ''normalize requires an ingestion_run_id; enqueue a materialization run from an ingestion job or stream flush''
      | Some run \<Rightarrow>
          attempt (query en (reading (\<lambda>wd. get_ingestion_run run (mw_ingestion_runs wd)))) (\<lambda>found.
          attempt (ok_or (''ingestion_run '' @ us run @ '' not found'') found) (\<lambda>irun.
          attempt (ok_or (''ingestion_run '' @ us run @ '' has no target_id'') (ir_target_id irun)) (\<lambda>tid.
          attempt (query en (reading (\<lambda>wd. get_index_target tid (targets_of wd)))) (\<lambda>found_target.
          attempt (ok_or (''index_target '' @ us tid @ '' for ingestion_run '' @ us run @ '' not found'') found_target) (\<lambda>target.
          if it_kind target \<noteq> TK_Wallet
          then bail (''ingestion_run '' @ us run @ '' belongs to non-wallet target '' @ us tid @ '' ('' @ target_kind_debug (it_kind target) @ '')'')
          else if it_network target \<noteq> ir_network irun
          then bail (''ingestion_run '' @ us run @ '' network '' @ ir_network irun @ '' does not match target '' @ us tid
                 @ '' network '' @ it_network target)
          else
          attempt (ok_or (''index_target '' @ us tid @ '' for ingestion_run '' @ us run @ '' has no address'') (it_address target)) (\<lambda>addr.
          if addr = []
          then bail (''index_target '' @ us tid @ '' for ingestion_run '' @ us run @ '' has empty address'')
          else if \<not> addrs_match addr wallet
          then bail (''ingestion_run '' @ us run @ '' belongs to target wallet '' @ addr @ '', not '' @ wallet)
          else
          attempt (query en (reading (get_raw_transactions_by_run run))) (\<lambda>raws.
          if raws = [] then State_Monad.return (Inr default_bsr)
          else do { gone \<leftarrow> observe lost;
                    (if gone then bail ''lease lost before persisting side effects''
                     else attempt (materialize_batch en mc raws addr tid) (\<lambda>res.
                       if all_succeeded res then State_Monad.return (Inr res)
                       else bail (''Materialization failed for '' @ show_nat (bsr_total_failed res)
                              @ '' records; retry normalization using this ingestion run''))) }))))))))"

section \<open>Completeness and watermark\<close>

text \<open>\<open>me_strings\<close> is the iteration order of the hash map of the counts.\<close>

definition per_dataset_counts :: "'d mat_env \<Rightarrow> bronze_silver_result \<Rightarrow> (string \<times> nat) list" where
  "per_dataset_counts me res =
     List.map_filter (\<lambda>name. map_option (Pair name) (bsr_per_dataset res name)) (me_strings me (map as_sql_str silver_materializable))"

definition dataset_completeness_for_ingestion_run ::
    "'d mat_env \<Rightarrow> ingestion_run \<Rightarrow> bronze_silver_result \<Rightarrow> dataset_completeness list option" where
  "dataset_completeness_for_ingestion_run me irun res =
     (case ir_target_id irun of
        None \<Rightarrow> None
      | Some tid \<Rightarrow> Some (map (\<lambda>(i, name, n).
          \<lparr>dc_id = me_id me ''dataset_completeness'' i, dc_target_id = tid, dc_dataset_name = name,
           dc_dataset_version_id = None, dc_network = ir_network irun,
           dc_status = (if all_succeeded res then CS_Complete else CS_Partial),
           dc_coverage_start = bsr_coverage_start res, dc_coverage_end = bsr_coverage_end res,
           dc_block_start = None, dc_block_end = None, dc_last_ingestion_run_id = Some (ir_id irun),
           dc_records_count = usize_to_i64_or_max n, dc_gap_ranges = None,
           dc_notes = Some (''Processing status covers this run'' @ [CHR 0x27] @ ''s indexed inputs, not complete chain history ''
             @ ''or complete protocol decoding.''),
           dc_created_at = me_now me, dc_updated_at = me_now me\<rparr>)
        (enumerate 0 (per_dataset_counts me res))))"

definition on_completeness ::
    "(dataset_completeness list \<Rightarrow> dataset_completeness list result) \<Rightarrow> nat \<Rightarrow> 'd mat_world \<Rightarrow> unit result \<times> 'd mat_world" where
  "on_completeness f k wd = (case f (md_completeness (mw_db wd)) of
     Inl e \<Rightarrow> (Inl e, wd) | Inr dcs \<Rightarrow> (Inr (), wd\<lparr>mw_db := (mw_db wd)\<lparr>md_completeness := dcs\<rparr>\<rparr>))"

fun record_completeness ::
    "'d mat_world env \<Rightarrow> dataset_completeness list \<Rightarrow> ('d mat_world session, unit) state" where
  "record_completeness en [] = skip"
| "record_completeness en (dc # dcs) =
     do { best_effort (query en (on_completeness (upsert_dataset_completeness dc))); record_completeness en dcs }"

text \<open>The wallet and the network under which the watermark is kept come from the target of the run.\<close>

definition watermark_owner ::
    "'d mat_world env \<Rightarrow> ingestion_run \<Rightarrow> ('d mat_world session, (string \<times> string) option) state" where
  "watermark_owner en irun =
     (case ir_target_id irun of
        None \<Rightarrow> State_Monad.return None
      | Some tid \<Rightarrow> do { found \<leftarrow> query en (reading (\<lambda>wd. get_index_target tid (targets_of wd)));
                        State_Monad.return (case found of
                          Inr (Some target) \<Rightarrow> map_option (\<lambda>a. (a, ir_network irun)) (it_address target)
                        | _ \<Rightarrow> None) })"

definition watermark_scope :: "string \<Rightarrow> string \<Rightarrow> json" where
  "watermark_scope wallet network = JObject [(''network'', JString network), (''wallet'', JString wallet)]"

definition run_starts :: "ingestion_run list \<Rightarrow> uuid \<rightharpoonup> timestamp" where
  "run_starts rows i = map_option ir_started_at (get_ingestion_run i rows)"

definition advance_watermark ::
    "'d mat_world env \<Rightarrow> string \<Rightarrow> string \<Rightarrow> uuid \<Rightarrow> uuid option \<Rightarrow> ('d mat_world session, unit) state" where
  "advance_watermark en wallet network run raw =
     best_effort (query en (\<lambda>k wd. (Inr (), wd\<lparr>mw_marks :=
       upsert_dataset_watermark (en_uuid en k) (en_now en k) (run_starts (mw_ingestion_runs wd)) ''normalize''
         (Some (watermark_scope wallet network)) (Some run) raw (mw_marks wd)\<rparr>)))"

definition record_progress ::
    "'d mat_world env \<Rightarrow> 'd mat_ctx \<Rightarrow> uuid \<Rightarrow> bronze_silver_result \<Rightarrow> ('d mat_world session, unit) state" where
  "record_progress en mc run res =
     do { found \<leftarrow> query en (reading (\<lambda>wd. get_ingestion_run run (mw_ingestion_runs wd)));
          resolved \<leftarrow> (case found of
              Inr (Some irun) \<Rightarrow>
                do { me \<leftarrow> observe (mc_mat mc);
                     (case dataset_completeness_for_ingestion_run me irun res of
                        Some dcs \<Rightarrow> record_completeness en dcs | None \<Rightarrow> skip);
                     watermark_owner en irun }
            | _ \<Rightarrow> State_Monad.return None);
          (if \<not> all_succeeded res then skip
           else case resolved of
               Some (wallet, network) \<Rightarrow> advance_watermark en wallet network run (bsr_last_raw_transaction_id res)
             | None \<Rightarrow> skip) }"

section \<open>The terminal statements\<close>

text \<open>The result is what the callback reports, if anything.\<close>

definition settle_run ::
    "'d mat_world env \<Rightarrow> 'd mat_ctx \<Rightarrow> worker \<Rightarrow> uuid \<Rightarrow> uuid option \<Rightarrow> fault + bronze_silver_result \<Rightarrow>
     ('d mat_world session, (string \<times> string) option) state" where
  "settle_run en mc w run ingestion_run_id result =
     (case result of
        Inr res \<Rightarrow>
          do { completed \<leftarrow> query en (on_etl (\<lambda>k. complete_materialization_run (mc_show_uuid mc) (en_now en k) run w
                 (usize_to_i64_or_max (bsr_total_written res))));
               (case completed of
                  Inl _ \<Rightarrow> State_Monad.return None
                | Inr _ \<Rightarrow>
                    do { (case ingestion_run_id of Some i \<Rightarrow> record_progress en mc i res | None \<Rightarrow> skip);
                         State_Monad.return (Some (''completed'',
                           ''Materialized '' @ show_nat (bsr_total_written res) @ '' Silver records'')) }) }
      | Inl e \<Rightarrow>
          if contains_str (error_text e) ''lease lost'' then State_Monad.return None
          else do { failed \<leftarrow> fail_run en mc run w (error_text e);
                    State_Monad.return (case failed of Inr _ \<Rightarrow> Some (''failed'', error_text e) | Inl _ \<Rightarrow> None) })"

definition run_callback ::
    "'d mat_ctx \<Rightarrow> uuid \<Rightarrow> materialization_scope \<Rightarrow> string \<times> string \<Rightarrow> ('d mat_world session, unit) state" where
  "run_callback mc run sc outcome =
     (case ms_callback_url sc of
        None \<Rightarrow> skip
      | Some u \<Rightarrow>
          (let payload = JObject [(''job_id'', JString (mc_show_uuid mc run)), (''state'', JString (fst outcome)),
                 (''wallet'', JString (ms_wallet sc)), (''message'', JString (snd outcome))]
           in State (\<lambda>s. ((), s\<lparr>sn_sent := sn_sent s @ List.map_filter (\<lambda>e. case e of
                  Post cl \<Rightarrow> Some \<lparr>dl_client = cl, dl_payload = payload,
                    dl_signature = map_option (\<lambda>key. ''sha256='' @ mc_sign mc key payload) (mc_secret mc)\<rparr>
                | Sleep _ \<Rightarrow> None) (fire_callback (mc_net mc) (mc_dns mc) (mc_send mc) u)\<rparr>))))"

definition panicked :: "fault + 'a \<Rightarrow> bool" where
  "panicked r \<longleftrightarrow> (case r of Inl Panicked \<Rightarrow> True | _ \<Rightarrow> False)"

text \<open>The spawned task. A panic ends it where it happens, with the heartbeat task running on.\<close>

definition materialization_task ::
    "('d :: linordered_idom) mat_world env \<Rightarrow> 'd mat_ctx \<Rightarrow> (nat \<Rightarrow> bool) \<Rightarrow> worker \<Rightarrow> uuid \<Rightarrow> materialization_scope \<Rightarrow>
     ('d mat_world session, unit) state" where
  "materialization_task en mc lost w run sc =
     do { result \<leftarrow> execute_normalize en mc lost (ms_wallet sc) (ms_ingestion_run_id sc);
          (if panicked result then skip
           else do { gone \<leftarrow> observe lost;
                     (if gone then skip
                      else do { outcome \<leftarrow> settle_run en mc w run (ms_ingestion_run_id sc) result;
                                (case outcome of Some oc \<Rightarrow> run_callback mc run sc oc | None \<Rightarrow> skip) }) }) }"

section \<open>What the worker keeps\<close>

text \<open>
  \<open>progress i\<close>: what is read for the ingestion run \<open>i\<close> stays (it is finished when it is materialized), and the
  Silver tables grow.
\<close>

definition target_of_run :: "uuid \<Rightarrow> 'd mat_world \<Rightarrow> index_target option" where
  "target_of_run i wd = Option.bind (get_ingestion_run i (mw_ingestion_runs wd))
     (\<lambda>irun. Option.bind (ir_target_id irun) (\<lambda>tid. get_index_target tid (targets_of wd)))"

definition run_inputs :: "uuid \<Rightarrow> 'd mat_world \<Rightarrow> ingestion_run option \<times> index_target option \<times> raw_transaction list" where
  "run_inputs i wd = (get_ingestion_run i (mw_ingestion_runs wd), target_of_run i wd, get_raw_transactions_by_run i wd)"

definition silver_of :: "'d mat_world \<Rightarrow> 'd dataset_db" where
  "silver_of wd = md_db (mw_db wd)"

definition progress :: "uuid \<Rightarrow> 'd mat_world \<Rightarrow> 'd mat_world \<Rightarrow> bool" where
  "progress i wd wd' \<longleftrightarrow> run_inputs i wd' = run_inputs i wd \<and> silver_extends (silver_of wd) (silver_of wd')"

lemma silver_extends_refl [simp]: "silver_extends d d"
  by (simp add: silver_extends_def)

lemma silver_extends_trans: "silver_extends u v \<Longrightarrow> silver_extends v w \<Longrightarrow> silver_extends u w"
  unfolding silver_extends_def by (elim conjE) (intro conjI; erule (1) prefix_order.trans)

lemma prefix_keys: "prefix xs ys \<Longrightarrow> K \<subseteq> key ` set xs \<Longrightarrow> K \<subseteq> key ` set ys"
  by (auto simp: prefix_def)

lemma covers_extends: "silver_covers b d \<Longrightarrow> silver_extends d d' \<Longrightarrow> silver_covers b d'"
  unfolding silver_covers_def silver_extends_def by (elim conjE) (intro conjI; erule (1) prefix_keys)

interpretation progress: guarantee "progress i" for i
proof
  show "progress i w w" for w :: "'a mat_world" by (simp add: progress_def)
  show "progress i u w" if "progress i u v" "progress i v w" for u v w :: "'a mat_world"
    using that silver_extends_trans unfolding progress_def by metis
qed

lemma progress_etl [simp]: "progress i w (w\<lparr>mw_etl := rows\<rparr>)"
  by (simp add: progress_def run_inputs_def target_of_run_def targets_of_def get_raw_transactions_by_run_def silver_of_def)

lemma progress_marks [simp]: "progress i w (w\<lparr>mw_marks := marks\<rparr>)"
  by (simp add: progress_def run_inputs_def target_of_run_def targets_of_def get_raw_transactions_by_run_def silver_of_def)

lemma progress_db:
  assumes "db_targets (md_db db) = targets_of w" "db_raws (md_db db) = db_raws (silver_of w)"
    and "silver_extends (silver_of w) (md_db db)"
  shows "progress i w (w\<lparr>mw_db := db\<rparr>)"
  using assms by (simp add: progress_def run_inputs_def target_of_run_def targets_of_def get_raw_transactions_by_run_def silver_of_def)

text \<open>Materialization reads the targets and the raw transactions and does not write them.\<close>

definition input_tables :: "'d dataset_db \<Rightarrow> targets \<times> raw_transaction list" where
  "input_tables d = (db_targets d, db_raws d)"

lemma gold_steps_inputs:
  "input_tables (md_db (snd (gold_ledger_step env versions wallet raws s st))) = input_tables (md_db (snd st))"
  "input_tables (md_db (snd (gold_balance_step env versions wallet raws s st))) = input_tables (md_db (snd st))"
  "input_tables (md_db (snd (gold_pnl_step env versions wallet fills funding st))) = input_tables (md_db (snd st))"
  "input_tables (md_db (snd (gold_trade_step env versions wallet fills st))) = input_tables (md_db (snd st))"
  "input_tables (md_db (snd (gold_protocol_step env versions raws events st))) = input_tables (md_db (snd st))"
  "input_tables (md_db (snd (gold_pool_step env versions events st))) = input_tables (md_db (snd st))"
  by (cases st; simp add: gold_ledger_step_def gold_balance_step_def gold_pnl_step_def gold_trade_step_def gold_protocol_step_def
      gold_pool_step_def input_tables_def Let_def split: prod.split sum.split option.split)+

lemma gold_inputs: "input_tables (md_db (snd (materialize_gold_from_silver env raws wallet s events target db))) = input_tables (md_db db)"
  by (simp add: materialize_gold_from_silver_def Let_def gold_steps_inputs case_prod_unfold split: sum.split)

lemma write_silver_inputs: "input_tables (fst (write_silver env b d res)) = input_tables d"
  by (simp add: write_silver_def input_tables_def case_prod_unfold Let_def)

lemma materialize_inputs:
  "input_tables (md_db (snd (materialize_silver_from_bronze env raws wallet target db))) = input_tables (md_db db)"
proof (cases "silver_of_raws env (case wallet of Some w \<Rightarrow> w | None \<Rightarrow> []) raws")
  case None
  then show ?thesis by (simp add: materialize_silver_from_bronze_def case_prod_unfold Let_def)
next
  case (Some b)
  then show ?thesis
    by (simp add: materialize_silver_from_bronze_def case_prod_unfold Let_def gold_inputs write_silver_inputs
        del: option.case_distrib)
qed

lemma materialize_progress: "progress i w (w\<lparr>mw_db := snd (materialize_silver_from_bronze env raws wallet target (mw_db w))\<rparr>)"
  using materialize_inputs [of env raws wallet target "mw_db w"] materialize_extends [of "mw_db w" env raws wallet target]
  by (intro progress_db) (simp_all add: input_tables_def targets_of_def silver_of_def)

lemma completeness_progress: "progress i w (snd (on_completeness f k w))"
  by (auto simp: on_completeness_def progress.refl targets_of_def silver_of_def intro: progress_db split: sum.split)

subsection \<open>Programs\<close>

definition env_progresses :: "uuid \<Rightarrow> 'd mat_world env \<Rightarrow> bool" where
  "env_progresses i en \<longleftrightarrow> (\<forall>k w. progress i w (en_others en k w))"

lemma progress_query: "env_progresses i en \<Longrightarrow> (\<And>k w. progress i w (snd (f k w))) \<Longrightarrow> complies (progress i) (query en f)"
  by (intro progress.query) (auto simp: env_progresses_def)

lemma snd_on_etl: "snd (on_etl f k w) = w\<lparr>mw_etl := snd (f k (mw_etl w))\<rparr>"
  by (simp add: on_etl_def split: prod.split)

lemma fail_run_progress: "env_progresses i en \<Longrightarrow> complies (progress i) (fail_run en mc run w err)"
  unfolding fail_run_def by (intro progress_query) (simp_all add: snd_on_etl)

lemma record_completeness_progress: "env_progresses i en \<Longrightarrow> complies (progress i) (record_completeness en dcs)"
  by (induction dcs) (auto intro!: progress.rules progress_query completeness_progress)

lemma reading_progress: "env_progresses i en \<Longrightarrow> complies (progress i) (query en (reading f))"
  by (intro progress_query) (simp_all add: reading_def progress.refl)

lemma observe_progress: "complies (progress i) (observe f)"
  by (simp add: complies_def wp_def observe_def progress.refl)

lemma record_progress_progress: "env_progresses i en \<Longrightarrow> complies (progress i) (record_progress en mc run res)"
  unfolding record_progress_def watermark_owner_def advance_watermark_def
  by (intro complies_branches progress.rules reading_progress record_completeness_progress observe_progress progress_query)
     simp_all

lemma settle_run_progress: "env_progresses i en \<Longrightarrow> complies (progress i) (settle_run en mc w run irun r)"
  unfolding settle_run_def
  by (intro complies_branches progress.rules progress_query record_progress_progress fail_run_progress)
     (simp_all add: snd_on_etl)

lemma run_callback_progress: "complies (progress i) (run_callback mc run sc oc)"
  by (simp add: run_callback_def complies_def wp_def skip_def progress.refl Let_def split: option.split)

section \<open>Completed runs are materialized\<close>

text \<open>What must hold of the tables before a run may be called completed.\<close>

definition run_materialized :: "('d :: linordered_idom) mat_ctx \<Rightarrow> string \<Rightarrow> uuid \<Rightarrow> 'd mat_world \<Rightarrow> bool" where
  "run_materialized mc wallet i wd \<longleftrightarrow>
     (\<exists>irun target addr k b. get_ingestion_run i (mw_ingestion_runs wd) = Some irun \<and> target_of_run i wd = Some target
        \<and> it_kind target = TK_Wallet \<and> it_network target = ir_network irun \<and> it_address target = Some addr
        \<and> addrs_match addr wallet
        \<and> silver_of_raws (mc_mat mc k) addr (get_raw_transactions_by_run i wd) = Some b
        \<and> silver_covers b (silver_of wd))"

lemma run_materialized_kept:
  assumes "progress i w w'" "run_materialized mc wallet i w"
  shows "run_materialized mc wallet i w'"
proof -
  have same: "get_ingestion_run i (mw_ingestion_runs w') = get_ingestion_run i (mw_ingestion_runs w)"
    "target_of_run i w' = target_of_run i w" "get_raw_transactions_by_run i w' = get_raw_transactions_by_run i w"
    and "silver_extends (silver_of w) (silver_of w')"
    using assms(1) by (simp_all add: progress_def run_inputs_def)
  then have "silver_covers b (silver_of w) \<Longrightarrow> silver_covers b (silver_of w')" for b by (simp add: covers_extends)
  then show ?thesis using assms(2) unfolding run_materialized_def same by blast
qed

text \<open>A read of the inputs gives what it gave at the start.\<close>

lemma wp_reading:
  assumes "env_progresses i en" "progress i w0 (sn_world s)" "\<And>w. progress i w0 w \<Longrightarrow> f w = c"
    and "\<And>e t. Q (Inl (Failed e)) t"
    and "\<And>t. progress i w0 (sn_world t) \<Longrightarrow> Q (Inr c) t"
  shows "wp (query en (reading f)) Q s"
proof (rule wp_queryI)
  show "case reading f k (en_others en k (sn_world s)) of (r, w) \<Rightarrow>
      Q (map_sum Failed id r) (s\<lparr>sn_clock := Suc (sn_clock s), sn_world := w\<rparr>)" for k
  proof -
    let ?t = "s\<lparr>sn_clock := Suc (sn_clock s), sn_world := en_others en k (sn_world s)\<rparr>"
    have "progress i (sn_world s) (en_others en k (sn_world s))" using assms(1) by (simp add: env_progresses_def)
    with assms(2) have p: "progress i w0 (en_others en k (sn_world s))" by (rule progress.trans)
    then have "progress i w0 (sn_world ?t)" by simp
    from assms(5) [OF this] assms(3) [OF p] show ?thesis by (simp add: reading_def)
  qed
qed (rule assms(4))

lemma wp_observe [wp_simps]: "wp (observe f) Q s = Q (f (sn_clock s)) s"
  by (simp add: wp_def observe_def)

lemma materialize_batch_stores:
  assumes "env_progresses i en" "raws \<noteq> []"
  shows "wp (materialize_batch en mc raws addr tid) (\<lambda>r u. progress i (sn_world s) (sn_world u) \<and>
     (\<forall>res. r = Inr res \<longrightarrow> all_succeeded res \<longrightarrow>
        (\<exists>k b. silver_of_raws (mc_mat mc k) addr raws = Some b \<and> silver_covers b (silver_of (sn_world u))))) s"
proof -
  let ?k = "sn_clock s"
  let ?w = "en_others en ?k (sn_world s)"
  obtain r db where run: "materialize_silver_from_bronze (mc_mat mc ?k) raws (Some addr) (Some tid) (mw_db ?w) = (r, db)"
    by fastforce
  have p: "progress i (sn_world s) (?w\<lparr>mw_db := db\<rparr>)"
    using materialize_progress [of i ?w "mc_mat mc ?k" raws "Some addr" "Some tid"] assms(1) run
    by (auto simp: env_progresses_def intro: progress.trans)
  have "\<exists>k b. silver_of_raws (mc_mat mc k) addr raws = Some b \<and> silver_covers b (md_db db)"
    if "r = Some res" "all_succeeded res" for res
    using materialize_covers [OF run [unfolded that(1)] that(2) assms(2)] by (metis option.simps(5))
  then show ?thesis
    using p by (auto simp: wp_def materialize_batch_def Let_def run silver_of_def split: option.split)
qed

lemma materialize_batch_progress:
  fixes en :: "('d :: linordered_idom) mat_world env"
  assumes "env_progresses i en"
  shows "complies (progress i) (materialize_batch en mc raws addr tid)"
  unfolding complies_def
proof
  fix s :: "'d mat_world session"
  let ?k = "sn_clock s"
  let ?w = "en_others en ?k (sn_world s)"
  obtain r db where run: "materialize_silver_from_bronze (mc_mat mc ?k) raws (Some addr) (Some tid) (mw_db ?w) = (r, db)"
    by fastforce
  have "progress i (sn_world s) (?w\<lparr>mw_db := db\<rparr>)"
    using materialize_progress [of i ?w "mc_mat mc ?k" raws "Some addr" "Some tid"] assms run
    by (auto simp: env_progresses_def intro: progress.trans)
  then show "wp (materialize_batch en mc raws addr tid) (\<lambda>_ t. progress i (sn_world s) (sn_world t)) s"
    by (simp add: wp_def materialize_batch_def Let_def run)
qed

lemma execute_normalize_progress: "env_progresses i en \<Longrightarrow> complies (progress i) (execute_normalize en mc lost wallet irun)"
  unfolding execute_normalize_def Let_def
  by (intro complies_branches progress.rules reading_progress observe_progress materialize_batch_progress)

lemma execute_normalize_stores:
  fixes en :: "('d :: linordered_idom) mat_world env" and s :: "'d mat_world session"
  assumes "env_progresses i en"
  shows "wp (execute_normalize en mc lost wallet (Some i))
     (\<lambda>r u. \<forall>res. r = Inr res \<longrightarrow> run_materialized mc wallet i (sn_world u)) s"
proof -
  let ?w0 = "sn_world s"
  let ?raws = "get_raw_transactions_by_run i ?w0"
  define Q :: "fault + bronze_silver_result \<Rightarrow> 'd mat_world session \<Rightarrow> bool" where
    "Q r u = (\<forall>res. r = Inr res \<longrightarrow> run_materialized mc wallet i (sn_world u))" for r u
  have Q [simp]: "Q (Inl e) u" "Q (Inr res) u = run_materialized mc wallet i (sn_world u)" for e res u
    by (simp_all add: Q_def)
  note reading = wp_reading [where ?w0.0 = ?w0, OF assms]
  have inputs: "get_ingestion_run i (mw_ingestion_runs w) = get_ingestion_run i (mw_ingestion_runs ?w0)"
    "target_of_run i w = target_of_run i ?w0" "get_raw_transactions_by_run i w = ?raws" if "progress i ?w0 w" for w
    using that by (simp_all add: progress_def run_inputs_def)
  have "wp (execute_normalize en mc lost wallet (Some i)) Q s"
  proof (cases "get_ingestion_run i (mw_ingestion_runs ?w0)")
    case None
    show ?thesis
      unfolding execute_normalize_def Let_def option.case wp_attempt
      by (rule reading [OF progress.refl inputs(1)]) (simp_all add: None wp_simps)
  next
    case irun: (Some irun)
    show ?thesis
    proof (cases "ir_target_id irun")
      case None
      show ?thesis
        unfolding execute_normalize_def Let_def option.case wp_attempt
        by (rule reading [OF progress.refl inputs(1)]) (simp_all add: irun None wp_simps)
    next
      case tid: (Some tid)
      have target: "get_index_target tid (targets_of w) = target_of_run i ?w0" if "progress i ?w0 w" for w
        using inputs(1,2) [OF that] by (simp add: target_of_run_def irun tid)
      have stored: "run_materialized mc wallet i (sn_world u)"
        if "progress i ?w0 (sn_world u)" "target_of_run i ?w0 = Some t" "it_kind t = TK_Wallet"
          "it_network t = ir_network irun" "it_address t = Some addr" "addrs_match addr wallet"
          "silver_of_raws (mc_mat mc k) addr ?raws = Some b" "silver_covers b (silver_of (sn_world u))" for u :: "'d mat_world session" and t addr k b
        using that inputs [OF that(1)] irun unfolding run_materialized_def by metis
      have batched: "wp (materialize_batch en mc ?raws addr tid)
           (case_sum (\<lambda>e. Q (Inl e)) (\<lambda>res. wp (if all_succeeded res then State_Monad.return (Inr res) else bail (err res)) Q)) u"
        if "progress i ?w0 (sn_world u)" "target_of_run i ?w0 = Some t" "it_kind t = TK_Wallet"
          "it_network t = ir_network irun" "it_address t = Some addr" "addrs_match addr wallet" "?raws \<noteq> []"
        for u :: "'d mat_world session" and t addr and err :: "bronze_silver_result \<Rightarrow> string"
      proof (rule wp_mono [OF materialize_batch_stores [OF assms that(7)]], elim conjE)
        fix r :: "fault + bronze_silver_result" and v :: "'d mat_world session"
        assume v: "progress i (sn_world u) (sn_world v)"
          and ok: "\<forall>res. r = Inr res \<longrightarrow> all_succeeded res \<longrightarrow>
            (\<exists>k b. silver_of_raws (mc_mat mc k) addr ?raws = Some b \<and> silver_covers b (silver_of (sn_world v)))"
        have "run_materialized mc wallet i (sn_world v)" if "r = Inr res" "all_succeeded res" for res
          using ok that stored [OF progress.trans [OF \<open>progress i ?w0 (sn_world u)\<close> v] \<open>target_of_run i ?w0 = Some t\<close>] \<open>it_kind t = TK_Wallet\<close>
            \<open>it_network t = ir_network irun\<close> \<open>it_address t = Some addr\<close> \<open>addrs_match addr wallet\<close> by blast
        then show "case_sum (\<lambda>e. Q (Inl e)) (\<lambda>res. wp (if all_succeeded res then State_Monad.return (Inr res) else bail (err res)) Q) r v"
          by (simp add: wp_simps split: sum.split)
      qed
      have empty: "run_materialized mc wallet i (sn_world u)"
        if "progress i ?w0 (sn_world u)" "target_of_run i ?w0 = Some t" "it_kind t = TK_Wallet"
          "it_network t = ir_network irun" "it_address t = Some addr" "addrs_match addr wallet" "?raws = []"
        for u :: "'d mat_world session" and t addr
        using stored [OF that(1-6), of k empty_batch for k] that(7) by (simp add: silver_covers_def empty_batch_def)
      show ?thesis
        unfolding execute_normalize_def Let_def option.case wp_attempt
        apply (rule reading [OF progress.refl inputs(1)], assumption)
         apply simp
        apply (simp add: irun tid wp_simps)
        apply (rule reading [OF _ target], assumption, assumption)
         apply simp
        apply (simp add: wp_simps split: option.split)
        apply (intro allI impI)
        apply (rule reading [OF _ inputs(3)], assumption, assumption)
         apply simp
        using batched empty
        apply (simp add: wp_simps)
        done
    qed
  qed
  then show ?thesis unfolding Q_def .
qed

subsection \<open>Who completes a run\<close>

definition run_completed :: "uuid \<Rightarrow> runs \<Rightarrow> bool" where
  "run_completed i rows \<longleftrightarrow> list_ex (\<lambda>r. mr_id r = i \<and> mr_status r = MR_Completed) rows"

definition leaves_run :: "uuid \<Rightarrow> 'd mat_world \<Rightarrow> 'd mat_world \<Rightarrow> bool" where
  "leaves_run i w w' \<longleftrightarrow> (run_completed i (mw_etl w') \<longrightarrow> run_completed i (mw_etl w))"

interpretation leaves_run: guarantee "leaves_run i" for i
  by unfold_locales (auto simp: leaves_run_def)

definition env_leaves_run :: "uuid \<Rightarrow> 'd mat_world env \<Rightarrow> bool" where
  "env_leaves_run i en \<longleftrightarrow> (\<forall>k w. leaves_run i w (en_others en k w))"

lemma leaves_query: "env_leaves_run i en \<Longrightarrow> (\<And>k w. leaves_run i w (snd (f k w))) \<Longrightarrow> complies (leaves_run i) (query en f)"
  by (intro leaves_run.query) (auto simp: env_leaves_run_def)

lemma failing_leaves: "leaves_run i w (w\<lparr>mw_etl := snd (update_row mr_id j (fail_run_row err now v) (mw_etl w))\<rparr>)"
proof -
  have "\<forall>r \<in> set (snd (update_row mr_id j (fail_run_row err now v) rows)). \<not> (mr_id r = i \<and> mr_status r = MR_Completed)"
    if "\<forall>r \<in> set rows. \<not> (mr_id r = i \<and> mr_status r = MR_Completed)" for rows
    by (rule update_row_all [OF that]) (auto simp: fail_run_row_def split: if_splits)
  then show ?thesis by (auto simp: leaves_run_def run_completed_def list_ex_iff)
qed

lemma fail_run_leaves: "env_leaves_run i en \<Longrightarrow> complies (leaves_run i) (fail_run en mc run w err)"
  unfolding fail_run_def
  by (intro leaves_query) (simp_all add: snd_on_etl fail_materialization_run_def failing_leaves)

lemma reading_leaves: "env_leaves_run i en \<Longrightarrow> complies (leaves_run i) (query en (reading f))"
  by (intro leaves_query) (simp_all add: reading_def leaves_run.refl)

lemma observe_leaves: "complies (leaves_run i) (observe f)"
  by (simp add: complies_def wp_def observe_def leaves_run.refl)

lemma materialize_batch_leaves:
  "env_leaves_run i en \<Longrightarrow> complies (leaves_run i) (materialize_batch en mc raws addr tid)"
  by (auto simp: complies_def wp_def materialize_batch_def Let_def env_leaves_run_def leaves_run_def split: prod.split)

lemma execute_normalize_leaves: "env_leaves_run i en \<Longrightarrow> complies (leaves_run i) (execute_normalize en mc lost wallet irun)"
  unfolding execute_normalize_def Let_def
  by (intro complies_branches leaves_run.rules reading_leaves observe_leaves materialize_batch_leaves)

lemma settle_failed_leaves: "env_leaves_run i en \<Longrightarrow> complies (leaves_run i) (settle_run en mc w run irun (Inl e))"
  unfolding settle_run_def sum.case by (intro complies_branches leaves_run.rules fail_run_leaves)

lemma run_callback_leaves: "complies (leaves_run i) (run_callback mc run sc oc)"
  by (simp add: run_callback_def complies_def wp_def skip_def leaves_run.refl Let_def split: option.split)

text \<open>The end of the task, from the result on.\<close>

definition end_of_task ::
    "'d mat_world env \<Rightarrow> 'd mat_ctx \<Rightarrow> (nat \<Rightarrow> bool) \<Rightarrow> worker \<Rightarrow> uuid \<Rightarrow> materialization_scope \<Rightarrow>
     fault + bronze_silver_result \<Rightarrow> ('d mat_world session, unit) state" where
  "end_of_task en mc lost w run sc result =
     (if panicked result then skip
      else do { gone \<leftarrow> observe lost;
                (if gone then skip
                 else do { outcome \<leftarrow> settle_run en mc w run (ms_ingestion_run_id sc) result;
                           (case outcome of Some oc \<Rightarrow> run_callback mc run sc oc | None \<Rightarrow> skip) }) })"

lemma materialization_task_eq:
  "materialization_task en mc lost w run sc =
     do { result \<leftarrow> execute_normalize en mc lost (ms_wallet sc) (ms_ingestion_run_id sc); end_of_task en mc lost w run sc result }"
  by (simp add: materialization_task_def end_of_task_def)

lemma end_of_task_progress: "env_progresses i en \<Longrightarrow> complies (progress i) (end_of_task en mc lost w run sc r)"
  unfolding end_of_task_def
  by (intro complies_branches progress.rules observe_progress settle_run_progress run_callback_progress)

lemma end_of_task_leaves: "env_leaves_run i en \<Longrightarrow> complies (leaves_run i) (end_of_task en mc lost w run sc (Inl e))"
  unfolding end_of_task_def
  by (intro complies_branches leaves_run.rules observe_leaves settle_failed_leaves run_callback_leaves)

text \<open>
  C9. A materialization run is only ever completed after its data is in the Silver tables. Whatever other sessions
  do to the tables short of changing the finished ingestion run, removing Silver rows or completing the run
  themselves, whichever statements fail and wherever the lease is lost: if the run is completed after the task, then
  its ingestion run belongs to a wallet target with the address of the scope, and every record that
  the parsers extract from the raw transactions of that ingestion run is in the Silver tables.
\<close>

theorem completed_run_is_materialized:
  assumes "ms_ingestion_run_id sc = Some i" and "env_progresses i en" and "env_leaves_run run en"
    and "\<not> run_completed run (mw_etl (sn_world s))"
  shows "case run_state (materialization_task en mc lost w run sc) s of (_, t) \<Rightarrow>
    run_completed run (mw_etl (sn_world t)) \<longrightarrow> run_materialized mc (ms_wallet sc) i (sn_world t)"
proof -
  let ?P = "\<lambda>_ t. run_completed run (mw_etl (sn_world t)) \<longrightarrow> run_materialized mc (ms_wallet sc) i (sn_world t)"
  have ended: "wp (end_of_task en mc lost w run sc r) ?P t"
    if "\<forall>res. r = Inr res \<longrightarrow> run_materialized mc (ms_wallet sc) i (sn_world t)"
      "leaves_run run (sn_world s) (sn_world t)" for r t
  proof (cases r)
    case (Inl e)
    have "wp (end_of_task en mc lost w run sc r) (\<lambda>_ u. leaves_run run (sn_world t) (sn_world u)) t"
      using end_of_task_leaves [OF assms(3)] by (simp add: Inl complies_def)
    then show ?thesis by (rule wp_mono) (use that(2) assms(4) in \<open>simp add: leaves_run_def\<close>)
  next
    case (Inr res)
    then have m: "run_materialized mc (ms_wallet sc) i (sn_world t)" using that(1) by simp
    have "wp (end_of_task en mc lost w run sc r) (\<lambda>_ u. progress i (sn_world t) (sn_world u)) t"
      using end_of_task_progress [OF assms(2)] by (simp add: complies_def)
    then show ?thesis by (rule wp_mono) (simp add: run_materialized_kept [OF _ m])
  qed
  have "wp (execute_normalize en mc lost (ms_wallet sc) (Some i)) (\<lambda>r u.
      (\<forall>res. r = Inr res \<longrightarrow> run_materialized mc (ms_wallet sc) i (sn_world u)) \<and> leaves_run run (sn_world s) (sn_world u)) s"
    using execute_normalize_stores [OF assms(2)] execute_normalize_leaves [OF assms(3)]
    by (simp add: wp_conj complies_def)
  then have "wp (materialization_task en mc lost w run sc) ?P s"
    unfolding materialization_task_eq wp_bind assms(1) by (rule wp_mono) (use ended in blast)
  then show ?thesis by (simp add: wp_def split: prod.splits)
qed

section \<open>Without interference\<close>

lemma addrs_match_refl: "addrs_match a a"
  by (simp add: addrs_match_def eq_ignore_ascii_case_def)

text \<open>
  The statements that queue a normalization run for the ingestion run \<open>i\<close> of a target: the commit of a connector batch,
  the import of raw records, and the \<open>INSERT\<close> of the stream worker and of the legacy branch of the ingestion worker.
\<close>

definition queues_run :: "(uuid \<Rightarrow> string) \<Rightarrow> index_target \<Rightarrow> uuid \<Rightarrow> bronze_db \<Rightarrow> bronze_db \<Rightarrow> bool" where
  "queues_run us target i db db' \<longleftrightarrow>
     (\<exists>mid etl now jobs records cp ls. commit_connector_batch us mid etl now jobs target i records cp ls db = (Inr (), db'))
     \<or> (\<exists>mid etl now run records queued. ir_id run = i
          \<and> import_raw_records us mid etl now target run records db = (Inr queued, db'))
     \<or> (\<exists>network now uid k v. auto_materialization_scope us target network i = Some v
          \<and> db' = enqueue_normalize now uid v k db)"

definition queued_scope :: "(uuid \<Rightarrow> string) \<Rightarrow> index_target \<Rightarrow> uuid \<Rightarrow> json \<Rightarrow> bool" where
  "queued_scope us target i v \<longleftrightarrow> it_kind target = TK_Wallet
     \<and> (v = normalize_scope us target i \<or> (\<exists>network. auto_materialization_scope us target network i = Some v))"

lemma write_chunks_etl: "write_chunks mid now reason target cs db = Inr db' \<Longrightarrow> br_etl db' = br_etl db"
proof (induction cs arbitrary: db)
  case (Cons c cs)
  then obtain u where u: "write_chunk mid now reason target c db = Inr u" "write_chunks mid now reason target cs u = Inr db'"
    by (auto split: sum.splits)
  have "br_etl u = br_etl db"
    using u(1) by (auto simp: write_chunk_def upsert_raw_batch_in_tx_def link_run_inputs_def save_target_matches_def
        split: sum.splits prod.splits)
  with Cons.IH [OF u(2)] show ?case by simp
qed simp

lemma etl_of_queue_normalize:
  "r \<in> set (br_etl (queue_normalize us e now target i db)) \<Longrightarrow> r \<notin> set (br_etl db) \<Longrightarrow> mr_scope r = Some (normalize_scope us target i)"
  by (auto simp: queue_normalize_def create_materialization_run_def Let_def)

lemma queued_row:
  assumes "queues_run us target i db db'" and r: "r \<in> set (br_etl db')" "r \<notin> set (br_etl db)"
  obtains v where "mr_scope r = Some v" "queued_scope us target i v"
proof -
  consider (commit) mid etl now jobs records cp ls
      where "commit_connector_batch us mid etl now jobs target i records cp ls db = (Inr (), db')"
    | (import) mid etl now run records queued
      where "ir_id run = i" "import_raw_records us mid etl now target run records db = (Inr queued, db')"
    | (insert) network now uid k v where "auto_materialization_scope us target network i = Some v" "db' = enqueue_normalize now uid v k db"
    using assms(1) unfolding queues_run_def by blast
  then have "\<exists>v. mr_scope r = Some v \<and> queued_scope us target i v"
  proof cases
    case commit
    then obtain u where u: "write_chunks mid now ''provider'' (it_id target) (chunks 500 records) db = Inr u"
      by (auto simp: commit_connector_batch_def split: if_splits sum.splits)
    let ?adv = "case cp of Some c \<Rightarrow> upsert_checkpoint_v2 c u | None \<Rightarrow> u"
    have adv: "br_etl ?adv = br_etl db" using write_chunks_etl [OF u] by (simp split: option.split)
    have "db' = finish_ingestion_run now i (int (length records))
        (if it_kind target = TK_Wallet \<and> records \<noteq> [] then queue_normalize us etl now target i ?adv else ?adv)"
      using commit u by (simp only: commit_connector_batch_def u sum.case Let_def split: if_split_asm) simp_all
    then have q: "it_kind target = TK_Wallet" "r \<in> set (br_etl (queue_normalize us etl now target i ?adv))"
      using r adv by (auto split: if_splits)
    from etl_of_queue_normalize [OF q(2)] r(2) q(1) show ?thesis unfolding adv by (auto simp: queued_scope_def)
  next
    case import
    let ?db = "db\<lparr>br_runs := br_runs db @ [run]\<rparr>"
    obtain u where u: "write_chunks mid now ''import'' (it_id target) (chunks 500 records) ?db = Inr u"
      using import(2) by (auto simp: import_raw_records_def split: if_splits sum.splits)
    have etl: "br_etl u = br_etl db" using write_chunks_etl [OF u] by simp
    have "db' = (if it_kind target = TK_Wallet then queue_normalize us etl now target i u else u)"
      using import u by (auto simp: import_raw_records_def split: if_splits)
    then have q: "it_kind target = TK_Wallet" "r \<in> set (br_etl (queue_normalize us etl now target i u))"
      using r etl by (auto split: if_splits)
    from etl_of_queue_normalize [OF q(2)] r(2) q(1) show ?thesis unfolding etl by (auto simp: queued_scope_def)
  next
    case insert
    have "it_kind target = TK_Wallet" using insert(1) by (auto simp: auto_materialization_scope_def split: if_splits)
    then show ?thesis
      using insert r by (auto simp: enqueue_normalize_def create_materialization_run_def Let_def queued_scope_def)
  qed
  then show thesis using that by blast
qed

text \<open>Both scopes parse; only the parsed network may differ, which the worker does not compare.\<close>

lemma queued_scope_parses:
  assumes "queued_scope us target i v" "it_address target = Some wallet" "wallet \<noteq> []" "pu (us i) = Some i"
  obtains network where "it_kind target = TK_Wallet" "parse_materialization_scope pu v =
    Inr \<lparr>ms_wallet = wallet, ms_network = Some network, ms_callback_url = None, ms_ingestion_run_id = Some i\<rparr>"
proof -
  consider (commit) "v = normalize_scope us target i"
    | (insert) network where "v = JObject [(''wallet'', JString wallet), (''network'', JString network), (''ingestion_run_id'', JString (us i))]"
    using assms(1-3) unfolding queued_scope_def auto_materialization_scope_def by (auto split: if_splits)
  then have "\<exists>network. parse_materialization_scope pu v =
    Inr \<lparr>ms_wallet = wallet, ms_network = Some network, ms_callback_url = None, ms_ingestion_run_id = Some i\<rparr>"
    by cases (simp_all add: normalize_scope_def assms(2-4) parse_materialization_scope_def optional_scope_string_def)
  with assms(1) show thesis using that by (auto simp: queued_scope_def)
qed

definition batch_outcome :: "bronze_silver_result option \<Rightarrow> fault + bronze_silver_result" where
  "batch_outcome r = (case r of
     None \<Rightarrow> Inl Panicked
   | Some res \<Rightarrow> if all_succeeded res then Inr res
       else Inl (Failed (''Materialization failed for '' @ show_nat (bsr_total_failed res)
              @ '' records; retry normalization using this ingestion run'')))"

lemma run_query_quiet:
  "undisturbed en \<Longrightarrow> run_state (query en (reading f)) s = (Inr (f (sn_world s)), s\<lparr>sn_clock := Suc (sn_clock s)\<rparr>)"
  by (simp add: query_def reading_def undisturbed_def Let_def)

lemma run_attempt:
  "run_state (attempt m f) s = (case run_state m s of (r, t) \<Rightarrow> (case r of Inl e \<Rightarrow> (Inl e, t) | Inr x \<Rightarrow> run_state (f x) t))"
  by (simp add: attempt_def split: prod.split sum.split)

lemma run_batch_quiet:
  "undisturbed en \<Longrightarrow> fst (run_state (attempt (materialize_batch en mc raws addr tid) (\<lambda>res.
      if all_succeeded res then State_Monad.return (Inr res)
      else bail (''Materialization failed for '' @ show_nat (bsr_total_failed res)
             @ '' records; retry normalization using this ingestion run''))) s) =
    batch_outcome (fst (materialize_silver_from_bronze (mc_mat mc (sn_clock s)) raws (Some addr) (Some tid) (mw_db (sn_world s))))"
  by (simp add: run_attempt materialize_batch_def batch_outcome_def undisturbed_def Let_def bail_def split: prod.split option.split)

lemma execute_normalize_quiet:
  assumes "undisturbed en" "get_ingestion_run i (mw_ingestion_runs (sn_world s)) = Some irun"
    "ir_target_id irun = Some tid" "get_index_target tid (targets_of (sn_world s)) = Some target"
    "it_kind target = TK_Wallet" "it_network target = ir_network irun" "it_address target = Some addr" "addr \<noteq> []"
    "addrs_match addr wallet" "\<not> lost (sn_clock s + 3)"
  shows "fst (run_state (execute_normalize en mc lost wallet (Some i)) s) =
    (let raws = get_raw_transactions_by_run i (sn_world s)
     in if raws = [] then Inr default_bsr
        else batch_outcome (fst (materialize_silver_from_bronze (mc_mat mc (sn_clock s + 3)) raws (Some addr) (Some tid)
               (mw_db (sn_world s)))))"
proof -
  let ?t = "s\<lparr>sn_clock := Suc (Suc (Suc (sn_clock s)))\<rparr>"
  note batch = run_batch_quiet [OF assms(1), of mc "get_raw_transactions_by_run i (sn_world s)" addr tid ?t]
  show ?thesis
    using assms(2-10) batch
    by (simp add: execute_normalize_def run_attempt run_query_quiet [OF assms(1)] ok_or_def observe_def Let_def
        numeral_3_eq_3)
qed

text \<open>
  C22. Every run queued with ingested data is accepted. Let \<open>r\<close> be a run that the commit of a connector batch, the import of raw
  records, or the insert of the stream worker has added to the queue for an ingestion run and its target, and
  let that target have a non-empty address. Then the scope of \<open>r\<close> is parsed to that address and the id of the
  ingestion run, and, when the ingestion run names the target and is on its network, and without interference
  and loss of the lease, the run passes every check and materializes exactly the raw transactions of that ingestion run for
  that target.
\<close>

theorem enqueued_run_accepted:
  assumes "undisturbed en" and "mc_parse_uuid mc (mc_show_uuid mc i) = Some i"
    and "queues_run (mc_show_uuid mc) target i db db'" and "r \<in> set (br_etl db')" and "r \<notin> set (br_etl db)"
    and "it_address target = Some wallet" and "wallet \<noteq> []"
    and "get_ingestion_run i (mw_ingestion_runs (sn_world s)) = Some irun" and "ir_target_id irun = Some (it_id target)"
    and "get_index_target (it_id target) (targets_of (sn_world s)) = Some target" and "it_network target = ir_network irun"
  shows "\<exists>sc. scope_of_run mc r = Inr sc \<and> ms_wallet sc = wallet \<and> ms_ingestion_run_id sc = Some i
    \<and> fst (run_state (execute_normalize en mc (\<lambda>_. False) (ms_wallet sc) (ms_ingestion_run_id sc)) s) =
       (let raws = get_raw_transactions_by_run i (sn_world s)
        in if raws = [] then Inr default_bsr
           else batch_outcome (fst (materialize_silver_from_bronze (mc_mat mc (sn_clock s + 3)) raws (Some wallet)
                  (Some (it_id target)) (mw_db (sn_world s)))))"
proof -
  obtain v where v: "mr_scope r = Some v" "queued_scope (mc_show_uuid mc) target i v" by (rule queued_row [OF assms(3-5)])
  obtain network where n: "it_kind target = TK_Wallet" "parse_materialization_scope (mc_parse_uuid mc) v =
      Inr \<lparr>ms_wallet = wallet, ms_network = Some network, ms_callback_url = None, ms_ingestion_run_id = Some i\<rparr>"
    by (rule queued_scope_parses [where pu = "mc_parse_uuid mc" and us = "mc_show_uuid mc", OF v(2) assms(6,7,2)])
  note run = execute_normalize_quiet [where mc = mc and lost = "\<lambda>_. False" and s = s,
    OF assms(1,8,9,10) n(1) assms(11,6,7) addrs_match_refl]
  show ?thesis
    by (rule exI [of _ "\<lparr>ms_wallet = wallet, ms_network = Some network, ms_callback_url = None, ms_ingestion_run_id = Some i\<rparr>"])
       (simp add: scope_of_run_def v(1) n(2) run)
qed

subsection \<open>How a run ends\<close>

definition same_etl :: "'d mat_world \<Rightarrow> 'd mat_world \<Rightarrow> bool" where
  "same_etl w w' \<longleftrightarrow> mw_etl w' = mw_etl w"

interpretation same_etl: guarantee same_etl
  by unfold_locales (auto simp: same_etl_def)

lemma same_etl_query: "undisturbed en \<Longrightarrow> (\<And>k w. same_etl w (snd (f k w))) \<Longrightarrow> complies same_etl (query en f)"
  by (intro same_etl.query) (auto simp: undisturbed_def same_etl.refl)

lemma same_etl_simps [simp]: "same_etl w (w\<lparr>mw_marks := x\<rparr>)" "same_etl w (snd (on_completeness f k w))"
  by (auto simp: same_etl_def on_completeness_def split: sum.split)

lemma same_etl_reading: "undisturbed en \<Longrightarrow> complies same_etl (query en (reading f))"
  by (intro same_etl_query) (simp_all add: reading_def same_etl.refl)

lemma same_etl_observe: "complies same_etl (observe f)"
  by (simp add: complies_def wp_def observe_def same_etl.refl)

lemma same_etl_batch: "undisturbed en \<Longrightarrow> complies same_etl (materialize_batch en mc raws addr tid)"
  by (auto simp: complies_def wp_def materialize_batch_def Let_def undisturbed_def same_etl_def split: prod.split)

lemma execute_normalize_etl: "undisturbed en \<Longrightarrow> complies same_etl (execute_normalize en mc lost wallet irun)"
  unfolding execute_normalize_def Let_def
  by (intro complies_branches same_etl.rules same_etl_reading same_etl_observe same_etl_batch)

lemma record_completeness_etl: "undisturbed en \<Longrightarrow> complies same_etl (record_completeness en dcs)"
  by (induction dcs) (auto intro!: same_etl.rules same_etl_query)

lemma record_progress_etl: "undisturbed en \<Longrightarrow> complies same_etl (record_progress en mc run res)"
  unfolding record_progress_def watermark_owner_def advance_watermark_def
  by (intro complies_branches same_etl.rules same_etl_reading record_completeness_etl same_etl_observe same_etl_query) simp_all

lemma run_callback_etl: "complies same_etl (run_callback mc run sc oc)"
  by (simp add: run_callback_def complies_def wp_def skip_def same_etl.refl Let_def split: option.split)

text \<open>The status in which the row of a run is left by a worker that holds it.\<close>

definition end_status :: "fault + bronze_silver_result \<Rightarrow> materialization_run_status" where
  "end_status result =
     (case result of
        Inr _ \<Rightarrow> MR_Completed
      | Inl Panicked \<Rightarrow> MR_Running
      | Inl (Failed e) \<Rightarrow> if contains_str e ''lease lost'' then MR_Running else MR_Failed)"

definition row_status :: "uuid \<Rightarrow> 'd mat_world \<Rightarrow> materialization_run_status option" where
  "row_status i wd = map_option mr_status (get_materialization_run i (mw_etl wd))"

lemma row_status_same: "same_etl w w' \<Longrightarrow> row_status i w' = row_status i w"
  by (simp add: same_etl_def row_status_def)

lemma wp_row_status:
  assumes "complies same_etl m" "row_status i (sn_world s) = x"
  shows "wp m (\<lambda>_ t. row_status i (sn_world t) = x) s"
proof -
  have "wp m (\<lambda>_ t. same_etl (sn_world s) (sn_world t)) s" using assms(1) by (simp add: complies_def)
  then show ?thesis by (rule wp_mono) (simp add: row_status_same assms(2))
qed

lemma held_row: "run_holder r = Some w \<Longrightarrow> mr_status r = MR_Running \<and> owned_run w r"
  by (auto simp: run_holder_def owned_run_def split: if_splits)

lemma row_status_update:
  assumes "distinct (map mr_id (mw_etl wd))" "r \<in> set (mw_etl wd)" "f r = Some r'" "mr_id r' = mr_id r"
  shows "row_status (mr_id r) (wd\<lparr>mw_etl := snd (update_row mr_id (mr_id r) f (mw_etl wd))\<rparr>) = Some (mr_status r')"
  using find_update_row [where f = f, OF assms] by (simp add: row_status_def get_materialization_run_def)

lemma settle_run_status:
  assumes "undisturbed en" "distinct (map mr_id (mw_etl (sn_world t)))" "r \<in> set (mw_etl (sn_world t))"
    and "run_holder r = Some w" "\<not> panicked result"
  shows "wp (settle_run en mc w (mr_id r) irun result) (\<lambda>_ u. row_status (mr_id r) (sn_world u) = Some (end_status result)) t"
proof -
  let ?P = "\<lambda>_ u. row_status (mr_id r) (sn_world u) = Some (end_status result)"
  have held: "mr_status r = MR_Running" "owned_run w r" using held_row [OF assms(4)] by simp_all
  note updated = update_row_unique(1) [OF assms(2,3)] row_status_update [OF assms(2,3)]
  show ?thesis
  proof (cases result)
    case (Inr res)
    let ?f = "\<lambda>now. complete_run_row (usize_to_i64_or_max (bsr_total_written res)) now w"
    obtain r' where r': "?f now r = Some (r' now)" "mr_id (r' now) = mr_id r" "mr_status (r' now) = MR_Completed" for now
      using held(2) by (simp add: complete_run_row_def)
    have progress: "wp (case irun of None \<Rightarrow> skip | Some i \<Rightarrow> record_progress en mc i res) (\<lambda>_. ?P (Some x)) u"
      if "row_status (mr_id r) (sn_world u) = Some MR_Completed" for u x
      using wp_row_status [OF record_progress_etl [OF assms(1)] that] that
      by (cases irun) (simp_all add: wp_simps Inr end_status_def)
    show ?thesis
      unfolding settle_run_def Inr sum.case wp_bind wp_query_quiet [OF assms(1)]
      using updated(1) [of "?f (en_now en (sn_clock t))"] updated(2) [where f = "?f (en_now en (sn_clock t))", OF r'(1,2)]
        progress [unfolded Inr]
      by (simp add: on_etl_def complete_materialization_run_def affected_or_def r' wp_simps split_beta end_status_def)
  next
    case (Inl e)
    with assms(5) obtain m where e: "e = Failed m" by (cases e) (simp_all add: panicked_def)
    let ?f = "\<lambda>now. fail_run_row m now w"
    obtain r' where r': "?f now r = Some (r' now)" "mr_id (r' now) = mr_id r" "mr_status (r' now) = MR_Failed" for now
      using held(2) by (simp add: fail_run_row_def)
    have same: "row_status (mr_id r) (sn_world t) = Some MR_Running"
      using find_row [OF assms(2,3)] held(1) by (simp add: row_status_def get_materialization_run_def)
    show ?thesis
      using updated(1) [of "?f (en_now en (sn_clock t))"] updated(2) [where f = "?f (en_now en (sn_clock t))", OF r'(1,2)] same
      by (simp add: settle_run_def Inl e error_text_def wp_simps fail_run_def wp_query_quiet [OF assms(1)] on_etl_def
          fail_materialization_run_def affected_or_def r' split_beta end_status_def)
  qed
qed

text \<open>
  C25. How a run ends when nothing interferes and the lease is kept: a worker that holds it leaves it completed when
  the materialization succeeded and failed when it did not, with two exceptions in which the row stays in the state
  running: a panic of an extractor, and a failure whose message contains the
  words by which the worker recognises a lost lease.
\<close>

theorem materialization_run_ends:
  assumes "undisturbed en" and "distinct (map mr_id (mw_etl (sn_world s)))" and "r \<in> set (mw_etl (sn_world s))"
    and "run_holder r = Some w"
    and "result = fst (run_state (execute_normalize en mc (\<lambda>_. False) (ms_wallet sc) (ms_ingestion_run_id sc)) s)"
  shows "row_status (mr_id r) (sn_world (snd (run_state (materialization_task en mc (\<lambda>_. False) w (mr_id r) sc) s)))
    = Some (end_status result)"
proof -
  obtain t where run: "run_state (execute_normalize en mc (\<lambda>_. False) (ms_wallet sc) (ms_ingestion_run_id sc)) s = (result, t)"
    using assms(5) by (metis prod.collapse)
  have etl: "mw_etl (sn_world t) = mw_etl (sn_world s)"
    using compliesD [OF execute_normalize_etl [OF assms(1)] run] by (simp add: same_etl_def)
  have "wp (end_of_task en mc (\<lambda>_. False) w (mr_id r) sc result)
      (\<lambda>_ u. row_status (mr_id r) (sn_world u) = Some (end_status result)) t"
  proof (cases "panicked result")
    case True
    then have "end_status result = MR_Running" by (auto simp: panicked_def end_status_def split: sum.splits fault.splits)
    moreover have "row_status (mr_id r) (sn_world t) = Some MR_Running"
      using find_row [OF assms(2,3)] held_row [OF assms(4)] by (simp add: row_status_def get_materialization_run_def etl)
    ultimately show ?thesis using True by (simp add: end_of_task_def wp_simps)
  next
    case False
    have callback: "wp (case oc of None \<Rightarrow> skip | Some oc \<Rightarrow> run_callback mc (mr_id r) sc oc)
        (\<lambda>_ u. row_status (mr_id r) (sn_world u) = Some (end_status result)) u"
      if "row_status (mr_id r) (sn_world u) = Some (end_status result)" for oc u
      by (rule wp_row_status [OF _ that]) (auto intro: same_etl.rules run_callback_etl split: option.split)
    have "wp (settle_run en mc w (mr_id r) (ms_ingestion_run_id sc) result)
        (\<lambda>_ u. row_status (mr_id r) (sn_world u) = Some (end_status result)) t"
      using settle_run_status [OF assms(1) _ _ assms(4) False] assms(2,3) by (simp add: etl)
    then have "wp (settle_run en mc w (mr_id r) (ms_ingestion_run_id sc) result)
        (\<lambda>oc. wp (case oc of None \<Rightarrow> skip | Some oc \<Rightarrow> run_callback mc (mr_id r) sc oc)
          (\<lambda>_ u. row_status (mr_id r) (sn_world u) = Some (end_status result))) t"
      by (rule wp_mono) (rule callback)
    then show ?thesis using False by (simp add: end_of_task_def wp_simps)
  qed
  then show ?thesis by (simp add: materialization_task_eq wp_def run split_beta)
qed

section \<open>A run of the worker\<close>

definition sample_mat_target :: index_target where
  "sample_mat_target = sample_target\<lparr>it_network := ''hypercore-mainnet'', it_chain_family := CF_Hyperliquid\<rparr>"

definition sample_ingestion_run :: ingestion_run where
  "sample_ingestion_run = \<lparr>ir_id = 30, ir_target_id = Some 9, ir_network = ''hypercore-mainnet'', ir_source = ''rest'',
     ir_mode = IJM_Backfill, ir_status = IJ_Completed, ir_started_at = 3, ir_finished_at = Some 4, ir_records_written = 1,
     ir_error_message = None, ir_cursor_state = None\<rparr>"

definition sample_mat_scope :: materialization_scope where
  "sample_mat_scope = \<lparr>ms_wallet = ''w'', ms_network = Some ''hypercore-mainnet'', ms_callback_url = None,
     ms_ingestion_run_id = Some 30\<rparr>"

text \<open>A funding rate is a valid payload without records of its own.\<close>

definition sample_rate_raw :: raw_transaction where
  "sample_rate_raw = sample_raw\<lparr>raw_network := ''hypercore-mainnet'',
     raw_metadata := JObject [(''type'', JString ''funding_rate''),
       (''data'', JObject [(''coin'', JString ''B''), (''fundingRate'', JString ''2''), (''premium'', JString ''3''),
                            (''time'', JInt 4)])]\<rparr>"

definition sample_mat_session :: "int mat_world session" where
  "sample_mat_session = \<lparr>sn_world = \<lparr>mw_etl = sample_runs, mw_ingestion_runs = [sample_ingestion_run], mw_links = [],
     mw_db = sample_mat_db\<lparr>md_db := (md_db sample_mat_db)\<lparr>db_targets := [sample_mat_target], db_raws := [sample_rate_raw]\<rparr>\<rparr>,
     mw_marks = []\<rparr>, sn_clock = 0, sn_sent = []\<rparr>"

definition sample_mat_ctx :: "int mat_ctx" where
  "sample_mat_ctx = \<lparr>mc_mat = sample_env, mc_permit = (\<lambda>_. True), mc_show_uuid = (\<lambda>_. []), mc_parse_uuid = (\<lambda>_. Some 30),
     mc_secret = None, mc_net = Callbacks.sample_env, mc_dns = (\<lambda>_. Inl []), mc_send = (\<lambda>_. Send_Error),
     mc_sign = (\<lambda>_ _. [])\<rparr>"

abbreviation sample_task :: "materialization_scope \<Rightarrow> unit \<times> int mat_world session" where
  "sample_task sc \<equiv> run_state (materialization_task undisturbed_env sample_mat_ctx (\<lambda>_. False) ''a'' 6 sc) sample_mat_session"

lemma quiet_env_mat: "env_progresses i undisturbed_env" "env_leaves_run i undisturbed_env"
  by (simp_all add: env_progresses_def env_leaves_run_def undisturbed_env_def progress.refl leaves_run.refl)

lemma sample_task_completes: "run_completed 6 (mw_etl (sn_world (snd (sample_task sample_mat_scope))))"
  by code_simp

theorem completed_run_is_materialized_witness:
  "case sample_task sample_mat_scope of (_, t) \<Rightarrow>
     run_completed 6 (mw_etl (sn_world t)) \<and> run_materialized sample_mat_ctx ''w'' 30 (sn_world t)"
proof -
  have "ms_ingestion_run_id sample_mat_scope = Some 30" "ms_wallet sample_mat_scope = ''w''"
    "\<not> run_completed 6 (mw_etl (sn_world sample_mat_session))"
    by (simp_all add: sample_mat_scope_def sample_mat_session_def sample_runs_eq run_completed_def)
  then show ?thesis
    using completed_run_is_materialized [OF _ quiet_env_mat(1) quiet_env_mat(2), of sample_mat_scope 30 6 sample_mat_session
        sample_mat_ctx "\<lambda>_. False" "''a''"] sample_task_completes
    by (simp add: split_beta)
qed

text \<open>The run that the commit of one raw transaction queues.\<close>

definition sample_commit :: "unit result \<times> bronze_db" where
  "sample_commit = commit_connector_batch (\<lambda>_. []) (\<lambda>i. i + 100) 40 7 sample_db sample_mat_target 30 [sample_raw] None
     (7, ''a'') empty_bronze"

lemma sample_commit: "fst sample_commit = Inr ()" "map mr_id (br_etl (snd sample_commit)) = [40]"
  by code_simp+

theorem enqueued_run_accepted_witness:
  "\<exists>r sc. br_etl (snd sample_commit) = [r] \<and> scope_of_run sample_mat_ctx r = Inr sc \<and> ms_wallet sc = ''w''
     \<and> fst (run_state (execute_normalize undisturbed_env sample_mat_ctx (\<lambda>_. False) ''w'' (Some 30)) sample_mat_session) =
       batch_outcome (fst (materialize_silver_from_bronze (sample_env 3) [sample_rate_raw] (Some ''w'') (Some 9)
         (mw_db (sn_world sample_mat_session))))"
proof -
  let ?s = sample_mat_session
  obtain r where r: "br_etl (snd sample_commit) = [r]" using sample_commit(2) by (cases "br_etl (snd sample_commit)") auto
  have raws: "get_raw_transactions_by_run 30 (sn_world ?s) = [sample_rate_raw]"
    by (simp add: get_raw_transactions_by_run_def sample_mat_session_def sample_rate_raw_def sample_raw_def)
  have inputs: "get_ingestion_run 30 (mw_ingestion_runs (sn_world ?s)) = Some sample_ingestion_run"
    "ir_target_id sample_ingestion_run = Some (it_id sample_mat_target)"
    "get_index_target (it_id sample_mat_target) (targets_of (sn_world ?s)) = Some sample_mat_target"
    "it_network sample_mat_target = ir_network sample_ingestion_run"
    by (simp_all add: get_ingestion_run_def get_index_target_def targets_of_def sample_mat_session_def sample_ingestion_run_def
        sample_mat_target_def sample_target_def)
  have ctx: "mc_parse_uuid sample_mat_ctx (mc_show_uuid sample_mat_ctx 30) = Some 30"
    "mc_mat sample_mat_ctx = sample_env" "sn_clock ?s = 0" "it_address sample_mat_target = Some ''w''" "it_id sample_mat_target = 9"
    by (simp_all add: sample_mat_ctx_def sample_mat_session_def sample_mat_target_def sample_target_def)
  have "commit_connector_batch (\<lambda>_. []) (\<lambda>i. i + 100) 40 7 sample_db sample_mat_target 30 [sample_raw] None (7, ''a'') empty_bronze
      = (Inr (), snd sample_commit)" using sample_commit(1) by (metis sample_commit_def prod.collapse)
  then have q: "queues_run (mc_show_uuid sample_mat_ctx) sample_mat_target 30 empty_bronze (snd sample_commit)"
    unfolding queues_run_def by (intro disjI1 exI) (simp add: sample_mat_ctx_def)
  have "r \<in> set (br_etl (snd sample_commit))" "r \<notin> set (br_etl empty_bronze)" by (simp_all add: r empty_bronze_def)
  from enqueued_run_accepted [OF quiet_sample ctx(1) q this ctx(4) _ inputs] show ?thesis
    using raws r by (auto simp: ctx)
qed

theorem materialization_run_ends_witness:
  "row_status 6 (sn_world (snd (sample_task (sample_mat_scope\<lparr>ms_ingestion_run_id := None\<rparr>)))) = Some MR_Failed"
proof -
  let ?sc = "sample_mat_scope\<lparr>ms_ingestion_run_id := None\<rparr>"
  have failed: "end_status (fst (run_state (execute_normalize undisturbed_env sample_mat_ctx (\<lambda>_. False) (ms_wallet ?sc)
      (ms_ingestion_run_id ?sc)) sample_mat_session)) = MR_Failed"
    by code_simp
  have rows: "distinct (map mr_id (mw_etl (sn_world sample_mat_session)))" "hd sample_runs \<in> set (mw_etl (sn_world sample_mat_session))"
    "run_holder (hd sample_runs) = Some ''a''" "mr_id (hd sample_runs) = 6"
    by (simp_all add: sample_mat_session_def sample_runs_eq run_holder_def)
  show ?thesis
    using materialization_run_ends [OF quiet_sample rows(1-3) refl, of sample_mat_ctx ?sc] failed rows(4) by simp
qed

end
