(* ===== verification/Export_Jobs.thy ===== *)
theory Export_Jobs
  imports Lease
begin

text \<open>
  Export jobs of the durable control plane (\<open>adapters/src/v2_repo.rs\<close>): enqueueing, the claim of
  the oldest claimable job, heartbeats and the guarded status update. The row operations
  interpret \<open>lease\<close>; the steps of the table show that finished jobs are final.
\<close>

section \<open>Rows and statements\<close>

record export_job =
  ej_id :: uuid
  ej_dataset :: dataset_name
  ej_format :: export_format
  ej_filters :: "json option"
  ej_sink_config :: "json option"
  ej_status :: export_job_status
  ej_worker_id :: "string option"
  ej_record_count :: "int option"
  ej_result_location :: "string option"
  ej_delivery_destination :: "string option"
  ej_error_message :: "string option"
  ej_dataset_version_id :: "uuid option"
  ej_dataset_version :: "int option"
  ej_completeness_status :: "string option"
  ej_completeness_coverage :: "json option"
  ej_last_ingestion_run_id :: "uuid option"
  ej_created_at :: timestamp
  ej_updated_at :: timestamp
  ej_started_at :: "timestamp option"
  ej_completed_at :: "timestamp option"
  ej_heartbeat_at :: "timestamp option"
  ej_owner_id :: "uuid option"

type_synonym exports = "export_job list"

definition coalesce :: "'a option \<Rightarrow> 'a option \<Rightarrow> 'a option" where
  "coalesce a b = (case a of Some x \<Rightarrow> Some x | None \<Rightarrow> b)"

definition enqueue_export_job ::
    "uuid \<Rightarrow> int \<Rightarrow> dataset_name \<Rightarrow> export_format \<Rightarrow> json option \<Rightarrow> json option \<Rightarrow> uuid option \<Rightarrow> exports \<Rightarrow>
     export_job \<times> exports" where
  "enqueue_export_job i now dataset format filters sink owner rows =
     (let job = \<lparr>ej_id = i, ej_dataset = dataset, ej_format = format, ej_filters = filters,
        ej_sink_config = sink, ej_status = EJ_Pending, ej_worker_id = None, ej_record_count = None,
        ej_result_location = None, ej_delivery_destination = None, ej_error_message = None,
        ej_dataset_version_id = None, ej_dataset_version = None, ej_completeness_status = None,
        ej_completeness_coverage = None, ej_last_ingestion_run_id = None, ej_created_at = now,
        ej_updated_at = now, ej_started_at = None, ej_completed_at = None, ej_heartbeat_at = None,
        ej_owner_id = owner\<rparr>
      in (job, rows @ [job]))"

definition in_progress :: "export_job \<Rightarrow> bool" where
  "in_progress r \<longleftrightarrow> ej_status r \<in> {EJ_Running, EJ_Delivering}"

definition export_claimable :: "int \<Rightarrow> export_job \<Rightarrow> bool" where
  "export_claimable now r \<longleftrightarrow> ej_status r = EJ_Pending
     \<or> (in_progress r
        \<and> (case ej_heartbeat_at r of None \<Rightarrow> True | Some t \<Rightarrow> t < now - STALE_JOB_THRESHOLD))"

definition claim_export_row :: "int \<Rightarrow> worker \<Rightarrow> export_job \<Rightarrow> export_job option" where
  "claim_export_row now w r =
     (if export_claimable now r
      then Some (r\<lparr>ej_status := EJ_Running, ej_worker_id := Some w,
                   ej_started_at := coalesce (ej_started_at r) (Some now),
                   ej_heartbeat_at := Some now, ej_updated_at := now\<rparr>)
      else None)"

definition claim_export_job :: "int \<Rightarrow> (export_job \<Rightarrow> bool) \<Rightarrow> worker \<Rightarrow> exports \<Rightarrow> export_job option \<times> exports" where
  "claim_export_job now locked w rows =
     (case select_first ej_created_at locked (export_claimable now) rows of
        None \<Rightarrow> (None, rows)
      | Some r \<Rightarrow> (claim_export_row now w r,
                  snd (update_row ej_id (ej_id r) (claim_export_row now w) rows)))"

text \<open>The optional columns of \<open>update_export_job_status\<close>; \<open>None\<close> keeps the stored value.\<close>

record export_update =
  eu_status :: export_job_status
  eu_record_count :: "int option"
  eu_result_location :: "string option"
  eu_error_message :: "string option"
  eu_delivery_destination :: "string option"
  eu_dataset_version_id :: "uuid option"
  eu_dataset_version :: "int option"
  eu_completeness_status :: "string option"
  eu_completeness_coverage :: "json option"
  eu_last_ingestion_run_id :: "uuid option"

definition update_export_row :: "export_update \<Rightarrow> int \<Rightarrow> worker \<Rightarrow> export_job \<Rightarrow> export_job option" where
  "update_export_row u now w r =
     (if ej_worker_id r = Some w \<and> in_progress r
      then Some (r\<lparr>ej_status := eu_status u,
             ej_record_count := coalesce (eu_record_count u) (ej_record_count r),
             ej_result_location := coalesce (eu_result_location u) (ej_result_location r),
             ej_error_message := coalesce (eu_error_message u) (ej_error_message r),
             ej_completed_at := coalesce
               (if eu_status u = EJ_Completed \<or> eu_status u = EJ_Failed then Some now else None)
               (ej_completed_at r),
             ej_delivery_destination := coalesce (eu_delivery_destination u) (ej_delivery_destination r),
             ej_dataset_version_id := coalesce (eu_dataset_version_id u) (ej_dataset_version_id r),
             ej_dataset_version := coalesce (eu_dataset_version u) (ej_dataset_version r),
             ej_completeness_status := coalesce (eu_completeness_status u) (ej_completeness_status r),
             ej_completeness_coverage := coalesce (eu_completeness_coverage u) (ej_completeness_coverage r),
             ej_last_ingestion_run_id := coalesce (eu_last_ingestion_run_id u) (ej_last_ingestion_run_id r),
             ej_updated_at := now\<rparr>)
      else None)"

definition update_export_job_status :: "int \<Rightarrow> uuid \<Rightarrow> export_update \<Rightarrow> worker \<Rightarrow> exports \<Rightarrow> bool \<times> exports" where
  "update_export_job_status now i u w = update_row ej_id i (update_export_row u now w)"

definition heartbeat_export_row :: "int \<Rightarrow> worker \<Rightarrow> export_job \<Rightarrow> export_job option" where
  "heartbeat_export_row now w r =
     (if ej_worker_id r = Some w \<and> in_progress r
      then Some (r\<lparr>ej_heartbeat_at := Some now, ej_updated_at := now\<rparr>) else None)"

definition heartbeat_export_job :: "int \<Rightarrow> uuid \<Rightarrow> worker \<Rightarrow> exports \<Rightarrow> bool \<times> exports" where
  "heartbeat_export_job now i w = update_row ej_id i (heartbeat_export_row now w)"

definition get_export_job :: "uuid \<Rightarrow> exports \<Rightarrow> export_job option" where
  "get_export_job i rows = find (\<lambda>r. ej_id r = i) rows"

section \<open>Steps of the table\<close>

inductive export_step :: "exports \<Rightarrow> exports \<Rightarrow> bool" where
  enqueue: "i \<notin> ej_id ` set rows \<Longrightarrow> export_step rows (snd (enqueue_export_job i now d f flt sink owner rows))"
| claim: "export_step rows (snd (claim_export_job now locked w rows))"
| update: "export_step rows (snd (update_export_job_status now i u w rows))"
| heartbeat: "export_step rows (snd (heartbeat_export_job now i w rows))"

inductive export_reachable :: "exports \<Rightarrow> bool" where
  init: "export_reachable []"
| step: "export_reachable rows \<Longrightarrow> export_step rows rows' \<Longrightarrow> export_reachable rows'"

section \<open>The lease of a job\<close>

definition export_holder :: "export_job \<Rightarrow> worker option" where
  "export_holder r = (if in_progress r then ej_worker_id r else None)"

definition export_inv :: "export_job \<Rightarrow> bool" where
  "export_inv r \<longleftrightarrow> (in_progress r \<longrightarrow> ej_worker_id r \<noteq> None \<and> ej_heartbeat_at r \<noteq> None)"

abbreviation export_open :: "export_job \<Rightarrow> bool" where
  "export_open r \<equiv> ej_status r = EJ_Pending \<or> in_progress r"

lemma claim_export_rowD:
  assumes "claim_export_row now w r = Some r'"
  shows "export_claimable now r" "ej_status r' = EJ_Running" "ej_worker_id r' = Some w"
    "ej_heartbeat_at r' = Some now" "ej_id r' = ej_id r" "ej_created_at r' = ej_created_at r"
proof -
  show c: "export_claimable now r"
    by (rule ccontr) (use assms in \<open>simp only: claim_export_row_def if_False option.distinct\<close>)
  have "r' = the (claim_export_row now w r)" using assms by (simp only: option.sel)
  then show "ej_status r' = EJ_Running" "ej_worker_id r' = Some w"
    "ej_heartbeat_at r' = Some now" "ej_id r' = ej_id r" "ej_created_at r' = ej_created_at r"
    using c by (simp_all add: claim_export_row_def)
qed

lemma heartbeat_export_rowD:
  assumes "heartbeat_export_row now w r = Some r'"
  shows "ej_worker_id r = Some w" "in_progress r" "ej_status r' = ej_status r"
    "ej_worker_id r' = Some w" "ej_heartbeat_at r' = Some now" "ej_id r' = ej_id r"
proof -
  have c: "ej_worker_id r = Some w \<and> in_progress r"
    by (rule ccontr) (use assms in \<open>simp only: heartbeat_export_row_def if_False option.distinct\<close>)
  have "r' = the (heartbeat_export_row now w r)" using assms by (simp only: option.sel)
  then show "ej_status r' = ej_status r" "ej_worker_id r' = Some w" "ej_heartbeat_at r' = Some now"
    "ej_id r' = ej_id r" using c by (simp_all add: heartbeat_export_row_def)
  from c show "ej_worker_id r = Some w" "in_progress r" by blast+
qed

lemma update_export_rowD:
  assumes "update_export_row u now w r = Some r'"
  shows "ej_worker_id r = Some w" "in_progress r" "ej_status r' = eu_status u"
    "ej_worker_id r' = Some w" "ej_heartbeat_at r' = ej_heartbeat_at r" "ej_id r' = ej_id r"
proof -
  have c: "ej_worker_id r = Some w \<and> in_progress r"
    by (rule ccontr) (use assms in \<open>simp only: update_export_row_def if_False option.distinct\<close>)
  have "r' = the (update_export_row u now w r)" using assms by (simp only: option.sel)
  then show "ej_status r' = eu_status u" "ej_worker_id r' = Some w"
    "ej_heartbeat_at r' = ej_heartbeat_at r" "ej_id r' = ej_id r"
    using c by (simp_all add: update_export_row_def)
  from c show "ej_worker_id r = Some w" "in_progress r" by blast+
qed

lemma export_holder_iff: "export_holder r = Some w \<longleftrightarrow> in_progress r \<and> ej_worker_id r = Some w"
  by (simp add: export_holder_def)

lemma claim_export_row_iff: "claim_export_row now w r \<noteq> None \<longleftrightarrow> export_claimable now r"
  by (simp add: claim_export_row_def)

interpretation el: lease export_inv export_holder ej_heartbeat_at export_open
    claim_export_row heartbeat_export_row update_export_row
proof
  fix r r' :: export_job and now t :: int and v w :: worker and u :: export_update
  show "export_inv r \<Longrightarrow> export_holder r = Some v \<Longrightarrow> \<exists>t. ej_heartbeat_at r = Some t"
    by (auto simp: export_inv_def export_holder_iff)
  show "export_inv r \<Longrightarrow> claim_export_row now w r = Some r' \<Longrightarrow>
      export_inv r' \<and> export_holder r' = Some w \<and> ej_heartbeat_at r' = Some now"
    using claim_export_rowD by (simp add: export_inv_def export_holder_iff in_progress_def)
  show "export_inv r \<Longrightarrow> export_open r \<Longrightarrow> export_holder r = None \<Longrightarrow> claim_export_row now w r \<noteq> None"
    unfolding claim_export_row_iff
    by (auto simp: export_claimable_def export_holder_def export_inv_def split: if_splits)
  show "export_inv r \<Longrightarrow> export_open r \<Longrightarrow> ej_heartbeat_at r = Some t \<Longrightarrow>
      t + STALE_JOB_THRESHOLD < now \<Longrightarrow> claim_export_row now w r \<noteq> None"
    unfolding claim_export_row_iff by (auto simp: export_claimable_def)
  show "export_inv r \<Longrightarrow> export_holder r = Some v \<Longrightarrow> ej_heartbeat_at r = Some t \<Longrightarrow>
      now < t + STALE_JOB_THRESHOLD \<Longrightarrow> claim_export_row now w r = None"
    using claim_export_row_iff [of now w r]
    by (cases "claim_export_row now w r") (auto simp: export_claimable_def export_holder_iff in_progress_def)
  show "export_inv r \<Longrightarrow> heartbeat_export_row now w r = Some r' \<Longrightarrow>
      export_holder r = Some w \<and> export_inv r' \<and> export_holder r' = Some w \<and> ej_heartbeat_at r' = Some now"
    using heartbeat_export_rowD by (simp add: export_inv_def export_holder_iff in_progress_def)
  show "export_inv r \<Longrightarrow> export_holder r = Some w \<Longrightarrow> heartbeat_export_row now w r \<noteq> None"
    by (simp add: heartbeat_export_row_def export_holder_iff)
  show "export_inv r \<Longrightarrow> update_export_row u now w r = Some r' \<Longrightarrow> export_holder r = Some w \<and> export_inv r'
      \<and> (export_holder r' = None \<or> export_holder r' = Some w \<and> ej_heartbeat_at r' = ej_heartbeat_at r)"
    using update_export_rowD by (simp add: export_inv_def export_holder_def)
qed

section \<open>Invariants of the table\<close>

lemmas export_rows_id = claim_export_rowD(5) heartbeat_export_rowD(6) update_export_rowD(6)

lemma snd_claim_export:
  "snd (claim_export_job now locked w rows) =
     (case select_first ej_created_at locked (export_claimable now) rows of
        None \<Rightarrow> rows
      | Some r \<Rightarrow> snd (update_row ej_id (ej_id r) (claim_export_row now w) rows))"
  by (simp add: claim_export_job_def split: option.split)

lemma export_step_inv:
  assumes "export_step rows rows'" "\<forall>r \<in> set rows. export_inv r" "distinct (map ej_id rows)"
  shows "(\<forall>r \<in> set rows'. export_inv r) \<and> distinct (map ej_id rows')"
  using assms
proof (induction rule: export_step.induct)
  case (enqueue i rows now d f flt sink owner)
  then show ?case by (auto simp: enqueue_export_job_def Let_def export_inv_def in_progress_def)
next
  case (claim rows now locked w)
  have "(\<forall>r \<in> set (snd (update_row ej_id i (claim_export_row now w) rows)). export_inv r)
      \<and> distinct (map ej_id (snd (update_row ej_id i (claim_export_row now w) rows)))" for i
    by (rule update_row_inv [OF claim]) (use el.claim_holds export_rows_id(1) in blast)+
  with claim show ?case by (simp add: snd_claim_export split: option.split)
next
  case (update rows now i u w)
  show ?case unfolding update_export_job_status_def
    by (rule update_row_inv [OF update]) (use el.work_holds export_rows_id(3) in blast)+
next
  case (heartbeat rows now i w)
  show ?case unfolding heartbeat_export_job_def
    by (rule update_row_inv [OF heartbeat]) (use el.beat_holds export_rows_id(2) in blast)+
qed

lemma export_reachable_inv:
  "export_reachable rows \<Longrightarrow> (\<forall>r \<in> set rows. export_inv r) \<and> distinct (map ej_id rows)"
  by (induction rule: export_reachable.induct) (auto dest: export_step_inv)

section \<open>Properties\<close>

text \<open>
  A claim takes the oldest job that is pending or abandoned and not locked by a concurrent
  claim, makes the worker its holder with a fresh heartbeat and leaves every other job as it was;
  it returns nothing only when every claimable job is locked.
\<close>

theorem claim_export_fifo:
  assumes "export_reachable rows" "(res, rows') = claim_export_job now locked w rows"
  shows "case res of
      None \<Rightarrow> rows' = rows \<and> (\<forall>r \<in> set rows. export_claimable now r \<longrightarrow> locked r)
    | Some job \<Rightarrow> job \<in> set rows' \<and> ej_status job = EJ_Running \<and> ej_worker_id job = Some w
        \<and> ej_heartbeat_at job = Some now
        \<and> (\<exists>r \<in> set rows. ej_id r = ej_id job \<and> export_claimable now r \<and> \<not> locked r
             \<and> (\<forall>q \<in> set rows. export_claimable now q \<longrightarrow> \<not> locked q \<longrightarrow> ej_created_at r \<le> ej_created_at q))
        \<and> (\<forall>q \<in> set rows. ej_id q \<noteq> ej_id job \<longrightarrow> q \<in> set rows')"
proof (cases "select_first ej_created_at locked (export_claimable now) rows")
  case None
  then have "res = None" "rows' = rows" using assms(2) by (simp_all add: claim_export_job_def)
  with None show ?thesis by (simp add: select_first_None_iff)
next
  case (Some r)
  note sel = select_first_Some [OF Some]
  obtain job where job: "claim_export_row now w r = Some job"
    using sel(2) claim_export_row_iff [of now w r] by blast
  note D = claim_export_rowD [OF job]
  have dist: "distinct (map ej_id rows)" using export_reachable_inv [OF assms(1)] by blast
  have res: "res = Some job" and rows': "rows' = snd (update_row ej_id (ej_id r) (claim_export_row now w) rows)"
    using assms(2) Some job by (simp_all add: claim_export_job_def)
  have "job \<in> set rows'"
    unfolding rows' by (rule update_row_unique(3) [where f = "claim_export_row now w", OF dist sel(1) job])
  moreover have "q \<in> set rows'" if "q \<in> set rows" "ej_id q \<noteq> ej_id job" for q
    using that D(5) unfolding rows' update_row_def by force
  ultimately show ?thesis using res D sel by auto
qed

definition sample_exports :: exports where
  "sample_exports = snd (enqueue_export_job 4 0 DS_TokenTransfers Fmt_Csv None None None [])"

lemma sample_exports_reachable: "export_reachable sample_exports"
  unfolding sample_exports_def
  by (rule export_reachable.step [OF export_reachable.init export_step.enqueue]) simp

theorem claim_export_fifo_witness:
  "case fst (claim_export_job 5 (\<lambda>_. False) ''a'' sample_exports) of
     None \<Rightarrow> False | Some job \<Rightarrow> ej_worker_id job = Some ''a'' \<and> ej_heartbeat_at job = Some 5"
proof -
  have "sample_exports \<noteq> []" and "export_claimable 5 (hd sample_exports)"
    by (simp_all add: sample_exports_def enqueue_export_job_def Let_def export_claimable_def)
  then show ?thesis
    using claim_export_fifo [OF sample_exports_reachable prod.collapse, of 5 "\<lambda>_. False" "''a''"]
    by (auto split: option.splits)
qed

lemma update_row_keeps:
  "r \<in> set rows \<Longrightarrow> (idf r = i \<Longrightarrow> f r = None) \<Longrightarrow> r \<in> set (snd (update_row idf i f rows))"
  by (force simp: update_row_def)

lemma finished_refused:
  assumes "ej_status r = EJ_Completed \<or> ej_status r = EJ_Failed"
  shows "claim_export_row now w r = None" "heartbeat_export_row now w r = None" "update_export_row u now w r = None"
  using assms
  by (auto simp: claim_export_row_def heartbeat_export_row_def update_export_row_def export_claimable_def in_progress_def)

text \<open>
  Finished export jobs are final: whatever sequence of enqueue, claim, update and heartbeat
  statements runs, by whichever workers and at whatever times, a completed or failed job keeps
  its row unchanged.
\<close>

theorem finished_exports_final:
  assumes "export_step\<^sup>*\<^sup>* rows rows'" "r \<in> set rows" "ej_status r = EJ_Completed \<or> ej_status r = EJ_Failed"
  shows "r \<in> set rows'"
  using assms(1,2)
proof (induction rule: rtranclp_induct)
  case (step rows' rows'')
  then have r: "r \<in> set rows'" by blast
  note keep = update_row_keeps [OF r]
  from step(2) show ?case
  proof cases
    case (enqueue i now d f flt sink owner)
    then show ?thesis using r by (simp add: enqueue_export_job_def Let_def)
  next
    case (claim now locked w)
    then show ?thesis using r keep finished_refused(1) [OF assms(3)]
      by (simp add: snd_claim_export split: option.split)
  next
    case (update now i u w)
    then show ?thesis using keep finished_refused(3) [OF assms(3)] by (simp add: update_export_job_status_def)
  next
    case (heartbeat now i w)
    then show ?thesis using keep finished_refused(2) [OF assms(3)] by (simp add: heartbeat_export_job_def)
  qed
qed

definition done_job :: export_job where
  "done_job = (hd sample_exports)\<lparr>ej_status := EJ_Completed\<rparr>"

theorem finished_exports_final_witness:
  "done_job \<in> set (snd (claim_export_job 5 (\<lambda>_. False) ''a'' [done_job]))"
  using finished_exports_final [of "[done_job]" "snd (claim_export_job 5 (\<lambda>_. False) ''a'' [done_job])" done_job]
    export_step.claim [of "[done_job]" 5 "\<lambda>_. False" "''a''"]
  by (simp add: r_into_rtranclp) (simp add: done_job_def)

text \<open>
  A worker that lost an export to another cannot disturb it: in every reachable table, the
  status update and the heartbeat of a worker that is not the holder of the job report no row
  and change nothing, and while the holder's heartbeat is fresh no claim picks the job.
\<close>

theorem export_fencing:
  assumes "export_reachable rows" "r \<in> set rows" "export_holder r = Some w" "v \<noteq> w"
  shows "update_export_job_status now (ej_id r) u v rows = (False, rows)
    \<and> heartbeat_export_job now (ej_id r) v rows = (False, rows)
    \<and> (\<forall>t job. ej_heartbeat_at r = Some t \<and> now < t + STALE_JOB_THRESHOLD \<longrightarrow>
         fst (claim_export_job now locked v rows) = Some job \<longrightarrow> ej_id job \<noteq> ej_id r)"
proof -
  have inv: "export_inv r" and dist: "distinct (map ej_id rows)"
    using export_reachable_inv [OF assms(1)] assms(2) by auto
  note refuse = update_row_unique(2) [OF dist assms(2)]
  have "export_holder r \<noteq> Some v" using assms(3,4) by simp
  note fenced = el.fenced [OF inv this]
  have "ej_id job \<noteq> ej_id r"
    if "ej_heartbeat_at r = Some t" "now < t + STALE_JOB_THRESHOLD"
      "fst (claim_export_job now locked v rows) = Some job" for t job
  proof
    assume eq: "ej_id job = ej_id r"
    from that(3) obtain q where q: "select_first ej_created_at locked (export_claimable now) rows = Some q"
        "claim_export_row now v q = Some job"
      by (auto simp: claim_export_job_def split: option.splits)
    have "q = r" using select_first_Some(1) [OF q(1)] claim_export_rowD(5) [OF q(2)] eq
        unique_row [OF dist assms(2)] by metis
    with el.claim_fresh [OF inv assms(3) that(1,2)] q(2) show False by simp
  qed
  with refuse fenced show ?thesis
    by (auto simp: update_export_job_status_def heartbeat_export_job_def)
qed

theorem export_fencing_witness:
  "\<not> fst (heartbeat_export_job 6 4 ''b'' (snd (claim_export_job 5 (\<lambda>_. False) ''a'' sample_exports)))"
proof -
  let ?rows = "snd (claim_export_job 5 (\<lambda>_. False) ''a'' sample_exports)"
  have reach: "export_reachable ?rows"
    by (rule export_reachable.step [OF sample_exports_reachable export_step.claim])
  obtain r where "r \<in> set ?rows" "ej_id r = 4" "export_holder r = Some ''a''"
  proof -
    have "?rows = [the (claim_export_row 5 ''a'' (hd sample_exports))]"
      by (simp add: claim_export_job_def select_first_def sample_exports_def enqueue_export_job_def
          Let_def export_claimable_def update_row_def claim_export_row_def)
    moreover have "ej_id (the (claim_export_row 5 ''a'' (hd sample_exports))) = 4
        \<and> export_holder (the (claim_export_row 5 ''a'' (hd sample_exports))) = Some ''a''"
      by (simp add: sample_exports_def enqueue_export_job_def Let_def export_claimable_def
          claim_export_row_def export_holder_def in_progress_def)
    ultimately show ?thesis using that by simp
  qed
  then show ?thesis using export_fencing [OF reach, of r "''a''" "''b''" 6] by auto
qed

end
