(* ===== verification/Export_Worker.thy ===== *)
theory Export_Worker
  imports Worker_Steps Export_Jobs Dataset_Queries
begin

text \<open>
  The export worker (\<open>api/src/export_worker.rs\<close>) and the sinks it delivers to (\<open>api/src/main.rs\<close>):
  a claimed job is written to a file of its attempt, published by a rename after a status update that
  needs the lease, described by a provenance file, delivered to its sink and closed.

  The world of this worker is the queue, the exported tables, the files below the export directory and
  the requests sent to webhooks. An operation on a file is a statement like one on the database: it may
  fail, and others may act before it. \<open>lost k\<close> is the state of the lease token at the \<open>k\<close>-th statement.
\<close>

section \<open>Filters of a job\<close>

definition parse_optional_uuid :: "(string \<Rightarrow> uuid result) \<Rightarrow> json \<Rightarrow> string \<Rightarrow> uuid option result" where
  "parse_optional_uuid pu flt key =
     (case json_get flt key of
        None \<Rightarrow> Inr None
      | Some JNull \<Rightarrow> Inr None
      | Some (JString v) \<Rightarrow> (case pu v of
            Inr u \<Rightarrow> Inr (Some u) | Inl e \<Rightarrow> Inl (''invalid '' @ key @ '': '' @ e))
      | Some _ \<Rightarrow> Inl (''invalid '' @ key @ '': expected UUID string''))"

definition parse_optional_string :: "json \<Rightarrow> string \<Rightarrow> string option result" where
  "parse_optional_string flt key =
     (case json_get flt key of
        None \<Rightarrow> Inr None
      | Some JNull \<Rightarrow> Inr None
      | Some (JString v) \<Rightarrow> Inr (Some v)
      | Some _ \<Rightarrow> Inl (''invalid '' @ key @ '': expected string''))"

definition parse_optional_i64 :: "json \<Rightarrow> string \<Rightarrow> int option result" where
  "parse_optional_i64 flt key =
     (case json_get flt key of
        None \<Rightarrow> Inr None
      | Some JNull \<Rightarrow> Inr None
      | Some v \<Rightarrow> (case json_as_i64 v of
            Some n \<Rightarrow> Inr (Some n) | None \<Rightarrow> Inl (''invalid '' @ key @ '': expected integer'')))"

definition parse_filters :: "(string \<Rightarrow> uuid result) \<Rightarrow> json option \<Rightarrow> filters result" where
  "parse_filters pu flt =
     (case flt of
        None \<Rightarrow> Inr \<lparr>f_target = None, f_network = None, f_start = None, f_end = None\<rparr>
      | Some v \<Rightarrow>
          (case parse_optional_uuid pu v ''target_id'' of
             Inl e \<Rightarrow> Inl e
           | Inr target \<Rightarrow> (case parse_optional_string v ''network'' of
               Inl e \<Rightarrow> Inl e
             | Inr network \<Rightarrow> (case parse_optional_i64 v ''time_start'' of
                 Inl e \<Rightarrow> Inl e
               | Inr t0 \<Rightarrow> (case parse_optional_i64 v ''time_end'' of
                   Inl e \<Rightarrow> Inl e
                 | Inr t1 \<Rightarrow> Inr \<lparr>f_target = target, f_network = network, f_start = t0, f_end = t1\<rparr>)))))"

definition record_count_i32_or_max :: "nat \<Rightarrow> int" where
  "record_count_i32_or_max n = min (int n) (2 ^ 31 - 1)"

section \<open>The world of the worker\<close>

record webhook_request =
  wr_client :: client
  wr_url :: string
  wr_headers :: "(string \<times> string) list"
  wr_body :: string

record 'd export_world =
  ew_jobs :: exports
  ew_db :: "'d dataset_db"
  ew_versions :: "dataset_version list"
  ew_completeness :: "dataset_completeness list"
  ew_files :: "path \<Rightarrow> string option"
  ew_requests :: "webhook_request list"

text \<open>
  \<open>xc_root\<close> is the export directory, a real path; \<open>xc_hash\<close> the tag of a worker id, \<open>xc_cancelled\<close> the
  token as the write loop reads it before each page, \<open>xc_symlink\<close> the paths that \<open>O_NOFOLLOW\<close> refuses,
  \<open>xc_post\<close> the outcome of a request.
\<close>

record 'd export_ctx =
  xc_root :: path
  xc_canon :: "path \<Rightarrow> path option"
  xc_printers :: "'d printers"
  xc_jsonl :: "'d export_record_batch \<Rightarrow> string list"
  xc_protocol_spec :: "json \<Rightarrow> protocol_filter_spec result"
  xc_stream :: stream_env
  xc_cancelled :: "nat \<Rightarrow> bool"
  xc_parse_uuid :: "string \<Rightarrow> uuid result"
  xc_show_uuid :: "uuid \<Rightarrow> string"
  xc_hash :: "worker \<Rightarrow> string"
  xc_rfc3339 :: "int \<Rightarrow> string"
  xc_json :: "json \<Rightarrow> string"
  xc_parse_sink :: "json \<Rightarrow> sink_config result"
  xc_symlink :: "path \<Rightarrow> bool"
  xc_net :: net_env
  xc_dns :: "string \<Rightarrow> ip_addr list result"
  xc_post :: "webhook_request \<Rightarrow> nat result"
  xc_show_status :: "nat \<Rightarrow> string"

definition exports_dir :: "'d export_ctx \<Rightarrow> path" where
  "exports_dir xc = xc_root xc @ [''exports'']"

definition job_file :: "'d export_ctx \<Rightarrow> export_job \<Rightarrow> string" where
  "job_file xc job = xc_show_uuid xc (ej_id job) @ ''.'' @ export_format_to_str (ej_format job)"

definition attempt_temp_path :: "'d export_ctx \<Rightarrow> export_job \<Rightarrow> worker \<Rightarrow> path" where
  "attempt_temp_path xc job w = exports_dir xc @
     [xc_show_uuid xc (ej_id job) @ ''.'' @ xc_hash xc w @ ''.'' @ export_format_to_str (ej_format job) @ ''.tmp'']"

definition final_path :: "'d export_ctx \<Rightarrow> export_job \<Rightarrow> path" where
  "final_path xc job = exports_dir xc @ [job_file xc job]"

definition result_location :: "'d export_ctx \<Rightarrow> export_job \<Rightarrow> string" where
  "result_location xc job = ''exports/'' @ job_file xc job"

definition provenance_path :: "'d export_ctx \<Rightarrow> export_job \<Rightarrow> path" where
  "provenance_path xc job = exports_dir xc @ [xc_show_uuid xc (ej_id job) @ ''.provenance.json'']"

definition provenance_temp_path :: "'d export_ctx \<Rightarrow> export_job \<Rightarrow> worker \<Rightarrow> path" where
  "provenance_temp_path xc job w = exports_dir xc @
     [xc_show_uuid xc (ej_id job) @ ''.provenance.json.'' @ xc_hash xc w @ ''.tmp'']"

section \<open>Files\<close>

definition not_found :: string where
  "not_found = ''No such file or directory (os error 2)''"

definition put_file :: "path \<Rightarrow> string \<Rightarrow> 'd export_world \<Rightarrow> 'd export_world" where
  "put_file p c wd = wd\<lparr>ew_files := (ew_files wd)(p \<mapsto> c)\<rparr>"

definition remove_file :: "path \<Rightarrow> nat \<Rightarrow> 'd export_world \<Rightarrow> unit result \<times> 'd export_world" where
  "remove_file p k wd =
     (if ew_files wd p = None then (Inl not_found, wd)
      else (Inr (), wd\<lparr>ew_files := (ew_files wd)(p := None)\<rparr>))"

definition rename_file :: "path \<Rightarrow> path \<Rightarrow> nat \<Rightarrow> 'd export_world \<Rightarrow> unit result \<times> 'd export_world" where
  "rename_file p q k wd =
     (case ew_files wd p of
        None \<Rightarrow> (Inl not_found, wd)
      | Some c \<Rightarrow> (Inr (), wd\<lparr>ew_files := (ew_files wd)(p := None, q \<mapsto> c)\<rparr>))"

definition best_effort_unlink :: "'d export_world env \<Rightarrow> path \<Rightarrow> ('d export_world session, unit) state" where
  "best_effort_unlink en p = best_effort (query en (remove_file p))"

text \<open>The token, read between two statements.\<close>

definition lease_lost :: "(nat \<Rightarrow> bool) \<Rightarrow> ('w session, bool) state" where
  "lease_lost lost = State (\<lambda>s. (lost (sn_clock s), s))"

section \<open>Sinks\<close>

record delivery_metadata =
  dm_job_id :: uuid
  dm_dataset :: string
  dm_format :: string
  dm_record_count :: nat
  dm_dataset_version_id :: "uuid option"
  dm_completeness_status :: "string option"

definition show_path :: "path \<Rightarrow> string" where
  "show_path p = concat (map (\<lambda>c. CHR ''/'' # c) p)"

text \<open>\<open>copy_no_follow\<close> opens the destination with truncation before it copies.\<close>

definition copy_no_follow :: "(path \<Rightarrow> bool) \<Rightarrow> path \<Rightarrow> path \<Rightarrow> 'd export_world \<Rightarrow> unit result \<times> 'd export_world" where
  "copy_no_follow symlink src dst wd =
     (if symlink src then (Inl ''Too many levels of symbolic links (os error 40)'', wd)
      else case ew_files wd src of
        None \<Rightarrow> (Inl not_found, wd)
      | Some c \<Rightarrow>
          if symlink dst then (Inl ''Too many levels of symbolic links (os error 40)'', wd)
          else (Inr (), put_file dst (if dst = src then [] else c) wd))"

definition build_request :: "'d export_ctx \<Rightarrow> (string \<times> string) list option \<Rightarrow> delivery_metadata \<Rightarrow> (string \<times> string) list" where
  "build_request xc headers m =
     [(''Content-Type'', if dm_format m = ''csv'' then ''text/csv; charset=utf-8'' else ''application/x-ndjson''),
      (''X-Export-Dataset'', dm_dataset m), (''X-Export-Format'', dm_format m),
      (''X-Export-Record-Count'', show_nat (dm_record_count m)), (''X-Export-Job-Id'', xc_show_uuid xc (dm_job_id m))]
     @ (case headers of None \<Rightarrow> [] | Some hs \<Rightarrow> hs)"

definition local_file_delivery ::
    "'d export_ctx \<Rightarrow> path \<Rightarrow> path \<Rightarrow> 'd export_world \<Rightarrow> string result \<times> 'd export_world" where
  "local_file_delivery xc p src wd =
     (case copy_no_follow (xc_symlink xc) src p wd of
        (Inl e, wd') \<Rightarrow> (Inl (''Failed to copy export artifact '' @ show_path src @ '' -> '' @ show_path p @ '': '' @ e), wd')
      | (Inr _, wd') \<Rightarrow> (Inr (show_path p), wd'))"

definition webhook_delivery ::
    "'d export_ctx \<Rightarrow> string \<Rightarrow> (string \<times> string) list option \<Rightarrow> path \<Rightarrow> delivery_metadata \<Rightarrow> 'd export_world \<Rightarrow>
     string result \<times> 'd export_world" where
  "webhook_delivery xc u headers src m wd =
     (case build_ssrf_safe_client (xc_net xc) (xc_dns xc) u 30 of
        Inl e \<Rightarrow> (Inl e, wd)
      | Inr cl \<Rightarrow> (case ew_files wd src of
          None \<Rightarrow> (Inl (''Failed to stat export artifact '' @ show_path src @ '': '' @ not_found), wd)
        | Some c \<Rightarrow>
            let req = \<lparr>wr_client = cl, wr_url = u,
                  wr_headers = build_request xc headers m @ [(''content-length'', show_nat (length c))], wr_body = c\<rparr>;
                wd' = wd\<lparr>ew_requests := ew_requests wd @ [req]\<rparr>
            in case xc_post xc req of
                 Inl e \<Rightarrow> (Inl (''Webhook POST to '' @ u @ '' failed: '' @ e), wd')
               | Inr st \<Rightarrow> if is_success st then (Inr u, wd')
                          else (Inl (''Webhook returned non-success status: '' @ xc_show_status xc st), wd')))"

fun deliver_from_file ::
    "'d export_ctx \<Rightarrow> export_sink \<Rightarrow> path \<Rightarrow> delivery_metadata \<Rightarrow> nat \<Rightarrow> 'd export_world \<Rightarrow> string result \<times> 'd export_world" where
  "deliver_from_file xc (LocalFileSink p) src m k wd = local_file_delivery xc p src wd"
| "deliver_from_file xc (WebhookSink u headers) src m k wd = webhook_delivery xc u headers src m wd"

section \<open>Status updates\<close>

text \<open>The columns of an update: status, counters and provenance of the artifact, error, destination.\<close>

definition job_update ::
    "export_job_status \<Rightarrow> (int \<times> string \<times> export_metadata) option \<Rightarrow> string option \<Rightarrow> string option \<Rightarrow> export_update" where
  "job_update st artifact err dest =
     (case artifact of
        None \<Rightarrow> \<lparr>eu_status = st, eu_record_count = None, eu_result_location = None, eu_error_message = err,
           eu_delivery_destination = dest, eu_dataset_version_id = None, eu_dataset_version = None,
           eu_completeness_status = None, eu_completeness_coverage = None, eu_last_ingestion_run_id = None\<rparr>
      | Some (n, location, meta) \<Rightarrow> \<lparr>eu_status = st, eu_record_count = Some n, eu_result_location = Some location,
           eu_error_message = err, eu_delivery_destination = dest, eu_dataset_version_id = em_dataset_version_id meta,
           eu_dataset_version = em_dataset_version meta, eu_completeness_status = em_completeness_status meta,
           eu_completeness_coverage = em_completeness_coverage meta,
           eu_last_ingestion_run_id = em_last_ingestion_run_id meta\<rparr>)"

definition update_or_abort ::
    "'d export_world env \<Rightarrow> uuid \<Rightarrow> worker \<Rightarrow> export_update \<Rightarrow> ('d export_world session, bool) state" where
  "update_or_abort en i w u =
     do { r \<leftarrow> query en (\<lambda>k wd. case update_export_job_status (en_now en k) i u w (ew_jobs wd) of
            (ok, rows) \<Rightarrow> (Inr ok, wd\<lparr>ew_jobs := rows\<rparr>));
          State_Monad.return (case r of Inl _ \<Rightarrow> False | Inr ok \<Rightarrow> ok) }"

section \<open>Writing and publishing\<close>

definition export_artifact ::
    "'d export_ctx \<Rightarrow> export_job \<Rightarrow> filters \<Rightarrow> 'd export_world \<Rightarrow> string option \<times> (nat \<times> export_metadata) result" where
  "export_artifact xc job flt wd =
     write_export_to_file (xc_printers xc) (xc_jsonl xc) (xc_protocol_spec xc) (xc_stream xc) (xc_cancelled xc)
       (as_sql_str (ej_dataset job)) (ej_format job) flt (ew_versions wd) (ew_completeness wd) (ew_db wd)"

definition write_artifact ::
    "'d export_ctx \<Rightarrow> export_job \<Rightarrow> filters \<Rightarrow> path \<Rightarrow> nat \<Rightarrow> 'd export_world \<Rightarrow>
     (nat \<times> export_metadata) result \<times> 'd export_world" where
  "write_artifact xc job flt temp k wd =
     (case export_artifact xc job flt wd of
        (content, r) \<Rightarrow> (r, case content of None \<Rightarrow> wd | Some c \<Rightarrow> put_file temp c wd))"

definition json_option :: "('a \<Rightarrow> json) \<Rightarrow> 'a option \<Rightarrow> json" where
  "json_option f x = (case x of None \<Rightarrow> JNull | Some y \<Rightarrow> f y)"

definition provenance_json :: "'d export_ctx \<Rightarrow> int \<Rightarrow> export_job \<Rightarrow> nat \<Rightarrow> export_metadata \<Rightarrow> json" where
  "provenance_json xc now job n meta = JObject
     [(''export_job_id'', JString (xc_show_uuid xc (ej_id job))), (''dataset'', JString (as_sql_str (ej_dataset job))),
      (''format'', JString (export_format_to_str (ej_format job))), (''record_count'', JInt (int n)),
      (''exported_at'', JString (xc_rfc3339 xc now)),
      (''dataset_version_id'', json_option (\<lambda>u. JString (xc_show_uuid xc u)) (em_dataset_version_id meta)),
      (''dataset_version'', json_option JInt (em_dataset_version meta)),
      (''completeness_status'', json_option JString (em_completeness_status meta)),
      (''completeness_coverage'', json_option id (em_completeness_coverage meta)),
      (''last_ingestion_run_id'', json_option (\<lambda>u. JString (xc_show_uuid xc u)) (em_last_ingestion_run_id meta))]"

definition write_provenance_file ::
    "'d export_world env \<Rightarrow> 'd export_ctx \<Rightarrow> (nat \<Rightarrow> bool) \<Rightarrow> worker \<Rightarrow> export_job \<Rightarrow> nat \<Rightarrow> export_metadata \<Rightarrow>
     ('d export_world, unit) prog" where
  "write_provenance_file en xc lost w job n meta =
     (let temp = provenance_temp_path xc job w in
      attempt (query en (\<lambda>k wd. (Inr (), put_file temp (xc_json xc (provenance_json xc (en_now en k) job n meta)) wd))) (\<lambda>_.
      do { gone \<leftarrow> lease_lost lost;
           (if gone
            then do { best_effort (query en (remove_file temp)); bail ''lease lost before provenance publish'' }
            else query en (rename_file temp (provenance_path xc job))) }))"

text \<open>The result says whether the job goes on.\<close>

definition publish ::
    "'d export_world env \<Rightarrow> 'd export_ctx \<Rightarrow> (nat \<Rightarrow> bool) \<Rightarrow> worker \<Rightarrow> export_job \<Rightarrow> nat \<Rightarrow> export_metadata \<Rightarrow>
     ('d export_world session, bool) state" where
  "publish en xc lost w job n meta =
     (let temp = attempt_temp_path xc job w; artifact = Some (record_count_i32_or_max n, result_location xc job, meta);
          failed = (\<lambda>err. update_or_abort en (ej_id job) w (job_update EJ_Failed artifact (Some err) None))
      in do { ok \<leftarrow> update_or_abort en (ej_id job) w (job_update EJ_Delivering artifact None None);
              (if \<not> ok then do { best_effort_unlink en temp; State_Monad.return False }
               else do { gone \<leftarrow> lease_lost lost;
                 (if gone then do { best_effort_unlink en temp; State_Monad.return False }
                  else do { renamed \<leftarrow> query en (rename_file temp (final_path xc job));
                    (case renamed of
                       Inl e \<Rightarrow> do { best_effort_unlink en temp;
                                     _ \<leftarrow> failed (''Failed to publish export artifact: '' @ error_text e);
                                     State_Monad.return False }
                     | Inr _ \<Rightarrow> do { prov \<leftarrow> write_provenance_file en xc lost w job n meta;
                         (case prov of
                            Inl e \<Rightarrow> do { _ \<leftarrow> failed (''Failed to write provenance sidecar: '' @ error_text e);
                                          State_Monad.return False }
                          | Inr _ \<Rightarrow> State_Monad.return True) }) }) }) })"

section \<open>Delivery and completion\<close>

definition delivery_metadata_of :: "export_job \<Rightarrow> nat \<Rightarrow> export_metadata \<Rightarrow> delivery_metadata" where
  "delivery_metadata_of job n meta = \<lparr>dm_job_id = ej_id job, dm_dataset = as_sql_str (ej_dataset job),
     dm_format = export_format_to_str (ej_format job), dm_record_count = n,
     dm_dataset_version_id = em_dataset_version_id meta, dm_completeness_status = em_completeness_status meta\<rparr>"

definition exported_but :: "nat \<Rightarrow> string \<Rightarrow> string \<Rightarrow> string" where
  "exported_but n what e = ''Exported '' @ show_nat n @ '' records, but sink '' @ what @ '' failed: '' @ e"

definition deliver ::
    "'d export_world env \<Rightarrow> 'd export_ctx \<Rightarrow> export_job \<Rightarrow> json \<Rightarrow> nat \<Rightarrow> export_metadata \<Rightarrow>
     ('d export_world session, string result) state" where
  "deliver en xc job sink_value n meta =
     (case xc_parse_sink xc sink_value of
        Inl e \<Rightarrow> State_Monad.return (Inl (exported_but n ''config parse'' e))
      | Inr c \<Rightarrow> (case build_sink (xc_canon xc) c (xc_root xc) of
          Inl e \<Rightarrow> State_Monad.return (Inl (exported_but n ''build'' e))
        | Inr sink \<Rightarrow>
            do { r \<leftarrow> query en (deliver_from_file xc sink (final_path xc job) (delivery_metadata_of job n meta));
                 State_Monad.return (case r of
                   Inl e \<Rightarrow> Inl (exported_but n ''delivery'' (error_text e)) | Inr dest \<Rightarrow> Inr dest) }))"

definition deliver_to_sink ::
    "'d export_world env \<Rightarrow> 'd export_ctx \<Rightarrow> (nat \<Rightarrow> bool) \<Rightarrow> worker \<Rightarrow> export_job \<Rightarrow> json \<Rightarrow> nat \<Rightarrow> export_metadata \<Rightarrow>
     ('d export_world session, unit) state" where
  "deliver_to_sink en xc lost w job sink_value n meta =
     (let artifact = Some (record_count_i32_or_max n, result_location xc job, meta)
      in do { gone \<leftarrow> lease_lost lost;
              (if gone then skip
               else do { delivered \<leftarrow> deliver en xc job sink_value n meta;
                         _ \<leftarrow> (case delivered of
                            Inr dest \<Rightarrow> update_or_abort en (ej_id job) w (job_update EJ_Completed artifact None (Some dest))
                          | Inl err \<Rightarrow> update_or_abort en (ej_id job) w (job_update EJ_Failed artifact (Some err) None));
                         skip }) })"

definition finish_export ::
    "'d export_world env \<Rightarrow> 'd export_ctx \<Rightarrow> (nat \<Rightarrow> bool) \<Rightarrow> worker \<Rightarrow> export_job \<Rightarrow> nat \<Rightarrow> export_metadata \<Rightarrow>
     ('d export_world session, unit) state" where
  "finish_export en xc lost w job n meta =
     do { published \<leftarrow> publish en xc lost w job n meta;
          (if \<not> published then skip
           else case ej_sink_config job of
               Some v \<Rightarrow> deliver_to_sink en xc lost w job v n meta
             | None \<Rightarrow> do { _ \<leftarrow> update_or_abort en (ej_id job) w (job_update EJ_Completed
                              (Some (record_count_i32_or_max n, result_location xc job, meta)) None None);
                            skip }) }"

definition execute_export_job ::
    "'d export_world env \<Rightarrow> 'd export_ctx \<Rightarrow> (nat \<Rightarrow> bool) \<Rightarrow> worker \<Rightarrow> export_job \<Rightarrow> ('d export_world session, unit) state" where
  "execute_export_job en xc lost w job =
     (let temp = attempt_temp_path xc job w;
          failed = (\<lambda>err. do { _ \<leftarrow> update_or_abort en (ej_id job) w (job_update EJ_Failed None (Some err) None); skip })
      in case parse_filters (xc_parse_uuid xc) (ej_filters job) of
           Inl e \<Rightarrow> failed (''Invalid export filters: '' @ e)
         | Inr flt \<Rightarrow>
             do { created \<leftarrow> query en (\<lambda>k wd. (Inr (), wd));
                  (case created of
                     Inl e \<Rightarrow> failed (''Failed to create exports directory: '' @ error_text e)
                   | Inr _ \<Rightarrow>
                       do { written \<leftarrow> query en (write_artifact xc job flt temp);
                            (case written of
                               Inl e \<Rightarrow> do { best_effort_unlink en temp; failed (''Export failed: '' @ error_text e) }
                             | Inr (n, meta) \<Rightarrow>
                                 do { gone \<leftarrow> lease_lost lost;
                                      (if gone then best_effort_unlink en temp
                                       else finish_export en xc lost w job n meta) }) }) })"

definition export_worker_tick ::
    "'d export_world env \<Rightarrow> 'd export_ctx \<Rightarrow> (nat \<Rightarrow> bool) \<Rightarrow> bool \<Rightarrow> worker \<Rightarrow> ('d export_world session, unit) state" where
  "export_worker_tick en xc lost permit w =
     (if \<not> permit then skip
      else do { claimed \<leftarrow> query en (\<lambda>k wd. case claim_export_job (en_now en k) (en_locked en k \<circ> ej_id) w (ew_jobs wd) of
                  (j, rows) \<Rightarrow> (Inr j, wd\<lparr>ew_jobs := rows\<rparr>));
                (case claimed of
                   Inr (Some job) \<Rightarrow> execute_export_job en xc lost w job
                 | _ \<Rightarrow> skip) })"

section \<open>A worker without the lease\<close>

definition job_lost :: "uuid \<Rightarrow> worker \<Rightarrow> 'd export_world \<Rightarrow> bool" where
  "job_lost i w wd \<longleftrightarrow> list_all (\<lambda>r. ej_id r = i \<longrightarrow> export_holder r \<noteq> Some w) (ew_jobs wd)"

text \<open>What others see of the job: its row, a file, and the requests to webhooks.\<close>

definition published :: "uuid \<Rightarrow> path \<Rightarrow> 'd export_world \<Rightarrow> exports \<times> string option \<times> webhook_request list" where
  "published i p wd = (filter (\<lambda>r. ej_id r = i) (ew_jobs wd), ew_files wd p, ew_requests wd)"

text \<open>
  What the other sessions make of it while the worker does not hold the job: a new holder may heartbeat, complete
  or fail the job, publish files and send requests. The only thing nobody does is give the job back to this worker.
\<close>

definition others_moves ::
    "uuid \<Rightarrow> worker \<Rightarrow> path \<Rightarrow> 'd export_world env \<Rightarrow>
     ((exports \<times> string option \<times> webhook_request list) \<times> (exports \<times> string option \<times> webhook_request list)) set" where
  "others_moves i w p en = {(published i p wd, published i p (en_others en k wd)) | k wd. job_lost i w wd}"

definition never_given_back :: "uuid \<Rightarrow> worker \<Rightarrow> 'd export_world env \<Rightarrow> bool" where
  "never_given_back i w en \<longleftrightarrow> (\<forall>k wd. job_lost i w wd \<longrightarrow> job_lost i w (en_others en k wd))"

text \<open>While the job is lost, what is seen of it changes by the moves \<open>M\<close> only.\<close>

definition hands_off ::
    "((exports \<times> string option \<times> webhook_request list) \<times> (exports \<times> string option \<times> webhook_request list)) set \<Rightarrow>
     uuid \<Rightarrow> worker \<Rightarrow> path \<Rightarrow> 'd export_world \<Rightarrow> 'd export_world \<Rightarrow> bool" where
  "hands_off M i w p wd wd' \<longleftrightarrow> (job_lost i w wd \<longrightarrow> job_lost i w wd' \<and> (published i p wd, published i p wd') \<in> M\<^sup>*)"

interpretation hands_off: guarantee "hands_off M i w p" for M i w p
  by unfold_locales (auto simp: hands_off_def)

definition env_hands_off ::
    "((exports \<times> string option \<times> webhook_request list) \<times> (exports \<times> string option \<times> webhook_request list)) set \<Rightarrow>
     uuid \<Rightarrow> worker \<Rightarrow> path \<Rightarrow> 'd export_world env \<Rightarrow> bool" where
  "env_hands_off M i w p en \<longleftrightarrow> (\<forall>k wd. hands_off M i w p wd (en_others en k wd))"

lemma others_hands_off: "never_given_back i w en \<Longrightarrow> env_hands_off (others_moves i w p en) i w p en"
  unfolding env_hands_off_def hands_off_def never_given_back_def others_moves_def by blast

lemma hands_off_query:
  "env_hands_off M i w p en \<Longrightarrow> (\<And>k wd. hands_off M i w p wd (snd (f k wd))) \<Longrightarrow> complies (hands_off M i w p) (query en f)"
  by (intro hands_off.query) (auto simp: env_hands_off_def)

lemma hands_off_held: "\<not> job_lost i w wd \<Longrightarrow> hands_off M i w p wd wd'"
  by (simp add: hands_off_def)

lemma lease_lost_complies: "(\<And>w. R w w) \<Longrightarrow> complies R (lease_lost lost)"
  by (simp add: complies_def wp_def lease_lost_def)

lemma wp_lease_lost [wp_simps]: "wp (lease_lost lost) Q s = Q (lost (sn_clock s)) s"
  by (simp add: wp_def lease_lost_def)

lemma put_file_off: "p \<noteq> q \<Longrightarrow> hands_off M i w p wd (put_file q c wd)"
  by (simp add: hands_off_def put_file_def job_lost_def published_def)

lemma remove_file_off: "p \<noteq> q \<Longrightarrow> hands_off M i w p wd (snd (remove_file q k wd))"
  by (simp add: hands_off_def remove_file_def job_lost_def published_def)

lemma unlink_off: "env_hands_off M i w p en \<Longrightarrow> p \<noteq> q \<Longrightarrow> complies (hands_off M i w p) (best_effort_unlink en q)"
  unfolding best_effort_unlink_def by (intro hands_off.rules hands_off_query remove_file_off)

lemma write_artifact_off: "p \<noteq> q \<Longrightarrow> hands_off M i w p wd (snd (write_artifact xc job flt q k wd))"
  by (auto simp: write_artifact_def split: prod.split option.split intro: put_file_off hands_off.refl)

text \<open>An update without the lease is refused.\<close>

lemma update_lost:
  assumes "job_lost i w wd"
  shows "update_export_job_status now i u w (ew_jobs wd) = (False, ew_jobs wd)"
  unfolding update_export_job_status_def
  using assms by (intro update_row_refused)
    (auto simp: job_lost_def list_all_iff update_export_row_def export_holder_def)

lemma wp_update_lost:
  assumes "env_hands_off M i w p en" "job_lost i w (sn_world s)"
  shows "wp (update_or_abort en i w u) (\<lambda>ok t. \<not> ok \<and> hands_off M i w p (sn_world s) (sn_world t)) s"
proof -
  have env: "hands_off M i w p (sn_world s) (en_others en k (sn_world s))" "job_lost i w (en_others en k (sn_world s))" for k
    using assms by (simp_all add: env_hands_off_def hands_off_def)
  have "wp (query en (\<lambda>k wd. case update_export_job_status (en_now en k) i u w (ew_jobs wd) of
          (ok, rows) \<Rightarrow> (Inr ok, wd\<lparr>ew_jobs := rows\<rparr>)))
        (\<lambda>r t. r \<noteq> Inr True \<and> hands_off M i w p (sn_world s) (sn_world t)) s"
    by (rule wp_queryI) (simp_all add: env update_lost)
  then show ?thesis
    unfolding update_or_abort_def wp_bind wp_return by (rule wp_mono) (auto split: sum.split)
qed

lemma update_or_abort_off: "env_hands_off M i w p en \<Longrightarrow> complies (hands_off M i w p) (update_or_abort en i w u)"
proof -
  assume env: "env_hands_off M i w p en"
  have "wp (update_or_abort en i w u) (\<lambda>_ t. hands_off M i w p (sn_world s) (sn_world t)) s" for s
  proof (cases "job_lost i w (sn_world s)")
    case True
    show ?thesis by (rule wp_mono [OF wp_update_lost [OF env True]]) simp
  next
    case False
    then show ?thesis by (simp add: wp_def hands_off_held split: prod.split)
  qed
  then show ?thesis by (simp add: complies_def)
qed

lemma wp_off_then:
  assumes "complies (hands_off M i w p) m" "hands_off M i w p wd (sn_world s)"
  shows "wp m (\<lambda>_ t. hands_off M i w p wd (sn_world t)) s"
proof -
  have "wp m (\<lambda>_ t. hands_off M i w p (sn_world s) (sn_world t)) s" using assms(1) by (simp add: complies_def)
  then show ?thesis by (rule wp_mono) (rule hands_off.trans [OF assms(2)])
qed

text \<open>So nothing is published, and the job ends there.\<close>

lemma publish_lost:
  assumes "env_hands_off M (ej_id job) w p en" "job_lost (ej_id job) w (sn_world s)" "p \<noteq> attempt_temp_path xc job w"
  shows "wp (publish en xc lost w job n meta) (\<lambda>ok t. \<not> ok \<and> hands_off M (ej_id job) w p (sn_world s) (sn_world t)) s"
proof -
  have "wp (best_effort_unlink en (attempt_temp_path xc job w)) (\<lambda>_ t. hands_off M (ej_id job) w p (sn_world s) (sn_world t)) u"
    if "hands_off M (ej_id job) w p (sn_world s) (sn_world u)" for u
    by (rule wp_off_then [OF unlink_off [OF assms(1,3)] that])
  then show ?thesis
    unfolding publish_def Let_def wp_bind
    by (intro wp_mono [OF wp_update_lost [OF assms(1,2)]]) (simp add: wp_simps)
qed

lemma finish_export_off:
  assumes "env_hands_off M (ej_id job) w p en" "p \<noteq> attempt_temp_path xc job w"
  shows "complies (hands_off M (ej_id job) w p) (finish_export en xc lost w job n meta)"
proof -
  have "wp (finish_export en xc lost w job n meta) (\<lambda>_ t. hands_off M (ej_id job) w p (sn_world s) (sn_world t)) s" for s
  proof (cases "job_lost (ej_id job) w (sn_world s)")
    case True
    show ?thesis
      unfolding finish_export_def wp_bind
      by (rule wp_mono [OF publish_lost [OF assms(1) True assms(2)]]) (simp add: wp_simps)
  next
    case False
    then show ?thesis by (simp add: wp_def hands_off_held split: prod.split)
  qed
  then show ?thesis by (simp add: complies_def)
qed

lemma execute_export_off:
  assumes "env_hands_off M (ej_id job) w p en" "p \<noteq> attempt_temp_path xc job w"
  shows "complies (hands_off M (ej_id job) w p) (execute_export_job en xc lost w job)"
  unfolding execute_export_job_def Let_def
  by (intro complies_branches hands_off.rules lease_lost_complies hands_off_query unlink_off finish_export_off
        update_or_abort_off assms write_artifact_off)
     (simp_all add: hands_off.refl assms(2))

lemma temp_paths_differ:
  "final_path xc job \<noteq> attempt_temp_path xc job' w" "provenance_path xc job \<noteq> attempt_temp_path xc job' w"
  "final_path xc job \<noteq> provenance_temp_path xc job' w" "provenance_path xc job \<noteq> provenance_temp_path xc job' w"
proof -
  have tail: "x @ a \<noteq> y @ b" if "last a \<noteq> last b" "a \<noteq> []" "b \<noteq> []" for x y a b :: string
    using that by (metis last_appendR)
  note assoc = append_assoc [symmetric]
  show "final_path xc job \<noteq> attempt_temp_path xc job' w"
    using tail [of "export_format_to_str (ej_format job)" "''.tmp''"]
    by (cases "ej_format job") (simp_all add: final_path_def job_file_def attempt_temp_path_def assoc)
  show "final_path xc job \<noteq> provenance_temp_path xc job' w"
    using tail [of "export_format_to_str (ej_format job)" "''.tmp''"]
    by (cases "ej_format job") (simp_all add: final_path_def job_file_def provenance_temp_path_def assoc)
  show "provenance_path xc job \<noteq> attempt_temp_path xc job' w"
    using tail [of "''.provenance.json''" "''.tmp''"] by (simp add: provenance_path_def attempt_temp_path_def assoc)
  show "provenance_path xc job \<noteq> provenance_temp_path xc job' w"
    using tail [of "''.provenance.json''" "''.tmp''"] by (simp add: provenance_path_def provenance_temp_path_def assoc)
qed

text \<open>
  C23. A worker that has lost its job changes nothing others see. Whatever fails and whatever the heartbeat has or has not
  noticed, and whatever other sessions do short of giving the job back to this worker (a new holder may heartbeat,
  complete, publish and send requests): when the worker does not hold the job, running it adds nothing to what they do
  to the row of the job, to any file but its own temporary one, and to the requests to
  webhooks. What is seen afterwards comes from what was seen before by moves of the other sessions alone; so
  if they leave it alone, nothing changes. The artifact and its provenance file are not the temporary one.
\<close>

theorem stale_export_changes_nothing:
  assumes "never_given_back (ej_id job) w en" and "job_lost (ej_id job) w (sn_world s)"
    and "p \<noteq> attempt_temp_path xc job w"
  shows "(case run_state (execute_export_job en xc lost w job) s of (_, t) \<Rightarrow>
      job_lost (ej_id job) w (sn_world t)
      \<and> (published (ej_id job) p (sn_world s), published (ej_id job) p (sn_world t)) \<in> (others_moves (ej_id job) w p en)\<^sup>*)
    \<and> attempt_temp_path xc job w \<notin> {final_path xc job, provenance_path xc job}"
  using execute_export_off [OF others_hands_off [OF assms(1)] assms(3), of lost] assms(2) temp_paths_differ [of xc job job w]
  by (auto simp: complies_def wp_def hands_off_def split_beta)

section \<open>A completed job has its files\<close>

definition export_completed :: "uuid \<Rightarrow> 'd export_world \<Rightarrow> bool" where
  "export_completed i wd \<longleftrightarrow> list_ex (\<lambda>r. ej_id r = i \<and> ej_status r = EJ_Completed) (ew_jobs wd)"

definition tables :: "'d export_world \<Rightarrow> 'd dataset_db \<times> dataset_version list \<times> dataset_completeness list" where
  "tables wd = (ew_db wd, ew_versions wd, ew_completeness wd)"

definition own_paths :: "'d export_ctx \<Rightarrow> export_job \<Rightarrow> worker \<Rightarrow> path set" where
  "own_paths xc job w = {attempt_temp_path xc job w, final_path xc job, provenance_path xc job, provenance_temp_path xc job w}"

text \<open>The other sessions leave the files of the job and the exported tables alone and do not complete the job.\<close>

definition env_apart :: "'d export_ctx \<Rightarrow> export_job \<Rightarrow> worker \<Rightarrow> 'd export_world env \<Rightarrow> bool" where
  "env_apart xc job w en \<longleftrightarrow> (\<forall>k wd. tables (en_others en k wd) = tables wd
     \<and> (export_completed (ej_id job) (en_others en k wd) \<longrightarrow> export_completed (ej_id job) wd)
     \<and> (\<forall>p \<in> own_paths xc job w. ew_files (en_others en k wd) p = ew_files wd p))"

text \<open>A stage of the worker: the job is not completed, and some files have their content.\<close>

definition stage :: "uuid \<Rightarrow> 'd export_world \<Rightarrow> (path \<rightharpoonup> string) \<Rightarrow> 'd export_world \<Rightarrow> bool" where
  "stage i wd0 m wd \<longleftrightarrow> tables wd = tables wd0 \<and> \<not> export_completed i wd \<and> m \<subseteq>\<^sub>m ew_files wd"

lemma stage_env:
  assumes "env_apart xc job w en" "dom m \<subseteq> own_paths xc job w" "stage (ej_id job) wd0 m wd"
  shows "stage (ej_id job) wd0 m (en_others en k wd)"
  using assms unfolding env_apart_def stage_def map_le_def by (metis subsetD)

lemma stage_less: "stage i wd0 m wd \<Longrightarrow> m' \<subseteq>\<^sub>m m \<Longrightarrow> stage i wd0 m' wd"
  unfolding stage_def using map_le_trans by blast

lemma stage_start: "stage i wd0 m wd \<Longrightarrow> stage i wd0 Map.empty wd"
  by (rule stage_less) simp_all

lemma wp_stage:
  assumes "env_apart xc job w en" "dom m \<subseteq> own_paths xc job w" "stage (ej_id job) wd0 m (sn_world s)"
    and "\<And>e t. stage (ej_id job) wd0 m (sn_world t) \<Longrightarrow> Q (Inl (Failed e)) t"
    and "\<And>k wd t r wd'. stage (ej_id job) wd0 m wd \<Longrightarrow> f k wd = (r, wd') \<Longrightarrow> sn_world t = wd' \<Longrightarrow> Q (map_sum Failed id r) t"
  shows "wp (query en f) Q s"
proof (rule wp_queryI)
  note there = stage_env [OF assms(1-3)]
  show "Q (Inl (Failed e)) (s\<lparr>sn_clock := Suc (sn_clock s), sn_world := en_others en k (sn_world s)\<rparr>)" for e k
    by (rule assms(4)) (simp add: there)
  show "case f k (en_others en k (sn_world s)) of (r, wd) \<Rightarrow>
      Q (map_sum Failed id r) (s\<lparr>sn_clock := Suc (sn_clock s), sn_world := wd\<rparr>)" for k
    by (simp split: prod.split) (use assms(5) [OF there] in auto)
qed

lemma update_not_completing:
  assumes "\<not> export_completed i wd" "eu_status u \<noteq> EJ_Completed"
  shows "\<not> export_completed i (wd\<lparr>ew_jobs := snd (update_export_job_status now j u w (ew_jobs wd))\<rparr>)"
proof -
  have "\<forall>r \<in> set (snd (update_row ej_id j (update_export_row u now w) (ew_jobs wd))). \<not> (ej_id r = i \<and> ej_status r = EJ_Completed)"
    by (rule update_row_all) (use assms in \<open>auto simp: export_completed_def list_ex_iff update_export_row_def split: if_splits\<close>)
  then show ?thesis by (auto simp: export_completed_def list_ex_iff update_export_job_status_def)
qed

lemma wp_update_stage:
  assumes "env_apart xc job w en" "dom m \<subseteq> own_paths xc job w" "stage (ej_id job) wd0 m (sn_world s)"
    and "eu_status u \<noteq> EJ_Completed"
  shows "wp (update_or_abort en j v u) (\<lambda>_ t. stage (ej_id job) wd0 m (sn_world t)) s"
  unfolding update_or_abort_def wp_bind wp_return
proof (rule wp_stage [OF assms(1-3)])
  fix k wd t r wd'
  assume st: "stage (ej_id job) wd0 m wd" and t: "sn_world t = wd'"
    and f: "(case update_export_job_status (en_now en k) j u v (ew_jobs wd) of (ok, rows) \<Rightarrow> (Inr ok, wd\<lparr>ew_jobs := rows\<rparr>)) = (r, wd')"
  have "wd' = wd\<lparr>ew_jobs := snd (update_export_job_status (en_now en k) j u v (ew_jobs wd))\<rparr>"
    using f by (simp add: split_beta)
  then show "stage (ej_id job) wd0 m (sn_world t)"
    using st update_not_completing [of "ej_id job" wd u "en_now en k" j v, OF _ assms(4)] by (simp add: t stage_def tables_def)
qed

lemma wp_unlink_stage:
  assumes "env_apart xc job w en" "dom m \<subseteq> own_paths xc job w" "stage (ej_id job) wd0 m (sn_world s)" "q \<notin> dom m"
  shows "wp (best_effort_unlink en q) (\<lambda>_ t. stage (ej_id job) wd0 m (sn_world t)) s"
  unfolding best_effort_unlink_def wp_best_effort
proof (rule wp_stage [OF assms(1-3)])
  fix k wd t r wd'
  assume st: "stage (ej_id job) wd0 m wd" and f: "remove_file q k wd = (r, wd')" and t: "sn_world t = wd'"
  from f have "wd' = wd \<or> wd' = wd\<lparr>ew_files := (ew_files wd)(q := None)\<rparr>" by (auto simp: remove_file_def split: if_splits)
  then show "stage (ej_id job) wd0 m (sn_world t)"
    using st assms(4) by (auto simp: t stage_def tables_def export_completed_def map_le_def)
qed

text \<open>The task without its last statement leaves the job open.\<close>

definition artifact_published :: "'d export_ctx \<Rightarrow> export_job \<Rightarrow> 'd export_world \<Rightarrow> 'd export_world \<Rightarrow> bool" where
  "artifact_published xc job wd0 wd \<longleftrightarrow>
     (\<exists>flt c n meta now. parse_filters (xc_parse_uuid xc) (ej_filters job) = Inr flt
        \<and> export_artifact xc job flt wd0 = (Some c, Inr (n, meta))
        \<and> ew_files wd (final_path xc job) = Some c
        \<and> ew_files wd (provenance_path xc job) = Some (xc_json xc (provenance_json xc now job n meta)))"

lemma own_paths_distinct:
  "distinct [attempt_temp_path xc job w, final_path xc job, provenance_path xc job, provenance_temp_path xc job w]"
proof -
  have "final_path xc job \<noteq> provenance_path xc job"
    by (cases "ej_format job") (simp_all add: final_path_def provenance_path_def job_file_def)
  moreover have "length (last (attempt_temp_path xc job w)) \<noteq> length (last (provenance_temp_path xc job w))"
    by (cases "ej_format job") (simp_all add: attempt_temp_path_def provenance_temp_path_def)
  ultimately show ?thesis
    using temp_paths_differ [of xc job job w] by auto
qed

lemma stage_put:
  "stage i wd0 m wd \<Longrightarrow> stage i wd0 (m(p \<mapsto> c)) (put_file p c wd)"
  by (auto simp: stage_def tables_def export_completed_def put_file_def map_le_def)

lemma stage_rename:
  assumes "stage i wd0 m wd" "m p = Some c" "p \<noteq> q"
  shows "rename_file p q k wd = (Inr (), wd\<lparr>ew_files := (ew_files wd)(p := None, q \<mapsto> c)\<rparr>)"
    and "stage i wd0 ((m(p := None))(q \<mapsto> c)) (wd\<lparr>ew_files := (ew_files wd)(p := None, q \<mapsto> c)\<rparr>)"
proof -
  have c: "ew_files wd p = Some c" using assms(1,2) by (auto simp: stage_def map_le_def dom_def)
  then show "rename_file p q k wd = (Inr (), wd\<lparr>ew_files := (ew_files wd)(p := None, q \<mapsto> c)\<rparr>)"
    by (simp add: rename_file_def)
  show "stage i wd0 ((m(p := None))(q \<mapsto> c)) (wd\<lparr>ew_files := (ew_files wd)(p := None, q \<mapsto> c)\<rparr>)"
    using assms(1) by (auto simp: stage_def tables_def export_completed_def map_le_def)
qed

lemma stage_keeps: "m p = None \<Longrightarrow> stage i wd0 (m(p \<mapsto> x)) wd \<Longrightarrow> stage i wd0 m wd"
  by (erule stage_less) (auto simp: map_le_def)

text \<open>The provenance file, with the artifact in place.\<close>

lemma provenance_stage:
  fixes xc :: "'d export_ctx"
  assumes env: "env_apart xc job w en" and st: "stage (ej_id job) wd0 [final_path xc job \<mapsto> c] (sn_world s)"
  shows "wp (write_provenance_file en xc lost w job n meta) (\<lambda>r t. stage (ej_id job) wd0 [final_path xc job \<mapsto> c] (sn_world t)
     \<and> (r = Inr () \<longrightarrow> (\<exists>now. stage (ej_id job) wd0
           [final_path xc job \<mapsto> c, provenance_path xc job \<mapsto> xc_json xc (provenance_json xc now job n meta)] (sn_world t)))) s"
proof -
  let ?temp = "provenance_temp_path xc job w"
  let ?m = "[final_path xc job \<mapsto> c]"
  let ?pj = "\<lambda>now. xc_json xc (provenance_json xc now job n meta)"
  let ?Q = "\<lambda>r t. stage (ej_id job) wd0 ?m (sn_world t) \<and> (r = Inr () \<longrightarrow> (\<exists>now. stage (ej_id job) wd0
           (?m(provenance_path xc job \<mapsto> ?pj now)) (sn_world t)))"
  note paths = own_paths_distinct [of xc job w]
  have dom: "dom ?m \<subseteq> own_paths xc job w" "dom (?m(?temp \<mapsto> x)) \<subseteq> own_paths xc job w" for x
    by (auto simp: own_paths_def)
  have less: "stage (ej_id job) wd0 (?m(?temp \<mapsto> x)) wd \<Longrightarrow> stage (ej_id job) wd0 ?m wd" for x and wd :: "'d export_world"
    by (rule stage_keeps) (use paths in auto)
  have rename: "wp (query en (rename_file ?temp (provenance_path xc job))) ?Q t"
    if "stage (ej_id job) wd0 (?m(?temp \<mapsto> ?pj now)) (sn_world t)" for t now
  proof (rule wp_stage [OF env dom(2) that])
    fix k wd u r wd'
    assume wd: "stage (ej_id job) wd0 (?m(?temp \<mapsto> ?pj now)) wd" and f: "rename_file ?temp (provenance_path xc job) k wd = (r, wd')"
      and u: "sn_world u = wd'"
    have differ: "?temp \<noteq> provenance_path xc job" using paths by auto
    have m: "(?m(?temp \<mapsto> ?pj now, ?temp := None))(provenance_path xc job \<mapsto> ?pj now) = ?m(provenance_path xc job \<mapsto> ?pj now)"
      using paths by (auto simp: fun_eq_iff)
    have "(?m(?temp \<mapsto> ?pj now)) ?temp = Some (?pj now)" by simp
    note renamed = stage_rename(1) [OF wd this differ, of k] stage_rename(2) [OF wd this differ]
    have "r = Inr ()" and new: "stage (ej_id job) wd0 (?m(provenance_path xc job \<mapsto> ?pj now)) (sn_world u)"
      using renamed(1) renamed(2) [unfolded m] f u by auto
    moreover from new have "stage (ej_id job) wd0 ?m (sn_world u)" by (rule stage_keeps [rotated]) (use paths in auto)
    ultimately show "?Q (map_sum Failed id r) u" by auto
  qed (auto dest: less)
  have drop: "wp (do { best_effort (query en (remove_file ?temp)); bail err }) ?Q t"
    if "stage (ej_id job) wd0 ?m (sn_world t)" for t err
    using wp_unlink_stage [OF env dom(1) that, of ?temp] paths
    by (auto simp: wp_simps best_effort_unlink_def elim!: wp_mono)
  show ?thesis
    unfolding write_provenance_file_def Let_def wp_attempt
  proof (rule wp_stage [OF env dom(1) st])
    fix k wd' and wd :: "'d export_world" and t :: "'d export_world session" and r :: "unit result"
    assume wd: "stage (ej_id job) wd0 ?m wd" and t: "sn_world t = wd'"
      and f: "(Inr (), put_file ?temp (?pj (en_now en k)) wd) = (r, wd')"
    have "stage (ej_id job) wd0 (?m(?temp \<mapsto> ?pj (en_now en k))) (sn_world t)"
    proof -
      have "sn_world t = put_file ?temp (?pj (en_now en k)) wd" using f t by simp
      then show ?thesis using stage_put [OF wd, of ?temp "?pj (en_now en k)"] by (simp only:)
    qed
    with rename drop less f show "(case map_sum Failed id r of Inl e \<Rightarrow> ?Q (Inl e) | Inr x \<Rightarrow>
        wp (do { gone \<leftarrow> lease_lost lost;
           if gone then do { best_effort (query en (remove_file ?temp)); bail ''lease lost before provenance publish'' }
            else query en (rename_file ?temp (provenance_path xc job)) }) ?Q) t"
      by (auto simp: wp_bind wp_lease_lost)
  qed simp
qed

lemma map_move: "p \<noteq> q \<Longrightarrow> ([p \<mapsto> c](p := None))(q \<mapsto> c) = [q \<mapsto> c]"
  by (auto simp: fun_eq_iff)

lemma publish_stage:
  fixes xc :: "'d export_ctx"
  assumes env: "env_apart xc job w en" and st: "stage (ej_id job) wd0 [attempt_temp_path xc job w \<mapsto> c] (sn_world s)"
  shows "wp (publish en xc lost w job n meta) (\<lambda>ok t. stage (ej_id job) wd0 Map.empty (sn_world t)
     \<and> (ok \<longrightarrow> (\<exists>now. stage (ej_id job) wd0
           [final_path xc job \<mapsto> c, provenance_path xc job \<mapsto> xc_json xc (provenance_json xc now job n meta)] (sn_world t)))) s"
proof -
  let ?temp = "attempt_temp_path xc job w"
  let ?Q = "\<lambda>ok t. stage (ej_id job) wd0 Map.empty (sn_world t) \<and> (ok \<longrightarrow> (\<exists>now. stage (ej_id job) wd0
           [final_path xc job \<mapsto> c, provenance_path xc job \<mapsto> xc_json xc (provenance_json xc now job n meta)] (sn_world t)))"
  note paths = own_paths_distinct [of xc job w]
  have dom: "dom [?temp \<mapsto> c] \<subseteq> own_paths xc job w" "dom Map.empty \<subseteq> own_paths xc job w"
    by (auto simp: own_paths_def)
  have unlink: "wp (do { best_effort_unlink en ?temp; State_Monad.return False }) ?Q t"
    if "stage (ej_id job) wd0 m (sn_world t)" for m t
    using wp_unlink_stage [OF env dom(2) stage_start [OF that], of ?temp] by (simp add: wp_simps)
  have failed: "wp (do { _ \<leftarrow> update_or_abort en (ej_id job) w (job_update EJ_Failed a e d); State_Monad.return False }) ?Q t"
    if "stage (ej_id job) wd0 m (sn_world t)" for m t a e d
    using wp_update_stage [OF env dom(2) stage_start [OF that], of "job_update EJ_Failed a e d" "ej_id job" w]
    by (simp add: wp_simps job_update_def split: option.splits)
  have unlink_failed: "wp (do { best_effort_unlink en ?temp; _ \<leftarrow> update_or_abort en (ej_id job) w (job_update EJ_Failed a e d);
       State_Monad.return False }) ?Q t" if "stage (ej_id job) wd0 m (sn_world t)" for m t a e d
    unfolding wp_bind
    by (rule wp_mono [OF wp_unlink_stage [OF env dom(2) stage_start [OF that]]]) (use failed in \<open>simp_all add: wp_bind\<close>)
  have prov: "wp (write_provenance_file en xc lost w job n meta) (\<lambda>prov. wp (case prov of
         Inl e \<Rightarrow> do { _ \<leftarrow> update_or_abort en (ej_id job) w (job_update EJ_Failed a (Some (f e)) None); State_Monad.return False }
       | Inr _ \<Rightarrow> State_Monad.return True) ?Q) t" if "stage (ej_id job) wd0 [final_path xc job \<mapsto> c] (sn_world t)" for t a f
    by (rule wp_mono [OF provenance_stage [OF env that]])
       (use failed in \<open>auto simp: wp_return dest: stage_start split: sum.split\<close>)
  have rename: "wp (query en (rename_file ?temp (final_path xc job))) (\<lambda>renamed. wp (case renamed of
         Inl e \<Rightarrow> do { best_effort_unlink en ?temp;
                       _ \<leftarrow> update_or_abort en (ej_id job) w (job_update EJ_Failed a (Some (g e)) None); State_Monad.return False }
       | Inr _ \<Rightarrow> do { prov \<leftarrow> write_provenance_file en xc lost w job n meta; (case prov of
             Inl e \<Rightarrow> do { _ \<leftarrow> update_or_abort en (ej_id job) w (job_update EJ_Failed a (Some (f e)) None); State_Monad.return False }
           | Inr _ \<Rightarrow> State_Monad.return True) }) ?Q) t"
    if "stage (ej_id job) wd0 [?temp \<mapsto> c] (sn_world t)" for t a f g
  proof (rule wp_stage [OF env dom(1) that])
    fix k wd' and wd :: "'d export_world" and u :: "'d export_world session" and r :: "unit result"
    assume wd: "stage (ej_id job) wd0 [?temp \<mapsto> c] wd" and f: "rename_file ?temp (final_path xc job) k wd = (r, wd')"
      and u: "sn_world u = wd'"
    have "?temp \<noteq> final_path xc job" and c: "[?temp \<mapsto> c] ?temp = Some c" using paths by auto
    note renamed = stage_rename(1) [OF wd c this(1), of k] stage_rename(2) [OF wd c this(1), unfolded map_move [OF this(1)]]
    have "r = Inr ()" "stage (ej_id job) wd0 [final_path xc job \<mapsto> c] (sn_world u)" using renamed f u by auto
    with prov [OF this(2), of a f] show "wp (case map_sum Failed id r of
         Inl e \<Rightarrow> do { best_effort_unlink en ?temp;
                       _ \<leftarrow> update_or_abort en (ej_id job) w (job_update EJ_Failed a (Some (g e)) None); State_Monad.return False }
       | Inr _ \<Rightarrow> do { prov \<leftarrow> write_provenance_file en xc lost w job n meta; (case prov of
             Inl e \<Rightarrow> do { _ \<leftarrow> update_or_abort en (ej_id job) w (job_update EJ_Failed a (Some (f e)) None); State_Monad.return False }
           | Inr _ \<Rightarrow> State_Monad.return True) }) ?Q u"
      by (simp add: wp_bind)
  qed (use unlink_failed in simp)
  show ?thesis
    unfolding publish_def Let_def wp_bind
  proof (rule wp_mono [OF wp_update_stage [OF env dom(1) st]])
    fix ok and t :: "'d export_world session"
    let ?a = "Some (record_count_i32_or_max n, result_location xc job, meta)"
    assume t: "stage (ej_id job) wd0 [?temp \<mapsto> c] (sn_world t)"
    show "wp (if \<not> ok then do { best_effort_unlink en ?temp; State_Monad.return False }
               else do { gone \<leftarrow> lease_lost lost;
                 (if gone then do { best_effort_unlink en ?temp; State_Monad.return False }
                  else do { renamed \<leftarrow> query en (rename_file ?temp (final_path xc job));
                    (case renamed of
                       Inl e \<Rightarrow> do { best_effort_unlink en ?temp;
                                     _ \<leftarrow> update_or_abort en (ej_id job) w (job_update EJ_Failed ?a
                                          (Some (''Failed to publish export artifact: '' @ error_text e)) None);
                                     State_Monad.return False }
                     | Inr _ \<Rightarrow> do { prov \<leftarrow> write_provenance_file en xc lost w job n meta;
                         (case prov of
                            Inl e \<Rightarrow> do { _ \<leftarrow> update_or_abort en (ej_id job) w (job_update EJ_Failed ?a
                                          (Some (''Failed to write provenance sidecar: '' @ error_text e)) None);
                                          State_Monad.return False }
                          | Inr _ \<Rightarrow> State_Monad.return True) }) }) }) ?Q t"
      using unlink [OF t] rename [OF t, of ?a] by (auto simp only: wp_bind wp_lease_lost if_True if_False split: if_split)
  qed (simp add: job_update_def)
qed

subsection \<open>Delivery\<close>

text \<open>The sink of the job is not one of its own published files, to which a local sink may resolve.\<close>

definition sink_elsewhere :: "'d export_ctx \<Rightarrow> export_job \<Rightarrow> bool" where
  "sink_elsewhere xc job \<longleftrightarrow>
     (case ej_sink_config job of None \<Rightarrow> True | Some v \<Rightarrow> (case xc_parse_sink xc v of Inl _ \<Rightarrow> True | Inr c \<Rightarrow>
        (case build_sink (xc_canon xc) c (xc_root xc) of
           Inr (LocalFileSink q) \<Rightarrow> q \<noteq> final_path xc job \<and> q \<noteq> provenance_path xc job | _ \<Rightarrow> True)))"

lemma deliver_from_file_stage:
  assumes "stage i wd0 m wd" "deliver_from_file xc sink src meta k wd = (r, wd')"
    and "\<And>q. sink = LocalFileSink q \<Longrightarrow> q \<notin> dom m"
  shows "stage i wd0 m wd'"
proof (cases sink)
  case (LocalFileSink q)
  have "wd' = wd \<or> (\<exists>c. wd' = put_file q c wd)"
    using assms(2) by (auto simp: LocalFileSink local_file_delivery_def copy_no_follow_def split: if_splits option.splits)
  then show ?thesis
    using assms(1) assms(3) [OF LocalFileSink]
    by (auto simp: stage_def put_file_def tables_def export_completed_def map_le_def)
next
  case (WebhookSink u headers)
  have "wd' = wd \<or> (\<exists>rs. wd' = wd\<lparr>ew_requests := rs\<rparr>)"
    using assms(2) by (auto simp: WebhookSink webhook_delivery_def Let_def split: if_splits option.splits sum.splits)
  then show ?thesis using assms(1) by (auto simp: stage_def tables_def export_completed_def)
qed

lemma deliver_stage:
  assumes "env_apart xc job w en" "dom m \<subseteq> {final_path xc job, provenance_path xc job}"
    and "stage (ej_id job) wd0 m (sn_world s)" "ej_sink_config job = Some v" "sink_elsewhere xc job"
  shows "wp (deliver en xc job v n meta) (\<lambda>_ t. stage (ej_id job) wd0 m (sn_world t)) s"
proof -
  have own: "dom m \<subseteq> own_paths xc job w" using assms(2) by (auto simp: own_paths_def)
  have run: "wp (query en (deliver_from_file xc sink src dm)) (\<lambda>_ t. stage (ej_id job) wd0 m (sn_world t)) s"
    if "xc_parse_sink xc v = Inr c" "build_sink (xc_canon xc) c (xc_root xc) = Inr sink" for c sink src dm
  proof (rule wp_stage [OF assms(1) own assms(3)])
    fix k wd t r wd'
    assume "stage (ej_id job) wd0 m wd" "deliver_from_file xc sink src dm k wd = (r, wd')" "sn_world t = wd'"
    moreover have "q \<notin> dom m" if "sink = LocalFileSink q" for q
      using assms(2,4,5) \<open>xc_parse_sink xc v = Inr c\<close> \<open>build_sink (xc_canon xc) c (xc_root xc) = Inr sink\<close> that
      by (auto simp: sink_elsewhere_def)
    ultimately show "stage (ej_id job) wd0 m (sn_world t)" using deliver_from_file_stage by blast
  qed
  show ?thesis
    unfolding deliver_def using run assms(3) by (auto simp: wp_simps split: sum.split)
qed

lemma wp_update_files:
  assumes "env_apart xc job w en" "dom m \<subseteq> own_paths xc job w" "stage (ej_id job) wd0 m (sn_world s)"
  shows "wp (update_or_abort en j v u) (\<lambda>_ t. m \<subseteq>\<^sub>m ew_files (sn_world t)) s"
  unfolding update_or_abort_def wp_bind wp_return
proof (rule wp_stage [OF assms])
  fix k wd t r wd'
  assume st: "stage (ej_id job) wd0 m wd" and t: "sn_world t = wd'"
    and f: "(case update_export_job_status (en_now en k) j u v (ew_jobs wd) of (ok, rows) \<Rightarrow> (Inr ok, wd\<lparr>ew_jobs := rows\<rparr>)) = (r, wd')"
  have "wd' = wd\<lparr>ew_jobs := snd (update_export_job_status (en_now en k) j u v (ew_jobs wd))\<rparr>"
    using f by (simp add: split_beta)
  then show "m \<subseteq>\<^sub>m ew_files (sn_world t)" using st by (simp add: t stage_def)
qed (simp add: stage_def)

lemma finish_export_publishes:
  fixes xc :: "'d export_ctx" and wd0 :: "'d export_world"
  assumes env: "env_apart xc job w en" and st: "stage (ej_id job) wd0 [attempt_temp_path xc job w \<mapsto> c] (sn_world s)"
    and sink: "sink_elsewhere xc job"
    and written: "parse_filters (xc_parse_uuid xc) (ej_filters job) = Inr flt" "export_artifact xc job flt wd0 = (Some c, Inr (n, meta))"
  shows "wp (finish_export en xc lost w job n meta)
    (\<lambda>_ t. export_completed (ej_id job) (sn_world t) \<longrightarrow> artifact_published xc job wd0 (sn_world t)) s"
proof -
  let ?P = "\<lambda>_ t. export_completed (ej_id job) (sn_world t) \<longrightarrow> artifact_published xc job wd0 (sn_world t)"
  let ?m = "\<lambda>now. [final_path xc job \<mapsto> c, provenance_path xc job \<mapsto> xc_json xc (provenance_json xc now job n meta)]"
  note paths = own_paths_distinct [of xc job w]
  have dom: "dom (?m now) \<subseteq> own_paths xc job w" "dom (?m now) \<subseteq> {final_path xc job, provenance_path xc job}" for now
    by (auto simp: own_paths_def)
  have there: "artifact_published xc job wd0 wd" if "?m now \<subseteq>\<^sub>m ew_files wd" for now wd
  proof -
    have "ew_files wd (final_path xc job) = Some c" "ew_files wd (provenance_path xc job) = Some (xc_json xc (provenance_json xc now job n meta))"
      using that paths by (auto simp: map_le_def)
    then show ?thesis unfolding artifact_published_def using written by blast
  qed
  have closed: "wp (do { _ \<leftarrow> update_or_abort en (ej_id job) w u; skip }) ?P t" if "stage (ej_id job) wd0 (?m now) (sn_world t)" for now u t
    unfolding wp_bind wp_skip by (rule wp_mono [OF wp_update_files [OF env dom(1) that]]) (simp add: there)
  have delivered: "wp (deliver_to_sink en xc lost w job v n meta) ?P t"
    if "stage (ej_id job) wd0 (?m now) (sn_world t)" "ej_sink_config job = Some v" for now t v
  proof -
    have "wp (deliver en xc job v n meta) (\<lambda>_ u. stage (ej_id job) wd0 (?m now) (sn_world u)) t"
      by (rule deliver_stage [OF env dom(2) that sink])
    then have "wp (deliver en xc job v n meta) (\<lambda>delivered. wp (do { _ \<leftarrow> (case delivered of
              Inr dest \<Rightarrow> update_or_abort en (ej_id job) w (f dest)
            | Inl err \<Rightarrow> update_or_abort en (ej_id job) w (g err)); skip }) ?P) t" for f g
      by (rule wp_mono) (use closed in \<open>auto split: sum.split\<close>)
    moreover have "?P x t" for x using that(1) by (simp add: stage_def)
    ultimately show ?thesis by (simp add: deliver_to_sink_def Let_def wp_bind wp_lease_lost wp_skip)
  qed
  show ?thesis
    unfolding finish_export_def wp_bind
  proof (rule wp_mono [OF publish_stage [OF env st]], elim conjE)
    fix ok and t :: "'d export_world session"
    assume t: "stage (ej_id job) wd0 Map.empty (sn_world t)" "ok \<longrightarrow> (\<exists>now. stage (ej_id job) wd0 (?m now) (sn_world t))"
    show "wp (if \<not> ok then skip
           else case ej_sink_config job of
               Some v \<Rightarrow> deliver_to_sink en xc lost w job v n meta
             | None \<Rightarrow> do { _ \<leftarrow> update_or_abort en (ej_id job) w (job_update EJ_Completed
                              (Some (record_count_i32_or_max n, result_location xc job, meta)) None None);
                            skip }) ?P t"
    proof (cases ok)
      case False
      with t(1) show ?thesis by (simp add: wp_skip stage_def)
    next
      case True
      with t(2) obtain now where m: "stage (ej_id job) wd0 (?m now) (sn_world t)" by blast
      show ?thesis using True closed [OF m] delivered [OF m] by (cases "ej_sink_config job") simp_all
    qed
  qed
qed

lemma export_artifact_tables: "tables wd = tables wd0 \<Longrightarrow> export_artifact xc job flt wd = export_artifact xc job flt wd0"
  by (simp add: tables_def export_artifact_def)

lemma export_artifact_written: "export_artifact xc job flt wd = (content, Inr r) \<Longrightarrow> content \<noteq> None"
  by (auto simp: export_artifact_def write_export_to_file_def Let_def split: option.splits prod.splits)

text \<open>
  C10. A completed export has its files. Whatever fails and wherever the lease is lost, with other sessions that leave
  the files of the job and the exported tables alone and do not complete the job, and a sink that is not one of
  those files: if the job is completed after the task, then its artifact is, byte for byte, what a
  write of the whole export that was neither cancelled nor failed produces, and the provenance file
  describes it with its number of records.
\<close>

theorem completed_export_is_published:
  assumes "env_apart xc job w en" and "sink_elsewhere xc job" and "\<not> export_completed (ej_id job) (sn_world s)"
  shows "case run_state (execute_export_job en xc lost w job) s of (_, t) \<Rightarrow>
    export_completed (ej_id job) (sn_world t) \<longrightarrow> artifact_published xc job (sn_world s) (sn_world t)"
proof -
  let ?P = "\<lambda>_ t. export_completed (ej_id job) (sn_world t) \<longrightarrow> artifact_published xc job (sn_world s) (sn_world t)"
  let ?temp = "attempt_temp_path xc job w"
  have start: "stage (ej_id job) (sn_world s) Map.empty (sn_world s)" using assms(3) by (simp add: stage_def)
  have dom: "dom Map.empty \<subseteq> own_paths xc job w" by simp
  have failed: "wp (do { _ \<leftarrow> update_or_abort en (ej_id job) w (job_update EJ_Failed None (Some err) None); skip }) ?P t"
    if "stage (ej_id job) (sn_world s) m (sn_world t)" for err m t
    unfolding wp_bind wp_skip
    by (rule wp_mono [OF wp_update_stage [OF assms(1) dom stage_start [OF that]]]) (simp_all add: job_update_def stage_def)
  have unlinked: "wp (best_effort_unlink en ?temp) (\<lambda>_ t. stage (ej_id job) (sn_world s) Map.empty (sn_world t)) t"
    if "stage (ej_id job) (sn_world s) m (sn_world t)" for m t
    by (rule wp_unlink_stage [OF assms(1) dom stage_start [OF that]]) simp
  have cleaned: "wp (do { best_effort_unlink en ?temp; _ \<leftarrow> update_or_abort en (ej_id job) w (job_update EJ_Failed None (Some err) None); skip }) ?P t"
    if "stage (ej_id job) (sn_world s) m (sn_world t)" for err m t
    unfolding wp_bind wp_skip
    by (rule wp_mono [OF unlinked [OF that]]) (use failed in \<open>simp add: wp_bind wp_skip\<close>)
  have execute: "wp (execute_export_job en xc lost w job) ?P s"
  proof (cases "parse_filters (xc_parse_uuid xc) (ej_filters job)")
    case (Inl e)
    show ?thesis using failed [OF start] by (simp add: execute_export_job_def Inl)
  next
    case (Inr flt)
    let ?rest = "\<lambda>written. case written of
        Inl e \<Rightarrow> do { best_effort_unlink en ?temp; _ \<leftarrow> update_or_abort en (ej_id job) w
                       (job_update EJ_Failed None (Some (''Export failed: '' @ error_text e)) None); skip }
      | Inr (n, meta) \<Rightarrow> do { gone \<leftarrow> lease_lost lost;
                              (if gone then best_effort_unlink en ?temp else finish_export en xc lost w job n meta) }"
    have written: "wp (query en (write_artifact xc job flt ?temp)) (\<lambda>written. wp (?rest written) ?P) t"
      if t: "stage (ej_id job) (sn_world s) Map.empty (sn_world t)" for t
    proof (rule wp_stage [OF assms(1) dom t])
      show "wp (?rest (Inl (Failed e))) ?P u" if "stage (ej_id job) (sn_world s) Map.empty (sn_world u)" for e u
        using cleaned [OF that] by simp
      fix k wd' and wd :: "'a export_world" and u :: "'a export_world session" and r
      assume wd: "stage (ej_id job) (sn_world s) Map.empty wd" and u: "sn_world u = wd'"
        and f: "write_artifact xc job flt ?temp k wd = (r, wd')"
      obtain content where e: "export_artifact xc job flt (sn_world s) = (content, r)"
        and wd': "wd' = (case content of None \<Rightarrow> wd | Some c \<Rightarrow> put_file ?temp c wd)"
        using f wd export_artifact_tables [of wd "sn_world s" xc job flt]
        by (auto simp: write_artifact_def stage_def split: prod.splits)
      have put: "content = Some c \<Longrightarrow> stage (ej_id job) (sn_world s) [?temp \<mapsto> c] (sn_world u)" for c
        using stage_put [OF wd, of ?temp c] by (simp add: u wd')
      have st: "stage (ej_id job) (sn_world s) Map.empty (sn_world u)"
        using wd stage_start [OF put] by (cases content) (simp_all add: u wd')
      show "wp (?rest (map_sum Failed id r)) ?P u"
      proof (cases r)
        case (Inl m)
        then show ?thesis using cleaned [OF st] by simp
      next
        case r: (Inr nm)
        obtain n meta where nm: "nm = (n, meta)" by fastforce
        obtain c where c: "content = Some c" using export_artifact_written e r by blast
        have "wp (finish_export en xc lost w job n meta) ?P u"
          using finish_export_publishes [OF assms(1) put [OF c] assms(2) Inr] e c r nm by simp
        moreover have "wp (best_effort_unlink en ?temp) ?P u"
          by (rule wp_mono [OF unlinked [OF st]]) (simp add: stage_def)
        ultimately show ?thesis by (simp add: r nm wp_bind wp_lease_lost)
      qed
    qed
    let ?all = "\<lambda>created. case created of
         Inl e \<Rightarrow> do { _ \<leftarrow> update_or_abort en (ej_id job) w (job_update EJ_Failed None
                     (Some (''Failed to create exports directory: '' @ error_text e)) None); skip }
       | Inr _ \<Rightarrow> do { written \<leftarrow> query en (write_artifact xc job flt ?temp); ?rest written }"
    have "wp (query en (\<lambda>k wd. (Inr (), wd))) (\<lambda>created. wp (?all created) ?P) s"
    proof (rule wp_stage [OF assms(1) dom start])
      show "wp (?all (Inl (Failed e))) ?P u" if "stage (ej_id job) (sn_world s) Map.empty (sn_world u)" for e u
        using failed [OF that] by simp
      fix k wd' and wd :: "'a export_world" and u :: "'a export_world session" and r :: "unit result"
      assume "stage (ej_id job) (sn_world s) Map.empty wd" "(Inr (), wd) = (r, wd')" "sn_world u = wd'"
      then have r: "r = Inr ()" and u: "stage (ej_id job) (sn_world s) Map.empty (sn_world u)" by auto
      have "wp (do { written \<leftarrow> query en (write_artifact xc job flt ?temp); ?rest written }) ?P u"
        unfolding wp_bind by (rule written [OF u])
      then show "wp (?all (map_sum Failed id r)) ?P u" by (simp only: r map_sum.simps sum.case)
    qed
    then show ?thesis unfolding execute_export_job_def Let_def Inr sum.case wp_bind .
  qed
  then show ?thesis by (simp add: wp_def split_beta)
qed

section \<open>Without interference\<close>

definition held_job :: "uuid \<Rightarrow> worker \<Rightarrow> 'd export_world \<Rightarrow> bool" where
  "held_job i w wd \<longleftrightarrow> distinct (map ej_id (ew_jobs wd)) \<and> (\<exists>r \<in> set (ew_jobs wd). ej_id r = i \<and> export_holder r = Some w)"

definition export_status :: "uuid \<Rightarrow> 'd export_world \<Rightarrow> export_job_status option" where
  "export_status i wd = map_option ej_status (get_export_job i (ew_jobs wd))"

text \<open>An update by the holder is written, and the rest of the world stays.\<close>

lemma wp_update_held:
  assumes "undisturbed en" "held_job i w (sn_world s)"
  shows "wp (update_or_abort en i w u) (\<lambda>ok t. ok \<and> (\<exists>rows. sn_world t = (sn_world s)\<lparr>ew_jobs := rows\<rparr>)
     \<and> export_status i (sn_world t) = Some (eu_status u)
     \<and> (eu_status u = EJ_Delivering \<longrightarrow> held_job i w (sn_world t))) s"
proof -
  let ?rows = "ew_jobs (sn_world s)"
  let ?f = "update_export_row u (en_now en (sn_clock s)) w"
  let ?new = "snd (update_row ej_id i ?f ?rows)"
  obtain r where d: "distinct (map ej_id ?rows)" and r: "r \<in> set ?rows" "ej_id r = i" "export_holder r = Some w"
    using assms(2) by (auto simp: held_job_def)
  obtain r' where r': "?f r = Some r'" "ej_id r' = ej_id r" "ej_status r' = eu_status u" "ej_worker_id r' = Some w"
    using r(3) by (simp add: update_export_row_def export_holder_iff)
  have ok: "fst (update_row ej_id i ?f ?rows)" using update_row_unique(1) [OF d r(1)] r(2) r'(1) by simp
  have found: "find (\<lambda>x. ej_id x = i) ?new = Some r'"
    using find_update_row [where f = ?f, OF d r(1) r'(1,2)] by (simp add: r(2))
  have ids: "map ej_id ?new = map ej_id ?rows" by (rule update_row_ids) (rule export_rows_id(3))
  have mem: "r' \<in> set ?new" using found by (auto simp: find_Some_iff)
  have "held_job i w ((sn_world s)\<lparr>ew_jobs := ?new\<rparr>)" if "eu_status u = EJ_Delivering"
    using d ids mem r' r(2) that by (auto simp: held_job_def export_holder_iff in_progress_def)
  then show ?thesis
    using ok found r'(3)
    by (auto simp: update_or_abort_def wp_simps wp_query_quiet [OF assms(1)] update_export_job_status_def split_beta
        export_status_def get_export_job_def)
qed

lemma held_job_files [simp]:
  "held_job i w (wd\<lparr>ew_files := fs\<rparr>) = held_job i w wd" "held_job i w (wd\<lparr>ew_requests := rs\<rparr>) = held_job i w wd"
  by (simp_all add: held_job_def)

lemma publish_quiet:
  fixes xc :: "'d export_ctx"
  assumes quiet: "undisturbed en" and "held_job (ej_id job) w (sn_world s)"
    and "ew_files (sn_world s) (attempt_temp_path xc job w) = Some c"
  shows "wp (publish en xc (\<lambda>_. False) w job n meta) (\<lambda>ok t. ok \<and> held_job (ej_id job) w (sn_world t)
     \<and> ew_files (sn_world t) (final_path xc job) = Some c) s"
proof -
  note paths = own_paths_distinct [of xc job w]
  show ?thesis
    unfolding publish_def Let_def wp_bind
    apply (rule wp_mono [OF wp_update_held [OF quiet assms(2)]])
    using paths assms(3)
    apply (clarsimp simp: wp_simps wp_query_quiet [OF quiet] rename_file_def put_file_def write_provenance_file_def Let_def
        job_update_def)
    done
qed

text \<open>Whether the sink takes the artifact.\<close>

definition sink_takes :: "'d export_ctx \<Rightarrow> export_job \<Rightarrow> json \<Rightarrow> string \<Rightarrow> nat \<Rightarrow> export_metadata \<Rightarrow> bool" where
  "sink_takes xc job v c n meta \<longleftrightarrow>
     (case xc_parse_sink xc v of Inl _ \<Rightarrow> False | Inr cfg \<Rightarrow> (case build_sink (xc_canon xc) cfg (xc_root xc) of
        Inl _ \<Rightarrow> False
      | Inr (LocalFileSink q) \<Rightarrow> \<not> xc_symlink xc (final_path xc job) \<and> \<not> xc_symlink xc q
      | Inr (WebhookSink u headers) \<Rightarrow> (case build_ssrf_safe_client (xc_net xc) (xc_dns xc) u 30 of
            Inl _ \<Rightarrow> False
          | Inr cl \<Rightarrow> (case xc_post xc \<lparr>wr_client = cl, wr_url = u,
                wr_headers = build_request xc headers (delivery_metadata_of job n meta) @ [(''content-length'', show_nat (length c))],
                wr_body = c\<rparr> of Inl _ \<Rightarrow> False | Inr st \<Rightarrow> is_success st))))"

lemma deliver_quiet:
  assumes quiet: "undisturbed en" and "held_job (ej_id job) w (sn_world s)" and "ew_files (sn_world s) (final_path xc job) = Some c"
  shows "wp (deliver en xc job v n meta) (\<lambda>r t. held_job (ej_id job) w (sn_world t)
     \<and> (case r of Inl _ \<Rightarrow> \<not> sink_takes xc job v c n meta | Inr _ \<Rightarrow> sink_takes xc job v c n meta)) s"
proof (cases "xc_parse_sink xc v")
  case (Inl e)
  then show ?thesis using assms(2) by (simp add: deliver_def sink_takes_def wp_simps)
next
  case cfg: (Inr cfg)
  show ?thesis
  proof (cases "build_sink (xc_canon xc) cfg (xc_root xc)")
    case (Inl e)
    then show ?thesis using assms(2) cfg by (simp add: deliver_def sink_takes_def wp_simps)
  next
    case (Inr sink)
    then show ?thesis
      using assms(2,3) cfg
      by (cases sink)
         (auto simp: deliver_def sink_takes_def wp_simps wp_query_quiet [OF quiet] local_file_delivery_def webhook_delivery_def
            copy_no_follow_def put_file_def Let_def
            split: sum.split prod.split)
  qed
qed

text \<open>The outcome of a job as a function of the tables.\<close>

definition export_outcome :: "'d export_ctx \<Rightarrow> export_job \<Rightarrow> 'd export_world \<Rightarrow> export_job_status" where
  "export_outcome xc job wd =
     (case parse_filters (xc_parse_uuid xc) (ej_filters job) of
        Inl _ \<Rightarrow> EJ_Failed
      | Inr flt \<Rightarrow> (case export_artifact xc job flt wd of
          (Some c, Inr (n, meta)) \<Rightarrow> (case ej_sink_config job of
              None \<Rightarrow> EJ_Completed
            | Some v \<Rightarrow> if sink_takes xc job v c n meta then EJ_Completed else EJ_Failed)
        | _ \<Rightarrow> EJ_Failed))"

lemma finish_quiet:
  fixes xc :: "'d export_ctx" and s :: "'d export_world session"
  assumes quiet: "undisturbed en" and "held_job (ej_id job) w (sn_world s)"
    and "ew_files (sn_world s) (attempt_temp_path xc job w) = Some c"
  shows "wp (finish_export en xc (\<lambda>_. False) w job n meta) (\<lambda>_ t. export_status (ej_id job) (sn_world t) =
    Some (case ej_sink_config job of None \<Rightarrow> EJ_Completed
          | Some v \<Rightarrow> if sink_takes xc job v c n meta then EJ_Completed else EJ_Failed)) s"
proof -
  let ?P = "\<lambda>st t. export_status (ej_id job) (sn_world t) = Some st"
  have closed: "wp (do { _ \<leftarrow> update_or_abort en (ej_id job) w (job_update st a e d); skip }) (\<lambda>_. ?P st) t"
    if "held_job (ej_id job) w (sn_world t)" for st a e d t
    unfolding wp_bind wp_skip
    by (rule wp_mono [OF wp_update_held [OF quiet that]]) (simp add: job_update_def split: option.splits)
  have sink: "wp (deliver_to_sink en xc (\<lambda>_. False) w job v n meta)
      (\<lambda>_. ?P (if sink_takes xc job v c n meta then EJ_Completed else EJ_Failed)) t"
    if "held_job (ej_id job) w (sn_world t)" "ew_files (sn_world t) (final_path xc job) = Some c" for v t
    unfolding deliver_to_sink_def Let_def wp_bind wp_lease_lost if_False
    by (rule wp_mono [OF deliver_quiet [OF quiet that]])
       (use closed in \<open>auto simp: wp_bind split: sum.splits\<close>)
  show ?thesis
    unfolding finish_export_def wp_bind
    by (rule wp_mono [OF publish_quiet [OF assms]])
       (use closed sink in \<open>auto simp: wp_bind split: option.split\<close>)
qed

lemma execute_export_status:
  assumes "undisturbed en" and "held_job (ej_id job) w (sn_world s)"
  shows "export_status (ej_id job) (sn_world (snd (run_state (execute_export_job en xc (\<lambda>_. False) w job) s)))
    = Some (export_outcome xc job (sn_world s))"
proof -
  let ?temp = "attempt_temp_path xc job w"
  let ?P = "\<lambda>st t. export_status (ej_id job) (sn_world t) = Some st"
  have failed: "wp (do { _ \<leftarrow> update_or_abort en (ej_id job) w (job_update EJ_Failed None e None); skip }) (\<lambda>_. ?P EJ_Failed) t"
    if "held_job (ej_id job) w (sn_world t)" for e t
    unfolding wp_bind wp_skip
    by (rule wp_mono [OF wp_update_held [OF assms(1) that]]) (simp add: job_update_def)
  have "wp (execute_export_job en xc (\<lambda>_. False) w job) (\<lambda>_. ?P (export_outcome xc job (sn_world s))) s"
  proof (cases "parse_filters (xc_parse_uuid xc) (ej_filters job)")
    case (Inl e)
    show ?thesis using failed [OF assms(2)] by (simp add: execute_export_job_def export_outcome_def Inl)
  next
    case (Inr flt)
    obtain content r where e: "export_artifact xc job flt (sn_world s) = (content, r)" by fastforce
    show ?thesis
    proof (cases r)
      case (Inl m)
      have "export_outcome xc job (sn_world s) = EJ_Failed"
        using Inr e Inl by (simp add: export_outcome_def split: option.split)
      then show ?thesis
        using failed assms(2) e Inl
        by (auto simp: execute_export_job_def Inr Let_def wp_bind wp_query_quiet [OF assms(1)] write_artifact_def
            best_effort_unlink_def wp_best_effort remove_file_def put_file_def split: option.split)
    next
      case r: (Inr nm)
      obtain n meta where nm: "nm = (n, meta)" by fastforce
      obtain c where c: "content = Some c" using export_artifact_written e r by blast
      have o: "export_outcome xc job (sn_world s) = (case ej_sink_config job of None \<Rightarrow> EJ_Completed
          | Some v \<Rightarrow> if sink_takes xc job v c n meta then EJ_Completed else EJ_Failed)"
        by (simp add: export_outcome_def Inr e r c nm)
      show ?thesis
        unfolding execute_export_job_def Let_def Inr sum.case wp_bind wp_query_quiet [OF assms(1)] o
        using finish_quiet [OF assms(1)] assms(2)
        by (simp add: write_artifact_def e r c nm put_file_def wp_bind wp_lease_lost wp_query_quiet [OF assms(1)])
    qed
  qed
  then show ?thesis by (simp add: wp_def split_beta)
qed

text \<open>
  C24. Without interference and with the lease kept the worker computes a function of the tables. It leaves the row of
  the job completed when the filters are valid, the export is written to its end and the sink, where there is
  one, takes the artifact; in every other case it leaves it failed. No job stays running.
\<close>

theorem export_outcome_refined:
  assumes "undisturbed en" and "held_job (ej_id job) w (sn_world s)"
  shows "export_status (ej_id job) (sn_world (snd (run_state (execute_export_job en xc (\<lambda>_. False) w job) s)))
    = Some (export_outcome xc job (sn_world s))"
  using assms by (rule execute_export_status)

section \<open>An export of one transaction\<close>

definition sample_export_jobs :: exports where
  "sample_export_jobs = snd (claim_export_job 5 (\<lambda>_. False) ''a''
     (snd (enqueue_export_job 4 0 DS_RawTransactions Fmt_Jsonl None None None [])))"

definition sample_export_job :: export_job where
  "sample_export_job = hd sample_export_jobs"

definition sample_export_db :: "int dataset_db" where
  "sample_export_db = \<lparr>db_targets = [], db_matches = [], db_raws = [sample_raw], db_transfers = [], db_native = [], db_events = [],
     db_fills = [], db_funding = [], db_positions = [], db_ledger = [], db_balances = [], db_pnl = [], db_trades = [],
     db_protocol_events = [], db_pools = []\<rparr>"

definition sample_export_session :: "int export_world session" where
  "sample_export_session = \<lparr>sn_world = \<lparr>ew_jobs = sample_export_jobs, ew_db = sample_export_db, ew_versions = [],
     ew_completeness = [], ew_files = Map.empty, ew_requests = []\<rparr>, sn_clock = 0, sn_sent = []\<rparr>"

definition sample_export_ctx :: "int export_ctx" where
  "sample_export_ctx = \<lparr>xc_root = [''e''], xc_canon = Some, xc_printers = sample_printers,
     xc_jsonl = (\<lambda>b. replicate (batch_len b) ''{}''), xc_protocol_spec = (\<lambda>_. Inl []), xc_stream = quiet_env,
     xc_cancelled = (\<lambda>_. False), xc_parse_uuid = (\<lambda>_. Inl []), xc_show_uuid = (\<lambda>_. ''4''), xc_hash = (\<lambda>_. ''h''),
     xc_rfc3339 = (\<lambda>_. ''t''), xc_json = (\<lambda>_. ''p''), xc_parse_sink = (\<lambda>_. Inl []), xc_symlink = (\<lambda>_. False),
     xc_net = sample_env, xc_dns = (\<lambda>_. Inl []), xc_post = (\<lambda>_. Inl []), xc_show_status = (\<lambda>_. [])\<rparr>"

abbreviation sample_export_run :: "worker \<Rightarrow> unit \<times> int export_world session" where
  "sample_export_run w \<equiv>
     run_state (execute_export_job undisturbed_env sample_export_ctx (\<lambda>_. False) w sample_export_job) sample_export_session"

lemma sample_export_facts:
  "ej_id sample_export_job = 4" "\<not> export_completed 4 (sn_world sample_export_session)"
  "held_job 4 ''a'' (sn_world sample_export_session)"
  "export_outcome sample_export_ctx sample_export_job (sn_world sample_export_session) = EJ_Completed"
  by code_simp+

lemma sample_export_completes: "export_completed 4 (sn_world (snd (sample_export_run ''a'')))"
proof -
  have "held_job (ej_id sample_export_job) ''a'' (sn_world sample_export_session)" using sample_export_facts by simp
  from execute_export_status [OF quiet_sample this, of sample_export_ctx]
  have "export_status 4 (sn_world (snd (sample_export_run ''a''))) = Some EJ_Completed" by (simp add: sample_export_facts)
  then show ?thesis by (auto simp: export_status_def get_export_job_def export_completed_def find_Some_iff list_ex_iff)
qed

lemma quiet_env_export: "env_apart xc job w undisturbed_env"
  by (simp add: env_apart_def undisturbed_env_def)

theorem completed_export_is_published_witness:
  "case sample_export_run ''a'' of (_, t) \<Rightarrow> export_completed 4 (sn_world t)
     \<and> artifact_published sample_export_ctx sample_export_job (sn_world sample_export_session) (sn_world t)"
proof -
  have "sink_elsewhere sample_export_ctx sample_export_job" by code_simp
  then show ?thesis
    using completed_export_is_published [OF quiet_env_export, of sample_export_ctx sample_export_job sample_export_session
        "\<lambda>_. False" "''a''"] sample_export_completes sample_export_facts
    by (simp add: split_beta)
qed

text \<open>
  A stale run while the holder \<open>a\<close> completes the job and publishes the file, before every statement of the stale worker.
\<close>

definition sample_done :: "int export_world \<Rightarrow> int export_world" where
  "sample_done wd = (if job_lost 4 ''b'' wd
     then put_file [''e'', ''exports'', ''4.jsonl''] ''{}''
       (wd\<lparr>ew_jobs := map (\<lambda>r. r\<lparr>ej_status := EJ_Completed\<rparr>) (ew_jobs wd)\<rparr>)
     else wd)"

definition busy_env :: "int export_world env" where
  "busy_env = undisturbed_env\<lparr>en_others := \<lambda>_. sample_done\<rparr>"

lemma sample_done_lost: "job_lost 4 ''b'' wd \<Longrightarrow> job_lost 4 ''b'' (sample_done wd)"
  by (auto simp: sample_done_def job_lost_def put_file_def list_all_iff export_holder_def in_progress_def)

lemma busy_never_given_back: "never_given_back 4 ''b'' busy_env"
  by (simp add: never_given_back_def busy_env_def sample_done_lost)

lemma busy_moves:
  "(x, y) \<in> others_moves 4 ''b'' [''e'', ''exports'', ''4.jsonl''] busy_env \<Longrightarrow> fst (snd y) = Some ''{}'' \<and> snd (snd y) = snd (snd x)"
  by (auto simp: others_moves_def busy_env_def published_def sample_done_def put_file_def)

theorem stale_export_changes_nothing_witness:
  "case run_state (execute_export_job busy_env sample_export_ctx (\<lambda>_. False) ''b'' sample_export_job) sample_export_session of
     (_, t) \<Rightarrow> job_lost 4 ''b'' (sn_world t) \<and> ew_requests (sn_world t) = []
       \<and> ew_files (sn_world t) [''e'', ''exports'', ''4.jsonl''] \<in> {None, Some ''{}''}"
proof -
  let ?p = "[''e'', ''exports'', ''4.jsonl'']"
  have lost: "job_lost (ej_id sample_export_job) ''b'' (sn_world sample_export_session)" by code_simp
  have p: "?p \<noteq> attempt_temp_path sample_export_ctx sample_export_job ''b''" by code_simp
  obtain t where t: "run_state (execute_export_job busy_env sample_export_ctx (\<lambda>_. False) ''b'' sample_export_job) sample_export_session = ((), t)"
    by (metis (full_types) old.unit.exhaust prod.collapse)
  have M: "job_lost 4 ''b'' (sn_world t)"
    "(published 4 ?p (sn_world sample_export_session), published 4 ?p (sn_world t)) \<in> (others_moves 4 ''b'' ?p busy_env)\<^sup>*"
    using stale_export_changes_nothing [OF _ lost p, of busy_env "\<lambda>_. False"] busy_never_given_back
    by (simp_all add: t sample_export_facts(1))
  have "fst (snd y) \<in> {fst (snd x), Some ''{}''} \<and> snd (snd y) = snd (snd x)"
    if "(x, y) \<in> (others_moves 4 ''b'' ?p busy_env)\<^sup>*" for x y
    using that by induction (auto dest: busy_moves)
  from this [OF M(2)] M(1) have "job_lost 4 ''b'' (sn_world t) \<and> ew_requests (sn_world t) = []
       \<and> ew_files (sn_world t) ?p \<in> {None, Some ''{}''}"
    by (simp add: published_def sample_export_session_def)
  then show ?thesis unfolding t prod.case .
qed

theorem export_outcome_refined_witness:
  "export_status 4 (sn_world (snd (sample_export_run ''a''))) = Some EJ_Completed"
proof -
  have "held_job (ej_id sample_export_job) ''a'' (sn_world sample_export_session)" using sample_export_facts by simp
  from export_outcome_refined [OF quiet_sample this, of sample_export_ctx] show ?thesis
    by (simp add: sample_export_facts)
qed

end
