(* ===== verification/Spec2Isabelle.thy ===== *)
theory Spec2Isabelle
  imports Wallet_Reads Legacy_Silver Stream_Worker Materialize_Worker Export_Worker
begin

text \<open>
  Spectraplex indexes wallets, contracts and markets of Solana, EVM networks and Hyperliquid. Connectors fetch
  transactions into Bronze tables; materialization extracts typed Silver records from them and derives Gold
  tables for wallets (ledger, balance history, trading and protocol analytics); an HTTP interface serves,
  exports and streams the datasets to tenants, with queues for ingestion, materialization and export jobs. A legacy
  model of transactions and ledger entries is kept beside it. This development models that logic, file by file, and
  proves what makes it correct. Paths below are relative to \<open>src/\<close>.

  \<^bold>\<open>Conventions.\<close> A table is a list of records in insertion order, an SQL statement a function from tables to tables,
  a transaction one such function. Errors are values: \<open>result\<close> is a sum with the message on the left. Decimals are
  any ordered integral domain; division, decimal parsing and printing are parameters. Random ids, clock readings, the
  order of hash maps, the scan order of unordered queries, SHA-1 and SHA-256 hashes, the deserializer of a third-party
  crate and the failures of the database are parameters too; what a theorem needs of them it states as a
  hypothesis. Machine integers keep their width where the code can reach it: 32-bit entry indices are words, the
  saturating and wrapping 64- and 128-bit operations are written out on \<open>int\<close>.

  \<^bold>\<open>Data.\<close> \<open>Prelude\<close> (lists, maps with insertion order, strings, bounded integers), \<open>Core_Types\<close> (enumerations of
  \<open>core/src/models.rs\<close> and \<open>core/src/v2.rs\<close> with their text encodings, JSON values, legacy checkpoints), \<open>Datasets\<close> (the
  catalogue of \<open>core/src/materializer.rs\<close>), \<open>Records\<close> (one record per Silver and Gold struct).

  \<^bold>\<open>Parsers.\<close> \<open>Evm_Parser\<close>, \<open>Hl_Parser\<close> and \<open>Solana_Parser\<close> follow \<open>adapters/src/*_parser.rs\<close>: the legacy ledger entries and the
  Silver records of one raw transaction. ERC-20 transfers are read back exactly from the logs of a node, Solana transfers
  account for every change of a token balance, and the two ledgers of a Hyperliquid or Solana transaction agree up to
  the differences stated. \<open>Payloads\<close> is \<open>validate_import_payload\<close> (\<open>adapters/src/lib.rs\<close>): a valid payload is extracted in full.

  \<^bold>\<open>Bronze and control.\<close> \<open>Bronze\<close> (raw transactions, matches, checkpoints, the fenced commit of a connector batch),
  \<open>Targets\<close> (filters, validation, registration), \<open>Ingestion_Jobs\<close>, \<open>Materialization_Runs\<close>, \<open>Export_Jobs\<close> and \<open>Streams\<close> (the queues of
  \<open>adapters/src/v2_repo.rs\<close>, with the lease discipline as the locale of \<open>Lease\<close>, interpreted by each of them). Step relations
  range over every statement of every worker; shown are fencing, exclusive leases, takeover of silent
  workers, idempotent enqueueing, and that the attempts of a job are numbered without gaps.

  \<^bold>\<open>Materialization.\<close> \<open>Silver_Store\<close> holds the deduplicating inserts; the locale \<open>dedup_table\<close> states their contract and is
  interpreted for nine tables. \<open>Gold_Balances\<close> is the incremental recomputation of the balance history, refined from its
  specification: every balance is the sum of the deltas up to its position, in whichever order batches
  arrive. \<open>Gold_Ledger\<close> derives and replaces the wallet ledger, \<open>Hl_Analytics\<close> and \<open>Protocol_Analytics\<close> the analytics, \<open>Completeness\<close>
  the dataset versions, completeness rows and watermarks. \<open>Materialize\<close> composes them as \<open>materialize_silver_from_bronze\<close> and
  \<open>materialize_gold_from_silver\<close> do (\<open>adapters/src/dual_write.rs\<close>): a batch is validated before anything is written, a repeated run
  changes no Silver table, Silver only grows.

  \<^bold>\<open>Workers.\<close> \<open>Providers\<close> is the configuration and the catalogue of endpoints (\<open>core/src/config.rs\<close>, \<open>core/src/provider.rs\<close>).
  \<open>Worker_Steps\<close> gives the workers their language: programs of the state monad whose every statement may fail and runs
  after an arbitrary change by other sessions, with weakest preconditions and the locale \<open>guarantee\<close>, the relations
  between tables that a program keeps when the others keep them. \<open>Ingestion_Worker\<close> (\<open>api/src/worker.rs\<close>) completes a job only
  after its batch is stored, and ends every job it holds; \<open>Stream_Worker\<close> (\<open>api/src/stream_worker.rs\<close>) is the orchestrator
  and the loop of a stream task. \<open>Materialize_Worker\<close> (\<open>api/src/materialize_worker.rs\<close>) accepts what the two have queued and
  completes a run only when its records are in the Silver tables; \<open>Export_Worker\<close> (\<open>api/src/export_worker.rs\<close> and the sinks of
  \<open>api/src/main.rs\<close>) completes a job only when its artifact and provenance are published, and without the lease
  leaves what is published to the others.

  \<^bold>\<open>Legacy.\<close> \<open>Ledger\<close> (\<open>adapters/src/ledger_derivation.rs\<close>), \<open>Dual_Write\<close> (conversions, network resolution), \<open>Legacy_Repo\<close>
  (\<open>adapters/src/repo.rs\<close> and the dual writes) and \<open>Legacy_Silver\<close> (the Silver stage from legacy transactions). Ledgers conserve what the
  records moved, entries count once in balances, a batch is stored with its checkpoint or not at all, records of
  the legacy path name stored raw transactions and are those of the Bronze path.

  \<^bold>\<open>Interface.\<close> \<open>Dataset_Queries\<close> (filters, limits, the paged snapshot export), \<open>Api_Access\<close> (keys, tenants), \<open>Dataset_Api\<close> and
  \<open>Wallet_Reads\<close> (the handlers of \<open>api/src/main.rs\<close> for datasets and wallets), \<open>Csv_Export\<close>, \<open>Callbacks\<close> (addresses a callback may
  reach, retries, export paths). A tenant reads its own targets only, an export writes every row once, a revoked key
  is refused, no callback reaches an address of the refused ranges, CSV text is read back.

  This theory joins the parts: outside Hyperliquid, when ledger and balance history agree and a batch of new transactions is
  materialized, they agree again, and the balance a wallet reads from the interface is the last entry of its balance history.

  \<^bold>\<open>Termination and fuel.\<close> All definitions are total. Paging stops because every full page moves the offset, the
  descent into nested logs because JSON shrinks; retries are counted down. No fuel is used.

  \<^bold>\<open>Not modelled.\<close> The clients of remote services (\<open>adapters/src/evm.rs\<close>, \<open>hyperliquid.rs\<close>, \<open>hyperliquid_ws.rs\<close>, \<open>solana*.rs\<close>), whose
  behaviour is that of the services; timers and task scheduling (a worker is given the branches its \<open>select!\<close>
  takes), interference between the statements of one materialization; routing, shutdown and rate limiting; reading the
  configuration file; the command line, the static pages of the workbench and the HMAC of a webhook.
\<close>

section \<open>Ledger, balance history and API agree\<close>

text \<open>The balance after the last entry of a wallet, network and asset in the replay order.\<close>

definition closing_balance :: "('d :: linordered_idom) bh_row list \<Rightarrow> string \<Rightarrow> bh_key \<Rightarrow> 'd" where
  "closing_balance T wallet k =
     (case rev (sort_key (\<lambda>r. snap_ord (bh_snap r)) (filter (row_key wallet k) T)) of
        [] \<Rightarrow> 0 | r # _ \<Rightarrow> bs_balance (bh_snap r))"

lemma row_key_entry: "row_key wallet k r \<longleftrightarrow> fst (entry r) = (wallet, k)"
  by (cases k) (simp add: row_key_def entry_def snap_key_def)

lemma closing_balance_sum:
  assumes "balanced T"
  shows "closing_balance T wallet k = (\<Sum>x \<in> {x \<in> entry ` set T. fst x = (wallet, k)}. snd (snd x))"
proof (cases "rev (sort_key (\<lambda>r. snap_ord (bh_snap r)) (filter (row_key wallet k) T))")
  case Nil
  then have "filter (row_key wallet k) T = []" by (simp add: sort_key_eq_Nil)
  then have "\<forall>x \<in> set T. fst (entry x) \<noteq> (wallet, k)" by (simp add: filter_empty_conv row_key_entry)
  then have "{x \<in> entry ` set T. fst x = (wallet, k)} = {}" by blast
  then show ?thesis unfolding closing_balance_def Nil by (simp only: list.case sum.empty)
next
  case (Cons r rs)
  let ?S = "sort_key (\<lambda>r. snap_ord (bh_snap r)) (filter (row_key wallet k) T)"
  have S: "?S = rev rs @ [r]" using Cons by (simp add: rev_swap)
  have "r \<in> set ?S" by (simp add: S)
  then have r: "r \<in> set T" "row_key wallet k r" by simp_all
  have "sorted (map (\<lambda>r. snap_ord (bh_snap r)) ?S)" by simp
  then have le: "snap_ord (bh_snap q) \<le> snap_ord (bh_snap r)" if "q \<in> set T" "row_key wallet k q" for q
  proof -
    have "q \<in> set ?S" using that by simp
    then show ?thesis using \<open>sorted (map (\<lambda>r. snap_ord (bh_snap r)) ?S)\<close> by (auto simp: S sorted_append)
  qed
  have "snap_key (bh_snap r) = (wallet, k)" using r(2) by (simp add: row_key_entry entry_def)
  then have "bs_balance (bh_snap r) = upto_sum (entry ` set T) (wallet, k) (snap_ord (bh_snap r))"
    using assms r(1) by (simp add: balanced_def)
  also have "\<dots> = (\<Sum>x \<in> {x \<in> entry ` set T. fst x = (wallet, k)}. snd (snd x))"
    unfolding upto_sum_def
  proof (rule sum.cong)
    show "{x \<in> entry ` set T. fst x = (wallet, k) \<and> fst (snd x) \<le> snap_ord (bh_snap r)} = {x \<in> entry ` set T. fst x = (wallet, k)}"
      using le by (auto simp: row_key_entry) (auto simp: entry_def)
  qed simp
  finally show ?thesis unfolding closing_balance_def Cons by simp
qed

lemma entries_net:
  assumes "distinct (map be_snapshot_id evs)"
  shows "(\<Sum>x \<in> {x \<in> event_entry wallet ` set evs. fst x = (wallet, k)}. snd (snd x)) = net_ev k evs"
proof -
  have inj: "inj_on (event_entry wallet) (set evs)"
    using assms by (auto simp: inj_on_def event_entry_def event_ord_def distinct_map)
  have "{x \<in> event_entry wallet ` set evs. fst x = (wallet, k)} = event_entry wallet ` set (filter (\<lambda>e. event_key e = k) evs)"
    by (auto simp: event_entry_def)
  then have "(\<Sum>x \<in> {x \<in> event_entry wallet ` set evs. fst x = (wallet, k)}. snd (snd x)) =
      (\<Sum>e \<in> set (filter (\<lambda>e. event_key e = k) evs). snd (snd (event_entry wallet e)))"
    using inj by (simp only:) (subst sum.reindex, auto intro: inj_on_subset)
  also have "\<dots> = (\<Sum>e \<leftarrow> filter (\<lambda>e. event_key e = k) evs. be_delta e)"
    using assms by (subst sum_list_distinct_conv_sum_set) (auto simp: event_entry_def distinct_map intro: distinct_filter)
  finally show ?thesis by (simp add: net_ev_def)
qed

text \<open>A batch of new events adds its net amount to every closing balance.\<close>

lemma closing_balance_batch:
  assumes "balanced hist" "distinct (map be_snapshot_id evs)" "be_snapshot_id ` set evs \<inter> row_id ` set hist = {}"
    and "mset (ord (incoming_by_key evs)) = mset (incoming_by_key evs)"
    and T: "T = fst (materialize_balances ord (\<lambda>_. True) True wallet version now hist evs)"
  shows "balanced T" and "closing_balance T wallet k = closing_balance hist wallet k + net_ev k evs"
proof -
  have "coherent wallet evs hist" using assms(3) by (auto simp: coherent_def)
  note B = balances_after_batch [where ord = ord, OF assms(1) this assms(2,4) T]
  let ?E = "\<lambda>X. {x \<in> X. fst x = (wallet, k)}"
  have ids: "snd (fst (snd x)) \<notin> be_snapshot_id ` set evs" if "x \<in> entry ` set hist" for x
  proof -
    from that obtain r where r: "x = entry r" "r \<in> set hist" by (rule imageE)
    have "row_id r \<in> row_id ` set hist" using r(2) by (rule imageI)
    then have "row_id r \<notin> be_snapshot_id ` set evs" using assms(3) by blast
    then show ?thesis by (simp add: r(1) entry_def snap_ord_def row_id_def)
  qed
  have evid: "snd (fst (snd x)) \<in> be_snapshot_id ` set evs" if "x \<in> event_entry wallet ` set evs" for x
    using that by (auto simp: event_entry_def event_ord_def)
  have entries: "entry ` set T = entry ` set hist \<union> event_entry wallet ` set evs"
    unfolding B(2) merge_entries_def using ids by blast
  have split: "?E (entry ` set T) = ?E (entry ` set hist) \<union> ?E (event_entry wallet ` set evs)" unfolding entries by blast
  have disj: "?E (entry ` set hist) \<inter> ?E (event_entry wallet ` set evs) = {}" using ids evid by blast
  have fin: "finite (?E (entry ` set hist))" "finite (?E (event_entry wallet ` set evs))" by simp_all
  show "balanced T" by (rule B(1))
  show "closing_balance T wallet k = closing_balance hist wallet k + net_ev k evs"
    unfolding closing_balance_sum [OF B(1)] closing_balance_sum [OF assms(1)] split
      sum.union_disjoint [OF fin disj] entries_net [OF assms(2)] ..
qed

lemma closing_support:
  assumes "closing_balance T wallet (n, a) \<noteq> 0"
  shows "n \<in> (\<lambda>r. bs_network (bh_snap r)) ` set T"
proof (rule ccontr)
  assume "\<not> ?thesis"
  then have "filter (row_key wallet (n, a)) T = []" by (auto simp: filter_empty_conv row_key_def)
  then show False using assms by (simp add: closing_balance_def)
qed

lemma gold_records_wallet:
  "r \<in> set (gold_ledger_records vh us dv c s) \<Longrightarrow> wl_wallet_address r = gc_wallet c"
proof -
  have row: "wl_wallet_address (gold_row vh c key raw network txh ts etype asset amount cp fee fa) = gc_wallet c"
    for key raw network txh ts etype asset amount cp fee fa by (simp add: gold_row_def)
  show "r \<in> set (gold_ledger_records vh us dv c s) \<Longrightarrow> ?thesis"
    by (auto simp: gold_ledger_records_def gold_transfer_rows_def gold_native_rows_def gold_fill_row_def gold_fill_cash_rows_def
        gold_funding_row_def gold_evm_rows_def row Let_def split: if_splits option.splits sum.splits prod.splits)
qed

lemma asset_sum_networks:
  "asset_sum a rs = (\<Sum>n \<leftarrow> remdups (map wl_network rs). net_wl (n, a) rs)"
proof -
  let ?as = "filter (\<lambda>r. wl_asset_symbol r = a) rs"
  have "net_wl (n, a) rs = (\<Sum>r \<leftarrow> filter (\<lambda>r. wl_network r = n) ?as. wl_amount r)" for n
    by (simp add: net_wl_def conj_commute)
  moreover have "(\<Sum>n \<leftarrow> remdups (map wl_network rs). \<Sum>r \<leftarrow> filter (\<lambda>r. wl_network r = n) ?as. wl_amount r)
      = (\<Sum>r \<leftarrow> ?as. wl_amount r)"
    by (rule sum_partition) auto
  ultimately show ?thesis by (simp add: asset_sum_def)
qed

lemma sum_remdups_support:
  fixes f :: "'a \<Rightarrow> 'd :: comm_monoid_add"
  assumes "\<And>x. f x \<noteq> 0 \<Longrightarrow> x \<in> set xs \<inter> set ys"
  shows "(\<Sum>x \<leftarrow> remdups xs. f x) = (\<Sum>x \<leftarrow> remdups ys. f x)"
proof -
  have "(\<Sum>x \<in> set xs. f x) = (\<Sum>x \<in> set xs \<inter> set ys. f x)"
    using assms by (intro sum.mono_neutral_right) auto
  also have "\<dots> = (\<Sum>x \<in> set ys. f x)"
    using assms by (intro sum.mono_neutral_left) auto
  finally show ?thesis by (simp add: sum_list_distinct_conv_sum_set)
qed

lemma net_wl_support:
  assumes "net_wl (n, a) rs \<noteq> 0"
  shows "n \<in> wl_network ` set rs"
proof (rule ccontr)
  assume "\<not> ?thesis"
  then have "filter (\<lambda>r. (wl_network r, wl_asset_symbol r) = (n, a)) rs = []" by (auto simp: filter_empty_conv)
  then show False using assms unfolding net_wl_def by (simp only: list.map sum_list.Nil)
qed

text \<open>Ledger and history of a wallet agree: per network and asset, the rows sum up to the closing balance.\<close>

definition agree :: "string \<Rightarrow> ('d :: linordered_idom) wallet_ledger_record list \<Rightarrow> 'd bh_row list \<Rightarrow> bool" where
  "agree wallet L T \<longleftrightarrow> (\<forall>k. net_wl k (filter (\<lambda>r. wl_wallet_address r = wallet) L) = closing_balance T wallet k)"

lemma agree_empty: "agree wallet [] []" "balanced []"
  by (simp_all add: agree_def closing_balance_def balanced_def)

lemma replaced_rows:
  assumes "distinct (map wl_id rs)" "wl_id ` set rs \<inter> wl_id ` set rows = {}"
    and "\<forall>r \<in> set rows. wl_wallet_address r = wallet \<longrightarrow> (\<forall>i. wl_raw_transaction_id r = Some i \<longrightarrow> i \<notin> set inputs)"
  shows "replace_wallet_ledger_records wallet inputs rs rows = rows @ rs"
proof -
  have "filter (\<lambda>r. \<not> (wl_wallet_address r = wallet
         \<and> (case wl_raw_transaction_id r of Some i \<Rightarrow> i \<in> set inputs | None \<Rightarrow> False))) rows = rows"
    using assms(3) by (auto simp: filter_id_conv split: option.split)
  then show ?thesis
    using fold_upsert_absent [OF assms(1,2)] by (simp add: replace_wallet_ledger_records_def write_wallet_ledger_records_def)
qed

text \<open>
  C4. Outside Hyperliquid, the balance the API reports is the balance the history holds. Let the Gold ledger and the
  balance history of a wallet agree, as they do when both are empty, and let a batch of transactions be
  materialized into both: transfers, EVM flows and native changes on networks other than those of Hyperliquid, without
  fills and funding (for Hyperliquid the ledger books fills and funding, the history the native changes). When the ids of the new
  rows are fresh and no row of the wallet names an input transaction yet, and no statement fails, the two tables agree
  again, so the theorem applies to the next batch; and the balance of an asset that the wallet endpoint sums up from the ledger
  equals the sum, over the networks in the history, of the closing balance of that asset, in whatever order the hash map
  yields the groups.
\<close>

theorem api_balance_equals_history:
  assumes hl: "sr_hl_fills s = []" "sr_hl_funding s = []"
      "\<forall>d \<in> set (sr_native_balance_deltas s). \<not> is_hl_network (nbd_network d)"
    and before: "agree (gc_wallet c) rows hist" "balanced hist"
    and evs: "evs = balance_events vh us (gc_wallet c) (gc_raws c) (sr_token_transfers s)
        (sr_native_balance_deltas s) (evm_balance_flows dv c)" "distinct (map be_snapshot_id evs)"
      "be_snapshot_id ` set evs \<inter> row_id ` set hist = {}"
    and ord: "mset (ord (incoming_by_key evs)) = mset (incoming_by_key evs)"
    and T: "T = fst (materialize_balances ord (\<lambda>_. True) True (gc_wallet c) version now hist evs)"
    and rs: "rs = gold_ledger_records vh us dv c s" "distinct (map wl_id rs)" "wl_id ` set rs \<inter> wl_id ` set rows = {}"
    and new: "\<forall>r \<in> set rows. wl_wallet_address r = gc_wallet c \<longrightarrow> (\<forall>i. wl_raw_transaction_id r = Some i \<longrightarrow> i \<notin> set inputs)"
    and db: "db_ledger db = replace_wallet_ledger_records (gc_wallet c) inputs rs rows" "wallet_owned (gc_wallet c) owner db"
  shows "agree (gc_wallet c) (db_ledger db) T \<and> balanced T
    \<and> balance_of (get_wallet_balances_v2 (gc_wallet c) owner None db) a
      = (\<Sum>n \<leftarrow> remdups (map (\<lambda>r. bs_network (bh_snap r)) T). closing_balance T (gc_wallet c) (n, a))"
proof -
  let ?w = "gc_wallet c"
  let ?W = "filter (\<lambda>r. wl_wallet_address r = ?w) (db_ledger db)"
  have ledger: "db_ledger db = rows @ rs" unfolding db(1) by (rule replaced_rows [OF rs(2,3) new])
  have "filter (\<lambda>r. wl_wallet_address r = ?w) rs = rs" by (simp add: rs(1) gold_records_wallet)
  then have W: "?W = filter (\<lambda>r. wl_wallet_address r = ?w) rows @ rs" by (simp add: ledger)
  have net: "net_wl k rs = net_ev k evs" for k unfolding rs(1) evs(1) by (rule ledger_net_eq_events [OF hl])
  note after = closing_balance_batch [where ord = ord, OF before(2) evs(2,3) ord T]
  have agree: "net_wl k ?W = closing_balance T ?w k" for k
    by (simp only: W net_simps net after(2) before(1) [unfolded agree_def, rule_format])
  have "balance_of (get_wallet_balances_v2 ?w owner None db) a = asset_sum a ?W" by (rule balance_of_ledger [OF db(2)])
  also have "\<dots> = (\<Sum>n \<leftarrow> remdups (map wl_network ?W). closing_balance T ?w (n, a))"
    unfolding asset_sum_networks agree ..
  also have "\<dots> = (\<Sum>n \<leftarrow> remdups (map (\<lambda>r. bs_network (bh_snap r)) T). closing_balance T ?w (n, a))"
  proof (rule sum_remdups_support)
    fix n assume n: "closing_balance T ?w (n, a) \<noteq> 0"
    then have "n \<in> wl_network ` set ?W" using net_wl_support [of n a ?W] by (simp add: agree)
    then show "n \<in> set (map wl_network ?W) \<inter> set (map (\<lambda>r. bs_network (bh_snap r)) T)"
      using closing_support [OF n] by simp
  qed
  finally show ?thesis using agree after(1) by (simp add: agree_def)
qed

definition sample_incoming :: "int silver_records" where
  "sample_incoming = self_transfer_records\<lparr>sr_token_transfers := [self_transfer\<lparr>tt_from_address := ''0xcd''\<rparr>]\<rparr>"

definition sample_rows :: "int wallet_ledger_record list" where
  "sample_rows = gold_ledger_records (\<lambda>ns s. 0) (\<lambda>u. ''u'') (\<lambda>a b. a div b) sample_context sample_incoming"

definition sample_events :: "int balance_event list" where
  "sample_events = balance_events (\<lambda>ns s. 0) (\<lambda>u. ''u'') ''0xab'' [] (sr_token_transfers sample_incoming) [] (evm_balance_flows (\<lambda>a b. a div b) sample_context)"

definition sample_history :: "int bh_row list" where
  "sample_history = fst (materialize_balances id (\<lambda>_. True) True ''0xab'' None 5 [] sample_events)"

theorem api_balance_equals_history_witness:
  "balance_of (get_wallet_balances_v2 ''0xab'' None None (sample_tables\<lparr>db_ledger := replace_wallet_ledger_records ''0xab'' [] sample_rows []\<rparr>)) ''TOK''
    = (\<Sum>n \<leftarrow> remdups (map (\<lambda>r. bs_network (bh_snap r)) sample_history). closing_balance sample_history ''0xab'' (n, ''TOK''))
   \<and> balance_of (get_wallet_balances_v2 ''0xab'' None None (sample_tables\<lparr>db_ledger := replace_wallet_ledger_records ''0xab'' [] sample_rows []\<rparr>)) ''TOK'' = 5"
proof
  have c: "gc_wallet sample_context = ''0xab''" "gc_raws sample_context = []" by (simp_all add: sample_context_def)
  have s: "sr_native_balance_deltas sample_incoming = []" "sr_hl_fills sample_incoming = []" "sr_hl_funding sample_incoming = []"
    by (simp_all add: sample_incoming_def self_transfer_records_def)
  have "length sample_events = 1" "length sample_rows = 1" by code_simp+
  then have "distinct (map be_snapshot_id sample_events)" "distinct (map wl_id sample_rows)"
    by (metis One_nat_def distinct_singleton length_0_conv length_Suc_conv length_map)+
  then show "balance_of (get_wallet_balances_v2 ''0xab'' None None (sample_tables\<lparr>db_ledger := replace_wallet_ledger_records ''0xab'' [] sample_rows []\<rparr>)) ''TOK''
    = (\<Sum>n \<leftarrow> remdups (map (\<lambda>r. bs_network (bh_snap r)) sample_history). closing_balance sample_history ''0xab'' (n, ''TOK''))"
    using api_balance_equals_history [where c = sample_context and s = sample_incoming and evs = sample_events and rs = sample_rows
        and T = sample_history and ord = id and version = None and now = 5 and inputs = "[]" and owner = None and a = "''TOK''"
        and rows = "[]" and hist = "[]"
        and vh = "\<lambda>ns s. 0" and us = "\<lambda>u. ''u''" and dv = "\<lambda>a b. a div b"
        and db = "sample_tables\<lparr>db_ledger := replace_wallet_ledger_records ''0xab'' [] sample_rows []\<rparr>"]
    by (simp add: c s sample_events_def sample_rows_def sample_history_def wallet_owned_def agree_empty)
  show "balance_of (get_wallet_balances_v2 ''0xab'' None None (sample_tables\<lparr>db_ledger := replace_wallet_ledger_records ''0xab'' [] sample_rows []\<rparr>)) ''TOK'' = 5"
    by code_simp
qed

end
